(* ===== verification/Prelude.thy ===== *)
theory Prelude
  imports Main "HOL-Library.Word"
begin

unbundle bit_operations_syntax

text \<open>
  Shared vocabulary of the development: the machine types of the C++ sources as word types,
  the proof collections the components fill, and generic facts on lists, slices and in-place
  updates of byte arrays that several components use.

  \<^item> \<open>u8\<close>, \<open>u16\<close>, \<open>u32\<close> stand for \<open>uint8_t\<close>, \<open>uint16_t\<close>, \<open>uint32_t\<close>; their arithmetic wraps.
  \<^item> \<open>size_t\<close> and buffer positions are natural numbers; where the sources add two of them the
    sum is taken modulo \<open>size_range\<close>, the range of \<open>size_t\<close> on the 32-bit Android targets the
    build files name.
  \<^item> \<open>bslice\<close> reads a range of an array, \<open>overwrite\<close> is \<open>memcpy\<close> into the middle of one.
\<close>

type_synonym u8 = "8 word"
type_synonym u16 = "16 word"
type_synonym u32 = "32 word"
type_synonym bytes = "u8 list"

named_theorems hr_simps "evaluation of HRESULT tests on the named codes"
named_theorems mem_simps "memory images of machine integers"
named_theorems role_simps "socket role arithmetic"
named_theorems cmd_simps "evaluation of command sequences"

section \<open>size_t arithmetic\<close>

definition size_range :: nat where
  "size_range = 2 ^ 32"

definition sz_add :: "nat \<Rightarrow> nat \<Rightarrow> nat" where
  "sz_add a b = (a + b) mod size_range"

definition sz_double :: "nat \<Rightarrow> nat" where
  "sz_double a = (2 * a) mod size_range"

lemma sz_add_small: "a + b < size_range \<Longrightarrow> sz_add a b = a + b"
  by (simp add: sz_add_def)

lemma sz_double_small: "2 * a < size_range \<Longrightarrow> sz_double a = 2 * a"
  by (simp add: sz_double_def)

lemma word_of_unat: "unat w = n \<Longrightarrow> w = of_nat n" for w :: "'a::len word"
  by auto

section \<open>C strings\<close>

text \<open>A \<open>char*\<close> is the bytes from the pointer on; the string ends before the first zero byte.\<close>

definition strlen :: "bytes \<Rightarrow> nat" where
  "strlen s = length (takeWhile (\<lambda>c. c \<noteq> 0) s)"

definition cstr :: "bytes \<Rightarrow> bytes" where
  "cstr s = takeWhile (\<lambda>c. c \<noteq> 0) s"

lemma strlen_cstr: "strlen s = length (cstr s)"
  by (simp add: strlen_def cstr_def)

lemma take_strlen: "take (strlen s) s = cstr s"
  by (simp add: strlen_def cstr_def takeWhile_eq_take [symmetric])

lemma cstr_id [simp]: "0 \<notin> set s \<Longrightarrow> cstr s = s"
  by (auto simp: cstr_def takeWhile_eq_all_conv)

lemma strlen_length [simp]: "0 \<notin> set s \<Longrightarrow> strlen s = length s"
  by (simp add: strlen_cstr)

lemma cstr_append_zero [simp]: "cstr (s @ 0 # t) = cstr s"
  by (induction s) (auto simp: cstr_def)

lemma strlen_le: "strlen s \<le> length s"
  by (simp add: strlen_def length_takeWhile_le)

section \<open>Slices and in-place updates\<close>

definition bslice :: "nat \<Rightarrow> nat \<Rightarrow> 'a list \<Rightarrow> 'a list" where
  "bslice off n xs = take n (drop off xs)"

definition overwrite :: "nat \<Rightarrow> 'a list \<Rightarrow> 'a list \<Rightarrow> 'a list" where
  "overwrite off ys xs = take off xs @ ys @ drop (off + length ys) xs"

lemma length_bslice [simp]: "length (bslice off n xs) = min n (length xs - off)"
  by (simp add: bslice_def)

lemma bslice_0 [simp]: "bslice off 0 xs = []"
  by (simp add: bslice_def)

lemma bslice_Nil [simp]: "bslice off n [] = []"
  by (simp add: bslice_def)

lemma bslice_append_left: "off + n \<le> length xs \<Longrightarrow> bslice off n (xs @ ys) = bslice off n xs"
  by (simp add: bslice_def)

lemma bslice_append_right: "length xs \<le> off \<Longrightarrow> bslice off n (xs @ ys) = bslice (off - length xs) n ys"
  by (simp add: bslice_def)

lemma bslice_exact: "length xs = off \<Longrightarrow> length ys = n \<Longrightarrow> bslice off n (xs @ ys @ zs) = ys"
  by (simp add: bslice_def)

lemma bslice_take: "off + n \<le> k \<Longrightarrow> bslice off n (take k xs) = bslice off n xs"
  by (simp add: bslice_def drop_take min_def)

lemma bslice_bslice: "i + n \<le> m \<Longrightarrow> bslice i n (bslice off m xs) = bslice (off + i) n xs"
  by (simp add: bslice_def drop_take min_def add.commute)

lemma bslice_full [simp]: "bslice 0 (length xs) xs = xs"
  by (simp add: bslice_def)

lemma bslice_plus: "bslice off (m + n) xs = bslice off m xs @ bslice (off + m) n xs"
  by (simp add: bslice_def take_add add.commute)

lemma bslice_nth: "i < n \<Longrightarrow> off + i < length xs \<Longrightarrow> bslice off n xs ! i = xs ! (off + i)"
  by (simp add: bslice_def)

lemma length_overwrite [simp]:
  "off + length ys \<le> length xs \<Longrightarrow> length (overwrite off ys xs) = length xs"
  by (simp add: overwrite_def)

lemma take_overwrite_end:
  "off + length ys \<le> length xs \<Longrightarrow> take (off + length ys) (overwrite off ys xs) = take off xs @ ys"
  by (simp add: overwrite_def)

lemma take_overwrite_beyond:
  assumes "off + length ys \<le> n" "n \<le> length xs"
  shows "take n (overwrite off ys xs) = overwrite off ys (take n xs)"
  using assms by (simp add: overwrite_def drop_take)

lemma drop_overwrite:
  "off + length ys \<le> n \<Longrightarrow> off + length ys \<le> length xs \<Longrightarrow> drop n (overwrite off ys xs) = drop n xs"
  by (simp add: overwrite_def)

lemma take_overwrite_before:
  "n \<le> off \<Longrightarrow> off + length ys \<le> length xs \<Longrightarrow> take n (overwrite off ys xs) = take n xs"
  by (simp add: overwrite_def min_def)

lemma overwrite_append_left:
  "off + length ys \<le> length xs \<Longrightarrow> overwrite off ys (xs @ zs) = overwrite off ys xs @ zs"
  by (simp add: overwrite_def)

lemma overwrite_middle:
  "length xs = off \<Longrightarrow> length ys = length ys' \<Longrightarrow> overwrite off ys (xs @ ys' @ zs) = xs @ ys @ zs"
  by (simp add: overwrite_def)

lemma length_eq_2E: "length xs = 2 \<Longrightarrow> \<exists>a b. xs = [a, b]"
  by (cases xs; cases "tl xs") auto

lemma length_eq_4E: "length xs = 4 \<Longrightarrow> \<exists>a b c d. xs = [a, b, c, d]"
  by (cases xs; cases "tl xs"; cases "tl (tl xs)"; cases "tl (tl (tl xs))") auto

section \<open>Padding to a multiple of four\<close>

definition pad4 :: "nat \<Rightarrow> nat" where
  "pad4 n = (if n mod 4 = 0 then 0 else 4 - n mod 4)"

lemma pad4_lt: "pad4 n < 4"
  by (simp add: pad4_def)

lemma pad4_dvd: "4 dvd n + pad4 n"
  unfolding pad4_def by presburger

lemma pad4_mult [simp]: "4 dvd n \<Longrightarrow> pad4 n = 0"
  by (auto simp: pad4_def)

end
