(* ===== verification/FastHash.thy ===== *)
theory FastHash
  imports Prelude
begin

text \<open>
  \<open>src/common/fasthash.h\<close>: \<open>FastHashBase\<close> and its two subclasses, a chained hash table in
  preallocated arrays with a circular index list for access by position.

  A pointer into \<open>_itemnodes\<close> is the position it points to (\<open>None\<close> for NULL), so the bucket
  chains and the free list are linked lists threaded through \<open>fh_itemnodes\<close>. An array pointer
  that is NULL is the empty list. A cell of \<open>fh_nodes\<close> that was never written is \<open>None\<close>. The
  hash function of the key type is a parameter \<open>h\<close> of the operations, as the overloads of
  \<open>FastHash_Hash\<close> choose it by the key's type. The loops that follow chains carry fuel, and
  \<open>find_loop\<close> answers \<open>None\<close> when it runs out; in a well-formed table \<open>fh_fsize\<close> steps are enough.
\<close>

record ItemNode =
  node_index :: nat
  node_pNext :: "nat option"

record ('k, 'v) fasthash =
  fh_fsize :: nat
  fh_tsize :: nat
  fh_nodes :: "('k \<times> 'v) option list"
  fh_itemnodes :: "ItemNode list"
  fh_freelist :: "nat option"
  fh_lookuptable :: "nat option list"
  fh_indexlist :: "nat list"
  fh_fIndexValid :: bool
  fh_indexStart :: nat
  fh_size :: nat

definition FastHash_Hash_unsigned :: "u32 \<Rightarrow> nat" where
  "FastHash_Hash_unsigned x = unat x"

definition FastHash_Hash_signed :: "int \<Rightarrow> nat" where
  "FastHash_Hash_signed x = nat (x mod int size_range)"

text \<open>A \<open>uint16_t\<close> key is promoted to \<open>int\<close>.\<close>

definition FastHash_Hash_u16 :: "u16 \<Rightarrow> nat" where
  "FastHash_Hash_u16 x = FastHash_Hash_signed (uint x)"

abbreviation pnext :: "('k, 'v) fasthash \<Rightarrow> nat \<Rightarrow> nat option" where
  "pnext t i \<equiv> node_pNext (fh_itemnodes t ! i)"

definition item_at :: "('k, 'v) fasthash \<Rightarrow> nat \<Rightarrow> ('k \<times> 'v) option" where
  "item_at t i = fh_nodes t ! node_index (fh_itemnodes t ! i)"

definition set_pNext :: "nat \<Rightarrow> nat option \<Rightarrow> ('k, 'v) fasthash \<Rightarrow> ('k, 'v) fasthash" where
  "set_pNext i p t = t\<lparr>fh_itemnodes := (fh_itemnodes t)[i := (fh_itemnodes t ! i)\<lparr>node_pNext := p\<rparr>]\<rparr>"

text \<open>The probe loop of \<open>Find\<close>: the matching node (or NULL) and the node before it.\<close>

fun find_loop ::
  "('k, 'v) fasthash \<Rightarrow> 'k \<Rightarrow> nat \<Rightarrow> nat option \<Rightarrow> nat option \<Rightarrow> (nat option \<times> nat option) option" where
  "find_loop t key fuel None pPrev = Some (None, pPrev)"
| "find_loop t key 0 (Some i) pPrev = None"
| "find_loop t key (Suc fuel) (Some i) pPrev =
     (if (case item_at t i of None \<Rightarrow> False | Some kv \<Rightarrow> fst kv = key) then Some (Some i, pPrev)
      else find_loop t key fuel (pnext t i) (Some i))"

definition FastHash_Find ::
  "('k \<Rightarrow> nat) \<Rightarrow> 'k \<Rightarrow> ('k, 'v) fasthash \<Rightarrow> nat option \<times> nat \<times> nat option" where
  "FastHash_Find h key t =
     (let hashindex = h key mod fh_tsize t
      in case find_loop t key (fh_fsize t) (fh_lookuptable t ! hashindex) None of
           None \<Rightarrow> (None, hashindex, None)
         | Some (pProbe, pPrev) \<Rightarrow> (pProbe, hashindex, pPrev))"

text \<open>The two nested loops of \<open>ReIndex\<close>.\<close>

fun reindex_chain :: "('k, 'v) fasthash \<Rightarrow> nat \<Rightarrow> nat option \<Rightarrow> nat \<times> nat list \<Rightarrow> nat \<times> nat list" where
  "reindex_chain t fuel None acc = acc"
| "reindex_chain t 0 (Some i) acc = acc"
| "reindex_chain t (Suc fuel) (Some i) (index, il) =
     reindex_chain t fuel (pnext t i) (Suc index, il[index := node_index (fh_itemnodes t ! i)])"

definition FastHash_ReIndex :: "('k, 'v) fasthash \<Rightarrow> ('k, 'v) fasthash" where
  "FastHash_ReIndex t =
     (if fh_indexlist t = [] \<or> fh_size t = 0 then t
      else t\<lparr>fh_indexlist := snd (fold (\<lambda>b. reindex_chain t (fh_fsize t) (fh_lookuptable t ! b))
                                   [0 ..< fh_tsize t] (0, fh_indexlist t)),
             fh_fIndexValid := True, fh_indexStart := 0\<rparr>)"

definition FastHash_UpdateIndexWithAdd :: "nat \<Rightarrow> ('k, 'v) fasthash \<Rightarrow> ('k, 'v) fasthash" where
  "FastHash_UpdateIndexWithAdd pNode t =
     (if fh_fIndexValid t \<and> fh_size t < fh_fsize t \<and> fh_indexlist t \<noteq> []
      then (let pos = (fh_size t + fh_indexStart t) mod fh_fsize t
            in t\<lparr>fh_indexlist := (fh_indexlist t)[pos := node_index (fh_itemnodes t ! pNode)]\<rparr>)
      else t)"

definition FastHash_UpdateIndexWithRemove :: "nat \<Rightarrow> ('k, 'v) fasthash \<Rightarrow> ('k, 'v) fasthash" where
  "FastHash_UpdateIndexWithRemove pNode t =
     (if fh_size t = 0 \<or> fh_indexlist t = [] \<or> (1 < fh_size t \<and> \<not> fh_fIndexValid t) then t
      else if fh_size t = 1 then t\<lparr>fh_fIndexValid := True, fh_indexStart := 0\<rparr>
      else if node_index (fh_itemnodes t ! pNode) = fh_indexlist t ! fh_indexStart t
        then t\<lparr>fh_indexStart := (fh_indexStart t + 1) mod fh_fsize t\<rparr>
      else
        (let indexlast = (fh_indexStart t + (fh_size t - 1)) mod fh_fsize t
         in if node_index (fh_itemnodes t ! pNode) = fh_indexlist t ! indexlast then t
            else t\<lparr>fh_fIndexValid := False\<rparr>))"

definition FastHash_Reset :: "('k, 'v) fasthash \<Rightarrow> ('k, 'v) fasthash" where
  "FastHash_Reset t =
     (let t1 = t\<lparr>fh_lookuptable := replicate (length (fh_lookuptable t)) None\<rparr>;
          t2 = (if 0 < fh_fsize t1 \<and> fh_itemnodes t1 \<noteq> []
                then t1\<lparr>fh_itemnodes :=
                       map (\<lambda>x. \<lparr>node_index = x, node_pNext = (if x = fh_fsize t1 - 1 then None else Some (x + 1))\<rparr>)
                           [0 ..< fh_fsize t1]\<rparr>
                else t1)
      in t2\<lparr>fh_freelist := (if fh_itemnodes t2 = [] then None else Some 0), fh_size := 0,
            fh_fIndexValid := (fh_indexlist t2 \<noteq> []), fh_indexStart := 0\<rparr>)"

definition FastHash_Init ::
  "nat \<Rightarrow> nat \<Rightarrow> ('k \<times> 'v) option list \<Rightarrow> ItemNode list \<Rightarrow> nat option list \<Rightarrow> nat list \<Rightarrow> ('k, 'v) fasthash" where
  "FastHash_Init fsize tsize nodelist itemnodelist table indexlist =
     FastHash_Reset
       \<lparr>fh_fsize = fsize, fh_tsize = tsize, fh_nodes = nodelist, fh_itemnodes = itemnodelist, fh_freelist = None,
        fh_lookuptable = table, fh_indexlist = indexlist, fh_fIndexValid = (indexlist \<noteq> []),
        fh_indexStart = 0, fh_size = 0\<rparr>"

text \<open>
  The constructor of \<open>FastHash\<close> hands its member arrays to \<open>Init\<close>; \<open>FastHashDynamic\<close> allocates
  them. Both start with arrays of the given sizes and indeterminate contents.
\<close>

definition FastHash_new :: "nat \<Rightarrow> nat \<Rightarrow> ('k, 'v) fasthash" where
  "FastHash_new FSIZE TSIZE =
     FastHash_Init FSIZE TSIZE (replicate FSIZE None)
       (replicate FSIZE \<lparr>node_index = 0, node_pNext = None\<rparr>) (replicate TSIZE None) (replicate FSIZE 0)"

definition FastHash_IsValid :: "('k, 'v) fasthash \<Rightarrow> bool" where
  "FastHash_IsValid t \<longleftrightarrow> 0 < fh_tsize t \<and> 0 < fh_fsize t \<and> fh_itemnodes t \<noteq> [] \<and>
     fh_lookuptable t \<noteq> [] \<and> fh_nodes t \<noteq> []"

definition FastHash_Size :: "('k, 'v) fasthash \<Rightarrow> nat" where
  "FastHash_Size t = fh_size t"

definition FastHash_GetMaxCapacity :: "('k, 'v) fasthash \<Rightarrow> nat" where
  "FastHash_GetMaxCapacity t = fh_fsize t"

definition FastHash_GetTableWidth :: "('k, 'v) fasthash \<Rightarrow> nat" where
  "FastHash_GetTableWidth t = fh_tsize t"

definition FastHash_Insert ::
  "('k \<Rightarrow> nat) \<Rightarrow> 'k \<Rightarrow> 'v \<Rightarrow> ('k, 'v) fasthash \<Rightarrow> int \<times> ('k, 'v) fasthash" where
  "FastHash_Insert h key val t =
     (let hashindex = h key mod fh_tsize t;
          pHead = fh_lookuptable t ! hashindex
      in case fh_freelist t of
           None \<Rightarrow> (-1, t)
         | Some pInsert \<Rightarrow>
             (let t1 = t\<lparr>fh_freelist := pnext t pInsert\<rparr>;
                  t2 = t1\<lparr>fh_nodes := (fh_nodes t1)[node_index (fh_itemnodes t1 ! pInsert) := Some (key, val)]\<rparr>;
                  t3 = set_pNext pInsert pHead t2;
                  t4 = t3\<lparr>fh_lookuptable := (fh_lookuptable t3)[hashindex := Some pInsert]\<rparr>;
                  t5 = FastHash_UpdateIndexWithAdd pInsert t4
              in (1, t5\<lparr>fh_size := fh_size t5 + 1\<rparr>)))"

definition FastHash_Remove ::
  "('k \<Rightarrow> nat) \<Rightarrow> 'k \<Rightarrow> ('k, 'v) fasthash \<Rightarrow> int \<times> ('k, 'v) fasthash" where
  "FastHash_Remove h key t =
     (case FastHash_Find h key t of
        (None, _, _) \<Rightarrow> (-1, t)
      | (Some pNode, hashindex, pPrev) \<Rightarrow>
          (let pNext = pnext t pNode;
               t1 = (case pPrev of
                       None \<Rightarrow> t\<lparr>fh_lookuptable := (fh_lookuptable t)[hashindex := pNext]\<rparr>
                     | Some p \<Rightarrow> set_pNext p pNext t);
               t2 = FastHash_UpdateIndexWithRemove pNode t1;
               t3 = set_pNext pNode (fh_freelist t2) t2;
               t4 = t3\<lparr>fh_freelist := Some pNode\<rparr>
           in (1, t4\<lparr>fh_size := fh_size t4 - 1\<rparr>)))"

definition FastHash_Lookup :: "('k \<Rightarrow> nat) \<Rightarrow> 'k \<Rightarrow> ('k, 'v) fasthash \<Rightarrow> 'v option" where
  "FastHash_Lookup h key t =
     (case FastHash_Find h key t of
        (None, _, _) \<Rightarrow> None
      | (Some pNode, _, _) \<Rightarrow> map_option snd (item_at t pNode))"

definition FastHash_Exists :: "('k \<Rightarrow> nat) \<Rightarrow> 'k \<Rightarrow> ('k, 'v) fasthash \<Rightarrow> bool" where
  "FastHash_Exists h key t \<longleftrightarrow> fst (FastHash_Find h key t) \<noteq> None"

text \<open>\<open>LookupByIndex\<close> may rebuild the index list, so it returns the table too.\<close>

definition FastHash_LookupByIndex ::
  "nat \<Rightarrow> ('k, 'v) fasthash \<Rightarrow> ('k \<times> 'v) option \<times> ('k, 'v) fasthash" where
  "FastHash_LookupByIndex index t =
     (if fh_size t \<le> index \<or> fh_indexlist t = [] then (None, t)
      else
        (let t1 = (if \<not> fh_fIndexValid t then FastHash_ReIndex t else t)
         in if \<not> fh_fIndexValid t1 then (None, t1)
            else
              (let indexadjusted = (fh_indexStart t1 + index) mod fh_fsize t1;
                   itemindex = fh_indexlist t1 ! indexadjusted
               in (fh_nodes t1 ! itemindex, t1))))"

definition FastHash_LookupValueByIndex ::
  "nat \<Rightarrow> ('k, 'v) fasthash \<Rightarrow> 'v option \<times> ('k, 'v) fasthash" where
  "FastHash_LookupValueByIndex index t =
     (let (pItem, t1) = FastHash_LookupByIndex index t in (map_option snd pItem, t1))"

end
