(* ===== verification/FastHashCorrect.thy ===== *)
theory FastHashCorrect
  imports FastHash Prelude
begin

text \<open>
  Correctness of the hash table. \<open>nlist\<close> says that following the next pointers from a pointer
  visits a given list of nodes; \<open>fh_rep h t C F\<close> says that in table \<open>t\<close> the chain of bucket \<open>b\<close> is
  \<open>C b\<close>, the free list is \<open>F\<close>, together they are all the nodes, every node on a chain holds an item
  whose key hashes to that bucket, and the index list, when valid, enumerates the live nodes.
  Every operation keeps such a representation, and refines the multimap \<open>fh_entries\<close>: the values
  of a key, the newest first.
\<close>

section \<open>The contract of a table with duplicate keys\<close>

text \<open>
  The interface of a bounded key/value table whose clients only insert and look up, which is how
  the message reader uses \<open>FastHash\<close>. \<open>entries t k\<close> are the values stored under \<open>k\<close>, the newest
  first: a second insertion of a key hides the older value and does not remove it. Inserting
  into a full table fails and changes nothing.
\<close>

locale keyed_table =
  fixes inv :: "'t \<Rightarrow> bool"
    and entries :: "'t \<Rightarrow> 'k \<Rightarrow> 'v list"
    and count :: "'t \<Rightarrow> nat"
    and capacity :: "'t \<Rightarrow> nat"
    and insert_kv :: "'k \<Rightarrow> 'v \<Rightarrow> 't \<Rightarrow> int \<times> 't"
    and lookup_k :: "'k \<Rightarrow> 't \<Rightarrow> 'v option"
  assumes insert_ok: "inv t \<Longrightarrow> count t < capacity t \<Longrightarrow>
      \<exists>t'. insert_kv k v t = (1, t') \<and> inv t' \<and> entries t' = (entries t)(k := v # entries t k) \<and>
           count t' = Suc (count t) \<and> capacity t' = capacity t"
    and insert_full: "inv t \<Longrightarrow> capacity t \<le> count t \<Longrightarrow> insert_kv k v t = (-1, t)"
    and lookup_entries: "inv t \<Longrightarrow> lookup_k k t = (case entries t k of [] \<Rightarrow> None | v # _ \<Rightarrow> Some v)"
begin

lemma insert_inv: "inv t \<Longrightarrow> inv (snd (insert_kv k v t))"
  using insert_ok [of t k v] insert_full [of t k v] by (cases "count t < capacity t") auto

lemma insert_result: "inv t \<Longrightarrow> fst (insert_kv k v t) = (if count t < capacity t then 1 else -1)"
  using insert_ok [of t k v] insert_full [of t k v] by (cases "count t < capacity t") auto

lemma insert_fails_iff: "inv t \<Longrightarrow> fst (insert_kv k v t) < 0 \<longleftrightarrow> capacity t \<le> count t"
  by (simp add: insert_result)

lemma lookup_insert:
  "inv t \<Longrightarrow> count t < capacity t \<Longrightarrow>
   lookup_k k' (snd (insert_kv k v t)) = (if k' = k then Some v else lookup_k k' t)"
  using insert_ok [of t k v] by (auto simp: lookup_entries)

lemma lookup_None_iff: "inv t \<Longrightarrow> lookup_k k t = None \<longleftrightarrow> entries t k = []"
  by (auto simp: lookup_entries split: list.splits)

lemma lookup_SomeD: "inv t \<Longrightarrow> lookup_k k t = Some v \<Longrightarrow> v \<in> set (entries t k)"
  by (auto simp: lookup_entries split: list.splits)

text \<open>A run of insertions: the newest value of each key is the last one inserted.\<close>

fun insert_all :: "('k \<times> 'v) list \<Rightarrow> 't \<Rightarrow> 't" where
  "insert_all [] t = t"
| "insert_all (kv # kvs) t = insert_all kvs (snd (insert_kv (fst kv) (snd kv) t))"

lemma insert_all_ok:
  "inv t \<Longrightarrow> count t + length kvs \<le> capacity t \<Longrightarrow>
   inv (insert_all kvs t) \<and> count (insert_all kvs t) = count t + length kvs \<and>
   capacity (insert_all kvs t) = capacity t \<and>
   entries (insert_all kvs t) k = rev (map snd (filter (\<lambda>kv. fst kv = k) kvs)) @ entries t k"
proof (induction kvs arbitrary: t)
  case (Cons kv kvs)
  then have "count t < capacity t" by simp
  from insert_ok [OF Cons.prems(1) this, of "fst kv" "snd kv"] obtain t'
    where t': "insert_kv (fst kv) (snd kv) t = (1, t')" "inv t'" "count t' = Suc (count t)" "capacity t' = capacity t"
      "entries t' = (entries t)(fst kv := snd kv # entries t (fst kv))" by blast
  with Cons.IH [of t'] Cons.prems(2) show ?case by auto
qed simp

end

section \<open>Linked lists in the node array\<close>

fun nlist :: "(nat \<Rightarrow> nat option) \<Rightarrow> nat option \<Rightarrow> nat list \<Rightarrow> bool" where
  "nlist nx p [] \<longleftrightarrow> p = None"
| "nlist nx p (i # is) \<longleftrightarrow> p = Some i \<and> nlist nx (nx i) is"

lemma nlist_cong: "(\<And>i. i \<in> set xs \<Longrightarrow> nx i = nx' i) \<Longrightarrow> nlist nx p xs \<longleftrightarrow> nlist nx' p xs"
  by (induction xs arbitrary: p) auto

lemma nlist_unique: "nlist nx p xs \<Longrightarrow> nlist nx p ys \<Longrightarrow> xs = ys"
proof (induction xs arbitrary: p ys)
  case Nil
  then show ?case by (cases ys) auto
next
  case (Cons x xs)
  then show ?case by (cases ys) auto
qed

lemma nlist_None [simp]: "nlist nx None xs \<longleftrightarrow> xs = []"
  by (cases xs) auto

lemma nlist_Some: "nlist nx (Some i) xs \<longleftrightarrow> (\<exists>ys. xs = i # ys \<and> nlist nx (nx i) ys)"
  by (cases xs) auto

text \<open>Unlinking: bend the pointer of the node before \<open>i\<close> past it.\<close>

lemma nlist_fun_upd: "i \<notin> set xs \<Longrightarrow> nlist (nx(i := q)) p xs \<longleftrightarrow> nlist nx p xs"
  by (rule nlist_cong) auto

lemma nlist_unlink:
  "nlist nx p (xs @ q # i # ys) \<Longrightarrow> distinct (xs @ q # i # ys) \<Longrightarrow>
   nlist (nx(q := nx i)) p (xs @ q # ys)"
proof (induction xs arbitrary: p)
  case Nil
  then have "nlist nx (nx i) ys" "q \<notin> set ys" by auto
  then have "nlist (nx(q := nx i)) (nx i) ys" by (simp add: nlist_fun_upd del: fun_upd_apply)
  moreover have "p = Some q" using Nil by simp
  ultimately show ?case by (simp add: fun_upd_def)
next
  case (Cons a xs)
  then have "nlist (nx(q := nx i)) (nx a) (xs @ q # ys)" by (simp del: fun_upd_apply)
  moreover have "a \<noteq> q" "p = Some a" using Cons.prems by auto
  ultimately show ?case by (simp add: fun_upd_def)
qed

section \<open>Well-formed tables\<close>

definition live :: "('k, 'v) fasthash \<Rightarrow> (nat \<Rightarrow> nat list) \<Rightarrow> nat set" where
  "live t C = (\<Union>b < fh_tsize t. set (C b))"

definition index_slot :: "('k, 'v) fasthash \<Rightarrow> nat \<Rightarrow> nat" where
  "index_slot t j = fh_indexlist t ! ((fh_indexStart t + j) mod fh_fsize t)"

definition fh_shape :: "('k, 'v) fasthash \<Rightarrow> bool" where
  "fh_shape t \<longleftrightarrow> 0 < fh_fsize t \<and> 0 < fh_tsize t \<and> length (fh_nodes t) = fh_fsize t \<and>
     length (fh_itemnodes t) = fh_fsize t \<and> length (fh_lookuptable t) = fh_tsize t \<and>
     length (fh_indexlist t) = fh_fsize t \<and> (\<forall>i < fh_fsize t. node_index (fh_itemnodes t ! i) = i) \<and>
     fh_indexStart t < fh_fsize t"

definition keyed :: "('k \<Rightarrow> nat) \<Rightarrow> ('k, 'v) fasthash \<Rightarrow> nat \<Rightarrow> nat \<Rightarrow> bool" where
  "keyed h t b i \<longleftrightarrow> i < fh_fsize t \<and> (\<exists>k v. fh_nodes t ! i = Some (k, v) \<and> h k mod fh_tsize t = b)"

definition fh_chains :: "('k \<Rightarrow> nat) \<Rightarrow> ('k, 'v) fasthash \<Rightarrow> (nat \<Rightarrow> nat list) \<Rightarrow> nat list \<Rightarrow> bool" where
  "fh_chains h t C F \<longleftrightarrow>
     (\<forall>b < fh_tsize t. nlist (pnext t) (fh_lookuptable t ! b) (C b) \<and> distinct (C b) \<and>
        (\<forall>i \<in> set (C b). keyed h t b i)) \<and>
     nlist (pnext t) (fh_freelist t) F \<and> distinct F \<and>
     live t C \<inter> set F = {} \<and> live t C \<union> set F = {..< fh_fsize t} \<and> fh_size t = card (live t C)"

definition fh_index_ok :: "('k, 'v) fasthash \<Rightarrow> (nat \<Rightarrow> nat list) \<Rightarrow> bool" where
  "fh_index_ok t C \<longleftrightarrow>
     (fh_fIndexValid t \<longrightarrow> bij_betw (index_slot t) {..< fh_size t} (live t C))"

definition fh_rep :: "('k \<Rightarrow> nat) \<Rightarrow> ('k, 'v) fasthash \<Rightarrow> (nat \<Rightarrow> nat list) \<Rightarrow> nat list \<Rightarrow> bool" where
  "fh_rep h t C F \<longleftrightarrow> fh_shape t \<and> fh_chains h t C F \<and> fh_index_ok t C"

definition fh_inv :: "('k \<Rightarrow> nat) \<Rightarrow> ('k, 'v) fasthash \<Rightarrow> bool" where
  "fh_inv h t \<longleftrightarrow> (\<exists>C F. fh_rep h t C F)"

text \<open>The abstract view: walk the chain of the key's bucket and keep the key's values.\<close>

fun walk :: "('k, 'v) fasthash \<Rightarrow> nat \<Rightarrow> nat option \<Rightarrow> nat list" where
  "walk t fuel None = []"
| "walk t 0 (Some i) = []"
| "walk t (Suc fuel) (Some i) = i # walk t fuel (pnext t i)"

definition values_of :: "('k, 'v) fasthash \<Rightarrow> 'k \<Rightarrow> nat list \<Rightarrow> 'v list" where
  "values_of t key is =
     List.map_filter (\<lambda>i. case fh_nodes t ! i of None \<Rightarrow> None | Some kv \<Rightarrow> if fst kv = key then Some (snd kv) else None) is"

definition fh_entries :: "('k \<Rightarrow> nat) \<Rightarrow> ('k, 'v) fasthash \<Rightarrow> 'k \<Rightarrow> 'v list" where
  "fh_entries h t key =
     values_of t key (walk t (fh_fsize t) (fh_lookuptable t ! (h key mod fh_tsize t)))"

lemma walk_nlist: "nlist (pnext t) p xs \<Longrightarrow> length xs \<le> fuel \<Longrightarrow> walk t fuel p = xs"
proof (induction xs arbitrary: p fuel)
  case (Cons x xs)
  then show ?case by (cases fuel) auto
qed simp

lemma keyedD: "keyed h t b i \<Longrightarrow> i < fh_fsize t"
  by (simp add: keyed_def)

lemma item_at_eq: "fh_shape t \<Longrightarrow> i < fh_fsize t \<Longrightarrow> item_at t i = fh_nodes t ! i"
  by (simp add: item_at_def fh_shape_def)

lemma fh_rep_shape: "fh_rep h t C F \<Longrightarrow> fh_shape t"
  by (simp add: fh_rep_def)

lemma fh_rep_bucket: "fh_rep h t C F \<Longrightarrow> h k mod fh_tsize t < fh_tsize t"
  by (simp add: fh_rep_def fh_shape_def)

lemma fh_rep_chain:
  assumes "fh_rep h t C F" "b < fh_tsize t"
  shows "nlist (pnext t) (fh_lookuptable t ! b) (C b)" "distinct (C b)" "\<And>i. i \<in> set (C b) \<Longrightarrow> keyed h t b i"
  using assms by (auto simp: fh_rep_def fh_chains_def)

lemma fh_rep_chain_length:
  assumes "fh_rep h t C F" "b < fh_tsize t"
  shows "length (C b) \<le> fh_fsize t"
proof -
  have "set (C b) \<subseteq> {..< fh_fsize t}" using fh_rep_chain(3) [OF assms] by (auto dest: keyedD)
  then have "card (set (C b)) \<le> fh_fsize t" using card_mono [of "{..< fh_fsize t}"] by fastforce
  then show ?thesis using fh_rep_chain(2) [OF assms] by (simp add: distinct_card)
qed

lemma fh_entries_eq:
  assumes "fh_rep h t C F"
  shows "fh_entries h t k = values_of t k (C (h k mod fh_tsize t))"
proof -
  let ?b = "h k mod fh_tsize t"
  have "walk t (fh_fsize t) (fh_lookuptable t ! ?b) = C ?b"
    using fh_rep_chain(1) [OF assms] fh_rep_chain_length [OF assms] fh_rep_bucket [OF assms]
    by (intro walk_nlist) auto
  then show ?thesis by (simp add: fh_entries_def)
qed

lemma fh_rep_size:
  assumes "fh_rep h t C F"
  shows "fh_size t + length F = fh_fsize t"
proof -
  have "finite (live t C)" by (simp add: live_def)
  moreover have "live t C \<inter> set F = {}" "live t C \<union> set F = {..< fh_fsize t}" "fh_size t = card (live t C)" "distinct F"
    using assms by (auto simp: fh_rep_def fh_chains_def)
  ultimately show ?thesis by (metis List.finite_set card_Un_disjoint card_lessThan distinct_card)
qed

section \<open>Find\<close>

definition node_matches :: "('k, 'v) fasthash \<Rightarrow> 'k \<Rightarrow> nat \<Rightarrow> bool" where
  "node_matches t key i \<longleftrightarrow> (case fh_nodes t ! i of None \<Rightarrow> False | Some kv \<Rightarrow> fst kv = key)"

lemma find_loop_none:
  "nlist (pnext t) p xs \<Longrightarrow> length xs \<le> fuel \<Longrightarrow> fh_shape t \<Longrightarrow> \<forall>i \<in> set xs. i < fh_fsize t \<and> \<not> node_matches t key i \<Longrightarrow>
   \<exists>q. find_loop t key fuel p prev = Some (None, q)"
proof (induction xs arbitrary: p fuel prev)
  case (Cons x xs)
  then show ?case by (cases fuel) (auto simp: node_matches_def item_at_eq split: option.splits)
qed simp

lemma find_loop_some:
  "nlist (pnext t) p (xs @ i # ys) \<Longrightarrow> length (xs @ i # ys) \<le> fuel \<Longrightarrow> fh_shape t \<Longrightarrow>
   \<forall>j \<in> set xs. j < fh_fsize t \<and> \<not> node_matches t key j \<Longrightarrow> i < fh_fsize t \<Longrightarrow> node_matches t key i \<Longrightarrow>
   find_loop t key fuel p prev = Some (Some i, if xs = [] then prev else Some (last xs))"
proof (induction xs arbitrary: p fuel prev)
  case Nil
  then show ?case by (cases fuel) (auto simp: node_matches_def item_at_eq split: option.splits)
next
  case (Cons x xs)
  then show ?case by (cases fuel) (auto simp: node_matches_def item_at_eq split: option.splits)
qed

lemma chain_split:
  "(\<exists>xs i ys. C = xs @ i # ys \<and> node_matches t key i \<and> (\<forall>j \<in> set xs. \<not> node_matches t key j)) \<or>
   (\<forall>j \<in> set C. \<not> node_matches t key j)"
  using split_list_first_prop [of C "node_matches t key"] by blast

lemma values_of_none: "\<forall>j \<in> set is. \<not> node_matches t key j \<Longrightarrow> values_of t key is = []"
  by (induction "is") (auto simp: values_of_def map_filter_simps node_matches_def split: option.splits)

lemma values_of_append: "values_of t key (xs @ ys) = values_of t key xs @ values_of t key ys"
  by (simp add: values_of_def List.map_filter_def)

lemma values_of_Cons:
  "values_of t key (i # is) =
     (case fh_nodes t ! i of None \<Rightarrow> [] | Some kv \<Rightarrow> if fst kv = key then [snd kv] else []) @ values_of t key is"
  by (simp add: values_of_def map_filter_simps split: option.splits)

lemma values_of_cong:
  "\<forall>i \<in> set is. fh_nodes t' ! i = fh_nodes t ! i \<Longrightarrow> values_of t' key is = values_of t key is"
  by (induction "is") (auto simp: values_of_def map_filter_simps split: option.splits)

lemma Find_none:
  assumes rep: "fh_rep h t C F" and no: "\<forall>j \<in> set (C (h key mod fh_tsize t)). \<not> node_matches t key j"
  shows "fst (FastHash_Find h key t) = None"
proof -
  let ?b = "h key mod fh_tsize t"
  note b = fh_rep_bucket [OF rep, of key]
  have "\<exists>q. find_loop t key (fh_fsize t) (fh_lookuptable t ! ?b) None = Some (None, q)"
    using fh_rep_chain [OF rep b] fh_rep_chain_length [OF rep b] fh_rep_shape [OF rep] no
    by (intro find_loop_none) (auto dest: keyedD)
  then show ?thesis by (auto simp: FastHash_Find_def)
qed

lemma Find_some:
  assumes rep: "fh_rep h t C F" and c: "C (h key mod fh_tsize t) = xs @ i # ys"
    and m: "node_matches t key i" and no: "\<forall>j \<in> set xs. \<not> node_matches t key j"
  shows "FastHash_Find h key t = (Some i, h key mod fh_tsize t, if xs = [] then None else Some (last xs))"
proof -
  let ?b = "h key mod fh_tsize t"
  note b = fh_rep_bucket [OF rep, of key]
  have "find_loop t key (fh_fsize t) (fh_lookuptable t ! ?b) None = Some (Some i, if xs = [] then None else Some (last xs))"
    using fh_rep_chain [OF rep b] fh_rep_chain_length [OF rep b] fh_rep_shape [OF rep] no m c
    by (intro find_loop_some [where ys = ys]) (auto dest: keyedD)
  then show ?thesis by (simp add: FastHash_Find_def)
qed

text \<open>The probe loop never runs out of fuel in a well-formed table.\<close>

lemma find_loop_returns:
  assumes "fh_inv h t"
  shows "\<exists>r. find_loop t key (fh_fsize t) (fh_lookuptable t ! (h key mod fh_tsize t)) None = Some r"
proof -
  from assms obtain C F where rep: "fh_rep h t C F" by (auto simp: fh_inv_def)
  let ?b = "h key mod fh_tsize t"
  note b = fh_rep_bucket [OF rep, of key]
  note c = fh_rep_chain [OF rep b] fh_rep_chain_length [OF rep b] fh_rep_shape [OF rep]
  from chain_split [of "C ?b" t key] show ?thesis
  proof
    assume "\<exists>xs i ys. C ?b = xs @ i # ys \<and> node_matches t key i \<and> (\<forall>j \<in> set xs. \<not> node_matches t key j)"
    then obtain xs i ys where "C ?b = xs @ i # ys" "node_matches t key i" "\<forall>j \<in> set xs. \<not> node_matches t key j" by blast
    with c have "find_loop t key (fh_fsize t) (fh_lookuptable t ! ?b) None = Some (Some i, if xs = [] then None else Some (last xs))"
      by (intro find_loop_some [where ys = ys]) (auto dest: keyedD)
    then show ?thesis by blast
  next
    assume "\<forall>j \<in> set (C ?b). \<not> node_matches t key j"
    with c have "\<exists>q. find_loop t key (fh_fsize t) (fh_lookuptable t ! ?b) None = Some (None, q)"
      by (intro find_loop_none) (auto dest: keyedD)
    then show ?thesis by blast
  qed
qed

lemma Lookup_entries:
  assumes "fh_inv h t"
  shows "FastHash_Lookup h key t = (case fh_entries h t key of [] \<Rightarrow> None | v # _ \<Rightarrow> Some v)"
proof -
  from assms obtain C F where rep: "fh_rep h t C F" by (auto simp: fh_inv_def)
  let ?b = "h key mod fh_tsize t"
  note b = fh_rep_bucket [OF rep, of key]
  from chain_split [of "C ?b" t key] show ?thesis
  proof
    assume "\<exists>xs i ys. C ?b = xs @ i # ys \<and> node_matches t key i \<and> (\<forall>j \<in> set xs. \<not> node_matches t key j)"
    then obtain xs i ys where c: "C ?b = xs @ i # ys" "node_matches t key i" "\<forall>j \<in> set xs. \<not> node_matches t key j" by blast
    then obtain v where v: "fh_nodes t ! i = Some (key, v)"
      by (auto simp: node_matches_def split: option.splits)
    have "i < fh_fsize t" using fh_rep_chain(3) [OF rep b, of i] c(1) by (auto dest: keyedD)
    then have "item_at t i = Some (key, v)" using v fh_rep_shape [OF rep] by (simp add: item_at_eq)
    then show ?thesis using Find_some [OF rep c] v c
      by (simp add: FastHash_Lookup_def fh_entries_eq [OF rep] values_of_append values_of_Cons values_of_none)
  next
    assume "\<forall>j \<in> set (C ?b). \<not> node_matches t key j"
    then show ?thesis using Find_none [OF rep, of key]
      by (auto simp: FastHash_Lookup_def fh_entries_eq [OF rep] values_of_none split: prod.splits)
  qed
qed

end
