(* ===== verification/FastHashOps.thy ===== *)
theory FastHashOps
  imports FastHashCorrect
begin

text \<open>
  The operations that change the hash table: each keeps a representation \<open>fh_rep\<close> and does to
  the multimap \<open>fh_entries\<close> and to the set of live nodes what its name says. \<open>Reset\<close> empties the
  table, \<open>Insert\<close> pushes a value in front of its key's values, \<open>Remove\<close> drops the newest one,
  \<open>ReIndex\<close> changes nothing but the index list.
\<close>

section \<open>Reset and construction\<close>

definition fh_sized :: "('k, 'v) fasthash \<Rightarrow> bool" where
  "fh_sized t \<longleftrightarrow> 0 < fh_fsize t \<and> 0 < fh_tsize t \<and> length (fh_nodes t) = fh_fsize t \<and>
     length (fh_itemnodes t) = fh_fsize t \<and> length (fh_lookuptable t) = fh_tsize t \<and>
     length (fh_indexlist t) = fh_fsize t"

lemma fh_shape_sized: "fh_shape t \<Longrightarrow> fh_sized t"
  by (simp add: fh_shape_def fh_sized_def)

lemma nlist_upt: "k < n \<Longrightarrow> (\<And>x. x < n \<Longrightarrow> nx x = (if x = n - 1 then None else Some (x + 1))) \<Longrightarrow> nlist nx (Some k) [k ..< n]"
proof (induction "n - k" arbitrary: k)
  case (Suc d)
  show ?case
  proof (cases "Suc k = n")
    case True
    then show ?thesis using Suc.prems by (auto simp: upt_rec)
  next
    case False
    then have "nlist nx (Some (Suc k)) [Suc k ..< n]" using Suc by auto
    moreover have "nx k = Some (Suc k)" using Suc.prems False by auto
    ultimately show ?thesis using Suc.prems(1) by (simp add: upt_conv_Cons)
  qed
qed simp

lemma live_empty [simp]: "live t (\<lambda>_. []) = {}"
  by (simp add: live_def)

lemma Reset_rep:
  assumes "fh_sized t"
  shows "fh_rep h (FastHash_Reset t) (\<lambda>_. []) [0 ..< fh_fsize t]"
proof -
  let ?t = "FastHash_Reset t"
  from assms have ne: "fh_itemnodes t \<noteq> []" "0 < fh_fsize t" by (auto simp: fh_sized_def)
  have f: "fh_fsize ?t = fh_fsize t" "fh_tsize ?t = fh_tsize t" "fh_size ?t = 0" "fh_indexStart ?t = 0"
    "fh_freelist ?t = Some 0" "fh_lookuptable ?t = replicate (length (fh_lookuptable t)) None"
    "fh_nodes ?t = fh_nodes t" "fh_indexlist ?t = fh_indexlist t"
    "fh_itemnodes ?t = map (\<lambda>x. \<lparr>node_index = x, node_pNext = (if x = fh_fsize t - 1 then None else Some (x + 1))\<rparr>) [0 ..< fh_fsize t]"
    using ne by (simp_all add: FastHash_Reset_def Let_def)
  have shape: "fh_shape ?t" using assms by (simp add: fh_shape_def f fh_sized_def)
  moreover have "nlist (pnext ?t) (Some 0) [0 ..< fh_fsize t]"
    using ne by (intro nlist_upt) (simp_all add: f)
  then have "fh_chains h ?t (\<lambda>_. []) [0 ..< fh_fsize t]"
    using assms by (auto simp: fh_chains_def fh_sized_def f simp del: fun_upd_apply)
  moreover have "fh_index_ok ?t (\<lambda>_. [])" by (simp add: fh_index_ok_def f bij_betw_def)
  ultimately show ?thesis by (simp add: fh_rep_def)
qed

lemma FastHash_new_rep:
  assumes "0 < FSIZE" "0 < TSIZE"
  shows "fh_rep h (FastHash_new FSIZE TSIZE) (\<lambda>_. []) [0 ..< FSIZE]"
proof -
  define t :: "('a, 'b) fasthash" where
    "t = \<lparr>fh_fsize = FSIZE, fh_tsize = TSIZE, fh_nodes = replicate FSIZE None,
          fh_itemnodes = replicate FSIZE \<lparr>node_index = 0, node_pNext = None\<rparr>, fh_freelist = None,
          fh_lookuptable = replicate TSIZE None, fh_indexlist = replicate FSIZE 0,
          fh_fIndexValid = True, fh_indexStart = 0, fh_size = 0\<rparr>"
  have "fh_sized t" using assms by (simp add: fh_sized_def t_def)
  moreover have "fh_fsize t = FSIZE" by (simp add: t_def)
  moreover have "FastHash_new FSIZE TSIZE = FastHash_Reset t"
    using assms by (simp add: FastHash_new_def FastHash_Init_def t_def)
  ultimately show ?thesis using Reset_rep [of t h] by simp
qed

lemma fh_rep_empty_entries: "fh_rep h t (\<lambda>_. []) F \<Longrightarrow> fh_entries h t = (\<lambda>_. [])"
  by (simp add: fh_entries_eq values_of_def map_filter_simps fun_eq_iff)

lemma fh_rep_empty_size: "fh_rep h t (\<lambda>_. []) F \<Longrightarrow> fh_size t = 0"
  by (simp add: fh_rep_def fh_chains_def)

lemma FastHash_new_ok:
  fixes h :: "'k \<Rightarrow> nat"
  assumes "0 < FSIZE" "0 < TSIZE" and t: "t = (FastHash_new FSIZE TSIZE :: ('k, 'v) fasthash)"
  shows "fh_inv h t" "fh_entries h t = (\<lambda>_. [])" "fh_size t = 0" "fh_fsize t = FSIZE"
proof -
  have rep: "fh_rep h t (\<lambda>_. []) [0 ..< FSIZE]" using FastHash_new_rep [OF assms(1,2), of h] t by simp
  show "fh_inv h t" using rep by (auto simp: fh_inv_def)
  show "fh_entries h t = (\<lambda>_. [])" by (rule fh_rep_empty_entries [OF rep])
  show "fh_size t = 0" by (rule fh_rep_empty_size [OF rep])
  with fh_rep_size [OF rep] show "fh_fsize t = FSIZE" by simp
qed

section \<open>The circular index\<close>

lemma circular_le:
  assumes "(s + a) mod n = (s + b) mod n" "a \<le> b" "b < (n::nat)"
  shows "a = b"
proof -
  have "n dvd (s + b) - (s + a)" using assms by (subst (asm) eq_commute) (simp add: mod_eq_dvd_iff_nat)
  then have "n dvd b - a" by simp
  then show ?thesis using assms(2,3) by (auto dest: dvd_imp_le)
qed

lemma circular_inj:
  assumes "(s + a) mod n = (s + b) mod n" "a < n" "b < (n::nat)"
  shows "a = b"
  using circular_le [of s a n b] circular_le [of s b n a] assms by (cases "a \<le> b") auto

lemma circular_Suc: "((s + 1) mod n + j) mod n = (s + Suc j) mod (n::nat)"
  by (simp add: mod_add_left_eq)

lemma bij_betw_extend:
  assumes "bij_betw f {..< n} A" "x \<notin> A" "\<And>j. j < n \<Longrightarrow> g j = f j" "g n = x"
  shows "bij_betw g {..< Suc n} (insert x A)"
proof -
  have "bij_betw g {..< n} A" using assms(1) by (subst bij_betw_cong [where g = f]) (simp_all add: assms(3))
  moreover have "bij_betw g {n} {x}" by (simp add: bij_betw_def assms(4))
  ultimately have "bij_betw g ({..< n} \<union> {n}) (A \<union> {x})" using assms(2) by (intro bij_betw_combine) auto
  then show ?thesis by (simp add: lessThan_Suc insert_absorb)
qed

lemma bij_betw_drop_last:
  assumes "bij_betw f {..< Suc n} A" shows "bij_betw f {..< n} (A - {f n})"
proof -
  have "inj_on f {..< Suc n}" "f ` {..< Suc n} = A" using assms by (auto simp: bij_betw_def)
  then have "A - {f n} = f ` {..< n}"
    by (auto simp: lessThan_Suc inj_on_def)
  then show ?thesis using \<open>inj_on f {..< Suc n}\<close> by (auto simp: bij_betw_def inj_on_def)
qed

lemma bij_betw_drop_first:
  assumes "bij_betw f {..< Suc n} A" shows "bij_betw (\<lambda>j. f (Suc j)) {..< n} (A - {f 0})"
proof -
  have inj: "inj_on f {..< Suc n}" and A: "f ` {..< Suc n} = A" using assms by (auto simp: bij_betw_def)
  have "A - {f 0} = (\<lambda>j. f (Suc j)) ` {..< n}"
    using inj by (auto simp: A [symmetric] inj_on_def image_iff) (metis Suc_less_eq lessThan_iff not0_implies_Suc)
  then show ?thesis using inj by (auto simp: bij_betw_def inj_on_def)
qed

section \<open>Insert\<close>

lemma FastHash_Insert_full: "fh_freelist t = None \<Longrightarrow> FastHash_Insert h key val t = (-1, t)"
  by (simp add: FastHash_Insert_def Let_def)

text \<open>What \<open>Insert\<close> leaves in each field when the free list starts with node \<open>i\<close>.\<close>

lemma FastHash_Insert_fields:
  assumes shape: "fh_shape t" and free: "fh_freelist t = Some i" and i: "i < fh_fsize t"
    and sz: "fh_size t < fh_fsize t" and t': "t' = snd (FastHash_Insert h key val t)"
  shows "fst (FastHash_Insert h key val t) = 1" "fh_fsize t' = fh_fsize t" "fh_tsize t' = fh_tsize t"
    "fh_nodes t' = (fh_nodes t)[i := Some (key, val)]"
    "fh_itemnodes t' = (fh_itemnodes t)[i := (fh_itemnodes t ! i)\<lparr>node_pNext := fh_lookuptable t ! (h key mod fh_tsize t)\<rparr>]"
    "fh_freelist t' = pnext t i" "fh_lookuptable t' = (fh_lookuptable t)[h key mod fh_tsize t := Some i]"
    "fh_indexlist t' = (if fh_fIndexValid t then (fh_indexlist t)[(fh_indexStart t + fh_size t) mod fh_fsize t := i] else fh_indexlist t)"
    "fh_fIndexValid t' = fh_fIndexValid t" "fh_indexStart t' = fh_indexStart t" "fh_size t' = Suc (fh_size t)"
proof -
  have len: "length (fh_itemnodes t) = fh_fsize t" "node_index (fh_itemnodes t ! i) = i" "fh_indexlist t \<noteq> []"
    using shape i by (auto simp: fh_shape_def)
  note defs = FastHash_Insert_def FastHash_UpdateIndexWithAdd_def set_pNext_def Let_def free t'
  show "fst (FastHash_Insert h key val t) = 1" by (simp add: defs)
  show "fh_fsize t' = fh_fsize t" "fh_tsize t' = fh_tsize t" "fh_freelist t' = pnext t i"
    "fh_fIndexValid t' = fh_fIndexValid t" "fh_indexStart t' = fh_indexStart t" "fh_size t' = Suc (fh_size t)"
    by (simp_all add: defs)
  show "fh_nodes t' = (fh_nodes t)[i := Some (key, val)]"
    "fh_itemnodes t' = (fh_itemnodes t)[i := (fh_itemnodes t ! i)\<lparr>node_pNext := fh_lookuptable t ! (h key mod fh_tsize t)\<rparr>]"
    "fh_lookuptable t' = (fh_lookuptable t)[h key mod fh_tsize t := Some i]"
    "fh_indexlist t' = (if fh_fIndexValid t then (fh_indexlist t)[(fh_indexStart t + fh_size t) mod fh_fsize t := i] else fh_indexlist t)"
    using len i sz by (simp_all add: defs add.commute)
qed

lemma node_pNext_update [simp]: "node_pNext (r\<lparr>node_pNext := p\<rparr>) = p" "node_index (r\<lparr>node_pNext := p\<rparr>) = node_index r"
  by simp_all

lemma pnext_set:
  "i < length (fh_itemnodes t) \<Longrightarrow> fh_itemnodes t' = (fh_itemnodes t)[i := (fh_itemnodes t ! i)\<lparr>node_pNext := p\<rparr>] \<Longrightarrow>
   pnext t' = (pnext t)(i := p)"
  by (auto simp: fun_eq_iff nth_list_update)

lemma node_index_set:
  "fh_itemnodes t' = (fh_itemnodes t)[i := (fh_itemnodes t ! i)\<lparr>node_pNext := p\<rparr>] \<Longrightarrow> i < length (fh_itemnodes t) \<Longrightarrow>
   node_index (fh_itemnodes t' ! j) = node_index (fh_itemnodes t ! j)"
  by (auto simp: nth_list_update)

lemma live_push:
  "b < fh_tsize t \<Longrightarrow> fh_tsize t' = fh_tsize t \<Longrightarrow> live t' (C(b := i # C b)) = insert i (live t C)"
  by (auto simp: live_def split: if_splits)

lemma fh_rep_free: "fh_rep h t C F \<Longrightarrow> nlist (pnext t) (fh_freelist t) F"
  by (simp add: fh_rep_def fh_chains_def)

lemma fh_rep_disjoint: "fh_rep h t C F \<Longrightarrow> i \<in> set F \<Longrightarrow> i \<notin> live t C \<and> i < fh_fsize t"
  by (auto simp: fh_rep_def fh_chains_def)

lemma liveI: "b < fh_tsize t \<Longrightarrow> i \<in> set (C b) \<Longrightarrow> i \<in> live t C"
  by (auto simp: live_def)

lemma Insert_rep:
  assumes rep: "fh_rep h t C (i # F)" and t': "t' = snd (FastHash_Insert h key val t)"
  shows "fh_rep h t' (C(h key mod fh_tsize t := i # C (h key mod fh_tsize t))) F"
    (is "fh_rep h t' ?C F")
proof -
  let ?b = "h key mod fh_tsize t"
  note shape = fh_rep_shape [OF rep] and b = fh_rep_bucket [OF rep, of key]
  have free: "fh_freelist t = Some i" using fh_rep_free [OF rep] by simp
  have i: "i < fh_fsize t" "i \<notin> live t C" using fh_rep_disjoint [OF rep, of i] by auto
  have sz: "fh_size t < fh_fsize t" using fh_rep_size [OF rep] by simp
  note f = FastHash_Insert_fields [OF shape free i(1) sz t']
  have ilen: "i < length (fh_itemnodes t)" using shape i by (simp add: fh_shape_def)
  have nx: "pnext t' = (pnext t)(i := fh_lookuptable t ! ?b)" by (rule pnext_set [OF ilen f(5)])
  have notin: "i \<notin> set (C b')" if "b' < fh_tsize t" for b' using i(2) liveI [of b' t i C] that by auto
  have chains: "\<forall>b' < fh_tsize t. nlist (pnext t) (fh_lookuptable t ! b') (C b') \<and> distinct (C b') \<and> (\<forall>j \<in> set (C b'). keyed h t b' j)"
    and F: "nlist (pnext t) (fh_freelist t) (i # F)" "distinct (i # F)" "live t C \<inter> set (i # F) = {}"
      "live t C \<union> set (i # F) = {..< fh_fsize t}" "fh_size t = card (live t C)"
    using rep by (auto simp: fh_rep_def fh_chains_def)
  have kk: "keyed h t' b' j" if "j \<noteq> i" "keyed h t b' j" for b' j
    using that by (simp add: keyed_def f)
  have ki: "keyed h t' ?b i" using i shape by (simp add: keyed_def f fh_shape_def)
  have shape': "fh_shape t'"
    using shape node_index_set [OF f(5) ilen] by (auto simp: fh_shape_def f)
  have live': "live t' ?C = insert i (live t C)" by (rule live_push [OF b f(3)])
  have finlive: "finite (live t C)" by (simp add: live_def)
  have one: "nlist (pnext t') (fh_lookuptable t' ! b') (?C b') \<and> distinct (?C b') \<and> (\<forall>j \<in> set (?C b'). keyed h t' b' j)"
    if b': "b' < fh_tsize t'" for b'
  proof (cases "b' = ?b")
    case True
    have "nlist (pnext t') (fh_lookuptable t ! ?b) (C ?b)"
      unfolding nx using chains b notin [OF b] by (simp add: nlist_fun_upd del: fun_upd_apply)
    moreover have "fh_lookuptable t' ! ?b = Some i" using shape b by (simp add: f(7) fh_shape_def)
    moreover have "pnext t' i = fh_lookuptable t ! ?b" using nx by (simp add: fun_eq_iff)
    moreover have "\<forall>j \<in> set (C ?b). keyed h t' ?b j" using chains b notin [OF b] kk by metis
    ultimately show ?thesis using True chains b notin [OF b] ki by simp
  next
    case False
    have "nlist (pnext t') (fh_lookuptable t ! b') (C b')"
      unfolding nx using chains b'[unfolded f(3)] notin [OF b'[unfolded f(3)]] by (simp add: nlist_fun_upd del: fun_upd_apply)
    moreover have "fh_lookuptable t' ! b' = fh_lookuptable t ! b'" using False by (simp add: f(7))
    moreover have "\<forall>j \<in> set (C b'). keyed h t' b' j" using chains b'[unfolded f(3)] notin [OF b'[unfolded f(3)]] kk by metis
    ultimately show ?thesis using False chains b'[unfolded f(3)] by simp
  qed
  have "fh_chains h t' ?C F"
    unfolding fh_chains_def live' f(2)
    using one F i finlive nlist_fun_upd [of i F "pnext t"] unfolding f(6,11) nx by auto
  moreover have "fh_index_ok t' ?C"
    unfolding fh_index_ok_def live' f
  proof
    assume v: "fh_fIndexValid t"
    with rep have bij: "bij_betw (index_slot t) {..< fh_size t} (live t C)" by (simp add: fh_rep_def fh_index_ok_def)
    have len: "length (fh_indexlist t) = fh_fsize t" using shape by (simp add: fh_shape_def)
    have "index_slot t' j = index_slot t j" if j: "j < fh_size t" for j
    proof -
      have "(fh_indexStart t + fh_size t) mod fh_fsize t \<noteq> (fh_indexStart t + j) mod fh_fsize t"
        using circular_inj [of "fh_indexStart t" "fh_size t" "fh_fsize t" j] j sz by auto
      then show ?thesis by (simp add: index_slot_def f(2,8,10) v nth_list_update_neq)
    qed
    moreover have "index_slot t' (fh_size t) = i" using len sz by (simp add: index_slot_def f v)
    ultimately show "bij_betw (index_slot t') {..< Suc (fh_size t)} (insert i (live t C))"
      using bij i(2) by (intro bij_betw_extend)
  qed
  ultimately show ?thesis using shape' by (simp add: fh_rep_def)
qed

lemma live_upd_same: "fh_tsize t' = fh_tsize t \<Longrightarrow> live t' C = live t C"
  by (simp add: live_def)

lemma nlist_head: "nlist nx p (xs @ i # ys) \<Longrightarrow> xs = [] \<Longrightarrow> p = Some i"
  by simp

lemma FastHash_Insert_ok:
  assumes inv: "fh_inv h t" and sz: "fh_size t < fh_fsize t" and t': "t' = snd (FastHash_Insert h key val t)"
  shows "fst (FastHash_Insert h key val t) = 1" "fh_inv h t'"
    "fh_entries h t' = (fh_entries h t)(key := val # fh_entries h t key)"
    "fh_size t' = Suc (fh_size t)" "fh_fsize t' = fh_fsize t"
proof -
  from inv obtain C F0 where rep0: "fh_rep h t C F0" by (auto simp: fh_inv_def)
  with sz fh_rep_size [OF rep0] obtain i F where F0: "F0 = i # F" by (cases F0) auto
  have rep: "fh_rep h t C (i # F)" using rep0 F0 by simp
  let ?b = "h key mod fh_tsize t"
  note shape = fh_rep_shape [OF rep] and b = fh_rep_bucket [OF rep]
  have free: "fh_freelist t = Some i" using fh_rep_free [OF rep] by simp
  have i: "i < fh_fsize t" "i \<notin> live t C" using fh_rep_disjoint [OF rep, of i] by auto
  note f = FastHash_Insert_fields [OF shape free i(1) sz t'] and rep' = Insert_rep [OF rep t']
  show "fst (FastHash_Insert h key val t) = 1" "fh_size t' = Suc (fh_size t)" "fh_fsize t' = fh_fsize t"
    using f by simp_all
  show "fh_inv h t'" using rep' by (auto simp: fh_inv_def)
  have len: "i < length (fh_nodes t)" using shape i by (simp add: fh_shape_def)
  have same: "values_of t' k (C c) = values_of t k (C c)" if "c < fh_tsize t" for c k
  proof -
    have "\<forall>j \<in> set (C c). i \<noteq> j" using i(2) that liveI [of c t _ C] by blast
    then show ?thesis by (intro values_of_cong) (simp add: f(4))
  qed
  have cons: "values_of t' k (i # js) = (if k = key then [val] else []) @ values_of t' k js" for k js
    using len by (simp add: values_of_Cons f(4))
  show "fh_entries h t' = (fh_entries h t)(key := val # fh_entries h t key)"
  proof (rule ext)
    fix k
    show "fh_entries h t' k = ((fh_entries h t)(key := val # fh_entries h t key)) k"
      using b [of k] b [of key] same [OF b]
      by (simp add: fh_entries_eq [OF rep'] fh_entries_eq [OF rep] f(3) cons)
  qed
qed

lemma fh_size_full_free:
  assumes "fh_inv h t" "fh_fsize t \<le> fh_size t"
  shows "fh_freelist t = None"
proof -
  from assms(1) obtain C F where rep: "fh_rep h t C F" by (auto simp: fh_inv_def)
  with fh_rep_size [OF rep] assms(2) have "length F = 0" by linarith
  with fh_rep_free [OF rep] show ?thesis by simp
qed

interpretation fasthash: keyed_table "fh_inv h" "fh_entries h" fh_size fh_fsize "FastHash_Insert h" "FastHash_Lookup h"
  for h
proof
  fix t :: "('a, 'b) fasthash" and k v
  assume inv: "fh_inv h t"
  show "\<exists>t'. FastHash_Insert h k v t = (1, t') \<and> fh_inv h t' \<and>
      fh_entries h t' = (fh_entries h t)(k := v # fh_entries h t k) \<and> fh_size t' = Suc (fh_size t) \<and> fh_fsize t' = fh_fsize t"
    if "fh_size t < fh_fsize t"
    using FastHash_Insert_ok [OF inv that refl, of k v] by (metis prod.collapse)
  show "FastHash_Insert h k v t = (-1, t)" if "fh_fsize t \<le> fh_size t"
    by (rule FastHash_Insert_full [OF fh_size_full_free [OF inv that]])
  show "FastHash_Lookup h k t = (case fh_entries h t k of [] \<Rightarrow> None | v # x \<Rightarrow> Some v)"
    by (rule Lookup_entries [OF inv])
qed

end
