(* ===== verification/FastHashRemove.thy ===== *)
theory FastHashRemove
  imports FastHashOps "HOL-Library.Multiset"
begin

text \<open>
  The second half of the hash table's correctness: \<open>Remove\<close> unlinks the newest item of a key and
  keeps the index list when it can, \<open>ReIndex\<close> rebuilds it, and \<open>LookupByIndex\<close> enumerates every
  live item exactly once.
\<close>

section \<open>Remove\<close>

lemma UpdateIndexWithRemove_frame:
  "fh_fsize (FastHash_UpdateIndexWithRemove i t) = fh_fsize t"
  "fh_tsize (FastHash_UpdateIndexWithRemove i t) = fh_tsize t"
  "fh_nodes (FastHash_UpdateIndexWithRemove i t) = fh_nodes t"
  "fh_itemnodes (FastHash_UpdateIndexWithRemove i t) = fh_itemnodes t"
  "fh_freelist (FastHash_UpdateIndexWithRemove i t) = fh_freelist t"
  "fh_lookuptable (FastHash_UpdateIndexWithRemove i t) = fh_lookuptable t"
  "fh_indexlist (FastHash_UpdateIndexWithRemove i t) = fh_indexlist t"
  "fh_size (FastHash_UpdateIndexWithRemove i t) = fh_size t"
  by (simp_all add: FastHash_UpdateIndexWithRemove_def Let_def)

lemma index_after_remove:
  assumes shape: "fh_shape t" and ok: "fh_index_ok t C" and i: "i \<in> live t C" and sz: "fh_size t = card (live t C)"
    and f: "fh_fsize t' = fh_fsize t" "fh_indexlist t' = fh_indexlist t" "fh_size t' = fh_size t - 1"
      "fh_fIndexValid t' = fh_fIndexValid (FastHash_UpdateIndexWithRemove i t)"
      "fh_indexStart t' = fh_indexStart (FastHash_UpdateIndexWithRemove i t)"
      "live t' C' = live t C - {i}"
    and idx: "node_index (fh_itemnodes t ! i) = i"
  shows "fh_index_ok t' C' \<and> fh_indexStart t' < fh_fsize t"
proof -
  have fin: "finite (live t C)" by (simp add: live_def)
  have pos: "0 < fh_size t" using i fin sz by (simp add: card_gt_0_iff) auto
  have il: "fh_indexlist t \<noteq> []" "fh_indexStart t < fh_fsize t" using shape by (auto simp: fh_shape_def)
  have "fh_size t = 1 \<or> 1 < fh_size t" using pos by linarith
  then consider (one) "fh_size t = 1" | (invalid) "1 < fh_size t" "\<not> fh_fIndexValid t"
    | (first) "1 < fh_size t" "fh_fIndexValid t" "i = index_slot t 0"
    | (last) "1 < fh_size t" "fh_fIndexValid t" "i \<noteq> index_slot t 0" "i = index_slot t (fh_size t - 1)"
    | (mid) "1 < fh_size t" "fh_fIndexValid t" "i \<noteq> index_slot t 0" "i \<noteq> index_slot t (fh_size t - 1)"
    by blast
  then show ?thesis
  proof cases
    case one
    then have "live t C = {i}" using sz i by (metis card_1_singletonE singletonD)
    then show ?thesis using one f il by (simp add: fh_index_ok_def FastHash_UpdateIndexWithRemove_def bij_betw_def)
  next
    case invalid
    then show ?thesis using f il by (simp add: fh_index_ok_def FastHash_UpdateIndexWithRemove_def)
  next
    case first
    then have "i = fh_indexlist t ! fh_indexStart t" using il by (simp add: index_slot_def)
    then have u: "fh_fIndexValid t'" "fh_indexStart t' = (fh_indexStart t + 1) mod fh_fsize t"
      using f first il idx by (simp_all add: FastHash_UpdateIndexWithRemove_def)
    have "bij_betw (index_slot t) {..< Suc (fh_size t - 1)} (live t C)" using ok first by (simp add: fh_index_ok_def)
    from bij_betw_drop_first [OF this] have "bij_betw (\<lambda>j. index_slot t (Suc j)) {..< fh_size t - 1} (live t C - {i})"
      using first by simp
    moreover have "index_slot t' = (\<lambda>j. index_slot t (Suc j))"
      using circular_Suc by (intro ext) (simp add: index_slot_def f(1,2) u(2))
    ultimately show ?thesis using u il f by (simp add: fh_index_ok_def)
  next
    case last
    then have u: "fh_fIndexValid t'" "fh_indexStart t' = fh_indexStart t"
      using f il idx by (auto simp: FastHash_UpdateIndexWithRemove_def index_slot_def Let_def)
    have "bij_betw (index_slot t) {..< Suc (fh_size t - 1)} (live t C)" using ok last by (simp add: fh_index_ok_def)
    from bij_betw_drop_last [OF this] have "bij_betw (index_slot t) {..< fh_size t - 1} (live t C - {i})" using last by simp
    moreover have "index_slot t' = index_slot t" by (rule ext) (simp add: index_slot_def f(1,2) u(2))
    ultimately show ?thesis using u il f by (simp add: fh_index_ok_def)
  next
    case mid
    then show ?thesis using f il idx
      by (auto simp: fh_index_ok_def FastHash_UpdateIndexWithRemove_def index_slot_def Let_def)
  qed
qed

text \<open>What \<open>Remove\<close> leaves when \<open>Find\<close> answers node \<open>i\<close> behind the chain prefix \<open>xs\<close>.\<close>

lemma FastHash_Remove_fields:
  assumes find: "FastHash_Find h key t = (Some i, b, prev)"
    and t': "t' = snd (FastHash_Remove h key t)"
    and len: "i < length (fh_itemnodes t)" "\<And>p. prev = Some p \<Longrightarrow> p < length (fh_itemnodes t)"
  shows "fst (FastHash_Remove h key t) = 1" "fh_fsize t' = fh_fsize t" "fh_tsize t' = fh_tsize t"
    "fh_nodes t' = fh_nodes t" "fh_freelist t' = Some i" "fh_indexlist t' = fh_indexlist t"
    "fh_lookuptable t' = (if prev = None then (fh_lookuptable t)[b := pnext t i] else fh_lookuptable t)"
    "fh_size t' = fh_size t - 1" "length (fh_itemnodes t') = length (fh_itemnodes t)"
    "pnext t' = (case prev of None \<Rightarrow> pnext t | Some p \<Rightarrow> (pnext t)(p := pnext t i))(i := fh_freelist t)"
    "\<And>j. node_index (fh_itemnodes t' ! j) = node_index (fh_itemnodes t ! j)"
    "fh_fIndexValid t' = fh_fIndexValid (FastHash_UpdateIndexWithRemove i t)"
    "fh_indexStart t' = fh_indexStart (FastHash_UpdateIndexWithRemove i t)"
proof -
  note defs = FastHash_Remove_def find t' Let_def UpdateIndexWithRemove_frame set_pNext_def
  show "fst (FastHash_Remove h key t) = 1" "fh_fsize t' = fh_fsize t" "fh_tsize t' = fh_tsize t"
    "fh_nodes t' = fh_nodes t" "fh_freelist t' = Some i" "fh_indexlist t' = fh_indexlist t"
    "fh_lookuptable t' = (if prev = None then (fh_lookuptable t)[b := pnext t i] else fh_lookuptable t)"
    "fh_size t' = fh_size t - 1" "length (fh_itemnodes t') = length (fh_itemnodes t)"
    by (simp_all add: defs split: option.splits)
  show "pnext t' = (case prev of None \<Rightarrow> pnext t | Some p \<Rightarrow> (pnext t)(p := pnext t i))(i := fh_freelist t)"
    using len by (auto simp: defs fun_eq_iff nth_list_update split: option.splits)
  show "node_index (fh_itemnodes t' ! j) = node_index (fh_itemnodes t ! j)" for j
    using len by (auto simp: defs nth_list_update split: option.splits)
  show "fh_fIndexValid t' = fh_fIndexValid (FastHash_UpdateIndexWithRemove i t)"
    "fh_indexStart t' = fh_indexStart (FastHash_UpdateIndexWithRemove i t)"
    using len by (auto simp: defs FastHash_UpdateIndexWithRemove_def nth_list_update split: option.splits)
qed

lemma chains_apart:
  assumes "fh_rep h t C F" "b < fh_tsize t" "c < fh_tsize t" "b \<noteq> c" "i \<in> set (C b)"
  shows "i \<notin> set (C c)"
proof
  assume "i \<in> set (C c)"
  with assms fh_rep_chain(3) [OF assms(1,2,5)] fh_rep_chain(3) [OF assms(1,3)]
  show False by (fastforce simp: keyed_def)
qed

lemma live_drop:
  assumes rep: "fh_rep h t C F" and b: "b < fh_tsize t" and c: "C b = xs @ i # ys" and k: "fh_tsize t' = fh_tsize t"
  shows "live t' (C(b := xs @ ys)) = live t C - {i}"
proof -
  have other: "i \<notin> set (C c)" if "c < fh_tsize t" "c \<noteq> b" for c
    using chains_apart [OF rep b that(1)] that c by auto
  have "i \<notin> set (xs @ ys)" using fh_rep_chain(2) [OF rep b] c by auto
  moreover have "live t D = (\<Union>c \<in> {..< fh_tsize t} - {b}. set (D c)) \<union> set (D b)" for D
    using b by (auto simp: live_def)
  moreover have "(\<Union>c \<in> {..< fh_tsize t} - {b}. set ((C(b := xs @ ys)) c)) = (\<Union>c \<in> {..< fh_tsize t} - {b}. set (C c))"
    by (intro SUP_cong) auto
  moreover have "live t' (C(b := xs @ ys)) = live t (C(b := xs @ ys))" by (simp add: live_def k)
  ultimately show ?thesis using other by (auto simp: c)
qed

lemma Remove_rep:
  assumes rep: "fh_rep h t C F" and c: "C (h key mod fh_tsize t) = xs @ i # ys"
    and m: "node_matches t key i" and no: "\<forall>j \<in> set xs. \<not> node_matches t key j"
    and t': "t' = snd (FastHash_Remove h key t)"
  shows "fst (FastHash_Remove h key t) = 1 \<and> fh_rep h t' (C(h key mod fh_tsize t := xs @ ys)) (i # F) \<and>
    fh_nodes t' = fh_nodes t \<and> fh_tsize t' = fh_tsize t"
proof -
  let ?b = "h key mod fh_tsize t" and ?C = "C(h key mod fh_tsize t := xs @ ys)"
  let ?prev = "if xs = [] then None else Some (last xs)"
  note shape = fh_rep_shape [OF rep] and b = fh_rep_bucket [OF rep, of key]
  note chain = fh_rep_chain [OF rep]
  have il: "\<And>j. j \<in> set (C ?b) \<Longrightarrow> j < length (fh_itemnodes t)"
    using chain(3) [OF b] shape by (auto dest: keyedD simp: fh_shape_def)
  have ilen: "i < length (fh_itemnodes t)" using il c by simp
  have plen: "?prev = Some p \<Longrightarrow> p < length (fh_itemnodes t)" for p using il c by (auto split: if_splits)
  note f = FastHash_Remove_fields [OF Find_some [OF rep c m no] t' ilen plen]
  have live': "live t' ?C = live t C - {i}" by (rule live_drop [where i = i and ys = ys, OF rep b c f(3)])
  have i: "i \<in> live t C" using c b by (intro liveI) auto
  have iF: "i \<notin> set F" using i rep by (auto simp: fh_rep_def fh_chains_def)
  have nidx: "node_index (fh_itemnodes t ! i) = i" using shape ilen by (simp add: fh_shape_def)
  have sz: "fh_size t = card (live t C)" "fh_index_ok t C" using rep by (auto simp: fh_rep_def fh_chains_def)
  have idx: "fh_index_ok t' ?C \<and> fh_indexStart t' < fh_fsize t"
    by (rule index_after_remove [OF shape sz(2) i sz(1) f(2,6,8,12,13) live' nidx])
  have shape': "fh_shape t'" using shape idx f by (simp add: fh_shape_def)
  have k: "keyed h t' c j = keyed h t c j" for c j by (simp add: keyed_def f(2,3,4))
  have last_in: "last xs \<in> set (C ?b)" if "xs \<noteq> []" using that c by simp
  have nx: "pnext t' = (case ?prev of None \<Rightarrow> pnext t | Some q \<Rightarrow> (pnext t)(q := pnext t i))(i := fh_freelist t)"
    by (rule f(10))
  have pn: "nlist (pnext t') p zs = nlist (case ?prev of None \<Rightarrow> pnext t | Some q \<Rightarrow> (pnext t)(q := pnext t i)) p zs"
    if "i \<notin> set zs" for p zs unfolding nx using that by (simp add: nlist_fun_upd del: fun_upd_apply)
  have one: "nlist (pnext t') (fh_lookuptable t' ! c') (?C c') \<and> distinct (?C c') \<and> (\<forall>j \<in> set (?C c'). keyed h t' c' j)"
    if c': "c' < fh_tsize t" for c'
  proof (cases "c' = ?b")
    case True
    have nl: "nlist (pnext t) (fh_lookuptable t ! ?b) (xs @ i # ys)" and d: "distinct (xs @ i # ys)"
      using chain(1,2) [OF b] c by auto
    have "nlist (pnext t') (fh_lookuptable t' ! ?b) (xs @ ys)"
    proof (cases "xs = []")
      case True
      then show ?thesis using nl d b shape f(7)
        by (simp add: pn nlist_fun_upd fh_shape_def del: fun_upd_apply)
    next
      case False
      then obtain zs z where zs: "xs = zs @ [z]" by (cases xs rule: rev_cases) auto
      have "nlist (pnext t) (fh_lookuptable t ! ?b) (zs @ z # i # ys)" "distinct (zs @ z # i # ys)"
        using nl d zs by simp_all
      from nlist_unlink [OF this] have "nlist ((pnext t)(last xs := pnext t i)) (fh_lookuptable t ! ?b) (xs @ ys)"
        by (simp add: zs del: fun_upd_apply)
      then show ?thesis using False d f(7) by (simp add: pn del: fun_upd_apply)
    qed
    then show ?thesis using True chain(3) [OF b] d c k by auto
  next
    case False
    have "i \<notin> set (C c')" "\<forall>p. ?prev = Some p \<longrightarrow> p \<notin> set (C c')"
      using chains_apart [OF rep b c'] c last_in False by (auto split: if_splits)
    then have "nlist (pnext t') (fh_lookuptable t ! c') (C c')"
      using chain(1) [OF c'] by (simp add: pn nlist_fun_upd del: fun_upd_apply split: option.splits)
    then show ?thesis using False chain(2,3) [OF c'] k f(7) by simp
  qed
  have F: "nlist (pnext t) (fh_freelist t) F" "distinct F" "live t C \<inter> set F = {}" "live t C \<union> set F = {..< fh_fsize t}"
    using rep by (auto simp: fh_rep_def fh_chains_def)
  have "\<forall>p. ?prev = Some p \<longrightarrow> p \<notin> set F" using F(3) last_in liveI [OF b, of _ C] by (auto split: if_splits)
  moreover have nxi: "pnext t' i = fh_freelist t" using fun_cong [OF f(10), of i] by simp
  ultimately have "nlist (pnext t') (fh_freelist t') (i # F)"
    using F(1) iF nxi by (simp add: f(5) pn nlist_fun_upd del: fun_upd_apply split: option.splits)
  moreover have "card (live t C - {i}) = fh_size t - 1" using i sz(1) by (simp add: live_def)
  moreover have "distinct (i # F)" "(live t C - {i}) \<inter> set (i # F) = {}" "(live t C - {i}) \<union> set (i # F) = {..< fh_fsize t}"
    using F iF i by auto
  moreover have "fh_size t' = fh_size t - 1" "fh_fsize t' = fh_fsize t" "fh_tsize t' = fh_tsize t" using f(8) f(2) f(3) by simp_all
  ultimately have "fh_chains h t' ?C (i # F)"
    unfolding fh_chains_def live' using one by (simp del: fun_upd_apply Diff_iff Int_insert_right set_simps)
  then show ?thesis using shape' idx f by (simp add: fh_rep_def)
qed

text \<open>A key either has a first matching node on its chain or no value at all.\<close>

lemma key_cases:
  assumes "fh_rep h t C F"
  obtains (none) "fh_entries h t key = []" "\<forall>j \<in> set (C (h key mod fh_tsize t)). \<not> node_matches t key j"
  | (some) xs i ys where "C (h key mod fh_tsize t) = xs @ i # ys" "node_matches t key i"
      "\<forall>j \<in> set xs. \<not> node_matches t key j" "fh_entries h t key \<noteq> []"
proof (cases "\<forall>j \<in> set (C (h key mod fh_tsize t)). \<not> node_matches t key j")
  case True
  then show thesis by (intro none) (simp_all add: fh_entries_eq [OF assms] values_of_none)
next
  case False
  with chain_split [of "C (h key mod fh_tsize t)" t key] obtain xs i ys
    where c: "C (h key mod fh_tsize t) = xs @ i # ys" "node_matches t key i" "\<forall>j \<in> set xs. \<not> node_matches t key j"
    by blast
  moreover have "fh_entries h t key \<noteq> []" using c(1,2)
    by (auto simp: fh_entries_eq [OF assms] values_of_append values_of_Cons node_matches_def split: option.splits)
  ultimately show thesis by (rule some)
qed

lemma Exists_entries:
  assumes "fh_inv h t" shows "FastHash_Exists h key t \<longleftrightarrow> fh_entries h t key \<noteq> []"
proof -
  from assms obtain C F where rep: "fh_rep h t C F" by (auto simp: fh_inv_def)
  show ?thesis
  proof (rule key_cases [OF rep, of key])
    assume "fh_entries h t key = []" "\<forall>j \<in> set (C (h key mod fh_tsize t)). \<not> node_matches t key j"
    then show ?thesis using Find_none [OF rep] by (simp add: FastHash_Exists_def)
  next
    fix xs i ys
    assume c: "C (h key mod fh_tsize t) = xs @ i # ys" "node_matches t key i" "\<forall>j \<in> set xs. \<not> node_matches t key j"
      and e: "fh_entries h t key \<noteq> []"
    then show ?thesis using Find_some [OF rep c] by (simp add: FastHash_Exists_def)
  qed
qed

lemma Remove_missing:
  assumes "fh_inv h t" "fh_entries h t key = []" shows "FastHash_Remove h key t = (-1, t)"
  using Exists_entries [OF assms(1), of key] assms(2) by (auto simp: FastHash_Exists_def FastHash_Remove_def split: prod.splits)

lemma Remove_ok:
  assumes inv: "fh_inv h t" and e: "fh_entries h t key \<noteq> []" and t': "t' = snd (FastHash_Remove h key t)"
  shows "fst (FastHash_Remove h key t) = 1" "fh_inv h t'"
    "fh_entries h t' = (fh_entries h t)(key := tl (fh_entries h t key))" "fh_size t' = fh_size t - 1"
    "fh_fsize t' = fh_fsize t"
proof -
  from inv obtain C F where rep: "fh_rep h t C F" by (auto simp: fh_inv_def)
  from key_cases [OF rep, of key] e obtain xs i ys where c: "C (h key mod fh_tsize t) = xs @ i # ys"
    and m: "node_matches t key i" and no: "\<forall>j \<in> set xs. \<not> node_matches t key j" by metis
  note r = Remove_rep [OF rep c m no t']
  then have rep': "fh_rep h t' (C(h key mod fh_tsize t := xs @ ys)) (i # F)" by blast
  have n: "fh_nodes t' = fh_nodes t" "fh_tsize t' = fh_tsize t" using r by auto
  show "fst (FastHash_Remove h key t) = 1" "fh_inv h t'" using r by (auto simp: fh_inv_def)
  show "fh_fsize t' = fh_fsize t"
    unfolding t' FastHash_Remove_def by (auto simp: Let_def UpdateIndexWithRemove_frame set_pNext_def split: prod.splits option.splits)
  then show "fh_size t' = fh_size t - 1" using fh_rep_size [OF rep] fh_rep_size [OF rep'] by simp
  have same: "values_of t' k js = values_of t k js" for k js by (simp add: values_of_def n)
  obtain v where v: "fh_nodes t ! i = Some (key, v)" using m by (auto simp: node_matches_def split: option.splits)
  show "fh_entries h t' = (fh_entries h t)(key := tl (fh_entries h t key))"
  proof (rule ext)
    fix k
    show "fh_entries h t' k = ((fh_entries h t)(key := tl (fh_entries h t key))) k"
      using values_of_none [OF no] v
      by (auto simp: fh_entries_eq [OF rep'] fh_entries_eq [OF rep] n same c values_of_append values_of_Cons)
  qed
qed

section \<open>ReIndex and access by position\<close>

definition flat :: "(nat \<Rightarrow> nat list) \<Rightarrow> nat \<Rightarrow> nat list" where
  "flat C n = concat (map C [0 ..< n])"

lemma set_flat: "set (flat C (fh_tsize t)) = live t C"
  by (auto simp: flat_def live_def)

lemma distinct_flat: "fh_rep h t C F \<Longrightarrow> n \<le> fh_tsize t \<Longrightarrow> distinct (flat C n)"
proof (induction n)
  case (Suc n)
  then have "distinct (flat C n)" by simp
  moreover have "distinct (C n)" using fh_rep_chain(2) [OF Suc.prems(1), of n] Suc.prems(2) by simp
  moreover have "set (flat C n) \<inter> set (C n) = {}"
  proof -
    have "set (C b) \<inter> set (C n) = {}" if "b < n" for b
      using chains_apart [OF Suc.prems(1), of b n] Suc.prems(2) that by auto
    then show ?thesis by (fastforce simp: flat_def disjoint_iff)
  qed
  ultimately show ?case by (simp add: flat_def)
qed (simp add: flat_def)

lemma reindex_chain_ok:
  "nlist (pnext t) p xs \<Longrightarrow> length xs \<le> fuel \<Longrightarrow> \<forall>i \<in> set xs. node_index (fh_itemnodes t ! i) = i \<Longrightarrow>
   length zs = length xs \<Longrightarrow>
   reindex_chain t fuel p (length ys, ys @ zs @ rest) = (length (ys @ xs), ys @ xs @ rest)"
proof (induction xs arbitrary: p fuel ys zs)
  case (Cons x xs)
  obtain fuel' where fuel: "fuel = Suc fuel'" using Cons.prems(2) by (cases fuel) auto
  obtain z zs' where zs: "zs = z # zs'" using Cons.prems(4) by (cases zs) auto
  have "reindex_chain t fuel' (pnext t x) (length (ys @ [x]), (ys @ [x]) @ zs' @ rest) = (length ((ys @ [x]) @ xs), (ys @ [x]) @ xs @ rest)"
    using Cons.prems fuel zs by (intro Cons.IH) auto
  then show ?case using Cons.prems fuel zs by simp
qed simp

lemma reindex_fold_ok:
  assumes rep: "fh_rep h t C F" and len: "length zs = length (flat C n)" and n: "n \<le> fh_tsize t"
  shows "fold (\<lambda>b. reindex_chain t (fh_fsize t) (fh_lookuptable t ! b)) [0 ..< n] (0, zs @ rest) =
    (length (flat C n), flat C n @ rest)"
  using len n
proof (induction n arbitrary: zs rest)
  case (Suc n)
  have flat: "flat C (Suc n) = flat C n @ C n" by (simp add: flat_def)
  define z1 z2 where "z1 = take (length (flat C n)) zs" and "z2 = drop (length (flat C n)) zs"
  have z: "zs = z1 @ z2" "length z1 = length (flat C n)" "length z2 = length (C n)"
    using Suc.prems by (auto simp: z1_def z2_def flat)
  have shape: "\<forall>i < fh_fsize t. node_index (fh_itemnodes t ! i) = i" using fh_rep_shape [OF rep] by (simp add: fh_shape_def)
  have b: "n < fh_tsize t" using Suc.prems by simp
  have "\<forall>i \<in> set (C n). node_index (fh_itemnodes t ! i) = i"
    using fh_rep_chain(3) [OF rep b] shape by (auto dest: keyedD)
  from reindex_chain_ok [OF fh_rep_chain(1) [OF rep b] fh_rep_chain_length [OF rep b] this z(3)]
  show ?case using Suc.IH [of z1 "z2 @ rest"] z Suc.prems by (simp add: flat)
qed (simp add: flat_def)

lemma length_flat: "fh_rep h t C F \<Longrightarrow> length (flat C (fh_tsize t)) = fh_size t"
  using distinct_card [OF distinct_flat, of h t C F "fh_tsize t"] by (simp add: set_flat fh_rep_def fh_chains_def)

lemma ReIndex_ok:
  assumes rep: "fh_rep h t C F" and pos: "0 < fh_size t" and t': "t' = FastHash_ReIndex t"
  shows "fh_rep h t' C F \<and> fh_fIndexValid t' \<and> fh_size t' = fh_size t \<and> fh_fsize t' = fh_fsize t \<and>
    fh_nodes t' = fh_nodes t \<and> fh_indexlist t' \<noteq> [] \<and> fh_entries h t' = fh_entries h t"
proof -
  let ?il = "fh_indexlist t"
  have shape: "fh_shape t" by (rule fh_rep_shape [OF rep])
  have le: "fh_size t \<le> length ?il" using fh_rep_size [OF rep] shape by (simp add: fh_shape_def)
  have il: "?il = take (fh_size t) ?il @ drop (fh_size t) ?il" "length (take (fh_size t) ?il) = length (flat C (fh_tsize t))"
    using le length_flat [OF rep] by simp_all
  have ne: "?il \<noteq> []" using shape by (auto simp: fh_shape_def)
  have il': "fh_indexlist t' = flat C (fh_tsize t) @ drop (fh_size t) ?il"
    using reindex_fold_ok [OF rep il(2) order.refl, of "drop (fh_size t) ?il"] ne pos
    by (simp add: t' FastHash_ReIndex_def)
  have f: "fh_fsize t' = fh_fsize t" "fh_tsize t' = fh_tsize t" "fh_nodes t' = fh_nodes t"
    "fh_itemnodes t' = fh_itemnodes t" "fh_freelist t' = fh_freelist t" "fh_lookuptable t' = fh_lookuptable t"
    "fh_size t' = fh_size t" "fh_fIndexValid t'" "fh_indexStart t' = 0"
    using ne pos by (simp_all add: t' FastHash_ReIndex_def)
  have shape': "fh_shape t'" using shape le length_flat [OF rep] by (simp add: fh_shape_def f il')
  have live: "live t' C = live t C" by (rule live_upd_same [OF f(2)])
  have "keyed h t' = keyed h t" by (simp add: fun_eq_iff keyed_def f)
  then have ch: "fh_chains h t' C F" using rep by (simp add: fh_rep_def fh_chains_def f live)
  have slot: "index_slot t' j = flat C (fh_tsize t) ! j" if "j < fh_size t" for j
  proof -
    have "j < fh_fsize t" using that le shape by (simp add: fh_shape_def)
    then show ?thesis using that length_flat [OF rep] by (simp add: index_slot_def f il' nth_append)
  qed
  have "bij_betw (\<lambda>j. flat C (fh_tsize t) ! j) {..< fh_size t} (live t C)"
    using distinct_flat [OF rep order.refl] length_flat [OF rep] set_flat [of C t] by (intro bij_betw_nth) auto
  then have "bij_betw (index_slot t') {..< fh_size t} (live t C)"
    by (subst bij_betw_cong [where g = "\<lambda>j. flat C (fh_tsize t) ! j"]) (simp_all add: slot)
  then have rep': "fh_rep h t' C F" using shape' ch by (simp add: fh_rep_def fh_index_ok_def live f)
  moreover have "fh_entries h t' = fh_entries h t"
    by (rule ext) (simp add: fh_entries_eq [OF rep] fh_entries_eq [OF rep'] values_of_def f)
  moreover have "fh_indexlist t' \<noteq> []" using shape' by (auto simp: fh_shape_def)
  ultimately show ?thesis using f by simp
qed

text \<open>The table \<open>LookupByIndex\<close> works on: reindexed first when the index list is stale.\<close>

definition indexed :: "('k, 'v) fasthash \<Rightarrow> ('k, 'v) fasthash" where
  "indexed t = (if fh_fIndexValid t then t else FastHash_ReIndex t)"

lemma indexed_ok:
  assumes "fh_rep h t C F" "0 < fh_size t"
  shows "fh_rep h (indexed t) C F \<and> fh_fIndexValid (indexed t) \<and> fh_size (indexed t) = fh_size t \<and>
    fh_nodes (indexed t) = fh_nodes t \<and> fh_entries h (indexed t) = fh_entries h t"
  using ReIndex_ok [OF assms refl] assms(1) by (simp add: indexed_def)

lemma LookupByIndex_eq:
  assumes rep: "fh_rep h t C F" and j: "j < fh_size t"
  shows "FastHash_LookupByIndex j t = (fh_nodes t ! index_slot (indexed t) j, indexed t)"
proof -
  have "0 < fh_size t" using j by simp
  note i = indexed_ok [OF rep this]
  have ne: "fh_indexlist t \<noteq> []" using fh_rep_shape [OF rep] by (auto simp: fh_shape_def)
  show ?thesis using i j ne by (auto simp: FastHash_LookupByIndex_def index_slot_def indexed_def Let_def)
qed

lemma LookupByIndex_out_of_range: "fh_size t \<le> j \<Longrightarrow> FastHash_LookupByIndex j t = (None, t)"
  by (simp add: FastHash_LookupByIndex_def)

lemma live_keyed:
  assumes "fh_rep h t C F" "i \<in> live t C"
  obtains k v where "fh_nodes t ! i = Some (k, v)" "i \<in> set (C (h k mod fh_tsize t))" "h k mod fh_tsize t < fh_tsize t"
proof -
  from assms(2) obtain b where b: "b < fh_tsize t" "i \<in> set (C b)" by (auto simp: live_def)
  with fh_rep_chain(3) [OF assms(1) this] show thesis using that by (auto simp: keyed_def)
qed

lemma mset_index_slots:
  assumes rep: "fh_rep h t C F" and valid: "fh_fIndexValid t"
  shows "mset (map (index_slot t) [0 ..< fh_size t]) = mset (flat C (fh_tsize t))"
proof -
  have "bij_betw (index_slot t) {..< fh_size t} (live t C)" using assms by (simp add: fh_rep_def fh_index_ok_def)
  then have "distinct (map (index_slot t) [0 ..< fh_size t])" "set (map (index_slot t) [0 ..< fh_size t]) = live t C"
    by (auto simp: distinct_map bij_betw_def atLeast0LessThan)
  then show ?thesis using distinct_flat [OF rep order.refl] set_flat [of C t]
    by (intro iffD1 [OF set_eq_iff_mset_eq_distinct]) simp_all
qed

lemma values_of_filter:
  "\<forall>i \<in> set is. fh_nodes t ! i \<noteq> None \<Longrightarrow>
   values_of t k is = map snd (filter (\<lambda>kv. fst kv = k) (map (\<lambda>i. the (fh_nodes t ! i)) is))"
  by (induction "is") (auto simp: values_of_def map_filter_simps)

lemma values_of_flat:
  assumes rep: "fh_rep h t C F" and n: "n \<le> fh_tsize t"
  shows "values_of t k (flat C n) = (if h k mod fh_tsize t < n then fh_entries h t k else [])"
  using n
proof (induction n)
  case (Suc n)
  have "values_of t k (C n) = []" if "h k mod fh_tsize t \<noteq> n"
  proof (rule values_of_none, rule ballI)
    fix i assume "i \<in> set (C n)"
    with fh_rep_chain(3) [OF rep, of n i] Suc.prems that show "\<not> node_matches t k i"
      by (auto simp: keyed_def node_matches_def)
  qed
  moreover have "values_of t k (flat C (Suc n)) = values_of t k (flat C n) @ values_of t k (C n)"
    by (simp add: flat_def values_of_append)
  ultimately show ?case using Suc by (auto simp: fh_entries_eq [OF rep] less_Suc_eq)
qed (simp add: flat_def values_of_def map_filter_simps)

lemma map_Pair_filter: "map (Pair k) (map snd (filter (\<lambda>kv. fst kv = k) xs)) = filter (\<lambda>kv. fst kv = k) xs"
  by (induction xs) auto

lemma LookupByIndex_ok:
  assumes inv: "fh_inv h t" and j: "j < fh_size t"
  obtains k v t' where "FastHash_LookupByIndex j t = (Some (k, v), t')" "v \<in> set (fh_entries h t k)"
    "fh_inv h t'" "fh_entries h t' = fh_entries h t" "fh_size t' = fh_size t" "fh_fIndexValid t'"
proof -
  from inv obtain C F where rep: "fh_rep h t C F" by (auto simp: fh_inv_def)
  have pos: "0 < fh_size t" using j by simp
  note i = indexed_ok [OF rep pos]
  then have "bij_betw (index_slot (indexed t)) {..< fh_size t} (live (indexed t) C)"
    by (auto simp: fh_rep_def fh_index_ok_def)
  then have mem: "index_slot (indexed t) j \<in> live (indexed t) C" using j by (auto simp: bij_betw_def)
  have rep1: "fh_rep h (indexed t) C F" using i by blast
  obtain k v where kv: "fh_nodes (indexed t) ! index_slot (indexed t) j = Some (k, v)"
    "index_slot (indexed t) j \<in> set (C (h k mod fh_tsize (indexed t)))"
    by (rule live_keyed [OF rep1 mem])
  have "v \<in> set (fh_entries h (indexed t) k)"
    using kv split_list [OF kv(2)] by (auto simp: fh_entries_eq [OF rep1] values_of_append values_of_Cons)
  then show thesis using that [of k v "indexed t"] LookupByIndex_eq [OF rep j] kv(1) i by (auto simp: fh_inv_def)
qed

text \<open>Counting positions from 0 meets every stored pair as often as it is stored.\<close>

lemma LookupByIndex_enumerates:
  assumes inv: "fh_inv h t"
  shows "mset (filter (\<lambda>kv. fst kv = k) (map (\<lambda>j. the (fst (FastHash_LookupByIndex j t))) [0 ..< fh_size t])) =
    mset (map (Pair k) (fh_entries h t k))"
proof (cases "fh_size t = 0")
  case True
  from inv obtain C F where rep: "fh_rep h t C F" by (auto simp: fh_inv_def)
  have "finite (live t C)" by (simp add: live_def)
  then have "live t C = {}" using True rep by (simp add: fh_rep_def fh_chains_def)
  then have "C (h k mod fh_tsize t) = []" using fh_rep_bucket [OF rep, of k] by (auto simp: live_def)
  then show ?thesis using True by (simp add: fh_entries_eq [OF rep] values_of_def map_filter_simps)
next
  case False
  from inv obtain C F where rep: "fh_rep h t C F" by (auto simp: fh_inv_def)
  let ?t = "indexed t" and ?node = "\<lambda>i. the (fh_nodes t ! i)"
  have i: "fh_rep h ?t C F" "fh_fIndexValid ?t" "fh_size ?t = fh_size t" "fh_nodes ?t = fh_nodes t" "fh_entries h ?t = fh_entries h t"
    using indexed_ok [OF rep] False by auto
  let ?flat = "flat C (fh_tsize ?t)"
  have "map (\<lambda>j. the (fst (FastHash_LookupByIndex j t))) [0 ..< fh_size t] = map ?node (map (index_slot ?t) [0 ..< fh_size t])"
    using LookupByIndex_eq [OF rep] by simp
  then have "mset (map (\<lambda>j. the (fst (FastHash_LookupByIndex j t))) [0 ..< fh_size t]) = image_mset ?node (mset (map (index_slot ?t) [0 ..< fh_size ?t]))"
    using i(3) by (metis mset_map)
  then have m: "mset (map (\<lambda>j. the (fst (FastHash_LookupByIndex j t))) [0 ..< fh_size t]) = mset (map ?node ?flat)"
    using mset_index_slots [OF i(1,2)] by (metis mset_map)
  have "\<forall>j \<in> set ?flat. fh_nodes ?t ! j \<noteq> None"
    using set_flat [of C ?t] live_keyed [OF i(1)] by (metis option.distinct(1))
  then have "map snd (filter (\<lambda>kv. fst kv = k) (map ?node ?flat)) = fh_entries h t k"
    using values_of_filter [of ?flat ?t k] values_of_flat [OF i(1) order.refl, of k] fh_rep_bucket [OF i(1), of k] i(4,5) by simp
  then have "map (Pair k) (fh_entries h t k) = map (Pair k) (map snd (filter (\<lambda>kv. fst kv = k) (map ?node ?flat)))" by simp
  also have "... = filter (\<lambda>kv. fst kv = k) (map ?node ?flat)" by (rule map_Pair_filter)
  finally show ?thesis using m by (metis mset_filter)
qed

end
