(* ===== verification/HResult.thy ===== *)
theory HResult
  imports Prelude
begin

text \<open>
  \<open>src/common/hresult.h\<close> and \<open>src/common/chkmacros.h\<close>: the status codes and the control flow of
  the \<open>Chk\<close> macros.

  An \<open>HRESULT\<close> is an \<open>int32_t\<close>; a code succeeds when it is not negative. The macros run a
  statement, store its code in the local \<open>hr\<close> and jump to the label \<open>Cleanup\<close>. A function body
  written with them is a list of commands here: a command takes the current \<open>hr\<close> and the state
  and says whether it jumps, the new \<open>hr\<close> and the new state; \<open>run_cmds\<close> runs the list up to the
  first jump and returns \<open>hr\<close>, as \<open>Cleanup: return hr\<close> does. \<open>ASSERT\<close> is empty in release
  builds, so \<open>ChkA\<close> and \<open>ChkIfA\<close> are \<open>Chk\<close> and \<open>ChkIf\<close>.
\<close>

type_synonym hresult = "32 word"

section \<open>Codes\<close>

definition SUCCEEDED :: "hresult \<Rightarrow> bool" where
  "SUCCEEDED hr \<longleftrightarrow> 0 \<le> sint hr"

definition FAILED :: "hresult \<Rightarrow> bool" where
  "FAILED hr \<longleftrightarrow> sint hr < 0"

definition S_OK :: hresult where "S_OK = 0"
definition S_FALSE :: hresult where "S_FALSE = 1"
definition E_UNEXPECTED :: hresult where "E_UNEXPECTED = 0x8000FFFF"
definition E_NOTIMPL :: hresult where "E_NOTIMPL = 0x80004001"
definition E_OUTOFMEMORY :: hresult where "E_OUTOFMEMORY = 0x8007000E"
definition E_INVALIDARG :: hresult where "E_INVALIDARG = 0x80070057"
definition E_NOINTERFACE :: hresult where "E_NOINTERFACE = 0x80004002"
definition E_POINTER :: hresult where "E_POINTER = 0x80004003"
definition E_FAIL :: hresult where "E_FAIL = 0x80004005"

definition HRESULT_CODE :: "hresult \<Rightarrow> hresult" where
  "HRESULT_CODE hr = hr AND 0xFFFF"

definition HRESULT_FACILITY :: "hresult \<Rightarrow> hresult" where
  "HRESULT_FACILITY hr = signed_drop_bit 16 hr AND 0x1fff"

definition HRESULT_SEVERITY :: "hresult \<Rightarrow> hresult" where
  "HRESULT_SEVERITY hr = signed_drop_bit 31 hr AND 0x1"

text \<open>
  \<open>MAKE_HRESULT\<close> builds its value in an \<open>unsigned long\<close>, 32 bits wide on the targets of the
  build files, and casts it to \<open>HRESULT\<close>.
\<close>

definition MAKE_HRESULT :: "u32 \<Rightarrow> u32 \<Rightarrow> u32 \<Rightarrow> hresult" where
  "MAKE_HRESULT sev fac code = push_bit 31 sev OR push_bit 16 fac OR code"

definition FACILITY_ERRNO :: u32 where "FACILITY_ERRNO = 0x800"

definition ERRNO_TO_HRESULT :: "u32 \<Rightarrow> hresult" where
  "ERRNO_TO_HRESULT err = MAKE_HRESULT 1 FACILITY_ERRNO err"

definition ERRNOHR :: "u32 \<Rightarrow> hresult" where
  "ERRNOHR errno = ERRNO_TO_HRESULT (ERRNO_TO_HRESULT errno)"

lemma FAILED_SUCCEEDED [simp]: "FAILED hr \<longleftrightarrow> \<not> SUCCEEDED hr"
  by (auto simp: FAILED_def SUCCEEDED_def)

lemma SUCCEEDED_bit: "SUCCEEDED hr \<longleftrightarrow> \<not> bit hr 31"
  by (simp add: SUCCEEDED_def not_less [symmetric] bit_last_iff [symmetric])

lemma SUCCEEDED_S_OK [simp, hr_simps]: "SUCCEEDED S_OK"
  by (simp add: SUCCEEDED_def S_OK_def)

lemma SUCCEEDED_S_FALSE [simp, hr_simps]: "SUCCEEDED S_FALSE"
  by (simp add: SUCCEEDED_def S_FALSE_def)

lemma FAILED_E_UNEXPECTED [simp, hr_simps]: "\<not> SUCCEEDED E_UNEXPECTED"
  by (simp add: SUCCEEDED_def E_UNEXPECTED_def)

lemma FAILED_E_NOTIMPL [simp, hr_simps]: "\<not> SUCCEEDED E_NOTIMPL"
  by (simp add: SUCCEEDED_def E_NOTIMPL_def)

lemma FAILED_E_OUTOFMEMORY [simp, hr_simps]: "\<not> SUCCEEDED E_OUTOFMEMORY"
  by (simp add: SUCCEEDED_def E_OUTOFMEMORY_def)

lemma FAILED_E_INVALIDARG [simp, hr_simps]: "\<not> SUCCEEDED E_INVALIDARG"
  by (simp add: SUCCEEDED_def E_INVALIDARG_def)

lemma FAILED_E_FAIL [simp, hr_simps]: "\<not> SUCCEEDED E_FAIL"
  by (simp add: SUCCEEDED_def E_FAIL_def)

text \<open>Codes made from \<open>errno\<close> always fail, even when the macro is applied twice.\<close>

lemma FAILED_ERRNO_TO_HRESULT [simp, hr_simps]: "\<not> SUCCEEDED (ERRNO_TO_HRESULT err)"
  by (simp add: SUCCEEDED_bit ERRNO_TO_HRESULT_def MAKE_HRESULT_def bit_simps)

lemma FAILED_ERRNOHR [simp, hr_simps]: "\<not> SUCCEEDED (ERRNOHR err)"
  by (simp add: ERRNOHR_def)

section \<open>Command sequences\<close>

type_synonym 's cmd = "hresult \<Rightarrow> 's \<Rightarrow> bool \<times> hresult \<times> 's"

definition Chk :: "('s \<Rightarrow> hresult \<times> 's) \<Rightarrow> 's cmd" where
  "Chk f hr s = (let (hr', s') = f s in (FAILED hr', hr', s'))"

definition ChkIf :: "('s \<Rightarrow> bool) \<Rightarrow> hresult \<Rightarrow> 's cmd" where
  "ChkIf b e hr s = (if b s then (True, e, s) else (False, hr, s))"

text \<open>A statement whose result is dropped.\<close>

definition Call :: "('s \<Rightarrow> hresult \<times> 's) \<Rightarrow> 's cmd" where
  "Call f hr s = (False, hr, snd (f s))"

definition When :: "('s \<Rightarrow> bool) \<Rightarrow> 's cmd \<Rightarrow> 's cmd" where
  "When b c hr s = (if b s then c hr s else (False, hr, s))"

definition Assign :: "('s \<Rightarrow> 's) \<Rightarrow> 's cmd" where
  "Assign f hr s = (False, hr, f s)"

fun run_cmds :: "'s cmd list \<Rightarrow> hresult \<Rightarrow> 's \<Rightarrow> hresult \<times> 's" where
  "run_cmds [] hr s = (hr, s)"
| "run_cmds (c # cs) hr s =
     (case c hr s of (jump, hr', s') \<Rightarrow> if jump then (hr', s') else run_cmds cs hr' s')"

lemma run_Chk [cmd_simps]:
  "run_cmds (Chk f # cs) hr s = (let (hr', s') = f s in if FAILED hr' then (hr', s') else run_cmds cs hr' s')"
  by (simp add: Chk_def split: prod.split)

lemma run_ChkIf [cmd_simps]:
  "run_cmds (ChkIf b e # cs) hr s = (if b s then (e, s) else run_cmds cs hr s)"
  by (simp add: ChkIf_def)

lemma run_Call [cmd_simps]: "run_cmds (Call f # cs) hr s = run_cmds cs hr (snd (f s))"
  by (simp add: Call_def)

lemma run_When [cmd_simps]:
  "run_cmds (When b c # cs) hr s = (if b s then run_cmds (c # cs) hr s else run_cmds cs hr s)"
  by (simp add: When_def)

lemma run_Assign [cmd_simps]: "run_cmds (Assign f # cs) hr s = run_cmds cs hr (f s)"
  by (simp add: Assign_def)

lemma run_Nil [cmd_simps, simp]: "run_cmds [] hr s = (hr, s)"
  by simp

declare run_cmds.simps [simp del]

end
