(* ===== verification/Buffer.thy ===== *)
theory Buffer
  imports HResult
begin

text \<open>
  \<open>src/stuncore/buffer.h\<close>, \<open>buffer.cpp\<close>: \<open>CBuffer\<close>, a byte array with an allocated size and a
  current size.

  The pointer \<open>_data\<close> is \<open>None\<close> for NULL and otherwise the array it points to. \<open>new\<close> throws when
  it runs out of memory, so an allocation always yields an array; its bytes are indeterminate in
  C++ and zero here. The two terminator bytes after every allocation are outside
  \<open>_allocatedSize\<close> and are not modelled.
\<close>

record cbuffer =
  cb_data :: "bytes option"
  cb_size :: nat
  cb_allocatedSize :: nat

definition CBuffer_null :: cbuffer where
  "CBuffer_null = \<lparr>cb_data = None, cb_size = 0, cb_allocatedSize = 0\<rparr>"

definition CBuffer_Reset :: "cbuffer \<Rightarrow> cbuffer" where
  "CBuffer_Reset b = b\<lparr>cb_data := None, cb_size := 0, cb_allocatedSize := 0\<rparr>"

definition CBuffer_InitWithAllocation :: "nat \<Rightarrow> cbuffer \<Rightarrow> hresult \<times> cbuffer" where
  "CBuffer_InitWithAllocation n b =
     (let b1 = CBuffer_Reset b;
          b2 = b1\<lparr>cb_data := Some (replicate n 0)\<rparr>;
          sz = (if cb_data b2 \<noteq> None then n else 0);
          b3 = b2\<lparr>cb_size := sz, cb_allocatedSize := sz\<rparr>
      in (if cb_data b3 \<noteq> None then S_OK else E_FAIL, b3))"

definition CBuffer_InitNoAlloc :: "bytes option \<Rightarrow> nat \<Rightarrow> cbuffer \<Rightarrow> hresult \<times> cbuffer" where
  "CBuffer_InitNoAlloc pByteArray n b =
     (let b1 = CBuffer_Reset b;
          n = (if pByteArray = None then 0 else n)
      in (S_OK, b1\<lparr>cb_data := pByteArray, cb_size := n, cb_allocatedSize := n\<rparr>))"

definition CBuffer_InitWithAllocAndCopy :: "bytes option \<Rightarrow> nat \<Rightarrow> cbuffer \<Rightarrow> hresult \<times> cbuffer" where
  "CBuffer_InitWithAllocAndCopy pByteArray n b =
     (let b1 = CBuffer_Reset b;
          n = (if pByteArray = None then 0 else n);
          (hr, b2) = CBuffer_InitWithAllocation n b1
      in if SUCCEEDED hr
         then (hr, b2\<lparr>cb_data := Some (overwrite 0 (take (cb_size b2) (case pByteArray of None \<Rightarrow> [] | Some xs \<Rightarrow> xs))
                                          (case cb_data b2 of None \<Rightarrow> [] | Some d \<Rightarrow> d))\<rparr>)
         else (hr, b2))"

definition CBuffer_alloc :: "nat \<Rightarrow> cbuffer" where
  "CBuffer_alloc n = snd (CBuffer_InitWithAllocation n CBuffer_null)"

definition CBuffer_from :: "bytes option \<Rightarrow> nat \<Rightarrow> bool \<Rightarrow> cbuffer" where
  "CBuffer_from pByteArray nByteArraySize fCopy =
     (if \<not> fCopy then snd (CBuffer_InitNoAlloc pByteArray nByteArraySize CBuffer_null)
      else snd (CBuffer_InitWithAllocAndCopy pByteArray nByteArraySize CBuffer_null))"

text \<open>
  \<open>SetSize\<close> stores the \<open>bool\<close> of its range check in \<open>hr\<close>: a size within the allocation gives
  code 1, a size beyond it gives code 0, and both count as success.
\<close>

definition CBuffer_SetSize :: "nat \<Rightarrow> cbuffer \<Rightarrow> hresult \<times> cbuffer" where
  "CBuffer_SetSize n b =
     (let hr = (if n \<le> cb_allocatedSize b then 1 else 0)
      in if SUCCEEDED hr then (hr, b\<lparr>cb_size := n\<rparr>) else (hr, b))"

definition CBuffer_IsValid :: "cbuffer \<Rightarrow> bool" where
  "CBuffer_IsValid b \<longleftrightarrow> cb_data b \<noteq> None"

definition CBuffer_GetData :: "cbuffer \<Rightarrow> bytes" where
  "CBuffer_GetData b = (case cb_data b of None \<Rightarrow> [] | Some d \<Rightarrow> d)"

section \<open>Well-formed buffers\<close>

definition wf_buffer :: "cbuffer \<Rightarrow> bool" where
  "wf_buffer b \<longleftrightarrow> (\<exists>d. cb_data b = Some d \<and> length d = cb_allocatedSize b) \<and> cb_size b \<le> cb_allocatedSize b"

definition buffer_bytes :: "cbuffer \<Rightarrow> bytes" where
  "buffer_bytes b = take (cb_size b) (CBuffer_GetData b)"

lemma CBuffer_alloc_eq [simp]:
  "CBuffer_alloc n = \<lparr>cb_data = Some (replicate n 0), cb_size = n, cb_allocatedSize = n\<rparr>"
  by (simp add: CBuffer_alloc_def CBuffer_InitWithAllocation_def CBuffer_Reset_def CBuffer_null_def Let_def)

lemma wf_CBuffer_alloc: "wf_buffer (CBuffer_alloc n)"
  by (simp add: wf_buffer_def)

lemma CBuffer_from_copy:
  assumes "length xs = n"
  shows "buffer_bytes (CBuffer_from (Some xs) n fCopy) = xs \<and> wf_buffer (CBuffer_from (Some xs) n fCopy)"
  using assms
  by (auto simp: CBuffer_from_def CBuffer_InitNoAlloc_def CBuffer_InitWithAllocAndCopy_def
      CBuffer_InitWithAllocation_def CBuffer_Reset_def CBuffer_null_def buffer_bytes_def CBuffer_GetData_def
      wf_buffer_def overwrite_def)

lemma CBuffer_SetSize_succeeds [simp]: "SUCCEEDED (fst (CBuffer_SetSize n b))"
  by (simp add: CBuffer_SetSize_def SUCCEEDED_def)

lemma CBuffer_SetSize_snd [simp]: "snd (CBuffer_SetSize n b) = b\<lparr>cb_size := n\<rparr>"
  by (simp add: CBuffer_SetSize_def SUCCEEDED_def)

lemma wf_CBuffer_SetSize: "wf_buffer b \<Longrightarrow> n \<le> cb_allocatedSize b \<Longrightarrow> wf_buffer (snd (CBuffer_SetSize n b))"
  by (auto simp: wf_buffer_def)

lemma length_CBuffer_GetData: "wf_buffer b \<Longrightarrow> length (CBuffer_GetData b) = cb_allocatedSize b"
  by (auto simp: wf_buffer_def CBuffer_GetData_def)

lemma length_buffer_bytes: "wf_buffer b \<Longrightarrow> length (buffer_bytes b) = cb_size b"
  by (auto simp: buffer_bytes_def length_CBuffer_GetData) (auto simp: wf_buffer_def)

section \<open>The contract of an append-only writer\<close>

text \<open>
  The interface between a message writer and the byte stream under it. A sink takes bytes
  (\<open>put\<close>), has \<open>room n\<close> for \<open>n\<close> more of them in a state, and relates a state to the one with
  some bytes appended (\<open>ext\<close>). Its laws are what the writer relies on: with room, a non-empty
  \<open>put\<close> succeeds and appends exactly its bytes; appending composes; room is used up byte by byte.

  The lemmas compose: \<open>writes f xs s\<close> says that the operation \<open>f\<close>, run in \<open>s\<close> with room for
  \<open>xs\<close>, succeeds and appends \<open>xs\<close>; \<open>runs cs xs s\<close> says it of a command sequence.
\<close>

locale byte_sink =
  fixes put :: "bytes \<Rightarrow> 's \<Rightarrow> hresult \<times> 's"
    and room :: "nat \<Rightarrow> 's \<Rightarrow> bool"
    and ext :: "bytes \<Rightarrow> 's \<Rightarrow> 's \<Rightarrow> bool"
  assumes put_ext: "room (length xs) s \<Longrightarrow> xs \<noteq> [] \<Longrightarrow>
      \<exists>hr s'. put xs s = (hr, s') \<and> SUCCEEDED hr \<and> ext xs s s'"
    and ext_refl: "room n s \<Longrightarrow> ext [] s s"
    and ext_trans: "ext xs s t \<Longrightarrow> ext ys t u \<Longrightarrow> ext (xs @ ys) s u"
    and ext_room: "ext xs s t \<Longrightarrow> room (length xs + n) s \<Longrightarrow> room n t"
    and room_mono: "room n s \<Longrightarrow> m \<le> n \<Longrightarrow> room m s"
begin

definition writes :: "('s \<Rightarrow> hresult \<times> 's) \<Rightarrow> bytes \<Rightarrow> 's \<Rightarrow> bool" where
  "writes f xs s \<longleftrightarrow>
     (room (length xs) s \<longrightarrow> (\<exists>hr s'. f s = (hr, s') \<and> SUCCEEDED hr \<and> ext xs s s'))"

definition runs :: "'s cmd list \<Rightarrow> bytes \<Rightarrow> 's \<Rightarrow> bool" where
  "runs cs xs s \<longleftrightarrow>
     (\<forall>hr. SUCCEEDED hr \<longrightarrow> room (length xs) s \<longrightarrow>
        (\<exists>hr' s'. run_cmds cs hr s = (hr', s') \<and> SUCCEEDED hr' \<and> ext xs s s'))"

lemma writesE:
  assumes "writes f xs s" "room (length xs) s"
  obtains hr s' where "f s = (hr, s')" "SUCCEEDED hr" "ext xs s s'"
  using assms by (auto simp: writes_def)

lemma writes_put: "xs \<noteq> [] \<Longrightarrow> writes (put xs) xs s"
  by (auto simp: writes_def dest: put_ext)

lemma runs_Nil: "runs [] [] s"
  by (auto simp: runs_def dest: ext_refl)

lemma runs_Chk:
  assumes "writes f xs s" "\<And>s'. ext xs s s' \<Longrightarrow> runs cs ys s'"
  shows "runs (Chk f # cs) (xs @ ys) s"
  unfolding runs_def
proof (intro allI impI)
  fix hr
  assume "SUCCEEDED hr" and rm: "room (length (xs @ ys)) s"
  then have "room (length xs) s" by (auto intro: room_mono)
  with assms(1) obtain h s1 where 1: "f s = (h, s1)" "SUCCEEDED h" "ext xs s s1" by (rule writesE)
  from ext_room [OF 1(3)] rm have "room (length ys) s1" by simp
  with assms(2) [OF 1(3)] 1(2) obtain h' s2
    where "run_cmds cs h s1 = (h', s2)" "SUCCEEDED h'" "ext ys s1 s2" by (auto simp: runs_def)
  with 1 show "\<exists>hr' s'. run_cmds (Chk f # cs) hr s = (hr', s') \<and> SUCCEEDED hr' \<and> ext (xs @ ys) s s'"
    by (auto simp: cmd_simps intro: ext_trans)
qed

lemma runs_Call:
  assumes "writes f xs s" "\<And>s'. ext xs s s' \<Longrightarrow> runs cs ys s'"
  shows "runs (Call f # cs) (xs @ ys) s"
  unfolding runs_def
proof (intro allI impI)
  fix hr
  assume hr: "SUCCEEDED hr" and rm: "room (length (xs @ ys)) s"
  then have "room (length xs) s" by (auto intro: room_mono)
  with assms(1) obtain h s1 where 1: "f s = (h, s1)" "SUCCEEDED h" "ext xs s s1" by (rule writesE)
  from ext_room [OF 1(3)] rm have "room (length ys) s1" by simp
  with assms(2) [OF 1(3)] hr obtain h' s2
    where "run_cmds cs hr s1 = (h', s2)" "SUCCEEDED h'" "ext ys s1 s2" by (auto simp: runs_def)
  with 1 show "\<exists>hr' s'. run_cmds (Call f # cs) hr s = (hr', s') \<and> SUCCEEDED hr' \<and> ext (xs @ ys) s s'"
    by (auto simp: cmd_simps intro: ext_trans)
qed

lemma runs_ChkIf: "\<not> b s \<Longrightarrow> runs cs xs s \<Longrightarrow> runs (ChkIf b e # cs) xs s"
  by (simp add: runs_def cmd_simps)

lemma runs_When: "b s \<Longrightarrow> runs (c # cs) xs s \<Longrightarrow> runs (When b c # cs) xs s"
  by (simp add: runs_def cmd_simps)

lemma runs_skip: "\<not> b s \<Longrightarrow> runs cs xs s \<Longrightarrow> runs (When b c # cs) xs s"
  by (simp add: runs_def cmd_simps)

lemma writes_runs: "runs cs xs s \<Longrightarrow> writes (run_cmds cs S_OK) xs s"
  by (simp add: runs_def writes_def)

lemma runs_last: "writes f xs s \<Longrightarrow> runs [Chk f] xs s"
  using runs_Chk [of f xs s "[]" "[]"] runs_Nil by simp

lemma runs_last_Call: "writes f xs s \<Longrightarrow> runs [Call f] xs s"
  using runs_Call [of f xs s "[]" "[]"] runs_Nil by simp

lemma writes_cong: "f s = g s \<Longrightarrow> writes g xs s \<Longrightarrow> writes f xs s"
  by (simp add: writes_def)

end

end
