(* ===== verification/ByteOrder.thy ===== *)
theory ByteOrder
  imports Prelude
begin

text \<open>
  Integers in memory. The targets (Android on ARM and x86) are little-endian, so storing a
  \<open>uint16_t\<close> or \<open>uint32_t\<close> with \<open>memcpy\<close> gives \<open>mem16\<close> and \<open>mem32\<close> and loading it gives \<open>load16\<close>
  and \<open>load32\<close>; \<open>htons\<close>, \<open>ntohs\<close>, \<open>htonl\<close>, \<open>ntohl\<close> of the C library swap the bytes. The lemmas
  connect them with \<open>be16\<close> and \<open>be32\<close>, the big-endian images of the wire format.
\<close>

definition mem16 :: "u16 \<Rightarrow> bytes" where
  "mem16 x = [ucast x, ucast (drop_bit 8 x)]"

definition mem32 :: "u32 \<Rightarrow> bytes" where
  "mem32 x = [ucast x, ucast (drop_bit 8 x), ucast (drop_bit 16 x), ucast (drop_bit 24 x)]"

definition load16 :: "bytes \<Rightarrow> u16" where
  "load16 bs = (case bs of [b0, b1] \<Rightarrow> ucast b0 OR push_bit 8 (ucast b1) | _ \<Rightarrow> 0)"

definition load32 :: "bytes \<Rightarrow> u32" where
  "load32 bs = (case bs of
       [b0, b1, b2, b3] \<Rightarrow> ucast b0 OR push_bit 8 (ucast b1) OR push_bit 16 (ucast b2) OR push_bit 24 (ucast b3)
     | _ \<Rightarrow> 0)"

definition htons :: "u16 \<Rightarrow> u16" where
  "htons x = load16 (rev (mem16 x))"

definition ntohs :: "u16 \<Rightarrow> u16" where
  "ntohs x = load16 (rev (mem16 x))"

definition htonl :: "u32 \<Rightarrow> u32" where
  "htonl x = load32 (rev (mem32 x))"

definition ntohl :: "u32 \<Rightarrow> u32" where
  "ntohl x = load32 (rev (mem32 x))"

definition be16 :: "u16 \<Rightarrow> bytes" where
  "be16 x = [ucast (drop_bit 8 x), ucast x]"

definition be32 :: "u32 \<Rightarrow> bytes" where
  "be32 x = [ucast (drop_bit 24 x), ucast (drop_bit 16 x), ucast (drop_bit 8 x), ucast x]"

lemma length_mem16 [simp]: "length (mem16 x) = 2"
  by (simp add: mem16_def)

lemma length_mem32 [simp]: "length (mem32 x) = 4"
  by (simp add: mem32_def)

lemma length_be16 [simp]: "length (be16 x) = 2"
  by (simp add: be16_def)

lemma length_be32 [simp]: "length (be32 x) = 4"
  by (simp add: be32_def)

lemma be16_neq_Nil [simp]: "be16 x \<noteq> []" "mem16 x \<noteq> []" "be32 y \<noteq> []" "mem32 y \<noteq> []"
  by (simp_all add: be16_def mem16_def be32_def mem32_def)

lemma rev_mem16: "rev (mem16 x) = be16 x"
  by (simp add: mem16_def be16_def)

lemma rev_mem32: "rev (mem32 x) = be32 x"
  by (simp add: mem32_def be32_def)

lemma bit_u8_high: "8 \<le> n \<Longrightarrow> \<not> bit (a :: u8) n"
  by (auto dest: bit_imp_le_length)

lemma load16_mem16 [simp, mem_simps]: "load16 (mem16 x) = x"
  by (rule bit_word_eqI) (auto simp: load16_def mem16_def bit_simps)

lemma load32_mem32 [simp, mem_simps]: "load32 (mem32 x) = x"
proof (rule bit_word_eqI)
  fix n
  assume "n < LENGTH(32)"
  then consider "n < 8" | "8 \<le> n" "n < 16" | "16 \<le> n" "n < 24" | "24 \<le> n" "n < 32"
    by fastforce
  then show "bit (load32 (mem32 x)) n = bit x n"
    by cases (auto simp: load32_def mem32_def bit_simps)
qed

lemma mem16_load16: "length bs = 2 \<Longrightarrow> mem16 (load16 bs) = bs"
proof -
  assume "length bs = 2"
  then obtain a b where "bs = [a, b]" using length_eq_2E by blast
  moreover have "mem16 (load16 [a, b]) = [a, b]"
    by (auto simp: load16_def mem16_def bit_simps intro!: bit_word_eqI simp: bit_u8_high)
  ultimately show ?thesis by simp
qed

lemma mem32_load32: "length bs = 4 \<Longrightarrow> mem32 (load32 bs) = bs"
proof -
  assume "length bs = 4"
  then obtain a b c d where "bs = [a, b, c, d]" using length_eq_4E by blast
  moreover have "mem32 (load32 [a, b, c, d]) = [a, b, c, d]"
    by (auto simp: load32_def mem32_def bit_simps intro!: bit_word_eqI simp: bit_u8_high)
  ultimately show ?thesis by simp
qed

lemma mem16_htons [simp, mem_simps]: "mem16 (htons x) = be16 x"
  by (simp add: htons_def mem16_load16 rev_mem16)

lemma mem16_ntohs [simp, mem_simps]: "mem16 (ntohs x) = be16 x"
  by (simp add: ntohs_def mem16_load16 rev_mem16)

lemma mem32_htonl [simp, mem_simps]: "mem32 (htonl x) = be32 x"
  by (simp add: htonl_def mem32_load32 rev_mem32)

lemma ntohs_load16_be16 [simp, mem_simps]: "ntohs (load16 (be16 x)) = x"
  by (metis load16_mem16 mem16_htons ntohs_def rev_mem16 rev_rev_ident)

lemma ntohl_load32_be32 [simp, mem_simps]: "ntohl (load32 (be32 x)) = x"
  by (metis load32_mem32 mem32_htonl ntohl_def rev_mem32 rev_rev_ident)

lemma ntohs_htons [simp, mem_simps]: "ntohs (htons x) = x"
  by (metis load16_mem16 mem16_htons ntohs_load16_be16)

lemma htons_ntohs [simp, mem_simps]: "htons (ntohs x) = x"
  by (metis htons_def ntohs_def ntohs_htons)

lemma ntohl_htonl [simp, mem_simps]: "ntohl (htonl x) = x"
  by (metis load32_mem32 mem32_htonl ntohl_load32_be32)

lemma load16_be16 [mem_simps]: "load16 (be16 x) = htons x"
  by (metis htons_def rev_mem16)

lemma load32_be32 [mem_simps]: "load32 (be32 x) = htonl x"
  by (metis htonl_def rev_mem32)

lemma be16_inject: "be16 x = be16 y \<longleftrightarrow> x = y"
  by (metis ntohs_load16_be16)

lemma be32_inject: "be32 x = be32 y \<longleftrightarrow> x = y"
  by (metis ntohl_load32_be32)

lemma be16_ntohs_load16: "length bs = 2 \<Longrightarrow> be16 (ntohs (load16 bs)) = bs"
  by (metis htons_ntohs mem16_htons mem16_load16)

lemma be32_ntohl_load32: "length bs = 4 \<Longrightarrow> be32 (ntohl (load32 bs)) = bs"
  by (metis length_rev mem32_load32 ntohl_def rev_mem32 rev_rev_ident)

end
