(* ===== verification/DataStream.thy ===== *)
theory DataStream
  imports Buffer ByteOrder
begin

text \<open>
  \<open>src/stuncore/datastream.h\<close>, \<open>datastream.cpp\<close>: \<open>CDataStream\<close>, a read/write cursor over a
  reference-counted buffer that grows on demand.

  The pair \<open>_spBuffer\<close>, \<open>_pBuffer\<close> (a shared pointer and its raw copy) is the field \<open>ds_buffer\<close>,
  the buffer by value. Other owners of the shared pointer see every write of the stream until
  \<open>Grow\<close> moves it to a new allocation; the field \<open>ds_left\<close> keeps the buffer that was left behind
  at the first such move after \<open>Attach\<close>, so \<open>attached_buffer\<close> is always what the caller's own
  pointer shows. Reads return the bytes they copy out.
\<close>

record datastream =
  ds_buffer :: "cbuffer option"
  ds_pos :: nat
  ds_fNoGrow :: bool
  ds_left :: "cbuffer option"

definition CDataStream_init :: datastream where
  "CDataStream_init = \<lparr>ds_buffer = None, ds_pos = 0, ds_fNoGrow = False, ds_left = None\<rparr>"

definition CDataStream_from :: "cbuffer \<Rightarrow> datastream" where
  "CDataStream_from b = \<lparr>ds_buffer = Some b, ds_pos = 0, ds_fNoGrow = False, ds_left = None\<rparr>"

definition CDataStream_GetSize :: "datastream \<Rightarrow> nat" where
  "CDataStream_GetSize s = (case ds_buffer s of None \<Rightarrow> 0 | Some b \<Rightarrow> cb_size b)"

definition CDataStream_GetPos :: "datastream \<Rightarrow> nat" where
  "CDataStream_GetPos s = ds_pos s"

definition CDataStream_IsEOF :: "datastream \<Rightarrow> bool" where
  "CDataStream_IsEOF s \<longleftrightarrow> CDataStream_GetSize s \<le> ds_pos s"

definition CDataStream_SetNoGrow :: "bool \<Rightarrow> datastream \<Rightarrow> datastream" where
  "CDataStream_SetNoGrow f s = s\<lparr>ds_fNoGrow := f\<rparr>"

definition CDataStream_Reset :: "datastream \<Rightarrow> datastream" where
  "CDataStream_Reset s = s\<lparr>ds_buffer := None, ds_pos := 0, ds_fNoGrow := False, ds_left := None\<rparr>"

definition CDataStream_Attach :: "cbuffer option \<Rightarrow> bool \<Rightarrow> datastream \<Rightarrow> datastream" where
  "CDataStream_Attach buf fForWriting s =
     (let s1 = CDataStream_Reset s;
          s2 = s1\<lparr>ds_buffer := buf\<rparr>
      in case ds_buffer s2 of
           None \<Rightarrow> s2
         | Some b \<Rightarrow> if fForWriting then s2\<lparr>ds_buffer := Some (snd (CBuffer_SetSize 0 b))\<rparr> else s2)"

definition CDataStream_GetBuffer :: "datastream \<Rightarrow> hresult \<times> cbuffer option" where
  "CDataStream_GetBuffer s = (S_OK, ds_buffer s)"

text \<open>The raw data pointer; the memory it reaches is the whole allocation.\<close>

definition CDataStream_GetDataPointerUnsafe :: "datastream \<Rightarrow> bytes option" where
  "CDataStream_GetDataPointerUnsafe s = (case ds_buffer s of None \<Rightarrow> None | Some b \<Rightarrow> cb_data b)"

definition CDataStream_allocated :: "datastream \<Rightarrow> nat" where
  "CDataStream_allocated s = (case ds_buffer s of None \<Rightarrow> 0 | Some b \<Rightarrow> cb_allocatedSize b)"

definition CDataStream_Grow :: "nat \<Rightarrow> datastream \<Rightarrow> hresult \<times> datastream" where
  "CDataStream_Grow n s =
     (let currentAllocated = CDataStream_allocated s;
          currentSize = CDataStream_GetSize s
      in if n \<le> currentAllocated then (S_OK, s)
         else if ds_fNoGrow s then (E_FAIL, s)
         else
           (let newallocationsize =
                  (if sz_double currentAllocated < n then n else sz_double currentAllocated);
                nb = CBuffer_alloc newallocationsize
            in if \<not> CBuffer_IsValid nb then (E_OUTOFMEMORY, s)
               else
                 (let nb1 = snd (CBuffer_SetSize currentSize nb);
                      nb2 = (case ds_buffer s of
                               None \<Rightarrow> nb1
                             | Some b \<Rightarrow>
                                 if 0 < currentSize
                                 then nb1\<lparr>cb_data := Some (overwrite 0 (take currentSize (CBuffer_GetData b)) (CBuffer_GetData nb1))\<rparr>
                                 else nb1)
                  in (S_OK, s\<lparr>ds_buffer := Some nb2,
                             ds_left := (if ds_left s = None then ds_buffer s else ds_left s)\<rparr>))))"

definition CDataStream_SetSizeHint :: "nat \<Rightarrow> datastream \<Rightarrow> hresult \<times> datastream" where
  "CDataStream_SetSizeHint n s = CDataStream_Grow n s"

definition CDataStream_Write :: "bytes option \<Rightarrow> nat \<Rightarrow> datastream \<Rightarrow> hresult \<times> datastream" where
  "CDataStream_Write data n s =
     (let newposition = sz_add n (ds_pos s);
          currentSize = CDataStream_GetSize s
      in case data of
           None \<Rightarrow> (E_FAIL, s)
         | Some xs \<Rightarrow>
             if n = 0 then (E_FAIL, s)
             else
               (let (hr, s1) = CDataStream_Grow newposition s
                in if FAILED hr then (hr, s1)
                   else
                     (case ds_buffer s1 of
                        None \<Rightarrow> (hr, s1)
                      | Some b \<Rightarrow>
                          (let b1 = b\<lparr>cb_data := Some (overwrite (ds_pos s1) (take n xs) (CBuffer_GetData b))\<rparr>;
                               s2 = s1\<lparr>ds_buffer := Some b1, ds_pos := newposition\<rparr>
                           in if currentSize < newposition
                              then (let (hr2, b2) = CBuffer_SetSize newposition b1
                                    in (hr2, s2\<lparr>ds_buffer := Some b2\<rparr>))
                              else (hr, s2)))))"

definition CDataStream_Read :: "nat \<Rightarrow> datastream \<Rightarrow> hresult \<times> bytes \<times> datastream" where
  "CDataStream_Read n s =
     (let newpos = sz_add n (ds_pos s);
          currentSize = CDataStream_GetSize s
      in if currentSize < newpos then (E_INVALIDARG, [], s)
         else (S_OK,
               bslice (ds_pos s) n (case ds_buffer s of None \<Rightarrow> [] | Some b \<Rightarrow> CBuffer_GetData b),
               s\<lparr>ds_pos := newpos\<rparr>))"

definition CDataStream_SeekDirect :: "nat \<Rightarrow> datastream \<Rightarrow> hresult \<times> datastream" where
  "CDataStream_SeekDirect pos s =
     (let currentSize = CDataStream_GetSize s
      in if 0 \<le> pos \<and> pos \<le> currentSize then (S_OK, s\<lparr>ds_pos := pos\<rparr>) else (E_FAIL, s))"

text \<open>The \<open>int\<close> offset is converted to \<open>size_t\<close> and added with wrap-around.\<close>

definition CDataStream_SeekRelative :: "int \<Rightarrow> datastream \<Rightarrow> hresult \<times> datastream" where
  "CDataStream_SeekRelative offset s =
     CDataStream_SeekDirect (nat ((offset + int (ds_pos s)) mod int size_range)) s"

definition CDataStream_WriteUint8 :: "u8 \<Rightarrow> datastream \<Rightarrow> hresult \<times> datastream" where
  "CDataStream_WriteUint8 v = CDataStream_Write (Some [v]) 1"

definition CDataStream_WriteUint16 :: "u16 \<Rightarrow> datastream \<Rightarrow> hresult \<times> datastream" where
  "CDataStream_WriteUint16 v = CDataStream_Write (Some (mem16 v)) 2"

definition CDataStream_WriteUint32 :: "u32 \<Rightarrow> datastream \<Rightarrow> hresult \<times> datastream" where
  "CDataStream_WriteUint32 v = CDataStream_Write (Some (mem32 v)) 4"

definition CDataStream_WriteInt16 :: "u16 \<Rightarrow> datastream \<Rightarrow> hresult \<times> datastream" where
  "CDataStream_WriteInt16 v = CDataStream_Write (Some (mem16 v)) 2"

definition CDataStream_ReadUint8 :: "datastream \<Rightarrow> hresult \<times> u8 \<times> datastream" where
  "CDataStream_ReadUint8 s =
     (let (hr, bs, s1) = CDataStream_Read 1 s in (hr, (case bs of [b] \<Rightarrow> b | _ \<Rightarrow> 0), s1))"

definition CDataStream_ReadUint16 :: "datastream \<Rightarrow> hresult \<times> u16 \<times> datastream" where
  "CDataStream_ReadUint16 s = (let (hr, bs, s1) = CDataStream_Read 2 s in (hr, load16 bs, s1))"

definition CDataStream_ReadUint32 :: "datastream \<Rightarrow> hresult \<times> u32 \<times> datastream" where
  "CDataStream_ReadUint32 s = (let (hr, bs, s1) = CDataStream_Read 4 s in (hr, load32 bs, s1))"

section \<open>Well-formed streams\<close>

definition stream_bytes :: "datastream \<Rightarrow> bytes" where
  "stream_bytes s = (case ds_buffer s of None \<Rightarrow> [] | Some b \<Rightarrow> buffer_bytes b)"

definition attached_buffer :: "datastream \<Rightarrow> cbuffer option" where
  "attached_buffer s = (case ds_left s of None \<Rightarrow> ds_buffer s | Some b \<Rightarrow> Some b)"

definition wf_stream :: "datastream \<Rightarrow> bool" where
  "wf_stream s \<longleftrightarrow>
     (case ds_buffer s of None \<Rightarrow> True | Some b \<Rightarrow> wf_buffer b) \<and> ds_pos s \<le> CDataStream_GetSize s"

text \<open>Enough room to write \<open>n\<close> bytes at the cursor: no wrap-around and no refused growth.\<close>

definition stream_room :: "nat \<Rightarrow> datastream \<Rightarrow> bool" where
  "stream_room n s \<longleftrightarrow>
     ds_pos s + n < size_range \<and> (ds_fNoGrow s \<longrightarrow> ds_pos s + n \<le> CDataStream_allocated s)"

lemma wf_stream_buffer: "wf_stream s \<Longrightarrow> ds_buffer s = Some b \<Longrightarrow> wf_buffer b"
  by (simp add: wf_stream_def)

lemma length_stream_bytes: "wf_stream s \<Longrightarrow> length (stream_bytes s) = CDataStream_GetSize s"
  by (auto simp: wf_stream_def stream_bytes_def CDataStream_GetSize_def length_buffer_bytes split: option.splits)

lemma wf_stream_pos: "wf_stream s \<Longrightarrow> ds_pos s \<le> length (stream_bytes s)"
  by (simp add: length_stream_bytes) (simp add: wf_stream_def)

lemma wf_CDataStream_init [simp, intro]: "wf_stream CDataStream_init"
  by (simp add: wf_stream_def CDataStream_init_def)

lemma stream_bytes_init [simp]: "stream_bytes CDataStream_init = []"
  by (simp add: stream_bytes_def CDataStream_init_def)

lemma size_le_allocated: "wf_stream s \<Longrightarrow> CDataStream_GetSize s \<le> CDataStream_allocated s"
  by (auto simp: wf_stream_def CDataStream_GetSize_def CDataStream_allocated_def wf_buffer_def split: option.splits)

lemma Attach_for_writing:
  assumes "wf_buffer b"
  shows "wf_stream (CDataStream_Attach (Some b) True s)"
    and "stream_bytes (CDataStream_Attach (Some b) True s) = []"
    and "ds_pos (CDataStream_Attach (Some b) True s) = 0"
    and "\<not> ds_fNoGrow (CDataStream_Attach (Some b) True s)"
    and "ds_left (CDataStream_Attach (Some b) True s) = None"
    and "CDataStream_allocated (CDataStream_Attach (Some b) True s) = cb_allocatedSize b"
  using assms
  by (auto simp: CDataStream_Attach_def CDataStream_Reset_def wf_stream_def wf_buffer_def stream_bytes_def
      buffer_bytes_def CDataStream_allocated_def)

subsection \<open>Growing\<close>

lemma Grow_ok:
  assumes wf: "wf_stream s" and room: "ds_fNoGrow s \<longrightarrow> n \<le> CDataStream_allocated s"
  obtains s' where "CDataStream_Grow n s = (S_OK, s')" "wf_stream s'" "stream_bytes s' = stream_bytes s"
    "ds_pos s' = ds_pos s" "ds_fNoGrow s' = ds_fNoGrow s" "n \<le> CDataStream_allocated s'"
    "n \<le> CDataStream_allocated s \<Longrightarrow> s' = s" "CDataStream_GetSize s' = CDataStream_GetSize s"
    "CDataStream_allocated s < n \<Longrightarrow> ds_buffer s' \<noteq> None"
proof (cases "n \<le> CDataStream_allocated s")
  case True
  then have "CDataStream_Grow n s = (S_OK, s)" by (simp add: CDataStream_Grow_def)
  with True wf show thesis by (intro that) auto
next
  case False
  define na where "na = (if sz_double (CDataStream_allocated s) < n then n else sz_double (CDataStream_allocated s))"
  have na: "n \<le> na" by (simp add: na_def)
  define cs where "cs = CDataStream_GetSize s"
  have cs: "cs \<le> na" using size_le_allocated [OF wf] False na by (simp add: cs_def)
  define old where "old = (case ds_buffer s of None \<Rightarrow> [] | Some b \<Rightarrow> CBuffer_GetData b)"
  have old: "take cs old = stream_bytes s" "length (take cs old) = cs"
    using length_stream_bytes [OF wf]
    by (auto simp: old_def cs_def stream_bytes_def buffer_bytes_def CDataStream_GetSize_def split: option.splits)
  define nb where "nb = \<lparr>cb_data = Some (overwrite 0 (take cs old) (replicate na 0)), cb_size = cs, cb_allocatedSize = na\<rparr>"
  define s' where "s' = s\<lparr>ds_buffer := Some nb, ds_left := (if ds_left s = None then ds_buffer s else ds_left s)\<rparr>"
  have eq: "CDataStream_Grow n s = (S_OK, s')"
  proof (cases "ds_buffer s")
    case None
    then have "cs = 0" by (simp add: cs_def CDataStream_GetSize_def)
    with None False room show ?thesis
      by (simp add: CDataStream_Grow_def Let_def CBuffer_IsValid_def s'_def nb_def na_def [symmetric] cs_def [symmetric]
          overwrite_def)
  next
    case (Some b)
    with False room show ?thesis
      by (simp add: CDataStream_Grow_def Let_def CBuffer_IsValid_def s'_def nb_def na_def [symmetric] cs_def [symmetric]
          old_def CBuffer_GetData_def overwrite_def)
  qed
  have wfb: "wf_buffer nb" using cs old(2) by (auto simp: wf_buffer_def nb_def overwrite_def)
  have bytes: "buffer_bytes nb = stream_bytes s"
    using old by (auto simp: buffer_bytes_def nb_def CBuffer_GetData_def overwrite_def)
  have pos: "ds_pos s \<le> cs" using wf by (simp add: wf_stream_def cs_def)
  show thesis
  proof (rule that [OF eq])
    show "wf_stream s'" using wfb pos by (simp add: wf_stream_def s'_def CDataStream_GetSize_def nb_def)
    show "stream_bytes s' = stream_bytes s" using bytes by (simp add: stream_bytes_def s'_def)
    show "n \<le> CDataStream_allocated s'" using na by (simp add: CDataStream_allocated_def s'_def nb_def)
    show "CDataStream_GetSize s' = CDataStream_GetSize s" by (simp add: CDataStream_GetSize_def s'_def nb_def cs_def)
  qed (use False in \<open>simp_all add: s'_def\<close>)
qed

lemma Grow_within: "n \<le> CDataStream_allocated s \<Longrightarrow> CDataStream_Grow n s = (S_OK, s)"
  by (simp add: CDataStream_Grow_def)

subsection \<open>Writing\<close>

lemma Write_ok:
  assumes wf: "wf_stream s" and ne: "xs \<noteq> []" and room: "stream_room (length xs) s"
  obtains hr s' where "CDataStream_Write (Some xs) (length xs) s = (hr, s')" "SUCCEEDED hr" "wf_stream s'"
    "stream_bytes s' = overwrite (ds_pos s) xs (stream_bytes s)"
    "ds_pos s' = ds_pos s + length xs" "ds_fNoGrow s' = ds_fNoGrow s"
    "ds_pos s + length xs \<le> CDataStream_allocated s \<Longrightarrow>
       CDataStream_allocated s' = CDataStream_allocated s \<and> ds_left s' = ds_left s"
proof -
  let ?p = "ds_pos s + length xs"
  have add: "sz_add (length xs) (ds_pos s) = ?p"
    using room by (simp add: stream_room_def sz_add_small add.commute)
  obtain s1 where g: "CDataStream_Grow ?p s = (S_OK, s1)" "wf_stream s1" "stream_bytes s1 = stream_bytes s"
    "ds_pos s1 = ds_pos s" "ds_fNoGrow s1 = ds_fNoGrow s" "?p \<le> CDataStream_allocated s1"
    "?p \<le> CDataStream_allocated s \<Longrightarrow> s1 = s" "CDataStream_GetSize s1 = CDataStream_GetSize s"
    using Grow_ok [OF wf, of ?p] room by (metis stream_room_def)
  from g(6) ne obtain b where b: "ds_buffer s1 = Some b"
    by (cases "ds_buffer s1") (auto simp: CDataStream_allocated_def)
  then obtain d where d: "cb_data b = Some d" "length d = cb_allocatedSize b" "cb_size b \<le> cb_allocatedSize b"
    using wf_stream_buffer [OF g(2) b] by (auto simp: wf_buffer_def)
  have alloc: "?p \<le> length d" using g(6) b d by (simp add: CDataStream_allocated_def)
  have size: "CDataStream_GetSize s = cb_size b" using g(8) b by (simp add: CDataStream_GetSize_def)
  have posle: "ds_pos s \<le> cb_size b" using g(2) g(4) b by (simp add: wf_stream_def CDataStream_GetSize_def)
  have bytes: "stream_bytes s = take (cb_size b) d"
    using g(3) b d by (simp add: stream_bytes_def buffer_bytes_def CBuffer_GetData_def)
  define b1 where "b1 = b\<lparr>cb_data := Some (overwrite (ds_pos s) xs d)\<rparr>"
  define s' where "s' = s1\<lparr>ds_buffer := Some (b1\<lparr>cb_size := max ?p (cb_size b)\<rparr>), ds_pos := ?p\<rparr>"
  define hr where "hr = (if cb_size b < ?p then fst (CBuffer_SetSize ?p b1) else S_OK)"
  have eq: "CDataStream_Write (Some xs) (length xs) s = (hr, s')"
  proof (cases "cb_size b < ?p")
    case True
    have "CBuffer_SetSize ?p b1 = (fst (CBuffer_SetSize ?p b1), b1\<lparr>cb_size := ?p\<rparr>)"
      by (metis CBuffer_SetSize_snd prod.collapse)
    then show ?thesis using True ne
      by (simp add: CDataStream_Write_def add g(1) b d(1) g(4) size Let_def b1_def [symmetric] s'_def hr_def
          CBuffer_GetData_def case_prod_unfold)
  next
    case False
    then have "b1\<lparr>cb_size := max ?p (cb_size b)\<rparr> = b1" by (simp add: b1_def max_def)
    with False show ?thesis using ne
      by (simp add: CDataStream_Write_def add g(1) b d(1) g(4) size Let_def b1_def [symmetric] s'_def hr_def
          CBuffer_GetData_def)
  qed
  show thesis
  proof (rule that [OF eq])
    show "SUCCEEDED hr" by (simp add: hr_def)
    show "wf_stream s'" using alloc d posle
      by (auto simp: wf_stream_def s'_def wf_buffer_def b1_def CDataStream_GetSize_def)
    have sb: "stream_bytes s' = take (max ?p (cb_size b)) (overwrite (ds_pos s) xs d)"
      by (simp add: stream_bytes_def s'_def buffer_bytes_def CBuffer_GetData_def b1_def)
    show "stream_bytes s' = overwrite (ds_pos s) xs (stream_bytes s)"
    proof (cases "cb_size b < ?p")
      case True
      then show ?thesis using alloc posle d by (simp add: sb bytes max_def overwrite_def min_def)
    next
      case False
      then show ?thesis using alloc posle d by (simp add: sb bytes max_def take_overwrite_beyond)
    qed
    show "ds_pos s' = ?p" "ds_fNoGrow s' = ds_fNoGrow s" using g(5) by (simp_all add: s'_def)
    show "CDataStream_allocated s' = CDataStream_allocated s \<and> ds_left s' = ds_left s"
      if "?p \<le> CDataStream_allocated s"
      using g(7) [OF that] b by (simp add: CDataStream_allocated_def s'_def b1_def)
  qed
qed

subsection \<open>Reading and seeking\<close>

lemma Read_ok:
  assumes "wf_stream s" "ds_pos s + n \<le> length (stream_bytes s)" "ds_pos s + n < size_range"
  shows "CDataStream_Read n s = (S_OK, bslice (ds_pos s) n (stream_bytes s), s\<lparr>ds_pos := ds_pos s + n\<rparr>)"
proof -
  have add: "sz_add n (ds_pos s) = ds_pos s + n" using assms(3) by (simp add: sz_add_small add.commute)
  have size: "CDataStream_GetSize s = length (stream_bytes s)" using assms(1) by (simp add: length_stream_bytes)
  have "bslice (ds_pos s) n (case ds_buffer s of None \<Rightarrow> [] | Some b \<Rightarrow> CBuffer_GetData b)
      = bslice (ds_pos s) n (stream_bytes s)"
    using assms(2) size
    by (auto simp: stream_bytes_def buffer_bytes_def CDataStream_GetSize_def bslice_take split: option.splits)
  with assms(2) show ?thesis by (simp add: CDataStream_Read_def add size)
qed

lemma Read_fail:
  assumes "wf_stream s" "length (stream_bytes s) < ds_pos s + n" "ds_pos s + n < size_range"
  shows "CDataStream_Read n s = (E_INVALIDARG, [], s)"
  using assms by (simp add: CDataStream_Read_def sz_add_small add.commute length_stream_bytes)

lemma SeekDirect_ok:
  "wf_stream s \<Longrightarrow> p \<le> length (stream_bytes s) \<Longrightarrow> CDataStream_SeekDirect p s = (S_OK, s\<lparr>ds_pos := p\<rparr>)"
  by (simp add: CDataStream_SeekDirect_def length_stream_bytes)

lemma SeekDirect_fail:
  "wf_stream s \<Longrightarrow> length (stream_bytes s) < p \<Longrightarrow> CDataStream_SeekDirect p s = (E_FAIL, s)"
  by (simp add: CDataStream_SeekDirect_def length_stream_bytes)

lemma wf_stream_seek [simp]:
  "wf_stream s \<Longrightarrow> p \<le> length (stream_bytes s) \<Longrightarrow> wf_stream (s\<lparr>ds_pos := p\<rparr>)"
  by (simp add: wf_stream_def length_stream_bytes CDataStream_GetSize_def split: option.splits)

lemma stream_bytes_seek [simp]: "stream_bytes (s\<lparr>ds_pos := p\<rparr>) = stream_bytes s"
  by (simp add: stream_bytes_def)

lemma GetSize_seek [simp]: "CDataStream_GetSize (s\<lparr>ds_pos := p\<rparr>) = CDataStream_GetSize s"
  by (simp add: CDataStream_GetSize_def)

lemma SeekRelative_forward:
  assumes "ds_pos s + k < size_range"
  shows "CDataStream_SeekRelative (int k) s = CDataStream_SeekDirect (ds_pos s + k) s"
proof -
  have "(int k + int (ds_pos s)) mod int size_range = int ((k + ds_pos s) mod size_range)"
    by (simp only: of_nat_add of_nat_mod)
  also have "\<dots> = int (ds_pos s + k)" using assms by (simp only: add.commute mod_less)
  finally show ?thesis unfolding CDataStream_SeekRelative_def by (simp only: nat_int)
qed

lemma SeekRelative_back:
  assumes "k \<le> ds_pos s" "ds_pos s < size_range"
  shows "CDataStream_SeekRelative (- int k) s = CDataStream_SeekDirect (ds_pos s - k) s"
proof -
  have "- int k + int (ds_pos s) = int (ds_pos s - k)" using assms(1) by simp
  then have "(- int k + int (ds_pos s)) mod int size_range = int ((ds_pos s - k) mod size_range)"
    by (simp only: of_nat_mod)
  also have "\<dots> = int (ds_pos s - k)" using assms by simp
  finally show ?thesis unfolding CDataStream_SeekRelative_def by (simp only: nat_int)
qed

section \<open>Appending\<close>

definition at_end :: "datastream \<Rightarrow> bool" where
  "at_end s \<longleftrightarrow> wf_stream s \<and> ds_pos s = length (stream_bytes s)"

definition append_room :: "nat \<Rightarrow> datastream \<Rightarrow> bool" where
  "append_room n s \<longleftrightarrow> at_end s \<and> stream_room n s"

definition appends :: "bytes \<Rightarrow> datastream \<Rightarrow> datastream \<Rightarrow> bool" where
  "appends xs s s' \<longleftrightarrow>
     at_end s' \<and> stream_bytes s' = stream_bytes s @ xs \<and> ds_fNoGrow s' = ds_fNoGrow s \<and>
     CDataStream_allocated s \<le> CDataStream_allocated s' \<and>
     (length (stream_bytes s) + length xs \<le> CDataStream_allocated s \<longrightarrow>
        CDataStream_allocated s' = CDataStream_allocated s \<and> ds_left s' = ds_left s)"

definition put_bytes :: "bytes \<Rightarrow> datastream \<Rightarrow> hresult \<times> datastream" where
  "put_bytes xs s = CDataStream_Write (Some xs) (length xs) s"

lemma at_end_init [simp, intro]: "at_end CDataStream_init"
  by (auto simp: at_end_def) (simp add: CDataStream_init_def)

lemma overwrite_end: "length xs = off \<Longrightarrow> overwrite off ys xs = xs @ ys"
  by (simp add: overwrite_def)

interpretation sink: byte_sink put_bytes append_room appends
proof
  fix xs :: bytes and s
  assume rm: "append_room (length xs) s" and ne: "xs \<noteq> []"
  then have wf: "wf_stream s" and e: "ds_pos s = length (stream_bytes s)" by (auto simp: append_room_def at_end_def)
  from rm have "stream_room (length xs) s" by (simp add: append_room_def)
  from Write_ok [OF wf ne this] obtain hr s' where w:
    "CDataStream_Write (Some xs) (length xs) s = (hr, s')" "SUCCEEDED hr" "wf_stream s'"
    "stream_bytes s' = overwrite (ds_pos s) xs (stream_bytes s)"
    "ds_pos s' = ds_pos s + length xs" "ds_fNoGrow s' = ds_fNoGrow s"
    "ds_pos s + length xs \<le> CDataStream_allocated s \<Longrightarrow>
       CDataStream_allocated s' = CDataStream_allocated s \<and> ds_left s' = ds_left s" by metis
  have b: "stream_bytes s' = stream_bytes s @ xs" using w(4) e by (simp add: overwrite_end)
  have "CDataStream_allocated s \<le> CDataStream_allocated s'"
    using w(7) size_le_allocated [OF w(3)] length_stream_bytes [OF w(3)] b e
    by (cases "ds_pos s + length xs \<le> CDataStream_allocated s") auto
  with w(3,5,6,7) b e have "appends xs s s'" by (simp add: appends_def at_end_def)
  with w(1,2) show "\<exists>hr s'. put_bytes xs s = (hr, s') \<and> SUCCEEDED hr \<and> appends xs s s'"
    by (auto simp: put_bytes_def)
next
  fix xs :: bytes and s t n
  assume a: "appends xs s t" and r: "append_room (length xs + n) s"
  then have "at_end s" "at_end t" "stream_bytes t = stream_bytes s @ xs"
    by (auto simp: appends_def append_room_def)
  with a r show "append_room n t"
    by (auto simp: append_room_def appends_def stream_room_def at_end_def)
qed (auto simp: append_room_def appends_def stream_room_def)

end
