(* ===== verification/Crc32.thy ===== *)
theory Crc32
  imports Prelude
begin

text \<open>
  \<open>src/boost/crc.hpp\<close>, the part the fingerprint uses. \<open>crc_32_type\<close> is
  \<open>crc_optimal<32, 0x04C11DB7, 0xFFFFFFFF, 0xFFFFFFFF, true, true>\<close>, which looks every byte up in a
  table that \<open>init_table\<close> fills. \<open>crc_basic\<close> is the library's own bit-by-bit division. The
  theorem at the end says that both compute the same checksum of every message.
\<close>

section \<open>Reflection\<close>

definition reflect_step :: "nat \<Rightarrow> nat \<Rightarrow> 'a::len word \<times> 'a word \<Rightarrow> 'a word \<times> 'a word" where
  "reflect_step bits i st =
     (let (reflection, x) = st
      in (if x AND 1 \<noteq> 0 then reflection OR push_bit (bits - 1 - i) 1 else reflection, drop_bit 1 x))"

definition reflector :: "'a::len word \<Rightarrow> 'a word" where
  "reflector x = fst (fold (reflect_step LENGTH('a)) [0 ..< LENGTH('a)] (0, x))"

lemma and_1_bit: "x AND 1 \<noteq> 0 \<longleftrightarrow> bit x 0" for x :: "'a::len word"
  by (simp add: and_one_eq mod_2_eq_odd bit_0)

lemma reflect_fold:
  fixes x :: "'a::len word"
  assumes "k \<le> LENGTH('a)"
  shows "snd (fold (reflect_step LENGTH('a)) [0 ..< k] (0, x)) = drop_bit k x \<and>
    (\<forall>n. bit (fst (fold (reflect_step LENGTH('a)) [0 ..< k] (0, x))) n \<longleftrightarrow>
       n < LENGTH('a) \<and> LENGTH('a) - k \<le> n \<and> bit x (LENGTH('a) - 1 - n))"
  using assms
proof (induction k)
  case (Suc k)
  define st where "st = fold (reflect_step LENGTH('a)) [0 ..< k] (0, x)"
  have st: "snd st = drop_bit k x"
    "\<And>n. bit (fst st) n \<longleftrightarrow> n < LENGTH('a) \<and> LENGTH('a) - k \<le> n \<and> bit x (LENGTH('a) - 1 - n)"
    using Suc by (auto simp: st_def)
  have eq: "fold (reflect_step LENGTH('a)) [0 ..< Suc k] (0, x) = reflect_step LENGTH('a) k st" by (simp add: st_def)
  have k: "LENGTH('a) - Suc k \<le> n \<longleftrightarrow> LENGTH('a) - k \<le> n \<or> n = LENGTH('a) - 1 - k" for n using Suc.prems by auto
  have low: "bit (drop_bit k x) 0 \<longleftrightarrow> bit x k" by (simp add: bit_drop_bit_eq)
  have idx: "LENGTH('a) - 1 - (LENGTH('a) - 1 - k) = k" "LENGTH('a) - 1 - k < LENGTH('a)" using Suc.prems by auto
  show ?case
  proof (intro conjI allI)
    show "snd (fold (reflect_step LENGTH('a)) [0 ..< Suc k] (0, x)) = drop_bit (Suc k) x"
      unfolding eq by (simp add: reflect_step_def case_prod_unfold st drop_bit_drop_bit)
    fix n
    show "bit (fst (fold (reflect_step LENGTH('a)) [0 ..< Suc k] (0, x))) n \<longleftrightarrow>
       n < LENGTH('a) \<and> LENGTH('a) - Suc k \<le> n \<and> bit x (LENGTH('a) - 1 - n)"
      unfolding eq k using idx
      by (cases "n = LENGTH('a) - 1 - k")
        (auto simp: reflect_step_def case_prod_unfold st and_1_bit low bit_or_iff bit_exp_iff possible_bit_word)
  qed
qed simp

lemma bit_reflector: "bit (reflector x) n \<longleftrightarrow> n < LENGTH('a) \<and> bit x (LENGTH('a) - 1 - n)" for x :: "'a::len word"
  using reflect_fold [of "LENGTH('a)" x] by (simp add: reflector_def)

section \<open>The two implementations\<close>

definition TruncPoly :: u32 where "TruncPoly = 0x04C11DB7"
definition InitRem :: u32 where "InitRem = 0xFFFFFFFF"
definition FinalXor :: u32 where "FinalXor = 0xFFFFFFFF"

text \<open>One step of the division, \<open>process_bit\<close>.\<close>

definition poly_div_step :: "u32 \<Rightarrow> bool \<Rightarrow> u32" where
  "poly_div_step remainder hit =
     (let remainder = (if hit then remainder XOR 0x80000000 else remainder)
      in if remainder AND 0x80000000 \<noteq> 0 then push_bit 1 remainder XOR TruncPoly else push_bit 1 remainder)"

text \<open>The inner loop of \<open>init_table\<close>, which has its own division: the mask runs from the top bit of the dividend down.\<close>

definition table_division :: "u8 \<Rightarrow> u8 \<Rightarrow> u32 \<Rightarrow> u32" where
  "table_division dividend m remainder =
     (let remainder = (if dividend AND m \<noteq> 0 then remainder XOR 0x80000000 else remainder)
      in if remainder AND 0x80000000 \<noteq> 0 then push_bit 1 remainder XOR TruncPoly else push_bit 1 remainder)"

definition table_remainder :: "u8 \<Rightarrow> u32" where
  "table_remainder dividend = fold (\<lambda>i. table_division dividend (drop_bit i 0x80)) [0 ..< 8] 0"

definition init_table :: "u32 list" where
  "init_table =
     fold (\<lambda>dividend table. table[unat (reflector (word_of_nat dividend :: u8)) := reflector (table_remainder (word_of_nat dividend))])
       [0 ..< 256] (replicate 256 0)"

definition crc_optimal_init :: u32 where
  "crc_optimal_init = reflector InitRem"

definition crc_optimal_step :: "u8 \<Rightarrow> u32 \<Rightarrow> u32" where
  "crc_optimal_step x rem =
     (let byte_index = x XOR ucast rem
      in drop_bit 8 rem XOR init_table ! unat byte_index)"

definition crc_optimal_process_bytes :: "bytes \<Rightarrow> u32 \<Rightarrow> u32" where
  "crc_optimal_process_bytes xs rem = fold crc_optimal_step xs rem"

definition crc_optimal_checksum :: "u32 \<Rightarrow> u32" where
  "crc_optimal_checksum rem = rem XOR FinalXor"

definition crc32 :: "bytes \<Rightarrow> u32" where
  "crc32 xs = crc_optimal_checksum (crc_optimal_process_bytes xs crc_optimal_init)"

definition crc_basic_process_bits :: "u8 \<Rightarrow> u32 \<Rightarrow> u32" where
  "crc_basic_process_bits bits rem = fold (\<lambda>i r. poly_div_step r (bit bits (7 - i))) [0 ..< 8] rem"

definition crc_basic_process_byte :: "u8 \<Rightarrow> u32 \<Rightarrow> u32" where
  "crc_basic_process_byte byte rem = crc_basic_process_bits (reflector byte) rem"

definition crc_basic_process_bytes :: "bytes \<Rightarrow> u32 \<Rightarrow> u32" where
  "crc_basic_process_bytes xs rem = fold crc_basic_process_byte xs rem"

definition crc_basic_checksum :: "u32 \<Rightarrow> u32" where
  "crc_basic_checksum rem = reflector rem XOR FinalXor"

section \<open>Polynomial division is linear\<close>

definition xdiv :: "u32 \<Rightarrow> u32" where
  "xdiv r = (if bit r 31 then push_bit 1 r XOR TruncPoly else push_bit 1 r)"

lemma and_top_bit: "r AND 0x80000000 \<noteq> 0 \<longleftrightarrow> bit r 31" for r :: u32
proof -
  have "(0x80000000 :: u32) = push_bit 31 1" by simp
  then show ?thesis by (metis and_exp_eq_0_iff_not_bit push_bit_of_1)
qed

lemma poly_div_step_xdiv: "poly_div_step r hit = xdiv (r XOR (if hit then push_bit 31 1 else 0))"
proof -
  have eq: "push_bit 31 1 = (0x80000000 :: u32)" by simp
  have t: "r AND 0x80000000 = 0 \<longleftrightarrow> \<not> bit r 31" for r :: u32 using and_top_bit [of r] by blast
  show ?thesis by (cases hit) (simp_all only: poly_div_step_def xdiv_def t not_not Let_def eq if_True if_False xor.right_neutral)
qed

lemma xdiv_xor: "xdiv (a XOR b) = xdiv a XOR xdiv b"
  by (auto simp: xdiv_def bit_xor_iff push_bit_xor ac_simps)

lemma xdiv_shift: "\<not> bit r 31 \<Longrightarrow> xdiv r = push_bit 1 r"
  by (simp add: xdiv_def)

text \<open>Eight steps on a remainder do what they do on its top byte, and shift the rest.\<close>

definition step8 :: "u8 \<Rightarrow> u32 \<Rightarrow> u32" where
  "step8 y r = fold (\<lambda>i r. poly_div_step r (bit y (7 - i))) [0 ..< 8] r"

definition xdiv8 :: "u32 \<Rightarrow> u32" where
  "xdiv8 r = (xdiv ^^ 8) r"

lemma xdiv_pow_xor: "(xdiv ^^ n) (a XOR b) = (xdiv ^^ n) a XOR (xdiv ^^ n) b"
  by (induction n) (simp_all add: xdiv_xor)

lemma xdiv_pow_shift: "(\<And>j. j < n \<Longrightarrow> \<not> bit r (31 - j)) \<Longrightarrow> n \<le> 31 \<Longrightarrow> (xdiv ^^ n) r = push_bit n r"
proof (induction n)
  case (Suc n)
  then have "(xdiv ^^ n) r = push_bit n r" by simp
  moreover have "\<not> bit (push_bit n r) 31" using Suc.prems by (simp add: bit_push_bit_iff)
  ultimately show ?case by (simp add: xdiv_shift push_bit_push_bit)
qed simp

text \<open>The bits fed so far, aligned to the top of the remainder.\<close>

fun fed :: "u8 \<Rightarrow> nat \<Rightarrow> u32" where
  "fed y 0 = 0"
| "fed y (Suc k) = fed y k XOR (if bit y (7 - k) then push_bit (31 - k) 1 else 0)"

lemma bit_push_bit_1: "bit (push_bit m (1 :: u32)) n \<longleftrightarrow> m < 32 \<and> n = m"
  by (auto simp: bit_exp_iff possible_bit_word)

lemma bit_fed: "k \<le> 8 \<Longrightarrow> bit (fed y k) n \<longleftrightarrow> 32 - k \<le> n \<and> n < 32 \<and> bit y (n - 24)"
proof (induction k)
  case (Suc k)
  show ?case
  proof (cases "n = 31 - k")
    case True
    have "\<not> 32 - k \<le> 31 - k" "31 - k < 32" using Suc.prems by linarith+
    with True Suc show ?thesis by (simp add: bit_xor_iff bit_push_bit_1 del: push_bit_of_1)
  next
    case False
    then have "32 - Suc k \<le> n \<longleftrightarrow> 32 - k \<le> n" by auto
    with False Suc show ?thesis by (auto simp: bit_xor_iff bit_push_bit_1 simp del: push_bit_of_1)
  qed
qed simp

lemma fed_8: "fed y 8 = push_bit 24 (ucast y)"
  by (rule bit_word_eqI) (auto simp: bit_fed bit_push_bit_iff bit_ucast_iff)

lemma fold_steps:
  "k \<le> 8 \<Longrightarrow> fold (\<lambda>i r. poly_div_step r (bit y (7 - i))) [0 ..< k] r = (xdiv ^^ k) (r XOR fed y k)"
proof (induction k)
  case (Suc k)
  have "(xdiv ^^ k) (push_bit (31 - k) 1) = push_bit k (push_bit (31 - k) 1)"
    using Suc.prems by (intro xdiv_pow_shift) (auto simp: bit_push_bit_1 simp del: push_bit_of_1)
  also have "... = push_bit 31 1" using Suc.prems by (simp add: push_bit_push_bit del: push_bit_of_1)
  finally have one: "push_bit 31 1 = (xdiv ^^ k) (push_bit (31 - k) 1)" by simp
  have zero: "(xdiv ^^ k) 0 = 0" by (induction k) (simp_all add: xdiv_def)
  have "(if bit y (7 - k) then push_bit 31 1 else 0) = (xdiv ^^ k) (if bit y (7 - k) then push_bit (31 - k) 1 else 0)"
    by (simp only: one zero if_distrib [of "xdiv ^^ k"] cong: if_cong)
  then show ?case using Suc
    by (simp add: poly_div_step_xdiv xdiv_pow_xor xor.assoc del: push_bit_of_1)
qed simp

lemma step8_xdiv: "step8 y r = xdiv8 (r XOR push_bit 24 (ucast y))"
  using fold_steps [of 8 y r] by (simp add: step8_def xdiv8_def fed_8)

text \<open>The two divisions are the same.\<close>

lemma table_division_poly:
  assumes "i < 8"
  shows "table_division dividend (drop_bit i 0x80) r = poly_div_step r (bit dividend (7 - i))"
proof -
  have "\<forall>i \<in> set [0 ..< 8]. drop_bit i 0x80 = (push_bit (7 - i) 1 :: u8)" by code_simp
  then have m: "drop_bit i 0x80 = (push_bit (7 - i) 1 :: u8)" by (rule bspec) (use assms in simp)
  have "dividend AND drop_bit i 0x80 \<noteq> 0 \<longleftrightarrow> bit dividend (7 - i)"
    unfolding m by (simp add: and_exp_eq_0_iff_not_bit push_bit_eq_mult)
  then show ?thesis by (simp add: table_division_def poly_div_step_def)
qed

lemma table_remainder_poly: "table_remainder dividend = fold (\<lambda>i r. poly_div_step r (bit dividend (7 - i))) [0 ..< 8] 0"
  unfolding table_remainder_def by (rule fold_cong) (simp_all add: table_division_poly fun_eq_iff)

lemma table_remainder_step8: "table_remainder y = step8 y 0"
  by (simp add: table_remainder_poly step8_def)

lemma crc_basic_step8: "crc_basic_process_bits y r = step8 y r"
  by (simp add: crc_basic_process_bits_def step8_def)

lemma xdiv8_xor: "xdiv8 (a XOR b) = xdiv8 a XOR xdiv8 b"
  by (simp only: xdiv8_def xdiv_pow_xor)

lemma step8_split: "step8 y r = push_bit 8 r XOR table_remainder (y XOR ucast (drop_bit 24 r))"
proof -
  define low where "low = take_bit 24 r"
  define top :: u8 where "top = ucast (drop_bit 24 r)"
  have r: "r = low XOR push_bit 24 (ucast top)"
    by (rule bit_word_eqI) (auto simp: low_def top_def bit_simps)
  have "xdiv8 low = push_bit 8 low"
    unfolding xdiv8_def
  proof (rule xdiv_pow_shift)
    fix j :: nat
    assume "j < 8"
    then have "\<not> 31 - j < 24" by linarith
    then show "\<not> bit low (31 - j)" by (simp add: low_def bit_take_bit_iff)
  qed simp
  moreover have "push_bit 8 low = push_bit 8 r"
    by (rule bit_word_eqI) (auto simp: low_def bit_simps)
  moreover have "push_bit 24 (ucast (y XOR top)) = push_bit 24 (ucast y :: u32) XOR push_bit 24 (ucast top)"
    by (rule bit_word_eqI) (auto simp: bit_simps)
  ultimately show ?thesis
    unfolding table_remainder_step8 step8_xdiv top_def [symmetric]
    by (subst r) (simp add: xdiv8_xor ac_simps)
qed

section \<open>The table-driven checksum is the bitwise one\<close>

lemma reflector_involution [simp]: "reflector (reflector x) = x"
  by (rule bit_word_eqI) (simp add: bit_reflector)

lemma reflector_xor: "reflector (a XOR b) = reflector a XOR reflector b"
  by (rule bit_word_eqI) (auto simp: bit_reflector bit_xor_iff)

lemma reflector_inject: "reflector a = reflector b \<longleftrightarrow> a = b"
  by (metis reflector_involution)

lemma fold_update_length: "length (fold (\<lambda>d t. t[f d := g d]) ds t) = length t"
  by (induction ds arbitrary: t) auto

lemma fold_update_other: "\<forall>d \<in> set ds. f d \<noteq> i \<Longrightarrow> fold (\<lambda>d t. t[f d := g d]) ds t ! i = t ! i"
  by (induction ds arbitrary: t) auto

lemma fold_update_nth:
  "distinct (map f ds) \<Longrightarrow> d \<in> set ds \<Longrightarrow> f d < length t \<Longrightarrow> fold (\<lambda>d t. t[f d := g d]) ds t ! f d = g d"
proof (induction ds arbitrary: t)
  case (Cons e ds)
  show ?case
  proof (cases "d = e")
    case True
    have "\<forall>d' \<in> set ds. f d' \<noteq> f e" using Cons.prems(1) by (auto simp: image_iff)
    then show ?thesis using True Cons.prems(3) by (simp add: fold_update_other)
  next
    case False
    then show ?thesis using Cons by simp
  qed
qed simp

lemma init_table_entry: "init_table ! unat (reflector y) = reflector (table_remainder y)"
proof -
  let ?f = "\<lambda>d. unat (reflector (word_of_nat d :: u8))" and ?g = "\<lambda>d. reflector (table_remainder (word_of_nat d))"
  have inj: "inj_on ?f (set [0 ..< 256])"
  proof (rule inj_onI)
    fix a b :: nat
    assume ab: "a \<in> set [0 ..< 256]" "b \<in> set [0 ..< 256]" and eq: "?f a = ?f b"
    then have "(word_of_nat a :: u8) = word_of_nat b" by (simp add: reflector_inject word_unat_eq_iff [symmetric])
    then have "unat (word_of_nat a :: u8) = unat (word_of_nat b :: u8)" by simp
    then show "a = b" using ab by (simp add: unat_of_nat)
  qed
  have y: "y = word_of_nat (unat y)" "unat y \<in> set [0 ..< 256]"
    using unsigned_less [of y] by auto
  have "fold (\<lambda>d t. t[?f d := ?g d]) [0 ..< 256] (replicate 256 0) ! ?f (unat y) = ?g (unat y)"
  proof (rule fold_update_nth)
    show "distinct (map ?f [0 ..< 256])" using inj by (simp add: distinct_map)
    show "unat y \<in> set [0 ..< 256]" by (rule y(2))
    show "?f (unat y) < length (replicate 256 (0 :: u32))" using unsigned_less [of "reflector (word_of_nat (unat y) :: u8)"] by simp
  qed
  then show ?thesis by (simp add: init_table_def)
qed

lemma crc_step_refines: "crc_optimal_step x (reflector r) = reflector (crc_basic_process_byte x r)"
proof -
  have "reflector (push_bit 8 r) = drop_bit 8 (reflector r)"
    by (rule bit_word_eqI) (auto simp: bit_reflector bit_simps)
  moreover have "x XOR ucast (reflector r) = reflector (reflector x XOR ucast (drop_bit 24 r))"
    by (rule bit_word_eqI) (auto simp: bit_reflector bit_simps)
  ultimately show ?thesis
    unfolding crc_optimal_step_def crc_basic_process_byte_def crc_basic_step8 step8_split Let_def
    by (simp only: reflector_xor [of "push_bit 8 r"] init_table_entry)
qed

lemma crc_process_refines:
  "crc_optimal_process_bytes xs (reflector r) = reflector (crc_basic_process_bytes xs r)"
  by (induction xs arbitrary: r)
    (simp_all add: crc_optimal_process_bytes_def crc_basic_process_bytes_def crc_step_refines)

lemma crc32_basic: "crc32 xs = crc_basic_checksum (crc_basic_process_bytes xs InitRem)"
  by (simp add: crc32_def crc_optimal_checksum_def crc_optimal_init_def crc_process_refines crc_basic_checksum_def)

end
