(* ===== verification/RefCount.thy ===== *)
theory RefCount
  imports HResult
begin

text \<open>
  \<open>src/common/refcountobject.*\<close>, \<open>atomichelpers.cpp\<close> and \<open>objectfactory.h\<close>: counted objects, the pointers
  that count them, and the interleaving of threads that use such pointers.

  An object is its count \<open>m_nRefs\<close> in a heap; a deleted object is \<open>None\<close> there. A thread has pointer variables,
  which hold null or the address of an object: the members \<open>m_ptr\<close> of its \<open>CRefCountedPtr\<close>s, and plain pointers
  that own a reference. An operation of the pointer class is the list of the actions it makes, in the order of
  the code: an atomic change of a count or an assignment to a variable. A thread makes one action at a
  time, and what lies between the decrement of a count and \<open>delete this\<close> is a state of its own.
\<close>

section \<open>Counters\<close>

text \<open>The atomic operations return what the caller sees and the new content of the cell.\<close>

definition xadd_4 :: "u32 \<Rightarrow> u32 \<Rightarrow> u32 \<times> u32" where
  "xadd_4 cell inc = (cell, cell + inc)"

definition AtomicIncrement_x86 :: "u32 \<Rightarrow> u32 \<times> u32" where
  "AtomicIncrement_x86 cell = (let (result, cell) = xadd_4 cell 1 in (result + 1, cell))"

definition AtomicDecrement_x86 :: "u32 \<Rightarrow> u32 \<times> u32" where
  "AtomicDecrement_x86 cell = (let (result, cell) = xadd_4 cell (- 1) in (result - 1, cell))"

text \<open>On other targets, \<open>__sync_add_and_fetch\<close> and \<open>__sync_sub_and_fetch\<close>.\<close>

definition AtomicIncrement :: "u32 \<Rightarrow> u32 \<times> u32" where
  "AtomicIncrement cell = (cell + 1, cell + 1)"

definition AtomicDecrement :: "u32 \<Rightarrow> u32 \<times> u32" where
  "AtomicDecrement cell = (cell - 1, cell - 1)"

definition CBasicRefCount_init :: u32 where
  "CBasicRefCount_init = 0"

definition InternalAddRef :: "u32 \<Rightarrow> u32 \<times> u32" where
  "InternalAddRef m_nRefs = AtomicIncrement m_nRefs"

text \<open>The third component says that \<open>OnFinalRelease\<close> is called.\<close>

definition InternalRelease :: "u32 \<Rightarrow> u32 \<times> u32 \<times> bool" where
  "InternalRelease m_nRefs = (let (refcount, m_nRefs) = AtomicDecrement m_nRefs in (refcount, m_nRefs, refcount = 0))"

lemma atomics_agree:
  "AtomicIncrement_x86 cell = AtomicIncrement cell" "AtomicDecrement_x86 cell = AtomicDecrement cell"
  by (simp_all add: AtomicIncrement_x86_def AtomicDecrement_x86_def AtomicIncrement_def AtomicDecrement_def xadd_4_def)

section \<open>The pointer class\<close>

type_synonym ptr = "nat option"

datatype action = Create nat | AddRef nat | Release nat | Put nat ptr

definition addref_if :: "ptr \<Rightarrow> action list" where
  "addref_if p = (case p of None \<Rightarrow> [] | Some a \<Rightarrow> [AddRef a])"

definition release_if :: "ptr \<Rightarrow> action list" where
  "release_if p = (case p of None \<Rightarrow> [] | Some a \<Rightarrow> [Release a])"

definition ptr_default :: "nat \<Rightarrow> action list" where
  "ptr_default this = [Put this None]"

definition ptr_construct :: "nat \<Rightarrow> ptr \<Rightarrow> action list" where
  "ptr_construct this p = Put this p # addref_if p"

definition ptr_copy :: "ptr list \<Rightarrow> nat \<Rightarrow> nat \<Rightarrow> action list" where
  "ptr_copy vars this sp = Put this (vars ! sp) # addref_if (vars ! sp)"

definition ptr_destroy :: "ptr list \<Rightarrow> nat \<Rightarrow> action list" where
  "ptr_destroy vars this = (case vars ! this of None \<Rightarrow> [] | Some a \<Rightarrow> [Release a, Put this None])"

definition ptr_assign :: "ptr list \<Rightarrow> nat \<Rightarrow> ptr \<Rightarrow> action list" where
  "ptr_assign vars this p = addref_if p @ release_if (vars ! this) @ [Put this p]"

definition ptr_assign_ptr :: "ptr list \<Rightarrow> nat \<Rightarrow> nat \<Rightarrow> action list" where
  "ptr_assign_ptr vars this sp = addref_if (vars ! sp) @ release_if (vars ! this) @ [Put this (vars ! sp)]"

definition ReleaseAndClear :: "ptr list \<Rightarrow> nat \<Rightarrow> action list" where
  "ReleaseAndClear vars this = (case vars ! this of None \<Rightarrow> [] | Some a \<Rightarrow> [Release a, Put this None])"

definition ptr_Attach :: "ptr list \<Rightarrow> nat \<Rightarrow> ptr \<Rightarrow> action list" where
  "ptr_Attach vars this p = release_if (vars ! this) @ [Put this p]"

definition ptr_Detach :: "ptr list \<Rightarrow> nat \<Rightarrow> ptr \<times> action list" where
  "ptr_Detach vars this = (vars ! this, [Put this None])"

definition CopyTo :: "ptr list \<Rightarrow> nat \<Rightarrow> nat option \<Rightarrow> hresult \<times> action list" where
  "CopyTo vars this ppT = (case ppT of None \<Rightarrow> (E_POINTER, [])
     | Some out \<Rightarrow> (S_OK, Put out (vars ! this) # addref_if (vars ! this)))"

section \<open>The object factory\<close>

text \<open>
  \<open>mem\<close> is the address that \<open>new\<close> returns. The action \<open>Create\<close> is \<open>new T()\<close> with the \<open>AddRef\<close> that follows it
  before the address is stored anywhere.
\<close>

definition CreateInstanceNoInit :: "ptr \<Rightarrow> nat option \<Rightarrow> hresult \<times> action list" where
  "CreateInstanceNoInit mem ppInstance =
     (case ppInstance of None \<Rightarrow> (E_INVALIDARG, [])
      | Some out \<Rightarrow> (case mem of None \<Rightarrow> (E_OUTOFMEMORY, []) | Some a \<Rightarrow> (S_OK, [Create a, Put out (Some a)])))"

text \<open>\<open>tmp\<close> is the local \<open>pInstance\<close>, \<open>init\<close> the result of the object's \<open>Initialize\<close>; the two other templates differ in its arguments.\<close>

definition CreateInstance :: "hresult \<Rightarrow> ptr \<Rightarrow> nat \<Rightarrow> nat option \<Rightarrow> hresult \<times> action list" where
  "CreateInstance init mem tmp ppI =
     (case ppI of None \<Rightarrow> (E_NOINTERFACE, [])
      | Some out \<Rightarrow>
         (let (hr, acts) = CreateInstanceNoInit mem (Some tmp) in
          case mem of None \<Rightarrow> (hr, acts)
          | Some a \<Rightarrow>
             if FAILED init then (init, acts @ [Release a, Put tmp None])
             else (init, acts @ [Put out (Some a), Put tmp None])))"

section \<open>Threads\<close>

text \<open>\<open>rc_dying\<close> is the object whose count the thread has brought to zero and that it is about to delete.\<close>

record pointer_thread =
  rc_vars :: "ptr list"
  rc_todo :: "action list"
  rc_dying :: ptr

type_synonym counts = "nat \<Rightarrow> u32 option"

text \<open>\<open>None\<close> as the result of an action is a thread with nothing to do, or a use of memory that holds no object.\<close>

definition act :: "action \<Rightarrow> counts \<Rightarrow> pointer_thread \<Rightarrow> (counts \<times> pointer_thread) option" where
  "act x h th = (case x of
       Create a \<Rightarrow> (case h a of None \<Rightarrow> Some (h(a \<mapsto> snd (InternalAddRef CBasicRefCount_init)), th) | Some m \<Rightarrow> None)
     | AddRef a \<Rightarrow> (case h a of None \<Rightarrow> None | Some m \<Rightarrow> Some (h(a \<mapsto> snd (InternalAddRef m)), th))
     | Release a \<Rightarrow> (case h a of None \<Rightarrow> None
         | Some m \<Rightarrow> (let (refcount, m, final) = InternalRelease m
             in Some (h(a \<mapsto> m), th\<lparr>rc_dying := if final then Some a else None\<rparr>)))
     | Put i p \<Rightarrow> Some (h, th\<lparr>rc_vars := (rc_vars th)[i := p]\<rparr>))"

definition thread_act :: "counts \<Rightarrow> pointer_thread \<Rightarrow> (counts \<times> pointer_thread) option" where
  "thread_act h th = (case rc_dying th of
       Some a \<Rightarrow> (case h a of None \<Rightarrow> None | Some m \<Rightarrow> Some (h(a := None), th\<lparr>rc_dying := None\<rparr>))
     | None \<Rightarrow> (case rc_todo th of [] \<Rightarrow> None | x # xs \<Rightarrow> act x h (th\<lparr>rc_todo := xs\<rparr>)))"

text \<open>
  The operations as the programs use them. A new pointer is a variable that is null; a plain pointer handed to an
  operation points to an object to which the thread holds a reference; \<open>Attach\<close> takes over the reference of a
  variable that gives it up, and \<open>Detach\<close> hands its own to one.
\<close>

datatype pointer_op = OpDefault nat | OpConstruct nat ptr | OpCopy nat nat | OpDestroy nat | OpAssign nat ptr
  | OpAssignPtr nat nat | OpClear nat | OpAttach nat nat | OpDetach nat nat | OpCopyTo nat nat
  | OpCreate hresult nat nat nat

fun op_acts :: "ptr list \<Rightarrow> pointer_op \<Rightarrow> action list" where
  "op_acts vs (OpDefault i) = ptr_default i"
| "op_acts vs (OpConstruct i p) = ptr_construct i p"
| "op_acts vs (OpCopy i j) = ptr_copy vs i j"
| "op_acts vs (OpDestroy i) = ptr_destroy vs i"
| "op_acts vs (OpAssign i p) = ptr_assign vs i p"
| "op_acts vs (OpAssignPtr i j) = ptr_assign_ptr vs i j"
| "op_acts vs (OpClear i) = ReleaseAndClear vs i"
| "op_acts vs (OpAttach i j) = ptr_Attach vs i (vs ! j) @ [Put j None]"
| "op_acts vs (OpDetach i j) = (let (p, acts) = ptr_Detach vs i in acts @ [Put j p])"
| "op_acts vs (OpCopyTo i j) = snd (CopyTo vs i (Some j))"
| "op_acts vs (OpCreate init a k j) = snd (CreateInstance init (Some a) k (Some j))"

definition null_var :: "ptr list \<Rightarrow> nat \<Rightarrow> bool" where
  "null_var vs i \<longleftrightarrow> i < length vs \<and> vs ! i = None"

definition held :: "ptr list \<Rightarrow> ptr \<Rightarrow> bool" where
  "held vs p \<longleftrightarrow> p = None \<or> p \<in> set vs"

fun legal_op :: "ptr list \<Rightarrow> pointer_op \<Rightarrow> bool" where
  "legal_op vs (OpDefault i) \<longleftrightarrow> null_var vs i"
| "legal_op vs (OpConstruct i p) \<longleftrightarrow> null_var vs i \<and> held vs p"
| "legal_op vs (OpCopy i j) \<longleftrightarrow> null_var vs i \<and> j < length vs"
| "legal_op vs (OpDestroy i) \<longleftrightarrow> i < length vs"
| "legal_op vs (OpAssign i p) \<longleftrightarrow> i < length vs \<and> held vs p"
| "legal_op vs (OpAssignPtr i j) \<longleftrightarrow> i < length vs \<and> j < length vs"
| "legal_op vs (OpClear i) \<longleftrightarrow> i < length vs"
| "legal_op vs (OpAttach i j) \<longleftrightarrow> i < length vs \<and> j < length vs \<and> i \<noteq> j"
| "legal_op vs (OpDetach i j) \<longleftrightarrow> i < length vs \<and> null_var vs j \<and> i \<noteq> j"
| "legal_op vs (OpCopyTo i j) \<longleftrightarrow> i < length vs \<and> null_var vs j"
| "legal_op vs (OpCreate init a k j) \<longleftrightarrow> null_var vs k \<and> null_var vs j \<and> k \<noteq> j"

record counted_world =
  rc_heap :: counts
  rc_threads :: "pointer_thread list"

definition idle :: "pointer_thread \<Rightarrow> bool" where
  "idle th \<longleftrightarrow> rc_todo th = [] \<and> rc_dying th = None"

definition set_thread :: "nat \<Rightarrow> counts \<times> pointer_thread \<Rightarrow> counted_world \<Rightarrow> counted_world" where
  "set_thread t r M = \<lparr>rc_heap = fst r, rc_threads = (rc_threads M)[t := snd r]\<rparr>"

text \<open>
  A thread begins an operation, makes an action, or, between operations, hands a reference to another thread. Memory
  bounds the references to an object: each is a pointer of four bytes, so no count stands at its maximum.
\<close>

inductive pointer_step :: "counted_world \<Rightarrow> counted_world \<Rightarrow> bool" where
  begin_op: "t < length (rc_threads M) \<Longrightarrow> th = rc_threads M ! t \<Longrightarrow> idle th \<Longrightarrow> legal_op (rc_vars th) oper \<Longrightarrow>
     pointer_step M (set_thread t (rc_heap M, th\<lparr>rc_todo := op_acts (rc_vars th) oper\<rparr>) M)"
| action: "t < length (rc_threads M) \<Longrightarrow> thread_act (rc_heap M) (rc_threads M ! t) = Some r \<Longrightarrow>
     \<forall>a. rc_heap M a \<noteq> Some (- 1) \<Longrightarrow> pointer_step M (set_thread t r M)"
| hand: "t < length (rc_threads M) \<Longrightarrow> u < length (rc_threads M) \<Longrightarrow> t \<noteq> u \<Longrightarrow>
     th = rc_threads M ! t \<Longrightarrow> uh = rc_threads M ! u \<Longrightarrow> idle th \<Longrightarrow> idle uh \<Longrightarrow>
     i < length (rc_vars th) \<Longrightarrow> null_var (rc_vars uh) j \<Longrightarrow>
     pointer_step M (set_thread u (rc_heap M, uh\<lparr>rc_vars := (rc_vars uh)[j := rc_vars th ! i]\<rparr>)
       (set_thread t (rc_heap M, th\<lparr>rc_vars := (rc_vars th)[i := None]\<rparr>) M))"

definition blank_world :: "nat list \<Rightarrow> counted_world" where
  "blank_world ns = \<lparr>rc_heap = \<lambda>a. None, rc_threads = map (\<lambda>n. \<lparr>rc_vars = replicate n None, rc_todo = [], rc_dying = None\<rparr>) ns\<rparr>"

section \<open>What holds of them\<close>

text \<open>The references a thread owns: its pointers once it has made the assignments ahead of it, those it has yet to
  release, less those it has yet to add.\<close>

fun owned_refs :: "ptr list \<Rightarrow> action list \<Rightarrow> nat \<Rightarrow> int" where
  "owned_refs vs [] a = int (count_list vs (Some a))"
| "owned_refs vs (Create b # xs) a = owned_refs vs xs a - of_bool (a = b)"
| "owned_refs vs (AddRef b # xs) a = owned_refs vs xs a - of_bool (a = b)"
| "owned_refs vs (Release b # xs) a = owned_refs vs xs a + of_bool (a = b)"
| "owned_refs vs (Put i p # xs) a = owned_refs (vs[i := p]) xs a"

text \<open>A list of actions is sound when each reference it changes belongs to an object of which the thread owns one.\<close>

fun sound_acts :: "ptr list \<Rightarrow> action list \<Rightarrow> bool" where
  "sound_acts vs [] \<longleftrightarrow> True"
| "sound_acts vs (Create b # xs) \<longleftrightarrow> (\<forall>a. 0 \<le> owned_refs vs (Create b # xs) a) \<and> sound_acts vs xs"
| "sound_acts vs (AddRef b # xs) \<longleftrightarrow> 1 \<le> owned_refs vs (AddRef b # xs) b \<and>
     (\<forall>a. 0 \<le> owned_refs vs (AddRef b # xs) a) \<and> sound_acts vs xs"
| "sound_acts vs (Release b # xs) \<longleftrightarrow> 1 \<le> owned_refs vs (Release b # xs) b \<and>
     (\<forall>a. 0 \<le> owned_refs vs (Release b # xs) a) \<and> sound_acts vs xs"
| "sound_acts vs (Put i p # xs) \<longleftrightarrow> sound_acts (vs[i := p]) xs"

lemma sound_nonneg: "sound_acts vs xs \<Longrightarrow> 0 \<le> owned_refs vs xs a"
  by (induction vs xs rule: sound_acts.induct) auto

lemma count_list_update:
  "i < length xs \<Longrightarrow> int (count_list (xs[i := y]) x) = int (count_list xs x) - of_bool (xs ! i = x) + of_bool (y = x)"
proof (induction xs arbitrary: i)
  case (Cons z xs)
  then show ?case by (cases i) auto
qed simp

lemma count_held: "i < length vs \<Longrightarrow> vs ! i = Some a \<Longrightarrow> 1 \<le> int (count_list vs (Some a))"
  by (metis One_nat_def Suc_leI count_list_0_iff gr0I nth_mem of_nat_1 of_nat_le_iff)

lemmas pointer_ops = ptr_default_def ptr_construct_def ptr_copy_def ptr_destroy_def ptr_assign_def
  ptr_assign_ptr_def ReleaseAndClear_def ptr_Attach_def ptr_Detach_def CopyTo_def CreateInstance_def
  CreateInstanceNoInit_def null_var_def

lemma owned_append_Put:
  "owned_refs vs (addref_if p @ xs) a = owned_refs vs xs a - of_bool (p = Some a)"
  "owned_refs vs (release_if p @ xs) a = owned_refs vs xs a + of_bool (p = Some a)"
  by (auto simp: addref_if_def release_if_def split: option.splits)

lemma sound_addref_if:
  "sound_acts vs (addref_if p @ xs) \<longleftrightarrow> sound_acts vs xs \<and>
     (case p of None \<Rightarrow> True | Some b \<Rightarrow> 2 \<le> owned_refs vs xs b)"
  by (auto simp: addref_if_def split: option.splits dest: sound_nonneg)

lemma sound_release_if: "sound_acts vs (release_if p @ xs) \<longleftrightarrow> sound_acts vs xs"
  by (auto simp: release_if_def split: option.splits dest: sound_nonneg)
    (meson add_nonneg_nonneg sound_nonneg zero_le_one)

lemmas effect_of_if = owned_append_Put owned_append_Put [where xs = "[]", simplified]
  sound_addref_if sound_addref_if [where xs = "[]", simplified]
  sound_release_if sound_release_if [where xs = "[]", simplified]

lemma clear_acts: "(case p of None \<Rightarrow> [] | Some a \<Rightarrow> [Release a, Put i None]) =
  (if p = None then [] else release_if p @ [Put i None])"
  by (auto simp: release_if_def split: option.splits)

lemma held_count: "held vs (Some a) \<Longrightarrow> 1 \<le> int (count_list vs (Some a))"
  by (cases "count_list vs (Some a)") (auto simp: held_def count_list_0_iff)

lemma var_held: "i < length vs \<Longrightarrow> held vs (vs ! i)"
  by (simp add: held_def)

lemma op_owned:
  assumes "legal_op vs oper"
  shows "owned_refs vs (op_acts vs oper) a = int (count_list vs (Some a))"
  using assms
  by (cases oper) (simp_all add: pointer_ops effect_of_if clear_acts count_list_update nth_list_update)

lemma op_sound:
  assumes "legal_op vs oper"
  shows "sound_acts vs (op_acts vs oper)"
  using assms
  by (cases oper) (auto simp: pointer_ops effect_of_if clear_acts count_list_update nth_list_update
      split: option.splits dest!: held_count var_held)

lemma sum_list_update_int:
  "t < length xs \<Longrightarrow> sum_list (map f (xs[t := x])) = sum_list (map f xs) - f (xs ! t) + (f x :: int)"
proof (induction xs arbitrary: t)
  case (Cons z xs)
  then show ?case by (cases t) auto
qed simp

definition thread_refs :: "nat \<Rightarrow> pointer_thread \<Rightarrow> int" where
  "thread_refs a th = owned_refs (rc_vars th) (rc_todo th) a"

definition all_refs :: "counted_world \<Rightarrow> nat \<Rightarrow> int" where
  "all_refs M a = sum_list (map (thread_refs a) (rc_threads M))"

definition deleting :: "counted_world \<Rightarrow> nat \<Rightarrow> int" where
  "deleting M a = sum_list (map (\<lambda>th. of_bool (rc_dying th = Some a)) (rc_threads M))"

text \<open>The count of a live object is the number of references to it; where that is zero, one thread is about to
  delete the object.\<close>

definition count_ok :: "u32 option \<Rightarrow> int \<Rightarrow> int \<Rightarrow> bool" where
  "count_ok h k d = (case h of None \<Rightarrow> k = 0 \<and> d = 0
     | Some m \<Rightarrow> 0 \<le> k \<and> k < 2 ^ 32 \<and> m = word_of_int k \<and> d = of_bool (k = 0))"

definition thread_sound :: "pointer_thread \<Rightarrow> bool" where
  "thread_sound th \<longleftrightarrow> sound_acts (rc_vars th) (rc_todo th)"

definition counts_ok :: "counted_world \<Rightarrow> bool" where
  "counts_ok M \<longleftrightarrow> (\<forall>th \<in> set (rc_threads M). thread_sound th) \<and>
     (\<forall>a. count_ok (rc_heap M a) (all_refs M a) (deleting M a))"

lemma set_thread_sums:
  assumes "t < length (rc_threads M)"
  shows "all_refs (set_thread t r M) a = all_refs M a - thread_refs a (rc_threads M ! t) + thread_refs a (snd r)"
    "deleting (set_thread t r M) a =
      deleting M a - of_bool (rc_dying (rc_threads M ! t) = Some a) + of_bool (rc_dying (snd r) = Some a)"
    "rc_heap (set_thread t r M) = fst r"
    "length (rc_threads (set_thread t r M)) = length (rc_threads M)"
  using assms by (simp_all add: set_thread_def all_refs_def deleting_def sum_list_update_int)

lemma set_thread_sound:
  "\<forall>th \<in> set (rc_threads M). thread_sound th \<Longrightarrow> thread_sound (snd r) \<Longrightarrow>
   \<forall>th \<in> set (rc_threads (set_thread t r M)). thread_sound th"
  using set_update_subset_insert [of "rc_threads M" t "snd r"] by (auto simp: set_thread_def)

lemma summand_le:
  "(\<And>y. y \<in> set xs \<Longrightarrow> 0 \<le> (f y :: int)) \<Longrightarrow> x \<in> set xs \<Longrightarrow> f x \<le> sum_list (map f xs)"
proof (induction xs)
  case (Cons y ys)
  then show ?case using sum_list_nonneg [of "map f ys"] by fastforce
qed simp

lemma refs_at_least:
  assumes "counts_ok M" "t < length (rc_threads M)"
  shows "thread_refs a (rc_threads M ! t) \<le> all_refs M a"
  unfolding all_refs_def using assms
  by (intro summand_le) (simp_all add: counts_ok_def thread_sound_def thread_refs_def sound_nonneg)

lemma deleting_at_least:
  assumes "t < length (rc_threads M)" "rc_dying (rc_threads M ! t) = Some a"
  shows "1 \<le> deleting M a"
  using summand_le [of "rc_threads M" "\<lambda>th. of_bool (rc_dying th = Some a)" "rc_threads M ! t"] assms
  by (simp add: deleting_def)

lemma counts_step:
  assumes "counts_ok M" "t < length (rc_threads M)" "thread_sound (snd r)"
    and "\<And>a. count_ok (fst r a) (all_refs M a - thread_refs a (rc_threads M ! t) + thread_refs a (snd r))
      (deleting M a - of_bool (rc_dying (rc_threads M ! t) = Some a) + of_bool (rc_dying (snd r) = Some a))"
  shows "counts_ok (set_thread t r M)"
  using assms set_thread_sound [of M r t] by (auto simp: counts_ok_def set_thread_sums)

lemma word_of_int_zero: "0 \<le> k \<Longrightarrow> k < 2 ^ 32 \<Longrightarrow> (word_of_int k :: u32) = 0 \<longleftrightarrow> k = 0"
  by (auto simp: word_of_int_eq_0_iff dest: zdvd_imp_le)

lemma count_ok_more:
  assumes "count_ok (Some m) k d" "m \<noteq> - 1" "1 \<le> k"
  shows "count_ok (Some (m + 1)) (k + 1) d"
proof -
  have "word_of_int (2 ^ 32 - 1) = (- 1 :: u32)" by simp
  then have "k \<noteq> 2 ^ 32 - 1" using assms(1,2) by (auto simp: count_ok_def)
  then show ?thesis using assms by (auto simp: count_ok_def)
qed

lemma count_ok_less:
  assumes "count_ok (Some m) k d" "1 \<le> k"
  shows "count_ok (Some (m - 1)) (k - 1) (d + of_bool (m - 1 = 0))"
proof -
  have "m - 1 = word_of_int (k - 1)" using assms(1) by (simp add: count_ok_def)
  then show ?thesis using assms word_of_int_zero [of "k - 1"] by (auto simp: count_ok_def)
qed

lemmas count_defs = InternalAddRef_def InternalRelease_def AtomicIncrement_def AtomicDecrement_def CBasicRefCount_init_def

lemma act_ok:
  assumes ok: "counts_ok M" and t: "t < length (rc_threads M)" and th: "th = rc_threads M ! t"
    and d: "rc_dying th = None" and todo: "rc_todo th = x # xs"
    and act: "act x (rc_heap M) (th\<lparr>rc_todo := xs\<rparr>) = Some r" and room: "\<forall>a. rc_heap M a \<noteq> Some (- 1)"
  shows "counts_ok (set_thread t r M)"
proof (rule counts_step [OF ok t])
  have snd: "sound_acts (rc_vars th) (x # xs)"
    using ok t th todo by (auto simp: counts_ok_def thread_sound_def dest!: nth_mem)
  show "thread_sound (snd r)"
    using snd act by (cases x) (auto simp: act_def thread_sound_def Let_def split: option.splits prod.splits)
  fix a
  have cell: "count_ok (rc_heap M a) (all_refs M a) (deleting M a)"
    using ok by (simp add: counts_ok_def)
  have le: "owned_refs (rc_vars th) (x # xs) a \<le> all_refs M a"
    using refs_at_least [OF ok t] todo by (simp add: thread_refs_def flip: th)
  show "count_ok (fst r a) (all_refs M a - thread_refs a (rc_threads M ! t) + thread_refs a (snd r))
      (deleting M a - of_bool (rc_dying (rc_threads M ! t) = Some a) + of_bool (rc_dying (snd r) = Some a))"
  proof (cases x)
    case (Create b)
    then show ?thesis
      using act d todo cell by (auto simp: act_def thread_refs_def count_defs count_ok_def simp flip: th split: option.splits if_splits)
  next
    case (AddRef b)
    then show ?thesis
      using snd act d todo cell le spec [OF room, of a] count_ok_more [of _ "all_refs M a" "deleting M a"]
      by (auto simp: act_def thread_refs_def count_defs simp flip: th split: option.splits)
  next
    case (Release b)
    then show ?thesis
      using snd act d todo cell le count_ok_less [of "the (rc_heap M a)" "all_refs M a" "deleting M a"]
      by (auto simp: act_def thread_refs_def count_defs Let_def simp flip: th split: option.splits if_splits)
  next
    case (Put i p)
    then show ?thesis
      using act d todo cell by (auto simp: act_def thread_refs_def simp flip: th)
  qed
qed

lemma delete_ok:
  assumes ok: "counts_ok M" and t: "t < length (rc_threads M)" and th: "th = rc_threads M ! t"
    and d: "rc_dying th = Some b" and act: "thread_act (rc_heap M) th = Some r"
  shows "counts_ok (set_thread t r M)"
proof (rule counts_step [OF ok t])
  show "thread_sound (snd r)"
    using ok t th d act by (auto simp: thread_act_def counts_ok_def thread_sound_def split: option.splits)
  fix a
  have "count_ok (rc_heap M a) (all_refs M a) (deleting M a)"
    using ok by (simp add: counts_ok_def)
  moreover have "a = b \<Longrightarrow> 1 \<le> deleting M a"
    using deleting_at_least [OF t] d th by simp
  ultimately show "count_ok (fst r a) (all_refs M a - thread_refs a (rc_threads M ! t) + thread_refs a (snd r))
      (deleting M a - of_bool (rc_dying (rc_threads M ! t) = Some a) + of_bool (rc_dying (snd r) = Some a))"
    using d act by (auto simp: thread_act_def thread_refs_def count_ok_def simp flip: th split: option.splits if_splits)
qed

lemma thread_act_ok:
  assumes "counts_ok M" "t < length (rc_threads M)" "thread_act (rc_heap M) (rc_threads M ! t) = Some r"
    and "\<forall>a. rc_heap M a \<noteq> Some (- 1)"
  shows "counts_ok (set_thread t r M)"
proof (cases "rc_dying (rc_threads M ! t)")
  case None
  then obtain x xs where "rc_todo (rc_threads M ! t) = x # xs"
    using assms(3) by (auto simp: thread_act_def split: list.splits)
  then show ?thesis using None assms by (intro act_ok) (auto simp: thread_act_def)
next
  case (Some b)
  then show ?thesis using assms by (intro delete_ok) auto
qed

lemma quiet_step:
  assumes "counts_ok M" "t < length (rc_threads M)" "thread_sound th'" "rc_dying th' = rc_dying (rc_threads M ! t)"
    and "\<And>a. thread_refs a th' = thread_refs a (rc_threads M ! t)"
  shows "counts_ok (set_thread t (rc_heap M, th') M)"
  using assms(1,3-) by (intro counts_step [OF assms(1,2)]) (simp_all add: counts_ok_def)

lemma hand_ok:
  assumes ok: "counts_ok M" and t: "t < length (rc_threads M)" and u: "u < length (rc_threads M)" and neq: "t \<noteq> u"
    and th: "th = rc_threads M ! t" and uh: "uh = rc_threads M ! u" and idle: "idle th" "idle uh"
    and i: "i < length (rc_vars th)" and j: "null_var (rc_vars uh) j"
  defines "M1 \<equiv> set_thread t (rc_heap M, th\<lparr>rc_vars := (rc_vars th)[i := None]\<rparr>) M"
    and "uh' \<equiv> uh\<lparr>rc_vars := (rc_vars uh)[j := rc_vars th ! i]\<rparr>"
  shows "counts_ok (set_thread u (rc_heap M, uh') M1)"
proof -
  have len: "u < length (rc_threads M1)" and at_u: "rc_threads M1 ! u = uh" and h: "rc_heap M1 = rc_heap M"
    using u neq uh by (simp_all add: M1_def set_thread_def)
  have "all_refs (set_thread u (rc_heap M, uh') M1) a = all_refs M a" for a
    using idle i j by (simp add: set_thread_sums len at_u) (simp add: M1_def uh'_def set_thread_sums t
        thread_refs_def idle_def null_var_def count_list_update flip: th)
  moreover have "deleting (set_thread u (rc_heap M, uh') M1) a = deleting M a" for a
    using idle by (simp add: set_thread_sums len at_u) (simp add: M1_def uh'_def set_thread_sums t idle_def flip: th)
  moreover have "\<forall>x \<in> set (rc_threads (set_thread u (rc_heap M, uh') M1)). thread_sound x"
    using ok idle unfolding M1_def
    by (intro set_thread_sound) (simp_all add: counts_ok_def thread_sound_def idle_def uh'_def)
  ultimately show ?thesis using ok by (simp add: counts_ok_def set_thread_sums len)
qed

lemma pointer_step_ok: "pointer_step M M' \<Longrightarrow> counts_ok M \<Longrightarrow> counts_ok M'"
proof (induction rule: pointer_step.induct)
  case (begin_op t M th oper)
  then show ?case
    by (intro quiet_step) (simp_all add: thread_sound_def op_sound thread_refs_def op_owned idle_def)
qed (simp_all add: thread_act_ok hand_ok)

lemma blank_ok: "counts_ok (blank_world ns)"
proof -
  have "count_list (replicate n None) (Some a) = 0" for n and a :: nat by (induction n) auto
  then have "thread_refs a \<lparr>rc_vars = replicate n None, rc_todo = [], rc_dying = None\<rparr> = 0" for a n
    by (simp add: thread_refs_def)
  then have "all_refs (blank_world ns) a = 0" "deleting (blank_world ns) a = 0" for a
    by (induction ns) (simp_all add: all_refs_def deleting_def blank_world_def)
  then show ?thesis by (auto simp: counts_ok_def count_ok_def thread_sound_def blank_world_def)
qed

lemma reachable_counts: "pointer_step\<^sup>*\<^sup>* (blank_world ns) M \<Longrightarrow> counts_ok M"
  by (induction rule: rtranclp_induct) (auto intro: blank_ok pointer_step_ok)

section \<open>No use after deletion, no leak\<close>

text \<open>The object whose memory a thread's next action uses.\<close>

definition next_object :: "pointer_thread \<Rightarrow> ptr" where
  "next_object th = (case rc_dying th of Some a \<Rightarrow> Some a
     | None \<Rightarrow> (case rc_todo th of AddRef a # xs \<Rightarrow> Some a | Release a # xs \<Rightarrow> Some a | xs \<Rightarrow> None))"

lemma next_object_live:
  assumes ok: "counts_ok M" and t: "t < length (rc_threads M)" and a: "next_object (rc_threads M ! t) = Some a"
  shows "rc_heap M a \<noteq> None"
proof -
  have cell: "count_ok (rc_heap M a) (all_refs M a) (deleting M a)"
    using ok by (simp add: counts_ok_def)
  have snd: "thread_sound (rc_threads M ! t)" using ok t by (simp add: counts_ok_def)
  have "1 \<le> deleting M a \<or> 1 \<le> all_refs M a"
  proof (cases "rc_dying (rc_threads M ! t)")
    case None
    then have "1 \<le> thread_refs a (rc_threads M ! t)"
      using a snd by (auto simp: next_object_def thread_sound_def thread_refs_def split: list.splits action.splits)
    then show ?thesis using refs_at_least [OF ok t, of a] by linarith
  next
    case (Some b)
    then show ?thesis using deleting_at_least [OF t] a by (simp add: next_object_def)
  qed
  then show ?thesis using cell by (cases "rc_heap M a") (auto simp: count_ok_def)
qed

definition pointer_count :: "counted_world \<Rightarrow> nat \<Rightarrow> nat" where
  "pointer_count M a = (\<Sum>th \<leftarrow> rc_threads M. count_list (rc_vars th) (Some a))"

lemma quiet_counts:
  assumes ok: "counts_ok M" and idle: "\<forall>th \<in> set (rc_threads M). idle th"
  shows "rc_heap M a = (if pointer_count M a = 0 then None else Some (of_nat (pointer_count M a)))"
proof -
  have "sum_list (map (thread_refs a) ths) = int (\<Sum>th \<leftarrow> ths. count_list (rc_vars th) (Some a)) \<and>
      (\<Sum>th \<leftarrow> ths. of_bool (rc_dying th = Some a)) = (0 :: int)" if "\<forall>th \<in> set ths. idle th" for ths
    using that by (induction ths) (simp_all add: thread_refs_def idle_def)
  then have "all_refs M a = int (pointer_count M a)" "deleting M a = 0"
    using idle by (simp_all add: all_refs_def pointer_count_def deleting_def)
  then show ?thesis
    using ok by (auto simp: counts_ok_def count_ok_def split: option.splits dest!: spec [of _ a])
qed

end
