(* ===== verification/ContainerTheorems.thy ===== *)
theory ContainerTheorems
  imports FastHashRemove DataStream Crc32 RefCount
begin

text \<open>
  The properties of the containers: the hash table as a bounded multimap with its index list, the
  byte buffer, the stream over it, the counted pointers, and the checksum. Each theorem is stated over the code's
  operations and rests on the lemmas of the component's own theory.
\<close>

section \<open>The hash table refines a multimap\<close>

text \<open>
  The abstract table: a function from keys to the stored values, newest first, and the number of
  values. Inserting into a full table and removing a missing key answer -1 and change nothing.
\<close>

datatype ('k, 'v) table_op = InsertOp 'k 'v | RemoveOp 'k | LookupOp 'k | SizeOp

datatype 'v table_answer = Code int | Found "'v option"

type_synonym ('k, 'v) multimap = "('k \<Rightarrow> 'v list) \<times> nat"

fun multimap_op :: "nat \<Rightarrow> ('k, 'v) table_op \<Rightarrow> ('k, 'v) multimap \<Rightarrow> 'v table_answer \<times> ('k, 'v) multimap" where
  "multimap_op cap (InsertOp k v) (m, n) = (if n < cap then (Code 1, m(k := v # m k), n + 1) else (Code (-1), m, n))"
| "multimap_op cap (RemoveOp k) (m, n) = (if m k = [] then (Code (-1), m, n) else (Code 1, m(k := tl (m k)), n - 1))"
| "multimap_op cap (LookupOp k) (m, n) = (Found (case m k of [] \<Rightarrow> None | v # _ \<Rightarrow> Some v), m, n)"
| "multimap_op cap SizeOp (m, n) = (Code (int n), m, n)"

fun fasthash_op :: "('k \<Rightarrow> nat) \<Rightarrow> ('k, 'v) table_op \<Rightarrow> ('k, 'v) fasthash \<Rightarrow> 'v table_answer \<times> ('k, 'v) fasthash" where
  "fasthash_op h (InsertOp k v) t = (let (r, t') = FastHash_Insert h k v t in (Code r, t'))"
| "fasthash_op h (RemoveOp k) t = (let (r, t') = FastHash_Remove h k t in (Code r, t'))"
| "fasthash_op h (LookupOp k) t = (Found (FastHash_Lookup h k t), t)"
| "fasthash_op h SizeOp t = (Code (int (FastHash_Size t)), t)"

fun answers :: "('op \<Rightarrow> 's \<Rightarrow> 'a \<times> 's) \<Rightarrow> 'op list \<Rightarrow> 's \<Rightarrow> 'a list" where
  "answers f [] s = []"
| "answers f (op # ops) s = (let (a, s') = f op s in a # answers f ops s')"

definition represents :: "('k \<Rightarrow> nat) \<Rightarrow> nat \<Rightarrow> ('k, 'v) fasthash \<Rightarrow> ('k, 'v) multimap \<Rightarrow> bool" where
  "represents h cap t mm \<longleftrightarrow> fh_inv h t \<and> fh_fsize t = cap \<and> mm = (fh_entries h t, fh_size t)"

lemma table_op_simulates:
  assumes "represents h cap t mm"
  shows "fst (fasthash_op h op t) = fst (multimap_op cap op mm)"
    "represents h cap (snd (fasthash_op h op t)) (snd (multimap_op cap op mm))"
proof -
  have inv: "fh_inv h t" and cap: "fh_fsize t = cap" and mm: "mm = (fh_entries h t, fh_size t)"
    using assms by (auto simp: represents_def)
  have "fst (fasthash_op h op t) = fst (multimap_op cap op mm) \<and>
    represents h cap (snd (fasthash_op h op t)) (snd (multimap_op cap op mm))"
  proof (cases op)
    case (InsertOp k v)
    show ?thesis
    proof (cases "fh_size t < cap")
      case True
      from fasthash.insert_ok [OF inv, of k v] True cap obtain t' where "FastHash_Insert h k v t = (1, t')" "fh_inv h t'"
        "fh_entries h t' = (fh_entries h t)(k := v # fh_entries h t k)" "fh_size t' = Suc (fh_size t)" "fh_fsize t' = fh_fsize t" by auto
      then show ?thesis using True cap by (simp add: InsertOp mm represents_def)
    next
      case False
      then show ?thesis using fasthash.insert_full [OF inv, of k v] cap assms by (simp add: InsertOp mm)
    qed
  next
    case (RemoveOp k)
    show ?thesis
    proof (cases "fh_entries h t k = []")
      case True
      then show ?thesis using Remove_missing [OF inv True] assms by (simp add: RemoveOp mm)
    next
      case False
      note r = Remove_ok [OF inv False refl]
      show ?thesis using r False cap by (simp add: RemoveOp mm represents_def split_beta)
    qed
  next
    case (LookupOp k)
    then show ?thesis using fasthash.lookup_entries [OF inv, of k] assms by (simp add: mm)
  next
    case SizeOp
    then show ?thesis using assms by (simp add: mm FastHash_Size_def)
  qed
  then show "fst (fasthash_op h op t) = fst (multimap_op cap op mm)"
    "represents h cap (snd (fasthash_op h op t)) (snd (multimap_op cap op mm))" by blast+
qed

lemma answers_simulate: "represents h cap t mm \<Longrightarrow> answers (fasthash_op h) ops t = answers (multimap_op cap) ops mm"
proof (induction ops arbitrary: t mm)
  case (Cons op ops)
  then show ?case using table_op_simulates [OF Cons.prems, of op] by (simp add: split_beta)
qed simp

text \<open>C24: For every sequence of insertions, removals, lookups and size queries on a fresh table, the
  table answers exactly as a multimap bounded by the table's capacity does, whatever the hash
  function and the collisions.\<close>

theorem fasthash_refines_multimap:
  fixes h :: "'k \<Rightarrow> nat" and ops :: "('k, 'v) table_op list"
  assumes "0 < FSIZE" "0 < TSIZE"
  shows "answers (fasthash_op h) ops (FastHash_new FSIZE TSIZE) = answers (multimap_op FSIZE) ops (\<lambda>_. [], 0)"
proof (rule answers_simulate)
  show "represents h FSIZE (FastHash_new FSIZE TSIZE :: ('k, 'v) fasthash) (\<lambda>_. [], 0)"
    using FastHash_new_ok(1,2) [of FSIZE TSIZE "FastHash_new FSIZE TSIZE :: ('k, 'v) fasthash" h] FastHash_new_ok(3,4) [OF assms refl] assms by (simp add: represents_def)
qed

lemma fasthash_refines_multimap_witness:
  "answers (fasthash_op (\<lambda>k :: nat. k)) [InsertOp 1 True, InsertOp 4 False, InsertOp 7 True, RemoveOp 1, LookupOp 4, LookupOp 1, SizeOp]
     (FastHash_new 2 3) =
   [Code 1, Code 1, Code (-1), Code 1, Found (Some False), Found None, Code 1]"
  by (subst fasthash_refines_multimap) (simp_all add: Let_def)

text \<open>Access by position lists exactly the stored values: over all positions below the size,
  the entries returned for a key are the values stored under it, with their multiplicities, even
  after removals in any order have invalidated the circular index list.\<close>

theorem fasthash_index_enumerates:
  assumes "fh_inv h t"
  shows "mset (filter (\<lambda>kv. fst kv = k) (map (\<lambda>j. the (fst (FastHash_LookupByIndex j t))) [0 ..< FastHash_Size t])) =
    mset (map (Pair k) (fh_entries h t k))"
  unfolding FastHash_Size_def by (rule LookupByIndex_enumerates [OF assms])

lemma fasthash_index_enumerates_witness:
  "mset (filter (\<lambda>kv. fst kv = 5) (map (\<lambda>j. the (fst (FastHash_LookupByIndex j
       (snd (FastHash_Insert (\<lambda>k. k) (5 :: nat) True (FastHash_new 4 3))))))
     [0 ..< FastHash_Size (snd (FastHash_Insert (\<lambda>k. k) (5 :: nat) True (FastHash_new 4 3)))])) = {#(5, True)#}"
proof -
  let ?t0 = "FastHash_new 4 3 :: (nat, bool) fasthash"
  have n: "fh_inv (\<lambda>k. k) ?t0" "fh_entries (\<lambda>k. k) ?t0 = (\<lambda>_. [])" "fh_size ?t0 = 0" "fh_fsize ?t0 = 4"
    using FastHash_new_ok(1,2) [of 4 3 ?t0 "\<lambda>k. k"] FastHash_new_ok(3,4) [of 4 3 ?t0] by auto
  obtain t' where i: "FastHash_Insert (\<lambda>k. k) 5 True ?t0 = (1, t')" "fh_inv (\<lambda>k. k) t'"
    "fh_entries (\<lambda>k. k) t' = (fh_entries (\<lambda>k. k) ?t0)(5 := True # fh_entries (\<lambda>k. k) ?t0 5)"
    using fasthash.insert_ok [OF n(1), of 5 True] n by auto
  show ?thesis using fasthash_index_enumerates [OF i(2), of 5] i n(2) by simp
qed

text \<open>The probe loop of \<open>Find\<close> always ends: the chains of a well-formed table are no longer than
  its capacity, so that many steps reach the key or the end of its bucket.\<close>

theorem fasthash_find_terminates:
  assumes "fh_inv h t"
  shows "\<exists>r. find_loop t key (FastHash_GetMaxCapacity t) (fh_lookuptable t ! (h key mod FastHash_GetTableWidth t)) None = Some r"
  unfolding FastHash_GetMaxCapacity_def FastHash_GetTableWidth_def by (rule find_loop_returns [OF assms])

lemma fasthash_find_terminates_witness:
  "\<exists>r. find_loop (FastHash_new 4 3 :: (nat, bool) fasthash) 5 (FastHash_GetMaxCapacity (FastHash_new 4 3 :: (nat, bool) fasthash))
     (fh_lookuptable (FastHash_new 4 3 :: (nat, bool) fasthash) ! (5 mod FastHash_GetTableWidth (FastHash_new 4 3 :: (nat, bool) fasthash))) None = Some r"
  using fasthash_find_terminates [of "\<lambda>k. k" "FastHash_new 4 3 :: (nat, bool) fasthash" 5]
    FastHash_new_ok(1) [of 4 3 "FastHash_new 4 3 :: (nat, bool) fasthash" "\<lambda>k. k"] by simp

section \<open>Buffers and streams\<close>

text \<open>A write succeeds whenever the position does not wrap and growth is allowed or not needed;
  it changes exactly the bytes at the cursor, extending the stream when it runs past the end, and
  seeking back and reading returns what was written.\<close>

theorem stream_write_read:
  assumes "wf_stream s" "xs \<noteq> []" "stream_room (length xs) s"
  shows "\<exists>hr s' s''. CDataStream_Write (Some xs) (length xs) s = (hr, s') \<and> SUCCEEDED hr \<and> wf_stream s' \<and>
    stream_bytes s' = overwrite (CDataStream_GetPos s) xs (stream_bytes s) \<and>
    CDataStream_GetPos s' = CDataStream_GetPos s + length xs \<and>
    CDataStream_SeekDirect (CDataStream_GetPos s) s' = (S_OK, s'') \<and>
    fst (CDataStream_Read (length xs) s'') = S_OK \<and> fst (snd (CDataStream_Read (length xs) s'')) = xs"
proof -
  let ?p = "ds_pos s"
  obtain hr s' where w: "CDataStream_Write (Some xs) (length xs) s = (hr, s')" "SUCCEEDED hr" "wf_stream s'"
    "stream_bytes s' = overwrite ?p xs (stream_bytes s)" "ds_pos s' = ?p + length xs"
    using Write_ok [OF assms] by metis
  have le: "?p + length xs \<le> length (stream_bytes s')" using wf_stream_pos [OF w(3)] w(5) by simp
  have seek: "CDataStream_SeekDirect ?p s' = (S_OK, s'\<lparr>ds_pos := ?p\<rparr>)" using w(3) le by (intro SeekDirect_ok) simp_all
  have wf: "wf_stream (s'\<lparr>ds_pos := ?p\<rparr>)" using w(3) le by (intro wf_stream_seek) simp_all
  have "?p \<le> length (stream_bytes s)" by (rule wf_stream_pos [OF assms(1)])
  then have "bslice ?p (length xs) (stream_bytes s') = xs" by (simp add: w(4) bslice_def overwrite_def)
  moreover have "CDataStream_Read (length xs) (s'\<lparr>ds_pos := ?p\<rparr>) =
      (S_OK, bslice ?p (length xs) (stream_bytes s'), (s'\<lparr>ds_pos := ?p\<rparr>)\<lparr>ds_pos := ?p + length xs\<rparr>)"
    using Read_ok [OF wf, of "length xs"] le assms(3) by (simp add: stream_room_def)
  ultimately show ?thesis using w seek by (simp add: CDataStream_GetPos_def)
qed

lemma stream_write_read_witness:
  "\<exists>hr s' s''. CDataStream_Write (Some [1, 2]) 2 CDataStream_init = (hr, s') \<and> SUCCEEDED hr \<and> wf_stream s' \<and>
    stream_bytes s' = [1, 2] \<and> CDataStream_GetPos s' = 2 \<and>
    CDataStream_SeekDirect 0 s' = (S_OK, s'') \<and>
    fst (CDataStream_Read 2 s'') = S_OK \<and> fst (snd (CDataStream_Read 2 s'')) = [1, 2]"
proof -
  have "stream_room 2 CDataStream_init" "wf_stream CDataStream_init" "stream_bytes CDataStream_init = []"
    "CDataStream_GetPos CDataStream_init = 0"
    by (simp_all add: stream_room_def CDataStream_init_def size_range_def CDataStream_GetPos_def stream_bytes_def wf_stream_def
        CDataStream_GetSize_def)
  then show ?thesis using stream_write_read [of CDataStream_init "[1, 2]"] by (simp add: overwrite_def numeral_2_eq_2)
qed

text \<open>A stream that may not grow refuses a write past its allocation with an error and is left
  as it was: position, size and bytes.\<close>

theorem no_grow_refuses:
  assumes "ds_fNoGrow s" "CDataStream_allocated s < CDataStream_GetPos s + n" "CDataStream_GetPos s + n < size_range"
  shows "CDataStream_Write (Some xs) n s = (E_FAIL, s)"
proof -
  have "sz_add n (ds_pos s) = ds_pos s + n" using assms(3) by (simp add: CDataStream_GetPos_def sz_add_small add.commute)
  then have "CDataStream_Grow (sz_add n (ds_pos s)) s = (E_FAIL, s)"
    using assms by (simp add: CDataStream_Grow_def CDataStream_GetPos_def Let_def)
  then show ?thesis unfolding CDataStream_Write_def Let_def by simp
qed

lemma no_grow_refuses_witness:
  "CDataStream_Write (Some [7, 8, 9]) 3 (CDataStream_SetNoGrow True (CDataStream_from (CBuffer_alloc 2))) =
   (E_FAIL, CDataStream_SetNoGrow True (CDataStream_from (CBuffer_alloc 2)))"
  by (rule no_grow_refuses)
    (simp_all add: CDataStream_SetNoGrow_def CDataStream_from_def CDataStream_allocated_def CDataStream_GetPos_def size_range_def)

text \<open>A caller's buffer attached for writing keeps receiving the bytes as long as they fit its
  allocation; the first write past it moves the stream to a new allocation, and the caller's
  buffer keeps what it had.\<close>

theorem attached_buffer_until_growth:
  assumes b: "wf_buffer b" and xs: "xs \<noteq> []" "length xs < size_range"
  shows "map_option buffer_bytes (attached_buffer (snd (CDataStream_Write (Some xs) (length xs) (CDataStream_Attach (Some b) True CDataStream_init)))) =
    Some (if length xs \<le> cb_allocatedSize b then xs else [])"
proof -
  let ?s = "CDataStream_Attach (Some b) True CDataStream_init"
  note at = Attach_for_writing [OF b, of CDataStream_init]
  have room: "stream_room (length xs) ?s" using at xs by (simp add: stream_room_def)
  obtain hr s' where w: "CDataStream_Write (Some xs) (length xs) ?s = (hr, s')" "wf_stream s'" "stream_bytes s' = overwrite 0 xs []"
    "length xs \<le> cb_allocatedSize b \<Longrightarrow> ds_left s' = None"
    using Write_ok [OF at(1) xs(1) room] at by (metis add_0)
  have buf: "ds_buffer ?s = Some (b\<lparr>cb_size := 0\<rparr>)" by (simp add: CDataStream_Attach_def CDataStream_Reset_def)
  show ?thesis
  proof (cases "length xs \<le> cb_allocatedSize b")
    case True
    have "stream_bytes s' = xs" using w(3) by (simp add: overwrite_def)
    moreover from this obtain b' where "ds_buffer s' = Some b'" using xs(1) by (auto simp: stream_bytes_def split: option.splits)
    ultimately show ?thesis using True w(1,4) by (simp add: attached_buffer_def stream_bytes_def)
  next
    case False
    have add: "sz_add (length xs) 0 = length xs" using xs by (simp add: sz_add_small)
    have "ds_left s' = Some (b\<lparr>cb_size := 0\<rparr>)"
      using w(1) False add buf at(3,4,5,6) xs(1)
      by (auto simp: CDataStream_Write_def CDataStream_Grow_def Let_def CBuffer_IsValid_def split: if_splits prod.splits)
    then show ?thesis using False w(1) by (simp add: attached_buffer_def buffer_bytes_def)
  qed
qed

lemma attached_buffer_until_growth_witness:
  "map_option buffer_bytes (attached_buffer (snd (CDataStream_Write (Some [1, 2, 3]) 3 (CDataStream_Attach (Some (CBuffer_alloc 2)) True CDataStream_init)))) = Some []"
  using attached_buffer_until_growth [of "CBuffer_alloc 2" "[1, 2, 3]"] wf_CBuffer_alloc [of 2] by (simp add: size_range_def numeral_3_eq_3)

section \<open>Counted pointers\<close>

text \<open>C37: Threads that use their counted pointers as the programs do may interleave in any way: whatever action comes
  next in one of them, the object it counts or deletes has not been deleted; and whenever no operation is under way,
  an object exists exactly as long as a pointer holds it, its count being the number of those pointers.\<close>

theorem counted_pointers_safe:
  assumes "pointer_step\<^sup>*\<^sup>* (blank_world ns) M"
  shows "(\<forall>th \<in> set (rc_threads M). \<forall>a. next_object th = Some a \<longrightarrow> rc_heap M a \<noteq> None) \<and>
    ((\<forall>th \<in> set (rc_threads M). idle th) \<longrightarrow>
      (\<forall>a. rc_heap M a = (if pointer_count M a = 0 then None else Some (of_nat (pointer_count M a)))))"
  using reachable_counts [OF assms] next_object_live quiet_counts by (metis in_set_conv_nth)

definition demo_pointers :: "ptr list \<Rightarrow> action list \<Rightarrow> counted_world" where
  "demo_pointers vs xs = \<lparr>rc_heap = [5 \<mapsto> 1], rc_threads = [\<lparr>rc_vars = vs, rc_todo = xs, rc_dying = None\<rparr>]\<rparr>"

lemma demo_put: "pointer_step (demo_pointers vs (Put i p # xs)) (demo_pointers (vs[i := p]) xs)"
  using pointer_step.action [of 0 "demo_pointers vs (Put i p # xs)" "([5 \<mapsto> 1], \<lparr>rc_vars = vs[i := p], rc_todo = xs, rc_dying = None\<rparr>)"]
  by (simp add: demo_pointers_def set_thread_def thread_act_def act_def)

lemma demo_created:
  "pointer_step\<^sup>*\<^sup>* (blank_world [2]) (demo_pointers [None, None] [Put 0 (Some 5), Put 1 (Some 5), Put 0 None])"
proof -
  have "pointer_step (blank_world [2]) (set_thread 0 (\<lambda>a. None, \<lparr>rc_vars = [None, None],
      rc_todo = op_acts [None, None] (OpCreate S_OK 5 0 1), rc_dying = None\<rparr>) (blank_world [2]))" (is "pointer_step ?A ?B")
    using pointer_step.begin_op [of 0 "blank_world [2]" "rc_threads (blank_world [2]) ! 0" "OpCreate S_OK 5 0 1"]
    by (simp add: blank_world_def idle_def null_var_def numeral_2_eq_2)
  moreover have "pointer_step ?B (demo_pointers [None, None] [Put 0 (Some 5), Put 1 (Some 5), Put 0 None])"
    using pointer_step.action [of 0 ?B "([5 \<mapsto> 1], \<lparr>rc_vars = [None, None],
      rc_todo = [Put 0 (Some 5), Put 1 (Some 5), Put 0 None], rc_dying = None\<rparr>)"]
    by (simp add: blank_world_def set_thread_def thread_act_def act_def count_defs CreateInstance_def
        CreateInstanceNoInit_def demo_pointers_def)
  ultimately show ?thesis by (meson r_into_rtranclp rtranclp_trans)
qed

lemma demo_reached: "pointer_step\<^sup>*\<^sup>* (blank_world [2]) (demo_pointers [None, Some 5] [])"
  using demo_created demo_put [of "[None, None]" 0 "Some 5" "[Put 1 (Some 5), Put 0 None]"]
    demo_put [of "[Some 5, None]" 1 "Some 5" "[Put 0 None]"] demo_put [of "[Some 5, Some 5]" 0 None "[]"]
  by (simp add: rtranclp.rtrancl_into_rtrancl)

lemma counted_pointers_safe_witness:
  "pointer_step\<^sup>*\<^sup>* (blank_world [2]) (demo_pointers [None, Some 5] []) \<and>
   rc_heap (demo_pointers [None, Some 5] []) 5 = Some 1 \<and> rc_heap (demo_pointers [None, Some 5] []) 6 = None"
  using counted_pointers_safe [OF demo_reached] demo_reached
  by (simp add: idle_def pointer_count_def) (simp add: demo_pointers_def idle_def)

section \<open>The checksum\<close>

text \<open>C40: The table-driven CRC-32 that the fingerprint uses computes the same checksum as the bit-by-bit
  polynomial division of the same library, on every message.\<close>

theorem crc32_table_driven:
  "crc_optimal_checksum (crc_optimal_process_bytes xs crc_optimal_init) = crc_basic_checksum (crc_basic_process_bytes xs InitRem)"
  using crc32_basic [of xs] by (simp add: crc32_def)

end
