(* ===== verification/StunTypes.thy ===== *)
theory StunTypes
  imports Prelude
begin

text \<open>
  \<open>src/stuncore/stuntypes.h\<close>: the constants, enumerations and plain structures of the protocol; at the end the
  socket roles of \<open>socketrole.h\<close>.
  Attribute types, error numbers and attribute sizes keep their 16 bits; lengths used only in
  \<open>size_t\<close> expressions are natural numbers. The collection \<open>stun_consts\<close> unfolds the constants.
\<close>

named_theorems stun_consts "the protocol's constants"

definition DEFAULT_STUN_PORT :: u16 where [stun_consts]: "DEFAULT_STUN_PORT = 3478"
definition DEFAULT_STUN_TLS_PORT :: u16 where [stun_consts]: "DEFAULT_STUN_TLS_PORT = 5349"
definition STUN_ATTRIBUTE_MAPPEDADDRESS :: u16 where [stun_consts]: "STUN_ATTRIBUTE_MAPPEDADDRESS = 0x0001"
definition STUN_ATTRIBUTE_RESPONSEADDRESS :: u16 where [stun_consts]: "STUN_ATTRIBUTE_RESPONSEADDRESS = 0x0002"
definition STUN_ATTRIBUTE_CHANGEREQUEST :: u16 where [stun_consts]: "STUN_ATTRIBUTE_CHANGEREQUEST = 0x0003"
definition STUN_ATTRIBUTE_SOURCEADDRESS :: u16 where [stun_consts]: "STUN_ATTRIBUTE_SOURCEADDRESS = 0x0004"
definition STUN_ATTRIBUTE_CHANGEDADDRESS :: u16 where [stun_consts]: "STUN_ATTRIBUTE_CHANGEDADDRESS = 0x0005"
definition STUN_ATTRIBUTE_USERNAME :: u16 where [stun_consts]: "STUN_ATTRIBUTE_USERNAME = 0x0006"
definition STUN_ATTRIBUTE_LEGACY_PASSWORD :: u16 where [stun_consts]: "STUN_ATTRIBUTE_LEGACY_PASSWORD = 0x0007"
definition STUN_ATTRIBUTE_MESSAGEINTEGRITY :: u16 where [stun_consts]: "STUN_ATTRIBUTE_MESSAGEINTEGRITY = 0x0008"
definition STUN_ATTRIBUTE_ERRORCODE :: u16 where [stun_consts]: "STUN_ATTRIBUTE_ERRORCODE = 0x0009"
definition STUN_ATTRIBUTE_UNKNOWNATTRIBUTES :: u16 where [stun_consts]: "STUN_ATTRIBUTE_UNKNOWNATTRIBUTES = 0x000A"
definition STUN_ATTRIBUTE_REFLECTEDFROM :: u16 where [stun_consts]: "STUN_ATTRIBUTE_REFLECTEDFROM = 0x000B"
definition STUN_ATTRIBUTE_REALM :: u16 where [stun_consts]: "STUN_ATTRIBUTE_REALM = 0x0014"
definition STUN_ATTRIBUTE_NONCE :: u16 where [stun_consts]: "STUN_ATTRIBUTE_NONCE = 0x0015"
definition STUN_ATTRIBUTE_XORMAPPEDADDRESS :: u16 where [stun_consts]: "STUN_ATTRIBUTE_XORMAPPEDADDRESS = 0x0020"
definition STUN_ATTRIBUTE_PADDING :: u16 where [stun_consts]: "STUN_ATTRIBUTE_PADDING = 0x0026"
definition STUN_ATTRIBUTE_RESPONSE_PORT :: u16 where [stun_consts]: "STUN_ATTRIBUTE_RESPONSE_PORT = 0x0027"
definition STUN_ATTRIBUTE_XORMAPPEDADDRESS_OPTIONAL :: u16 where [stun_consts]: "STUN_ATTRIBUTE_XORMAPPEDADDRESS_OPTIONAL = 0x8020"
definition STUN_ATTRIBUTE_SOFTWARE :: u16 where [stun_consts]: "STUN_ATTRIBUTE_SOFTWARE = 0x8022"
definition STUN_ATTRIBUTE_ALTERNATESERVER :: u16 where [stun_consts]: "STUN_ATTRIBUTE_ALTERNATESERVER = 0x8023"
definition STUN_ATTRIBUTE_FINGERPRINT :: u16 where [stun_consts]: "STUN_ATTRIBUTE_FINGERPRINT = 0x8028"
definition STUN_ATTRIBUTE_RESPONSE_ORIGIN :: u16 where [stun_consts]: "STUN_ATTRIBUTE_RESPONSE_ORIGIN = 0x802b"
definition STUN_ATTRIBUTE_OTHER_ADDRESS :: u16 where [stun_consts]: "STUN_ATTRIBUTE_OTHER_ADDRESS = 0x802c"
definition STUN_TRANSACTION_ID_LENGTH :: nat where [stun_consts]: "STUN_TRANSACTION_ID_LENGTH = 16"
definition STUN_ATTRIBUTE_FIELD_IPV4 :: u8 where [stun_consts]: "STUN_ATTRIBUTE_FIELD_IPV4 = 1"
definition STUN_ATTRIBUTE_FIELD_IPV6 :: u8 where [stun_consts]: "STUN_ATTRIBUTE_FIELD_IPV6 = 2"
definition STUN_IPV4_LENGTH :: nat where [stun_consts]: "STUN_IPV4_LENGTH = 4"
definition STUN_IPV6_LENGTH :: nat where [stun_consts]: "STUN_IPV6_LENGTH = 16"
definition STUN_ERROR_TRYALTERNATE :: u16 where [stun_consts]: "STUN_ERROR_TRYALTERNATE = 300"
definition STUN_ERROR_BADREQUEST :: u16 where [stun_consts]: "STUN_ERROR_BADREQUEST = 400"
definition STUN_ERROR_UNAUTHORIZED :: u16 where [stun_consts]: "STUN_ERROR_UNAUTHORIZED = 401"
definition STUN_ERROR_UNKNOWNATTRIB :: u16 where [stun_consts]: "STUN_ERROR_UNKNOWNATTRIB = 420"
definition STUN_ERROR_STALENONCE :: u16 where [stun_consts]: "STUN_ERROR_STALENONCE = 438"
definition STUN_ERROR_SERVERERROR :: u16 where [stun_consts]: "STUN_ERROR_SERVERERROR = 500"
definition STUN_ATTRIBUTE_MAPPEDADDRESS_SIZE_IPV4 :: u16 where [stun_consts]: "STUN_ATTRIBUTE_MAPPEDADDRESS_SIZE_IPV4 = 8"
definition STUN_ATTRIBUTE_MAPPEDADDRESS_SIZE_IPV6 :: u16 where [stun_consts]: "STUN_ATTRIBUTE_MAPPEDADDRESS_SIZE_IPV6 = 20"
definition STUN_ATTRIBUTE_RESPONSE_PORT_SIZE :: u16 where [stun_consts]: "STUN_ATTRIBUTE_RESPONSE_PORT_SIZE = 2"
definition STUN_ATTRIBUTE_CHANGEREQUEST_SIZE :: u16 where [stun_consts]: "STUN_ATTRIBUTE_CHANGEREQUEST_SIZE = 4"
definition STUN_COOKIE :: u32 where [stun_consts]: "STUN_COOKIE = 0x2112A442"
definition STUN_COOKIE_B1 :: u8 where [stun_consts]: "STUN_COOKIE_B1 = 0x21"
definition STUN_COOKIE_B2 :: u8 where [stun_consts]: "STUN_COOKIE_B2 = 0x12"
definition STUN_COOKIE_B3 :: u8 where [stun_consts]: "STUN_COOKIE_B3 = 0xA4"
definition STUN_COOKIE_B4 :: u8 where [stun_consts]: "STUN_COOKIE_B4 = 0x42"
definition STUN_FINGERPRINT_XOR :: u32 where [stun_consts]: "STUN_FINGERPRINT_XOR = 0x5354554e"
definition STUN_XOR_PORT_COOKIE :: u16 where [stun_consts]: "STUN_XOR_PORT_COOKIE = 0x2112"
definition STUN_HEADER_SIZE :: nat where [stun_consts]: "STUN_HEADER_SIZE = 20"
definition MAX_STUN_MESSAGE_SIZE :: nat where [stun_consts]: "MAX_STUN_MESSAGE_SIZE = 800"
definition MAX_STUN_ATTRIBUTE_SIZE :: nat where [stun_consts]: "MAX_STUN_ATTRIBUTE_SIZE = 780"

datatype StunMessageClass =
    StunMsgClassRequest
  | StunMsgClassIndication
  | StunMsgClassSuccessResponse
  | StunMsgClassFailureResponse
  | StunMsgClassInvalidMessageClass

fun StunMessageClass_value :: "StunMessageClass \<Rightarrow> u16" where
  "StunMessageClass_value StunMsgClassRequest = 0x00"
| "StunMessageClass_value StunMsgClassIndication = 0x01"
| "StunMessageClass_value StunMsgClassSuccessResponse = 0x02"
| "StunMessageClass_value StunMsgClassFailureResponse = 0x03"
| "StunMessageClass_value StunMsgClassInvalidMessageClass = 0xff"

text \<open>Message types are cast to and from \<open>uint16_t\<close>, so any 16-bit value occurs.\<close>

type_synonym StunMessageType = u16

definition StunMsgTypeBinding :: StunMessageType where [stun_consts]: "StunMsgTypeBinding = 0x0001"
definition StunMsgTypeInvalid :: StunMessageType where [stun_consts]: "StunMsgTypeInvalid = 0xffff"

record StunAttribute =
  attributeType :: u16
  attr_size :: u16
  attr_offset :: u16

record StunChangeRequestAttribute =
  fChangeIP :: bool
  fChangePort :: bool

definition STUN_IS_REQUEST :: "u16 \<Rightarrow> bool" where
  "STUN_IS_REQUEST msg_type \<longleftrightarrow> msg_type AND 0x0110 = 0x0000"

definition STUN_IS_INDICATION :: "u16 \<Rightarrow> bool" where
  "STUN_IS_INDICATION msg_type \<longleftrightarrow> msg_type AND 0x0110 = 0x0010"

definition STUN_IS_SUCCESS_RESP :: "u16 \<Rightarrow> bool" where
  "STUN_IS_SUCCESS_RESP msg_type \<longleftrightarrow> msg_type AND 0x0110 = 0x0100"

definition STUN_IS_ERR_RESP :: "u16 \<Rightarrow> bool" where
  "STUN_IS_ERR_RESP msg_type \<longleftrightarrow> msg_type AND 0x0110 = 0x0110"

text \<open>A transaction id is its array of \<open>STUN_TRANSACTION_ID_LENGTH\<close> bytes.\<close>

type_synonym StunTransactionId = bytes

definition StunTransactionId_zero :: StunTransactionId where
  "StunTransactionId_zero = replicate STUN_TRANSACTION_ID_LENGTH 0"

definition StunTransactionId_eq :: "StunTransactionId \<Rightarrow> StunTransactionId \<Rightarrow> bool" where
  "StunTransactionId_eq id1 id2 \<longleftrightarrow>
     take STUN_TRANSACTION_ID_LENGTH id1 = take STUN_TRANSACTION_ID_LENGTH id2"

definition wf_transid :: "StunTransactionId \<Rightarrow> bool" where
  "wf_transid t \<longleftrightarrow> length t = 16"

lemma wf_transid_zero [simp]: "wf_transid StunTransactionId_zero"
  by (simp add: wf_transid_def StunTransactionId_zero_def stun_consts)

section \<open>Socket roles\<close>

text \<open>
  \<open>src/stuncore/socketrole.h\<close>: the four sockets of a full-mode server. The enumeration is kept as
  its 32-bit value, since the swaps go through an exclusive or of the value and
  \<open>IsValidSocketRole\<close> tests it.
\<close>

type_synonym SocketRole = u32

definition RolePP :: SocketRole where [role_simps]: "RolePP = 0"
definition RolePA :: SocketRole where [role_simps]: "RolePA = 1"
definition RoleAP :: SocketRole where [role_simps]: "RoleAP = 2"
definition RoleAA :: SocketRole where [role_simps]: "RoleAA = 3"

definition IsValidSocketRole :: "SocketRole \<Rightarrow> bool" where
  "IsValidSocketRole sr \<longleftrightarrow> 0 \<le> sr \<and> sr \<le> 3"

definition SocketRoleSwapPort :: "SocketRole \<Rightarrow> SocketRole" where
  "SocketRoleSwapPort sr = ucast ((ucast sr :: u16) XOR 0x01)"

definition SocketRoleSwapIP :: "SocketRole \<Rightarrow> SocketRole" where
  "SocketRoleSwapIP sr = ucast ((ucast sr :: u16) XOR 0x02)"

lemma valid_role_cases: "IsValidSocketRole sr \<longleftrightarrow> sr \<in> {RolePP, RolePA, RoleAP, RoleAA}"
proof
  assume "IsValidSocketRole sr"
  then have "unat sr \<le> 3" by (simp add: IsValidSocketRole_def word_le_nat_alt)
  then have "unat sr = 0 \<or> unat sr = 1 \<or> unat sr = 2 \<or> unat sr = 3" by linarith
  then have "sr = of_nat 0 \<or> sr = of_nat 1 \<or> sr = of_nat 2 \<or> sr = of_nat 3"
    using word_of_unat [of sr] by blast
  then show "sr \<in> {RolePP, RolePA, RoleAP, RoleAA}" by (auto simp: role_simps)
qed (auto simp: IsValidSocketRole_def role_simps)

lemma swap_roles [role_simps]:
  "SocketRoleSwapPort RolePP = RolePA" "SocketRoleSwapPort RolePA = RolePP"
  "SocketRoleSwapPort RoleAP = RoleAA" "SocketRoleSwapPort RoleAA = RoleAP"
  "SocketRoleSwapIP RolePP = RoleAP" "SocketRoleSwapIP RolePA = RoleAA"
  "SocketRoleSwapIP RoleAP = RolePP" "SocketRoleSwapIP RoleAA = RolePA"
  by (simp_all add: SocketRoleSwapPort_def SocketRoleSwapIP_def RolePP_def RolePA_def RoleAP_def RoleAA_def)

lemma valid_roles [simp, intro]: "IsValidSocketRole RolePP" "IsValidSocketRole RolePA" "IsValidSocketRole RoleAP" "IsValidSocketRole RoleAA"
  by (simp_all add: valid_role_cases)

lemma swap_valid [simp]:
  "IsValidSocketRole sr \<Longrightarrow> IsValidSocketRole (SocketRoleSwapPort sr)"
  "IsValidSocketRole sr \<Longrightarrow> IsValidSocketRole (SocketRoleSwapIP sr)"
  by (auto simp: valid_role_cases swap_roles)

lemma swap_involution:
  "IsValidSocketRole sr \<Longrightarrow> SocketRoleSwapPort (SocketRoleSwapPort sr) = sr"
  "IsValidSocketRole sr \<Longrightarrow> SocketRoleSwapIP (SocketRoleSwapIP sr) = sr"
  "IsValidSocketRole sr \<Longrightarrow> SocketRoleSwapPort (SocketRoleSwapIP sr) = SocketRoleSwapIP (SocketRoleSwapPort sr)"
  by (auto simp: valid_role_cases swap_roles)

lemma role_lt: "IsValidSocketRole sr \<Longrightarrow> unat sr < 4"
  by (auto simp: valid_role_cases role_simps)

end
