(* ===== verification/SocketAddress.thy ===== *)
theory SocketAddress
  imports StunTypes ByteOrder HResult
begin

text \<open>
  \<open>src/stuncore/socketaddress.h\<close>, \<open>socketaddress.cpp\<close>: \<open>CSocketAddress\<close>, a union of the C socket
  address structures.

  The union \<open>simple_sockaddr\<close> is modelled by its memory layout: family (2 bytes), port (2 bytes,
  network order), 4 bytes that are \<open>sin_addr\<close> of \<open>sockaddr_in\<close> and \<open>sin6_flowinfo\<close> of
  \<open>sockaddr_in6\<close>, 16 bytes that are \<open>sin6_addr\<close> (the first 8 of them \<open>sin_zero\<close>), and the 4 bytes of
  \<open>sin6_scope_id\<close>. Bytes a constructor leaves indeterminate are zero. Family numbers are Linux's.
\<close>

definition AF_INET :: u16 where "AF_INET = 2"
definition AF_INET6 :: u16 where "AF_INET6 = 10"

lemma AF_neq [simp]: "AF_INET \<noteq> AF_INET6" "AF_INET6 \<noteq> AF_INET"
  by (simp_all add: AF_INET_def AF_INET6_def)

record simple_sockaddr =
  sa_family :: u16
  sa_port :: bytes
  sa_in4 :: bytes
  sa_in6 :: bytes
  sa_scope :: bytes

definition sockaddr_zero :: simple_sockaddr where
  "sockaddr_zero = \<lparr>sa_family = 0, sa_port = replicate 2 0, sa_in4 = replicate 4 0,
     sa_in6 = replicate 16 0, sa_scope = replicate 4 0\<rparr>"

definition CSocketAddress_default :: simple_sockaddr where
  "CSocketAddress_default = sockaddr_zero\<lparr>sa_family := AF_INET\<rparr>"

text \<open>The 14 bytes of \<open>sa_data\<close> in the generic \<open>sockaddr\<close> view.\<close>

definition sa_data :: "simple_sockaddr \<Rightarrow> bytes" where
  "sa_data a = sa_port a @ sa_in4 a @ take 8 (sa_in6 a)"

definition CSocketAddress_from_in4 :: "simple_sockaddr \<Rightarrow> simple_sockaddr" where
  "CSocketAddress_from_in4 addr4 =
     sockaddr_zero\<lparr>sa_family := sa_family addr4, sa_port := sa_port addr4, sa_in4 := sa_in4 addr4,
       sa_in6 := take 8 (sa_in6 addr4) @ replicate 8 0\<rparr>"

definition CSocketAddress_from_in6 :: "simple_sockaddr \<Rightarrow> simple_sockaddr" where
  "CSocketAddress_from_in6 addr6 = addr6"

definition CSocketAddress_CommonConstructor :: "simple_sockaddr \<Rightarrow> simple_sockaddr" where
  "CSocketAddress_CommonConstructor addr =
     (if sa_family addr = AF_INET6 then CSocketAddress_from_in6 addr
      else if sa_family addr = AF_INET then CSocketAddress_from_in4 addr
      else sockaddr_zero\<lparr>sa_family := sa_family addr, sa_port := sa_port addr, sa_in4 := sa_in4 addr,
             sa_in6 := take 8 (sa_in6 addr) @ replicate 8 0\<rparr>)"

definition CSocketAddress_ip4 :: "u32 \<Rightarrow> u16 \<Rightarrow> simple_sockaddr" where
  "CSocketAddress_ip4 ipHostByteOrder port =
     CSocketAddress_from_in4
       (sockaddr_zero\<lparr>sa_family := AF_INET, sa_port := mem16 (htons port), sa_in4 := mem32 (htonl ipHostByteOrder)\<rparr>)"

definition CSocketAddress_GetFamily :: "simple_sockaddr \<Rightarrow> u16" where
  "CSocketAddress_GetFamily a = sa_family a"

definition CSocketAddress_GetPort_NBO :: "simple_sockaddr \<Rightarrow> u16" where
  "CSocketAddress_GetPort_NBO a = (if sa_family a = AF_INET then load16 (sa_port a) else load16 (sa_port a))"

definition CSocketAddress_GetPort :: "simple_sockaddr \<Rightarrow> u16" where
  "CSocketAddress_GetPort a = ntohs (CSocketAddress_GetPort_NBO a)"

definition CSocketAddress_SetPort :: "u16 \<Rightarrow> simple_sockaddr \<Rightarrow> simple_sockaddr" where
  "CSocketAddress_SetPort port a =
     (if sa_family a = AF_INET then a\<lparr>sa_port := mem16 (htons port)\<rparr> else a\<lparr>sa_port := mem16 (htons port)\<rparr>)"

definition CSocketAddress_GetIPLength :: "simple_sockaddr \<Rightarrow> nat" where
  "CSocketAddress_GetIPLength a = (if sa_family a = AF_INET then 4 else 16)"

text \<open>The bytes copied to \<open>pAddr\<close>; none on error, where the source returns a count of zero.\<close>

definition CSocketAddress_GetIPImpl :: "nat \<Rightarrow> bool \<Rightarrow> simple_sockaddr \<Rightarrow> bytes" where
  "CSocketAddress_GetIPImpl len fNBO a =
     (if len \<le> 0 then []
      else if len < CSocketAddress_GetIPLength a then []
      else if sa_family a = AF_INET
        then (let ip = load32 (sa_in4 a); ip = (if \<not> fNBO then htonl ip else ip) in mem32 ip)
        else sa_in6 a)"

definition CSocketAddress_GetIP :: "nat \<Rightarrow> simple_sockaddr \<Rightarrow> bytes" where
  "CSocketAddress_GetIP len a = CSocketAddress_GetIPImpl len False a"

definition CSocketAddress_GetIP_NBO :: "nat \<Rightarrow> simple_sockaddr \<Rightarrow> bytes" where
  "CSocketAddress_GetIP_NBO len a = CSocketAddress_GetIPImpl len True a"

definition xor_bytes :: "bytes \<Rightarrow> bytes \<Rightarrow> bytes" where
  "xor_bytes xs ys = map2 (XOR) xs ys"

definition CSocketAddress_ApplyStunXorMap :: "StunTransactionId \<Rightarrow> simple_sockaddr \<Rightarrow> simple_sockaddr" where
  "CSocketAddress_ApplyStunXorMap transid a =
     (let iplen = (if sa_family a = AF_INET then STUN_IPV4_LENGTH else STUN_IPV6_LENGTH);
          a1 = a\<lparr>sa_port := xor_bytes (sa_port a) (take 2 transid)\<rparr>
      in if sa_family a = AF_INET
         then a1\<lparr>sa_in4 := xor_bytes (sa_in4 a) (take iplen transid)\<rparr>
         else a1\<lparr>sa_in6 := xor_bytes (sa_in6 a) (take iplen transid)\<rparr>)"

definition CSocketAddress_GetSockAddrLength :: "simple_sockaddr \<Rightarrow> nat" where
  "CSocketAddress_GetSockAddrLength a = (if sa_family a = AF_INET then 16 else 28)"

definition CSocketAddress_IsSameIP :: "simple_sockaddr \<Rightarrow> simple_sockaddr \<Rightarrow> bool" where
  "CSocketAddress_IsSameIP a other =
     (if sa_family a = sa_family other
      then (if sa_family a = AF_INET then sa_in4 a = sa_in4 other
            else if sa_family a = AF_INET6 then sa_in6 a = sa_in6 other
            else sa_data a = sa_data other)
      else False)"

definition CSocketAddress_IsSameIP_and_Port :: "simple_sockaddr \<Rightarrow> simple_sockaddr \<Rightarrow> bool" where
  "CSocketAddress_IsSameIP_and_Port a other \<longleftrightarrow>
     CSocketAddress_IsSameIP a other \<and> CSocketAddress_GetPort a = CSocketAddress_GetPort other"

definition CSocketAddress_IsIPAddressZero :: "simple_sockaddr \<Rightarrow> bool" where
  "CSocketAddress_IsIPAddressZero a =
     (if sa_family a = AF_INET then sa_in4 a = replicate 4 0
      else if sa_family a = AF_INET6 then sa_in6 a = replicate 16 0
      else sa_data a = replicate 14 0)"

definition CSocketAddress_GetLocalHost :: "u16 \<Rightarrow> simple_sockaddr \<Rightarrow> hresult \<times> simple_sockaddr" where
  "CSocketAddress_GetLocalHost family addr =
     (if family \<noteq> AF_INET \<and> family \<noteq> AF_INET6 then (E_FAIL, addr)
      else if family = AF_INET then (S_OK, CSocketAddress_ip4 0x7f000001 0)
      else (S_OK, CSocketAddress_from_in6
              (sockaddr_zero\<lparr>sa_family := AF_INET6, sa_in6 := (replicate 16 0)[15 := 1]\<rparr>)))"

section \<open>Well-formed addresses and the laws of the operations\<close>

definition wf_addr :: "simple_sockaddr \<Rightarrow> bool" where
  "wf_addr a \<longleftrightarrow> length (sa_port a) = 2 \<and> length (sa_in4 a) = 4 \<and> length (sa_in6 a) = 16 \<and>
     length (sa_scope a) = 4 \<and> (sa_family a = AF_INET \<or> sa_family a = AF_INET6)"

text \<open>The bytes of the address and port on the wire.\<close>

definition addr_ip :: "simple_sockaddr \<Rightarrow> bytes" where
  "addr_ip a = (if sa_family a = AF_INET then sa_in4 a else sa_in6 a)"

text \<open>The value of an address attribute.\<close>

definition address_value :: "simple_sockaddr \<Rightarrow> bytes" where
  "address_value a =
     [0, if sa_family a = AF_INET then STUN_ATTRIBUTE_FIELD_IPV4 else STUN_ATTRIBUTE_FIELD_IPV6] @ sa_port a @ addr_ip a"

lemma length_xor_bytes [simp]: "length (xor_bytes xs ys) = min (length xs) (length ys)"
  by (simp add: xor_bytes_def)

lemma xor_bytes_involution: "length xs \<le> length ys \<Longrightarrow> xor_bytes (xor_bytes xs ys) ys = xs"
proof (induction xs arbitrary: ys)
  case (Cons x xs)
  then show ?case by (cases ys) (auto simp: xor_bytes_def xor.assoc)
qed (simp add: xor_bytes_def)

lemma wf_addr_default [simp]: "wf_addr CSocketAddress_default"
  by (simp add: wf_addr_def CSocketAddress_default_def sockaddr_zero_def)

lemma wf_addr_ip4 [simp]: "wf_addr (CSocketAddress_ip4 ip port)"
  by (simp add: wf_addr_def CSocketAddress_ip4_def CSocketAddress_from_in4_def sockaddr_zero_def)

lemma wf_addr_SetPort [simp]: "wf_addr a \<Longrightarrow> wf_addr (CSocketAddress_SetPort p a)"
  by (simp add: wf_addr_def CSocketAddress_SetPort_def)

lemma wf_addr_xor [simp]:
  "wf_addr a \<Longrightarrow> wf_transid t \<Longrightarrow> wf_addr (CSocketAddress_ApplyStunXorMap t a)"
  by (auto simp: wf_addr_def wf_transid_def CSocketAddress_ApplyStunXorMap_def Let_def stun_consts)

lemma GetPort_SetPort [simp]: "CSocketAddress_GetPort (CSocketAddress_SetPort p a) = p"
  by (simp add: CSocketAddress_GetPort_def CSocketAddress_GetPort_NBO_def CSocketAddress_SetPort_def load16_be16)

lemma IsSameIP_SetPort [simp]: "wf_addr a \<Longrightarrow> CSocketAddress_IsSameIP (CSocketAddress_SetPort p a) a"
  by (auto simp: CSocketAddress_IsSameIP_def CSocketAddress_SetPort_def wf_addr_def)

lemma sa_family_SetPort [simp]: "sa_family (CSocketAddress_SetPort p a) = sa_family a"
  by (simp add: CSocketAddress_SetPort_def)

lemma GetPort_inject:
  "wf_addr a \<Longrightarrow> wf_addr b \<Longrightarrow> CSocketAddress_GetPort a = CSocketAddress_GetPort b \<longleftrightarrow> sa_port a = sa_port b"
  by (metis CSocketAddress_GetPort_def CSocketAddress_GetPort_NBO_def be16_ntohs_load16 wf_addr_def)

lemma IsSameIP_iff:
  "wf_addr a \<Longrightarrow> CSocketAddress_IsSameIP a b \<longleftrightarrow> sa_family a = sa_family b \<and> addr_ip a = addr_ip b"
  by (auto simp: CSocketAddress_IsSameIP_def addr_ip_def wf_addr_def)

lemma IsSameIP_and_Port_iff:
  "wf_addr a \<Longrightarrow> wf_addr b \<Longrightarrow> CSocketAddress_IsSameIP_and_Port a b \<longleftrightarrow>
     sa_family a = sa_family b \<and> addr_ip a = addr_ip b \<and> sa_port a = sa_port b"
  by (auto simp: CSocketAddress_IsSameIP_and_Port_def IsSameIP_iff GetPort_inject)

lemma ApplyStunXorMap_family [simp]: "sa_family (CSocketAddress_ApplyStunXorMap t a) = sa_family a"
  by (simp add: CSocketAddress_ApplyStunXorMap_def Let_def)

lemma ApplyStunXorMap_port: "sa_port (CSocketAddress_ApplyStunXorMap t a) = xor_bytes (sa_port a) (take 2 t)"
  by (simp add: CSocketAddress_ApplyStunXorMap_def Let_def)

lemma ApplyStunXorMap_ip:
  "addr_ip (CSocketAddress_ApplyStunXorMap t a) =
   xor_bytes (addr_ip a) (take (if sa_family a = AF_INET then 4 else 16) t)"
  by (simp add: CSocketAddress_ApplyStunXorMap_def Let_def addr_ip_def stun_consts)

lemma ApplyStunXorMap_involution:
  assumes "wf_addr a" "wf_transid t"
  shows "CSocketAddress_ApplyStunXorMap t (CSocketAddress_ApplyStunXorMap t a) = a"
  using assms
  by (auto simp: CSocketAddress_ApplyStunXorMap_def Let_def wf_addr_def wf_transid_def xor_bytes_involution stun_consts)

lemma length_addr_ip: "wf_addr a \<Longrightarrow> length (addr_ip a) = CSocketAddress_GetIPLength a"
  by (auto simp: wf_addr_def addr_ip_def CSocketAddress_GetIPLength_def)

lemma GetIP_NBO_eq: "wf_addr a \<Longrightarrow> 16 \<le> len \<Longrightarrow> CSocketAddress_GetIP_NBO len a = addr_ip a"
  by (auto simp: CSocketAddress_GetIP_NBO_def CSocketAddress_GetIPImpl_def wf_addr_def addr_ip_def
      CSocketAddress_GetIPLength_def mem32_load32)

text \<open>The host-order copy of an IPv4 address is its bytes reversed.\<close>

lemma GetIP_eq:
  "wf_addr a \<Longrightarrow> 16 \<le> len \<Longrightarrow>
   CSocketAddress_GetIP len a = (if sa_family a = AF_INET then rev (addr_ip a) else addr_ip a)"
  by (auto simp: CSocketAddress_GetIP_def CSocketAddress_GetIPImpl_def wf_addr_def addr_ip_def
      CSocketAddress_GetIPLength_def Let_def)
    (metis mem32_load32 rev_mem32)

end
