(* ===== verification/StunUtils.thy ===== *)
theory StunUtils
  imports DataStream SocketAddress
begin

text \<open>
  \<open>src/stuncore/stunutils.cpp\<close>: reading the value of an address attribute. \<open>pData\<close> is the array of the
  attribute's \<open>n\<close> value bytes. The address written through
  \<open>pAddr\<close> is part of the result and is the old one on failure; a NULL \<open>pAddr\<close> is \<open>None\<close>.
\<close>

definition IsTransactionIdValid :: "StunTransactionId \<Rightarrow> bool" where
  "IsTransactionIdValid transid \<longleftrightarrow> transid \<noteq> replicate STUN_TRANSACTION_ID_LENGTH 0"

definition GetMappedAddress :: "bytes \<Rightarrow> nat \<Rightarrow> simple_sockaddr option \<Rightarrow> hresult \<times> simple_sockaddr option" where
  "GetMappedAddress pData n pAddr =
     (let stream = CDataStream_from (CBuffer_from (Some pData) n False)
      in if pAddr = None then (E_INVALIDARG, pAddr)
         else
           (let (hr, stream) = CDataStream_SeekDirect 1 stream
            in if FAILED hr then (hr, pAddr)
               else
                 (let (hr, attributeid, stream) = CDataStream_ReadUint8 stream
                  in if FAILED hr then (hr, pAddr)
                     else
                       (let (hr, port, stream) = CDataStream_ReadUint16 stream
                        in if FAILED hr then (hr, pAddr)
                           else
                             (let port = ntohs port
                              in if attributeid = STUN_ATTRIBUTE_FIELD_IPV4
                                 then (let (hr, ip4, stream) = CDataStream_ReadUint32 stream
                                       in if FAILED hr then (hr, pAddr)
                                          else (hr, Some (CSocketAddress_ip4 (ntohl ip4) port)))
                                 else (let (hr, ip6, stream) = CDataStream_Read STUN_IPV6_LENGTH stream
                                       in if FAILED hr then (hr, pAddr)
                                          else (hr, Some (CSocketAddress_from_in6
                                                  (sockaddr_zero\<lparr>sa_family := AF_INET6, sa_port := mem16 (htons port),
                                                     sa_in6 := ip6\<rparr>)))))))))"

definition GetXorMappedAddress ::
  "bytes \<Rightarrow> nat \<Rightarrow> StunTransactionId \<Rightarrow> simple_sockaddr option \<Rightarrow> hresult \<times> simple_sockaddr option" where
  "GetXorMappedAddress pData n transid pAddr =
     (let (hr, pAddr) = GetMappedAddress pData n pAddr
      in if FAILED hr then (hr, pAddr)
         else (hr, map_option (CSocketAddress_ApplyStunXorMap transid) pAddr))"

section \<open>What the address reader accepts\<close>

definition decode_address :: "bytes \<Rightarrow> simple_sockaddr" where
  "decode_address d =
     (if d ! 1 = STUN_ATTRIBUTE_FIELD_IPV4
      then sockaddr_zero\<lparr>sa_family := AF_INET, sa_port := bslice 2 2 d, sa_in4 := bslice 4 4 d\<rparr>
      else sockaddr_zero\<lparr>sa_family := AF_INET6, sa_port := bslice 2 2 d, sa_in6 := bslice 4 16 d\<rparr>)"

text \<open>The address is there when the value holds its family, its port and as many address bytes as the family has.\<close>

definition address_complete :: "bytes \<Rightarrow> bool" where
  "address_complete d \<longleftrightarrow> 4 \<le> length d \<and> (if d ! 1 = STUN_ATTRIBUTE_FIELD_IPV4 then 8 \<le> length d else 20 \<le> length d)"

definition value_stream :: "bytes \<Rightarrow> nat \<Rightarrow> datastream" where
  "value_stream d p = (CDataStream_from (CBuffer_from (Some d) (length d) False))\<lparr>ds_pos := p\<rparr>"

lemma value_stream_bytes [simp]: "stream_bytes (value_stream d p) = d"
  using CBuffer_from_copy [of d "length d" False] by (simp add: value_stream_def CDataStream_from_def stream_bytes_def)

lemma wf_value_stream: "p \<le> length d \<Longrightarrow> wf_stream (value_stream d p)"
  using CBuffer_from_copy [of d "length d" False]
  by (auto simp: value_stream_def CDataStream_from_def wf_stream_def CDataStream_GetSize_def CBuffer_from_def
      CBuffer_InitNoAlloc_def CBuffer_Reset_def Let_def)

lemma value_stream_pos [simp]: "ds_pos (value_stream d p) = p" "(value_stream d p)\<lparr>ds_pos := q\<rparr> = value_stream d q"
  by (simp_all add: value_stream_def)

lemma value_stream_0: "CDataStream_from (CBuffer_from (Some d) (length d) False) = value_stream d 0"
  by (simp add: value_stream_def CDataStream_from_def)

lemma value_Read:
  assumes "p + k < size_range" "p \<le> length d"
  shows "CDataStream_Read k (value_stream d p) =
    (if p + k \<le> length d then (S_OK, bslice p k d, value_stream d (p + k)) else (E_INVALIDARG, [], value_stream d p))"
  using Read_ok [OF wf_value_stream [OF assms(2)], of k] Read_fail [OF wf_value_stream [OF assms(2)], of k] assms(1) by auto

lemma bslice_1: "p < length d \<Longrightarrow> bslice p 1 d = [d ! p]"
  by (simp add: bslice_def take_Suc_conv_app_nth hd_drop_conv_nth take_Suc)

lemma GetMappedAddress_ok:
  assumes "address_complete d" "length d < 65536"
  shows "GetMappedAddress d (length d) (Some a) = (S_OK, Some (decode_address d))"
proof -
  have len: "4 \<le> length d" using assms by (simp add: address_complete_def)
  have rng: "size_range = 4294967296" by (simp add: size_range_def)
  have ne: "d \<noteq> []" using len by auto
  have seek: "CDataStream_SeekDirect 1 (value_stream d 0) = (S_OK, value_stream d 1)"
    using SeekDirect_ok [OF wf_value_stream [of 0 d], of 1] len ne by (simp add: Suc_le_eq)
  have fam: "CDataStream_ReadUint8 (value_stream d 1) = (S_OK, d ! 1, value_stream d 2)"
    using value_Read [of 1 1 d] len bslice_1 [of 1 d] rng by (simp add: CDataStream_ReadUint8_def numeral_2_eq_2)
  have port: "CDataStream_ReadUint16 (value_stream d 2) = (S_OK, load16 (bslice 2 2 d), value_stream d 4)"
    using value_Read [of 2 2 d] len rng by (simp add: CDataStream_ReadUint16_def)
  have portlen: "length (bslice 2 2 d) = 2" using len by simp
  show ?thesis
  proof (cases "d ! 1 = STUN_ATTRIBUTE_FIELD_IPV4")
    case True
    then have l8: "8 \<le> length d" using assms by (simp add: address_complete_def)
    have "CDataStream_ReadUint32 (value_stream d 4) = (S_OK, load32 (bslice 4 4 d), value_stream d 8)"
      using value_Read [of 4 4 d] l8 rng by (simp add: CDataStream_ReadUint32_def)
    moreover have "length (bslice 4 4 d) = 4" using l8 by simp
    moreover have "replicate 8 (0 :: u8) @ replicate 8 0 = replicate 16 0" by (simp flip: replicate_add)
    ultimately show ?thesis using True seek fam port mem16_load16 [OF portlen]
      by (simp add: GetMappedAddress_def Let_def value_stream_0 CSocketAddress_ip4_def CSocketAddress_from_in4_def decode_address_def
          be32_ntohl_load32 sockaddr_zero_def)
  next
    case False
    then have l20: "20 \<le> length d" using assms by (simp add: address_complete_def)
    have "CDataStream_Read STUN_IPV6_LENGTH (value_stream d 4) = (S_OK, bslice 4 16 d, value_stream d 20)"
      using value_Read [of 4 16 d] l20 rng by (simp add: stun_consts)
    then show ?thesis using False seek fam port mem16_load16 [OF portlen]
      by (simp add: GetMappedAddress_def Let_def value_stream_0 CSocketAddress_from_in6_def decode_address_def sockaddr_zero_def)
  qed
qed

lemma GetMappedAddress_short:
  assumes "\<not> address_complete d" "length d < 65536"
  shows "\<not> SUCCEEDED (fst (GetMappedAddress d (length d) (Some a)))" "snd (GetMappedAddress d (length d) (Some a)) = Some a"
proof -
  have rng: "size_range = 4294967296" by (simp add: size_range_def)
  have "\<not> SUCCEEDED (fst (GetMappedAddress d (length d) (Some a))) \<and> snd (GetMappedAddress d (length d) (Some a)) = Some a"
  proof (cases "4 \<le> length d")
    case True
    have ne: "d \<noteq> []" using True by auto
    have seek: "CDataStream_SeekDirect 1 (value_stream d 0) = (S_OK, value_stream d 1)"
      using SeekDirect_ok [OF wf_value_stream [of 0 d], of 1] True ne by (simp add: Suc_le_eq)
    have fam: "CDataStream_ReadUint8 (value_stream d 1) = (S_OK, d ! 1, value_stream d 2)"
      using value_Read [of 1 1 d] True bslice_1 [of 1 d] rng by (simp add: CDataStream_ReadUint8_def numeral_2_eq_2)
    have port: "CDataStream_ReadUint16 (value_stream d 2) = (S_OK, load16 (bslice 2 2 d), value_stream d 4)"
      using value_Read [of 2 2 d] True rng by (simp add: CDataStream_ReadUint16_def)
    show ?thesis
    proof (cases "d ! 1 = STUN_ATTRIBUTE_FIELD_IPV4")
      case v4: True
      then have "length d < 8" using assms True by (auto simp: address_complete_def)
      then have "CDataStream_Read 4 (value_stream d 4) = (E_INVALIDARG, [], value_stream d 4)"
        using value_Read [of 4 4 d] True rng by simp
      then show ?thesis using v4 seek fam port
        by (simp add: GetMappedAddress_def Let_def value_stream_0 CDataStream_ReadUint32_def)
    next
      case v6: False
      then have "length d < 20" using assms True by (auto simp: address_complete_def)
      then have "CDataStream_Read STUN_IPV6_LENGTH (value_stream d 4) = (E_INVALIDARG, [], value_stream d 4)"
        using value_Read [of 4 16 d] True rng by (simp add: stun_consts)
      then show ?thesis using v6 seek fam port by (simp add: GetMappedAddress_def Let_def value_stream_0)
    qed
  next
    case False
    consider "length d = 0" | "length d = 1" | "length d = 2" | "length d = 3" using False by linarith
    then show ?thesis
    proof cases
      case 1
      then show ?thesis using SeekDirect_fail [OF wf_value_stream [of 0 d], of 1]
        unfolding GetMappedAddress_def value_stream_0 Let_def by (simp)
    next
      case 2
      then show ?thesis using SeekDirect_ok [OF wf_value_stream [of 0 d], of 1] value_Read [of 1 1 d] rng
        unfolding GetMappedAddress_def value_stream_0 Let_def by (simp add: CDataStream_ReadUint8_def)
    next
      case 3
      then show ?thesis using SeekDirect_ok [OF wf_value_stream [of 0 d], of 1] value_Read [of 1 1 d] value_Read [of 2 2 d] rng
        unfolding GetMappedAddress_def value_stream_0 Let_def by (simp add: CDataStream_ReadUint8_def CDataStream_ReadUint16_def numeral_2_eq_2)
    next
      case 4
      then show ?thesis using SeekDirect_ok [OF wf_value_stream [of 0 d], of 1] value_Read [of 1 1 d] value_Read [of 2 2 d] rng
        unfolding GetMappedAddress_def value_stream_0 Let_def by (simp add: CDataStream_ReadUint8_def CDataStream_ReadUint16_def numeral_2_eq_2)
    qed
  qed
  then show "\<not> SUCCEEDED (fst (GetMappedAddress d (length d) (Some a)))" "snd (GetMappedAddress d (length d) (Some a)) = Some a"
    by auto
qed

section \<open>Address attributes read back what was written\<close>

text \<open>Two addresses with the same family, port and address bytes; the rest of the union is not sent.\<close>

definition same_endpoint :: "simple_sockaddr \<Rightarrow> simple_sockaddr \<Rightarrow> bool" where
  "same_endpoint a b \<longleftrightarrow> sa_family a = sa_family b \<and> sa_port a = sa_port b \<and> addr_ip a = addr_ip b"

lemma address_value_complete: "wf_addr a \<Longrightarrow> address_complete (address_value a)"
  by (auto simp: address_complete_def address_value_def wf_addr_def addr_ip_def stun_consts)

lemma bslice_port: "length p = 2 \<Longrightarrow> bslice 2 2 (a # b # p @ q) = p"
  by (simp add: bslice_def)

lemma bslice_ip: "length p = 2 \<Longrightarrow> length q = k \<Longrightarrow> bslice 4 k (a # b # p @ q) = q"
  by (simp add: bslice_def)

lemma decode_address_value: "wf_addr a \<Longrightarrow> same_endpoint (decode_address (address_value a)) a"
  by (auto simp: same_endpoint_def decode_address_def address_value_def addr_ip_def wf_addr_def stun_consts bslice_port bslice_ip)

lemma same_endpoint_xor:
  "same_endpoint a b \<Longrightarrow> same_endpoint (CSocketAddress_ApplyStunXorMap t a) (CSocketAddress_ApplyStunXorMap t b)"
  by (simp add: same_endpoint_def ApplyStunXorMap_port ApplyStunXorMap_ip)

lemma same_endpoint_IsSame: "wf_addr a \<Longrightarrow> wf_addr b \<Longrightarrow> same_endpoint a b \<longleftrightarrow> CSocketAddress_IsSameIP_and_Port a b"
  by (auto simp: same_endpoint_def IsSameIP_and_Port_iff)

lemma wf_decode_address:
  assumes "address_complete d" shows "wf_addr (decode_address d)"
  using assms by (auto simp: wf_addr_def decode_address_def address_complete_def sockaddr_zero_def)

end
