(* ===== verification/StunBuilder.thy ===== *)
theory StunBuilder
  imports DataStream SocketAddress Crc32
begin

text \<open>
  \<open>src/stuncore/stunbuilder.h\<close>, \<open>stunbuilder.cpp\<close>: \<open>CStunMessageBuilder\<close>, which writes a STUN
  message front to back into a \<open>CDataStream\<close>.

  A method is a function from the builder to its \<open>HRESULT\<close> and the builder after it. Integers that
  the source writes from memory go through \<open>mem16\<close> and \<open>mem32\<close>, with \<open>htons\<close> and \<open>htonl\<close> where it
  calls them. A \<open>char*\<close> that may be NULL is an optional byte list. OpenSSL's \<open>HMAC(EVP_sha1())\<close> and
  \<open>MD5\<close> are the parameters \<open>hmac\<close> (key, data) and \<open>md5\<close>; CRC-32 is \<open>Crc32.crc32\<close>.
\<close>

record builder =
  mb_stream :: datastream
  mb_transactionid :: StunTransactionId
  mb_fLegacyMode :: bool

definition CStunMessageBuilder_new :: builder where
  "CStunMessageBuilder_new =
     \<lparr>mb_stream = CDataStream_init, mb_transactionid = StunTransactionId_zero, mb_fLegacyMode = False\<rparr>"

definition on_stream :: "(datastream \<Rightarrow> hresult \<times> datastream) \<Rightarrow> builder \<Rightarrow> hresult \<times> builder" where
  "on_stream f b = (let (hr, s) = f (mb_stream b) in (hr, b\<lparr>mb_stream := s\<rparr>))"

definition SetLegacyMode :: "bool \<Rightarrow> builder \<Rightarrow> builder" where
  "SetLegacyMode f b = b\<lparr>mb_fLegacyMode := f\<rparr>"

definition msgTypeField :: "StunMessageType \<Rightarrow> StunMessageClass \<Rightarrow> u16" where
  "msgTypeField msgType msgClass =
     (let f = push_bit 2 (msgType AND 0x0f80);
          f = f OR push_bit 1 (msgType AND 0x0070);
          f = f OR (msgType AND 0x000f);
          f = f OR push_bit 7 (StunMessageClass_value msgClass AND 0x02)
      in f OR push_bit 4 (StunMessageClass_value msgClass AND 0x01))"

definition AddHeader :: "StunMessageType \<Rightarrow> StunMessageClass \<Rightarrow> builder \<Rightarrow> hresult \<times> builder" where
  "AddHeader msgType msgClass =
     run_cmds
       [Chk (on_stream (CDataStream_SetSizeHint 200)),
        Chk (on_stream (CDataStream_WriteUint16 (htons (msgTypeField msgType msgClass)))),
        Chk (on_stream (CDataStream_WriteUint16 0))] S_OK"

definition AddBindingRequestHeader :: "builder \<Rightarrow> hresult \<times> builder" where
  "AddBindingRequestHeader = AddHeader StunMsgTypeBinding StunMsgClassRequest"

definition AddBindingResponseHeader :: "bool \<Rightarrow> builder \<Rightarrow> hresult \<times> builder" where
  "AddBindingResponseHeader fSuccess =
     AddHeader StunMsgTypeBinding (if fSuccess then StunMsgClassSuccessResponse else StunMsgClassFailureResponse)"

definition AddTransactionId :: "StunTransactionId \<Rightarrow> builder \<Rightarrow> hresult \<times> builder" where
  "AddTransactionId transid b =
     on_stream (CDataStream_Write (Some transid) STUN_TRANSACTION_ID_LENGTH) (b\<lparr>mb_transactionid := transid\<rparr>)"

text \<open>
  The local \<open>transid\<close> starts with the indeterminate bytes \<open>stack\<close>; \<open>rand\<close> gives the successive
  values of \<open>rand() % 256\<close>. The loop runs over the indices 4 up to
  \<open>STUN_TRANSACTION_ID_LENGTH - 4\<close>.
\<close>

definition RandomTransactionId :: "(nat \<Rightarrow> u8) \<Rightarrow> bytes \<Rightarrow> StunTransactionId" where
  "RandomTransactionId rand stack =
     fold (\<lambda>x tid. tid[x := rand x]) [4 ..< STUN_TRANSACTION_ID_LENGTH - 4]
       (overwrite 0 (mem32 (htonl STUN_COOKIE)) stack)"

definition AddRandomTransactionId ::
  "(nat \<Rightarrow> u8) \<Rightarrow> bytes \<Rightarrow> builder \<Rightarrow> hresult \<times> StunTransactionId \<times> builder" where
  "AddRandomTransactionId rand stack b =
     (let transid = RandomTransactionId rand stack;
          (hr, b1) = AddTransactionId transid b
      in (hr, transid, b1))"

definition AddAttributeHeader :: "u16 \<Rightarrow> u16 \<Rightarrow> builder \<Rightarrow> hresult \<times> builder" where
  "AddAttributeHeader attribType sz =
     run_cmds
       [Chk (on_stream (CDataStream_WriteUint16 (htons attribType))),
        Chk (on_stream (CDataStream_WriteUint16 (htons sz)))] S_OK"

text \<open>The padding that brings a size to a multiple of 4.\<close>

definition attribute_padding :: "nat \<Rightarrow> nat" where
  "attribute_padding n = (if n mod 4 \<noteq> 0 then 4 - n mod 4 else 0)"

definition AddAttribute :: "u16 \<Rightarrow> bytes option \<Rightarrow> u16 \<Rightarrow> builder \<Rightarrow> hresult \<times> builder" where
  "AddAttribute attribType data size0 b =
     (let sz = (if data = None then 0 else size0);
          padding = attribute_padding (unat sz);
          sizeheader = (if mb_fLegacyMode b then size0 + of_nat padding else size0)
      in run_cmds
           [Chk (AddAttributeHeader attribType sizeheader),
            When (\<lambda>_. 0 < sz) (Chk (on_stream (CDataStream_Write data (unat sz)))),
            When (\<lambda>_. 0 < padding) (Chk (on_stream (CDataStream_Write (Some (replicate 4 0)) padding)))] S_OK b)"

definition IsNullOrEmpty :: "bytes option \<Rightarrow> bool" where
  "IsNullOrEmpty psz = (case psz of None \<Rightarrow> True | Some s \<Rightarrow> strlen s = 0)"

definition AddStringAttribute :: "u16 \<Rightarrow> bytes option \<Rightarrow> builder \<Rightarrow> hresult \<times> builder" where
  "AddStringAttribute attribType pstr b =
     (if IsNullOrEmpty pstr then (E_INVALIDARG, b)
      else AddAttribute attribType pstr (case pstr of None \<Rightarrow> 0 | Some s \<Rightarrow> of_nat (strlen s)) b)"

definition AddErrorCode :: "u16 \<Rightarrow> bytes option \<Rightarrow> builder \<Rightarrow> hresult \<times> builder" where
  "AddErrorCode errorNumber pszReason b =
     (let strsize = (case pszReason of None \<Rightarrow> 0 | Some s \<Rightarrow> strlen s);
          sz = strsize + 4;
          padding = attribute_padding sz;
          padding = (if sz mod 4 \<noteq> 0 \<and> mb_fLegacyMode b then 4 - sz mod 4 else padding);
          sizeheader = (if mb_fLegacyMode b then sz + padding else sz)
      in run_cmds
           [ChkIf (\<lambda>_. 128 \<le> strsize) E_INVALIDARG,
            ChkIf (\<lambda>_. errorNumber < 300) E_INVALIDARG,
            ChkIf (\<lambda>_. 600 < errorNumber) E_INVALIDARG,
            Chk (AddAttributeHeader STUN_ATTRIBUTE_ERRORCODE (of_nat sizeheader)),
            Chk (on_stream (CDataStream_WriteInt16 0)),
            Chk (on_stream (CDataStream_WriteUint8 (ucast (errorNumber div 100)))),
            Chk (on_stream (CDataStream_WriteUint8 (ucast (errorNumber mod 100)))),
            When (\<lambda>_. 0 < strsize) (Call (on_stream (CDataStream_Write pszReason strsize))),
            When (\<lambda>_. 0 < padding) (Chk (on_stream (CDataStream_Write (Some (replicate 4 0)) padding)))] S_OK b)"

text \<open>The array goes out as it lies in memory.\<close>

definition AddUnknownAttributes :: "u16 list option \<Rightarrow> nat \<Rightarrow> builder \<Rightarrow> hresult \<times> builder" where
  "AddUnknownAttributes arr count b =
     (let mem = (case arr of None \<Rightarrow> [] | Some a \<Rightarrow> concat (map mem16 a));
          unpaddedsize = (of_nat (2 * count) :: u16);
          fPad = (mb_fLegacyMode b \<and> odd count);
          sz = (if fPad then unpaddedsize + 2 else unpaddedsize)
      in run_cmds
           [ChkIf (\<lambda>_. arr = None) E_INVALIDARG,
            ChkIf (\<lambda>_. count \<le> 0) E_INVALIDARG,
            Chk (AddAttributeHeader STUN_ATTRIBUTE_UNKNOWNATTRIBUTES sz),
            Chk (on_stream (CDataStream_Write (Some mem) (unat unpaddedsize))),
            When (\<lambda>_. fPad) (Call (on_stream (CDataStream_Write (Some (bslice (2 * (count - 1)) 2 mem)) 2)))] S_OK b)"

definition AddMappedAddressImpl :: "u16 \<Rightarrow> simple_sockaddr \<Rightarrow> builder \<Rightarrow> hresult \<times> builder" where
  "AddMappedAddressImpl attribute addr =
     (let family = (if CSocketAddress_GetFamily addr = AF_INET then STUN_ATTRIBUTE_FIELD_IPV4 else STUN_ATTRIBUTE_FIELD_IPV6);
          attributeSize = (if family = STUN_ATTRIBUTE_FIELD_IPV4 then STUN_ATTRIBUTE_MAPPEDADDRESS_SIZE_IPV4
                           else STUN_ATTRIBUTE_MAPPEDADDRESS_SIZE_IPV6);
          port = CSocketAddress_GetPort_NBO addr;
          ip = CSocketAddress_GetIP_NBO STUN_IPV6_LENGTH addr
      in run_cmds
           [Chk (AddAttributeHeader attribute attributeSize),
            Chk (on_stream (CDataStream_WriteUint8 0)),
            Chk (on_stream (CDataStream_WriteUint8 family)),
            Chk (on_stream (CDataStream_WriteUint16 port)),
            Chk (on_stream (CDataStream_Write (Some ip) (length ip)))] S_OK)"

definition AddXorMappedAddress :: "simple_sockaddr \<Rightarrow> builder \<Rightarrow> hresult \<times> builder" where
  "AddXorMappedAddress addr b =
     (let attributeID = (if mb_fLegacyMode b then STUN_ATTRIBUTE_XORMAPPEDADDRESS_OPTIONAL else STUN_ATTRIBUTE_XORMAPPEDADDRESS);
          addrxor = CSocketAddress_ApplyStunXorMap (mb_transactionid b) addr
      in AddMappedAddressImpl attributeID addrxor b)"

definition AddMappedAddress :: "simple_sockaddr \<Rightarrow> builder \<Rightarrow> hresult \<times> builder" where
  "AddMappedAddress addr = AddMappedAddressImpl STUN_ATTRIBUTE_MAPPEDADDRESS addr"

definition AddResponseOriginAddress :: "simple_sockaddr \<Rightarrow> builder \<Rightarrow> hresult \<times> builder" where
  "AddResponseOriginAddress addr b =
     AddMappedAddressImpl (if mb_fLegacyMode b then STUN_ATTRIBUTE_SOURCEADDRESS else STUN_ATTRIBUTE_RESPONSE_ORIGIN) addr b"

definition AddOtherAddress :: "simple_sockaddr \<Rightarrow> builder \<Rightarrow> hresult \<times> builder" where
  "AddOtherAddress addr b =
     AddMappedAddressImpl (if mb_fLegacyMode b then STUN_ATTRIBUTE_CHANGEDADDRESS else STUN_ATTRIBUTE_OTHER_ADDRESS) addr b"

definition AddResponsePort :: "u16 \<Rightarrow> builder \<Rightarrow> hresult \<times> builder" where
  "AddResponsePort port = AddAttribute STUN_ATTRIBUTE_RESPONSE_PORT (Some (mem16 (htons port))) 2"

text \<open>The write loop of \<open>AddPaddingAttribute\<close>: blocks of at most 128 zero bytes.\<close>

function padding_loop :: "nat \<Rightarrow> builder \<Rightarrow> hresult \<times> builder" where
  "padding_loop paddingSize b =
     (if paddingSize = 0 then (S_OK, b)
      else
        (let blocksize = (if 128 \<le> paddingSize then 128 else paddingSize);
             (hr, b1) = on_stream (CDataStream_Write (Some (replicate 128 0)) blocksize) b
         in if FAILED hr then (hr, b1) else padding_loop (paddingSize - blocksize) b1))"
  by auto
termination by (relation "measure fst") (auto split: if_splits)

declare padding_loop.simps [simp del]

definition AddPaddingAttribute :: "u16 \<Rightarrow> builder \<Rightarrow> hresult \<times> builder" where
  "AddPaddingAttribute size0 b =
     (let paddingSize = (if size0 mod 4 \<noteq> 0 then size0 + 4 - size0 mod 4 else size0)
      in run_cmds
           [Chk (AddAttributeHeader STUN_ATTRIBUTE_PADDING paddingSize),
            Chk (padding_loop (unat paddingSize))] S_OK b)"

definition AddChangeRequest :: "StunChangeRequestAttribute \<Rightarrow> builder \<Rightarrow> hresult \<times> builder" where
  "AddChangeRequest changeAttrib =
     (let changeData = (0 :: u32);
          changeData = (if fChangeIP changeAttrib then changeData OR 0x04 else changeData);
          changeData = (if fChangePort changeAttrib then changeData OR 0x02 else changeData)
      in AddAttribute STUN_ATTRIBUTE_CHANGEREQUEST (Some (mem32 (htonl changeData))) 4)"

definition FixLengthField :: "builder \<Rightarrow> hresult \<times> builder" where
  "FixLengthField b =
     (let sz = CDataStream_GetSize (mb_stream b);
          currentPos = CDataStream_GetPos (mb_stream b);
          len = (if sz < STUN_HEADER_SIZE then 0 else sz - STUN_HEADER_SIZE)
      in run_cmds
           [ChkIf (\<lambda>_. sz < STUN_HEADER_SIZE) E_UNEXPECTED,
            Chk (on_stream (CDataStream_SeekDirect 2)),
            Chk (on_stream (CDataStream_WriteUint16 (ntohs (of_nat len)))),
            Chk (on_stream (CDataStream_SeekDirect currentPos))] S_OK b)"

text \<open>The bytes behind the stream's buffer pointer, up to the buffer's size.\<close>

definition builder_data :: "builder \<Rightarrow> bytes" where
  "builder_data b = (case snd (CDataStream_GetBuffer (mb_stream b)) of None \<Rightarrow> [] | Some buf \<Rightarrow> take (cb_size buf) (CBuffer_GetData buf))"

definition fingerprint_value :: "bytes \<Rightarrow> u32" where
  "fingerprint_value data = crc32 data XOR STUN_FINGERPRINT_XOR"

definition AddFingerprintAttribute :: "builder \<Rightarrow> hresult \<times> builder" where
  "AddFingerprintAttribute =
     run_cmds
       [Chk (on_stream (CDataStream_WriteUint16 (htons STUN_ATTRIBUTE_FINGERPRINT))),
        Chk (on_stream (CDataStream_WriteUint16 (htons 4))),
        Chk (on_stream (CDataStream_WriteUint32 0)),
        Chk FixLengthField,
        Chk (\<lambda>b. let pData = builder_data b;
                     len = length pData - 8;
                     val = fingerprint_value (take len pData)
                 in run_cmds
                      [Chk (on_stream (CDataStream_SeekRelative (- 4))),
                       Chk (on_stream (CDataStream_WriteUint32 (htonl val)))] S_OK b)] S_OK"

definition AddUserName :: "bytes option \<Rightarrow> builder \<Rightarrow> hresult \<times> builder" where
  "AddUserName = AddStringAttribute STUN_ATTRIBUTE_USERNAME"

definition AddNonce :: "bytes option \<Rightarrow> builder \<Rightarrow> hresult \<times> builder" where
  "AddNonce = AddStringAttribute STUN_ATTRIBUTE_NONCE"

definition AddRealm :: "bytes option \<Rightarrow> builder \<Rightarrow> hresult \<times> builder" where
  "AddRealm = AddStringAttribute STUN_ATTRIBUTE_REALM"

text \<open>A write through the raw data pointer of the stream's buffer.\<close>

definition poke_buffer :: "nat \<Rightarrow> bytes \<Rightarrow> builder \<Rightarrow> builder" where
  "poke_buffer off xs b =
     b\<lparr>mb_stream := (mb_stream b)\<lparr>ds_buffer :=
        map_option (\<lambda>buf. buf\<lparr>cb_data := map_option (overwrite off xs) (cb_data buf)\<rparr>) (ds_buffer (mb_stream b))\<rparr>\<rparr>"

definition AddMessageIntegrityImpl ::
  "(bytes \<Rightarrow> bytes \<Rightarrow> bytes) \<Rightarrow> bytes option \<Rightarrow> nat \<Rightarrow> builder \<Rightarrow> hresult \<times> builder" where
  "AddMessageIntegrityImpl hmac key keysize =
     run_cmds
       [ChkIf (\<lambda>_. key = None \<or> keysize \<le> 0) E_INVALIDARG,
        Chk (AddAttribute STUN_ATTRIBUTE_MESSAGEINTEGRITY (Some (replicate 20 0)) 20),
        Chk FixLengthField,
        Assign (\<lambda>b. let pData = builder_data b;
                        len = length pData - 24
                    in poke_buffer (len + 4) (hmac (take keysize (the key)) (take len pData)) b)] S_OK"

definition AddMessageIntegrityShortTerm :: "(bytes \<Rightarrow> bytes \<Rightarrow> bytes) \<Rightarrow> bytes \<Rightarrow> builder \<Rightarrow> hresult \<times> builder" where
  "AddMessageIntegrityShortTerm hmac pszPassword = AddMessageIntegrityImpl hmac (Some pszPassword) (strlen pszPassword)"

definition MAX_STUN_AUTH_STRING_SIZE :: nat where "MAX_STUN_AUTH_STRING_SIZE = 64"

text \<open>The key of the long-term mechanism, before hashing: user, realm and password joined by colons.\<close>

definition long_term_key :: "bytes option \<Rightarrow> bytes option \<Rightarrow> bytes option \<Rightarrow> bytes" where
  "long_term_key pszUserName pszRealm pszPassword =
     (let str = (\<lambda>p. case p of None \<Rightarrow> [] | Some s \<Rightarrow> cstr s)
      in str pszUserName @ [58] @ str pszRealm @ [58] @ str pszPassword)"

definition AddMessageIntegrityLongTerm ::
  "(bytes \<Rightarrow> bytes \<Rightarrow> bytes) \<Rightarrow> (bytes \<Rightarrow> bytes) \<Rightarrow> bytes option \<Rightarrow> bytes option \<Rightarrow> bytes option \<Rightarrow>
   builder \<Rightarrow> hresult \<times> builder" where
  "AddMessageIntegrityLongTerm hmac md5 pszUserName pszRealm pszPassword b =
     (let key = long_term_key pszUserName pszRealm pszPassword
      in if MAX_STUN_AUTH_STRING_SIZE * 3 + 2 < length key then (E_INVALIDARG, b)
         else AddMessageIntegrityImpl hmac (Some (md5 key)) 16 b)"

definition GetResult :: "builder \<Rightarrow> hresult \<times> cbuffer option \<times> builder" where
  "GetResult b =
     (let (hr, b1) = FixLengthField b
      in if SUCCEEDED hr
         then (let (hr2, buf) = CDataStream_GetBuffer (mb_stream b1) in (hr2, buf, b1))
         else (hr, None, b1))"

definition GetStream :: "builder \<Rightarrow> datastream" where
  "GetStream b = mb_stream b"

end
