(* ===== verification/StunReader.thy ===== *)
theory StunReader
  imports StunUtils StunBuilder FastHash
begin

text \<open>
  \<open>src/stuncore/stunreader.h\<close>, \<open>stunreader.cpp\<close>: \<open>CStunMessageReader\<close>, the incremental parser.
  Bytes are appended to the reader's own stream; the header is parsed when its 20 bytes are there,
  the body when the length of the header is. Attributes are found by type in the hash table
  \<open>_mapAttributes\<close>.

  Output parameters are results: an optional value that is \<open>None\<close> when the method does not write
  it, and for addresses the address before and after. The parameter \<open>hmac\<close> stands for OpenSSL's
  HMAC-SHA1 of a key and the concatenation of all updates, \<open>md5\<close> for its \<open>MD5\<close>.
\<close>

datatype ReaderParseState = HeaderNotRead | HeaderValidated | BodyValidated | ParseError

record reader =
  rd_stream :: datastream
  rd_fAllowLegacyFormat :: bool
  rd_fMessageIsLegacyFormat :: bool
  rd_state :: ReaderParseState
  rd_mapAttributes :: "(u16, StunAttribute) fasthash"
  rd_indexFingerprint :: int
  rd_indexMessageIntegrity :: int
  rd_countAttributes :: int
  rd_transactionid :: StunTransactionId
  rd_msgTypeNormalized :: u16
  rd_msgClass :: StunMessageClass
  rd_msgLength :: u16

definition MAX_NUM_ATTRIBUTES :: nat where "MAX_NUM_ATTRIBUTES = 30"

definition Reader_Reset :: "reader \<Rightarrow> reader" where
  "Reader_Reset r =
     r\<lparr>rd_fAllowLegacyFormat := True, rd_fMessageIsLegacyFormat := False, rd_state := HeaderNotRead,
       rd_mapAttributes := FastHash_Reset (rd_mapAttributes r), rd_indexFingerprint := -1,
       rd_indexMessageIntegrity := -1, rd_countAttributes := 0,
       rd_transactionid := replicate STUN_TRANSACTION_ID_LENGTH 0, rd_msgTypeNormalized := 0xffff,
       rd_msgClass := StunMsgClassInvalidMessageClass, rd_msgLength := 0,
       rd_stream := CDataStream_Reset (rd_stream r)\<rparr>"

text \<open>The constructor builds the members and calls \<open>Reset\<close>, which sets every other field.\<close>

definition CStunMessageReader_new :: reader where
  "CStunMessageReader_new =
     Reader_Reset
       \<lparr>rd_stream = CDataStream_init, rd_fAllowLegacyFormat = False, rd_fMessageIsLegacyFormat = False,
        rd_state = HeaderNotRead, rd_mapAttributes = FastHash_new MAX_NUM_ATTRIBUTES 53, rd_indexFingerprint = 0,
        rd_indexMessageIntegrity = 0, rd_countAttributes = 0, rd_transactionid = StunTransactionId_zero,
        rd_msgTypeNormalized = 0, rd_msgClass = StunMsgClassRequest, rd_msgLength = 0\<rparr>"

definition SetAllowLegacyFormat :: "bool \<Rightarrow> reader \<Rightarrow> reader" where
  "SetAllowLegacyFormat f r = r\<lparr>rd_fAllowLegacyFormat := f\<rparr>"

definition IsMessageLegacyFormat :: "reader \<Rightarrow> bool" where
  "IsMessageLegacyFormat r = rd_fMessageIsLegacyFormat r"

definition HowManyBytesNeeded :: "reader \<Rightarrow> u16" where
  "HowManyBytesNeeded r =
     (let currentSize = int (CDataStream_GetSize (rd_stream r))
      in case rd_state r of
           HeaderNotRead \<Rightarrow> of_int (int STUN_HEADER_SIZE - currentSize)
         | HeaderValidated \<Rightarrow> of_int (int (unat (rd_msgLength r)) + int STUN_HEADER_SIZE - currentSize)
         | _ \<Rightarrow> 0)"

definition attr_lookup :: "u16 \<Rightarrow> reader \<Rightarrow> StunAttribute option" where
  "attr_lookup t r = FastHash_Lookup FastHash_Hash_u16 t (rd_mapAttributes r)"

text \<open>The memory behind the stream's raw pointer; empty for a NULL pointer.\<close>

definition reader_memory :: "reader \<Rightarrow> bytes" where
  "reader_memory r = (case CDataStream_GetDataPointerUnsafe (rd_stream r) of None \<Rightarrow> [] | Some d \<Rightarrow> d)"

definition attr_memory :: "StunAttribute \<Rightarrow> nat \<Rightarrow> nat \<Rightarrow> reader \<Rightarrow> bytes" where
  "attr_memory a off n r = bslice (unat (attr_offset a) + off) n (reader_memory r)"

definition HasFingerprintAttribute :: "reader \<Rightarrow> bool" where
  "HasFingerprintAttribute r \<longleftrightarrow> attr_lookup STUN_ATTRIBUTE_FINGERPRINT r \<noteq> None"

definition IsFingerprintAttributeValid :: "reader \<Rightarrow> bool" where
  "IsFingerprintAttributeValid r =
     (case attr_lookup STUN_ATTRIBUTE_FINGERPRINT r of
        None \<Rightarrow> False
      | Some pAttrib \<Rightarrow>
          (if attributeType pAttrib \<noteq> STUN_ATTRIBUTE_FINGERPRINT then False
           else if attr_size pAttrib \<noteq> 4 then False
           else if rd_state r \<noteq> BodyValidated then False
           else
             (let sz = CDataStream_GetSize (rd_stream r)
              in if sz < STUN_HEADER_SIZE then False
                 else if CDataStream_GetDataPointerUnsafe (rd_stream r) = None then False
                 else
                   (let computedValue = crc32 (take (sz - 8) (reader_memory r)) XOR STUN_FINGERPRINT_XOR;
                        readValue = ntohl (load32 (attr_memory pAttrib 0 4 r))
                    in readValue = computedValue))))"

definition HasMessageIntegrityAttribute :: "reader \<Rightarrow> bool" where
  "HasMessageIntegrityAttribute r \<longleftrightarrow> attr_lookup STUN_ATTRIBUTE_MESSAGEINTEGRITY r \<noteq> None"

text \<open>The chunk loop of \<open>ValidateMessageIntegrity\<close>: read 32 bits, feed them to the HMAC.\<close>

fun read_chunks :: "nat \<Rightarrow> bytes \<Rightarrow> datastream \<Rightarrow> hresult \<times> bytes" where
  "read_chunks 0 acc s = (S_OK, acc)"
| "read_chunks (Suc n) acc s =
     (let (hr, chunk32, s1) = CDataStream_ReadUint32 s
      in if FAILED hr then (hr, acc) else read_chunks n (acc @ mem32 chunk32) s1)"

definition ValidateMessageIntegrity ::
  "(bytes \<Rightarrow> bytes \<Rightarrow> bytes) \<Rightarrow> bytes option \<Rightarrow> nat \<Rightarrow> reader \<Rightarrow> hresult" where
  "ValidateMessageIntegrity hmac key keylength r =
     (let lastAttributeIndex = rd_countAttributes r - 1
      in if rd_state r \<noteq> BodyValidated then E_FAIL
         else if rd_countAttributes r = 0 then E_FAIL
         else if rd_indexMessageIntegrity r = -1 then E_FAIL
         else if key = None then E_INVALIDARG
         else if keylength = 0 then E_INVALIDARG
         else
           (case attr_lookup STUN_ATTRIBUTE_MESSAGEINTEGRITY r of
              None \<Rightarrow> E_FAIL
            | Some pAttribIntegrity \<Rightarrow>
                if attr_size pAttribIntegrity \<noteq> 20 then E_FAIL
                else if \<not> (rd_indexMessageIntegrity r = lastAttributeIndex \<or>
                           (rd_indexMessageIntegrity r = lastAttributeIndex - 1 \<and> rd_indexFingerprint r = lastAttributeIndex))
                  then E_FAIL
                else
                  (let fFingerprintAdjustment = (rd_indexMessageIntegrity r = lastAttributeIndex - 1);
                       stream = CDataStream_Attach (snd (CDataStream_GetBuffer (rd_stream r))) False CDataStream_init;
                       (hr, chunk16, stream) = CDataStream_ReadUint16 stream
                   in if FAILED hr then hr
                      else
                        (let acc = mem16 chunk16;
                             (hr, chunk16, stream) = CDataStream_ReadUint16 stream
                         in if FAILED hr then hr
                            else
                              (let chunk16 = (if fFingerprintAdjustment then htons (ntohs chunk16 - 8) else chunk16);
                                   acc = acc @ mem16 chunk16;
                                   len = unat (attr_offset pAttribIntegrity) - 4 - 4;
                                   (hr, acc) = read_chunks (len div 4) acc stream
                               in if FAILED hr then hr
                                  else
                                    (let hmaccomputed = hmac (take keylength (the key)) acc
                                     in if hmaccomputed = attr_memory pAttribIntegrity 0 20 r then S_OK else E_FAIL))))))"

definition ValidateMessageIntegrityShort :: "(bytes \<Rightarrow> bytes \<Rightarrow> bytes) \<Rightarrow> bytes \<Rightarrow> reader \<Rightarrow> hresult" where
  "ValidateMessageIntegrityShort hmac pszPassword = ValidateMessageIntegrity hmac (Some pszPassword) (strlen pszPassword)"

definition ValidateMessageIntegrityLong ::
  "(bytes \<Rightarrow> bytes \<Rightarrow> bytes) \<Rightarrow> (bytes \<Rightarrow> bytes) \<Rightarrow> bytes option \<Rightarrow> bytes option \<Rightarrow> bytes option \<Rightarrow> reader \<Rightarrow> hresult" where
  "ValidateMessageIntegrityLong hmac md5 pszUser pszRealm pszPassword r =
     (if rd_state r \<noteq> BodyValidated then E_FAIL
      else if CDataStream_GetDataPointerUnsafe (rd_stream r) = None then E_FAIL
      else ValidateMessageIntegrity hmac (Some (md5 (long_term_key pszUser pszRealm pszPassword))) 16 r)"

text \<open>\<open>GetAttributeByIndex\<close> may reindex the table; the \<open>int\<close> index is converted to \<open>size_t\<close>.\<close>

definition GetAttributeByIndex :: "int \<Rightarrow> reader \<Rightarrow> hresult \<times> StunAttribute option \<times> reader" where
  "GetAttributeByIndex index r =
     (let (pFound, t) = FastHash_LookupValueByIndex (nat (index mod int size_range)) (rd_mapAttributes r);
          r1 = r\<lparr>rd_mapAttributes := t\<rparr>
      in case pFound of None \<Rightarrow> (E_FAIL, None, r1) | Some a \<Rightarrow> (S_OK, Some a, r1))"

definition GetAttributeByType :: "u16 \<Rightarrow> reader \<Rightarrow> hresult \<times> StunAttribute option" where
  "GetAttributeByType t r = (case attr_lookup t r of None \<Rightarrow> (E_FAIL, None) | Some a \<Rightarrow> (S_OK, Some a))"

definition GetAttributeCount :: "reader \<Rightarrow> int" where
  "GetAttributeCount r = int (FastHash_Size (rd_mapAttributes r))"

definition GetResponsePort :: "reader \<Rightarrow> hresult \<times> u16 option" where
  "GetResponsePort r =
     (case attr_lookup STUN_ATTRIBUTE_RESPONSE_PORT r of
        None \<Rightarrow> (E_FAIL, None)
      | Some a \<Rightarrow>
          if attr_size a \<noteq> STUN_ATTRIBUTE_RESPONSE_PORT_SIZE then (E_UNEXPECTED, None)
          else if CDataStream_GetDataPointerUnsafe (rd_stream r) = None then (E_UNEXPECTED, None)
          else (S_OK, Some (ntohs (load16 (attr_memory a 0 2 r)))))"

definition GetChangeRequest :: "reader \<Rightarrow> hresult \<times> StunChangeRequestAttribute" where
  "GetChangeRequest r =
     (let none = \<lparr>fChangeIP = False, fChangePort = False\<rparr>
      in case attr_lookup STUN_ATTRIBUTE_CHANGEREQUEST r of
           None \<Rightarrow> (E_FAIL, none)
         | Some a \<Rightarrow>
             if attr_size a \<noteq> STUN_ATTRIBUTE_CHANGEREQUEST_SIZE then (E_UNEXPECTED, none)
             else if CDataStream_GetDataPointerUnsafe (rd_stream r) = None then (E_UNEXPECTED, none)
             else
               (let v = ntohl (load32 (attr_memory a 0 4 r))
                in (S_OK, \<lparr>fChangeIP = (v AND 0x0004 \<noteq> 0), fChangePort = (v AND 0x0002 \<noteq> 0)\<rparr>)))"

definition GetPaddingAttributeSize :: "reader \<Rightarrow> hresult \<times> u16" where
  "GetPaddingAttributeSize r =
     (case attr_lookup STUN_ATTRIBUTE_PADDING r of None \<Rightarrow> (E_FAIL, 0) | Some a \<Rightarrow> (S_OK, attr_size a))"

definition GetErrorCode :: "reader \<Rightarrow> hresult \<times> u16 option" where
  "GetErrorCode r =
     (case attr_lookup STUN_ATTRIBUTE_ERRORCODE r of
        None \<Rightarrow> (E_FAIL, None)
      | Some a \<Rightarrow>
          (let p = unat (attr_offset a) + 2;
               cl = reader_memory r ! p AND 0x07;
               num = reader_memory r ! (p + 1)
           in (S_OK, Some (ucast cl * 100 + ucast num))))"

definition GetAddressHelper :: "u16 \<Rightarrow> simple_sockaddr \<Rightarrow> reader \<Rightarrow> hresult \<times> simple_sockaddr" where
  "GetAddressHelper attribType pAddr r =
     (case attr_lookup attribType r of
        None \<Rightarrow> (E_FAIL, pAddr)
      | Some a \<Rightarrow>
          (let n = unat (attr_size a);
               (hr, res) = GetMappedAddress (attr_memory a 0 n r) n (Some pAddr)
           in (hr, the res)))"

definition Reader_GetMappedAddress :: "simple_sockaddr \<Rightarrow> reader \<Rightarrow> hresult \<times> simple_sockaddr" where
  "Reader_GetMappedAddress pAddr r = GetAddressHelper STUN_ATTRIBUTE_MAPPEDADDRESS pAddr r"

definition GetOtherAddress :: "simple_sockaddr \<Rightarrow> reader \<Rightarrow> hresult \<times> simple_sockaddr" where
  "GetOtherAddress pAddr r =
     (let (hr, pAddr) = GetAddressHelper STUN_ATTRIBUTE_OTHER_ADDRESS pAddr r
      in if FAILED hr then GetAddressHelper STUN_ATTRIBUTE_CHANGEDADDRESS pAddr r else (hr, pAddr))"

definition Reader_GetXorMappedAddress :: "simple_sockaddr \<Rightarrow> reader \<Rightarrow> hresult \<times> simple_sockaddr" where
  "Reader_GetXorMappedAddress pAddr r =
     (let (hr, pAddr) = GetAddressHelper STUN_ATTRIBUTE_XORMAPPEDADDRESS pAddr r;
          (hr, pAddr) = (if FAILED hr then GetAddressHelper STUN_ATTRIBUTE_XORMAPPEDADDRESS_OPTIONAL pAddr r else (hr, pAddr))
      in if SUCCEEDED hr then (hr, CSocketAddress_ApplyStunXorMap (rd_transactionid r) pAddr) else (hr, pAddr))"

definition GetResponseOriginAddress :: "simple_sockaddr \<Rightarrow> reader \<Rightarrow> hresult \<times> simple_sockaddr" where
  "GetResponseOriginAddress pAddr r =
     (let (hr, pAddr) = GetAddressHelper STUN_ATTRIBUTE_RESPONSE_ORIGIN pAddr r
      in if FAILED hr then GetAddressHelper STUN_ATTRIBUTE_SOURCEADDRESS pAddr r else (hr, pAddr))"

text \<open>The bytes written to \<open>pszValue\<close>, the terminator included.\<close>

definition GetStringAttributeByType :: "u16 \<Rightarrow> nat \<Rightarrow> reader \<Rightarrow> hresult \<times> bytes option" where
  "GetStringAttributeByType attribType sz r =
     (case attr_lookup attribType r of
        None \<Rightarrow> (E_INVALIDARG, None)
      | Some a \<Rightarrow>
          if sz \<le> unat (attr_size a) then (E_INVALIDARG, None)
          else (S_OK, Some (attr_memory a 0 (unat (attr_size a)) r @ [0])))"

text \<open>
  Reading the header, once its 20 bytes are in the stream: \<open>ReadHeader\<close> reads the three fields,
  \<open>AcceptHeader\<close> is the rest of the method, which checks and stores them.
\<close>

definition AcceptHeader :: "u16 \<Rightarrow> u16 \<Rightarrow> StunTransactionId \<Rightarrow> reader \<Rightarrow> hresult \<times> reader" where
  "AcceptHeader msgTypeNBO msgLengthNBO transID r =
     (let msgType = ntohs msgTypeNBO;
          msgLength = ntohs msgLengthNBO;
          cookie = ntohl (load32 (take 4 transID));
          r = r\<lparr>rd_fMessageIsLegacyFormat := (cookie \<noteq> STUN_COOKIE)\<rparr>;
          fHeaderValid = (msgType AND 0xc000 = 0 \<and> msgLength mod 4 = 0);
          fHeaderValid = (fHeaderValid \<and> (rd_fAllowLegacyFormat r \<or> \<not> rd_fMessageIsLegacyFormat r))
      in if \<not> fHeaderValid then (E_FAIL, r)
         else
           (let r = r\<lparr>rd_msgTypeNormalized :=
                         (msgType AND 0x000f) OR drop_bit 1 (msgType AND 0x00e0) OR drop_bit 2 (msgType AND 0x3E00),
                       rd_msgLength := msgLength, rd_transactionid := transID\<rparr>
            in if MAX_STUN_MESSAGE_SIZE < unat (rd_msgLength r) then (E_UNEXPECTED, r)
               else if STUN_IS_REQUEST msgType then (S_OK, r\<lparr>rd_msgClass := StunMsgClassRequest\<rparr>)
               else if STUN_IS_INDICATION msgType then (S_OK, r\<lparr>rd_msgClass := StunMsgClassIndication\<rparr>)
               else if STUN_IS_SUCCESS_RESP msgType then (S_OK, r\<lparr>rd_msgClass := StunMsgClassSuccessResponse\<rparr>)
               else if STUN_IS_ERR_RESP msgType then (S_OK, r\<lparr>rd_msgClass := StunMsgClassFailureResponse\<rparr>)
               else (E_FAIL, r\<lparr>rd_msgClass := StunMsgClassInvalidMessageClass\<rparr>)))"

definition ReadHeader :: "reader \<Rightarrow> hresult \<times> reader" where
  "ReadHeader r =
     (let (hr, s) = CDataStream_SeekDirect 0 (rd_stream r)
      in if FAILED hr then (hr, r\<lparr>rd_stream := s\<rparr>)
         else
           (let (hr, msgType, s) = CDataStream_ReadUint16 s
            in if FAILED hr then (hr, r\<lparr>rd_stream := s\<rparr>)
               else
                 (let (hr, msgLength, s) = CDataStream_ReadUint16 s
                  in if FAILED hr then (hr, r\<lparr>rd_stream := s\<rparr>)
                     else
                       (let (hr, transID, s) = CDataStream_Read STUN_TRANSACTION_ID_LENGTH s
                        in if FAILED hr then (hr, r\<lparr>rd_stream := s\<rparr>)
                           else AcceptHeader msgType msgLength transID (r\<lparr>rd_stream := s\<rparr>)))))"

text \<open>
  One round of the loop in \<open>ReadBody\<close>: the attribute's header, its entry in the table, the seek
  past its value and padding. The second result is what the round adds to \<open>bytesConsumed\<close>.
\<close>

definition StoreAttribute :: "StunAttribute \<Rightarrow> reader \<Rightarrow> hresult \<times> reader" where
  "StoreAttribute attrib r =
     (let t = attributeType attrib;
          (result, m) = FastHash_Insert FastHash_Hash_u16 t attrib (rd_mapAttributes r);
          r = r\<lparr>rd_mapAttributes := m\<rparr>
      in if \<not> 0 \<le> result then (E_FAIL, r)
         else
           (let r = (if t = STUN_ATTRIBUTE_FINGERPRINT then r\<lparr>rd_indexFingerprint := rd_countAttributes r\<rparr> else r);
                r = (if t = STUN_ATTRIBUTE_MESSAGEINTEGRITY then r\<lparr>rd_indexMessageIntegrity := rd_countAttributes r\<rparr> else r)
            in (S_OK, r\<lparr>rd_countAttributes := rd_countAttributes r + 1\<rparr>)))"

definition SkipValue :: "u16 \<Rightarrow> nat \<Rightarrow> datastream \<Rightarrow> hresult \<times> datastream" where
  "SkipValue attribLength paddingLength s =
     (let (hr, s) = CDataStream_SeekRelative (int (unat attribLength)) s
      in if FAILED hr then (hr, s)
         else if 0 < paddingLength then CDataStream_SeekRelative (int paddingLength) s else (hr, s))"

definition ReadAttribute :: "reader \<Rightarrow> hresult \<times> nat \<times> reader" where
  "ReadAttribute r =
     (let (hr, attribType, s) = CDataStream_ReadUint16 (rd_stream r)
      in if FAILED hr then (hr, 0, r\<lparr>rd_stream := s\<rparr>)
         else
           (let (hr, attribLength, s) = CDataStream_ReadUint16 s
            in if FAILED hr then (hr, 0, r\<lparr>rd_stream := s\<rparr>)
               else
                 (let attribOffset = of_nat (CDataStream_GetPos s);
                      attribType = ntohs attribType;
                      attribLength = ntohs attribLength;
                      paddingLength = (if attribLength mod 4 \<noteq> 0 then 4 - unat attribLength mod 4 else 0)
                  in if \<not> unat attribLength \<le> MAX_STUN_ATTRIBUTE_SIZE then (E_FAIL, 0, r\<lparr>rd_stream := s\<rparr>)
                     else
                       (let attrib = \<lparr>attributeType = attribType, attr_size = attribLength, attr_offset = attribOffset\<rparr>;
                            (hr, r) = StoreAttribute attrib (r\<lparr>rd_stream := s\<rparr>)
                        in if FAILED hr then (hr, 0, r)
                           else
                             (let (hr, s) = SkipValue attribLength paddingLength s; r = r\<lparr>rd_stream := s\<rparr>
                              in if FAILED hr then (hr, 0, r)
                                 else (hr, 2 + 2 + unat attribLength + paddingLength, r))))))"

lemma ReadAttribute_consumes: "ReadAttribute r = (hr, n, r') \<Longrightarrow> SUCCEEDED hr \<Longrightarrow> 4 \<le> n"
  by (auto simp: ReadAttribute_def Let_def split: prod.splits if_splits)

function ReadBody_loop :: "nat \<Rightarrow> nat \<Rightarrow> hresult \<Rightarrow> reader \<Rightarrow> nat \<times> reader" where
  "ReadBody_loop currentSize bytesConsumed hr r =
     (if SUCCEEDED hr \<and> bytesConsumed < currentSize
      then (case ReadAttribute r of
              (hr', n, r') \<Rightarrow>
                ReadBody_loop currentSize (if SUCCEEDED hr' then bytesConsumed + n else bytesConsumed) hr' r')
      else (bytesConsumed, r))"
  by auto

termination
  by (relation "measure (\<lambda>(cs, bc, hr, r). (if SUCCEEDED hr then 1 else 0) + (cs - bc))")
    (auto dest!: ReadAttribute_consumes [OF sym])

declare ReadBody_loop.simps [simp del]

definition ReadBody :: "reader \<Rightarrow> hresult \<times> reader" where
  "ReadBody r =
     (let currentSize = CDataStream_GetSize (rd_stream r);
          (hr, s) = CDataStream_SeekDirect STUN_HEADER_SIZE (rd_stream r);
          r = r\<lparr>rd_stream := s\<rparr>
      in if FAILED hr then (hr, r)
         else
           (let (bytesConsumed, r) = ReadBody_loop currentSize STUN_HEADER_SIZE hr r
            in (if bytesConsumed = currentSize then S_OK else E_FAIL, r)))"

text \<open>\<open>AddBytes\<close>: append, then one step per parse state; \<open>currentSize\<close> is the stream's size after the write.\<close>

definition AddBytes_header :: "nat \<Rightarrow> reader \<Rightarrow> reader" where
  "AddBytes_header currentSize r =
     (if rd_state r = HeaderNotRead \<and> STUN_HEADER_SIZE \<le> currentSize
      then (let (hr, r) = ReadHeader r;
                r = r\<lparr>rd_state := (if SUCCEEDED hr then HeaderValidated else ParseError)\<rparr>
            in if SUCCEEDED hr \<and> rd_msgLength r = 0 then r\<lparr>rd_state := BodyValidated\<rparr> else r)
      else r)"

definition AddBytes_body :: "nat \<Rightarrow> reader \<Rightarrow> reader" where
  "AddBytes_body currentSize r =
     (let total = unat (rd_msgLength r) + STUN_HEADER_SIZE
      in if rd_state r = HeaderValidated \<and> total \<le> currentSize
         then (if currentSize = total
               then (let (hr, r) = ReadBody r in r\<lparr>rd_state := (if SUCCEEDED hr then BodyValidated else ParseError)\<rparr>)
               else r\<lparr>rd_state := ParseError\<rparr>)
         else r)"

definition AddBytes_excess :: "nat \<Rightarrow> reader \<Rightarrow> reader" where
  "AddBytes_excess currentSize r =
     (if rd_state r = BodyValidated \<and> unat (rd_msgLength r) + STUN_HEADER_SIZE < currentSize
      then r\<lparr>rd_state := ParseError\<rparr> else r)"

definition AddBytes :: "bytes option \<Rightarrow> nat \<Rightarrow> reader \<Rightarrow> ReaderParseState \<times> reader" where
  "AddBytes pData n r =
     (if rd_state r = ParseError then (ParseError, r)
      else if n = 0 then (rd_state r, r)
      else
        (let s = snd (CDataStream_SeekDirect (CDataStream_GetSize (rd_stream r)) (rd_stream r));
             (hr, s) = CDataStream_Write pData n s;
             r = r\<lparr>rd_stream := s\<rparr>
         in if FAILED hr then (ParseError, r)
            else
              (let currentSize = CDataStream_GetSize (rd_stream r);
                   r = AddBytes_excess currentSize (AddBytes_body currentSize (AddBytes_header currentSize r))
               in (rd_state r, r))))"

definition Reader_GetState :: "reader \<Rightarrow> ReaderParseState" where
  "Reader_GetState r = rd_state r"

definition Reader_GetTransactionId :: "reader \<Rightarrow> StunTransactionId" where
  "Reader_GetTransactionId r = rd_transactionid r"

definition GetMessageClass :: "reader \<Rightarrow> StunMessageClass" where
  "GetMessageClass r = rd_msgClass r"

definition GetMessageType :: "reader \<Rightarrow> u16" where
  "GetMessageType r = rd_msgTypeNormalized r"

definition Reader_GetBuffer :: "reader \<Rightarrow> hresult \<times> cbuffer option" where
  "Reader_GetBuffer r = CDataStream_GetBuffer (rd_stream r)"

definition Reader_GetStream :: "reader \<Rightarrow> datastream" where
  "Reader_GetStream r = rd_stream r"

text \<open>The callers attach a buffer through the reference \<open>GetStream\<close> returns.\<close>

definition Reader_AttachStream :: "cbuffer option \<Rightarrow> bool \<Rightarrow> reader \<Rightarrow> reader" where
  "Reader_AttachStream buf fForWriting r = r\<lparr>rd_stream := CDataStream_Attach buf fForWriting (Reader_GetStream r)\<rparr>"

end
