(* ===== verification/ReaderCorrect.thy ===== *)
theory ReaderCorrect
  imports StunReader FastHashOps
begin

text \<open>
  The message format the reader accepts, as functions on byte strings, and the proof that the
  reader implements it. \<open>parse_attrs\<close> is the attribute list of a body, \<open>header_ok\<close> the header
  check, \<open>spec_state\<close> the state a message prefix leads to. \<open>reader_after allow bs r\<close> says that \<open>r\<close>
  is a reader that was given the bytes \<open>bs\<close>; \<open>AddBytes\<close> keeps it, in whatever pieces they come.
\<close>

section \<open>Reading integers from the stream\<close>

definition rd16 :: "bytes \<Rightarrow> u16" where
  "rd16 bs = ntohs (load16 bs)"

lemma rd16_be16 [simp]: "rd16 (be16 x) = x"
  by (simp add: rd16_def)

lemma ReadUint16_ok:
  assumes "wf_stream s" "ds_pos s + 2 \<le> length (stream_bytes s)" "length (stream_bytes s) < size_range"
  shows "CDataStream_ReadUint16 s = (S_OK, load16 (bslice (ds_pos s) 2 (stream_bytes s)), s\<lparr>ds_pos := ds_pos s + 2\<rparr>)"
  using Read_ok [OF assms(1,2)] assms(2,3) by (simp add: CDataStream_ReadUint16_def)

lemma ReadUint16_fail:
  assumes "wf_stream s" "length (stream_bytes s) < ds_pos s + 2" "ds_pos s + 2 < size_range"
  shows "CDataStream_ReadUint16 s = (E_INVALIDARG, load16 [], s)"
  using Read_fail [OF assms] by (simp add: CDataStream_ReadUint16_def)

section \<open>The attributes of a body\<close>

text \<open>Attributes start at offset \<open>off\<close> of the message; an attribute's own offset is that of its value.\<close>

function parse_attrs :: "nat \<Rightarrow> bytes \<Rightarrow> StunAttribute list option" where
  "parse_attrs off bs =
     (if bs = [] then Some []
      else if length bs < 4 then None
      else
        (let t = rd16 (take 2 bs); l = rd16 (bslice 2 2 bs); n = 4 + unat l + pad4 (unat l)
         in if 780 < unat l \<or> length bs < n then None
            else map_option (Cons \<lparr>attributeType = t, attr_size = l, attr_offset = of_nat (off + 4)\<rparr>)
                   (parse_attrs (off + n) (drop n bs))))"
  by auto
termination by (relation "measure (\<lambda>(off, bs). length bs)") auto

declare parse_attrs.simps [simp del]

text \<open>What the reader notes of an attribute besides moving on.\<close>

definition note_attribute :: "StunAttribute \<Rightarrow> reader \<Rightarrow> reader" where
  "note_attribute a r =
     (let t = attributeType a;
          r = r\<lparr>rd_mapAttributes := snd (FastHash_Insert FastHash_Hash_u16 t a (rd_mapAttributes r))\<rparr>;
          r = (if t = STUN_ATTRIBUTE_FINGERPRINT then r\<lparr>rd_indexFingerprint := rd_countAttributes r\<rparr> else r);
          r = (if t = STUN_ATTRIBUTE_MESSAGEINTEGRITY then r\<lparr>rd_indexMessageIntegrity := rd_countAttributes r\<rparr> else r)
      in r\<lparr>rd_countAttributes := rd_countAttributes r + 1\<rparr>)"

definition table_ok :: "reader \<Rightarrow> bool" where
  "table_ok r \<longleftrightarrow> fh_inv FastHash_Hash_u16 (rd_mapAttributes r) \<and> fh_fsize (rd_mapAttributes r) = MAX_NUM_ATTRIBUTES"

lemma note_attribute_frame [simp]:
  "rd_stream (note_attribute a r) = rd_stream r" "rd_state (note_attribute a r) = rd_state r"
  "rd_msgLength (note_attribute a r) = rd_msgLength r"
  "rd_mapAttributes (note_attribute a r) = snd (FastHash_Insert FastHash_Hash_u16 (attributeType a) a (rd_mapAttributes r))"
  by (simp_all add: note_attribute_def Let_def)

lemma note_attribute_update:
  "note_attribute a (r\<lparr>rd_stream := s\<rparr>) = (note_attribute a r)\<lparr>rd_stream := s\<rparr>"
  "note_attribute a (r\<lparr>rd_state := st\<rparr>) = (note_attribute a r)\<lparr>rd_state := st\<rparr>"
  by (simp_all add: note_attribute_def Let_def)

lemma table_ok_note:
  assumes "table_ok r" "fh_size (rd_mapAttributes r) < MAX_NUM_ATTRIBUTES"
  shows "table_ok (note_attribute a r)" "fh_size (rd_mapAttributes (note_attribute a r)) = Suc (fh_size (rd_mapAttributes r))"
  using FastHash_Insert_ok [OF _ _ refl, of FastHash_Hash_u16 "rd_mapAttributes r" "attributeType a" a] assms
  by (auto simp: table_ok_def)

definition attr_at :: "bytes \<Rightarrow> nat \<Rightarrow> StunAttribute" where
  "attr_at bs p = \<lparr>attributeType = rd16 (bslice p 2 bs), attr_size = rd16 (bslice (p + 2) 2 bs), attr_offset = of_nat (p + 4)\<rparr>"

definition attr_span :: "StunAttribute \<Rightarrow> nat" where
  "attr_span a = 4 + unat (attr_size a) + pad4 (unat (attr_size a))"

definition attr_fits :: "bytes \<Rightarrow> nat \<Rightarrow> bool" where
  "attr_fits bs p \<longleftrightarrow> p + 4 \<le> length bs \<and> unat (attr_size (attr_at bs p)) \<le> 780 \<and> p + attr_span (attr_at bs p) \<le> length bs"

lemma parse_attrs_step:
  assumes "p \<le> length bs"
  shows "parse_attrs p (drop p bs) =
    (if p = length bs then Some []
     else if attr_fits bs p then map_option (Cons (attr_at bs p)) (parse_attrs (p + attr_span (attr_at bs p)) (drop (p + attr_span (attr_at bs p)) bs))
     else None)"
proof -
  have b: "bslice 2 2 (drop p bs) = bslice (p + 2) 2 bs" "take 2 (drop p bs) = bslice p 2 bs"
    by (simp_all add: bslice_def add.commute)
  show ?thesis using assms
    by (subst parse_attrs.simps) (auto simp: b attr_fits_def attr_at_def attr_span_def Let_def add.commute add.left_commute)
qed

section \<open>One attribute\<close>

lemma padding_length: "(if l mod 4 \<noteq> 0 then 4 - unat l mod 4 else 0) = pad4 (unat l)" for l :: u16
proof -
  have "(l mod 4 = 0) = (unat l mod 4 = 0)" by (simp add: unat_eq_0 [symmetric] unat_mod)
  then show ?thesis by (simp add: pad4_def)
qed

lemma uint_unat_u16: "uint (l :: u16) = int (unat l)"
  by simp

lemma unat_u16_lt: "unat (l :: u16) < 65536"
  using unsigned_less [of l] by simp

text \<open>The first two reads of a round, and the seeks of its end.\<close>

definition header_read :: "reader \<Rightarrow> nat \<Rightarrow> bool" where
  "header_read r p \<longleftrightarrow> wf_stream (rd_stream r) \<and> ds_pos (rd_stream r) = p \<and> p \<le> length (stream_bytes (rd_stream r)) \<and>
     length (stream_bytes (rd_stream r)) < 65536"

lemma ReadAttribute_reads:
  assumes "header_read r p" "p + 4 \<le> length (stream_bytes (rd_stream r))"
  shows "CDataStream_ReadUint16 (rd_stream r) = (S_OK, load16 (bslice p 2 (stream_bytes (rd_stream r))), (rd_stream r)\<lparr>ds_pos := p + 2\<rparr>)"
    "CDataStream_ReadUint16 ((rd_stream r)\<lparr>ds_pos := p + 2\<rparr>) =
       (S_OK, load16 (bslice (p + 2) 2 (stream_bytes (rd_stream r))), (rd_stream r)\<lparr>ds_pos := p + 4\<rparr>)"
  using assms ReadUint16_ok [of "rd_stream r"] ReadUint16_ok [of "(rd_stream r)\<lparr>ds_pos := p + 2\<rparr>"]
  by (simp_all add: header_read_def size_range_def)

lemma SeekRelative_value:
  assumes "header_read r p" "q \<le> length (stream_bytes (rd_stream r))" and that: "k < 65536"
  shows "CDataStream_SeekRelative (int k) ((rd_stream r)\<lparr>ds_pos := q\<rparr>) =
    (if q + k \<le> length (stream_bytes (rd_stream r)) then (S_OK, (rd_stream r)\<lparr>ds_pos := q + k\<rparr>)
     else (E_FAIL, (rd_stream r)\<lparr>ds_pos := q\<rparr>))"
proof -
  let ?s = "(rd_stream r)\<lparr>ds_pos := q\<rparr>"
  have "CDataStream_SeekRelative (int k) ?s = CDataStream_SeekDirect (q + k) ?s"
    using SeekRelative_forward [of ?s k] assms that by (simp add: header_read_def size_range_def)
  moreover have "wf_stream ?s" using assms by (simp add: header_read_def)
  ultimately show ?thesis
    using SeekDirect_ok [of ?s "q + k"] SeekDirect_fail [of ?s "q + k"] by simp
qed

lemma Insert_room:
  assumes "table_ok r"
  shows "FastHash_Insert FastHash_Hash_u16 t a (rd_mapAttributes r) =
    (if fh_size (rd_mapAttributes r) < MAX_NUM_ATTRIBUTES
     then (1, snd (FastHash_Insert FastHash_Hash_u16 t a (rd_mapAttributes r))) else (-1, rd_mapAttributes r))"
  using assms FastHash_Insert_ok(1) [OF _ _ refl, of FastHash_Hash_u16 "rd_mapAttributes r" t a]
    fasthash.insert_full [of FastHash_Hash_u16 "rd_mapAttributes r" t a]
  by (auto simp: table_ok_def prod_eq_iff not_less)

lemma StoreAttribute_eq:
  assumes "table_ok r"
  shows "StoreAttribute a r = (if fh_size (rd_mapAttributes r) < MAX_NUM_ATTRIBUTES then (S_OK, note_attribute a r) else (E_FAIL, r))"
proof -
  obtain res m where ins: "FastHash_Insert FastHash_Hash_u16 (attributeType a) a (rd_mapAttributes r) = (res, m)"
    by (cases "FastHash_Insert FastHash_Hash_u16 (attributeType a) a (rd_mapAttributes r)")
  have "res = (if fh_size (rd_mapAttributes r) < MAX_NUM_ATTRIBUTES then 1 else -1)"
    "\<not> fh_size (rd_mapAttributes r) < MAX_NUM_ATTRIBUTES \<Longrightarrow> m = rd_mapAttributes r"
    using Insert_room [OF assms, of "attributeType a" a] unfolding ins by (auto split: if_splits)
  then show ?thesis
    unfolding StoreAttribute_def note_attribute_def Let_def ins prod.case snd_conv
    by (cases "fh_size (rd_mapAttributes r) < MAX_NUM_ATTRIBUTES") simp_all
qed

lemma SkipValue_eq:
  assumes hd: "header_read r p" and q: "q \<le> length (stream_bytes (rd_stream r))"
  shows "q + unat l + pad4 (unat l) \<le> length (stream_bytes (rd_stream r)) \<Longrightarrow>
      SkipValue l (pad4 (unat l)) ((rd_stream r)\<lparr>ds_pos := q\<rparr>) = (S_OK, (rd_stream r)\<lparr>ds_pos := q + unat l + pad4 (unat l)\<rparr>)"
    and "length (stream_bytes (rd_stream r)) < q + unat l + pad4 (unat l) \<Longrightarrow>
      \<not> SUCCEEDED (fst (SkipValue l (pad4 (unat l)) ((rd_stream r)\<lparr>ds_pos := q\<rparr>)))"
proof -
  have k: "pad4 (unat l) < 65536" using pad4_lt [of "unat l"] by simp
  note s1 = SeekRelative_value [OF hd q unat_u16_lt [of l]]
  have s2: "q + unat l \<le> length (stream_bytes (rd_stream r)) \<Longrightarrow>
      CDataStream_SeekRelative (int (pad4 (unat l))) ((rd_stream r)\<lparr>ds_pos := q + unat l\<rparr>) =
      (if q + unat l + pad4 (unat l) \<le> length (stream_bytes (rd_stream r)) then (S_OK, (rd_stream r)\<lparr>ds_pos := q + unat l + pad4 (unat l)\<rparr>)
       else (E_FAIL, (rd_stream r)\<lparr>ds_pos := q + unat l\<rparr>))"
    by (rule SeekRelative_value [OF hd _ k])
  show "SkipValue l (pad4 (unat l)) ((rd_stream r)\<lparr>ds_pos := q\<rparr>) = (S_OK, (rd_stream r)\<lparr>ds_pos := q + unat l + pad4 (unat l)\<rparr>)"
    if "q + unat l + pad4 (unat l) \<le> length (stream_bytes (rd_stream r))"
    unfolding SkipValue_def s1 using that s2 by auto
  show "\<not> SUCCEEDED (fst (SkipValue l (pad4 (unat l)) ((rd_stream r)\<lparr>ds_pos := q\<rparr>)))"
    if "length (stream_bytes (rd_stream r)) < q + unat l + pad4 (unat l)"
    unfolding SkipValue_def s1 using that s2 by auto
qed

lemma ReadAttribute_eq:
  assumes hd: "header_read r p" and bs: "stream_bytes (rd_stream r) = bs" and le: "p + 4 \<le> length bs"
  shows "ReadAttribute r =
    (let a = attr_at bs p; l = attr_size a; s = (rd_stream r)\<lparr>ds_pos := p + 4\<rparr>
     in if 780 < unat l then (E_FAIL, 0, r\<lparr>rd_stream := s\<rparr>)
        else (let (hr, r) = StoreAttribute a (r\<lparr>rd_stream := s\<rparr>)
              in if FAILED hr then (hr, 0, r)
                 else (let (hr, s) = SkipValue l (pad4 (unat l)) s; r = r\<lparr>rd_stream := s\<rparr>
                       in if FAILED hr then (hr, 0, r) else (hr, attr_span a, r))))"
proof -
  have reads: "CDataStream_ReadUint16 (rd_stream r) = (S_OK, load16 (bslice p 2 bs), (rd_stream r)\<lparr>ds_pos := p + 2\<rparr>)"
    "CDataStream_ReadUint16 ((rd_stream r)\<lparr>ds_pos := p + 2\<rparr>) = (S_OK, load16 (bslice (p + 2) 2 bs), (rd_stream r)\<lparr>ds_pos := p + 4\<rparr>)"
    using ReadAttribute_reads [OF hd] le bs by simp_all
  have pos: "CDataStream_GetPos ((rd_stream r)\<lparr>ds_pos := p + 4\<rparr>) = p + 4" by (simp add: CDataStream_GetPos_def)
  have ok: "FAILED S_OK = False" by simp
  have span: "2 + 2 + unat l + pad4 (unat l) = attr_span \<lparr>attributeType = t, attr_size = l, attr_offset = x\<rparr>" for t l x
    by (simp add: attr_span_def)
  show ?thesis
    unfolding ReadAttribute_def Let_def reads prod.case ok if_False padding_length pos MAX_STUN_ATTRIBUTE_SIZE_def
      attr_at_def rd16_def StunAttribute.simps not_le span [of _ "ntohs (load16 (bslice p 2 bs))" "of_nat (p + 4)"] ..
qed

lemma ReadAttribute_ok:
  assumes hd: "header_read r p" and bs: "stream_bytes (rd_stream r) = bs" and fits: "attr_fits bs p"
    and ok: "table_ok r" and room: "fh_size (rd_mapAttributes r) < MAX_NUM_ATTRIBUTES"
  shows "ReadAttribute r = (S_OK, attr_span (attr_at bs p),
     (note_attribute (attr_at bs p) r)\<lparr>rd_stream := (rd_stream r)\<lparr>ds_pos := p + attr_span (attr_at bs p)\<rparr>\<rparr>)"
proof -
  let ?a = "attr_at bs p"
  have le: "p + 4 \<le> length bs" "\<not> 780 < unat (attr_size ?a)" "p + attr_span ?a \<le> length bs" using fits by (auto simp: attr_fits_def)
  have store: "StoreAttribute ?a (r\<lparr>rd_stream := s\<rparr>) = (S_OK, (note_attribute ?a r)\<lparr>rd_stream := s\<rparr>)" for s
    using StoreAttribute_eq [of "r\<lparr>rd_stream := s\<rparr>" ?a] ok room by (simp add: table_ok_def note_attribute_update)
  have "SkipValue (attr_size ?a) (pad4 (unat (attr_size ?a))) ((rd_stream r)\<lparr>ds_pos := p + 4\<rparr>) = (S_OK, (rd_stream r)\<lparr>ds_pos := p + attr_span ?a\<rparr>)"
    using SkipValue_eq(1) [OF hd, of "p + 4" "attr_size ?a"] le bs by (simp add: attr_span_def add.assoc)
  then show ?thesis using le(2) by (simp add: ReadAttribute_eq [OF hd bs le(1)] Let_def store)
qed

lemma ReadAttribute_fail:
  assumes hd: "header_read r p" and bs: "stream_bytes (rd_stream r) = bs" and lt: "p < length bs" and ok: "table_ok r"
    and bad: "\<not> attr_fits bs p \<or> MAX_NUM_ATTRIBUTES \<le> fh_size (rd_mapAttributes r)"
  shows "\<not> SUCCEEDED (fst (ReadAttribute r))"
proof (cases "p + 4 \<le> length bs")
  case True
  let ?a = "attr_at bs p"
  have store: "StoreAttribute ?a (r\<lparr>rd_stream := s\<rparr>) =
      (if fh_size (rd_mapAttributes r) < MAX_NUM_ATTRIBUTES then (S_OK, (note_attribute ?a r)\<lparr>rd_stream := s\<rparr>) else (E_FAIL, r\<lparr>rd_stream := s\<rparr>))" for s
    using StoreAttribute_eq [of "r\<lparr>rd_stream := s\<rparr>" ?a] ok by (simp add: table_ok_def note_attribute_update)
  have "length bs < p + attr_span ?a \<Longrightarrow>
      \<not> SUCCEEDED (fst (SkipValue (attr_size ?a) (pad4 (unat (attr_size ?a))) ((rd_stream r)\<lparr>ds_pos := p + 4\<rparr>)))"
    using SkipValue_eq(2) [OF hd, of "p + 4" "attr_size ?a"] True bs by (simp add: attr_span_def add.assoc)
  then show ?thesis using bad True
    by (auto simp: ReadAttribute_eq [OF hd bs True] Let_def store attr_fits_def not_less split: prod.split)
next
  case False
  show ?thesis
  proof (cases "p + 2 \<le> length bs")
    case True
    then have "CDataStream_ReadUint16 (rd_stream r) = (S_OK, load16 (bslice p 2 bs), (rd_stream r)\<lparr>ds_pos := p + 2\<rparr>)"
      using ReadUint16_ok [of "rd_stream r"] hd bs by (simp add: header_read_def size_range_def)
    moreover have "CDataStream_ReadUint16 ((rd_stream r)\<lparr>ds_pos := p + 2\<rparr>) = (E_INVALIDARG, load16 [], (rd_stream r)\<lparr>ds_pos := p + 2\<rparr>)"
      using ReadUint16_fail [of "(rd_stream r)\<lparr>ds_pos := p + 2\<rparr>"] hd bs True False by (simp add: header_read_def size_range_def)
    ultimately show ?thesis by (simp add: ReadAttribute_def)
  next
    case no: False
    then have "CDataStream_ReadUint16 (rd_stream r) = (E_INVALIDARG, load16 [], rd_stream r)"
      using ReadUint16_fail [of "rd_stream r"] hd bs by (simp add: header_read_def size_range_def)
    then show ?thesis by (simp add: ReadAttribute_def)
  qed
qed

section \<open>The body\<close>

lemma note_fold_stream: "fold note_attribute as (r\<lparr>rd_stream := s\<rparr>) = (fold note_attribute as r)\<lparr>rd_stream := s\<rparr>"
  by (induction as arbitrary: r) (simp_all add: note_attribute_update)

lemma note_fold_state: "fold note_attribute as (r\<lparr>rd_state := st\<rparr>) = (fold note_attribute as r)\<lparr>rd_state := st\<rparr>"
  by (induction as arbitrary: r) (simp_all add: note_attribute_update)

lemma note_fold_frame [simp]: "rd_stream (fold note_attribute as r) = rd_stream r" "rd_state (fold note_attribute as r) = rd_state r"
  "rd_msgLength (fold note_attribute as r) = rd_msgLength r"
  by (induction as arbitrary: r) simp_all

lemma table_ok_stream [simp]: "table_ok (r\<lparr>rd_stream := s\<rparr>) = table_ok r" "table_ok (r\<lparr>rd_state := st\<rparr>) = table_ok r"
  by (simp_all add: table_ok_def)

lemma ReadBody_loop_ok:
  assumes "header_read r p" "stream_bytes (rd_stream r) = bs" "table_ok r" "SUCCEEDED hr"
    "parse_attrs p (drop p bs) = Some as" "fh_size (rd_mapAttributes r) + length as \<le> MAX_NUM_ATTRIBUTES"
  shows "ReadBody_loop (length bs) p hr r =
    (length bs, (fold note_attribute as r)\<lparr>rd_stream := (rd_stream r)\<lparr>ds_pos := length bs\<rparr>\<rparr>)"
  using assms
proof (induction as arbitrary: p r hr)
  case Nil
  have ple: "p \<le> length bs" using Nil.prems by (simp add: header_read_def)
  then have "p = length bs" using Nil.prems(5) by (auto simp: parse_attrs_step split: if_splits)
  then show ?case using Nil.prems by (auto simp: ReadBody_loop.simps header_read_def)
next
  case (Cons a as)
  have ple: "p \<le> length bs" using Cons.prems by (simp add: header_read_def)
  with Cons.prems(5) have p: "p \<noteq> length bs" "attr_fits bs p" "a = attr_at bs p"
    "parse_attrs (p + attr_span a) (drop (p + attr_span a) bs) = Some as"
    by (auto simp: parse_attrs_step split: if_splits)
  have room: "fh_size (rd_mapAttributes r) < MAX_NUM_ATTRIBUTES" using Cons.prems(6) by simp
  let ?r' = "(note_attribute a r)\<lparr>rd_stream := (rd_stream r)\<lparr>ds_pos := p + attr_span a\<rparr>\<rparr>"
  have step: "ReadAttribute r = (S_OK, attr_span a, ?r')"
    using ReadAttribute_ok [OF Cons.prems(1,2) p(2) Cons.prems(3) room] p(3) by simp
  have le: "p + attr_span a \<le> length bs" using p(2,3) by (simp add: attr_fits_def)
  have "header_read ?r' (p + attr_span a)" using Cons.prems(1,2) le by (simp add: header_read_def)
  moreover have "table_ok ?r'" "fh_size (rd_mapAttributes ?r') + length as \<le> MAX_NUM_ATTRIBUTES"
    using table_ok_note [OF Cons.prems(3) room, of a] Cons.prems(6) by simp_all
  ultimately have "ReadBody_loop (length bs) (p + attr_span a) S_OK ?r' =
      (length bs, (fold note_attribute as ?r')\<lparr>rd_stream := (rd_stream ?r')\<lparr>ds_pos := length bs\<rparr>\<rparr>)"
    using Cons.prems(2) p(4) by (intro Cons.IH) simp_all
  moreover have "p < length bs" using p(1) ple by simp
  ultimately show ?case using Cons.prems(4) step
    by (subst ReadBody_loop.simps) (simp add: note_fold_stream)
qed

lemma parse_attrs_count:
  "parse_attrs p (drop p bs) = Some as \<Longrightarrow> p \<le> length bs \<Longrightarrow> p + 4 * length as \<le> length bs"
proof (induction as arbitrary: p)
  case (Cons a as)
  then have p: "attr_fits bs p" "a = attr_at bs p"
    "parse_attrs (p + attr_span a) (drop (p + attr_span a) bs) = Some as"
    by (auto simp: parse_attrs_step split: if_splits)
  then have "p + attr_span a \<le> length bs" "4 \<le> attr_span a" by (auto simp: attr_fits_def attr_span_def)
  with Cons.IH [OF p(3)] show ?case by simp
qed simp

lemma ReadBody_loop_fail:
  assumes "header_read r p" "stream_bytes (rd_stream r) = bs" "table_ok r" "SUCCEEDED hr"
    "parse_attrs p (drop p bs) = None \<or>
     (\<exists>as. parse_attrs p (drop p bs) = Some as \<and> MAX_NUM_ATTRIBUTES < fh_size (rd_mapAttributes r) + length as)"
    "fh_size (rd_mapAttributes r) \<le> MAX_NUM_ATTRIBUTES"
  shows "fst (ReadBody_loop (length bs) p hr r) < length bs"
  using assms
proof (induction "length bs - p" arbitrary: p r hr rule: less_induct)
  case less
  have ple: "p \<le> length bs" using less.prems by (simp add: header_read_def)
  have "p \<noteq> length bs" using less.prems(5,6) parse_attrs_step [OF ple] by auto
  then have lt: "p < length bs" using ple by simp
  show ?case
  proof (cases "attr_fits bs p \<and> fh_size (rd_mapAttributes r) < MAX_NUM_ATTRIBUTES")
    case True
    define a where "a = attr_at bs p"
    let ?q = "p + attr_span a"
    let ?r' = "(note_attribute a r)\<lparr>rd_stream := (rd_stream r)\<lparr>ds_pos := ?q\<rparr>\<rparr>"
    have step: "ReadAttribute r = (S_OK, attr_span a, ?r')"
      using ReadAttribute_ok [OF less.prems(1,2) _ less.prems(3)] True by (simp add: a_def)
    have le: "?q \<le> length bs" "4 \<le> attr_span a" using True by (auto simp: attr_fits_def a_def attr_span_def)
    have hd: "header_read ?r' ?q" using less.prems(1,2) le by (simp add: header_read_def)
    have tb: "table_ok ?r'" "fh_size (rd_mapAttributes ?r') = Suc (fh_size (rd_mapAttributes r))"
      using table_ok_note [OF less.prems(3), of a] True by simp_all
    have bad: "parse_attrs ?q (drop ?q bs) = None \<or>
       (\<exists>as. parse_attrs ?q (drop ?q bs) = Some as \<and> MAX_NUM_ATTRIBUTES < fh_size (rd_mapAttributes ?r') + length as)"
      using less.prems(5) parse_attrs_step [OF ple] lt True tb(2) by (auto simp: a_def)
    have "length bs - ?q < length bs - p" using le lt by simp
    then have "fst (ReadBody_loop (length bs) ?q S_OK ?r') < length bs"
      using less.hyps [OF _ hd _ tb(1) _ bad, of S_OK] less.prems(2) tb(2) True by simp
    then show ?thesis using step lt less.prems(4) by (subst ReadBody_loop.simps) simp
  next
    case False
    then have "\<not> SUCCEEDED (fst (ReadAttribute r))"
      using ReadAttribute_fail [OF less.prems(1,2) lt less.prems(3)] less.prems(6) by auto
    then obtain hr' n r' where step: "ReadAttribute r = (hr', n, r')" "\<not> SUCCEEDED hr'" by (cases "ReadAttribute r") auto
    then show ?thesis using lt less.prems(4)
      by (subst ReadBody_loop.simps) (simp add: ReadBody_loop.simps)
  qed
qed

definition body_ok :: "bytes \<Rightarrow> bool" where
  "body_ok bs \<longleftrightarrow> (case parse_attrs 20 (drop 20 bs) of None \<Rightarrow> False | Some as \<Rightarrow> length as \<le> MAX_NUM_ATTRIBUTES)"

definition body_attrs :: "bytes \<Rightarrow> StunAttribute list" where
  "body_attrs bs = (case parse_attrs 20 (drop 20 bs) of None \<Rightarrow> [] | Some as \<Rightarrow> as)"

lemma ReadBody_eq:
  assumes wf: "wf_stream (rd_stream r)" and bs: "stream_bytes (rd_stream r) = bs" and len: "20 \<le> length bs" "length bs < 65536"
    and tb: "table_ok r" "fh_size (rd_mapAttributes r) = 0"
  shows "body_ok bs \<Longrightarrow> ReadBody r = (S_OK, (fold note_attribute (body_attrs bs) r)\<lparr>rd_stream := (rd_stream r)\<lparr>ds_pos := length bs\<rparr>\<rparr>)"
    and "\<not> body_ok bs \<Longrightarrow> fst (ReadBody r) = E_FAIL"
proof -
  let ?r = "r\<lparr>rd_stream := (rd_stream r)\<lparr>ds_pos := 20\<rparr>\<rparr>"
  have size: "CDataStream_GetSize (rd_stream r) = length bs" using length_stream_bytes [OF wf] bs by simp
  have seek: "CDataStream_SeekDirect 20 (rd_stream r) = (S_OK, (rd_stream r)\<lparr>ds_pos := 20\<rparr>)"
    using SeekDirect_ok [OF wf, of 20] bs len by simp
  have hd: "header_read ?r 20" using wf bs len by (simp add: header_read_def)
  have rb: "ReadBody r = (if fst (ReadBody_loop (length bs) 20 S_OK ?r) = length bs then S_OK else E_FAIL, snd (ReadBody_loop (length bs) 20 S_OK ?r))"
    by (simp add: ReadBody_def size seek Let_def STUN_HEADER_SIZE_def split: prod.split)
  show "ReadBody r = (S_OK, (fold note_attribute (body_attrs bs) r)\<lparr>rd_stream := (rd_stream r)\<lparr>ds_pos := length bs\<rparr>\<rparr>)" if ok: "body_ok bs"
  proof -
    obtain as where as: "parse_attrs 20 (drop 20 bs) = Some as" "length as \<le> MAX_NUM_ATTRIBUTES"
      using ok by (auto simp: body_ok_def split: option.splits)
    have "ReadBody_loop (length bs) 20 S_OK ?r = (length bs, (fold note_attribute as ?r)\<lparr>rd_stream := (rd_stream ?r)\<lparr>ds_pos := length bs\<rparr>\<rparr>)"
      using hd bs tb as by (intro ReadBody_loop_ok) simp_all
    then show ?thesis by (simp add: rb body_attrs_def as note_fold_stream)
  qed
  show "fst (ReadBody r) = E_FAIL" if bad: "\<not> body_ok bs"
  proof -
    have "fst (ReadBody_loop (length bs) 20 S_OK ?r) < length bs"
      using hd bs tb bad by (intro ReadBody_loop_fail) (auto simp: body_ok_def not_le split: option.splits)
    then show ?thesis by (simp add: rb)
  qed
qed

section \<open>The header\<close>

lemma nat16_cases: "n < (16::nat) \<Longrightarrow> n \<in> {0, 1, 2, 3, 4, 5, 6, 7, 8, 9, 10, 11, 12, 13, 14, 15}"
  by (auto simp: numeral_eq_Suc less_Suc_eq)

lemma class_bits: "t AND 0x0110 = (if bit t 4 then 0x10 else 0) OR (if bit t 8 then 0x100 else 0)" for t :: u16
proof (rule bit_word_eqI)
  fix n
  assume "n < LENGTH(16)"
  then have "n \<in> {0, 1, 2, 3, 4, 5, 6, 7, 8, 9, 10, 11, 12, 13, 14, 15}" using nat16_cases by simp
  then show "bit (t AND 0x0110) n = bit ((if bit t 4 then 0x10 else 0) OR (if bit t 8 then 0x100 else 0) :: u16) n"
    by (auto simp: bit_and_iff bit_or_iff)
qed

definition class_of :: "u16 \<Rightarrow> StunMessageClass" where
  "class_of t = (if bit t 8 then (if bit t 4 then StunMsgClassFailureResponse else StunMsgClassSuccessResponse)
                 else (if bit t 4 then StunMsgClassIndication else StunMsgClassRequest))"

lemma class_tests:
  "STUN_IS_REQUEST t \<longleftrightarrow> class_of t = StunMsgClassRequest" "STUN_IS_INDICATION t \<longleftrightarrow> class_of t = StunMsgClassIndication"
  "STUN_IS_SUCCESS_RESP t \<longleftrightarrow> class_of t = StunMsgClassSuccessResponse" "STUN_IS_ERR_RESP t \<longleftrightarrow> class_of t = StunMsgClassFailureResponse"
  by (auto simp: STUN_IS_REQUEST_def STUN_IS_INDICATION_def STUN_IS_SUCCESS_RESP_def STUN_IS_ERR_RESP_def class_bits class_of_def)

definition msg_type :: "bytes \<Rightarrow> u16" where "msg_type bs = rd16 (take 2 bs)"
definition msg_length :: "bytes \<Rightarrow> u16" where "msg_length bs = rd16 (bslice 2 2 bs)"
definition msg_transid :: "bytes \<Rightarrow> StunTransactionId" where "msg_transid bs = bslice 4 16 bs"
definition msg_cookie_ok :: "bytes \<Rightarrow> bool" where
  "msg_cookie_ok bs \<longleftrightarrow> ntohl (load32 (take 4 (msg_transid bs))) = STUN_COOKIE"

definition normalized_type :: "u16 \<Rightarrow> u16" where
  "normalized_type t = (t AND 0x000f) OR drop_bit 1 (t AND 0x00e0) OR drop_bit 2 (t AND 0x3E00)"

definition header_ok :: "bool \<Rightarrow> bytes \<Rightarrow> bool" where
  "header_ok allow bs \<longleftrightarrow> msg_type bs AND 0xc000 = 0 \<and> msg_length bs mod 4 = 0 \<and> (allow \<or> msg_cookie_ok bs) \<and>
     unat (msg_length bs) \<le> 800"

definition with_header :: "bytes \<Rightarrow> reader \<Rightarrow> reader" where
  "with_header bs r =
     r\<lparr>rd_fMessageIsLegacyFormat := \<not> msg_cookie_ok bs, rd_msgTypeNormalized := normalized_type (msg_type bs),
       rd_msgLength := msg_length bs, rd_transactionid := msg_transid bs, rd_msgClass := class_of (msg_type bs)\<rparr>"

lemma class_of_cases:
  "class_of t = StunMsgClassRequest \<or> class_of t = StunMsgClassIndication \<or>
   class_of t = StunMsgClassSuccessResponse \<or> class_of t = StunMsgClassFailureResponse"
  by (auto simp: class_of_def)

lemma AcceptHeader_eq:
  assumes "rd16 (bslice 2 2 bs) = ntohs l" "rd16 (take 2 bs) = ntohs t"
  shows "header_ok (rd_fAllowLegacyFormat r) bs \<Longrightarrow> AcceptHeader t l (msg_transid bs) r = (S_OK, with_header bs r)"
    and "\<not> header_ok (rd_fAllowLegacyFormat r) bs \<Longrightarrow> \<not> SUCCEEDED (fst (AcceptHeader t l (msg_transid bs) r))"
proof -
  have m: "ntohs t = msg_type bs" "ntohs l = msg_length bs" using assms by (simp_all add: msg_type_def msg_length_def)
  show "AcceptHeader t l (msg_transid bs) r = (S_OK, with_header bs r)" if h: "header_ok (rd_fAllowLegacyFormat r) bs"
    using h class_of_cases [of "msg_type bs"]
    unfolding AcceptHeader_def m Let_def msg_cookie_ok_def [symmetric] normalized_type_def [symmetric] class_tests
    by (auto simp: header_ok_def with_header_def MAX_STUN_MESSAGE_SIZE_def)
  show "\<not> SUCCEEDED (fst (AcceptHeader t l (msg_transid bs) r))" if "\<not> header_ok (rd_fAllowLegacyFormat r) bs"
    using that unfolding AcceptHeader_def m Let_def msg_cookie_ok_def [symmetric]
    by (auto simp: header_ok_def MAX_STUN_MESSAGE_SIZE_def)
qed

lemma ReadHeader_eq:
  assumes wf: "wf_stream (rd_stream r)" and bs: "stream_bytes (rd_stream r) = bs" and len: "20 \<le> length bs" "length bs < size_range"
  shows "header_ok (rd_fAllowLegacyFormat r) bs \<Longrightarrow>
      ReadHeader r = (S_OK, (with_header bs r)\<lparr>rd_stream := (rd_stream r)\<lparr>ds_pos := 20\<rparr>\<rparr>)"
    and "\<not> header_ok (rd_fAllowLegacyFormat r) bs \<Longrightarrow> \<not> SUCCEEDED (fst (ReadHeader r))"
proof -
  let ?s = "rd_stream r"
  have rng: "size_range = 4294967296" by (simp add: size_range_def)
  have s0: "CDataStream_SeekDirect 0 ?s = (S_OK, ?s\<lparr>ds_pos := 0\<rparr>)" using SeekDirect_ok [OF wf, of 0] by simp
  have s1: "CDataStream_ReadUint16 (?s\<lparr>ds_pos := 0\<rparr>) = (S_OK, load16 (take 2 bs), ?s\<lparr>ds_pos := 2\<rparr>)"
    using ReadUint16_ok [of "?s\<lparr>ds_pos := 0\<rparr>"] wf bs len by (simp add: bslice_def)
  have s2: "CDataStream_ReadUint16 (?s\<lparr>ds_pos := 2\<rparr>) = (S_OK, load16 (bslice 2 2 bs), ?s\<lparr>ds_pos := 4\<rparr>)"
    using ReadUint16_ok [of "?s\<lparr>ds_pos := 2\<rparr>"] wf bs len by simp
  have s3: "CDataStream_Read STUN_TRANSACTION_ID_LENGTH (?s\<lparr>ds_pos := 4\<rparr>) = (S_OK, msg_transid bs, ?s\<lparr>ds_pos := 20\<rparr>)"
    using Read_ok [of "?s\<lparr>ds_pos := 4\<rparr>" 16] wf bs len by (simp add: stun_consts rng msg_transid_def)
  have ok: "FAILED S_OK = False" by simp
  let ?r = "r\<lparr>rd_stream := ?s\<lparr>ds_pos := 20\<rparr>\<rparr>"
  have eq: "ReadHeader r = AcceptHeader (load16 (take 2 bs)) (load16 (bslice 2 2 bs)) (msg_transid bs) ?r"
    unfolding ReadHeader_def Let_def s0 s1 s2 s3 prod.case ok if_False ..
  have w: "with_header bs ?r = (with_header bs r)\<lparr>rd_stream := ?s\<lparr>ds_pos := 20\<rparr>\<rparr>" by (simp add: with_header_def)
  show "ReadHeader r = (S_OK, (with_header bs r)\<lparr>rd_stream := (rd_stream r)\<lparr>ds_pos := 20\<rparr>\<rparr>)"
    if "header_ok (rd_fAllowLegacyFormat r) bs"
    using AcceptHeader_eq(1) [of bs "load16 (bslice 2 2 bs)" "load16 (take 2 bs)" ?r] that unfolding eq by (simp add: rd16_def w)
  show "\<not> SUCCEEDED (fst (ReadHeader r))" if "\<not> header_ok (rd_fAllowLegacyFormat r) bs"
    using AcceptHeader_eq(2) [of bs "load16 (bslice 2 2 bs)" "load16 (take 2 bs)" ?r] that unfolding eq by (simp add: rd16_def)
qed

section \<open>Feeding a message\<close>

definition fresh_reader :: "bool \<Rightarrow> reader" where
  "fresh_reader allow = CStunMessageReader_new\<lparr>rd_fAllowLegacyFormat := allow\<rparr>"

text \<open>
  A blank reader: new, or reset. \<open>Reset\<close> empties the attribute table but leaves what its nodes held,
  so a reset reader differs from a new one in its table, by nothing a lookup can see.
\<close>

definition blank :: "bool \<Rightarrow> reader \<Rightarrow> bool" where
  "blank allow b \<longleftrightarrow> (\<exists>m. b = (fresh_reader allow)\<lparr>rd_mapAttributes := m\<rparr>) \<and> table_ok b \<and> fh_size (rd_mapAttributes b) = 0"

definition spec_state :: "bool \<Rightarrow> bytes \<Rightarrow> ReaderParseState" where
  "spec_state allow bs =
     (if length bs < 20 then HeaderNotRead
      else if \<not> header_ok allow bs then ParseError
      else if length bs < unat (msg_length bs) + 20 then HeaderValidated
      else if length bs = unat (msg_length bs) + 20 \<and> body_ok bs then BodyValidated
      else ParseError)"

text \<open>All the reader's fields but its stream and its state.\<close>

definition content :: "reader \<Rightarrow> reader" where
  "content r = r\<lparr>rd_stream := CDataStream_init, rd_state := HeaderNotRead\<rparr>"

definition spec_reader :: "reader \<Rightarrow> bool \<Rightarrow> bytes \<Rightarrow> reader" where
  "spec_reader b allow bs =
     (case spec_state allow bs of
        HeaderNotRead \<Rightarrow> b
      | HeaderValidated \<Rightarrow> with_header bs b
      | _ \<Rightarrow> fold note_attribute (body_attrs bs) (with_header bs b))"

definition reader_from :: "reader \<Rightarrow> bool \<Rightarrow> bytes \<Rightarrow> reader \<Rightarrow> bool" where
  "reader_from b allow bs r \<longleftrightarrow>
     rd_state r = spec_state allow bs \<and>
     (rd_state r \<noteq> ParseError \<longrightarrow>
        wf_stream (rd_stream r) \<and> stream_bytes (rd_stream r) = bs \<and> \<not> ds_fNoGrow (rd_stream r) \<and>
        content r = content (spec_reader b allow bs))"

text \<open>The reader after the text \<open>bs\<close>, whatever blank reader it started as.\<close>

definition reader_after :: "bool \<Rightarrow> bytes \<Rightarrow> reader \<Rightarrow> bool" where
  "reader_after allow bs r \<longleftrightarrow> (\<exists>b. blank allow b \<and> reader_from b allow bs r)"

lemma content_simps [simp]:
  "content (r\<lparr>rd_stream := s\<rparr>) = content r" "content (r\<lparr>rd_state := st\<rparr>) = content r"
  "content (with_header bs r) = with_header bs (content r)"
  "content (fold note_attribute as r) = fold note_attribute as (content r)"
  by (simp_all add: content_def with_header_def note_fold_stream note_fold_state)

lemma content_fields:
  "rd_fAllowLegacyFormat (content r) = rd_fAllowLegacyFormat r"
  "rd_msgLength (content r) = rd_msgLength r"
  "rd_mapAttributes (content r) = rd_mapAttributes r"
  "rd_transactionid (content r) = rd_transactionid r"
  "rd_msgClass (content r) = rd_msgClass r"
  "rd_countAttributes (content r) = rd_countAttributes r"
  "rd_indexFingerprint (content r) = rd_indexFingerprint r"
  "rd_indexMessageIntegrity (content r) = rd_indexMessageIntegrity r"
  "rd_msgTypeNormalized (content r) = rd_msgTypeNormalized r"
  "rd_fMessageIsLegacyFormat (content r) = rd_fMessageIsLegacyFormat r"
  by (simp_all add: content_def)

lemma content_eqD:
  assumes "content r = content r'"
  shows "rd_fAllowLegacyFormat r = rd_fAllowLegacyFormat r'"
    "rd_msgLength r = rd_msgLength r'"
    "rd_mapAttributes r = rd_mapAttributes r'"
    "rd_transactionid r = rd_transactionid r'"
    "rd_msgClass r = rd_msgClass r'"
    "rd_countAttributes r = rd_countAttributes r'"
    "rd_indexFingerprint r = rd_indexFingerprint r'"
    "rd_indexMessageIntegrity r = rd_indexMessageIntegrity r'"
    "rd_msgTypeNormalized r = rd_msgTypeNormalized r'"
    "rd_fMessageIsLegacyFormat r = rd_fMessageIsLegacyFormat r'"
  by (metis assms content_fields)+

lemma fresh_content [simp]: "content (fresh_reader allow) = fresh_reader allow"
  by (simp add: content_def fresh_reader_def CStunMessageReader_new_def Reader_Reset_def CDataStream_Reset_def CDataStream_init_def)

lemma fresh_table: "table_ok (fresh_reader allow)" "fh_size (rd_mapAttributes (fresh_reader allow)) = 0"
proof -
  let ?m = "FastHash_new MAX_NUM_ATTRIBUTES 53 :: (u16, StunAttribute) fasthash"
  have rep: "fh_rep FastHash_Hash_u16 ?m (\<lambda>_. []) [0 ..< MAX_NUM_ATTRIBUTES]"
    by (rule FastHash_new_rep) (simp_all add: MAX_NUM_ATTRIBUTES_def)
  have size: "fh_fsize ?m = MAX_NUM_ATTRIBUTES"
    by (rule FastHash_new_ok(4) [OF _ _ refl]) (simp_all add: MAX_NUM_ATTRIBUTES_def)
  have rep': "fh_rep FastHash_Hash_u16 (FastHash_Reset ?m) (\<lambda>_. []) [0 ..< MAX_NUM_ATTRIBUTES]"
    using Reset_rep [OF fh_shape_sized [OF fh_rep_shape [OF rep]], of FastHash_Hash_u16] size by simp
  have f: "rd_mapAttributes (fresh_reader allow) = FastHash_Reset ?m"
    by (simp add: fresh_reader_def CStunMessageReader_new_def Reader_Reset_def)
  show size0: "fh_size (rd_mapAttributes (fresh_reader allow)) = 0" using fh_rep_empty_size [OF rep'] f by simp
  show "table_ok (fresh_reader allow)" using rep' fh_rep_size [OF rep'] size0 f by (auto simp: table_ok_def fh_inv_def)
qed

lemma fresh_allow [simp]: "rd_fAllowLegacyFormat (fresh_reader allow) = allow"
  by (simp add: fresh_reader_def)

lemma fresh_blank: "blank allow (fresh_reader allow)"
proof -
  have "fresh_reader allow = (fresh_reader allow)\<lparr>rd_mapAttributes := rd_mapAttributes (fresh_reader allow)\<rparr>" by simp
  then show ?thesis using fresh_table unfolding blank_def by blast
qed

lemma blank_fields:
  assumes "blank allow b"
  shows "content b = b" "rd_fAllowLegacyFormat b = allow" "table_ok b" "fh_size (rd_mapAttributes b) = 0" "rd_countAttributes b = 0"
proof -
  obtain m where m: "b = (fresh_reader allow)\<lparr>rd_mapAttributes := m\<rparr>" using assms by (auto simp: blank_def)
  show "content b = b" "rd_fAllowLegacyFormat b = allow" "rd_countAttributes b = 0"
    unfolding m by (simp_all add: content_def fresh_reader_def CStunMessageReader_new_def Reader_Reset_def CDataStream_Reset_def CDataStream_init_def)
  show "table_ok b" "fh_size (rd_mapAttributes b) = 0" using assms by (simp_all add: blank_def)
qed

lemma with_header_table [simp]: "rd_mapAttributes (with_header bs r) = rd_mapAttributes r" "rd_msgLength (with_header bs r) = msg_length bs"
  "rd_stream (with_header bs r) = rd_stream r" "rd_state (with_header bs r) = rd_state r"
  by (simp_all add: with_header_def)

text \<open>The header's fields do not depend on what follows it.\<close>

lemma header_prefix:
  assumes "20 \<le> length bs"
  shows "msg_type (bs @ xs) = msg_type bs" "msg_length (bs @ xs) = msg_length bs" "msg_transid (bs @ xs) = msg_transid bs"
    "msg_cookie_ok (bs @ xs) = msg_cookie_ok bs" "header_ok allow (bs @ xs) = header_ok allow bs" "with_header (bs @ xs) r = with_header bs r"
proof -
  have "bslice 2 2 (bs @ xs) = bslice 2 2 bs" "bslice 4 16 (bs @ xs) = bslice 4 16 bs" "take 2 (bs @ xs) = take 2 bs"
    using assms by (simp_all add: bslice_append_left)
  then show t: "msg_type (bs @ xs) = msg_type bs" "msg_length (bs @ xs) = msg_length bs" "msg_transid (bs @ xs) = msg_transid bs"
    using assms by (simp_all add: msg_type_def msg_length_def msg_transid_def)
  then show c: "msg_cookie_ok (bs @ xs) = msg_cookie_ok bs" by (simp add: msg_cookie_ok_def)
  show "header_ok allow (bs @ xs) = header_ok allow bs" using t c by (simp add: header_ok_def)
  show "with_header (bs @ xs) r = with_header bs r" using t c by (simp add: with_header_def)
qed

text \<open>A prefix that is refused is refused however it goes on.\<close>

lemma spec_state_sticky: "spec_state allow bs = ParseError \<Longrightarrow> spec_state allow (bs @ xs) = ParseError"
proof -
  assume e: "spec_state allow bs = ParseError"
  then have len: "20 \<le> length bs" by (auto simp: spec_state_def split: if_splits)
  show ?thesis
    using e len by (cases xs) (auto simp: spec_state_def header_prefix split: if_splits)
qed

section \<open>AddBytes\<close>

lemma spec_reader_state:
  "spec_state allow bs = HeaderNotRead \<Longrightarrow> spec_reader b allow bs = b"
  "spec_state allow bs = HeaderValidated \<Longrightarrow> spec_reader b allow bs = with_header bs b"
  "spec_state allow bs = BodyValidated \<Longrightarrow> spec_reader b allow bs = fold note_attribute (body_attrs bs) (with_header bs b)"
  by (simp_all add: spec_reader_def)

text \<open>The stream of a reader in the middle of \<open>AddBytes\<close>.\<close>

definition stream_holds :: "bytes \<Rightarrow> reader \<Rightarrow> bool" where
  "stream_holds bs r \<longleftrightarrow> wf_stream (rd_stream r) \<and> stream_bytes (rd_stream r) = bs \<and> \<not> ds_fNoGrow (rd_stream r)"

lemma stream_holds_pos [simp]:
  "stream_holds bs r \<Longrightarrow> p \<le> length bs \<Longrightarrow> rd_stream r' = (rd_stream r)\<lparr>ds_pos := p\<rparr> \<Longrightarrow> stream_holds bs r'"
  by (simp add: stream_holds_def)

text \<open>The state after the header step.\<close>

definition header_state :: "bool \<Rightarrow> bytes \<Rightarrow> ReaderParseState" where
  "header_state allow bs =
     (if length bs < 20 then HeaderNotRead else if \<not> header_ok allow bs then ParseError
      else if msg_length bs = 0 then BodyValidated else HeaderValidated)"

lemma AddBytes_header_ok:
  assumes bl: "blank allow b" and st: "rd_state r = HeaderNotRead" and h: "stream_holds bs r" and c: "content r = b"
    and len: "length bs < size_range" and r': "r' = AddBytes_header (length bs) r"
  shows "rd_state r' = header_state allow bs"
    "rd_state r' \<noteq> ParseError \<Longrightarrow> stream_holds bs r' \<and> content r' = (if length bs < 20 then b else with_header bs b)"
proof -
  have allow: "rd_fAllowLegacyFormat r = allow" using content_fields(1) [of r] c blank_fields(2) [OF bl] by simp
  consider (short) "length bs < 20" | (ok) "20 \<le> length bs" "header_ok allow bs" | (bad) "20 \<le> length bs" "\<not> header_ok allow bs" by linarith
  then have "rd_state r' = header_state allow bs \<and>
    (rd_state r' \<noteq> ParseError \<longrightarrow> stream_holds bs r' \<and> content r' = (if length bs < 20 then b else with_header bs b))"
  proof cases
    case short
    then show ?thesis using st h c by (simp add: r' AddBytes_header_def header_state_def stun_consts)
  next
    case ok
    have rh: "ReadHeader r = (S_OK, (with_header bs r)\<lparr>rd_stream := (rd_stream r)\<lparr>ds_pos := 20\<rparr>\<rparr>)"
      using ReadHeader_eq(1) [of r bs] h ok len allow by (simp add: stream_holds_def)
    let ?st = "if msg_length bs = 0 then BodyValidated else HeaderValidated"
    have "r' = (with_header bs r)\<lparr>rd_stream := (rd_stream r)\<lparr>ds_pos := 20\<rparr>, rd_state := ?st\<rparr>"
      using st ok by (simp add: r' AddBytes_header_def rh stun_consts Let_def)
    then show ?thesis using h c ok by (simp add: header_state_def stream_holds_def)
  next
    case bad
    then have "\<not> SUCCEEDED (fst (ReadHeader r))" using ReadHeader_eq(2) [of r bs] h len allow by (simp add: stream_holds_def)
    then show ?thesis using st bad by (auto simp: r' AddBytes_header_def header_state_def stun_consts Let_def split: prod.split)
  qed
  then show "rd_state r' = header_state allow bs"
    "rd_state r' \<noteq> ParseError \<Longrightarrow> stream_holds bs r' \<and> content r' = (if length bs < 20 then b else with_header bs b)"
    by auto
qed

lemma AddBytes_header_skip: "rd_state r \<noteq> HeaderNotRead \<Longrightarrow> AddBytes_header n r = r"
  by (simp add: AddBytes_header_def)

lemma AddBytes_rest_skip:
  "rd_state r = HeaderNotRead \<or> rd_state r = ParseError \<Longrightarrow> AddBytes_excess n (AddBytes_body n r) = r"
  by (auto simp: AddBytes_body_def AddBytes_excess_def Let_def)

text \<open>The body step and the excess check, from a validated header on.\<close>

lemma AddBytes_rest_ok:
  assumes bl: "blank allow b" and st: "rd_state r = HeaderValidated" and h: "stream_holds bs r" and c: "content r = with_header bs b"
    and len: "20 \<le> length bs" "length bs < size_range" and ok: "header_ok allow bs"
  shows "reader_from b allow bs (AddBytes_excess (length bs) (AddBytes_body (length bs) r))"
proof -
  note [simp] = blank_fields(1) [OF bl]
  have ml: "rd_msgLength r = msg_length bs" using content_fields(2) [of r] c by simp
  have map: "rd_mapAttributes r = rd_mapAttributes b" using content_fields(3) [of r] c by simp
  have tb: "table_ok r" "fh_size (rd_mapAttributes r) = 0" using blank_fields(3,4) [OF bl] map by (simp_all add: table_ok_def)
  let ?total = "unat (msg_length bs) + 20"
  have small: "unat (msg_length bs) \<le> 800" using ok by (simp add: header_ok_def)
  consider (less) "length bs < ?total" | (eq) "length bs = ?total" "body_ok bs" | (bad) "length bs = ?total" "\<not> body_ok bs"
    | (more) "?total < length bs" by linarith
  then show ?thesis
  proof cases
    case less
    then have s: "spec_state allow bs = HeaderValidated" using len ok by (simp add: spec_state_def)
    have "AddBytes_excess (length bs) (AddBytes_body (length bs) r) = r"
      using less st ml by (simp add: AddBytes_body_def AddBytes_excess_def stun_consts)
    then show ?thesis using st s h c by (simp add: reader_from_def stream_holds_def spec_reader_state)
  next
    case eq
    then have s: "spec_state allow bs = BodyValidated" using len ok by (simp add: spec_state_def)
    have rb: "ReadBody r = (S_OK, (fold note_attribute (body_attrs bs) r)\<lparr>rd_stream := (rd_stream r)\<lparr>ds_pos := length bs\<rparr>\<rparr>)"
      using ReadBody_eq(1) [of r bs] h len tb eq small by (simp add: stream_holds_def)
    have "AddBytes_excess (length bs) (AddBytes_body (length bs) r) =
        (fold note_attribute (body_attrs bs) r)\<lparr>rd_stream := (rd_stream r)\<lparr>ds_pos := length bs\<rparr>, rd_state := BodyValidated\<rparr>"
      using eq st ml by (simp add: AddBytes_body_def AddBytes_excess_def stun_consts rb)
    then show ?thesis using s h c by (simp add: reader_from_def stream_holds_def spec_reader_state)
  next
    case bad
    then have s: "spec_state allow bs = ParseError" using len ok by (simp add: spec_state_def)
    have "fst (ReadBody r) = E_FAIL"
      using ReadBody_eq(2) [of r bs] h len tb bad small by (simp add: stream_holds_def)
    then have "rd_state (AddBytes_excess (length bs) (AddBytes_body (length bs) r)) = ParseError"
      using bad st ml by (cases "ReadBody r") (simp add: AddBytes_body_def AddBytes_excess_def stun_consts)
    then show ?thesis using s by (simp add: reader_from_def)
  next
    case more
    then have s: "spec_state allow bs = ParseError" using len ok by (simp add: spec_state_def)
    have "rd_state (AddBytes_excess (length bs) (AddBytes_body (length bs) r)) = ParseError"
      using more st ml by (simp add: AddBytes_body_def AddBytes_excess_def stun_consts)
    then show ?thesis using s by (simp add: reader_from_def)
  qed
qed

lemma AddBytes_write:
  assumes st: "rd_state r \<noteq> ParseError" and h: "stream_holds bs r" and ne: "xs \<noteq> []"
    and len: "length bs + length xs < size_range"
  obtains s' where "stream_holds (bs @ xs) (r\<lparr>rd_stream := s'\<rparr>)"
    "AddBytes (Some xs) (length xs) r =
      (let r' = AddBytes_excess (length (bs @ xs)) (AddBytes_body (length (bs @ xs)) (AddBytes_header (length (bs @ xs)) (r\<lparr>rd_stream := s'\<rparr>)))
       in (rd_state r', r'))"
proof -
  let ?s = "rd_stream r"
  have wf: "wf_stream ?s" and bs: "stream_bytes ?s = bs" and ng: "\<not> ds_fNoGrow ?s" using h by (auto simp: stream_holds_def)
  have size: "CDataStream_GetSize ?s = length bs" using length_stream_bytes [OF wf] bs by simp
  let ?e = "?s\<lparr>ds_pos := length bs\<rparr>"
  have seek: "CDataStream_SeekDirect (length bs) ?s = (S_OK, ?e)" using SeekDirect_ok [OF wf, of "length bs"] bs by simp
  have "append_room (length xs) ?e" using wf bs ng len by (simp add: append_room_def at_end_def stream_room_def)
  from sink.put_ext [OF this ne] obtain hr s' where w: "put_bytes xs ?e = (hr, s')" "SUCCEEDED hr" "appends xs ?e s'" by blast
  have bytes: "stream_bytes s' = bs @ xs" and wf': "wf_stream s'" and ng': "\<not> ds_fNoGrow s'"
    using w(3) bs ng by (auto simp: appends_def at_end_def)
  have size': "CDataStream_GetSize s' = length (bs @ xs)" using length_stream_bytes [OF wf'] bytes by simp
  have "AddBytes (Some xs) (length xs) r =
      (let r' = AddBytes_excess (length (bs @ xs)) (AddBytes_body (length (bs @ xs)) (AddBytes_header (length (bs @ xs)) (r\<lparr>rd_stream := s'\<rparr>)))
       in (rd_state r', r'))"
    using st ne w(1,2) unfolding AddBytes_def Let_def size seek by (simp add: put_bytes_def size')
  then show thesis using that bytes wf' ng' by (simp add: stream_holds_def)
qed

text \<open>The three steps from the first bytes on, with a message without attributes among the cases.\<close>

lemma empty_body: "length bs = 20 \<Longrightarrow> body_ok bs \<and> body_attrs bs = []"
proof -
  assume "length bs = 20"
  then have d: "drop 20 bs = []" by simp
  show ?thesis unfolding body_ok_def body_attrs_def d by (simp add: parse_attrs.simps MAX_NUM_ATTRIBUTES_def)
qed

lemma steps_empty_message:
  assumes bl: "blank allow b" and st: "rd_state r = BodyValidated" and h: "stream_holds bs r" and c: "content r = with_header bs b"
    and hd: "20 \<le> length bs" "header_ok allow bs" "msg_length bs = 0"
  shows "reader_from b allow bs (AddBytes_excess (length bs) (AddBytes_body (length bs) r))"
proof -
  note [simp] = blank_fields(1) [OF bl]
  have "rd_msgLength r = 0" using content_fields(2) [of r] c hd(3) by simp
  then have r2: "AddBytes_excess (length bs) (AddBytes_body (length bs) r) = (if 20 < length bs then r\<lparr>rd_state := ParseError\<rparr> else r)"
    using st by (simp add: AddBytes_body_def AddBytes_excess_def stun_consts Let_def)
  show ?thesis
  proof (cases "20 < length bs")
    case True
    then show ?thesis using hd r2 by (simp add: reader_from_def spec_state_def)
  next
    case False
    then have l20: "length bs = 20" using hd(1) by simp
    then have "spec_state allow bs = BodyValidated" "spec_reader b allow bs = with_header bs b"
      using hd empty_body [OF l20] by (simp_all add: spec_state_def spec_reader_def)
    then show ?thesis using st h c r2 False by (simp add: reader_from_def stream_holds_def)
  qed
qed

lemma steps_from_start:
  assumes bl: "blank allow b" and st: "rd_state r = HeaderNotRead" and h: "stream_holds bs r" and c: "content r = b"
    and len: "length bs < size_range"
  shows "reader_from b allow bs (AddBytes_excess (length bs) (AddBytes_body (length bs) (AddBytes_header (length bs) r)))"
proof -
  note [simp] = blank_fields(1) [OF bl]
  define r1 where "r1 = AddBytes_header (length bs) r"
  note hd = AddBytes_header_ok [OF bl st h c len r1_def]
  show ?thesis unfolding r1_def [symmetric]
  proof (cases "rd_state r1")
    case HeaderNotRead
    then have "length bs < 20" using hd(1) by (auto simp: header_state_def split: if_splits)
    then show "reader_from b allow bs (AddBytes_excess (length bs) (AddBytes_body (length bs) r1))"
      using hd(2) HeaderNotRead AddBytes_rest_skip [of r1 "length bs"]
      by (simp add: reader_from_def stream_holds_def spec_state_def spec_reader_def)
  next
    case ParseError
    then have "spec_state allow bs = ParseError" using hd(1) by (auto simp: header_state_def spec_state_def split: if_splits)
    then show "reader_from b allow bs (AddBytes_excess (length bs) (AddBytes_body (length bs) r1))"
      using ParseError AddBytes_rest_skip [of r1 "length bs"] by (simp add: reader_from_def)
  next
    case HeaderValidated
    then have "20 \<le> length bs" "header_ok allow bs" using hd(1) by (auto simp: header_state_def split: if_splits)
    then show "reader_from b allow bs (AddBytes_excess (length bs) (AddBytes_body (length bs) r1))"
      using hd(2) HeaderValidated len by (intro AddBytes_rest_ok [OF bl]) simp_all
  next
    case BodyValidated
    then have "20 \<le> length bs" "header_ok allow bs" "msg_length bs = 0" using hd(1) by (auto simp: header_state_def split: if_splits)
    then show "reader_from b allow bs (AddBytes_excess (length bs) (AddBytes_body (length bs) r1))"
      using hd(2) BodyValidated by (intro steps_empty_message [OF bl]) simp_all
  qed
qed

lemma AddBytes_from:
  assumes bl: "blank allow b" and ra: "reader_from b allow bs r" and len: "length bs + length xs < size_range"
  shows "fst (AddBytes (Some xs) (length xs) r) = spec_state allow (bs @ xs)"
    "reader_from b allow (bs @ xs) (snd (AddBytes (Some xs) (length xs) r))"
proof -
  note [simp] = blank_fields(1) [OF bl]
  have "fst (AddBytes (Some xs) (length xs) r) = rd_state (snd (AddBytes (Some xs) (length xs) r)) \<and>
    reader_from b allow (bs @ xs) (snd (AddBytes (Some xs) (length xs) r))"
  proof (cases "rd_state r = ParseError \<or> xs = []")
    case True
    then show ?thesis using ra spec_state_sticky [of allow bs xs] by (auto simp: AddBytes_def reader_from_def)
  next
    case False
    then have st: "rd_state r \<noteq> ParseError" and ne: "xs \<noteq> []" by auto
    have sp: "rd_state r = spec_state allow bs" and h: "stream_holds bs r" and c: "content r = content (spec_reader b allow bs)"
      using ra st by (auto simp: reader_from_def stream_holds_def)
    let ?bs = "bs @ xs"
    let ?steps = "\<lambda>r. AddBytes_excess (length ?bs) (AddBytes_body (length ?bs) (AddBytes_header (length ?bs) r))"
    obtain s' where w: "stream_holds ?bs (r\<lparr>rd_stream := s'\<rparr>)"
      "AddBytes (Some xs) (length xs) r = (let r' = ?steps (r\<lparr>rd_stream := s'\<rparr>) in (rd_state r', r'))"
      by (rule AddBytes_write [OF st h ne len])
    have range: "length ?bs < size_range" using len by simp
    have "reader_from b allow ?bs (?steps (r\<lparr>rd_stream := s'\<rparr>))"
    proof (cases "rd_state r")
      case HeaderNotRead
      then show ?thesis using c sp w(1) range by (intro steps_from_start [OF bl]) (simp_all add: spec_reader_state)
    next
      case HeaderValidated
      then have sv: "20 \<le> length bs" "header_ok allow bs" "spec_state allow bs = HeaderValidated"
        using sp by (auto simp: spec_state_def split: if_splits)
      then have "content (r\<lparr>rd_stream := s'\<rparr>) = with_header ?bs b" using c by (simp add: spec_reader_state header_prefix)
      then have "reader_from b allow ?bs (AddBytes_excess (length ?bs) (AddBytes_body (length ?bs) (r\<lparr>rd_stream := s'\<rparr>)))"
        using HeaderValidated w(1) range sv header_prefix(5) [OF sv(1)] by (intro AddBytes_rest_ok [OF bl]) simp_all
      then show ?thesis using HeaderValidated by (simp add: AddBytes_header_skip)
    next
      case BodyValidated
      then have sv: "20 \<le> length bs" "header_ok allow bs" "length bs = unat (msg_length bs) + 20" "spec_state allow bs = BodyValidated"
        using sp by (auto simp: spec_state_def split: if_splits)
      then have "rd_msgLength r = msg_length bs" using content_fields(2) [of r] c by (simp add: spec_reader_state)
      then have "rd_state (?steps (r\<lparr>rd_stream := s'\<rparr>)) = ParseError"
        using BodyValidated sv ne by (simp add: AddBytes_header_def AddBytes_body_def AddBytes_excess_def Let_def stun_consts)
      moreover have "spec_state allow ?bs = ParseError" using sv ne by (simp add: spec_state_def header_prefix)
      ultimately show ?thesis by (simp add: reader_from_def)
    qed (use st in simp)
    then show ?thesis using w(2) by (simp add: Let_def)
  qed
  then show "fst (AddBytes (Some xs) (length xs) r) = spec_state allow (bs @ xs)"
    "reader_from b allow (bs @ xs) (snd (AddBytes (Some xs) (length xs) r))" by (simp_all add: reader_from_def)
qed

lemma CDataStream_Reset_init: "CDataStream_Reset s = CDataStream_init"
  by (simp add: CDataStream_Reset_def CDataStream_init_def)

lemma AddBytes_ok:
  assumes ra: "reader_after allow bs r" and len: "length bs + length xs < size_range"
  shows "fst (AddBytes (Some xs) (length xs) r) = spec_state allow (bs @ xs)"
    "reader_after allow (bs @ xs) (snd (AddBytes (Some xs) (length xs) r))"
  using ra AddBytes_from [OF _ _ len] by (auto simp: reader_after_def)

lemma reader_after_state: "reader_after allow bs r \<Longrightarrow> rd_state r = spec_state allow bs"
  by (auto simp: reader_after_def reader_from_def)

lemma reader_after_stream: "reader_after allow bs r \<Longrightarrow> spec_state allow bs \<noteq> ParseError \<Longrightarrow> stream_holds bs r"
  by (auto simp: reader_after_def reader_from_def stream_holds_def)

lemma reader_after_content:
  assumes "reader_after allow bs r" "spec_state allow bs = BodyValidated"
  obtains b where "blank allow b" "content r = fold note_attribute (body_attrs bs) (with_header bs b)"
  using assms blank_fields(1) by (auto simp: reader_after_def reader_from_def spec_reader_state)

section \<open>New and reset readers\<close>

lemma start_from:
  assumes "blank allow b" "wf_stream s" "stream_bytes s = []" "\<not> ds_fNoGrow s"
  shows "reader_from b allow [] (b\<lparr>rd_stream := s\<rparr>)"
proof -
  obtain m where "b = (fresh_reader allow)\<lparr>rd_mapAttributes := m\<rparr>" using assms(1) by (auto simp: blank_def)
  then have "rd_state b = HeaderNotRead" by (simp add: fresh_reader_def CStunMessageReader_new_def Reader_Reset_def)
  then show ?thesis using assms by (simp add: reader_from_def spec_state_def spec_reader_def)
qed

lemma fresh_from: "reader_from (fresh_reader allow) allow [] (fresh_reader allow)"
  by (simp add: reader_from_def spec_state_def spec_reader_def)
    (simp add: fresh_reader_def CStunMessageReader_new_def Reader_Reset_def CDataStream_Reset_init, simp add: CDataStream_init_def)

lemma fresh_after: "reader_after allow [] (fresh_reader allow)"
  using fresh_blank fresh_from unfolding reader_after_def by blast

text \<open>\<open>Reset\<close> makes any reader blank whose table is in order, and the reader's own operations keep it in order.\<close>

lemma Reset_blank:
  assumes "table_ok r"
  shows "blank True (Reader_Reset r)"
proof -
  let ?m = "FastHash_Reset (rd_mapAttributes r)"
  obtain C F where rep: "fh_rep FastHash_Hash_u16 (rd_mapAttributes r) C F" using assms by (auto simp: table_ok_def fh_inv_def)
  have rep': "fh_rep FastHash_Hash_u16 ?m (\<lambda>_. []) [0 ..< MAX_NUM_ATTRIBUTES]"
    using Reset_rep [OF fh_shape_sized [OF fh_rep_shape [OF rep]], of FastHash_Hash_u16] assms by (simp add: table_ok_def)
  have sz: "fh_size ?m = 0" by (rule fh_rep_empty_size [OF rep'])
  then have inv: "fh_inv FastHash_Hash_u16 ?m" "fh_fsize ?m = MAX_NUM_ATTRIBUTES"
    using rep' fh_rep_size [OF rep'] by (auto simp: fh_inv_def)
  have "Reader_Reset r = (fresh_reader True)\<lparr>rd_mapAttributes := ?m\<rparr>"
    by (simp add: fresh_reader_def CStunMessageReader_new_def Reader_Reset_def CDataStream_Reset_init)
  then show ?thesis using sz inv unfolding blank_def by (auto simp: table_ok_def)
qed

lemma table_ok_map: "table_ok r \<Longrightarrow> rd_mapAttributes r' = rd_mapAttributes r \<Longrightarrow> table_ok r'"
  by (simp add: table_ok_def)

lemma table_ok_Store:
  assumes "table_ok r" "StoreAttribute a r = (hr, r')"
  shows "table_ok r'"
proof (cases "fh_size (rd_mapAttributes r) < MAX_NUM_ATTRIBUTES")
  case True
  then show ?thesis using assms FastHash_Insert_ok(2,5) [OF _ _ refl, of FastHash_Hash_u16 "rd_mapAttributes r" "attributeType a" a]
    by (auto simp: StoreAttribute_def table_ok_def Let_def split: prod.splits if_splits)
next
  case False
  then have "fh_freelist (rd_mapAttributes r) = None"
    using assms(1) by (intro fh_size_full_free [of FastHash_Hash_u16]) (simp_all add: table_ok_def)
  note full = FastHash_Insert_full [OF this]
  show ?thesis using assms by (auto simp: StoreAttribute_def table_ok_def Let_def full)
qed

lemma table_ok_ReadAttribute:
  assumes "table_ok r" "ReadAttribute r = (hr, n, r')"
  shows "table_ok r'"
  using assms table_ok_Store table_ok_stream
  by (auto simp: ReadAttribute_def Let_def split: prod.splits if_splits) (metis table_ok_stream)+

lemma table_ok_loop: "table_ok r \<Longrightarrow> table_ok (snd (ReadBody_loop cs n hr r))"
proof (induction cs n hr r rule: ReadBody_loop.induct)
  case (1 cs n hr r)
  then show ?case using table_ok_ReadAttribute [of r]
    by (subst ReadBody_loop.simps) (auto split: prod.split)
qed

lemma table_ok_AddBytes:
  assumes "table_ok r"
  shows "table_ok (snd (AddBytes d n r))"
proof -
  have header: "table_ok (AddBytes_header k x)" if "table_ok x" for k x
  proof -
    have "rd_mapAttributes (snd (ReadHeader x)) = rd_mapAttributes x"
      by (simp add: ReadHeader_def AcceptHeader_def Let_def split: prod.split)
    then show ?thesis using that by (auto simp: AddBytes_header_def Let_def table_ok_def split: prod.splits)
  qed
  have body: "table_ok (AddBytes_body k x)" if "table_ok x" for k x
  proof -
    have "table_ok (snd (ReadBody x))" using that table_ok_loop [of "x\<lparr>rd_stream := s\<rparr>" for s]
      by (auto simp: ReadBody_def Let_def split: prod.split) (metis snd_conv table_ok_stream)
    then show ?thesis using that by (auto simp: AddBytes_body_def Let_def table_ok_def split: prod.splits)
  qed
  have excess: "table_ok (AddBytes_excess k x)" if "table_ok x" for k x
    using that by (simp add: AddBytes_excess_def table_ok_def)
  show ?thesis using assms header body excess
    by (auto simp: AddBytes_def Let_def split: prod.split)
qed

text \<open>A whole message in any pieces.\<close>

fun feed :: "bytes list \<Rightarrow> reader \<Rightarrow> reader" where
  "feed [] r = r"
| "feed (xs # xss) r = feed xss (snd (AddBytes (Some xs) (length xs) r))"

lemma feed_from:
  "blank allow b \<Longrightarrow> reader_from b allow bs r \<Longrightarrow> length bs + length (concat xss) < size_range \<Longrightarrow>
   reader_from b allow (bs @ concat xss) (feed xss r)"
proof (induction xss arbitrary: bs r)
  case (Cons xs xss)
  have "reader_from b allow ((bs @ xs) @ concat xss) (feed xss (snd (AddBytes (Some xs) (length xs) r)))"
    using Cons.prems AddBytes_from(2) [OF Cons.prems(1,2), of xs] by (intro Cons.IH) auto
  then show ?case by simp
qed simp

lemma feed_ok:
  "reader_after allow bs r \<Longrightarrow> length bs + length (concat xss) < size_range \<Longrightarrow>
   reader_after allow (bs @ concat xss) (feed xss r)"
  using feed_from by (auto simp: reader_after_def)

lemma table_ok_feed: "table_ok r \<Longrightarrow> table_ok (feed xss r)"
  by (induction xss arbitrary: r) (simp_all add: table_ok_AddBytes)

section \<open>Progress of the parse states\<close>

text \<open>
  Progress of the incremental reader: the parse states are ordered, every \<open>AddBytes\<close> call moves up
  or stays, and the number \<open>HowManyBytesNeeded\<close> announces is the number of bytes to the next state.
\<close>

section \<open>The order of the parse states\<close>

fun parse_rank :: "ReaderParseState \<Rightarrow> nat" where
  "parse_rank HeaderNotRead = 0"
| "parse_rank HeaderValidated = 1"
| "parse_rank BodyValidated = 2"
| "parse_rank ParseError = 3"

lemma parse_rank_inject: "parse_rank s = parse_rank t \<Longrightarrow> s = t"
  by (cases s; cases t) simp_all

instantiation ReaderParseState :: linorder
begin

definition less_eq_ReaderParseState :: "ReaderParseState \<Rightarrow> ReaderParseState \<Rightarrow> bool" where
  "less_eq_ReaderParseState s t \<longleftrightarrow> parse_rank s \<le> parse_rank t"

definition less_ReaderParseState :: "ReaderParseState \<Rightarrow> ReaderParseState \<Rightarrow> bool" where
  "less_ReaderParseState s t \<longleftrightarrow> parse_rank s < parse_rank t"

instance
  by standard (auto simp: less_eq_ReaderParseState_def less_ReaderParseState_def intro: parse_rank_inject)

end

lemma parse_state_bounds [simp]: "HeaderNotRead \<le> s" "s \<le> ParseError"
  by (cases s; simp add: less_eq_ReaderParseState_def)+

lemma parse_state_order [simp]: "HeaderValidated \<le> BodyValidated" "HeaderValidated < BodyValidated" "HeaderNotRead < HeaderValidated"
  by (simp_all add: less_eq_ReaderParseState_def less_ReaderParseState_def)

section \<open>Every step moves up\<close>

lemma AddBytes_header_up: "rd_state r \<le> rd_state (AddBytes_header n r)"
  by (cases "rd_state r") (simp_all add: AddBytes_header_def)

lemma AddBytes_body_up: "rd_state r \<le> rd_state (AddBytes_body n r)"
  by (simp add: AddBytes_body_def Let_def split_beta)

lemma AddBytes_excess_up: "rd_state r \<le> rd_state (AddBytes_excess n r)"
  by (simp add: AddBytes_excess_def)

lemma AddBytes_steps_up: "rd_state r \<le> rd_state (AddBytes_excess m (AddBytes_body m (AddBytes_header m (r\<lparr>rd_stream := s\<rparr>))))"
  using AddBytes_header_up [of "r\<lparr>rd_stream := s\<rparr>" m] AddBytes_body_up [of "AddBytes_header m (r\<lparr>rd_stream := s\<rparr>)" m]
    AddBytes_excess_up [of "AddBytes_body m (AddBytes_header m (r\<lparr>rd_stream := s\<rparr>))" m] by simp

lemma AddBytes_up: "rd_state r \<le> fst (AddBytes d n r) \<and> rd_state r \<le> rd_state (snd (AddBytes d n r))"
  unfolding AddBytes_def Let_def split_beta using AddBytes_steps_up by simp

section \<open>The bytes to the next state\<close>

lemma unat_of_nat_u16: "n < 65536 \<Longrightarrow> unat (of_nat n :: u16) = n"
  by (simp add: unat_of_nat)

lemma needed_header:
  assumes "reader_after allow bs r" "rd_state r = HeaderNotRead"
  shows "unat (HowManyBytesNeeded r) = 20 - length bs" "length bs < 20"
proof -
  have s: "stream_bytes (rd_stream r) = bs" "wf_stream (rd_stream r)" "spec_state allow bs = HeaderNotRead"
    using reader_after_state [OF assms(1)] reader_after_stream [OF assms(1)] assms(2) by (simp_all add: stream_holds_def)
  then show len: "length bs < 20" by (auto simp: spec_state_def split: if_splits)
  have "CDataStream_GetSize (rd_stream r) = length bs" using length_stream_bytes [OF s(2)] s(1) by simp
  then have "HowManyBytesNeeded r = of_int (20 - int (length bs))" using assms(2) by (simp add: HowManyBytesNeeded_def stun_consts)
  also have "20 - int (length bs) = int (20 - length bs)" using len by simp
  finally have "HowManyBytesNeeded r = of_nat (20 - length bs)" by (simp only: of_int_of_nat_eq)
  moreover have "unat (of_nat (20 - length bs) :: u16) = 20 - length bs" by (rule unat_of_nat_u16) simp
  ultimately show "unat (HowManyBytesNeeded r) = 20 - length bs" by (simp only:)
qed

lemma needed_body:
  assumes "reader_after allow bs r" "rd_state r = HeaderValidated"
  shows "unat (HowManyBytesNeeded r) = unat (msg_length bs) + 20 - length bs" "20 \<le> length bs" "length bs < unat (msg_length bs) + 20"
    "header_ok allow bs"
proof -
  have s: "stream_bytes (rd_stream r) = bs" "wf_stream (rd_stream r)" "spec_state allow bs = HeaderValidated"
    "rd_msgLength r = msg_length bs"
  proof -
    show st: "spec_state allow bs = HeaderValidated" using reader_after_state [OF assms(1)] assms(2) by simp
    show "stream_bytes (rd_stream r) = bs" "wf_stream (rd_stream r)" using reader_after_stream [OF assms(1)] st by (simp_all add: stream_holds_def)
    show "rd_msgLength r = msg_length bs" using assms(1) st blank_fields(1) content_fields(2) [of r]
      by (auto simp: reader_after_def reader_from_def spec_reader_state)
  qed
  then show len: "20 \<le> length bs" "length bs < unat (msg_length bs) + 20" "header_ok allow bs" by (auto simp: spec_state_def split: if_splits)
  have size: "CDataStream_GetSize (rd_stream r) = length bs" using length_stream_bytes [OF s(2)] s(1) by simp
  note ml = s(4)
  have "HowManyBytesNeeded r = of_int (int (unat (msg_length bs)) + 20 - int (length bs))"
    using assms(2) size ml by (simp add: HowManyBytesNeeded_def stun_consts)
  also have "int (unat (msg_length bs)) + 20 - int (length bs) = int (unat (msg_length bs) + 20 - length bs)" using len by simp
  finally have "HowManyBytesNeeded r = of_nat (unat (msg_length bs) + 20 - length bs)" by (simp only: of_int_of_nat_eq)
  moreover have "unat (of_nat (unat (msg_length bs) + 20 - length bs) :: u16) = unat (msg_length bs) + 20 - length bs"
    using len by (intro unat_of_nat_u16) (auto simp: header_ok_def)
  ultimately show "unat (HowManyBytesNeeded r) = unat (msg_length bs) + 20 - length bs" by (simp only:)
qed

lemma needed_progress:
  assumes ra: "reader_after allow bs r" and st: "rd_state r = HeaderNotRead \<or> rd_state r = HeaderValidated"
  shows "spec_state allow (bs @ xs) = spec_state allow bs \<longleftrightarrow> length xs < unat (HowManyBytesNeeded r)"
  using st
proof
  assume h: "rd_state r = HeaderNotRead"
  have "spec_state allow bs = HeaderNotRead" using reader_after_state [OF ra] h by simp
  moreover have "spec_state allow (bs @ xs) = HeaderNotRead \<longleftrightarrow> length (bs @ xs) < 20" by (simp add: spec_state_def)
  ultimately show ?thesis using needed_header [OF ra h] by auto
next
  assume h: "rd_state r = HeaderValidated"
  note n = needed_body [OF ra h]
  have "spec_state allow bs = HeaderValidated" using reader_after_state [OF ra] h by simp
  moreover have "spec_state allow (bs @ xs) = HeaderValidated \<longleftrightarrow> length (bs @ xs) < unat (msg_length bs) + 20"
    using n header_prefix [OF n(2)] by (simp add: spec_state_def)
  ultimately show ?thesis using n by auto
qed

end
