(* ===== verification/BuilderCorrect.thy ===== *)
theory BuilderCorrect
  imports StunBuilder
begin

text \<open>
  What every method of the message builder appends to the stream. The builder is a byte sink like
  its stream (a second interpretation of \<open>byte_sink\<close>), so each method gets one lemma that names its
  bytes. \<open>attr_bytes\<close> is the wire image of one attribute; the lengths written into the headers are
  those of the data, or of the data and its padding in legacy mode.
\<close>

section \<open>The builder as a byte sink\<close>

definition builder_put :: "bytes \<Rightarrow> builder \<Rightarrow> hresult \<times> builder" where
  "builder_put xs = on_stream (put_bytes xs)"

definition builder_room :: "nat \<Rightarrow> builder \<Rightarrow> bool" where
  "builder_room n b \<longleftrightarrow> append_room n (mb_stream b)"

definition builder_ext :: "bytes \<Rightarrow> builder \<Rightarrow> builder \<Rightarrow> bool" where
  "builder_ext xs b b' \<longleftrightarrow> appends xs (mb_stream b) (mb_stream b') \<and>
     mb_transactionid b' = mb_transactionid b \<and> mb_fLegacyMode b' = mb_fLegacyMode b"

interpretation bsink: byte_sink builder_put builder_room builder_ext
proof
  fix xs :: bytes and b
  assume "builder_room (length xs) b" "xs \<noteq> []"
  then obtain hr s' where "put_bytes xs (mb_stream b) = (hr, s')" "SUCCEEDED hr" "appends xs (mb_stream b) s'"
    using sink.put_ext by (metis builder_room_def)
  then show "\<exists>hr s'. builder_put xs b = (hr, s') \<and> SUCCEEDED hr \<and> builder_ext xs b s'"
    by (auto simp: builder_put_def on_stream_def builder_ext_def)
qed (auto simp: builder_room_def builder_ext_def intro: sink.ext_refl sink.ext_trans sink.ext_room sink.room_mono)

lemma builder_put_Write: "builder_put xs = on_stream (CDataStream_Write (Some xs) (length xs))"
  by (simp add: builder_put_def put_bytes_def [abs_def])

lemma writes_bytes: "xs \<noteq> [] \<Longrightarrow> n = length xs \<Longrightarrow> bsink.writes (on_stream (CDataStream_Write (Some xs) n)) xs b"
  using bsink.writes_put [of xs b] by (simp add: builder_put_Write)

lemma CDataStream_Write_take: "CDataStream_Write (Some xs) n = CDataStream_Write (Some (take n xs)) n"
proof -
  have "take n (take n xs) = take n xs" by simp
  then show ?thesis unfolding CDataStream_Write_def [abs_def] option.case by (simp only:)
qed

lemma writes_prefix: "0 < n \<Longrightarrow> n \<le> length xs \<Longrightarrow> bsink.writes (on_stream (CDataStream_Write (Some xs) n)) (take n xs) b"
  by (subst CDataStream_Write_take) (rule writes_bytes, auto)

lemma writes_u8: "bsink.writes (on_stream (CDataStream_WriteUint8 v)) [v] b"
  unfolding CDataStream_WriteUint8_def by (rule writes_bytes) simp_all

lemma writes_u16: "bsink.writes (on_stream (CDataStream_WriteUint16 v)) (mem16 v) b"
  unfolding CDataStream_WriteUint16_def by (rule writes_bytes) (simp_all add: mem16_def)

lemma writes_i16: "bsink.writes (on_stream (CDataStream_WriteInt16 v)) (mem16 v) b"
  unfolding CDataStream_WriteInt16_def by (rule writes_bytes) (simp_all add: mem16_def)

lemma writes_u32: "bsink.writes (on_stream (CDataStream_WriteUint32 v)) (mem32 v) b"
  unfolding CDataStream_WriteUint32_def by (rule writes_bytes) (simp_all add: mem32_def)

lemma writes_htons: "bsink.writes (on_stream (CDataStream_WriteUint16 (htons v))) (be16 v) b"
  using writes_u16 [of "htons v"] by simp

lemmas builder_writes = writes_u8 writes_i16 writes_htons
lemmas runs_intros = bsink.runs_Chk bsink.runs_last

lemma AddAttributeHeader_writes: "bsink.writes (AddAttributeHeader t n) (be16 t @ be16 n) b"
  unfolding AddAttributeHeader_def by (intro bsink.writes_runs runs_intros writes_htons)

section \<open>Attributes\<close>

definition attr_bytes :: "bool \<Rightarrow> u16 \<Rightarrow> bytes \<Rightarrow> bytes" where
  "attr_bytes legacy t data =
     be16 t @ be16 (of_nat (if legacy then length data + attribute_padding (length data) else length data)) @
     data @ replicate (attribute_padding (length data)) 0"

lemma attribute_padding_eq: "attribute_padding n = pad4 n"
  by (simp add: attribute_padding_def pad4_def)

lemma attribute_padding_lt [simp]: "attribute_padding n < 4"
  by (simp add: attribute_padding_def)

lemma attribute_padding_0 [simp]: "n mod 4 = 0 \<Longrightarrow> attribute_padding n = 0"
  by (simp add: attribute_padding_def)

lemma length_attr_bytes: "length (attr_bytes legacy t data) = 4 + length data + pad4 (length data)"
  by (simp add: attr_bytes_def attribute_padding_eq)

lemma of_nat_unat_u16 [simp]: "(of_nat (unat n) :: u16) = n"
  by simp

lemma take_zeros: "take n (replicate m 0) = replicate (min n m) (0 :: u8)"
  by (simp add: min_def)

lemma writes_padding: "0 < n \<Longrightarrow> n \<le> 4 \<Longrightarrow> bsink.writes (on_stream (CDataStream_Write (Some (replicate 4 0)) n)) (replicate n 0) b"
  using writes_prefix [of n "replicate 4 0" b] by (simp add: take_zeros min_def)

text \<open>The two optional tails of the attribute writers: data, then padding.\<close>

lemma runs_opt_padding:
  assumes "n \<le> 4" "p \<longleftrightarrow> 0 < n"
  shows "bsink.runs [When (\<lambda>_. p) (Chk (on_stream (CDataStream_Write (Some (replicate 4 0)) n)))] (replicate n 0) b"
proof (cases "0 < n")
  case True
  then show ?thesis using assms by (intro bsink.runs_When runs_intros writes_padding) auto
next
  case False
  then show ?thesis using assms by (simp add: bsink.runs_skip bsink.runs_Nil)
qed

lemma runs_opt_Chk:
  assumes "p \<longleftrightarrow> xs \<noteq> []" "xs \<noteq> [] \<Longrightarrow> bsink.writes f xs b" "\<And>b'. bsink.runs cs ys b'"
  shows "bsink.runs (When (\<lambda>_. p) (Chk f) # cs) (xs @ ys) b"
  using assms by (cases "xs = []") (auto intro: bsink.runs_When bsink.runs_skip bsink.runs_Chk)

lemma runs_opt_Call:
  assumes "p \<longleftrightarrow> xs \<noteq> []" "xs \<noteq> [] \<Longrightarrow> bsink.writes f xs b" "\<And>b'. bsink.runs cs ys b'"
  shows "bsink.runs (When (\<lambda>_. p) (Call f) # cs) (xs @ ys) b"
  using assms by (cases "xs = []") (auto intro: bsink.runs_When bsink.runs_skip bsink.runs_Call)

lemma AddAttribute_writes:
  assumes n: "unat n \<le> length data"
  shows "bsink.writes (AddAttribute t (Some data) n) (attr_bytes (mb_fLegacyMode b) t (take (unat n) data)) b"
proof -
  let ?xs = "take (unat n) data" and ?pad = "attribute_padding (unat n)"
  have len: "length ?xs = unat n" using n by simp
  have hdr: "(if mb_fLegacyMode b then n + of_nat ?pad else n) =
      of_nat (if mb_fLegacyMode b then length ?xs + attribute_padding (length ?xs) else length ?xs)" unfolding len by simp
  have ne: "0 < n \<longleftrightarrow> ?xs \<noteq> []" using len by (metis length_greater_0_conv unat_gt_0 word_gt_0)
  have "bsink.runs
      [Chk (AddAttributeHeader t (if mb_fLegacyMode b then n + of_nat ?pad else n)),
       When (\<lambda>_. 0 < n) (Chk (on_stream (CDataStream_Write (Some data) (unat n)))),
       When (\<lambda>_. 0 < ?pad) (Chk (on_stream (CDataStream_Write (Some (replicate 4 0)) ?pad)))]
      ((be16 t @ be16 (if mb_fLegacyMode b then n + of_nat ?pad else n)) @ ?xs @ replicate ?pad 0) b"
  proof (intro bsink.runs_Chk runs_opt_Chk runs_opt_padding AddAttributeHeader_writes)
    show "0 < n \<longleftrightarrow> ?xs \<noteq> []" by (rule ne)
    show "bsink.writes (on_stream (CDataStream_Write (Some data) (unat n))) ?xs b'" if "?xs \<noteq> []" for b'
      using that ne n by (intro writes_prefix) (simp_all add: unat_gt_0 word_gt_0)
    show "?pad \<le> 4" by (intro less_imp_le attribute_padding_lt)
  qed simp
  then have "bsink.writes (run_cmds
      [Chk (AddAttributeHeader t (if mb_fLegacyMode b then n + of_nat ?pad else n)),
       When (\<lambda>_. 0 < n) (Chk (on_stream (CDataStream_Write (Some data) (unat n)))),
       When (\<lambda>_. 0 < ?pad) (Chk (on_stream (CDataStream_Write (Some (replicate 4 0)) ?pad)))] S_OK)
      (attr_bytes (mb_fLegacyMode b) t ?xs) b"
    unfolding hdr attr_bytes_def len by (intro bsink.writes_runs) simp
  then show ?thesis by (rule bsink.writes_cong [rotated]) (simp add: AddAttribute_def Let_def)
qed

lemma AddAttribute_whole:
  assumes "length data < 65536"
  shows "bsink.writes (AddAttribute t (Some data) (of_nat (length data))) (attr_bytes (mb_fLegacyMode b) t data) b"
proof -
  have "unat (of_nat (length data) :: u16) = length data" using assms by (simp add: unat_of_nat)
  then show ?thesis using AddAttribute_writes [of "of_nat (length data)" data t b] by simp
qed

lemma AddStringAttribute_writes:
  assumes "s \<noteq> []" "0 \<notin> set s" "length s < 65536"
  shows "bsink.writes (AddStringAttribute t (Some s)) (attr_bytes (mb_fLegacyMode b) t s) b"
  using AddAttribute_whole [OF assms(3), of t b] assms
  by (intro bsink.writes_cong [of "AddStringAttribute t (Some s)" _ "AddAttribute t (Some s) (of_nat (length s))"])
    (simp_all add: AddStringAttribute_def IsNullOrEmpty_def)

lemma AddStringAttribute_empty: "IsNullOrEmpty s \<Longrightarrow> AddStringAttribute t s b = (E_INVALIDARG, b)"
  by (simp add: AddStringAttribute_def)

text \<open>The value of an ERROR-CODE attribute: two reserved bytes, hundreds, rest, reason phrase.\<close>

definition error_value :: "u16 \<Rightarrow> bytes \<Rightarrow> bytes" where
  "error_value errorNumber reason = [0, 0, ucast (errorNumber div 100), ucast (errorNumber mod 100)] @ reason"

lemma mem16_0 [simp]: "mem16 0 = [0, 0]"
  by (simp add: mem16_def)

lemma AddErrorCode_writes:
  assumes range: "300 \<le> errorNumber" "errorNumber \<le> 600" and s: "0 \<notin> set s" "length s < 128"
  shows "bsink.writes (AddErrorCode errorNumber (Some s))
    (attr_bytes (mb_fLegacyMode b) STUN_ATTRIBUTE_ERRORCODE (error_value errorNumber s)) b"
proof -
  let ?n = "length s + 4" and ?v = "error_value errorNumber s"
  let ?pad = "attribute_padding ?n"
  let ?hdr = "if mb_fLegacyMode b then ?n + ?pad else ?n"
  have len: "length ?v = ?n" by (simp add: error_value_def)
  have "bsink.runs
      [ChkIf (\<lambda>_. 128 \<le> length s) E_INVALIDARG, ChkIf (\<lambda>_. errorNumber < 300) E_INVALIDARG,
       ChkIf (\<lambda>_. 600 < errorNumber) E_INVALIDARG,
       Chk (AddAttributeHeader STUN_ATTRIBUTE_ERRORCODE (of_nat ?hdr)),
       Chk (on_stream (CDataStream_WriteInt16 0)),
       Chk (on_stream (CDataStream_WriteUint8 (ucast (errorNumber div 100)))),
       Chk (on_stream (CDataStream_WriteUint8 (ucast (errorNumber mod 100)))),
       When (\<lambda>_. 0 < length s) (Call (on_stream (CDataStream_Write (Some s) (length s)))),
       When (\<lambda>_. 0 < ?pad) (Chk (on_stream (CDataStream_Write (Some (replicate 4 0)) ?pad)))]
      ((be16 STUN_ATTRIBUTE_ERRORCODE @ be16 (of_nat ?hdr)) @ mem16 0 @ [ucast (errorNumber div 100)] @
       [ucast (errorNumber mod 100)] @ s @ replicate ?pad 0) b"
    using range s
    by (intro bsink.runs_ChkIf bsink.runs_Chk runs_opt_Call runs_opt_padding AddAttributeHeader_writes builder_writes
        writes_bytes less_imp_le [OF attribute_padding_lt]) (simp_all add: not_less)
  then have "bsink.writes (run_cmds
      [ChkIf (\<lambda>_. 128 \<le> length s) E_INVALIDARG, ChkIf (\<lambda>_. errorNumber < 300) E_INVALIDARG,
       ChkIf (\<lambda>_. 600 < errorNumber) E_INVALIDARG,
       Chk (AddAttributeHeader STUN_ATTRIBUTE_ERRORCODE (of_nat ?hdr)),
       Chk (on_stream (CDataStream_WriteInt16 0)),
       Chk (on_stream (CDataStream_WriteUint8 (ucast (errorNumber div 100)))),
       Chk (on_stream (CDataStream_WriteUint8 (ucast (errorNumber mod 100)))),
       When (\<lambda>_. 0 < length s) (Call (on_stream (CDataStream_Write (Some s) (length s)))),
       When (\<lambda>_. 0 < ?pad) (Chk (on_stream (CDataStream_Write (Some (replicate 4 0)) ?pad)))] S_OK)
      (attr_bytes (mb_fLegacyMode b) STUN_ATTRIBUTE_ERRORCODE ?v) b"
    unfolding attr_bytes_def len by (intro bsink.writes_runs) (simp add: error_value_def)
  then show ?thesis
    by (rule bsink.writes_cong [rotated]) (use s in \<open>simp add: AddErrorCode_def Let_def attribute_padding_def cong: if_cong\<close>)
qed

lemma length_address_value: "wf_addr a \<Longrightarrow> length (address_value a) = (if sa_family a = AF_INET then 8 else 20)"
  by (auto simp: address_value_def wf_addr_def addr_ip_def)

lemma AddMappedAddressImpl_writes:
  assumes a: "wf_addr a"
  shows "bsink.writes (AddMappedAddressImpl t a) (attr_bytes legacy t (address_value a)) b"
proof -
  let ?fam = "if sa_family a = AF_INET then STUN_ATTRIBUTE_FIELD_IPV4 else STUN_ATTRIBUTE_FIELD_IPV6"
  let ?n = "(if sa_family a = AF_INET then 8 else 20) :: u16"
  have port: "mem16 (CSocketAddress_GetPort_NBO a) = sa_port a"
    using a by (simp add: CSocketAddress_GetPort_NBO_def mem16_load16 wf_addr_def)
  have ip: "CSocketAddress_GetIP_NBO STUN_IPV6_LENGTH a = addr_ip a" using a by (simp add: GetIP_NBO_eq stun_consts)
  have ne: "addr_ip a \<noteq> []" using length_addr_ip [OF a] by (auto simp: CSocketAddress_GetIPLength_def split: if_splits)
  have "bsink.runs
      [Chk (AddAttributeHeader t ?n), Chk (on_stream (CDataStream_WriteUint8 0)),
       Chk (on_stream (CDataStream_WriteUint8 ?fam)), Chk (on_stream (CDataStream_WriteUint16 (CSocketAddress_GetPort_NBO a))),
       Chk (on_stream (CDataStream_Write (Some (addr_ip a)) (length (addr_ip a))))]
      ((be16 t @ be16 ?n) @ [0] @ [?fam] @ mem16 (CSocketAddress_GetPort_NBO a) @ addr_ip a) b"
    using ne by (intro runs_intros AddAttributeHeader_writes builder_writes writes_u16 writes_bytes) simp_all
  moreover have "(be16 t @ be16 ?n) @ [0] @ [?fam] @ mem16 (CSocketAddress_GetPort_NBO a) @ addr_ip a =
      attr_bytes legacy t (address_value a)"
    using length_address_value [OF a] by (auto simp: attr_bytes_def port address_value_def)
  ultimately show ?thesis
    unfolding AddMappedAddressImpl_def Let_def ip CSocketAddress_GetFamily_def
    by (intro bsink.writes_runs) (auto simp: stun_consts split: if_splits)
qed

lemma AddXorMappedAddress_writes:
  assumes "wf_addr a" "wf_transid (mb_transactionid b)"
  shows "bsink.writes (AddXorMappedAddress a)
    (attr_bytes legacy (if mb_fLegacyMode b then STUN_ATTRIBUTE_XORMAPPEDADDRESS_OPTIONAL else STUN_ATTRIBUTE_XORMAPPEDADDRESS)
       (address_value (CSocketAddress_ApplyStunXorMap (mb_transactionid b) a))) b"
  by (rule bsink.writes_cong [OF _ AddMappedAddressImpl_writes]) (use assms in \<open>simp_all add: AddXorMappedAddress_def\<close>)

lemma AddMappedAddress_writes:
  "wf_addr a \<Longrightarrow> bsink.writes (AddMappedAddress a) (attr_bytes legacy STUN_ATTRIBUTE_MAPPEDADDRESS (address_value a)) b"
  unfolding AddMappedAddress_def by (rule AddMappedAddressImpl_writes)

lemma AddResponseOriginAddress_writes:
  "wf_addr a \<Longrightarrow> bsink.writes (AddResponseOriginAddress a)
     (attr_bytes legacy (if mb_fLegacyMode b then STUN_ATTRIBUTE_SOURCEADDRESS else STUN_ATTRIBUTE_RESPONSE_ORIGIN) (address_value a)) b"
  by (rule bsink.writes_cong [OF _ AddMappedAddressImpl_writes]) (simp_all add: AddResponseOriginAddress_def)

lemma AddOtherAddress_writes:
  "wf_addr a \<Longrightarrow> bsink.writes (AddOtherAddress a)
     (attr_bytes legacy (if mb_fLegacyMode b then STUN_ATTRIBUTE_CHANGEDADDRESS else STUN_ATTRIBUTE_OTHER_ADDRESS) (address_value a)) b"
  by (rule bsink.writes_cong [OF _ AddMappedAddressImpl_writes]) (simp_all add: AddOtherAddress_def)

lemma AddResponsePort_writes:
  "bsink.writes (AddResponsePort port) (attr_bytes (mb_fLegacyMode b) STUN_ATTRIBUTE_RESPONSE_PORT (be16 port)) b"
  using AddAttribute_whole [of "be16 port" STUN_ATTRIBUTE_RESPONSE_PORT b] by (simp add: AddResponsePort_def)

definition change_request_value :: "StunChangeRequestAttribute \<Rightarrow> bytes" where
  "change_request_value c = [0, 0, 0, (if fChangeIP c then 4 else 0) + (if fChangePort c then 2 else 0)]"

lemma AddChangeRequest_writes:
  "bsink.writes (AddChangeRequest c) (attr_bytes legacy STUN_ATTRIBUTE_CHANGEREQUEST (change_request_value c)) b"
proof -
  define d :: u32 where "d = (if fChangePort c then (if fChangeIP c then 4 else 0) OR 2 else if fChangeIP c then 4 else 0)"
  have v: "be32 d = change_request_value c"
    by (auto simp: be32_def change_request_value_def d_def)
  have "attr_bytes (mb_fLegacyMode b) STUN_ATTRIBUTE_CHANGEREQUEST (be32 d) = attr_bytes legacy STUN_ATTRIBUTE_CHANGEREQUEST (be32 d)"
    by (simp add: attr_bytes_def)
  moreover have "bsink.writes (AddAttribute STUN_ATTRIBUTE_CHANGEREQUEST (Some (be32 d)) 4)
      (attr_bytes (mb_fLegacyMode b) STUN_ATTRIBUTE_CHANGEREQUEST (be32 d)) b"
    using AddAttribute_whole [of "be32 d" STUN_ATTRIBUTE_CHANGEREQUEST b] by simp
  moreover have "AddChangeRequest c = AddAttribute STUN_ATTRIBUTE_CHANGEREQUEST (Some (be32 d)) 4"
    by (simp add: AddChangeRequest_def d_def)
  ultimately show ?thesis by (simp add: v)
qed

text \<open>
  UNKNOWN-ATTRIBUTES: the numbers go out in the host's byte order, and without padding unless in
  legacy mode, where the last one is repeated.
\<close>

definition unknown_value :: "bool \<Rightarrow> u16 list \<Rightarrow> bytes" where
  "unknown_value legacy xs = concat (map mem16 (if legacy \<and> odd (length xs) then xs @ [last xs] else xs))"

lemma length_concat_mem16 [simp]: "length (concat (map mem16 xs)) = 2 * length xs"
  by (induction xs) auto

lemma last_mem16: "xs \<noteq> [] \<Longrightarrow> bslice (2 * (length xs - 1)) 2 (concat (map mem16 xs)) = mem16 (last xs)"
  by (induction xs rule: rev_induct) (simp_all add: bslice_def)

lemma AddUnknownAttributes_writes:
  assumes ne: "xs \<noteq> []" and len: "length xs < 32767"
  shows "bsink.writes (AddUnknownAttributes (Some xs) (length xs))
    (be16 STUN_ATTRIBUTE_UNKNOWNATTRIBUTES @ be16 (of_nat (length (unknown_value (mb_fLegacyMode b) xs))) @
     unknown_value (mb_fLegacyMode b) xs) b"
proof -
  let ?mem = "concat (map mem16 xs)" and ?pad = "mb_fLegacyMode b \<and> odd (length xs)"
  let ?n = "of_nat (2 * length xs) :: u16"
  have n: "unat ?n = 2 * length xs" unfolding unat_of_nat using len by simp
  let ?tail = "if ?pad then mem16 (last xs) else []"
  have v: "unknown_value (mb_fLegacyMode b) xs = ?mem @ ?tail" using ne by (simp add: unknown_value_def)
  have hdr: "(if ?pad then ?n + 2 else ?n) = of_nat (length (unknown_value (mb_fLegacyMode b) xs))" by (simp add: v)
  have "bsink.runs
      [ChkIf (\<lambda>_. Some xs = None) E_INVALIDARG, ChkIf (\<lambda>_. length xs \<le> 0) E_INVALIDARG,
       Chk (AddAttributeHeader STUN_ATTRIBUTE_UNKNOWNATTRIBUTES (if ?pad then ?n + 2 else ?n)),
       Chk (on_stream (CDataStream_Write (Some ?mem) (unat ?n))),
       When (\<lambda>_. ?pad) (Call (on_stream (CDataStream_Write (Some (bslice (2 * (length xs - 1)) 2 ?mem)) 2)))]
      ((be16 STUN_ATTRIBUTE_UNKNOWNATTRIBUTES @ be16 (if ?pad then ?n + 2 else ?n)) @ ?mem @ ?tail @ []) b"
  proof (intro bsink.runs_ChkIf bsink.runs_Chk runs_opt_Call AddAttributeHeader_writes bsink.runs_Nil)
    show "bsink.writes (on_stream (CDataStream_Write (Some ?mem) (unat ?n))) ?mem b'" for b'
      using n ne by (intro writes_bytes) (auto simp: mem16_def)
    show "bsink.writes (on_stream (CDataStream_Write (Some (bslice (2 * (length xs - 1)) 2 ?mem)) 2)) ?tail b'"
      if "?tail \<noteq> []" for b'
      using that last_mem16 [OF ne] writes_bytes [of "mem16 (last xs)" 2 b'] by (auto split: if_splits)
  qed (use ne in \<open>simp_all add: mem16_def\<close>)
  then have "bsink.writes (run_cmds
      [ChkIf (\<lambda>_. Some xs = None) E_INVALIDARG, ChkIf (\<lambda>_. length xs \<le> 0) E_INVALIDARG,
       Chk (AddAttributeHeader STUN_ATTRIBUTE_UNKNOWNATTRIBUTES (if ?pad then ?n + 2 else ?n)),
       Chk (on_stream (CDataStream_Write (Some ?mem) (unat ?n))),
       When (\<lambda>_. ?pad) (Call (on_stream (CDataStream_Write (Some (bslice (2 * (length xs - 1)) 2 ?mem)) 2)))] S_OK)
      (be16 STUN_ATTRIBUTE_UNKNOWNATTRIBUTES @ be16 (of_nat (length (unknown_value (mb_fLegacyMode b) xs))) @
       unknown_value (mb_fLegacyMode b) xs) b"
    unfolding hdr by (intro bsink.writes_runs) (simp add: v)
  then show ?thesis by (rule bsink.writes_cong [rotated]) (simp add: AddUnknownAttributes_def Let_def)
qed

section \<open>Padding\<close>

lemma padding_loop_writes: "bsink.writes (padding_loop n) (replicate n 0) b"
proof (induction n arbitrary: b rule: less_induct)
  case (less n)
  show ?case
  proof (cases "n = 0")
    case True
    then show ?thesis using bsink.writes_runs [OF bsink.runs_Nil] by (simp add: bsink.writes_def padding_loop.simps)
  next
    case False
    define blk where "blk = (if 128 \<le> n then 128 else n)"
    have blk: "0 < blk" "blk \<le> 128" "blk \<le> n" using False by (auto simp: blk_def)
    have w: "bsink.writes (on_stream (CDataStream_Write (Some (replicate 128 0)) blk)) (replicate blk 0) b" for b
      using writes_prefix [of blk "replicate 128 0" b] blk by (simp add: take_zeros min_def split: if_splits)
    have "bsink.runs [Chk (on_stream (CDataStream_Write (Some (replicate 128 0)) blk)), Chk (padding_loop (n - blk))]
        (replicate blk 0 @ replicate (n - blk) 0) b"
      using blk less.IH [of "n - blk"] by (intro runs_intros w) auto
    then have "bsink.writes (run_cmds [Chk (on_stream (CDataStream_Write (Some (replicate 128 0)) blk)), Chk (padding_loop (n - blk))] S_OK)
        (replicate n 0) b"
      using blk by (intro bsink.writes_runs) (simp flip: replicate_add)
    then show ?thesis
      by (rule bsink.writes_cong [rotated])
        (use False in \<open>simp add: padding_loop.simps [of n] cmd_simps blk_def [symmetric] Let_def split: prod.splits\<close>)
  qed
qed

lemma AddPaddingAttribute_writes:
  assumes "unat n \<le> 65532"
  shows "bsink.writes (AddPaddingAttribute n) (attr_bytes legacy STUN_ATTRIBUTE_PADDING (replicate (unat n + pad4 (unat n)) 0)) b"
proof -
  define m where "m = (if n mod 4 \<noteq> 0 then n + 4 - n mod 4 else n)"
  have mod: "unat (n mod 4) = unat n mod 4" by (simp add: unat_mod)
  have nm: "(n mod 4 = 0) = (unat n mod 4 = 0)" by (metis mod unat_eq_0)
  have m: "unat m = unat n + pad4 (unat n)"
  proof (cases "n mod 4 = 0")
    case True
    then show ?thesis using nm by (simp add: m_def pad4_def)
  next
    case False
    have lt: "unat n mod 4 < 4" "0 < unat n mod 4" using False nm by auto
    have "m = of_nat (unat n + (4 - unat n mod 4))"
      using False lt mod by (simp add: m_def of_nat_diff) (metis of_nat_unat_u16 mod)
    moreover have "unat n + (4 - unat n mod 4) < 65536" using assms lt by presburger
    ultimately have "unat m = unat n + (4 - unat n mod 4)" by (simp only: unat_of_nat) simp
    then show ?thesis using False nm by (simp add: pad4_def)
  qed
  have four: "(unat n + pad4 (unat n)) mod 4 = 0" using pad4_dvd [of "unat n"] by auto
  have "bsink.runs [Chk (AddAttributeHeader STUN_ATTRIBUTE_PADDING m), Chk (padding_loop (unat m))]
      ((be16 STUN_ATTRIBUTE_PADDING @ be16 m) @ replicate (unat m) 0) b"
    by (intro runs_intros AddAttributeHeader_writes padding_loop_writes)
  then have "bsink.writes (run_cmds [Chk (AddAttributeHeader STUN_ATTRIBUTE_PADDING m), Chk (padding_loop (unat m))] S_OK)
      ((be16 STUN_ATTRIBUTE_PADDING @ be16 m) @ replicate (unat m) 0) b" by (rule bsink.writes_runs)
  moreover have "(be16 STUN_ATTRIBUTE_PADDING @ be16 m) @ replicate (unat m) 0 =
      attr_bytes legacy STUN_ATTRIBUTE_PADDING (replicate (unat n + pad4 (unat n)) 0)"
    using four by (simp add: attr_bytes_def flip: m)
  ultimately show ?thesis by (intro bsink.writes_cong [of "AddPaddingAttribute n"]) (simp_all add: AddPaddingAttribute_def m_def Let_def)
qed

end
