(* ===== verification/BuilderSeal.thy ===== *)
theory BuilderSeal
  imports BuilderCorrect
begin

text \<open>
  The builder methods that do more than append: the header (which reserves room first), the
  transaction id (which the builder keeps for the address mask), the length field (which is
  patched in place), and the two attributes computed from the message so far, FINGERPRINT and
  MESSAGE-INTEGRITY.
\<close>

section \<open>Header and transaction id\<close>

text \<open>The size hint of \<open>AddHeader\<close> does nothing to a roomy buffer, and allocates a fresh one.\<close>

definition header_ready :: "builder \<Rightarrow> bool" where
  "header_ready b \<longleftrightarrow> 200 \<le> CDataStream_allocated (mb_stream b) \<or>
     (CDataStream_allocated (mb_stream b) = 0 \<and> \<not> ds_fNoGrow (mb_stream b))"

lemma header_ready_new [simp]: "header_ready CStunMessageBuilder_new"
  by (simp add: header_ready_def CStunMessageBuilder_new_def CDataStream_init_def CDataStream_allocated_def)

definition header_bytes :: "StunMessageType \<Rightarrow> StunMessageClass \<Rightarrow> bytes" where
  "header_bytes t c = be16 (msgTypeField t c) @ [0, 0]"

lemma header_rest_writes:
  "bsink.writes (run_cmds
      [Chk (on_stream (CDataStream_WriteUint16 (htons (msgTypeField t c)))), Chk (on_stream (CDataStream_WriteUint16 0))] S_OK)
    (header_bytes t c) b"
  using writes_u16 [of 0] unfolding header_bytes_def
  by (intro bsink.writes_runs runs_intros writes_htons) simp

lemma AddHeader_writes:
  assumes ready: "header_ready b"
  shows "bsink.writes (AddHeader t c) (header_bytes t c) b"
  unfolding bsink.writes_def
proof
  assume rm: "builder_room (length (header_bytes t c)) b"
  then have e: "at_end (mb_stream b)" and wf: "wf_stream (mb_stream b)"
    by (auto simp: builder_room_def append_room_def at_end_def)
  obtain s' where g: "CDataStream_Grow 200 (mb_stream b) = (S_OK, s')" "wf_stream s'" "stream_bytes s' = stream_bytes (mb_stream b)"
    "ds_pos s' = ds_pos (mb_stream b)" "ds_fNoGrow s' = ds_fNoGrow (mb_stream b)" "200 \<le> CDataStream_allocated s'"
    "200 \<le> CDataStream_allocated (mb_stream b) \<Longrightarrow> s' = mb_stream b"
    using Grow_ok [OF wf, of 200] ready by (metis header_ready_def)
  let ?b = "b\<lparr>mb_stream := s'\<rparr>"
  have "builder_room (length (header_bytes t c)) ?b"
  proof (cases "200 \<le> CDataStream_allocated (mb_stream b)")
    case True
    then show ?thesis using rm g(7) by simp
  next
    case False
    then show ?thesis using rm g(2-5) e ready
      by (simp add: builder_room_def append_room_def at_end_def stream_room_def header_ready_def)
  qed
  with header_rest_writes [of t c ?b] obtain hr b' where w: "run_cmds
      [Chk (on_stream (CDataStream_WriteUint16 (htons (msgTypeField t c)))), Chk (on_stream (CDataStream_WriteUint16 0))] S_OK ?b = (hr, b')"
    "SUCCEEDED hr" "builder_ext (header_bytes t c) ?b b'" by (rule bsink.writesE)
  have "AddHeader t c b = (hr, b')"
    using w(1) by (simp add: AddHeader_def run_Chk [of "on_stream (CDataStream_SetSizeHint 200)"] on_stream_def [of "CDataStream_SetSizeHint 200"] CDataStream_SetSizeHint_def g(1))
  moreover have "builder_ext (header_bytes t c) b b'"
  proof (cases "200 \<le> CDataStream_allocated (mb_stream b)")
    case True
    then show ?thesis using w(3) g(7) by simp
  next
    case False
    then have "CDataStream_allocated (mb_stream b) = 0" using ready by (simp add: header_ready_def)
    then show ?thesis using w(3) g e by (auto simp: builder_ext_def appends_def header_bytes_def)
  qed
  ultimately show "\<exists>hr s'. AddHeader t c b = (hr, s') \<and> SUCCEEDED hr \<and> builder_ext (header_bytes t c) b s'"
    using w(2) by blast
qed

lemma AddTransactionId_ok:
  assumes "wf_transid t" "builder_room 16 b"
  obtains hr b' where "AddTransactionId t b = (hr, b')" "SUCCEEDED hr" "builder_ext t (b\<lparr>mb_transactionid := t\<rparr>) b'"
proof -
  have "bsink.writes (on_stream (CDataStream_Write (Some t) 16)) t (b\<lparr>mb_transactionid := t\<rparr>)"
    using assms(1) by (intro writes_bytes) (auto simp: wf_transid_def)
  moreover have "builder_room (length t) (b\<lparr>mb_transactionid := t\<rparr>)"
    using assms by (simp add: wf_transid_def builder_room_def)
  ultimately show thesis using that by (auto simp: bsink.writes_def AddTransactionId_def stun_consts)
qed

section \<open>The length field\<close>

definition same_store :: "datastream \<Rightarrow> datastream \<Rightarrow> bool" where
  "same_store s s' \<longleftrightarrow> ds_fNoGrow s' = ds_fNoGrow s \<and> CDataStream_allocated s' = CDataStream_allocated s \<and>
     ds_left s' = ds_left s"

definition same_mode :: "builder \<Rightarrow> builder \<Rightarrow> bool" where
  "same_mode b b' \<longleftrightarrow> mb_transactionid b' = mb_transactionid b \<and> mb_fLegacyMode b' = mb_fLegacyMode b"

definition with_length :: "bytes \<Rightarrow> bytes" where
  "with_length bs = overwrite 2 (be16 (of_nat (length bs - 20))) bs"

lemma length_with_length [simp]: "20 \<le> length bs \<Longrightarrow> length (with_length bs) = length bs"
  by (simp add: with_length_def)

text \<open>Writing over bytes that are already there changes no allocation.\<close>

lemma patch_ok:
  assumes e: "wf_stream s" and len: "p + length xs \<le> length (stream_bytes s)" "length (stream_bytes s) < size_range"
    and ne: "xs \<noteq> []" and pos: "ds_pos s = p"
  obtains hr s' where "CDataStream_Write (Some xs) (length xs) s = (hr, s')" "SUCCEEDED hr" "wf_stream s'"
    "stream_bytes s' = overwrite p xs (stream_bytes s)" "ds_pos s' = p + length xs" "same_store s s'"
proof -
  have alloc: "p + length xs \<le> CDataStream_allocated s"
    using len(1) size_le_allocated [OF e] length_stream_bytes [OF e] by simp
  have "stream_room (length xs) s" using alloc len pos by (simp add: stream_room_def)
  from Write_ok [OF e ne this] obtain hr s' where w: "CDataStream_Write (Some xs) (length xs) s = (hr, s')" "SUCCEEDED hr" "wf_stream s'"
    "stream_bytes s' = overwrite (ds_pos s) xs (stream_bytes s)" "ds_pos s' = ds_pos s + length xs" "ds_fNoGrow s' = ds_fNoGrow s"
    "ds_pos s + length xs \<le> CDataStream_allocated s \<Longrightarrow> CDataStream_allocated s' = CDataStream_allocated s \<and> ds_left s' = ds_left s"
    by metis
  with alloc pos that show thesis by (simp add: same_store_def)
qed

lemma same_store_seek [simp]: "same_store (s\<lparr>ds_pos := p\<rparr>) s' = same_store s s'" "same_store s (s'\<lparr>ds_pos := p\<rparr>) = same_store s s'"
  by (simp_all add: same_store_def CDataStream_allocated_def)

lemma same_store_refl [simp]: "same_store s s"
  by (simp add: same_store_def)

lemma same_store_trans: "same_store s t \<Longrightarrow> same_store t u \<Longrightarrow> same_store s u"
  by (simp add: same_store_def)

lemma run_on_stream:
  "run_cmds (Chk (on_stream f) # cs) hr b =
     (let (hr', s') = f (mb_stream b) in if FAILED hr' then (hr', b\<lparr>mb_stream := s'\<rparr>) else run_cmds cs hr' (b\<lparr>mb_stream := s'\<rparr>))"
  by (simp add: cmd_simps on_stream_def split: prod.split)

lemma FixLengthField_ok:
  assumes e: "at_end (mb_stream b)" and len: "20 \<le> length (stream_bytes (mb_stream b))" "length (stream_bytes (mb_stream b)) < size_range"
  obtains hr b' where "FixLengthField b = (hr, b')" "SUCCEEDED hr" "at_end (mb_stream b')"
    "stream_bytes (mb_stream b') = with_length (stream_bytes (mb_stream b))"
    "same_store (mb_stream b) (mb_stream b')" "same_mode b b'"
proof -
  let ?s = "mb_stream b"
  have wf: "wf_stream ?s" and pos: "ds_pos ?s = length (stream_bytes ?s)" using e by (auto simp: at_end_def)
  have size: "CDataStream_GetSize ?s = length (stream_bytes ?s)" by (simp add: length_stream_bytes [OF wf])
  let ?xs = "be16 (of_nat (length (stream_bytes ?s) - 20))"
  let ?s1 = "?s\<lparr>ds_pos := 2\<rparr>"
  have seek: "CDataStream_SeekDirect 2 ?s = (S_OK, ?s1)" using len wf by (intro SeekDirect_ok) auto
  have wf1: "wf_stream ?s1" using len wf by (intro wf_stream_seek) auto
  have pre: "2 + length ?xs \<le> length (stream_bytes ?s1)" "length (stream_bytes ?s1) < size_range" "?xs \<noteq> []" "ds_pos ?s1 = 2"
    using len by simp_all
  obtain hr s2 where "CDataStream_Write (Some ?xs) (length ?xs) ?s1 = (hr, s2)" "SUCCEEDED hr" "wf_stream s2"
    "stream_bytes s2 = overwrite 2 ?xs (stream_bytes ?s1)" "same_store ?s1 s2" by (rule patch_ok [OF wf1 pre])
  then have w: "CDataStream_Write (Some ?xs) 2 ?s1 = (hr, s2)" "SUCCEEDED hr" "wf_stream s2"
    "stream_bytes s2 = overwrite 2 ?xs (stream_bytes ?s)" "same_store ?s s2" by simp_all
  have bytes: "stream_bytes s2 = with_length (stream_bytes ?s)" by (simp add: w(4) with_length_def)
  let ?s3 = "s2\<lparr>ds_pos := length (stream_bytes ?s)\<rparr>"
  have lens: "length (stream_bytes s2) = length (stream_bytes ?s)" using bytes len by simp
  have return: "CDataStream_SeekDirect (length (stream_bytes ?s)) s2 = (S_OK, ?s3)" using w(3) lens by (intro SeekDirect_ok) auto
  have "FixLengthField b = (S_OK, b\<lparr>mb_stream := ?s3\<rparr>)"
    using len seek w(1,2) return
    by (simp add: FixLengthField_def run_on_stream run_ChkIf size CDataStream_GetPos_def pos stun_consts CDataStream_WriteUint16_def)
  moreover have "at_end ?s3" using w(3) lens by (simp add: at_end_def)
  ultimately show thesis using that [of S_OK "b\<lparr>mb_stream := ?s3\<rparr>"] w(5) bytes by (simp add: same_mode_def)
qed

lemma GetResult_ok:
  assumes e: "at_end (mb_stream b)" and len: "20 \<le> length (stream_bytes (mb_stream b))" "length (stream_bytes (mb_stream b)) < size_range"
  obtains buf b' where "GetResult b = (S_OK, Some buf, b')" "buffer_bytes buf = with_length (stream_bytes (mb_stream b))"
    "wf_buffer buf" "same_store (mb_stream b) (mb_stream b')" "ds_buffer (mb_stream b') = Some buf"
proof -
  obtain hr b' where f: "FixLengthField b = (hr, b')" "SUCCEEDED hr" "at_end (mb_stream b')"
    "stream_bytes (mb_stream b') = with_length (stream_bytes (mb_stream b))"
    "same_store (mb_stream b) (mb_stream b')" "same_mode b b'"
    by (rule FixLengthField_ok [OF e len])
  have "length (stream_bytes (mb_stream b')) \<noteq> 0" using f(4) len by auto
  then obtain buf where buf: "ds_buffer (mb_stream b') = Some buf"
    by (cases "ds_buffer (mb_stream b')") (auto simp: stream_bytes_def)
  have "wf_buffer buf" using f(3) buf by (auto simp: at_end_def intro: wf_stream_buffer)
  moreover have "buffer_bytes buf = with_length (stream_bytes (mb_stream b))" using f(4) buf by (simp add: stream_bytes_def)
  ultimately show thesis using that f(1,2,5) buf by (simp add: GetResult_def CDataStream_GetBuffer_def)
qed

section \<open>FINGERPRINT and MESSAGE-INTEGRITY\<close>

lemma builder_data_bytes: "builder_data b = stream_bytes (mb_stream b)"
  by (simp add: builder_data_def CDataStream_GetBuffer_def stream_bytes_def buffer_bytes_def split: option.splits)

text \<open>The message so far with the fingerprint appended: the CRC covers all but the last 8 bytes.\<close>

definition fingerprinted :: "bytes \<Rightarrow> bytes" where
  "fingerprinted bs =
     (let m = with_length (bs @ be16 STUN_ATTRIBUTE_FINGERPRINT @ be16 4 @ replicate 4 0);
          covered = take (length bs) m
      in covered @ be16 STUN_ATTRIBUTE_FINGERPRINT @ be16 4 @ be32 (fingerprint_value covered))"

lemma length_fingerprinted [simp]: "20 \<le> length bs \<Longrightarrow> length (fingerprinted bs) = length bs + 8"
  by (simp add: fingerprinted_def Let_def)

lemma with_length_append:
  assumes "20 \<le> length bs"
  shows "with_length (bs @ xs) = overwrite 2 (be16 (of_nat (length bs + length xs - 20))) bs @ xs"
  using assms by (simp add: with_length_def overwrite_append_left)

lemma fingerprint_placeholder_writes:
  "bsink.writes (run_cmds
      [Chk (on_stream (CDataStream_WriteUint16 (htons STUN_ATTRIBUTE_FINGERPRINT))),
       Chk (on_stream (CDataStream_WriteUint16 (htons 4))), Chk (on_stream (CDataStream_WriteUint32 0))] S_OK)
    (be16 STUN_ATTRIBUTE_FINGERPRINT @ be16 4 @ replicate 4 0) b"
proof -
  have "bsink.writes (on_stream (CDataStream_WriteUint32 0)) (replicate 4 0) b" for b
    using writes_u32 [of 0 b] by (simp add: mem32_def numeral_eq_Suc)
  then show ?thesis by (intro bsink.writes_runs runs_intros writes_htons)
qed

lemma run_last_Chk: "f s = (hr', s') \<Longrightarrow> run_cmds [Chk f] hr s = (hr', s')"
  by (simp add: run_Chk)

lemma run_Chks_append:
  "SUCCEEDED hr \<Longrightarrow> run_cmds (map Chk fs) hr s = (hr', s') \<Longrightarrow> SUCCEEDED hr' \<Longrightarrow>
   run_cmds (map Chk fs @ ds) hr s = run_cmds ds hr' s'"
proof (induction fs arbitrary: hr s)
  case (Cons f fs)
  then show ?case by (cases "f s") (auto simp: cmd_simps split: if_splits)
qed simp

text \<open>How a store may change under a message that grew by \<open>n\<close> bytes.\<close>

definition grown :: "nat \<Rightarrow> datastream \<Rightarrow> datastream \<Rightarrow> bool" where
  "grown n s s' \<longleftrightarrow> ds_fNoGrow s' = ds_fNoGrow s \<and> CDataStream_allocated s \<le> CDataStream_allocated s' \<and>
     (length (stream_bytes s) + n \<le> CDataStream_allocated s \<longrightarrow>
        CDataStream_allocated s' = CDataStream_allocated s \<and> ds_left s' = ds_left s)"

lemma grown_appends: "appends xs s s' \<Longrightarrow> grown (length xs) s s'"
  by (simp add: grown_def appends_def)

lemma grown_same_store: "grown n s s' \<Longrightarrow> same_store s' s'' \<Longrightarrow> grown n s s''"
  by (auto simp: grown_def same_store_def)

lemma AddFingerprintAttribute_ok:
  assumes rm: "builder_room 8 b" and len: "20 \<le> length (stream_bytes (mb_stream b))"
  obtains hr b' where "AddFingerprintAttribute b = (hr, b')" "SUCCEEDED hr" "at_end (mb_stream b')"
    "stream_bytes (mb_stream b') = fingerprinted (stream_bytes (mb_stream b))"
    "grown 8 (mb_stream b) (mb_stream b')" "same_mode b b'"
proof -
  let ?bs = "stream_bytes (mb_stream b)" and ?ph = "be16 STUN_ATTRIBUTE_FINGERPRINT @ be16 4 @ replicate 4 0 :: bytes"
  let ?fs = "[on_stream (CDataStream_WriteUint16 (htons STUN_ATTRIBUTE_FINGERPRINT)),
       on_stream (CDataStream_WriteUint16 (htons 4)), on_stream (CDataStream_WriteUint32 0)]"
  have "builder_room (length ?ph) b" using rm by simp
  with fingerprint_placeholder_writes [of b] obtain hr1 b1 where w: "run_cmds (map Chk ?fs) S_OK b = (hr1, b1)" "SUCCEEDED hr1"
    "builder_ext ?ph b b1" by (auto elim: bsink.writesE)
  have e1: "at_end (mb_stream b1)" and bytes1: "stream_bytes (mb_stream b1) = ?bs @ ?ph" and mode1: "same_mode b b1"
    using w(3) by (auto simp: builder_ext_def appends_def same_mode_def)
  have range: "length ?bs + 8 < size_range" "ds_pos (mb_stream b) = length ?bs"
    using rm by (auto simp: builder_room_def append_room_def at_end_def stream_room_def)
  obtain hr2 b2 where f: "FixLengthField b1 = (hr2, b2)" "SUCCEEDED hr2" "at_end (mb_stream b2)"
    "stream_bytes (mb_stream b2) = with_length (stream_bytes (mb_stream b1))"
    "same_store (mb_stream b1) (mb_stream b2)" "same_mode b1 b2"
    by (rule FixLengthField_ok [OF e1]) (use len range in \<open>simp_all add: bytes1\<close>)
  define m where "m = with_length (?bs @ ?ph)"
  have m: "stream_bytes (mb_stream b2) = m" "length m = length ?bs + 8" using f(4) bytes1 len by (simp_all add: m_def)
  have split: "m = take (length ?bs) m @ ?ph" using len by (simp add: m_def with_length_append)
  let ?val = "fingerprint_value (take (length ?bs) m)" and ?s2 = "mb_stream b2"
  have wf2: "wf_stream ?s2" and pos2: "ds_pos ?s2 = length ?bs + 8" using f(3) m by (auto simp: at_end_def)
  have seek: "CDataStream_SeekRelative (- 4) ?s2 = (S_OK, ?s2\<lparr>ds_pos := length ?bs + 4\<rparr>)"
    using SeekRelative_back [of 4 ?s2] SeekDirect_ok [OF wf2, of "length ?bs + 4"] pos2 m range by (simp add: add.commute)
  have wf3: "wf_stream (?s2\<lparr>ds_pos := length ?bs + 4\<rparr>)" using wf2 m by (intro wf_stream_seek) auto
  have pre: "length ?bs + 4 + length (be32 ?val) \<le> length (stream_bytes (?s2\<lparr>ds_pos := length ?bs + 4\<rparr>))"
    "length (stream_bytes (?s2\<lparr>ds_pos := length ?bs + 4\<rparr>)) < size_range" "be32 ?val \<noteq> []"
    "ds_pos (?s2\<lparr>ds_pos := length ?bs + 4\<rparr>) = length ?bs + 4" using m range by simp_all
  obtain hr3 s3 where p: "CDataStream_Write (Some (be32 ?val)) (length (be32 ?val)) (?s2\<lparr>ds_pos := length ?bs + 4\<rparr>) = (hr3, s3)"
    "SUCCEEDED hr3" "wf_stream s3" "stream_bytes s3 = overwrite (length ?bs + 4) (be32 ?val) (stream_bytes (?s2\<lparr>ds_pos := length ?bs + 4\<rparr>))"
    "ds_pos s3 = length ?bs + 4 + length (be32 ?val)" "same_store (?s2\<lparr>ds_pos := length ?bs + 4\<rparr>) s3"
    by (rule patch_ok [OF wf3 pre])
  have data: "builder_data b2 = m" using m by (simp add: builder_data_bytes)
  have run: "AddFingerprintAttribute b = (hr3, b2\<lparr>mb_stream := s3\<rparr>)"
  proof -
    let ?g = "\<lambda>b. let pData = builder_data b; len = length pData - 8; val = fingerprint_value (take len pData)
                in run_cmds [Chk (on_stream (CDataStream_SeekRelative (- 4))),
                             Chk (on_stream (CDataStream_WriteUint32 (htonl val)))] S_OK b"
    have "?g b2 = run_cmds [Chk (on_stream (CDataStream_SeekRelative (- 4))),
        Chk (on_stream (CDataStream_WriteUint32 (htonl ?val)))] S_OK b2" by (simp add: data m(2))
    also have "... = (hr3, b2\<lparr>mb_stream := s3\<rparr>)" using seek p(1,2) by (simp add: run_on_stream CDataStream_WriteUint32_def)
    finally have g: "?g b2 = (hr3, b2\<lparr>mb_stream := s3\<rparr>)" .
    have "AddFingerprintAttribute b = run_cmds (map Chk ?fs @ [Chk FixLengthField, Chk ?g]) S_OK b"
      by (simp only: AddFingerprintAttribute_def list.map append.simps)
    also have "... = run_cmds [Chk FixLengthField, Chk ?g] hr1 b1" by (rule run_Chks_append [OF SUCCEEDED_S_OK w(1,2)])
    also have "... = run_cmds [Chk ?g] hr2 b2" using f(1,2) by (simp add: run_Chk)
    also have "... = (hr3, b2\<lparr>mb_stream := s3\<rparr>)" by (rule run_last_Chk) (rule g)
    finally show ?thesis .
  qed
  have "overwrite (length ?bs + 4) (be32 ?val) m = take (length ?bs + 4) m @ be32 ?val"
    using m(2) by (simp add: overwrite_def)
  also have "take (length ?bs + 4) m = take (length ?bs) m @ be16 STUN_ATTRIBUTE_FINGERPRINT @ be16 4"
    using m(2) by (subst split) simp
  finally have bytes: "stream_bytes s3 = fingerprinted ?bs"
    using p(4) m(1) by (simp add: fingerprinted_def Let_def m_def)
  have "at_end s3" using p(3,4,5) m by (simp add: at_end_def)
  moreover have "same_mode b (b2\<lparr>mb_stream := s3\<rparr>)" using mode1 f(6) by (simp add: same_mode_def)
  moreover have "grown 8 (mb_stream b) s3"
    using grown_appends [of ?ph "mb_stream b" "mb_stream b1"] w(3) f(5) p(6)
    by (auto simp: builder_ext_def intro: grown_same_store)
  ultimately show thesis using that run p(2) bytes by simp
qed

text \<open>
  The message with its integrity attribute: the HMAC covers the message before the attribute, with
  the length field already counting it.
\<close>

definition with_integrity :: "(bytes \<Rightarrow> bytes \<Rightarrow> bytes) \<Rightarrow> bytes \<Rightarrow> bytes \<Rightarrow> bytes" where
  "with_integrity hmac key bs =
     (let m = with_length (bs @ be16 STUN_ATTRIBUTE_MESSAGEINTEGRITY @ be16 20 @ replicate 20 0);
          covered = take (length bs) m
      in covered @ be16 STUN_ATTRIBUTE_MESSAGEINTEGRITY @ be16 20 @ hmac key covered)"

lemma length_with_integrity [simp]:
  "20 \<le> length bs \<Longrightarrow> (\<And>k d. length (hmac k d) = 20) \<Longrightarrow> length (with_integrity hmac key bs) = length bs + 24"
  by (simp add: with_integrity_def Let_def)

lemma poke_buffer_ok:
  assumes e: "at_end (mb_stream b)" and ne: "stream_bytes (mb_stream b) \<noteq> []"
    and len: "off + length xs \<le> length (stream_bytes (mb_stream b))"
  shows "at_end (mb_stream (poke_buffer off xs b))"
    "stream_bytes (mb_stream (poke_buffer off xs b)) = overwrite off xs (stream_bytes (mb_stream b))"
    "same_store (mb_stream b) (mb_stream (poke_buffer off xs b))" "same_mode b (poke_buffer off xs b)"
proof -
  let ?s = "mb_stream b" and ?s' = "mb_stream (poke_buffer off xs b)"
  obtain buf where buf: "ds_buffer ?s = Some buf" using ne by (auto simp: stream_bytes_def split: option.splits)
  then have wf: "wf_buffer buf" using e by (auto simp: at_end_def intro: wf_stream_buffer)
  obtain d where d: "cb_data buf = Some d" "length d = cb_allocatedSize buf" "cb_size buf \<le> length d"
    using wf ne buf by (auto simp: wf_buffer_def stream_bytes_def buffer_bytes_def CBuffer_GetData_def split: option.splits)
  have bytes: "stream_bytes ?s = take (cb_size buf) d" using buf d by (simp add: stream_bytes_def buffer_bytes_def CBuffer_GetData_def)
  have le: "off + length xs \<le> cb_size buf" using len d by (simp add: bytes)
  let ?buf = "buf\<lparr>cb_data := Some (overwrite off xs d)\<rparr>"
  have s': "?s' = ?s\<lparr>ds_buffer := Some ?buf\<rparr>" by (simp add: poke_buffer_def buf d)
  show b': "stream_bytes ?s' = overwrite off xs (stream_bytes ?s)"
    using le d by (simp add: s' stream_bytes_def [of "_\<lparr>ds_buffer := _\<rparr>"] bytes buffer_bytes_def CBuffer_GetData_def take_overwrite_beyond)
  have "wf_stream ?s'" using e buf wf d le by (auto simp: s' at_end_def wf_stream_def wf_buffer_def CDataStream_GetSize_def)
  then show "at_end ?s'" using e b' len by (simp add: at_end_def s')
  show "same_store ?s ?s'" by (simp add: same_store_def s' CDataStream_allocated_def buf)
  show "same_mode b (poke_buffer off xs b)" by (simp add: same_mode_def poke_buffer_def)
qed

lemma AddMessageIntegrityImpl_ok:
  assumes rm: "builder_room 24 b" and len: "20 \<le> length (stream_bytes (mb_stream b))"
    and key: "0 < n" "n \<le> length key" and hmac: "\<And>k d. length (hmac k d) = 20"
  obtains hr b' where "AddMessageIntegrityImpl hmac (Some key) n b = (hr, b')" "SUCCEEDED hr" "at_end (mb_stream b')"
    "stream_bytes (mb_stream b') = with_integrity hmac (take n key) (stream_bytes (mb_stream b))"
    "grown 24 (mb_stream b) (mb_stream b')" "same_mode b b'"
proof -
  let ?bs = "stream_bytes (mb_stream b)"
  let ?ph = "be16 STUN_ATTRIBUTE_MESSAGEINTEGRITY @ be16 20 @ replicate 20 0 :: bytes"
  have ph: "attr_bytes (mb_fLegacyMode b) STUN_ATTRIBUTE_MESSAGEINTEGRITY (replicate 20 0) = ?ph"
    by (simp add: attr_bytes_def)
  have "bsink.writes (AddAttribute STUN_ATTRIBUTE_MESSAGEINTEGRITY (Some (replicate 20 0)) 20) ?ph b"
    using AddAttribute_whole [of "replicate 20 0" STUN_ATTRIBUTE_MESSAGEINTEGRITY b] by (simp add: ph)
  moreover have "builder_room (length ?ph) b" using rm by simp
  ultimately obtain hr1 b1 where w: "AddAttribute STUN_ATTRIBUTE_MESSAGEINTEGRITY (Some (replicate 20 0)) 20 b = (hr1, b1)"
    "SUCCEEDED hr1" "builder_ext ?ph b b1" by (rule bsink.writesE)
  have e1: "at_end (mb_stream b1)" and bytes1: "stream_bytes (mb_stream b1) = ?bs @ ?ph" and mode1: "same_mode b b1"
    using w(3) by (auto simp: builder_ext_def appends_def same_mode_def)
  have range: "length ?bs + 24 < size_range"
    using rm by (auto simp: builder_room_def append_room_def at_end_def stream_room_def)
  obtain hr2 b2 where f: "FixLengthField b1 = (hr2, b2)" "SUCCEEDED hr2" "at_end (mb_stream b2)"
    "stream_bytes (mb_stream b2) = with_length (stream_bytes (mb_stream b1))"
    "same_store (mb_stream b1) (mb_stream b2)" "same_mode b1 b2"
    by (rule FixLengthField_ok [OF e1]) (use len range in \<open>simp_all add: bytes1\<close>)
  define m where "m = with_length (?bs @ ?ph)"
  have m: "stream_bytes (mb_stream b2) = m" "length m = length ?bs + 24" using f(4) bytes1 len by (simp_all add: m_def)
  have split: "m = take (length ?bs) m @ ?ph" using len by (simp add: m_def with_length_append)
  let ?mac = "hmac (take n key) (take (length ?bs) m)"
  have data: "builder_data b2 = m" using m by (simp add: builder_data_bytes)
  let ?b3 = "poke_buffer (length ?bs + 4) ?mac b2"
  have run: "AddMessageIntegrityImpl hmac (Some key) n b = (hr2, ?b3)"
    using w(1,2) f(1,2) key by (simp add: AddMessageIntegrityImpl_def cmd_simps Let_def data m(2))
  have "m \<noteq> []" using m(2) by auto
  then have p: "at_end (mb_stream ?b3)" "stream_bytes (mb_stream ?b3) = overwrite (length ?bs + 4) ?mac m"
    "same_store (mb_stream b2) (mb_stream ?b3)" "same_mode b2 ?b3"
    using poke_buffer_ok [OF f(3), of "length ?bs + 4" ?mac] m hmac by simp_all
  have "overwrite (length ?bs + 4) ?mac m = take (length ?bs + 4) m @ ?mac"
    using m(2) hmac by (simp add: overwrite_def)
  also have "take (length ?bs + 4) m = take (length ?bs) m @ be16 STUN_ATTRIBUTE_MESSAGEINTEGRITY @ be16 20"
    using m(2) by (subst split) simp
  finally have bytes: "stream_bytes (mb_stream ?b3) = with_integrity hmac (take n key) ?bs"
    using p(2) by (simp add: with_integrity_def Let_def m_def)
  have "same_mode b ?b3" using mode1 f(6) p(4) by (simp add: same_mode_def)
  moreover have "grown 24 (mb_stream b) (mb_stream ?b3)"
    using grown_appends [of ?ph "mb_stream b" "mb_stream b1"] w(3) f(5) p(3)
    by (auto simp: builder_ext_def intro: grown_same_store)
  ultimately show thesis using that run f(2) p(1) bytes by blast
qed

end
