(* ===== verification/RoundTrip.thy ===== *)
theory RoundTrip
  imports ReaderCorrect BuilderSeal
begin

text \<open>
  The builder and the reader agree: \<open>message t c id as\<close> is the wire image of a message with type
  \<open>t\<close>, class \<open>c\<close>, transaction id \<open>id\<close> and attributes \<open>as\<close>. The builder produces it
  (\<open>built\<close> is kept by every attribute writer and \<open>GetResult\<close> seals it), the reader accepts it and
  finds in it what was put in.
\<close>

section \<open>Looking attributes up\<close>

lemma note_fold_map:
  "rd_mapAttributes (fold note_attribute as r) =
     fasthash.insert_all FastHash_Hash_u16 (map (\<lambda>a. (attributeType a, a)) as) (rd_mapAttributes r)"
  by (induction as arbitrary: r) simp_all

definition last_of_type :: "u16 \<Rightarrow> StunAttribute list \<Rightarrow> StunAttribute option" where
  "last_of_type t as = find (\<lambda>a. attributeType a = t) (rev as)"

lemma find_filter: "find P xs = (case filter P xs of [] \<Rightarrow> None | x # _ \<Rightarrow> Some x)"
  by (induction xs) auto

lemma attr_lookup_parsed:
  assumes ra: "reader_after allow bs r" and st: "spec_state allow bs = BodyValidated"
  shows "attr_lookup t r = last_of_type t (body_attrs bs)"
proof -
  let ?as = "body_attrs bs"
  have ok: "length ?as \<le> MAX_NUM_ATTRIBUTES"
    using st by (auto simp: spec_state_def body_ok_def body_attrs_def split: if_splits option.splits)
  obtain b where bl: "blank allow b" and c: "content r = fold note_attribute ?as (with_header bs b)"
    by (rule reader_after_content [OF ra st])
  have m: "rd_mapAttributes r = fasthash.insert_all FastHash_Hash_u16 (map (\<lambda>a. (attributeType a, a)) ?as) (rd_mapAttributes b)"
    using content_fields(3) [of r] c by (simp add: note_fold_map)
  have e0: "fh_entries FastHash_Hash_u16 (rd_mapAttributes b) t = []"
  proof -
    have inv: "fh_inv FastHash_Hash_u16 (rd_mapAttributes b)" using blank_fields(3) [OF bl] by (simp add: table_ok_def)
    then obtain C F where rep: "fh_rep FastHash_Hash_u16 (rd_mapAttributes b) C F" by (auto simp: fh_inv_def)
    have "finite (live (rd_mapAttributes b) C)" by (simp add: live_def)
    then have "live (rd_mapAttributes b) C = {}"
      using rep blank_fields(4) [OF bl] by (simp add: fh_rep_def fh_chains_def)
    then have "C (FastHash_Hash_u16 t mod fh_tsize (rd_mapAttributes b)) = []"
      using fh_rep_bucket [OF rep, of t] by (auto simp: live_def)
    then show ?thesis by (simp add: fh_entries_eq [OF rep] values_of_def map_filter_simps)
  qed
  have "fh_inv FastHash_Hash_u16 (rd_mapAttributes r) \<and>
      fh_entries FastHash_Hash_u16 (rd_mapAttributes r) t = rev (map snd (filter (\<lambda>kv. fst kv = t) (map (\<lambda>a. (attributeType a, a)) ?as)))"
    using fasthash.insert_all_ok [of FastHash_Hash_u16 "rd_mapAttributes b" "map (\<lambda>a. (attributeType a, a)) ?as" t]
      blank_fields(3,4) [OF bl] ok e0 by (simp add: m table_ok_def)
  then have inv: "fh_inv FastHash_Hash_u16 (rd_mapAttributes r)"
    and e: "fh_entries FastHash_Hash_u16 (rd_mapAttributes r) t = filter (\<lambda>a. attributeType a = t) (rev ?as)"
    by (simp_all add: filter_map comp_def rev_filter)
  show ?thesis using Lookup_entries [OF inv, of t] by (simp add: attr_lookup_def last_of_type_def find_filter e)
qed

text \<open>Every attribute lies inside the message.\<close>

lemma parse_attrs_inside:
  "parse_attrs p (drop p bs) = Some as \<Longrightarrow> p \<le> length bs \<Longrightarrow> length bs < 65536 \<Longrightarrow> a \<in> set as \<Longrightarrow>
   p + 4 \<le> unat (attr_offset a) \<and> unat (attr_offset a) + unat (attr_size a) \<le> length bs"
proof (induction as arbitrary: p)
  case (Cons x as)
  then have p: "attr_fits bs p" "x = attr_at bs p"
    "parse_attrs (p + attr_span x) (drop (p + attr_span x) bs) = Some as"
    by (auto simp: parse_attrs_step split: if_splits)
  have off: "unat (attr_offset x) = p + 4" using p(1,2) Cons.prems(3) unfolding p(2) attr_at_def
    by (simp add: attr_fits_def unat_of_nat del: of_nat_add)
  have span: "p + attr_span x \<le> length bs" "4 \<le> attr_span x" "4 + unat (attr_size x) \<le> attr_span x"
    using p(1,2) by (auto simp: attr_fits_def attr_span_def)
  show ?case
  proof (cases "a = x")
    case True
    then show ?thesis using off span by simp
  next
    case False
    then show ?thesis using Cons.IH [OF p(3) span(1)] Cons.prems span by simp
  qed
qed simp

lemma last_of_type_mem: "last_of_type t as = Some a \<Longrightarrow> a \<in> set as \<and> attributeType a = t"
  by (auto simp: last_of_type_def find_Some_iff rev_nth)

lemma body_attrs_inside:
  assumes "spec_state allow bs = BodyValidated" "a \<in> set (body_attrs bs)"
  shows "24 \<le> unat (attr_offset a) \<and> unat (attr_offset a) + unat (attr_size a) \<le> length bs"
proof -
  have "header_ok allow bs" "length bs = unat (msg_length bs) + 20" "body_ok bs"
    using assms(1) by (auto simp: spec_state_def split: if_splits)
  then have len: "length bs < 65536" "20 \<le> length bs" by (auto simp: header_ok_def)
  obtain as where as: "parse_attrs 20 (drop 20 bs) = Some as" using \<open>body_ok bs\<close> by (auto simp: body_ok_def split: option.splits)
  then show ?thesis using parse_attrs_inside [OF as len(2,1), of a] assms(2) by (simp add: body_attrs_def)
qed

text \<open>Reading within the message reads the message.\<close>

lemma reader_memory_prefix:
  assumes "stream_holds bs r" shows "\<exists>rest. reader_memory r = bs @ rest"
proof -
  let ?s = "rd_stream r"
  show ?thesis
  proof (cases "ds_buffer ?s")
    case None
    then show ?thesis using assms by (simp add: stream_holds_def stream_bytes_def reader_memory_def CDataStream_GetDataPointerUnsafe_def)
  next
    case (Some b)
    then have "bs = take (cb_size b) (CBuffer_GetData b)" using assms by (simp add: stream_holds_def stream_bytes_def buffer_bytes_def)
    moreover have "reader_memory r = CBuffer_GetData b"
      by (simp add: reader_memory_def CDataStream_GetDataPointerUnsafe_def Some CBuffer_GetData_def)
    ultimately show ?thesis by (metis append_take_drop_id)
  qed
qed

lemma attr_memory_inside:
  assumes "stream_holds bs r" "unat (attr_offset a) + off + n \<le> length bs"
  shows "attr_memory a off n r = bslice (unat (attr_offset a) + off) n bs"
proof -
  obtain rest where "reader_memory r = bs @ rest" using reader_memory_prefix [OF assms(1)] by blast
  then show ?thesis using assms(2) by (simp add: attr_memory_def bslice_append_left)
qed

section \<open>The wire image of a message\<close>

definition attrs_bytes :: "(u16 \<times> bytes) list \<Rightarrow> bytes" where
  "attrs_bytes as = concat (map (\<lambda>(t, d). attr_bytes False t d) as)"

lemma attrs_bytes_simps [simp]: "attrs_bytes [] = []" "attrs_bytes ((t, d) # as) = attr_bytes False t d @ attrs_bytes as"
  "attrs_bytes (as @ bs) = attrs_bytes as @ attrs_bytes bs"
  by (simp_all add: attrs_bytes_def)

text \<open>In legacy mode the padding counts as data.\<close>

definition padded :: "bool \<Rightarrow> bytes \<Rightarrow> bytes" where
  "padded legacy d = (if legacy then d @ replicate (pad4 (length d)) 0 else d)"

lemma attr_bytes_padded: "attr_bytes legacy t d = attr_bytes False t (padded legacy d)"
proof (cases legacy)
  case True
  have "attribute_padding (length d + pad4 (length d)) = 0" using pad4_dvd [of "length d"] by (intro attribute_padding_0) auto
  then show ?thesis using True by (simp add: attr_bytes_def padded_def attribute_padding_eq)
qed (simp add: padded_def)

lemma padded_4 [simp]: "4 dvd length d \<Longrightarrow> padded legacy d = d"
  by (simp add: padded_def)

fun attr_list :: "nat \<Rightarrow> (u16 \<times> bytes) list \<Rightarrow> StunAttribute list" where
  "attr_list p [] = []"
| "attr_list p ((t, d) # as) =
     \<lparr>attributeType = t, attr_size = of_nat (length d), attr_offset = of_nat (p + 4)\<rparr> #
     attr_list (p + 4 + length d + pad4 (length d)) as"

lemma length_attr_list [simp]: "length (attr_list p as) = length as"
  by (induction p as rule: attr_list.induct) simp_all

lemma parse_attr_bytes:
  assumes "\<forall>(t, d) \<in> set as. length d \<le> 780"
  shows "parse_attrs p (attrs_bytes as) = Some (attr_list p as)"
  using assms
proof (induction p as rule: attr_list.induct)
  case (1 p)
  then show ?case by (simp add: parse_attrs.simps)
next
  case (2 p t d as)
  let ?n = "4 + length d + pad4 (length d)" and ?rest = "attrs_bytes as"
  have len: "length d \<le> 780" using 2(2) by auto
  have u: "unat (of_nat (length d) :: u16) = length d" using len by (simp add: unat_of_nat)
  define w where "w = attrs_bytes ((t, d) # as)"
  have b: "w = be16 t @ be16 (of_nat (length d)) @ d @ replicate (pad4 (length d)) 0 @ ?rest"
    by (simp add: w_def attr_bytes_def attribute_padding_eq)
  have take: "take 2 w = be16 t" "bslice 2 2 w = be16 (of_nat (length d))"
    unfolding b by (simp_all add: bslice_def)
  have drop: "drop ?n w = ?rest" unfolding b by simp
  have ll: "length w = ?n + length ?rest" unfolding b by simp
  have ne: "w \<noteq> []" using ll by auto
  have "parse_attrs (p + ?n) ?rest = Some (attr_list (p + ?n) as)" using 2 by (simp add: add.assoc)
  then show ?case unfolding w_def [symmetric] using len ne ll drop
    by (subst parse_attrs.simps) (simp add: take u Let_def add.assoc)
qed

definition message :: "StunMessageType \<Rightarrow> StunMessageClass \<Rightarrow> StunTransactionId \<Rightarrow> (u16 \<times> bytes) list \<Rightarrow> bytes" where
  "message t c transid as = be16 (msgTypeField t c) @ be16 (of_nat (length (attrs_bytes as))) @ transid @ attrs_bytes as"

lemma length_message: "wf_transid tid \<Longrightarrow> length (message t c tid as) = 20 + length (attrs_bytes as)"
  by (simp add: message_def wf_transid_def)

lemma attrs_bytes_dvd: "4 dvd length (attrs_bytes as)"
proof (induction as)
  case (Cons a as)
  obtain t d where a: "a = (t, d)" by (cases a)
  have "4 dvd 4 + (length d + pad4 (length d)) + length (attrs_bytes as)"
    using Cons pad4_dvd [of "length d"] by (intro dvd_add [of 4 "4 + (length d + pad4 (length d))"] dvd_add [of 4 4]) simp_all
  then show ?case by (simp add: a length_attr_bytes add.assoc)
qed simp

text \<open>The type field decodes to the type and the class it was made of.\<close>

definition valid_class :: "StunMessageClass \<Rightarrow> bool" where
  "valid_class c \<longleftrightarrow> c \<noteq> StunMsgClassInvalidMessageClass"

lemma bit_16_eqI:
  fixes a b :: u16
  assumes "\<And>n. n \<in> {0, 1, 2, 3, 4, 5, 6, 7, 8, 9, 10, 11, 12, 13, 14, 15} \<Longrightarrow> bit a n = bit b n"
  shows "a = b"
  by (rule bit_word_eqI) (use assms nat16_cases in simp)

lemma bit_high_type:
  fixes t :: u16
  assumes "t < 0x1000" "12 \<le> n"
  shows "\<not> bit t n"
proof -
  have "unat t < 2 ^ 12" using assms(1) by (simp add: word_less_nat_alt)
  also have "(2 :: nat) ^ 12 \<le> 2 ^ n" using assms(2) by (intro power_increasing) simp_all
  finally have "\<not> bit (unat t) n" by (simp add: bit_iff_odd)
  then show ?thesis by (simp add: bit_unsigned_iff)
qed

lemma class_value_bits:
  "valid_class c \<Longrightarrow> bit (StunMessageClass_value c) 0 \<longleftrightarrow> c = StunMsgClassIndication \<or> c = StunMsgClassFailureResponse"
  "valid_class c \<Longrightarrow> bit (StunMessageClass_value c) 1 \<longleftrightarrow> c = StunMsgClassSuccessResponse \<or> c = StunMsgClassFailureResponse"
  by (cases c; simp add: valid_class_def)+

lemma msgTypeField_bit:
  assumes "n < 16"
  shows "bit (msgTypeField t c) n \<longleftrightarrow>
    (9 \<le> n \<and> n \<le> 13 \<and> bit t (n - 2)) \<or> (5 \<le> n \<and> n \<le> 7 \<and> bit t (n - 1)) \<or> (n \<le> 3 \<and> bit t n) \<or>
    (n = 8 \<and> bit (StunMessageClass_value c) 1) \<or> (n = 4 \<and> bit (StunMessageClass_value c) 0)"
  using nat16_cases [OF assms] unfolding msgTypeField_def Let_def bit_or_iff bit_and_iff bit_push_bit_iff
  by (elim insertE emptyE) simp_all

lemma normalized_type_bit:
  assumes "n < 16"
  shows "bit (normalized_type f) n \<longleftrightarrow> (n \<le> 3 \<and> bit f n) \<or> (4 \<le> n \<and> n \<le> 6 \<and> bit f (n + 1)) \<or> (7 \<le> n \<and> n \<le> 11 \<and> bit f (n + 2))"
  using nat16_cases [OF assms]
  by (elim insertE emptyE) (simp_all add: normalized_type_def bit_or_iff bit_and_iff bit_drop_bit_eq)

lemma normalized_msgTypeField:
  assumes "t < 0x1000"
  shows "normalized_type (msgTypeField t c) = t"
proof (rule bit_word_eqI)
  fix n
  assume "n < LENGTH(16)"
  then have "n \<in> {0, 1, 2, 3, 4, 5, 6, 7, 8, 9, 10, 11, 12, 13, 14, 15}" using nat16_cases by simp
  then show "bit (normalized_type (msgTypeField t c)) n = bit t n"
    using bit_high_type [OF assms, of n]
    by (elim insertE emptyE) (simp_all add: normalized_type_bit msgTypeField_bit)
qed

lemma class_msgTypeField: "valid_class c \<Longrightarrow> class_of (msgTypeField t c) = c"
  by (cases c) (simp_all add: class_of_def msgTypeField_bit class_value_bits, simp_all add: valid_class_def)

lemma msgTypeField_top: "msgTypeField t c AND 0xc000 = 0"
  by (rule bit_16_eqI) (auto simp: bit_and_iff msgTypeField_bit)

section \<open>The reader accepts a message and finds its attributes\<close>

definition message_ok :: "bool \<Rightarrow> StunMessageType \<Rightarrow> StunMessageClass \<Rightarrow> StunTransactionId \<Rightarrow> (u16 \<times> bytes) list \<Rightarrow> bool" where
  "message_ok allow t c tid as \<longleftrightarrow>
     t < 0x1000 \<and> valid_class c \<and> wf_transid tid \<and> (allow \<or> take 4 tid = be32 STUN_COOKIE) \<and>
     length as \<le> 30 \<and> (\<forall>(t, d) \<in> set as. length d \<le> 780) \<and> length (attrs_bytes as) \<le> 800"

lemma message_fields:
  assumes "message_ok allow t c tid as"
  shows "msg_type (message t c tid as) = msgTypeField t c" "unat (msg_length (message t c tid as)) = length (attrs_bytes as)"
    "msg_transid (message t c tid as) = tid" "msg_length (message t c tid as) mod 4 = 0"
    "drop 20 (message t c tid as) = attrs_bytes as"
proof -
  have tid: "length tid = 16" and len: "length (attrs_bytes as) \<le> 800" using assms by (auto simp: message_ok_def wf_transid_def)
  show "msg_type (message t c tid as) = msgTypeField t c" by (simp add: msg_type_def message_def)
  have ml: "msg_length (message t c tid as) = of_nat (length (attrs_bytes as))"
    by (simp add: msg_length_def message_def bslice_def)
  show u: "unat (msg_length (message t c tid as)) = length (attrs_bytes as)" using len unfolding ml by (simp add: unat_of_nat)
  show "msg_transid (message t c tid as) = tid" using tid by (simp add: msg_transid_def message_def bslice_def)
  have "unat (msg_length (message t c tid as) mod 4) = 0" using attrs_bytes_dvd [of as] by (simp add: unat_mod u)
  then show "msg_length (message t c tid as) mod 4 = 0" by (simp add: unat_eq_0)
  show "drop 20 (message t c tid as) = attrs_bytes as" using tid by (simp add: message_def)
qed

lemma message_accepted:
  assumes ok: "message_ok allow t c tid as"
  shows "spec_state allow (message t c tid as) = BodyValidated" "body_attrs (message t c tid as) = attr_list 20 as"
proof -
  note f = message_fields [OF ok]
  have len: "length (message t c tid as) = 20 + length (attrs_bytes as)" using ok by (simp add: length_message message_ok_def)
  have cookie: "take 4 tid = be32 STUN_COOKIE \<Longrightarrow> msg_cookie_ok (message t c tid as)" by (simp add: msg_cookie_ok_def f(3))
  have small: "length (attrs_bytes as) \<le> 800" "\<forall>(t, d) \<in> set as. length d \<le> 780" "length as \<le> 30" "allow \<or> take 4 tid = be32 STUN_COOKIE"
    using ok by (auto simp: message_ok_def)
  have hd: "header_ok allow (message t c tid as)"
    using small cookie unfolding header_ok_def f(1) f(2) f(4) by (auto simp: msgTypeField_top)
  have parse: "parse_attrs 20 (drop 20 (message t c tid as)) = Some (attr_list 20 as)"
    unfolding f(5) by (rule parse_attr_bytes [OF small(2)])
  show "body_attrs (message t c tid as) = attr_list 20 as" by (simp add: body_attrs_def parse)
  have "body_ok (message t c tid as)" using small(3) by (simp add: body_ok_def parse MAX_NUM_ATTRIBUTES_def)
  then show "spec_state allow (message t c tid as) = BodyValidated" using hd by (simp add: spec_state_def len f(2))
qed

lemma note_fold_header:
  "rd_msgClass (fold note_attribute xs s) = rd_msgClass s" "rd_msgTypeNormalized (fold note_attribute xs s) = rd_msgTypeNormalized s"
  "rd_transactionid (fold note_attribute xs s) = rd_transactionid s"
  "rd_fMessageIsLegacyFormat (fold note_attribute xs s) = rd_fMessageIsLegacyFormat s"
  by (induction xs arbitrary: s) (simp_all add: note_attribute_def Let_def)

lemma message_read:
  assumes ok: "message_ok allow t c tid as" and ra: "reader_after allow (message t c tid as) r"
  shows "Reader_GetState r = BodyValidated" "GetMessageClass r = c" "GetMessageType r = t" "Reader_GetTransactionId r = tid"
    "IsMessageLegacyFormat r \<longleftrightarrow> take 4 tid \<noteq> be32 STUN_COOKIE"
proof -
  note acc = message_accepted [OF ok] and f = message_fields [OF ok]
  have st: "rd_state r = BodyValidated" using reader_after_state [OF ra] acc by simp
  then show "Reader_GetState r = BodyValidated" by (simp add: Reader_GetState_def)
  obtain b where c: "content r = fold note_attribute (attr_list 20 as) (with_header (message t c tid as) b)"
    using reader_after_content [OF ra acc(1)] acc(2) by auto
  have v: "valid_class c" "t < 0x1000" "length tid = 16" using ok by (auto simp: message_ok_def wf_transid_def)
  show "GetMessageClass r = c" using content_fields(5) [of r] v
    by (simp add: GetMessageClass_def c note_fold_header with_header_def f class_msgTypeField)
  show "GetMessageType r = t" using content_fields(9) [of r] v
    by (simp add: GetMessageType_def c note_fold_header with_header_def f normalized_msgTypeField)
  show "Reader_GetTransactionId r = tid" using content_fields(4) [of r]
    by (simp add: Reader_GetTransactionId_def c note_fold_header with_header_def f)
  have "be32 (ntohl (load32 (take 4 tid))) = take 4 tid" using v by (intro be32_ntohl_load32) simp
  then have "ntohl (load32 (take 4 tid)) = STUN_COOKIE \<longleftrightarrow> take 4 tid = be32 STUN_COOKIE" by (metis be32_inject)
  then show "IsMessageLegacyFormat r \<longleftrightarrow> take 4 tid \<noteq> be32 STUN_COOKIE" using content_fields(10) [of r]
    by (simp add: IsMessageLegacyFormat_def c note_fold_header with_header_def f msg_cookie_ok_def)
qed

definition last_value :: "u16 \<Rightarrow> (u16 \<times> bytes) list \<Rightarrow> bytes option" where
  "last_value t as = map_option snd (find (\<lambda>a. fst a = t) (rev as))"

lemma last_value_simps [simp]: "last_value t [] = None" "last_value t (as @ [(u, d)]) = (if u = t then Some d else last_value t as)"
  by (simp_all add: last_value_def)

lemma last_of_type_snoc: "last_of_type t (as @ [a]) = (if attributeType a = t then Some a else last_of_type t as)"
  by (simp add: last_of_type_def)

lemma attr_list_snoc:
  "attr_list p (as @ [(t, d)]) = attr_list p as @ [\<lparr>attributeType = t, attr_size = of_nat (length d), attr_offset = of_nat (p + length (attrs_bytes as) + 4)\<rparr>]"
  by (induction p as rule: attr_list.induct) (simp_all add: length_attr_bytes add.assoc)

text \<open>What looking up a type in the parsed list gives, and where its value lies.\<close>

lemma lookup_attr_list:
  assumes "length (attrs_bytes as) + p < 65536" "length pre = p"
  shows "last_value t as = None \<Longrightarrow> last_of_type t (attr_list p as) = None"
    and "last_value t as = Some d \<Longrightarrow> \<exists>a. last_of_type t (attr_list p as) = Some a \<and> unat (attr_size a) = length d \<and>
       unat (attr_offset a) + length d \<le> p + length (attrs_bytes as) \<and> attributeType a = t \<and>
       bslice (unat (attr_offset a)) (length d) (pre @ attrs_bytes as @ post) = d"
proof -
  have "(last_value t as = None \<longrightarrow> last_of_type t (attr_list p as) = None) \<and>
    (\<forall>d post. last_value t as = Some d \<longrightarrow> (\<exists>a. last_of_type t (attr_list p as) = Some a \<and> unat (attr_size a) = length d \<and>
       unat (attr_offset a) + length d \<le> p + length (attrs_bytes as) \<and> attributeType a = t \<and>
       bslice (unat (attr_offset a)) (length d) (pre @ attrs_bytes as @ post) = d))"
    using assms
  proof (induction as rule: rev_induct)
    case Nil
    then show ?case by (simp add: last_of_type_def)
  next
    case (snoc x as)
    obtain u e where x: "x = (u, e)" by (cases x)
    have len: "length (attrs_bytes (as @ [x])) = length (attrs_bytes as) + 4 + length e + pad4 (length e)" by (simp add: x length_attr_bytes)
    let ?a = "\<lparr>attributeType = u, attr_size = of_nat (length e), attr_offset = of_nat (p + length (attrs_bytes as) + 4)\<rparr> :: StunAttribute"
    have size: "unat (attr_size ?a) = length e" using snoc.prems len by (simp add: unat_of_nat)
    have off: "unat (attr_offset ?a) = p + length (attrs_bytes as) + 4"
      unfolding StunAttribute.simps unat_of_nat using snoc.prems len by simp
    have val: "bslice (p + length (attrs_bytes as) + 4) (length e) (pre @ attrs_bytes (as @ [x]) @ post) = e" for post
      using snoc.prems(2) by (simp add: x attr_bytes_def bslice_def)
    have small: "length (attrs_bytes as) + p < 65536" using snoc.prems(1) len by simp
    note IH = snoc.IH [OF small snoc.prems(2)]
    show ?case
    proof (cases "u = t")
      case True
      then show ?thesis using size off val len by (simp add: x attr_list_snoc last_of_type_snoc)
    next
      case False
      have app: "pre @ attrs_bytes (as @ [x]) @ post = pre @ attrs_bytes as @ (attr_bytes False u e @ post)" for post by (simp add: x)
      show ?thesis
      proof (intro conjI allI impI)
        assume "last_value t (as @ [x]) = None"
        then show "last_of_type t (attr_list p (as @ [x])) = None"
          using IH False by (simp add: x attr_list_snoc last_of_type_snoc)
      next
        fix d post
        assume "last_value t (as @ [x]) = Some d"
        then have "last_value t as = Some d" using False by (simp add: x)
        then obtain a where "last_of_type t (attr_list p as) = Some a \<and> unat (attr_size a) = length d \<and>
            unat (attr_offset a) + length d \<le> p + length (attrs_bytes as) \<and> attributeType a = t \<and>
            bslice (unat (attr_offset a)) (length d) (pre @ attrs_bytes as @ (attr_bytes False u e @ post)) = d"
          using IH by blast
        then show "\<exists>a. last_of_type t (attr_list p (as @ [x])) = Some a \<and> unat (attr_size a) = length d \<and>
            unat (attr_offset a) + length d \<le> p + length (attrs_bytes (as @ [x])) \<and> attributeType a = t \<and>
            bslice (unat (attr_offset a)) (length d) (pre @ attrs_bytes (as @ [x]) @ post) = d"
          unfolding app using False len by (auto simp: x attr_list_snoc last_of_type_snoc)
      qed
    qed
  qed
  then show "last_value t as = None \<Longrightarrow> last_of_type t (attr_list p as) = None"
    "last_value t as = Some d \<Longrightarrow> \<exists>a. last_of_type t (attr_list p as) = Some a \<and> unat (attr_size a) = length d \<and>
       unat (attr_offset a) + length d \<le> p + length (attrs_bytes as) \<and> attributeType a = t \<and>
       bslice (unat (attr_offset a)) (length d) (pre @ attrs_bytes as @ post) = d" by blast+
qed

end
