(* ===== verification/MessageAccess.thy ===== *)
theory MessageAccess
  imports RoundTrip
begin

text \<open>
  What the getters of the reader return on a message it accepted. \<open>has_value r t d\<close> says that the
  reader finds an attribute of type \<open>t\<close> and that the bytes behind its pointer are \<open>d\<close>; for a wire
  image made of an attribute list it holds of the last value of each type. Each getter is then
  decided by the value, errors included.
\<close>

section \<open>Values\<close>

definition has_value :: "reader \<Rightarrow> u16 \<Rightarrow> bytes \<Rightarrow> bool" where
  "has_value r t d \<longleftrightarrow>
     (\<exists>a. attr_lookup t r = Some a \<and> attributeType a = t \<and> unat (attr_size a) = length d \<and>
          unat (attr_offset a) + length d \<le> length (reader_memory r) \<and>
          bslice (unat (attr_offset a)) (length d) (reader_memory r) = d) \<and>
     CDataStream_GetDataPointerUnsafe (rd_stream r) \<noteq> None"

lemma has_valueE:
  assumes "has_value r t d"
  obtains a p where "attr_lookup t r = Some a" "attributeType a = t" "unat (attr_size a) = length d"
    "CDataStream_GetDataPointerUnsafe (rd_stream r) = Some p"
    "\<And>off n. off + n \<le> length d \<Longrightarrow> attr_memory a off n r = bslice off n d"
    "\<And>i. i < length d \<Longrightarrow> reader_memory r ! (unat (attr_offset a) + i) = d ! i"
proof -
  obtain a p where a: "attr_lookup t r = Some a" "attributeType a = t" "unat (attr_size a) = length d"
    "unat (attr_offset a) + length d \<le> length (reader_memory r)" "bslice (unat (attr_offset a)) (length d) (reader_memory r) = d"
    "CDataStream_GetDataPointerUnsafe (rd_stream r) = Some p"
    using assms by (auto simp: has_value_def)
  have "attr_memory a off n r = bslice off n d" if "off + n \<le> length d" for off n
    unfolding attr_memory_def using bslice_bslice [OF that, of "unat (attr_offset a)" "reader_memory r"] by (simp add: a(5))
  moreover have "reader_memory r ! (unat (attr_offset a) + i) = d ! i" if "i < length d" for i
    using bslice_nth [of i "length d" "unat (attr_offset a)" "reader_memory r"] that a(4,5) by simp
  ultimately show thesis using a that by blast
qed

lemma has_value_nth: "has_value r t d \<Longrightarrow> attr_lookup t r = Some a \<Longrightarrow> i < length d \<Longrightarrow> reader_memory r ! (unat (attr_offset a) + i) = d ! i"
  by (elim has_valueE) simp

lemma has_value_lookup: "has_value r t d \<Longrightarrow> attr_lookup t r \<noteq> None"
  by (auto simp: has_value_def)

lemma message_lookup:
  assumes ok: "message_ok allow t c tid as" and ra: "reader_after allow (message t c tid as) r"
  shows "last_value u as = None \<Longrightarrow> attr_lookup u r = None"
    and "last_value u as = Some d \<Longrightarrow> has_value r u d"
proof -
  note acc = message_accepted [OF ok]
  have len: "length tid = 16" "length (attrs_bytes as) + 20 < 65536" using ok by (auto simp: message_ok_def wf_transid_def)
  let ?pre = "be16 (msgTypeField t c) @ be16 (of_nat (length (attrs_bytes as))) @ tid"
  have m: "message t c tid as = ?pre @ attrs_bytes as" by (simp add: message_def)
  have pre: "length ?pre = 20" using len by simp
  have lk: "attr_lookup u r = last_of_type u (attr_list 20 as)"
    using attr_lookup_parsed [OF ra acc(1), of u] acc(2) by simp
  show "last_value u as = None \<Longrightarrow> attr_lookup u r = None" using lookup_attr_list(1) [OF len(2) pre] by (simp add: lk)
  assume "last_value u as = Some d"
  have h: "stream_holds (message t c tid as) r" using reader_after_stream [OF ra] acc by simp
  then obtain rest where rest: "reader_memory r = message t c tid as @ rest" using reader_memory_prefix by blast
  obtain a where a: "last_of_type u (attr_list 20 as) = Some a" "unat (attr_size a) = length d"
      "unat (attr_offset a) + length d \<le> 20 + length (attrs_bytes as)" "attributeType a = u"
      "bslice (unat (attr_offset a)) (length d) (?pre @ attrs_bytes as @ rest) = d"
    using lookup_attr_list(2) [OF len(2) pre \<open>last_value u as = Some d\<close>] by blast
  have mem: "length (reader_memory r) = 20 + length (attrs_bytes as) + length rest" using rest m pre by simp
  have "CDataStream_GetDataPointerUnsafe (rd_stream r) \<noteq> None"
    using rest m by (auto simp: reader_memory_def message_def be16_def split: option.splits)
  then show "has_value r u d" unfolding has_value_def lk
    using a mem by (intro conjI exI [of _ a]) (simp_all add: rest m)
qed

section \<open>Getters\<close>

lemma has_value_port:
  assumes "has_value r STUN_ATTRIBUTE_RESPONSE_PORT (be16 port)"
  shows "GetResponsePort r = (S_OK, Some port)"
proof -
  obtain a p where a: "attr_lookup STUN_ATTRIBUTE_RESPONSE_PORT r = Some a" "unat (attr_size a) = length (be16 port)"
    "CDataStream_GetDataPointerUnsafe (rd_stream r) = Some p"
    "\<And>off n. off + n \<le> length (be16 port) \<Longrightarrow> attr_memory a off n r = bslice off n (be16 port)"
    by (rule has_valueE [OF assms]) blast
  have "attr_size a = 2" using word_of_unat [OF a(2)] by simp
  moreover have "attr_memory a 0 2 r = be16 port" using a(4) [of 0 2] by (simp add: bslice_def)
  ultimately show ?thesis using a(1,3) by (simp add: GetResponsePort_def STUN_ATTRIBUTE_RESPONSE_PORT_SIZE_def)
qed

lemma has_value_port_size:
  "has_value r STUN_ATTRIBUTE_RESPONSE_PORT d \<Longrightarrow> length d \<noteq> 2 \<Longrightarrow> GetResponsePort r = (E_UNEXPECTED, None)"
  by (elim has_valueE) (auto simp: GetResponsePort_def STUN_ATTRIBUTE_RESPONSE_PORT_SIZE_def split: if_splits)

lemma has_value_change_request:
  assumes "has_value r STUN_ATTRIBUTE_CHANGEREQUEST (change_request_value c)"
  shows "GetChangeRequest r = (S_OK, c)"
proof -
  obtain a p where a: "attr_lookup STUN_ATTRIBUTE_CHANGEREQUEST r = Some a"
    "unat (attr_size a) = length (change_request_value c)" "CDataStream_GetDataPointerUnsafe (rd_stream r) = Some p"
    "\<And>off n. off + n \<le> length (change_request_value c) \<Longrightarrow> attr_memory a off n r = bslice off n (change_request_value c)"
    by (rule has_valueE [OF assms]) blast
  define d :: u32 where "d = (if fChangeIP c then 4 else 0) + (if fChangePort c then 2 else 0)"
  have len: "length (change_request_value c) = 4" by (simp add: change_request_value_def)
  have be: "change_request_value c = be32 d"
    by (auto simp: change_request_value_def be32_def d_def)
  have "attr_memory a 0 4 r = be32 d" using a(4) [of 0 4] len by (simp add: be bslice_def)
  moreover have "attr_size a = 4" using word_of_unat [OF a(2)] len by simp
  moreover have "d AND 4 \<noteq> 0 \<longleftrightarrow> fChangeIP c" "d AND 2 \<noteq> 0 \<longleftrightarrow> fChangePort c" by (auto simp: d_def)
  ultimately show ?thesis using a(1,3) by (simp add: GetChangeRequest_def Let_def stun_consts)
qed

lemma no_change_request:
  "attr_lookup STUN_ATTRIBUTE_CHANGEREQUEST r = None \<Longrightarrow> GetChangeRequest r = (E_FAIL, \<lparr>fChangeIP = False, fChangePort = False\<rparr>)"
  by (simp add: GetChangeRequest_def Let_def)

lemma has_value_padding_size:
  "has_value r STUN_ATTRIBUTE_PADDING d \<Longrightarrow> GetPaddingAttributeSize r = (S_OK, of_nat (length d))"
  by (elim has_valueE) (simp add: GetPaddingAttributeSize_def word_of_unat)

lemma unat_byte: "unat (ucast (x :: u16) :: u8) = unat x mod 256"
  by (simp add: unsigned_ucast_eq unsigned_take_bit_eq take_bit_eq_mod)

lemma unat_wide: "unat (ucast (x :: u8) :: u16) = unat x"
proof -
  have "unat x < 256" using unsigned_less [of x, where ?'a = nat] by simp
  then show ?thesis by (simp add: unsigned_ucast_eq unsigned_take_bit_eq take_bit_eq_mod)
qed

text \<open>The error number is rebuilt from its hundreds digit and the rest.\<close>

lemma error_number:
  assumes "300 \<le> e" "e \<le> (600 :: u16)"
  shows "ucast (ucast (e div 100) AND (0x07 :: u8)) * 100 + ucast (ucast (e mod 100) :: u8) = e"
proof -
  have e: "300 \<le> unat e" "unat e \<le> 600" using assms by (simp_all add: word_le_nat_alt)
  have "unat (e div 100) = unat e div 100" using unat_div [of e 100] by simp
  then have d: "e div 100 = of_nat (unat e div 100)" by (rule word_of_unat)
  have "unat e div 100 = 3 \<or> unat e div 100 = 4 \<or> unat e div 100 = 5 \<or> unat e div 100 = 6"
    using div_le_mono [OF e(1), of 100] div_le_mono [OF e(2), of 100] by auto
  then have hundreds: "ucast (ucast (e div 100) AND (0x07 :: u8)) = e div 100" unfolding d by auto
  have "e mod 100 < 100" by (rule word_mod_less_divisor) simp
  then have "unat (e mod 100) < 100" by (simp add: word_less_nat_alt)
  then have "unat (ucast (ucast (e mod 100) :: u8) :: u16) = unat (e mod 100)"
    unfolding unat_byte unat_wide by simp
  then have rest: "ucast (ucast (e mod 100) :: u8) = e mod 100" by (simp only: word_unat_eq_iff)
  show ?thesis unfolding hundreds rest by (rule word_mod_div_equality)
qed

lemma has_value_error:
  assumes v: "has_value r STUN_ATTRIBUTE_ERRORCODE (error_value e reason)" and e: "300 \<le> e" "e \<le> 600"
  shows "GetErrorCode r = (S_OK, Some e)"
proof -
  obtain a where a: "attr_lookup STUN_ATTRIBUTE_ERRORCODE r = Some a" using has_value_lookup [OF v] by blast
  note nth = has_value_nth [OF v a]
  have len: "2 < length (error_value e reason)" "3 < length (error_value e reason)"
    and val: "error_value e reason ! 2 = ucast (e div 100)" "error_value e reason ! 3 = ucast (e mod 100)"
    unfolding error_value_def by simp_all
  have "reader_memory r ! (unat (attr_offset a) + 2) = ucast (e div 100)" "reader_memory r ! (unat (attr_offset a) + 3) = ucast (e mod 100)"
    by (simp_all only: nth [OF len(1)] nth [OF len(2)] val)
  moreover have "unat (attr_offset a) + 2 + 1 = unat (attr_offset a) + 3" by simp
  ultimately show ?thesis using error_number [OF e] unfolding GetErrorCode_def Let_def a option.case by presburger
qed

lemma has_value_string:
  assumes v: "has_value r t d" and sz: "length d < n"
  shows "GetStringAttributeByType t n r = (S_OK, Some (d @ [0]))"
proof -
  obtain a where a: "attr_lookup t r = Some a" "unat (attr_size a) = length d"
    "\<And>off n. off + n \<le> length d \<Longrightarrow> attr_memory a off n r = bslice off n d"
    by (rule has_valueE [OF v]) blast
  then show ?thesis using sz a(3) [of 0 "length d"] by (simp add: GetStringAttributeByType_def)
qed

lemma has_value_string_long:
  "has_value r t d \<Longrightarrow> n \<le> length d \<Longrightarrow> GetStringAttributeByType t n r = (E_INVALIDARG, None)"
  by (elim has_valueE) (simp add: GetStringAttributeByType_def)

lemma has_value_address:
  assumes v: "has_value r t d" and d: "address_complete d"
  shows "GetAddressHelper t pAddr r = (S_OK, decode_address d)"
proof -
  obtain a where a: "attr_lookup t r = Some a" "unat (attr_size a) = length d"
    "\<And>off n. off + n \<le> length d \<Longrightarrow> attr_memory a off n r = bslice off n d"
    by (rule has_valueE [OF v]) blast
  have "length d < 65536" using unat_u16_lt [of "attr_size a"] a(2) by simp
  then show ?thesis using GetMappedAddress_ok [OF d] a(1,2) a(3) [of 0 "length d"] by (simp add: GetAddressHelper_def Let_def)
qed

lemma has_value_address_bad:
  assumes v: "has_value r t d" and d: "\<not> address_complete d"
  shows "\<not> SUCCEEDED (fst (GetAddressHelper t pAddr r))" "snd (GetAddressHelper t pAddr r) = pAddr"
proof -
  obtain a where a: "attr_lookup t r = Some a" "unat (attr_size a) = length d"
    "\<And>off n. off + n \<le> length d \<Longrightarrow> attr_memory a off n r = bslice off n d"
    by (rule has_valueE [OF v]) blast
  have "length d < 65536" using unat_u16_lt [of "attr_size a"] a(2) by simp
  from GetMappedAddress_short [OF d this, of pAddr]
  show "\<not> SUCCEEDED (fst (GetAddressHelper t pAddr r))" "snd (GetAddressHelper t pAddr r) = pAddr"
    using a(1,2) a(3) [of 0 "length d"] by (simp_all add: GetAddressHelper_def Let_def split_beta)
qed

lemma no_address: "attr_lookup t r = None \<Longrightarrow> GetAddressHelper t pAddr r = (E_FAIL, pAddr)"
  by (simp add: GetAddressHelper_def)

text \<open>An address sent is the address read, up to the parts of the union that are not sent.\<close>

lemma get_mapped:
  assumes "has_value r STUN_ATTRIBUTE_MAPPEDADDRESS (address_value x)" "wf_addr x"
  obtains y where "Reader_GetMappedAddress pAddr r = (S_OK, y)" "same_endpoint y x"
  using has_value_address [OF assms(1) address_value_complete [OF assms(2)], of pAddr] decode_address_value [OF assms(2)] that
  by (simp add: Reader_GetMappedAddress_def)

lemma get_other:
  assumes "has_value r (if legacy then STUN_ATTRIBUTE_CHANGEDADDRESS else STUN_ATTRIBUTE_OTHER_ADDRESS) (address_value x)" "wf_addr x"
    "legacy \<Longrightarrow> attr_lookup STUN_ATTRIBUTE_OTHER_ADDRESS r = None"
  obtains y where "GetOtherAddress pAddr r = (S_OK, y)" "same_endpoint y x"
  using has_value_address [OF assms(1) address_value_complete [OF assms(2)], of pAddr] decode_address_value [OF assms(2)] that
    no_address [OF assms(3), of pAddr] by (cases legacy) (simp_all add: GetOtherAddress_def)

lemma get_origin:
  assumes "has_value r (if legacy then STUN_ATTRIBUTE_SOURCEADDRESS else STUN_ATTRIBUTE_RESPONSE_ORIGIN) (address_value x)" "wf_addr x"
    "legacy \<Longrightarrow> attr_lookup STUN_ATTRIBUTE_RESPONSE_ORIGIN r = None"
  obtains y where "GetResponseOriginAddress pAddr r = (S_OK, y)" "same_endpoint y x"
  using has_value_address [OF assms(1) address_value_complete [OF assms(2)], of pAddr] decode_address_value [OF assms(2)] that
    no_address [OF assms(3), of pAddr] by (cases legacy) (simp_all add: GetResponseOriginAddress_def)

lemma get_xor:
  assumes "has_value r (if legacy then STUN_ATTRIBUTE_XORMAPPEDADDRESS_OPTIONAL else STUN_ATTRIBUTE_XORMAPPEDADDRESS)
      (address_value (CSocketAddress_ApplyStunXorMap tid x))"
    "wf_addr x" "wf_transid tid" "legacy \<Longrightarrow> attr_lookup STUN_ATTRIBUTE_XORMAPPEDADDRESS r = None" "Reader_GetTransactionId r = tid"
  obtains y where "Reader_GetXorMappedAddress pAddr r = (S_OK, y)" "same_endpoint y x"
proof -
  let ?x = "CSocketAddress_ApplyStunXorMap tid x"
  have wf: "wf_addr ?x" using assms(2,3) by simp
  have "GetAddressHelper (if legacy then STUN_ATTRIBUTE_XORMAPPEDADDRESS_OPTIONAL else STUN_ATTRIBUTE_XORMAPPEDADDRESS) pAddr r =
      (S_OK, decode_address (address_value ?x))"
    by (rule has_value_address [OF assms(1) address_value_complete [OF wf]])
  then have "Reader_GetXorMappedAddress pAddr r = (S_OK, CSocketAddress_ApplyStunXorMap tid (decode_address (address_value ?x)))"
    using no_address [OF assms(4), of pAddr] assms(5) by (cases legacy) (simp_all add: Reader_GetXorMappedAddress_def Reader_GetTransactionId_def)
  moreover have "same_endpoint (CSocketAddress_ApplyStunXorMap tid (decode_address (address_value ?x))) x"
    using same_endpoint_xor [OF decode_address_value [OF wf], of tid] ApplyStunXorMap_involution [OF assms(2,3)] by simp
  ultimately show thesis using that by blast
qed

end
