(* ===== verification/MessageBuild.thy ===== *)
theory MessageBuild
  imports MessageAccess
begin

text \<open>
  The message a builder holds. \<open>built s0 legacy t c tid as b\<close> says that the builder \<open>b\<close>, started on
  the stream \<open>s0\<close>, holds a message with type \<open>t\<close>, class \<open>c\<close>, transaction id \<open>tid\<close> and the
  attributes \<open>as\<close>, up to the length field, and that it still writes into the allocation of \<open>s0\<close> if
  the message fits there. The header establishes it, every attribute writer extends it, and the
  length field turns it into the wire image \<open>message t c tid as\<close>.
\<close>

definition built ::
  "datastream \<Rightarrow> bool \<Rightarrow> StunMessageType \<Rightarrow> StunMessageClass \<Rightarrow> StunTransactionId \<Rightarrow> (u16 \<times> bytes) list \<Rightarrow> builder \<Rightarrow> bool" where
  "built s0 legacy t c tid as b \<longleftrightarrow>
     at_end (mb_stream b) \<and> \<not> ds_fNoGrow (mb_stream b) \<and> wf_transid tid \<and> mb_transactionid b = tid \<and> mb_fLegacyMode b = legacy \<and>
     (\<exists>l. length l = 2 \<and> stream_bytes (mb_stream b) = be16 (msgTypeField t c) @ l @ tid @ attrs_bytes as) \<and>
     (20 + length (attrs_bytes as) \<le> CDataStream_allocated s0 \<longrightarrow> same_store s0 (mb_stream b))"

definition sealed ::
  "datastream \<Rightarrow> bool \<Rightarrow> StunMessageType \<Rightarrow> StunMessageClass \<Rightarrow> StunTransactionId \<Rightarrow> (u16 \<times> bytes) list \<Rightarrow> builder \<Rightarrow> bool" where
  "sealed s0 legacy t c tid as b \<longleftrightarrow> built s0 legacy t c tid as b \<and> stream_bytes (mb_stream b) = message t c tid as"

lemma sealed_built: "sealed s0 legacy t c tid as b \<Longrightarrow> built s0 legacy t c tid as b"
  by (simp add: sealed_def)

lemma built_length: "built s0 legacy t c tid as b \<Longrightarrow> length (stream_bytes (mb_stream b)) = 20 + length (attrs_bytes as)"
  by (auto simp: built_def wf_transid_def)

lemma built_room: "built s0 legacy t c tid as b \<Longrightarrow> 20 + length (attrs_bytes as) + n < size_range \<Longrightarrow> builder_room n b"
  using built_length [of s0 legacy t c tid as b]
  by (auto simp: built_def builder_room_def append_room_def stream_room_def at_end_def)

lemma built_store: "built s0 legacy t c tid as b \<Longrightarrow> 20 + length (attrs_bytes as) \<le> CDataStream_allocated s0 \<Longrightarrow> same_store s0 (mb_stream b)"
  by (simp add: built_def)

text \<open>A writer of one attribute.\<close>

lemma built_step:
  assumes b: "built s0 legacy t c tid as b" and w: "bsink.writes f (attr_bytes legacy u d) b"
    and len: "24 + length (attrs_bytes as) + length d + pad4 (length d) < size_range"
  shows "SUCCEEDED (fst (f b))" "built s0 legacy t c tid (as @ [(u, padded legacy d)]) (snd (f b))"
proof -
  let ?x = "attr_bytes legacy u d"
  have lx: "length ?x = 4 + length d + pad4 (length d)" by (simp add: length_attr_bytes)
  have "builder_room (length ?x) b" using built_room [OF b, of "length ?x"] len lx by simp
  with w obtain hr b' where f: "f b = (hr, b')" "SUCCEEDED hr" "builder_ext ?x b b'" by (rule bsink.writesE)
  have ap: "appends ?x (mb_stream b) (mb_stream b')" "mb_transactionid b' = mb_transactionid b" "mb_fLegacyMode b' = mb_fLegacyMode b"
    using f(3) by (simp_all add: builder_ext_def)
  have lb: "length (stream_bytes (mb_stream b)) = 20 + length (attrs_bytes as)" by (rule built_length [OF b])
  have img: "attrs_bytes (as @ [(u, padded legacy d)]) = attrs_bytes as @ ?x" by (simp flip: attr_bytes_padded)
  have store: "20 + length (attrs_bytes as @ ?x) \<le> CDataStream_allocated s0 \<longrightarrow> same_store s0 (mb_stream b')"
    using built_store [OF b] ap(1) lb by (auto simp: appends_def same_store_def)
  show "SUCCEEDED (fst (f b))" using f by simp
  show "built s0 legacy t c tid (as @ [(u, padded legacy d)]) (snd (f b))"
    unfolding built_def f img snd_conv using b ap store by (auto simp: built_def appends_def)
qed

text \<open>The header and the transaction id.\<close>

lemma built_start:
  assumes s: "at_end s0" "stream_bytes s0 = []" "\<not> ds_fNoGrow s0" and alloc: "200 \<le> CDataStream_allocated s0 \<or> CDataStream_allocated s0 = 0"
    and b: "mb_stream b = s0" and tid: "wf_transid tid"
  shows "SUCCEEDED (fst (AddHeader t c b))" "SUCCEEDED (fst (AddTransactionId tid (snd (AddHeader t c b))))"
    "built s0 (mb_fLegacyMode b) t c tid [] (snd (AddTransactionId tid (snd (AddHeader t c b))))"
proof -
  let ?h = "header_bytes t c"
  have pos: "ds_pos s0 = 0" using s by (simp add: at_end_def)
  have "header_ready b" using alloc s b by (auto simp: header_ready_def)
  then have w: "bsink.writes (AddHeader t c) ?h b" by (rule AddHeader_writes)
  have lh: "length ?h = 4" by (simp add: header_bytes_def)
  have "builder_room (length ?h) b" using s b pos lh by (simp add: builder_room_def append_room_def stream_room_def size_range_def)
  with w obtain hr1 b1 where f1: "AddHeader t c b = (hr1, b1)" "SUCCEEDED hr1" "builder_ext ?h b b1" by (rule bsink.writesE)
  have e1: "at_end (mb_stream b1)" "stream_bytes (mb_stream b1) = ?h" "\<not> ds_fNoGrow (mb_stream b1)" "mb_fLegacyMode b1 = mb_fLegacyMode b"
    using f1(3) s b by (auto simp: builder_ext_def appends_def)
  have "builder_room 16 b1" using e1 lh by (simp add: builder_room_def append_room_def stream_room_def size_range_def at_end_def)
  from AddTransactionId_ok [OF tid this] obtain hr2 b2 where f2: "AddTransactionId tid b1 = (hr2, b2)" "SUCCEEDED hr2"
    "builder_ext tid (b1\<lparr>mb_transactionid := tid\<rparr>) b2" by metis
  show "SUCCEEDED (fst (AddHeader t c b))" "SUCCEEDED (fst (AddTransactionId tid (snd (AddHeader t c b))))"
    using f1 f2 by simp_all
  have bytes: "stream_bytes (mb_stream b2) = be16 (msgTypeField t c) @ [0, 0] @ tid"
    using f2(3) e1 by (simp add: builder_ext_def appends_def header_bytes_def)
  have "20 \<le> CDataStream_allocated s0 \<longrightarrow> same_store s0 (mb_stream b2)"
    using f1(3) f2(3) s b e1 lh tid by (auto simp: builder_ext_def appends_def same_store_def wf_transid_def)
  then show "built s0 (mb_fLegacyMode b) t c tid [] (snd (AddTransactionId tid (snd (AddHeader t c b))))"
    using f1 f2 e1 bytes tid by (auto simp: built_def builder_ext_def appends_def intro!: exI [of _ "[0, 0]"])
qed

section \<open>Sealing\<close>

lemma with_length_header:
  assumes "length h = 2" "length l = 2" "length tid = 16"
  shows "with_length (h @ l @ tid @ xs) = h @ be16 (of_nat (length xs)) @ tid @ xs"
proof -
  have "with_length (h @ l @ tid @ xs) = overwrite 2 (be16 (of_nat (length xs))) (h @ l @ tid @ xs)"
    using assms by (simp add: with_length_def)
  also have "... = h @ be16 (of_nat (length xs)) @ tid @ xs" using assms by (intro overwrite_middle) simp_all
  finally show ?thesis .
qed

lemma built_with_length:
  assumes "built s0 legacy t c tid as b"
  shows "with_length (stream_bytes (mb_stream b)) = message t c tid as"
  using assms by (auto simp: built_def message_def wf_transid_def with_length_header)

lemma built_FixLengthField:
  assumes b: "built s0 legacy t c tid as b" and len: "20 + length (attrs_bytes as) < size_range"
  shows "SUCCEEDED (fst (FixLengthField b))" "sealed s0 legacy t c tid as (snd (FixLengthField b))"
proof -
  have e: "at_end (mb_stream b)" using b by (simp add: built_def)
  have l: "20 \<le> length (stream_bytes (mb_stream b))" "length (stream_bytes (mb_stream b)) < size_range"
    using built_length [OF b] len by simp_all
  obtain hr b' where f: "FixLengthField b = (hr, b')" "SUCCEEDED hr" "at_end (mb_stream b')"
    "stream_bytes (mb_stream b') = with_length (stream_bytes (mb_stream b))"
    "same_store (mb_stream b) (mb_stream b')" "same_mode b b'" by (rule FixLengthField_ok [OF e l])
  have bytes: "stream_bytes (mb_stream b') = message t c tid as" by (simp add: f(4) built_with_length [OF b])
  show "SUCCEEDED (fst (FixLengthField b))" using f by simp
  have "\<exists>l. length l = 2 \<and> stream_bytes (mb_stream b') = be16 (msgTypeField t c) @ l @ tid @ attrs_bytes as"
    unfolding bytes message_def by (intro exI [of _ "be16 (of_nat (length (attrs_bytes as)))"]) simp
  then show "sealed s0 legacy t c tid as (snd (FixLengthField b))"
    using b f bytes by (auto simp: sealed_def built_def same_mode_def same_store_def)
qed

lemma sealed_buffer:
  assumes "sealed s0 legacy t c tid as b"
  obtains buf where "ds_buffer (mb_stream b) = Some buf" "buffer_bytes buf = message t c tid as" "wf_buffer buf"
proof -
  have m: "stream_bytes (mb_stream b) = message t c tid as" and e: "at_end (mb_stream b)"
    using assms by (auto simp: sealed_def built_def)
  have "message t c tid as \<noteq> []" by (simp add: message_def)
  then obtain buf where buf: "ds_buffer (mb_stream b) = Some buf" using m by (auto simp: stream_bytes_def split: option.splits)
  moreover have "buffer_bytes buf = message t c tid as" using m buf by (simp add: stream_bytes_def)
  moreover have "wf_buffer buf" using e buf by (auto simp: at_end_def intro: wf_stream_buffer)
  ultimately show thesis using that by blast
qed

lemma built_GetResult:
  assumes b: "built s0 legacy t c tid as b" and len: "20 + length (attrs_bytes as) < size_range"
  obtains buf where "fst (GetResult b) = S_OK" "fst (snd (GetResult b)) = Some buf" "buffer_bytes buf = message t c tid as"
    "wf_buffer buf" "sealed s0 legacy t c tid as (snd (snd (GetResult b)))" "ds_buffer (mb_stream (snd (snd (GetResult b)))) = Some buf"
proof -
  note f = built_FixLengthField [OF b len]
  obtain buf where buf: "ds_buffer (mb_stream (snd (FixLengthField b))) = Some buf" "buffer_bytes buf = message t c tid as" "wf_buffer buf"
    by (rule sealed_buffer [OF f(2)])
  have "GetResult b = (S_OK, Some buf, snd (FixLengthField b))"
    using f(1) buf by (simp add: GetResult_def CDataStream_GetBuffer_def split_beta)
  then show thesis using that buf f(2) by simp
qed

section \<open>Integrity and fingerprint\<close>

text \<open>
  What they are computed over: the message before the attribute, with a length field that counts
  the attribute's \<open>n\<close> bytes.
\<close>

definition covered :: "nat \<Rightarrow> StunMessageType \<Rightarrow> StunMessageClass \<Rightarrow> StunTransactionId \<Rightarrow> (u16 \<times> bytes) list \<Rightarrow> bytes" where
  "covered n t c tid as = be16 (msgTypeField t c) @ be16 (of_nat (length (attrs_bytes as) + n)) @ tid @ attrs_bytes as"

lemma built_covered:
  assumes "built s0 legacy t c tid as b" "length xs = n"
  shows "with_length (stream_bytes (mb_stream b) @ xs) = covered n t c tid as @ xs"
    "take (length (stream_bytes (mb_stream b))) (with_length (stream_bytes (mb_stream b) @ xs)) = covered n t c tid as"
proof -
  obtain l where l: "length l = 2" "stream_bytes (mb_stream b) = be16 (msgTypeField t c) @ l @ tid @ attrs_bytes as" "length tid = 16"
    using assms(1) by (auto simp: built_def wf_transid_def)
  show 1: "with_length (stream_bytes (mb_stream b) @ xs) = covered n t c tid as @ xs"
    using with_length_header [of "be16 (msgTypeField t c)" l tid "attrs_bytes as @ xs"] l assms(2)
    by (simp add: covered_def)
  have "length (covered n t c tid as) = length (stream_bytes (mb_stream b))" using l by (simp add: covered_def)
  then show "take (length (stream_bytes (mb_stream b))) (with_length (stream_bytes (mb_stream b) @ xs)) = covered n t c tid as"
    unfolding 1 by simp
qed

lemma message_snoc:
  "message t c tid (as @ [(u, d)]) = covered (4 + length d + pad4 (length d)) t c tid as @ attr_bytes False u d"
  by (simp add: message_def covered_def length_attr_bytes add.assoc)

lemma sealedI:
  assumes b: "built s0 legacy t c tid as b" and b': "at_end (mb_stream b')" "same_mode b b'" "\<not> ds_fNoGrow (mb_stream b')"
    and bytes: "stream_bytes (mb_stream b') = message t c tid bs"
    and store: "20 + length (attrs_bytes bs) \<le> CDataStream_allocated s0 \<Longrightarrow> same_store s0 (mb_stream b')"
  shows "sealed s0 legacy t c tid bs b'"
proof -
  have "\<exists>l. length l = 2 \<and> stream_bytes (mb_stream b') = be16 (msgTypeField t c) @ l @ tid @ attrs_bytes bs"
    unfolding bytes message_def by (intro exI [of _ "be16 (of_nat (length (attrs_bytes bs)))"]) simp
  then show ?thesis using b b' bytes store by (auto simp: sealed_def built_def same_mode_def)
qed

lemma built_integrity:
  assumes b: "built s0 legacy t c tid as b" and key: "0 < n" "n \<le> length key" and hmac: "\<And>k d. length (hmac k d) = 20"
    and len: "44 + length (attrs_bytes as) < size_range"
  shows "SUCCEEDED (fst (AddMessageIntegrityImpl hmac (Some key) n b))"
    "sealed s0 legacy t c tid (as @ [(STUN_ATTRIBUTE_MESSAGEINTEGRITY, hmac (take n key) (covered 24 t c tid as))])
       (snd (AddMessageIntegrityImpl hmac (Some key) n b))"
proof -
  let ?bs = "stream_bytes (mb_stream b)" and ?as = "as @ [(STUN_ATTRIBUTE_MESSAGEINTEGRITY, hmac (take n key) (covered 24 t c tid as))]"
  have rm: "builder_room 24 b" using built_room [OF b, of 24] len by simp
  have l20: "20 \<le> length ?bs" using built_length [OF b] by simp
  obtain hr b' where f: "AddMessageIntegrityImpl hmac (Some key) n b = (hr, b')" "SUCCEEDED hr" "at_end (mb_stream b')"
    "stream_bytes (mb_stream b') = with_integrity hmac (take n key) ?bs" "grown 24 (mb_stream b) (mb_stream b')" "same_mode b b'"
    by (rule AddMessageIntegrityImpl_ok [OF rm l20 key, of hmac]) (use hmac in blast)+
  have "with_integrity hmac (take n key) ?bs = message t c tid ?as"
    using hmac by (simp add: with_integrity_def Let_def built_covered(2) [OF b] message_snoc attr_bytes_def)
  then have bytes: "stream_bytes (mb_stream b') = message t c tid ?as" using f(4) by simp
  have "same_store s0 (mb_stream b')" if "20 + length (attrs_bytes ?as) \<le> CDataStream_allocated s0"
    using that f(5) built_store [OF b] built_length [OF b] hmac by (auto simp: grown_def same_store_def length_attr_bytes)
  moreover have "\<not> ds_fNoGrow (mb_stream b')" using f(5) b by (simp add: grown_def built_def)
  ultimately have "sealed s0 legacy t c tid ?as b'" using sealedI [OF b f(3,6) _ bytes] by blast
  then show "SUCCEEDED (fst (AddMessageIntegrityImpl hmac (Some key) n b))"
    "sealed s0 legacy t c tid ?as (snd (AddMessageIntegrityImpl hmac (Some key) n b))" using f by simp_all
qed

lemma built_fingerprint:
  assumes b: "built s0 legacy t c tid as b" and len: "28 + length (attrs_bytes as) < size_range"
  shows "SUCCEEDED (fst (AddFingerprintAttribute b))"
    "sealed s0 legacy t c tid (as @ [(STUN_ATTRIBUTE_FINGERPRINT, be32 (fingerprint_value (covered 8 t c tid as)))])
       (snd (AddFingerprintAttribute b))"
proof -
  let ?bs = "stream_bytes (mb_stream b)" and ?as = "as @ [(STUN_ATTRIBUTE_FINGERPRINT, be32 (fingerprint_value (covered 8 t c tid as)))]"
  have rm: "builder_room 8 b" using built_room [OF b, of 8] len by simp
  have l20: "20 \<le> length ?bs" using built_length [OF b] by simp
  obtain hr b' where f: "AddFingerprintAttribute b = (hr, b')" "SUCCEEDED hr" "at_end (mb_stream b')"
    "stream_bytes (mb_stream b') = fingerprinted ?bs" "grown 8 (mb_stream b) (mb_stream b')" "same_mode b b'"
    by (rule AddFingerprintAttribute_ok [OF rm l20])
  have "fingerprinted ?bs = message t c tid ?as"
    by (simp add: fingerprinted_def Let_def built_covered(2) [OF b] message_snoc attr_bytes_def)
  then have bytes: "stream_bytes (mb_stream b') = message t c tid ?as" using f(4) by simp
  have "same_store s0 (mb_stream b')" if "20 + length (attrs_bytes ?as) \<le> CDataStream_allocated s0"
    using that f(5) built_store [OF b] built_length [OF b] by (auto simp: grown_def same_store_def length_attr_bytes)
  moreover have "\<not> ds_fNoGrow (mb_stream b')" using f(5) b by (simp add: grown_def built_def)
  ultimately have "sealed s0 legacy t c tid ?as b'" using sealedI [OF b f(3,6) _ bytes] by blast
  then show "SUCCEEDED (fst (AddFingerprintAttribute b))"
    "sealed s0 legacy t c tid ?as (snd (AddFingerprintAttribute b))" using f by simp_all
qed

end
