(* ===== verification/MessageVerify.thy ===== *)
theory MessageVerify
  imports MessageBuild
begin

text \<open>
  The reader's two checks, on any accepted message and then on the messages the builder makes: the
  fingerprint is valid exactly when it is the checksum of the message before it, and the integrity
  check succeeds exactly when the attribute is the HMAC of the message before it, with the length
  field counting up to the attribute.
\<close>

section \<open>Reading the covered bytes\<close>

lemma read_chunks_ok:
  assumes "wf_stream s" "stream_bytes s = bs" "ds_pos s + 4 * n \<le> length bs" "length bs < size_range"
  shows "read_chunks n acc s = (S_OK, acc @ bslice (ds_pos s) (4 * n) bs)"
  using assms(1-3)
proof (induction n arbitrary: acc s)
  case (Suc n)
  let ?p = "ds_pos s"
  have rd: "CDataStream_ReadUint32 s = (S_OK, load32 (bslice ?p 4 bs), s\<lparr>ds_pos := ?p + 4\<rparr>)"
    using Read_ok [OF Suc.prems(1), of 4] Suc.prems(2,3) assms(4) by (simp add: CDataStream_ReadUint32_def)
  have m: "mem32 (load32 (bslice ?p 4 bs)) = bslice ?p 4 bs" using Suc.prems(3) by (intro mem32_load32) simp
  have "read_chunks n (acc @ bslice ?p 4 bs) (s\<lparr>ds_pos := ?p + 4\<rparr>) = (S_OK, (acc @ bslice ?p 4 bs) @ bslice (?p + 4) (4 * n) bs)"
    using Suc.IH [of "s\<lparr>ds_pos := ?p + 4\<rparr>" "acc @ bslice ?p 4 bs"] Suc.prems by simp
  then show ?case using rd m bslice_plus [of ?p 4 "4 * n" bs] by simp
qed simp

text \<open>The bytes hashed for an attribute at \<open>off\<close>, after which a fingerprint may follow.\<close>

definition integrity_text :: "bool \<Rightarrow> nat \<Rightarrow> bytes \<Rightarrow> bytes" where
  "integrity_text fp off bs =
     take 2 bs @ (if fp then be16 (rd16 (bslice 2 2 bs) - 8) else bslice 2 2 bs) @ bslice 4 (off - 8) bs"

definition integrity_last :: "reader \<Rightarrow> bool" where
  "integrity_last r \<longleftrightarrow> rd_indexMessageIntegrity r = rd_countAttributes r - 1"

definition integrity_then_fingerprint :: "reader \<Rightarrow> bool" where
  "integrity_then_fingerprint r \<longleftrightarrow>
     rd_indexMessageIntegrity r = rd_countAttributes r - 2 \<and> rd_indexFingerprint r = rd_countAttributes r - 1"

lemma ValidateMessageIntegrity_eq:
  assumes h: "stream_holds bs r" "rd_state r = BodyValidated" "length bs < size_range"
    and a: "attr_lookup STUN_ATTRIBUTE_MESSAGEINTEGRITY r = Some a" "attr_size a = 20" "24 \<le> unat (attr_offset a)"
      "unat (attr_offset a) + 20 \<le> length bs" "4 dvd unat (attr_offset a)"
    and idx: "0 < rd_countAttributes r" "0 \<le> rd_indexMessageIntegrity r" "integrity_last r \<or> integrity_then_fingerprint r"
    and key: "0 < n"
  shows "ValidateMessageIntegrity hmac (Some key) n r =
    (if hmac (take n key) (integrity_text (\<not> integrity_last r) (unat (attr_offset a)) bs) = bslice (unat (attr_offset a)) 20 bs
     then S_OK else E_FAIL)"
proof -
  let ?off = "unat (attr_offset a)" and ?last = "rd_countAttributes r - 1"
  let ?s = "CDataStream_Attach (ds_buffer (rd_stream r)) False CDataStream_init"
  have s: "wf_stream ?s" "stream_bytes ?s = bs" "ds_pos ?s = 0"
    using h(1) by (auto simp: stream_holds_def CDataStream_Attach_def CDataStream_Reset_def wf_stream_def stream_bytes_def
        CDataStream_GetSize_def split: option.splits)
  have len: "44 \<le> length bs" using a by simp
  have rd1: "CDataStream_ReadUint16 ?s = (S_OK, load16 (take 2 bs), ?s\<lparr>ds_pos := 2\<rparr>)"
    using ReadUint16_ok [OF s(1)] s len h(3) by (simp add: bslice_def)
  have rd2: "CDataStream_ReadUint16 (?s\<lparr>ds_pos := 2\<rparr>) = (S_OK, load16 (bslice 2 2 bs), ?s\<lparr>ds_pos := 4\<rparr>)"
    using ReadUint16_ok [of "?s\<lparr>ds_pos := 2\<rparr>"] s len h(3) by simp
  have m: "mem16 (load16 (take 2 bs)) = take 2 bs" "mem16 (load16 (bslice 2 2 bs)) = bslice 2 2 bs"
    using len by (simp_all add: mem16_load16)
  have m8: "mem16 (htons (ntohs (load16 (bslice 2 2 bs)) - 8)) = be16 (rd16 (bslice 2 2 bs) - 8)" by (simp add: rd16_def)
  have n4: "4 * ((?off - 8) div 4) = ?off - 8"
  proof -
    have "4 dvd ?off - 8" using a(5) by (simp add: dvd_minus_add) 
    then show ?thesis by simp
  qed
  have chunks: "read_chunks ((?off - 8) div 4) acc (?s\<lparr>ds_pos := 4\<rparr>) = (S_OK, acc @ bslice 4 (?off - 8) bs)" for acc
    using read_chunks_ok [of "?s\<lparr>ds_pos := 4\<rparr>" bs "(?off - 8) div 4" acc] s len h(3) a(4) n4 by simp
  have mem: "attr_memory a 0 20 r = bslice ?off 20 bs" using attr_memory_inside [OF h(1), of a 0 20] a(4) by simp
  have pos: "rd_indexMessageIntegrity r = ?last \<or> (rd_indexMessageIntegrity r = ?last - 1 \<and> rd_indexFingerprint r = ?last)"
    using idx(3) by (auto simp: integrity_last_def integrity_then_fingerprint_def)
  have adj: "rd_indexMessageIntegrity r = ?last - 1 \<longleftrightarrow> \<not> integrity_last r"
    using idx(3) by (auto simp: integrity_last_def integrity_then_fingerprint_def)
  have off: "?off - 4 - 4 = ?off - 8" by simp
  show ?thesis
    unfolding ValidateMessageIntegrity_def Let_def CDataStream_GetBuffer_def snd_conv
    using h(2) idx(1,2) a(1,2) key pos
    by (simp add: rd1 rd2 off chunks mem adj [simplified] m m8 integrity_text_def) (simp add: rd16_def)
qed

text \<open>The checks that come before: each misplaced or missing attribute is refused.\<close>

lemma ValidateMessageIntegrity_refused:
  assumes "rd_state r \<noteq> BodyValidated \<or> attr_lookup STUN_ATTRIBUTE_MESSAGEINTEGRITY r = None \<or> key = None \<or> n = 0 \<or>
    (\<not> integrity_last r \<and> \<not> integrity_then_fingerprint r)"
  shows "\<not> SUCCEEDED (ValidateMessageIntegrity hmac key n r)"
  using assms by (auto simp: ValidateMessageIntegrity_def Let_def integrity_last_def integrity_then_fingerprint_def split: option.split)

section \<open>The fingerprint\<close>

lemma IsFingerprintAttributeValid_eq:
  assumes h: "stream_holds bs r" "rd_state r = BodyValidated" "20 \<le> length bs"
    and a: "attr_lookup STUN_ATTRIBUTE_FINGERPRINT r = Some a" "attributeType a = STUN_ATTRIBUTE_FINGERPRINT" "attr_size a = 4"
      "unat (attr_offset a) + 4 \<le> length bs"
  shows "IsFingerprintAttributeValid r \<longleftrightarrow>
    bslice (unat (attr_offset a)) 4 bs = be32 (fingerprint_value (take (length bs - 8) bs))"
proof -
  have size: "CDataStream_GetSize (rd_stream r) = length bs" using h(1) by (auto simp: stream_holds_def length_stream_bytes)
  obtain rest where rest: "reader_memory r = bs @ rest" using reader_memory_prefix [OF h(1)] by blast
  have "CDataStream_GetDataPointerUnsafe (rd_stream r) \<noteq> None" using rest h(3) by (auto simp: reader_memory_def split: option.splits)
  moreover have "attr_memory a 0 4 r = bslice (unat (attr_offset a)) 4 bs" using attr_memory_inside [OF h(1), of a 0 4] a(4) by simp
  moreover have "take (length bs - 8) (reader_memory r) = take (length bs - 8) bs" by (simp add: rest)
  moreover have "length (bslice (unat (attr_offset a)) 4 bs) = 4" using a(4) by simp
  then have "ntohl (load32 (bslice (unat (attr_offset a)) 4 bs)) = v \<longleftrightarrow> bslice (unat (attr_offset a)) 4 bs = be32 v" for v
    using be32_ntohl_load32 be32_inject by metis
  ultimately show ?thesis using h a size
    by (auto simp: IsFingerprintAttributeValid_def Let_def fingerprint_value_def STUN_HEADER_SIZE_def)
qed

section \<open>Positions of the last attributes\<close>

lemma note_fold_snoc:
  "rd_countAttributes (fold note_attribute (xs @ [a]) r) = rd_countAttributes (fold note_attribute xs r) + 1"
  "rd_indexFingerprint (fold note_attribute (xs @ [a]) r) =
     (if attributeType a = STUN_ATTRIBUTE_FINGERPRINT then rd_countAttributes (fold note_attribute xs r) else rd_indexFingerprint (fold note_attribute xs r))"
  "rd_indexMessageIntegrity (fold note_attribute (xs @ [a]) r) =
     (if attributeType a = STUN_ATTRIBUTE_MESSAGEINTEGRITY then rd_countAttributes (fold note_attribute xs r)
      else rd_indexMessageIntegrity (fold note_attribute xs r))"
  by (simp_all add: note_attribute_def Let_def)

lemma note_fold_count: "rd_countAttributes (fold note_attribute xs r) = rd_countAttributes r + int (length xs)"
proof (induction xs rule: rev_induct)
  case (snoc a xs)
  then show ?case unfolding note_fold_snoc by simp
qed simp

lemma message_content:
  assumes ok: "message_ok allow t c tid as" and ra: "reader_after allow (message t c tid as) r"
  shows "stream_holds (message t c tid as) r" "rd_state r = BodyValidated" "rd_countAttributes r = int (length as)"
    "\<exists>b. rd_countAttributes b = 0 \<and>
       rd_indexFingerprint r = rd_indexFingerprint (fold note_attribute (attr_list 20 as) (with_header (message t c tid as) b)) \<and>
       rd_indexMessageIntegrity r = rd_indexMessageIntegrity (fold note_attribute (attr_list 20 as) (with_header (message t c tid as) b))"
proof -
  note acc = message_accepted [OF ok]
  show "stream_holds (message t c tid as) r" using reader_after_stream [OF ra] acc by simp
  show st: "rd_state r = BodyValidated" using reader_after_state [OF ra] acc by simp
  obtain b where bl: "blank allow b" and c: "content r = fold note_attribute (attr_list 20 as) (with_header (message t c tid as) b)"
    using reader_after_content [OF ra acc(1)] acc(2) by auto
  have c0: "rd_countAttributes (with_header (message t c tid as) b) = 0" using blank_fields(5) [OF bl] by (simp add: with_header_def)
  show "rd_countAttributes r = int (length as)" using content_fields(6) [of r] by (simp add: c note_fold_count c0)
  show "\<exists>b. rd_countAttributes b = 0 \<and>
       rd_indexFingerprint r = rd_indexFingerprint (fold note_attribute (attr_list 20 as) (with_header (message t c tid as) b)) \<and>
       rd_indexMessageIntegrity r = rd_indexMessageIntegrity (fold note_attribute (attr_list 20 as) (with_header (message t c tid as) b))"
    using content_fields(7,8) [of r] blank_fields(5) [OF bl] by (intro exI [of _ b]) (simp add: c)
qed

lemma attr_types [simp]: "STUN_ATTRIBUTE_FINGERPRINT \<noteq> STUN_ATTRIBUTE_MESSAGEINTEGRITY" "STUN_ATTRIBUTE_MESSAGEINTEGRITY \<noteq> STUN_ATTRIBUTE_FINGERPRINT"
  by (simp_all add: stun_consts)

definition tail_attr :: "(u16 \<times> bytes) list \<Rightarrow> u16 \<Rightarrow> bytes \<Rightarrow> StunAttribute" where
  "tail_attr as u d = \<lparr>attributeType = u, attr_size = of_nat (length d), attr_offset = of_nat (20 + length (attrs_bytes as) + 4)\<rparr>"

lemma attr_list_tail: "attr_list 20 (as @ [(u, d)]) = attr_list 20 as @ [tail_attr as u d]"
  by (simp add: attr_list_snoc tail_attr_def)

lemma tail_attr_fields [simp]: "attributeType (tail_attr as u d) = u" "attr_size (tail_attr as u d) = of_nat (length d)"
  "20 + length (attrs_bytes as) + 4 < 65536 \<Longrightarrow> unat (attr_offset (tail_attr as u d)) = 20 + length (attrs_bytes as) + 4"
  by (simp_all add: tail_attr_def unat_of_nat del: of_nat_add)

lemma message_lookup_list:
  assumes ok: "message_ok allow t c tid as" and ra: "reader_after allow (message t c tid as) r"
  shows "attr_lookup u r = last_of_type u (attr_list 20 as)"
  using attr_lookup_parsed [OF ra message_accepted(1) [OF ok]] message_accepted(2) [OF ok] by simp

lemma covered_slices:
  assumes "length tid = 16"
  shows "take 2 (covered n t c tid as) = be16 (msgTypeField t c)" "bslice 2 2 (covered n t c tid as) = be16 (of_nat (length (attrs_bytes as) + n))"
    "drop 4 (covered n t c tid as) = tid @ attrs_bytes as" "length (covered n t c tid as) = 20 + length (attrs_bytes as)"
  using assms by (simp_all add: covered_def bslice_def)

section \<open>Messages of the builder\<close>

text \<open>A message that ends with a fingerprint.\<close>

lemma message_fingerprint:
  assumes ok: "message_ok allow t c tid (as @ [(STUN_ATTRIBUTE_FINGERPRINT, d)])" and d: "length d = 4"
    and ra: "reader_after allow (message t c tid (as @ [(STUN_ATTRIBUTE_FINGERPRINT, d)])) r"
  shows "IsFingerprintAttributeValid r \<longleftrightarrow> d = be32 (fingerprint_value (covered 8 t c tid as))"
proof -
  let ?as = "as @ [(STUN_ATTRIBUTE_FINGERPRINT, d)]" and ?m = "message t c tid (as @ [(STUN_ATTRIBUTE_FINGERPRINT, d)])"
  let ?a = "tail_attr as STUN_ATTRIBUTE_FINGERPRINT d"
  note mc = message_content [OF ok ra]
  have tid: "length tid = 16" and len: "length (attrs_bytes ?as) \<le> 800" using ok by (auto simp: message_ok_def wf_transid_def)
  have A: "length (attrs_bytes as) + 8 \<le> 800" using len d by (simp add: length_attr_bytes)
  have m: "?m = covered 8 t c tid as @ be16 STUN_ATTRIBUTE_FINGERPRINT @ be16 4 @ d"
    using d by (simp add: message_snoc attr_bytes_def)
  have lc: "length (covered 8 t c tid as) = 20 + length (attrs_bytes as)" by (rule covered_slices(4) [OF tid])
  have lm: "length ?m = 28 + length (attrs_bytes as)" by (simp add: m lc d)
  have off: "unat (attr_offset ?a) = 20 + length (attrs_bytes as) + 4" using A by simp
  have look: "attr_lookup STUN_ATTRIBUTE_FINGERPRINT r = Some ?a"
    by (simp add: message_lookup_list [OF ok ra] attr_list_tail last_of_type_snoc)
  have "take (length ?m - 8) ?m = covered 8 t c tid as" unfolding lm by (simp add: m lc)
  moreover have "bslice (20 + length (attrs_bytes as) + 4) 4 ?m = d" by (simp add: m lc d bslice_def)
  moreover have "IsFingerprintAttributeValid r \<longleftrightarrow>
    bslice (unat (attr_offset ?a)) 4 ?m = be32 (fingerprint_value (take (length ?m - 8) ?m))"
    by (rule IsFingerprintAttributeValid_eq [OF mc(1,2) _ look]) (use lm d off in simp_all)
  ultimately show ?thesis unfolding off by simp
qed

text \<open>A message whose integrity attribute is last, or followed by a fingerprint only.\<close>

definition integrity_tail :: "(u16 \<times> bytes) list \<Rightarrow> bytes \<Rightarrow> bytes option \<Rightarrow> (u16 \<times> bytes) list" where
  "integrity_tail as mac fp =
     as @ [(STUN_ATTRIBUTE_MESSAGEINTEGRITY, mac)] @ (case fp of None \<Rightarrow> [] | Some v \<Rightarrow> [(STUN_ATTRIBUTE_FINGERPRINT, v)])"

lemma integrity_tail_indices:
  assumes ok: "message_ok allow t c tid (integrity_tail as mac fp)" and ra: "reader_after allow (message t c tid (integrity_tail as mac fp)) r"
  shows "rd_indexMessageIntegrity r = int (length as)" "0 < rd_countAttributes r"
    "integrity_last r \<longleftrightarrow> fp = None" "fp \<noteq> None \<Longrightarrow> integrity_then_fingerprint r"
    "attr_lookup STUN_ATTRIBUTE_MESSAGEINTEGRITY r = Some (tail_attr as STUN_ATTRIBUTE_MESSAGEINTEGRITY mac)"
proof -
  note mc = message_content [OF ok ra]
  obtain b where b: "rd_countAttributes b = 0"
    "rd_indexFingerprint r = rd_indexFingerprint (fold note_attribute (attr_list 20 (integrity_tail as mac fp)) (with_header (message t c tid (integrity_tail as mac fp)) b))"
    "rd_indexMessageIntegrity r = rd_indexMessageIntegrity (fold note_attribute (attr_list 20 (integrity_tail as mac fp)) (with_header (message t c tid (integrity_tail as mac fp)) b))"
    using mc(4) by auto
  let ?r0 = "with_header (message t c tid (integrity_tail as mac fp)) b"
  have c0: "rd_countAttributes ?r0 = 0" using b(1) by (simp add: with_header_def)
  have lists: "attr_list 20 (integrity_tail as mac fp) =
      (case fp of None \<Rightarrow> attr_list 20 as @ [tail_attr as STUN_ATTRIBUTE_MESSAGEINTEGRITY mac]
       | Some v \<Rightarrow> (attr_list 20 as @ [tail_attr as STUN_ATTRIBUTE_MESSAGEINTEGRITY mac]) @
           [tail_attr (as @ [(STUN_ATTRIBUTE_MESSAGEINTEGRITY, mac)]) STUN_ATTRIBUTE_FINGERPRINT v])"
    unfolding integrity_tail_def
    using attr_list_tail [of "as @ [(STUN_ATTRIBUTE_MESSAGEINTEGRITY, mac)]" STUN_ATTRIBUTE_FINGERPRINT] by (simp add: attr_list_tail split: option.split)
  have mi: "rd_indexMessageIntegrity r = int (length as)"
  proof (cases fp)
    case None
    then have l: "attr_list 20 (integrity_tail as mac fp) = attr_list 20 as @ [tail_attr as STUN_ATTRIBUTE_MESSAGEINTEGRITY mac]"
      unfolding lists by simp
    show ?thesis unfolding b(3) l note_fold_snoc note_fold_count c0 by simp
  next
    case (Some v)
    then have l: "attr_list 20 (integrity_tail as mac fp) = (attr_list 20 as @ [tail_attr as STUN_ATTRIBUTE_MESSAGEINTEGRITY mac]) @
        [tail_attr (as @ [(STUN_ATTRIBUTE_MESSAGEINTEGRITY, mac)]) STUN_ATTRIBUTE_FINGERPRINT v]" unfolding lists by simp
    show ?thesis unfolding b(3) l note_fold_snoc note_fold_count c0 by simp
  qed
  have fi: "rd_indexFingerprint r = int (length as) + 1" if ne: "fp \<noteq> None"
  proof -
    obtain v where v: "fp = Some v" using ne by blast
    then have l: "attr_list 20 (integrity_tail as mac fp) = (attr_list 20 as @ [tail_attr as STUN_ATTRIBUTE_MESSAGEINTEGRITY mac]) @
        [tail_attr (as @ [(STUN_ATTRIBUTE_MESSAGEINTEGRITY, mac)]) STUN_ATTRIBUTE_FINGERPRINT v]" unfolding lists by simp
    show ?thesis unfolding b(2) l note_fold_snoc note_fold_count c0 by simp
  qed
  show "rd_indexMessageIntegrity r = int (length as)" by (rule mi)
  have cnt: "rd_countAttributes r = int (length as) + (if fp = None then 1 else 2)"
    using mc(3) by (auto simp: integrity_tail_def split: option.split)
  show "0 < rd_countAttributes r" by (simp add: cnt)
  show "integrity_last r \<longleftrightarrow> fp = None" by (simp add: integrity_last_def mi cnt)
  show "fp \<noteq> None \<Longrightarrow> integrity_then_fingerprint r" by (simp add: integrity_then_fingerprint_def mi cnt fi)
  show "attr_lookup STUN_ATTRIBUTE_MESSAGEINTEGRITY r = Some (tail_attr as STUN_ATTRIBUTE_MESSAGEINTEGRITY mac)"
    unfolding message_lookup_list [OF ok ra] lists
    by (cases fp) (simp_all only: option.case last_of_type_snoc tail_attr_fields attr_types if_True if_False simp_thms)
qed

lemma integrity_tail_text:
  assumes tid: "length tid = 16" and mac: "length mac = 20" and len: "length (attrs_bytes as) < 60000" and fp: "\<forall>v. fp = Some v \<longrightarrow> length v = 4"
  shows "integrity_text (fp \<noteq> None) (20 + length (attrs_bytes as) + 4) (message t c tid (integrity_tail as mac fp)) = covered 24 t c tid as"
    "bslice (20 + length (attrs_bytes as) + 4) 20 (message t c tid (integrity_tail as mac fp)) = mac"
    "length (message t c tid (integrity_tail as mac fp)) = 44 + length (attrs_bytes as) + (if fp = None then 0 else 8)"
proof -
  let ?n = "24 + (if fp = None then 0 else 8)"
  let ?rest = "case fp of None \<Rightarrow> [] | Some v \<Rightarrow> be16 STUN_ATTRIBUTE_FINGERPRINT @ be16 4 @ v"
  have m: "message t c tid (integrity_tail as mac fp) =
      be16 (msgTypeField t c) @ be16 (of_nat (length (attrs_bytes as) + ?n)) @ tid @ attrs_bytes as @ be16 STUN_ATTRIBUTE_MESSAGEINTEGRITY @ be16 20 @ mac @ ?rest"
    using mac fp by (cases fp) (simp_all add: message_def integrity_tail_def attr_bytes_def add.assoc)
  let ?m = "message t c tid (integrity_tail as mac fp)"
  have sl: "take 2 ?m = be16 (msgTypeField t c)" "bslice 2 2 ?m = be16 (of_nat (length (attrs_bytes as) + ?n))"
    unfolding m by (simp_all add: bslice_def)
  have body: "bslice 4 (16 + length (attrs_bytes as)) ?m = tid @ attrs_bytes as" unfolding m using tid by (simp add: bslice_def)
  have "(of_nat (length (attrs_bytes as) + 32) :: u16) - 8 = of_nat (length (attrs_bytes as) + 24)" by simp
  then show "integrity_text (fp \<noteq> None) (20 + length (attrs_bytes as) + 4) ?m = covered 24 t c tid as"
    using sl body by (auto simp: integrity_text_def covered_def add.commute)
  show "bslice (20 + length (attrs_bytes as) + 4) 20 ?m = mac" unfolding m using tid mac by (simp add: bslice_def)
  show "length ?m = 44 + length (attrs_bytes as) + (if fp = None then 0 else 8)"
    unfolding m using tid mac fp by (auto split: option.split)
qed

lemma message_integrity:
  assumes ok: "message_ok allow t c tid (integrity_tail as mac fp)" and ra: "reader_after allow (message t c tid (integrity_tail as mac fp)) r"
    and mac: "length mac = 20" and fp: "\<forall>v. fp = Some v \<longrightarrow> length v = 4" and n: "0 < n"
  shows "ValidateMessageIntegrity hmac (Some key) n r = (if hmac (take n key) (covered 24 t c tid as) = mac then S_OK else E_FAIL)"
proof -
  note mc = message_content [OF ok ra] and ix = integrity_tail_indices [OF ok ra]
  let ?a = "tail_attr as STUN_ATTRIBUTE_MESSAGEINTEGRITY mac"
  have tid: "length tid = 16" and len: "length (attrs_bytes (integrity_tail as mac fp)) \<le> 800"
    using ok by (auto simp: message_ok_def wf_transid_def)
  have A: "length (attrs_bytes as) \<le> 800" using len by (simp add: integrity_tail_def)
  then have A': "length (attrs_bytes as) < 60000" by simp
  note tx = integrity_tail_text [OF tid mac A' fp]
  have off: "unat (attr_offset ?a) = 20 + length (attrs_bytes as) + 4" using A by simp
  have dvd: "4 dvd unat (attr_offset ?a)" unfolding off using attrs_bytes_dvd [of as] by presburger
  have "ValidateMessageIntegrity hmac (Some key) n r =
    (if hmac (take n key) (integrity_text (\<not> integrity_last r) (unat (attr_offset ?a)) (message t c tid (integrity_tail as mac fp))) =
        bslice (unat (attr_offset ?a)) 20 (message t c tid (integrity_tail as mac fp)) then S_OK else E_FAIL)"
    by (rule ValidateMessageIntegrity_eq [OF mc(1,2) _ ix(5)])
      (use tx(3) mac off dvd A ix n in \<open>auto simp: size_range_def\<close>)
  then show ?thesis unfolding off ix(3) tx(1,2) .
qed

section \<open>Whole messages\<close>

text \<open>
  Writing a whole message with a fresh builder: header, transaction id, attributes, and the three
  ways to end it. \<open>add_attrs\<close> is the sequence of \<open>AddAttribute\<close> calls a client makes; the lemmas
  give the stream's bytes as \<open>message t c tid as\<close>.
\<close>

definition start_message :: "StunMessageType \<Rightarrow> StunMessageClass \<Rightarrow> StunTransactionId \<Rightarrow> builder" where
  "start_message t c tid = snd (AddTransactionId tid (snd (AddHeader t c CStunMessageBuilder_new)))"

definition add_attrs :: "(u16 \<times> bytes) list \<Rightarrow> builder \<Rightarrow> builder" where
  "add_attrs as b = fold (\<lambda>(u, d) b. snd (AddAttribute u (Some d) (of_nat (length d)) b)) as b"

definition new_stream :: datastream where
  "new_stream = mb_stream CStunMessageBuilder_new"

lemma started: "wf_transid tid \<Longrightarrow> built new_stream False t c tid [] (start_message t c tid)"
proof -
  assume tid: "wf_transid tid"
  have s: "at_end new_stream" "stream_bytes new_stream = []" "\<not> ds_fNoGrow new_stream" "CDataStream_allocated new_stream = 0"
    "mb_fLegacyMode CStunMessageBuilder_new = False"
    by (simp_all add: new_stream_def CStunMessageBuilder_new_def at_end_def wf_stream_def stream_bytes_def CDataStream_init_def
        CDataStream_allocated_def CDataStream_GetSize_def)
  from built_start(3) [OF s(1-3) _ new_stream_def [symmetric] tid, of t c] s(4,5) show ?thesis by (simp add: start_message_def)
qed

lemma built_add_attrs:
  "built s0 False t c tid as b \<Longrightarrow> \<forall>(u, d) \<in> set bs. length d \<le> 780 \<Longrightarrow> length (attrs_bytes (as @ bs)) < 60000 \<Longrightarrow>
   built s0 False t c tid (as @ bs) (add_attrs bs b)"
proof (induction bs arbitrary: as b)
  case (Cons x bs)
  obtain u d where x: "x = (u, d)" by (cases x)
  have d: "length d \<le> 780" "length (attr_bytes False u d) \<le> length d + 7" using Cons.prems(2) x pad4_lt [of "length d"]
    by (auto simp: length_attr_bytes)
  have "bsink.writes (AddAttribute u (Some d) (of_nat (length d))) (attr_bytes False u d) b"
    using AddAttribute_whole [of d u b] d Cons.prems(1) by (simp add: built_def)
  from built_step(2) [OF Cons.prems(1) this]
  have "built s0 False t c tid (as @ [(u, d)]) (snd (AddAttribute u (Some d) (of_nat (length d)) b))"
    using d Cons.prems(3) pad4_lt [of "length d"] by (simp add: size_range_def x length_attr_bytes padded_def)
  from Cons.IH [OF this] show ?case using Cons.prems(2,3) by (simp add: add_attrs_def x)
qed (simp add: add_attrs_def)

lemma written:
  assumes "message_ok allow t c tid as"
  shows "built new_stream False t c tid as (add_attrs as (start_message t c tid))"
  using built_add_attrs [OF started [of tid t c], of as] assms by (simp add: message_ok_def)

text \<open>The three endings: nothing, a fingerprint, an integrity attribute.\<close>

definition plain_message :: "StunMessageType \<Rightarrow> StunMessageClass \<Rightarrow> StunTransactionId \<Rightarrow> (u16 \<times> bytes) list \<Rightarrow> builder" where
  "plain_message t c tid as = snd (FixLengthField (add_attrs as (start_message t c tid)))"

definition fingerprint_message :: "StunMessageType \<Rightarrow> StunMessageClass \<Rightarrow> StunTransactionId \<Rightarrow> (u16 \<times> bytes) list \<Rightarrow> builder" where
  "fingerprint_message t c tid as = snd (AddFingerprintAttribute (add_attrs as (start_message t c tid)))"

definition signed_message ::
  "(bytes \<Rightarrow> bytes \<Rightarrow> bytes) \<Rightarrow> bytes \<Rightarrow> StunMessageType \<Rightarrow> StunMessageClass \<Rightarrow> StunTransactionId \<Rightarrow> (u16 \<times> bytes) list \<Rightarrow> builder" where
  "signed_message hmac pw t c tid as = snd (AddMessageIntegrityShortTerm hmac pw (add_attrs as (start_message t c tid)))"

definition builder_bytes :: "builder \<Rightarrow> bytes" where
  "builder_bytes b = stream_bytes (mb_stream b)"

lemma plain_bytes: "message_ok allow t c tid as \<Longrightarrow> builder_bytes (plain_message t c tid as) = message t c tid as"
  using built_FixLengthField(2) [OF written [of allow t c tid as]]
  by (simp add: plain_message_def sealed_def builder_bytes_def message_ok_def size_range_def)

lemma fingerprint_bytes:
  assumes "message_ok allow t c tid as"
  shows "builder_bytes (fingerprint_message t c tid as) =
    message t c tid (as @ [(STUN_ATTRIBUTE_FINGERPRINT, be32 (fingerprint_value (covered 8 t c tid as)))])"
  using built_fingerprint(2) [OF written [OF assms]] assms
  by (simp add: fingerprint_message_def sealed_def builder_bytes_def message_ok_def size_range_def)

lemma signed_bytes:
  assumes "message_ok allow t c tid as" "cstr pw \<noteq> []" "\<forall>k d. length (hmac k d) = 20"
  shows "builder_bytes (signed_message hmac pw t c tid as) =
    message t c tid (as @ [(STUN_ATTRIBUTE_MESSAGEINTEGRITY, hmac (cstr pw) (covered 24 t c tid as))])"
proof -
  have "0 < strlen pw" "strlen pw \<le> length pw" using assms(2) strlen_le by (auto simp: strlen_cstr)
  from built_integrity(2) [where hmac = hmac, OF written [OF assms(1)] this] assms(1,3) show ?thesis
    by (simp add: signed_message_def AddMessageIntegrityShortTerm_def sealed_def builder_bytes_def message_ok_def size_range_def take_strlen)
qed

text \<open>An integrity attribute with a fingerprint after it.\<close>

definition signed_fingerprint_message ::
  "(bytes \<Rightarrow> bytes \<Rightarrow> bytes) \<Rightarrow> bytes \<Rightarrow> StunMessageType \<Rightarrow> StunMessageClass \<Rightarrow> StunTransactionId \<Rightarrow> (u16 \<times> bytes) list \<Rightarrow> builder" where
  "signed_fingerprint_message hmac pw t c tid as = snd (AddFingerprintAttribute (signed_message hmac pw t c tid as))"

lemma signed_built:
  assumes "message_ok allow t c tid as" "cstr pw \<noteq> []" "\<forall>k d. length (hmac k d) = 20"
  shows "built new_stream False t c tid (as @ [(STUN_ATTRIBUTE_MESSAGEINTEGRITY, hmac (cstr pw) (covered 24 t c tid as))]) (signed_message hmac pw t c tid as)"
proof -
  have "0 < strlen pw" "strlen pw \<le> length pw" using assms(2) strlen_le by (auto simp: strlen_cstr)
  from built_integrity(2) [where hmac = hmac, OF written [OF assms(1)] this] assms(1,3) show ?thesis
    by (simp add: signed_message_def AddMessageIntegrityShortTerm_def sealed_built message_ok_def size_range_def take_strlen)
qed

lemma signed_fingerprint_bytes:
  assumes "message_ok allow t c tid as" "cstr pw \<noteq> []" "\<forall>k d. length (hmac k d) = 20"
  shows "\<exists>v. builder_bytes (signed_fingerprint_message hmac pw t c tid as) =
    message t c tid (integrity_tail as (hmac (cstr pw) (covered 24 t c tid as)) (Some (be32 v)))"
  using built_fingerprint(2) [OF signed_built [OF assms]] assms
  by (auto simp: signed_fingerprint_message_def sealed_def builder_bytes_def message_ok_def size_range_def integrity_tail_def length_attr_bytes)

text \<open>Whatever is written after the header and the id, the length field counts it.\<close>

definition raw_message :: "StunMessageType \<Rightarrow> StunMessageClass \<Rightarrow> StunTransactionId \<Rightarrow> bytes \<Rightarrow> bytes" where
  "raw_message t c tid xs = be16 (msgTypeField t c) @ be16 (of_nat (length xs)) @ tid @ xs"

lemma raw_bytes:
  assumes w: "bsink.writes f xs (start_message t c tid)" and tid: "wf_transid tid" and len: "length xs < 60000"
  shows "SUCCEEDED (fst (f (start_message t c tid)))"
    "builder_bytes (snd (FixLengthField (snd (f (start_message t c tid))))) = raw_message t c tid xs"
proof -
  let ?b = "start_message t c tid"
  have b: "built new_stream False t c tid [] ?b" by (rule started [OF tid])
  have "builder_room (length xs) ?b" by (rule built_room [OF b]) (use len in \<open>simp add: size_range_def\<close>)
  with w obtain hr b' where f: "f ?b = (hr, b')" "SUCCEEDED hr" "builder_ext xs ?b b'" by (rule bsink.writesE)
  obtain l where l: "length l = 2" "stream_bytes (mb_stream ?b) = be16 (msgTypeField t c) @ l @ tid" using b by (auto simp: built_def)
  have e: "at_end (mb_stream b')" "stream_bytes (mb_stream b') = be16 (msgTypeField t c) @ l @ tid @ xs"
    using f(3) l by (simp_all add: builder_ext_def appends_def)
  have len20: "20 \<le> length (stream_bytes (mb_stream b'))" "length (stream_bytes (mb_stream b')) < size_range"
    using e(2) l tid len by (simp_all add: wf_transid_def size_range_def)
  obtain hr2 b2 where g: "FixLengthField b' = (hr2, b2)" "stream_bytes (mb_stream b2) = with_length (stream_bytes (mb_stream b'))"
    by (rule FixLengthField_ok [OF e(1) len20])
  show "SUCCEEDED (fst (f ?b))" using f by simp
  show "builder_bytes (snd (FixLengthField (snd (f ?b)))) = raw_message t c tid xs"
    using f g e(2) l(1) tid by (simp add: builder_bytes_def raw_message_def wf_transid_def with_length_header)
qed

text \<open>A message of one attribute, written by any of the attribute writers.\<close>

lemma single_bytes:
  assumes w: "bsink.writes f (attr_bytes False u d) (start_message t c tid)" and tid: "wf_transid tid" and d: "length d \<le> 780"
  shows "SUCCEEDED (fst (f (start_message t c tid)))"
    "builder_bytes (snd (FixLengthField (snd (f (start_message t c tid))))) = message t c tid [(u, d)]"
proof -
  have len: "length (attr_bytes False u d) < 60000" using d pad4_lt [of "length d"] by (simp add: length_attr_bytes)
  show "SUCCEEDED (fst (f (start_message t c tid)))" by (rule raw_bytes(1) [OF w tid len])
  show "builder_bytes (snd (FixLengthField (snd (f (start_message t c tid))))) = message t c tid [(u, d)]"
    using raw_bytes(2) [OF w tid len] by (simp add: message_def raw_message_def)
qed

section \<open>Receiving\<close>

lemma AddBytes_take: "AddBytes (Some xs) n = AddBytes (Some (take n xs)) n"
  unfolding AddBytes_def [abs_def] CDataStream_Write_take [of xs n] ..

text \<open>A new reader fed with pieces, one \<open>AddBytes\<close> call for each.\<close>

definition received :: "bool \<Rightarrow> bytes list \<Rightarrow> reader" where
  "received allow xss = feed xss (SetAllowLegacyFormat allow CStunMessageReader_new)"

lemma received_from: "length (concat xss) < size_range \<Longrightarrow> reader_from (fresh_reader allow) allow (concat xss) (received allow xss)"
  using feed_from [OF fresh_blank fresh_from, of xss allow] by (simp add: received_def fresh_reader_def SetAllowLegacyFormat_def)

lemma received_after: "length (concat xss) < size_range \<Longrightarrow> reader_after allow (concat xss) (received allow xss)"
  using received_from fresh_blank unfolding reader_after_def by blast

lemma message_small: "message_ok allow t c tid as \<Longrightarrow> length (message t c tid as) < size_range"
  by (simp add: message_ok_def length_message size_range_def)

lemma received_message:
  "message_ok allow t c tid as \<Longrightarrow> concat xss = message t c tid as \<Longrightarrow> reader_after allow (message t c tid as) (received allow xss)"
  using received_after [of xss allow] message_small by simp

text \<open>The transaction id of the examples.\<close>

definition demo_id :: StunTransactionId where
  "demo_id = replicate 16 7"

end
