(* ===== verification/CodecTheorems.thy ===== *)
theory CodecTheorems
  imports MessageVerify MessageAccess ReaderCorrect
begin

text \<open>
  The properties of the codec: the builder and the incremental reader of STUN messages, the address
  attributes, the fingerprint and the integrity attribute. A reader is fed by \<open>feed\<close>, one
  \<open>AddBytes\<close> call for each piece; \<open>received\<close> starts from a new reader.
\<close>

section \<open>The incremental reader\<close>

text \<open>C8: The parse state after any sequence of \<open>AddBytes\<close> calls depends only on the bytes received:
  it is the state the grammar of a message gives the whole text, however it was cut into pieces.\<close>

theorem reader_state_of_text:
  assumes "length (concat xss) < size_range"
  shows "Reader_GetState (received allow xss) = spec_state allow (concat xss)"
  using reader_after_state [OF received_after [OF assms]] by (simp add: Reader_GetState_def)

lemma reader_state_of_text_witness:
  "Reader_GetState (received False [[0xff, 0xff], replicate 18 0]) = ParseError"
proof -
  have "take 2 (0xff # 0xff # replicate 18 (0 :: u8)) = be16 0xffff" by (simp add: be16_def)
  then have "msg_type (0xff # 0xff # replicate 18 0) = 0xffff" unfolding msg_type_def by (simp only: rd16_be16)
  then have "\<not> header_ok False (0xff # 0xff # replicate 18 0)" by (simp add: header_ok_def)
  then show ?thesis using reader_state_of_text [of "[[0xff, 0xff], replicate 18 0]" False]
    by (simp add: spec_state_def size_range_def)
qed

definition demo_attrs :: "(u16 \<times> bytes) list" where
  "demo_attrs = [(STUN_ATTRIBUTE_USERNAME, [0x61, 0x62]), (STUN_ATTRIBUTE_REALM, [0x72])]"

lemma demo_ok: "message_ok True StunMsgTypeBinding StunMsgClassRequest demo_id demo_attrs"
  "message_ok True StunMsgTypeBinding StunMsgClassRequest demo_id (demo_attrs @ [(STUN_ATTRIBUTE_FINGERPRINT, be32 v)])"
  "length m = 20 \<Longrightarrow> message_ok True StunMsgTypeBinding StunMsgClassRequest demo_id (demo_attrs @ [(STUN_ATTRIBUTE_MESSAGEINTEGRITY, m)])"
  by (simp_all add: message_ok_def demo_attrs_def demo_id_def valid_class_def wf_transid_def length_attr_bytes StunMsgTypeBinding_def pad4_def)

lemma demo_values: "last_value STUN_ATTRIBUTE_REALM demo_attrs = Some [0x72]" "last_value STUN_ATTRIBUTE_NONCE demo_attrs = None"
  by (simp_all add: demo_attrs_def last_value_def stun_consts)

text \<open>Two ways of cutting the same text into pieces leave readers that answer every query alike:
  state, class, type, transaction id, legacy flag, and the lookup of every attribute.\<close>

theorem reader_segmentation:
  assumes "concat xss = concat yss" "length (concat xss) < size_range" "Reader_GetState (received allow xss) \<noteq> ParseError"
  shows "Reader_GetState (received allow xss) = Reader_GetState (received allow yss) \<and>
    GetMessageClass (received allow xss) = GetMessageClass (received allow yss) \<and>
    GetMessageType (received allow xss) = GetMessageType (received allow yss) \<and>
    Reader_GetTransactionId (received allow xss) = Reader_GetTransactionId (received allow yss) \<and>
    IsMessageLegacyFormat (received allow xss) = IsMessageLegacyFormat (received allow yss) \<and>
    (\<forall>u. GetAttributeByType u (received allow xss) = GetAttributeByType u (received allow yss))"
proof -
  have x: "reader_from (fresh_reader allow) allow (concat xss) (received allow xss)"
    and y: "reader_from (fresh_reader allow) allow (concat xss) (received allow yss)"
    using received_from [of xss allow] received_from [of yss allow] assms(1,2) by simp_all
  have st: "rd_state (received allow xss) = rd_state (received allow yss)" using x y by (simp add: reader_from_def)
  have "content (received allow xss) = content (received allow yss)" using x y assms(3) by (simp add: reader_from_def Reader_GetState_def)
  from content_eqD [OF this] st show ?thesis
    by (simp add: Reader_GetState_def GetMessageClass_def GetMessageType_def Reader_GetTransactionId_def IsMessageLegacyFormat_def
        GetAttributeByType_def attr_lookup_def)
qed

lemma reader_segmentation_witness:
  "let m = message StunMsgTypeBinding StunMsgClassRequest demo_id demo_attrs
   in Reader_GetState (received True [m]) = BodyValidated \<and>
      (\<forall>u. GetAttributeByType u (received True [m]) = GetAttributeByType u (received True [take 21 m, [], drop 21 m]))"
proof -
  let ?m = "message StunMsgTypeBinding StunMsgClassRequest demo_id demo_attrs"
  have "reader_after True ?m (received True [?m])" using received_message [OF demo_ok(1), of "[?m]"] by simp
  then have st: "Reader_GetState (received True [?m]) = BodyValidated" using message_read(1) [OF demo_ok(1)] by simp
  with reader_segmentation [of "[?m]" "[take 21 ?m, [], drop 21 ?m]" True] message_small [OF demo_ok(1)]
  show ?thesis unfolding Let_def by simp
qed

text \<open>Along any \<open>AddBytes\<close> call the parse state only moves forward, in the order header not read,
  header validated, body validated, parse error; the state returned does too. In particular an
  error is final.\<close>

theorem AddBytes_moves_forward:
  "Reader_GetState r \<le> fst (AddBytes pData n r) \<and> Reader_GetState r \<le> Reader_GetState (snd (AddBytes pData n r)) \<and>
   (Reader_GetState r = ParseError \<longrightarrow> AddBytes pData n r = (ParseError, r))"
  using AddBytes_up by (simp add: Reader_GetState_def) (simp add: AddBytes_def)

lemma AddBytes_moves_forward_witness:
  "AddBytes (Some [1, 2]) 2 (CStunMessageReader_new\<lparr>rd_state := ParseError\<rparr>) = (ParseError, CStunMessageReader_new\<lparr>rd_state := ParseError\<rparr>)"
  using AddBytes_moves_forward [of "CStunMessageReader_new\<lparr>rd_state := ParseError\<rparr>" "Some [1, 2]" 2] by (simp add: Reader_GetState_def)

text \<open>\<open>HowManyBytesNeeded\<close> is exact: a reader that is still waiting keeps its state on fewer bytes
  than it asks for, and leaves it on as many, so a server that reads that many at a time advances
  with every read.\<close>

theorem needed_bytes_advance:
  assumes "length (concat xss) + length xs < size_range" "Reader_GetState (received allow xss) \<in> {HeaderNotRead, HeaderValidated}"
  shows "Reader_GetState (received allow (xss @ [xs])) = Reader_GetState (received allow xss) \<longleftrightarrow>
    length xs < unat (HowManyBytesNeeded (received allow xss))"
proof -
  note a = received_after [of xss allow] received_after [of "xss @ [xs]" allow]
  have r: "reader_after allow (concat xss) (received allow xss)" "reader_after allow (concat xss @ xs) (received allow (xss @ [xs]))"
    using a assms(1) by simp_all
  show ?thesis using needed_progress [OF r(1), of xs] reader_after_state [OF r(1)] reader_after_state [OF r(2)] assms(2) by (auto simp: Reader_GetState_def)
qed

lemma needed_bytes_advance_witness:
  "Reader_GetState (received True [replicate 7 0, replicate 12 0]) = HeaderNotRead \<longleftrightarrow> 12 < unat (HowManyBytesNeeded (received True [replicate 7 0]))"
proof -
  have "Reader_GetState (received True [replicate 7 0]) = HeaderNotRead"
    using reader_after_state [OF received_after [of "[replicate 7 0]" True]] by (simp add: Reader_GetState_def spec_state_def size_range_def)
  then show ?thesis using needed_bytes_advance [of "[replicate 7 0]" "replicate 12 0" True] by (simp add: size_range_def)
qed

text \<open>C23: Every attribute the reader of an accepted message finds lies inside the message: after the
  header and its own type and length, and with its whole value before the end of the bytes received, of
  which there are at most 820. What a getter reads beyond the size of the value it found is not covered by this.\<close>

theorem attributes_inside:
  assumes "length (concat xss) < size_range" "Reader_GetState (received allow xss) = BodyValidated"
    "GetAttributeByType u (received allow xss) = (hr, Some a)"
  shows "24 \<le> unat (attr_offset a) \<and> unat (attr_offset a) + unat (attr_size a) \<le> length (concat xss) \<and> attributeType a = u \<and>
    length (concat xss) \<le> 820"
proof -
  have ra: "reader_after allow (concat xss) (received allow xss)" by (rule received_after [OF assms(1)])
  then have st: "spec_state allow (concat xss) = BodyValidated" using reader_after_state [OF ra] assms(2) by (simp add: Reader_GetState_def)
  have "last_of_type u (body_attrs (concat xss)) = Some a"
    using attr_lookup_parsed [OF ra st, of u] assms(3) by (auto simp: GetAttributeByType_def split: option.splits)
  then have a: "a \<in> set (body_attrs (concat xss))" "attributeType a = u" using last_of_type_mem by blast+
  have "length (concat xss) \<le> 820" using st by (auto simp: spec_state_def header_ok_def split: if_splits)
  then show ?thesis using body_attrs_inside [OF st a(1)] a(2) by simp
qed

lemma attributes_inside_witness:
  "\<exists>a. GetAttributeByType STUN_ATTRIBUTE_REALM (received True [message StunMsgTypeBinding StunMsgClassRequest demo_id demo_attrs]) = (S_OK, Some a) \<and>
     24 \<le> unat (attr_offset a)"
proof -
  let ?m = "message StunMsgTypeBinding StunMsgClassRequest demo_id demo_attrs"
  have ra: "reader_after True ?m (received True [?m])" using received_message [OF demo_ok(1), of "[?m]"] by simp
  obtain a where "GetAttributeByType STUN_ATTRIBUTE_REALM (received True [?m]) = (S_OK, Some a)"
    using has_value_lookup [OF message_lookup(2) [OF demo_ok(1) ra demo_values(1)]] by (auto simp: GetAttributeByType_def)
  then show ?thesis using attributes_inside [of "[?m]" True STUN_ATTRIBUTE_REALM S_OK a] message_read(1) [OF demo_ok(1) ra]
    message_small [OF demo_ok(1)] by auto
qed

section \<open>What is written is read\<close>

text \<open>C7: Round trip of a whole message: a header, a transaction id and any attributes written by a
  builder, then received in any pieces, give a reader with the message's class, type and id, with
  each attribute's last value, and with none of the attributes that were not written.\<close>

theorem message_roundtrip:
  assumes ok: "message_ok allow t c tid as" and xss: "concat xss = builder_bytes (plain_message t c tid as)"
  shows "Reader_GetState (received allow xss) = BodyValidated \<and> GetMessageClass (received allow xss) = c \<and> GetMessageType (received allow xss) = t \<and>
    Reader_GetTransactionId (received allow xss) = tid \<and> (IsMessageLegacyFormat (received allow xss) \<longleftrightarrow> take 4 tid \<noteq> be32 STUN_COOKIE) \<and>
    (\<forall>u n. case last_value u as of
       None \<Rightarrow> GetAttributeByType u (received allow xss) = (E_FAIL, None)
     | Some d \<Rightarrow> GetStringAttributeByType u n (received allow xss) = (if length d < n then (S_OK, Some (d @ [0])) else (E_INVALIDARG, None)))"
proof -
  have ra: "reader_after allow (message t c tid as) (received allow xss)" using received_message [OF ok] xss plain_bytes [OF ok] by simp
  have attrs: "case last_value u as of
       None \<Rightarrow> GetAttributeByType u (received allow xss) = (E_FAIL, None)
     | Some d \<Rightarrow> GetStringAttributeByType u n (received allow xss) = (if length d < n then (S_OK, Some (d @ [0])) else (E_INVALIDARG, None))" for u n
    using message_lookup [OF ok ra, of u] has_value_string has_value_string_long
    by (auto simp: GetAttributeByType_def split: option.split)
  show ?thesis using message_read [OF ok ra] attrs by blast
qed

lemma message_roundtrip_witness:
  "GetStringAttributeByType STUN_ATTRIBUTE_REALM 65
     (received True [builder_bytes (plain_message StunMsgTypeBinding StunMsgClassRequest demo_id demo_attrs)]) = (S_OK, Some [0x72, 0])"
  using message_roundtrip [OF demo_ok(1), of "[builder_bytes (plain_message StunMsgTypeBinding StunMsgClassRequest demo_id demo_attrs)]"]
    demo_values(1) by (auto dest!: spec [of _ STUN_ATTRIBUTE_REALM])

text \<open>A message the builder ends with a fingerprint is one the reader finds valid.\<close>

theorem fingerprint_roundtrip:
  assumes ok: "message_ok allow t c tid as" "message_ok allow t c tid (as @ [(STUN_ATTRIBUTE_FINGERPRINT, replicate 4 0)])"
    and xss: "concat xss = builder_bytes (fingerprint_message t c tid as)"
  shows "HasFingerprintAttribute (received allow xss) \<and> IsFingerprintAttributeValid (received allow xss)"
proof -
  let ?d = "be32 (fingerprint_value (covered 8 t c tid as))"
  have ok': "message_ok allow t c tid (as @ [(STUN_ATTRIBUTE_FINGERPRINT, ?d)])" using ok(2) by (simp add: message_ok_def length_attr_bytes)
  have ra: "reader_after allow (message t c tid (as @ [(STUN_ATTRIBUTE_FINGERPRINT, ?d)])) (received allow xss)"
    using received_message [OF ok'] xss fingerprint_bytes [OF ok(1)] by simp
  have "has_value (received allow xss) STUN_ATTRIBUTE_FINGERPRINT ?d" by (rule message_lookup(2) [OF ok' ra]) simp
  then show ?thesis using message_fingerprint [OF ok' _ ra] has_value_lookup by (auto simp: HasFingerprintAttribute_def)
qed

lemma fingerprint_roundtrip_witness:
  "IsFingerprintAttributeValid (received True [builder_bytes (fingerprint_message StunMsgTypeBinding StunMsgClassRequest demo_id demo_attrs)])"
proof -
  have "message_ok True StunMsgTypeBinding StunMsgClassRequest demo_id (demo_attrs @ [(STUN_ATTRIBUTE_FINGERPRINT, replicate 4 0)])"
    using demo_ok(2) [of 0] by (simp add: be32_def numeral_eq_Suc)
  then show ?thesis using fingerprint_roundtrip [OF demo_ok(1)] by simp
qed

text \<open>A received message that ends with a fingerprint attribute is found valid exactly when the
  attribute is the CRC-32 of everything before it, XORed with the constant of RFC 5389.\<close>

theorem fingerprint_valid_iff:
  assumes "message_ok allow t c tid (as @ [(STUN_ATTRIBUTE_FINGERPRINT, d)])" "length d = 4"
    "concat xss = message t c tid (as @ [(STUN_ATTRIBUTE_FINGERPRINT, d)])"
  shows "IsFingerprintAttributeValid (received allow xss) \<longleftrightarrow>
    d = be32 (crc32 (take (length (concat xss) - 8) (concat xss)) XOR STUN_FINGERPRINT_XOR)"
proof -
  have "take (length (concat xss) - 8) (concat xss) = covered 8 t c tid as"
    using assms(1,2) unfolding assms(3) message_snoc
    by (simp add: message_ok_def length_attr_bytes pad4_def covered_slices wf_transid_def)
  then show ?thesis using message_fingerprint [OF assms(1,2) received_message [OF assms(1,3)]] by (simp add: fingerprint_value_def)
qed

lemma fingerprint_valid_iff_witness:
  "\<not> IsFingerprintAttributeValid (received True [message StunMsgTypeBinding StunMsgClassRequest demo_id
      (demo_attrs @ [(STUN_ATTRIBUTE_FINGERPRINT, be32 (NOT (fingerprint_value (covered 8 StunMsgTypeBinding StunMsgClassRequest demo_id demo_attrs))))])])"
proof -
  let ?v = "fingerprint_value (covered 8 StunMsgTypeBinding StunMsgClassRequest demo_id demo_attrs)"
  let ?m = "message StunMsgTypeBinding StunMsgClassRequest demo_id (demo_attrs @ [(STUN_ATTRIBUTE_FINGERPRINT, be32 (NOT ?v))])"
  have "take (length ?m - 8) ?m = covered 8 StunMsgTypeBinding StunMsgClassRequest demo_id demo_attrs"
    unfolding message_snoc by (simp add: length_attr_bytes pad4_def covered_slices demo_id_def)
  moreover have "bit (NOT ?v) 0 \<noteq> bit ?v 0" by (simp add: bit_not_iff del: bit_0)
  then have "be32 (NOT ?v) \<noteq> be32 ?v" by (metis be32_inject)
  ultimately show ?thesis using fingerprint_valid_iff [OF demo_ok(2), of "NOT ?v" "[?m]"] by (simp add: fingerprint_value_def)
qed

text \<open>C33: Integrity, short term: the reader accepts a message signed with one password, followed or not by
  a fingerprint, against another password exactly when both passwords give the same HMAC over the
  message up to the integrity attribute, the header's length counting that attribute and nothing
  after it. In particular the password it was signed with is accepted.\<close>

theorem integrity_roundtrip:
  assumes ok: "message_ok allow t c tid as" "message_ok allow t c tid (integrity_tail as (replicate 20 0) (Some (replicate 4 0)))"
    and pw: "cstr pw \<noteq> []" "cstr pw' \<noteq> []" and hmac: "\<forall>k d. length (hmac k d) = 20"
    and xss: "concat xss = builder_bytes (if fp then signed_fingerprint_message hmac pw t c tid as else signed_message hmac pw t c tid as)"
  shows "ValidateMessageIntegrityShort hmac pw' (received allow xss) =
    (if hmac (cstr pw') (covered 24 t c tid as) = hmac (cstr pw) (covered 24 t c tid as) then S_OK else E_FAIL)"
proof -
  let ?mac = "hmac (cstr pw) (covered 24 t c tid as)"
  obtain v where v: "concat xss = message t c tid (integrity_tail as ?mac v)" "\<forall>x. v = Some x \<longrightarrow> length x = 4"
    using xss signed_bytes [where hmac = hmac, OF ok(1) pw(1) hmac] signed_fingerprint_bytes [where hmac = hmac, OF ok(1) pw(1) hmac]
    by (cases fp) (force simp: integrity_tail_def)+
  have ok': "message_ok allow t c tid (integrity_tail as ?mac v)"
    using ok(2) v(2) hmac by (cases v) (auto simp: message_ok_def integrity_tail_def length_attr_bytes)
  have n: "0 < strlen pw'" using pw(2) by (simp add: strlen_cstr)
  show ?thesis using message_integrity [OF ok' received_message [OF ok' v(1)] _ v(2) n, of hmac pw'] hmac
    by (simp add: ValidateMessageIntegrityShort_def take_strlen)
qed

lemma integrity_roundtrip_witness:
  "ValidateMessageIntegrityShort (\<lambda>k d. replicate 20 (hd k)) [3, 0]
     (received True [builder_bytes (signed_fingerprint_message (\<lambda>k d. replicate 20 (hd k)) [5, 0] StunMsgTypeBinding StunMsgClassRequest demo_id demo_attrs)]) = E_FAIL \<and>
   ValidateMessageIntegrityShort (\<lambda>k d. replicate 20 (hd k)) [5, 0]
     (received True [builder_bytes (signed_fingerprint_message (\<lambda>k d. replicate 20 (hd k)) [5, 0] StunMsgTypeBinding StunMsgClassRequest demo_id demo_attrs)]) = S_OK"
proof -
  have c: "cstr [3, 0] = [3 :: u8]" "cstr [5, 0] = [5 :: u8]" by (simp_all add: cstr_def)
  have ok: "message_ok True StunMsgTypeBinding StunMsgClassRequest demo_id (integrity_tail demo_attrs (replicate 20 0) (Some (replicate 4 0)))"
    by (simp add: message_ok_def demo_attrs_def demo_id_def valid_class_def wf_transid_def length_attr_bytes StunMsgTypeBinding_def pad4_def integrity_tail_def)
  show ?thesis
    using integrity_roundtrip [where fp = True and hmac = "\<lambda>k d. replicate 20 (hd k)" and pw = "[5, 0]" and pw' = "[5, 0]", OF demo_ok(1) ok, of "[_]"]
      integrity_roundtrip [where fp = True and hmac = "\<lambda>k d. replicate 20 (hd k)" and pw = "[5, 0]" and pw' = "[3, 0]", OF demo_ok(1) ok, of "[_]"]
    by (simp add: c)
qed

text \<open>A message of one attribute, received to a reader that allows the legacy format.\<close>

definition single :: "(builder \<Rightarrow> hresult \<times> builder) \<Rightarrow> StunTransactionId \<Rightarrow> reader" where
  "single f tid = received True [builder_bytes (snd (FixLengthField (snd (f (start_message StunMsgTypeBinding StunMsgClassSuccessResponse tid)))))]"

lemma single_value:
  assumes w: "bsink.writes f (attr_bytes False u d) (start_message StunMsgTypeBinding StunMsgClassSuccessResponse tid)"
    and tid: "wf_transid tid" and d: "length d \<le> 780"
  shows "has_value (single f tid) u d" "Reader_GetTransactionId (single f tid) = tid" "\<And>x. x \<noteq> u \<Longrightarrow> attr_lookup x (single f tid) = None"
proof -
  have ok: "message_ok True StunMsgTypeBinding StunMsgClassSuccessResponse tid [(u, d)]"
    using tid d pad4_lt [of "length d"] by (simp add: message_ok_def valid_class_def StunMsgTypeBinding_def length_attr_bytes)
  have ra: "reader_after True (message StunMsgTypeBinding StunMsgClassSuccessResponse tid [(u, d)]) (single f tid)"
    unfolding single_def by (rule received_message [OF ok]) (simp add: single_bytes(2) [OF w tid d])
  show "has_value (single f tid) u d" by (rule message_lookup(2) [OF ok ra]) (simp add: last_value_def)
  show "attr_lookup x (single f tid) = None" if "x \<noteq> u" for x by (rule message_lookup(1) [OF ok ra]) (use that in \<open>simp add: last_value_def\<close>)
  show "Reader_GetTransactionId (single f tid) = tid" using message_read(4) [OF ok ra] .
qed

text \<open>An error code from 300 to 600 with a reason of fewer than 128 characters survives the round trip;
  any other is refused and nothing is written.\<close>

theorem error_code_roundtrip:
  assumes "0 \<notin> set s" "wf_transid tid"
  shows "if e < 300 \<or> 600 < e \<or> 128 \<le> length s then AddErrorCode e (Some s) b = (E_INVALIDARG, b)
    else GetErrorCode (single (AddErrorCode e (Some s)) tid) = (S_OK, Some e)"
proof (cases "e < 300 \<or> 600 < e \<or> 128 \<le> length s")
  case True
  then show ?thesis using assms(1) by (auto simp: AddErrorCode_def Let_def cmd_simps)
next
  case False
  let ?b = "start_message StunMsgTypeBinding StunMsgClassSuccessResponse tid"
  have l: "mb_fLegacyMode ?b = False" using started [OF assms(2)] by (simp add: built_def)
  have e: "300 \<le> e" "e \<le> 600" "length s < 128" using False by auto
  have "bsink.writes (AddErrorCode e (Some s)) (attr_bytes False STUN_ATTRIBUTE_ERRORCODE (error_value e s)) ?b"
    using AddErrorCode_writes [OF e(1,2) assms(1) e(3), of ?b] l by simp
  from single_value(1) [OF this assms(2)] show ?thesis using has_value_error [OF _ e(1,2)] e(3) False by (simp add: error_value_def)
qed

lemma error_code_roundtrip_witness:
  "GetErrorCode (single (AddErrorCode 438 (Some [0x53])) demo_id) = (S_OK, Some 438) \<and>
   AddErrorCode 601 (Some [0x53]) CStunMessageBuilder_new = (E_INVALIDARG, CStunMessageBuilder_new)"
  using error_code_roundtrip [of "[0x53]" demo_id 438] error_code_roundtrip [of "[0x53]" demo_id 601]
  by (simp add: demo_id_def wf_transid_def)

text \<open>An address survives the round trip through each of the four address attributes, IPv4 and IPv6,
  and through the XOR mapping with the transaction id: family, port and address bytes come back.\<close>

theorem address_roundtrip:
  assumes "wf_addr x" "wf_transid tid"
  shows "(\<exists>y. Reader_GetMappedAddress z (single (AddMappedAddress x) tid) = (S_OK, y) \<and> CSocketAddress_IsSameIP_and_Port x y) \<and>
    (\<exists>y. Reader_GetXorMappedAddress z (single (AddXorMappedAddress x) tid) = (S_OK, y) \<and> CSocketAddress_IsSameIP_and_Port x y) \<and>
    (\<exists>y. GetOtherAddress z (single (AddOtherAddress x) tid) = (S_OK, y) \<and> CSocketAddress_IsSameIP_and_Port x y) \<and>
    (\<exists>y. GetResponseOriginAddress z (single (AddResponseOriginAddress x) tid) = (S_OK, y) \<and> CSocketAddress_IsSameIP_and_Port x y)"
proof -
  let ?b = "start_message StunMsgTypeBinding StunMsgClassSuccessResponse tid" and ?x = "CSocketAddress_ApplyStunXorMap tid x"
  have b: "mb_fLegacyMode ?b = False" "mb_transactionid ?b = tid" using started [OF assms(2)] by (simp_all add: built_def)
  have len: "length (address_value x) \<le> 780" "length (address_value ?x) \<le> 780" using assms by (simp_all add: length_address_value)
  have same: "CSocketAddress_IsSameIP_and_Port x y" if "same_endpoint y x" for y
    using that assms(1) unfolding same_endpoint_def CSocketAddress_IsSameIP_and_Port_def
    by (simp add: IsSameIP_iff CSocketAddress_GetPort_def CSocketAddress_GetPort_NBO_def)
  note m = single_value(1) [OF AddMappedAddress_writes [OF assms(1)] assms(2) len(1)]
  have "bsink.writes (AddXorMappedAddress x) (attr_bytes False STUN_ATTRIBUTE_XORMAPPEDADDRESS (address_value ?x)) ?b"
    using AddXorMappedAddress_writes [OF assms(1), of ?b False] b assms(2) by simp
  note v = single_value(1,2) [OF this assms(2) len(2)]
  have "bsink.writes (AddOtherAddress x) (attr_bytes False STUN_ATTRIBUTE_OTHER_ADDRESS (address_value x)) ?b"
    using AddOtherAddress_writes [OF assms(1), of False ?b] b by simp
  note o = single_value(1) [OF this assms(2) len(1)]
  have "bsink.writes (AddResponseOriginAddress x) (attr_bytes False STUN_ATTRIBUTE_RESPONSE_ORIGIN (address_value x)) ?b"
    using AddResponseOriginAddress_writes [OF assms(1), of False ?b] b by simp
  note r = single_value(1) [OF this assms(2) len(1)]
  obtain y1 where "Reader_GetMappedAddress z (single (AddMappedAddress x) tid) = (S_OK, y1)" "same_endpoint y1 x"
    by (rule get_mapped [OF m assms(1)])
  moreover obtain y2 where "Reader_GetXorMappedAddress z (single (AddXorMappedAddress x) tid) = (S_OK, y2)" "same_endpoint y2 x"
    using get_xor [where legacy = False and r = "single (AddXorMappedAddress x) tid", OF _ assms] v by auto
  moreover obtain y3 where "GetOtherAddress z (single (AddOtherAddress x) tid) = (S_OK, y3)" "same_endpoint y3 x"
    using get_other [where legacy = False and r = "single (AddOtherAddress x) tid", OF _ assms(1)] o by auto
  moreover obtain y4 where "GetResponseOriginAddress z (single (AddResponseOriginAddress x) tid) = (S_OK, y4)" "same_endpoint y4 x"
    using get_origin [where legacy = False and r = "single (AddResponseOriginAddress x) tid", OF _ assms(1)] r by auto
  ultimately show ?thesis using same by blast
qed

lemma address_roundtrip_witness:
  "\<exists>y. Reader_GetXorMappedAddress sockaddr_zero (single (AddXorMappedAddress (CSocketAddress_ip4 0xC0A80001 3478)) demo_id) = (S_OK, y) \<and>
     CSocketAddress_IsSameIP_and_Port (CSocketAddress_ip4 0xC0A80001 3478) y"
  using address_roundtrip [of "CSocketAddress_ip4 0xC0A80001 3478" demo_id sockaddr_zero] by (simp add: demo_id_def wf_transid_def)

text \<open>The fixed-size attributes survive the round trip: the change request with both flags, the
  response port; and a padding attribute arrives with the size asked for, rounded up to a multiple
  of 4, except that a size above 65532 wraps around in the rounding and arrives as 0.\<close>

theorem request_attributes_roundtrip:
  assumes "wf_transid tid" "n \<le> 780 \<or> 65532 < n"
  shows "GetChangeRequest (single (AddChangeRequest c) tid) = (S_OK, c) \<and>
    GetResponsePort (single (AddResponsePort p) tid) = (S_OK, Some p) \<and>
    GetPaddingAttributeSize (single (AddPaddingAttribute n) tid) = (S_OK, if n \<le> 780 then of_nat (unat n + pad4 (unat n)) else 0)"
proof (intro conjI)
  let ?b = "start_message StunMsgTypeBinding StunMsgClassSuccessResponse tid"
  have l: "mb_fLegacyMode ?b = False" using started [OF assms(1)] by (simp add: built_def)
  have "length (change_request_value c) \<le> 780" by (simp add: change_request_value_def)
  from single_value(1) [OF AddChangeRequest_writes assms(1) this]
  show "GetChangeRequest (single (AddChangeRequest c) tid) = (S_OK, c)" by (rule has_value_change_request)
  have "bsink.writes (AddResponsePort p) (attr_bytes False STUN_ATTRIBUTE_RESPONSE_PORT (be16 p)) ?b"
    using AddResponsePort_writes [of p ?b] l by simp
  from single_value(1) [OF this assms(1)] show "GetResponsePort (single (AddResponsePort p) tid) = (S_OK, Some p)"
    by (intro has_value_port) simp
  have pad: "GetPaddingAttributeSize (single (AddPaddingAttribute m) tid) = (S_OK, of_nat (unat m + pad4 (unat m)))" if m: "m \<le> 780" for m
  proof -
    have le: "unat m \<le> 780" using m by (simp add: word_le_nat_alt)
    then have "unat m + pad4 (unat m) \<le> 780" by (auto simp: pad4_def) presburger
    then have "has_value (single (AddPaddingAttribute m) tid) STUN_ATTRIBUTE_PADDING (replicate (unat m + pad4 (unat m)) 0)"
      using single_value(1) [OF AddPaddingAttribute_writes assms(1), of m] le by simp
    from has_value_padding_size [OF this] show ?thesis by simp
  qed
  have wrap: "AddPaddingAttribute n = AddPaddingAttribute 0" if n: "65532 < n"
  proof -
    have u: "65532 < unat n" "unat n < 65536" using n unat_u16_lt [of n] by (simp_all add: word_less_nat_alt)
    then have c: "n = 65533 \<or> n = 65534 \<or> n = 65535" by (auto simp: word_unat_eq_iff)
    then have m: "n mod 4 = 1 \<or> n mod 4 = 2 \<or> n mod 4 = 3" and z: "n + 4 - n mod 4 = 0" by (elim disjE, simp_all)+
    have "(1 :: u16) \<noteq> 0" "(2 :: u16) \<noteq> 0" "(3 :: u16) \<noteq> 0" by simp_all
    then have "n mod 4 \<noteq> 0" using m by metis
    then have "(if n mod 4 \<noteq> 0 then n + 4 - n mod 4 else n) = 0" using z by (simp only: if_True not_False_eq_True)
    moreover have "(if (0 :: u16) mod 4 \<noteq> 0 then 0 + 4 - 0 mod 4 else 0) = (0 :: u16)" by simp
    ultimately show ?thesis by (intro ext) (simp only: AddPaddingAttribute_def)
  qed
  show "GetPaddingAttributeSize (single (AddPaddingAttribute n) tid) = (S_OK, if n \<le> 780 then of_nat (unat n + pad4 (unat n)) else 0)"
  proof (cases "n \<le> 780")
    case False
    then have "65532 < n" using assms(2) by simp
    from wrap [OF this] show ?thesis using pad [of 0] False by (simp add: pad4_def)
  qed (simp add: pad)
qed

lemma request_attributes_roundtrip_witness:
  "GetPaddingAttributeSize (single (AddPaddingAttribute 65533) demo_id) = (S_OK, 0) \<and>
   GetChangeRequest (single (AddChangeRequest \<lparr>fChangeIP = True, fChangePort = False\<rparr>) demo_id) = (S_OK, \<lparr>fChangeIP = True, fChangePort = False\<rparr>)"
  using request_attributes_roundtrip [of demo_id 65533 "\<lparr>fChangeIP = True, fChangePort = False\<rparr>" 0]
  by (simp add: demo_id_def wf_transid_def)

lemma fold_updates:
  "m \<le> n \<Longrightarrow> n \<le> length xs \<Longrightarrow> fold (\<lambda>x ys. ys[x := f x]) [m ..< n] xs = take m xs @ map f [m ..< n] @ drop n xs"
proof (induction n)
  case (Suc n)
  show ?case
  proof (cases "m = Suc n")
    case False
    then have "m \<le> n" using Suc.prems by simp
    with Suc show ?thesis by (simp add: list_update_append Cons_nth_drop_Suc [symmetric])
  qed simp
qed simp

text \<open>\<open>AddRandomTransactionId\<close> sets the cookie and eight random bytes; its loop stops four bytes
  short, so the last four bytes of the id are whatever the stack held.\<close>

theorem random_id_leaves_tail:
  assumes "length stack = 16"
  shows "RandomTransactionId rand stack = be32 STUN_COOKIE @ map rand [4 ..< 12] @ drop 12 stack"
proof -
  have "overwrite 0 (mem32 (htonl STUN_COOKIE)) stack = be32 STUN_COOKIE @ drop 4 stack" by (simp add: overwrite_def)
  moreover have "fold (\<lambda>x tid. tid[x := rand x]) [4 ..< 12] (be32 STUN_COOKIE @ drop 4 stack) = be32 STUN_COOKIE @ map rand [4 ..< 12] @ drop 12 stack"
    using fold_updates [of 4 12 "be32 STUN_COOKIE @ drop 4 stack" rand] assms by simp
  ultimately show ?thesis by (simp add: RandomTransactionId_def stun_consts)
qed

lemma random_id_leaves_tail_witness:
  "drop 12 (RandomTransactionId (\<lambda>_. 5) (replicate 16 9)) = replicate 4 9"
  using random_id_leaves_tail [of "replicate 16 9" "\<lambda>_. 5"] by simp

text \<open>Outside legacy mode an UNKNOWN-ATTRIBUTES attribute with an odd number of ids leaves the message
  with a length that is no multiple of 4 (and the ids in the host's byte order): the library's own
  reader refuses it.\<close>

theorem unknown_attributes_unreadable:
  assumes "odd (length xs)" "length xs < 300" "wf_transid tid"
  shows "builder_bytes (snd (FixLengthField (snd (AddUnknownAttributes (Some xs) (length xs) (start_message t c tid))))) =
      raw_message t c tid (be16 STUN_ATTRIBUTE_UNKNOWNATTRIBUTES @ be16 (of_nat (2 * length xs)) @ concat (map mem16 xs)) \<and>
    Reader_GetState (received allow [raw_message t c tid (be16 STUN_ATTRIBUTE_UNKNOWNATTRIBUTES @ be16 (of_nat (2 * length xs)) @ concat (map mem16 xs))]) =
      ParseError"
proof -
  let ?b = "start_message t c tid"
  let ?v = "be16 STUN_ATTRIBUTE_UNKNOWNATTRIBUTES @ be16 (of_nat (2 * length xs)) @ concat (map mem16 xs)"
  have l: "mb_fLegacyMode ?b = False" using started [OF assms(3)] by (simp add: built_def)
  have ne: "xs \<noteq> []" "length xs < 32767" using assms by auto
  have "bsink.writes (AddUnknownAttributes (Some xs) (length xs)) ?v ?b"
    using AddUnknownAttributes_writes [OF ne, of ?b] l by (simp add: unknown_value_def)
  from raw_bytes(2) [OF this assms(3)] assms(2)
  have bytes: "builder_bytes (snd (FixLengthField (snd (AddUnknownAttributes (Some xs) (length xs) ?b)))) = raw_message t c tid ?v" by simp
  let ?m = "raw_message t c tid ?v"
  have len: "length ?v = 4 + 2 * length xs" "length ?m = 24 + 2 * length xs" using assms(3) by (simp_all add: raw_message_def wf_transid_def)
  have "bslice 2 2 ?m = be16 (of_nat (length ?v))" by (simp add: raw_message_def bslice_def)
  then have "msg_length ?m = of_nat (4 + 2 * length xs)" unfolding msg_length_def len(1) by (simp only: rd16_be16)
  moreover have "unat (of_nat (4 + 2 * length xs) :: u16) = 4 + 2 * length xs" by (rule unat_of_nat_u16) (use assms(2) in simp)
  ultimately have "unat (msg_length ?m) = 4 + 2 * length xs" by (simp only:)
  then have "unat (msg_length ?m) mod 4 = 2" using assms(1) by presburger
  then have "unat (msg_length ?m mod 4) = 2" by (simp add: unat_mod)
  then have "msg_length ?m mod 4 \<noteq> 0" by (metis unat_0 zero_neq_numeral)
  then have "spec_state allow ?m = ParseError" using len(2) by (simp add: spec_state_def header_ok_def)
  then show ?thesis using bytes reader_after_state [OF received_after [of "[?m]" allow]] len(2) assms(2)
    by (simp add: Reader_GetState_def size_range_def)
qed

lemma unknown_attributes_unreadable_witness:
  "Reader_GetState (received True [raw_message StunMsgTypeBinding StunMsgClassFailureResponse demo_id
     (be16 STUN_ATTRIBUTE_UNKNOWNATTRIBUTES @ be16 2 @ mem16 0x8022)]) = ParseError"
  using unknown_attributes_unreadable [of "[0x8022]" demo_id StunMsgTypeBinding StunMsgClassFailureResponse True]
  by (simp add: demo_id_def wf_transid_def)

end
