(* ===== verification/StunAuth.thy ===== *)
theory StunAuth
  imports StunBuilder
begin

text \<open>
  \<open>src/stuncore/stunauth.h\<close>: what the request handler and an authentication provider exchange. The
  strings are arrays of \<open>MAX_STUN_AUTH_STRING_SIZE + 1\<close> characters.

  A provider is an implementation of \<open>IStunAuth\<close>; its method \<open>DoAuthCheck\<close> is a function from the
  attributes and the response it is handed to its result and the response it filled in. The locale
  \<open>auth_provider\<close> is the contract of the method: the arrays keep their size.
\<close>

definition auth_string_size :: nat where "auth_string_size = MAX_STUN_AUTH_STRING_SIZE + 1"

definition auth_array :: bytes where "auth_array = replicate auth_string_size 0"

record AuthAttributes =
  aa_szUser :: bytes
  aa_szRealm :: bytes
  aa_szNonce :: bytes
  aa_szLegacyPassword :: bytes
  aa_fMessageIntegrityPresent :: bool

datatype AuthCredentialMechanism = AuthCredShortTerm | AuthCredLongTerm

datatype AuthResponseType = Allow | AllowConditional | StaleNonce | Reject | Unauthorized

record AuthResponse =
  ar_responseType :: AuthResponseType
  ar_authCredMech :: AuthCredentialMechanism
  ar_szPassword :: bytes
  ar_szRealm :: bytes
  ar_szNonce :: bytes

type_synonym IStunAuth = "AuthAttributes \<Rightarrow> AuthResponse \<Rightarrow> hresult \<times> AuthResponse"

text \<open>The response after \<open>memset\<close>; zero is the first constructor of each enumeration.\<close>

definition AuthResponse_zero :: AuthResponse where
  "AuthResponse_zero = \<lparr>ar_responseType = Allow, ar_authCredMech = AuthCredShortTerm,
     ar_szPassword = auth_array, ar_szRealm = auth_array, ar_szNonce = auth_array\<rparr>"

definition AuthAttributes_zero :: AuthAttributes where
  "AuthAttributes_zero = \<lparr>aa_szUser = auth_array, aa_szRealm = auth_array, aa_szNonce = auth_array,
     aa_szLegacyPassword = auth_array, aa_fMessageIntegrityPresent = False\<rparr>"

text \<open>\<open>strcpy\<close> into an array.\<close>

definition strcpy :: "bytes \<Rightarrow> bytes \<Rightarrow> bytes" where
  "strcpy dst src = overwrite 0 (cstr src @ [0]) dst"

definition wf_auth_string :: "bytes \<Rightarrow> bool" where
  "wf_auth_string s \<longleftrightarrow> length s = 65 \<and> 0 \<in> set s"

definition wf_response :: "AuthResponse \<Rightarrow> bool" where
  "wf_response r \<longleftrightarrow> length (ar_szPassword r) = 65 \<and> length (ar_szRealm r) = 65 \<and> length (ar_szNonce r) = 65"

definition wf_attributes :: "AuthAttributes \<Rightarrow> bool" where
  "wf_attributes a \<longleftrightarrow> wf_auth_string (aa_szUser a) \<and> wf_auth_string (aa_szRealm a) \<and> wf_auth_string (aa_szNonce a) \<and>
     wf_auth_string (aa_szLegacyPassword a)"

lemma cstr_no_zero [simp]: "0 \<notin> set (cstr s)"
  by (auto simp: cstr_def dest: set_takeWhileD)

lemma cstr_short: "0 \<in> set s \<Longrightarrow> length (cstr s) < length s"
  by (metis cstr_no_zero cstr_def length_takeWhile_le nat_less_le takeWhile_eq_take take_all_iff order_refl)

lemma auth_array_simps [simp]: "length auth_array = 65" "cstr auth_array = []" "wf_auth_string auth_array"
  by (simp_all add: auth_array_def auth_string_size_def MAX_STUN_AUTH_STRING_SIZE_def wf_auth_string_def cstr_def numeral_eq_Suc)

lemma wf_zero [simp]: "wf_response AuthResponse_zero" "wf_attributes AuthAttributes_zero"
  by (simp_all add: wf_response_def AuthResponse_zero_def wf_attributes_def AuthAttributes_zero_def)

lemma wf_auth_string_cstr: "wf_auth_string s \<Longrightarrow> length (cstr s) \<le> 64"
  using cstr_short [of s] by (simp add: wf_auth_string_def)

lemma cstr_write:
  assumes "0 \<notin> set d" "length d < length dst"
  shows "cstr (overwrite 0 (d @ [0]) dst) = d" "length (overwrite 0 (d @ [0]) dst) = length dst" "0 \<in> set (overwrite 0 (d @ [0]) dst)"
proof -
  have "overwrite 0 (d @ [0]) dst = d @ 0 # drop (Suc (length d)) dst" by (simp add: overwrite_def)
  then show "cstr (overwrite 0 (d @ [0]) dst) = d" "0 \<in> set (overwrite 0 (d @ [0]) dst)" using assms(1) by simp_all
  show "length (overwrite 0 (d @ [0]) dst) = length dst" using assms(2) by simp
qed

lemma strcpy_ok:
  assumes "wf_auth_string src" "length dst = 65"
  shows "cstr (strcpy dst src) = cstr src" "wf_auth_string (strcpy dst src)"
  using cstr_write [of "cstr src" dst] wf_auth_string_cstr [OF assms(1)] assms(2)
  by (simp_all add: strcpy_def wf_auth_string_def)

section \<open>The contract of a provider\<close>

locale auth_provider =
  fixes DoAuthCheck :: IStunAuth
  assumes check_wf: "wf_attributes a \<Longrightarrow> wf_response r \<Longrightarrow> wf_response (snd (DoAuthCheck a r))"
begin

lemma check_zero: "wf_attributes a \<Longrightarrow> wf_response (snd (DoAuthCheck a AuthResponse_zero))"
  by (rule check_wf) simp_all

end

end
