(* ===== verification/MessageHandler.thy ===== *)
theory MessageHandler
  imports StunAuth StunTypes StunReader
begin

text \<open>
  \<open>src/stuncore/messagehandler.h\<close>, \<open>messagehandler.cpp\<close>: \<open>CStunRequestHandler\<close>, which turns a parsed
  request into the response.

  The handler object is a record; a method is a function from the handler to its result and the
  handler after it. The response is written into the caller's buffer \<open>spBufferOut\<close> through a builder
  attached to it; \<open>attach_out\<close> hands the buffer to the builder and \<open>attached_buffer\<close> takes back what
  the caller's pointer shows. Results the source drops are dropped. The parameters are the
  provider's \<open>DoAuthCheck\<close> (\<open>None\<close> for a NULL \<open>pAuth\<close>), \<open>hmac\<close> and \<open>md5\<close>.
\<close>

record StunMessageIn =
  in_socketrole :: SocketRole
  in_addrLocal :: simple_sockaddr
  in_addrRemote :: simple_sockaddr
  in_pReader :: "reader option"
  in_fConnectionOriented :: bool

record StunMessageOut =
  out_socketrole :: SocketRole
  out_addrDest :: simple_sockaddr
  out_spBufferOut :: "cbuffer option"

record StunMessageIntegrity =
  mi_fSendWithIntegrity :: bool
  mi_fUseLongTerm :: bool
  mi_szUser :: bytes
  mi_szRealm :: bytes
  mi_szPassword :: bytes

record TransportAddress =
  ta_addr :: simple_sockaddr
  ta_fValid :: bool

text \<open>The array \<open>set\<close>, one entry for each role.\<close>

type_synonym TransportAddressSet = "TransportAddress list"

record StunErrorCode =
  err_errorcode :: u16
  err_msgclass :: StunMessageClass
  err_msgtype :: u16
  err_attribUnknown :: u16
  err_szNonce :: bytes
  err_szRealm :: bytes

record handler =
  hd_pAddrSet :: "TransportAddressSet option"
  hd_msgIn :: StunMessageIn
  hd_msgOut :: StunMessageOut
  hd_integrity :: StunMessageIntegrity
  hd_error :: StunErrorCode
  hd_fRequestHasResponsePort :: bool
  hd_transid :: StunTransactionId
  hd_fLegacyMode :: bool

definition CStunRequestHandler_new :: "TransportAddressSet option \<Rightarrow> StunMessageIn \<Rightarrow> StunMessageOut \<Rightarrow> handler" where
  "CStunRequestHandler_new pAddrSet msgIn msgOut =
     \<lparr>hd_pAddrSet = pAddrSet, hd_msgIn = msgIn, hd_msgOut = msgOut,
      hd_integrity = \<lparr>mi_fSendWithIntegrity = False, mi_fUseLongTerm = False, mi_szUser = auth_array,
                      mi_szRealm = auth_array, mi_szPassword = auth_array\<rparr>,
      hd_error = \<lparr>err_errorcode = 0, err_msgclass = StunMsgClassRequest, err_msgtype = 0, err_attribUnknown = 0,
                  err_szNonce = auth_array, err_szRealm = auth_array\<rparr>,
      hd_fRequestHasResponsePort = False, hd_transid = StunTransactionId_zero, hd_fLegacyMode = False\<rparr>"

definition hd_reader :: "handler \<Rightarrow> reader" where
  "hd_reader h = the (in_pReader (hd_msgIn h))"

definition set_error :: "u16 \<Rightarrow> handler \<Rightarrow> handler" where
  "set_error e h = h\<lparr>hd_error := (hd_error h)\<lparr>err_errorcode := e\<rparr>\<rparr>"

definition address_of :: "SocketRole \<Rightarrow> handler \<Rightarrow> TransportAddress" where
  "address_of role h = the (hd_pAddrSet h) ! unat role"

definition HasAddress :: "SocketRole \<Rightarrow> handler \<Rightarrow> bool" where
  "HasAddress role h \<longleftrightarrow> hd_pAddrSet h \<noteq> None \<and> IsValidSocketRole role \<and> ta_fValid (address_of role h)"

definition IsIPAddressZeroOrInvalid :: "SocketRole \<Rightarrow> handler \<Rightarrow> bool" where
  "IsIPAddressZeroOrInvalid role h =
     (let fValid = (HasAddress role h \<and> CSocketAddress_IsIPAddressZero (ta_addr (address_of role h)) = False)
      in \<not> fValid)"

section \<open>The output buffer\<close>

definition set_out_buffer :: "cbuffer option \<Rightarrow> handler \<Rightarrow> handler" where
  "set_out_buffer buf h = h\<lparr>hd_msgOut := (hd_msgOut h)\<lparr>out_spBufferOut := buf\<rparr>\<rparr>"

text \<open>\<open>_pMsgOut->spBufferOut->SetSize(0)\<close> and \<open>builder.GetStream().Attach(_pMsgOut->spBufferOut, true)\<close> for a new builder.\<close>

definition clear_out :: "handler \<Rightarrow> handler" where
  "clear_out h = set_out_buffer (map_option (\<lambda>b. snd (CBuffer_SetSize 0 b)) (out_spBufferOut (hd_msgOut h))) h"

definition attach_out :: "handler \<Rightarrow> builder" where
  "attach_out h =
     CStunMessageBuilder_new\<lparr>mb_stream := CDataStream_Attach (out_spBufferOut (hd_msgOut h)) True (mb_stream CStunMessageBuilder_new)\<rparr>"

text \<open>The caller's view of its buffer once the builder is done.\<close>

definition detach_out :: "builder \<Rightarrow> handler \<Rightarrow> handler" where
  "detach_out b h = set_out_buffer (attached_buffer (mb_stream b)) h"

section \<open>Responses\<close>

definition c_FAILED :: bytes where
  "c_FAILED = [0x46, 0x41, 0x49, 0x4C, 0x45, 0x44]"

definition BuildErrorResponse :: "handler \<Rightarrow> handler" where
  "BuildErrorResponse h0 =
     (let h = clear_out h0;
          b = SetLegacyMode (hd_fLegacyMode h) (attach_out h);
          err = hd_error h;
          b = snd (AddHeader (err_msgtype err) (err_msgclass err) b);
          b = snd (AddTransactionId (hd_transid h) b);
          b = snd (AddErrorCode (err_errorcode err) (Some c_FAILED) b);
          b = (if err_errorcode err = STUN_ERROR_UNKNOWNATTRIB \<and> err_attribUnknown err \<noteq> 0
               then snd (AddUnknownAttributes (Some [err_attribUnknown err]) 1 b)
               else if err_errorcode err = STUN_ERROR_STALENONCE \<or> err_errorcode err = STUN_ERROR_UNAUTHORIZED
               then (let b = (if err_szNonce err ! 0 \<noteq> 0 then snd (AddStringAttribute STUN_ATTRIBUTE_NONCE (Some (err_szNonce err)) b) else b)
                     in if err_szRealm err ! 0 \<noteq> 0 then snd (AddStringAttribute STUN_ATTRIBUTE_REALM (Some (err_szRealm err)) b) else b)
               else b);
          b = snd (FixLengthField b);
          b = snd (snd (GetResult b))
      in detach_out b h)"

text \<open>
  The two decisions \<open>ProcessBindingRequest\<close> makes before it writes: which socket answers a
  change request, and the addresses it reports.
\<close>

definition change_output :: "StunChangeRequestAttribute \<Rightarrow> SocketRole \<Rightarrow> SocketRole" where
  "change_output changerequest socketOutput =
     (let socketOutput = (if fChangeIP changerequest then SocketRoleSwapIP socketOutput else socketOutput)
      in if fChangePort changerequest then SocketRoleSwapPort socketOutput else socketOutput)"

definition other_address :: "handler \<Rightarrow> simple_sockaddr option" where
  "other_address h =
     (let fSendOtherAddress = (HasAddress RolePP h \<and> HasAddress RolePA h \<and> HasAddress RoleAP h \<and> HasAddress RoleAA h)
      in if fSendOtherAddress
         then (let socketOther = SocketRoleSwapIP (SocketRoleSwapPort (in_socketrole (hd_msgIn h)));
                   fSendOtherAddress = (IsIPAddressZeroOrInvalid socketOther h = False)
               in if fSendOtherAddress then Some (ta_addr (address_of socketOther h)) else None)
         else None)"

definition origin_address :: "SocketRole \<Rightarrow> handler \<Rightarrow> simple_sockaddr option" where
  "origin_address socketOutput h =
     (let addrOrigin = ta_addr (address_of socketOutput h);
          addrOrigin = (if CSocketAddress_IsIPAddressZero addrOrigin
                        then (if socketOutput = in_socketrole (hd_msgIn h) then in_addrLocal (hd_msgIn h) else addrOrigin)
                        else addrOrigin)
      in if CSocketAddress_IsIPAddressZero addrOrigin = False then Some addrOrigin else None)"

definition add_optional :: "(simple_sockaddr \<Rightarrow> builder \<Rightarrow> hresult \<times> builder) \<Rightarrow> simple_sockaddr option \<Rightarrow> builder \<Rightarrow> builder" where
  "add_optional f pAddr b = (case pAddr of None \<Rightarrow> b | Some addr \<Rightarrow> snd (f addr b))"

definition build_binding_response ::
  "(bytes \<Rightarrow> bytes \<Rightarrow> bytes) \<Rightarrow> (bytes \<Rightarrow> bytes) \<Rightarrow> simple_sockaddr option \<Rightarrow> simple_sockaddr option \<Rightarrow> handler \<Rightarrow> builder \<Rightarrow> builder" where
  "build_binding_response hmac md5 addrOrigin addrOther h b =
     (let addrRemote = in_addrRemote (hd_msgIn h);
          integrity = hd_integrity h;
          b = snd (AddHeader StunMsgTypeBinding StunMsgClassSuccessResponse b);
          b = snd (AddTransactionId (hd_transid h) b);
          b = snd (AddMappedAddress addrRemote b);
          b = add_optional AddResponseOriginAddress addrOrigin b;
          b = add_optional AddOtherAddress addrOther b;
          b = snd (AddXorMappedAddress addrRemote b);
          b = (if mi_fSendWithIntegrity integrity
               then (if mi_fUseLongTerm integrity = False
                     then snd (AddMessageIntegrityShortTerm hmac (mi_szPassword integrity) b)
                     else snd (AddMessageIntegrityLongTerm hmac md5 (Some (mi_szUser integrity)) (Some (mi_szRealm integrity))
                                 (Some (mi_szPassword integrity)) b))
               else b)
      in snd (FixLengthField b))"

definition ProcessBindingRequest :: "(bytes \<Rightarrow> bytes \<Rightarrow> bytes) \<Rightarrow> (bytes \<Rightarrow> bytes) \<Rightarrow> handler \<Rightarrow> hresult \<times> handler" where
  "ProcessBindingRequest hmac md5 h0 =
     (let h = clear_out h0;
          msgIn = hd_msgIn h;
          r = hd_reader h;
          b = SetLegacyMode (hd_fLegacyMode h) (attach_out h);
          h = detach_out b h;
          fRequestHasPaddingAttribute = SUCCEEDED (fst (GetPaddingAttributeSize r))
      in if hd_fRequestHasResponsePort h \<and> fRequestHasPaddingAttribute then (E_FAIL, set_error STUN_ERROR_BADREQUEST h)
         else
           (let (hrResult, changerequest) = GetChangeRequest r;
                fChange = (SUCCEEDED hrResult \<and> (fChangeIP changerequest \<or> fChangePort changerequest));
                socketOutput = (if fChange then change_output changerequest (in_socketrole msgIn) else in_socketrole msgIn)
            in if fChange \<and> (HasAddress socketOutput h = False \<or> in_fConnectionOriented msgIn)
               then (E_FAIL, set_error STUN_ERROR_BADREQUEST h)
               else
                 (let addrOther = other_address h;
                      addrOrigin = origin_address socketOutput h;
                      h = h\<lparr>hd_msgOut := (hd_msgOut h)\<lparr>out_socketrole := socketOutput\<rparr>\<rparr>;
                      b = build_binding_response hmac md5 addrOrigin addrOther h b
                  in (S_OK, detach_out b h))))"

section \<open>Authentication\<close>

text \<open>A string attribute copied into one of the arrays; left alone when the attribute is missing or too long.\<close>

definition read_string :: "u16 \<Rightarrow> reader \<Rightarrow> bytes" where
  "read_string t r =
     (case GetStringAttributeByType t (length auth_array) r of
        (hr, None) \<Rightarrow> auth_array | (hr, Some s) \<Rightarrow> overwrite 0 s auth_array)"

definition auth_attributes :: "reader \<Rightarrow> AuthAttributes" where
  "auth_attributes r =
     \<lparr>aa_szUser = read_string STUN_ATTRIBUTE_USERNAME r,
      aa_szRealm = read_string STUN_ATTRIBUTE_REALM r,
      aa_szNonce = read_string STUN_ATTRIBUTE_NONCE r,
      aa_szLegacyPassword = read_string STUN_ATTRIBUTE_LEGACY_PASSWORD r,
      aa_fMessageIntegrityPresent = HasMessageIntegrityAttribute r\<rparr>"

text \<open>Every array of the response gets a terminator in its last place.\<close>

definition terminate_response :: "AuthResponse \<Rightarrow> AuthResponse" where
  "terminate_response r =
     r\<lparr>ar_szNonce := (ar_szNonce r)[auth_string_size - 1 := 0],
       ar_szRealm := (ar_szRealm r)[auth_string_size - 1 := 0],
       ar_szPassword := (ar_szPassword r)[auth_string_size - 1 := 0]\<rparr>"

definition check_integrity ::
  "(bytes \<Rightarrow> bytes \<Rightarrow> bytes) \<Rightarrow> (bytes \<Rightarrow> bytes) \<Rightarrow> AuthAttributes \<Rightarrow> AuthResponse \<Rightarrow> handler \<Rightarrow> handler" where
  "check_integrity hmac md5 attributes response h =
     (let r = hd_reader h;
          hrRet = (if ar_authCredMech response = AuthCredLongTerm
                   then ValidateMessageIntegrityLong hmac md5 (Some (aa_szUser attributes)) (Some (aa_szRealm attributes))
                          (Some (ar_szPassword response)) r
                   else ValidateMessageIntegrityShort hmac (ar_szPassword response) r)
      in if SUCCEEDED hrRet
         then h\<lparr>hd_integrity :=
                  (let i = hd_integrity h
                   in i\<lparr>mi_fSendWithIntegrity := True, mi_fUseLongTerm := (ar_authCredMech response = AuthCredLongTerm),
                        mi_szPassword := strcpy (mi_szPassword i) (ar_szPassword response),
                        mi_szUser := strcpy (mi_szUser i) (aa_szUser attributes),
                        mi_szRealm := strcpy (mi_szRealm i) (aa_szRealm attributes)\<rparr>)\<rparr>
         else set_error STUN_ERROR_UNAUTHORIZED h)"

definition ValidateAuth ::
  "(bytes \<Rightarrow> bytes \<Rightarrow> bytes) \<Rightarrow> (bytes \<Rightarrow> bytes) \<Rightarrow> IStunAuth option \<Rightarrow> handler \<Rightarrow> hresult \<times> handler" where
  "ValidateAuth hmac md5 pAuth h =
     (case pAuth of
        None \<Rightarrow> (S_OK, h)
      | Some DoAuthCheck \<Rightarrow>
          (let attributes = auth_attributes (hd_reader h);
               (hr, response) = DoAuthCheck attributes AuthResponse_zero
           in if FAILED hr then (hr, h)
              else
                (let response = terminate_response response;
                     h = (case ar_responseType response of
                            StaleNonce \<Rightarrow> set_error STUN_ERROR_STALENONCE h
                          | Unauthorized \<Rightarrow> set_error STUN_ERROR_UNAUTHORIZED h
                          | Reject \<Rightarrow> set_error STUN_ERROR_BADREQUEST h
                          | Allow \<Rightarrow> h
                          | AllowConditional \<Rightarrow> check_integrity hmac md5 attributes response h);
                     err = hd_error h;
                     h = (if err_errorcode err = STUN_ERROR_UNAUTHORIZED \<or> err_errorcode err = STUN_ERROR_STALENONCE
                          then h\<lparr>hd_error := err\<lparr>err_szRealm := strcpy (err_szRealm err) (ar_szRealm response),
                                                  err_szNonce := strcpy (err_szNonce err) (ar_szNonce response)\<rparr>\<rparr>
                          else h)
                 in (hr, h))))"

section \<open>Processing a request\<close>

text \<open>An error code where a step failed without setting one.\<close>

definition default_error :: "hresult \<Rightarrow> handler \<Rightarrow> handler" where
  "default_error hrResult h =
     (if FAILED hrResult \<and> err_errorcode (hd_error h) = 0 then set_error STUN_ERROR_BADREQUEST h else h)"

text \<open>The part of \<open>ProcessRequestImpl\<close> that honours the response port.\<close>

definition apply_response_port :: "reader \<Rightarrow> handler \<Rightarrow> handler" where
  "apply_response_port r h =
     (let responseport = (case GetResponsePort r of (hr, Some p) \<Rightarrow> p | (hr, None) \<Rightarrow> 0)
      in if responseport \<noteq> 0
         then (let h = h\<lparr>hd_fRequestHasResponsePort := True\<rparr>
               in if in_fConnectionOriented (hd_msgIn h) then set_error STUN_ERROR_BADREQUEST h
                  else h\<lparr>hd_msgOut := (hd_msgOut h)\<lparr>out_addrDest := CSocketAddress_SetPort responseport (out_addrDest (hd_msgOut h))\<rparr>\<rparr>)
         else h)"

definition ProcessRequestImpl ::
  "(bytes \<Rightarrow> bytes \<Rightarrow> bytes) \<Rightarrow> (bytes \<Rightarrow> bytes) \<Rightarrow> IStunAuth option \<Rightarrow> handler \<Rightarrow> hresult \<times> handler" where
  "ProcessRequestImpl hmac md5 pAuth h0 =
     (let r = hd_reader h0
      in if GetMessageClass r \<noteq> StunMsgClassRequest then (E_FAIL, h0)
         else
           (let h = h0\<lparr>hd_error := (hd_error h0)\<lparr>err_msgtype := GetMessageType r, err_msgclass := StunMsgClassFailureResponse\<rparr>,
                       hd_transid := Reader_GetTransactionId r, hd_fLegacyMode := IsMessageLegacyFormat r\<rparr>;
                h = apply_response_port r h;
                h = (if err_errorcode (hd_error h) = 0 \<and> GetMessageType r \<noteq> StunMsgTypeBinding
                     then set_error STUN_ERROR_BADREQUEST h else h);
                h = (if err_errorcode (hd_error h) = 0
                     then (let (hrResult, h) = ValidateAuth hmac md5 pAuth h in default_error hrResult h) else h);
                h = (if err_errorcode (hd_error h) = 0
                     then (let (hrResult, h) = ProcessBindingRequest hmac md5 h in default_error hrResult h) else h);
                h = (if err_errorcode (hd_error h) \<noteq> 0 then BuildErrorResponse h else h)
            in (S_OK, h)))"

definition ProcessRequest ::
  "(bytes \<Rightarrow> bytes \<Rightarrow> bytes) \<Rightarrow> (bytes \<Rightarrow> bytes) \<Rightarrow> StunMessageIn \<Rightarrow> StunMessageOut \<Rightarrow> TransportAddressSet option \<Rightarrow>
   IStunAuth option \<Rightarrow> hresult \<times> StunMessageOut" where
  "ProcessRequest hmac md5 msgIn msgOut pAddressSet pAuth =
     (case in_pReader msgIn of
        None \<Rightarrow> (E_INVALIDARG, msgOut)
      | Some r \<Rightarrow>
          if \<not> IsValidSocketRole (in_socketrole msgIn) then (E_INVALIDARG, msgOut)
          else
            (case out_spBufferOut msgOut of
               None \<Rightarrow> (E_INVALIDARG, msgOut)
             | Some buf \<Rightarrow>
                 if cb_allocatedSize buf < MAX_STUN_MESSAGE_SIZE then (E_INVALIDARG, msgOut)
                 else if pAddressSet = None then (E_INVALIDARG, msgOut)
                 else if Reader_GetState r \<noteq> BodyValidated then (E_UNEXPECTED, msgOut)
                 else
                   (let msgOut = msgOut\<lparr>out_spBufferOut := Some (snd (CBuffer_SetSize 0 buf)),
                                        out_socketrole := in_socketrole msgIn, out_addrDest := in_addrRemote msgIn\<rparr>;
                        (hr, h) = ProcessRequestImpl hmac md5 pAuth (CStunRequestHandler_new pAddressSet msgIn msgOut)
                    in (hr, hd_msgOut h))))"

end
