(* ===== verification/HandlerBuild.thy ===== *)
theory HandlerBuild
  imports MessageHandler MessageVerify
begin

text \<open>
  What the request handler writes: the error response and the binding response as wire images
  \<open>message t c tid as\<close> in the caller's own buffer, whose allocation never changes. \<open>holds out bs\<close>
  says that the output buffer holds \<open>bs\<close>.
\<close>

definition holds :: "nat \<Rightarrow> handler \<Rightarrow> bytes \<Rightarrow> bool" where
  "holds n h bs \<longleftrightarrow>
     (\<exists>buf. out_spBufferOut (hd_msgOut h) = Some buf \<and> wf_buffer buf \<and> cb_allocatedSize buf = n \<and> buffer_bytes buf = bs)"

text \<open>The handler has the caller's buffer of \<open>n\<close> bytes.\<close>

definition has_buffer :: "nat \<Rightarrow> handler \<Rightarrow> bool" where
  "has_buffer n h \<longleftrightarrow> (\<exists>buf. out_spBufferOut (hd_msgOut h) = Some buf \<and> wf_buffer buf \<and> cb_allocatedSize buf = n) \<and> 800 \<le> n"

lemma holds_has_buffer: "holds n h bs \<Longrightarrow> 800 \<le> n \<Longrightarrow> has_buffer n h"
  by (auto simp: holds_def has_buffer_def)

definition same_but_buffer :: "handler \<Rightarrow> handler \<Rightarrow> bool" where
  "same_but_buffer h h' \<longleftrightarrow> set_out_buffer None h' = set_out_buffer None h"

lemma same_but_buffer_set [simp]: "same_but_buffer h (set_out_buffer b h)"
  by (simp add: same_but_buffer_def set_out_buffer_def)

lemma same_but_buffer_trans: "same_but_buffer h h' \<Longrightarrow> same_but_buffer h' h'' \<Longrightarrow> same_but_buffer h h''"
  by (simp add: same_but_buffer_def)

lemma same_but_buffer_fields:
  assumes "same_but_buffer h h'"
  shows "hd_pAddrSet h' = hd_pAddrSet h" "hd_msgIn h' = hd_msgIn h" "hd_integrity h' = hd_integrity h" "hd_error h' = hd_error h"
    "hd_fRequestHasResponsePort h' = hd_fRequestHasResponsePort h" "hd_transid h' = hd_transid h" "hd_fLegacyMode h' = hd_fLegacyMode h"
    "out_socketrole (hd_msgOut h') = out_socketrole (hd_msgOut h)" "out_addrDest (hd_msgOut h') = out_addrDest (hd_msgOut h)"
proof -
  have e: "set_out_buffer None h' = set_out_buffer None h" using assms by (simp add: same_but_buffer_def)
  have "hd_pAddrSet (set_out_buffer b h) = hd_pAddrSet h" "hd_msgIn (set_out_buffer b h) = hd_msgIn h"
    "hd_integrity (set_out_buffer b h) = hd_integrity h" "hd_error (set_out_buffer b h) = hd_error h"
    "hd_fRequestHasResponsePort (set_out_buffer b h) = hd_fRequestHasResponsePort h" "hd_transid (set_out_buffer b h) = hd_transid h"
    "hd_fLegacyMode (set_out_buffer b h) = hd_fLegacyMode h" "out_socketrole (hd_msgOut (set_out_buffer b h)) = out_socketrole (hd_msgOut h)"
    "out_addrDest (hd_msgOut (set_out_buffer b h)) = out_addrDest (hd_msgOut h)" for b h
    by (simp_all add: set_out_buffer_def)
  then show "hd_pAddrSet h' = hd_pAddrSet h" "hd_msgIn h' = hd_msgIn h" "hd_integrity h' = hd_integrity h" "hd_error h' = hd_error h"
    "hd_fRequestHasResponsePort h' = hd_fRequestHasResponsePort h" "hd_transid h' = hd_transid h" "hd_fLegacyMode h' = hd_fLegacyMode h"
    "out_socketrole (hd_msgOut h') = out_socketrole (hd_msgOut h)" "out_addrDest (hd_msgOut h') = out_addrDest (hd_msgOut h)"
    using e by metis+
qed

lemma clear_same [simp]: "same_but_buffer h (clear_out h)"
  by (simp add: clear_out_def)

lemma detach_same [simp]: "same_but_buffer h (detach_out b h)"
  by (simp add: detach_out_def)

text \<open>Attaching the cleared buffer gives an empty stream over it.\<close>

definition out_stream :: "handler \<Rightarrow> datastream" where
  "out_stream h = mb_stream (attach_out (clear_out h))"

lemma attach_ok:
  assumes "has_buffer n h"
  shows "at_end (out_stream h)" "stream_bytes (out_stream h) = []" "\<not> ds_fNoGrow (out_stream h)" "ds_left (out_stream h) = None"
    "CDataStream_allocated (out_stream h) = n" "mb_fLegacyMode (attach_out (clear_out h)) = False"
    "holds n (detach_out (SetLegacyMode l (attach_out (clear_out h))) (clear_out h)) []"
proof -
  obtain buf where buf: "out_spBufferOut (hd_msgOut h) = Some buf" "wf_buffer buf" "cb_allocatedSize buf = n"
    using assms by (auto simp: has_buffer_def)
  let ?buf = "buf\<lparr>cb_size := 0\<rparr>"
  have wf: "wf_buffer ?buf" using buf by (auto simp: wf_buffer_def)
  have s: "out_stream h = CDataStream_Attach (Some ?buf) True (mb_stream CStunMessageBuilder_new)"
    by (simp add: out_stream_def attach_out_def clear_out_def set_out_buffer_def buf)
  note at = Attach_for_writing [OF wf, of "mb_stream CStunMessageBuilder_new"]
  show "at_end (out_stream h)" "stream_bytes (out_stream h) = []" "\<not> ds_fNoGrow (out_stream h)" "ds_left (out_stream h) = None"
    "CDataStream_allocated (out_stream h) = n" using at buf by (simp_all add: s at_end_def)
  show "mb_fLegacyMode (attach_out (clear_out h)) = False" by (simp add: attach_out_def CStunMessageBuilder_new_def)
  have b: "ds_buffer (out_stream h) = Some ?buf" by (simp add: s CDataStream_Attach_def CDataStream_Reset_def)
  then have "attached_buffer (mb_stream (SetLegacyMode l (attach_out (clear_out h)))) = Some ?buf"
    using at(5) by (simp add: SetLegacyMode_def attached_buffer_def s out_stream_def [symmetric])
  then show "holds n (detach_out (SetLegacyMode l (attach_out (clear_out h))) (clear_out h)) []"
    using wf buf by (auto simp: holds_def detach_out_def set_out_buffer_def buffer_bytes_def)
qed

text \<open>A sealed message that fits the allocation lies in the caller's buffer.\<close>

lemma sealed_holds:
  assumes s: "sealed (out_stream h) l t c tid as b" and n: "has_buffer n h" and len: "20 + length (attrs_bytes as) \<le> n"
  shows "holds n (detach_out b h') (message t c tid as)"
proof -
  obtain buf where buf: "ds_buffer (mb_stream b) = Some buf" "buffer_bytes buf = message t c tid as" "wf_buffer buf"
    by (rule sealed_buffer [OF s])
  have "same_store (out_stream h) (mb_stream b)" using built_store [OF sealed_built [OF s]] attach_ok(5) [OF n] len by simp
  then have "ds_left (mb_stream b) = None" "CDataStream_allocated (mb_stream b) = n"
    using attach_ok(4,5) [OF n] by (simp_all add: same_store_def)
  then show ?thesis using buf
    by (simp add: holds_def detach_out_def set_out_buffer_def attached_buffer_def CDataStream_allocated_def)
qed

lemma built_out_start:
  assumes n: "has_buffer n h" and tid: "wf_transid tid"
  shows "built (out_stream h) legacy t c tid [] (snd (AddTransactionId tid (snd (AddHeader t c (SetLegacyMode legacy (attach_out (clear_out h)))))))"
proof -
  let ?b = "SetLegacyMode legacy (attach_out (clear_out h))"
  have b: "mb_stream ?b = out_stream h" "mb_fLegacyMode ?b = legacy" by (simp_all add: SetLegacyMode_def out_stream_def)
  have "200 \<le> CDataStream_allocated (out_stream h) \<or> CDataStream_allocated (out_stream h) = 0"
    using attach_ok(5) [OF n] n by (simp add: has_buffer_def)
  then show ?thesis using built_start(3) [OF attach_ok(1-3) [OF n] _ b(1) tid, of t c] b(2) by simp
qed

section \<open>The error response\<close>

lemma AddStringAttribute_cstr:
  assumes "cstr s \<noteq> []" "length (cstr s) < 65536"
  shows "bsink.writes (AddStringAttribute t (Some s)) (attr_bytes (mb_fLegacyMode b) t (cstr s)) b"
proof -
  have n: "unat (of_nat (strlen s) :: u16) = strlen s" using assms(2) by (simp add: strlen_cstr unat_of_nat)
  have "bsink.writes (AddAttribute t (Some s) (of_nat (strlen s))) (attr_bytes (mb_fLegacyMode b) t (cstr s)) b"
    using AddAttribute_writes [of "of_nat (strlen s)" s t b] strlen_le [of s] by (simp only: n take_strlen)
  then show ?thesis
    by (rule bsink.writes_cong [rotated]) (use assms(1) in \<open>simp add: AddStringAttribute_def IsNullOrEmpty_def strlen_cstr\<close>)
qed

definition opt_string :: "bool \<Rightarrow> u16 \<Rightarrow> bytes \<Rightarrow> (u16 \<times> bytes) list" where
  "opt_string legacy t s = (if s = [] then [] else [(t, padded legacy s)])"

definition error_attrs :: "bool \<Rightarrow> u16 \<Rightarrow> bytes \<Rightarrow> bytes \<Rightarrow> (u16 \<times> bytes) list" where
  "error_attrs legacy e nonce realm =
     (STUN_ATTRIBUTE_ERRORCODE, padded legacy (error_value e c_FAILED)) #
     (if e = STUN_ERROR_STALENONCE \<or> e = STUN_ERROR_UNAUTHORIZED
      then opt_string legacy STUN_ATTRIBUTE_NONCE nonce @ opt_string legacy STUN_ATTRIBUTE_REALM realm else [])"

lemma length_padded: "length (padded legacy d) \<le> length d + 3"
  using pad4_lt [of "length d"] by (simp add: padded_def)

lemma length_attr_le: "length (attr_bytes False t d) \<le> length d + 7"
  using pad4_lt [of "length d"] by (simp add: length_attr_bytes)

lemma length_attr_padded: "length (attr_bytes False t (padded legacy d)) \<le> length d + 7"
  unfolding attr_bytes_padded [symmetric] using pad4_lt [of "length d"] by (simp add: length_attr_bytes)

lemma c_FAILED_simps [simp]: "0 \<notin> set c_FAILED" "length c_FAILED = 6"
  by (simp_all add: c_FAILED_def)

lemma length_error_value [simp]: "length (error_value e s) = 4 + length s"
  by (simp add: error_value_def)

lemma length_error_attrs:
  assumes "length nonce \<le> 64" "length realm \<le> 64"
  shows "length (attrs_bytes (error_attrs legacy e nonce realm)) \<le> 160"
proof -
  have "length (attrs_bytes (opt_string legacy t s)) \<le> length s + 7" for t s
    using length_attr_padded [of t legacy s] by (simp add: opt_string_def)
  from this [of STUN_ATTRIBUTE_NONCE nonce] this [of STUN_ATTRIBUTE_REALM realm] show ?thesis
    using length_attr_padded [of STUN_ATTRIBUTE_ERRORCODE legacy "error_value e c_FAILED"] assms
    by (auto simp: error_attrs_def)
qed

lemma opt_string_step:
  assumes b: "built s0 legacy t c tid as b" and s: "wf_auth_string s" and len: "length (attrs_bytes as) < 60000"
  shows "built s0 legacy t c tid (as @ opt_string legacy u (cstr s))
    (if s ! 0 \<noteq> 0 then snd (AddStringAttribute u (Some s) b) else b)"
proof -
  have e: "s ! 0 \<noteq> 0 \<longleftrightarrow> cstr s \<noteq> []" using s by (cases s) (auto simp: wf_auth_string_def cstr_def)
  have short: "length (cstr s) \<le> 64" by (rule wf_auth_string_cstr [OF s])
  show ?thesis
  proof (cases "cstr s = []")
    case True
    then show ?thesis using b e by (simp add: opt_string_def)
  next
    case False
    have "bsink.writes (AddStringAttribute u (Some s)) (attr_bytes legacy u (cstr s)) b"
      using AddStringAttribute_cstr [OF False, of u b] short b by (simp add: built_def)
    from built_step(2) [OF b this] show ?thesis
      using False e len short pad4_lt [of "length (cstr s)"] by (simp add: opt_string_def size_range_def)
  qed
qed

lemma BuildErrorResponse_ok:
  assumes n: "has_buffer n h" and tid: "wf_transid (hd_transid h)"
    and e: "300 \<le> err_errorcode (hd_error h)" "err_errorcode (hd_error h) \<le> 600" "err_attribUnknown (hd_error h) = 0"
    and strings: "wf_auth_string (err_szNonce (hd_error h))" "wf_auth_string (err_szRealm (hd_error h))"
  shows "holds n (BuildErrorResponse h) (message (err_msgtype (hd_error h)) (err_msgclass (hd_error h)) (hd_transid h)
      (error_attrs (hd_fLegacyMode h) (err_errorcode (hd_error h)) (cstr (err_szNonce (hd_error h))) (cstr (err_szRealm (hd_error h)))))"
    "same_but_buffer h (BuildErrorResponse h)"
proof -
  let ?e = "err_errorcode (hd_error h)" and ?l = "hd_fLegacyMode h" and ?tid = "hd_transid h"
  let ?t = "err_msgtype (hd_error h)" and ?c = "err_msgclass (hd_error h)" and ?s0 = "out_stream h"
  let ?nonce = "err_szNonce (hd_error h)" and ?realm = "err_szRealm (hd_error h)"
  let ?code = "[(STUN_ATTRIBUTE_ERRORCODE, padded ?l (error_value ?e c_FAILED))]"
  let ?as = "error_attrs ?l ?e (cstr ?nonce) (cstr ?realm)"
  define b1 where "b1 = snd (AddTransactionId ?tid (snd (AddHeader ?t ?c (SetLegacyMode ?l (attach_out (clear_out h))))))"
  define b2 where "b2 = snd (AddErrorCode ?e (Some c_FAILED) b1)"
  have B1: "built ?s0 ?l ?t ?c ?tid [] b1" unfolding b1_def by (rule built_out_start [OF n tid])
  have legacy: "mb_fLegacyMode b1 = ?l" using B1 by (simp add: built_def)
  have "bsink.writes (AddErrorCode ?e (Some c_FAILED)) (attr_bytes ?l STUN_ATTRIBUTE_ERRORCODE (error_value ?e c_FAILED)) b1"
    using AddErrorCode_writes [OF e(1,2), of c_FAILED b1] legacy by simp
  from built_step(2) [OF B1 this] have B2: "built ?s0 ?l ?t ?c ?tid ?code b2"
    by (simp add: b2_def size_range_def pad4_def)
  have code_len: "length (attrs_bytes ?code) \<le> 17" using length_attr_padded [of STUN_ATTRIBUTE_ERRORCODE ?l "error_value ?e c_FAILED"] by simp
  define b3 where "b3 = (if ?nonce ! 0 \<noteq> 0 then snd (AddStringAttribute STUN_ATTRIBUTE_NONCE (Some ?nonce) b2) else b2)"
  define b4 where "b4 = (if ?realm ! 0 \<noteq> 0 then snd (AddStringAttribute STUN_ATTRIBUTE_REALM (Some ?realm) b3) else b3)"
  define b5 where "b5 = (if ?e = STUN_ERROR_STALENONCE \<or> ?e = STUN_ERROR_UNAUTHORIZED then b4 else b2)"
  have B3: "built ?s0 ?l ?t ?c ?tid (?code @ opt_string ?l STUN_ATTRIBUTE_NONCE (cstr ?nonce)) b3"
    unfolding b3_def using code_len by (intro opt_string_step [OF B2 strings(1)]) simp
  have nonce_len: "length (attrs_bytes (?code @ opt_string ?l STUN_ATTRIBUTE_NONCE (cstr ?nonce))) < 60000"
    using code_len length_attr_padded [of STUN_ATTRIBUTE_NONCE ?l "cstr ?nonce"] wf_auth_string_cstr [OF strings(1)] by (simp add: opt_string_def)
  have B4: "built ?s0 ?l ?t ?c ?tid ((?code @ opt_string ?l STUN_ATTRIBUTE_NONCE (cstr ?nonce)) @ opt_string ?l STUN_ATTRIBUTE_REALM (cstr ?realm)) b4"
    unfolding b4_def by (rule opt_string_step [OF B3 strings(2) nonce_len])
  have B5: "built ?s0 ?l ?t ?c ?tid ?as b5" using B4 B2 by (auto simp: b5_def error_attrs_def)
  have len: "length (attrs_bytes ?as) \<le> 160" using strings by (intro length_error_attrs wf_auth_string_cstr)
  have small: "20 + length (attrs_bytes ?as) < size_range" using len by (simp add: size_range_def)
  define b6 where "b6 = snd (FixLengthField b5)"
  define b7 where "b7 = snd (snd (GetResult b6))"
  have B6: "sealed ?s0 ?l ?t ?c ?tid ?as b6" unfolding b6_def by (rule built_FixLengthField(2) [OF B5 small])
  have B7: "sealed ?s0 ?l ?t ?c ?tid ?as b7" unfolding b7_def by (rule built_GetResult [OF sealed_built [OF B6] small]) blast
  note same = same_but_buffer_fields [OF clear_same [of h]]
  have eq: "BuildErrorResponse h = detach_out b7 (clear_out h)"
    using e(3) by (simp add: BuildErrorResponse_def Let_def same b7_def b6_def b5_def b4_def b3_def b2_def b1_def)
  show "holds n (BuildErrorResponse h) (message ?t ?c ?tid ?as)"
    unfolding eq using len n by (intro sealed_holds [OF B7 n]) (simp add: has_buffer_def)
  show "same_but_buffer h (BuildErrorResponse h)" unfolding eq by (rule same_but_buffer_trans [OF clear_same detach_same])
qed

section \<open>The binding response\<close>

definition opt_address :: "u16 \<Rightarrow> simple_sockaddr option \<Rightarrow> (u16 \<times> bytes) list" where
  "opt_address t a = (case a of None \<Rightarrow> [] | Some x \<Rightarrow> [(t, address_value x)])"

definition binding_attrs ::
  "bool \<Rightarrow> StunTransactionId \<Rightarrow> simple_sockaddr \<Rightarrow> simple_sockaddr option \<Rightarrow> simple_sockaddr option \<Rightarrow> (u16 \<times> bytes) list" where
  "binding_attrs legacy tid addrRemote origin other =
     [(STUN_ATTRIBUTE_MAPPEDADDRESS, address_value addrRemote)] @
     opt_address (if legacy then STUN_ATTRIBUTE_SOURCEADDRESS else STUN_ATTRIBUTE_RESPONSE_ORIGIN) origin @
     opt_address (if legacy then STUN_ATTRIBUTE_CHANGEDADDRESS else STUN_ATTRIBUTE_OTHER_ADDRESS) other @
     [(if legacy then STUN_ATTRIBUTE_XORMAPPEDADDRESS_OPTIONAL else STUN_ATTRIBUTE_XORMAPPEDADDRESS,
       address_value (CSocketAddress_ApplyStunXorMap tid addrRemote))]"

definition wf_opt :: "simple_sockaddr option \<Rightarrow> bool" where
  "wf_opt a \<longleftrightarrow> (case a of None \<Rightarrow> True | Some x \<Rightarrow> wf_addr x)"

lemma address_value_len: "wf_addr a \<Longrightarrow> length (address_value a) \<le> 20 \<and> 4 dvd length (address_value a)"
  by (simp add: length_address_value)

lemma attr_address_len: "wf_addr a \<Longrightarrow> length (attr_bytes l t (address_value a)) \<le> 24"
  using address_value_len [of a] by (simp add: length_attr_bytes)

lemma length_binding_attrs:
  assumes "wf_addr r" "wf_opt origin" "wf_opt other" "wf_transid tid"
  shows "length (attrs_bytes (binding_attrs l tid r origin other)) \<le> 96"
proof -
  have "length (attrs_bytes (opt_address t a)) \<le> 24" if "wf_opt a" for t a
    using that attr_address_len by (auto simp: opt_address_def wf_opt_def split: option.splits)
  from this [OF assms(2), of "if l then STUN_ATTRIBUTE_SOURCEADDRESS else STUN_ATTRIBUTE_RESPONSE_ORIGIN"]
    this [OF assms(3), of "if l then STUN_ATTRIBUTE_CHANGEDADDRESS else STUN_ATTRIBUTE_OTHER_ADDRESS"]
  show ?thesis using attr_address_len [OF assms(1), of False STUN_ATTRIBUTE_MAPPEDADDRESS]
    attr_address_len [OF wf_addr_xor [OF assms(1,4)], of False "if l then STUN_ATTRIBUTE_XORMAPPEDADDRESS_OPTIONAL else STUN_ATTRIBUTE_XORMAPPEDADDRESS"]
    by (simp add: binding_attrs_def)
qed

lemma built_address:
  assumes b: "built s0 legacy t c tid as b" and w: "\<And>b. mb_fLegacyMode b = legacy \<Longrightarrow> mb_transactionid b = tid \<Longrightarrow>
      bsink.writes (f x) (attr_bytes legacy u (address_value y)) b"
    and y: "wf_addr y" and len: "length (attrs_bytes as) < 60000"
  shows "built s0 legacy t c tid (as @ [(u, address_value y)]) (snd (f x b))"
proof -
  have "bsink.writes (f x) (attr_bytes legacy u (address_value y)) b" using b by (intro w) (simp_all add: built_def)
  from built_step(2) [OF b this] show ?thesis
    using address_value_len [OF y] len by (simp add: size_range_def)
qed

lemma built_optional:
  assumes b: "built s0 legacy t c tid as b" and w: "\<And>x b. wf_addr x \<Longrightarrow> mb_fLegacyMode b = legacy \<Longrightarrow>
      bsink.writes (f x) (attr_bytes legacy u (address_value x)) b"
    and a: "wf_opt a" and len: "length (attrs_bytes as) < 60000"
  shows "built s0 legacy t c tid (as @ opt_address u a) (add_optional f a b)"
proof (cases a)
  case None
  then show ?thesis using b by (simp add: add_optional_def opt_address_def)
next
  case (Some x)
  then have x: "wf_addr x" using a by (simp add: wf_opt_def)
  show ?thesis using built_address [OF b _ x len, of f x u] w [OF x] Some by (simp add: add_optional_def opt_address_def)
qed

text \<open>The key of a granted request, as the response uses it.\<close>

definition integrity_key :: "(bytes \<Rightarrow> bytes) \<Rightarrow> StunMessageIntegrity \<Rightarrow> bytes option" where
  "integrity_key md5 i =
     (if mi_fSendWithIntegrity i
      then Some (if mi_fUseLongTerm i then md5 (long_term_key (Some (mi_szUser i)) (Some (mi_szRealm i)) (Some (mi_szPassword i)))
                 else cstr (mi_szPassword i))
      else None)"

definition wf_integrity :: "StunMessageIntegrity \<Rightarrow> bool" where
  "wf_integrity i \<longleftrightarrow> wf_auth_string (mi_szUser i) \<and> wf_auth_string (mi_szRealm i) \<and> wf_auth_string (mi_szPassword i) \<and>
     (mi_fSendWithIntegrity i \<and> \<not> mi_fUseLongTerm i \<longrightarrow> cstr (mi_szPassword i) \<noteq> [])"

text \<open>The response's attributes, the integrity attribute last.\<close>

definition with_mac :: "(bytes \<Rightarrow> bytes \<Rightarrow> bytes) \<Rightarrow> bytes option \<Rightarrow> StunMessageType \<Rightarrow> StunMessageClass \<Rightarrow> StunTransactionId \<Rightarrow>
    (u16 \<times> bytes) list \<Rightarrow> (u16 \<times> bytes) list" where
  "with_mac hmac key t c tid as =
     (case key of None \<Rightarrow> as | Some k \<Rightarrow> as @ [(STUN_ATTRIBUTE_MESSAGEINTEGRITY, hmac k (covered 24 t c tid as))])"

lemma built_integrity_key:
  assumes b: "built s0 legacy t c tid as b" and i: "wf_integrity i" and len: "length (attrs_bytes as) < 60000"
    and hmac: "\<And>k d. length (hmac k d) = 20" and md5: "\<And>k. length (md5 k) = 16"
  shows "built s0 legacy t c tid (with_mac hmac (integrity_key md5 i) t c tid as)
    (if mi_fSendWithIntegrity i
     then (if mi_fUseLongTerm i = False then snd (AddMessageIntegrityShortTerm hmac (mi_szPassword i) b)
           else snd (AddMessageIntegrityLongTerm hmac md5 (Some (mi_szUser i)) (Some (mi_szRealm i)) (Some (mi_szPassword i)) b))
     else b)"
proof -
  have small: "44 + length (attrs_bytes as) < size_range" using len by (simp add: size_range_def)
  consider (none) "\<not> mi_fSendWithIntegrity i" | (short) "mi_fSendWithIntegrity i" "\<not> mi_fUseLongTerm i"
    | (long) "mi_fSendWithIntegrity i" "mi_fUseLongTerm i" by blast
  then show ?thesis
  proof cases
    case none
    then show ?thesis using b by (simp add: integrity_key_def with_mac_def)
  next
    case short
    let ?p = "mi_szPassword i"
    have "0 < strlen ?p" using i short by (simp add: wf_integrity_def strlen_cstr)
    moreover have "strlen ?p \<le> length ?p" by (rule strlen_le)
    ultimately show ?thesis using built_integrity(2) [where hmac = hmac and n = "strlen ?p" and key = ?p, OF b _ _ hmac small] short
      by (simp add: integrity_key_def with_mac_def AddMessageIntegrityShortTerm_def take_strlen sealed_built)
  next
    case long
    let ?k = "long_term_key (Some (mi_szUser i)) (Some (mi_szRealm i)) (Some (mi_szPassword i))"
    have "length ?k \<le> 194"
      using i wf_auth_string_cstr [of "mi_szUser i"] wf_auth_string_cstr [of "mi_szRealm i"] wf_auth_string_cstr [of "mi_szPassword i"]
      by (simp add: wf_integrity_def long_term_key_def)
    then show ?thesis using built_integrity(2) [where hmac = hmac and n = 16 and key = "md5 ?k", OF b _ _ hmac small] long md5
      by (simp add: integrity_key_def with_mac_def AddMessageIntegrityLongTerm_def MAX_STUN_AUTH_STRING_SIZE_def sealed_built)
  qed
qed

lemma build_binding_response_ok:
  assumes n: "has_buffer n h" and tid: "wf_transid (hd_transid h')" and i: "wf_integrity (hd_integrity h')"
    and addrs: "wf_addr (in_addrRemote (hd_msgIn h'))" "wf_opt origin" "wf_opt other"
    and hmac: "\<And>k d. length (hmac k d) = 20" and md5: "\<And>k. length (md5 k) = 16"
    and legacy: "hd_fLegacyMode h' = l"
  shows "sealed (out_stream h) l StunMsgTypeBinding StunMsgClassSuccessResponse (hd_transid h')
    (with_mac hmac (integrity_key md5 (hd_integrity h')) StunMsgTypeBinding StunMsgClassSuccessResponse (hd_transid h')
       (binding_attrs l (hd_transid h') (in_addrRemote (hd_msgIn h')) origin other))
    (build_binding_response hmac md5 origin other h' (SetLegacyMode l (attach_out (clear_out h))))"
proof -
  let ?t = StunMsgTypeBinding and ?c = StunMsgClassSuccessResponse and ?tid = "hd_transid h'"
  let ?r = "in_addrRemote (hd_msgIn h')" and ?s0 = "out_stream h"
  let ?o = "if l then STUN_ATTRIBUTE_SOURCEADDRESS else STUN_ATTRIBUTE_RESPONSE_ORIGIN"
  let ?x = "if l then STUN_ATTRIBUTE_CHANGEDADDRESS else STUN_ATTRIBUTE_OTHER_ADDRESS"
  let ?m = "if l then STUN_ATTRIBUTE_XORMAPPEDADDRESS_OPTIONAL else STUN_ATTRIBUTE_XORMAPPEDADDRESS"
  let ?as1 = "[(STUN_ATTRIBUTE_MAPPEDADDRESS, address_value ?r)]"
  let ?as2 = "?as1 @ opt_address ?o origin" let ?as3 = "?as2 @ opt_address ?x other"
  let ?as = "binding_attrs l ?tid ?r origin other"
  have as: "?as = ?as3 @ [(?m, address_value (CSocketAddress_ApplyStunXorMap ?tid ?r))]" by (simp add: binding_attrs_def)
  have len: "length (attrs_bytes ?as) \<le> 96" by (rule length_binding_attrs [OF addrs tid])
  have le: "length (attrs_bytes ?as1) < 60000" "length (attrs_bytes ?as2) < 60000" "length (attrs_bytes ?as3) < 60000"
    using len by (simp_all add: binding_attrs_def)
  define b1 where "b1 = snd (AddTransactionId ?tid (snd (AddHeader ?t ?c (SetLegacyMode l (attach_out (clear_out h))))))"
  define b2 where "b2 = snd (AddMappedAddress ?r b1)"
  define b3 where "b3 = add_optional AddResponseOriginAddress origin b2"
  define b4 where "b4 = add_optional AddOtherAddress other b3"
  define b5 where "b5 = snd (AddXorMappedAddress ?r b4)"
  have B1: "built ?s0 l ?t ?c ?tid [] b1" unfolding b1_def by (rule built_out_start [OF n tid])
  have B2: "built ?s0 l ?t ?c ?tid ?as1 b2"
    using built_address [OF B1, of AddMappedAddress ?r STUN_ATTRIBUTE_MAPPEDADDRESS ?r] AddMappedAddress_writes addrs(1) by (simp add: b2_def)
  have B3: "built ?s0 l ?t ?c ?tid ?as2 b3" unfolding b3_def
    by (rule built_optional [OF B2 _ addrs(2) le(1)]) (use AddResponseOriginAddress_writes in blast)
  have B4: "built ?s0 l ?t ?c ?tid ?as3 b4" unfolding b4_def
    by (rule built_optional [OF B3 _ addrs(3) le(2)]) (use AddOtherAddress_writes in blast)
  have xor: "bsink.writes (AddXorMappedAddress ?r) (attr_bytes l ?m (address_value (CSocketAddress_ApplyStunXorMap ?tid ?r))) b"
    if "mb_fLegacyMode b = l" "mb_transactionid b = ?tid" for b
    using AddXorMappedAddress_writes [OF addrs(1), of b l] that tid by simp
  have B5: "built ?s0 l ?t ?c ?tid ?as b5" unfolding b5_def as
    by (rule built_address [where f = AddXorMappedAddress and x = ?r, OF B4 xor wf_addr_xor [OF addrs(1) tid] le(3)])
  have small: "length (attrs_bytes ?as) < 60000" using len by simp
  note B6 = built_integrity_key [OF B5 i small hmac md5]
  let ?key = "integrity_key md5 (hd_integrity h')"
  have "length (attrs_bytes (with_mac hmac ?key ?t ?c ?tid ?as)) \<le> 120"
    using len hmac by (auto simp: with_mac_def length_attr_bytes split: option.split)
  then have "20 + length (attrs_bytes (with_mac hmac ?key ?t ?c ?tid ?as)) < size_range" by (simp add: size_range_def)
  from built_FixLengthField(2) [OF B6 this] show ?thesis
    unfolding build_binding_response_def Let_def b5_def b4_def b3_def b2_def b1_def .
qed

end
