(* ===== verification/HandlerAuth.thy ===== *)
theory HandlerAuth
  imports HandlerBuild
begin

text \<open>
  The authentication step of the request handler: the verdict a provider's answer and the request's
  integrity attribute amount to (\<open>auth_verdict\<close>), and that \<open>ValidateAuth\<close> leaves exactly this verdict
  in the handler (\<open>carries\<close>), with terminated strings throughout.
\<close>

section \<open>The verdict on a request's credentials\<close>

datatype verdict = Refused u16 bytes bytes | Granted "bytes option"

definition response_key :: "(bytes \<Rightarrow> bytes) \<Rightarrow> AuthAttributes \<Rightarrow> AuthResponse \<Rightarrow> bytes" where
  "response_key md5 a resp =
     (if ar_authCredMech resp = AuthCredLongTerm
      then md5 (cstr (aa_szUser a) @ [58] @ cstr (aa_szRealm a) @ [58] @ cstr (ar_szPassword resp))
      else cstr (ar_szPassword resp))"

definition request_signed :: "(bytes \<Rightarrow> bytes \<Rightarrow> bytes) \<Rightarrow> bytes \<Rightarrow> reader \<Rightarrow> bool" where
  "request_signed hmac key r \<longleftrightarrow> SUCCEEDED (ValidateMessageIntegrity hmac (Some key) (length key) r)"

definition auth_verdict ::
  "(bytes \<Rightarrow> bytes \<Rightarrow> bytes) \<Rightarrow> (bytes \<Rightarrow> bytes) \<Rightarrow> IStunAuth option \<Rightarrow> reader \<Rightarrow> verdict" where
  "auth_verdict hmac md5 pAuth r =
     (case pAuth of
        None \<Rightarrow> Granted None
      | Some f \<Rightarrow>
          (let a = auth_attributes r; (hr, raw) = f a AuthResponse_zero; resp = terminate_response raw;
               nonce = cstr (ar_szNonce resp); realm = cstr (ar_szRealm resp)
           in if FAILED hr then Refused STUN_ERROR_BADREQUEST [] []
              else (case ar_responseType resp of
                      Allow \<Rightarrow> Granted None
                    | Reject \<Rightarrow> Refused STUN_ERROR_BADREQUEST [] []
                    | StaleNonce \<Rightarrow> Refused STUN_ERROR_STALENONCE nonce realm
                    | Unauthorized \<Rightarrow> Refused STUN_ERROR_UNAUTHORIZED nonce realm
                    | AllowConditional \<Rightarrow>
                        if request_signed hmac (response_key md5 a resp) r then Granted (Some (response_key md5 a resp))
                        else Refused STUN_ERROR_UNAUTHORIZED nonce realm)))"

text \<open>The string arrays always hold a terminator.\<close>

lemma wf_read_string: "wf_auth_string (read_string t r)"
proof -
  have "wf_auth_string (overwrite 0 (d @ [0]) auth_array)" if "length d < 65" for d
  proof -
    have "length (overwrite 0 (d @ [0]) auth_array) = 65" using that by simp
    moreover have "0 \<in> set (overwrite 0 (d @ [0]) auth_array)" by (simp add: overwrite_def)
    ultimately show ?thesis by (simp add: wf_auth_string_def)
  qed
  moreover have "length (attr_memory a 0 (unat (attr_size a)) r) \<le> unat (attr_size a)" for a
    by (simp add: attr_memory_def bslice_def)
  ultimately show ?thesis
    by (auto simp: read_string_def GetStringAttributeByType_def split: option.splits) (meson linorder_not_le order.strict_trans1)
qed

lemma wf_auth_attributes: "wf_attributes (auth_attributes r)"
  by (simp add: wf_attributes_def auth_attributes_def wf_read_string)

lemma wf_terminated: "length s = 65 \<Longrightarrow> wf_auth_string (s[64 := 0])"
  using set_update_memI [of 64 s 0] by (simp add: wf_auth_string_def)

lemma wf_terminate_response:
  assumes "wf_response r"
  shows "wf_auth_string (ar_szNonce (terminate_response r))" "wf_auth_string (ar_szRealm (terminate_response r))"
    "wf_auth_string (ar_szPassword (terminate_response r))"
  using assms by (simp_all add: wf_response_def terminate_response_def auth_string_size_def MAX_STUN_AUTH_STRING_SIZE_def wf_terminated)

text \<open>The integrity check depends on the key's bytes, not on the array that holds them.\<close>

lemma ValidateMessageIntegrity_key:
  "take n k = take m k' \<Longrightarrow> (n = 0 \<longleftrightarrow> m = 0) \<Longrightarrow>
   ValidateMessageIntegrity hmac (Some k) n r = ValidateMessageIntegrity hmac (Some k') m r"
  unfolding ValidateMessageIntegrity_def by (simp only: option.sel option.distinct simp_thms if_False)

lemma Short_signed: "SUCCEEDED (ValidateMessageIntegrityShort hmac pw r) \<longleftrightarrow> request_signed hmac (cstr pw) r"
proof -
  have "ValidateMessageIntegrity hmac (Some pw) (strlen pw) r = ValidateMessageIntegrity hmac (Some (cstr pw)) (length (cstr pw)) r"
    by (rule ValidateMessageIntegrity_key) (simp_all add: take_strlen strlen_cstr [symmetric])
  then show ?thesis by (simp add: ValidateMessageIntegrityShort_def request_signed_def)
qed

lemma Long_signed:
  assumes "\<forall>k. length (md5 k) = 16" "rd_state r = BodyValidated" "CDataStream_GetDataPointerUnsafe (rd_stream r) \<noteq> None"
  shows "SUCCEEDED (ValidateMessageIntegrityLong hmac md5 (Some u) (Some rl) (Some pw) r) \<longleftrightarrow>
    request_signed hmac (md5 (cstr u @ [58] @ cstr rl @ [58] @ cstr pw)) r"
  using assms by (auto simp: ValidateMessageIntegrityLong_def request_signed_def long_term_key_def)

lemma signed_key_nonempty: "request_signed hmac k r \<Longrightarrow> k \<noteq> []"
  by (auto simp: request_signed_def ValidateMessageIntegrity_def Let_def split: if_splits)

section \<open>What the authentication step leaves in the handler\<close>

definition fresh_auth :: "handler \<Rightarrow> bool" where
  "fresh_auth h \<longleftrightarrow>
     hd_integrity h = \<lparr>mi_fSendWithIntegrity = False, mi_fUseLongTerm = False, mi_szUser = auth_array, mi_szRealm = auth_array,
       mi_szPassword = auth_array\<rparr> \<and>
     err_errorcode (hd_error h) = 0 \<and> err_attribUnknown (hd_error h) = 0 \<and> err_szNonce (hd_error h) = auth_array \<and>
     err_szRealm (hd_error h) = auth_array"

definition same_request :: "handler \<Rightarrow> handler \<Rightarrow> bool" where
  "same_request h h' \<longleftrightarrow>
     h'\<lparr>hd_integrity := hd_integrity h, hd_error := hd_error h\<rparr> = h \<and> err_msgtype (hd_error h') = err_msgtype (hd_error h) \<and>
     err_msgclass (hd_error h') = err_msgclass (hd_error h) \<and> err_attribUnknown (hd_error h') = err_attribUnknown (hd_error h)"

definition wf_error :: "handler \<Rightarrow> bool" where
  "wf_error h \<longleftrightarrow> err_attribUnknown (hd_error h) = 0 \<and> wf_auth_string (err_szNonce (hd_error h)) \<and> wf_auth_string (err_szRealm (hd_error h))"

definition carries :: "(bytes \<Rightarrow> bytes) \<Rightarrow> verdict \<Rightarrow> handler \<Rightarrow> bool" where
  "carries md5 v h \<longleftrightarrow> wf_error h \<and>
     (case v of
        Refused e nonce realm \<Rightarrow>
          err_errorcode (hd_error h) = e \<and> cstr (err_szNonce (hd_error h)) = nonce \<and> cstr (err_szRealm (hd_error h)) = realm
      | Granted key \<Rightarrow>
          err_errorcode (hd_error h) = 0 \<and> cstr (err_szNonce (hd_error h)) = [] \<and> cstr (err_szRealm (hd_error h)) = [] \<and>
          wf_integrity (hd_integrity h) \<and> integrity_key md5 (hd_integrity h) = key)"

text \<open>The tail of \<open>ValidateAuth\<close>: the realm and nonce of a 401 or 438.\<close>

definition copy_challenge :: "AuthResponse \<Rightarrow> handler \<Rightarrow> handler" where
  "copy_challenge resp h =
     (let err = hd_error h
      in if err_errorcode err = STUN_ERROR_UNAUTHORIZED \<or> err_errorcode err = STUN_ERROR_STALENONCE
         then h\<lparr>hd_error := err\<lparr>err_szRealm := strcpy (err_szRealm err) (ar_szRealm resp),
                                 err_szNonce := strcpy (err_szNonce err) (ar_szNonce resp)\<rparr>\<rparr>
         else h)"

lemma error_codes [simp]: "STUN_ERROR_UNAUTHORIZED \<noteq> 0" "STUN_ERROR_STALENONCE \<noteq> 0" "STUN_ERROR_BADREQUEST \<noteq> 0"
  "STUN_ERROR_BADREQUEST \<noteq> STUN_ERROR_UNAUTHORIZED" "STUN_ERROR_BADREQUEST \<noteq> STUN_ERROR_STALENONCE"
  by (simp_all add: stun_consts)

lemma challenge_carried:
  assumes f: "fresh_auth h" and e: "e = STUN_ERROR_UNAUTHORIZED \<or> e = STUN_ERROR_STALENONCE"
    and r: "wf_auth_string (ar_szNonce resp)" "wf_auth_string (ar_szRealm resp)"
  shows "carries md5 (Refused e (cstr (ar_szNonce resp)) (cstr (ar_szRealm resp))) (copy_challenge resp (set_error e h))"
    "same_request h (copy_challenge resp (set_error e h))"
  using strcpy_ok [OF r(1), of auth_array] strcpy_ok [OF r(2), of auth_array] f e
  by (auto simp: carries_def copy_challenge_def set_error_def fresh_auth_def wf_error_def same_request_def)

lemma plain_carried:
  assumes "fresh_auth h"
  shows "carries md5 (Refused STUN_ERROR_BADREQUEST [] []) (copy_challenge resp (set_error STUN_ERROR_BADREQUEST h))"
    "same_request h (copy_challenge resp (set_error STUN_ERROR_BADREQUEST h))"
    "carries md5 (Refused STUN_ERROR_BADREQUEST [] []) (set_error STUN_ERROR_BADREQUEST h)"
    "same_request h (set_error STUN_ERROR_BADREQUEST h)"
    "carries md5 (Granted None) (copy_challenge resp h)" "same_request h (copy_challenge resp h)"
    "carries md5 (Granted None) h" "same_request h h"
  using assms by (auto simp: carries_def copy_challenge_def set_error_def fresh_auth_def wf_error_def same_request_def
      wf_integrity_def integrity_key_def)

text \<open>The conditional case, with the key checked.\<close>

lemma conditional_carried:
  assumes f: "fresh_auth h" and st: "rd_state (hd_reader h) = BodyValidated"
      "CDataStream_GetDataPointerUnsafe (rd_stream (hd_reader h)) \<noteq> None"
    and md5: "\<forall>k. length (md5 k) = 16" and a: "wf_attributes a"
    and resp: "wf_auth_string (ar_szNonce resp)" "wf_auth_string (ar_szRealm resp)" "wf_auth_string (ar_szPassword resp)"
  shows "carries md5 (if request_signed hmac (response_key md5 a resp) (hd_reader h) then Granted (Some (response_key md5 a resp))
           else Refused STUN_ERROR_UNAUTHORIZED (cstr (ar_szNonce resp)) (cstr (ar_szRealm resp)))
         (copy_challenge resp (check_integrity hmac md5 a resp h))"
    "same_request h (copy_challenge resp (check_integrity hmac md5 a resp h))"
proof -
  let ?k = "response_key md5 a resp" and ?h' = "copy_challenge resp (check_integrity hmac md5 a resp h)"
  have eq: "check_integrity hmac md5 a resp h =
      (if request_signed hmac ?k (hd_reader h)
       then h\<lparr>hd_integrity := (hd_integrity h)\<lparr>mi_fSendWithIntegrity := True, mi_fUseLongTerm := (ar_authCredMech resp = AuthCredLongTerm),
              mi_szPassword := strcpy auth_array (ar_szPassword resp), mi_szUser := strcpy auth_array (aa_szUser a),
              mi_szRealm := strcpy auth_array (aa_szRealm a)\<rparr>\<rparr>
       else set_error STUN_ERROR_UNAUTHORIZED h)"
    using f Long_signed [OF md5 st] Short_signed by (simp add: check_integrity_def response_key_def fresh_auth_def Let_def)
  have "carries md5 (if request_signed hmac ?k (hd_reader h) then Granted (Some ?k)
      else Refused STUN_ERROR_UNAUTHORIZED (cstr (ar_szNonce resp)) (cstr (ar_szRealm resp))) ?h' \<and> same_request h ?h'"
  proof (cases "request_signed hmac ?k (hd_reader h)")
    case True
    have ne: "?k \<noteq> []" by (rule signed_key_nonempty [OF True])
    have u: "wf_auth_string (aa_szUser a)" "wf_auth_string (aa_szRealm a)" using a by (simp_all add: wf_attributes_def)
    note c = strcpy_ok [OF u(1), of auth_array] strcpy_ok [OF u(2), of auth_array] strcpy_ok [OF resp(3), of auth_array]
    show ?thesis using True f ne c unfolding eq
      by (auto simp: carries_def copy_challenge_def fresh_auth_def wf_error_def same_request_def wf_integrity_def integrity_key_def
          long_term_key_def response_key_def)
  next
    case False
    then show ?thesis using challenge_carried [OF f _ resp(1,2)] unfolding eq by simp
  qed
  then show "carries md5 (if request_signed hmac ?k (hd_reader h) then Granted (Some ?k)
      else Refused STUN_ERROR_UNAUTHORIZED (cstr (ar_szNonce resp)) (cstr (ar_szRealm resp))) ?h'" "same_request h ?h'" by blast+
qed

definition providers_ok :: "IStunAuth option \<Rightarrow> bool" where
  "providers_ok pAuth \<longleftrightarrow> (\<forall>f. pAuth = Some f \<longrightarrow> auth_provider f)"

lemma ValidateAuth_carries:
  assumes f: "fresh_auth h" and st: "rd_state (hd_reader h) = BodyValidated"
      "CDataStream_GetDataPointerUnsafe (rd_stream (hd_reader h)) \<noteq> None"
    and md5: "\<forall>k. length (md5 k) = 16" and p: "providers_ok pAuth" and v: "ValidateAuth hmac md5 pAuth h = (hr, h1)"
  shows "carries md5 (auth_verdict hmac md5 pAuth (hd_reader h)) (default_error hr h1)" "same_request h (default_error hr h1)"
proof -
  let ?v = "auth_verdict hmac md5 pAuth (hd_reader h)"
  have "carries md5 ?v (default_error hr h1) \<and> same_request h (default_error hr h1)"
  proof (cases pAuth)
    case None
    then show ?thesis using v plain_carried(7,8) [OF f] by (auto simp: ValidateAuth_def auth_verdict_def default_error_def)
  next
    case (Some g)
    let ?a = "auth_attributes (hd_reader h)"
    obtain ghr raw where g: "g ?a AuthResponse_zero = (ghr, raw)" by fastforce
    have "wf_response raw" using auth_provider.check_zero [of g ?a] p Some g wf_auth_attributes by (auto simp: providers_ok_def)
    note w = wf_terminate_response [OF this]
    let ?resp = "terminate_response raw"
    show ?thesis
    proof (cases "FAILED ghr")
      case True
      then have "h1 = h" "hr = ghr" using v Some g by (simp_all add: ValidateAuth_def Let_def)
      then show ?thesis using True Some g f plain_carried(3,4) [OF f]
        by (simp add: auth_verdict_def default_error_def Let_def fresh_auth_def)
    next
      case False
      have hr: "default_error hr h1 = h1" using v Some g False by (simp_all add: ValidateAuth_def default_error_def Let_def)
      have rt: "ar_responseType ?resp = ar_responseType raw" by (simp add: terminate_response_def)
      have h1: "h1 = copy_challenge ?resp (case ar_responseType ?resp of
           StaleNonce \<Rightarrow> set_error STUN_ERROR_STALENONCE h | Unauthorized \<Rightarrow> set_error STUN_ERROR_UNAUTHORIZED h
         | Reject \<Rightarrow> set_error STUN_ERROR_BADREQUEST h | Allow \<Rightarrow> h | AllowConditional \<Rightarrow> check_integrity hmac md5 ?a ?resp h)"
        using v Some g False by (simp add: ValidateAuth_def Let_def copy_challenge_def)
      note cc = conditional_carried [OF f st md5 wf_auth_attributes [of "hd_reader h"] w, of hmac]
      show ?thesis unfolding hr unfolding h1
        using challenge_carried [OF f _ w(1,2)] plain_carried [OF f] cc Some g False
        by (cases "ar_responseType ?resp") (simp_all add: auth_verdict_def Let_def)
    qed
  qed
  then show "carries md5 ?v (default_error hr h1)" "same_request h (default_error hr h1)" by blast+
qed

end
