(* ===== verification/HandlerCorrect.thy ===== *)
theory HandlerCorrect
  imports HandlerAuth
begin

text \<open>
  The request handler against its specification: a decision (\<open>reply_to\<close>) that reads only the parsed
  request, the transport addresses and the provider's answer, and the bytes each decision puts on
  the wire (\<open>reply_bytes\<close>). The last lemma says that \<open>ProcessRequest\<close> does exactly that.
\<close>

section \<open>The reply to a request\<close>

datatype reply =
    ErrorReply u16 bytes bytes
  | BindingReply SocketRole "simple_sockaddr option" "simple_sockaddr option" "bytes option"

definition requested_port :: "reader \<Rightarrow> u16" where
  "requested_port r = (case GetResponsePort r of (hr, Some p) \<Rightarrow> p | (hr, None) \<Rightarrow> 0)"

definition wants_change :: "reader \<Rightarrow> bool" where
  "wants_change r \<longleftrightarrow> SUCCEEDED (fst (GetChangeRequest r)) \<and>
     (fChangeIP (snd (GetChangeRequest r)) \<or> fChangePort (snd (GetChangeRequest r)))"

definition usable :: "TransportAddressSet \<Rightarrow> SocketRole \<Rightarrow> bool" where
  "usable tas role \<longleftrightarrow> IsValidSocketRole role \<and> ta_fValid (tas ! unat role)"

definition known :: "simple_sockaddr \<Rightarrow> simple_sockaddr option" where
  "known x = (if CSocketAddress_IsIPAddressZero x then None else Some x)"

definition reported_other :: "TransportAddressSet \<Rightarrow> SocketRole \<Rightarrow> simple_sockaddr option" where
  "reported_other tas role =
     (if (\<forall>p \<in> {RolePP, RolePA, RoleAP, RoleAA}. usable tas p)
      then known (ta_addr (tas ! unat (SocketRoleSwapIP (SocketRoleSwapPort role)))) else None)"

definition reported_origin :: "TransportAddressSet \<Rightarrow> StunMessageIn \<Rightarrow> SocketRole \<Rightarrow> simple_sockaddr option" where
  "reported_origin tas msgIn out =
     (let x = ta_addr (tas ! unat out)
      in if CSocketAddress_IsIPAddressZero x \<and> out = in_socketrole msgIn then known (in_addrLocal msgIn) else known x)"

definition binding_reply :: "bytes option \<Rightarrow> TransportAddressSet \<Rightarrow> StunMessageIn \<Rightarrow> reader \<Rightarrow> reply" where
  "binding_reply key tas msgIn r =
     (let role = in_socketrole msgIn; out = (if wants_change r then change_output (snd (GetChangeRequest r)) role else role)
      in if requested_port r \<noteq> 0 \<and> SUCCEEDED (fst (GetPaddingAttributeSize r)) then ErrorReply STUN_ERROR_BADREQUEST [] []
         else if wants_change r \<and> (\<not> usable tas out \<or> in_fConnectionOriented msgIn) then ErrorReply STUN_ERROR_BADREQUEST [] []
         else BindingReply out (reported_origin tas msgIn out) (reported_other tas role) key)"

definition reply_to ::
  "(bytes \<Rightarrow> bytes \<Rightarrow> bytes) \<Rightarrow> (bytes \<Rightarrow> bytes) \<Rightarrow> IStunAuth option \<Rightarrow> TransportAddressSet \<Rightarrow> StunMessageIn \<Rightarrow> reader \<Rightarrow> reply" where
  "reply_to hmac md5 pAuth tas msgIn r =
     (if requested_port r \<noteq> 0 \<and> in_fConnectionOriented msgIn then ErrorReply STUN_ERROR_BADREQUEST [] []
      else if GetMessageType r \<noteq> StunMsgTypeBinding then ErrorReply STUN_ERROR_BADREQUEST [] []
      else (case auth_verdict hmac md5 pAuth r of
              Refused e nonce realm \<Rightarrow> ErrorReply e nonce realm
            | Granted key \<Rightarrow> binding_reply key tas msgIn r))"

definition reply_bytes :: "(bytes \<Rightarrow> bytes \<Rightarrow> bytes) \<Rightarrow> StunMessageIn \<Rightarrow> reader \<Rightarrow> reply \<Rightarrow> bytes" where
  "reply_bytes hmac msgIn r rep =
     (let tid = Reader_GetTransactionId r; legacy = IsMessageLegacyFormat r
      in case rep of
           ErrorReply e nonce realm \<Rightarrow>
             message (GetMessageType r) StunMsgClassFailureResponse tid (error_attrs legacy e nonce realm)
         | BindingReply out origin other key \<Rightarrow>
             message StunMsgTypeBinding StunMsgClassSuccessResponse tid
               (with_mac hmac key StunMsgTypeBinding StunMsgClassSuccessResponse tid
                  (binding_attrs legacy tid (in_addrRemote msgIn) origin other)))"

definition reply_role :: "StunMessageIn \<Rightarrow> reply \<Rightarrow> SocketRole" where
  "reply_role msgIn rep = (case rep of ErrorReply e nonce realm \<Rightarrow> in_socketrole msgIn | BindingReply out origin other key \<Rightarrow> out)"

text \<open>The response port is honoured even when the reply is an error, except over a connection.\<close>

definition reply_dest :: "StunMessageIn \<Rightarrow> reader \<Rightarrow> simple_sockaddr" where
  "reply_dest msgIn r =
     (if requested_port r \<noteq> 0 \<and> \<not> in_fConnectionOriented msgIn
      then CSocketAddress_SetPort (requested_port r) (in_addrRemote msgIn) else in_addrRemote msgIn)"

section \<open>The binding request\<close>

definition wf_set :: "TransportAddressSet \<Rightarrow> bool" where
  "wf_set tas \<longleftrightarrow> length tas = 4 \<and> (\<forall>x \<in> set tas. wf_addr (ta_addr x))"

lemma HasAddress_usable: "hd_pAddrSet h = Some tas \<Longrightarrow> HasAddress role h \<longleftrightarrow> usable tas role"
  by (simp add: HasAddress_def usable_def address_of_def)

lemma other_address_eq:
  assumes a: "hd_pAddrSet h = Some tas" and v: "IsValidSocketRole (in_socketrole (hd_msgIn h))"
  shows "other_address h = reported_other tas (in_socketrole (hd_msgIn h))"
proof -
  let ?o = "SocketRoleSwapIP (SocketRoleSwapPort (in_socketrole (hd_msgIn h)))"
  have "?o \<in> {RolePP, RolePA, RoleAP, RoleAA}" using v valid_role_cases [of ?o] by simp
  then have "IsIPAddressZeroOrInvalid ?o h \<longleftrightarrow> CSocketAddress_IsIPAddressZero (ta_addr (tas ! unat ?o))"
    if "\<forall>p \<in> {RolePP, RolePA, RoleAP, RoleAA}. usable tas p"
    using that a HasAddress_usable [OF a, of ?o] unfolding IsIPAddressZeroOrInvalid_def address_of_def by auto
  then show ?thesis unfolding other_address_def reported_other_def Let_def HasAddress_usable [OF a] known_def address_of_def a by simp
qed

lemma origin_address_eq: "hd_pAddrSet h = Some tas \<Longrightarrow> origin_address out h = reported_origin tas (hd_msgIn h) out"
  by (simp add: origin_address_def reported_origin_def address_of_def known_def Let_def)

lemma change_output_valid: "IsValidSocketRole role \<Longrightarrow> IsValidSocketRole (change_output c role)"
  by (simp add: change_output_def Let_def)

lemma wf_set_nth: "wf_set tas \<Longrightarrow> IsValidSocketRole role \<Longrightarrow> wf_addr (ta_addr (tas ! unat role))"
  using role_lt by (simp add: wf_set_def)

lemma wf_known: "wf_addr x \<Longrightarrow> wf_opt (known x)"
  by (simp add: known_def wf_opt_def)

lemma wf_reported:
  assumes "wf_set tas" "IsValidSocketRole (in_socketrole msgIn)" "IsValidSocketRole out" "wf_addr (in_addrLocal msgIn)"
  shows "wf_opt (reported_other tas (in_socketrole msgIn))" "wf_opt (reported_origin tas msgIn out)"
  using wf_set_nth [OF assms(1)] assms wf_known
  by (simp_all add: reported_other_def reported_origin_def Let_def) (simp add: wf_opt_def)

text \<open>The handler in the middle of a request, and what a step leaves behind.\<close>

definition request_frame :: "nat \<Rightarrow> TransportAddressSet \<Rightarrow> StunMessageIn \<Rightarrow> reader \<Rightarrow> handler \<Rightarrow> bool" where
  "request_frame n tas msgIn r h \<longleftrightarrow>
     hd_pAddrSet h = Some tas \<and> hd_msgIn h = msgIn \<and> hd_transid h = Reader_GetTransactionId r \<and>
     hd_fLegacyMode h = IsMessageLegacyFormat r \<and> (hd_fRequestHasResponsePort h \<longleftrightarrow> requested_port r \<noteq> 0) \<and>
     err_msgtype (hd_error h) = GetMessageType r \<and> err_msgclass (hd_error h) = StunMsgClassFailureResponse \<and> has_buffer n h \<and>
     out_socketrole (hd_msgOut h) = in_socketrole msgIn \<and> out_addrDest (hd_msgOut h) = reply_dest msgIn r"

definition valid_input :: "TransportAddressSet \<Rightarrow> StunMessageIn \<Rightarrow> reader \<Rightarrow> bool" where
  "valid_input tas msgIn r \<longleftrightarrow>
     in_pReader msgIn = Some r \<and> IsValidSocketRole (in_socketrole msgIn) \<and> wf_set tas \<and> wf_addr (in_addrLocal msgIn) \<and>
     wf_addr (in_addrRemote msgIn) \<and> wf_transid (Reader_GetTransactionId r) \<and> rd_state r = BodyValidated \<and>
     CDataStream_GetDataPointerUnsafe (rd_stream r) \<noteq> None"

definition carries_reply ::
  "(bytes \<Rightarrow> bytes \<Rightarrow> bytes) \<Rightarrow> (bytes \<Rightarrow> bytes) \<Rightarrow> nat \<Rightarrow> TransportAddressSet \<Rightarrow> StunMessageIn \<Rightarrow> reader \<Rightarrow> reply \<Rightarrow> handler \<Rightarrow> bool" where
  "carries_reply hmac md5 n tas msgIn r rep h \<longleftrightarrow>
     (case rep of
        ErrorReply e nonce realm \<Rightarrow> request_frame n tas msgIn r h \<and> carries md5 (Refused e nonce realm) h
      | BindingReply out origin other key \<Rightarrow>
          err_errorcode (hd_error h) = 0 \<and> holds n h (reply_bytes hmac msgIn r rep) \<and>
          out_socketrole (hd_msgOut h) = out \<and> out_addrDest (hd_msgOut h) = reply_dest msgIn r)"

lemma request_frame_reader: "request_frame n tas msgIn r h \<Longrightarrow> valid_input tas msgIn r \<Longrightarrow> hd_reader h = r"
  by (simp add: request_frame_def valid_input_def hd_reader_def)

lemma has_buffer_msgOut: "hd_msgOut h' = hd_msgOut h \<Longrightarrow> has_buffer n h' = has_buffer n h"
  by (simp add: has_buffer_def)

lemma same_request_fields:
  assumes "same_request h h'"
  shows "hd_pAddrSet h' = hd_pAddrSet h" "hd_msgIn h' = hd_msgIn h" "hd_msgOut h' = hd_msgOut h" "hd_transid h' = hd_transid h"
    "hd_fLegacyMode h' = hd_fLegacyMode h" "hd_fRequestHasResponsePort h' = hd_fRequestHasResponsePort h"
    "err_msgtype (hd_error h') = err_msgtype (hd_error h)" "err_msgclass (hd_error h') = err_msgclass (hd_error h)"
  using assms unfolding same_request_def by (metis handler.surjective handler.select_convs handler.update_convs)+

lemma request_frame_same: "request_frame n tas msgIn r h \<Longrightarrow> same_request h h' \<Longrightarrow> request_frame n tas msgIn r h'"
  by (simp add: request_frame_def same_request_fields has_buffer_msgOut [OF same_request_fields(3)])

lemma request_frame_buffer:
  "request_frame n tas msgIn r h \<Longrightarrow> same_but_buffer h h' \<Longrightarrow> has_buffer n h' \<Longrightarrow> request_frame n tas msgIn r h'"
  by (simp add: request_frame_def same_but_buffer_fields)

lemma carries_buffer: "carries md5 v h \<Longrightarrow> same_but_buffer h h' \<Longrightarrow> carries md5 v h'"
  by (cases v) (simp_all add: carries_def wf_error_def same_but_buffer_fields)

lemma bad_request:
  assumes "request_frame n tas msgIn r h" "carries md5 (Granted key) h"
  shows "request_frame n tas msgIn r (set_error STUN_ERROR_BADREQUEST h)"
    "carries md5 (Refused STUN_ERROR_BADREQUEST [] []) (set_error STUN_ERROR_BADREQUEST h)"
  using assms by (simp_all add: request_frame_def carries_def wf_error_def set_error_def has_buffer_def)

lemma length_reply_attrs:
  assumes "wf_addr r" "wf_opt origin" "wf_opt other" "wf_transid tid" "\<forall>k d. length (hmac k d) = 20"
  shows "length (attrs_bytes (with_mac hmac key t c tid (binding_attrs l tid r origin other))) \<le> 120"
  using length_binding_attrs [OF assms(1-4), of l] assms(5) by (auto simp: with_mac_def length_attr_bytes split: option.split)

lemma ProcessBindingRequest_carries:
  assumes f: "request_frame n tas msgIn r h" and v: "valid_input tas msgIn r" and c: "carries md5 (Granted key) h"
    and hmac: "\<forall>k d. length (hmac k d) = 20" and md5: "\<forall>k. length (md5 k) = 16"
    and p: "ProcessBindingRequest hmac md5 h = (hr, h1)"
  shows "carries_reply hmac md5 n tas msgIn r (binding_reply key tas msgIn r) (default_error hr h1)"
proof -
  let ?b = "SetLegacyMode (hd_fLegacyMode h) (attach_out (clear_out h))" and ?role = "in_socketrole msgIn"
  define h2 where "h2 = detach_out ?b (clear_out h)"
  define out where "out = (if wants_change r then change_output (snd (GetChangeRequest r)) ?role else ?role)"
  have n: "has_buffer n h" using f by (simp add: request_frame_def)
  have r: "hd_reader h = r" by (rule request_frame_reader [OF f v])
  have same: "same_but_buffer h h2" unfolding h2_def by (rule same_but_buffer_trans [OF clear_same detach_same])
  have n2: "has_buffer n h2" using attach_ok(7) [OF n] n by (intro holds_has_buffer) (auto simp: h2_def has_buffer_def)
  note f2 = request_frame_buffer [OF f same n2] and c2 = carries_buffer [OF c same]
  have in_h: "hd_msgIn h = msgIn" "hd_fRequestHasResponsePort h \<longleftrightarrow> requested_port r \<noteq> 0" "hd_pAddrSet h2 = Some tas" "hd_msgIn h2 = msgIn"
    using f f2 by (simp_all add: request_frame_def)
  note bad = bad_request [OF f2 c2]
  have role: "IsValidSocketRole ?role" "IsValidSocketRole out" using v change_output_valid by (simp_all add: valid_input_def out_def)
  note sf = same_but_buffer_fields [OF clear_same [of h]]
  have pr: "ProcessBindingRequest hmac md5 h =
      (if hd_fRequestHasResponsePort h \<and> SUCCEEDED (fst (GetPaddingAttributeSize r)) then (E_FAIL, set_error STUN_ERROR_BADREQUEST h2)
       else if wants_change r \<and> (\<not> usable tas out \<or> in_fConnectionOriented msgIn) then (E_FAIL, set_error STUN_ERROR_BADREQUEST h2)
       else (S_OK, let h3 = h2\<lparr>hd_msgOut := (hd_msgOut h2)\<lparr>out_socketrole := out\<rparr>\<rparr>
                   in detach_out (build_binding_response hmac md5 (reported_origin tas msgIn out) (reported_other tas ?role) h3 ?b) h3))"
  proof -
    have rd: "hd_reader (clear_out h) = r" using r by (simp add: hd_reader_def sf)
    have res: "hd_fRequestHasResponsePort h2 = hd_fRequestHasResponsePort h" using same_but_buffer_fields(5) [OF same] .
    show ?thesis
      unfolding ProcessBindingRequest_def Let_def rd split_beta sf in_h(1) h2_def [symmetric] res
        wants_change_def [symmetric]
      using HasAddress_usable [OF in_h(3)] other_address_eq [OF in_h(3)] origin_address_eq [OF in_h(3)] in_h(4) role(1)
      by (cases "wants_change r") (simp_all add: out_def)
  qed
  consider (bad) "binding_reply key tas msgIn r = ErrorReply STUN_ERROR_BADREQUEST [] []" "(hr, h1) = (E_FAIL, set_error STUN_ERROR_BADREQUEST h2)"
    | (good) "binding_reply key tas msgIn r = BindingReply out (reported_origin tas msgIn out) (reported_other tas ?role) key"
      "hr = S_OK" "h1 = (let h3 = h2\<lparr>hd_msgOut := (hd_msgOut h2)\<lparr>out_socketrole := out\<rparr>\<rparr>
         in detach_out (build_binding_response hmac md5 (reported_origin tas msgIn out) (reported_other tas ?role) h3 ?b) h3)"
    using pr p in_h(2) unfolding binding_reply_def Let_def out_def [symmetric] by (auto split: if_splits)
  then show ?thesis
  proof cases
    case bad
    then have "default_error hr h1 = set_error STUN_ERROR_BADREQUEST h2" by (simp add: default_error_def set_error_def)
    then show ?thesis using bad_request [OF f2 c2] bad(1) by (simp add: carries_reply_def)
  next
    case good
    let ?or = "reported_origin tas msgIn out" and ?ot = "reported_other tas ?role" and ?tid = "Reader_GetTransactionId r"
    let ?l = "IsMessageLegacyFormat r" and ?x = "in_addrRemote msgIn"
    define h3 where "h3 = h2\<lparr>hd_msgOut := (hd_msgOut h2)\<lparr>out_socketrole := out\<rparr>\<rparr>"
    have h3: "hd_transid h3 = ?tid" "hd_integrity h3 = hd_integrity h2" "hd_msgIn h3 = msgIn" "hd_fLegacyMode h3 = ?l" "hd_error h3 = hd_error h2"
      "out_socketrole (hd_msgOut h3) = out" "out_addrDest (hd_msgOut h3) = reply_dest msgIn r"
      using f2 by (simp_all add: h3_def request_frame_def)
    have wf: "wf_addr ?x" "wf_opt ?or" "wf_opt ?ot" "wf_transid ?tid"
      using v wf_reported [of tas msgIn out] role by (simp_all add: valid_input_def)
    have i: "wf_integrity (hd_integrity h2)" "integrity_key md5 (hd_integrity h2) = key" "err_errorcode (hd_error h2) = 0"
      using c2 by (simp_all add: carries_def)
    have legacy: "hd_fLegacyMode h = ?l" using f by (simp add: request_frame_def)
    let ?B = "build_binding_response hmac md5 ?or ?ot h3 ?b"
    have "sealed (out_stream h) ?l StunMsgTypeBinding StunMsgClassSuccessResponse ?tid
      (with_mac hmac key StunMsgTypeBinding StunMsgClassSuccessResponse ?tid (binding_attrs ?l ?tid ?x ?or ?ot)) ?B"
      using build_binding_response_ok [OF n, of h3 ?or ?ot hmac md5 ?l] wf i h3 hmac md5 legacy by simp
    from sealed_holds [OF this n, of h3] have "holds n (detach_out ?B h3) (reply_bytes hmac msgIn r (BindingReply out ?or ?ot key))"
      using length_reply_attrs [where hmac = hmac, OF wf hmac, of key StunMsgTypeBinding StunMsgClassSuccessResponse ?l] n
      by (simp add: reply_bytes_def has_buffer_def Let_def)
    moreover have "default_error hr h1 = detach_out ?B h3" using good by (simp add: default_error_def h3_def Let_def)
    moreover note same_but_buffer_fields [OF detach_same [of h3 ?B]]
    ultimately show ?thesis using good(1) i h3 by (simp add: carries_reply_def)
  qed
qed

section \<open>The whole request\<close>

text \<open>The handler after the fields of the request are copied and the response port is applied.\<close>

lemma apply_response_port_frame:
  assumes v: "valid_input tas msgIn r" and h: "hd_pAddrSet h = Some tas" "hd_msgIn h = msgIn" "hd_transid h = Reader_GetTransactionId r"
      "hd_fLegacyMode h = IsMessageLegacyFormat r" "\<not> hd_fRequestHasResponsePort h" "err_msgtype (hd_error h) = GetMessageType r"
      "err_msgclass (hd_error h) = StunMsgClassFailureResponse" "has_buffer n h" "out_socketrole (hd_msgOut h) = in_socketrole msgIn"
      "out_addrDest (hd_msgOut h) = in_addrRemote msgIn" and f: "fresh_auth h"
  shows "request_frame n tas msgIn r (apply_response_port r h)"
    "requested_port r \<noteq> 0 \<and> in_fConnectionOriented msgIn \<Longrightarrow> carries md5 (Refused STUN_ERROR_BADREQUEST [] []) (apply_response_port r h)"
    "\<not> (requested_port r \<noteq> 0 \<and> in_fConnectionOriented msgIn) \<Longrightarrow> fresh_auth (apply_response_port r h)"
  using assms by (auto simp: apply_response_port_def request_frame_def requested_port_def [symmetric] reply_dest_def has_buffer_def
      set_error_def carries_def wf_error_def fresh_auth_def Let_def)

lemma BuildErrorResponse_reply:
  assumes f: "request_frame n tas msgIn r h" and v: "valid_input tas msgIn r" and c: "carries md5 (Refused e nonce realm) h"
    and e: "300 \<le> e" "e \<le> 600"
  shows "holds n (BuildErrorResponse h) (reply_bytes hmac msgIn r (ErrorReply e nonce realm))"
    "out_socketrole (hd_msgOut (BuildErrorResponse h)) = in_socketrole msgIn" "out_addrDest (hd_msgOut (BuildErrorResponse h)) = reply_dest msgIn r"
proof -
  have h: "has_buffer n h" "wf_transid (hd_transid h)" "300 \<le> err_errorcode (hd_error h)" "err_errorcode (hd_error h) \<le> 600"
    "err_attribUnknown (hd_error h) = 0" "wf_auth_string (err_szNonce (hd_error h))" "wf_auth_string (err_szRealm (hd_error h))"
    using f v c e by (simp_all add: request_frame_def valid_input_def carries_def wf_error_def)
  note b = BuildErrorResponse_ok [OF h]
  show "holds n (BuildErrorResponse h) (reply_bytes hmac msgIn r (ErrorReply e nonce realm))"
    using b(1) f c by (simp add: reply_bytes_def request_frame_def carries_def Let_def)
  show "out_socketrole (hd_msgOut (BuildErrorResponse h)) = in_socketrole msgIn" "out_addrDest (hd_msgOut (BuildErrorResponse h)) = reply_dest msgIn r"
    using same_but_buffer_fields [OF b(2)] f by (simp_all add: request_frame_def)
qed

text \<open>Errors of the specification are STUN error numbers.\<close>

lemma auth_verdict_code: "auth_verdict hmac md5 pAuth r = Refused e nonce realm \<Longrightarrow> e \<in> {STUN_ERROR_BADREQUEST, STUN_ERROR_UNAUTHORIZED, STUN_ERROR_STALENONCE}"
  by (auto simp: auth_verdict_def Let_def split: option.splits prod.splits if_splits AuthResponseType.splits)

lemma reply_code: "reply_to hmac md5 pAuth tas msgIn r = ErrorReply e nonce realm \<Longrightarrow> e \<in> {STUN_ERROR_BADREQUEST, STUN_ERROR_UNAUTHORIZED, STUN_ERROR_STALENONCE}"
  using auth_verdict_code [of hmac md5 pAuth r]
  by (auto simp: reply_to_def binding_reply_def Let_def split: if_splits verdict.splits)

lemma error_code_range: "e \<in> {STUN_ERROR_BADREQUEST, STUN_ERROR_UNAUTHORIZED, STUN_ERROR_STALENONCE} \<Longrightarrow> 300 \<le> e \<and> e \<le> 600 \<and> e \<noteq> 0"
  by (auto simp: stun_consts)

text \<open>A finished request: the reply lies in the caller's buffer.\<close>

definition answered :: "(bytes \<Rightarrow> bytes \<Rightarrow> bytes) \<Rightarrow> nat \<Rightarrow> StunMessageIn \<Rightarrow> reader \<Rightarrow> reply \<Rightarrow> StunMessageOut \<Rightarrow> bool" where
  "answered hmac n msgIn r rep out \<longleftrightarrow>
     (\<exists>buf. out_spBufferOut out = Some buf \<and> wf_buffer buf \<and> cb_allocatedSize buf = n \<and> buffer_bytes buf = reply_bytes hmac msgIn r rep) \<and>
     out_socketrole out = reply_role msgIn rep \<and> out_addrDest out = reply_dest msgIn r"

lemma answered_binding:
  "carries_reply hmac md5 n tas msgIn r (BindingReply out origin other key) h \<Longrightarrow>
   answered hmac n msgIn r (BindingReply out origin other key) (hd_msgOut h)"
  by (simp add: carries_reply_def answered_def holds_def reply_role_def)

lemma answered_error:
  assumes "request_frame n tas msgIn r h" "valid_input tas msgIn r" "carries md5 (Refused e nonce realm) h"
    "e \<in> {STUN_ERROR_BADREQUEST, STUN_ERROR_UNAUTHORIZED, STUN_ERROR_STALENONCE}"
  shows "answered hmac n msgIn r (ErrorReply e nonce realm) (hd_msgOut (BuildErrorResponse h))"
  using BuildErrorResponse_reply [OF assms(1-3)] error_code_range [OF assms(4)] by (simp add: answered_def holds_def reply_role_def)

text \<open>The last step: an error code set on the way turns into an error response.\<close>

definition finish :: "handler \<Rightarrow> handler" where
  "finish h = (if err_errorcode (hd_error h) \<noteq> 0 then BuildErrorResponse h else h)"

lemma finish_error:
  assumes "request_frame n tas msgIn r h" "valid_input tas msgIn r" "carries md5 (Refused e nonce realm) h"
    "e \<in> {STUN_ERROR_BADREQUEST, STUN_ERROR_UNAUTHORIZED, STUN_ERROR_STALENONCE}"
  shows "answered hmac n msgIn r (ErrorReply e nonce realm) (hd_msgOut (finish h))"
  using answered_error [OF assms] assms(3) error_code_range [OF assms(4)] by (simp add: finish_def carries_def)

lemma finish_reply:
  assumes "carries_reply hmac md5 n tas msgIn r rep h" "valid_input tas msgIn r"
    "\<forall>e nonce realm. rep = ErrorReply e nonce realm \<longrightarrow> e \<in> {STUN_ERROR_BADREQUEST, STUN_ERROR_UNAUTHORIZED, STUN_ERROR_STALENONCE}"
  shows "answered hmac n msgIn r rep (hd_msgOut (finish h))"
proof (cases rep)
  case (ErrorReply e nonce realm)
  have c: "request_frame n tas msgIn r h" "carries md5 (Refused e nonce realm) h"
    using assms(1) unfolding ErrorReply carries_reply_def by simp_all
  show ?thesis unfolding ErrorReply by (rule finish_error [OF c(1) assms(2) c(2)]) (use assms(3) ErrorReply in blast)
next
  case (BindingReply out origin other key)
  then have "finish h = h" using assms(1) by (simp add: finish_def carries_reply_def)
  then show ?thesis using answered_binding assms(1) BindingReply by auto
qed

text \<open>The steps between the response port and the end, from a handler without an error.\<close>

definition check_type :: "reader \<Rightarrow> handler \<Rightarrow> handler" where
  "check_type r h = (if err_errorcode (hd_error h) = 0 \<and> GetMessageType r \<noteq> StunMsgTypeBinding then set_error STUN_ERROR_BADREQUEST h else h)"

definition check_auth :: "(bytes \<Rightarrow> bytes \<Rightarrow> bytes) \<Rightarrow> (bytes \<Rightarrow> bytes) \<Rightarrow> IStunAuth option \<Rightarrow> handler \<Rightarrow> handler" where
  "check_auth hmac md5 pAuth h =
     (if err_errorcode (hd_error h) = 0 then (let (hrResult, h) = ValidateAuth hmac md5 pAuth h in default_error hrResult h) else h)"

definition check_binding :: "(bytes \<Rightarrow> bytes \<Rightarrow> bytes) \<Rightarrow> (bytes \<Rightarrow> bytes) \<Rightarrow> handler \<Rightarrow> handler" where
  "check_binding hmac md5 h =
     (if err_errorcode (hd_error h) = 0 then (let (hrResult, h) = ProcessBindingRequest hmac md5 h in default_error hrResult h) else h)"

lemma refused_steps:
  assumes "carries md5 (Refused e nonce realm) h" "e \<noteq> 0"
  shows "check_type r h = h" "check_auth hmac md5 pAuth h = h" "check_binding hmac md5 h = h"
  using assms by (simp_all add: carries_def check_type_def check_auth_def check_binding_def)

lemma check_auth_carries:
  assumes "request_frame n tas msgIn r h" "valid_input tas msgIn r" "fresh_auth h" "\<forall>k. length (md5 k) = 16" "providers_ok pAuth"
  shows "request_frame n tas msgIn r (check_auth hmac md5 pAuth h)" "carries md5 (auth_verdict hmac md5 pAuth r) (check_auth hmac md5 pAuth h)"
proof -
  obtain hr h1 where va: "ValidateAuth hmac md5 pAuth h = (hr, h1)" by fastforce
  have r: "hd_reader h = r" by (rule request_frame_reader [OF assms(1,2)])
  have st: "rd_state (hd_reader h) = BodyValidated" "CDataStream_GetDataPointerUnsafe (rd_stream (hd_reader h)) \<noteq> None"
    using assms(2) r by (simp_all add: valid_input_def)
  have eq: "check_auth hmac md5 pAuth h = default_error hr h1" using va assms(3) by (simp add: check_auth_def fresh_auth_def)
  note c = ValidateAuth_carries [OF assms(3) st assms(4,5) va]
  show "carries md5 (auth_verdict hmac md5 pAuth r) (check_auth hmac md5 pAuth h)" using c(1) r eq by simp
  show "request_frame n tas msgIn r (check_auth hmac md5 pAuth h)" using request_frame_same [OF assms(1) c(2)] eq by simp
qed

lemma steps_reply:
  assumes f: "request_frame n tas msgIn r h" and v: "valid_input tas msgIn r" and a: "fresh_auth h"
    and hmac: "\<forall>k d. length (hmac k d) = 20" and md5: "\<forall>k. length (md5 k) = 16" and p: "providers_ok pAuth"
    and np: "\<not> (requested_port r \<noteq> 0 \<and> in_fConnectionOriented msgIn)"
  shows "carries_reply hmac md5 n tas msgIn r (reply_to hmac md5 pAuth tas msgIn r) (check_binding hmac md5 (check_auth hmac md5 pAuth (check_type r h)))"
proof (cases "GetMessageType r = StunMsgTypeBinding")
  case False
  let ?h = "set_error STUN_ERROR_BADREQUEST h"
  have t: "check_type r h = ?h" using False a by (simp add: check_type_def fresh_auth_def)
  note c = plain_carried(3,4) [OF a]
  have "reply_to hmac md5 pAuth tas msgIn r = ErrorReply STUN_ERROR_BADREQUEST [] []" using False np by (auto simp: reply_to_def)
  then show ?thesis using refused_steps [OF c(1) error_codes(3)] request_frame_same [OF f c(2)] c(1) t by (simp add: carries_reply_def)
next
  case True
  then have t: "check_type r h = h" by (simp add: check_type_def)
  define h1 where "h1 = check_auth hmac md5 pAuth h"
  note ca = check_auth_carries [OF f v a md5 p, of hmac, folded h1_def]
  show ?thesis
  proof (cases "auth_verdict hmac md5 pAuth r")
    case (Refused e nonce realm)
    then have "e \<noteq> 0" using auth_verdict_code error_code_range by blast
    moreover have "reply_to hmac md5 pAuth tas msgIn r = ErrorReply e nonce realm" using True np Refused by (auto simp: reply_to_def)
    ultimately show ?thesis using ca Refused refused_steps(3) [of md5 e nonce realm h1 hmac] t by (simp add: carries_reply_def h1_def)
  next
    case (Granted key)
    obtain hr h2 where pb: "ProcessBindingRequest hmac md5 h1 = (hr, h2)" by fastforce
    have c: "carries md5 (Granted key) h1" using ca(2) Granted by simp
    have "check_binding hmac md5 h1 = default_error hr h2" using pb c by (simp add: check_binding_def carries_def)
    moreover have "reply_to hmac md5 pAuth tas msgIn r = binding_reply key tas msgIn r" using True np Granted by (auto simp: reply_to_def)
    ultimately show ?thesis using ProcessBindingRequest_carries [OF ca(1) v c hmac md5 pb] t by (simp add: h1_def)
  qed
qed

lemma ProcessRequestImpl_answers:
  assumes v: "valid_input tas msgIn r" and cls: "GetMessageClass r = StunMsgClassRequest"
    and h0: "h0 = CStunRequestHandler_new (Some tas) msgIn msgOut" and n: "has_buffer n h0"
    and o: "out_socketrole msgOut = in_socketrole msgIn" "out_addrDest msgOut = in_addrRemote msgIn"
    and hmac: "\<forall>k d. length (hmac k d) = 20" and md5: "\<forall>k. length (md5 k) = 16" and p: "providers_ok pAuth"
  shows "fst (ProcessRequestImpl hmac md5 pAuth h0) = S_OK"
    "answered hmac n msgIn r (reply_to hmac md5 pAuth tas msgIn r) (hd_msgOut (snd (ProcessRequestImpl hmac md5 pAuth h0)))"
proof -
  define h where "h = h0\<lparr>hd_error := (hd_error h0)\<lparr>err_msgtype := GetMessageType r, err_msgclass := StunMsgClassFailureResponse\<rparr>,
                       hd_transid := Reader_GetTransactionId r, hd_fLegacyMode := IsMessageLegacyFormat r\<rparr>"
  define h1 where "h1 = apply_response_port r h"
  have r: "hd_reader h0 = r" using v by (simp add: h0 hd_reader_def CStunRequestHandler_new_def valid_input_def)
  have eq: "ProcessRequestImpl hmac md5 pAuth h0 = (S_OK, finish (check_binding hmac md5 (check_auth hmac md5 pAuth (check_type r h1))))"
    using cls by (simp add: ProcessRequestImpl_def r Let_def h_def h1_def finish_def check_binding_def check_auth_def check_type_def)
  show "fst (ProcessRequestImpl hmac md5 pAuth h0) = S_OK" by (simp add: eq)
  have fresh: "fresh_auth h" by (simp add: h_def h0 CStunRequestHandler_new_def fresh_auth_def)
  have fields: "hd_pAddrSet h = Some tas" "hd_msgIn h = msgIn" "hd_transid h = Reader_GetTransactionId r"
      "hd_fLegacyMode h = IsMessageLegacyFormat r" "\<not> hd_fRequestHasResponsePort h" "err_msgtype (hd_error h) = GetMessageType r"
      "err_msgclass (hd_error h) = StunMsgClassFailureResponse" "has_buffer n h" "out_socketrole (hd_msgOut h) = in_socketrole msgIn"
      "out_addrDest (hd_msgOut h) = in_addrRemote msgIn"
    using n o by (simp_all add: h_def h0 CStunRequestHandler_new_def has_buffer_def)
  note ap = apply_response_port_frame [OF v fields fresh, folded h1_def]
  have cr: "carries_reply hmac md5 n tas msgIn r (reply_to hmac md5 pAuth tas msgIn r) (check_binding hmac md5 (check_auth hmac md5 pAuth (check_type r h1)))"
  proof (cases "requested_port r \<noteq> 0 \<and> in_fConnectionOriented msgIn")
    case True
    note c = ap(2) [OF True, of md5]
    have "reply_to hmac md5 pAuth tas msgIn r = ErrorReply STUN_ERROR_BADREQUEST [] []" using True by (simp add: reply_to_def)
    then show ?thesis using refused_steps [OF c error_codes(3)] c ap(1) by (simp add: carries_reply_def)
  next
    case False
    show ?thesis by (rule steps_reply [OF ap(1) v ap(3) [OF False] hmac md5 p False])
  qed
  show "answered hmac n msgIn r (reply_to hmac md5 pAuth tas msgIn r) (hd_msgOut (snd (ProcessRequestImpl hmac md5 pAuth h0)))"
    unfolding eq snd_conv by (rule finish_reply [OF cr v]) (use reply_code in blast)
qed

lemma ProcessRequest_answers:
  assumes v: "valid_input tas msgIn r" and cls: "GetMessageClass r = StunMsgClassRequest"
    and buf: "out_spBufferOut msgOut = Some buf" "wf_buffer buf" "800 \<le> cb_allocatedSize buf"
    and hmac: "\<forall>k d. length (hmac k d) = 20" and md5: "\<forall>k. length (md5 k) = 16" and p: "providers_ok pAuth"
  shows "fst (ProcessRequest hmac md5 msgIn msgOut (Some tas) pAuth) = S_OK"
    "answered hmac (cb_allocatedSize buf) msgIn r (reply_to hmac md5 pAuth tas msgIn r)
       (snd (ProcessRequest hmac md5 msgIn msgOut (Some tas) pAuth))"
proof -
  let ?out = "msgOut\<lparr>out_spBufferOut := Some (snd (CBuffer_SetSize 0 buf)), out_socketrole := in_socketrole msgIn, out_addrDest := in_addrRemote msgIn\<rparr>"
  let ?h0 = "CStunRequestHandler_new (Some tas) msgIn ?out"
  have eq: "ProcessRequest hmac md5 msgIn msgOut (Some tas) pAuth =
      (fst (ProcessRequestImpl hmac md5 pAuth ?h0), hd_msgOut (snd (ProcessRequestImpl hmac md5 pAuth ?h0)))"
    using v buf by (simp add: ProcessRequest_def valid_input_def MAX_STUN_MESSAGE_SIZE_def Reader_GetState_def split_beta Let_def)
  have n: "has_buffer (cb_allocatedSize buf) ?h0" using buf by (auto simp: has_buffer_def CStunRequestHandler_new_def wf_buffer_def)
  note a = ProcessRequestImpl_answers [OF v cls refl n _ _ hmac md5 p]
  show "fst (ProcessRequest hmac md5 msgIn msgOut (Some tas) pAuth) = S_OK" unfolding eq using a(1) by simp
  show "answered hmac (cb_allocatedSize buf) msgIn r (reply_to hmac md5 pAuth tas msgIn r)
       (snd (ProcessRequest hmac md5 msgIn msgOut (Some tas) pAuth))" unfolding eq using a(2) by simp
qed

end
