(* ===== verification/SampleAuth.thy ===== *)
theory SampleAuth
  imports StunAuth "HOL-Library.Char_ord"
begin

text \<open>
  \<open>src/server/sampleauthprovider.cpp\<close>: the two providers of the sample server, short-term and
  long-term credentials. The parameter \<open>hmac\<close> is OpenSSL's HMAC-SHA1 of a key and a text, \<open>now\<close> the
  value of \<open>time(NULL)\<close>; \<open>time_t\<close> is an integer. The C library's \<open>sprintf\<close>, \<open>atoi\<close> and \<open>strstr\<close> are
  modelled for the formats and patterns used here. Both providers are instances of the contract
  \<open>auth_provider\<close> of the request handler.
\<close>

definition ascii :: "string \<Rightarrow> bytes" where
  "ascii s = map of_char s"

definition c_szPrivateKey :: bytes where
  "c_szPrivateKey = ascii ''Change this string if you are going to use this code''"

definition c_szRealm :: bytes where
  "c_szRealm = ascii ''YourRealmNameHere''"

definition sample_users :: "(bytes \<times> bytes) list" where
  "sample_users =
     [(ascii ''bruce'', ascii ''AcesHigh''), (ascii ''steve'', ascii ''2MinToMid''), (ascii ''nicko'', ascii ''fearofthedark!''),
      (ascii ''dave'', ascii ''#ofthebeast''), (ascii ''adrian'', ascii ''Run2TheHills'')]"

text \<open>The loop over the parallel arrays: the first user whose name compares equal.\<close>

fun find_user :: "bytes \<Rightarrow> (bytes \<times> bytes) list \<Rightarrow> bytes option" where
  "find_user u [] = None"
| "find_user u ((name, password) # us) = (if cstr u \<noteq> name then find_user u us else Some password)"

definition LookupPassword :: "bool \<Rightarrow> bytes option \<Rightarrow> bytes option \<Rightarrow> bytes \<Rightarrow> hresult \<times> bytes" where
  "LookupPassword fWithRealm pszUserName pszRealm pszPassword =
     (if fWithRealm \<and> (pszRealm = None \<or> cstr (the pszRealm) \<noteq> c_szRealm) then (E_FAIL, pszPassword)
      else
        (case pszUserName of
           None \<Rightarrow> (E_FAIL, pszPassword)
         | Some u \<Rightarrow>
             (case find_user u sample_users of
                None \<Rightarrow> (E_FAIL, pszPassword)
              | Some password \<Rightarrow> (S_OK, strcpy pszPassword (password @ [0])))))"

definition CShortTermAuth_DoAuthCheck :: IStunAuth where
  "CShortTermAuth_DoAuthCheck a r0 =
     (let r = r0\<lparr>ar_authCredMech := AuthCredShortTerm\<rparr>
      in if \<not> aa_fMessageIntegrityPresent a then (S_OK, r\<lparr>ar_responseType := Reject\<rparr>)
         else
           (let (hr, password) = LookupPassword False (Some (aa_szUser a)) None (ar_szPassword r);
                r = r\<lparr>ar_szPassword := password\<rparr>
            in if SUCCEEDED hr then (S_OK, r\<lparr>ar_responseType := AllowConditional\<rparr>)
               else (S_OK, r\<lparr>ar_responseType := Unauthorized\<rparr>)))"

section \<open>Nonces\<close>

text \<open>\<open>%.2x\<close> of a byte, \<open>%u\<close> of an unsigned integer.\<close>

definition hex_digit :: "u8 \<Rightarrow> u8" where
  "hex_digit d = (if d < 10 then 0x30 + d else 0x57 + d)"

definition hex_byte :: "u8 \<Rightarrow> bytes" where
  "hex_byte b = [hex_digit (drop_bit 4 b), hex_digit (b AND 0x0f)]"

definition HmacToString :: "bytes \<Rightarrow> bytes" where
  "HmacToString hmacresult = concat (map hex_byte (take 20 hmacresult))"

fun decimal :: "nat \<Rightarrow> bytes" where
  "decimal n = (if n < 10 then [0x30 + of_nat n] else decimal (n div 10) @ [0x30 + of_nat (n mod 10)])"

declare decimal.simps [simp del]

definition nonce_time :: "int \<Rightarrow> bytes" where
  "nonce_time now = decimal (unat (of_int now :: u32)) @ [0x3a]"

definition CreateNonce :: "(bytes \<Rightarrow> bytes \<Rightarrow> bytes) \<Rightarrow> int \<Rightarrow> bytes \<Rightarrow> bytes" where
  "CreateNonce hmac now pszNonce =
     (let szTime = nonce_time now;
          szHMAC = HmacToString (hmac c_szPrivateKey szTime)
      in strcpy pszNonce (szTime @ szHMAC @ [0]))"

text \<open>\<open>atoi\<close>: white space, a sign, digits.\<close>

fun atoi_digits :: "int \<Rightarrow> bytes \<Rightarrow> int" where
  "atoi_digits acc [] = acc"
| "atoi_digits acc (c # s) = (if 0x30 \<le> c \<and> c \<le> 0x39 then atoi_digits (10 * acc + int (unat (c - 0x30))) s else acc)"

definition atoi :: "bytes \<Rightarrow> int" where
  "atoi str =
     (case dropWhile (\<lambda>c. c = 0x20 \<or> (9 \<le> c \<and> c \<le> 13)) str of
        [] \<Rightarrow> 0
      | c # s \<Rightarrow> if c = 0x2d then - atoi_digits 0 s else if c = 0x2b then atoi_digits 0 s else atoi_digits 0 (c # s))"

text \<open>
  \<open>ValidateNonce\<close> copies at most 99 characters, splits at the first colon, and compares the time
  and the HMAC of the part before the colon.
\<close>

definition ValidateNonce :: "(bytes \<Rightarrow> bytes \<Rightarrow> bytes) \<Rightarrow> int \<Rightarrow> bytes \<Rightarrow> hresult" where
  "ValidateNonce hmac thecurrenttime pszNonce =
     (let szNonce = take 99 (cstr pszNonce)
      in if 0x3a \<notin> set szNonce then E_FAIL
         else
           (let left = takeWhile (\<lambda>c. c \<noteq> 0x3a) szNonce;
                pRightHalf = tl (dropWhile (\<lambda>c. c \<noteq> 0x3a) szNonce);
                diff = thecurrenttime - atoi left
            in if 120 < diff \<or> diff < 0 then E_FAIL
               else if HmacToString (hmac c_szPrivateKey left) \<noteq> pRightHalf then E_FAIL
               else S_OK))"

definition CLongTermAuth_DoAuthCheck :: "(bytes \<Rightarrow> bytes \<Rightarrow> bytes) \<Rightarrow> int \<Rightarrow> IStunAuth" where
  "CLongTermAuth_DoAuthCheck hmac now a r0 =
     (let r = r0\<lparr>ar_authCredMech := AuthCredLongTerm, ar_szNonce := CreateNonce hmac now (ar_szNonce r0),
                 ar_szRealm := strcpy (ar_szRealm r0) (c_szRealm @ [0])\<rparr>
      in if \<not> aa_fMessageIntegrityPresent a \<or> aa_szNonce a ! 0 = 0 \<or> aa_szUser a ! 0 = 0
         then (S_OK, r\<lparr>ar_responseType := Unauthorized\<rparr>)
         else
           (let (hr, password) = LookupPassword True (Some (aa_szUser a)) (Some (aa_szNonce a)) (ar_szPassword r);
                r = r\<lparr>ar_szPassword := password\<rparr>
            in if FAILED hr then (S_OK, r\<lparr>ar_responseType := Unauthorized\<rparr>)
               else if FAILED (ValidateNonce hmac now (aa_szNonce a)) then (S_OK, r\<lparr>ar_responseType := StaleNonce\<rparr>)
               else (S_OK, r\<lparr>ar_responseType := AllowConditional\<rparr>)))"

section \<open>The strings the providers write\<close>

lemma strcpy_fits:
  assumes "length (cstr src) < length dst"
  shows "length (strcpy dst src) = length dst" "cstr (strcpy dst src) = cstr src"
  using cstr_write [of "cstr src" dst] assms by (simp_all add: strcpy_def)

lemma sample_strings: "0 \<notin> set c_szRealm" "length c_szRealm = 17"
  "\<forall>(u, p) \<in> set sample_users. 0 \<notin> set u \<and> 0 \<notin> set p \<and> u \<noteq> [] \<and> p \<noteq> [] \<and> length p < 65"
  by (simp_all add: c_szRealm_def sample_users_def ascii_def)

lemma find_user_mem: "find_user u us = Some p \<longleftrightarrow> map_of us (cstr u) = Some p"
  by (induction us) auto

lemma LookupPassword_fails:
  "LookupPassword b u rl pw = (hr, pw') \<Longrightarrow> FAILED hr \<Longrightarrow> pw' = pw"
  by (auto simp: LookupPassword_def split: if_splits option.splits)

lemma LookupPassword_length:
  assumes "length pw = 65"
  shows "length (snd (LookupPassword b u rl pw)) = 65"
proof -
  have "length (strcpy pw (p @ [0])) = 65" if "find_user v sample_users = Some p" for v p
  proof -
    have "(cstr v, p) \<in> set sample_users" using that by (auto simp: find_user_mem dest: map_of_SomeD)
    then have "length (cstr (p @ [0])) < length pw" using sample_strings(3) assms by auto
    then show ?thesis using strcpy_fits(1) assms by metis
  qed
  then show ?thesis using assms by (auto simp: LookupPassword_def split: option.splits)
qed

lemma hex_digit_table:
  "list_all (\<lambda>n. hex_digit (of_nat n) \<notin> {0, 0x3a}) [0 ..< 16]" "distinct (map (\<lambda>n. hex_digit (of_nat n)) [0 ..< 16])"
  by code_simp+

lemma unat_u8: "unat (b :: u8) < 256"
  using unsigned_less [of b] by simp

lemma below_16: "d < (16 :: u8) \<Longrightarrow> \<exists>n \<in> set [0 ..< 16]. d = of_nat n"
  by (intro bexI [of _ "unat d"]) (simp_all add: word_less_nat_alt)

lemma hex_digit_values: "d < 16 \<Longrightarrow> hex_digit d \<noteq> 0 \<and> hex_digit d \<noteq> 0x3a"
  using hex_digit_table(1) below_16 [of d] by (auto simp: list_all_iff)

lemma hex_digit_inject:
  assumes "d < 16" "e < 16" "hex_digit d = hex_digit e"
  shows "d = e"
proof -
  obtain m n where m: "m \<in> set [0 ..< 16]" "d = of_nat m" and n: "n \<in> set [0 ..< 16]" "e = of_nat n"
    using below_16 assms by metis
  then have "m = n" using hex_digit_table(2) assms(3) by (auto simp: distinct_map inj_on_def)
  then show ?thesis using m n by simp
qed

lemma nibbles: "drop_bit 4 (b :: u8) < 16" "b AND 0x0f < (16 :: u8)"
proof -
  have "unat (b div 16) < 16" using unat_u8 [of b] by (simp add: unat_div)
  then show "drop_bit 4 b < 16" by (simp add: word_less_nat_alt drop_bit_eq_div)
  have "unat (b mod 16) < 16" by (simp add: unat_mod)
  moreover have "b AND 0x0f = take_bit 4 b" by (simp add: take_bit_eq_mask mask_eq_exp_minus_1)
  then have "b AND 0x0f = b mod 16" by (simp add: take_bit_eq_mod)
  ultimately show "b AND 0x0f < 16" by (simp add: word_less_nat_alt)
qed

lemma nibbles_join: "b = push_bit 4 (drop_bit 4 b) + (b AND 0x0f)" for b :: u8
proof -
  have "b AND 0x0f = take_bit 4 b" by (simp add: take_bit_eq_mask mask_eq_exp_minus_1)
  then show ?thesis by (simp only: bits_ident)
qed

lemma hex_byte_inject: "hex_byte a = hex_byte b \<longleftrightarrow> a = b"
proof
  assume "hex_byte a = hex_byte b"
  then have "drop_bit 4 a = drop_bit 4 b" "a AND 0x0f = b AND 0x0f"
    using hex_digit_inject [OF nibbles(1) nibbles(1)] hex_digit_inject [OF nibbles(2) nibbles(2)] by (auto simp: hex_byte_def)
  then show "a = b" using nibbles_join [of a] nibbles_join [of b] by metis
qed simp

lemma hex_bytes: "length (concat (map hex_byte xs)) = 2 * length xs" "0 \<notin> set (concat (map hex_byte xs))" "0x3a \<notin> set (concat (map hex_byte xs))"
  using hex_digit_values nibbles by (induction xs) (auto simp: hex_byte_def)

lemma concat_hex_inject: "concat (map hex_byte xs) = concat (map hex_byte ys) \<longleftrightarrow> xs = ys"
proof (induction xs arbitrary: ys)
  case Nil
  then show ?case by (cases ys) (auto simp: hex_byte_def)
next
  case (Cons x xs)
  then show ?case
  proof (cases ys)
    case (Cons y ys')
    have "hex_byte x @ concat (map hex_byte xs) = hex_byte y @ concat (map hex_byte ys') \<longleftrightarrow>
      hex_byte x = hex_byte y \<and> concat (map hex_byte xs) = concat (map hex_byte ys')"
      by (rule append_eq_append_conv) (simp add: hex_byte_def)
    then show ?thesis using Cons.IH Cons hex_byte_inject by simp
  qed (simp add: hex_byte_def)
qed

lemma HmacToString_ok: "length (HmacToString h) \<le> 40" "0 \<notin> set (HmacToString h)" "0x3a \<notin> set (HmacToString h)"
  "HmacToString h = HmacToString h' \<longleftrightarrow> take 20 h = take 20 h'"
  using hex_bytes [of "take 20 h"] by (simp_all add: HmacToString_def concat_hex_inject)

lemma decimal_digits: "c \<in> set (decimal n) \<Longrightarrow> 0x30 \<le> c \<and> c \<le> 0x39"
proof (induction n rule: decimal.induct)
  case (1 n)
  have d: "0x30 \<le> (0x30 + of_nat m :: u8) \<and> (0x30 + of_nat m :: u8) \<le> 0x39" if "m < 10" for m
  proof -
    have "m \<in> {0, 1, 2, 3, 4, 5, 6, 7, 8, 9}" using that by auto
    then show ?thesis by auto
  qed
  show ?case
  proof (cases "n < 10")
    case True
    then show ?thesis using 1(2) d by (simp add: decimal.simps [of n])
  next
    case False
    have "n mod 10 < 10" by simp
    from d [OF this] show ?thesis using 1 False by (auto simp: decimal.simps [of n])
  qed
qed

lemma decimal_length: "n < 10 ^ k \<Longrightarrow> 0 < k \<Longrightarrow> length (decimal n) \<le> k"
proof (induction n arbitrary: k rule: decimal.induct)
  case (1 n)
  show ?case
  proof (cases "n < 10")
    case True
    then show ?thesis using 1(3) by (simp add: decimal.simps [of n])
  next
    case False
    then obtain j where k: "k = Suc j" using 1(3) by (cases k) auto
    have "n div 10 < 10 ^ j" using 1(2) k by (simp add: less_mult_imp_div_less mult.commute)
    moreover have "0 < j" using 1(2) k False by (cases j) auto
    ultimately have "length (decimal (n div 10)) \<le> j" using 1(1) [OF False] by simp
    then show ?thesis using False k by (simp add: decimal.simps [of n])
  qed
qed

lemma decimal_no: "0 \<notin> set (decimal n)" "0x3a \<notin> set (decimal n)"
  using decimal_digits [of 0 n] decimal_digits [of "0x3a" n] by auto

lemma nonce_time_length: "length (nonce_time now) \<le> 11"
proof -
  have "unat (of_int now :: u32) < 2 ^ 32" using unsigned_less [of "of_int now :: u32"] by simp
  then have "unat (of_int now :: u32) < 10 ^ 10" by (rule order.strict_trans2) simp
  from decimal_length [OF this] show ?thesis by (simp add: nonce_time_def)
qed

definition nonce_text :: "(bytes \<Rightarrow> bytes \<Rightarrow> bytes) \<Rightarrow> int \<Rightarrow> bytes" where
  "nonce_text hmac now = nonce_time now @ HmacToString (hmac c_szPrivateKey (nonce_time now))"

lemma nonce_text_ok: "0 \<notin> set (nonce_text hmac now)" "length (nonce_text hmac now) \<le> 51"
proof -
  show "0 \<notin> set (nonce_text hmac now)" using decimal_no(1) HmacToString_ok(2) by (simp add: nonce_text_def nonce_time_def)
  show "length (nonce_text hmac now) \<le> 51"
    using nonce_time_length [of now] HmacToString_ok(1) [of "hmac c_szPrivateKey (nonce_time now)"] unfolding nonce_text_def length_append by linarith
qed

lemma CreateNonce_ok:
  assumes "length dst = 65"
  shows "cstr (CreateNonce hmac now dst) = nonce_text hmac now" "length (CreateNonce hmac now dst) = 65"
proof -
  have c: "cstr (nonce_time now @ HmacToString (hmac c_szPrivateKey (nonce_time now)) @ [0]) = nonce_text hmac now"
    using nonce_text_ok(1) [of hmac now] cstr_append_zero [of "nonce_text hmac now" "[]"] by (simp add: nonce_text_def)
  have "length (nonce_text hmac now) < length dst" using nonce_text_ok(2) [of hmac now] assms by simp
  then show "cstr (CreateNonce hmac now dst) = nonce_text hmac now" "length (CreateNonce hmac now dst) = 65"
    using strcpy_fits c assms by (simp_all add: CreateNonce_def Let_def)
qed

section \<open>Both providers keep the contract\<close>

interpretation short_term: auth_provider CShortTermAuth_DoAuthCheck
proof
  fix a :: AuthAttributes and r :: AuthResponse
  assume "wf_response r"
  then show "wf_response (snd (CShortTermAuth_DoAuthCheck a r))"
    using LookupPassword_length [of "ar_szPassword r" False "Some (aa_szUser a)" None]
    by (auto simp: CShortTermAuth_DoAuthCheck_def wf_response_def Let_def split_beta)
qed

interpretation long_term: auth_provider "CLongTermAuth_DoAuthCheck hmac now"
proof
  fix a :: AuthAttributes and r :: AuthResponse
  assume r: "wf_response r"
  have "length (strcpy (ar_szRealm r) (c_szRealm @ [0])) = 65"
    using strcpy_fits(1) [of "c_szRealm @ [0]" "ar_szRealm r"] r sample_strings(1,2) by (simp add: wf_response_def)
  then show "wf_response (snd (CLongTermAuth_DoAuthCheck hmac now a r))"
    using LookupPassword_length [of "ar_szPassword r" True "Some (aa_szUser a)" "Some (aa_szNonce a)"] CreateNonce_ok(2) [of "ar_szNonce r"] r
    by (auto simp: CLongTermAuth_DoAuthCheck_def wf_response_def Let_def split_beta)
qed

section \<open>What the providers decide\<close>

text \<open>A nonce without a colon is refused: the realm's name, for one.\<close>

lemma ValidateNonce_colon: "0x3a \<notin> set (cstr s) \<Longrightarrow> ValidateNonce hmac now s = E_FAIL"
proof -
  assume "0x3a \<notin> set (cstr s)"
  then have "0x3a \<notin> set (take 99 (cstr s))" by (meson in_set_takeD)
  then show "ValidateNonce hmac now s = E_FAIL" unfolding ValidateNonce_def Let_def by simp
qed

lemma realm_no_colon: "0x3a \<notin> set c_szRealm"
  by (simp add: c_szRealm_def ascii_def)

lemma LookupPassword_realm: "SUCCEEDED (fst (LookupPassword True u (Some rl) pw)) \<Longrightarrow> cstr rl = c_szRealm"
  by (auto simp: LookupPassword_def split: if_splits)

lemma long_term_decision:
  "ar_responseType (snd (CLongTermAuth_DoAuthCheck hmac now a r)) =
     (if aa_fMessageIntegrityPresent a \<and> aa_szNonce a ! 0 \<noteq> 0 \<and> aa_szUser a ! 0 \<noteq> 0 \<and> cstr (aa_szNonce a) = c_szRealm \<and>
         find_user (aa_szUser a) sample_users \<noteq> None
      then StaleNonce else Unauthorized)"
  using ValidateNonce_colon [of "aa_szNonce a" hmac now] realm_no_colon
  by (auto simp: CLongTermAuth_DoAuthCheck_def LookupPassword_def Let_def split: option.splits)

lemma long_term_response:
  assumes "wf_response r"
  shows "fst (CLongTermAuth_DoAuthCheck hmac now a r) = S_OK"
    "cstr (ar_szNonce (snd (CLongTermAuth_DoAuthCheck hmac now a r))) = nonce_text hmac now"
    "cstr (ar_szRealm (snd (CLongTermAuth_DoAuthCheck hmac now a r))) = c_szRealm"
  using strcpy_fits(2) [of "c_szRealm @ [0]" "ar_szRealm r"] CreateNonce_ok(1) [of "ar_szNonce r"] assms sample_strings(1,2)
  by (auto simp: CLongTermAuth_DoAuthCheck_def Let_def wf_response_def split_beta)

text \<open>The nonce's signature covers the time with its colon; the check signs the time without it.\<close>

lemma nonce_halves:
  assumes "cstr s = nonce_text hmac now"
  shows "ValidateNonce hmac now' s = S_OK \<longleftrightarrow>
    0 \<le> now' - atoi (decimal (unat (of_int now :: u32))) \<and> now' - atoi (decimal (unat (of_int now :: u32))) \<le> 120 \<and>
    take 20 (hmac c_szPrivateKey (decimal (unat (of_int now :: u32)))) =
    take 20 (hmac c_szPrivateKey (decimal (unat (of_int now :: u32)) @ [0x3a]))"
proof -
  let ?d = "decimal (unat (of_int now :: u32))"
  let ?h = "HmacToString (hmac c_szPrivateKey (?d @ [0x3a]))"
  have t: "take 99 (cstr s) = ?d @ [0x3a] @ ?h"
    using assms nonce_text_ok(2) [of hmac now] by (simp add: nonce_text_def nonce_time_def)
  have "\<forall>c \<in> set ?d. c \<noteq> 0x3a" using decimal_no(2) by metis
  then have "takeWhile (\<lambda>c. c \<noteq> 0x3a) (?d @ [0x3a] @ ?h) = ?d" "dropWhile (\<lambda>c. c \<noteq> 0x3a) (?d @ [0x3a] @ ?h) = [0x3a] @ ?h"
    by (simp_all add: takeWhile_append2 dropWhile_append2)
  moreover have "0x3a \<in> set (?d @ [0x3a] @ ?h)" by simp
  moreover have "E_FAIL \<noteq> S_OK" using FAILED_E_FAIL SUCCEEDED_S_OK by metis
  ultimately show ?thesis unfolding ValidateNonce_def Let_def t using HmacToString_ok(4) by simp
qed

end
