(* ===== verification/ServerReply.thy ===== *)
theory ServerReply
  imports HandlerCorrect SampleAuth MessageVerify MessageAccess ReaderCorrect
begin

text \<open>
  Replies as messages: what a reader of a reply finds, the circumstances in which the server calls
  the handler (\<open>serving\<close>), and a concrete request with its server for the examples.
\<close>

section \<open>Requests as received\<close>

lemma bits_below: "(\<And>n. 12 \<le> n \<Longrightarrow> \<not> bit (x :: u16) n) \<Longrightarrow> x < 0x1000"
proof -
  assume a: "\<And>n. 12 \<le> n \<Longrightarrow> \<not> bit x n"
  have "take_bit 12 x = x" by (rule bit_word_eqI) (use a in \<open>auto simp: bit_take_bit_iff intro: ccontr\<close>)
  then have "x = x mod 0x1000" by (simp add: take_bit_eq_mod)
  moreover have "unat (x mod 0x1000) < 0x1000" by (simp add: unat_mod)
  ultimately show ?thesis by (simp add: word_less_nat_alt)
qed

lemma normalized_type_small: "normalized_type f < 0x1000"
proof (rule bits_below)
  fix n :: nat
  assume "12 \<le> n"
  then show "\<not> bit (normalized_type f) n"
    using normalized_type_bit [of n f] by (cases "n < 16") (auto dest: bit_imp_le_length)
qed

lemma accepted_request:
  assumes ra: "reader_after allow bs r" and st: "rd_state r = BodyValidated"
  shows "wf_transid (Reader_GetTransactionId r)" "CDataStream_GetDataPointerUnsafe (rd_stream r) \<noteq> None" "GetMessageType r < 0x1000"
proof -
  have s: "spec_state allow bs = BodyValidated" using reader_after_state [OF ra] st by simp
  obtain b where c: "content r = fold note_attribute (body_attrs bs) (with_header bs b)" by (rule reader_after_content [OF ra s])
  have len: "20 \<le> length bs" using s by (auto simp: spec_state_def split: if_splits)
  have "rd_transactionid r = msg_transid bs" "rd_msgTypeNormalized r = normalized_type (msg_type bs)"
    using content_fields(4,9) [of r] by (simp_all add: c note_fold_header with_header_def)
  then show "wf_transid (Reader_GetTransactionId r)" "GetMessageType r < 0x1000"
    using len normalized_type_small by (simp_all add: Reader_GetTransactionId_def wf_transid_def msg_transid_def bslice_def GetMessageType_def)
  have h: "stream_holds bs r" using reader_after_stream [OF ra] s by simp
  obtain rest where "reader_memory r = bs @ rest" using reader_memory_prefix [OF h] by blast
  then show "CDataStream_GetDataPointerUnsafe (rd_stream r) \<noteq> None" using len by (auto simp: reader_memory_def split: option.splits)
qed

section \<open>Replies as messages\<close>

lemma binding_attrs_small:
  assumes "wf_addr r" "wf_opt origin" "wf_opt other" "wf_transid tid"
  shows "(t, d) \<in> set (binding_attrs l tid r origin other) \<Longrightarrow> length d \<le> 20" "length (binding_attrs l tid r origin other) \<le> 4"
  using assms by (auto simp: binding_attrs_def opt_address_def wf_opt_def length_address_value split: option.splits)

lemma binding_message_ok:
  assumes "wf_addr r" "wf_opt origin" "wf_opt other" "wf_transid tid" "\<forall>k d. length (hmac k d) = 20"
  shows "message_ok True StunMsgTypeBinding StunMsgClassSuccessResponse tid
    (with_mac hmac key t c tid (binding_attrs l tid r origin other))"
proof -
  have "length d \<le> 780" if "(u, d) \<in> set (with_mac hmac key t c tid (binding_attrs l tid r origin other))" for u d
    using that binding_attrs_small(1) [OF assms(1-4), of u d l] assms(5) by (auto simp: with_mac_def split: option.splits)
  moreover have "length (with_mac hmac key t c tid (binding_attrs l tid r origin other)) \<le> 5"
    using binding_attrs_small(2) [OF assms(1-4), of l] by (auto simp: with_mac_def split: option.splits)
  ultimately show ?thesis using length_reply_attrs [where hmac = hmac, OF assms, of key t c l] assms(4)
    by (auto simp: message_ok_def valid_class_def StunMsgTypeBinding_def)
qed

lemma error_message_ok:
  assumes "wf_transid tid" "t < 0x1000" "length nonce \<le> 64" "length realm \<le> 64"
  shows "message_ok True t StunMsgClassFailureResponse tid (error_attrs l e nonce realm)"
proof -
  have p: "length (padded l d) \<le> 780" if "length d \<le> 64" for d using that length_padded [of l d] by simp
  have "length d \<le> 780" if "(u, d) \<in> set (error_attrs l e nonce realm)" for u d
    using that p [of "error_value e c_FAILED"] p [OF assms(3)] p [OF assms(4)] by (auto simp: error_attrs_def opt_string_def split: if_splits)
  moreover have "length (error_attrs l e nonce realm) \<le> 3" by (simp add: error_attrs_def opt_string_def)
  ultimately show ?thesis using length_error_attrs [OF assms(3,4), of l e] assms(1,2) by (auto simp: message_ok_def valid_class_def)
qed

lemma verdict_strings:
  assumes "providers_ok pAuth" "auth_verdict hmac md5 pAuth r = Refused e nonce realm"
  shows "length nonce \<le> 64" "length realm \<le> 64" "0 \<notin> set nonce" "0 \<notin> set realm" "e = STUN_ERROR_BADREQUEST \<longrightarrow> nonce = [] \<and> realm = []"
proof -
  have "length nonce \<le> 64 \<and> length realm \<le> 64 \<and> 0 \<notin> set nonce \<and> 0 \<notin> set realm \<and> (e = STUN_ERROR_BADREQUEST \<longrightarrow> nonce = [] \<and> realm = [])"
  proof (cases pAuth)
    case (Some f)
    obtain hr raw where f: "f (auth_attributes r) AuthResponse_zero = (hr, raw)" by fastforce
    have "wf_response raw" using auth_provider.check_zero [of f "auth_attributes r"] assms(1) Some f wf_auth_attributes by (auto simp: providers_ok_def)
    note w = wf_terminate_response [OF this]
    show ?thesis using assms(2) Some f wf_auth_string_cstr [OF w(1)] wf_auth_string_cstr [OF w(2)]
      by (auto simp: auth_verdict_def Let_def error_codes(4,5) [THEN not_sym] split: if_splits AuthResponseType.splits)
  qed (use assms(2) in \<open>simp add: auth_verdict_def\<close>)
  then show "length nonce \<le> 64" "length realm \<le> 64" "0 \<notin> set nonce" "0 \<notin> set realm"
    "e = STUN_ERROR_BADREQUEST \<longrightarrow> nonce = [] \<and> realm = []" by blast+
qed

lemma reply_strings:
  assumes "providers_ok pAuth" "reply_to hmac md5 pAuth tas msgIn r = ErrorReply e nonce realm"
  shows "length nonce \<le> 64" "length realm \<le> 64" "0 \<notin> set nonce" "0 \<notin> set realm" "e = STUN_ERROR_BADREQUEST \<longrightarrow> nonce = [] \<and> realm = []"
  using assms verdict_strings [OF assms(1), of hmac md5 r]
  by (auto simp: reply_to_def binding_reply_def Let_def split: if_splits verdict.splits)

lemma reply_addresses:
  assumes "valid_input tas msgIn r" "reply_to hmac md5 pAuth tas msgIn r = BindingReply out origin other key"
  shows "wf_opt origin" "wf_opt other" "IsValidSocketRole out"
    "out = (if wants_change r then change_output (snd (GetChangeRequest r)) (in_socketrole msgIn) else in_socketrole msgIn)"
    "origin = reported_origin tas msgIn out" "other = reported_other tas (in_socketrole msgIn)"
    "auth_verdict hmac md5 pAuth r = Granted key"
proof -
  show out: "out = (if wants_change r then change_output (snd (GetChangeRequest r)) (in_socketrole msgIn) else in_socketrole msgIn)"
    and oo: "origin = reported_origin tas msgIn out" "other = reported_other tas (in_socketrole msgIn)"
    and "auth_verdict hmac md5 pAuth r = Granted key"
    using assms(2) by (auto simp: reply_to_def binding_reply_def Let_def split: if_splits verdict.splits)
  show v: "IsValidSocketRole out" using out assms(1) change_output_valid by (simp add: valid_input_def)
  show "wf_opt origin" "wf_opt other" using wf_reported [of tas msgIn out] oo assms(1) v by (simp_all add: valid_input_def)
qed

text \<open>Any reply is a message that fits the smallest buffer the handler accepts.\<close>

lemma reply_length:
  assumes v: "valid_input tas msgIn r" and hmac: "\<forall>k d. length (hmac k d) = 20" and p: "providers_ok pAuth"
  shows "length (reply_bytes hmac msgIn r (reply_to hmac md5 pAuth tas msgIn r)) \<le> 180"
proof (cases "reply_to hmac md5 pAuth tas msgIn r")
  case (ErrorReply e nonce realm)
  then show ?thesis using length_error_attrs [OF reply_strings(1,2) [OF p ErrorReply], of "IsMessageLegacyFormat r" e] v
    by (simp add: reply_bytes_def Let_def length_message valid_input_def)
next
  case (BindingReply out origin other key)
  have w: "wf_addr (in_addrRemote msgIn)" "wf_transid (Reader_GetTransactionId r)" using v by (simp_all add: valid_input_def)
  show ?thesis using length_reply_attrs [where hmac = hmac, OF w(1) reply_addresses(1,2) [OF v BindingReply] w(2) hmac, of key StunMsgTypeBinding StunMsgClassSuccessResponse "IsMessageLegacyFormat r"] w
    by (simp add: reply_bytes_def Let_def length_message BindingReply)
qed

section \<open>A request in service\<close>

text \<open>
  The circumstances in which the server calls \<open>ProcessRequest\<close>: a validated request, four transport
  addresses, a buffer of at least 800 bytes, a provider that keeps its contract, digests of the
  standard lengths.
\<close>

definition serving ::
  "(bytes \<Rightarrow> bytes \<Rightarrow> bytes) \<Rightarrow> (bytes \<Rightarrow> bytes) \<Rightarrow> IStunAuth option \<Rightarrow> TransportAddressSet \<Rightarrow> StunMessageIn \<Rightarrow> StunMessageOut \<Rightarrow> reader \<Rightarrow> bool" where
  "serving hmac md5 pAuth tas msgIn msgOut r \<longleftrightarrow>
     valid_input tas msgIn r \<and> GetMessageClass r = StunMsgClassRequest \<and> GetMessageType r < 0x1000 \<and>
     (\<exists>buf. out_spBufferOut msgOut = Some buf \<and> wf_buffer buf \<and> 800 \<le> cb_allocatedSize buf) \<and>
     providers_ok pAuth \<and> (\<forall>k d. length (hmac k d) = 20) \<and> (\<forall>k. length (md5 k) = 16)"

definition response ::
  "(bytes \<Rightarrow> bytes \<Rightarrow> bytes) \<Rightarrow> (bytes \<Rightarrow> bytes) \<Rightarrow> IStunAuth option \<Rightarrow> TransportAddressSet \<Rightarrow> StunMessageIn \<Rightarrow> StunMessageOut \<Rightarrow> StunMessageOut" where
  "response hmac md5 pAuth tas msgIn msgOut = snd (ProcessRequest hmac md5 msgIn msgOut (Some tas) pAuth)"

definition sent_bytes :: "StunMessageOut \<Rightarrow> bytes" where
  "sent_bytes out = (case out_spBufferOut out of None \<Rightarrow> [] | Some b \<Rightarrow> buffer_bytes b)"

lemma serving_sent:
  assumes "serving hmac md5 pAuth tas msgIn msgOut r"
  shows "sent_bytes (response hmac md5 pAuth tas msgIn msgOut) = reply_bytes hmac msgIn r (reply_to hmac md5 pAuth tas msgIn r)"
    "out_socketrole (response hmac md5 pAuth tas msgIn msgOut) = reply_role msgIn (reply_to hmac md5 pAuth tas msgIn r)"
    "out_addrDest (response hmac md5 pAuth tas msgIn msgOut) = reply_dest msgIn r"
    "fst (ProcessRequest hmac md5 msgIn msgOut (Some tas) pAuth) = S_OK"
    "\<exists>b b'. out_spBufferOut msgOut = Some b \<and> out_spBufferOut (response hmac md5 pAuth tas msgIn msgOut) = Some b' \<and>
       cb_allocatedSize b' = cb_allocatedSize b \<and> wf_buffer b'"
proof -
  obtain b where b: "out_spBufferOut msgOut = Some b" "wf_buffer b" "800 \<le> cb_allocatedSize b" using assms by (auto simp: serving_def)
  have s: "valid_input tas msgIn r" "GetMessageClass r = StunMsgClassRequest" "\<forall>k d. length (hmac k d) = 20" "\<forall>k. length (md5 k) = 16" "providers_ok pAuth"
    using assms by (simp_all add: serving_def)
  note a = ProcessRequest_answers [OF s(1,2) b s(3-5)]
  show "sent_bytes (response hmac md5 pAuth tas msgIn msgOut) = reply_bytes hmac msgIn r (reply_to hmac md5 pAuth tas msgIn r)"
    "out_socketrole (response hmac md5 pAuth tas msgIn msgOut) = reply_role msgIn (reply_to hmac md5 pAuth tas msgIn r)"
    "out_addrDest (response hmac md5 pAuth tas msgIn msgOut) = reply_dest msgIn r"
    "fst (ProcessRequest hmac md5 msgIn msgOut (Some tas) pAuth) = S_OK"
    "\<exists>b b'. out_spBufferOut msgOut = Some b \<and> out_spBufferOut (response hmac md5 pAuth tas msgIn msgOut) = Some b' \<and>
       cb_allocatedSize b' = cb_allocatedSize b \<and> wf_buffer b'"
    using a b(1) by (auto simp: answered_def sent_bytes_def response_def)
qed

text \<open>A request that stands for many: signed with a user's password, asking for another port.\<close>

definition demo_hmac :: "bytes \<Rightarrow> bytes \<Rightarrow> bytes" where
  "demo_hmac k d = take 20 (k @ replicate 20 0)"

definition demo_md5 :: "bytes \<Rightarrow> bytes" where
  "demo_md5 d = replicate 16 1"

definition demo_as :: "(u16 \<times> bytes) list" where
  "demo_as = [(STUN_ATTRIBUTE_USERNAME, ascii ''steve''), (STUN_ATTRIBUTE_CHANGEREQUEST, [0, 0, 0, 2])]"

definition demo_request :: reader where
  "demo_request = received True [message StunMsgTypeBinding StunMsgClassRequest demo_id (integrity_tail demo_as (demo_hmac (ascii ''2MinToMid'') []) None)]"

definition demo_set :: TransportAddressSet where
  "demo_set = map (\<lambda>(ip, p). \<lparr>ta_addr = CSocketAddress_ip4 ip p, ta_fValid = True\<rparr>) [(1, 3478), (1, 3479), (2, 3478), (2, 3479)]"

definition demo_in :: StunMessageIn where
  "demo_in = \<lparr>in_socketrole = RolePP, in_addrLocal = CSocketAddress_ip4 1 3478, in_addrRemote = CSocketAddress_ip4 9 5000,
     in_pReader = Some demo_request, in_fConnectionOriented = False\<rparr>"

definition demo_out :: StunMessageOut where
  "demo_out = \<lparr>out_socketrole = RolePP, out_addrDest = CSocketAddress_default, out_spBufferOut = Some (CBuffer_alloc 1500)\<rparr>"

lemma demo_request_ok: "message_ok True StunMsgTypeBinding StunMsgClassRequest demo_id (integrity_tail demo_as (demo_hmac (ascii ''2MinToMid'') []) None)"
  by (simp add: message_ok_def valid_class_def StunMsgTypeBinding_def demo_id_def wf_transid_def integrity_tail_def demo_as_def demo_hmac_def ascii_def
      length_attr_bytes pad4_def)

lemma demo_reader: "reader_after True (message StunMsgTypeBinding StunMsgClassRequest demo_id (integrity_tail demo_as (demo_hmac (ascii ''2MinToMid'') []) None)) demo_request"
  unfolding demo_request_def by (rule received_message [OF demo_request_ok]) simp

lemma demo_serving_any: "providers_ok pAuth \<Longrightarrow> serving demo_hmac demo_md5 pAuth demo_set demo_in demo_out demo_request"
proof -
  assume "providers_ok pAuth"
  moreover note m = message_read [OF demo_request_ok demo_reader]
  moreover have "wf_set demo_set" by (simp add: demo_set_def wf_set_def)
  moreover have "rd_state demo_request = BodyValidated" using m(1) by (simp add: Reader_GetState_def)
  moreover have "length (demo_hmac k d) = 20" for k d by (simp add: demo_hmac_def min_def)
  ultimately show ?thesis using m accepted_request [OF demo_reader] wf_CBuffer_alloc [of 1500]
    by (simp add: serving_def valid_input_def demo_in_def demo_out_def demo_md5_def)
qed

lemma providers: "providers_ok None" "providers_ok (Some CShortTermAuth_DoAuthCheck)" "providers_ok (Some (CLongTermAuth_DoAuthCheck hmac now))"
  using short_term.auth_provider_axioms long_term.auth_provider_axioms by (simp_all add: providers_ok_def)

lemmas demo_serving = demo_serving_any [OF providers(2)]

abbreviation (input) steve_password :: bytes where
  "steve_password \<equiv> ascii ''2MinToMid''"

lemma demo_values_absent: "t \<noteq> STUN_ATTRIBUTE_USERNAME \<Longrightarrow> t \<noteq> STUN_ATTRIBUTE_CHANGEREQUEST \<Longrightarrow> t \<noteq> STUN_ATTRIBUTE_MESSAGEINTEGRITY \<Longrightarrow>
    attr_lookup t demo_request = None"
  using message_lookup(1) [OF demo_request_ok demo_reader, of t] by (auto simp: last_value_def integrity_tail_def demo_as_def)

lemma demo_values_present: "has_value demo_request STUN_ATTRIBUTE_USERNAME (ascii ''steve'')"
  "has_value demo_request STUN_ATTRIBUTE_CHANGEREQUEST (change_request_value \<lparr>fChangeIP = False, fChangePort = True\<rparr>)"
  using message_lookup(2) [OF demo_request_ok demo_reader]
  by (simp_all add: last_value_def integrity_tail_def demo_as_def stun_consts change_request_value_def)

lemma demo_user: "cstr (read_string STUN_ATTRIBUTE_USERNAME demo_request) = ascii ''steve''"
proof -
  have "GetStringAttributeByType STUN_ATTRIBUTE_USERNAME 65 demo_request = (S_OK, Some (ascii ''steve'' @ [0]))"
    by (rule has_value_string [OF demo_values_present(1)]) (simp add: ascii_def)
  then show ?thesis using cstr_write(1) [of "ascii ''steve''" auth_array] by (simp add: read_string_def ascii_def)
qed

lemma demo_signed: "request_signed demo_hmac steve_password demo_request"
proof -
  have "ValidateMessageIntegrity demo_hmac (Some steve_password) (length steve_password) demo_request = S_OK"
    using message_integrity [OF demo_request_ok demo_reader, of "length steve_password" demo_hmac steve_password]
    by (simp add: demo_hmac_def ascii_def)
  then show ?thesis by (simp add: request_signed_def)
qed

lemma demo_reply:
  "reply_to demo_hmac demo_md5 (Some CShortTermAuth_DoAuthCheck) demo_set demo_in demo_request =
   BindingReply RolePA (Some (CSocketAddress_ip4 1 3479)) (Some (CSocketAddress_ip4 2 3479)) (Some steve_password)"
proof -
  let ?a = "auth_attributes demo_request"
  have fu: "find_user (aa_szUser ?a) sample_users = Some steve_password"
    using demo_user by (simp add: auth_attributes_def sample_users_def) (simp add: ascii_def)
  have mi: "aa_fMessageIntegrityPresent ?a"
    using has_value_lookup [OF message_lookup(2) [OF demo_request_ok demo_reader]]
    by (simp add: auth_attributes_def HasMessageIntegrityAttribute_def integrity_tail_def)
  define resp where "resp = terminate_response (snd (CShortTermAuth_DoAuthCheck ?a AuthResponse_zero))"
  have resp: "fst (CShortTermAuth_DoAuthCheck ?a AuthResponse_zero) = S_OK"
    "ar_responseType resp = AllowConditional" "ar_authCredMech resp = AuthCredShortTerm"
    using mi fu by (simp_all add: resp_def CShortTermAuth_DoAuthCheck_def LookupPassword_def terminate_response_def)
  have "ar_szPassword resp = (strcpy auth_array (steve_password @ [0]))[64 := 0]"
    using mi fu by (simp add: resp_def CShortTermAuth_DoAuthCheck_def LookupPassword_def terminate_response_def AuthResponse_zero_def
        auth_string_size_def MAX_STUN_AUTH_STRING_SIZE_def)
  also have "strcpy auth_array (steve_password @ [0]) = steve_password @ 0 # replicate 55 0"
    by (simp add: strcpy_def ascii_def auth_array_def auth_string_size_def MAX_STUN_AUTH_STRING_SIZE_def overwrite_def cstr_def)
  finally have key: "response_key demo_md5 ?a resp = steve_password" using resp(3)
    by (simp add: response_key_def cstr_def ascii_def)
  have verdict: "auth_verdict demo_hmac demo_md5 (Some CShortTermAuth_DoAuthCheck) demo_request = Granted (Some steve_password)"
    using resp key demo_signed by (simp add: auth_verdict_def Let_def split_beta resp_def [symmetric])
  have port: "requested_port demo_request = 0" using demo_values_absent [of STUN_ATTRIBUTE_RESPONSE_PORT]
    by (simp add: requested_port_def GetResponsePort_def stun_consts)
  have change: "GetChangeRequest demo_request = (S_OK, \<lparr>fChangeIP = False, fChangePort = True\<rparr>)"
    by (rule has_value_change_request [OF demo_values_present(2)])
  have at: "ta_addr (demo_set ! unat RolePA) = CSocketAddress_ip4 1 3479" "ta_addr (demo_set ! unat RoleAA) = CSocketAddress_ip4 2 3479"
    by (simp_all add: demo_set_def RolePA_def RoleAA_def)
  have us: "usable demo_set RolePP" "usable demo_set RolePA" "usable demo_set RoleAP" "usable demo_set RoleAA"
    by (simp_all add: demo_set_def usable_def) (simp_all add: RolePP_def RolePA_def RoleAP_def RoleAA_def)
  have "CSocketAddress_IsIPAddressZero (CSocketAddress_ip4 ip p) \<longleftrightarrow> be32 ip = replicate 4 0" for ip p
    by (simp add: CSocketAddress_ip4_def CSocketAddress_IsIPAddressZero_def CSocketAddress_from_in4_def)
  moreover have "be32 1 \<noteq> replicate 4 0" "be32 2 \<noteq> replicate 4 0" by code_simp+
  ultimately have nz: "\<not> CSocketAddress_IsIPAddressZero (CSocketAddress_ip4 1 p)" "\<not> CSocketAddress_IsIPAddressZero (CSocketAddress_ip4 2 p)" for p by simp_all
  have roles: "change_output \<lparr>fChangeIP = False, fChangePort = True\<rparr> RolePP = RolePA" "SocketRoleSwapIP (SocketRoleSwapPort RolePP) = RoleAA"
    by (simp_all add: change_output_def swap_roles(1,6))
  have input: "in_socketrole demo_in = RolePP" "\<not> in_fConnectionOriented demo_in" by (simp_all add: demo_in_def)
  have wants: "wants_change demo_request" using change by (simp add: wants_change_def)
  show ?thesis using verdict port change wants message_read(3) [OF demo_request_ok demo_reader] at us nz roles input
    by (simp add: reply_to_def binding_reply_def reported_origin_def reported_other_def known_def)
qed

text \<open>The long-term provider's verdict, whatever the request.\<close>

lemma cstr_terminate: "length (cstr s) \<le> k \<Longrightarrow> cstr (s[k := 0]) = cstr s"
proof (induction s arbitrary: k)
  case (Cons c s)
  then show ?case by (cases k) (auto simp: cstr_def)
qed simp

lemma long_term_verdict:
  "\<exists>e. (e = STUN_ERROR_STALENONCE \<or> e = STUN_ERROR_UNAUTHORIZED) \<and>
     auth_verdict hmac md5 (Some (CLongTermAuth_DoAuthCheck h now)) r = Refused e (nonce_text h now) c_szRealm"
proof -
  let ?a = "auth_attributes r"
  let ?res = "CLongTermAuth_DoAuthCheck h now ?a AuthResponse_zero"
  note lr = long_term_response [OF wf_zero(1), of h now ?a]
  have "length (cstr (ar_szNonce (snd ?res))) \<le> 64" "length (cstr (ar_szRealm (snd ?res))) \<le> 64"
    using lr nonce_text_ok(2) [of h now] sample_strings(2) by simp_all
  then have strings: "cstr (ar_szNonce (terminate_response (snd ?res))) = nonce_text h now" "cstr (ar_szRealm (terminate_response (snd ?res))) = c_szRealm"
    using lr cstr_terminate by (simp_all add: terminate_response_def auth_string_size_def MAX_STUN_AUTH_STRING_SIZE_def)
  have "ar_responseType (snd ?res) = StaleNonce \<or> ar_responseType (snd ?res) = Unauthorized" using long_term_decision [of h now ?a AuthResponse_zero] by simp
  moreover have "ar_responseType (terminate_response x) = ar_responseType x" for x by (simp add: terminate_response_def)
  ultimately show ?thesis using lr(1) strings by (auto simp: auth_verdict_def Let_def split_beta)
qed

section \<open>The attributes of a reply\<close>

lemma last_value_append: "last_value t (as @ bs) = (case last_value t bs of None \<Rightarrow> last_value t as | Some d \<Rightarrow> Some d)"
  by (induction bs rule: rev_induct) (auto simp flip: append_assoc split: prod.splits option.splits)

lemma last_value_single [simp]: "last_value t [(u, d)] = (if u = t then Some d else None)"
  using last_value_simps(2) [of t "[]" u d] by simp

lemma last_value_opt: "last_value t (opt_address u a) = (if u = t then map_option address_value a else None)"
  by (simp add: opt_address_def split: option.split)

lemma last_value_mac:
  "t \<noteq> STUN_ATTRIBUTE_MESSAGEINTEGRITY \<Longrightarrow> last_value t (with_mac hmac key ty c tid as) = last_value t as"
  by (auto simp: with_mac_def split: option.split)

lemma binding_values:
  assumes "as = binding_attrs l tid r origin other"
  shows "last_value STUN_ATTRIBUTE_MAPPEDADDRESS as = Some (address_value r)"
    "last_value (if l then STUN_ATTRIBUTE_XORMAPPEDADDRESS_OPTIONAL else STUN_ATTRIBUTE_XORMAPPEDADDRESS) as =
       Some (address_value (CSocketAddress_ApplyStunXorMap tid r))"
    "l \<Longrightarrow> last_value STUN_ATTRIBUTE_XORMAPPEDADDRESS as = None"
    "last_value (if l then STUN_ATTRIBUTE_CHANGEDADDRESS else STUN_ATTRIBUTE_OTHER_ADDRESS) as = map_option address_value other"
    "last_value (if l then STUN_ATTRIBUTE_OTHER_ADDRESS else STUN_ATTRIBUTE_CHANGEDADDRESS) as = None"
    "last_value (if l then STUN_ATTRIBUTE_SOURCEADDRESS else STUN_ATTRIBUTE_RESPONSE_ORIGIN) as = map_option address_value origin"
    "last_value (if l then STUN_ATTRIBUTE_RESPONSE_ORIGIN else STUN_ATTRIBUTE_SOURCEADDRESS) as = None"
  unfolding assms binding_attrs_def last_value_append last_value_opt
  by (cases l; cases other; cases origin; simp add: stun_consts)+

text \<open>What a reader with these attributes answers.\<close>

definition same_address :: "simple_sockaddr \<Rightarrow> hresult \<times> simple_sockaddr \<Rightarrow> bool" where
  "same_address x res \<longleftrightarrow> fst res = S_OK \<and> CSocketAddress_IsSameIP_and_Port x (snd res)"

lemma same_addressI: "res = (S_OK, y) \<Longrightarrow> same_endpoint y x \<Longrightarrow> wf_addr x \<Longrightarrow> same_address x res"
  unfolding same_address_def same_endpoint_def CSocketAddress_IsSameIP_and_Port_def
  by (simp add: IsSameIP_iff CSocketAddress_GetPort_def CSocketAddress_GetPort_NBO_def)

definition reads_option :: "simple_sockaddr option \<Rightarrow> hresult \<times> simple_sockaddr \<Rightarrow> bool" where
  "reads_option x res \<longleftrightarrow> (case x of None \<Rightarrow> FAILED (fst res) | Some a \<Rightarrow> same_address a res)"

lemma binding_reads:
  assumes ok: "message_ok True t c tid (with_mac hmac key t c tid (binding_attrs l tid r origin other))"
    and ra: "reader_after True (message t c tid (with_mac hmac key t c tid (binding_attrs l tid r origin other))) rd"
    and wf: "wf_addr r" "wf_opt origin" "wf_opt other" "wf_transid tid"
  shows "same_address r (Reader_GetMappedAddress z rd)" "same_address r (Reader_GetXorMappedAddress z rd)"
    "reads_option other (GetOtherAddress z rd)" "reads_option origin (GetResponseOriginAddress z rd)"
proof -
  let ?as = "with_mac hmac key t c tid (binding_attrs l tid r origin other)"
  note look = message_lookup [OF ok ra]
  have lv: "last_value u ?as = last_value u (binding_attrs l tid r origin other)" if "u \<noteq> STUN_ATTRIBUTE_MESSAGEINTEGRITY" for u
    using last_value_mac [OF that] .
  note bv = binding_values [OF refl, of l tid r origin other]
  have none: "attr_lookup u rd = None" if "last_value u (binding_attrs l tid r origin other) = None" "u \<noteq> STUN_ATTRIBUTE_MESSAGEINTEGRITY" for u
    using look(1) lv that by simp
  have val: "has_value rd u d" if "last_value u (binding_attrs l tid r origin other) = Some d" "u \<noteq> STUN_ATTRIBUTE_MESSAGEINTEGRITY" for u d
    using look(2) lv that by simp
  have types: "STUN_ATTRIBUTE_MAPPEDADDRESS \<noteq> STUN_ATTRIBUTE_MESSAGEINTEGRITY"
    "(if l then STUN_ATTRIBUTE_XORMAPPEDADDRESS_OPTIONAL else STUN_ATTRIBUTE_XORMAPPEDADDRESS) \<noteq> STUN_ATTRIBUTE_MESSAGEINTEGRITY"
    "STUN_ATTRIBUTE_XORMAPPEDADDRESS \<noteq> STUN_ATTRIBUTE_MESSAGEINTEGRITY" "STUN_ATTRIBUTE_OTHER_ADDRESS \<noteq> STUN_ATTRIBUTE_MESSAGEINTEGRITY"
    "STUN_ATTRIBUTE_CHANGEDADDRESS \<noteq> STUN_ATTRIBUTE_MESSAGEINTEGRITY" "STUN_ATTRIBUTE_SOURCEADDRESS \<noteq> STUN_ATTRIBUTE_MESSAGEINTEGRITY"
    "STUN_ATTRIBUTE_RESPONSE_ORIGIN \<noteq> STUN_ATTRIBUTE_MESSAGEINTEGRITY"
    by (simp_all add: stun_consts)
  obtain y1 where "Reader_GetMappedAddress z rd = (S_OK, y1)" "same_endpoint y1 r" by (rule get_mapped [OF val [OF bv(1) types(1)] wf(1)])
  then show "same_address r (Reader_GetMappedAddress z rd)" using same_addressI wf(1) by blast
  have "l \<Longrightarrow> attr_lookup STUN_ATTRIBUTE_XORMAPPEDADDRESS rd = None" using none bv(3) types(3) by blast
  from get_xor [OF val [OF bv(2) types(2)] wf(1,4) this message_read(4) [OF ok ra], of z]
  show "same_address r (Reader_GetXorMappedAddress z rd)" using same_addressI wf(1) by metis
  show "reads_option other (GetOtherAddress z rd)"
  proof (cases other)
    case None
    have "attr_lookup STUN_ATTRIBUTE_OTHER_ADDRESS rd = None" "attr_lookup STUN_ATTRIBUTE_CHANGEDADDRESS rd = None"
      using bv(4,5) None none types(4,5) by (cases l; simp)+
    then show ?thesis using None by (simp add: reads_option_def GetOtherAddress_def no_address)
  next
    case (Some x)
    have v: "has_value rd (if l then STUN_ATTRIBUTE_CHANGEDADDRESS else STUN_ATTRIBUTE_OTHER_ADDRESS) (address_value x)"
      using bv(4) Some val types(4,5) by (cases l) simp_all
    have "l \<Longrightarrow> attr_lookup STUN_ATTRIBUTE_OTHER_ADDRESS rd = None" using bv(5) none types(4) by simp
    from get_other [OF v _ this, of z] show ?thesis using same_addressI wf(3) Some by (metis reads_option_def wf_opt_def option.case(2))
  qed
  show "reads_option origin (GetResponseOriginAddress z rd)"
  proof (cases origin)
    case None
    have "attr_lookup STUN_ATTRIBUTE_RESPONSE_ORIGIN rd = None" "attr_lookup STUN_ATTRIBUTE_SOURCEADDRESS rd = None"
      using bv(6,7) None none types(6,7) by (cases l; simp)+
    then show ?thesis using None by (simp add: reads_option_def GetResponseOriginAddress_def no_address)
  next
    case (Some x)
    have v: "has_value rd (if l then STUN_ATTRIBUTE_SOURCEADDRESS else STUN_ATTRIBUTE_RESPONSE_ORIGIN) (address_value x)"
      using bv(6) Some val types(6,7) by (cases l) simp_all
    have "l \<Longrightarrow> attr_lookup STUN_ATTRIBUTE_RESPONSE_ORIGIN rd = None" using bv(7) none types(7) by simp
    from get_origin [OF v _ this, of z] show ?thesis using same_addressI wf(2) Some by (metis reads_option_def wf_opt_def option.case(2))
  qed
qed

lemma error_values:
  assumes "as = error_attrs l e nonce realm" "e = STUN_ERROR_STALENONCE \<or> e = STUN_ERROR_UNAUTHORIZED \<or> (nonce = [] \<and> realm = [])"
  shows "last_value STUN_ATTRIBUTE_ERRORCODE as = Some (padded l (error_value e c_FAILED))"
    "last_value STUN_ATTRIBUTE_NONCE as = (if nonce = [] then None else Some (padded l nonce))"
    "last_value STUN_ATTRIBUTE_REALM as = (if realm = [] then None else Some (padded l realm))"
proof -
  have a: "as = [(STUN_ATTRIBUTE_ERRORCODE, padded l (error_value e c_FAILED))] @ opt_string l STUN_ATTRIBUTE_NONCE nonce @ opt_string l STUN_ATTRIBUTE_REALM realm"
    using assms by (auto simp: error_attrs_def opt_string_def)
  have o: "last_value t (opt_string l u d) = (if u = t \<and> d \<noteq> [] then Some (padded l d) else None)" for t u d by (simp add: opt_string_def)
  show "last_value STUN_ATTRIBUTE_ERRORCODE as = Some (padded l (error_value e c_FAILED))"
    "last_value STUN_ATTRIBUTE_NONCE as = (if nonce = [] then None else Some (padded l nonce))"
    "last_value STUN_ATTRIBUTE_REALM as = (if realm = [] then None else Some (padded l realm))"
    unfolding a last_value_append o by (simp_all add: stun_consts)
qed

definition reads_text :: "bytes \<Rightarrow> hresult \<times> bytes option \<Rightarrow> bool" where
  "reads_text s res \<longleftrightarrow> (if s = [] then FAILED (fst res) else \<exists>t. res = (S_OK, Some t) \<and> cstr t = s)"

lemma padded_text:
  assumes "has_value rd t (padded l d)" "length d \<le> 64" "0 \<notin> set d" "d \<noteq> []"
  shows "reads_text d (GetStringAttributeByType t 65 rd)"
proof -
  have "length (padded l d) < 65" using assms(2) by (auto simp: padded_def pad4_def) presburger
  from has_value_string [OF assms(1) this] have "GetStringAttributeByType t 65 rd = (S_OK, Some (padded l d @ [0]))" .
  moreover have "cstr (padded l d @ [0]) = d"
  proof -
    have "cstr (d @ replicate k 0) = d" for k using assms(3) by (cases k) simp_all
    then show ?thesis using assms(3) by (simp add: padded_def)
  qed
  ultimately show ?thesis using assms(4) by (simp add: reads_text_def)
qed

lemma error_reads:
  assumes ok: "message_ok True t c tid (error_attrs l e nonce realm)"
    and ra: "reader_after True (message t c tid (error_attrs l e nonce realm)) rd"
    and e: "e \<in> {STUN_ERROR_BADREQUEST, STUN_ERROR_UNAUTHORIZED, STUN_ERROR_STALENONCE}"
    and s: "length nonce \<le> 64" "length realm \<le> 64" "0 \<notin> set nonce" "0 \<notin> set realm" "e = STUN_ERROR_BADREQUEST \<longrightarrow> nonce = [] \<and> realm = []"
  shows "GetErrorCode rd = (S_OK, Some e)" "reads_text nonce (GetStringAttributeByType STUN_ATTRIBUTE_NONCE 65 rd)"
    "reads_text realm (GetStringAttributeByType STUN_ATTRIBUTE_REALM 65 rd)"
proof -
  note look = message_lookup [OF ok ra]
  have "e = STUN_ERROR_STALENONCE \<or> e = STUN_ERROR_UNAUTHORIZED \<or> (nonce = [] \<and> realm = [])" using e s(5) by auto
  note ev = error_values [OF refl this, of l]
  have "padded l (error_value e c_FAILED) = error_value e (c_FAILED @ (if l then replicate (pad4 10) 0 else []))"
    by (simp add: padded_def error_value_def)
  then have "has_value rd STUN_ATTRIBUTE_ERRORCODE (error_value e (c_FAILED @ (if l then replicate (pad4 10) 0 else [])))"
    using look(2) [OF ev(1)] by simp
  then show "GetErrorCode rd = (S_OK, Some e)" using error_code_range [OF e] by (intro has_value_error) auto
  have txts: "reads_text d (GetStringAttributeByType u 65 rd)"
    if "last_value u (error_attrs l e nonce realm) = (if d = [] then None else Some (padded l d))" "length d \<le> 64" "0 \<notin> set d" for u d
  proof (cases "d = []")
    case True
    then show ?thesis using look(1) [of u] that(1) by (simp add: reads_text_def GetStringAttributeByType_def)
  next
    case False
    then show ?thesis using look(2) [of u "padded l d"] that padded_text by simp
  qed
  show "reads_text nonce (GetStringAttributeByType STUN_ATTRIBUTE_NONCE 65 rd)" by (rule txts [OF ev(2) s(1,3)])
  show "reads_text realm (GetStringAttributeByType STUN_ATTRIBUTE_REALM 65 rd)" by (rule txts [OF ev(3) s(2,4)])
qed

end
