(* ===== verification/HandlerTheorems.thy ===== *)
theory HandlerTheorems
  imports ServerReply
begin

text \<open>
  The properties of the request handler, of the providers, and of the exchange between a client and
  the server: what a client that receives the reply reads from it.
\<close>

section \<open>What the handler does\<close>

text \<open>C1: The handler refines its decision: for a request in service it returns success and leaves in the
  caller's buffer exactly the bytes of the reply decided from the request, the addresses and the
  provider's answer, to be sent from the decided socket, to the requester or to its response port.\<close>

theorem handler_refines_decision:
  assumes "serving hmac md5 pAuth tas msgIn msgOut r"
  shows "fst (ProcessRequest hmac md5 msgIn msgOut (Some tas) pAuth) = S_OK \<and>
    sent_bytes (response hmac md5 pAuth tas msgIn msgOut) = reply_bytes hmac msgIn r (reply_to hmac md5 pAuth tas msgIn r) \<and>
    out_socketrole (response hmac md5 pAuth tas msgIn msgOut) = reply_role msgIn (reply_to hmac md5 pAuth tas msgIn r) \<and>
    out_addrDest (response hmac md5 pAuth tas msgIn msgOut) = reply_dest msgIn r"
  using serving_sent [OF assms] by blast

lemma handler_refines_decision_witness:
  "fst (ProcessRequest demo_hmac demo_md5 demo_in demo_out (Some demo_set) (Some CShortTermAuth_DoAuthCheck)) = S_OK \<and>
   out_socketrole (response demo_hmac demo_md5 (Some CShortTermAuth_DoAuthCheck) demo_set demo_in demo_out) = RolePA"
  using handler_refines_decision [OF demo_serving] by (simp add: demo_reply reply_role_def)

text \<open>Nothing is answered and nothing of the output is touched when there is no reader, no address set,
  no buffer of 800 bytes, an invalid socket role or a message that did not validate; a validated
  message that is no request fails with an empty response.\<close>

theorem handler_refuses:
  assumes "in_pReader msgIn = Some r"
  shows "ProcessRequest hmac md5 (msgIn\<lparr>in_pReader := None\<rparr>) msgOut tas pAuth = (E_INVALIDARG, msgOut) \<and>
    (if \<not> IsValidSocketRole (in_socketrole msgIn) \<or> tas = None \<or> out_spBufferOut msgOut = None \<or>
        cb_allocatedSize (the (out_spBufferOut msgOut)) < 800
     then ProcessRequest hmac md5 msgIn msgOut tas pAuth = (E_INVALIDARG, msgOut)
     else if Reader_GetState r \<noteq> BodyValidated then ProcessRequest hmac md5 msgIn msgOut tas pAuth = (E_UNEXPECTED, msgOut)
     else if GetMessageClass r \<noteq> StunMsgClassRequest
     then fst (ProcessRequest hmac md5 msgIn msgOut tas pAuth) = E_FAIL \<and> sent_bytes (snd (ProcessRequest hmac md5 msgIn msgOut tas pAuth)) = []
     else fst (ProcessRequest hmac md5 msgIn msgOut tas pAuth) = S_OK)"
proof (cases "IsValidSocketRole (in_socketrole msgIn) \<and> tas \<noteq> None \<and> out_spBufferOut msgOut \<noteq> None \<and>
    \<not> cb_allocatedSize (the (out_spBufferOut msgOut)) < 800 \<and> Reader_GetState r = BodyValidated")
  case True
  then obtain t b where tb: "tas = Some t" "out_spBufferOut msgOut = Some b" by auto
  have "hd_reader (CStunRequestHandler_new (Some t) msgIn o') = r" for o' using assms by (simp add: hd_reader_def CStunRequestHandler_new_def)
  then show ?thesis using True assms tb
    by (auto simp: ProcessRequest_def ProcessRequestImpl_def MAX_STUN_MESSAGE_SIZE_def Let_def split_beta sent_bytes_def
        CStunRequestHandler_new_def buffer_bytes_def)
next
  case False
  then show ?thesis using assms by (auto simp: ProcessRequest_def MAX_STUN_MESSAGE_SIZE_def split: option.splits)
qed

lemma handler_refuses_witness:
  "fst (ProcessRequest demo_hmac demo_md5 demo_in demo_out None None) = E_INVALIDARG \<and>
   ProcessRequest demo_hmac demo_md5 (demo_in\<lparr>in_socketrole := 4\<rparr>) demo_out (Some demo_set) None = (E_INVALIDARG, demo_out)"
  using handler_refuses [of demo_in demo_request demo_hmac demo_md5 demo_out None None]
    handler_refuses [of "demo_in\<lparr>in_socketrole := 4\<rparr>" demo_request demo_hmac demo_md5 demo_out "Some demo_set" None]
  by (simp add: demo_in_def IsValidSocketRole_def)

text \<open>The response always lies in the caller's own buffer: its allocation is the one the caller passed
  and its bytes, at most 180 of them, never make the stream move to a new buffer.\<close>

theorem response_in_callers_buffer:
  assumes "serving hmac md5 pAuth tas msgIn msgOut r"
  shows "\<exists>b b'. out_spBufferOut msgOut = Some b \<and> out_spBufferOut (response hmac md5 pAuth tas msgIn msgOut) = Some b' \<and>
    cb_allocatedSize b' = cb_allocatedSize b \<and> 20 \<le> cb_size b' \<and> cb_size b' \<le> 180"
proof -
  note s = serving_sent [OF assms]
  have v: "valid_input tas msgIn r" "\<forall>k d. length (hmac k d) = 20" "providers_ok pAuth" using assms by (simp_all add: serving_def)
  obtain b b' where b: "out_spBufferOut msgOut = Some b" "out_spBufferOut (response hmac md5 pAuth tas msgIn msgOut) = Some b'"
    "cb_allocatedSize b' = cb_allocatedSize b" "wf_buffer b'" using s(5) by blast
  have "length (sent_bytes (response hmac md5 pAuth tas msgIn msgOut)) = cb_size b'" using b by (simp add: sent_bytes_def length_buffer_bytes)
  moreover have "20 \<le> length (reply_bytes hmac msgIn r rep)" for rep
    using v(1) by (cases rep) (simp_all add: reply_bytes_def Let_def length_message valid_input_def)
  moreover note reply_length [OF v, of md5]
  ultimately have "20 \<le> cb_size b'" "cb_size b' \<le> 180" using s(1) by metis+
  then show ?thesis using b by blast
qed

lemma response_in_callers_buffer_witness:
  "\<exists>b'. out_spBufferOut (response demo_hmac demo_md5 (Some CShortTermAuth_DoAuthCheck) demo_set demo_in demo_out) = Some b' \<and>
     cb_allocatedSize b' = 1500 \<and> cb_size b' \<le> 180"
  using response_in_callers_buffer [OF demo_serving] by (auto simp: demo_out_def)

section \<open>What the client reads\<close>

text \<open>C2: End to end, success: a client that receives the response in any pieces has a validated binding
  success with the request's transaction id; it reads its own address from the mapped and from the
  XOR-mapped attribute, the other address of the server where the server reports one, and the
  origin of the response where that is known.\<close>

theorem client_reads_binding:
  assumes "serving hmac md5 pAuth tas msgIn msgOut r" "reply_to hmac md5 pAuth tas msgIn r = BindingReply out origin other key"
    "concat xss = sent_bytes (response hmac md5 pAuth tas msgIn msgOut)"
  shows "Reader_GetState (received True xss) = BodyValidated \<and> GetMessageClass (received True xss) = StunMsgClassSuccessResponse \<and>
    GetMessageType (received True xss) = StunMsgTypeBinding \<and> Reader_GetTransactionId (received True xss) = Reader_GetTransactionId r \<and>
    same_address (in_addrRemote msgIn) (Reader_GetMappedAddress z (received True xss)) \<and>
    same_address (in_addrRemote msgIn) (Reader_GetXorMappedAddress z (received True xss)) \<and>
    reads_option (reported_other tas (in_socketrole msgIn)) (GetOtherAddress z (received True xss)) \<and>
    reads_option (reported_origin tas msgIn out) (GetResponseOriginAddress z (received True xss))"
proof -
  let ?tid = "Reader_GetTransactionId r" and ?l = "IsMessageLegacyFormat r" and ?rd = "received True xss"
  let ?as = "with_mac hmac key StunMsgTypeBinding StunMsgClassSuccessResponse ?tid (binding_attrs ?l ?tid (in_addrRemote msgIn) origin other)"
  have v: "valid_input tas msgIn r" "\<forall>k d. length (hmac k d) = 20" using assms(1) by (simp_all add: serving_def)
  note ad = reply_addresses [OF v(1) assms(2)]
  have w: "wf_addr (in_addrRemote msgIn)" "wf_opt origin" "wf_opt other" "wf_transid ?tid" using v(1) ad by (simp_all add: valid_input_def)
  have ok: "message_ok True StunMsgTypeBinding StunMsgClassSuccessResponse ?tid ?as" by (rule binding_message_ok [OF w v(2)])
  have "concat xss = message StunMsgTypeBinding StunMsgClassSuccessResponse ?tid ?as"
    using assms(3) serving_sent(1) [OF assms(1)] assms(2) by (simp add: reply_bytes_def Let_def)
  then have ra: "reader_after True (message StunMsgTypeBinding StunMsgClassSuccessResponse ?tid ?as) ?rd" by (rule received_message [OF ok])
  show ?thesis using message_read [OF ok ra] binding_reads [OF ok ra w, of z] ad(5,6) by simp
qed

lemma client_reads_binding_witness:
  "same_address (CSocketAddress_ip4 9 5000) (Reader_GetXorMappedAddress sockaddr_zero
     (received True [sent_bytes (response demo_hmac demo_md5 (Some CShortTermAuth_DoAuthCheck) demo_set demo_in demo_out)]))"
  using client_reads_binding [OF demo_serving demo_reply, of "[_]" sockaddr_zero] by (simp add: demo_in_def)

text \<open>C3: End to end, failure: the client has a validated failure response of the request's type with the
  request's transaction id; it reads the error number, and the nonce and the realm of a 401 or 438.\<close>

theorem client_reads_error:
  assumes "serving hmac md5 pAuth tas msgIn msgOut r" "reply_to hmac md5 pAuth tas msgIn r = ErrorReply e nonce realm"
    "concat xss = sent_bytes (response hmac md5 pAuth tas msgIn msgOut)"
  shows "Reader_GetState (received True xss) = BodyValidated \<and> GetMessageClass (received True xss) = StunMsgClassFailureResponse \<and>
    GetMessageType (received True xss) = GetMessageType r \<and> Reader_GetTransactionId (received True xss) = Reader_GetTransactionId r \<and>
    GetErrorCode (received True xss) = (S_OK, Some e) \<and>
    reads_text nonce (GetStringAttributeByType STUN_ATTRIBUTE_NONCE 65 (received True xss)) \<and>
    reads_text realm (GetStringAttributeByType STUN_ATTRIBUTE_REALM 65 (received True xss))"
proof -
  let ?tid = "Reader_GetTransactionId r" and ?l = "IsMessageLegacyFormat r" and ?t = "GetMessageType r" and ?rd = "received True xss"
  let ?as = "error_attrs ?l e nonce realm"
  have p: "providers_ok pAuth" "wf_transid ?tid" "?t < 0x1000" using assms(1) by (simp_all add: serving_def valid_input_def)
  note s = reply_strings [OF p(1) assms(2)]
  have ok: "message_ok True ?t StunMsgClassFailureResponse ?tid ?as" by (rule error_message_ok [OF p(2,3) s(1,2)])
  have "concat xss = message ?t StunMsgClassFailureResponse ?tid ?as"
    using assms(3) serving_sent(1) [OF assms(1)] assms(2) by (simp add: reply_bytes_def Let_def)
  then have ra: "reader_after True (message ?t StunMsgClassFailureResponse ?tid ?as) ?rd" by (rule received_message [OF ok])
  show ?thesis using message_read [OF ok ra] error_reads [OF ok ra reply_code [OF assms(2)] s] by simp
qed

lemma demo_long_term: "\<exists>e. (e = STUN_ERROR_STALENONCE \<or> e = STUN_ERROR_UNAUTHORIZED) \<and>
    reply_to demo_hmac demo_md5 (Some (CLongTermAuth_DoAuthCheck demo_hmac 0)) demo_set demo_in demo_request = ErrorReply e (nonce_text demo_hmac 0) c_szRealm"
proof -
  obtain e where e: "e = STUN_ERROR_STALENONCE \<or> e = STUN_ERROR_UNAUTHORIZED"
    "auth_verdict demo_hmac demo_md5 (Some (CLongTermAuth_DoAuthCheck demo_hmac 0)) demo_request = Refused e (nonce_text demo_hmac 0) c_szRealm"
    using long_term_verdict by blast
  have "requested_port demo_request = 0" using demo_values_absent [of STUN_ATTRIBUTE_RESPONSE_PORT]
    by (simp add: requested_port_def GetResponsePort_def stun_consts)
  then show ?thesis using e message_read(3) [OF demo_request_ok demo_reader] by (simp add: reply_to_def)
qed

lemma client_reads_error_witness:
  "reads_text c_szRealm (GetStringAttributeByType STUN_ATTRIBUTE_REALM 65 (received True
     [sent_bytes (response demo_hmac demo_md5 (Some (CLongTermAuth_DoAuthCheck demo_hmac 0)) demo_set demo_in demo_out)]))"
proof -
  obtain e where e: "reply_to demo_hmac demo_md5 (Some (CLongTermAuth_DoAuthCheck demo_hmac 0)) demo_set demo_in demo_request =
      ErrorReply e (nonce_text demo_hmac 0) c_szRealm" using demo_long_term by blast
  show ?thesis using client_reads_error [OF demo_serving_any [OF providers(3)] e, of "[_]"] by simp
qed

text \<open>C35: A request accepted on its credentials gets a response signed with the same key: the client that
  checks the response's integrity with that key accepts it, and one that checks with a key of
  different HMAC over the response refuses it.\<close>

theorem response_signed:
  assumes "serving hmac md5 pAuth tas msgIn msgOut r" "reply_to hmac md5 pAuth tas msgIn r = BindingReply out origin other (Some key)"
    "concat xss = sent_bytes (response hmac md5 pAuth tas msgIn msgOut)" "0 < length k"
  shows "HasMessageIntegrityAttribute (received True xss) \<and>
    ValidateMessageIntegrity hmac (Some k) (length k) (received True xss) =
      (let d = take (length (concat xss) - 24) (concat xss) in if hmac k d = hmac key d then S_OK else E_FAIL)"
proof -
  let ?tid = "Reader_GetTransactionId r" and ?l = "IsMessageLegacyFormat r" and ?rd = "received True xss"
  let ?bs = "binding_attrs ?l ?tid (in_addrRemote msgIn) origin other"
  let ?mac = "hmac key (covered 24 StunMsgTypeBinding StunMsgClassSuccessResponse ?tid ?bs)"
  let ?as = "integrity_tail ?bs ?mac None"
  have v: "valid_input tas msgIn r" "\<forall>k d. length (hmac k d) = 20" using assms(1) by (simp_all add: serving_def)
  note ad = reply_addresses [OF v(1) assms(2)]
  have w: "wf_addr (in_addrRemote msgIn)" "wf_opt origin" "wf_opt other" "wf_transid ?tid" using v(1) ad by (simp_all add: valid_input_def)
  have as: "with_mac hmac (Some key) StunMsgTypeBinding StunMsgClassSuccessResponse ?tid ?bs = ?as" by (simp add: with_mac_def integrity_tail_def)
  have ok: "message_ok True StunMsgTypeBinding StunMsgClassSuccessResponse ?tid ?as" using binding_message_ok [OF w v(2)] as by metis
  have c: "concat xss = message StunMsgTypeBinding StunMsgClassSuccessResponse ?tid ?as"
    using assms(3) serving_sent(1) [OF assms(1)] assms(2) as by (simp add: reply_bytes_def Let_def)
  note ra = received_message [OF ok c]
  have mac: "length ?mac = 20" using v(2) by simp
  have "has_value ?rd STUN_ATTRIBUTE_MESSAGEINTEGRITY ?mac" by (rule message_lookup(2) [OF ok ra]) (simp add: integrity_tail_def)
  then have has: "HasMessageIntegrityAttribute ?rd" using has_value_lookup by (auto simp: HasMessageIntegrityAttribute_def)
  have "take (length (concat xss) - 24) (concat xss) = covered 24 StunMsgTypeBinding StunMsgClassSuccessResponse ?tid ?bs"
    using mac w(4) unfolding c by (simp add: integrity_tail_def message_snoc length_attr_bytes pad4_def covered_slices wf_transid_def)
  then show ?thesis using has message_integrity [OF ok ra mac _ assms(4), of hmac k] by (simp add: Let_def)
qed

lemma response_signed_witness:
  "ValidateMessageIntegrity demo_hmac (Some steve_password) (length steve_password) (received True
     [sent_bytes (response demo_hmac demo_md5 (Some CShortTermAuth_DoAuthCheck) demo_set demo_in demo_out)]) = S_OK"
  using response_signed [OF demo_serving demo_reply, of "[_]" steve_password] by (simp add: ascii_def Let_def)

text \<open>A response of the success class is a binding reply.\<close>

lemma success_is_binding:
  assumes "serving hmac md5 pAuth tas msgIn msgOut r"
    "GetMessageClass (received True [sent_bytes (response hmac md5 pAuth tas msgIn msgOut)]) = StunMsgClassSuccessResponse"
  obtains out origin other key where "reply_to hmac md5 pAuth tas msgIn r = BindingReply out origin other key"
proof (cases "reply_to hmac md5 pAuth tas msgIn r")
  case (ErrorReply e nonce realm)
  let ?tid = "Reader_GetTransactionId r" and ?t = "GetMessageType r"
  have p: "providers_ok pAuth" "wf_transid ?tid" "?t < 0x1000" using assms(1) by (simp_all add: serving_def valid_input_def)
  note ok = error_message_ok [OF p(2,3) reply_strings(1,2) [OF p(1) ErrorReply], of "IsMessageLegacyFormat r" e]
  have "sent_bytes (response hmac md5 pAuth tas msgIn msgOut) =
      message ?t StunMsgClassFailureResponse ?tid (error_attrs (IsMessageLegacyFormat r) e nonce realm)"
    using serving_sent(1) [OF assms(1)] ErrorReply by (simp add: reply_bytes_def Let_def)
  then have "GetMessageClass (received True [sent_bytes (response hmac md5 pAuth tas msgIn msgOut)]) = StunMsgClassFailureResponse"
    by (intro message_read(2) [OF ok received_message [OF ok]]) simp_all
  then show ?thesis using assms(2) by simp
qed

lemma demo_success:
  "GetMessageClass (received True [sent_bytes (response demo_hmac demo_md5 (Some CShortTermAuth_DoAuthCheck) demo_set demo_in demo_out)]) =
   StunMsgClassSuccessResponse"
proof -
  let ?as = "with_mac demo_hmac (Some steve_password) StunMsgTypeBinding StunMsgClassSuccessResponse demo_id
    (binding_attrs (IsMessageLegacyFormat demo_request) demo_id (in_addrRemote demo_in) (Some (CSocketAddress_ip4 1 3479)) (Some (CSocketAddress_ip4 2 3479)))"
  have "message_ok True StunMsgTypeBinding StunMsgClassSuccessResponse demo_id ?as"
    by (rule binding_message_ok) (simp_all add: demo_in_def wf_opt_def demo_id_def wf_transid_def demo_hmac_def min_def)
  then show ?thesis
    using serving_sent(1) [OF demo_serving] message_read(2,4) [OF demo_request_ok demo_reader] message_read(2) received_message
    by (simp add: demo_reply reply_bytes_def Let_def)
qed

text \<open>C4: No service without credentials: when a provider is installed, a binding response is given only
  if the provider allowed the request outright, or allowed it on condition and the request's own
  integrity attribute checks out under the key made of the provider's password.\<close>

theorem no_service_without_credentials:
  assumes "serving hmac md5 (Some f) tas msgIn msgOut r"
    "GetMessageClass (received True [sent_bytes (response hmac md5 (Some f) tas msgIn msgOut)]) = StunMsgClassSuccessResponse"
  shows "SUCCEEDED (fst (f (auth_attributes r) AuthResponse_zero)) \<and>
    (let resp = snd (f (auth_attributes r) AuthResponse_zero)
     in ar_responseType resp = Allow \<or>
        (ar_responseType resp = AllowConditional \<and>
         SUCCEEDED (ValidateMessageIntegrity hmac (Some (response_key md5 (auth_attributes r) (terminate_response resp)))
           (length (response_key md5 (auth_attributes r) (terminate_response resp))) r)))"
proof -
  have v: "valid_input tas msgIn r" using assms(1) by (simp add: serving_def)
  obtain out origin other key where "reply_to hmac md5 (Some f) tas msgIn r = BindingReply out origin other key"
    by (rule success_is_binding [OF assms])
  then have "auth_verdict hmac md5 (Some f) r = Granted key" by (rule reply_addresses(7) [OF v])
  moreover have "ar_responseType (terminate_response x) = ar_responseType x" for x by (simp add: terminate_response_def)
  ultimately show ?thesis
    by (auto simp: auth_verdict_def request_signed_def Let_def split_beta split: if_splits AuthResponseType.splits)
qed

lemma no_service_without_credentials_witness:
  "SUCCEEDED (fst (CShortTermAuth_DoAuthCheck (auth_attributes demo_request) AuthResponse_zero))"
  using no_service_without_credentials [OF demo_serving demo_success] by blast

lemma swap_bits: "IsValidSocketRole sr \<Longrightarrow> SocketRoleSwapIP sr = sr XOR 2 \<and> SocketRoleSwapPort sr = sr XOR 1"
  by (auto simp: valid_role_cases SocketRoleSwapIP_def SocketRoleSwapPort_def RolePP_def RolePA_def RoleAP_def RoleAA_def)

text \<open>C36: Change requests: a success response leaves from the socket whose role has the IP bit flipped when
  an IP change was asked and the port bit flipped when a port change was asked, from the receiving
  socket otherwise; and it answers a change request only over a usable socket and never over a
  connection.\<close>

theorem change_request_answered:
  assumes "serving hmac md5 pAuth tas msgIn msgOut r"
    "GetMessageClass (received True [sent_bytes (response hmac md5 pAuth tas msgIn msgOut)]) = StunMsgClassSuccessResponse"
  shows "let (hr, c) = GetChangeRequest r; out = out_socketrole (response hmac md5 pAuth tas msgIn msgOut)
    in out = in_socketrole msgIn XOR (if SUCCEEDED hr \<and> fChangeIP c then 2 else 0) XOR (if SUCCEEDED hr \<and> fChangePort c then 1 else 0) \<and>
       (SUCCEEDED hr \<and> (fChangeIP c \<or> fChangePort c) \<longrightarrow> \<not> in_fConnectionOriented msgIn \<and> ta_fValid (tas ! unat out))"
proof -
  have v: "valid_input tas msgIn r" "IsValidSocketRole (in_socketrole msgIn)" using assms(1) by (simp_all add: serving_def valid_input_def)
  obtain hr c where cr: "GetChangeRequest r = (hr, c)" by fastforce
  obtain out origin other key where b: "reply_to hmac md5 pAuth tas msgIn r = BindingReply out origin other key"
    by (rule success_is_binding [OF assms])
  have role: "out_socketrole (response hmac md5 pAuth tas msgIn msgOut) = out" using serving_sent(2) [OF assms(1)] b by (simp add: reply_role_def)
  have use: "wants_change r \<longrightarrow> usable tas out \<and> \<not> in_fConnectionOriented msgIn"
    using b by (auto simp: reply_to_def binding_reply_def Let_def split: if_splits verdict.splits)
  have "change_output c (in_socketrole msgIn) = in_socketrole msgIn XOR (if fChangeIP c then 2 else 0) XOR (if fChangePort c then 1 else 0)"
    using swap_bits [OF v(2)] swap_bits [OF swap_valid(2) [OF v(2)]] by (simp add: change_output_def xor.assoc)
  then have "out = in_socketrole msgIn XOR (if SUCCEEDED hr \<and> fChangeIP c then 2 else 0) XOR (if SUCCEEDED hr \<and> fChangePort c then 1 else 0)"
    using reply_addresses(4) [OF v(1) b] cr by (auto simp: wants_change_def)
  then show ?thesis using role use cr by (simp add: wants_change_def usable_def)
qed

lemma change_request_answered_witness:
  "out_socketrole (response demo_hmac demo_md5 (Some CShortTermAuth_DoAuthCheck) demo_set demo_in demo_out) = 1"
  using change_request_answered [OF demo_serving demo_success] has_value_change_request [OF demo_values_present(2)]
  by (simp add: demo_in_def RolePP_def Let_def)

section \<open>The sample providers behind the handler\<close>

text \<open>Short-term credentials: a request without an integrity attribute is a bad request, one of an
  unknown user or with a signature that does not match that user's password is unauthorised, and
  any other is granted under that password.\<close>

theorem short_term_decision:
  assumes "GetMessageType r = StunMsgTypeBinding" "\<not> (requested_port r \<noteq> 0 \<and> in_fConnectionOriented msgIn)"
  shows "reply_to hmac md5 (Some CShortTermAuth_DoAuthCheck) tas msgIn r =
    (if \<not> HasMessageIntegrityAttribute r then ErrorReply STUN_ERROR_BADREQUEST [] []
     else (case map_of sample_users (cstr (read_string STUN_ATTRIBUTE_USERNAME r)) of
             None \<Rightarrow> ErrorReply STUN_ERROR_UNAUTHORIZED [] []
           | Some password \<Rightarrow>
               if SUCCEEDED (ValidateMessageIntegrityShort hmac password r) then binding_reply (Some password) tas msgIn r
               else ErrorReply STUN_ERROR_UNAUTHORIZED [] []))"
proof -
  let ?a = "auth_attributes r" and ?raw = "CShortTermAuth_DoAuthCheck (auth_attributes r) AuthResponse_zero"
  have a: "aa_szUser ?a = read_string STUN_ATTRIBUTE_USERNAME r" "aa_fMessageIntegrityPresent ?a = HasMessageIntegrityAttribute r"
    by (simp_all add: auth_attributes_def)
  have t: "terminate_response (x\<lparr>ar_responseType := y\<rparr>) = (terminate_response x)\<lparr>ar_responseType := y\<rparr>"
    "terminate_response (x\<lparr>ar_authCredMech := m\<rparr>) = (terminate_response x)\<lparr>ar_authCredMech := m\<rparr>" for x y m
    by (simp_all add: terminate_response_def)
  have zp: "ar_szPassword AuthResponse_zero = auth_array" by (simp add: AuthResponse_zero_def)
  have z: "cstr (ar_szNonce (terminate_response AuthResponse_zero)) = []" "cstr (ar_szRealm (terminate_response AuthResponse_zero)) = []"
    by (simp_all add: terminate_response_def AuthResponse_zero_def cstr_terminate auth_string_size_def MAX_STUN_AUTH_STRING_SIZE_def)
  have pw: "cstr (ar_szPassword (terminate_response (x\<lparr>ar_szPassword := strcpy auth_array (p @ [0])\<rparr>))) = p"
    if "(u, p) \<in> set sample_users" for u p and x :: AuthResponse
  proof -
    have p: "0 \<notin> set p" "length p < 65" using sample_strings(3) that by auto
    then have "cstr (strcpy auth_array (p @ [0])) = p" using strcpy_fits(2) [of "p @ [0]" auth_array] by simp
    then show ?thesis using p(2) by (simp add: terminate_response_def cstr_terminate auth_string_size_def MAX_STUN_AUTH_STRING_SIZE_def)
  qed
  have keep: "ar_szNonce (terminate_response (x\<lparr>ar_szPassword := q\<rparr>)) = ar_szNonce (terminate_response x)"
    "ar_szRealm (terminate_response (x\<lparr>ar_szPassword := q\<rparr>)) = ar_szRealm (terminate_response x)"
    "ar_authCredMech (terminate_response (x\<lparr>ar_szPassword := q\<rparr>)) = ar_authCredMech x" for x q
    by (simp_all add: terminate_response_def)
  have "auth_verdict hmac md5 (Some CShortTermAuth_DoAuthCheck) r =
    (if \<not> HasMessageIntegrityAttribute r then Refused STUN_ERROR_BADREQUEST [] []
     else (case map_of sample_users (cstr (read_string STUN_ATTRIBUTE_USERNAME r)) of
             None \<Rightarrow> Refused STUN_ERROR_UNAUTHORIZED [] []
           | Some password \<Rightarrow>
               if request_signed hmac password r then Granted (Some password) else Refused STUN_ERROR_UNAUTHORIZED [] []))"
  proof (cases "map_of sample_users (cstr (read_string STUN_ATTRIBUTE_USERNAME r))")
    case None
    then have "find_user (aa_szUser ?a) sample_users = None" unfolding a by (metis find_user_mem option.exhaust)
    then show ?thesis using None a z
      by (simp add: auth_verdict_def CShortTermAuth_DoAuthCheck_def LookupPassword_def t Let_def)
  next
    case (Some p)
    then have "find_user (aa_szUser ?a) sample_users = Some p" unfolding a by (simp add: find_user_mem)
    then show ?thesis using Some a z pw [OF map_of_SomeD [OF Some]]
      by (simp add: auth_verdict_def CShortTermAuth_DoAuthCheck_def LookupPassword_def t Let_def response_key_def keep zp)
  qed
  moreover have "request_signed hmac p r \<longleftrightarrow> SUCCEEDED (ValidateMessageIntegrityShort hmac p r)" if "(u, p) \<in> set sample_users" for u p
    using Short_signed [of hmac p r] sample_strings(3) that by auto
  ultimately show ?thesis using assms by (auto simp: reply_to_def split: option.split dest: map_of_SomeD)
qed

lemma demo_no_port: "requested_port demo_request = 0"
  using demo_values_absent [of STUN_ATTRIBUTE_RESPONSE_PORT] by (simp add: requested_port_def GetResponsePort_def stun_consts)

lemma short_term_decision_witness:
  "reply_to demo_hmac demo_md5 (Some CShortTermAuth_DoAuthCheck) demo_set demo_in demo_request =
   binding_reply (Some steve_password) demo_set demo_in demo_request"
proof -
  have "HasMessageIntegrityAttribute demo_request"
    using has_value_lookup [OF message_lookup(2) [OF demo_request_ok demo_reader]]
    by (simp add: HasMessageIntegrityAttribute_def integrity_tail_def)
  moreover have "map_of sample_users (ascii ''steve'') = Some steve_password" by (simp add: sample_users_def ascii_def)
  moreover have "SUCCEEDED (ValidateMessageIntegrityShort demo_hmac steve_password demo_request)"
    using demo_signed Short_signed [of demo_hmac steve_password demo_request] by (simp add: ascii_def)
  ultimately show ?thesis
    using short_term_decision [of demo_request demo_in demo_hmac demo_md5 demo_set] demo_no_port demo_user message_read(3) [OF demo_request_ok demo_reader]
    by simp
qed

text \<open>C39: Long-term credentials never let anyone in: the provider passes the request's nonce where the realm
  is expected, so whatever the request, its signature and the time, the response to it is a failure
  response, which for a binding request carries 401 or 438.\<close>

theorem long_term_never_grants:
  assumes "serving hmac md5 (Some (CLongTermAuth_DoAuthCheck h now)) tas msgIn msgOut r"
  shows "let rd = received True [sent_bytes (response hmac md5 (Some (CLongTermAuth_DoAuthCheck h now)) tas msgIn msgOut)]
    in GetMessageClass rd = StunMsgClassFailureResponse \<and>
       (GetMessageType r = StunMsgTypeBinding \<and> (requested_port r = 0 \<or> \<not> in_fConnectionOriented msgIn) \<longrightarrow>
          GetErrorCode rd \<in> {(S_OK, Some STUN_ERROR_UNAUTHORIZED), (S_OK, Some STUN_ERROR_STALENONCE)})"
proof -
  let ?p = "Some (CLongTermAuth_DoAuthCheck h now)"
  let ?out = "sent_bytes (response hmac md5 ?p tas msgIn msgOut)"
  obtain e where e: "e = STUN_ERROR_STALENONCE \<or> e = STUN_ERROR_UNAUTHORIZED"
    "auth_verdict hmac md5 ?p r = Refused e (nonce_text h now) c_szRealm"
    using long_term_verdict by blast
  obtain e' nonce realm where rep: "reply_to hmac md5 ?p tas msgIn r = ErrorReply e' nonce realm"
    "GetMessageType r = StunMsgTypeBinding \<and> (requested_port r = 0 \<or> \<not> in_fConnectionOriented msgIn) \<longrightarrow> e' = e"
  proof (cases "requested_port r \<noteq> 0 \<and> in_fConnectionOriented msgIn \<or> GetMessageType r \<noteq> StunMsgTypeBinding")
    case True
    then have "reply_to hmac md5 ?p tas msgIn r = ErrorReply STUN_ERROR_BADREQUEST [] []" by (auto simp: reply_to_def)
    then show ?thesis using that True by blast
  next
    case False
    then have "reply_to hmac md5 ?p tas msgIn r = ErrorReply e (nonce_text h now) c_szRealm" using e(2) by (auto simp: reply_to_def)
    then show ?thesis using that by blast
  qed
  let ?tid = "Reader_GetTransactionId r" and ?t = "GetMessageType r" and ?as = "error_attrs (IsMessageLegacyFormat r) e' nonce realm"
  have p: "providers_ok ?p" "wf_transid ?tid" "?t < 0x1000" using assms by (simp_all add: serving_def valid_input_def)
  note s = reply_strings [OF p(1) rep(1)]
  note ok = error_message_ok [OF p(2,3) s(1,2), of "IsMessageLegacyFormat r" e']
  have "concat [?out] = message ?t StunMsgClassFailureResponse ?tid ?as"
    using serving_sent(1) [OF assms] rep(1) by (simp add: reply_bytes_def Let_def)
  note ra = received_message [OF ok this]
  show ?thesis using message_read(2) [OF ok ra] error_reads(1) [OF ok ra reply_code [OF rep(1)] s] rep(2) e(1) by (auto simp: Let_def)
qed

lemma long_term_never_grants_witness:
  "GetMessageClass (received True [sent_bytes (response demo_hmac demo_md5 (Some (CLongTermAuth_DoAuthCheck demo_hmac 1000)) demo_set demo_in demo_out)]) =
   StunMsgClassFailureResponse"
  using long_term_never_grants [OF demo_serving_any [OF providers(3)]] by (simp add: Let_def)

text \<open>No nonce the provider makes is ever valid, at any time and however fresh: it is signed over the
  time followed by a colon and checked over the time alone, so only an HMAC collision between the
  two would let it pass.\<close>

theorem fresh_nonce_refused:
  assumes "length pszNonce = 65"
    "take 20 (hmac c_szPrivateKey (decimal (unat (of_int now :: u32)))) \<noteq> take 20 (hmac c_szPrivateKey (nonce_time now))"
  shows "ValidateNonce hmac now' (CreateNonce hmac now pszNonce) = E_FAIL"
proof -
  have "ValidateNonce hmac now' (CreateNonce hmac now pszNonce) \<noteq> S_OK"
    using nonce_halves [OF CreateNonce_ok(1) [OF assms(1)], of hmac now' now] assms(2) by (simp add: nonce_time_def)
  then show ?thesis by (auto simp: ValidateNonce_def Let_def split: if_splits)
qed

lemma fresh_nonce_refused_witness:
  "ValidateNonce (\<lambda>k d. replicate 20 (last d)) 5 (CreateNonce (\<lambda>k d. replicate 20 (last d)) 5 auth_array) = E_FAIL"
  by (rule fresh_nonce_refused) (simp_all add: nonce_time_def decimal.simps)

end
