(* ===== verification/StunClientTests.thy ===== *)
theory StunClientTests
  imports StunBuilder StunReader
begin

text \<open>
  \<open>src/stuncore/stunclienttests.h\<close>, \<open>stunclienttests.cpp\<close>: the tests of the client, with the
  configuration and the results they share (declared in \<open>stunclientlogic.h\<close>).

  A test object is a record: \<open>ct_class\<close> is its dynamic class, over which the virtual methods
  dispatch, the other fields are those of \<open>CStunClientTestBase\<close> and the flag \<open>_fIsTest3\<close> of its two
  subclasses that have one. \<open>_pConfig\<close> and \<open>_pResults\<close> always point to the members of the client
  that owns the test, so a method takes the configuration and the results as arguments and returns
  the results it leaves. The random values are the parameters of \<open>AddRandomTransactionId\<close>.
  Logging is left out.
\<close>

section \<open>Configuration and results\<close>

record StunClientLogicConfig =
  addrServer :: simple_sockaddr
  fTimeoutIsInstant :: bool
  timeoutSeconds :: u32
  uMaxAttempts :: u32
  fBehaviorTest :: bool
  fFilteringTest :: bool

datatype NatBehavior = UnknownBehavior | DirectMapping | EndpointIndependentMapping | AddressDependentMapping
  | AddressAndPortDependentMapping

datatype NatFiltering = UnknownFiltering | DirectConnectionFiltering | EndpointIndependentFiltering | AddressDependentFiltering
  | AddressAndPortDependentFiltering

record StunClientResults =
  fBindingTestSuccess :: bool
  fIsDirect :: bool
  addrLocal :: simple_sockaddr
  addrMapped :: simple_sockaddr
  fHasOtherAddress :: bool
  addrPA :: simple_sockaddr
  addrAP :: simple_sockaddr
  addrAA :: simple_sockaddr
  fBehaviorTestSuccess :: bool
  behavior :: NatBehavior
  addrMappingAP :: simple_sockaddr
  addrMappingAA :: simple_sockaddr
  fFilteringTestSuccess :: bool
  filtering :: NatFiltering
  fGotTest2Response :: bool
  fGotTest3Response :: bool
  errorBitmask :: u32

definition StunClientResults_Init :: StunClientResults where
  "StunClientResults_Init =
     \<lparr>fBindingTestSuccess = False, fIsDirect = False, addrLocal = CSocketAddress_default, addrMapped = CSocketAddress_default,
      fHasOtherAddress = False, addrPA = CSocketAddress_default, addrAP = CSocketAddress_default, addrAA = CSocketAddress_default,
      fBehaviorTestSuccess = False, behavior = UnknownBehavior, addrMappingAP = CSocketAddress_default,
      addrMappingAA = CSocketAddress_default, fFilteringTestSuccess = False, filtering = UnknownFiltering,
      fGotTest2Response = False, fGotTest3Response = False, errorBitmask = 0\<rparr>"

section \<open>The base class\<close>

datatype TestClass = CBasicBindingTest | CBehaviorTest | CFilteringTest

record IStunClientTest =
  ct_class :: TestClass
  ct_fInit :: bool
  ct_fCompleted :: bool
  ct_transid :: StunTransactionId
  ct_fIsTest3 :: bool

text \<open>The constructors: the base class's, and \<open>_fIsTest3 = false\<close> in the subclasses.\<close>

definition CStunClientTestBase_new :: "TestClass \<Rightarrow> IStunClientTest" where
  "CStunClientTestBase_new c =
     \<lparr>ct_class = c, ct_fInit = False, ct_fCompleted = False, ct_transid = replicate STUN_TRANSACTION_ID_LENGTH 0, ct_fIsTest3 = False\<rparr>"

definition TestBase_Init :: "StunClientLogicConfig option \<Rightarrow> StunClientResults option \<Rightarrow> IStunClientTest \<Rightarrow> hresult \<times> IStunClientTest" where
  "TestBase_Init pConfig pResults t =
     (if pConfig = None then (E_INVALIDARG, t)
      else if pResults = None then (E_INVALIDARG, t)
      else (S_OK, t\<lparr>ct_fInit := True, ct_fCompleted := False, ct_transid := replicate STUN_TRANSACTION_ID_LENGTH 0\<rparr>))"

definition StartBindingRequest :: "(nat \<Rightarrow> u8) \<Rightarrow> bytes \<Rightarrow> IStunClientTest \<Rightarrow> builder \<Rightarrow> hresult \<times> builder \<times> IStunClientTest" where
  "StartBindingRequest rand stack t b =
     (let b = snd (AddBindingRequestHeader b)
      in if IsTransactionIdValid (ct_transid t) then (S_OK, snd (AddTransactionId (ct_transid t) b), t)
         else (let (hr, transid, b) = AddRandomTransactionId rand stack b in (S_OK, b, t\<lparr>ct_transid := transid\<rparr>)))"

definition BasicReaderValidation :: "cbuffer \<Rightarrow> IStunClientTest \<Rightarrow> reader \<Rightarrow> hresult \<times> reader" where
  "BasicReaderValidation spMsg t r =
     (let (readerstate, r) = AddBytes (cb_data spMsg) (cb_size spMsg) r
      in if readerstate \<noteq> BodyValidated then (E_FAIL, r)
         else if Reader_GetTransactionId r \<noteq> ct_transid t then (E_FAIL, r)
         else (S_OK, r))"

definition RunAsTest3 :: "bool \<Rightarrow> IStunClientTest \<Rightarrow> IStunClientTest" where
  "RunAsTest3 fSetAsTest3 t = t\<lparr>ct_fIsTest3 := fSetAsTest3\<rparr>"

text \<open>
  The request every test writes: a builder attached to the caller's buffer, the header and the id,
  a CHANGE-REQUEST, the length. The buffer returned is what the caller's pointer shows.
\<close>

definition write_request ::
  "(nat \<Rightarrow> u8) \<Rightarrow> bytes \<Rightarrow> StunChangeRequestAttribute \<Rightarrow> cbuffer \<Rightarrow> IStunClientTest \<Rightarrow> cbuffer \<times> IStunClientTest" where
  "write_request rand stack change spMsg t =
     (let b = CStunMessageBuilder_new\<lparr>mb_stream := CDataStream_Attach (Some spMsg) True (mb_stream CStunMessageBuilder_new)\<rparr>;
          (hr, b, t) = StartBindingRequest rand stack t b;
          b = snd (AddChangeRequest change b);
          b = snd (FixLengthField b)
      in (the (attached_buffer (mb_stream b)), t))"

text \<open>The mapped address of a response: the XOR form, or else the plain one.\<close>

definition response_mapped :: "reader \<Rightarrow> hresult \<times> simple_sockaddr" where
  "response_mapped r =
     (let (hr, mapped) = Reader_GetXorMappedAddress CSocketAddress_default r
      in if FAILED hr then Reader_GetMappedAddress mapped r else (hr, mapped))"

section \<open>The basic binding test\<close>

definition BasicBinding_IsReadyToRun :: "IStunClientTest \<Rightarrow> bool" where
  "BasicBinding_IsReadyToRun t \<longleftrightarrow> ct_fCompleted t = False"

definition BasicBinding_GetMessage ::
  "(nat \<Rightarrow> u8) \<Rightarrow> bytes \<Rightarrow> StunClientLogicConfig \<Rightarrow> cbuffer \<Rightarrow> IStunClientTest \<Rightarrow> hresult \<times> cbuffer \<times> simple_sockaddr \<times> IStunClientTest" where
  "BasicBinding_GetMessage rand stack config spMsg t =
     (let (spMsg, t) = write_request rand stack \<lparr>fChangeIP = False, fChangePort = False\<rparr> spMsg t
      in (S_OK, spMsg, addrServer config, t))"

definition BasicBinding_ProcessResponse ::
  "StunClientLogicConfig \<Rightarrow> cbuffer \<Rightarrow> simple_sockaddr \<Rightarrow> simple_sockaddr \<Rightarrow> IStunClientTest \<times> StunClientResults \<Rightarrow>
   hresult \<times> IStunClientTest \<times> StunClientResults" where
  "BasicBinding_ProcessResponse config spMsg addrRemote local =
     (\<lambda>(t, res).
       (let (hr, r) = BasicReaderValidation spMsg t CStunMessageReader_new
        in if FAILED hr then (hr, t, res)
           else
             (let (hr, mapped) = response_mapped r
              in if FAILED hr then (hr, t, res)
                 else
                   (let (hrOther, other) = GetOtherAddress CSocketAddress_default r;
                        hasOther = SUCCEEDED hrOther;
                        t = t\<lparr>ct_fCompleted := True\<rparr>;
                        res = res\<lparr>fBindingTestSuccess := True, fIsDirect := CSocketAddress_IsSameIP_and_Port local mapped,
                                  addrLocal := local, addrMapped := mapped, fHasOtherAddress := hasOther\<rparr>;
                        res = (if hasOther
                               then res\<lparr>addrAA := other,
                                        addrPA := CSocketAddress_SetPort (CSocketAddress_GetPort other) (addrServer config),
                                        addrAP := CSocketAddress_SetPort (CSocketAddress_GetPort (addrServer config)) other\<rparr>
                               else res)
                    in (hr, t, res)))))"

definition BasicBinding_NotifyTimeout :: "IStunClientTest \<times> StunClientResults \<Rightarrow> IStunClientTest \<times> StunClientResults" where
  "BasicBinding_NotifyTimeout = (\<lambda>(t, res). (t\<lparr>ct_fCompleted := True\<rparr>, res\<lparr>fBindingTestSuccess := False\<rparr>))"

section \<open>The mapping behaviour tests\<close>

definition Behavior_PreRunCheck :: "IStunClientTest \<times> StunClientResults \<Rightarrow> IStunClientTest \<times> StunClientResults" where
  "Behavior_PreRunCheck =
     (\<lambda>(t, res).
       if ct_fIsTest3 t = False \<and> fBindingTestSuccess res \<and> fIsDirect res
       then (t\<lparr>ct_fCompleted := True\<rparr>, res\<lparr>behavior := DirectMapping, fBehaviorTestSuccess := True\<rparr>)
       else (t, res))"

definition Behavior_IsReadyToRun :: "IStunClientTest \<Rightarrow> StunClientResults \<Rightarrow> bool" where
  "Behavior_IsReadyToRun t res \<longleftrightarrow>
     (let fRet = (ct_fCompleted t = False \<and> fBindingTestSuccess res \<and> fHasOtherAddress res \<and> fBehaviorTestSuccess res = False)
      in if ct_fIsTest3 t then fRet \<and> CSocketAddress_IsIPAddressZero (addrMappingAP res) = False else fRet)"

definition Behavior_GetMessage ::
  "(nat \<Rightarrow> u8) \<Rightarrow> bytes \<Rightarrow> StunClientResults \<Rightarrow> cbuffer \<Rightarrow> IStunClientTest \<Rightarrow> hresult \<times> cbuffer \<times> simple_sockaddr \<times> IStunClientTest" where
  "Behavior_GetMessage rand stack res spMsg t =
     (let (spMsg, t) = write_request rand stack \<lparr>fChangeIP = False, fChangePort = False\<rparr> spMsg t
      in (S_OK, spMsg, if ct_fIsTest3 t = False then addrAP res else addrAA res, t))"

definition Behavior_ProcessResponse ::
  "cbuffer \<Rightarrow> simple_sockaddr \<Rightarrow> simple_sockaddr \<Rightarrow> IStunClientTest \<times> StunClientResults \<Rightarrow> hresult \<times> IStunClientTest \<times> StunClientResults" where
  "Behavior_ProcessResponse spMsg addrRemote local =
     (\<lambda>(t, res).
       (let (hr, r) = BasicReaderValidation spMsg t CStunMessageReader_new
        in if FAILED hr then (hr, t, res)
           else
             (let (hr, mapped) = response_mapped r
              in if FAILED hr then (hr, t, res)
                 else
                   (let t = t\<lparr>ct_fCompleted := True\<rparr>
                    in if ct_fIsTest3 t
                       then (let res = res\<lparr>addrMappingAA := mapped, fBehaviorTestSuccess := True\<rparr>
                             in (hr, t, res\<lparr>behavior := (if CSocketAddress_IsSameIP_and_Port mapped (addrMappingAP res)
                                                         then AddressDependentMapping else AddressAndPortDependentMapping)\<rparr>))
                       else (let res = res\<lparr>addrMappingAP := mapped\<rparr>
                             in (hr, t, if CSocketAddress_IsSameIP_and_Port mapped (addrMapped res)
                                        then res\<lparr>fBehaviorTestSuccess := True, behavior := EndpointIndependentMapping\<rparr>
                                        else res))))))"

definition Behavior_NotifyTimeout :: "IStunClientTest \<times> StunClientResults \<Rightarrow> IStunClientTest \<times> StunClientResults" where
  "Behavior_NotifyTimeout = (\<lambda>(t, res). (t\<lparr>ct_fCompleted := True\<rparr>, res\<lparr>fBehaviorTestSuccess := False\<rparr>))"

section \<open>The filtering tests\<close>

definition Filtering_PreRunCheck :: "IStunClientTest \<times> StunClientResults \<Rightarrow> IStunClientTest \<times> StunClientResults" where
  "Filtering_PreRunCheck =
     (\<lambda>(t, res).
       if ct_fIsTest3 t = False \<and> fBindingTestSuccess res \<and> fIsDirect res
       then (t\<lparr>ct_fCompleted := True\<rparr>, res\<lparr>filtering := EndpointIndependentFiltering, fFilteringTestSuccess := True\<rparr>)
       else (t, res))"

definition Filtering_IsReadyToRun :: "IStunClientTest \<Rightarrow> StunClientResults \<Rightarrow> bool" where
  "Filtering_IsReadyToRun t res \<longleftrightarrow>
     ct_fCompleted t = False \<and> fBindingTestSuccess res \<and> fHasOtherAddress res \<and> fFilteringTestSuccess res = False \<and>
     fGotTest2Response res = False"

definition Filtering_GetMessage ::
  "(nat \<Rightarrow> u8) \<Rightarrow> bytes \<Rightarrow> StunClientLogicConfig \<Rightarrow> cbuffer \<Rightarrow> IStunClientTest \<Rightarrow> hresult \<times> cbuffer \<times> simple_sockaddr \<times> IStunClientTest" where
  "Filtering_GetMessage rand stack config spMsg t =
     (let (spMsg, t) = write_request rand stack
            (if ct_fIsTest3 t = False then \<lparr>fChangeIP = True, fChangePort = True\<rparr> else \<lparr>fChangeIP = False, fChangePort = True\<rparr>) spMsg t
      in (S_OK, spMsg, addrServer config, t))"

definition Filtering_ProcessResponse ::
  "cbuffer \<Rightarrow> simple_sockaddr \<Rightarrow> simple_sockaddr \<Rightarrow> IStunClientTest \<times> StunClientResults \<Rightarrow> hresult \<times> IStunClientTest \<times> StunClientResults" where
  "Filtering_ProcessResponse spMsg addrRemote local =
     (\<lambda>(t, res).
       (let (hr, r) = BasicReaderValidation spMsg t CStunMessageReader_new
        in if FAILED hr then (hr, t, res)
           else
             (let t = t\<lparr>ct_fCompleted := True\<rparr>
              in (hr, t, if ct_fIsTest3 t
                         then res\<lparr>fGotTest3Response := True, fFilteringTestSuccess := True, filtering := AddressDependentFiltering\<rparr>
                         else res\<lparr>fGotTest2Response := True, fFilteringTestSuccess := True,
                                  filtering := EndpointIndependentFiltering\<rparr>))))"

definition Filtering_NotifyTimeout :: "IStunClientTest \<times> StunClientResults \<Rightarrow> IStunClientTest \<times> StunClientResults" where
  "Filtering_NotifyTimeout =
     (\<lambda>(t, res).
       (t\<lparr>ct_fCompleted := True\<rparr>,
        if ct_fIsTest3 t then res\<lparr>fFilteringTestSuccess := True, filtering := AddressAndPortDependentFiltering\<rparr> else res))"

section \<open>The virtual methods\<close>

text \<open>The base class's \<open>PreRunCheck\<close>, which the basic binding test inherits, does nothing.\<close>

definition Test_PreRunCheck :: "IStunClientTest \<times> StunClientResults \<Rightarrow> IStunClientTest \<times> StunClientResults" where
  "Test_PreRunCheck x =
     (case ct_class (fst x) of CBasicBindingTest \<Rightarrow> x | CBehaviorTest \<Rightarrow> Behavior_PreRunCheck x | CFilteringTest \<Rightarrow> Filtering_PreRunCheck x)"

definition Test_IsReadyToRun :: "IStunClientTest \<Rightarrow> StunClientResults \<Rightarrow> bool" where
  "Test_IsReadyToRun t res =
     (case ct_class t of CBasicBindingTest \<Rightarrow> BasicBinding_IsReadyToRun t | CBehaviorTest \<Rightarrow> Behavior_IsReadyToRun t res
      | CFilteringTest \<Rightarrow> Filtering_IsReadyToRun t res)"

definition Test_GetMessage ::
  "(nat \<Rightarrow> u8) \<Rightarrow> bytes \<Rightarrow> StunClientLogicConfig \<Rightarrow> StunClientResults \<Rightarrow> cbuffer \<Rightarrow> IStunClientTest \<Rightarrow>
   hresult \<times> cbuffer \<times> simple_sockaddr \<times> IStunClientTest" where
  "Test_GetMessage rand stack config res spMsg t =
     (case ct_class t of CBasicBindingTest \<Rightarrow> BasicBinding_GetMessage rand stack config spMsg t
      | CBehaviorTest \<Rightarrow> Behavior_GetMessage rand stack res spMsg t
      | CFilteringTest \<Rightarrow> Filtering_GetMessage rand stack config spMsg t)"

definition Test_ProcessResponse ::
  "StunClientLogicConfig \<Rightarrow> cbuffer \<Rightarrow> simple_sockaddr \<Rightarrow> simple_sockaddr \<Rightarrow> IStunClientTest \<times> StunClientResults \<Rightarrow>
   hresult \<times> IStunClientTest \<times> StunClientResults" where
  "Test_ProcessResponse config spMsg addrRemote local x =
     (case ct_class (fst x) of CBasicBindingTest \<Rightarrow> BasicBinding_ProcessResponse config spMsg addrRemote local x
      | CBehaviorTest \<Rightarrow> Behavior_ProcessResponse spMsg addrRemote local x
      | CFilteringTest \<Rightarrow> Filtering_ProcessResponse spMsg addrRemote local x)"

definition Test_NotifyTimeout :: "IStunClientTest \<times> StunClientResults \<Rightarrow> IStunClientTest \<times> StunClientResults" where
  "Test_NotifyTimeout x =
     (case ct_class (fst x) of CBasicBindingTest \<Rightarrow> BasicBinding_NotifyTimeout x | CBehaviorTest \<Rightarrow> Behavior_NotifyTimeout x
      | CFilteringTest \<Rightarrow> Filtering_NotifyTimeout x)"

end
