(* ===== verification/StunClientLogic.thy ===== *)
theory StunClientLogic
  imports StunClientTests
begin

text \<open>
  \<open>src/stuncore/stunclientlogic.h\<close>, \<open>stunclientlogic.cpp\<close>: the client's state machine. It runs its
  tests in order; the transport asks it for the next message to send and hands it the responses.

  \<open>_testlist\<close> points to the members \<open>_test1\<close> to \<open>_testFiltering3\<close>, and after \<open>Initialize\<close> a member is
  reached only through the list, so the list holds the test objects themselves. Times and counters
  are 32-bit words.
\<close>

definition E_STUNCLIENT_STILL_WAITING :: hresult where "E_STUNCLIENT_STILL_WAITING = 0x81010001"
definition E_STUNCLIENT_RESULTS_READY :: hresult where "E_STUNCLIENT_RESULTS_READY = 0x81010002"
definition E_STUNCLIENT_TIMEOUT :: hresult where "E_STUNCLIENT_TIMEOUT = 0x81010003"
definition E_STUNCLIENT_BUFFER_TOO_SMALL :: hresult where "E_STUNCLIENT_BUFFER_TOO_SMALL = 0x81010004"

record CStunClientLogic =
  lg_config :: StunClientLogicConfig
  lg_results :: StunClientResults
  lg_fInitialized :: bool
  lg_timeLastMessageSent :: u32
  lg_sendCount :: u32
  lg_fPreCheckRunOnTest :: bool
  lg_testlist :: "IStunClientTest list"
  lg_nTestIndex :: nat

text \<open>The constructor leaves \<open>_config\<close> and \<open>_fPreCheckRunOnTest\<close> as the memory was.\<close>

definition CStunClientLogic_new :: "StunClientLogicConfig \<Rightarrow> bool \<Rightarrow> CStunClientLogic" where
  "CStunClientLogic_new config precheck =
     \<lparr>lg_config = config, lg_results = StunClientResults_Init, lg_fInitialized = False, lg_timeLastMessageSent = 0, lg_sendCount = 0,
      lg_fPreCheckRunOnTest = precheck, lg_testlist = [], lg_nTestIndex = 0\<rparr>"

definition CStunClientLogic_Initialize :: "StunClientLogicConfig \<Rightarrow> CStunClientLogic \<Rightarrow> hresult \<times> CStunClientLogic" where
  "CStunClientLogic_Initialize config lg =
     (if lg_fInitialized lg then (E_UNEXPECTED, lg)
      else if CSocketAddress_IsIPAddressZero (addrServer config) then (E_INVALIDARG, lg)
      else if CSocketAddress_GetPort (addrServer config) = 0 then (E_INVALIDARG, lg)
      else
        (let config = (if fTimeoutIsInstant config then config\<lparr>timeoutSeconds := 0\<rparr>
                       else if timeoutSeconds config = 0 then config\<lparr>timeoutSeconds := 3\<rparr> else config);
             config = (if uMaxAttempts config \<le> 0 then config\<lparr>uMaxAttempts := 2\<rparr> else config);
             member = (\<lambda>c. snd (TestBase_Init (Some config) (Some (lg_results lg)) (CStunClientTestBase_new c)));
             testlist = [member CBasicBindingTest];
             testlist = (if fBehaviorTest config
                         then testlist @ [member CBehaviorTest, RunAsTest3 True (member CBehaviorTest)] else testlist);
             testlist = (if fFilteringTest config
                         then testlist @ [member CFilteringTest, RunAsTest3 True (member CFilteringTest)] else testlist)
         in (S_OK, lg\<lparr>lg_config := config, lg_fInitialized := True, lg_nTestIndex := 0, lg_testlist := testlist,
                      lg_fPreCheckRunOnTest := False, lg_timeLastMessageSent := 0\<rparr>)))"

section \<open>The current test\<close>

definition current_test :: "CStunClientLogic \<Rightarrow> IStunClientTest" where
  "current_test lg = lg_testlist lg ! lg_nTestIndex lg"

text \<open>A method of the current test that writes the test and the results.\<close>

definition on_current ::
  "(IStunClientTest \<times> StunClientResults \<Rightarrow> IStunClientTest \<times> StunClientResults) \<Rightarrow> CStunClientLogic \<Rightarrow> CStunClientLogic" where
  "on_current f lg =
     (let (t, res) = f (current_test lg, lg_results lg)
      in lg\<lparr>lg_testlist := (lg_testlist lg)[lg_nTestIndex lg := t], lg_results := res\<rparr>)"

definition early_check :: "CStunClientLogic \<Rightarrow> CStunClientLogic" where
  "early_check lg =
     (if lg_fPreCheckRunOnTest lg = False then (on_current Test_PreRunCheck lg)\<lparr>lg_fPreCheckRunOnTest := True\<rparr> else lg)"

definition test_over :: "CStunClientLogic \<Rightarrow> bool" where
  "test_over lg \<longleftrightarrow> ct_fCompleted (current_test lg) \<or> Test_IsReadyToRun (current_test lg) (lg_results lg) = False"

definition next_test :: "CStunClientLogic \<Rightarrow> CStunClientLogic" where
  "next_test lg = lg\<lparr>lg_nTestIndex := lg_nTestIndex lg + 1, lg_sendCount := 0, lg_fPreCheckRunOnTest := False\<rparr>"

definition send_message ::
  "(nat \<Rightarrow> u8) \<Rightarrow> bytes \<Rightarrow> u32 \<Rightarrow> cbuffer \<Rightarrow> simple_sockaddr \<Rightarrow> CStunClientLogic \<Rightarrow> hresult \<times> cbuffer \<times> simple_sockaddr \<times> CStunClientLogic" where
  "send_message rand stack now spMsg addrDest lg =
     (let (hr, spMsg, addrDest, t) = Test_GetMessage rand stack (lg_config lg) (lg_results lg) spMsg (current_test lg);
          lg = lg\<lparr>lg_testlist := (lg_testlist lg)[lg_nTestIndex lg := t]\<rparr>
      in if FAILED hr then (hr, spMsg, addrDest, lg)
         else (S_OK, spMsg, addrDest, lg\<lparr>lg_sendCount := lg_sendCount lg + 1, lg_timeLastMessageSent := now\<rparr>))"

section \<open>The next message\<close>

text \<open>One round of the loop: \<open>Inl\<close> goes round again, \<open>Inr\<close> leaves it.\<close>

definition waiting :: "u32 \<Rightarrow> CStunClientLogic \<Rightarrow> bool" where
  "waiting now lg \<longleftrightarrow> (now - lg_timeLastMessageSent lg) div 1000 < timeoutSeconds (lg_config lg) \<and> lg_sendCount lg \<noteq> 0"

definition GetNextMessage_round ::
  "(nat \<Rightarrow> u8) \<Rightarrow> bytes \<Rightarrow> u32 \<Rightarrow> cbuffer \<Rightarrow> simple_sockaddr \<Rightarrow> CStunClientLogic \<Rightarrow>
   CStunClientLogic + (hresult \<times> cbuffer \<times> simple_sockaddr \<times> CStunClientLogic)" where
  "GetNextMessage_round rand stack now spMsg addrDest lg =
     (if length (lg_testlist lg) \<le> lg_nTestIndex lg then Inr (E_STUNCLIENT_RESULTS_READY, spMsg, addrDest, lg)
      else
        (let lg = early_check lg
         in if test_over lg then Inl (next_test lg)
            else if waiting now lg then Inr (E_STUNCLIENT_STILL_WAITING, spMsg, addrDest, lg)
            else if uMaxAttempts (lg_config lg) \<le> lg_sendCount lg then Inl (on_current Test_NotifyTimeout lg)
            else Inr (send_message rand stack now spMsg addrDest lg)))"

text \<open>
  The loop ends: a round either moves to the next test or completes the current one, which the next
  round leaves behind.
\<close>

definition rounds_left :: "CStunClientLogic \<Rightarrow> nat" where
  "rounds_left lg =
     2 * (length (lg_testlist lg) - lg_nTestIndex lg) +
     (if lg_nTestIndex lg < length (lg_testlist lg) \<and> ct_fCompleted (current_test lg) then 0 else 1)"

lemma Test_NotifyTimeout_completes: "ct_fCompleted (fst (Test_NotifyTimeout x))"
  by (cases x) (simp add: Test_NotifyTimeout_def BasicBinding_NotifyTimeout_def Behavior_NotifyTimeout_def Filtering_NotifyTimeout_def
      split: TestClass.split)

lemma on_current_fields [simp]:
  "length (lg_testlist (on_current f lg)) = length (lg_testlist lg)" "lg_nTestIndex (on_current f lg) = lg_nTestIndex lg"
  "lg_config (on_current f lg) = lg_config lg" "lg_sendCount (on_current f lg) = lg_sendCount lg"
  "lg_timeLastMessageSent (on_current f lg) = lg_timeLastMessageSent lg" "lg_fInitialized (on_current f lg) = lg_fInitialized lg"
  "lg_fPreCheckRunOnTest (on_current f lg) = lg_fPreCheckRunOnTest lg"
  "lg_results (on_current f lg) = snd (f (current_test lg, lg_results lg))"
  by (simp_all add: on_current_def split_beta)

lemma on_current_test [simp]:
  "lg_nTestIndex lg < length (lg_testlist lg) \<Longrightarrow> current_test (on_current f lg) = fst (f (current_test lg, lg_results lg))"
  by (simp add: on_current_def split_beta current_test_def)

lemma early_check_fields [simp]:
  "length (lg_testlist (early_check lg)) = length (lg_testlist lg)" "lg_nTestIndex (early_check lg) = lg_nTestIndex lg"
  "lg_config (early_check lg) = lg_config lg" "lg_sendCount (early_check lg) = lg_sendCount lg"
  "lg_timeLastMessageSent (early_check lg) = lg_timeLastMessageSent lg" "lg_fInitialized (early_check lg) = lg_fInitialized lg"
  "lg_fPreCheckRunOnTest (early_check lg)"
  by (simp_all add: early_check_def)

lemma Test_PreRunCheck_keeps: "ct_fCompleted t \<Longrightarrow> ct_fCompleted (fst (Test_PreRunCheck (t, res)))"
  by (simp add: Test_PreRunCheck_def Behavior_PreRunCheck_def Filtering_PreRunCheck_def split: TestClass.split)

lemma current_test_update [simp]: "current_test (lg\<lparr>lg_fPreCheckRunOnTest := b\<rparr>) = current_test lg"
  by (simp add: current_test_def)

lemma early_check_completed:
  "\<not> length (lg_testlist lg) \<le> lg_nTestIndex lg \<Longrightarrow> ct_fCompleted (current_test lg) \<Longrightarrow> ct_fCompleted (current_test (early_check lg))"
  by (simp add: early_check_def Test_PreRunCheck_keeps)

lemma GetNextMessage_round_decreases:
  "GetNextMessage_round rand stack now spMsg addrDest lg = Inl lg' \<Longrightarrow> rounds_left lg' < rounds_left lg"
  by (auto simp: GetNextMessage_round_def Let_def rounds_left_def next_test_def test_over_def Test_NotifyTimeout_completes
      dest: early_check_completed split: if_splits)

function GetNextMessage_loop ::
  "(nat \<Rightarrow> u8) \<Rightarrow> bytes \<Rightarrow> u32 \<Rightarrow> cbuffer \<Rightarrow> simple_sockaddr \<Rightarrow> CStunClientLogic \<Rightarrow> hresult \<times> cbuffer \<times> simple_sockaddr \<times> CStunClientLogic" where
  "GetNextMessage_loop rand stack now spMsg addrDest lg =
     (case GetNextMessage_round rand stack now spMsg addrDest lg of
        Inl lg' \<Rightarrow> GetNextMessage_loop rand stack now spMsg addrDest lg'
      | Inr result \<Rightarrow> result)"
  by auto

termination
  by (relation "measure (\<lambda>(_, _, _, _, _, lg). rounds_left lg)") (auto dest: GetNextMessage_round_decreases)

declare GetNextMessage_loop.simps [simp del]

definition GetNextMessage ::
  "(nat \<Rightarrow> u8) \<Rightarrow> bytes \<Rightarrow> cbuffer \<Rightarrow> simple_sockaddr option \<Rightarrow> u32 \<Rightarrow> CStunClientLogic \<Rightarrow>
   hresult \<times> cbuffer \<times> simple_sockaddr option \<times> CStunClientLogic" where
  "GetNextMessage rand stack spMsg pAddrDest timeCurrentMilliseconds lg =
     (if lg_fInitialized lg = False then (E_FAIL, spMsg, pAddrDest, lg)
      else if cb_allocatedSize spMsg = 0 then (E_INVALIDARG, spMsg, pAddrDest, lg)
      else
        (case pAddrDest of
           None \<Rightarrow> (E_INVALIDARG, spMsg, pAddrDest, lg)
         | Some addrDest \<Rightarrow>
             if cb_allocatedSize spMsg < MAX_STUN_MESSAGE_SIZE then (E_INVALIDARG, spMsg, pAddrDest, lg)
             else (let (hr, spMsg, addrDest, lg) = GetNextMessage_loop rand stack timeCurrentMilliseconds spMsg addrDest lg
                   in (hr, spMsg, Some addrDest, lg))))"

section \<open>Responses and results\<close>

definition Logic_ProcessResponse :: "cbuffer \<Rightarrow> simple_sockaddr \<Rightarrow> simple_sockaddr \<Rightarrow> CStunClientLogic \<Rightarrow> hresult \<times> CStunClientLogic" where
  "Logic_ProcessResponse spMsg addrRemote local lg =
     (if lg_fInitialized lg = False then (E_FAIL, lg)
      else if cb_size spMsg = 0 then (E_INVALIDARG, lg)
      else if length (lg_testlist lg) \<le> lg_nTestIndex lg then (E_UNEXPECTED, lg)
      else if ct_fCompleted (current_test lg) then (E_UNEXPECTED, lg)
      else (fst (Test_ProcessResponse (lg_config lg) spMsg addrRemote local (current_test lg, lg_results lg)),
            on_current (\<lambda>x. snd (Test_ProcessResponse (lg_config lg) spMsg addrRemote local x)) lg))"

definition GetResults :: "StunClientResults option \<Rightarrow> CStunClientLogic \<Rightarrow> hresult \<times> StunClientResults option" where
  "GetResults pResults lg = (if pResults = None then (E_INVALIDARG, None) else (S_OK, Some (lg_results lg)))"

end
