(* ===== verification/ClientContract.thy ===== *)
theory ClientContract
  imports StunClientLogic MessageVerify
begin

text \<open>
  What the client relies on of its tests, as the locale \<open>stun_client_test\<close> over the virtual methods
  of \<open>IStunClientTest\<close>, with its interpretations on the three test classes and on the virtual
  dispatch; and the values the tests write and read, as wire images.
\<close>

section \<open>Requests\<close>

text \<open>The transaction id a test sends: its own once it has one, a fresh one the first time.\<close>

definition session_id :: "(nat \<Rightarrow> u8) \<Rightarrow> bytes \<Rightarrow> IStunClientTest \<Rightarrow> StunTransactionId" where
  "session_id rand stack t = (if IsTransactionIdValid (ct_transid t) then ct_transid t else RandomTransactionId rand stack)"

definition request_image :: "StunTransactionId \<Rightarrow> StunChangeRequestAttribute \<Rightarrow> bytes" where
  "request_image tid change =
     message StunMsgTypeBinding StunMsgClassRequest tid [(STUN_ATTRIBUTE_CHANGEREQUEST, change_request_value change)]"

lemma random_id_fold:
  "\<forall>x \<in> set is. 4 \<le> x \<Longrightarrow> length (fold (\<lambda>x tid. tid[x := f x]) is tid) = length tid \<and>
     take 4 (fold (\<lambda>x tid. tid[x := f x]) is tid) = take 4 tid"
  by (induction "is" arbitrary: tid) auto

lemma cookie_bytes: "be32 STUN_COOKIE = [0x21, 0x12, 0xA4, 0x42]"
  by code_simp

lemma random_id:
  assumes "length stack = 16"
  shows "wf_transid (RandomTransactionId rand stack)" "take 4 (RandomTransactionId rand stack) = be32 STUN_COOKIE"
    "IsTransactionIdValid (RandomTransactionId rand stack)"
proof -
  have "overwrite 0 (mem32 (htonl STUN_COOKIE)) stack = be32 STUN_COOKIE @ drop 4 stack" by (simp add: overwrite_def)
  then have r: "length (RandomTransactionId rand stack) = 16 \<and> take 4 (RandomTransactionId rand stack) = be32 STUN_COOKIE"
    using random_id_fold [of "[4 ..< STUN_TRANSACTION_ID_LENGTH - 4]" rand "be32 STUN_COOKIE @ drop 4 stack"] assms
    by (simp add: RandomTransactionId_def)
  then show "wf_transid (RandomTransactionId rand stack)" "take 4 (RandomTransactionId rand stack) = be32 STUN_COOKIE" by (simp_all add: wf_transid_def)
  have "hd (take 4 (replicate 16 (0 :: u8))) = 0" "hd (be32 STUN_COOKIE) = 0x21" by (simp_all add: cookie_bytes)
  then have "hd (take 4 (replicate 16 (0 :: u8))) \<noteq> hd (be32 STUN_COOKIE)" by simp
  then have "take 4 (replicate 16 (0 :: u8)) \<noteq> be32 STUN_COOKIE" by metis
  with r show "IsTransactionIdValid (RandomTransactionId rand stack)" by (auto simp: IsTransactionIdValid_def stun_consts)
qed

lemma session_id_ok:
  assumes "length stack = 16" "wf_transid (ct_transid t)"
  shows "wf_transid (session_id rand stack t)" "IsTransactionIdValid (session_id rand stack t)"
  using assms random_id by (simp_all add: session_id_def)

text \<open>The request lies in the caller's own buffer.\<close>

lemma write_request_ok:
  assumes buf: "wf_buffer buf" "800 \<le> cb_allocatedSize buf" and id: "length stack = 16" "wf_transid (ct_transid t)"
  obtains buf' where "write_request rand stack change buf t = (buf', t\<lparr>ct_transid := session_id rand stack t\<rparr>)"
    "wf_buffer buf'" "cb_allocatedSize buf' = cb_allocatedSize buf" "buffer_bytes buf' = request_image (session_id rand stack t) change"
proof -
  let ?s0 = "CDataStream_Attach (Some buf) True (mb_stream CStunMessageBuilder_new)"
  let ?b0 = "CStunMessageBuilder_new\<lparr>mb_stream := ?s0\<rparr>"
  let ?tid = "session_id rand stack t"
  let ?b1 = "snd (AddTransactionId ?tid (snd (AddHeader StunMsgTypeBinding StunMsgClassRequest ?b0)))"
  let ?b3 = "snd (FixLengthField (snd (AddChangeRequest change ?b1)))"
  let ?as = "[(STUN_ATTRIBUTE_CHANGEREQUEST, change_request_value change)]"
  note at = Attach_for_writing [OF buf(1), of "mb_stream CStunMessageBuilder_new"]
  have s0: "at_end ?s0" "stream_bytes ?s0 = []" "\<not> ds_fNoGrow ?s0" "CDataStream_allocated ?s0 = cb_allocatedSize buf" "ds_left ?s0 = None"
    using at by (simp_all add: at_end_def)
  have "200 \<le> CDataStream_allocated ?s0 \<or> CDataStream_allocated ?s0 = 0" using s0(4) buf(2) by simp
  from built_start(3) [OF s0(1-3) this, of ?b0 ?tid StunMsgTypeBinding StunMsgClassRequest]
  have "built ?s0 False StunMsgTypeBinding StunMsgClassRequest ?tid [] ?b1" using session_id_ok(1) [OF id] by (simp add: CStunMessageBuilder_new_def)
  from built_step(2) [OF this AddChangeRequest_writes]
  have b2: "built ?s0 False StunMsgTypeBinding StunMsgClassRequest ?tid ?as (snd (AddChangeRequest change ?b1))"
    by (simp add: change_request_value_def pad4_def size_range_def padded_def)
  have len: "20 + length (attrs_bytes ?as) = 28" by (simp add: length_attr_bytes change_request_value_def pad4_def)
  note b3 = built_FixLengthField(2) [OF b2]
  have sealed: "sealed ?s0 False StunMsgTypeBinding StunMsgClassRequest ?tid ?as ?b3" using b3 len by (simp add: size_range_def)
  have "same_store ?s0 (mb_stream ?b3)" using built_store [OF sealed_built [OF sealed]] len s0(4) buf(2) by simp
  then have store: "ds_left (mb_stream ?b3) = None" "CDataStream_allocated (mb_stream ?b3) = cb_allocatedSize buf"
    using s0(4,5) by (simp_all add: same_store_def)
  obtain buf' where buf': "ds_buffer (mb_stream ?b3) = Some buf'" "buffer_bytes buf' = request_image ?tid change" "wf_buffer buf'"
    using sealed_buffer [OF sealed] unfolding request_image_def by metis
  have "write_request rand stack change buf t = (the (attached_buffer (mb_stream ?b3)), t\<lparr>ct_transid := ?tid\<rparr>)"
    by (simp add: write_request_def StartBindingRequest_def AddBindingRequestHeader_def session_id_def AddRandomTransactionId_def split_beta Let_def)
  then show thesis using that [of buf'] buf' store by (simp add: attached_buffer_def CDataStream_allocated_def)
qed

section \<open>Responses\<close>

definition response_reader :: "cbuffer \<Rightarrow> reader" where
  "response_reader spMsg = received True [buffer_bytes spMsg]"

definition response_valid :: "cbuffer \<Rightarrow> IStunClientTest \<Rightarrow> bool" where
  "response_valid spMsg t \<longleftrightarrow> Reader_GetState (response_reader spMsg) = BodyValidated \<and>
     Reader_GetTransactionId (response_reader spMsg) = ct_transid t"

lemma BasicReaderValidation_eq:
  assumes "wf_buffer buf" "cb_allocatedSize buf < size_range"
  shows "BasicReaderValidation buf t CStunMessageReader_new = (if response_valid buf t then S_OK else E_FAIL, response_reader buf)"
proof -
  obtain d where d: "cb_data buf = Some d" "length d = cb_allocatedSize buf" "cb_size buf \<le> length d" using assms(1) by (auto simp: wf_buffer_def)
  have b: "buffer_bytes buf = take (cb_size buf) d" using d by (simp add: buffer_bytes_def CBuffer_GetData_def)
  let ?n = "CStunMessageReader_new"
  have new: "SetAllowLegacyFormat True ?n = ?n" "fresh_reader True = ?n"
    by (simp_all add: SetAllowLegacyFormat_def fresh_reader_def CStunMessageReader_new_def Reader_Reset_def)
  have a: "AddBytes (cb_data buf) (cb_size buf) ?n = AddBytes (Some (buffer_bytes buf)) (length (buffer_bytes buf)) ?n"
    using d by (simp add: AddBytes_take [of d] b)
  have "length (buffer_bytes buf) < size_range" using d assms(2) by (simp add: b)
  with AddBytes_ok [OF fresh_after [of True], of "buffer_bytes buf"]
  have "fst (AddBytes (Some (buffer_bytes buf)) (length (buffer_bytes buf)) ?n) = rd_state (response_reader buf)"
    by (simp add: new reader_after_state response_reader_def received_def)
  then show ?thesis
    by (simp add: BasicReaderValidation_def a split_beta response_valid_def Reader_GetState_def)
      (simp add: response_reader_def received_def new)
qed

section \<open>The contract of a test\<close>

locale stun_client_test =
  fixes kind :: "IStunClientTest \<Rightarrow> bool"
    and pre :: "IStunClientTest \<times> StunClientResults \<Rightarrow> IStunClientTest \<times> StunClientResults"
    and ready :: "IStunClientTest \<Rightarrow> StunClientResults \<Rightarrow> bool"
    and msg :: "(nat \<Rightarrow> u8) \<Rightarrow> bytes \<Rightarrow> StunClientLogicConfig \<Rightarrow> StunClientResults \<Rightarrow> cbuffer \<Rightarrow> IStunClientTest \<Rightarrow>
      hresult \<times> cbuffer \<times> simple_sockaddr \<times> IStunClientTest"
    and resp :: "StunClientLogicConfig \<Rightarrow> cbuffer \<Rightarrow> simple_sockaddr \<Rightarrow> simple_sockaddr \<Rightarrow> IStunClientTest \<times> StunClientResults \<Rightarrow>
      hresult \<times> IStunClientTest \<times> StunClientResults"
    and expire :: "IStunClientTest \<times> StunClientResults \<Rightarrow> IStunClientTest \<times> StunClientResults"
    and change :: "IStunClientTest \<Rightarrow> StunChangeRequestAttribute"
    and dest :: "StunClientLogicConfig \<Rightarrow> StunClientResults \<Rightarrow> IStunClientTest \<Rightarrow> simple_sockaddr"
  assumes pre_test: "kind t \<Longrightarrow> fst (pre (t, res)) = t \<or> fst (pre (t, res)) = t\<lparr>ct_fCompleted := True\<rparr>"
    and ready_pending: "kind t \<Longrightarrow> ready t res \<Longrightarrow> \<not> ct_fCompleted t"
    and expire_over: "kind t \<Longrightarrow> fst (expire (t, res)) = t\<lparr>ct_fCompleted := True\<rparr>"
    and resp_over: "kind t \<Longrightarrow> resp config buf remote local (t, res) = (hr, t', res') \<Longrightarrow>
      (if SUCCEEDED hr then t' = t\<lparr>ct_fCompleted := True\<rparr> else (t', res') = (t, res))"
    and resp_refused: "kind t \<Longrightarrow> wf_buffer buf \<Longrightarrow> cb_allocatedSize buf < size_range \<Longrightarrow> \<not> response_valid buf t \<Longrightarrow>
      resp config buf remote local (t, res) = (E_FAIL, t, res)"
    and msg_ok: "kind t \<Longrightarrow> wf_buffer buf \<Longrightarrow> 800 \<le> cb_allocatedSize buf \<Longrightarrow> length stack = 16 \<Longrightarrow> wf_transid (ct_transid t) \<Longrightarrow>
      \<exists>buf'. msg rand stack config res buf t = (S_OK, buf', dest config res t, t\<lparr>ct_transid := session_id rand stack t\<rparr>) \<and> wf_buffer buf' \<and>
        cb_allocatedSize buf' = cb_allocatedSize buf \<and> buffer_bytes buf' = request_image (session_id rand stack t) (change t)"
    and spec_stable: "change (t\<lparr>ct_transid := tid\<rparr>) = change t" "dest config res (t\<lparr>ct_transid := tid\<rparr>) = dest config res t"
begin

text \<open>A test that has sent its message once sends the same bytes to the same place again, and stays as it is.\<close>

lemma send_again:
  assumes "kind t" "IsTransactionIdValid (ct_transid t)" "wf_buffer buf" "800 \<le> cb_allocatedSize buf" "length stack = 16" "wf_transid (ct_transid t)"
  shows "\<exists>buf'. msg rand stack config res buf t = (S_OK, buf', dest config res t, t) \<and> buffer_bytes buf' = request_image (ct_transid t) (change t)"
proof -
  have "session_id rand stack t = ct_transid t" using assms(2) by (simp add: session_id_def)
  then show ?thesis using msg_ok [OF assms(1,3-6), of rand config res] by auto
qed

end

text \<open>What each class asks for and where.\<close>

definition no_change :: StunChangeRequestAttribute where
  "no_change = \<lparr>fChangeIP = False, fChangePort = False\<rparr>"

definition filtering_change :: "IStunClientTest \<Rightarrow> StunChangeRequestAttribute" where
  "filtering_change t = \<lparr>fChangeIP = (\<not> ct_fIsTest3 t), fChangePort = True\<rparr>"

definition test_change :: "IStunClientTest \<Rightarrow> StunChangeRequestAttribute" where
  "test_change t = (if ct_class t = CFilteringTest then filtering_change t else no_change)"

definition test_dest :: "StunClientLogicConfig \<Rightarrow> StunClientResults \<Rightarrow> IStunClientTest \<Rightarrow> simple_sockaddr" where
  "test_dest config res t =
     (if ct_class t = CBehaviorTest then (if ct_fIsTest3 t then addrAA res else addrAP res) else addrServer config)"

interpretation basic: stun_client_test "\<lambda>t. ct_class t = CBasicBindingTest" "\<lambda>x. x" "\<lambda>t res. BasicBinding_IsReadyToRun t"
  "\<lambda>rand stack config res. BasicBinding_GetMessage rand stack config" BasicBinding_ProcessResponse BasicBinding_NotifyTimeout
  test_change test_dest
proof (unfold_locales, goal_cases)
  case (6 t buf stack rand config res)
  from write_request_ok [OF this(2-5), of rand no_change] obtain buf' where
    "write_request rand stack no_change buf t = (buf', t\<lparr>ct_transid := session_id rand stack t\<rparr>)" "wf_buffer buf'"
    "cb_allocatedSize buf' = cb_allocatedSize buf" "buffer_bytes buf' = request_image (session_id rand stack t) no_change" by metis
  then show ?case using 6(1) by (simp add: BasicBinding_GetMessage_def test_change_def test_dest_def no_change_def)
qed (auto simp: BasicBinding_IsReadyToRun_def BasicBinding_NotifyTimeout_def BasicBinding_ProcessResponse_def BasicReaderValidation_eq
    test_change_def test_dest_def filtering_change_def split_beta Let_def split: if_splits)

interpretation behavior: stun_client_test "\<lambda>t. ct_class t = CBehaviorTest" Behavior_PreRunCheck Behavior_IsReadyToRun
  "\<lambda>rand stack config. Behavior_GetMessage rand stack" "\<lambda>config. Behavior_ProcessResponse" Behavior_NotifyTimeout test_change test_dest
proof (unfold_locales, goal_cases)
  case (6 t buf stack rand config res)
  from write_request_ok [OF this(2-5), of rand no_change] obtain buf' where
    "write_request rand stack no_change buf t = (buf', t\<lparr>ct_transid := session_id rand stack t\<rparr>)" "wf_buffer buf'"
    "cb_allocatedSize buf' = cb_allocatedSize buf" "buffer_bytes buf' = request_image (session_id rand stack t) no_change" by metis
  then show ?case using 6(1) by (simp add: Behavior_GetMessage_def test_change_def test_dest_def no_change_def)
qed (auto simp: Behavior_PreRunCheck_def Behavior_IsReadyToRun_def Behavior_NotifyTimeout_def Behavior_ProcessResponse_def BasicReaderValidation_eq
    test_change_def test_dest_def filtering_change_def split_beta Let_def split: if_splits)

interpretation filtering: stun_client_test "\<lambda>t. ct_class t = CFilteringTest" Filtering_PreRunCheck Filtering_IsReadyToRun
  "\<lambda>rand stack config res. Filtering_GetMessage rand stack config" "\<lambda>config. Filtering_ProcessResponse" Filtering_NotifyTimeout test_change test_dest
proof (unfold_locales, goal_cases)
  case (6 t buf stack rand config res)
  from write_request_ok [OF this(2-5), of rand "filtering_change t"] obtain buf' where
    "write_request rand stack (filtering_change t) buf t = (buf', t\<lparr>ct_transid := session_id rand stack t\<rparr>)" "wf_buffer buf'"
    "cb_allocatedSize buf' = cb_allocatedSize buf" "buffer_bytes buf' = request_image (session_id rand stack t) (filtering_change t)" by metis
  moreover have "(if ct_fIsTest3 t = False then \<lparr>fChangeIP = True, fChangePort = True\<rparr> else \<lparr>fChangeIP = False, fChangePort = True\<rparr>) = filtering_change t"
    by (simp add: filtering_change_def)
  ultimately show ?case using 6(1) unfolding Filtering_GetMessage_def by (simp add: test_change_def test_dest_def)
qed (auto simp: Filtering_PreRunCheck_def Filtering_IsReadyToRun_def Filtering_NotifyTimeout_def Filtering_ProcessResponse_def BasicReaderValidation_eq
    test_change_def test_dest_def filtering_change_def split_beta Let_def split: if_splits)

text \<open>The virtual dispatch keeps the contract because every class does.\<close>

interpretation virtual: stun_client_test "\<lambda>t. True" Test_PreRunCheck Test_IsReadyToRun Test_GetMessage Test_ProcessResponse Test_NotifyTimeout
  test_change test_dest
proof (unfold_locales, goal_cases)
  case (1 t res)
  then show ?case using basic.pre_test behavior.pre_test filtering.pre_test by (cases "ct_class t") (simp_all add: Test_PreRunCheck_def)
next
  case (2 t res)
  then show ?case using basic.ready_pending behavior.ready_pending filtering.ready_pending by (cases "ct_class t") (simp_all add: Test_IsReadyToRun_def)
next
  case (3 t res)
  then show ?case using basic.expire_over behavior.expire_over filtering.expire_over by (cases "ct_class t") (simp_all add: Test_NotifyTimeout_def)
next
  case (4 t config buf remote local res hr t' res')
  then show ?case using basic.resp_over [of t config buf remote local res hr t' res'] behavior.resp_over [of t buf remote local res hr t' res']
      filtering.resp_over [of t buf remote local res hr t' res'] by (cases "ct_class t") (simp_all add: Test_ProcessResponse_def)
next
  case (5 t buf config remote local res)
  then show ?case using basic.resp_refused behavior.resp_refused filtering.resp_refused
    by (cases "ct_class t") (simp_all add: Test_ProcessResponse_def)
next
  case (6 t buf stack rand config res)
  then show ?case using basic.msg_ok behavior.msg_ok filtering.msg_ok by (cases "ct_class t") (simp_all add: Test_GetMessage_def)
qed (simp_all add: test_change_def test_dest_def filtering_change_def)

end
