(* ===== verification/ClientSession.thy ===== *)
theory ClientSession
  imports ClientContract
begin

text \<open>
  Sessions of the client: the transitions its transport drives, the reachable states, and the
  invariant of the results. \<open>nat_behavior\<close> and \<open>nat_filtering\<close> read a class off the flags and the
  addresses that the results record, the code's own class for a direct connection included; the
  invariant says that a test counted as a success has stored exactly that class. Which messages
  the flags and addresses stand for, and so what the class says of the network, is the matter of \<open>ClientTrace\<close>.
\<close>

section \<open>The class that the recorded results give\<close>

definition nat_behavior :: "StunClientResults \<Rightarrow> NatBehavior" where
  "nat_behavior res =
     (if fIsDirect res then DirectMapping
      else if CSocketAddress_IsSameIP_and_Port (addrMappingAP res) (addrMapped res) then EndpointIndependentMapping
      else if CSocketAddress_IsSameIP_and_Port (addrMappingAA res) (addrMappingAP res) then AddressDependentMapping
      else AddressAndPortDependentMapping)"

definition nat_filtering :: "StunClientResults \<Rightarrow> NatFiltering" where
  "nat_filtering res =
     (if fIsDirect res \<or> fGotTest2Response res then EndpointIndependentFiltering
      else if fGotTest3Response res then AddressDependentFiltering
      else AddressAndPortDependentFiltering)"

definition classified :: "StunClientLogicConfig \<Rightarrow> StunClientResults \<Rightarrow> bool" where
  "classified config res \<longleftrightarrow>
     (fBehaviorTestSuccess res \<longrightarrow> fBindingTestSuccess res \<and> behavior res = nat_behavior res) \<and>
     (\<not> fBehaviorTestSuccess res \<longrightarrow> behavior res = UnknownBehavior) \<and>
     (fFilteringTestSuccess res \<longrightarrow> fBindingTestSuccess res \<and> filtering res = nat_filtering res) \<and>
     (\<not> fFilteringTestSuccess res \<longrightarrow> filtering res = UnknownFiltering) \<and>
     (fGotTest2Response res \<or> fGotTest3Response res \<longrightarrow> fFilteringTestSuccess res) \<and>
     (fBindingTestSuccess res \<longrightarrow> fIsDirect res = CSocketAddress_IsSameIP_and_Port (addrLocal res) (addrMapped res)) \<and>
     (fBindingTestSuccess res \<and> fHasOtherAddress res \<longrightarrow>
        addrPA res = CSocketAddress_SetPort (CSocketAddress_GetPort (addrAA res)) (addrServer config) \<and>
        addrAP res = CSocketAddress_SetPort (CSocketAddress_GetPort (addrServer config)) (addrAA res))"

section \<open>Stages\<close>

text \<open>The tests in the order in which they run; stage 5 is the end.\<close>

definition ct_stage :: "IStunClientTest \<Rightarrow> nat" where
  "ct_stage t =
     (case ct_class t of CBasicBindingTest \<Rightarrow> 0
      | CBehaviorTest \<Rightarrow> if ct_fIsTest3 t then 2 else 1
      | CFilteringTest \<Rightarrow> if ct_fIsTest3 t then 4 else 3)"

definition plan :: "StunClientLogicConfig \<Rightarrow> nat list" where
  "plan config = [0] @ (if fBehaviorTest config then [1, 2] else []) @ (if fFilteringTest config then [3, 4] else [])"

definition next_stage :: "StunClientLogicConfig \<Rightarrow> nat \<Rightarrow> nat" where
  "next_stage config st =
     (if st = 0 then (if fBehaviorTest config then 1 else if fFilteringTest config then 3 else 5)
      else if st = 1 then 2
      else if st = 2 then (if fFilteringTest config then 3 else 5)
      else if st = 3 then 4 else 5)"

lemma plan_next:
  "i < length (plan config) \<Longrightarrow> (if i + 1 < length (plan config) then plan config ! (i + 1) else 5) = next_stage config (plan config ! i)"
  by (cases "fBehaviorTest config"; cases "fFilteringTest config")
    (auto simp: plan_def next_stage_def less_Suc_eq numeral_eq_Suc)

text \<open>
  What holds of the results at a stage: \<open>over\<close> says whether the current test is completed, \<open>checked\<close>
  whether its early check has run.
\<close>

definition is_direct :: "StunClientResults \<Rightarrow> bool" where
  "is_direct res \<longleftrightarrow> fBindingTestSuccess res \<and> fIsDirect res"

definition unmapped :: "StunClientResults \<Rightarrow> bool" where
  "unmapped res \<longleftrightarrow> CSocketAddress_IsIPAddressZero (addrMappingAP res)"

definition mapping_done :: "StunClientResults \<Rightarrow> bool" where
  "mapping_done res \<longleftrightarrow> (is_direct res \<longrightarrow> fBehaviorTestSuccess res) \<and>
     (fBehaviorTestSuccess res \<or> unmapped res \<or> \<not> CSocketAddress_IsSameIP_and_Port (addrMappingAP res) (addrMapped res))"

definition stage_ok :: "StunClientLogicConfig \<Rightarrow> nat \<Rightarrow> bool \<Rightarrow> bool \<Rightarrow> StunClientResults \<Rightarrow> bool" where
  "stage_ok config st over checked res \<longleftrightarrow>
     (if st = 0 then \<not> fBehaviorTestSuccess res \<and> \<not> fFilteringTestSuccess res \<and> unmapped res \<and> (fBindingTestSuccess res \<longrightarrow> over)
      else if st = 1 then \<not> fFilteringTestSuccess res \<and>
        (if over then checked \<and> mapping_done res
         else \<not> fBehaviorTestSuccess res \<and> unmapped res \<and> (checked \<longrightarrow> \<not> is_direct res))
      else if st = 2 then \<not> fFilteringTestSuccess res \<and> (over \<longrightarrow> checked) \<and> mapping_done res
      else (fBehaviorTest config \<and> is_direct res \<longrightarrow> fBehaviorTestSuccess res) \<and>
        (if st = 3 then if over then checked \<and> (is_direct res \<longrightarrow> fFilteringTestSuccess res)
                        else \<not> fFilteringTestSuccess res \<and> (checked \<longrightarrow> \<not> is_direct res)
         else if st = 4 then (is_direct res \<longrightarrow> fFilteringTestSuccess res) \<and> (over \<longrightarrow> checked \<and> fFilteringTestSuccess res)
         else fFilteringTest config \<and> fBindingTestSuccess res \<and> (fHasOtherAddress res \<or> fIsDirect res) \<longrightarrow> fFilteringTestSuccess res))"

lemma ct_stage_cases:
  obtains (basic) "ct_class t = CBasicBindingTest" "ct_stage t = 0"
  | (behavior2) "ct_class t = CBehaviorTest" "\<not> ct_fIsTest3 t" "ct_stage t = 1"
  | (behavior3) "ct_class t = CBehaviorTest" "ct_fIsTest3 t" "ct_stage t = 2"
  | (filtering2) "ct_class t = CFilteringTest" "\<not> ct_fIsTest3 t" "ct_stage t = 3"
  | (filtering3) "ct_class t = CFilteringTest" "ct_fIsTest3 t" "ct_stage t = 4"
  by (cases "ct_class t"; cases "ct_fIsTest3 t") (simp_all add: ct_stage_def)

lemma ct_stage_simps [simp]: "ct_stage (t\<lparr>ct_fCompleted := c\<rparr>) = ct_stage t" "ct_stage (t\<lparr>ct_transid := x\<rparr>) = ct_stage t"
  by (simp_all add: ct_stage_def)

lemma started_results: "stage_ok config 0 False False StunClientResults_Init" "classified config StunClientResults_Init"
proof -
  have "CSocketAddress_IsIPAddressZero CSocketAddress_default" by code_simp
  then show "stage_ok config 0 False False StunClientResults_Init" "classified config StunClientResults_Init"
    by (simp_all add: stage_ok_def unmapped_def classified_def StunClientResults_Init_def)
qed

lemmas pre_run_defs = Test_PreRunCheck_def Behavior_PreRunCheck_def Filtering_PreRunCheck_def
lemmas ready_defs = Test_IsReadyToRun_def BasicBinding_IsReadyToRun_def Behavior_IsReadyToRun_def Filtering_IsReadyToRun_def
lemmas expire_defs = Test_NotifyTimeout_def BasicBinding_NotifyTimeout_def Behavior_NotifyTimeout_def Filtering_NotifyTimeout_def

subsection \<open>The class is right\<close>

text \<open>Each write of a class, in the circumstances in which the tests make it.\<close>

lemma classified_direct:
  assumes "classified config res" "is_direct res"
  shows "classified config (res\<lparr>behavior := DirectMapping, fBehaviorTestSuccess := True\<rparr>)"
    "classified config (res\<lparr>filtering := EndpointIndependentFiltering, fFilteringTestSuccess := True\<rparr>)"
  using assms by (simp_all add: classified_def is_direct_def nat_behavior_def nat_filtering_def)

lemma classified_mapping:
  assumes "classified config res" "fBindingTestSuccess res" "\<not> fIsDirect res" "\<not> fBehaviorTestSuccess res"
  shows "classified config (res\<lparr>addrMappingAP := a\<rparr>)"
    "CSocketAddress_IsSameIP_and_Port a (addrMapped res) \<Longrightarrow>
       classified config (res\<lparr>addrMappingAP := a, fBehaviorTestSuccess := True, behavior := EndpointIndependentMapping\<rparr>)"
    "\<not> CSocketAddress_IsSameIP_and_Port (addrMappingAP res) (addrMapped res) \<Longrightarrow>
       classified config (res\<lparr>addrMappingAA := a, fBehaviorTestSuccess := True,
         behavior := (if CSocketAddress_IsSameIP_and_Port a (addrMappingAP res) then AddressDependentMapping else AddressAndPortDependentMapping)\<rparr>)"
  using assms by (simp_all add: classified_def nat_behavior_def nat_filtering_def)

lemma classified_filtering:
  assumes "classified config res" "fBindingTestSuccess res" "\<not> fIsDirect res" "\<not> fFilteringTestSuccess res"
  shows "classified config (res\<lparr>fGotTest2Response := True, fFilteringTestSuccess := True, filtering := EndpointIndependentFiltering\<rparr>)"
    "classified config (res\<lparr>fGotTest3Response := True, fFilteringTestSuccess := True, filtering := AddressDependentFiltering\<rparr>)"
    "classified config (res\<lparr>fFilteringTestSuccess := True, filtering := AddressAndPortDependentFiltering\<rparr>)"
  using assms by (simp_all add: classified_def nat_behavior_def nat_filtering_def)

lemma classified_expired:
  assumes "classified config res"
  shows "\<not> fBehaviorTestSuccess res \<Longrightarrow> classified config (res\<lparr>fBehaviorTestSuccess := False\<rparr>)"
    "\<not> fBehaviorTestSuccess res \<Longrightarrow> \<not> fFilteringTestSuccess res \<Longrightarrow> classified config (res\<lparr>fBindingTestSuccess := False\<rparr>)"
  using assms by (simp_all add: classified_def nat_behavior_def nat_filtering_def)

subsection \<open>Every operation keeps it\<close>

lemma early_ok:
  assumes "stage_ok config (ct_stage t) (ct_fCompleted t) False res" "classified config res" "Test_PreRunCheck (t, res) = (t', res')"
  shows "stage_ok config (ct_stage t) (ct_fCompleted t') True res'" "classified config res'"
proof -
  have "stage_ok config (ct_stage t) (ct_fCompleted t') True res' \<and> classified config res'"
  proof (cases t rule: ct_stage_cases)
    case basic
    then show ?thesis using assms by (auto simp: pre_run_defs stage_ok_def)
  next
    case behavior2
    then show ?thesis using assms classified_direct(1) [OF assms(2)]
      by (auto simp: pre_run_defs stage_ok_def is_direct_def mapping_done_def split: if_splits)
  next
    case filtering2
    then show ?thesis using assms classified_direct(2) [OF assms(2)]
      by (auto simp: pre_run_defs stage_ok_def is_direct_def split: if_splits)
  qed (use assms in \<open>auto simp: pre_run_defs stage_ok_def\<close>)
  then show "stage_ok config (ct_stage t) (ct_fCompleted t') True res'" "classified config res'" by simp_all
qed

lemma next_ok:
  assumes "stage_ok config (ct_stage t) (ct_fCompleted t) True res" "classified config res" "ct_fCompleted t \<or> \<not> Test_IsReadyToRun t res"
  shows "stage_ok config (next_stage config (ct_stage t)) False False res"
proof (cases t rule: ct_stage_cases)
  case basic
  then show ?thesis using assms(1,3) by (auto simp: ready_defs next_stage_def stage_ok_def mapping_done_def is_direct_def)
next
  case behavior2
  then show ?thesis using assms
    by (cases "ct_fCompleted t") (auto simp: ready_defs next_stage_def stage_ok_def mapping_done_def)
next
  case behavior3
  then show ?thesis using assms by (auto simp: ready_defs next_stage_def stage_ok_def mapping_done_def)
next
  case filtering2
  then show ?thesis using assms(1,3) by (cases "ct_fCompleted t") (auto simp: ready_defs next_stage_def stage_ok_def)
next
  case filtering3
  have "fGotTest2Response res \<Longrightarrow> fFilteringTestSuccess res" using assms(2) by (simp add: classified_def)
  then show ?thesis using assms(1,3) filtering3
    by (cases "ct_fCompleted t") (auto simp: ready_defs next_stage_def stage_ok_def is_direct_def)
qed

lemma expire_ok:
  assumes "stage_ok config (ct_stage t) (ct_fCompleted t) True res" "classified config res" "Test_IsReadyToRun t res"
    "Test_NotifyTimeout (t, res) = (t', res')"
  shows "stage_ok config (ct_stage t) True True res'" "classified config res'"
proof -
  have "stage_ok config (ct_stage t) True True res' \<and> classified config res'"
  proof (cases t rule: ct_stage_cases)
    case basic
    then show ?thesis using assms classified_expired(2) [OF assms(2)]
      by (auto simp: expire_defs ready_defs stage_ok_def unmapped_def)
  next
    case behavior2
    then show ?thesis using assms classified_expired(1) [OF assms(2)]
      by (auto simp: expire_defs ready_defs stage_ok_def mapping_done_def is_direct_def unmapped_def)
  next
    case behavior3
    then show ?thesis using assms classified_expired(1) [OF assms(2)]
      by (auto simp: expire_defs ready_defs stage_ok_def mapping_done_def is_direct_def unmapped_def)
  next
    case filtering2
    then show ?thesis using assms by (auto simp: expire_defs ready_defs stage_ok_def is_direct_def)
  next
    case filtering3
    then show ?thesis using assms classified_filtering(3) [OF assms(2)]
      by (auto simp: expire_defs ready_defs stage_ok_def is_direct_def)
  qed
  then show "stage_ok config (ct_stage t) True True res'" "classified config res'" by simp_all
qed

lemma binding_success:
  assumes "BasicBinding_ProcessResponse config buf remote local (t, res) = (hr, t', res')" "SUCCEEDED hr"
  shows "\<exists>mapped other hasOther. res' = (let r = res\<lparr>fBindingTestSuccess := True, fIsDirect := CSocketAddress_IsSameIP_and_Port local mapped,
      addrLocal := local, addrMapped := mapped, fHasOtherAddress := hasOther\<rparr>
    in if hasOther then r\<lparr>addrAA := other, addrPA := CSocketAddress_SetPort (CSocketAddress_GetPort other) (addrServer config),
      addrAP := CSocketAddress_SetPort (CSocketAddress_GetPort (addrServer config)) other\<rparr> else r)"
proof -
  let ?r = "snd (BasicReaderValidation buf t CStunMessageReader_new)"
  show ?thesis using assms
    by (intro exI [of _ "snd (response_mapped ?r)"] exI [of _ "snd (GetOtherAddress CSocketAddress_default ?r)"]
        exI [of _ "SUCCEEDED (fst (GetOtherAddress CSocketAddress_default ?r))"])
      (auto simp: BasicBinding_ProcessResponse_def Let_def split_beta split: if_splits)
qed

lemma behavior_success:
  assumes "Behavior_ProcessResponse buf remote local (t, res) = (hr, t', res')" "SUCCEEDED hr"
  shows "\<exists>mapped. res' = (if ct_fIsTest3 t
    then res\<lparr>addrMappingAA := mapped, fBehaviorTestSuccess := True,
      behavior := (if CSocketAddress_IsSameIP_and_Port mapped (addrMappingAP res) then AddressDependentMapping else AddressAndPortDependentMapping)\<rparr>
    else if CSocketAddress_IsSameIP_and_Port mapped (addrMapped res)
    then res\<lparr>addrMappingAP := mapped, fBehaviorTestSuccess := True, behavior := EndpointIndependentMapping\<rparr>
    else res\<lparr>addrMappingAP := mapped\<rparr>)"
  using assms by (intro exI [of _ "snd (response_mapped (snd (BasicReaderValidation buf t CStunMessageReader_new)))"])
    (auto simp: Behavior_ProcessResponse_def Let_def split_beta split: if_splits)

lemma filtering_success:
  assumes "Filtering_ProcessResponse buf remote local (t, res) = (hr, t', res')" "SUCCEEDED hr"
  shows "res' = (if ct_fIsTest3 t
    then res\<lparr>fGotTest3Response := True, fFilteringTestSuccess := True, filtering := AddressDependentFiltering\<rparr>
    else res\<lparr>fGotTest2Response := True, fFilteringTestSuccess := True, filtering := EndpointIndependentFiltering\<rparr>)"
  using assms by (auto simp: Filtering_ProcessResponse_def Let_def split_beta split: if_splits)

lemma response_ok:
  assumes "stage_ok config (ct_stage t) (ct_fCompleted t) checked res" "classified config res" "\<not> ct_fCompleted t"
    "ct_stage t = 0 \<or> checked \<and> Test_IsReadyToRun t res"
    "Test_ProcessResponse config buf remote local (t, res) = (hr, t', res')"
  shows "stage_ok config (ct_stage t) (ct_fCompleted t') checked res'" "classified config res'"
proof -
  have "stage_ok config (ct_stage t) (ct_fCompleted t') checked res' \<and> classified config res'"
  proof (cases "SUCCEEDED hr")
    case False
    then show ?thesis using virtual.resp_over [OF TrueI assms(5)] assms(1,2) by auto
  next
    case True
    note resp = assms(5)
    have over: "ct_fCompleted t'" using virtual.resp_over [OF TrueI assms(5)] True by simp
    show ?thesis
    proof (cases t rule: ct_stage_cases)
      case basic
      then obtain mapped other hasOther where "res' = (let r = res\<lparr>fBindingTestSuccess := True, fIsDirect := CSocketAddress_IsSameIP_and_Port local mapped,
            addrLocal := local, addrMapped := mapped, fHasOtherAddress := hasOther\<rparr>
          in if hasOther then r\<lparr>addrAA := other, addrPA := CSocketAddress_SetPort (CSocketAddress_GetPort other) (addrServer config),
            addrAP := CSocketAddress_SetPort (CSocketAddress_GetPort (addrServer config)) other\<rparr> else r)"
        using resp True binding_success [of config buf remote local t res hr t' res'] by (auto simp: Test_ProcessResponse_def)
      then show ?thesis using assms(1-3) basic over
        by (auto simp: Let_def stage_ok_def unmapped_def classified_def)
    next
      case behavior2
      then have b: "fBindingTestSuccess res" "\<not> fIsDirect res" "\<not> fBehaviorTestSuccess res" "\<not> fFilteringTestSuccess res" "checked"
        using assms(1,3,4) by (auto simp: stage_ok_def ready_defs is_direct_def)
      obtain mapped where "res' = (if CSocketAddress_IsSameIP_and_Port mapped (addrMapped res)
          then res\<lparr>addrMappingAP := mapped, fBehaviorTestSuccess := True, behavior := EndpointIndependentMapping\<rparr>
          else res\<lparr>addrMappingAP := mapped\<rparr>)"
        using resp behavior2 behavior_success [of buf remote local t res hr t' res'] True by (auto simp: Test_ProcessResponse_def)
      then show ?thesis using classified_mapping(1,2) [OF assms(2) b(1-3), of mapped] b behavior2 over
        by (cases "CSocketAddress_IsSameIP_and_Port mapped (addrMapped res)") (simp_all add: stage_ok_def mapping_done_def is_direct_def)
    next
      case behavior3
      then have b: "fBindingTestSuccess res" "\<not> fIsDirect res" "\<not> fBehaviorTestSuccess res" "\<not> fFilteringTestSuccess res" "checked"
        "\<not> CSocketAddress_IsSameIP_and_Port (addrMappingAP res) (addrMapped res)"
        using assms(1,3,4) by (auto simp: stage_ok_def ready_defs is_direct_def mapping_done_def unmapped_def)
      obtain mapped where "res' = res\<lparr>addrMappingAA := mapped, fBehaviorTestSuccess := True,
          behavior := (if CSocketAddress_IsSameIP_and_Port mapped (addrMappingAP res) then AddressDependentMapping else AddressAndPortDependentMapping)\<rparr>"
        using resp behavior3 behavior_success [of buf remote local t res hr t' res'] True by (auto simp: Test_ProcessResponse_def)
      then show ?thesis using classified_mapping(3) [OF assms(2) b(1-3,6), of mapped] b behavior3 over
        by (simp add: stage_ok_def mapping_done_def is_direct_def)
    next
      case filtering2
      then have b: "fBindingTestSuccess res" "\<not> fIsDirect res" "\<not> fFilteringTestSuccess res" "checked"
        using assms(1,3,4) by (auto simp: stage_ok_def ready_defs is_direct_def)
      have "res' = res\<lparr>fGotTest2Response := True, fFilteringTestSuccess := True, filtering := EndpointIndependentFiltering\<rparr>"
        using resp filtering2 filtering_success [of buf remote local t res hr t' res'] True by (simp add: Test_ProcessResponse_def)
      then show ?thesis using classified_filtering(1) [OF assms(2) b(1-3)] assms(1) b filtering2 over
        by (auto simp: stage_ok_def is_direct_def)
    next
      case filtering3
      then have b: "fBindingTestSuccess res" "\<not> fIsDirect res" "\<not> fFilteringTestSuccess res" "checked"
        using assms(1,3,4) by (auto simp: stage_ok_def ready_defs is_direct_def)
      have "res' = res\<lparr>fGotTest3Response := True, fFilteringTestSuccess := True, filtering := AddressDependentFiltering\<rparr>"
        using resp filtering3 filtering_success [of buf remote local t res hr t' res'] True by (simp add: Test_ProcessResponse_def)
      then show ?thesis using classified_filtering(2) [OF assms(2) b(1-3)] assms(1) b filtering3 over
        by (auto simp: stage_ok_def is_direct_def)
    qed
  qed
  then show "stage_ok config (ct_stage t) (ct_fCompleted t') checked res'" "classified config res'" by simp_all
qed

end
