(* ===== verification/ClientRun.thy ===== *)
theory ClientRun
  imports ClientSession ServerReply
begin

text \<open>
  Runs of the client: \<open>client_run config n lg\<close> says that the client, initialised with \<open>config\<close> and
  driven by any calls of \<open>GetNextMessage\<close> and \<open>ProcessResponse\<close>, can be in the state \<open>lg\<close> after
  sending \<open>n\<close> messages. The state invariant \<open>client_ok\<close> is proved by rule induction over the runs.
\<close>

inductive client_run :: "StunClientLogicConfig \<Rightarrow> nat \<Rightarrow> CStunClientLogic \<Rightarrow> bool" for config where
  run_start: "CStunClientLogic_Initialize config (CStunClientLogic_new old precheck) = (S_OK, lg) \<Longrightarrow> client_run config 0 lg"
| run_ask: "client_run config n lg \<Longrightarrow> wf_buffer buf \<Longrightarrow> length stack = 16 \<Longrightarrow>
    GetNextMessage rand stack buf pDest now lg = (hr, buf', pDest', lg') \<Longrightarrow> client_run config (if hr = S_OK then n + 1 else n) lg'"
| run_receive: "client_run config n lg \<Longrightarrow> Logic_ProcessResponse buf remote local lg = (hr, lg') \<Longrightarrow> client_run config n lg'"

section \<open>The invariant\<close>

definition running :: "CStunClientLogic \<Rightarrow> bool" where
  "running lg \<longleftrightarrow> lg_nTestIndex lg < length (lg_testlist lg)"

definition lg_stage :: "CStunClientLogic \<Rightarrow> nat" where
  "lg_stage lg = (if running lg then ct_stage (current_test lg) else 5)"

definition lg_over :: "CStunClientLogic \<Rightarrow> bool" where
  "lg_over lg \<longleftrightarrow> running lg \<and> ct_fCompleted (current_test lg)"

definition client_core :: "CStunClientLogic \<Rightarrow> bool" where
  "client_core lg \<longleftrightarrow>
     lg_fInitialized lg \<and> map ct_stage (lg_testlist lg) = plan (lg_config lg) \<and> lg_nTestIndex lg \<le> length (lg_testlist lg) \<and>
     1 \<le> uMaxAttempts (lg_config lg) \<and> lg_sendCount lg \<le> uMaxAttempts (lg_config lg) \<and>
     (\<forall>t \<in> set (lg_testlist lg). wf_transid (ct_transid t)) \<and>
     (\<forall>i. lg_nTestIndex lg < i \<and> i < length (lg_testlist lg) \<longrightarrow> \<not> ct_fCompleted (lg_testlist lg ! i)) \<and>
     classified (lg_config lg) (lg_results lg) \<and>
     stage_ok (lg_config lg) (lg_stage lg) (lg_over lg) (running lg \<and> lg_fPreCheckRunOnTest lg) (lg_results lg)"

text \<open>
  Between calls the current test waits for a response, or is completed, or is the first one, which
  needs no early check.
\<close>

definition pending :: "CStunClientLogic \<Rightarrow> bool" where
  "pending lg \<longleftrightarrow> running lg \<and> lg_fPreCheckRunOnTest lg \<and> \<not> test_over lg"

definition settled :: "CStunClientLogic \<Rightarrow> bool" where
  "settled lg \<longleftrightarrow> lg_stage lg = 0 \<or> lg_over lg \<or> pending lg \<or> \<not> running lg"

definition client_ok :: "CStunClientLogic \<Rightarrow> bool" where
  "client_ok lg \<longleftrightarrow> client_core lg \<and> settled lg"

lemma running_stage: "running lg \<Longrightarrow> lg_stage lg = ct_stage (current_test lg)" "running lg \<Longrightarrow> lg_over lg = ct_fCompleted (current_test lg)"
  by (simp_all add: lg_stage_def lg_over_def)

lemma running_mem: "running lg \<Longrightarrow> current_test lg \<in> set (lg_testlist lg)"
  by (simp add: running_def current_test_def)

text \<open>A new value of the current test and of the results.\<close>

lemma core_update:
  assumes "client_core lg" "running lg" "ct_stage t = ct_stage (current_test lg)" "wf_transid (ct_transid t)"
    "classified (lg_config lg) res" "stage_ok (lg_config lg) (ct_stage (current_test lg)) (ct_fCompleted t) checked res"
    "n \<le> uMaxAttempts (lg_config lg)"
  shows "client_core (lg\<lparr>lg_testlist := (lg_testlist lg)[lg_nTestIndex lg := t], lg_results := res, lg_fPreCheckRunOnTest := checked,
    lg_sendCount := n, lg_timeLastMessageSent := now\<rparr>)"
proof -
  let ?lg = "lg\<lparr>lg_testlist := (lg_testlist lg)[lg_nTestIndex lg := t], lg_results := res, lg_fPreCheckRunOnTest := checked,
    lg_sendCount := n, lg_timeLastMessageSent := now\<rparr>"
  have r: "running ?lg" "current_test ?lg = t" using assms(2) by (simp_all add: running_def current_test_def)
  have "map ct_stage ((lg_testlist lg)[lg_nTestIndex lg := t]) = map ct_stage (lg_testlist lg)"
    using assms(2,3) by (simp add: map_update running_def current_test_def list_update_same_conv)
  then show ?thesis using assms r(1) running_stage [OF r(1)] set_update_subset_insert [of "lg_testlist lg" "lg_nTestIndex lg" t]
    by (auto simp: client_core_def r(2))
qed

text \<open>The configuration after \<open>Initialize\<close> filled in the defaults.\<close>

definition effective_config :: "StunClientLogicConfig \<Rightarrow> StunClientLogicConfig" where
  "effective_config config =
     config\<lparr>timeoutSeconds := (if fTimeoutIsInstant config then 0 else if timeoutSeconds config = 0 then 3 else timeoutSeconds config),
            uMaxAttempts := (if uMaxAttempts config = 0 then 2 else uMaxAttempts config)\<rparr>"

definition fresh_test :: "TestClass \<Rightarrow> bool \<Rightarrow> IStunClientTest" where
  "fresh_test c third =
     \<lparr>ct_class = c, ct_fInit = True, ct_fCompleted = False, ct_transid = replicate STUN_TRANSACTION_ID_LENGTH 0, ct_fIsTest3 = third\<rparr>"

definition fresh_tests :: "StunClientLogicConfig \<Rightarrow> IStunClientTest list" where
  "fresh_tests config =
     [fresh_test CBasicBindingTest False] @
     (if fBehaviorTest config then [fresh_test CBehaviorTest False, fresh_test CBehaviorTest True] else []) @
     (if fFilteringTest config then [fresh_test CFilteringTest False, fresh_test CFilteringTest True] else [])"

lemma Initialize_ok:
  assumes "CStunClientLogic_Initialize config (CStunClientLogic_new old precheck) = (S_OK, lg)"
  shows "lg = \<lparr>lg_config = effective_config config, lg_results = StunClientResults_Init, lg_fInitialized = True, lg_timeLastMessageSent = 0,
    lg_sendCount = 0, lg_fPreCheckRunOnTest = False, lg_testlist = fresh_tests config, lg_nTestIndex = 0\<rparr>"
proof -
  have "(if uMaxAttempts c \<le> 0 then c\<lparr>uMaxAttempts := 2\<rparr> else c) = c\<lparr>uMaxAttempts := if uMaxAttempts c = 0 then 2 else uMaxAttempts c\<rparr>" for c
    by simp
  moreover have "(if fTimeoutIsInstant config then config\<lparr>timeoutSeconds := 0\<rparr> else if timeoutSeconds config = 0 then config\<lparr>timeoutSeconds := 3\<rparr> else config)
      = config\<lparr>timeoutSeconds := if fTimeoutIsInstant config then 0 else if timeoutSeconds config = 0 then 3 else timeoutSeconds config\<rparr>"
    by simp
  ultimately show ?thesis using assms
    by (auto simp: CStunClientLogic_Initialize_def CStunClientLogic_new_def Let_def TestBase_Init_def CStunClientTestBase_new_def RunAsTest3_def
        effective_config_def fresh_tests_def fresh_test_def S_OK_def E_INVALIDARG_def split: if_splits)
qed

lemma fresh_tests_ok:
  "map ct_stage (fresh_tests config) = plan (effective_config config)" "\<forall>t \<in> set (fresh_tests config). wf_transid (ct_transid t)"
  "\<forall>t \<in> set (fresh_tests config). \<not> ct_fCompleted t" "fresh_tests config \<noteq> []" "hd (fresh_tests config) = fresh_test CBasicBindingTest False"
  by (auto simp: fresh_tests_def fresh_test_def plan_def effective_config_def ct_stage_def wf_transid_def stun_consts)

lemma core_start:
  assumes "CStunClientLogic_Initialize config (CStunClientLogic_new old precheck) = (S_OK, lg)"
  shows "client_core lg" "lg_stage lg = 0"
proof -
  note lg = Initialize_ok [OF assms]
  have r: "running lg" "current_test lg = fresh_test CBasicBindingTest False"
    using fresh_tests_ok(4,5) [of config] by (simp_all add: lg running_def current_test_def hd_conv_nth [symmetric])
  then show st: "lg_stage lg = 0" by (simp add: lg_stage_def ct_stage_def fresh_test_def)
  have "1 \<le> uMaxAttempts (effective_config config)" by (simp add: effective_config_def word_le_nat_alt unat_gt_0 Suc_le_eq)
  moreover have "\<not> lg_over lg" using r by (simp add: lg_over_def fresh_test_def)
  ultimately show "client_core lg" using st started_results fresh_tests_ok [of config]
    by (auto simp: client_core_def lg_stage_def) (auto simp: lg)
qed

lemma core_early:
  assumes "client_core lg" "running lg"
  shows "client_core (early_check lg)"
proof (cases "lg_fPreCheckRunOnTest lg")
  case False
  obtain t res where f: "Test_PreRunCheck (current_test lg, lg_results lg) = (t, res)" by fastforce
  have t: "t = current_test lg \<or> t = current_test lg\<lparr>ct_fCompleted := True\<rparr>" using virtual.pre_test [OF TrueI, of "current_test lg" "lg_results lg"] f by simp
  have ok: "stage_ok (lg_config lg) (ct_stage (current_test lg)) (ct_fCompleted (current_test lg)) False (lg_results lg)" "classified (lg_config lg) (lg_results lg)"
    using assms False running_stage [OF assms(2)] by (simp_all add: client_core_def)
  have e: "early_check lg = lg\<lparr>lg_testlist := (lg_testlist lg)[lg_nTestIndex lg := t], lg_results := res, lg_fPreCheckRunOnTest := True,
    lg_sendCount := lg_sendCount lg, lg_timeLastMessageSent := lg_timeLastMessageSent lg\<rparr>"
    using False f by (simp add: early_check_def on_current_def)
  show ?thesis unfolding e
    by (rule core_update [OF assms]) (use t early_ok [OF ok f] assms running_mem [OF assms(2)] in \<open>auto simp: client_core_def\<close>)
qed (use assms in \<open>simp add: early_check_def\<close>)

lemma core_next:
  assumes "client_core lg" "running lg" "lg_fPreCheckRunOnTest lg" "test_over lg"
  shows "client_core (next_test lg)"
proof -
  let ?l = "next_test lg" and ?i = "lg_nTestIndex lg"
  have f: "lg_testlist ?l = lg_testlist lg" "lg_nTestIndex ?l = ?i + 1" "lg_config ?l = lg_config lg" "lg_results ?l = lg_results lg"
    "lg_fInitialized ?l = lg_fInitialized lg" "lg_sendCount ?l = 0" "\<not> lg_fPreCheckRunOnTest ?l" by (simp_all add: next_test_def)
  have m: "map ct_stage (lg_testlist lg) = plan (lg_config lg)" "length (lg_testlist lg) = length (plan (lg_config lg))" 
    using assms(1) by (auto simp: client_core_def dest: arg_cong [where f = length])
  have st: "ct_stage (lg_testlist lg ! j) = plan (lg_config lg) ! j" if "j < length (lg_testlist lg)" for j
    using that by (simp add: m(1) [symmetric])
  have "lg_stage ?l = next_stage (lg_config lg) (ct_stage (current_test lg))"
    using plan_next [of ?i "lg_config lg"] assms(2) st m(2) by (simp add: lg_stage_def running_def f current_test_def split: if_splits)
  moreover have "\<not> lg_over ?l" using assms(1) by (auto simp: lg_over_def client_core_def running_def f current_test_def)
  moreover have "stage_ok (lg_config lg) (next_stage (lg_config lg) (ct_stage (current_test lg))) False False (lg_results lg)"
    using next_ok [of "lg_config lg" "current_test lg" "lg_results lg"] assms running_stage [OF assms(2)]
    by (simp add: client_core_def test_over_def)
  ultimately show ?thesis using assms(1,2) by (auto simp: client_core_def f running_def)
qed

lemma core_expire:
  assumes "client_core lg" "pending lg"
  shows "client_core (on_current Test_NotifyTimeout lg)"
proof -
  have r: "running lg" "lg_fPreCheckRunOnTest lg" "\<not> test_over lg" using assms(2) by (simp_all add: pending_def)
  obtain t res where f: "Test_NotifyTimeout (current_test lg, lg_results lg) = (t, res)" by fastforce
  have t: "t = current_test lg\<lparr>ct_fCompleted := True\<rparr>" using virtual.expire_over [OF TrueI, of "current_test lg" "lg_results lg"] f by simp
  have ok: "stage_ok (lg_config lg) (ct_stage (current_test lg)) (ct_fCompleted (current_test lg)) True (lg_results lg)" "classified (lg_config lg) (lg_results lg)"
    "Test_IsReadyToRun (current_test lg) (lg_results lg)"
    using assms(1) r running_stage [OF r(1)] by (simp_all add: client_core_def test_over_def)
  have e: "on_current Test_NotifyTimeout lg = lg\<lparr>lg_testlist := (lg_testlist lg)[lg_nTestIndex lg := t], lg_results := res, lg_fPreCheckRunOnTest := True,
    lg_sendCount := lg_sendCount lg, lg_timeLastMessageSent := lg_timeLastMessageSent lg\<rparr>"
    using r f by (simp add: on_current_def)
  show ?thesis unfolding e
    by (rule core_update [OF assms(1) r(1)]) (use t expire_ok [OF ok f] assms running_mem [OF r(1)] in \<open>auto simp: client_core_def\<close>)
qed

section \<open>The loop\<close>

text \<open>Invariant reasoning about \<open>GetNextMessage\<close>: what each round keeps and each exit establishes.\<close>

lemma GetNextMessage_rule:
  assumes "P lg" "\<And>lg lg'. P lg \<Longrightarrow> GetNextMessage_round rand stack now buf d lg = Inl lg' \<Longrightarrow> P lg'"
    "\<And>lg x. P lg \<Longrightarrow> GetNextMessage_round rand stack now buf d lg = Inr x \<Longrightarrow> Q x"
  shows "Q (GetNextMessage_loop rand stack now buf d lg)"
  using assms
proof (induction rand stack now buf d lg rule: GetNextMessage_loop.induct)
  case (1 rand stack now buf d lg)
  show ?case
  proof (cases "GetNextMessage_round rand stack now buf d lg")
    case (Inl lg')
    then show ?thesis using 1 by (simp add: GetNextMessage_loop.simps [of rand stack now buf d lg])
  next
    case (Inr x)
    then show ?thesis using 1 by (simp add: GetNextMessage_loop.simps [of rand stack now buf d lg])
  qed
qed

text \<open>The messages the client may still send.\<close>

definition messages_left :: "CStunClientLogic \<Rightarrow> nat" where
  "messages_left lg = (length (lg_testlist lg) - lg_nTestIndex lg) * unat (uMaxAttempts (lg_config lg)) - unat (lg_sendCount lg)"

text \<open>What a call of \<open>GetNextMessage\<close> does, by its result.\<close>

definition message_sent :: "u32 \<Rightarrow> cbuffer \<Rightarrow> cbuffer \<Rightarrow> simple_sockaddr \<Rightarrow> CStunClientLogic \<Rightarrow> bool" where
  "message_sent now buf buf' d' lg' \<longleftrightarrow>
     (let t = current_test lg'
      in wf_buffer buf' \<and> cb_allocatedSize buf' = cb_allocatedSize buf \<and> IsTransactionIdValid (ct_transid t) \<and>
         buffer_bytes buf' = request_image (ct_transid t) (test_change t) \<and> d' = test_dest (lg_config lg') (lg_results lg') t \<and>
         lg_timeLastMessageSent lg' = now)"

definition asked ::
  "u32 \<Rightarrow> cbuffer \<Rightarrow> simple_sockaddr \<Rightarrow> StunClientLogicConfig \<Rightarrow> nat \<Rightarrow> hresult \<times> cbuffer \<times> simple_sockaddr \<times> CStunClientLogic \<Rightarrow> bool" where
  "asked now buf d config left = (\<lambda>(hr, buf', d', lg').
     client_core lg' \<and> lg_config lg' = config \<and>
     (hr = E_STUNCLIENT_RESULTS_READY \<and> (buf', d') = (buf, d) \<and> \<not> running lg' \<and> messages_left lg' \<le> left \<or>
      hr = E_STUNCLIENT_STILL_WAITING \<and> (buf', d') = (buf, d) \<and> pending lg' \<and> waiting now lg' \<and> messages_left lg' \<le> left \<or>
      hr = S_OK \<and> pending lg' \<and> message_sent now buf buf' d' lg' \<and> messages_left lg' < left))"

lemma early_check_left [simp]: "messages_left (early_check lg) = messages_left lg" "running (early_check lg) = running lg"
  by (simp_all add: messages_left_def running_def)

lemma left_next:
  assumes "client_core lg" "running lg"
  shows "messages_left (next_test lg) \<le> messages_left lg"
proof -
  let ?n = "unat (uMaxAttempts (lg_config lg))"
  obtain k where k: "length (lg_testlist lg) - lg_nTestIndex lg = Suc k" using assms(2) by (cases "length (lg_testlist lg) - lg_nTestIndex lg") (auto simp: running_def)
  have "unat (lg_sendCount lg) \<le> ?n" using assms(1) by (simp add: client_core_def word_le_nat_alt)
  moreover have "length (lg_testlist lg) - Suc (lg_nTestIndex lg) = k" using k by simp
  ultimately show ?thesis using k by (simp add: messages_left_def next_test_def)
qed

lemma left_send:
  assumes "client_core lg" "running lg" "\<not> uMaxAttempts (lg_config lg) \<le> lg_sendCount lg"
  shows "messages_left (lg\<lparr>lg_testlist := (lg_testlist lg)[lg_nTestIndex lg := t], lg_sendCount := lg_sendCount lg + 1, lg_timeLastMessageSent := now\<rparr>) < messages_left lg"
    "lg_sendCount lg + 1 \<le> uMaxAttempts (lg_config lg)"
proof -
  let ?n = "unat (uMaxAttempts (lg_config lg))"
  obtain k where k: "length (lg_testlist lg) - lg_nTestIndex lg = Suc k" using assms(2) by (cases "length (lg_testlist lg) - lg_nTestIndex lg") (auto simp: running_def)
  have lt: "unat (lg_sendCount lg) < ?n" using assms(3) by (simp add: word_le_nat_alt)
  have "?n < 2 ^ 32" using unsigned_less [of "uMaxAttempts (lg_config lg)"] by simp
  with lt have "unat (lg_sendCount lg + 1) = unat (lg_sendCount lg) + 1" by (simp add: unat_word_ariths)
  then show "messages_left (lg\<lparr>lg_testlist := (lg_testlist lg)[lg_nTestIndex lg := t], lg_sendCount := lg_sendCount lg + 1, lg_timeLastMessageSent := now\<rparr>) < messages_left lg"
    "lg_sendCount lg + 1 \<le> uMaxAttempts (lg_config lg)"
    using k lt by (simp_all add: messages_left_def word_le_nat_alt)
qed

lemma round_again:
  assumes "client_core lg" "GetNextMessage_round rand stack now buf d lg = Inl lg'"
  shows "client_core lg'" "lg_config lg' = lg_config lg" "messages_left lg' \<le> messages_left lg"
proof -
  have r: "running lg" using assms(2) by (auto simp: GetNextMessage_round_def running_def split: if_splits)
  let ?e = "early_check lg"
  have e: "client_core ?e" "running ?e" "lg_fPreCheckRunOnTest ?e" using core_early [OF assms(1) r] r by simp_all
  consider "test_over ?e" "lg' = next_test ?e" | "\<not> test_over ?e" "lg' = on_current Test_NotifyTimeout ?e"
    using assms(2) r by (auto simp: GetNextMessage_round_def Let_def running_def split: if_splits)
  then have "client_core lg' \<and> lg_config lg' = lg_config lg \<and> messages_left lg' \<le> messages_left lg"
  proof cases
    case 1
    then show ?thesis using core_next [OF e 1(1)] left_next [OF e(1,2)] by (simp add: next_test_def)
  next
    case 2
    then show ?thesis using core_expire [of ?e] e by (simp add: pending_def messages_left_def)
  qed
  then show "client_core lg'" "lg_config lg' = lg_config lg" "messages_left lg' \<le> messages_left lg" by simp_all
qed

lemma ready_transid [simp]: "Test_IsReadyToRun (t\<lparr>ct_transid := x\<rparr>) res = Test_IsReadyToRun t res"
  by (simp add: ready_defs split: TestClass.split)

lemma core_send:
  assumes core: "client_core lg" and p: "pending lg" and more: "\<not> uMaxAttempts (lg_config lg) \<le> lg_sendCount lg"
    and buf: "wf_buffer buf" "800 \<le> cb_allocatedSize buf" and stack: "length stack = 16"
  shows "asked now buf d (lg_config lg) (messages_left lg) (send_message rand stack now buf d lg)"
proof -
  let ?t = "current_test lg"
  have r: "running lg" "lg_fPreCheckRunOnTest lg" using p by (simp_all add: pending_def)
  have tid: "wf_transid (ct_transid ?t)" using core running_mem [OF r(1)] by (simp add: client_core_def)
  note id = session_id_ok [OF stack tid, of rand]
  define t' where "t' = ?t\<lparr>ct_transid := session_id rand stack ?t\<rparr>"
  obtain buf' where msg: "Test_GetMessage rand stack (lg_config lg) (lg_results lg) buf ?t = (S_OK, buf', test_dest (lg_config lg) (lg_results lg) ?t, t')"
    "wf_buffer buf'" "cb_allocatedSize buf' = cb_allocatedSize buf" "buffer_bytes buf' = request_image (session_id rand stack ?t) (test_change ?t)"
    using virtual.msg_ok [OF TrueI buf stack tid] unfolding t'_def by blast
  define lg' where "lg' = lg\<lparr>lg_testlist := (lg_testlist lg)[lg_nTestIndex lg := t'], lg_sendCount := lg_sendCount lg + 1, lg_timeLastMessageSent := now\<rparr>"
  have s: "send_message rand stack now buf d lg = (S_OK, buf', test_dest (lg_config lg) (lg_results lg) ?t, lg')"
    by (simp add: send_message_def msg(1) lg'_def)
  have cur: "current_test lg' = t'" "running lg'" "lg_config lg' = lg_config lg" "lg_results lg' = lg_results lg" "lg_fPreCheckRunOnTest lg'"
    "lg_timeLastMessageSent lg' = now"
    using r by (simp_all add: lg'_def running_def current_test_def)
  have t': "ct_transid t' = session_id rand stack ?t" "test_change t' = test_change ?t" "test_dest c x t' = test_dest c x ?t" for c x
    by (simp_all add: t'_def virtual.spec_stable)
  have over: "test_over lg' = test_over lg" by (simp add: test_over_def cur) (simp add: t'_def)
  note left = left_send [OF core r(1) more]
  have "lg' = lg\<lparr>lg_testlist := (lg_testlist lg)[lg_nTestIndex lg := t'], lg_results := lg_results lg, lg_fPreCheckRunOnTest := True,
    lg_sendCount := lg_sendCount lg + 1, lg_timeLastMessageSent := now\<rparr>" using r by (simp add: lg'_def)
  moreover have "client_core (lg\<lparr>lg_testlist := (lg_testlist lg)[lg_nTestIndex lg := t'], lg_results := lg_results lg, lg_fPreCheckRunOnTest := True,
    lg_sendCount := lg_sendCount lg + 1, lg_timeLastMessageSent := now\<rparr>)"
    by (rule core_update [OF core r(1)])
      (use core r id(1) running_stage [OF r(1)] left(2) in \<open>simp_all add: client_core_def t'_def\<close>)
  ultimately have "client_core lg'" by simp
  moreover have "messages_left lg' < messages_left lg" using left(1) [where t = t' and now = now] by (simp add: lg'_def)
  moreover have "message_sent now buf buf' (test_dest (lg_config lg) (lg_results lg) ?t) lg'"
    using msg(2-4) id(2) by (simp add: message_sent_def Let_def cur t')
  ultimately show ?thesis using p over cur by (simp add: s asked_def pending_def)
qed

lemma round_exit:
  assumes core: "client_core lg" and exit: "GetNextMessage_round rand stack now buf d lg = Inr x"
    and buf: "wf_buffer buf" "800 \<le> cb_allocatedSize buf" and stack: "length stack = 16"
  shows "asked now buf d (lg_config lg) (messages_left lg) x"
proof (cases "running lg")
  case False
  then have "x = (E_STUNCLIENT_RESULTS_READY, buf, d, lg)" using exit by (simp add: GetNextMessage_round_def running_def)
  then show ?thesis using core False by (simp add: asked_def)
next
  case True
  let ?e = "early_check lg"
  have e: "client_core ?e" using core_early [OF core True] .
  have p: "pending ?e" using exit True by (auto simp: GetNextMessage_round_def Let_def pending_def running_def split: if_splits)
  consider "waiting now ?e" "x = (E_STUNCLIENT_STILL_WAITING, buf, d, ?e)"
    | "\<not> uMaxAttempts (lg_config ?e) \<le> lg_sendCount ?e" "x = send_message rand stack now buf d ?e"
    using exit True by (auto simp: GetNextMessage_round_def Let_def running_def split: if_splits)
  then show ?thesis
  proof cases
    case 1
    then show ?thesis using e p by (simp add: asked_def)
  next
    case 2
    then show ?thesis using core_send [OF e p 2(1) buf stack, of now d rand] by simp
  qed
qed

lemma loop_asked:
  assumes "client_core lg" "wf_buffer buf" "800 \<le> cb_allocatedSize buf" "length stack = 16"
  shows "asked now buf d (lg_config lg) (messages_left lg) (GetNextMessage_loop rand stack now buf d lg)"
proof (rule GetNextMessage_rule [where P = "\<lambda>l. client_core l \<and> lg_config l = lg_config lg \<and> messages_left l \<le> messages_left lg"])
  fix l l'
  assume "client_core l \<and> lg_config l = lg_config lg \<and> messages_left l \<le> messages_left lg" "GetNextMessage_round rand stack now buf d l = Inl l'"
  then show "client_core l' \<and> lg_config l' = lg_config lg \<and> messages_left l' \<le> messages_left lg" using round_again [of l rand stack now buf d l'] by auto
next
  fix l x
  assume "client_core l \<and> lg_config l = lg_config lg \<and> messages_left l \<le> messages_left lg" "GetNextMessage_round rand stack now buf d l = Inr x"
  then show "asked now buf d (lg_config lg) (messages_left lg) x"
    using round_exit [of l rand stack now buf d x] assms(2-4) by (auto simp: asked_def split: prod.splits)
qed (use assms(1) in simp)

section \<open>Runs\<close>

lemma stun_client_codes:
  "E_STUNCLIENT_RESULTS_READY \<noteq> S_OK" "E_STUNCLIENT_STILL_WAITING \<noteq> S_OK" "E_STUNCLIENT_RESULTS_READY \<noteq> E_STUNCLIENT_STILL_WAITING"
  "E_FAIL \<noteq> S_OK" "E_INVALIDARG \<noteq> S_OK" "E_INVALIDARG \<noteq> E_STUNCLIENT_RESULTS_READY" "E_INVALIDARG \<noteq> E_STUNCLIENT_STILL_WAITING"
  by (simp_all add: E_STUNCLIENT_RESULTS_READY_def E_STUNCLIENT_STILL_WAITING_def S_OK_def E_FAIL_def E_INVALIDARG_def)

lemma GetNextMessage_cases:
  assumes "client_core lg" "wf_buffer buf" "length stack = 16"
  obtains (refused) "pDest = None \<or> cb_allocatedSize buf < 800" "GetNextMessage rand stack buf pDest now lg = (E_INVALIDARG, buf, pDest, lg)"
  | (asked) d hr buf' d' lg' where "pDest = Some d" "800 \<le> cb_allocatedSize buf"
      "GetNextMessage rand stack buf pDest now lg = (hr, buf', Some d', lg')" "asked now buf d (lg_config lg) (messages_left lg) (hr, buf', d', lg')"
proof (cases "pDest = None \<or> cb_allocatedSize buf < 800")
  case True
  then show ?thesis using assms(1) refused by (auto simp: GetNextMessage_def client_core_def MAX_STUN_MESSAGE_SIZE_def split: option.splits)
next
  case False
  then obtain d where d: "pDest = Some d" "800 \<le> cb_allocatedSize buf" by auto
  obtain hr buf' d' lg' where l: "GetNextMessage_loop rand stack now buf d lg = (hr, buf', d', lg')" by (metis prod_cases4)
  have "GetNextMessage rand stack buf pDest now lg = (hr, buf', Some d', lg')"
    using d assms(1) l by (simp add: GetNextMessage_def client_core_def MAX_STUN_MESSAGE_SIZE_def)
  then show ?thesis using asked [OF d] loop_asked [OF assms(1,2) d(2) assms(3), of now d rand] l by simp
qed

lemma asked_settled: "asked now buf d config left (hr, buf', d', lg') \<Longrightarrow> client_ok lg'"
  by (auto simp: asked_def client_ok_def settled_def)

lemma core_response:
  assumes "client_ok lg" "Logic_ProcessResponse buf remote local lg = (hr, lg')"
  shows "client_ok lg'" "lg_config lg' = lg_config lg" "messages_left lg' = messages_left lg"
proof -
  have "client_ok lg' \<and> lg_config lg' = lg_config lg \<and> messages_left lg' = messages_left lg"
  proof (cases "cb_size buf = 0 \<or> \<not> running lg \<or> ct_fCompleted (current_test lg)")
    case True
    then have "lg' = lg" using assms by (auto simp: Logic_ProcessResponse_def running_def split: if_splits)
    then show ?thesis using assms(1) by simp
  next
    case False
    let ?t = "current_test lg"
    have r: "running lg" "\<not> ct_fCompleted ?t" using False by simp_all
    have core: "client_core lg" using assms(1) by (simp add: client_ok_def)
    obtain h t res where f: "Test_ProcessResponse (lg_config lg) buf remote local (?t, lg_results lg) = (h, t, res)" by (metis prod_cases3)
    have lg': "lg' = on_current (\<lambda>x. snd (Test_ProcessResponse (lg_config lg) buf remote local x)) lg" "hr = h"
      using assms(2) False core f by (auto simp: Logic_ProcessResponse_def running_def client_core_def)
    have e: "lg' = lg\<lparr>lg_testlist := (lg_testlist lg)[lg_nTestIndex lg := t], lg_results := res, lg_fPreCheckRunOnTest := lg_fPreCheckRunOnTest lg,
      lg_sendCount := lg_sendCount lg, lg_timeLastMessageSent := lg_timeLastMessageSent lg\<rparr>"
      by (simp add: lg' on_current_def f)
    have t: "if SUCCEEDED h then t = ?t\<lparr>ct_fCompleted := True\<rparr> else (t, res) = (?t, lg_results lg)" by (rule virtual.resp_over [OF TrueI f])
    have ok: "stage_ok (lg_config lg) (ct_stage ?t) (ct_fCompleted ?t) (lg_fPreCheckRunOnTest lg) (lg_results lg)" "classified (lg_config lg) (lg_results lg)"
      using core running_stage [OF r(1)] r by (simp_all add: client_core_def)
    have "ct_stage ?t = 0 \<or> lg_fPreCheckRunOnTest lg \<and> Test_IsReadyToRun ?t (lg_results lg)"
      using assms(1) r running_stage [OF r(1)] by (auto simp: client_ok_def settled_def pending_def test_over_def)
    note ok' = response_ok [OF ok r(2) this f]
    have "client_core lg'" unfolding e
      by (rule core_update [OF core r(1)]) (use t ok' core running_mem [OF r(1)] in \<open>auto simp: client_core_def split: if_splits\<close>)
    moreover have "settled lg'"
    proof (cases "SUCCEEDED h")
      case True
      have "running lg'" "current_test lg' = t" using r by (simp_all add: e running_def current_test_def)
      then show ?thesis using t True by (simp add: settled_def lg_over_def)
    next
      case False
      then have "lg' = lg" using t by (simp add: e current_test_def)
      then show ?thesis using assms(1) by (simp add: client_ok_def)
    qed
    ultimately show ?thesis by (simp add: client_ok_def) (simp add: e messages_left_def)
  qed
  then show "client_ok lg'" "lg_config lg' = lg_config lg" "messages_left lg' = messages_left lg" by simp_all
qed

text \<open>All the messages a configuration allows.\<close>

definition message_budget :: "StunClientLogicConfig \<Rightarrow> nat" where
  "message_budget config = length (fresh_tests config) * unat (uMaxAttempts (effective_config config))"

lemma run_ok: "client_run config n lg \<Longrightarrow> client_ok lg \<and> lg_config lg = effective_config config \<and> n + messages_left lg \<le> message_budget config"
proof (induction rule: client_run.induct)
  case (run_start old precheck lg)
  show ?case using core_start [OF run_start] by (simp add: client_ok_def settled_def) (simp add: Initialize_ok [OF run_start] messages_left_def message_budget_def)
next
  case (run_ask n lg buf stack rand pDest now hr buf' pDest' lg')
  have core: "client_core lg" using run_ask.IH by (simp add: client_ok_def)
  from core run_ask.hyps(2,3) show ?case
  proof (cases rule: GetNextMessage_cases [where rand = rand and pDest = pDest and now = now])
    case refused
    then show ?thesis using run_ask.hyps(4) run_ask.IH stun_client_codes(5) by auto
  next
    case (asked d hr2 buf2 d2 lg2)
    then have e: "hr2 = hr" "lg2 = lg'" using run_ask.hyps(4) by simp_all
    show ?thesis using asked_settled [OF asked(4)] asked(4) run_ask.IH stun_client_codes(1,2) by (auto simp: asked_def e)
  qed
next
  case (run_receive n lg buf remote local hr lg')
  then show ?case using core_response [of lg buf remote local hr lg'] by simp
qed

section \<open>Client and server\<close>

text \<open>
  The client and the server together: the client's request as the server reads it, the server's
  answer to it, and what the client reads in that answer.
\<close>

lemma request_message_ok:
  "wf_transid tid \<Longrightarrow> message_ok True StunMsgTypeBinding StunMsgClassRequest tid [(STUN_ATTRIBUTE_CHANGEREQUEST, change_request_value c)]"
  by (simp add: message_ok_def valid_class_def StunMsgTypeBinding_def length_attr_bytes change_request_value_def pad4_def)

lemma request_read:
  assumes tid: "wf_transid tid"
  shows "Reader_GetState (received True [request_image tid c]) = BodyValidated"
    "GetMessageClass (received True [request_image tid c]) = StunMsgClassRequest"
    "GetMessageType (received True [request_image tid c]) = StunMsgTypeBinding"
    "Reader_GetTransactionId (received True [request_image tid c]) = tid"
    "IsMessageLegacyFormat (received True [request_image tid c]) \<longleftrightarrow> take 4 tid \<noteq> be32 STUN_COOKIE"
    "GetChangeRequest (received True [request_image tid c]) = (S_OK, c)"
    "requested_port (received True [request_image tid c]) = 0"
    "CDataStream_GetDataPointerUnsafe (rd_stream (received True [request_image tid c])) \<noteq> None"
proof -
  let ?r = "received True [request_image tid c]" and ?as = "[(STUN_ATTRIBUTE_CHANGEREQUEST, change_request_value c)]"
  note ok = request_message_ok [OF tid, of c]
  have ra: "reader_after True (message StunMsgTypeBinding StunMsgClassRequest tid ?as) ?r"
    by (rule received_message [OF ok]) (simp add: request_image_def)
  note m = message_read [OF ok ra]
  show "Reader_GetState ?r = BodyValidated" "GetMessageClass ?r = StunMsgClassRequest" "GetMessageType ?r = StunMsgTypeBinding"
    "Reader_GetTransactionId ?r = tid" "IsMessageLegacyFormat ?r \<longleftrightarrow> take 4 tid \<noteq> be32 STUN_COOKIE" using m by simp_all
  show "GetChangeRequest ?r = (S_OK, c)"
    by (rule has_value_change_request) (use message_lookup(2) [OF ok ra, of STUN_ATTRIBUTE_CHANGEREQUEST] in simp)
  have "attr_lookup STUN_ATTRIBUTE_RESPONSE_PORT ?r = None"
    using message_lookup(1) [OF ok ra, of STUN_ATTRIBUTE_RESPONSE_PORT] by (simp add: stun_consts)
  then show "requested_port ?r = 0" by (simp add: requested_port_def GetResponsePort_def)
  have "rd_state ?r = BodyValidated" using m(1) by (simp add: Reader_GetState_def)
  then show "CDataStream_GetDataPointerUnsafe (rd_stream ?r) \<noteq> None" by (rule accepted_request(2) [OF ra])
qed

text \<open>A server without authentication answers a request that asks for no change from the same socket.\<close>

lemma plain_reply:
  assumes "wf_transid tid"
  shows "reply_to hmac md5 None tas msgIn (received True [request_image tid no_change]) =
    BindingReply (in_socketrole msgIn) (reported_origin tas msgIn (in_socketrole msgIn)) (reported_other tas (in_socketrole msgIn)) None"
  using request_read [OF assms, of no_change]
  by (simp add: reply_to_def auth_verdict_def binding_reply_def Let_def wants_change_def) (simp add: no_change_def)

lemma same_endpoint_through:
  "wf_addr l \<Longrightarrow> wf_addr x \<Longrightarrow> CSocketAddress_IsSameIP_and_Port x m \<Longrightarrow>
   CSocketAddress_IsSameIP_and_Port l m \<longleftrightarrow> CSocketAddress_IsSameIP_and_Port l x"
  by (auto simp: CSocketAddress_IsSameIP_and_Port_def IsSameIP_iff)

text \<open>The answer as the client reads it.\<close>

lemma plain_answer_read:
  assumes serve: "serving hmac md5 None tas msgIn msgOut (received True [request_image tid no_change])" and tid: "wf_transid tid"
    and bytes: "bs = sent_bytes (response hmac md5 None tas msgIn msgOut)"
  shows "Reader_GetState (received True [bs]) = BodyValidated" "Reader_GetTransactionId (received True [bs]) = tid"
    "same_address (in_addrRemote msgIn) (Reader_GetXorMappedAddress z (received True [bs]))"
    "reads_option (reported_other tas (in_socketrole msgIn)) (GetOtherAddress z (received True [bs]))"
proof -
  let ?r = "received True [request_image tid no_change]" and ?rd = "received True [bs]" and ?l = "take 4 tid \<noteq> be32 STUN_COOKIE"
  let ?origin = "reported_origin tas msgIn (in_socketrole msgIn)" and ?other = "reported_other tas (in_socketrole msgIn)"
  let ?as = "with_mac hmac None StunMsgTypeBinding StunMsgClassSuccessResponse tid (binding_attrs ?l tid (in_addrRemote msgIn) ?origin ?other)"
  note req = request_read [OF tid, of no_change]
  have v: "valid_input tas msgIn ?r" "\<forall>k d. length (hmac k d) = 20" using serve by (simp_all add: serving_def)
  note ad = reply_addresses [OF v(1) plain_reply [OF tid]]
  have w: "wf_addr (in_addrRemote msgIn)" "wf_opt ?origin" "wf_opt ?other" using v(1) ad by (simp_all add: valid_input_def)
  have ok: "message_ok True StunMsgTypeBinding StunMsgClassSuccessResponse tid ?as" by (rule binding_message_ok [OF w tid v(2)])
  have "concat [bs] = message StunMsgTypeBinding StunMsgClassSuccessResponse tid ?as"
    using serving_sent(1) [OF serve] by (simp add: bytes plain_reply [OF tid] reply_bytes_def Let_def req)
  then have ra: "reader_after True (message StunMsgTypeBinding StunMsgClassSuccessResponse tid ?as) ?rd" by (rule received_message [OF ok])
  show "Reader_GetState ?rd = BodyValidated" "Reader_GetTransactionId ?rd = tid"
    "same_address (in_addrRemote msgIn) (Reader_GetXorMappedAddress z ?rd)" "reads_option ?other (GetOtherAddress z ?rd)"
    using message_read [OF ok ra] binding_reads [OF ok ra w tid, of z] by simp_all
qed

text \<open>The binding test takes it.\<close>

lemma binding_takes:
  assumes msg: "wf_buffer buf" "cb_allocatedSize buf < size_range" "response_valid buf t"
    and mapped: "Reader_GetXorMappedAddress CSocketAddress_default (response_reader buf) = (S_OK, m)"
    and other: "GetOtherAddress CSocketAddress_default (response_reader buf) = (ho, x)"
    and r: "BasicBinding_ProcessResponse config buf remote local (t, res) = (hr, t', res')"
  shows "hr = S_OK" "fBindingTestSuccess res'" "addrMapped res' = m" "fIsDirect res' = CSocketAddress_IsSameIP_and_Port local m"
    "fHasOtherAddress res' = SUCCEEDED ho" "SUCCEEDED ho \<Longrightarrow> addrAA res' = x" "ct_fCompleted t'"
  using r msg mapped other by (auto simp: BasicBinding_ProcessResponse_def BasicReaderValidation_eq response_mapped_def Let_def split: if_splits)

section \<open>The calls of a run\<close>

text \<open>Every state of a run has the invariant.\<close>

lemma run_core: "client_run config n lg \<Longrightarrow> client_core lg" "client_run config n lg \<Longrightarrow> lg_config lg = effective_config config"
  using run_ok [of config n lg] by (simp_all add: client_ok_def)

lemma ask_outcome:
  assumes "client_core lg" "wf_buffer buf" "800 \<le> cb_allocatedSize buf" "length stack = 16"
  obtains hr buf' d' lg' where "GetNextMessage rand stack buf (Some d) now lg = (hr, buf', Some d', lg')"
    "asked now buf d (lg_config lg) (messages_left lg) (hr, buf', d', lg')"
proof -
  from assms(1,2,4) show thesis
  proof (cases rule: GetNextMessage_cases [where rand = rand and pDest = "Some d" and now = now])
    case refused
    then show ?thesis using assms(3) by simp
  next
    case (asked d0 hr buf' d' lg')
    then show ?thesis using that by simp
  qed
qed

text \<open>The first call on a new client sends the binding request.\<close>

lemma send_index: "lg_nTestIndex (snd (snd (snd (send_message rand stack now buf d lg)))) = lg_nTestIndex lg"
  by (simp add: send_message_def Let_def split: prod.splits)

lemma send_count: "SUCCEEDED (fst (send_message rand stack now buf d lg)) \<Longrightarrow>
    lg_sendCount (snd (snd (snd (send_message rand stack now buf d lg)))) = lg_sendCount lg + 1"
  by (auto simp: send_message_def Let_def split: prod.splits if_splits)

lemma send_ok:
  assumes "wf_buffer buf" "800 \<le> cb_allocatedSize buf" "length stack = 16" "wf_transid (ct_transid (current_test lg))"
  shows "fst (send_message rand stack now buf d lg) = S_OK"
proof -
  obtain buf' where "Test_GetMessage rand stack (lg_config lg) (lg_results lg) buf (current_test lg) =
      (S_OK, buf', test_dest (lg_config lg) (lg_results lg) (current_test lg), current_test lg\<lparr>ct_transid := session_id rand stack (current_test lg)\<rparr>)"
    using virtual.msg_ok [OF TrueI assms, of rand "lg_config lg" "lg_results lg"] by blast
  then show ?thesis by (simp add: send_message_def)
qed

lemma first_message:
  assumes init: "CStunClientLogic_Initialize config (CStunClientLogic_new old precheck) = (S_OK, lg)"
    and buf: "wf_buffer buf" "800 \<le> cb_allocatedSize buf" and stack: "length stack = 16"
  shows "\<exists>buf' d' lg'. GetNextMessage rand stack buf (Some d) now lg = (S_OK, buf', Some d', lg') \<and> lg_nTestIndex lg' = 0 \<and> lg_sendCount lg' = 1"
proof -
  note core = core_start(1) [OF init] and lg = Initialize_ok [OF init]
  let ?e = "early_check lg"
  have cur: "running lg" "current_test lg = fresh_test CBasicBindingTest False"
    using fresh_tests_ok(4,5) [of config] by (simp_all add: lg running_def current_test_def hd_conv_nth [symmetric])
  have c: "current_test ?e = current_test lg"
    using cur by (simp add: early_check_def running_def Test_PreRunCheck_def fresh_test_def)
  have over: "\<not> test_over ?e" by (simp add: test_over_def c cur(2) fresh_test_def ready_defs)
  have more: "\<not> uMaxAttempts (lg_config ?e) \<le> lg_sendCount ?e" "\<not> waiting now ?e"
    by (simp_all add: lg waiting_def effective_config_def)
  have l: "GetNextMessage_loop rand stack now buf d lg = send_message rand stack now buf d ?e"
    using cur(1) over more by (simp add: GetNextMessage_loop.simps [of _ _ _ _ _ lg] GetNextMessage_round_def Let_def running_def)
  obtain hr buf' d' lg' where s: "send_message rand stack now buf d ?e = (hr, buf', d', lg')" by (metis prod_cases4)
  have "hr = S_OK" using send_ok [OF buf stack, of ?e rand now d] s by (simp add: c cur(2) fresh_test_def wf_transid_def stun_consts)
  moreover have "lg_nTestIndex lg' = 0" "lg_sendCount lg' = 1"
    using send_index [of rand stack now buf d ?e] send_count [of rand stack now buf d ?e] s \<open>hr = S_OK\<close> by (simp_all add: lg)
  ultimately show ?thesis using l s core buf by (simp add: GetNextMessage_def client_core_def MAX_STUN_MESSAGE_SIZE_def)
qed

text \<open>A call that yields a message.\<close>

lemma sent_asked:
  assumes "client_core lg" "wf_buffer buf" "length stack = 16" "GetNextMessage rand stack buf (Some d) now lg = (S_OK, buf', dest', lg')"
  obtains d' where "dest' = Some d'" "asked now buf d (lg_config lg) (messages_left lg) (S_OK, buf', d', lg')" "800 \<le> cb_allocatedSize buf"
    "GetNextMessage_loop rand stack now buf d lg = (S_OK, buf', d', lg')"
proof -
  from assms(1-3) have "\<exists>d'. dest' = Some d' \<and> asked now buf d (lg_config lg) (messages_left lg) (S_OK, buf', d', lg') \<and> 800 \<le> cb_allocatedSize buf"
  proof (cases rule: GetNextMessage_cases [where rand = rand and pDest = "Some d" and now = now])
    case refused
    then show ?thesis using assms(4) stun_client_codes(5) by simp
  next
    case (asked d0 hr b2 d2 l2)
    then show ?thesis using assms(4) by auto
  qed
  then obtain d' where d': "dest' = Some d'" "asked now buf d (lg_config lg) (messages_left lg) (S_OK, buf', d', lg')" "800 \<le> cb_allocatedSize buf" by blast
  moreover have "GetNextMessage_loop rand stack now buf d lg = (S_OK, buf', d', lg')"
    using assms(1,4) d'(1,3) by (auto simp: GetNextMessage_def client_core_def MAX_STUN_MESSAGE_SIZE_def split: prod.splits)
  ultimately show thesis by (rule that)
qed

end
