(* ===== verification/ClientTrace.thy ===== *)
theory ClientTrace
  imports ClientRun
begin

text \<open>
  What a client's results say about the messages on the wire. \<open>client_trace config es lg\<close> is a run of the client together
  with the history \<open>es\<close> of the messages it sent and heard; \<open>observed\<close> reads that history without looking at the
  client: which response answered which request. \<open>reports\<close> states the results as a function of these
  exchanges, by the definitions of RFC 5780 for a client behind a NAT; the invariant \<open>linked\<close> ties the flags and addresses the tests keep to them.
\<close>

section \<open>Histories\<close>

datatype client_event = Sent simple_sockaddr bytes | Heard bytes simple_sockaddr | Ended

definition asked_event :: "hresult \<Rightarrow> cbuffer \<Rightarrow> simple_sockaddr option \<Rightarrow> client_event list" where
  "asked_event hr buf d = (if hr = S_OK then [Sent (the d) (buffer_bytes buf)] else if hr = E_STUNCLIENT_RESULTS_READY then [Ended] else [])"

text \<open>
  The transport sends what \<open>GetNextMessage\<close> yields and hands over whatever it hears after its first message, with the
  address it heard it on.
\<close>

inductive client_trace :: "StunClientLogicConfig \<Rightarrow> client_event list \<Rightarrow> CStunClientLogic \<Rightarrow> bool" for config where
  trace_start: "CStunClientLogic_Initialize config (CStunClientLogic_new old precheck) = (S_OK, lg) \<Longrightarrow> client_trace config [] lg"
| trace_ask: "client_trace config es lg \<Longrightarrow> wf_buffer buf \<Longrightarrow> length stack = 16 \<Longrightarrow>
    GetNextMessage rand stack buf pDest now lg = (hr, buf', pDest', lg') \<Longrightarrow> client_trace config (es @ asked_event hr buf' pDest') lg'"
| trace_hear: "client_trace config es lg \<Longrightarrow> Sent d pk \<in> set es \<Longrightarrow> wf_buffer buf \<Longrightarrow> cb_allocatedSize buf < size_range \<Longrightarrow>
    Logic_ProcessResponse buf remote local lg = (hr, lg') \<Longrightarrow> client_trace config (es @ [Heard (buffer_bytes buf) local]) lg'"

section \<open>Exchanges\<close>

definition packet :: "bytes \<Rightarrow> reader" where
  "packet bs = received True [bs]"

definition packet_change :: "bytes \<Rightarrow> StunChangeRequestAttribute" where
  "packet_change pk = snd (GetChangeRequest (packet pk))"

text \<open>A response answers a request when it is a whole message with the request's id and, unless the request asks
  for another port, tells a mapped address.\<close>

definition answers :: "bytes \<Rightarrow> bytes \<Rightarrow> bool" where
  "answers pk bs \<longleftrightarrow> Reader_GetState (packet bs) = BodyValidated \<and>
     Reader_GetTransactionId (packet bs) = Reader_GetTransactionId (packet pk) \<and>
     (fChangePort (packet_change pk) \<or> SUCCEEDED (fst (response_mapped (packet bs))))"

record exchange =
  ex_dest :: simple_sockaddr
  ex_request :: bytes
  ex_response :: bytes
  ex_local :: simple_sockaddr

text \<open>The open request, which is the last one sent as long as it is unanswered and the client not at its end, and
  the exchanges so far.\<close>

type_synonym observer = "(simple_sockaddr \<times> bytes) option \<times> exchange list"

fun observe :: "client_event \<Rightarrow> observer \<Rightarrow> observer" where
  "observe (Sent d pk) (req, xs) = (Some (d, pk), xs)"
| "observe (Heard bs local) (req, xs) =
     (case req of None \<Rightarrow> (None, xs)
      | Some (d, pk) \<Rightarrow> if answers pk bs then (None, xs @ [\<lparr>ex_dest = d, ex_request = pk, ex_response = bs, ex_local = local\<rparr>])
                       else (req, xs))"
| "observe Ended (req, xs) = (None, xs)"

definition observed :: "client_event list \<Rightarrow> observer" where
  "observed es = fold observe es (None, [])"

definition ex_mapped :: "exchange \<Rightarrow> simple_sockaddr" where
  "ex_mapped x = snd (response_mapped (packet (ex_response x)))"

definition ex_other :: "exchange \<Rightarrow> simple_sockaddr option" where
  "ex_other x = (case GetOtherAddress CSocketAddress_default (packet (ex_response x)) of (hr, a) \<Rightarrow> if SUCCEEDED hr then Some a else None)"

definition ex_change :: "exchange \<Rightarrow> StunChangeRequestAttribute" where
  "ex_change x = packet_change (ex_request x)"

section \<open>The classes of RFC 5780\<close>

text \<open>Section 4.3: the mapping, from the addresses that the servers saw: the first exchange and those after it that ask for no change.\<close>

definition plain_exchanges :: "exchange list \<Rightarrow> exchange list" where
  "plain_exchanges xs = filter (\<lambda>x. ex_change x = no_change) xs"

definition mapping_class :: "exchange \<Rightarrow> exchange list \<Rightarrow> NatBehavior" where
  "mapping_class b xs =
     (case plain_exchanges xs of
        [] \<Rightarrow> UnknownBehavior
      | x # ys \<Rightarrow>
          if CSocketAddress_IsSameIP_and_Port (ex_mapped x) (ex_mapped b) then EndpointIndependentMapping
          else (case ys of [] \<Rightarrow> UnknownBehavior
                | y # zs \<Rightarrow> if CSocketAddress_IsSameIP_and_Port (ex_mapped y) (ex_mapped x) then AddressDependentMapping
                           else AddressAndPortDependentMapping))"

text \<open>Section 4.4: the filtering, from which requests for another source were answered.\<close>

definition change_both :: StunChangeRequestAttribute where "change_both = \<lparr>fChangeIP = True, fChangePort = True\<rparr>"
definition change_port :: StunChangeRequestAttribute where "change_port = \<lparr>fChangeIP = False, fChangePort = True\<rparr>"

definition answered :: "StunChangeRequestAttribute \<Rightarrow> exchange list \<Rightarrow> bool" where
  "answered c xs \<longleftrightarrow> (\<exists>x \<in> set xs. ex_change x = c)"

definition filtering_class :: "exchange list \<Rightarrow> NatFiltering" where
  "filtering_class xs =
     (if answered change_both xs then EndpointIndependentFiltering
      else if answered change_port xs then AddressDependentFiltering
      else AddressAndPortDependentFiltering)"

definition requested :: "StunChangeRequestAttribute \<Rightarrow> simple_sockaddr \<Rightarrow> client_event list \<Rightarrow> bool" where
  "requested c d es \<longleftrightarrow> (\<exists>pk. Sent d pk \<in> set es \<and> packet_change pk = c)"

section \<open>What the results report\<close>

definition binding_reported :: "simple_sockaddr \<Rightarrow> exchange \<Rightarrow> StunClientResults \<Rightarrow> bool" where
  "binding_reported server b res \<longleftrightarrow>
     ex_dest b = server \<and> ex_change b = no_change \<and> addrLocal res = ex_local b \<and> addrMapped res = ex_mapped b \<and>
     fIsDirect res = CSocketAddress_IsSameIP_and_Port (ex_local b) (ex_mapped b) \<and>
     (case ex_other b of None \<Rightarrow> \<not> fHasOtherAddress res
      | Some a \<Rightarrow> fHasOtherAddress res \<and> addrAA res = a \<and> addrAP res = CSocketAddress_SetPort (CSocketAddress_GetPort server) a \<and>
          addrPA res = CSocketAddress_SetPort (CSocketAddress_GetPort a) server)"

definition reports :: "StunClientLogicConfig \<Rightarrow> client_event list \<Rightarrow> StunClientResults \<Rightarrow> bool" where
  "reports config es res \<longleftrightarrow>
     (case snd (observed es) of
        [] \<Rightarrow> \<not> fBindingTestSuccess res \<and> \<not> fBehaviorTestSuccess res \<and> behavior res = UnknownBehavior \<and>
            \<not> fFilteringTestSuccess res \<and> filtering res = UnknownFiltering
      | b # xs \<Rightarrow>
          fBindingTestSuccess res \<and> binding_reported (addrServer config) b res \<and>
          (if fIsDirect res
           then xs = [] \<and> behavior res = (if fBehaviorTestSuccess res then DirectMapping else UnknownBehavior) \<and>
             filtering res = (if fFilteringTestSuccess res then EndpointIndependentFiltering else UnknownFiltering) \<and>
             (\<forall>d pk. Sent d pk \<in> set es \<longrightarrow> \<not> fChangePort (packet_change pk))
           else
             map ex_dest (plain_exchanges xs) = take (length (plain_exchanges xs)) [addrAP res, addrAA res] \<and>
             behavior res = mapping_class b xs \<and> (fBehaviorTestSuccess res \<longleftrightarrow> behavior res \<noteq> UnknownBehavior) \<and>
             (\<forall>x \<in> set xs. ex_change x \<noteq> no_change \<longrightarrow> ex_dest x = addrServer config) \<and>
             (if fFilteringTestSuccess res
              then filtering res = filtering_class xs \<and> requested change_both (addrServer config) es \<and>
                (\<not> answered change_both xs \<longrightarrow> requested change_port (addrServer config) es)
              else filtering res = UnknownFiltering \<and> \<not> answered change_both xs \<and> \<not> answered change_port xs)))"

lemma observed_simps [simp]:
  "observed [] = (None, [])" "observed (es @ [e]) = observe e (observed es)"
  by (simp_all add: observed_def)

lemma trace_run: "client_trace config es lg \<Longrightarrow> \<exists>n. client_run config n lg"
  by (induction rule: client_trace.induct) (blast intro: client_run.intros)+

section \<open>What a response does to a test\<close>

definition takes :: "cbuffer \<Rightarrow> IStunClientTest \<Rightarrow> bool" where
  "takes buf t \<longleftrightarrow> response_valid buf t \<and> (fChangePort (test_change t) \<or> SUCCEEDED (fst (response_mapped (response_reader buf))))"

lemma response_packet: "response_reader buf = packet (buffer_bytes buf)"
  by (simp add: response_reader_def packet_def)

lemma request_packet:
  assumes "wf_transid tid"
  shows "packet_change (request_image tid c) = c" "Reader_GetTransactionId (packet (request_image tid c)) = tid"
  using request_read [OF assms, of c] by (simp_all add: packet_change_def packet_def)

lemma answers_takes:
  "wf_transid (ct_transid t) \<Longrightarrow> answers (request_image (ct_transid t) (test_change t)) (buffer_bytes buf) \<longleftrightarrow> takes buf t"
  by (simp add: answers_def takes_def response_valid_def request_packet response_packet)

definition response_other :: "cbuffer \<Rightarrow> simple_sockaddr option" where
  "response_other buf = (case GetOtherAddress CSocketAddress_default (response_reader buf) of (hr, a) \<Rightarrow> if SUCCEEDED hr then Some a else None)"

definition bind_results :: "StunClientLogicConfig \<Rightarrow> simple_sockaddr \<Rightarrow> simple_sockaddr \<Rightarrow> simple_sockaddr option \<Rightarrow> StunClientResults \<Rightarrow> StunClientResults" where
  "bind_results config local m other res =
     (let r = res\<lparr>fBindingTestSuccess := True, fIsDirect := CSocketAddress_IsSameIP_and_Port local m, addrLocal := local, addrMapped := m,
        fHasOtherAddress := (other \<noteq> None)\<rparr>
      in case other of None \<Rightarrow> r
         | Some a \<Rightarrow> r\<lparr>addrAA := a, addrPA := CSocketAddress_SetPort (CSocketAddress_GetPort a) (addrServer config),
             addrAP := CSocketAddress_SetPort (CSocketAddress_GetPort (addrServer config)) a\<rparr>)"

lemma hear_test:
  assumes "wf_buffer buf" "cb_allocatedSize buf < size_range"
  defines "m \<equiv> snd (response_mapped (response_reader buf))"
  shows "snd (Test_ProcessResponse config buf remote local (t, res)) =
    (if \<not> takes buf t then (t, res)
     else (t\<lparr>ct_fCompleted := True\<rparr>,
       case ct_class t of
         CBasicBindingTest \<Rightarrow> bind_results config local m (response_other buf) res
       | CBehaviorTest \<Rightarrow>
           if ct_fIsTest3 t
           then res\<lparr>addrMappingAA := m, fBehaviorTestSuccess := True,
             behavior := (if CSocketAddress_IsSameIP_and_Port m (addrMappingAP res) then AddressDependentMapping else AddressAndPortDependentMapping)\<rparr>
           else if CSocketAddress_IsSameIP_and_Port m (addrMapped res)
           then res\<lparr>addrMappingAP := m, fBehaviorTestSuccess := True, behavior := EndpointIndependentMapping\<rparr>
           else res\<lparr>addrMappingAP := m\<rparr>
       | CFilteringTest \<Rightarrow>
           if ct_fIsTest3 t then res\<lparr>fGotTest3Response := True, fFilteringTestSuccess := True, filtering := AddressDependentFiltering\<rparr>
           else res\<lparr>fGotTest2Response := True, fFilteringTestSuccess := True, filtering := EndpointIndependentFiltering\<rparr>))"
  using assms(1,2)
  by (cases "ct_class t")
    (auto simp: Test_ProcessResponse_def BasicBinding_ProcessResponse_def Behavior_ProcessResponse_def Filtering_ProcessResponse_def
      BasicReaderValidation_eq takes_def test_change_def filtering_change_def no_change_def m_def bind_results_def response_other_def
      split_beta Let_def)

section \<open>Flags and exchanges\<close>

text \<open>What the results hold at a stage, in terms of the history.\<close>

definition bind_known :: "simple_sockaddr \<Rightarrow> exchange list \<Rightarrow> StunClientResults \<Rightarrow> bool" where
  "bind_known server xs res \<longleftrightarrow> (fBindingTestSuccess res \<longleftrightarrow> xs \<noteq> []) \<and> (xs \<noteq> [] \<longrightarrow> binding_reported server (hd xs) res)"

definition map_known :: "exchange list \<Rightarrow> StunClientResults \<Rightarrow> bool" where
  "map_known xs res \<longleftrightarrow>
     (let ps = plain_exchanges (tl xs) in
       map ex_dest ps = take (length ps) [addrAP res, addrAA res] \<and>
       addrMappingAP res = (if ps = [] then CSocketAddress_default else ex_mapped (hd ps)) \<and>
       (length ps = 2 \<longrightarrow> addrMappingAA res = ex_mapped (ps ! 1) \<and>
          \<not> CSocketAddress_IsSameIP_and_Port (ex_mapped (hd ps)) (ex_mapped (hd xs))))"

definition success_known :: "exchange list \<Rightarrow> StunClientResults \<Rightarrow> bool" where
  "success_known xs res \<longleftrightarrow>
     (let ps = plain_exchanges (tl xs) in
       xs \<noteq> [] \<and> \<not> fIsDirect res \<longrightarrow> (fBehaviorTestSuccess res \<longleftrightarrow>
          length ps = 2 \<or> ps \<noteq> [] \<and> CSocketAddress_IsSameIP_and_Port (ex_mapped (hd ps)) (ex_mapped (hd xs))))"

definition direct_known :: "exchange list \<Rightarrow> client_event list \<Rightarrow> StunClientResults \<Rightarrow> bool" where
  "direct_known xs es res \<longleftrightarrow>
     (is_direct res \<longrightarrow> tl xs = [] \<and> (\<forall>d pk. Sent d pk \<in> set es \<longrightarrow> \<not> fChangePort (packet_change pk)))"

definition filter_known :: "simple_sockaddr \<Rightarrow> exchange list \<Rightarrow> StunClientResults \<Rightarrow> bool" where
  "filter_known server xs res \<longleftrightarrow>
     fGotTest2Response res = answered change_both (tl xs) \<and> fGotTest3Response res = answered change_port (tl xs) \<and>
     (\<forall>x \<in> set (tl xs). ex_change x \<noteq> no_change \<longrightarrow> ex_dest x = server)"

definition asked_known :: "simple_sockaddr \<Rightarrow> client_event list \<Rightarrow> StunClientResults \<Rightarrow> bool" where
  "asked_known server es res \<longleftrightarrow>
     (\<not> is_direct res \<and> fFilteringTestSuccess res \<longrightarrow>
        requested change_both server es \<and> (\<not> fGotTest2Response res \<longrightarrow> requested change_port server es))"

definition stage_known :: "simple_sockaddr \<Rightarrow> nat \<Rightarrow> bool \<Rightarrow> exchange list \<Rightarrow> client_event list \<Rightarrow> StunClientResults \<Rightarrow> bool" where
  "stage_known server st over xs es res \<longleftrightarrow>
     (let ps = plain_exchanges (tl xs) in
       (st = 0 \<longrightarrow> tl xs = [] \<and> (\<not> over \<longrightarrow> xs = []) \<and> (\<forall>d pk. Sent d pk \<in> set es \<longrightarrow> \<not> fChangePort (packet_change pk))) \<and>
       (st = 1 \<longrightarrow> length ps \<le> 1 \<and> (\<not> over \<longrightarrow> ps = [])) \<and> (st = 2 \<and> \<not> over \<longrightarrow> length ps \<le> 1) \<and>
       (st = 3 \<and> over \<longrightarrow> fFilteringTestSuccess res \<or> requested change_both server es) \<and>
       (st = 4 \<and> \<not> over \<and> fBindingTestSuccess res \<and> fHasOtherAddress res \<and> \<not> fFilteringTestSuccess res \<longrightarrow>
          requested change_both server es))"

definition linked :: "StunClientLogicConfig \<Rightarrow> client_event list \<Rightarrow> nat \<Rightarrow> bool \<Rightarrow> StunClientResults \<Rightarrow> bool" where
  "linked config es st over res \<longleftrightarrow>
     (let xs = snd (observed es); server = addrServer config in
       bind_known server xs res \<and> map_known xs res \<and> success_known xs res \<and> direct_known xs es res \<and>
       filter_known server xs res \<and> asked_known server es res \<and> stage_known server st over xs es res)"

lemmas known_defs = bind_known_def map_known_def success_known_def direct_known_def filter_known_def asked_known_def stage_known_def

lemma known_frame [simp]:
  "is_direct (res\<lparr>behavior := b\<rparr>) = is_direct res" "is_direct (res\<lparr>filtering := f\<rparr>) = is_direct res"
  "is_direct (res\<lparr>fBehaviorTestSuccess := s\<rparr>) = is_direct res" "is_direct (res\<lparr>fFilteringTestSuccess := s\<rparr>) = is_direct res"
  "is_direct (res\<lparr>addrMappingAP := a\<rparr>) = is_direct res" "is_direct (res\<lparr>addrMappingAA := a\<rparr>) = is_direct res"
  "is_direct (res\<lparr>fGotTest2Response := s\<rparr>) = is_direct res" "is_direct (res\<lparr>fGotTest3Response := s\<rparr>) = is_direct res"
  "bind_known server xs (res\<lparr>behavior := b\<rparr>) = bind_known server xs res"
  "bind_known server xs (res\<lparr>filtering := f\<rparr>) = bind_known server xs res"
  "bind_known server xs (res\<lparr>fBehaviorTestSuccess := s\<rparr>) = bind_known server xs res"
  "bind_known server xs (res\<lparr>fFilteringTestSuccess := s\<rparr>) = bind_known server xs res"
  "bind_known server xs (res\<lparr>addrMappingAP := a\<rparr>) = bind_known server xs res"
  "bind_known server xs (res\<lparr>addrMappingAA := a\<rparr>) = bind_known server xs res"
  "bind_known server xs (res\<lparr>fGotTest2Response := s\<rparr>) = bind_known server xs res"
  "bind_known server xs (res\<lparr>fGotTest3Response := s\<rparr>) = bind_known server xs res"
  "map_known xs (res\<lparr>behavior := b\<rparr>) = map_known xs res" "map_known xs (res\<lparr>filtering := f\<rparr>) = map_known xs res"
  "map_known xs (res\<lparr>fBehaviorTestSuccess := s\<rparr>) = map_known xs res" "map_known xs (res\<lparr>fFilteringTestSuccess := s\<rparr>) = map_known xs res"
  "map_known xs (res\<lparr>fGotTest2Response := s\<rparr>) = map_known xs res" "map_known xs (res\<lparr>fGotTest3Response := s\<rparr>) = map_known xs res"
  "success_known xs (res\<lparr>behavior := b\<rparr>) = success_known xs res" "success_known xs (res\<lparr>filtering := f\<rparr>) = success_known xs res"
  "success_known xs (res\<lparr>fFilteringTestSuccess := s\<rparr>) = success_known xs res"
  "success_known xs (res\<lparr>addrMappingAP := a\<rparr>) = success_known xs res" "success_known xs (res\<lparr>addrMappingAA := a\<rparr>) = success_known xs res"
  "success_known xs (res\<lparr>fGotTest2Response := s\<rparr>) = success_known xs res" "success_known xs (res\<lparr>fGotTest3Response := s\<rparr>) = success_known xs res"
  "filter_known server xs (res\<lparr>behavior := b\<rparr>) = filter_known server xs res" "filter_known server xs (res\<lparr>filtering := f\<rparr>) = filter_known server xs res"
  "filter_known server xs (res\<lparr>fBehaviorTestSuccess := s\<rparr>) = filter_known server xs res"
  "filter_known server xs (res\<lparr>fFilteringTestSuccess := s\<rparr>) = filter_known server xs res"
  "filter_known server xs (res\<lparr>addrMappingAP := a\<rparr>) = filter_known server xs res"
  "filter_known server xs (res\<lparr>addrMappingAA := a\<rparr>) = filter_known server xs res"
  by (simp_all add: bind_known_def map_known_def success_known_def filter_known_def binding_reported_def is_direct_def split: option.split)

lemma default_zero: "CSocketAddress_IsIPAddressZero CSocketAddress_default"
  by code_simp

lemma changes_differ [simp]: "change_both \<noteq> no_change" "no_change \<noteq> change_both" "change_port \<noteq> no_change" "no_change \<noteq> change_port"
    "change_both \<noteq> change_port" "change_port \<noteq> change_both" "fChangePort change_both" "fChangePort change_port" "\<not> fChangePort no_change"
  by (simp_all add: change_both_def change_port_def no_change_def)

lemma linked_start: "linked config [] 0 False StunClientResults_Init"
  by (simp add: linked_def known_defs StunClientResults_Init_def plain_exchanges_def answered_def is_direct_def)

lemma early_eq:
  "Test_PreRunCheck (t, res) =
     (if is_direct res \<and> ct_stage t = 1 then (t\<lparr>ct_fCompleted := True\<rparr>, res\<lparr>behavior := DirectMapping, fBehaviorTestSuccess := True\<rparr>)
      else if is_direct res \<and> ct_stage t = 3
      then (t\<lparr>ct_fCompleted := True\<rparr>, res\<lparr>filtering := EndpointIndependentFiltering, fFilteringTestSuccess := True\<rparr>)
      else (t, res))"
  by (cases t rule: ct_stage_cases) (simp_all add: pre_run_defs is_direct_def)

lemma linkedD:
  assumes "linked config es st over res"
  shows "bind_known (addrServer config) (snd (observed es)) res" "map_known (snd (observed es)) res" "success_known (snd (observed es)) res"
    "direct_known (snd (observed es)) es res" "filter_known (addrServer config) (snd (observed es)) res"
    "asked_known (addrServer config) es res" "stage_known (addrServer config) st over (snd (observed es)) es res"
  using assms by (simp_all add: linked_def Let_def)

lemma linkedI:
  assumes "bind_known (addrServer config) (snd (observed es)) res" "map_known (snd (observed es)) res" "success_known (snd (observed es)) res"
    "direct_known (snd (observed es)) es res" "filter_known (addrServer config) (snd (observed es)) res"
    "asked_known (addrServer config) es res" "stage_known (addrServer config) st over (snd (observed es)) es res"
  shows "linked config es st over res"
  using assms by (simp add: linked_def Let_def)

lemma direct_known_cong: "is_direct res' = is_direct res \<Longrightarrow> direct_known xs es res' = direct_known xs es res"
  by (simp add: direct_known_def)

lemma linked_early:
  assumes k: "linked config es (ct_stage t) (ct_fCompleted t) res" and r: "Test_PreRunCheck (t, res) = (t', res')"
  shows "linked config es (ct_stage t) (ct_fCompleted t') res'"
proof (cases "is_direct res \<and> (ct_stage t = 1 \<or> ct_stage t = 3)")
  case True
  then have d: "is_direct res" and t': "ct_fCompleted t'"
    and res': "ct_stage t = 1 \<and> res' = res\<lparr>behavior := DirectMapping, fBehaviorTestSuccess := True\<rparr> \<or>
      ct_stage t = 3 \<and> res' = res\<lparr>filtering := EndpointIndependentFiltering, fFilteringTestSuccess := True\<rparr>"
    using r by (auto simp: early_eq)
  from res' have dir: "is_direct res'" using d by auto
  show ?thesis
  proof (rule linkedI)
    show "success_known (snd (observed es)) res'" using dir by (simp add: success_known_def is_direct_def)
    show "asked_known (addrServer config) es res'" using dir by (simp add: asked_known_def)
    show "direct_known (snd (observed es)) es res'" using linkedD(4) [OF k] d dir by (simp add: direct_known_def)
    show "stage_known (addrServer config) (ct_stage t) (ct_fCompleted t') (snd (observed es)) es res'"
      using linkedD(7) [OF k] t' res' by (auto simp: stage_known_def Let_def)
  qed (use linkedD [OF k] res' in auto)
qed (use k r in \<open>auto simp: early_eq\<close>)

lemma linked_next:
  assumes "linked config es (ct_stage t) (ct_fCompleted t) res" "ct_fCompleted t \<or> \<not> Test_IsReadyToRun t res" "classified c res"
  shows "linked config es (next_stage config (ct_stage t)) False res"
proof (rule linkedI)
  show "stage_known (addrServer config) (next_stage config (ct_stage t)) False (snd (observed es)) es res"
    using linkedD(7) [OF assms(1)] assms(2,3) unfolding classified_def
    by (cases t rule: ct_stage_cases) (auto simp: stage_known_def next_stage_def ready_defs plain_exchanges_def Let_def)
qed (rule linkedD [OF assms(1)])+

lemma linked_expire:
  assumes k: "linked config es (ct_stage t) False res" and ready: "Test_IsReadyToRun t res" and r: "Test_NotifyTimeout (t, res) = (t', res')"
    and req: "requested (test_change t) (test_dest config res t) es"
  shows "linked config es (ct_stage t) True res'"
  using ready
proof (cases t rule: ct_stage_cases)
  case basic
  have "snd (observed es) = []" "\<not> fBindingTestSuccess res" using linkedD(1,7) [OF k] basic by (simp_all add: stage_known_def bind_known_def Let_def)
  moreover then have "res' = res" using r basic by (auto simp: expire_defs)
  ultimately show ?thesis using k basic by (simp add: linked_def stage_known_def)
next
  case behavior2
  then have "res' = res" using r ready by (auto simp: expire_defs ready_defs)
  then show ?thesis using k behavior2 by (simp add: linked_def stage_known_def Let_def)
next
  case behavior3
  then have "res' = res" using r ready by (auto simp: expire_defs ready_defs)
  then show ?thesis using k behavior3 by (simp add: linked_def stage_known_def Let_def)
next
  case filtering2
  then have "res' = res" using r by (auto simp: expire_defs)
  moreover have "requested change_both (addrServer config) es"
    using req filtering2 by (simp add: test_change_def test_dest_def filtering_change_def change_both_def)
  ultimately show ?thesis using k filtering2 by (simp add: linked_def stage_known_def Let_def)
next
  case filtering3
  then have res': "res' = res\<lparr>fFilteringTestSuccess := True, filtering := AddressAndPortDependentFiltering\<rparr>" using r by (auto simp: expire_defs)
  have "requested change_port (addrServer config) es"
    using req filtering3 by (simp add: test_change_def test_dest_def filtering_change_def change_port_def)
  moreover have "requested change_both (addrServer config) es"
    using linkedD(7) [OF k] ready filtering3 by (simp add: stage_known_def Let_def ready_defs)
  ultimately show ?thesis using linkedD [OF k] filtering3
    by (intro linkedI) (simp_all add: res' asked_known_def stage_known_def direct_known_def)
qed

lemma requested_mono: "requested c d es \<Longrightarrow> requested c d (es @ fs)"
  by (auto simp: requested_def)

lemma linked_event:
  assumes "linked config es st over res" "snd (observed (es @ fs)) = snd (observed es)"
    "\<And>d pk. Sent d pk \<in> set fs \<Longrightarrow> is_direct res \<or> st = 0 \<Longrightarrow> \<not> fChangePort (packet_change pk)"
  shows "linked config (es @ fs) st over res"
proof (rule linkedI)
  show "direct_known (snd (observed (es @ fs))) (es @ fs) res"
    using linkedD(4) [OF assms(1)] assms(2,3) by (auto simp: direct_known_def)
  show "asked_known (addrServer config) (es @ fs) res"
    using linkedD(6) [OF assms(1)] requested_mono [of _ _ es fs] by (auto simp: asked_known_def)
  show "stage_known (addrServer config) st over (snd (observed (es @ fs))) (es @ fs) res"
    using linkedD(7) [OF assms(1)] assms(2,3) requested_mono [of _ _ es fs] by (auto simp: stage_known_def Let_def)
qed (use linkedD [OF assms(1)] assms(2) in simp_all)

lemma plain_snoc: "plain_exchanges (xs @ [x]) = plain_exchanges xs @ (if ex_change x = no_change then [x] else [])"
  by (simp add: plain_exchanges_def)

lemma answered_snoc: "answered c (xs @ [x]) \<longleftrightarrow> answered c xs \<or> ex_change x = c"
  by (auto simp: answered_def)

lemma ready_not_direct:
  assumes "stage_ok config (ct_stage t) False True res" "Test_IsReadyToRun t res" "ct_stage t \<noteq> 0"
  shows "fBindingTestSuccess res" "\<not> fIsDirect res"
  using assms by (cases t rule: ct_stage_cases; simp add: stage_ok_def ready_defs is_direct_def mapping_done_def)+

definition test_exchange :: "StunClientLogicConfig \<Rightarrow> StunClientResults \<Rightarrow> IStunClientTest \<Rightarrow> cbuffer \<Rightarrow> simple_sockaddr \<Rightarrow> exchange" where
  "test_exchange config res t buf local =
     \<lparr>ex_dest = test_dest config res t, ex_request = request_image (ct_transid t) (test_change t), ex_response = buffer_bytes buf, ex_local = local\<rparr>"

lemma test_exchange_fields:
  assumes "wf_transid (ct_transid t)"
  shows "ex_change (test_exchange config res t buf local) = test_change t" "ex_dest (test_exchange config res t buf local) = test_dest config res t"
    "ex_local (test_exchange config res t buf local) = local"
    "ex_mapped (test_exchange config res t buf local) = snd (response_mapped (response_reader buf))"
    "ex_other (test_exchange config res t buf local) = response_other buf"
  using request_packet(1) [OF assms, of "test_change t"]
  by (simp_all add: test_exchange_def ex_change_def ex_mapped_def ex_other_def response_packet response_other_def)

lemma observed_answer:
  assumes "fst (observed es) = Some (test_dest config res t, request_image (ct_transid t) (test_change t))" "wf_transid (ct_transid t)"
  shows "observed (es @ [Heard (buffer_bytes buf) local]) =
    (if takes buf t then (None, snd (observed es) @ [test_exchange config res t buf local]) else observed es)"
  using assms by (cases "observed es") (simp add: answers_takes test_exchange_def)

lemma set_Heard: "Sent d pk \<in> set (es @ [Heard bs local]) \<longleftrightarrow> Sent d pk \<in> set es"
  by simp

lemma requested_Heard [simp]: "requested c d (es @ [Heard bs local]) \<longleftrightarrow> requested c d es"
  by (simp add: requested_def)

lemma direct_known_Heard:
  "is_direct res' = is_direct res \<Longrightarrow> \<not> is_direct res \<Longrightarrow> direct_known xs es res'"
  by (simp add: direct_known_def)

lemma hear_basic:
  assumes k: "linked config es 0 False res" and tid: "wf_transid (ct_transid t)" and c: "ct_class t = CBasicBindingTest"
    and obs: "observed (es @ [Heard (buffer_bytes buf) local]) = (None, snd (observed es) @ [test_exchange config res t buf local])"
    and st: "stage_ok c0 0 False checked res"
  shows "linked config (es @ [Heard (buffer_bytes buf) local]) 0 True
    (bind_results config local (snd (response_mapped (response_reader buf))) (response_other buf) res)" (is "linked config ?es 0 True ?res")
proof -
  let ?x = "test_exchange config res t buf local"
  note x = test_exchange_fields [OF tid, of config res buf local]
  have e: "snd (observed es) = []" and sent: "\<And>d pk. Sent d pk \<in> set es \<Longrightarrow> \<not> fChangePort (packet_change pk)"
    using linkedD(7) [OF k] by (simp_all add: stage_known_def Let_def)
  have xs: "snd (observed ?es) = [?x]" using obs e by simp
  have f: "\<not> fBehaviorTestSuccess res" "\<not> fFilteringTestSuccess res" using st by (simp_all add: stage_ok_def)
  have r: "fBehaviorTestSuccess ?res = fBehaviorTestSuccess res" "fFilteringTestSuccess ?res = fFilteringTestSuccess res"
    "addrMappingAP ?res = addrMappingAP res" "fGotTest2Response ?res = fGotTest2Response res" "fGotTest3Response ?res = fGotTest3Response res"
    by (simp_all add: bind_results_def Let_def split: option.split)
  show ?thesis
  proof (rule linkedI, unfold xs)
    show "bind_known (addrServer config) [?x] ?res"
      by (auto simp: bind_known_def binding_reported_def x bind_results_def Let_def test_dest_def test_change_def c split: option.split)
    show "map_known [?x] ?res" using linkedD(2) [OF k] e by (simp add: map_known_def r plain_exchanges_def)
    show "success_known [?x] ?res" using f by (simp add: success_known_def r plain_exchanges_def)
    show "direct_known [?x] ?es ?res" using sent by (auto simp: direct_known_def)
    show "filter_known (addrServer config) [?x] ?res" using linkedD(5) [OF k] e by (simp add: filter_known_def r)
    show "asked_known (addrServer config) ?es ?res" using f by (simp add: asked_known_def r)
    show "stage_known (addrServer config) 0 True [?x] ?es ?res" using sent by (auto simp: stage_known_def)
  qed
qed

lemma hear_behavior2:
  assumes k: "linked config es 1 False res" and tid: "wf_transid (ct_transid t)" and c: "ct_class t = CBehaviorTest" "\<not> ct_fIsTest3 t"
    and obs: "observed (es @ [Heard (buffer_bytes buf) local]) = (None, snd (observed es) @ [test_exchange config res t buf local])"
    and b: "fBindingTestSuccess res" "\<not> fIsDirect res" "\<not> fBehaviorTestSuccess res"
  defines "m \<equiv> snd (response_mapped (response_reader buf))"
  shows "linked config (es @ [Heard (buffer_bytes buf) local]) 1 True
    (if CSocketAddress_IsSameIP_and_Port m (addrMapped res)
     then res\<lparr>addrMappingAP := m, fBehaviorTestSuccess := True, behavior := EndpointIndependentMapping\<rparr>
     else res\<lparr>addrMappingAP := m\<rparr>)" (is "linked config ?es 1 True ?res")
proof -
  let ?x = "test_exchange config res t buf local" and ?xs = "snd (observed es)"
  note x = test_exchange_fields [OF tid, of config res buf local]
  have xs: "snd (observed ?es) = ?xs @ [?x]" "?xs \<noteq> []" using obs linkedD(1) [OF k] b(1) by (simp_all add: bind_known_def)
  have bound: "binding_reported (addrServer config) (hd ?xs) res" using linkedD(1) [OF k] xs(2) by (simp add: bind_known_def)
  have ps: "plain_exchanges (tl ?xs) = []" using linkedD(7) [OF k] by (simp add: stage_known_def Let_def)
  have cx: "ex_change ?x = no_change" using x(1) by (simp add: test_change_def c)
  have tl: "tl (?xs @ [?x]) = tl ?xs @ [?x]" "hd (?xs @ [?x]) = hd ?xs" "plain_exchanges (tl ?xs @ [?x]) = [?x]" using xs(2) ps by (simp_all add: plain_snoc cx)
  have d: "\<not> is_direct res" "\<not> is_direct ?res" "fIsDirect ?res = fIsDirect res" using b by (auto simp: is_direct_def)
  have m: "ex_mapped (hd ?xs) = addrMapped res" using bound by (simp add: binding_reported_def)
  show ?thesis
  proof (rule linkedI, unfold xs(1))
    show "bind_known (addrServer config) (?xs @ [?x]) ?res" using bound b(1) xs(2) by (auto simp: bind_known_def binding_reported_def split: option.split)
    show "map_known (?xs @ [?x]) ?res" using linkedD(2) [OF k] by (simp add: map_known_def tl x test_dest_def c m_def)
    show "success_known (?xs @ [?x]) ?res" using b by (simp add: success_known_def tl x m) (simp add: m_def)
    show "direct_known (?xs @ [?x]) ?es ?res" using d by (simp add: direct_known_def)
    show "filter_known (addrServer config) (?xs @ [?x]) ?res"
      using linkedD(5) [OF k] by (auto simp: filter_known_def tl answered_snoc cx)
    show "asked_known (addrServer config) ?es ?res" using linkedD(6) [OF k] d by (auto simp: asked_known_def)
    show "stage_known (addrServer config) 1 True (?xs @ [?x]) ?es ?res" by (simp add: stage_known_def tl)
  qed
qed

lemma hear_behavior3:
  assumes k: "linked config es 2 False res" and tid: "wf_transid (ct_transid t)" and c: "ct_class t = CBehaviorTest" "ct_fIsTest3 t"
    and obs: "observed (es @ [Heard (buffer_bytes buf) local]) = (None, snd (observed es) @ [test_exchange config res t buf local])"
    and b: "fBindingTestSuccess res" "\<not> fIsDirect res" "\<not> fBehaviorTestSuccess res" "\<not> CSocketAddress_IsIPAddressZero (addrMappingAP res)"
  shows "linked config (es @ [Heard (buffer_bytes buf) local]) 2 True
    (res\<lparr>addrMappingAA := snd (response_mapped (response_reader buf)), fBehaviorTestSuccess := True, behavior := cl\<rparr>)" (is "linked config ?es 2 True ?res")
proof -
  let ?x = "test_exchange config res t buf local" and ?xs = "snd (observed es)"
  note x = test_exchange_fields [OF tid, of config res buf local]
  have xs: "snd (observed ?es) = ?xs @ [?x]" "?xs \<noteq> []" using obs linkedD(1) [OF k] b(1) by (simp_all add: bind_known_def)
  have bound: "binding_reported (addrServer config) (hd ?xs) res" using linkedD(1) [OF k] xs(2) by (simp add: bind_known_def)
  have "plain_exchanges (tl ?xs) \<noteq> []" using linkedD(2) [OF k] b(4) default_zero by (auto simp: map_known_def Let_def)
  moreover have "length (plain_exchanges (tl ?xs)) \<le> 1" using linkedD(7) [OF k] by (simp add: stage_known_def Let_def)
  ultimately obtain y where ps: "plain_exchanges (tl ?xs) = [y]" by (cases "plain_exchanges (tl ?xs)") auto
  have cx: "ex_change ?x = no_change" using x(1) by (simp add: test_change_def c)
  have tl: "tl (?xs @ [?x]) = tl ?xs @ [?x]" "hd (?xs @ [?x]) = hd ?xs" "plain_exchanges (tl ?xs @ [?x]) = [y, ?x]" using xs(2) ps by (simp_all add: plain_snoc cx)
  have differ: "\<not> CSocketAddress_IsSameIP_and_Port (ex_mapped y) (ex_mapped (hd ?xs))"
    using linkedD(3) [OF k] b xs(2) ps by (simp add: success_known_def)
  have d: "\<not> is_direct res" "\<not> is_direct ?res" using b by (auto simp: is_direct_def)
  show ?thesis
  proof (rule linkedI, unfold xs(1))
    show "bind_known (addrServer config) (?xs @ [?x]) ?res" using bound b(1) xs(2) by (auto simp: bind_known_def binding_reported_def split: option.split)
    show "map_known (?xs @ [?x]) ?res" using linkedD(2) [OF k] ps differ by (simp add: map_known_def tl x test_dest_def c)
    show "success_known (?xs @ [?x]) ?res" by (simp add: success_known_def tl)
    show "direct_known (?xs @ [?x]) ?es ?res" using d by (simp add: direct_known_def)
    show "filter_known (addrServer config) (?xs @ [?x]) ?res" using linkedD(5) [OF k] by (auto simp: filter_known_def tl answered_snoc cx)
    show "asked_known (addrServer config) ?es ?res" using linkedD(6) [OF k] d by (auto simp: asked_known_def)
    show "stage_known (addrServer config) 2 True (?xs @ [?x]) ?es ?res" by (simp add: stage_known_def)
  qed
qed

text \<open>The two filtering tests in one: \<open>res'\<close> has the flag of the test set.\<close>

lemma hear_filtering:
  assumes k: "linked config es (ct_stage t) False res" and tid: "wf_transid (ct_transid t)" and c: "ct_class t = CFilteringTest"
    and obs: "observed (es @ [Heard (buffer_bytes buf) local]) = (None, snd (observed es) @ [test_exchange config res t buf local])"
    and b: "fBindingTestSuccess res" "\<not> fIsDirect res" "fHasOtherAddress res" "\<not> fFilteringTestSuccess res"
    and req: "requested (test_change t) (addrServer config) es"
    and res': "res' = (if ct_fIsTest3 t then res\<lparr>fGotTest3Response := True, fFilteringTestSuccess := True, filtering := AddressDependentFiltering\<rparr>
           else res\<lparr>fGotTest2Response := True, fFilteringTestSuccess := True, filtering := EndpointIndependentFiltering\<rparr>)"
  shows "linked config (es @ [Heard (buffer_bytes buf) local]) (ct_stage t) True res'" (is "linked config ?es ?st True _")
proof -
  let ?x = "test_exchange config res t buf local" and ?xs = "snd (observed es)"
  note x = test_exchange_fields [OF tid, of config res buf local]
  have xs: "snd (observed ?es) = ?xs @ [?x]" "?xs \<noteq> []" using obs linkedD(1) [OF k] b(1) by (simp_all add: bind_known_def)
  have cx: "ex_change ?x = (if ct_fIsTest3 t then change_port else change_both)"
    using x(1) by (simp add: test_change_def c filtering_change_def change_both_def change_port_def)
  have dx: "ex_dest ?x = addrServer config" using x(2) by (simp add: test_dest_def c)
  have tl: "tl (?xs @ [?x]) = tl ?xs @ [?x]" "hd (?xs @ [?x]) = hd ?xs" "plain_exchanges (tl ?xs @ [?x]) = plain_exchanges (tl ?xs)"
    using xs(2) by (simp_all add: plain_snoc cx)
  have d: "\<not> is_direct res" using b by (auto simp: is_direct_def)
  have st: "?st = (if ct_fIsTest3 t then 4 else 3)" using c by (simp add: ct_stage_def)
  have r: "requested change_both (addrServer config) es" "ct_fIsTest3 t \<longrightarrow> requested change_port (addrServer config) es"
    using req linkedD(7) [OF k] b st
    by (auto simp: test_change_def c filtering_change_def change_both_def change_port_def stage_known_def Let_def split: if_splits)
  show ?thesis
  proof (rule linkedI, unfold xs(1))
    show "bind_known (addrServer config) (?xs @ [?x]) res'" using linkedD(1) [OF k] xs(2) by (simp add: res' bind_known_def binding_reported_def cong: option.case_cong)
    show "map_known (?xs @ [?x]) res'" using linkedD(2) [OF k] by (simp add: res' map_known_def tl)
    show "success_known (?xs @ [?x]) res'" using linkedD(3) [OF k] xs(2) by (simp add: res' success_known_def tl)
    show "direct_known (?xs @ [?x]) ?es res'" using d by (simp add: res' direct_known_def)
    show "filter_known (addrServer config) (?xs @ [?x]) res'"
      using linkedD(5) [OF k] dx by (auto simp: res' filter_known_def tl answered_snoc cx)
    show "asked_known (addrServer config) ?es res'" using r by (simp add: res' asked_known_def)
    show "stage_known (addrServer config) ?st True (?xs @ [?x]) ?es res'" by (simp add: res' stage_known_def st)
  qed
qed

lemma linked_hear:
  assumes k: "linked config es (ct_stage t) False res" and ok: "stage_ok c0 (ct_stage t) False checked res"
    and tid: "wf_transid (ct_transid t)" and ready: "ct_stage t = 0 \<or> checked \<and> Test_IsReadyToRun t res"
    and obs: "fst (observed es) = Some (test_dest config res t, request_image (ct_transid t) (test_change t))"
    and req: "requested (test_change t) (test_dest config res t) es"
    and buf: "wf_buffer buf" "cb_allocatedSize buf < size_range" and takes: "takes buf t"
    and r: "snd (Test_ProcessResponse config buf remote local (t, res)) = (t', res')"
  shows "linked config (es @ [Heard (buffer_bytes buf) local]) (ct_stage t) True res'"
proof -
  note o = observed_answer [OF obs tid, of buf local, unfolded if_P [OF takes]]
  note h = hear_test [OF buf, of config remote local t res, unfolded r] 
  have b: "fBindingTestSuccess res" "\<not> fIsDirect res" if "ct_stage t \<noteq> 0"
    using ready_not_direct [of c0 t res] ok ready that by auto
  show ?thesis
  proof (cases t rule: ct_stage_cases)
    case basic
    then show ?thesis using hear_basic [OF _ tid _ o] k ok h takes by simp
  next
    case behavior2
    then show ?thesis using hear_behavior2 [OF _ tid _ _ o] k b ready h takes by (simp add: ready_defs)
  next
    case behavior3
    then show ?thesis using hear_behavior3 [OF _ tid _ _ o] k b ready h takes by (simp add: ready_defs)
  next
    case filtering2
    then show ?thesis using hear_filtering [OF k tid _ o, of res'] b ready h takes req by (simp add: ready_defs test_dest_def)
  next
    case filtering3
    then show ?thesis using hear_filtering [OF k tid _ o, of res'] b ready h takes req by (simp add: ready_defs test_dest_def)
  qed
qed

section \<open>The client's state\<close>

definition open_request :: "CStunClientLogic \<Rightarrow> simple_sockaddr \<times> bytes" where
  "open_request lg = (test_dest (lg_config lg) (lg_results lg) (current_test lg),
     request_image (ct_transid (current_test lg)) (test_change (current_test lg)))"

definition asking :: "CStunClientLogic \<Rightarrow> bool" where
  "asking lg \<longleftrightarrow> running lg \<and> \<not> ct_fCompleted (current_test lg)"

definition request_known :: "client_event list \<Rightarrow> CStunClientLogic \<Rightarrow> bool" where
  "request_known es lg \<longleftrightarrow> (asking lg \<and> lg_sendCount lg \<noteq> 0 \<longrightarrow>
     fst (observed es) = Some (open_request lg) \<and> Sent (fst (open_request lg)) (snd (open_request lg)) \<in> set es)"

definition link_ok :: "client_event list \<Rightarrow> CStunClientLogic \<Rightarrow> bool" where
  "link_ok es lg \<longleftrightarrow> linked (lg_config lg) es (lg_stage lg) (lg_over lg) (lg_results lg) \<and> request_known es lg"

text \<open>Between two calls.\<close>

definition quiet :: "client_event list \<Rightarrow> CStunClientLogic \<Rightarrow> bool" where
  "quiet es lg \<longleftrightarrow> (if asking lg then lg_sendCount lg \<noteq> 0 \<or> (\<forall>d pk. Sent d pk \<notin> set es) else fst (observed es) = None)"

lemma core_tests:
  assumes "client_core lg" "running lg"
  shows "wf_transid (ct_transid (current_test lg))" "classified (lg_config lg) (lg_results lg)"
    "stage_ok (lg_config lg) (ct_stage (current_test lg)) (ct_fCompleted (current_test lg)) (lg_fPreCheckRunOnTest lg) (lg_results lg)"
  using assms running_mem [OF assms(2)] running_stage [OF assms(2)] by (simp_all add: client_core_def)

lemma requested_open:
  assumes "client_core lg" "asking lg" "request_known es lg" "lg_sendCount lg \<noteq> 0"
  shows "requested (test_change (current_test lg)) (test_dest (lg_config lg) (lg_results lg) (current_test lg)) es"
  using assms core_tests(1) [of lg] request_packet(1) [of "ct_transid (current_test lg)" "test_change (current_test lg)"]
  by (auto simp: requested_def request_known_def asking_def open_request_def)

lemma link_early:
  assumes "link_ok es lg" "running lg"
  shows "link_ok es (early_check lg)"
proof (cases "lg_fPreCheckRunOnTest lg")
  case False
  let ?e = "early_check lg" and ?t = "current_test lg" and ?res = "lg_results lg"
  obtain t' res' where r: "Test_PreRunCheck (?t, ?res) = (t', res')" by fastforce
  have e: "running ?e" "current_test ?e = t'" "lg_results ?e = res'" "lg_config ?e = lg_config lg" "lg_sendCount ?e = lg_sendCount lg"
    using assms(2) False r by (simp_all add: early_check_def running_def)
  have st: "ct_stage t' = ct_stage ?t" using virtual.pre_test [OF TrueI, of ?t ?res] r by auto
  have "linked (lg_config lg) es (ct_stage ?t) (ct_fCompleted ?t) ?res" using assms running_stage [OF assms(2)] by (simp add: link_ok_def)
  from linked_early [OF this r] have "linked (lg_config ?e) es (lg_stage ?e) (lg_over ?e) (lg_results ?e)"
    using running_stage [OF e(1)] e st by simp
  moreover have "request_known es ?e"
  proof (cases "ct_fCompleted t'")
    case False
    then have "(t', res') = (?t, ?res)" using r by (auto simp: early_eq split: if_splits)
    then show ?thesis using assms e by (simp add: link_ok_def request_known_def asking_def open_request_def)
  qed (simp add: request_known_def asking_def e)
  ultimately show ?thesis by (simp add: link_ok_def)
qed (use assms in \<open>simp add: early_check_def\<close>)

lemma next_test_stage:
  assumes "client_core lg" "running lg"
  shows "lg_stage (next_test lg) = next_stage (lg_config lg) (ct_stage (current_test lg))" "\<not> lg_over (next_test lg)"
proof -
  let ?l = "next_test lg" and ?i = "lg_nTestIndex lg"
  have f: "lg_testlist ?l = lg_testlist lg" "lg_nTestIndex ?l = ?i + 1" by (simp_all add: next_test_def)
  have m: "map ct_stage (lg_testlist lg) = plan (lg_config lg)" "length (lg_testlist lg) = length (plan (lg_config lg))"
    using assms(1) by (auto simp: client_core_def dest: arg_cong [where f = length])
  have st: "ct_stage (lg_testlist lg ! j) = plan (lg_config lg) ! j" if "j < length (lg_testlist lg)" for j
    using that by (simp add: m(1) [symmetric])
  show "lg_stage ?l = next_stage (lg_config lg) (ct_stage (current_test lg))"
    using plan_next [of ?i "lg_config lg"] assms(2) st m(2) by (simp add: lg_stage_def running_def f current_test_def split: if_splits)
  show "\<not> lg_over ?l" using assms(1) by (auto simp: lg_over_def client_core_def running_def f current_test_def)
qed

lemma link_next:
  assumes "link_ok es lg" "client_core lg" "running lg" "test_over lg"
  shows "link_ok es (next_test lg)"
proof -
  have "linked (lg_config lg) es (ct_stage (current_test lg)) (ct_fCompleted (current_test lg)) (lg_results lg)"
    using assms(1,3) running_stage [OF assms(3)] by (simp add: link_ok_def)
  from linked_next [OF this _ core_tests(2) [OF assms(2,3)]]
  have "linked (lg_config lg) es (next_stage (lg_config lg) (ct_stage (current_test lg))) False (lg_results lg)"
    using assms(4) by (simp add: test_over_def)
  then show ?thesis using next_test_stage [OF assms(2,3)] by (simp add: link_ok_def request_known_def) (simp add: next_test_def)
qed

lemma link_expire:
  assumes "link_ok es lg" "client_core lg" "pending lg" "lg_sendCount lg \<noteq> 0"
  shows "link_ok es (on_current Test_NotifyTimeout lg)"
proof -
  let ?l = "on_current Test_NotifyTimeout lg" and ?t = "current_test lg" and ?res = "lg_results lg"
  have r: "running lg" "\<not> ct_fCompleted ?t" "Test_IsReadyToRun ?t ?res" using assms(3) by (auto simp: pending_def test_over_def)
  obtain t' res' where f: "Test_NotifyTimeout (?t, ?res) = (t', res')" by fastforce
  have t': "t' = ?t\<lparr>ct_fCompleted := True\<rparr>" using virtual.expire_over [OF TrueI, of ?t ?res] f by simp
  have l: "running ?l" "current_test ?l = t'" using r f by (simp_all add: running_def)
  have "linked (lg_config lg) es (ct_stage ?t) False ?res" using assms(1) running_stage [OF r(1)] r(2) by (simp add: link_ok_def)
  from linked_expire [OF this r(3) f requested_open [OF assms(2) _ _ assms(4)]] assms(1)
  have "linked (lg_config lg) es (ct_stage ?t) True res'" using r by (simp add: link_ok_def asking_def)
  then show ?thesis using running_stage [OF l(1)] l t' f by (simp add: link_ok_def request_known_def asking_def)
qed

text \<open>What a call of the client leaves.\<close>

definition call_ok :: "client_event list \<Rightarrow> hresult \<times> cbuffer \<times> simple_sockaddr \<times> CStunClientLogic \<Rightarrow> bool" where
  "call_ok es = (\<lambda>(hr, buf, d, lg).
     link_ok (es @ asked_event hr buf (Some d)) lg \<and> quiet (es @ asked_event hr buf (Some d)) lg)"

lemma linked_more:
  "linked config es st over res \<Longrightarrow> snd (observed (es @ fs)) = snd (observed es) \<Longrightarrow> (\<And>d pk. Sent d pk \<notin> set fs) \<Longrightarrow>
   linked config (es @ fs) st over res"
  by (rule linked_event) auto

lemma send_link:
  assumes link: "link_ok es lg" and core: "client_core lg" and p: "pending lg" and more: "\<not> uMaxAttempts (lg_config lg) \<le> lg_sendCount lg"
    and buf: "wf_buffer buf" "800 \<le> cb_allocatedSize buf" and stack: "length stack = 16"
  shows "call_ok es (send_message rand stack now buf d lg)"
proof -
  let ?t = "current_test lg" and ?res = "lg_results lg"
  have r: "running lg" "\<not> ct_fCompleted ?t" "Test_IsReadyToRun ?t ?res" "lg_fPreCheckRunOnTest lg"
    using p by (auto simp: pending_def test_over_def)
  note tid = core_tests(1) [OF core r(1)]
  define t' where "t' = ?t\<lparr>ct_transid := session_id rand stack ?t\<rparr>"
  obtain buf' where msg: "Test_GetMessage rand stack (lg_config lg) ?res buf ?t = (S_OK, buf', test_dest (lg_config lg) ?res ?t, t')"
    "buffer_bytes buf' = request_image (session_id rand stack ?t) (test_change ?t)"
    using virtual.msg_ok [OF TrueI buf stack tid] unfolding t'_def by blast
  define lg' where "lg' = lg\<lparr>lg_testlist := (lg_testlist lg)[lg_nTestIndex lg := t'], lg_sendCount := lg_sendCount lg + 1, lg_timeLastMessageSent := now\<rparr>"
  have s: "send_message rand stack now buf d lg = (S_OK, buf', test_dest (lg_config lg) ?res ?t, lg')"
    by (simp add: send_message_def msg(1) lg'_def)
  have l: "running lg'" "current_test lg' = t'" "lg_config lg' = lg_config lg" "lg_results lg' = ?res" "lg_sendCount lg' = lg_sendCount lg + 1"
    using r by (simp_all add: lg'_def running_def current_test_def)
  have t': "test_change t' = test_change ?t" "test_dest c x t' = test_dest c x ?t" "ct_stage t' = ct_stage ?t" "\<not> ct_fCompleted t'" for c x
    using r(2) by (simp_all add: t'_def virtual.spec_stable)
  let ?e = "Sent (test_dest (lg_config lg) ?res ?t) (buffer_bytes buf')"
  have ev: "asked_event S_OK buf' (Some (test_dest (lg_config lg) ?res ?t)) = [?e]" by (simp add: asked_event_def)
  have count: "lg_sendCount lg + 1 \<noteq> 0"
  proof
    assume "lg_sendCount lg + 1 = 0"
    then have "lg_sendCount lg = - 1" by (simp add: eq_neg_iff_add_eq_0)
    then show False using more by (simp add: word_order.extremum)
  qed
  have change: "packet_change (buffer_bytes buf') = test_change ?t"
    using request_packet(1) [OF session_id_ok(1) [OF stack tid]] by (simp add: msg(2))
  have "linked (lg_config lg) es (ct_stage ?t) False ?res" using link running_stage [OF r(1)] r(2) by (simp add: link_ok_def)
  moreover have "\<not> fChangePort (test_change ?t)" if "is_direct ?res \<or> ct_stage ?t = 0"
    using that ready_not_direct [of "lg_config lg" ?t ?res] core_tests(3) [OF core r(1)] r
    by (cases ?t rule: ct_stage_cases) (auto simp: test_change_def no_change_def is_direct_def)
  ultimately have "linked (lg_config lg) (es @ [?e]) (ct_stage ?t) False ?res"
    using change by (intro linked_event) (auto, cases "observed es", simp)
  moreover have "fst (observed (es @ [?e])) = Some (open_request lg')"
    by (cases "observed es") (simp add: open_request_def l t' msg(2), simp add: t'_def)
  moreover have "open_request lg' = (test_dest (lg_config lg) ?res ?t, buffer_bytes buf')"
    by (simp add: open_request_def l t' msg(2), simp add: t'_def)
  ultimately show ?thesis
    using running_stage [OF l(1)] l t' count by (simp add: s call_ok_def ev link_ok_def request_known_def quiet_def asking_def)
qed

lemma call_link:
  assumes link: "link_ok es lg" "quiet es lg" and core: "client_core lg"
    and buf: "wf_buffer buf" "800 \<le> cb_allocatedSize buf" and stack: "length stack = 16"
  shows "call_ok es (GetNextMessage_loop rand stack now buf d lg)"
proof (rule GetNextMessage_rule [where P = "\<lambda>l. client_core l \<and> link_ok es l"])
  fix l l'
  assume p: "client_core l \<and> link_ok es l" and r: "GetNextMessage_round rand stack now buf d l = Inl l'"
  have run: "running l" using r by (auto simp: GetNextMessage_round_def running_def split: if_splits)
  let ?e = "early_check l"
  have e: "client_core ?e" "link_ok es ?e" "running ?e" "lg_fPreCheckRunOnTest ?e" using p run core_early link_early by simp_all
  consider "test_over ?e" "l' = next_test ?e"
    | "\<not> test_over ?e" "\<not> waiting now ?e" "uMaxAttempts (lg_config ?e) \<le> lg_sendCount ?e" "l' = on_current Test_NotifyTimeout ?e"
    using r run by (auto simp: GetNextMessage_round_def Let_def running_def split: if_splits)
  then have "link_ok es l'"
  proof cases
    case 1
    then show ?thesis using link_next e by simp
  next
    case 2
    have "1 \<le> uMaxAttempts (lg_config ?e)" using e(1) by (simp add: client_core_def)
    then have "lg_sendCount ?e \<noteq> 0" using 2(3) by (auto simp: word_le_nat_alt)
    then show ?thesis using link_expire [OF e(2,1)] 2 e by (simp add: pending_def)
  qed
  then show "client_core l' \<and> link_ok es l'" using round_again(1) p r by blast
next
  fix l x
  assume p: "client_core l \<and> link_ok es l" and r: "GetNextMessage_round rand stack now buf d l = Inr x"
  show "call_ok es x"
  proof (cases "running l")
    case False
    then have x: "x = (E_STUNCLIENT_RESULTS_READY, buf, d, l)" using r by (simp add: GetNextMessage_round_def running_def)
    have "snd (observed (es @ [Ended])) = snd (observed es)" "fst (observed (es @ [Ended])) = None" by (cases "observed es"; simp)+
    then show ?thesis using p False stun_client_codes(1)
      by (simp add: x call_ok_def asked_event_def link_ok_def linked_more request_known_def asking_def quiet_def)
  next
    case True
    let ?e = "early_check l"
    have e: "client_core ?e" "link_ok es ?e" "running ?e" "lg_fPreCheckRunOnTest ?e" using p True core_early link_early by simp_all
    consider "waiting now ?e" "\<not> test_over ?e" "x = (E_STUNCLIENT_STILL_WAITING, buf, d, ?e)"
      | "\<not> test_over ?e" "\<not> uMaxAttempts (lg_config ?e) \<le> lg_sendCount ?e" "x = send_message rand stack now buf d ?e"
      using r True by (auto simp: GetNextMessage_round_def Let_def running_def split: if_splits)
    then show ?thesis
    proof cases
      case 1
      then show ?thesis using e stun_client_codes(2,3)
        by (auto simp: call_ok_def asked_event_def quiet_def asking_def test_over_def waiting_def)
    next
      case 2
      then show ?thesis using send_link [OF e(2,1) _ _ buf stack] e by (simp add: pending_def)
    qed
  qed
qed (use assms in simp)

lemma empty_not_taken: "buffer_bytes buf = [] \<Longrightarrow> \<not> takes buf t"
proof -
  have "Reader_GetState (packet []) \<noteq> BodyValidated" unfolding packet_def by code_simp
  then show "buffer_bytes buf = [] \<Longrightarrow> \<not> takes buf t" by (simp add: takes_def response_valid_def response_packet)
qed

lemma same_observed:
  assumes "link_ok es lg" "quiet es lg" "observed (es @ [Heard bs local]) = observed es"
  shows "link_ok (es @ [Heard bs local]) lg \<and> quiet (es @ [Heard bs local]) lg"
proof -
  have "linked (lg_config lg) (es @ [Heard bs local]) (lg_stage lg) (lg_over lg) (lg_results lg)"
    using assms by (intro linked_more) (simp_all add: link_ok_def del: observed_simps)
  then show ?thesis using assms by (auto simp: link_ok_def request_known_def quiet_def simp del: observed_simps split: if_splits)
qed

lemma hear_link:
  assumes link: "link_ok es lg" "quiet es lg" and ok: "client_ok lg" and sent: "Sent d pk \<in> set es"
    and buf: "wf_buffer buf" "cb_allocatedSize buf < size_range" and r: "Logic_ProcessResponse buf remote local lg = (hr, lg')"
  shows "link_ok (es @ [Heard (buffer_bytes buf) local]) lg' \<and> quiet (es @ [Heard (buffer_bytes buf) local]) lg'" (is "?goal")
proof (cases "asking lg")
  case False
  then have "lg' = lg" using r by (auto simp: Logic_ProcessResponse_def asking_def running_def split: if_splits)
  moreover have "observed (es @ [Heard (buffer_bytes buf) local]) = observed es"
    using link(2) False by (cases "observed es") (simp add: quiet_def)
  ultimately show ?thesis using same_observed [OF link] by simp
next
  case True
  let ?t = "current_test lg" and ?res = "lg_results lg"
  have run: "running lg" "\<not> ct_fCompleted ?t" using True by (simp_all add: asking_def)
  have core: "client_core lg" using ok by (simp add: client_ok_def)
  note tid = core_tests(1) [OF core run(1)]
  have count: "lg_sendCount lg \<noteq> 0" using link(2) sent True by (auto simp: quiet_def)
  have known: "request_known es lg" using link(1) by (simp add: link_ok_def)
  have obs: "fst (observed es) = Some (test_dest (lg_config lg) ?res ?t, request_image (ct_transid ?t) (test_change ?t))"
    using known True count by (simp add: request_known_def open_request_def)
  note o = observed_answer [OF obs tid, of buf local]
  show ?thesis
  proof (cases "takes buf ?t")
    case False
    have "lg' = lg"
    proof (cases "cb_size buf = 0")
      case False
      have "snd (Test_ProcessResponse (lg_config lg) buf remote local (?t, ?res)) = (?t, ?res)"
        using hear_test [OF buf, of "lg_config lg" remote local ?t ?res] \<open>\<not> takes buf ?t\<close> by simp
      then show ?thesis using r False run core
        by (auto simp: Logic_ProcessResponse_def running_def client_core_def on_current_def current_test_def split: if_splits)
    qed (use r in \<open>auto simp: Logic_ProcessResponse_def split: if_splits\<close>)
    then show ?thesis using same_observed [OF link] o False by simp
  next
    case takes: True
    have "cb_size buf \<noteq> 0"
    proof
      assume "cb_size buf = 0"
      then have "buffer_bytes buf = []" by (simp add: buffer_bytes_def)
      then show False using takes empty_not_taken by blast
    qed
    obtain t' res' where f: "snd (Test_ProcessResponse (lg_config lg) buf remote local (?t, ?res)) = (t', res')" by fastforce
    have t': "t' = ?t\<lparr>ct_fCompleted := True\<rparr>"
      using hear_test [OF buf, of "lg_config lg" remote local ?t ?res] takes f by simp
    have lg': "lg' = on_current (\<lambda>x. snd (Test_ProcessResponse (lg_config lg) buf remote local x)) lg"
      using r \<open>cb_size buf \<noteq> 0\<close> run core by (auto simp: Logic_ProcessResponse_def running_def client_core_def split: if_splits)
    have l: "running lg'" "current_test lg' = t'" "lg_results lg' = res'" "lg_config lg' = lg_config lg"
      using run f by (simp_all add: lg' running_def)
    have "linked (lg_config lg) es (ct_stage ?t) False ?res" using link(1) running_stage [OF run(1)] run(2) by (simp add: link_ok_def)
    moreover have "ct_stage ?t = 0 \<or> lg_fPreCheckRunOnTest lg \<and> Test_IsReadyToRun ?t ?res"
      using ok run running_stage [OF run(1)] by (auto simp: client_ok_def settled_def pending_def test_over_def)
    moreover have "stage_ok (lg_config lg) (ct_stage ?t) False (lg_fPreCheckRunOnTest lg) ?res" using core_tests(3) [OF core run(1)] run(2) by simp
    ultimately have "linked (lg_config lg) (es @ [Heard (buffer_bytes buf) local]) (ct_stage ?t) True res'"
      using linked_hear [OF _ _ tid _ obs requested_open [OF core True known count] buf takes f] by blast
    moreover have "fst (observed (es @ [Heard (buffer_bytes buf) local])) = None" using o takes by simp
    ultimately show ?thesis using running_stage [OF l(1)] l t'
      by (simp add: link_ok_def request_known_def quiet_def asking_def del: observed_simps)
  qed
qed

lemma trace_linked: "client_trace config es lg \<Longrightarrow> link_ok es lg \<and> quiet es lg"
proof (induction rule: client_trace.induct)
  case (trace_start old precheck lg)
  note i = Initialize_ok [OF trace_start] and c = core_start [OF trace_start]
  have "running lg" using fresh_tests_ok(4) [of config] by (simp add: i running_def)
  moreover have "\<not> lg_over lg"
    using fresh_tests_ok(3,4) [of config] by (simp add: i lg_over_def current_test_def)
  ultimately show ?case using c linked_start running_stage [of lg] i
    by (simp add: link_ok_def request_known_def quiet_def asking_def)
next
  case (trace_ask es lg buf stack rand pDest now hr buf' pDest' lg')
  obtain n where "client_run config n lg" using trace_run [OF trace_ask.hyps(1)] by blast
  then have core: "client_core lg" by (rule run_core)
  from core trace_ask.hyps(2,3) show ?case
  proof (cases rule: GetNextMessage_cases [where rand = rand and pDest = pDest and now = now])
    case refused
    then show ?thesis using trace_ask.hyps(4) trace_ask.IH stun_client_codes(5,6) by (auto simp: asked_event_def)
  next
    case (asked d hr2 buf2 d2 lg2)
    have "GetNextMessage_loop rand stack now buf d lg = (hr2, buf2, d2, lg2)"
      using asked core by (auto simp: GetNextMessage_def client_core_def MAX_STUN_MESSAGE_SIZE_def split: prod.splits)
    then show ?thesis
      using call_link [of es lg buf stack rand now d] trace_ask.IH trace_ask.hyps core asked by (auto simp: call_ok_def)
  qed
next
  case (trace_hear es lg d pk buf remote local hr lg')
  obtain n where "client_run config n lg" using trace_run [OF trace_hear.hyps(1)] by blast
  then have "client_ok lg" using run_ok by blast
  then show ?case using hear_link trace_hear by blast
qed

section \<open>The results are those of the exchanges\<close>

lemma mapping_reported:
  assumes k: "linked config es st over res" and c: "classified config res" and xs: "snd (observed es) = b # xs" and d: "\<not> fIsDirect res"
  shows "behavior res = mapping_class b xs \<and> (fBehaviorTestSuccess res \<longleftrightarrow> behavior res \<noteq> UnknownBehavior)"
proof -
  let ?ps = "plain_exchanges xs"
  note m = linkedD(2) [OF k, unfolded xs map_known_def Let_def] and s = linkedD(3) [OF k, unfolded xs success_known_def Let_def]
  have bound: "addrMapped res = ex_mapped b" using linkedD(1) [OF k] xs by (simp add: bind_known_def binding_reported_def)
  have cl: "fBehaviorTestSuccess res \<Longrightarrow> behavior res = nat_behavior res" "\<not> fBehaviorTestSuccess res \<Longrightarrow> behavior res = UnknownBehavior"
    using c by (simp_all add: classified_def)
  have "length ?ps \<le> 2" using arg_cong [OF m [THEN conjunct1], of length] by simp
  then consider "?ps = []" | x where "?ps = [x]" | x y where "?ps = [x, y]"
    by (cases ?ps; cases "tl ?ps"; cases "tl (tl ?ps)") auto
  then show ?thesis
    using m s cl d bound by cases (auto simp: mapping_class_def nat_behavior_def split: if_splits)
qed

lemma linked_reports:
  assumes k: "linked config es st over res" and c: "classified config res"
  shows "reports config es res"
proof (cases "snd (observed es)")
  case Nil
  then show ?thesis using linkedD(1) [OF k] c by (auto simp: reports_def bind_known_def classified_def)
next
  case (Cons b xs)
  note cl = c [unfolded classified_def]
  have bind: "fBindingTestSuccess res" "binding_reported (addrServer config) b res" using linkedD(1) [OF k] Cons by (simp_all add: bind_known_def)
  show ?thesis
  proof (cases "fIsDirect res")
    case True
    have "xs = []" "\<forall>d pk. Sent d pk \<in> set es \<longrightarrow> \<not> fChangePort (packet_change pk)"
      using linkedD(4) [OF k] Cons bind True by (simp_all add: direct_known_def is_direct_def)
    then show ?thesis using bind cl True by (auto simp: reports_def Cons nat_behavior_def nat_filtering_def)
  next
    case False
    have fl: "fGotTest2Response res = answered change_both xs" "fGotTest3Response res = answered change_port xs"
      "\<forall>x \<in> set xs. ex_change x \<noteq> no_change \<longrightarrow> ex_dest x = addrServer config"
      using linkedD(5) [OF k] Cons by (simp_all add: filter_known_def)
    have fc: "fFilteringTestSuccess res \<Longrightarrow> filtering res = filtering_class xs"
      using cl False by (simp add: nat_filtering_def filtering_class_def fl)
    have un: "\<not> fFilteringTestSuccess res \<Longrightarrow> filtering res = UnknownFiltering \<and> \<not> answered change_both xs \<and> \<not> answered change_port xs"
      using cl by (auto simp flip: fl)
    have rq: "fFilteringTestSuccess res \<Longrightarrow> requested change_both (addrServer config) es \<and>
        (\<not> answered change_both xs \<longrightarrow> requested change_port (addrServer config) es)"
      using linkedD(6) [OF k] False by (simp add: asked_known_def is_direct_def fl)
    have dests: "map ex_dest (plain_exchanges xs) = take (length (plain_exchanges xs)) [addrAP res, addrAA res]"
      using linkedD(2) [OF k] Cons by (simp add: map_known_def Let_def)
    show ?thesis
      using bind False mapping_reported [OF k c Cons False] fl(3) fc un rq dests by (simp add: reports_def Cons)
  qed
qed

lemma trace_reports:
  assumes "client_trace config es lg"
  shows "reports (effective_config config) es (lg_results lg)"
proof -
  obtain n where n: "client_run config n lg" using trace_run [OF assms] by blast
  have "linked (lg_config lg) es (lg_stage lg) (lg_over lg) (lg_results lg)" using trace_linked [OF assms] by (simp add: link_ok_def)
  then show ?thesis using linked_reports run_core [OF n] by (metis client_core_def)
qed

end
