(* ===== verification/ClientTheorems.thy ===== *)
theory ClientTheorems
  imports ClientTrace
begin

text \<open>
  The properties of the client: what its results mean, how its session proceeds and ends, and what
  it learns from the server.
\<close>

section \<open>A client for the examples\<close>

definition demo_config :: StunClientLogicConfig where
  "demo_config = \<lparr>addrServer = CSocketAddress_ip4 1 3478, fTimeoutIsInstant = True, timeoutSeconds = 0, uMaxAttempts = 2,
     fBehaviorTest = True, fFilteringTest = True\<rparr>"

definition demo_client :: CStunClientLogic where
  "demo_client = snd (CStunClientLogic_Initialize demo_config (CStunClientLogic_new demo_config False))"

definition demo_buffer :: cbuffer where
  "demo_buffer = CBuffer_alloc 1500"

lemma demo_buffer_ok: "wf_buffer demo_buffer" "cb_allocatedSize demo_buffer = 1500"
  using wf_CBuffer_alloc [of 1500] by (simp_all add: demo_buffer_def)

lemma demo_init: "CStunClientLogic_Initialize demo_config (CStunClientLogic_new demo_config False) = (S_OK, demo_client)"
proof -
  have "\<not> CSocketAddress_IsIPAddressZero (addrServer demo_config)" "CSocketAddress_GetPort (addrServer demo_config) \<noteq> 0"
    unfolding demo_config_def by code_simp+
  then show ?thesis by (simp add: demo_client_def CStunClientLogic_Initialize_def CStunClientLogic_new_def Let_def)
qed

lemmas demo_run = run_start [OF demo_init]

section \<open>Results\<close>

text \<open>C10: A finished client has decided all it could: with filtering tests configured, a successful binding
  and either another address or a direct connection, the filtering test is a success (time-outs
  included) with the class that its recorded answers give, and with behaviour tests a direct connection is
  reported as such. The filtering class for direct connections is never reported.\<close>

theorem client_decides:
  assumes "client_run config n lg" "length (lg_testlist lg) \<le> lg_nTestIndex lg"
  shows "let res = lg_results lg in
    (fFilteringTest config \<and> fBindingTestSuccess res \<and> (fHasOtherAddress res \<or> fIsDirect res) \<longrightarrow>
       fFilteringTestSuccess res \<and> filtering res = nat_filtering res) \<and>
    (fBehaviorTest config \<and> fBindingTestSuccess res \<and> fIsDirect res \<longrightarrow> behavior res = DirectMapping) \<and>
    filtering res \<noteq> DirectConnectionFiltering"
proof -
  have c: "classified (effective_config config) (lg_results lg)" "stage_ok (effective_config config) 5 False False (lg_results lg)"
    using run_core [OF assms(1)] assms(2) by (simp_all add: client_core_def lg_stage_def lg_over_def running_def)
  have f: "fFilteringTest (effective_config config) = fFilteringTest config" "fBehaviorTest (effective_config config) = fBehaviorTest config"
    by (simp_all add: effective_config_def)
  have k: "fFilteringTestSuccess (lg_results lg) \<longrightarrow> filtering (lg_results lg) = nat_filtering (lg_results lg)"
    "\<not> fFilteringTestSuccess (lg_results lg) \<longrightarrow> filtering (lg_results lg) = UnknownFiltering"
    "fBehaviorTestSuccess (lg_results lg) \<longrightarrow> behavior (lg_results lg) = nat_behavior (lg_results lg)"
    using c(1) unfolding classified_def by blast+
  have "nat_filtering res \<noteq> DirectConnectionFiltering" "fIsDirect res \<Longrightarrow> nat_behavior res = DirectMapping" for res
    by (simp_all add: nat_filtering_def nat_behavior_def)
  note e = this
  have d: "filtering (lg_results lg) \<noteq> DirectConnectionFiltering"
    "fBehaviorTestSuccess (lg_results lg) \<Longrightarrow> fIsDirect (lg_results lg) \<Longrightarrow> behavior (lg_results lg) = DirectMapping"
    using k(1,2) e(1) [of "lg_results lg"] apply (cases "fFilteringTestSuccess (lg_results lg)"; simp)
    using k(3) e(2) [of "lg_results lg"] by simp
  have "fFilteringTest config \<and> fBindingTestSuccess (lg_results lg) \<and> (fHasOtherAddress (lg_results lg) \<or> fIsDirect (lg_results lg)) \<longrightarrow>
      fFilteringTestSuccess (lg_results lg)"
    "fBehaviorTest config \<and> fBindingTestSuccess (lg_results lg) \<and> fIsDirect (lg_results lg) \<longrightarrow> fBehaviorTestSuccess (lg_results lg)"
    using c(2) by (simp_all add: stage_ok_def is_direct_def f)
  then show ?thesis unfolding Let_def using k(1) d by blast
qed

text \<open>A client whose time-outs are instant and that never receives anything gets to the end.\<close>

lemma silent_run:
  "client_run config n lg \<Longrightarrow> timeoutSeconds (effective_config config) = 0 \<Longrightarrow> \<exists>m l. client_run config m l \<and> \<not> running l"
proof (induction "messages_left lg" arbitrary: n lg rule: less_induct)
  case less
  obtain hr buf' d' lg' where g: "GetNextMessage (\<lambda>_. 0) (replicate 16 0) demo_buffer (Some sockaddr_zero) 0 lg = (hr, buf', Some d', lg')"
    "asked 0 demo_buffer sockaddr_zero (lg_config lg) (messages_left lg) (hr, buf', d', lg')"
    by (rule ask_outcome [OF run_core(1) [OF less.prems(1)] demo_buffer_ok(1), of "replicate 16 0" "\<lambda>_. 0" sockaddr_zero 0]) (simp_all add: demo_buffer_ok)
  have run: "client_run config (if hr = S_OK then n + 1 else n) lg'" by (rule run_ask [OF less.prems(1) demo_buffer_ok(1) _ g(1)]) simp
  show ?case
  proof (cases "hr = S_OK")
    case True
    then have "messages_left lg' < messages_left lg" using g(2) stun_client_codes(1,2) by (auto simp: asked_def)
    from less.hyps [OF this run less.prems(2)] show ?thesis .
  next
    case False
    then have "\<not> running lg'" using g(2) run_core(2) [OF less.prems(1)] less.prems(2) by (auto simp: asked_def waiting_def)
    with run show ?thesis by blast
  qed
qed

lemma client_decides_witness: "\<exists>n lg. client_run demo_config n lg \<and> filtering (lg_results lg) \<noteq> DirectConnectionFiltering"
proof -
  have "timeoutSeconds (effective_config demo_config) = 0" by (simp add: effective_config_def demo_config_def)
  from silent_run [OF demo_run this] obtain n lg where "client_run demo_config n lg" "\<not> running lg" by blast
  then show ?thesis using client_decides [of demo_config n lg] by (auto simp: running_def Let_def)
qed

section \<open>The session\<close>

text \<open>C38: A call of \<open>GetNextMessage\<close> on a client in any state of a run has one of three outcomes. All tests
  are over; or the last message's time-out has not passed and nothing is written; or a binding
  request of the current test, which waits for its response, is in the caller's buffer: the wire
  image with the test's own id and its change flags, for the test's destination.\<close>

theorem next_message_outcomes:
  assumes "client_run config n lg" "wf_buffer buf" "800 \<le> cb_allocatedSize buf" "length stack = 16"
  shows "case GetNextMessage rand stack buf (Some d) now lg of (hr, buf', d', lg') \<Rightarrow>
    hr = E_STUNCLIENT_RESULTS_READY \<and> length (lg_testlist lg') \<le> lg_nTestIndex lg' \<and> buf' = buf \<or>
    hr = E_STUNCLIENT_STILL_WAITING \<and> waiting now lg' \<and> buf' = buf \<or>
    hr = S_OK \<and> buffer_bytes buf' = request_image (ct_transid (current_test lg')) (test_change (current_test lg')) \<and>
      cb_allocatedSize buf' = cb_allocatedSize buf \<and> d' = Some (test_dest (lg_config lg') (lg_results lg') (current_test lg')) \<and>
      \<not> ct_fCompleted (current_test lg')"
proof -
  obtain hr buf' d' lg' where "GetNextMessage rand stack buf (Some d) now lg = (hr, buf', Some d', lg')"
    "asked now buf d (lg_config lg) (messages_left lg) (hr, buf', d', lg')"
    by (rule ask_outcome [OF run_core(1) [OF assms(1)] assms(2-4)])
  then show ?thesis by (auto simp: asked_def running_def pending_def test_over_def message_sent_def Let_def)
qed

text \<open>C34: A client never sends more than its attempts for each of its tests, whatever it receives: one to
  five tests, with the configured number of attempts (two by default).\<close>

theorem client_message_bound:
  assumes "client_run config n lg"
  shows "n \<le> (1 + (if fBehaviorTest config then 2 else 0) + (if fFilteringTest config then 2 else 0)) *
    unat (if uMaxAttempts config = 0 then 2 else uMaxAttempts config)"
proof -
  have "length (fresh_tests config) = 1 + (if fBehaviorTest config then 2 else 0) + (if fFilteringTest config then 2 else 0)"
    by (simp add: fresh_tests_def)
  moreover have "uMaxAttempts (effective_config config) = (if uMaxAttempts config = 0 then 2 else uMaxAttempts config)"
    by (simp add: effective_config_def)
  ultimately have "message_budget config = (1 + (if fBehaviorTest config then 2 else 0) + (if fFilteringTest config then 2 else 0)) *
      unat (if uMaxAttempts config = 0 then 2 else uMaxAttempts config)"
    unfolding message_budget_def by (simp only:)
  then show ?thesis using run_ok [OF assms] by linarith
qed

lemma demo_first:
  obtains buf d lg where "GetNextMessage (\<lambda>_. 0) (replicate 16 0) demo_buffer (Some sockaddr_zero) 0 demo_client = (S_OK, buf, Some d, lg)"
    "lg_nTestIndex lg = 0" "lg_sendCount lg = 1" "client_run demo_config 1 lg"
proof -
  obtain buf d lg where g: "GetNextMessage (\<lambda>_. 0) (replicate 16 0) demo_buffer (Some sockaddr_zero) 0 demo_client = (S_OK, buf, Some d, lg)"
    "lg_nTestIndex lg = 0" "lg_sendCount lg = 1"
    using first_message [OF demo_init demo_buffer_ok(1), of "replicate 16 0" "\<lambda>_. 0" sockaddr_zero 0] by (auto simp: demo_buffer_ok)
  moreover have "client_run demo_config 1 lg" using run_ask [OF demo_run demo_buffer_ok(1) _ g(1)] by simp
  ultimately show thesis by (rule that)
qed

lemma next_message_outcomes_witness:
  "\<exists>buf lg. GetNextMessage (\<lambda>_. 0) (replicate 16 0) demo_buffer (Some sockaddr_zero) 0 demo_client =
       (S_OK, buf, Some (test_dest (lg_config lg) (lg_results lg) (current_test lg)), lg) \<and>
     buffer_bytes buf = request_image (ct_transid (current_test lg)) (test_change (current_test lg)) \<and> \<not> ct_fCompleted (current_test lg)"
proof -
  obtain buf d lg where g: "GetNextMessage (\<lambda>_. 0) (replicate 16 0) demo_buffer (Some sockaddr_zero) 0 demo_client = (S_OK, buf, Some d, lg)"
    by (rule demo_first)
  have "buffer_bytes buf = request_image (ct_transid (current_test lg)) (test_change (current_test lg)) \<and>
     Some d = Some (test_dest (lg_config lg) (lg_results lg) (current_test lg)) \<and> \<not> ct_fCompleted (current_test lg)"
    using next_message_outcomes [OF demo_run demo_buffer_ok(1), where stack = "replicate 16 0" and rand = "\<lambda>_. 0" and d = sockaddr_zero and now = 0] g demo_buffer_ok(2) stun_client_codes(1,2)
    by auto
  with g show ?thesis by auto
qed

lemma client_message_bound_witness: "\<exists>lg. client_run demo_config 1 lg \<and> 1 \<le> (5 * 2 :: nat)"
proof -
  obtain buf d lg where "client_run demo_config 1 lg" by (rule demo_first)
  with client_message_bound [OF this] show ?thesis by (auto simp: demo_config_def)
qed

text \<open>A series of calls of \<open>GetNextMessage\<close>, each with its random bytes, stack, buffer, destination and time.\<close>

fun asks :: "((nat \<Rightarrow> u8) \<times> bytes \<times> cbuffer \<times> simple_sockaddr \<times> u32) list \<Rightarrow> CStunClientLogic \<Rightarrow> hresult list" where
  "asks [] lg = []"
| "asks ((rand, stack, buf, d, now) # es) lg =
     (case GetNextMessage rand stack buf (Some d) now lg of (hr, buf', d', lg') \<Rightarrow> hr # asks es lg')"

definition proper_ask :: "(nat \<Rightarrow> u8) \<times> bytes \<times> cbuffer \<times> simple_sockaddr \<times> u32 \<Rightarrow> bool" where
  "proper_ask = (\<lambda>(rand, stack, buf, d, now). length stack = 16 \<and> wf_buffer buf \<and> 800 \<le> cb_allocatedSize buf)"

lemma asks_end:
  "client_core lg \<Longrightarrow> \<forall>e \<in> set es. proper_ask e \<Longrightarrow> E_STUNCLIENT_STILL_WAITING \<notin> set (asks es lg) \<Longrightarrow> messages_left lg < length es \<Longrightarrow>
   last (asks es lg) = E_STUNCLIENT_RESULTS_READY"
proof (induction es arbitrary: lg)
  case (Cons e es)
  obtain rand stack buf d now where e: "e = (rand, stack, buf, d, now)" by (metis prod_cases5)
  have p: "length stack = 16" "wf_buffer buf" "800 \<le> cb_allocatedSize buf" using Cons.prems(2) by (simp_all add: e proper_ask_def)
  obtain hr buf' d' lg' where g: "GetNextMessage rand stack buf (Some d) now lg = (hr, buf', Some d', lg')"
    "asked now buf d (lg_config lg) (messages_left lg) (hr, buf', d', lg')"
    by (rule ask_outcome [OF Cons.prems(1) p(2,3,1)])
  have ih: "client_core lg'" "\<forall>e \<in> set es. proper_ask e" "E_STUNCLIENT_STILL_WAITING \<notin> set (asks es lg')" "hr \<noteq> E_STUNCLIENT_STILL_WAITING"
    using Cons.prems(2,3) g by (auto simp: e asked_def)
  show ?case
  proof (cases "hr = S_OK")
    case True
    then have "messages_left lg' < messages_left lg" using g(2) stun_client_codes(1,2) by (auto simp: asked_def)
    then have l: "messages_left lg' < length es" using Cons.prems(4) by simp
    have "asks es lg' \<noteq> []" using l by (cases es) (auto split: prod.splits)
    then show ?thesis using Cons.IH [OF ih(1-3) l] by (simp add: e g(1))
  next
    case False
    then have r: "hr = E_STUNCLIENT_RESULTS_READY" "\<not> running lg'" using g(2) ih(4) by (auto simp: asked_def)
    have "messages_left lg' = 0" using r(2) by (simp add: messages_left_def running_def)
    then show ?thesis using Cons.IH [OF ih(1-3)] r(1) by (cases es) (auto simp: e g(1) split: prod.splits)
  qed
qed simp

text \<open>C9: A session ends: a client that is asked once more than its message budget, with no call falling
  inside a time-out, answers that its results are ready.\<close>

theorem client_finishes:
  assumes "client_run config n lg" "\<forall>e \<in> set es. proper_ask e" "E_STUNCLIENT_STILL_WAITING \<notin> set (asks es lg)" "message_budget config < length es"
  shows "last (asks es lg) = E_STUNCLIENT_RESULTS_READY"
  using asks_end [OF run_core(1) [OF assms(1)] assms(2,3)] run_ok [OF assms(1)] assms(4) by simp

text \<open>With an instant time-out no call is told to wait.\<close>

lemma instant_never_waits:
  "client_core lg \<Longrightarrow> timeoutSeconds (lg_config lg) = 0 \<Longrightarrow> \<forall>e \<in> set es. proper_ask e \<Longrightarrow> E_STUNCLIENT_STILL_WAITING \<notin> set (asks es lg)"
proof (induction es arbitrary: lg)
  case (Cons e es)
  obtain rand stack buf d now where e: "e = (rand, stack, buf, d, now)" by (metis prod_cases5)
  have p: "length stack = 16" "wf_buffer buf" "800 \<le> cb_allocatedSize buf" using Cons.prems(3) by (simp_all add: e proper_ask_def)
  obtain hr buf' d' lg' where g: "GetNextMessage rand stack buf (Some d) now lg = (hr, buf', Some d', lg')"
    "asked now buf d (lg_config lg) (messages_left lg) (hr, buf', d', lg')"
    by (rule ask_outcome [OF Cons.prems(1) p(2,3,1)])
  have "client_core lg'" "lg_config lg' = lg_config lg" "hr \<noteq> E_STUNCLIENT_STILL_WAITING"
    using g(2) Cons.prems(2) stun_client_codes(1-3) by (auto simp: asked_def waiting_def)
  then show ?case using Cons.IH [of lg'] Cons.prems(2,3) by (auto simp: e g(1))
qed simp

lemma client_finishes_witness:
  "last (asks (replicate 11 (\<lambda>_. 0, replicate 16 0, demo_buffer, sockaddr_zero, 0)) demo_client) = E_STUNCLIENT_RESULTS_READY"
proof (rule client_finishes [OF demo_run])
  show p: "\<forall>e \<in> set (replicate 11 (\<lambda>_. 0, replicate 16 0, demo_buffer, sockaddr_zero, 0)). proper_ask e"
    using demo_buffer_ok by (simp add: proper_ask_def)
  show "E_STUNCLIENT_STILL_WAITING \<notin> set (asks (replicate 11 (\<lambda>_. 0, replicate 16 0, demo_buffer, sockaddr_zero, 0)) demo_client)"
    by (rule instant_never_waits [OF run_core(1) [OF demo_run] _ p])
      (simp add: run_core(2) [OF demo_run] effective_config_def demo_config_def)
  show "message_budget demo_config < length (replicate 11 (\<lambda>_ :: nat. 0 :: u8, replicate 16 (0 :: u8), demo_buffer, sockaddr_zero, 0 :: u32))"
    by (simp add: message_budget_def fresh_tests_def effective_config_def demo_config_def)
qed

lemma same_test_sends:
  assumes core: "client_core lg" and p: "pending lg"
    and l: "GetNextMessage_loop rand stack now buf d lg = (S_OK, buf', d', lg')" "lg_nTestIndex lg' = lg_nTestIndex lg"
  shows "send_message rand stack now buf d lg = (S_OK, buf', d', lg')"
proof -
  have e: "early_check lg = lg" "running lg" "\<not> test_over lg" using p by (simp_all add: pending_def early_check_def)
  let ?P = "\<lambda>l. lg_nTestIndex lg < lg_nTestIndex l \<or> lg_nTestIndex l = lg_nTestIndex lg \<and> running l \<and> ct_fCompleted (current_test l)"
  let ?Q = "\<lambda>(hr :: hresult, b :: cbuffer, x :: simple_sockaddr, l). lg_nTestIndex lg < lg_nTestIndex l"
  have over: "test_over (early_check l)" if "running l" "ct_fCompleted (current_test l)" for l
    using early_check_completed [of l] that by (simp add: running_def test_over_def)
  have step: "?P l'" if "?P l" "GetNextMessage_round rand stack now buf d l = Inl l'" for l l'
    using that over [of l] by (auto simp: GetNextMessage_round_def Let_def next_test_def split: if_splits)
  have exit: "?Q x" if "?P l" "GetNextMessage_round rand stack now buf d l = Inr x" for l x
    using that over [of l] send_index [of rand stack now buf d "early_check l"]
    by (auto simp: GetNextMessage_round_def Let_def running_def split: if_splits prod.splits)
  have away: "?Q (GetNextMessage_loop rand stack now buf d l)" if "?P l" for l
    using GetNextMessage_rule [where P = ?P and Q = ?Q, OF that step exit] .
  show ?thesis
  proof (cases "uMaxAttempts (lg_config lg) \<le> lg_sendCount lg \<and> \<not> waiting now lg")
    case True
    let ?l = "on_current Test_NotifyTimeout lg"
    have "GetNextMessage_loop rand stack now buf d lg = GetNextMessage_loop rand stack now buf d ?l"
      using e True by (simp add: GetNextMessage_loop.simps [of rand stack now buf d lg] GetNextMessage_round_def Let_def running_def)
    then have ll: "GetNextMessage_loop rand stack now buf d ?l = (S_OK, buf', d', lg')" using l(1) by simp
    have "?P ?l" using e(2) Test_NotifyTimeout_completes by (simp add: running_def)
    from away [OF this] have "?Q (S_OK, buf', d', lg')" unfolding ll .
    then show ?thesis using l(2) by simp
  next
    case False
    then show ?thesis using l(1) e stun_client_codes(2) [symmetric]
      by (auto simp: GetNextMessage_loop.simps [of rand stack now buf d lg] GetNextMessage_round_def Let_def running_def split: if_splits)
  qed
qed

text \<open>A retransmission repeats the request: two calls that both yield a message of the same test give the
  same bytes for the same destination, whatever the random source and the stack hold.\<close>

theorem retransmission_repeats:
  assumes "client_run config n lg" "wf_buffer buf" "length stack = 16" "wf_buffer buf2" "length stack2 = 16"
    "GetNextMessage rand stack buf (Some d) now lg = (S_OK, buf', dest', lg')"
    "GetNextMessage rand2 stack2 buf2 (Some d2) now2 lg' = (S_OK, buf2', dest2', lg2')" "lg_nTestIndex lg2' = lg_nTestIndex lg'"
  shows "buffer_bytes buf2' = buffer_bytes buf' \<and> dest2' = dest'"
proof -
  obtain d' where a: "dest' = Some d'" "asked now buf d (lg_config lg) (messages_left lg) (S_OK, buf', d', lg')"
    by (rule sent_asked [OF run_core(1) [OF assms(1)] assms(2,3,6)])
  have p: "client_core lg'" "pending lg'" "message_sent now buf buf' d' lg'" using a(2) stun_client_codes(1,2) by (auto simp: asked_def)
  obtain d2' where a2: "dest2' = Some d2'" "asked now2 buf2 d2 (lg_config lg') (messages_left lg') (S_OK, buf2', d2', lg2')" "800 \<le> cb_allocatedSize buf2"
    "GetNextMessage_loop rand2 stack2 now2 buf2 d2 lg' = (S_OK, buf2', d2', lg2')"
    by (rule sent_asked [OF p(1) assms(4,5,7)])
  have r: "running lg'" "wf_transid (ct_transid (current_test lg'))" "IsTransactionIdValid (ct_transid (current_test lg'))"
    using p running_mem [of lg'] by (simp_all add: pending_def client_core_def message_sent_def Let_def)
  have "send_message rand2 stack2 now2 buf2 d2 lg' = (S_OK, buf2', d2', lg2')" using same_test_sends [OF p(1,2) a2(4) assms(8)] .
  then have "buffer_bytes buf2' = request_image (ct_transid (current_test lg')) (test_change (current_test lg'))"
    "d2' = test_dest (lg_config lg') (lg_results lg') (current_test lg')"
    using virtual.send_again [OF TrueI r(3) assms(4) a2(3) assms(5) r(2), of rand2 "lg_config lg'" "lg_results lg'"] by (auto simp: send_message_def)
  then show ?thesis using p(3) a(1) a2(1) by (simp add: message_sent_def Let_def)
qed

lemma pending_sends:
  assumes "client_core lg" "pending lg" "\<not> waiting now lg" "\<not> uMaxAttempts (lg_config lg) \<le> lg_sendCount lg"
  shows "GetNextMessage_loop rand stack now buf d lg = send_message rand stack now buf d lg"
proof -
  have "early_check lg = lg" "running lg" "\<not> test_over lg" using assms(2) by (simp_all add: pending_def early_check_def)
  then show ?thesis using assms(3,4)
    by (simp add: GetNextMessage_loop.simps [of rand stack now buf d lg] GetNextMessage_round_def Let_def running_def)
qed

lemma retransmission_repeats_witness:
  "\<exists>buf d lg buf2 lg2.
     GetNextMessage (\<lambda>_. 0) (replicate 16 0) demo_buffer (Some sockaddr_zero) 0 demo_client = (S_OK, buf, d, lg) \<and>
     GetNextMessage (\<lambda>_. 5) (replicate 16 9) demo_buffer (Some sockaddr_zero) 100 lg = (S_OK, buf2, d, lg2) \<and>
     buffer_bytes buf2 = buffer_bytes buf"
proof -
  obtain buf d lg where g: "GetNextMessage (\<lambda>_. 0) (replicate 16 0) demo_buffer (Some sockaddr_zero) 0 demo_client = (S_OK, buf, Some d, lg)"
    "lg_nTestIndex lg = 0" "lg_sendCount lg = 1" "client_run demo_config 1 lg" by (rule demo_first)
  note c = run_core [OF g(4)]
  have "pending lg"
    by (rule sent_asked [OF run_core(1) [OF demo_run] demo_buffer_ok(1) _ g(1)]) (use stun_client_codes(1,2) in \<open>auto simp: asked_def\<close>)
  moreover have "lg_config lg = effective_config demo_config" by (rule c(2))
  ultimately have l: "GetNextMessage_loop (\<lambda>_. 5) (replicate 16 9) 100 demo_buffer sockaddr_zero lg = send_message (\<lambda>_. 5) (replicate 16 9) 100 demo_buffer sockaddr_zero lg"
    using c(1) g(3) by (intro pending_sends) (simp_all add: waiting_def effective_config_def demo_config_def word_le_nat_alt)
  have "wf_transid (ct_transid (current_test lg))" using c(1) \<open>pending lg\<close> running_mem [of lg] by (simp add: client_core_def pending_def)
  with send_ok [OF demo_buffer_ok(1), of "replicate 16 9" lg "\<lambda>_. 5" 100 sockaddr_zero] send_index [of "\<lambda>_. 5" "replicate 16 9" 100 demo_buffer sockaddr_zero lg]
  obtain buf2 d2 lg2 where s: "send_message (\<lambda>_. 5) (replicate 16 9) 100 demo_buffer sockaddr_zero lg = (S_OK, buf2, d2, lg2)" "lg_nTestIndex lg2 = lg_nTestIndex lg"
    using demo_buffer_ok(2) by (cases "send_message (\<lambda>_. 5) (replicate 16 9) 100 demo_buffer sockaddr_zero lg") auto
  have g2: "GetNextMessage (\<lambda>_. 5) (replicate 16 9) demo_buffer (Some sockaddr_zero) 100 lg = (S_OK, buf2, Some d2, lg2)"
    using c(1) l s demo_buffer_ok by (simp add: GetNextMessage_def client_core_def MAX_STUN_MESSAGE_SIZE_def)
  from retransmission_repeats [OF demo_run demo_buffer_ok(1) _ demo_buffer_ok(1) _ g(1) g2 s(2)] g(1) g2 show ?thesis by auto
qed

text \<open>A message that is no complete STUN message, or that does not carry the transaction id of the current
  test's request, changes nothing.\<close>

theorem stray_message_ignored:
  assumes "client_run config n lg" "wf_buffer buf" "cb_allocatedSize buf < size_range"
    "Reader_GetState (received True [buffer_bytes buf]) \<noteq> BodyValidated \<or>
     Reader_GetTransactionId (received True [buffer_bytes buf]) \<noteq> ct_transid (current_test lg)"
  shows "FAILED (fst (Logic_ProcessResponse buf remote local lg)) \<and> snd (Logic_ProcessResponse buf remote local lg) = lg"
proof -
  have "\<not> response_valid buf (current_test lg)" using assms(4) by (auto simp: response_valid_def response_reader_def)
  note r = virtual.resp_refused [OF TrueI assms(2,3) this]
  have "on_current (\<lambda>x. snd (Test_ProcessResponse (lg_config lg) buf remote local x)) lg = lg"
    by (simp add: on_current_def r) (simp add: current_test_def)
  then show ?thesis using r run_core(1) [OF assms(1)] by (simp add: Logic_ProcessResponse_def client_core_def)
qed

lemma stray_message_ignored_witness:
  "snd (Logic_ProcessResponse (CBuffer_alloc 10) sockaddr_zero sockaddr_zero demo_client) = demo_client"
proof -
  have w: "wf_buffer (CBuffer_alloc 10)" "cb_allocatedSize (CBuffer_alloc 10) < size_range" "buffer_bytes (CBuffer_alloc 10) = replicate 10 0"
    using wf_CBuffer_alloc [of 10] by (simp_all add: size_range_def buffer_bytes_def CBuffer_GetData_def)
  have "Reader_GetState (received True [replicate 10 0]) \<noteq> BodyValidated"
    using reader_after_state [OF received_after [of "[replicate 10 0]" True]] by (simp add: Reader_GetState_def spec_state_def size_range_def)
  then show ?thesis using stray_message_ignored [OF demo_run w(1,2), of sockaddr_zero sockaddr_zero] unfolding w(3) by blast
qed

text \<open>C5: End to end between client and server: the server's answer to the client's first request, delivered to
  the client, completes the binding test. The mapped address is the one from which the server
  received the request, the connection is direct exactly when that is the client's local address,
  and the other address is the one the server reports. The request itself was sent to the
  configured server.\<close>

theorem client_learns_address:
  assumes run: "client_run config n lg" and buf: "wf_buffer buf" "length stack = 16"
    and ask: "GetNextMessage rand stack buf (Some d) now lg = (S_OK, buf', Some d', lg')" "lg_nTestIndex lg' = 0"
    and serve: "serving hmac md5 None tas msgIn msgOut (received True [buffer_bytes buf'])"
    and answer: "wf_buffer rbuf" "cb_allocatedSize rbuf < size_range" "buffer_bytes rbuf = sent_bytes (response hmac md5 None tas msgIn msgOut)"
    and local: "wf_addr local"
  shows "d' = addrServer (lg_config lg) \<and>
    (let (hr, lg2) = Logic_ProcessResponse rbuf remote local lg'; res = lg_results lg2
     in hr = S_OK \<and> fBindingTestSuccess res \<and> CSocketAddress_IsSameIP_and_Port (in_addrRemote msgIn) (addrMapped res) \<and>
        (fIsDirect res \<longleftrightarrow> CSocketAddress_IsSameIP_and_Port local (in_addrRemote msgIn)) \<and>
        (case reported_other tas (in_socketrole msgIn) of
           None \<Rightarrow> \<not> fHasOtherAddress res
         | Some a \<Rightarrow> fHasOtherAddress res \<and> CSocketAddress_IsSameIP_and_Port a (addrAA res)))"
proof -
  have a: "asked now buf d (lg_config lg) (messages_left lg) (S_OK, buf', d', lg')"
    by (rule sent_asked [OF run_core(1) [OF run] buf ask(1)]) simp
  have p: "client_core lg'" "pending lg'" "message_sent now buf buf' d' lg'" "lg_config lg' = lg_config lg"
    using a stun_client_codes(1,2) by (auto simp: asked_def)
  let ?t = "current_test lg'"
  have r: "running lg'" "\<not> ct_fCompleted ?t" using p(2) by (simp_all add: pending_def test_over_def)
  have "map ct_stage (lg_testlist lg') ! 0 = plan (lg_config lg') ! 0" using p(1) by (simp add: client_core_def)
  then have "ct_stage ?t = 0" using r(1) ask(2) by (simp add: current_test_def running_def plan_def)
  then have cl: "ct_class ?t = CBasicBindingTest" by (cases ?t rule: ct_stage_cases) simp_all
  have tid: "wf_transid (ct_transid ?t)" using p(1) running_mem [OF r(1)] by (simp add: client_core_def)
  have m: "buffer_bytes buf' = request_image (ct_transid ?t) no_change" "d' = addrServer (lg_config lg)"
    using p(3) by (simp_all add: message_sent_def Let_def test_change_def test_dest_def cl p(4))
  note rd = plain_answer_read [OF serve [unfolded m(1)] tid answer(3)]
  have valid: "response_valid rbuf ?t" using rd(1,2) by (simp add: response_valid_def response_reader_def)
  obtain y where y: "Reader_GetXorMappedAddress CSocketAddress_default (response_reader rbuf) = (S_OK, y)"
    "CSocketAddress_IsSameIP_and_Port (in_addrRemote msgIn) y"
    using rd(3) [of CSocketAddress_default] by (cases "Reader_GetXorMappedAddress CSocketAddress_default (response_reader rbuf)")
      (simp add: same_address_def response_reader_def)
  obtain ho x where x: "GetOtherAddress CSocketAddress_default (response_reader rbuf) = (ho, x)" by fastforce
  obtain hr t' res' where f: "BasicBinding_ProcessResponse (lg_config lg') rbuf remote local (?t, lg_results lg') = (hr, t', res')" by (metis prod_cases3)
  note b = binding_takes [OF answer(1,2) valid y(1) x f]
  have "buffer_bytes rbuf \<noteq> []"
    using rd(1) reader_after_state [OF received_after [of "[[]]" True]] by (auto simp: Reader_GetState_def spec_state_def size_range_def)
  then have "cb_size rbuf \<noteq> 0" by (auto simp: buffer_bytes_def)
  then have "Logic_ProcessResponse rbuf remote local lg' = (hr, on_current (\<lambda>x. snd (Test_ProcessResponse (lg_config lg') rbuf remote local x)) lg')"
    using p(1) r f by (simp add: Logic_ProcessResponse_def client_core_def running_def Test_ProcessResponse_def cl)
  moreover have "lg_results (on_current (\<lambda>x. snd (Test_ProcessResponse (lg_config lg') rbuf remote local x)) lg') = res'"
    using f by (simp add: Test_ProcessResponse_def cl)
  moreover have "wf_addr (in_addrRemote msgIn)" using serve by (simp add: serving_def valid_input_def)
  ultimately show ?thesis using b m(2) y(2) rd(4) [of CSocketAddress_default] x same_endpoint_through [OF local _ y(2)]
    by (auto simp: response_reader_def reads_option_def same_address_def split: option.splits)
qed

text \<open>The example server takes any request of the client.\<close>

lemma demo_serves:
  assumes "wf_transid tid"
  shows "serving demo_hmac demo_md5 None demo_set (demo_in\<lparr>in_pReader := Some (received True [request_image tid c])\<rparr>) demo_out
    (received True [request_image tid c])"
proof -
  note r = request_read [OF assms, of c]
  have "rd_state (received True [request_image tid c]) = BodyValidated" using r(1) by (simp add: Reader_GetState_def)
  moreover have "wf_set demo_set" by (simp add: demo_set_def wf_set_def)
  moreover have "length (demo_hmac k d) = 20" for k d by (simp add: demo_hmac_def min_def)
  ultimately show ?thesis using r assms providers(1) wf_CBuffer_alloc [of 1500]
    by (simp add: serving_def valid_input_def demo_in_def demo_out_def demo_md5_def StunMsgTypeBinding_def)
qed

lemma client_learns_address_witness:
  "\<exists>lg :: CStunClientLogic. fBindingTestSuccess (lg_results lg) \<and> CSocketAddress_IsSameIP_and_Port (CSocketAddress_ip4 9 5000) (addrMapped (lg_results lg))"
proof -
  obtain buf d lg where g: "GetNextMessage (\<lambda>_. 0) (replicate 16 0) demo_buffer (Some sockaddr_zero) 0 demo_client = (S_OK, buf, Some d, lg)"
    "lg_nTestIndex lg = 0" "client_run demo_config 1 lg" by (rule demo_first)
  have "message_sent 0 demo_buffer buf d lg" "running lg"
    by (rule sent_asked [OF run_core(1) [OF demo_run] demo_buffer_ok(1) _ g(1)],
        use stun_client_codes(1,2) in \<open>auto simp: asked_def pending_def\<close>)+
  then obtain tid c where b: "buffer_bytes buf = request_image tid c" "wf_transid tid"
    using run_core(1) [OF g(3)] running_mem [of lg] by (auto simp: message_sent_def Let_def client_core_def)
  let ?r = "received True [request_image tid c]" and ?in = "demo_in\<lparr>in_pReader := Some (received True [request_image tid c])\<rparr>"
  let ?bs = "sent_bytes (response demo_hmac demo_md5 None demo_set ?in demo_out)"
  let ?buf = "\<lparr>cb_data = Some ?bs, cb_size = length ?bs, cb_allocatedSize = length ?bs\<rparr>"
  note s = demo_serves [OF b(2), of c]
  have "length ?bs \<le> 180"
    unfolding serving_sent(1) [OF s] by (rule reply_length) (use s in \<open>simp_all add: serving_def\<close>)
  then have "wf_buffer ?buf" "cb_allocatedSize ?buf < size_range" "buffer_bytes ?buf = ?bs"
    by (simp_all add: wf_buffer_def size_range_def buffer_bytes_def CBuffer_GetData_def)
  note l = client_learns_address [OF demo_run demo_buffer_ok(1) _ g(1,2) s [folded b(1)] this [unfolded b(1) [symmetric]] wf_addr_ip4 [of 9 5000], where remote = sockaddr_zero]
  show ?thesis
    by (rule exI [of _ "snd (Logic_ProcessResponse ?buf sockaddr_zero (CSocketAddress_ip4 9 5000) lg)"])
      (use l in \<open>simp add: Let_def split_beta b(1) demo_in_def\<close>)
qed

section \<open>What the results mean\<close>

text \<open>The example server's answer to a request with the id \<open>tid\<close> that asks for the change \<open>c\<close>.\<close>

definition demo_answer :: "bytes \<Rightarrow> StunChangeRequestAttribute \<Rightarrow> bytes" where
  "demo_answer tid c =
     sent_bytes (response demo_hmac demo_md5 None demo_set (demo_in\<lparr>in_pReader := Some (received True [request_image tid c])\<rparr>) demo_out)"

definition answer_buffer :: "bytes \<Rightarrow> cbuffer" where
  "answer_buffer bs = \<lparr>cb_data = Some bs, cb_size = length bs, cb_allocatedSize = length bs\<rparr>"

lemma demo_answer_read:
  fixes c :: StunChangeRequestAttribute
  assumes tid: "wf_transid tid"
  defines "bs \<equiv> demo_answer tid c"
  shows "Reader_GetState (packet bs) = BodyValidated" "Reader_GetTransactionId (packet bs) = tid"
    "same_address (CSocketAddress_ip4 9 5000) (Reader_GetXorMappedAddress z (packet bs))" "SUCCEEDED (fst (GetOtherAddress z (packet bs)))"
    "length bs \<le> 180"
proof -
  let ?r = "received True [request_image tid c]"
  let ?in = "demo_in\<lparr>in_pReader := Some ?r\<rparr>" and ?l = "take 4 tid \<noteq> be32 STUN_COOKIE"
  let ?out = "if wants_change ?r then change_output c RolePP else RolePP"
  let ?origin = "reported_origin demo_set ?in ?out" and ?other = "reported_other demo_set RolePP"
  let ?as = "with_mac demo_hmac None StunMsgTypeBinding StunMsgClassSuccessResponse tid (binding_attrs ?l tid (CSocketAddress_ip4 9 5000) ?origin ?other)"
  note req = request_read [OF tid, of c] and serve = demo_serves [OF tid, of c]
  have "\<forall>p \<in> {RolePP, RolePA, RoleAP, RoleAA}. usable demo_set p" by code_simp
  moreover have "change_output c RolePP \<in> {RolePP, RolePA, RoleAP, RoleAA}"
    by (cases "fChangeIP c"; cases "fChangePort c") (simp add: change_output_def; code_simp)+
  ultimately have "usable demo_set (change_output c RolePP)" by auto
  then have rep: "reply_to demo_hmac demo_md5 None demo_set ?in ?r = BindingReply ?out ?origin ?other None"
    using req by (simp add: reply_to_def auth_verdict_def binding_reply_def Let_def demo_in_def)
  have remote: "in_addrRemote ?in = CSocketAddress_ip4 9 5000" by (simp add: demo_in_def)
  have v: "valid_input demo_set ?in ?r" "\<forall>k d. length (demo_hmac k d) = 20" using serve by (simp_all add: serving_def)
  note ad = reply_addresses [OF v(1) rep]
  have w: "wf_addr (CSocketAddress_ip4 9 5000)" "wf_opt ?origin" "wf_opt ?other" using ad by simp_all
  have ok: "message_ok True StunMsgTypeBinding StunMsgClassSuccessResponse tid ?as" by (rule binding_message_ok [OF w tid v(2)])
  have "concat [bs] = message StunMsgTypeBinding StunMsgClassSuccessResponse tid ?as"
    using serving_sent(1) [OF serve, unfolded rep] remote by (simp add: bs_def demo_answer_def reply_bytes_def Let_def req)
  then have ra: "reader_after True (message StunMsgTypeBinding StunMsgClassSuccessResponse tid ?as) (packet bs)"
    unfolding packet_def by (rule received_message [OF ok])
  show "Reader_GetState (packet bs) = BodyValidated" "Reader_GetTransactionId (packet bs) = tid"
    "same_address (CSocketAddress_ip4 9 5000) (Reader_GetXorMappedAddress z (packet bs))"
    using message_read [OF ok ra] binding_reads [OF ok ra w tid, of z] by simp_all
  have "?other = Some (CSocketAddress_ip4 2 3479)" by code_simp
  then show "SUCCEEDED (fst (GetOtherAddress z (packet bs)))"
    using binding_reads [OF ok ra w tid, of z] by (simp add: reads_option_def same_address_def split_beta)
  show "length bs \<le> 180" 
    unfolding bs_def demo_answer_def serving_sent(1) [OF serve] by (rule reply_length) (use serve in \<open>simp_all add: serving_def\<close>)
qed


text \<open>A call that yields a message, and its answer, in a history.\<close>

lemma observed_sent: "fst (observed es) = Some (d, pk) \<Longrightarrow> Sent d pk \<in> set es"
proof (induction es rule: rev_induct)
  case (snoc e es)
  obtain req xs where "observed es = (req, xs)" by fastforce
  with snoc show ?case by (cases e) (auto split: option.splits if_splits)
qed simp

lemma trace_sent:
  assumes trace: "client_trace config es lg" and buf: "wf_buffer buf" "length stack = 16"
    and g: "GetNextMessage rand stack buf (Some d) now lg = (S_OK, buf', Some d', lg')"
  shows "client_trace config (es @ [Sent d' (buffer_bytes buf')]) lg'" "observed (es @ [Sent d' (buffer_bytes buf')]) = (Some (open_request lg'), snd (observed es))"
    "asking lg'" "pending lg'" "open_request lg' = (d', buffer_bytes buf')"
proof -
  obtain n where "client_run config n lg" using trace_run [OF trace] by blast
  note core = run_core(1) [OF this]
  show "client_trace config (es @ [Sent d' (buffer_bytes buf')]) lg'"
    using trace_ask [OF trace buf g] by (simp add: asked_event_def)
  have a: "asked now buf d (lg_config lg) (messages_left lg) (S_OK, buf', d', lg')" by (rule sent_asked [OF core buf g]) simp
  then have m: "message_sent now buf buf' d' lg'" and "pending lg'" using stun_client_codes(1,2) by (auto simp: asked_def)
  then show "pending lg'" "asking lg'" by (simp_all add: pending_def test_over_def asking_def)
  show o: "open_request lg' = (d', buffer_bytes buf')" using m by (simp add: open_request_def message_sent_def Let_def)
  show "observed (es @ [Sent d' (buffer_bytes buf')]) = (Some (open_request lg'), snd (observed es))"
    by (cases "observed es") (simp add: o)
qed

lemma trace_answer:
  assumes trace: "client_trace config es lg" and req: "asking lg" "fst (observed es) = Some (open_request lg)"
    and bs: "length bs < size_range" "takes (answer_buffer bs) (current_test lg)"
  obtains lg' where "client_trace config (es @ [Heard bs local]) lg'"
    "observed (es @ [Heard bs local]) = (None, snd (observed es) @ [test_exchange (lg_config lg) (lg_results lg) (current_test lg) (answer_buffer bs) local])"
proof -
  obtain n where n: "client_run config n lg" using trace_run [OF trace] by blast
  have tid: "wf_transid (ct_transid (current_test lg))" using core_tests(1) [OF run_core(1) [OF n]] req(1) by (simp add: asking_def)
  have buf: "wf_buffer (answer_buffer bs)" "cb_allocatedSize (answer_buffer bs) < size_range" and bytes: "buffer_bytes (answer_buffer bs) = bs"
    using bs(1) by (simp_all add: answer_buffer_def wf_buffer_def buffer_bytes_def CBuffer_GetData_def)
  obtain hr lg' where r: "Logic_ProcessResponse (answer_buffer bs) sockaddr_zero local lg = (hr, lg')" by fastforce
  have "Sent (fst (open_request lg)) (snd (open_request lg)) \<in> set es" using req(2) by (simp add: observed_sent)
  from trace_hear [OF trace this buf r] have "client_trace config (es @ [Heard bs local]) lg'" by (simp add: bytes)
  moreover have "observed (es @ [Heard bs local]) = (None, snd (observed es) @ [test_exchange (lg_config lg) (lg_results lg) (current_test lg) (answer_buffer bs) local])"
    using observed_answer [OF req(2) [unfolded open_request_def] tid, of "answer_buffer bs" local] bs(2) by (simp add: bytes)
  ultimately show thesis by (rule that)
qed

lemma demo_taken:
  assumes "wf_transid (ct_transid t)"
  shows "takes (answer_buffer (demo_answer (ct_transid t) c)) t" "length (demo_answer (ct_transid t) c) < size_range"
    "CSocketAddress_IsSameIP_and_Port (CSocketAddress_ip4 9 5000) (snd (response_mapped (packet (demo_answer (ct_transid t) c))))"
    "buffer_bytes (answer_buffer (demo_answer (ct_transid t) c)) = demo_answer (ct_transid t) c"
proof -
  note r = demo_answer_read [OF assms, where c = c]
  show b: "buffer_bytes (answer_buffer (demo_answer (ct_transid t) c)) = demo_answer (ct_transid t) c"
    by (simp add: answer_buffer_def buffer_bytes_def CBuffer_GetData_def)
  have m: "same_address (CSocketAddress_ip4 9 5000) (response_mapped (packet (demo_answer (ct_transid t) c)))"
    using r(3) [of CSocketAddress_default] by (auto simp: same_address_def response_mapped_def split_beta)
  show "takes (answer_buffer (demo_answer (ct_transid t) c)) t"
    using r(1,2) m by (auto simp: takes_def response_valid_def response_packet b same_address_def split_beta)
  show "length (demo_answer (ct_transid t) c) < size_range" using r(5) by (simp add: size_range_def)
  show "CSocketAddress_IsSameIP_and_Port (CSocketAddress_ip4 9 5000) (snd (response_mapped (packet (demo_answer (ct_transid t) c))))"
    using m by (simp add: same_address_def split_beta)
qed


text \<open>A client that tests the filtering, behind a NAT that shows the server the address 9:5000.\<close>

definition filter_config :: StunClientLogicConfig where
  "filter_config = demo_config\<lparr>fBehaviorTest := False\<rparr>"

lemma first_exchange:
  obtains d pk bs x lg where
    "client_trace filter_config [Sent d pk, Heard bs (CSocketAddress_ip4 10 5000)] lg"
    "observed [Sent d pk, Heard bs (CSocketAddress_ip4 10 5000)] = (None, [x])" "packet_change pk = no_change"
    "CSocketAddress_IsSameIP_and_Port (CSocketAddress_ip4 9 5000) (ex_mapped x)" "ex_local x = CSocketAddress_ip4 10 5000" "ex_other x \<noteq> None"
proof -
  let ?l = "CSocketAddress_ip4 10 5000"
  obtain lg0 where init: "CStunClientLogic_Initialize filter_config (CStunClientLogic_new filter_config False) = (S_OK, lg0)"
  proof -
    have "\<not> CSocketAddress_IsIPAddressZero (addrServer demo_config)" "CSocketAddress_GetPort (addrServer demo_config) \<noteq> 0"
      unfolding demo_config_def by code_simp+
    with that show thesis by (simp add: filter_config_def CStunClientLogic_Initialize_def CStunClientLogic_new_def Let_def)
  qed
  have t0: "client_trace filter_config [] lg0" by (rule trace_start [OF init])
  obtain buf d lg where g: "GetNextMessage (\<lambda>_. 0) (replicate 16 0) demo_buffer (Some sockaddr_zero) 0 lg0 = (S_OK, buf, Some d, lg)" "lg_nTestIndex lg = 0"
    using first_message [OF init demo_buffer_ok(1), of "replicate 16 0" "\<lambda>_. 0" sockaddr_zero 0] by (auto simp: demo_buffer_ok)
  note s = trace_sent [OF t0 demo_buffer_ok(1) _ g(1), simplified]
  obtain n where n: "client_run filter_config n lg" using trace_run [OF s(1)] by blast
  note core = run_core(1) [OF n]
  have run: "running lg" using s(3) by (simp add: asking_def)
  have "map ct_stage (lg_testlist lg) ! 0 = plan (lg_config lg) ! 0" using core by (simp add: client_core_def)
  then have "ct_stage (current_test lg) = 0" using run g(2) by (simp add: current_test_def running_def plan_def)
  then have cl: "test_change (current_test lg) = no_change" by (cases "current_test lg" rule: ct_stage_cases) (simp_all add: test_change_def)
  have tid: "wf_transid (ct_transid (current_test lg))" by (rule core_tests(1) [OF core run])
  let ?bs = "demo_answer (ct_transid (current_test lg)) no_change"
  note r = demo_answer_read [OF tid, where c = no_change] and k = demo_taken [OF tid, where c = no_change]
  let ?x = "test_exchange (lg_config lg) (lg_results lg) (current_test lg) (answer_buffer ?bs) ?l"
  from trace_answer [OF s(1) s(3) _ k(2,1), of ?l] s(2)
  obtain lg2 where t2: "client_trace filter_config [Sent d (buffer_bytes buf), Heard ?bs ?l] lg2" "observed [Sent d (buffer_bytes buf), Heard ?bs ?l] = (None, [?x])"
    by auto
  have "packet_change (buffer_bytes buf) = no_change" using s(5) request_packet(1) [OF tid, of no_change] cl by (simp add: open_request_def)
  moreover have "CSocketAddress_IsSameIP_and_Port (CSocketAddress_ip4 9 5000) (ex_mapped ?x)" "ex_local ?x = ?l"
    using k(3,4) test_exchange_fields [OF tid] by (simp_all add: response_packet)
  moreover have "ex_other ?x \<noteq> None" using r(4) [of CSocketAddress_default] k(4) test_exchange_fields [OF tid]
    by (simp add: response_other_def response_packet split_beta)
  ultimately show thesis using that t2 by blast
qed

lemma answered_reported:
  assumes "reports config es res" "snd (observed es) = [b, x]" "ex_change x = change_both"
  shows "\<not> fIsDirect res \<and> filtering res = EndpointIndependentFiltering"
proof -
  have d: "\<not> fIsDirect res" using assms(1) by (auto simp: reports_def assms(2))
  have a: "answered change_both [x]" by (simp add: answered_def assms(3))
  then have "fFilteringTestSuccess res" using assms(1) d by (cases "fFilteringTestSuccess res") (simp_all add: reports_def assms(2))
  then show ?thesis using assms(1) d a by (simp add: reports_def assms(2) filtering_class_def)
qed

text \<open>C6: After every step of a client its results are those of the messages on the wire. A history of what it sent
  and heard fixes the exchanges: which response answered which request, sent where and asking for which
  change of source. The first exchange gives the binding, and without it nothing is reported. For a client that
  is not direct, the mapping is the class of RFC 5780 that the mapped addresses in the answers of the
  alternate address (at the server's port, then at its own) decide, a success as soon as they
  decide it; the filtering is a success only after the requests it rests on were sent, with the class decided by
  whether a request for another address and port, or else one for another port, was answered. A direct client sends no such
  request and reports the code's own classes: a direct mapping, endpoint-independent filtering.\<close>

theorem client_classifies:
  assumes "client_trace config es lg"
  shows "reports (effective_config config) es (lg_results lg)"
  by (rule trace_reports [OF assms])

lemma client_classifies_witness:
  "\<exists>es lg. client_trace filter_config es lg \<and> length (snd (observed es)) = 2 \<and> \<not> fIsDirect (lg_results lg) \<and>
     filtering (lg_results lg) = EndpointIndependentFiltering"
proof -
  let ?l = "CSocketAddress_ip4 10 5000" and ?c = "effective_config filter_config"
  obtain d pk bs x lg where f: "client_trace filter_config [Sent d pk, Heard bs ?l] lg" "observed [Sent d pk, Heard bs ?l] = (None, [x])"
    "packet_change pk = no_change" "CSocketAddress_IsSameIP_and_Port (CSocketAddress_ip4 9 5000) (ex_mapped x)" "ex_local x = ?l" "ex_other x \<noteq> None"
    by (rule first_exchange)
  let ?es = "[Sent d pk, Heard bs ?l]"
  have differ: "\<not> CSocketAddress_IsSameIP_and_Port ?l (CSocketAddress_ip4 9 5000)" by code_simp
  have nodirect: "\<not> CSocketAddress_IsSameIP_and_Port ?l (ex_mapped x)"
    using same_endpoint_through [OF wf_addr_ip4 wf_addr_ip4 f(4), of 10 5000] differ by simp
  obtain n where n: "client_run filter_config n lg" using trace_run [OF f(1)] by blast
  note core = run_core(1) [OF n]
  obtain hr buf d2 lg2 where g: "GetNextMessage (\<lambda>_. 0) (replicate 16 0) demo_buffer (Some sockaddr_zero) 0 lg = (hr, buf, Some d2, lg2)"
    "asked 0 demo_buffer sockaddr_zero (lg_config lg) (messages_left lg) (hr, buf, d2, lg2)"
    by (rule ask_outcome [OF core demo_buffer_ok(1), of "replicate 16 0" "\<lambda>_. 0" sockaddr_zero 0]) (simp_all add: demo_buffer_ok)
  have t: "client_trace filter_config (?es @ asked_event hr buf (Some d2)) lg2"
    by (rule trace_ask [OF f(1) demo_buffer_ok(1) _ g(1)]) simp
  have cfg: "lg_config lg2 = ?c" using run_core(2) [OF n] g(2) by (simp add: asked_def)
  have conf: "timeoutSeconds ?c = 0" "fFilteringTest ?c" "\<not> fBehaviorTest ?c" by (simp_all add: effective_config_def filter_config_def demo_config_def)
  have link: "linked ?c (?es @ asked_event hr buf (Some d2)) (lg_stage lg2) (lg_over lg2) (lg_results lg2)"
    using trace_linked [OF t] cfg by (simp add: link_ok_def)
  have obs: "snd (observed (?es @ asked_event hr buf (Some d2))) = [x]"
    using f(2) by (auto simp: asked_event_def simp del: observed_simps(2)) (simp_all add: observed_def)
  note known = linkedD [OF link, unfolded obs]
  have bind: "fBindingTestSuccess (lg_results lg2)" "fHasOtherAddress (lg_results lg2)" "\<not> fIsDirect (lg_results lg2)"
    using known(1) f(5,6) nodirect by (auto simp: bind_known_def binding_reported_def split: option.splits)
  have core2: "client_core lg2" using g(2) by (simp add: asked_def)
  have "hr = S_OK"
  proof (rule ccontr)
    assume "hr \<noteq> S_OK"
    then have e: "hr = E_STUNCLIENT_RESULTS_READY" "\<not> running lg2" using g(2) cfg conf by (auto simp: asked_def waiting_def)
    then have "stage_ok ?c 5 False False (lg_results lg2)" 
      using core2 cfg by (simp add: client_core_def lg_stage_def lg_over_def running_def)
    then have "fFilteringTestSuccess (lg_results lg2)" using bind conf by (simp add: stage_ok_def)
    then have "requested change_both (addrServer ?c) (?es @ asked_event hr buf (Some d2))"
      using known(6) bind by (simp add: asked_known_def is_direct_def)
    then show False using e(1) f(3) by (auto simp: requested_def asked_event_def stun_client_codes)
  qed
  note s = trace_sent [OF f(1) demo_buffer_ok(1) _ g(1) [unfolded \<open>hr = S_OK\<close>], simplified length_replicate, OF refl]
  let ?t = "current_test lg2"
  have run: "running lg2" "Test_IsReadyToRun ?t (lg_results lg2)" "\<not> ct_fCompleted ?t" using s(4) by (simp_all add: pending_def test_over_def)
  have tid: "wf_transid (ct_transid ?t)" by (rule core_tests(1) [OF core2 run(1)])
  have change: "packet_change (buffer_bytes buf) = test_change ?t" using s(5) request_packet(1) [OF tid, of "test_change ?t"] by (simp add: open_request_def)
  have "map ct_stage (lg_testlist lg2) = plan ?c" using core2 cfg by (simp add: client_core_def)
  then have "ct_stage ?t \<in> set (plan ?c)" using running_mem [OF run(1)] by (metis image_eqI set_map)
  then have st: "ct_stage ?t = 0 \<or> ct_stage ?t = 3 \<or> ct_stage ?t = 4" using conf by (simp add: plan_def)
  have "ct_stage ?t \<noteq> 0" using known(7) run running_stage [OF run(1)] by (auto simp: stage_known_def Let_def)
  moreover have "ct_stage ?t \<noteq> 4"
  proof
    assume four: "ct_stage ?t = 4"
    then have c: "ct_class ?t = CFilteringTest" "ct_fIsTest3 ?t" by (cases ?t rule: ct_stage_cases; simp)+
    then have "\<not> fFilteringTestSuccess (lg_results lg2)" using run(2) core_tests(2) [OF core2 run(1)] by (auto simp: ready_defs classified_def)
    then have "requested change_both (addrServer ?c) (?es @ asked_event hr buf (Some d2))"
      using known(7) four bind run(3) running_stage [OF run(1)] by (simp add: stage_known_def Let_def)
    moreover have "test_change ?t = change_port" using c by (simp add: test_change_def filtering_change_def change_port_def)
    moreover have "change_port \<noteq> change_both" by (simp add: change_both_def change_port_def)
    ultimately show False using change f(3) \<open>hr = S_OK\<close> by (auto simp: requested_def asked_event_def)
  qed
  ultimately have "ct_stage ?t = 3" using st by simp
  then have "test_change ?t = change_both"
    by (cases ?t rule: ct_stage_cases) (simp_all add: test_change_def filtering_change_def change_both_def)
  let ?bs = "demo_answer (ct_transid ?t) change_both"
  note k = demo_taken [OF tid, where c = change_both]
  let ?y = "test_exchange (lg_config lg2) (lg_results lg2) ?t (answer_buffer ?bs) ?l"
  let ?es3 = "(?es @ [Sent d2 (buffer_bytes buf)]) @ [Heard ?bs ?l]"
  have req: "fst (observed (?es @ [Sent d2 (buffer_bytes buf)])) = Some (open_request lg2)" unfolding s(2) by simp
  obtain lg3 where t3: "client_trace filter_config ?es3 lg3" "observed ?es3 = (None, snd (observed (?es @ [Sent d2 (buffer_bytes buf)])) @ [?y])"
    by (rule trace_answer [OF s(1) s(3) req k(2,1), of ?l])
  have xs: "snd (observed ?es3) = [x, ?y]" unfolding t3(2) s(2) f(2) by simp
  have y: "ex_change ?y = change_both" using test_exchange_fields(1) [OF tid] \<open>test_change ?t = change_both\<close> by metis
  have "length (snd (observed ?es3)) = 2" unfolding xs by simp
  with t3(1) answered_reported [OF client_classifies [OF t3(1)] xs y] show ?thesis by blast
qed

end
