(* ===== verification/StunSocket.thy ===== *)
theory StunSocket
  imports SocketAddress StunTypes
begin

text \<open>
  \<open>src/networkutils/stunsocket.h\<close>, \<open>stunsocket.cpp\<close>: \<open>CStunSocket\<close>, the owner of one socket
  descriptor, and \<open>recvfromex.cpp\<close>, which receives a datagram with its destination address.

  The operating system is a parameter: the record \<open>os\<close> holds the system calls the sources make, each
  a function of a state \<open>'w\<close> of the system that returns the call's result and the state after it.
  Option numbers are Linux's, whose headers define \<open>IP_PKTINFO\<close>, \<open>IPV6_RECVPKTINFO\<close>, \<open>IPV6_PKTINFO\<close>
  and \<open>IPV6_V6ONLY\<close> and neither \<open>IP_RECVDSTADDR\<close> nor \<open>IPV6_BINDV6ONLY\<close>.
\<close>

section \<open>The system calls\<close>

text \<open>The control messages \<open>recvmsg\<close> delivers; the code looks at two kinds.\<close>

datatype cmsg = Ipv6PktInfo bytes | IpPktInfo bytes | OtherCmsg

record recvmsg_result =
  rm_ret :: int
  rm_data :: bytes
  rm_name :: simple_sockaddr
  rm_control :: "cmsg list"

record 'w os =
  os_errno :: "'w \<Rightarrow> u32"
  os_socket :: "u16 \<Rightarrow> int \<Rightarrow> 'w \<Rightarrow> int \<times> 'w"
  os_setsockopt :: "int \<Rightarrow> int \<Rightarrow> int \<Rightarrow> int \<Rightarrow> 'w \<Rightarrow> int \<times> 'w"
  os_bind :: "int \<Rightarrow> simple_sockaddr \<Rightarrow> 'w \<Rightarrow> int \<times> 'w"
  os_close :: "int \<Rightarrow> 'w \<Rightarrow> 'w"
  os_getsockname :: "int \<Rightarrow> 'w \<Rightarrow> simple_sockaddr option"
  os_getpeername :: "int \<Rightarrow> 'w \<Rightarrow> simple_sockaddr option"
  os_getfl :: "int \<Rightarrow> 'w \<Rightarrow> int \<times> 'w"
  os_setfl :: "int \<Rightarrow> int \<Rightarrow> 'w \<Rightarrow> int \<times> 'w"
  os_recvmsg :: "int \<Rightarrow> nat \<Rightarrow> int \<Rightarrow> 'w \<Rightarrow> recvmsg_result \<times> 'w"
  os_sendto :: "int \<Rightarrow> bytes \<Rightarrow> simple_sockaddr \<Rightarrow> 'w \<Rightarrow> int \<times> 'w"
  os_select :: "int set \<Rightarrow> 'w \<Rightarrow> int \<times> int set \<times> 'w"
  os_pthread_create :: "'w \<Rightarrow> u32 \<times> 'w"
  os_pthread_join :: "'w \<Rightarrow> 'w"

definition SOCK_STREAM :: int where "SOCK_STREAM = 1"
definition SOCK_DGRAM :: int where "SOCK_DGRAM = 2"
definition SOL_SOCKET :: int where "SOL_SOCKET = 1"
definition SO_REUSEADDR :: int where "SO_REUSEADDR = 2"
definition IPPROTO_IP :: int where "IPPROTO_IP = 0"
definition IPPROTO_IPV6 :: int where "IPPROTO_IPV6 = 41"
definition IP_PKTINFO :: int where "IP_PKTINFO = 8"
definition IPV6_V6ONLY :: int where "IPV6_V6ONLY = 26"
definition IPV6_RECVPKTINFO :: int where "IPV6_RECVPKTINFO = 49"
definition IPV6_PKTINFO :: int where "IPV6_PKTINFO = 50"
definition O_NONBLOCK :: int where "O_NONBLOCK = 0x800"
definition MSG_DONTWAIT :: int where "MSG_DONTWAIT = 0x40"

section \<open>CStunSocket\<close>

record stun_socket =
  sk_sock :: int
  sk_addrlocal :: simple_sockaddr
  sk_addrremote :: simple_sockaddr
  sk_role :: SocketRole

definition CStunSocket_new :: stun_socket where
  "CStunSocket_new =
     \<lparr>sk_sock = -1, sk_addrlocal = CSocketAddress_default, sk_addrremote = CSocketAddress_default, sk_role = RolePP\<rparr>"

definition CStunSocket_Reset :: "stun_socket \<Rightarrow> stun_socket" where
  "CStunSocket_Reset sk =
     sk\<lparr>sk_sock := -1, sk_addrlocal := CSocketAddress_ip4 0 0, sk_addrremote := CSocketAddress_ip4 0 0, sk_role := RolePP\<rparr>"

definition CStunSocket_Close :: "('w, 'x) os_scheme \<Rightarrow> stun_socket \<Rightarrow> 'w \<Rightarrow> stun_socket \<times> 'w" where
  "CStunSocket_Close os sk w =
     (let (sk, w) = (if sk_sock sk \<noteq> -1 then (sk\<lparr>sk_sock := -1\<rparr>, os_close os (sk_sock sk) w) else (sk, w))
      in (CStunSocket_Reset sk, w))"

definition CStunSocket_IsValid :: "stun_socket \<Rightarrow> bool" where
  "CStunSocket_IsValid sk \<longleftrightarrow> sk_sock sk \<noteq> -1"

definition CStunSocket_UpdateAddresses :: "('w, 'x) os_scheme \<Rightarrow> stun_socket \<Rightarrow> 'w \<Rightarrow> stun_socket" where
  "CStunSocket_UpdateAddresses os sk w =
     (if sk_sock sk = -1 then sk
      else
        (let sk1 = (case os_getsockname os (sk_sock sk) w of
                      None \<Rightarrow> sk | Some a \<Rightarrow> sk\<lparr>sk_addrlocal := CSocketAddress_CommonConstructor a\<rparr>)
         in case os_getpeername os (sk_sock sk) w of
              None \<Rightarrow> sk1 | Some a \<Rightarrow> sk1\<lparr>sk_addrremote := CSocketAddress_CommonConstructor a\<rparr>))"

definition CStunSocket_Attach :: "('w, 'x) os_scheme \<Rightarrow> int \<Rightarrow> stun_socket \<Rightarrow> 'w \<Rightarrow> hresult \<times> stun_socket \<times> 'w" where
  "CStunSocket_Attach os sock sk w =
     (if sock = -1 then (E_INVALIDARG, sk, w)
      else
        (let (sk, w) = (if sock \<noteq> sk_sock sk
                        then (let (sk, w) = CStunSocket_Close os sk w in (sk\<lparr>sk_sock := sock\<rparr>, w)) else (sk, w))
         in (S_OK, CStunSocket_UpdateAddresses os sk w, w)))"

definition CStunSocket_Detach :: "stun_socket \<Rightarrow> int \<times> stun_socket" where
  "CStunSocket_Detach sk = (sk_sock sk, CStunSocket_Reset sk)"

definition CStunSocket_GetSocketHandle :: "stun_socket \<Rightarrow> int" where
  "CStunSocket_GetSocketHandle sk = sk_sock sk"

definition CStunSocket_GetLocalAddress :: "stun_socket \<Rightarrow> simple_sockaddr" where
  "CStunSocket_GetLocalAddress sk = sk_addrlocal sk"

definition CStunSocket_GetRemoteAddress :: "stun_socket \<Rightarrow> simple_sockaddr" where
  "CStunSocket_GetRemoteAddress sk = sk_addrremote sk"

definition CStunSocket_GetRole :: "stun_socket \<Rightarrow> SocketRole" where
  "CStunSocket_GetRole sk = sk_role sk"

definition CStunSocket_SetRole :: "SocketRole \<Rightarrow> stun_socket \<Rightarrow> stun_socket" where
  "CStunSocket_SetRole role sk = sk\<lparr>sk_role := role\<rparr>"

section \<open>Socket options\<close>

definition EnablePktInfoImpl :: "('w, 'x) os_scheme \<Rightarrow> int \<Rightarrow> int \<Rightarrow> int \<Rightarrow> bool \<Rightarrow> stun_socket \<Rightarrow> 'w \<Rightarrow> hresult \<times> 'w" where
  "EnablePktInfoImpl os level option1 option2 fEnable sk w =
     (let enable = (if fEnable then 1 else 0)
      in if option1 = -1 \<and> option2 = -1 then (E_FAIL, w)
         else
           (let (ret, w) = (if option1 \<noteq> -1 then os_setsockopt os (sk_sock sk) level option1 enable w else (-1, w));
                (ret, w) = (if ret < 0 \<and> option2 \<noteq> -1 then os_setsockopt os (sk_sock sk) level option2 enable w else (ret, w))
            in if ret < 0 then (ERRNOHR (os_errno os w), w) else (S_OK, w)))"

definition EnablePktInfo_IPV4 :: "('w, 'x) os_scheme \<Rightarrow> bool \<Rightarrow> stun_socket \<Rightarrow> 'w \<Rightarrow> hresult \<times> 'w" where
  "EnablePktInfo_IPV4 os fEnable sk w = EnablePktInfoImpl os IPPROTO_IP IP_PKTINFO (-1) fEnable sk w"

definition EnablePktInfo_IPV6 :: "('w, 'x) os_scheme \<Rightarrow> bool \<Rightarrow> stun_socket \<Rightarrow> 'w \<Rightarrow> hresult \<times> 'w" where
  "EnablePktInfo_IPV6 os fEnable sk w = EnablePktInfoImpl os IPPROTO_IPV6 IPV6_RECVPKTINFO IPV6_PKTINFO fEnable sk w"

definition EnablePktInfoOption :: "('w, 'x) os_scheme \<Rightarrow> bool \<Rightarrow> stun_socket \<Rightarrow> 'w \<Rightarrow> hresult \<times> 'w" where
  "EnablePktInfoOption os fEnable sk w =
     (if CSocketAddress_GetFamily (sk_addrlocal sk) = AF_INET then EnablePktInfo_IPV4 os fEnable sk w
      else EnablePktInfo_IPV6 os fEnable sk w)"

definition SetV6Only :: "('w, 'x) os_scheme \<Rightarrow> int \<Rightarrow> 'w \<Rightarrow> hresult \<times> 'w" where
  "SetV6Only os sock w =
     (let (result, w) = os_setsockopt os sock IPPROTO_IPV6 IPV6_V6ONLY 1 w
      in (if result = 0 then S_OK else ERRNOHR (os_errno os w), w))"

definition SetNonBlocking :: "('w, 'x) os_scheme \<Rightarrow> bool \<Rightarrow> stun_socket \<Rightarrow> 'w \<Rightarrow> hresult \<times> 'w" where
  "SetNonBlocking os fEnable sk w =
     (let (flags, w) = os_getfl os (sk_sock sk) w
      in if flags = -1 then (ERRNOHR (os_errno os w), w)
         else
           (let flags = (if fEnable then flags OR O_NONBLOCK else flags AND NOT O_NONBLOCK);
                (result, w) = os_setfl os (sk_sock sk) flags w
            in if result = -1 then (ERRNOHR (os_errno os w), w) else (S_OK, w)))"

section \<open>Opening a socket\<close>

text \<open>
  The label \<open>Cleanup\<close> of \<open>InitCommon\<close> with a failure: the local \<open>sock\<close> is still open and is closed;
  the object is as before.
\<close>

definition InitCommon_failed :: "('w, 'x) os_scheme \<Rightarrow> int \<Rightarrow> stun_socket \<Rightarrow> 'w \<Rightarrow> hresult \<times> stun_socket \<times> 'w" where
  "InitCommon_failed os sock sk w = (ERRNOHR (os_errno os w), sk, if sock \<noteq> -1 then os_close os sock w else w)"

definition InitCommon ::
  "('w, 'x) os_scheme \<Rightarrow> int \<Rightarrow> simple_sockaddr \<Rightarrow> SocketRole \<Rightarrow> bool \<Rightarrow> stun_socket \<Rightarrow> 'w \<Rightarrow> hresult \<times> stun_socket \<times> 'w" where
  "InitCommon os socktype addrlocal role fSetReuseFlag sk w =
     (let (sock, w) = os_socket os (CSocketAddress_GetFamily addrlocal) socktype w
      in if sock < 0 then InitCommon_failed os sock sk w
         else
           (let w = (if CSocketAddress_GetFamily addrlocal = AF_INET6 then snd (SetV6Only os sock w) else w);
                (ret, w) = (if fSetReuseFlag then os_setsockopt os sock SOL_SOCKET SO_REUSEADDR 1 w else (0, w))
            in if fSetReuseFlag \<and> ret = -1 then InitCommon_failed os sock sk w
               else
                 (let (ret, w) = os_bind os sock addrlocal w
                  in if ret = -1 then InitCommon_failed os sock sk w
                     else
                       (let (hr, sk, w) = CStunSocket_Attach os sock sk w
                        in (S_OK, CStunSocket_SetRole role sk, w)))))"

definition UDPInit :: "('w, 'x) os_scheme \<Rightarrow> simple_sockaddr \<Rightarrow> SocketRole \<Rightarrow> stun_socket \<Rightarrow> 'w \<Rightarrow> hresult \<times> stun_socket \<times> 'w" where
  "UDPInit os local role sk w = InitCommon os SOCK_DGRAM local role False sk w"

definition TCPInit :: "('w, 'x) os_scheme \<Rightarrow> simple_sockaddr \<Rightarrow> SocketRole \<Rightarrow> bool \<Rightarrow> stun_socket \<Rightarrow> 'w \<Rightarrow> hresult \<times> stun_socket \<times> 'w" where
  "TCPInit os local role fSetReuseFlag sk w = InitCommon os SOCK_STREAM local role fSetReuseFlag sk w"

section \<open>Receiving a datagram\<close>

definition GetLocalPortNumberFromSocket :: "('w, 'x) os_scheme \<Rightarrow> int \<Rightarrow> 'w \<Rightarrow> simple_sockaddr \<Rightarrow> simple_sockaddr" where
  "GetLocalPortNumberFromSocket os sockfd w pAddr =
     (case os_getsockname os sockfd w of
        None \<Rightarrow> pAddr
      | Some addr \<Rightarrow>
          (let port = (if sa_family addr = AF_INET then ntohs (load16 (sa_port addr))
                       else if sa_family addr = AF_INET6 then ntohs (load16 (sa_port addr)) else 0)
           in CSocketAddress_SetPort port pAddr))"

definition InitSocketAddress :: "u16 \<Rightarrow> simple_sockaddr \<Rightarrow> simple_sockaddr" where
  "InitSocketAddress family pAddr =
     (if family = AF_INET then CSocketAddress_from_in4 (sockaddr_zero\<lparr>sa_family := AF_INET\<rparr>)
      else if family = AF_INET6 then CSocketAddress_from_in6 (sockaddr_zero\<lparr>sa_family := AF_INET6\<rparr>)
      else pAddr)"

text \<open>The loop over the control messages: the first packet-info message decides.\<close>

fun read_pktinfo :: "('w, 'x) os_scheme \<Rightarrow> int \<Rightarrow> 'w \<Rightarrow> cmsg list \<Rightarrow> simple_sockaddr \<Rightarrow> simple_sockaddr" where
  "read_pktinfo os sockfd w [] pDstAddr = pDstAddr"
| "read_pktinfo os sockfd w (Ipv6PktInfo addr # cs) pDstAddr =
     GetLocalPortNumberFromSocket os sockfd w
       (CSocketAddress_from_in6 (sockaddr_zero\<lparr>sa_family := AF_INET6, sa_in6 := addr\<rparr>))"
| "read_pktinfo os sockfd w (IpPktInfo addr # cs) pDstAddr =
     GetLocalPortNumberFromSocket os sockfd w
       (CSocketAddress_from_in4 (sockaddr_zero\<lparr>sa_family := AF_INET, sa_in4 := addr\<rparr>))"
| "read_pktinfo os sockfd w (OtherCmsg # cs) pDstAddr = read_pktinfo os sockfd w cs pDstAddr"

text \<open>The call's result with the two addresses, as the thread passes both pointers.\<close>

definition recvfromex ::
  "('w, 'x) os_scheme \<Rightarrow> int \<Rightarrow> nat \<Rightarrow> int \<Rightarrow> simple_sockaddr \<Rightarrow> simple_sockaddr \<Rightarrow> 'w \<Rightarrow>
   int \<times> bytes \<times> simple_sockaddr \<times> simple_sockaddr \<times> 'w" where
  "recvfromex os sockfd len flags srcAddr dstAddr w =
     (let (m, w) = os_recvmsg os sockfd len flags w; ret = rm_ret m
      in if 0 < ret
         then (ret, rm_data m, CSocketAddress_CommonConstructor (rm_name m),
               read_pktinfo os sockfd w (rm_control m) (InitSocketAddress (sa_family (rm_name m)) dstAddr), w)
         else (ret, [], srcAddr, dstAddr, w))"

end
