(* ===== verification/SocketThread.thy ===== *)
theory SocketThread
  imports StunSocket MessageHandler
begin

text \<open>
  \<open>src/server/stunsocketthread.h\<close>, \<open>stunsocketthread.cpp\<close>: \<open>CStunSocketThread\<close>, which receives
  datagrams on one or all of the server's sockets and sends the responses.

  A pointer to one of the four sockets of \<open>_arrSendSockets\<close> is its position in the array.
  \<open>_spBufferOut\<close> and \<open>_msgOut.spBufferOut\<close> are one shared buffer and one field here, and
  \<open>_msgIn.pReader\<close> always points to \<open>_reader\<close>, so it is filled in where it is used. The loop of
  \<open>Run\<close> is cut into its steps (wait, receive, process): another thread may set \<open>_fNeedToExit\<close>
  between any two of them. Logging is left out.
\<close>

record socket_thread =
  th_arrSendSockets :: "stun_socket list option"
  th_socks :: "nat list"
  th_fNeedToExit :: bool
  th_fThreadIsValid :: bool
  th_rotation :: nat
  th_tsa :: TransportAddressSet
  th_spAuth :: "IStunAuth option"
  th_reader :: reader
  th_spBufferReader :: "cbuffer option"
  th_spBufferIn :: "cbuffer option"
  th_msgIn :: StunMessageIn
  th_msgOut :: StunMessageOut

definition TransportAddressSet_zero :: TransportAddressSet where
  "TransportAddressSet_zero = replicate 4 \<lparr>ta_addr = CSocketAddress_default, ta_fValid = False\<rparr>"

definition CStunSocketThread_new :: socket_thread where
  "CStunSocketThread_new =
     \<lparr>th_arrSendSockets = None, th_socks = [], th_fNeedToExit = False, th_fThreadIsValid = False, th_rotation = 0,
      th_tsa = TransportAddressSet_zero, th_spAuth = None, th_reader = CStunMessageReader_new, th_spBufferReader = None,
      th_spBufferIn = None,
      th_msgIn = \<lparr>in_socketrole = RolePP, in_addrLocal = CSocketAddress_default, in_addrRemote = CSocketAddress_default,
                  in_pReader = None, in_fConnectionOriented = False\<rparr>,
      th_msgOut = \<lparr>out_socketrole = RolePP, out_addrDest = CSocketAddress_default, out_spBufferOut = None\<rparr>\<rparr>"

definition thread_sock :: "socket_thread \<Rightarrow> nat \<Rightarrow> stun_socket" where
  "thread_sock th i = the (th_arrSendSockets th) ! i"

section \<open>Starting and stopping\<close>

definition ClearSocketArray :: "socket_thread \<Rightarrow> socket_thread" where
  "ClearSocketArray th = th\<lparr>th_arrSendSockets := None, th_socks := []\<rparr>"

definition InitThreadBuffers :: "socket_thread \<Rightarrow> hresult \<times> socket_thread" where
  "InitThreadBuffers th =
     (let r = Reader_Reset (th_reader th);
          spBufferReader = Some (CBuffer_alloc MAX_STUN_MESSAGE_SIZE);
          spBufferIn = Some (CBuffer_alloc MAX_STUN_MESSAGE_SIZE);
          spBufferOut = Some (CBuffer_alloc MAX_STUN_MESSAGE_SIZE);
          r = Reader_AttachStream spBufferReader True r
      in (S_OK,
          th\<lparr>th_reader := r, th_spBufferReader := attached_buffer (rd_stream r), th_spBufferIn := spBufferIn,
             th_msgIn := (th_msgIn th)\<lparr>in_fConnectionOriented := False, in_pReader := Some r\<rparr>,
             th_msgOut := (th_msgOut th)\<lparr>out_spBufferOut := spBufferOut\<rparr>\<rparr>))"

definition UninitThreadBuffers :: "socket_thread \<Rightarrow> socket_thread" where
  "UninitThreadBuffers th =
     th\<lparr>th_reader := Reader_Reset (th_reader th), th_spBufferReader := None, th_spBufferIn := None,
        th_msgIn := (th_msgIn th)\<lparr>in_pReader := None\<rparr>, th_msgOut := (th_msgOut th)\<lparr>out_spBufferOut := None\<rparr>\<rparr>"

definition thread_Init ::
  "stun_socket list option \<Rightarrow> TransportAddressSet option \<Rightarrow> IStunAuth option \<Rightarrow> SocketRole \<Rightarrow> socket_thread \<Rightarrow>
   hresult \<times> socket_thread" where
  "thread_Init arrayOfFourSockets pTSA pAuth rolePrimaryRecv th =
     (let fSingleSocketRecv = IsValidSocketRole rolePrimaryRecv
      in if th_fThreadIsValid th then (E_UNEXPECTED, th)
         else if arrayOfFourSockets = None then (E_INVALIDARG, th)
         else if pTSA = None then (E_INVALIDARG, th)
         else if fSingleSocketRecv \<and> CStunSocket_IsValid (the arrayOfFourSockets ! unat rolePrimaryRecv) = False
         then (E_UNEXPECTED, th)
         else
           (let th = th\<lparr>th_arrSendSockets := arrayOfFourSockets, th_tsa := the pTSA\<rparr>;
                socks = (if fSingleSocketRecv then [unat rolePrimaryRecv]
                         else filter (\<lambda>i. CStunSocket_IsValid (thread_sock th i)) [0 ..< 4]);
                th = th\<lparr>th_socks := th_socks th @ socks\<rparr>;
                (hr, th) = InitThreadBuffers th
            in if FAILED hr then (hr, th)
               else (hr, th\<lparr>th_fNeedToExit := False, th_rotation := 0, th_spAuth := pAuth\<rparr>)))"

definition thread_Start :: "('w, 'x) os_scheme \<Rightarrow> socket_thread \<Rightarrow> 'w \<Rightarrow> hresult \<times> socket_thread \<times> 'w" where
  "thread_Start os th w =
     (if th_fThreadIsValid th then (E_UNEXPECTED, th, w)
      else if length (th_socks th) \<le> 0 then (E_FAIL, th, w)
      else
        (let (err, w) = os_pthread_create os w
         in if err \<noteq> 0 then (ERRNO_TO_HRESULT err, th, w) else (S_OK, th\<lparr>th_fThreadIsValid := True\<rparr>, w)))"

text \<open>Where the socket sends the byte that wakes its own thread.\<close>

definition wake_address :: "simple_sockaddr \<Rightarrow> simple_sockaddr" where
  "wake_address addr =
     (if CSocketAddress_IsIPAddressZero addr
      then (let addrLocal = snd (CSocketAddress_GetLocalHost (CSocketAddress_GetFamily addr) CSocketAddress_default)
            in CSocketAddress_SetPort (CSocketAddress_GetPort addr) addrLocal)
      else addr)"

definition thread_SignalForStop :: "('w, 'x) os_scheme \<Rightarrow> bool \<Rightarrow> socket_thread \<Rightarrow> 'w \<Rightarrow> hresult \<times> socket_thread \<times> 'w" where
  "thread_SignalForStop os fPostMessages th w =
     (let th = th\<lparr>th_fNeedToExit := True\<rparr>;
          w = (if fPostMessages
               then fold (\<lambda>i w. let sk = thread_sock th i
                                in snd (os_sendto os (CStunSocket_GetSocketHandle sk) [0x78]
                                          (wake_address (CStunSocket_GetLocalAddress sk)) w)) (th_socks th) w
               else w)
      in (S_OK, th, w))"

definition thread_WaitForStopAndClose :: "('w, 'x) os_scheme \<Rightarrow> socket_thread \<Rightarrow> 'w \<Rightarrow> hresult \<times> socket_thread \<times> 'w" where
  "thread_WaitForStopAndClose os th w =
     (let w = (if th_fThreadIsValid th then os_pthread_join os w else w)
      in (S_OK, UninitThreadBuffers (ClearSocketArray (th\<lparr>th_fThreadIsValid := False\<rparr>)), w))"

section \<open>Waiting\<close>

text \<open>The first socket that is ready, starting from the one the rotation puts first.\<close>

fun first_ready :: "(int \<Rightarrow> bool) \<Rightarrow> socket_thread \<Rightarrow> nat list \<Rightarrow> nat option" where
  "first_ready isset th [] = None"
| "first_ready isset th (i # is) =
     (let p = th_socks th ! ((i + th_rotation th) mod length (th_socks th))
      in if isset (CStunSocket_GetSocketHandle (thread_sock th p)) then Some p else first_ready isset th is)"

definition WaitForSocketData :: "('w, 'x) os_scheme \<Rightarrow> socket_thread \<Rightarrow> 'w \<Rightarrow> nat option \<times> socket_thread \<times> 'w" where
  "WaitForSocketData os th w =
     (let nSocketCount = length (th_socks th);
          th = th\<lparr>th_rotation := (th_rotation th + 1) mod nSocketCount\<rparr>;
          fds = set (map (\<lambda>p. CStunSocket_GetSocketHandle (thread_sock th p)) (th_socks th));
          (ret, ready, w) = os_select os fds w
      in (first_ready (\<lambda>sock. sock \<in> ready) th [0 ..< nSocketCount], th, w))"

section \<open>The loop\<close>

definition ProcessRequestAndSendResponse ::
  "(bytes \<Rightarrow> bytes \<Rightarrow> bytes) \<Rightarrow> (bytes \<Rightarrow> bytes) \<Rightarrow> ('w, 'x) os_scheme \<Rightarrow> socket_thread \<Rightarrow> 'w \<Rightarrow> hresult \<times> socket_thread \<times> 'w" where
  "ProcessRequestAndSendResponse hmac md5 os th w =
     (let r = Reader_Reset (th_reader th);
          spBufferReader = map_option (\<lambda>b. snd (CBuffer_SetSize 0 b)) (th_spBufferReader th);
          r = Reader_AttachStream spBufferReader True r;
          spBufferIn = the (th_spBufferIn th);
          r = snd (AddBytes (Some (CBuffer_GetData spBufferIn)) (cb_size spBufferIn) r);
          th = th\<lparr>th_reader := r, th_spBufferReader := attached_buffer (rd_stream r),
                  th_msgIn := (th_msgIn th)\<lparr>in_pReader := Some r\<rparr>\<rparr>
      in if Reader_GetState r \<noteq> BodyValidated then (E_FAIL, th, w)
         else
           (let (hr, msgOut) = ProcessRequest hmac md5 (th_msgIn th) (th_msgOut th) (Some (th_tsa th)) (th_spAuth th);
                th = th\<lparr>th_msgOut := msgOut\<rparr>
            in if FAILED hr then (hr, th, w)
               else
                 (let sockout = CStunSocket_GetSocketHandle (thread_sock th (unat (out_socketrole msgOut)));
                      buf = the (out_spBufferOut msgOut);
                      (sendret, w) = os_sendto os sockout (take (cb_size buf) (CBuffer_GetData buf)) (out_addrDest msgOut) w
                  in (hr, th, w))))"

text \<open>Receiving: the datagram goes into \<open>_spBufferIn\<close>. The result says whether there is one.\<close>

definition thread_receive :: "('w, 'x) os_scheme \<Rightarrow> nat \<Rightarrow> socket_thread \<Rightarrow> 'w \<Rightarrow> int \<times> socket_thread \<times> 'w" where
  "thread_receive os p th w =
     (let recvflags = (if 1 < length (th_socks th) then MSG_DONTWAIT else 0);
          spBufferIn = snd (CBuffer_SetSize 0 (the (th_spBufferIn th)));
          (ret, data, addrRemote, addrLocal, w) =
            recvfromex os (CStunSocket_GetSocketHandle (thread_sock th p)) (cb_allocatedSize spBufferIn) recvflags
              (in_addrRemote (th_msgIn th)) (in_addrLocal (th_msgIn th)) w;
          spBufferIn = spBufferIn\<lparr>cb_data := map_option (overwrite 0 data) (cb_data spBufferIn)\<rparr>
      in (ret, th\<lparr>th_spBufferIn := Some spBufferIn,
                  th_msgIn := (th_msgIn th)\<lparr>in_addrRemote := addrRemote, in_addrLocal := addrLocal\<rparr>\<rparr>, w))"

definition thread_received :: "int \<Rightarrow> nat \<Rightarrow> socket_thread \<Rightarrow> socket_thread" where
  "thread_received ret p th =
     th\<lparr>th_spBufferIn := map_option (\<lambda>b. snd (CBuffer_SetSize (nat ret) b)) (th_spBufferIn th),
        th_msgIn := (th_msgIn th)\<lparr>in_socketrole := CStunSocket_GetRole (thread_sock th p)\<rparr>\<rparr>"

text \<open>Where the thread is: at the loop's condition, about to receive from a socket, back from the call, ready to process, or out of the loop.\<close>

datatype run_pc = AtLoop | AtReceive nat | AtReceived int nat | AtProcess | Exited

definition Run_step ::
  "(bytes \<Rightarrow> bytes \<Rightarrow> bytes) \<Rightarrow> (bytes \<Rightarrow> bytes) \<Rightarrow> ('w, 'x) os_scheme \<Rightarrow> run_pc \<times> socket_thread \<times> 'w \<Rightarrow> run_pc \<times> socket_thread \<times> 'w" where
  "Run_step hmac md5 os s =
     (case s of (pc, th, w) \<Rightarrow>
        (case pc of
           AtLoop \<Rightarrow>
             if th_fNeedToExit th then (Exited, th, w)
             else if 1 < length (th_socks th)
             then (let (pSocket, th, w) = WaitForSocketData os th w
                   in case pSocket of None \<Rightarrow> (AtLoop, th, w) | Some p \<Rightarrow> (AtReceive p, th, w))
             else (AtReceive (th_socks th ! 0), th, w)
         | AtReceive p \<Rightarrow>
             if 1 < length (th_socks th) \<and> th_fNeedToExit th then (Exited, th, w)
             else (let (ret, th, w) = thread_receive os p th w in (AtReceived ret p, th, w))
         | AtReceived ret p \<Rightarrow>
             if ret < 0 then (AtLoop, th, w)
             else if th_fNeedToExit th then (Exited, th, w)
             else (AtProcess, thread_received ret p th, w)
         | AtProcess \<Rightarrow> (let (hr, th, w) = ProcessRequestAndSendResponse hmac md5 os th w in (AtLoop, th, w))
         | Exited \<Rightarrow> (Exited, th, w)))"

text \<open>
  The thread among the others: its own steps, the exit flag set by \<open>SignalForStop\<close>, and the system
  changing by itself.
\<close>

inductive thread_run ::
  "(bytes \<Rightarrow> bytes \<Rightarrow> bytes) \<Rightarrow> (bytes \<Rightarrow> bytes) \<Rightarrow> ('w, 'x) os_scheme \<Rightarrow> socket_thread \<Rightarrow> run_pc \<times> socket_thread \<times> 'w \<Rightarrow> bool"
  for hmac md5 os th0 where
  run_start: "thread_run hmac md5 os th0 (AtLoop, th0, w)"
| run_own: "thread_run hmac md5 os th0 s \<Longrightarrow> thread_run hmac md5 os th0 (Run_step hmac md5 os s)"
| run_signal: "thread_run hmac md5 os th0 (pc, th, w) \<Longrightarrow> thread_run hmac md5 os th0 (pc, th\<lparr>th_fNeedToExit := True\<rparr>, w)"
| run_world: "thread_run hmac md5 os th0 (pc, th, w) \<Longrightarrow> thread_run hmac md5 os th0 (pc, th, w')"

end
