(* ===== verification/StunServer.thy ===== *)
theory StunServer
  imports SocketThread
begin

text \<open>
  \<open>src/server/server.h\<close>, \<open>server.cpp\<close>: \<open>CStunServer\<close>, the UDP server: it opens up to four sockets,
  fills the set of transport addresses and creates one thread for all of them or one for each.

  A thread points to the server's array of sockets, which does not change while threads exist, so a
  thread's copy is that array. \<open>new\<close> throws rather than return NULL. \<open>Initialize\<close> declares a local
  \<open>_spAuth\<close> of its own and passes that to the threads; it is \<open>None\<close> here as it is NULL there.
\<close>

record server_config =
  cfg_fHasPP :: bool
  cfg_fHasPA :: bool
  cfg_fHasAP :: bool
  cfg_fHasAA :: bool
  cfg_fMultiThreadedMode :: bool
  cfg_fTCP :: bool
  cfg_nMaxConnections :: u32
  cfg_addrPP :: simple_sockaddr
  cfg_addrPA :: simple_sockaddr
  cfg_addrAP :: simple_sockaddr
  cfg_addrAA :: simple_sockaddr
  cfg_addrPrimaryAdvertised :: simple_sockaddr
  cfg_addrAlternateAdvertised :: simple_sockaddr

definition CStunServerConfig_new :: server_config where
  "CStunServerConfig_new =
     \<lparr>cfg_fHasPP = False, cfg_fHasPA = False, cfg_fHasAP = False, cfg_fHasAA = False, cfg_fMultiThreadedMode = False,
      cfg_fTCP = False, cfg_nMaxConnections = 0, cfg_addrPP = CSocketAddress_default, cfg_addrPA = CSocketAddress_default,
      cfg_addrAP = CSocketAddress_default, cfg_addrAA = CSocketAddress_default,
      cfg_addrPrimaryAdvertised = CSocketAddress_default, cfg_addrAlternateAdvertised = CSocketAddress_default\<rparr>"

record stun_server =
  sv_arrSockets :: "stun_socket list"
  sv_threads :: "socket_thread list"
  sv_spAuth :: "IStunAuth option"

definition CStunServer_new :: stun_server where
  "CStunServer_new = \<lparr>sv_arrSockets = replicate 4 CStunSocket_new, sv_threads = [], sv_spAuth = None\<rparr>"

section \<open>Stopping\<close>

text \<open>One loop over the threads, each call getting the system state of the one before.\<close>

fun each_thread :: "(socket_thread \<Rightarrow> 'w \<Rightarrow> hresult \<times> socket_thread \<times> 'w) \<Rightarrow> socket_thread list \<Rightarrow> 'w \<Rightarrow> socket_thread list \<times> 'w" where
  "each_thread f [] w = ([], w)"
| "each_thread f (th # ths) w =
     (let (hr, th, w) = f th w; (ths, w) = each_thread f ths w in (th # ths, w))"

definition server_Stop :: "('w, 'x) os_scheme \<Rightarrow> stun_server \<Rightarrow> 'w \<Rightarrow> hresult \<times> stun_server \<times> 'w" where
  "server_Stop os sv w =
     (let (ths, w) = each_thread (thread_SignalForStop os False) (sv_threads sv) w;
          (ths, w) = each_thread (thread_SignalForStop os True) ths w;
          (ths, w) = each_thread (thread_WaitForStopAndClose os) ths w
      in (S_OK, sv\<lparr>sv_threads := ths\<rparr>, w))"

fun close_sockets :: "('w, 'x) os_scheme \<Rightarrow> stun_socket list \<Rightarrow> 'w \<Rightarrow> stun_socket list \<times> 'w" where
  "close_sockets os [] w = ([], w)"
| "close_sockets os (sk # sks) w =
     (let (sk, w) = CStunSocket_Close os sk w; (sks, w) = close_sockets os sks w in (sk # sks, w))"

text \<open>\<open>delete pThread\<close> runs the destructor.\<close>

definition thread_delete :: "('w, 'x) os_scheme \<Rightarrow> socket_thread \<Rightarrow> 'w \<Rightarrow> hresult \<times> socket_thread \<times> 'w" where
  "thread_delete os th w = (let (hr, th, w) = thread_SignalForStop os True th w in thread_WaitForStopAndClose os th w)"

definition server_Shutdown :: "('w, 'x) os_scheme \<Rightarrow> stun_server \<Rightarrow> 'w \<Rightarrow> hresult \<times> stun_server \<times> 'w" where
  "server_Shutdown os sv w =
     (let (hr, sv, w) = server_Stop os sv w;
          (sks, w) = close_sockets os (sv_arrSockets sv) w;
          (ths, w) = each_thread (thread_delete os) (sv_threads sv) w
      in (S_OK, sv\<lparr>sv_arrSockets := sks, sv_threads := [], sv_spAuth := None\<rparr>, w))"

section \<open>Starting\<close>

fun start_threads :: "('w, 'x) os_scheme \<Rightarrow> socket_thread list \<Rightarrow> 'w \<Rightarrow> hresult \<times> socket_thread list \<times> 'w" where
  "start_threads os [] w = (S_OK, [], w)"
| "start_threads os (th # ths) w =
     (let (hr, th, w) = thread_Start os th w
      in if FAILED hr then (hr, th # ths, w)
         else (let (hr, ths, w) = start_threads os ths w in (hr, th # ths, w)))"

definition server_Start :: "('w, 'x) os_scheme \<Rightarrow> stun_server \<Rightarrow> 'w \<Rightarrow> hresult \<times> stun_server \<times> 'w" where
  "server_Start os sv w =
     (let (hr, sv, w) = (if length (sv_threads sv) = 0 then (E_UNEXPECTED, sv, w)
                         else (let (hr, ths, w) = start_threads os (sv_threads sv) w in (hr, sv\<lparr>sv_threads := ths\<rparr>, w)))
      in if FAILED hr then (let (hr', sv, w) = server_Stop os sv w in (hr, sv, w)) else (hr, sv, w))"

section \<open>Initializing\<close>

text \<open>The address a socket is advertised under: the configured one with the socket's port, or its own.\<close>

definition advertised :: "simple_sockaddr \<Rightarrow> simple_sockaddr \<Rightarrow> simple_sockaddr" where
  "advertised addrListen addrAdvertise =
     (if CSocketAddress_IsIPAddressZero addrAdvertise = False
      then CSocketAddress_SetPort (CSocketAddress_GetPort addrListen) addrAdvertise else addrListen)"

definition AddSocket ::
  "('w, 'x) os_scheme \<Rightarrow> SocketRole \<Rightarrow> simple_sockaddr \<Rightarrow> simple_sockaddr \<Rightarrow> TransportAddressSet \<Rightarrow> stun_server \<Rightarrow> 'w \<Rightarrow>
   hresult \<times> TransportAddressSet \<times> stun_server \<times> 'w" where
  "AddSocket os role addrListen addrAdvertise tsa sv w =
     (let i = unat role;
          (hr, sk, w) = UDPInit os addrListen role (sv_arrSockets sv ! i) w;
          sv = sv\<lparr>sv_arrSockets := (sv_arrSockets sv)[i := sk]\<rparr>
      in if FAILED hr then (hr, tsa, sv, w)
         else
           (let (hr, w) = EnablePktInfoOption os True sk w
            in if FAILED hr then (hr, tsa, sv, w)
               else (hr, tsa[i := \<lparr>ta_addr = advertised addrListen addrAdvertise, ta_fValid = True\<rparr>], sv, w)))"

text \<open>The four conditional calls of \<open>AddSocket\<close>, with the count of sockets.\<close>

fun add_sockets ::
  "('w, 'x) os_scheme \<Rightarrow> (bool \<times> SocketRole \<times> simple_sockaddr \<times> simple_sockaddr) list \<Rightarrow> int \<Rightarrow> TransportAddressSet \<Rightarrow> stun_server \<Rightarrow> 'w \<Rightarrow>
   hresult \<times> int \<times> TransportAddressSet \<times> stun_server \<times> 'w" where
  "add_sockets os [] socketcount tsa sv w = (S_OK, socketcount, tsa, sv, w)"
| "add_sockets os ((fHas, role, addrListen, addrAdvertise) # cs) socketcount tsa sv w =
     (if fHas
      then (let (hr, tsa, sv, w) = AddSocket os role addrListen addrAdvertise tsa sv w
            in if FAILED hr then (hr, socketcount, tsa, sv, w) else add_sockets os cs (socketcount + 1) tsa sv w)
      else add_sockets os cs socketcount tsa sv w)"

definition config_sockets :: "server_config \<Rightarrow> (bool \<times> SocketRole \<times> simple_sockaddr \<times> simple_sockaddr) list" where
  "config_sockets config =
     [(cfg_fHasPP config, RolePP, cfg_addrPP config, cfg_addrPrimaryAdvertised config),
      (cfg_fHasPA config, RolePA, cfg_addrPA config, cfg_addrPrimaryAdvertised config),
      (cfg_fHasAP config, RoleAP, cfg_addrAP config, cfg_addrAlternateAdvertised config),
      (cfg_fHasAA config, RoleAA, cfg_addrAA config, cfg_addrAlternateAdvertised config)]"

text \<open>The loop of the multi-threaded mode over the socket array.\<close>

fun init_threads :: "TransportAddressSet \<Rightarrow> IStunAuth option \<Rightarrow> nat list \<Rightarrow> stun_server \<Rightarrow> hresult \<times> stun_server" where
  "init_threads tsa spAuth [] sv = (S_OK, sv)"
| "init_threads tsa spAuth (index # is) sv =
     (let sk = sv_arrSockets sv ! index
      in if CStunSocket_IsValid sk
         then (let (hr, th) = thread_Init (Some (sv_arrSockets sv)) (Some tsa) spAuth (CStunSocket_GetRole sk) CStunSocketThread_new;
                   sv = sv\<lparr>sv_threads := sv_threads sv @ [th]\<rparr>
               in if FAILED hr then (hr, sv) else init_threads tsa spAuth is sv)
         else init_threads tsa spAuth is sv)"

definition server_Initialize :: "('w, 'x) os_scheme \<Rightarrow> server_config \<Rightarrow> stun_server \<Rightarrow> 'w \<Rightarrow> hresult \<times> stun_server \<times> 'w" where
  "server_Initialize os config sv w =
     (let spAuth = None;
          (hr, sv, w) = server_Shutdown os sv w;
          (hr, socketcount, tsa, sv, w) = add_sockets os (config_sockets config) 0 TransportAddressSet_zero sv w;
          (hr, sv) =
            (if FAILED hr then (hr, sv)
             else if socketcount = 0 then (E_INVALIDARG, sv)
             else if cfg_fMultiThreadedMode config = False
             then (let (hr, th) = thread_Init (Some (sv_arrSockets sv)) (Some tsa) spAuth (-1) CStunSocketThread_new
                   in (hr, sv\<lparr>sv_threads := sv_threads sv @ [th]\<rparr>))
             else init_threads tsa spAuth [0 ..< 4] sv)
      in if FAILED hr then (let (hr', sv, w) = server_Shutdown os sv w in (hr, sv, w)) else (hr, sv, w))"

end
