(* ===== verification/ReaderReuse.thy ===== *)
theory ReaderReuse
  imports ServerReply
begin

text \<open>
  A reader that is reset and used again. The server keeps one reader for each thread and for each
  pooled connection and calls \<open>Reset\<close> between messages; the attribute table then still holds the
  nodes of earlier messages. Two readers that received the same text answer every query of the
  request handler alike, so the reply never depends on what a reader was used for before.
\<close>

section \<open>Readers of the same text\<close>

definition alike :: "bytes \<Rightarrow> reader \<Rightarrow> reader \<Rightarrow> bool" where
  "alike bs r r' \<longleftrightarrow>
     stream_holds bs r \<and> stream_holds bs r' \<and> 20 \<le> length bs \<and> length bs < size_range \<and>
     content r' = (content r)\<lparr>rd_mapAttributes := rd_mapAttributes r'\<rparr> \<and> rd_state r' = rd_state r \<and>
     (\<forall>t. attr_lookup t r' = attr_lookup t r) \<and>
     (\<forall>t a. attr_lookup t r = Some a \<longrightarrow> 24 \<le> unat (attr_offset a) \<and> unat (attr_offset a) + unat (attr_size a) \<le> length bs)"

lemma note_table:
  "fold note_attribute as (r\<lparr>rd_mapAttributes := m\<rparr>) =
     (fold note_attribute as r)\<lparr>rd_mapAttributes := rd_mapAttributes (fold note_attribute as (r\<lparr>rd_mapAttributes := m\<rparr>))\<rparr>"
proof (induction as arbitrary: r m)
  case (Cons a as)
  let ?m = "snd (FastHash_Insert FastHash_Hash_u16 (attributeType a) a m)"
  have "note_attribute a (r\<lparr>rd_mapAttributes := m\<rparr>) = (note_attribute a r)\<lparr>rd_mapAttributes := ?m\<rparr>"
    by (simp add: note_attribute_def Let_def)
  then show ?case using Cons.IH [of ?m "note_attribute a r"] by simp
qed simp

lemma same_text_alike:
  assumes ra: "reader_after allow bs r" "reader_after allow bs r'" and st: "spec_state allow bs = BodyValidated"
  shows "alike bs r r'"
proof -
  obtain b where b: "blank allow b" "content r = fold note_attribute (body_attrs bs) (with_header bs b)"
    by (rule reader_after_content [OF ra(1) st])
  obtain b' where b': "blank allow b'" "content r' = fold note_attribute (body_attrs bs) (with_header bs b')"
    by (rule reader_after_content [OF ra(2) st])
  obtain m where "b' = b\<lparr>rd_mapAttributes := m\<rparr>" using b(1) b'(1) by (auto simp: blank_def)
  then have "with_header bs b' = (with_header bs b)\<lparr>rd_mapAttributes := m\<rparr>" by (simp add: with_header_def)
  then have c: "content r' = (content r)\<lparr>rd_mapAttributes := rd_mapAttributes (content r')\<rparr>"
    using note_table [of "body_attrs bs" m "with_header bs b"] b(2) b'(2) by simp
  have lookup: "attr_lookup t r' = attr_lookup t r" for t
    using attr_lookup_parsed [OF ra(1) st] attr_lookup_parsed [OF ra(2) st] by simp
  have inside: "24 \<le> unat (attr_offset a) \<and> unat (attr_offset a) + unat (attr_size a) \<le> length bs" if "attr_lookup t r = Some a" for t a
    using that attr_lookup_parsed [OF ra(1) st, of t] last_of_type_mem body_attrs_inside [OF st] by metis
  have "header_ok allow bs" "length bs = unat (msg_length bs) + 20" using st by (auto simp: spec_state_def split: if_splits)
  then have "20 \<le> length bs" "length bs < size_range" by (auto simp: header_ok_def size_range_def)
  then show ?thesis
    using c lookup inside reader_after_state [OF ra(1)] reader_after_state [OF ra(2)] reader_after_stream [OF ra(1)] reader_after_stream [OF ra(2)] st
    by (simp add: alike_def content_fields)
qed

lemma alike_fields:
  assumes "alike bs r r'"
  shows "rd_state r' = rd_state r" "attr_lookup t r' = attr_lookup t r" "rd_transactionid r' = rd_transactionid r"
    "rd_msgClass r' = rd_msgClass r" "rd_msgTypeNormalized r' = rd_msgTypeNormalized r"
    "rd_fMessageIsLegacyFormat r' = rd_fMessageIsLegacyFormat r" "rd_countAttributes r' = rd_countAttributes r"
    "rd_indexFingerprint r' = rd_indexFingerprint r" "rd_indexMessageIntegrity r' = rd_indexMessageIntegrity r"
proof -
  have c: "content r' = (content r)\<lparr>rd_mapAttributes := rd_mapAttributes r'\<rparr>" using assms by (simp add: alike_def)
  show "rd_state r' = rd_state r" "attr_lookup t r' = attr_lookup t r" using assms by (simp_all add: alike_def)
  show "rd_transactionid r' = rd_transactionid r"
    "rd_msgClass r' = rd_msgClass r" "rd_msgTypeNormalized r' = rd_msgTypeNormalized r"
    "rd_fMessageIsLegacyFormat r' = rd_fMessageIsLegacyFormat r" "rd_countAttributes r' = rd_countAttributes r"
    "rd_indexFingerprint r' = rd_indexFingerprint r" "rd_indexMessageIntegrity r' = rd_indexMessageIntegrity r"
    using content_fields [of r] content_fields [of r'] c by simp_all
qed

lemma alike_memory:
  assumes "alike bs r r'" "attr_lookup t r = Some a" "n \<le> unat (attr_size a)"
  shows "attr_memory a 0 n r' = attr_memory a 0 n r"
proof -
  have "unat (attr_offset a) + unat (attr_size a) \<le> length bs" "stream_holds bs r" "stream_holds bs r'"
    using assms(1,2) by (auto simp: alike_def)
  then show ?thesis using attr_memory_inside [of bs r a 0 n] attr_memory_inside [of bs r' a 0 n] assms(3) by simp
qed

lemma alike_pointer:
  assumes "alike bs r r'"
  shows "CDataStream_GetDataPointerUnsafe (rd_stream r) \<noteq> None" "CDataStream_GetDataPointerUnsafe (rd_stream r') \<noteq> None"
proof -
  have "CDataStream_GetDataPointerUnsafe (rd_stream x) \<noteq> None" if h: "stream_holds bs x" for x
  proof -
    obtain rest where "reader_memory x = bs @ rest" using reader_memory_prefix [OF h] by blast
    moreover have "bs \<noteq> []" using assms by (auto simp: alike_def)
    ultimately show ?thesis by (auto simp: reader_memory_def split: option.splits)
  qed
  then show "CDataStream_GetDataPointerUnsafe (rd_stream r) \<noteq> None" "CDataStream_GetDataPointerUnsafe (rd_stream r') \<noteq> None"
    using assms by (simp_all add: alike_def)
qed

section \<open>Queries\<close>

lemma alike_queries:
  assumes "alike bs r r'"
  shows "GetResponsePort r' = GetResponsePort r" "GetChangeRequest r' = GetChangeRequest r"
    "GetPaddingAttributeSize r' = GetPaddingAttributeSize r" "GetStringAttributeByType t n r' = GetStringAttributeByType t n r"
    "HasMessageIntegrityAttribute r' = HasMessageIntegrityAttribute r" "Reader_GetTransactionId r' = Reader_GetTransactionId r"
    "GetMessageClass r' = GetMessageClass r" "GetMessageType r' = GetMessageType r" "IsMessageLegacyFormat r' = IsMessageLegacyFormat r"
proof -
  note f = alike_fields [OF assms] and p = alike_pointer [OF assms]
  show "GetResponsePort r' = GetResponsePort r"
    using alike_memory [OF assms, of STUN_ATTRIBUTE_RESPONSE_PORT _ 2] p
    by (auto simp: GetResponsePort_def f stun_consts split: option.split)
  show "GetChangeRequest r' = GetChangeRequest r"
    using alike_memory [OF assms, of STUN_ATTRIBUTE_CHANGEREQUEST _ 4] p
    by (auto simp: GetChangeRequest_def Let_def f stun_consts split: option.split)
  show "GetStringAttributeByType t n r' = GetStringAttributeByType t n r"
    using alike_memory [OF assms, of t] by (auto simp: GetStringAttributeByType_def f split: option.split)
qed (simp_all add: GetPaddingAttributeSize_def HasMessageIntegrityAttribute_def Reader_GetTransactionId_def GetMessageClass_def
      GetMessageType_def IsMessageLegacyFormat_def alike_fields [OF assms])

text \<open>The integrity check reads the stream itself.\<close>

lemma integrity_reads:
  assumes h: "stream_holds bs r" "length bs < size_range" and off: "24 \<le> off" "off \<le> length bs"
  shows "\<exists>s1 s2. CDataStream_ReadUint16 (CDataStream_Attach (snd (CDataStream_GetBuffer (rd_stream r))) False CDataStream_init) =
      (S_OK, load16 (take 2 bs), s1) \<and> CDataStream_ReadUint16 s1 = (S_OK, load16 (bslice 2 2 bs), s2) \<and>
    (\<forall>acc. read_chunks ((off - 4 - 4) div 4) acc s2 = (S_OK, acc @ bslice 4 (4 * ((off - 4 - 4) div 4)) bs))"
proof -
  let ?s = "CDataStream_Attach (ds_buffer (rd_stream r)) False CDataStream_init"
  have s: "wf_stream ?s" "stream_bytes ?s = bs" "ds_pos ?s = 0"
    using h(1) by (auto simp: stream_holds_def CDataStream_Attach_def CDataStream_Reset_def wf_stream_def stream_bytes_def
        CDataStream_GetSize_def split: option.splits)
  have rd1: "CDataStream_ReadUint16 ?s = (S_OK, load16 (take 2 bs), ?s\<lparr>ds_pos := 2\<rparr>)"
    using ReadUint16_ok [OF s(1)] s off h(2) by (simp add: bslice_def)
  have rd2: "CDataStream_ReadUint16 (?s\<lparr>ds_pos := 2\<rparr>) = (S_OK, load16 (bslice 2 2 bs), ?s\<lparr>ds_pos := 4\<rparr>)"
    using ReadUint16_ok [of "?s\<lparr>ds_pos := 2\<rparr>"] s off h(2) by simp
  have le: "4 + 4 * ((off - 4 - 4) div 4) \<le> length bs" using off by simp
  have "read_chunks ((off - 4 - 4) div 4) acc (?s\<lparr>ds_pos := 4\<rparr>) = (S_OK, acc @ bslice 4 (4 * ((off - 4 - 4) div 4)) bs)" for acc
    using read_chunks_ok [of "?s\<lparr>ds_pos := 4\<rparr>" bs "(off - 4 - 4) div 4" acc] s le h(2) by simp
  then show ?thesis using rd1 rd2 by (auto simp: CDataStream_GetBuffer_def)
qed

lemma alike_integrity:
  assumes "alike bs r r'"
  shows "ValidateMessageIntegrity hmac key n r' = ValidateMessageIntegrity hmac key n r"
proof (cases "attr_lookup STUN_ATTRIBUTE_MESSAGEINTEGRITY r")
  case None
  then show ?thesis unfolding ValidateMessageIntegrity_def Let_def alike_fields [OF assms] by simp
next
  case (Some a)
  have h: "stream_holds bs r" "stream_holds bs r'" "length bs < size_range"
    and off: "24 \<le> unat (attr_offset a)" "unat (attr_offset a) \<le> length bs"
    using assms Some by (force simp: alike_def)+
  obtain s1 s2 where s: "CDataStream_ReadUint16 (CDataStream_Attach (snd (CDataStream_GetBuffer (rd_stream r))) False CDataStream_init) =
      (S_OK, load16 (take 2 bs), s1)" "CDataStream_ReadUint16 s1 = (S_OK, load16 (bslice 2 2 bs), s2)"
    "\<And>acc. read_chunks ((unat (attr_offset a) - 4 - 4) div 4) acc s2 = (S_OK, acc @ bslice 4 (4 * ((unat (attr_offset a) - 4 - 4) div 4)) bs)"
    using integrity_reads [OF h(1,3) off] by blast
  obtain t1 t2 where t: "CDataStream_ReadUint16 (CDataStream_Attach (snd (CDataStream_GetBuffer (rd_stream r'))) False CDataStream_init) =
      (S_OK, load16 (take 2 bs), t1)" "CDataStream_ReadUint16 t1 = (S_OK, load16 (bslice 2 2 bs), t2)"
    "\<And>acc. read_chunks ((unat (attr_offset a) - 4 - 4) div 4) acc t2 = (S_OK, acc @ bslice 4 (4 * ((unat (attr_offset a) - 4 - 4) div 4)) bs)"
    using integrity_reads [OF h(2,3) off] by blast
  have mem: "attr_memory a 0 20 r' = attr_memory a 0 20 r" if "attr_size a = 20"
    using alike_memory [OF assms Some, of 20] that by simp
  show ?thesis
    unfolding ValidateMessageIntegrity_def Let_def alike_fields [OF assms] Some option.case s(1) t(1) prod.case s(2) t(2) s(3) t(3)
    using mem by simp
qed

section \<open>Resetting a reader\<close>

text \<open>The buffer the owner of the reader attached is still an allocated one after any write.\<close>

definition sound_attached :: "datastream \<Rightarrow> bool" where
  "sound_attached s \<longleftrightarrow> (\<exists>b d. attached_buffer s = Some b \<and> cb_data b = Some d \<and> length d = cb_allocatedSize b)"

lemma sound_pos [simp]: "sound_attached (s\<lparr>ds_pos := p\<rparr>) = sound_attached s"
  by (cases "ds_left s") (simp_all add: sound_attached_def attached_buffer_def)

lemma Grow_sound:
  assumes "sound_attached s" "CDataStream_Grow n s = (hr, s')"
  shows "sound_attached s'" "ds_left s' \<noteq> None \<or> s' = s" "SUCCEEDED hr \<longrightarrow> ds_left s' \<noteq> None \<or> n \<le> CDataStream_allocated s'" "ds_pos s' = ds_pos s"
  using assms by (auto simp: CDataStream_Grow_def sound_attached_def attached_buffer_def Let_def split: if_splits option.splits)

lemma Write_sound:
  assumes s: "sound_attached s" and n: "ds_pos s + n < size_range"
  shows "sound_attached (snd (CDataStream_Write (Some xs) n s))"
proof -
  have add: "sz_add n (ds_pos s) = ds_pos s + n" using n by (simp add: sz_add_small add.commute)
  obtain hr s1 where g: "CDataStream_Grow (ds_pos s + n) s = (hr, s1)" by fastforce
  note gs = Grow_sound [OF s g]
  show ?thesis
  proof (cases "ds_left s1")
    case None
    then have "s1 = s" using gs(2) by simp
    then show ?thesis using gs(1,3,4) None n
      by (auto simp: CDataStream_Write_def Let_def add g sound_attached_def attached_buffer_def CBuffer_SetSize_def CBuffer_GetData_def
          CDataStream_allocated_def split: option.splits)
  next
    case (Some b)
    then show ?thesis using gs(1) s
      by (auto simp: CDataStream_Write_def Let_def add g sound_attached_def attached_buffer_def CBuffer_SetSize_def split: option.splits)
  qed
qed

text \<open>Parsing only moves the cursor: all of the stream but its position stays.\<close>

definition unmoved :: "datastream \<Rightarrow> datastream" where
  "unmoved s = s\<lparr>ds_pos := 0\<rparr>"

lemma unmoved_ops:
  "CDataStream_Read n s = (hr, bs, s') \<Longrightarrow> unmoved s' = unmoved s" "CDataStream_ReadUint16 s = (hr, v, s') \<Longrightarrow> unmoved s' = unmoved s"
  "CDataStream_SeekDirect p s = (hr, s') \<Longrightarrow> unmoved s' = unmoved s" "CDataStream_SeekRelative i s = (hr, s') \<Longrightarrow> unmoved s' = unmoved s"
  by (auto simp: CDataStream_Read_def CDataStream_ReadUint16_def CDataStream_SeekDirect_def CDataStream_SeekRelative_def Let_def
      unmoved_def split: if_splits)

lemma unmoved_sound: "unmoved s' = unmoved s \<Longrightarrow> sound_attached s' = sound_attached s"
  by (metis sound_pos unmoved_def)

lemma unmoved_accept: "AcceptHeader t l i r = (hr, r') \<Longrightarrow> rd_stream r' = rd_stream r"
  by (auto simp: AcceptHeader_def Let_def split: if_splits)

lemma unmoved_store: "StoreAttribute a r = (hr, r') \<Longrightarrow> rd_stream r' = rd_stream r"
  by (auto simp: StoreAttribute_def Let_def split: prod.splits if_splits)

lemma unmoved_skip: "SkipValue l p s = (hr, s') \<Longrightarrow> unmoved s' = unmoved s"
  by (auto simp: SkipValue_def Let_def split: prod.splits if_splits dest!: unmoved_ops)

lemma unmoved_parse:
  "ReadHeader r = (hr, r') \<Longrightarrow> unmoved (rd_stream r') = unmoved (rd_stream r)"
  "ReadAttribute r = (hr, n, r') \<Longrightarrow> unmoved (rd_stream r') = unmoved (rd_stream r)"
  by (auto simp: ReadHeader_def ReadAttribute_def Let_def split: prod.splits if_splits dest!: unmoved_ops unmoved_accept unmoved_store unmoved_skip)

lemma unmoved_loop: "unmoved (rd_stream (snd (ReadBody_loop cs n hr r))) = unmoved (rd_stream r)"
proof (induction cs n hr r rule: ReadBody_loop.induct)
  case (1 cs n hr r)
  then show ?case using unmoved_parse(2) [of r]
    by (subst ReadBody_loop.simps) (auto split: prod.split)
qed

lemma unmoved_body: "ReadBody r = (hr, r') \<Longrightarrow> unmoved (rd_stream r') = unmoved (rd_stream r)"
proof -
  assume b: "ReadBody r = (hr, r')"
  obtain h s where s: "CDataStream_SeekDirect STUN_HEADER_SIZE (rd_stream r) = (h, s)" by fastforce
  then show ?thesis using b unmoved_ops(3) [OF s] unmoved_loop [of "CDataStream_GetSize (rd_stream r)" STUN_HEADER_SIZE h "r\<lparr>rd_stream := s\<rparr>"]
    by (auto simp: ReadBody_def Let_def split: prod.splits if_splits)
qed

lemma unmoved_steps:
  "unmoved (rd_stream (AddBytes_excess k (AddBytes_body k (AddBytes_header k r)))) = unmoved (rd_stream r)"
proof -
  have h: "unmoved (rd_stream (AddBytes_header k x)) = unmoved (rd_stream x)" for x
    using unmoved_parse(1) [of x] by (auto simp: AddBytes_header_def Let_def split: prod.splits)
  have b: "unmoved (rd_stream (AddBytes_body k x)) = unmoved (rd_stream x)" for x
    using unmoved_body [of x] by (auto simp: AddBytes_body_def Let_def split: prod.splits)
  have e: "rd_stream (AddBytes_excess k x) = rd_stream x" for x by (simp add: AddBytes_excess_def)
  show ?thesis unfolding e b h ..
qed

lemma AddBytes_sound:
  assumes "sound_attached (rd_stream r)" "wf_stream (rd_stream r)" "CDataStream_GetSize (rd_stream r) + n < size_range"
  shows "sound_attached (rd_stream (snd (AddBytes (Some xs) n r)))"
proof -
  define s where "s = snd (CDataStream_SeekDirect (CDataStream_GetSize (rd_stream r)) (rd_stream r))"
  have s: "s = (rd_stream r)\<lparr>ds_pos := CDataStream_GetSize (rd_stream r)\<rparr>" by (simp add: s_def CDataStream_SeekDirect_def)
  have w: "sound_attached (snd (CDataStream_Write (Some xs) n s))" using assms by (intro Write_sound) (simp_all add: s)
  obtain hr t where t: "CDataStream_Write (Some xs) n s = (hr, t)" by fastforce
  show ?thesis using w t assms(1) unmoved_sound [OF unmoved_steps [of "CDataStream_GetSize t" "r\<lparr>rd_stream := t\<rparr>"]]
    by (simp add: AddBytes_def Let_def s_def [symmetric])
qed

text \<open>A reader reset, attached to a buffer and fed with one text: it is a reader of that text, and ready for the next reset.\<close>

definition ready_buffer :: "cbuffer \<Rightarrow> bool" where
  "ready_buffer b \<longleftrightarrow> (\<exists>d. cb_data b = Some d \<and> length d = cb_allocatedSize b)"

lemma ready_SetSize [simp]: "ready_buffer (snd (CBuffer_SetSize n b)) = ready_buffer b"
  by (simp add: ready_buffer_def)

definition restarted :: "cbuffer \<Rightarrow> reader \<Rightarrow> reader" where
  "restarted b r = Reader_AttachStream (Some (snd (CBuffer_SetSize 0 b))) True (Reader_Reset r)"

lemma restarted_ok:
  assumes "table_ok r" "ready_buffer b"
  shows "reader_after True [] (restarted b r)" "table_ok (restarted b r)" "sound_attached (rd_stream (restarted b r))"
    "rd_state (restarted b r) = HeaderNotRead"
proof -
  let ?b = "snd (CBuffer_SetSize 0 b)"
  have wf: "wf_buffer ?b" using assms(2) by (auto simp: ready_buffer_def wf_buffer_def)
  have bl: "blank True (Reader_Reset r)" by (rule Reset_blank [OF assms(1)])
  note at = Attach_for_writing [OF wf, of "rd_stream (Reader_Reset r)"]
  have f: "restarted b r = (Reader_Reset r)\<lparr>rd_stream := CDataStream_Attach (Some ?b) True (rd_stream (Reader_Reset r))\<rparr>"
    by (simp add: restarted_def Reader_AttachStream_def Reader_GetStream_def)
  show "reader_after True [] (restarted b r)" unfolding f reader_after_def using bl start_from [OF bl at(1,2,4)] by blast
  show "table_ok (restarted b r)" using blank_fields(3) [OF bl] by (simp add: f table_ok_def)
  show "rd_state (restarted b r) = HeaderNotRead" by (simp add: f Reader_Reset_def)
  show "sound_attached (rd_stream (restarted b r))" using wf
    by (auto simp: f sound_attached_def attached_buffer_def CDataStream_Attach_def CDataStream_Reset_def wf_buffer_def)
qed

text \<open>Every reader the program can have: a new one, and what the operations that write make of it.\<close>

inductive used_reader :: "reader \<Rightarrow> bool" where
  used_new: "used_reader CStunMessageReader_new"
| used_legacy: "used_reader r \<Longrightarrow> used_reader (SetAllowLegacyFormat f r)"
| used_add: "used_reader r \<Longrightarrow> used_reader (snd (AddBytes d n r))"
| used_reset: "used_reader r \<Longrightarrow> used_reader (Reader_Reset r)"
| used_attach: "used_reader r \<Longrightarrow> used_reader (Reader_AttachStream b f r)"

lemma new_table: "table_ok CStunMessageReader_new"
proof -
  have "CStunMessageReader_new = fresh_reader True"
    by (simp add: fresh_reader_def CStunMessageReader_new_def Reader_Reset_def)
  then show ?thesis using fresh_table(1) [of True] by simp
qed

lemma used_table: "used_reader r \<Longrightarrow> table_ok r"
proof (induction rule: used_reader.induct)
  case (used_add r d n)
  then show ?case by (simp add: table_ok_AddBytes)
next
  case (used_reset r)
  then show ?case using blank_fields(3) [OF Reset_blank] by blast
qed (simp_all add: new_table [unfolded table_ok_def] table_ok_def SetAllowLegacyFormat_def Reader_AttachStream_def)

section \<open>Replies\<close>

lemma alike_verdict:
  assumes "alike bs r r'"
  shows "auth_verdict hmac md5 pAuth r' = auth_verdict hmac md5 pAuth r"
proof -
  have a: "auth_attributes r' = auth_attributes r" by (simp add: auth_attributes_def read_string_def alike_queries [OF assms])
  show ?thesis unfolding auth_verdict_def request_signed_def alike_integrity [OF assms] a ..
qed

lemma alike_reply:
  assumes a: "alike bs r r'" and m: "m' = m\<lparr>in_pReader := p\<rparr>"
  shows "reply_to hmac md5 pAuth tas m' r' = reply_to hmac md5 pAuth tas m r" "reply_bytes hmac m' r' rep = reply_bytes hmac m r rep"
    "reply_role m' rep = reply_role m rep" "reply_dest m' r' = reply_dest m r"
proof -
  note q = alike_queries [OF a]
  have i: "in_socketrole m' = in_socketrole m" "in_addrLocal m' = in_addrLocal m" "in_addrRemote m' = in_addrRemote m"
    "in_fConnectionOriented m' = in_fConnectionOriented m" by (simp_all add: m)
  have port: "requested_port r' = requested_port r" and ch: "wants_change r' = wants_change r"
    by (simp_all add: requested_port_def wants_change_def q)
  show "reply_to hmac md5 pAuth tas m' r' = reply_to hmac md5 pAuth tas m r"
  proof -
    have b: "binding_reply key tas m' r' = binding_reply key tas m r" for key
      unfolding binding_reply_def reported_origin_def port ch q i ..
    show ?thesis unfolding reply_to_def port q alike_verdict [OF a] b i ..
  qed
  show "reply_bytes hmac m' r' rep = reply_bytes hmac m r rep" unfolding reply_bytes_def q i ..
  show "reply_role m' rep = reply_role m rep" unfolding reply_role_def i ..
  show "reply_dest m' r' = reply_dest m r" unfolding reply_dest_def port i ..
qed

end
