(* ===== verification/ThreadCorrect.thy ===== *)
theory ThreadCorrect
  imports SocketThread ReaderReuse
begin

text \<open>
  The socket thread among the other threads: an invariant of every state it can reach, and what one
  datagram makes it send. The server's own obligations are \<open>sockets_ok\<close> (proved of its
  initialization in \<open>ServerSetup\<close>), the system's are \<open>os_ok\<close>.
\<close>

section \<open>Surroundings\<close>

text \<open>What the manual pages of \<open>recvmsg\<close> and \<open>getsockname\<close> promise.\<close>

definition cmsg_ok :: "cmsg \<Rightarrow> bool" where
  "cmsg_ok c \<longleftrightarrow> (case c of Ipv6PktInfo a \<Rightarrow> length a = 16 | IpPktInfo a \<Rightarrow> length a = 4 | OtherCmsg \<Rightarrow> True)"

definition recv_ok :: "nat \<Rightarrow> recvmsg_result \<Rightarrow> bool" where
  "recv_ok n m \<longleftrightarrow> rm_ret m \<le> int n \<and>
     (0 < rm_ret m \<longrightarrow> length (rm_data m) = nat (rm_ret m) \<and> wf_addr (rm_name m) \<and> list_all cmsg_ok (rm_control m))"

definition os_ok :: "('w, 'x) os_scheme \<Rightarrow> bool" where
  "os_ok os \<longleftrightarrow>
     (\<forall>fd n flags w. recv_ok n (fst (os_recvmsg os fd n flags w))) \<and> (\<forall>fd w a. os_getsockname os fd w = Some a \<longrightarrow> wf_addr a)"

text \<open>Four sockets, each in its role, and the addresses marked valid exactly for the open ones.\<close>

definition sockets_ok :: "stun_socket list \<Rightarrow> TransportAddressSet \<Rightarrow> bool" where
  "sockets_ok arr tsa \<longleftrightarrow> length arr = 4 \<and> wf_set tsa \<and>
     (\<forall>i < 4. (CStunSocket_IsValid (arr ! i) \<longleftrightarrow> ta_fValid (tsa ! i)) \<and> (CStunSocket_IsValid (arr ! i) \<longrightarrow> unat (sk_role (arr ! i)) = i))"

lemma wf_CommonConstructor [simp]: "wf_addr a \<Longrightarrow> wf_addr (CSocketAddress_CommonConstructor a)"
  by (auto simp: wf_addr_def CSocketAddress_CommonConstructor_def CSocketAddress_from_in4_def CSocketAddress_from_in6_def sockaddr_zero_def)

lemma wf_from_in [simp]:
  "length a = 4 \<Longrightarrow> wf_addr (CSocketAddress_from_in4 (sockaddr_zero\<lparr>sa_family := AF_INET, sa_in4 := a\<rparr>))"
  "length a = 16 \<Longrightarrow> wf_addr (CSocketAddress_from_in6 (sockaddr_zero\<lparr>sa_family := AF_INET6, sa_in6 := a\<rparr>))"
  "wf_addr (CSocketAddress_from_in4 (sockaddr_zero\<lparr>sa_family := AF_INET\<rparr>))"
  "wf_addr (CSocketAddress_from_in6 (sockaddr_zero\<lparr>sa_family := AF_INET6\<rparr>))"
  by (simp_all add: wf_addr_def CSocketAddress_from_in4_def CSocketAddress_from_in6_def sockaddr_zero_def)

lemma wf_local_port [simp]: "wf_addr a \<Longrightarrow> wf_addr (GetLocalPortNumberFromSocket os fd w a)"
  by (simp add: GetLocalPortNumberFromSocket_def Let_def split: option.split)

lemma wf_read_pktinfo: "list_all cmsg_ok cs \<Longrightarrow> wf_addr a \<Longrightarrow> wf_addr (read_pktinfo os fd w cs a)"
  by (induction os fd w cs a rule: read_pktinfo.induct) (simp_all add: cmsg_ok_def)

lemma wf_InitSocketAddress [simp]: "wf_addr a \<Longrightarrow> wf_addr (InitSocketAddress f a)"
  by (simp add: InitSocketAddress_def)

lemma recvfromex_ok:
  assumes os: "os_ok os" and a: "wf_addr src" "wf_addr dst"
    and r: "recvfromex os fd n flags src dst w = (ret, data, src', dst', w')"
  shows "ret \<le> int n" "wf_addr src'" "wf_addr dst'" "0 < ret \<Longrightarrow> length data = nat ret" "ret \<le> 0 \<Longrightarrow> data = []"
proof -
  obtain m w1 where m: "os_recvmsg os fd n flags w = (m, w1)" by fastforce
  have ok: "recv_ok n m" using os m by (metis os_ok_def fst_conv)
  show "ret \<le> int n" "wf_addr src'" "wf_addr dst'" "0 < ret \<Longrightarrow> length data = nat ret" "ret \<le> 0 \<Longrightarrow> data = []"
    using r a ok by (auto simp: recvfromex_def m Let_def recv_ok_def wf_read_pktinfo split: if_splits)
qed

section \<open>The invariant\<close>

definition buffers_ok :: "socket_thread \<Rightarrow> bool" where
  "buffers_ok th \<longleftrightarrow>
     (\<exists>b. th_spBufferIn th = Some b \<and> wf_buffer b \<and> cb_allocatedSize b = MAX_STUN_MESSAGE_SIZE) \<and>
     (\<exists>b. th_spBufferReader th = Some b \<and> ready_buffer b) \<and>
     (\<exists>b. out_spBufferOut (th_msgOut th) = Some b \<and> wf_buffer b \<and> 800 \<le> cb_allocatedSize b) \<and>
     table_ok (th_reader th) \<and> \<not> in_fConnectionOriented (th_msgIn th) \<and>
     wf_addr (in_addrLocal (th_msgIn th)) \<and> wf_addr (in_addrRemote (th_msgIn th))"

definition thread_ok :: "stun_socket list \<Rightarrow> TransportAddressSet \<Rightarrow> IStunAuth option \<Rightarrow> socket_thread \<Rightarrow> bool" where
  "thread_ok arr tsa auth th \<longleftrightarrow>
     th_arrSendSockets th = Some arr \<and> th_tsa th = tsa \<and> th_spAuth th = auth \<and> th_socks th \<noteq> [] \<and>
     (\<forall>p \<in> set (th_socks th). p < 4 \<and> CStunSocket_IsValid (arr ! p)) \<and> th_rotation th < length (th_socks th) \<and> buffers_ok th"

definition pc_ok :: "stun_socket list \<Rightarrow> run_pc \<Rightarrow> socket_thread \<Rightarrow> bool" where
  "pc_ok arr pc th \<longleftrightarrow>
     (case pc of AtReceive p \<Rightarrow> p \<in> set (th_socks th)
      | AtReceived ret p \<Rightarrow> p \<in> set (th_socks th) \<and> ret \<le> int MAX_STUN_MESSAGE_SIZE
      | AtProcess \<Rightarrow> \<exists>p \<in> set (th_socks th). in_socketrole (th_msgIn th) = sk_role (arr ! p)
      | _ \<Rightarrow> True)"

lemma first_ready_mem:
  "first_ready isset th is = Some p \<Longrightarrow> th_socks th \<noteq> [] \<Longrightarrow> p \<in> set (th_socks th)"
  by (induction "is") (auto simp: Let_def split: if_splits)

lemma wait_ok:
  assumes "thread_ok arr tsa auth th" "WaitForSocketData os th w = (p, th', w')"
  shows "thread_ok arr tsa auth th'" "th_socks th' = th_socks th" "p = Some q \<Longrightarrow> q \<in> set (th_socks th)" "th_msgIn th' = th_msgIn th"
proof -
  let ?th = "th\<lparr>th_rotation := (th_rotation th + 1) mod length (th_socks th)\<rparr>"
  obtain ret ready w1 where sel: "os_select os (set (map (\<lambda>p. CStunSocket_GetSocketHandle (thread_sock ?th p)) (th_socks ?th))) w = (ret, ready, w1)"
    by (metis prod_cases3)
  have e: "th' = ?th" "p = first_ready (\<lambda>sock. sock \<in> ready) ?th [0 ..< length (th_socks th)]"
    using assms(2) sel by (auto simp: WaitForSocketData_def Let_def)
  show "thread_ok arr tsa auth th'" using assms(1) by (simp add: e thread_ok_def buffers_ok_def)
  show "th_socks th' = th_socks th" "th_msgIn th' = th_msgIn th" by (simp_all add: e)
  show "q \<in> set (th_socks th)" if "p = Some q"
    using first_ready_mem [of "\<lambda>sock. sock \<in> ready" ?th "[0 ..< length (th_socks th)]" q] that e(2) assms(1)
    by (simp add: thread_ok_def)
qed

lemma receive_ok:
  assumes ok: "thread_ok arr tsa auth th" and os: "os_ok os" and r: "thread_receive os p th w = (ret, th', w')"
  shows "thread_ok arr tsa auth th'" "th_socks th' = th_socks th" "ret \<le> int MAX_STUN_MESSAGE_SIZE"
proof -
  obtain b d where b: "th_spBufferIn th = Some b" "cb_data b = Some d" "length d = cb_allocatedSize b" "cb_allocatedSize b = MAX_STUN_MESSAGE_SIZE"
    using ok by (auto simp: thread_ok_def buffers_ok_def wf_buffer_def)
  have wf: "wf_addr (in_addrRemote (th_msgIn th))" "wf_addr (in_addrLocal (th_msgIn th))"
    using ok by (simp_all add: thread_ok_def buffers_ok_def)
  obtain data src dst w1 where x: "recvfromex os (CStunSocket_GetSocketHandle (thread_sock th p)) (cb_allocatedSize b)
      (if 1 < length (th_socks th) then MSG_DONTWAIT else 0) (in_addrRemote (th_msgIn th)) (in_addrLocal (th_msgIn th)) w = (ret, data, src, dst, w1)"
    using r b by (auto simp: thread_receive_def Let_def split: prod.splits)
  note rx = recvfromex_ok [OF os wf x]
  have e: "th' = th\<lparr>th_spBufferIn := Some (b\<lparr>cb_size := 0, cb_data := Some (overwrite 0 data d)\<rparr>),
      th_msgIn := (th_msgIn th)\<lparr>in_addrRemote := src, in_addrLocal := dst\<rparr>\<rparr>"
    using r b x by (simp add: thread_receive_def Let_def)
  have "length data \<le> length d" using rx(1,4,5) b by (cases "0 < ret") auto
  then have len: "length (overwrite 0 data d) = cb_allocatedSize b" using b by simp
  show "thread_ok arr tsa auth th'" using ok len rx(2,3) b(4) by (auto simp: e thread_ok_def buffers_ok_def wf_buffer_def)
  show "th_socks th' = th_socks th" by (simp add: e)
  show "ret \<le> int MAX_STUN_MESSAGE_SIZE" using rx(1) b(4) by simp
qed

lemma received_ok:
  assumes ok: "thread_ok arr tsa auth th" and ret: "0 \<le> ret" "ret \<le> int MAX_STUN_MESSAGE_SIZE"
  shows "thread_ok arr tsa auth (thread_received ret p th)"
  using assms by (auto simp: thread_ok_def buffers_ok_def thread_received_def wf_buffer_def)

section \<open>One datagram\<close>

text \<open>
  What a datagram is worth, decided from its bytes, its addresses and the socket it came in on, with
  a reader that never read anything else.
\<close>

definition udp_reply ::
  "(bytes \<Rightarrow> bytes \<Rightarrow> bytes) \<Rightarrow> (bytes \<Rightarrow> bytes) \<Rightarrow> IStunAuth option \<Rightarrow> TransportAddressSet \<Rightarrow> StunMessageIn \<Rightarrow> bytes \<Rightarrow>
   (SocketRole \<times> bytes \<times> simple_sockaddr) option" where
  "udp_reply hmac md5 auth tas m bs =
     (let r = received True [bs]; m = m\<lparr>in_pReader := Some r\<rparr>; rep = reply_to hmac md5 auth tas m r
      in if spec_state True bs = BodyValidated \<and> GetMessageClass r = StunMsgClassRequest
         then Some (reply_role m rep, reply_bytes hmac m r rep, reply_dest m r) else None)"

definition sent_to :: "('w, 'x) os_scheme \<Rightarrow> stun_socket list \<Rightarrow> (SocketRole \<times> bytes \<times> simple_sockaddr) option \<Rightarrow> 'w \<Rightarrow> 'w" where
  "sent_to os arr rep w =
     (case rep of None \<Rightarrow> w | Some (role, data, dest) \<Rightarrow> snd (os_sendto os (sk_sock (arr ! unat role)) data dest w))"

definition open_role :: "stun_socket list \<Rightarrow> TransportAddressSet \<Rightarrow> SocketRole \<Rightarrow> bool" where
  "open_role arr tsa role \<longleftrightarrow> IsValidSocketRole role \<and> CStunSocket_IsValid (arr ! unat role) \<and> ta_fValid (tsa ! unat role)"

lemma open_usable: "sockets_ok arr tsa \<Longrightarrow> usable tsa role \<Longrightarrow> open_role arr tsa role"
  using role_lt [of role] by (auto simp: sockets_ok_def usable_def open_role_def)

lemma role_of_nat: "unat role < 4 \<Longrightarrow> IsValidSocketRole role"
  by (simp add: IsValidSocketRole_def word_le_nat_alt)

lemma open_socket:
  assumes "sockets_ok arr tsa" "p < 4" "CStunSocket_IsValid (arr ! p)"
  shows "open_role arr tsa (sk_role (arr ! p))" "arr ! unat (sk_role (arr ! p)) = arr ! p"
  using assms role_of_nat [of "sk_role (arr ! p)"] by (auto simp: sockets_ok_def open_role_def)

lemma reply_open:
  assumes "sockets_ok arr tsa" "open_role arr tsa (in_socketrole m)"
  shows "open_role arr tsa (reply_role m (reply_to hmac md5 auth tsa m r))"
  using assms open_usable [OF assms(1)]
  by (auto simp: reply_role_def reply_to_def binding_reply_def Let_def split: verdict.split)

text \<open>A restarted reader that gets a whole datagram.\<close>

lemma restarted_reads:
  assumes tb: "table_ok r0" and b: "ready_buffer b" and len: "length bs < size_range"
  shows "reader_after True bs (snd (AddBytes (Some bs) (length bs) (restarted b r0)))"
    "table_ok (snd (AddBytes (Some bs) (length bs) (restarted b r0)))"
    "sound_attached (rd_stream (snd (AddBytes (Some bs) (length bs) (restarted b r0))))"
proof -
  note rs = restarted_ok [OF tb b]
  show "reader_after True bs (snd (AddBytes (Some bs) (length bs) (restarted b r0)))" using AddBytes_ok(2) [OF rs(1), of bs] len by simp
  show "table_ok (snd (AddBytes (Some bs) (length bs) (restarted b r0)))" by (rule table_ok_AddBytes [OF rs(2)])
  have sh: "stream_holds [] (restarted b r0)" using reader_after_stream [OF rs(1)] by (simp add: spec_state_def)
  then have "CDataStream_GetSize (rd_stream (restarted b r0)) = 0"
    using length_stream_bytes [of "rd_stream (restarted b r0)"] by (simp add: stream_holds_def)
  then show "sound_attached (rd_stream (snd (AddBytes (Some bs) (length bs) (restarted b r0))))"
    using sh len by (intro AddBytes_sound [OF rs(3)]) (simp_all add: stream_holds_def)
qed

text \<open>What the request handler makes of a validated message, whatever reader holds it.\<close>

lemma request_outcome:
  assumes ra: "reader_after True bs r" and st: "spec_state True bs = BodyValidated" and len: "length bs < size_range"
    and m: "in_pReader m = Some r" "IsValidSocketRole (in_socketrole m)" "wf_set tsa" "wf_addr (in_addrLocal m)" "wf_addr (in_addrRemote m)"
    and d: "providers_ok auth" "\<forall>k d. length (hmac k d) = 20" "\<forall>k. length (md5 k) = 16"
    and ob: "out_spBufferOut o' = Some ob" "wf_buffer ob" "800 \<le> cb_allocatedSize ob"
    and p: "ProcessRequest hmac md5 m o' (Some tsa) auth = (hr, mo)"
  shows "\<exists>b'. out_spBufferOut mo = Some b' \<and> wf_buffer b' \<and> cb_allocatedSize b' = cb_allocatedSize ob \<and>
    (case udp_reply hmac md5 auth tsa m bs of
       None \<Rightarrow> hr = E_FAIL
     | Some (role, data, dest) \<Rightarrow> hr = S_OK \<and> buffer_bytes b' = data \<and> out_socketrole mo = role \<and> out_addrDest mo = dest)"
proof -
  let ?rz = "received True [bs]"
  have a: "alike bs ?rz r" using same_text_alike [OF _ ra st] received_after [of "[bs]" True] len by simp
  note q0 = alike_queries [OF a] and ar = alike_reply [OF a, where m = "m\<lparr>in_pReader := Some ?rz\<rparr>" and m' = m and p = "Some r"]
  have me: "m = m\<lparr>in_pReader := Some ?rz, in_pReader := Some r\<rparr>" using m(1) by (cases m) simp
  have acc: "rd_state r = BodyValidated" using reader_after_state [OF ra] st by simp
  show ?thesis
  proof (cases "GetMessageClass r = StunMsgClassRequest")
    case True
    have v: "serving hmac md5 auth tsa m o' r" using accepted_request [OF ra acc] acc True m d ob by (simp add: serving_def valid_input_def)
    note sv = serving_sent [OF v]
    have mo: "mo = response hmac md5 auth tsa m o'" "hr = S_OK" using p sv(4) by (simp_all add: response_def)
    obtain b' where b': "out_spBufferOut mo = Some b'" "cb_allocatedSize b' = cb_allocatedSize ob" "wf_buffer b'"
      using sv(5) ob(1) by (auto simp: mo(1))
    have "udp_reply hmac md5 auth tsa m bs = Some (out_socketrole mo, sent_bytes mo, out_addrDest mo)"
      using st True ar me by (simp add: udp_reply_def Let_def q0 mo(1) sv(1-3))
    then show ?thesis using b' mo(2) by (simp add: sent_bytes_def)
  next
    case False
    have "hd_reader (CStunRequestHandler_new (Some tsa) m o') = r" for o' using m(1) by (simp add: hd_reader_def CStunRequestHandler_new_def)
    then have "ProcessRequest hmac md5 m o' (Some tsa) auth = (E_FAIL, o'\<lparr>out_spBufferOut := Some (ob\<lparr>cb_size := 0\<rparr>),
        out_socketrole := in_socketrole m, out_addrDest := in_addrRemote m\<rparr>)"
      using m(1,2) ob False acc by (simp add: ProcessRequest_def ProcessRequestImpl_def MAX_STUN_MESSAGE_SIZE_def Reader_GetState_def
          CStunRequestHandler_new_def)
    then have mo: "hr = E_FAIL" "out_spBufferOut mo = Some (ob\<lparr>cb_size := 0\<rparr>)" using p by auto
    have "udp_reply hmac md5 auth tsa m bs = None" using False q0 by (simp add: udp_reply_def Let_def)
    then show ?thesis using mo ob by (auto simp: wf_buffer_def)
  qed
qed

text \<open>A reply goes out through an open socket.\<close>

lemma udp_reply_open:
  assumes "sockets_ok arr tsa" "open_role arr tsa (in_socketrole m)" "udp_reply hmac md5 auth tsa m bs = Some (role, data, dest)"
  shows "open_role arr tsa role"
  using reply_open [OF assms(1), of "m\<lparr>in_pReader := Some (received True [bs])\<rparr>" hmac md5 auth "received True [bs]"] assms(2,3)
  by (auto simp: udp_reply_def Let_def split: if_splits)

lemma process_ok:
  assumes ok: "thread_ok arr tsa auth th" and pc: "pc_ok arr AtProcess th" and s: "sockets_ok arr tsa"
    and d: "providers_ok auth" "\<forall>k d. length (hmac k d) = 20" "\<forall>k. length (md5 k) = 16"
    and b: "th_spBufferIn th = Some b"
    and p: "ProcessRequestAndSendResponse hmac md5 os th w = (hr, th', w')"
  shows "thread_ok arr tsa auth th'" "th_socks th' = th_socks th"
    "w' = sent_to os arr (udp_reply hmac md5 auth tsa (th_msgIn th) (buffer_bytes b)) w"
    "udp_reply hmac md5 auth tsa (th_msgIn th) (buffer_bytes b) = Some (role, data, dest) \<Longrightarrow> open_role arr tsa role"
proof -
  let ?bs = "buffer_bytes b" and ?m = "th_msgIn th"
  have bok: "wf_buffer b" "cb_allocatedSize b = MAX_STUN_MESSAGE_SIZE" using ok b by (auto simp: thread_ok_def buffers_ok_def)
  have len: "length ?bs = cb_size b" "length ?bs \<le> MAX_STUN_MESSAGE_SIZE"
    using bok by (auto simp: length_buffer_bytes wf_buffer_def)
  then have small: "length ?bs < size_range" by (simp add: MAX_STUN_MESSAGE_SIZE_def size_range_def)
  obtain rb where rb: "th_spBufferReader th = Some rb" "ready_buffer rb" using ok by (auto simp: thread_ok_def buffers_ok_def)
  have tb: "table_ok (th_reader th)" using ok by (simp add: thread_ok_def buffers_ok_def)
  define r where "r = snd (AddBytes (Some (CBuffer_GetData b)) (cb_size b) (restarted rb (th_reader th)))"
  have r: "r = snd (AddBytes (Some ?bs) (length ?bs) (restarted rb (th_reader th)))"
    unfolding r_def len(1) by (subst AddBytes_take) (simp add: buffer_bytes_def)
  note rr = restarted_reads [OF tb rb(2) small, folded r]
  obtain nb where nb: "attached_buffer (rd_stream r) = Some nb" "ready_buffer nb" using rr(3) by (auto simp: sound_attached_def ready_buffer_def)
  let ?mr = "?m\<lparr>in_pReader := Some r\<rparr>"
  define th1 where "th1 = th\<lparr>th_reader := r, th_spBufferReader := attached_buffer (rd_stream r), th_msgIn := ?mr\<rparr>"
  have th1: "thread_ok arr tsa auth th1" using ok rr(2) nb by (simp add: th1_def thread_ok_def buffers_ok_def)
  obtain hr1 mo where mo: "ProcessRequest hmac md5 ?mr (th_msgOut th) (Some tsa) auth = (hr1, mo)" by fastforce
  have tsa: "th_tsa th = tsa" "th_spAuth th = auth" "th_arrSendSockets th = Some arr" using ok by (simp_all add: thread_ok_def)
  have st: "Reader_GetState r = spec_state True ?bs" using reader_after_state [OF rr(1)] by (simp add: Reader_GetState_def)
  have P: "ProcessRequestAndSendResponse hmac md5 os th w =
    (if spec_state True ?bs \<noteq> BodyValidated then (E_FAIL, th1, w)
     else if FAILED hr1 then (hr1, th1\<lparr>th_msgOut := mo\<rparr>, w)
     else (hr1, th1\<lparr>th_msgOut := mo\<rparr>, snd (os_sendto os (sk_sock (arr ! unat (out_socketrole mo))) (buffer_bytes (the (out_spBufferOut mo))) (out_addrDest mo) w)))"
    unfolding ProcessRequestAndSendResponse_def Let_def rb(1) option.map b option.sel restarted_def [symmetric] r_def [symmetric] st
    by (simp add: th1_def mo tsa thread_sock_def CStunSocket_GetSocketHandle_def buffer_bytes_def split_beta)
  obtain q where q: "q \<in> set (th_socks th)" "in_socketrole ?m = sk_role (arr ! q)" using pc by (auto simp: pc_ok_def)
  have role: "open_role arr tsa (in_socketrole ?m)"
    using ok q open_socket(1) [OF s, of q] by (simp add: thread_ok_def)
  show "udp_reply hmac md5 auth tsa ?m ?bs = Some (role, data, dest) \<Longrightarrow> open_role arr tsa role" by (rule udp_reply_open [OF s role])
  have "thread_ok arr tsa auth th' \<and> th_socks th' = th_socks th \<and> w' = sent_to os arr (udp_reply hmac md5 auth tsa ?m ?bs) w"
  proof (cases "spec_state True ?bs = BodyValidated")
    case False
    then show ?thesis using p th1 by (simp add: P udp_reply_def sent_to_def Let_def) (auto simp: th1_def)
  next
    case True
    obtain ob where ob: "out_spBufferOut (th_msgOut th) = Some ob" "wf_buffer ob" "800 \<le> cb_allocatedSize ob"
      using ok by (auto simp: thread_ok_def buffers_ok_def)
    have u: "udp_reply hmac md5 auth tsa ?mr ?bs = udp_reply hmac md5 auth tsa ?m ?bs" by (simp add: udp_reply_def)
    have m: "in_pReader ?mr = Some r" "IsValidSocketRole (in_socketrole ?mr)" "wf_set tsa" "wf_addr (in_addrLocal ?mr)" "wf_addr (in_addrRemote ?mr)"
      using role s ok by (simp_all add: open_role_def sockets_ok_def thread_ok_def buffers_ok_def)
    from request_outcome [OF rr(1) True small m d ob mo] obtain b' where b': "out_spBufferOut mo = Some b'" "wf_buffer b'"
      "cb_allocatedSize b' = cb_allocatedSize ob"
      "case udp_reply hmac md5 auth tsa ?m ?bs of None \<Rightarrow> hr1 = E_FAIL
       | Some (role, data, dest) \<Rightarrow> hr1 = S_OK \<and> buffer_bytes b' = data \<and> out_socketrole mo = role \<and> out_addrDest mo = dest"
      unfolding u by blast
    then show ?thesis using p th1 True ob
      by (cases "udp_reply hmac md5 auth tsa ?m ?bs") (auto simp: P sent_to_def thread_ok_def buffers_ok_def th1_def)
  qed
  then show "thread_ok arr tsa auth th'" "th_socks th' = th_socks th"
    "w' = sent_to os arr (udp_reply hmac md5 auth tsa ?m ?bs) w" by simp_all
qed

section \<open>Every reachable state\<close>

definition serving_thread ::
  "(bytes \<Rightarrow> bytes \<Rightarrow> bytes) \<Rightarrow> (bytes \<Rightarrow> bytes) \<Rightarrow> ('w, 'x) os_scheme \<Rightarrow> stun_socket list \<Rightarrow> TransportAddressSet \<Rightarrow> IStunAuth option \<Rightarrow> bool" where
  "serving_thread hmac md5 os arr tsa auth \<longleftrightarrow>
     os_ok os \<and> sockets_ok arr tsa \<and> providers_ok auth \<and> (\<forall>k d. length (hmac k d) = 20) \<and> (\<forall>k. length (md5 k) = 16)"

lemma buffers_ok_buffer: "thread_ok arr tsa auth th \<Longrightarrow> \<exists>b. th_spBufferIn th = Some b"
  by (auto simp: thread_ok_def buffers_ok_def)

lemma Run_step_ok:
  assumes s: "serving_thread hmac md5 os arr tsa auth" and ok: "thread_ok arr tsa auth th" and pc: "pc_ok arr pc th"
    and step: "Run_step hmac md5 os (pc, th, w) = (pc', th', w')"
  shows "thread_ok arr tsa auth th' \<and> pc_ok arr pc' th'"
proof (cases pc)
  case AtLoop
  have nth: "th_socks th ! 0 \<in> set (th_socks th)" using ok by (simp add: thread_ok_def)
  show ?thesis
  proof (cases "th_fNeedToExit th \<or> \<not> 1 < length (th_socks th)")
    case True
    then show ?thesis using ok nth step AtLoop by (auto simp: Run_step_def pc_ok_def split: if_splits)
  next
    case False
    obtain p th1 w1 where wt: "WaitForSocketData os th w = (p, th1, w1)" by (metis prod_cases3)
    note wo = wait_ok [OF ok wt]
    show ?thesis using False step AtLoop wo wt
      by (cases p) (auto simp: Run_step_def pc_ok_def)
  qed
next
  case (AtReceive p)
  obtain ret th1 w1 where r: "thread_receive os p th w = (ret, th1, w1)" by (metis prod_cases3)
  have "os_ok os" using s by (simp add: serving_thread_def)
  note ro = receive_ok [OF ok this r]
  show ?thesis using step AtReceive ro ok pc by (auto simp: Run_step_def r pc_ok_def split: if_splits)
next
  case (AtReceived ret p)
  have pr: "p \<in> set (th_socks th)" "ret \<le> int MAX_STUN_MESSAGE_SIZE" using pc AtReceived by (simp_all add: pc_ok_def)
  have "th_arrSendSockets th = Some arr" using ok by (simp add: thread_ok_def)
  then have "pc_ok arr AtProcess (thread_received ret p th)"
    using pr(1) by (auto simp: pc_ok_def thread_received_def thread_sock_def CStunSocket_GetRole_def)
  moreover have "thread_ok arr tsa auth (thread_received ret p th)" if "\<not> ret < 0"
    using received_ok [OF ok _ pr(2)] that by simp
  ultimately show ?thesis using step AtReceived ok by (auto simp: Run_step_def pc_ok_def split: if_splits)
next
  case AtProcess
  obtain hr th1 w1 where p: "ProcessRequestAndSendResponse hmac md5 os th w = (hr, th1, w1)" by (metis prod_cases3)
  obtain b where b: "th_spBufferIn th = Some b" using buffers_ok_buffer [OF ok] by blast
  have d: "sockets_ok arr tsa" "providers_ok auth" "\<forall>k d. length (hmac k d) = 20" "\<forall>k. length (md5 k) = 16"
    using s by (simp_all add: serving_thread_def)
  have "pc_ok arr AtProcess th" using pc AtProcess by simp
  note po = process_ok(1) [OF ok this d b p]
  show ?thesis using step AtProcess po by (simp add: Run_step_def p pc_ok_def)
next
  case Exited
  then show ?thesis using step ok by (simp add: Run_step_def pc_ok_def)
qed

lemma run_thread_ok:
  assumes "thread_run hmac md5 os th0 s" "serving_thread hmac md5 os arr tsa auth" "thread_ok arr tsa auth th0"
  shows "thread_ok arr tsa auth (fst (snd s)) \<and> pc_ok arr (fst s) (fst (snd s))"
  using assms(1)
proof induction
  case (run_start w)
  then show ?case using assms(3) by (simp add: pc_ok_def)
next
  case (run_own s)
  obtain pc th w where s: "s = (pc, th, w)" by (metis prod_cases3)
  obtain pc' th' w' where t: "Run_step hmac md5 os (pc, th, w) = (pc', th', w')" by (metis prod_cases3)
  show ?case using Run_step_ok [OF assms(2) _ _ t] run_own by (simp add: s t)
next
  case (run_signal pc th w)
  then show ?case by (auto simp: thread_ok_def buffers_ok_def pc_ok_def split: run_pc.splits)
qed auto

section \<open>The thread's start\<close>

lemma Init_thread_ok:
  assumes s: "sockets_ok arr tsa" and n: "th_fThreadIsValid th = False" "th_socks th = []" "table_ok (th_reader th)"
    and a: "wf_addr (in_addrLocal (th_msgIn th))" "wf_addr (in_addrRemote (th_msgIn th))"
    and some: "if IsValidSocketRole role then CStunSocket_IsValid (arr ! unat role) else \<exists>i < 4. CStunSocket_IsValid (arr ! i)"
    and i: "thread_Init (Some arr) (Some tsa) auth role th = (hr, th')"
  shows "hr = S_OK" "thread_ok arr tsa auth th'" "\<not> th_fNeedToExit th'"
    "th_socks th' = (if IsValidSocketRole role then [unat role] else filter (\<lambda>i. CStunSocket_IsValid (arr ! i)) [0 ..< 4])"
proof -
  let ?socks = "if IsValidSocketRole role then [unat role] else filter (\<lambda>i. CStunSocket_IsValid (arr ! i)) [0 ..< 4]"
  let ?r = "Reader_AttachStream (Some (CBuffer_alloc MAX_STUN_MESSAGE_SIZE)) True (Reader_Reset (th_reader th))"
  have e: "hr = S_OK" "th_socks th' = ?socks" "th_reader th' = ?r" "th_spBufferReader th' = attached_buffer (rd_stream ?r)"
    "th_spBufferIn th' = Some (CBuffer_alloc MAX_STUN_MESSAGE_SIZE)" "out_spBufferOut (th_msgOut th') = Some (CBuffer_alloc MAX_STUN_MESSAGE_SIZE)"
    "th_arrSendSockets th' = Some arr" "th_tsa th' = tsa" "th_spAuth th' = auth" "th_rotation th' = 0" "\<not> th_fNeedToExit th'"
    "in_fConnectionOriented (th_msgIn th') = False" "in_addrLocal (th_msgIn th') = in_addrLocal (th_msgIn th)"
    "in_addrRemote (th_msgIn th') = in_addrRemote (th_msgIn th)"
    using i n(1,2) some by (auto simp: thread_Init_def InitThreadBuffers_def Let_def thread_sock_def split: if_splits)
  have ne: "?socks \<noteq> []" "\<forall>p \<in> set ?socks. p < 4 \<and> CStunSocket_IsValid (arr ! p)"
    using some role_lt [of role] by (auto simp: filter_empty_conv Bex_def)
  have tb: "table_ok ?r" using blank_fields(3) [OF Reset_blank [OF n(3)]] by (simp add: Reader_AttachStream_def table_ok_def)
  have rb: "\<exists>b. attached_buffer (rd_stream ?r) = Some b \<and> ready_buffer b"
    by (simp add: Reader_AttachStream_def CDataStream_Attach_def CDataStream_Reset_def attached_buffer_def ready_buffer_def)
  show "hr = S_OK" "\<not> th_fNeedToExit th'" "th_socks th' = ?socks" using e by simp_all
  show "thread_ok arr tsa auth th'" using e ne tb rb a
    by (simp add: thread_ok_def buffers_ok_def wf_buffer_def MAX_STUN_MESSAGE_SIZE_def)
qed

section \<open>Fairness\<close>

text \<open>
  One datagram from the call of \<open>recvmsg\<close> to the answer, and the order in which the thread listens
  to its sockets: \<open>_rotation\<close> gives each socket the first place in turn, so a socket that stays
  ready is read after at most one turn.
\<close>

section \<open>From datagram to answer\<close>

definition udp_input :: "SocketRole \<Rightarrow> simple_sockaddr \<Rightarrow> simple_sockaddr \<Rightarrow> StunMessageIn" where
  "udp_input role src dst =
     \<lparr>in_socketrole = role, in_addrLocal = dst, in_addrRemote = src, in_pReader = None, in_fConnectionOriented = False\<rparr>"

lemma udp_reply_input: "udp_reply hmac md5 auth tas (m\<lparr>in_pReader := p\<rparr>) bs = udp_reply hmac md5 auth tas m bs"
  by (simp add: udp_reply_def)

lemma thread_fields:
  assumes "thread_ok arr tsa auth th"
  shows "th_arrSendSockets th = Some arr" "thread_sock th p = arr ! p" "th_socks th \<noteq> []" "in_fConnectionOriented (th_msgIn th) = False"
  using assms by (simp_all add: thread_ok_def thread_sock_def buffers_ok_def)

lemma three_steps: "(f ^^ 3) x = f (f (f x))"
  by (simp add: numeral_3_eq_3)

lemma datagram_steps:
  assumes s: "serving_thread hmac md5 os arr tsa auth" and ok: "thread_ok arr tsa auth th" and p: "p \<in> set (th_socks th)"
    and run: "\<not> th_fNeedToExit th"
    and r: "recvfromex os (sk_sock (arr ! p)) MAX_STUN_MESSAGE_SIZE (if 1 < length (th_socks th) then MSG_DONTWAIT else 0)
        (in_addrRemote (th_msgIn th)) (in_addrLocal (th_msgIn th)) w = (ret, data, src, dst, w1)" and ret: "0 \<le> ret"
  shows "\<exists>th'. (Run_step hmac md5 os ^^ 3) (AtReceive p, th, w) =
      (AtLoop, th', sent_to os arr (udp_reply hmac md5 auth tsa (udp_input (sk_role (arr ! p)) src dst) data) w1)"
    "udp_reply hmac md5 auth tsa (udp_input (sk_role (arr ! p)) src dst) data = Some (role, d, dest) \<Longrightarrow> open_role arr tsa role"
proof -
  have os: "os_ok os" "sockets_ok arr tsa" "providers_ok auth" "\<forall>k d. length (hmac k d) = 20" "\<forall>k. length (md5 k) = 16"
    using s by (simp_all add: serving_thread_def)
  note tf = thread_fields [OF ok]
  obtain b d0 where b: "th_spBufferIn th = Some b" "cb_data b = Some d0" "length d0 = MAX_STUN_MESSAGE_SIZE" "cb_allocatedSize b = MAX_STUN_MESSAGE_SIZE"
    using ok by (auto simp: thread_ok_def buffers_ok_def wf_buffer_def)
  have wf: "wf_addr (in_addrRemote (th_msgIn th))" "wf_addr (in_addrLocal (th_msgIn th))"
    using ok by (simp_all add: thread_ok_def buffers_ok_def)
  note rx = recvfromex_ok [OF os(1) wf r]
  have len: "length data = nat ret" "nat ret \<le> MAX_STUN_MESSAGE_SIZE" using rx(1,4,5) ret by (cases "0 < ret"; simp)+
  let ?b = "b\<lparr>cb_size := 0, cb_data := Some (overwrite 0 data d0)\<rparr>"
  let ?th1 = "th\<lparr>th_spBufferIn := Some ?b, th_msgIn := (th_msgIn th)\<lparr>in_addrRemote := src, in_addrLocal := dst\<rparr>\<rparr>"
  have t1: "thread_receive os p th w = (ret, ?th1, w1)"
    using r b by (simp add: thread_receive_def Let_def tf CStunSocket_GetSocketHandle_def)
  note ro = receive_ok [OF ok os(1) t1]
  let ?th2 = "thread_received ret p ?th1"
  have ok2: "thread_ok arr tsa auth ?th2" by (rule received_ok [OF ro(1) ret ro(3)])
  have pc2: "pc_ok arr AtProcess ?th2" using p ro(2) tf(1)
    by (auto simp: pc_ok_def thread_received_def thread_sock_def CStunSocket_GetRole_def)
  let ?b2 = "b\<lparr>cb_data := Some (overwrite 0 data d0), cb_size := nat ret\<rparr>"
  have b2: "th_spBufferIn ?th2 = Some ?b2" by (simp add: thread_received_def)
  have bytes: "buffer_bytes ?b2 = data"
    using len b(3) by (simp add: buffer_bytes_def CBuffer_GetData_def overwrite_def)
  have in2: "th_msgIn ?th2 = (udp_input (sk_role (arr ! p)) src dst)\<lparr>in_pReader := in_pReader (th_msgIn th)\<rparr>"
    using tf by (simp add: thread_received_def udp_input_def thread_sock_def CStunSocket_GetRole_def)
  obtain hr th3 w3 where p3: "ProcessRequestAndSendResponse hmac md5 os ?th2 w1 = (hr, th3, w3)" by (metis prod_cases3)
  note po = process_ok [OF ok2 pc2 os(2-5) b2 p3]
  have w3: "w3 = sent_to os arr (udp_reply hmac md5 auth tsa (udp_input (sk_role (arr ! p)) src dst) data) w1"
    using po(3) by (simp add: bytes in2 udp_reply_input)
  have "(Run_step hmac md5 os ^^ 3) (AtReceive p, th, w) = (AtLoop, th3, w3)"
    using run t1 ret p3 by (simp add: three_steps Run_step_def)
  then show "\<exists>th'. (Run_step hmac md5 os ^^ 3) (AtReceive p, th, w) =
      (AtLoop, th', sent_to os arr (udp_reply hmac md5 auth tsa (udp_input (sk_role (arr ! p)) src dst) data) w1)"
    by (simp add: w3)
  show "open_role arr tsa role" if "udp_reply hmac md5 auth tsa (udp_input (sk_role (arr ! p)) src dst) data = Some (role, d, dest)"
    using po(4) [of role d dest] that by (simp add: bytes in2 udp_reply_input)
qed

section \<open>One turn of the loop\<close>

text \<open>The part of the thread that decides which socket is next.\<close>

definition same_listening :: "socket_thread \<Rightarrow> socket_thread \<Rightarrow> bool" where
  "same_listening th th' \<longleftrightarrow> th_socks th' = th_socks th \<and> th_fNeedToExit th' = th_fNeedToExit th \<and> th_rotation th' = th_rotation th"

lemma receive_listening: "thread_receive os p th w = (ret, th', w') \<Longrightarrow> same_listening th th'"
  by (auto simp: thread_receive_def same_listening_def Let_def split: prod.splits)

lemma process_listening: "ProcessRequestAndSendResponse hmac md5 os th w = (hr, th', w') \<Longrightarrow> same_listening th th'"
  by (auto simp: ProcessRequestAndSendResponse_def same_listening_def Let_def split: prod.splits if_splits)

lemma wait_picks:
  assumes ok: "thread_ok arr tsa auth th" and k: "k < length (th_socks th)"
    and ready: "\<And>fds w. sk_sock (arr ! (th_socks th ! k)) \<in> fds \<Longrightarrow> sk_sock (arr ! (th_socks th ! k)) \<in> fst (snd (os_select os fds w))"
    and wt: "WaitForSocketData os th w = (q, th', w')"
  shows "q \<noteq> None" "th_rotation th' = (th_rotation th + 1) mod length (th_socks th)" "th_socks th' = th_socks th"
    "th_fNeedToExit th' = th_fNeedToExit th" "(th_rotation th + 1) mod length (th_socks th) = k \<Longrightarrow> q = Some (th_socks th ! k)"
proof -
  let ?n = "length (th_socks th)"
  let ?th = "th\<lparr>th_rotation := (th_rotation th + 1) mod ?n\<rparr>"
  obtain ret rdy w1 where sel: "os_select os (set (map (\<lambda>p. CStunSocket_GetSocketHandle (thread_sock ?th p)) (th_socks ?th))) w = (ret, rdy, w1)"
    by (metis prod_cases3)
  have "sk_sock (arr ! (th_socks th ! k)) \<in> set (map (\<lambda>p. CStunSocket_GetSocketHandle (thread_sock ?th p)) (th_socks ?th))"
    using k thread_fields(1) [OF ok] by (auto simp: thread_sock_def CStunSocket_GetSocketHandle_def)
  then have rk: "sk_sock (arr ! (th_socks th ! k)) \<in> rdy" using ready sel by (metis fst_conv snd_conv)
  have e: "th' = ?th" "q = first_ready (\<lambda>sock. sock \<in> rdy) ?th [0 ..< ?n]"
    using wt sel by (auto simp: WaitForSocketData_def Let_def)
  have hit: "CStunSocket_GetSocketHandle (thread_sock ?th (th_socks th ! k)) \<in> rdy"
    using rk thread_fields(1) [OF ok] by (simp add: thread_sock_def CStunSocket_GetSocketHandle_def)
  show "th_rotation th' = (th_rotation th + 1) mod ?n" "th_socks th' = th_socks th" "th_fNeedToExit th' = th_fNeedToExit th" by (simp_all add: e)
  have some: "first_ready (\<lambda>sock. sock \<in> rdy) ?th is \<noteq> None" if "i \<in> set is" "(i + th_rotation ?th) mod ?n = k" for i "is"
    using that hit by (induction "is") (auto simp: Let_def)
  have n: "0 < ?n" using k by linarith
  define r where "r = th_rotation ?th"
  have r: "r < ?n" using n by (simp add: r_def)
  have "((k + (?n - r)) mod ?n + r) mod ?n = (k + (?n - r) + r) mod ?n" by (rule mod_add_left_eq)
  also have "\<dots> = k" using r k by simp
  finally have "((k + (?n - r)) mod ?n + th_rotation ?th) mod ?n = k" unfolding r_def .
  moreover have "(k + (?n - r)) mod ?n \<in> set [0 ..< ?n]" using n by simp
  ultimately show "q \<noteq> None" unfolding e(2) by (intro some)
  show "q = Some (th_socks th ! k)" if "(th_rotation th + 1) mod ?n = k"
  proof -
    have "[0 ..< ?n] = 0 # [1 ..< ?n]" unfolding One_nat_def by (rule upt_conv_Cons [OF n])
    then show ?thesis using that hit k by (simp add: e(2) Let_def)
  qed
qed

text \<open>A turn from one test of the loop's condition to the next takes at most four steps.\<close>

lemma one_turn:
  assumes s: "serving_thread hmac md5 os arr tsa auth" and ok: "thread_ok arr tsa auth th" and k: "k < length (th_socks th)"
    and multi: "1 < length (th_socks th)" and run: "\<not> th_fNeedToExit th"
    and ready: "\<And>fds w. sk_sock (arr ! (th_socks th ! k)) \<in> fds \<Longrightarrow> sk_sock (arr ! (th_socks th ! k)) \<in> fst (snd (os_select os fds w))"
  shows "\<exists>q th1 w1 i th2 w2. Run_step hmac md5 os (AtLoop, th, w) = (AtReceive q, th1, w1) \<and>
      ((th_rotation th + 1) mod length (th_socks th) = k \<longrightarrow> q = th_socks th ! k) \<and> i \<le> 3 \<and>
      (Run_step hmac md5 os ^^ i) (AtReceive q, th1, w1) = (AtLoop, th2, w2) \<and>
      thread_ok arr tsa auth th2 \<and> th_socks th2 = th_socks th \<and> \<not> th_fNeedToExit th2 \<and>
      th_rotation th2 = (th_rotation th + 1) mod length (th_socks th)"
proof -
  obtain qo th1 w1 where wt: "WaitForSocketData os th w = (qo, th1, w1)" by (metis prod_cases3)
  note wp = wait_picks [OF ok k ready wt] and wo = wait_ok [OF ok wt]
  obtain q where q: "qo = Some q" using wp(1) by auto
  have s1: "Run_step hmac md5 os (AtLoop, th, w) = (AtReceive q, th1, w1)" using run multi wt q by (simp add: Run_step_def)
  obtain ret th2 w2 where r: "thread_receive os q th1 w1 = (ret, th2, w2)" by (metis prod_cases3)
  have os: "os_ok os" using s by (simp add: serving_thread_def)
  note ro = receive_ok [OF wo(1) os r] and rl = receive_listening [OF r]
  have s2: "Run_step hmac md5 os (AtReceive q, th1, w1) = (AtReceived ret q, th2, w2)" using run wp(4) r by (simp add: Run_step_def)
  have q2: "q \<in> set (th_socks th2)" using wo(3) [OF q] wp(3) ro(2) by simp
  show ?thesis
  proof (cases "ret < 0")
    case True
    have "(Run_step hmac md5 os ^^ 2) (AtReceive q, th1, w1) = (AtLoop, th2, w2)"
      using s2 True by (simp add: numeral_2_eq_2 Run_step_def)
    then show ?thesis using s1 wp ro rl run q by (intro exI [of _ q] exI [of _ th1] exI [of _ w1] exI [of _ 2] exI [of _ th2] exI [of _ w2])
        (simp add: same_listening_def)
  next
    case False
    let ?th3 = "thread_received ret q th2"
    have pc: "pc_ok arr (AtReceived ret q) th2" using q2 ro(3) by (simp add: pc_ok_def)
    have s3: "Run_step hmac md5 os (AtReceived ret q, th2, w2) = (AtProcess, ?th3, w2)" using False rl run wp(4) by (simp add: Run_step_def same_listening_def)
    note r3 = Run_step_ok [OF s ro(1) pc s3]
    obtain hr th4 w4 where p4: "ProcessRequestAndSendResponse hmac md5 os ?th3 w2 = (hr, th4, w4)" by (metis prod_cases3)
    have s4: "Run_step hmac md5 os (AtProcess, ?th3, w2) = (AtLoop, th4, w4)" using p4 by (simp add: Run_step_def)
    note r4 = Run_step_ok [OF s r3 [THEN conjunct1] r3 [THEN conjunct2] s4] and pl = process_listening [OF p4]
    have l3: "same_listening th2 ?th3" by (simp add: same_listening_def thread_received_def)
    have "(Run_step hmac md5 os ^^ 3) (AtReceive q, th1, w1) = (AtLoop, th4, w4)" using s2 s3 s4 by (simp add: three_steps)
    then show ?thesis using s1 wp r4 rl l3 pl run q by (intro exI [of _ q] exI [of _ th1] exI [of _ w1] exI [of _ 3] exI [of _ th4] exI [of _ w4])
        (simp add: same_listening_def)
  qed
qed

lemma ready_served:
  assumes s: "serving_thread hmac md5 os arr tsa auth"
  shows "thread_ok arr tsa auth th \<Longrightarrow> k < length (th_socks th) \<Longrightarrow> \<not> th_fNeedToExit th \<Longrightarrow>
    (\<And>fds w. sk_sock (arr ! (th_socks th ! k)) \<in> fds \<Longrightarrow> sk_sock (arr ! (th_socks th ! k)) \<in> fst (snd (os_select os fds w))) \<Longrightarrow>
    (th_rotation th + Suc d) mod length (th_socks th) = k \<Longrightarrow>
    \<exists>i \<le> 4 * d + 1. fst ((Run_step hmac md5 os ^^ i) (AtLoop, th, w)) = AtReceive (th_socks th ! k)"
proof (induction d arbitrary: th w)
  case 0
  show ?case
  proof (cases "1 < length (th_socks th)")
    case True
    from one_turn [OF s 0(1,2) True 0(3,4), of w] 0(5) show ?thesis by (intro exI [of _ 1]) auto
  next
    case False
    then have "k = 0" using 0(2) by simp
    then show ?thesis using 0(3) False by (intro exI [of _ 1]) (simp add: Run_step_def)
  qed
next
  case (Suc d)
  show ?case
  proof (cases "1 < length (th_socks th)")
    case False
    then have "k = 0" using Suc.prems(2) by simp
    then show ?thesis using Suc.prems(3) False by (intro exI [of _ 1]) (simp add: Run_step_def)
  next
    case True
    from one_turn [OF s Suc.prems(1,2) True Suc.prems(3,4), of w] obtain q th1 w1 i th2 w2 where
      t: "Run_step hmac md5 os (AtLoop, th, w) = (AtReceive q, th1, w1)" "i \<le> 3" "(Run_step hmac md5 os ^^ i) (AtReceive q, th1, w1) = (AtLoop, th2, w2)"
        "thread_ok arr tsa auth th2" "th_socks th2 = th_socks th" "\<not> th_fNeedToExit th2" "th_rotation th2 = (th_rotation th + 1) mod length (th_socks th)"
      by blast
    have d: "(th_rotation th2 + Suc d) mod length (th_socks th2) = k"
    proof -
      have "(th_rotation th2 + Suc d) mod length (th_socks th2) = (th_rotation th + 1 + Suc d) mod length (th_socks th)"
        unfolding t(5,7) by (rule mod_add_left_eq)
      then show ?thesis using Suc.prems(5) by simp
    qed
    obtain j where j: "j \<le> 4 * d + 1" "fst ((Run_step hmac md5 os ^^ j) (AtLoop, th2, w2)) = AtReceive (th_socks th ! k)"
      using Suc.IH [OF t(4) _ t(6) _ d, of w2] Suc.prems(2,4) t(5) by auto
    have "(Run_step hmac md5 os ^^ (j + (i + 1))) (AtLoop, th, w) = (Run_step hmac md5 os ^^ j) (AtLoop, th2, w2)"
      using t(1,3) by (simp add: funpow_add funpow_swap1)
    then show ?thesis using j t(2) by (intro exI [of _ "j + (i + 1)"]) simp
  qed
qed

end
