(* ===== verification/ServerSetup.thy ===== *)
theory ServerSetup
  imports StunServer ThreadCorrect
begin

text \<open>
  The UDP server's initialization: which sockets and threads it leaves, and that it never leaks a
  descriptor. \<open>opens\<close> is the set of open descriptors in a state of the system.
\<close>

section \<open>Descriptors\<close>

text \<open>What the manual pages promise about the table of open descriptors.\<close>

definition fds_ok :: "('w, 'x) os_scheme \<Rightarrow> ('w \<Rightarrow> int set) \<Rightarrow> bool" where
  "fds_ok os opens \<longleftrightarrow>
     (\<forall>fam ty w s w'. os_socket os fam ty w = (s, w') \<longrightarrow>
        (s = -1 \<and> opens w' = opens w) \<or> (0 \<le> s \<and> s \<notin> opens w \<and> opens w' = insert s (opens w))) \<and>
     (\<forall>fd w. opens (os_close os fd w) = opens w - {fd}) \<and>
     (\<forall>fd level opt v w. opens (snd (os_setsockopt os fd level opt v w)) = opens w) \<and>
     (\<forall>fd a w. opens (snd (os_bind os fd a w)) = opens w) \<and>
     (\<forall>fd data a w. opens (snd (os_sendto os fd data a w)) = opens w) \<and>
     (\<forall>w. opens (os_pthread_join os w) = opens w)"

lemma fds_okD:
  assumes "fds_ok os opens"
  shows "opens (os_close os fd w) = opens w - {fd}" "opens (snd (os_setsockopt os fd level opt v w)) = opens w"
    "opens (snd (os_bind os fd a w)) = opens w" "opens (snd (os_sendto os fd data a w)) = opens w"
    "opens (os_pthread_join os w) = opens w"
proof -
  note r = assms [unfolded fds_ok_def, THEN conjunct2]
  show "opens (os_close os fd w) = opens w - {fd}" using r [THEN conjunct1] by (elim allE)
  show "opens (snd (os_setsockopt os fd level opt v w)) = opens w" using r [THEN conjunct2, THEN conjunct1] by (elim allE)
  show "opens (snd (os_bind os fd a w)) = opens w" using r [THEN conjunct2, THEN conjunct2, THEN conjunct1] by (elim allE)
  show "opens (snd (os_sendto os fd data a w)) = opens w"
    using r [THEN conjunct2, THEN conjunct2, THEN conjunct2, THEN conjunct1] by (elim allE)
  show "opens (os_pthread_join os w) = opens w"
    using r [THEN conjunct2, THEN conjunct2, THEN conjunct2, THEN conjunct2] by (elim allE)
qed

lemma fds_ok_socket:
  assumes "fds_ok os opens" "os_socket os fam ty w = (s, w')"
  shows "(s = -1 \<and> opens w' = opens w) \<or> (0 \<le> s \<and> s \<notin> opens w \<and> opens w' = insert s (opens w))"
  using assms(1) [unfolded fds_ok_def, THEN conjunct1, rule_format, OF assms(2)] .

definition owned :: "stun_socket list \<Rightarrow> int set" where
  "owned sks = sk_sock ` {sk \<in> set sks. CStunSocket_IsValid sk}"

lemma owned_Cons: "owned (sk # sks) = (if CStunSocket_IsValid sk then insert (sk_sock sk) (owned sks) else owned sks)"
  by (auto simp: owned_def)

lemma Reset_invalid [simp]: "\<not> CStunSocket_IsValid (CStunSocket_Reset sk)"
  by (simp add: CStunSocket_IsValid_def CStunSocket_Reset_def)

lemma Close_ok:
  assumes "fds_ok os opens" "CStunSocket_Close os sk w = (sk', w')"
  shows "sk' = CStunSocket_Reset sk" "opens w' = opens w - owned [sk]"
  using assms(2) fds_okD(1) [OF assms(1)]
  by (auto simp: CStunSocket_Close_def CStunSocket_Reset_def owned_def CStunSocket_IsValid_def split: if_splits)

lemma setsockopt_w: "fds_ok os opens \<Longrightarrow> os_setsockopt os fd level opt v w = (r, w') \<Longrightarrow> opens w' = opens w"
  by (metis fds_okD(2) snd_conv)

lemma SetV6Only_w: "fds_ok os opens \<Longrightarrow> opens (snd (SetV6Only os s w)) = opens w"
  by (simp add: SetV6Only_def split_beta fds_okD(2))

lemma EnablePktInfo_w: "fds_ok os opens \<Longrightarrow> opens (snd (EnablePktInfoOption os f sk w)) = opens w"
proof -
  assume os: "fds_ok os opens"
  have "opens (snd (EnablePktInfoImpl os level o1 o2 f sk w)) = opens w" for level o1 o2
    by (simp add: EnablePktInfoImpl_def Let_def split_beta fds_okD(2) [OF os])
  then show ?thesis by (simp add: EnablePktInfoOption_def EnablePktInfo_IPV4_def EnablePktInfo_IPV6_def)
qed

lemma UpdateAddresses_fields [simp]:
  "sk_sock (CStunSocket_UpdateAddresses os sk w) = sk_sock sk" "sk_role (CStunSocket_UpdateAddresses os sk w) = sk_role sk"
  by (simp_all add: CStunSocket_UpdateAddresses_def Let_def split: option.split)

text \<open>Opening a socket in an unused object: all or nothing.\<close>

lemma InitCommon_ok:
  assumes os: "fds_ok os opens" and nv: "\<not> CStunSocket_IsValid sk"
    and i: "InitCommon os ty a role reuse sk w = (hr, sk', w')"
  shows "(hr = S_OK \<and> CStunSocket_IsValid sk' \<and> sk_role sk' = role \<and> sk_sock sk' \<notin> opens w \<and> opens w' = insert (sk_sock sk') (opens w)) \<or>
    (FAILED hr \<and> sk' = sk \<and> opens w' = opens w)"
proof -
  obtain s w1 where s: "os_socket os (CSocketAddress_GetFamily a) ty w = (s, w1)" by fastforce
  note so = fds_ok_socket [OF os s]
  show ?thesis
  proof (cases "s < 0")
    case True
    then have "s = -1" "opens w1 = opens w" using so by simp_all
    moreover have "InitCommon os ty a role reuse sk w = InitCommon_failed os s sk w1" using True by (simp add: InitCommon_def s)
    ultimately show ?thesis using i by (auto simp: InitCommon_failed_def)
  next
    case False
    then have o1: "0 \<le> s" "s \<notin> opens w" "opens w1 = insert s (opens w)" using so by simp_all
    let ?w2 = "if CSocketAddress_GetFamily a = AF_INET6 then snd (SetV6Only os s w1) else w1"
    obtain r2 w3 where o: "(if reuse then os_setsockopt os s SOL_SOCKET SO_REUSEADDR 1 ?w2 else (0, ?w2)) = (r2, w3)" by fastforce
    obtain r3 w4 where b: "os_bind os s a w3 = (r3, w4)" by fastforce
    have w2: "opens ?w2 = opens w1" by (simp add: SetV6Only_w [OF os])
    have w3: "opens w3 = insert s (opens w)" using o w2 o1 setsockopt_w [OF os] by (auto split: if_splits)
    have w4: "opens w4 = insert s (opens w)" using w3 fds_okD(3) [OF os, of s a w3] b by simp
    have fail: "opens (os_close os s x) = opens w" if "opens x = insert s (opens w)" for x
      using that o1 by (simp add: fds_okD(1) [OF os])
    have att: "CStunSocket_Attach os s sk w4 = (S_OK, CStunSocket_UpdateAddresses os ((CStunSocket_Reset sk)\<lparr>sk_sock := s\<rparr>) w4, w4)"
      using nv o1(1) by (simp add: CStunSocket_Attach_def CStunSocket_Close_def CStunSocket_IsValid_def)
    have I: "InitCommon os ty a role reuse sk w =
      (if reuse \<and> r2 = -1 then InitCommon_failed os s sk w3 else if r3 = -1 then InitCommon_failed os s sk w4
       else (S_OK, CStunSocket_SetRole role (CStunSocket_UpdateAddresses os ((CStunSocket_Reset sk)\<lparr>sk_sock := s\<rparr>) w4), w4))"
      unfolding InitCommon_def s Let_def prod.case using False o b att by simp
    show ?thesis using i o1 w3 w4 fail
      by (auto simp: I InitCommon_failed_def CStunSocket_SetRole_def CStunSocket_IsValid_def split: if_splits)
  qed
qed

section \<open>Stopping\<close>

lemma fold_opens: "(\<And>x w. opens (f x w) = opens w) \<Longrightarrow> opens (fold f xs w) = opens w"
  by (induction xs arbitrary: w) simp_all

lemma each_thread_opens:
  assumes "\<And>th w. opens (snd (snd (f th w))) = opens w"
  shows "opens (snd (each_thread f ths w)) = opens w"
proof (induction ths arbitrary: w)
  case (Cons th ths)
  obtain hr th' w' where f: "f th w = (hr, th', w')" by (metis prod_cases3)
  then have "opens w' = opens w" using assms [of th w] by simp
  then show ?case using Cons [of w'] f by (simp add: split_beta)
qed simp

lemma thread_stop_opens:
  assumes "fds_ok os opens"
  shows "opens (snd (snd (thread_SignalForStop os b th w))) = opens w" "opens (snd (snd (thread_WaitForStopAndClose os th w))) = opens w"
    "opens (snd (snd (thread_delete os th w))) = opens w"
proof -
  show s: "opens (snd (snd (thread_SignalForStop os b th w))) = opens w" for b th w
    using fds_okD(4) [OF assms] by (simp add: thread_SignalForStop_def Let_def fold_opens)
  show t: "opens (snd (snd (thread_WaitForStopAndClose os th w))) = opens w" for th w
    using fds_okD(5) [OF assms] by (simp add: thread_WaitForStopAndClose_def Let_def)
  show "opens (snd (snd (thread_delete os th w))) = opens w" using s [of True th w] t by (simp add: thread_delete_def split_beta)
qed

lemma close_sockets_ok:
  assumes "fds_ok os opens" "close_sockets os sks w = (sks', w')"
  shows "sks' = map CStunSocket_Reset sks \<and> opens w' = opens w - owned sks"
  using assms(2)
proof (induction sks arbitrary: w sks' w')
  case (Cons sk sks)
  obtain sk1 w1 where c: "CStunSocket_Close os sk w = (sk1, w1)" by fastforce
  obtain sks2 w2 where r: "close_sockets os sks w1 = (sks2, w2)" by fastforce
  note co = Close_ok [OF assms(1) c] and ih = Cons.IH [OF r]
  show ?case using Cons.prems c r co ih by (auto simp: owned_def)
qed (simp add: owned_def)

lemma Stop_ok:
  assumes os: "fds_ok os opens" and s: "server_Stop os sv w = (hr, sv', w')"
  shows "opens w' = opens w \<and> sv_arrSockets sv' = sv_arrSockets sv \<and> length (sv_threads sv') = length (sv_threads sv)"
proof -
  have len: "length (fst (each_thread f ths w)) = length ths" for f ths and w :: 'a
    by (induction ths arbitrary: w) (simp_all add: split_beta)
  note e = each_thread_opens [of opens "thread_SignalForStop os False", OF thread_stop_opens(1) [OF os]]
    each_thread_opens [of opens "thread_SignalForStop os True", OF thread_stop_opens(1) [OF os]]
    each_thread_opens [of opens "thread_WaitForStopAndClose os", OF thread_stop_opens(2) [OF os]]
  show ?thesis using s e len by (auto simp: server_Stop_def split_beta)
qed

lemma Shutdown_ok:
  assumes os: "fds_ok os opens" and s: "server_Shutdown os sv w = (hr, sv', w')"
  shows "hr = S_OK" "sv' = \<lparr>sv_arrSockets = map CStunSocket_Reset (sv_arrSockets sv), sv_threads = [], sv_spAuth = None\<rparr>"
    "opens w' = opens w - owned (sv_arrSockets sv)"
proof -
  obtain h1 s1 w1 where st: "server_Stop os sv w = (h1, s1, w1)" by (metis prod_cases3)
  obtain sks w2 where c: "close_sockets os (sv_arrSockets s1) w1 = (sks, w2)" by fastforce
  obtain ths w3 where d: "each_thread (thread_delete os) (sv_threads s1) w2 = (ths, w3)" by fastforce
  have "opens w3 = opens w2" using each_thread_opens [of opens "thread_delete os", OF thread_stop_opens(3) [OF os]] d by (metis snd_conv)
  then show "hr = S_OK" "sv' = \<lparr>sv_arrSockets = map CStunSocket_Reset (sv_arrSockets sv), sv_threads = [], sv_spAuth = None\<rparr>"
    "opens w' = opens w - owned (sv_arrSockets sv)"
    using s st c d Stop_ok [OF os st] close_sockets_ok [OF os c] by (auto simp: server_Shutdown_def)
qed

section \<open>Adding sockets\<close>

text \<open>The server's descriptors while it initializes; \<open>K\<close> are those of others.\<close>

definition holds_fds :: "('w \<Rightarrow> int set) \<Rightarrow> int set \<Rightarrow> stun_server \<Rightarrow> 'w \<Rightarrow> bool" where
  "holds_fds opens K sv w \<longleftrightarrow> length (sv_arrSockets sv) = 4 \<and> opens w = K \<union> owned (sv_arrSockets sv) \<and> K \<inter> owned (sv_arrSockets sv) = {}"

lemma owned_update:
  assumes "i < length sks" "\<not> CStunSocket_IsValid (sks ! i)"
  shows "owned (sks[i := sk]) = (if CStunSocket_IsValid sk then insert (sk_sock sk) (owned sks) else owned sks)"
proof -
  have "owned xs = {sk_sock (xs ! j) |j. j < length xs \<and> CStunSocket_IsValid (xs ! j)}" for xs
    by (auto simp: owned_def in_set_conv_nth)
  then show ?thesis using assms by (auto simp: nth_list_update) metis+
qed

lemma advertised_wf: "wf_addr l \<Longrightarrow> wf_addr a \<Longrightarrow> wf_addr (advertised l a)"
  by (simp add: advertised_def)

lemma wf_set_update: "wf_set tsa \<Longrightarrow> wf_addr a \<Longrightarrow> wf_set (tsa[i := \<lparr>ta_addr = a, ta_fValid = f\<rparr>])"
  by (auto simp: wf_set_def dest!: set_update_subset_insert [THEN subsetD])

lemma AddSocket_ok:
  assumes os: "fds_ok os opens" and h: "holds_fds opens K sv w" and role: "IsValidSocketRole role"
    and nv: "\<not> CStunSocket_IsValid (sv_arrSockets sv ! unat role)"
    and a: "AddSocket os role l adv tsa sv w = (hr, tsa', sv', w')"
  shows "holds_fds opens K sv' w'" "sv_threads sv' = sv_threads sv"
    "j \<noteq> unat role \<Longrightarrow> sv_arrSockets sv' ! j = sv_arrSockets sv ! j"
    "SUCCEEDED hr \<Longrightarrow> sockets_ok (sv_arrSockets sv) tsa \<Longrightarrow> wf_addr l \<Longrightarrow> wf_addr adv \<Longrightarrow>
       sockets_ok (sv_arrSockets sv') tsa' \<and>
       (\<forall>i < 4. CStunSocket_IsValid (sv_arrSockets sv' ! i) \<longleftrightarrow> CStunSocket_IsValid (sv_arrSockets sv ! i) \<or> i = unat role)"
proof -
  let ?i = "unat role" and ?arr = "sv_arrSockets sv"
  have i4: "?i < 4" using role_lt [OF role] .
  obtain h1 sk w1 where u: "UDPInit os l role (?arr ! ?i) w = (h1, sk, w1)" by (metis prod_cases3)
  obtain h2 w2 where e: "EnablePktInfoOption os True sk w1 = (h2, w2)" by fastforce
  have w2: "opens w2 = opens w1" using EnablePktInfo_w [OF os, of True sk w1] e by simp
  have io: "(h1 = S_OK \<and> CStunSocket_IsValid sk \<and> sk_role sk = role \<and> sk_sock sk \<notin> opens w \<and> opens w1 = insert (sk_sock sk) (opens w)) \<or>
      (FAILED h1 \<and> sk = ?arr ! ?i \<and> opens w1 = opens w)"
    by (rule InitCommon_ok [OF os nv u [unfolded UDPInit_def]])
  have A: "(hr, tsa', sv', w') = (if FAILED h1 then (h1, tsa, sv\<lparr>sv_arrSockets := ?arr[?i := sk]\<rparr>, w1)
      else if FAILED h2 then (h2, tsa, sv\<lparr>sv_arrSockets := ?arr[?i := sk]\<rparr>, w2)
      else (h2, tsa[?i := \<lparr>ta_addr = advertised l adv, ta_fValid = True\<rparr>], sv\<lparr>sv_arrSockets := ?arr[?i := sk]\<rparr>, w2))"
    using a by (auto simp: AddSocket_def u e Let_def)
  have arr: "sv_arrSockets sv' = ?arr[?i := sk]" "sv_threads sv' = sv_threads sv" using A by (auto split: if_splits)
  show "sv_threads sv' = sv_threads sv" by (rule arr(2))
  show "sv_arrSockets sv' ! j = ?arr ! j" if "j \<noteq> ?i" using that by (simp add: arr(1))
  have len: "length ?arr = 4" using h by (simp add: holds_fds_def)
  note ow = owned_update [of ?i ?arr sk, OF _ nv, unfolded len, OF i4]
  have "opens w' = opens w1" using A w2 by (auto split: if_splits)
  then show "holds_fds opens K sv' w'" using h io ow arr(1) nv by (auto simp: holds_fds_def)
  assume ok: "SUCCEEDED hr" and so: "sockets_ok ?arr tsa" and wf: "wf_addr l" "wf_addr adv"
  then have t: "tsa' = tsa[?i := \<lparr>ta_addr = advertised l adv, ta_fValid = True\<rparr>]" and v: "CStunSocket_IsValid sk" "sk_role sk = role"
    using A io by (auto split: if_splits)
  have lt: "length tsa = 4" using so by (simp add: sockets_ok_def wf_set_def)
  show "sockets_ok (sv_arrSockets sv') tsa' \<and>
       (\<forall>i < 4. CStunSocket_IsValid (sv_arrSockets sv' ! i) \<longleftrightarrow> CStunSocket_IsValid (?arr ! i) \<or> i = ?i)"
    using so i4 v lt len wf_set_update [OF _ advertised_wf [OF wf], of tsa ?i True]
    by (auto simp: arr t sockets_ok_def nth_list_update)
qed

lemma add_sockets_ok:
  assumes os: "fds_ok os opens"
  shows "holds_fds opens K sv w \<Longrightarrow> distinct (map (fst \<circ> snd) cs) \<Longrightarrow>
    (\<And>f role l a. (f, role, l, a) \<in> set cs \<Longrightarrow> IsValidSocketRole role \<and> \<not> CStunSocket_IsValid (sv_arrSockets sv ! unat role)) \<Longrightarrow>
    add_sockets os cs n tsa sv w = (hr, n', tsa', sv', w') \<Longrightarrow>
    holds_fds opens K sv' w' \<and> sv_threads sv' = sv_threads sv \<and>
    (SUCCEEDED hr \<longrightarrow> sockets_ok (sv_arrSockets sv) tsa \<longrightarrow> (\<forall>(f, role, l, a) \<in> set cs. wf_addr l \<and> wf_addr a) \<longrightarrow>
       sockets_ok (sv_arrSockets sv') tsa' \<and> n' = n + int (length (filter (\<lambda>(f, role, l, a). f) cs)) \<and>
       (\<forall>i < 4. CStunSocket_IsValid (sv_arrSockets sv' ! i) \<longleftrightarrow>
          CStunSocket_IsValid (sv_arrSockets sv ! i) \<or> (\<exists>role l a. (True, role, l, a) \<in> set cs \<and> i = unat role)))"
proof (induction cs arbitrary: n tsa sv w)
  case (Cons c cs)
  obtain f role l adv where c: "c = (f, role, l, adv)" by (metis prod_cases4)
  have role: "IsValidSocketRole role" "\<not> CStunSocket_IsValid (sv_arrSockets sv ! unat role)" using Cons.prems(3) c by auto
  show ?case
  proof (cases f)
    case False
    have rest: "add_sockets os cs n tsa sv w = (hr, n', tsa', sv', w')" using Cons.prems(4) c False by simp
    show ?thesis using Cons.IH [OF Cons.prems(1) _ _ rest] Cons.prems(2,3) c False by auto
  next
    case True
    obtain h1 t1 s1 w1 where a: "AddSocket os role l adv tsa sv w = (h1, t1, s1, w1)" by (metis prod_cases4)
    note ao = AddSocket_ok [OF os Cons.prems(1) role a]
    show ?thesis
    proof (cases "FAILED h1")
      case f: True
      then show ?thesis using Cons.prems(4) c True a ao(1,2) by auto
    next
      case nf: False
      have rest: "add_sockets os cs (n + 1) t1 s1 w1 = (hr, n', tsa', sv', w')" using Cons.prems(4) c True a nf by simp
      have nv: "\<not> CStunSocket_IsValid (sv_arrSockets s1 ! unat r')" if "(f', r', l', a') \<in> set cs" for f' r' l' a'
      proof -
        have "r' \<noteq> role" using that Cons.prems(2) c by force
        then have "unat r' \<noteq> unat role" by (simp add: unat_arith_simps)
        then show ?thesis using ao(3) [of "unat r'"] Cons.prems(3) [of f' r' l' a'] that c by simp
      qed
      have vr: "IsValidSocketRole r'" if "(f', r', l', a') \<in> set cs" for f' r' l' a'
        using that Cons.prems(3) [of f' r' l' a'] by simp
      have d: "distinct (map (fst \<circ> snd) cs)" using Cons.prems(2) by (simp add: comp_def)
      note ih = Cons.IH [OF ao(1) d _ rest]
      show ?thesis
      proof (intro conjI impI)
        have "holds_fds opens K sv' w' \<and> sv_threads sv' = sv_threads s1" using ih nv vr by blast
        then show "holds_fds opens K sv' w'" "sv_threads sv' = sv_threads sv" using ao(2) by simp_all
        assume ok: "SUCCEEDED hr" and so: "sockets_ok (sv_arrSockets sv) tsa" and wf: "\<forall>(f, role, l, a) \<in> set (c # cs). wf_addr l \<and> wf_addr a"
        have w: "wf_addr l" "wf_addr adv" "\<forall>(f, role, l, a) \<in> set cs. wf_addr l \<and> wf_addr a" using wf c by auto
        have s1: "sockets_ok (sv_arrSockets s1) t1" "\<forall>i < 4. CStunSocket_IsValid (sv_arrSockets s1 ! i) \<longleftrightarrow> CStunSocket_IsValid (sv_arrSockets sv ! i) \<or> i = unat role"
          using ao(4) nf so w by auto
        have ih2: "sockets_ok (sv_arrSockets sv') tsa' \<and> n' = n + 1 + int (length (filter (\<lambda>(f, role, l, a). f) cs)) \<and>
         (\<forall>i < 4. CStunSocket_IsValid (sv_arrSockets sv' ! i) \<longleftrightarrow>
          CStunSocket_IsValid (sv_arrSockets s1 ! i) \<or> (\<exists>role l a. (True, role, l, a) \<in> set cs \<and> i = unat role))"
          using ih nv vr ok s1(1) w(3) by blast
        then show "sockets_ok (sv_arrSockets sv') tsa'" "n' = n + int (length (filter (\<lambda>(f, role, l, a). f) (c # cs)))" using c True by simp_all
        have ex: "(\<exists>r' l' a'. (True, r', l', a') \<in> set (c # cs) \<and> i = unat r') \<longleftrightarrow>
          i = unat role \<or> (\<exists>r' l' a'. (True, r', l', a') \<in> set cs \<and> i = unat r')" for i
          using c True unfolding list.set insert_iff by blast
        show "\<forall>i < 4. CStunSocket_IsValid (sv_arrSockets sv' ! i) \<longleftrightarrow>
          CStunSocket_IsValid (sv_arrSockets sv ! i) \<or> (\<exists>role l a. (True, role, l, a) \<in> set (c # cs) \<and> i = unat role)"
          unfolding ex using ih2 s1(2) by blast
      qed
    qed
  qed
qed auto

section \<open>Creating the threads\<close>

lemma new_thread: "th_fThreadIsValid CStunSocketThread_new = False" "th_socks CStunSocketThread_new = []"
  "table_ok (th_reader CStunSocketThread_new)" "wf_addr (in_addrLocal (th_msgIn CStunSocketThread_new))"
  "wf_addr (in_addrRemote (th_msgIn CStunSocketThread_new))"
  by (simp_all add: CStunSocketThread_new_def new_table)

definition open_positions :: "stun_socket list \<Rightarrow> nat list" where
  "open_positions arr = filter (\<lambda>i. CStunSocket_IsValid (arr ! i)) [0 ..< 4]"

definition fresh_thread :: "stun_socket list \<Rightarrow> TransportAddressSet \<Rightarrow> nat list \<Rightarrow> socket_thread \<Rightarrow> bool" where
  "fresh_thread arr tsa socks th \<longleftrightarrow> thread_ok arr tsa None th \<and> \<not> th_fNeedToExit th \<and> th_socks th = socks"

lemma single_thread:
  assumes s: "sockets_ok arr tsa" and ne: "open_positions arr \<noteq> []"
    and i: "thread_Init (Some arr) (Some tsa) None (-1) CStunSocketThread_new = (hr, th)"
  shows "hr = S_OK \<and> fresh_thread arr tsa (open_positions arr) th"
proof -
  have nr: "\<not> IsValidSocketRole (-1)" by (simp add: IsValidSocketRole_def word_le_nat_alt unsigned_minus_1_eq_mask mask_eq_exp_minus_1)
  have "\<exists>i < 4. CStunSocket_IsValid (arr ! i)" using ne by (auto simp: open_positions_def filter_empty_conv)
  then show ?thesis using Init_thread_ok [OF s new_thread _ i] nr by (simp add: fresh_thread_def open_positions_def)
qed

lemma role_thread:
  assumes s: "sockets_ok arr tsa" and p: "p < 4" "CStunSocket_IsValid (arr ! p)"
    and i: "thread_Init (Some arr) (Some tsa) None (CStunSocket_GetRole (arr ! p)) CStunSocketThread_new = (hr, th)"
  shows "hr = S_OK \<and> fresh_thread arr tsa [p] th"
proof -
  have r: "unat (sk_role (arr ! p)) = p" using s p by (simp add: sockets_ok_def)
  then have "IsValidSocketRole (CStunSocket_GetRole (arr ! p))" using p role_of_nat by (simp add: CStunSocket_GetRole_def)
  then show ?thesis using Init_thread_ok [OF s new_thread _ i] r p by (simp add: fresh_thread_def CStunSocket_GetRole_def)
qed

lemma init_threads_ok:
  assumes s: "sockets_ok (sv_arrSockets sv) tsa"
  shows "set is \<subseteq> {0 ..< 4} \<Longrightarrow> init_threads tsa None is sv' = (hr, sv1) \<Longrightarrow> sv_arrSockets sv' = sv_arrSockets sv \<Longrightarrow>
    hr = S_OK \<and> sv_arrSockets sv1 = sv_arrSockets sv \<and>
    (\<exists>ths. sv_threads sv1 = sv_threads sv' @ ths \<and>
       list_all2 (\<lambda>p. fresh_thread (sv_arrSockets sv) tsa [p]) (filter (\<lambda>i. CStunSocket_IsValid (sv_arrSockets sv ! i)) is) ths)"
proof (induction "is" arbitrary: sv')
  case (Cons p "is")
  show ?case
  proof (cases "CStunSocket_IsValid (sv_arrSockets sv ! p)")
    case True
    obtain h th where i: "thread_Init (Some (sv_arrSockets sv)) (Some tsa) None (CStunSocket_GetRole (sv_arrSockets sv ! p)) CStunSocketThread_new = (h, th)"
      by fastforce
    have r: "h = S_OK" "fresh_thread (sv_arrSockets sv) tsa [p] th" using role_thread [OF s _ True i] Cons.prems(1) by simp_all
    have "init_threads tsa None is (sv'\<lparr>sv_threads := sv_threads sv' @ [th]\<rparr>) = (hr, sv1)"
      using Cons.prems(2,3) True i r(1) by (simp add: Let_def)
    from Cons.IH [OF _ this] Cons.prems(1,3) r(2) True show ?thesis by auto
  next
    case False
    then show ?thesis using Cons.IH [of sv'] Cons.prems by (simp add: Let_def)
  qed
qed simp

section \<open>The initialized server\<close>

definition config_ok :: "server_config \<Rightarrow> bool" where
  "config_ok c \<longleftrightarrow> (\<forall>x \<in> {cfg_addrPP c, cfg_addrPA c, cfg_addrAP c, cfg_addrAA c, cfg_addrPrimaryAdvertised c, cfg_addrAlternateAdvertised c}. wf_addr x)"

definition config_positions :: "server_config \<Rightarrow> nat list" where
  "config_positions c = map fst (filter snd [(0, cfg_fHasPP c), (1, cfg_fHasPA c), (2, cfg_fHasAP c), (3, cfg_fHasAA c)])"

text \<open>What a successful call leaves, given the addresses the threads were handed.\<close>

definition initialized :: "server_config \<Rightarrow> TransportAddressSet \<Rightarrow> stun_server \<Rightarrow> bool" where
  "initialized c tsa sv \<longleftrightarrow>
     sockets_ok (sv_arrSockets sv) tsa \<and> open_positions (sv_arrSockets sv) = config_positions c \<and> config_positions c \<noteq> [] \<and>
     list_all2 (fresh_thread (sv_arrSockets sv) tsa)
       (if cfg_fMultiThreadedMode c then map (\<lambda>p. [p]) (config_positions c) else [config_positions c]) (sv_threads sv)"

lemma config_positions_open:
  assumes "\<forall>i < 4. CStunSocket_IsValid (arr ! i) \<longleftrightarrow> (\<exists>role l a. (True, role, l, a) \<in> set (config_sockets c) \<and> i = unat role)"
  shows "open_positions arr = config_positions c"
proof -
  have p: "[0 ..< 4] = [0, 1, 2, 3 :: nat]" by (simp add: upt_rec)
  have v: "CStunSocket_IsValid (arr ! i) \<longleftrightarrow> (\<exists>role l a. (True, role, l, a) \<in> set (config_sockets c) \<and> i = unat role)" if "i < 4" for i
    using assms that by blast
  have "CStunSocket_IsValid (arr ! 0) = cfg_fHasPP c" "CStunSocket_IsValid (arr ! 1) = cfg_fHasPA c"
    "CStunSocket_IsValid (arr ! 2) = cfg_fHasAP c" "CStunSocket_IsValid (arr ! 3) = cfg_fHasAA c"
    using v [of 0] v [of 1] v [of 2] v [of 3] by (simp_all add: config_sockets_def role_simps ex_disj_distrib conj_disj_distribR)
  then show ?thesis unfolding open_positions_def config_positions_def p by simp
qed

lemma zero_set: "wf_set TransportAddressSet_zero" "i < 4 \<Longrightarrow> \<not> ta_fValid (TransportAddressSet_zero ! i)"
  by (simp_all add: wf_set_def TransportAddressSet_zero_def)

lemma server_Initialize_ok:
  assumes os: "fds_ok os opens" and c: "config_ok config" and len: "length (sv_arrSockets sv) = 4"
    and i: "server_Initialize os config sv w = (hr, sv', w')"
  shows "SUCCEEDED hr \<Longrightarrow> \<exists>tsa. initialized config tsa sv'"
    "FAILED hr \<Longrightarrow> sv_threads sv' = [] \<and> owned (sv_arrSockets sv') = {}"
    "opens w' = (opens w - owned (sv_arrSockets sv)) \<union> owned (sv_arrSockets sv')"
    "(opens w - owned (sv_arrSockets sv)) \<inter> owned (sv_arrSockets sv') = {}" "length (sv_arrSockets sv') = 4"
proof -
  let ?K = "opens w - owned (sv_arrSockets sv)"
  obtain h0 s0 w0 where sd: "server_Shutdown os sv w = (h0, s0, w0)" by (metis prod_cases3)
  note so = Shutdown_ok [OF os sd]
  have arr0: "sv_arrSockets s0 = map CStunSocket_Reset (sv_arrSockets sv)" "sv_threads s0 = []" using so(2) by simp_all
  have inv0: "\<not> CStunSocket_IsValid (sv_arrSockets s0 ! j)" if "j < 4" for j using that len by (simp add: arr0)
  have own0: "owned (sv_arrSockets s0) = {}" by (auto simp: owned_def arr0)
  have h: "holds_fds opens ?K s0 w0" using so(3) len own0 by (simp add: holds_fds_def arr0)
  obtain h1 n tsa s1 w1 where ad: "add_sockets os (config_sockets config) 0 TransportAddressSet_zero s0 w0 = (h1, n, tsa, s1, w1)"
    by (metis prod_cases5)
  have dis: "distinct (map (fst \<circ> snd) (config_sockets config))" by (simp add: config_sockets_def role_simps)
  have roles: "IsValidSocketRole role \<and> \<not> CStunSocket_IsValid (sv_arrSockets s0 ! unat role)"
    if "(f, role, l, a) \<in> set (config_sockets config)" for f role l a
  proof -
    have "IsValidSocketRole role" using that by (auto simp: config_sockets_def)
    then show ?thesis using inv0 role_lt by blast
  qed
  note as = add_sockets_ok [OF os h dis roles ad]
  have hf: "holds_fds opens ?K s1 w1" and th1: "sv_threads s1 = []" using as arr0(2) by simp_all
  define st where "st = (if FAILED h1 then (h1, s1) else if n = 0 then (E_INVALIDARG, s1)
     else if cfg_fMultiThreadedMode config = False
     then (let (hr, th) = thread_Init (Some (sv_arrSockets s1)) (Some tsa) None (-1) CStunSocketThread_new
           in (hr, s1\<lparr>sv_threads := sv_threads s1 @ [th]\<rparr>))
     else init_threads tsa None [0 ..< 4] s1)"
  obtain h2 s2 where st: "st = (h2, s2)" by fastforce
  have I: "server_Initialize os config sv w =
      (if FAILED h2 then (let (hr', sv, w) = server_Shutdown os s2 w1 in (h2, sv, w)) else (h2, s2, w1))"
    unfolding server_Initialize_def Let_def sd prod.case ad st_def [unfolded Let_def, symmetric] st ..
  have stage: "sv_arrSockets s2 = sv_arrSockets s1 \<and> (SUCCEEDED h2 \<longrightarrow> initialized config tsa s2)"
  proof (cases "FAILED h1 \<or> n = 0")
    case True
    then have "(h2, s2) = (if FAILED h1 then h1 else E_INVALIDARG, s1)" using st by (simp add: st_def split: if_splits)
    then show ?thesis using True by (auto split: if_splits)
  next
    case False
    have "sockets_ok (sv_arrSockets s0) TransportAddressSet_zero"
      using zero_set inv0 len by (simp add: sockets_ok_def arr0)
    moreover have "\<forall>(f, role, l, a) \<in> set (config_sockets config). wf_addr l \<and> wf_addr a"
      using c by (auto simp: config_sockets_def config_ok_def)
    ultimately have s1: "sockets_ok (sv_arrSockets s1) tsa" and n: "n = int (length (filter (\<lambda>(f, role, l, a). f) (config_sockets config)))"
      and v: "\<forall>i < 4. CStunSocket_IsValid (sv_arrSockets s1 ! i) \<longleftrightarrow> (\<exists>role l a. (True, role, l, a) \<in> set (config_sockets config) \<and> i = unat role)"
      using as False inv0 by auto
    have op: "open_positions (sv_arrSockets s1) = config_positions config" by (rule config_positions_open [OF v])
    have ne: "config_positions config \<noteq> []" using n False by (auto simp: config_sockets_def config_positions_def split: if_splits)
    show ?thesis
    proof (cases "cfg_fMultiThreadedMode config")
      case True
      have "init_threads tsa None [0 ..< 4] s1 = (h2, s2)" using st True False by (simp add: st_def)
      from init_threads_ok [OF s1 _ this] show ?thesis using True s1 op ne th1
        by (auto simp: initialized_def open_positions_def list_all2_map1)
    next
      case single: False
      obtain h3 th where t: "thread_Init (Some (sv_arrSockets s1)) (Some tsa) None (-1) CStunSocketThread_new = (h3, th)" by fastforce
      have "h3 = S_OK \<and> fresh_thread (sv_arrSockets s1) tsa (open_positions (sv_arrSockets s1)) th"
        by (rule single_thread [OF s1 _ t]) (use op ne in simp)
      moreover have "(h2, s2) = (h3, s1\<lparr>sv_threads := [th]\<rparr>)" using st False single t th1 by (simp add: st_def)
      ultimately show ?thesis using single s1 op ne by (simp add: initialized_def)
    qed
  qed
  have all: "(SUCCEEDED hr \<longrightarrow> (\<exists>tsa. initialized config tsa sv')) \<and>
    (FAILED hr \<longrightarrow> sv_threads sv' = [] \<and> owned (sv_arrSockets sv') = {}) \<and>
    opens w' = ?K \<union> owned (sv_arrSockets sv') \<and> ?K \<inter> owned (sv_arrSockets sv') = {} \<and> length (sv_arrSockets sv') = 4"
  proof (cases "FAILED h2")
    case True
    obtain h4 s4 w4 where sh: "server_Shutdown os s2 w1 = (h4, s4, w4)" by (metis prod_cases3)
    note sh_ok = Shutdown_ok [OF os sh]
    have o: "owned (map CStunSocket_Reset xs) = {}" for xs by (auto simp: owned_def)
    have "hr = h2" "sv' = s4" "w' = w4" using i I True sh by simp_all
    then show ?thesis using True sh_ok hf stage o by (auto simp: holds_fds_def)
  next
    case False
    then have "hr = h2" "sv' = s2" "w' = w1" using i I by simp_all
    then show ?thesis using False hf stage by (auto simp: holds_fds_def)
  qed
  then show "SUCCEEDED hr \<Longrightarrow> \<exists>tsa. initialized config tsa sv'"
    "FAILED hr \<Longrightarrow> sv_threads sv' = [] \<and> owned (sv_arrSockets sv') = {}"
    "opens w' = ?K \<union> owned (sv_arrSockets sv')" "?K \<inter> owned (sv_arrSockets sv') = {}" "length (sv_arrSockets sv') = 4"
    by blast+
qed

end
