(* ===== verification/UdpTheorems.thy ===== *)
theory UdpTheorems
  imports ServerSetup ThreadCorrect
begin

text \<open>
  The properties of the UDP server: readers used again, datagrams answered by a thread in any state
  it can reach, fairness among its sockets, and the server's initialization.
\<close>

section \<open>Readers used again\<close>

text \<open>C22: A reader that was reset answers like a new one: whatever a reader was used for before, after
  \<open>Reset\<close>, an attached buffer and the same bytes in any pieces it is in the state of a new reader that
  received them, and if that is a validated message every query of the request handler gives the same answer.\<close>

theorem reset_reader_as_new:
  assumes "used_reader r" "ready_buffer b" "length (concat xss) < size_range"
  shows "Reader_GetState (feed xss (restarted b r)) = Reader_GetState (received True xss) \<and>
    (Reader_GetState (received True xss) = BodyValidated \<longrightarrow>
       (\<forall>t. attr_lookup t (feed xss (restarted b r)) = attr_lookup t (received True xss)) \<and>
       (\<forall>hmac key n. ValidateMessageIntegrity hmac key n (feed xss (restarted b r)) = ValidateMessageIntegrity hmac key n (received True xss)) \<and>
       (\<forall>hmac md5 auth tas m. reply_to hmac md5 auth tas m (feed xss (restarted b r)) = reply_to hmac md5 auth tas m (received True xss)))"
proof -
  have a: "reader_after True (concat xss) (feed xss (restarted b r))"
    using feed_ok [OF restarted_ok(1) [OF used_table [OF assms(1)] assms(2)], of xss] assms(3) by simp
  have b: "reader_after True (concat xss) (received True xss)" by (rule received_after [OF assms(3)])
  note st = reader_after_state [OF a] reader_after_state [OF b]
  have "alike (concat xss) (received True xss) (feed xss (restarted b r))" if "Reader_GetState (received True xss) = BodyValidated"
    using same_text_alike [OF b a] that st by (simp add: Reader_GetState_def)
  note al = alike_fields(2) [OF this] alike_integrity [OF this] alike_reply(1) [OF this, where m = m and m' = m and p = "in_pReader m" for m]
  then show ?thesis using st by (simp add: Reader_GetState_def)
qed

lemma reset_reader_as_new_witness:
  "Reader_GetState (feed [replicate 19 0] (restarted (CBuffer_alloc 800) demo_request)) = HeaderNotRead"
proof -
  have "used_reader (feed xss x)" if "used_reader x" for xss x
    using that by (induction xss arbitrary: x) (auto intro: used_add)
  then have "used_reader demo_request" unfolding demo_request_def received_def by (blast intro: used_new used_legacy)
  moreover have "ready_buffer (CBuffer_alloc 800)" by (simp add: ready_buffer_def)
  moreover have "Reader_GetState (received True [replicate 19 0]) = HeaderNotRead"
    using reader_after_state [OF received_after [of "[replicate 19 0]" True]] by (simp add: Reader_GetState_def spec_state_def size_range_def)
  ultimately show ?thesis using reset_reader_as_new [of demo_request "CBuffer_alloc 800" "[replicate 19 0]"] by (simp add: size_range_def)
qed

section \<open>A system for the examples\<close>

text \<open>Its state: the next descriptor, the closed ones, the datagrams sent. A request waits on every socket.\<close>

type_synonym demo_world = "nat \<times> int set \<times> (int \<times> bytes \<times> simple_sockaddr) list"

definition demo_datagram :: bytes where
  "demo_datagram = message StunMsgTypeBinding StunMsgClassRequest demo_id (integrity_tail demo_as (demo_hmac (ascii ''2MinToMid'') []) None)"

definition demo_recv :: "nat \<Rightarrow> recvmsg_result" where
  "demo_recv n = \<lparr>rm_ret = int (length (take n demo_datagram)), rm_data = take n demo_datagram, rm_name = CSocketAddress_ip4 9 5000,
     rm_control = [OtherCmsg, IpPktInfo [0, 0, 0, 1]]\<rparr>"

definition demo_os :: "demo_world os" where
  "demo_os =
     \<lparr>os_errno = (\<lambda>w. 22), os_socket = (\<lambda>fam ty (n, c, s). (int n, n + 1, c - {int n}, s)),
      os_setsockopt = (\<lambda>fd level opt v w. (0, w)), os_bind = (\<lambda>fd a w. (0, w)), os_close = (\<lambda>fd (n, c, s). (n, insert fd c, s)),
      os_getsockname = (\<lambda>fd w. None), os_getpeername = (\<lambda>fd w. None), os_getfl = (\<lambda>fd w. (0, w)), os_setfl = (\<lambda>fd fl w. (0, w)),
      os_recvmsg = (\<lambda>fd n flags w. (demo_recv n, w)), os_sendto = (\<lambda>fd d a (n, c, s). (int (length d), n, c, s @ [(fd, d, a)])),
      os_select = (\<lambda>fds w. (1, fds, w)), os_pthread_create = (\<lambda>w. (0, w)), os_pthread_join = (\<lambda>w. w)\<rparr>"

definition demo_opens :: "demo_world \<Rightarrow> int set" where
  "demo_opens w = (case w of (n, c, s) \<Rightarrow> {0 ..< int n} - c)"

lemma demo_os_ok: "os_ok demo_os" "fds_ok demo_os demo_opens"
proof -
  show "os_ok demo_os"
    by (simp add: os_ok_def demo_os_def recv_ok_def demo_recv_def cmsg_ok_def)
  show "fds_ok demo_os demo_opens"
    by (auto simp: fds_ok_def demo_os_def demo_opens_def)
qed

definition demo_sockets :: "stun_socket list" where
  "demo_sockets = map (\<lambda>(fd, role). \<lparr>sk_sock = fd, sk_addrlocal = CSocketAddress_default, sk_addrremote = CSocketAddress_default, sk_role = role\<rparr>)
     [(3, RolePP), (4, RolePA), (5, RoleAP), (6, RoleAA)]"

lemma demo_sockets_ok: "sockets_ok demo_sockets demo_set"
proof -
  have "wf_set demo_set" by (simp add: wf_set_def demo_set_def)
  moreover have "(CStunSocket_IsValid (demo_sockets ! i) \<longleftrightarrow> ta_fValid (demo_set ! i)) \<and>
      (CStunSocket_IsValid (demo_sockets ! i) \<longrightarrow> unat (sk_role (demo_sockets ! i)) = i)" if "i < 4" for i
  proof -
    have "i = 0 \<or> i = 1 \<or> i = 2 \<or> i = 3" using that by linarith
    then show ?thesis by (auto simp: demo_sockets_def demo_set_def CStunSocket_IsValid_def role_simps)
  qed
  ultimately show ?thesis by (simp add: sockets_ok_def demo_sockets_def)
qed

lemma demo_serving_thread: "serving_thread demo_hmac demo_md5 demo_os demo_sockets demo_set None"
  using demo_os_ok demo_sockets_ok by (auto simp: serving_thread_def providers_ok_def demo_hmac_def demo_md5_def min_def)

definition demo_thread :: "SocketRole \<Rightarrow> socket_thread" where
  "demo_thread role = snd (thread_Init (Some demo_sockets) (Some demo_set) None role CStunSocketThread_new)"

lemma demo_thread_ok: "thread_ok demo_sockets demo_set None (demo_thread role)" "\<not> th_fNeedToExit (demo_thread role)"
  "th_socks (demo_thread role) = (if IsValidSocketRole role then [unat role] else [0, 1, 2, 3])"
proof -
  have v: "CStunSocket_IsValid (demo_sockets ! i)" if "i < 4" for i
  proof -
    have "i = 0 \<or> i = 1 \<or> i = 2 \<or> i = 3" using that by linarith
    then show ?thesis by (auto simp: demo_sockets_def CStunSocket_IsValid_def)
  qed
  obtain hr th where i: "thread_Init (Some demo_sockets) (Some demo_set) None role CStunSocketThread_new = (hr, th)" by fastforce
  have c: "if IsValidSocketRole role then CStunSocket_IsValid (demo_sockets ! unat role) else \<exists>i < 4. CStunSocket_IsValid (demo_sockets ! i)"
    using v role_lt [of role] v [of 0] by (auto intro: exI [of _ 0])
  note t = Init_thread_ok [OF demo_sockets_ok new_thread c i]
  have u: "filter (\<lambda>i. CStunSocket_IsValid (demo_sockets ! i)) [0 ..< 4] = [0, 1, 2, 3]"
    using v by (simp add: upt_rec)
  show "thread_ok demo_sockets demo_set None (demo_thread role)" "\<not> th_fNeedToExit (demo_thread role)"
    "th_socks (demo_thread role) = (if IsValidSocketRole role then [unat role] else [0, 1, 2, 3])"
    using t i u by (simp_all add: demo_thread_def)
qed

section \<open>The socket thread\<close>

text \<open>C11: Every datagram is answered as if it were the first: in any state the thread can reach, a
  datagram received on a socket leads, in three steps and whatever came before, to exactly the reply decided
  from its bytes, its addresses and the socket's role, sent once through an open socket of the
  reply's role, or to nothing when it is not a valid request.\<close>

theorem datagram_answered:
  assumes "serving_thread hmac md5 os arr tsa auth" "thread_ok arr tsa auth th0"
    "thread_run hmac md5 os th0 (AtReceive p, th, w)" "\<not> th_fNeedToExit th"
    "recvfromex os (sk_sock (arr ! p)) MAX_STUN_MESSAGE_SIZE (if 1 < length (th_socks th) then MSG_DONTWAIT else 0)
        (in_addrRemote (th_msgIn th)) (in_addrLocal (th_msgIn th)) w = (ret, data, src, dst, w1)" "0 \<le> ret"
  shows "\<exists>th' reply. reply = udp_reply hmac md5 auth tsa (udp_input (sk_role (arr ! p)) src dst) data \<and>
    (Run_step hmac md5 os ^^ 3) (AtReceive p, th, w) = (AtLoop, th', sent_to os arr reply w1) \<and>
    (case reply of None \<Rightarrow> True | Some (role, d, dest) \<Rightarrow> open_role arr tsa role)"
proof -
  have ok: "thread_ok arr tsa auth th" "p \<in> set (th_socks th)"
    using run_thread_ok [OF assms(3,1,2)] by (simp_all add: pc_ok_def)
  show ?thesis using datagram_steps [OF assms(1) ok assms(4-6)] by (auto split: option.split)
qed

lemma datagram_answered_witness:
  "\<exists>th w th' fd d. thread_run demo_hmac demo_md5 demo_os (demo_thread RolePP) (AtReceive 0, th, w) \<and>
     (Run_step demo_hmac demo_md5 demo_os ^^ 3) (AtReceive 0, th, w) = (AtLoop, th', 7, {}, [(fd, d)])"
proof -
  let ?th = "demo_thread RolePP" and ?w = "(7, {}, []) :: demo_world"
  note t = demo_thread_ok [of RolePP]
  have "unat RolePP = 0" by (simp add: RolePP_def)
  then have socks: "th_socks ?th = [0]" using t(3) by simp
  have "Run_step demo_hmac demo_md5 demo_os (AtLoop, ?th, ?w) = (AtReceive 0, ?th, ?w)" using t(2) socks by (simp add: Run_step_def)
  then have run: "thread_run demo_hmac demo_md5 demo_os ?th (AtReceive 0, ?th, ?w)" using run_own [OF run_start] by metis
  have len: "length demo_datagram \<le> 800" "take 800 demo_datagram = demo_datagram" "demo_datagram \<noteq> []"
    by (simp_all add: demo_datagram_def length_message demo_id_def integrity_tail_def demo_as_def demo_hmac_def ascii_def
        length_attr_bytes pad4_def message_def msgTypeField_def be16_def)
  obtain dst where r: "recvfromex demo_os 3 MAX_STUN_MESSAGE_SIZE 0 (in_addrRemote (th_msgIn ?th)) (in_addrLocal (th_msgIn ?th)) ?w =
      (int (length demo_datagram), demo_datagram, CSocketAddress_CommonConstructor (CSocketAddress_ip4 9 5000), dst, ?w)"
    using len by (simp add: recvfromex_def demo_os_def demo_recv_def MAX_STUN_MESSAGE_SIZE_def)
  have s0: "sk_sock (demo_sockets ! 0) = 3" "sk_role (demo_sockets ! 0) = RolePP" "sk_sock (demo_sockets ! 1) = 4" by (simp_all add: demo_sockets_def)
  have r': "recvfromex demo_os (sk_sock (demo_sockets ! 0)) MAX_STUN_MESSAGE_SIZE (if 1 < length (th_socks ?th) then MSG_DONTWAIT else 0)
      (in_addrRemote (th_msgIn ?th)) (in_addrLocal (th_msgIn ?th)) ?w =
      (int (length demo_datagram), demo_datagram, CSocketAddress_CommonConstructor (CSocketAddress_ip4 9 5000), dst, ?w)"
    using r socks s0 by simp
  have st: "spec_state True demo_datagram = BodyValidated"
    unfolding demo_datagram_def using message_accepted(1) [OF demo_request_ok] by simp
  have "GetMessageClass demo_request = StunMsgClassRequest" using message_read(2) [OF demo_request_ok demo_reader] .
  then have "udp_reply demo_hmac demo_md5 None demo_set m demo_datagram \<noteq> None" for m
    using st by (simp add: udp_reply_def Let_def demo_request_def demo_datagram_def)
  then obtain role d dest where rep: "udp_reply demo_hmac demo_md5 None demo_set
      (udp_input (sk_role (demo_sockets ! 0)) (CSocketAddress_CommonConstructor (CSocketAddress_ip4 9 5000)) dst) demo_datagram = Some (role, d, dest)"
    by fastforce
  have sent: "sent_to demo_os demo_sockets (Some (role, d, dest)) ?w = (7, {}, [(sk_sock (demo_sockets ! unat role), d, dest)])"
    by (simp add: sent_to_def demo_os_def)
  from datagram_answered [OF demo_serving_thread t(1) run t(2) r'] rep sent run show ?thesis by fastforce
qed

section \<open>Fairness\<close>

text \<open>C12: No socket starves: while the thread is not told to stop, a socket of it that \<open>select\<close> reports ready
  whenever it is asked about it is read within four steps for each of the thread's sockets,
  whatever is ready besides and whatever arrives.\<close>

theorem ready_socket_served:
  assumes "serving_thread hmac md5 os arr tsa auth" "thread_ok arr tsa auth th" "\<not> th_fNeedToExit th" "k < length (th_socks th)"
    "\<And>fds w. sk_sock (arr ! (th_socks th ! k)) \<in> fds \<Longrightarrow> sk_sock (arr ! (th_socks th ! k)) \<in> fst (snd (os_select os fds w))"
  shows "\<exists>i \<le> 4 * length (th_socks th). fst ((Run_step hmac md5 os ^^ i) (AtLoop, th, w)) = AtReceive (th_socks th ! k)"
proof -
  let ?n = "length (th_socks th)"
  have r: "th_rotation th < ?n" using assms(2) by (simp add: thread_ok_def)
  define d where "d = (k + ?n - Suc (th_rotation th)) mod ?n"
  have "d < ?n" using assms(4) unfolding d_def by (intro mod_less_divisor) linarith
  moreover have "(th_rotation th + Suc d) mod ?n = k"
  proof -
    have "(th_rotation th + Suc d) mod ?n = (Suc (th_rotation th) + (k + ?n - Suc (th_rotation th))) mod ?n"
      unfolding d_def add_Suc_right add_Suc [symmetric] by (rule mod_add_right_eq)
    also have "Suc (th_rotation th) + (k + ?n - Suc (th_rotation th)) = k + ?n" using r by linarith
    finally show ?thesis using assms(4) by simp
  qed
  from ready_served [OF assms(1,2,4,3,5) this, of w] obtain i where
    "i \<le> 4 * d + 1" "fst ((Run_step hmac md5 os ^^ i) (AtLoop, th, w)) = AtReceive (th_socks th ! k)" by blast
  moreover have "4 * d + 1 \<le> 4 * ?n" using \<open>d < ?n\<close> by linarith
  ultimately show ?thesis using le_trans by blast
qed

lemma ready_socket_served_witness:
  "\<exists>i \<le> 16. fst ((Run_step demo_hmac demo_md5 demo_os ^^ i) (AtLoop, demo_thread (-1), (7, {}, []))) = AtReceive 2"
proof -
  have "\<not> IsValidSocketRole (-1)" by (simp add: IsValidSocketRole_def word_le_nat_alt unsigned_minus_1_eq_mask mask_eq_exp_minus_1)
  then have socks: "th_socks (demo_thread (-1)) = [0, 1, 2, 3]" using demo_thread_ok(3) by simp
  have "fd \<in> fds \<Longrightarrow> fd \<in> fst (snd (os_select demo_os fds w))" for fd fds w by (simp add: demo_os_def)
  then show ?thesis
    using ready_socket_served [OF demo_serving_thread demo_thread_ok(1,2) [of "-1"], where k = 2 and w = "(7, {}, [])"] socks
    by simp
qed

section \<open>The server's initialization\<close>

text \<open>C13: Initialization is all or nothing and leaks no descriptor: on success exactly the configured sockets are
  open, each bound in its role, and their threads, one for all or one for each, are in the
  state the run needs; on failure no thread and no socket is left. Either way the open descriptors
  are those that did not belong to the server before and the sockets it now holds.\<close>

theorem server_initialized:
  assumes "fds_ok os opens" "config_ok config" "length (sv_arrSockets sv) = 4"
    "server_Initialize os config sv w = (hr, sv', w')"
  shows "(if SUCCEEDED hr then \<exists>tsa. initialized config tsa sv' else sv_threads sv' = [] \<and> owned (sv_arrSockets sv') = {}) \<and>
    opens w' = (opens w - owned (sv_arrSockets sv)) \<union> owned (sv_arrSockets sv') \<and>
    (opens w - owned (sv_arrSockets sv)) \<inter> owned (sv_arrSockets sv') = {}"
  using server_Initialize_ok [OF assms] by simp

definition demo_server_config :: server_config where
  "demo_server_config = CStunServerConfig_new\<lparr>cfg_fHasPP := True, cfg_fHasAA := True, cfg_addrPP := CSocketAddress_ip4 1 3478,
     cfg_addrAA := CSocketAddress_ip4 2 3479\<rparr>"

lemma demo_server_init: "fst (server_Initialize demo_os demo_server_config CStunServer_new (3, {}, [])) = S_OK"
  by code_simp

lemma server_initialized_witness:
  "\<exists>tsa sv w. server_Initialize demo_os demo_server_config CStunServer_new (3, {}, []) = (S_OK, sv, w) \<and>
     initialized demo_server_config tsa sv \<and> demo_opens w = {0, 1, 2} \<union> owned (sv_arrSockets sv)"
proof -
  obtain sv w where i: "server_Initialize demo_os demo_server_config CStunServer_new (3, {}, []) = (S_OK, sv, w)"
    using demo_server_init by (metis prod_cases3 fst_conv)
  have "config_ok demo_server_config" by (simp add: config_ok_def demo_server_config_def CStunServerConfig_new_def)
  moreover have "length (sv_arrSockets CStunServer_new) = 4" by (simp add: CStunServer_new_def)
  moreover have "demo_opens (3, {}, []) - owned (sv_arrSockets CStunServer_new) = {0, 1, 2}"
    by (auto simp: demo_opens_def owned_def CStunServer_new_def CStunSocket_new_def)
  ultimately show ?thesis using i server_initialized [OF demo_os_ok(2) _ _ i] by auto
qed

end
