(* ===== verification/FastHashDynamic.thy ===== *)
theory FastHashDynamic
  imports FastHash
begin

text \<open>
  \<open>src/common/fasthash.cpp\<close> and the class \<open>FastHashDynamic\<close> of \<open>fasthash.h\<close>: tables whose arrays are
  allocated by \<open>InitTable\<close>, of a prime width unless the caller gives one.

  \<open>unsigned int\<close> is a natural number with the wrap-around written out. \<open>sqrt\<close> of a 32-bit number is
  exact enough in a double that its integer part is the integer square root. \<open>new\<close> throws rather
  than return NULL.
\<close>

primrec sqrt_floor :: "nat \<Rightarrow> nat" where
  "sqrt_floor 0 = 0"
| "sqrt_floor (Suc n) = (let r = sqrt_floor n in if Suc r * Suc r \<le> Suc n then Suc r else r)"

definition IS_DIVISIBLE_BY :: "nat \<Rightarrow> nat \<Rightarrow> bool" where
  "IS_DIVISIBLE_BY x y \<longleftrightarrow> x mod y = 0"

text \<open>The inner loop: no divisor from 3 up to the square root and one more.\<close>

definition no_divisor :: "nat \<Rightarrow> bool" where
  "no_divisor result = (let stop = sqrt_floor result + 1 in \<not> list_ex (\<lambda>x. IS_DIVISIBLE_BY result x) [3 ..< stop + 1])"

lemma no_divisor_small: "r < 2 \<Longrightarrow> no_divisor r"
  by (auto simp: no_divisor_def less_2_cases_iff)

text \<open>The search ends even where it wraps around: 0 and 1 pass the test.\<close>

function next_prime :: "nat \<Rightarrow> nat" where
  "next_prime result = (if no_divisor result then result else next_prime ((result + 2) mod 2 ^ 32))"
  by auto
termination
proof (relation "measure (\<lambda>r. if r < 2 then 0 else if r < 2 ^ 32 then 2 ^ 32 + 2 - r else 2 ^ 32 + 3)")
  show "((r + 2) mod 2 ^ 32, r) \<in> measure (\<lambda>r. if r < 2 then 0 else if r < 2 ^ 32 then 2 ^ 32 + 2 - r else 2 ^ 32 + 3)"
    if "\<not> no_divisor r" for r :: nat
  proof -
    have r: "2 \<le> r" using that no_divisor_small [of r] by linarith
    have b: "(r + 2) mod 2 ^ 32 < 2 ^ 32" by simp
    show ?thesis
    proof (cases "r + 2 < 2 ^ 32")
      case True
      then have e: "(r + 2) mod 2 ^ 32 = r + 2" by (rule mod_less)
      show ?thesis unfolding in_measure e using True r by simp
    next
      case False
      show ?thesis
      proof (cases "r < 2 ^ 32")
        case True
        then have "(r + 2) mod 2 ^ 32 = r + 2 - 2 ^ 32" using False by (subst mod_if) simp
        then show ?thesis using True False r by simp
      next
        case big: False
        have "2 ^ 32 + 2 - m < (2 ^ 32 + 3 :: nat)" for m by arith
        then show ?thesis using big r b by simp
      qed
    qed
  qed
qed simp

declare next_prime.simps [simp del]

definition FindPrime :: "nat \<Rightarrow> nat" where
  "FindPrime val =
     (if val \<le> 2 then 2 else if val = 3 then 3
      else next_prime (if val mod 2 = 0 then (val + 1) mod 2 ^ 32 else val))"

definition FastHash_GetHashTableWidth :: "nat \<Rightarrow> nat" where
  "FastHash_GetHashTableWidth maxConnections = FindPrime maxConnections"

text \<open>
  A \<open>FastHashDynamic\<close> without arrays, and the two operations that replace its arrays. The fresh arrays
  of \<open>InitTable\<close> are those of \<open>FastHash_new\<close>.
\<close>

definition FastHashDynamic_new :: "('k, 'v) fasthash" where
  "FastHashDynamic_new = FastHash_Init 0 0 [] [] [] []"

definition ResetTable :: "('k, 'v) fasthash \<Rightarrow> ('k, 'v) fasthash" where
  "ResetTable t = FastHash_Init 0 0 [] [] [] []"

definition InitTable :: "nat \<Rightarrow> nat \<Rightarrow> ('k, 'v) fasthash \<Rightarrow> int \<times> ('k, 'v) fasthash" where
  "InitTable fsize tsize t =
     (if fsize \<le> 0 then (-1, t)
      else
        (let tsize = (if tsize = 0 then FastHash_GetHashTableWidth fsize else tsize)
         in (1, FastHash_new fsize tsize)))"

text \<open>\<open>Lookup\<close> returns a pointer to the value; this is an assignment through it.\<close>

definition FastHash_SetValue :: "('k \<Rightarrow> nat) \<Rightarrow> 'k \<Rightarrow> 'v \<Rightarrow> ('k, 'v) fasthash \<Rightarrow> ('k, 'v) fasthash" where
  "FastHash_SetValue h key val t =
     (case FastHash_Find h key t of
        (None, _, _) \<Rightarrow> t
      | (Some p, _, _) \<Rightarrow>
          t\<lparr>fh_nodes := (fh_nodes t)[node_index (fh_itemnodes t ! p) := map_option (\<lambda>kv. (fst kv, val)) (item_at t p)]\<rparr>)"

section \<open>The width of a table\<close>

definition is_prime :: "nat \<Rightarrow> bool" where
  "is_prime n \<longleftrightarrow> 1 < n \<and> (\<forall>d. d dvd n \<longrightarrow> d = 1 \<or> d = n)"

lemma sqrt_floor_bounds: "sqrt_floor n * sqrt_floor n \<le> n \<and> n < Suc (sqrt_floor n) * Suc (sqrt_floor n)"
  by (induction n) (auto simp: Let_def)

lemma sqrt_floor_max: "d * d \<le> n \<Longrightarrow> d \<le> sqrt_floor n"
proof (rule ccontr)
  assume "d * d \<le> n" "\<not> d \<le> sqrt_floor n"
  then have "Suc (sqrt_floor n) * Suc (sqrt_floor n) \<le> d * d" by (intro mult_le_mono) simp_all
  then show False using sqrt_floor_bounds [of n] \<open>d * d \<le> n\<close> by linarith
qed

lemma sqrt_floor_small: "5 \<le> n \<Longrightarrow> sqrt_floor n + 1 < n"
proof (rule ccontr)
  assume n: "5 \<le> n" and "\<not> sqrt_floor n + 1 < n"
  then have "(n - 1) * (n - 1) \<le> sqrt_floor n * sqrt_floor n" by (intro mult_le_mono) simp_all
  then have "(n - 1) * (n - 1) \<le> n" using sqrt_floor_bounds [of n] by linarith
  moreover obtain m where "n = m + 5" using n le_Suc_ex [of 5 n] by (auto simp: add.commute)
  ultimately show False by (simp add: algebra_simps)
qed

text \<open>For an odd number from 5 on the test is exact.\<close>

lemma no_divisor_prime:
  assumes "odd r" "5 \<le> r"
  shows "no_divisor r \<longleftrightarrow> is_prime r"
proof
  assume nd: "no_divisor r"
  have small: "d = 1" if "d dvd r" "d * d \<le> r" for d
  proof (rule ccontr)
    assume "d \<noteq> 1"
    have "d \<noteq> 0" using that(1) assms(2) by (intro notI) simp
    moreover have "d \<noteq> 2" using that(1) assms(1) by (intro notI) simp
    ultimately have "3 \<le> d" using \<open>d \<noteq> 1\<close> by linarith
    moreover have "d \<le> sqrt_floor r" by (rule sqrt_floor_max [OF that(2)])
    ultimately have "3 \<le> d \<and> d < sqrt_floor r + 1 + 1" by linarith
    then have "d \<in> set [3 ..< sqrt_floor r + 1 + 1]" by (simp only: set_upt atLeastLessThan_iff)
    moreover have "IS_DIVISIBLE_BY r d" using that(1) by (simp add: IS_DIVISIBLE_BY_def)
    ultimately have "list_ex (\<lambda>x. IS_DIVISIBLE_BY r x) [3 ..< sqrt_floor r + 1 + 1]" unfolding list_ex_iff by blast
    then show False using nd unfolding no_divisor_def Let_def by blast
  qed
  have "d = 1 \<or> d = r" if d: "d dvd r" for d
  proof (cases "d * d \<le> r")
    case False
    obtain e where e: "r = d * e" using d by auto
    have "e \<le> d"
    proof (rule ccontr)
      assume "\<not> e \<le> d"
      then have "d * d \<le> d * e" by simp
      then show False using False e by simp
    qed
    then have "e * e \<le> r" unfolding e by simp
    moreover have "e dvd r" by (simp add: e)
    ultimately have "e = 1" by (intro small)
    then show ?thesis using e by simp
  qed (use small [OF d] in simp)
  then show "is_prime r" using assms(2) by (simp add: is_prime_def)
next
  assume p: "is_prime r"
  have "\<not> IS_DIVISIBLE_BY r x" if "x \<in> set [3 ..< sqrt_floor r + 1 + 1]" for x
  proof
    assume "IS_DIVISIBLE_BY r x"
    then have "x dvd r" by (simp add: IS_DIVISIBLE_BY_def mod_eq_0_iff_dvd)
    then have "x = 1 \<or> x = r" using p by (simp add: is_prime_def)
    then show False using that sqrt_floor_small [OF assms(2)] by auto
  qed
  then show "no_divisor r" unfolding no_divisor_def Let_def list_ex_iff by blast
qed

lemma prime_odd: "is_prime p \<Longrightarrow> 3 \<le> p \<Longrightarrow> odd p"
  by (auto simp: is_prime_def dest: spec [of _ 2])

lemma next_prime_least:
  assumes "is_prime p" "p < 2 ^ 32"
  shows "odd r \<Longrightarrow> 5 \<le> r \<Longrightarrow> r \<le> p \<Longrightarrow>
    is_prime (next_prime r) \<and> r \<le> next_prime r \<and> (\<forall>q. is_prime q \<and> r \<le> q \<longrightarrow> next_prime r \<le> q)"
proof (induction r rule: next_prime.induct)
  case (1 r)
  show ?case
  proof (cases "no_divisor r")
    case True
    then show ?thesis using no_divisor_prime [OF 1(2,3)] by (simp add: next_prime.simps [of r])
  next
    case False
    then have np: "\<not> is_prime r" using no_divisor_prime [OF 1(2,3)] by simp
    have pass: "r + 2 \<le> q" if q: "is_prime q" "r \<le> q" for q
    proof -
      have "odd q" using prime_odd [OF q(1)] q(2) 1(3) by linarith
      moreover have "q \<noteq> r" using q(1) np by blast
      ultimately have "q \<noteq> r \<and> q \<noteq> r + 1" using 1(2) by auto
      then show ?thesis using q(2) by linarith
    qed
    have r2: "r + 2 \<le> p" by (rule pass [OF assms(1) 1(4)])
    then have e: "(r + 2) mod 2 ^ 32 = r + 2" using assms(2) by (intro mod_less) linarith
    have n: "next_prime r = next_prime (r + 2)" using False e by (simp add: next_prime.simps [of r])
    have "is_prime (next_prime (r + 2)) \<and> r + 2 \<le> next_prime (r + 2) \<and> (\<forall>q. is_prime q \<and> r + 2 \<le> q \<longrightarrow> next_prime (r + 2) \<le> q)"
      using 1(1) [OF False] 1(2,3) r2 unfolding e by simp
    then show ?thesis unfolding n using pass by auto
  qed
qed

lemma is_prime_2: "is_prime 2"
proof -
  have "d = 1 \<or> d = 2" if "d dvd (2::nat)" for d
  proof -
    have "d \<le> 2" using that by (intro dvd_imp_le) simp_all
    then have "d = 0 \<or> d = 1 \<or> d = 2" by linarith
    then show ?thesis using that by auto
  qed
  then show ?thesis by (simp add: is_prime_def)
qed

lemma is_prime_3: "is_prime 3"
proof -
  have "d = 1 \<or> d = 3" if "d dvd (3::nat)" for d
  proof -
    have "d \<le> 3" using that by (intro dvd_imp_le) simp_all
    then have "d = 0 \<or> d = 1 \<or> d = 2 \<or> d = 3" by linarith
    then show ?thesis using that by auto
  qed
  then show ?thesis by (simp add: is_prime_def)
qed

lemma FindPrime_pos: "0 < FindPrime val"
proof -
  have "0 < next_prime r" if "odd r" for r using that
  proof (induction r rule: next_prime.induct)
    case (1 r)
    have "odd ((r + 2) mod 2 ^ 32)" using 1(2) by (simp add: odd_iff_mod_2_eq_one mod_mod_cancel)
    then show ?case using 1 by (cases "no_divisor r") (auto simp: next_prime.simps [of r] odd_pos)
  qed
  moreover have "odd (if val mod 2 = 0 then (val + 1) mod 2 ^ 32 else val)"
    by (simp add: odd_iff_mod_2_eq_one mod_mod_cancel)  presburger
  ultimately show ?thesis by (simp add: FindPrime_def)
qed

end
