(* ===== verification/UniqueMap.thy ===== *)
theory UniqueMap
  imports FastHashDynamic FastHashRemove
begin

text \<open>
  The interface of a table whose keys are unique, as the connection tables of the TCP server and the
  position table of \<open>CPoll\<close> use it: a finite map with insertion, removal, assignment through the
  pointer of a lookup, and access to the first item by position.
\<close>

locale unique_map =
  fixes ok :: "'t \<Rightarrow> bool"
    and view :: "'t \<Rightarrow> 'k \<Rightarrow> 'v option"
    and count :: "'t \<Rightarrow> nat"
    and capacity :: "'t \<Rightarrow> nat"
    and insert_kv :: "'k \<Rightarrow> 'v \<Rightarrow> 't \<Rightarrow> int \<times> 't"
    and remove_k :: "'k \<Rightarrow> 't \<Rightarrow> int \<times> 't"
    and lookup_k :: "'k \<Rightarrow> 't \<Rightarrow> 'v option"
    and set_kv :: "'k \<Rightarrow> 'v \<Rightarrow> 't \<Rightarrow> 't"
    and first_kv :: "'t \<Rightarrow> ('k \<times> 'v) option \<times> 't"
  assumes lookup_view: "ok t \<Longrightarrow> lookup_k k t = view t k"
    and insert_view: "ok t \<Longrightarrow> view t k = None \<Longrightarrow> count t < capacity t \<Longrightarrow>
      \<exists>t'. insert_kv k v t = (1, t') \<and> ok t' \<and> view t' = (view t)(k \<mapsto> v) \<and> capacity t' = capacity t"
    and insert_full: "ok t \<Longrightarrow> capacity t \<le> count t \<Longrightarrow> insert_kv k v t = (-1, t)"
    and remove_view: "ok t \<Longrightarrow> view t k \<noteq> None \<Longrightarrow>
      \<exists>t'. remove_k k t = (1, t') \<and> ok t' \<and> view t' = (view t)(k := None) \<and> capacity t' = capacity t"
    and remove_absent: "ok t \<Longrightarrow> view t k = None \<Longrightarrow> remove_k k t = (-1, t)"
    and set_view: "ok t \<Longrightarrow> view t k \<noteq> None \<Longrightarrow>
      ok (set_kv k v t) \<and> view (set_kv k v t) = (view t)(k \<mapsto> v) \<and> capacity (set_kv k v t) = capacity t"
    and count_view: "ok t \<Longrightarrow> finite (dom (view t)) \<and> count t = card (dom (view t))"
    and first_none: "ok t \<Longrightarrow> count t = 0 \<Longrightarrow> first_kv t = (None, t)"
    and first_some: "ok t \<Longrightarrow> count t \<noteq> 0 \<Longrightarrow>
      \<exists>k v t'. first_kv t = (Some (k, v), t') \<and> view t k = Some v \<and> ok t' \<and> view t' = view t \<and> capacity t' = capacity t"
begin

lemma remove_result: "ok t \<Longrightarrow> fst (remove_k k t) = (if view t k = None then -1 else 1)"
  using remove_view [of t k] remove_absent [of t k] by auto

lemma removed: "ok t \<Longrightarrow> ok (snd (remove_k k t)) \<and> view (snd (remove_k k t)) = (view t)(k := None) \<and> capacity (snd (remove_k k t)) = capacity t"
  using remove_view [of t k] remove_absent [of t k] by (cases "view t k") (auto simp: fun_upd_idem)

lemma inserted:
  assumes "ok t" "view t k = None"
  shows "insert_kv k v t = (i, t') \<Longrightarrow> ok t' \<and> capacity t' = capacity t \<and>
    (if count t < capacity t then i = 1 \<and> view t' = (view t)(k \<mapsto> v) else i = -1 \<and> t' = t)"
  using insert_view [OF assms, of v] insert_full [OF assms(1), of k v] assms(1) by (cases "count t < capacity t") auto

lemma count_removed:
  assumes "ok t" "view t k \<noteq> None"
  shows "Suc (count (snd (remove_k k t))) = count t"
proof -
  note r = removed [OF assms(1), of k] and c = count_view [OF assms(1)]
  have k: "k \<in> dom (view t)" using assms(2) by auto
  have "dom (view (snd (remove_k k t))) = dom (view t) - {k}" using r by simp
  then show ?thesis using count_view [of "snd (remove_k k t)"] r c card_Suc_Diff1 [OF _ k] by simp
qed

lemma count_zero: "ok t \<Longrightarrow> count t = 0 \<longleftrightarrow> view t = Map.empty"
  using count_view [of t] by auto

end

section \<open>The hash table as such a map\<close>

definition fh_unique :: "('k \<Rightarrow> nat) \<Rightarrow> ('k, 'v) fasthash \<Rightarrow> bool" where
  "fh_unique h t \<longleftrightarrow> fh_inv h t \<and> (\<forall>k. length (fh_entries h t k) \<le> 1)"

definition fh_view :: "('k \<Rightarrow> nat) \<Rightarrow> ('k, 'v) fasthash \<Rightarrow> 'k \<Rightarrow> 'v option" where
  "fh_view h t k = (case fh_entries h t k of [] \<Rightarrow> None | v # _ \<Rightarrow> Some v)"

lemma fh_view_None: "fh_view h t k = None \<longleftrightarrow> fh_entries h t k = []"
  by (simp add: fh_view_def split: list.split)

lemma fh_unique_entries: "fh_unique h t \<Longrightarrow> fh_entries h t k = (case fh_view h t k of None \<Rightarrow> [] | Some v \<Rightarrow> [v])"
  unfolding fh_unique_def fh_view_def by (cases "fh_entries h t k") (auto dest: spec [of _ k])

lemma unique_fresh:
  fixes h :: "'k \<Rightarrow> nat" and t :: "('k, 'v) fasthash"
  assumes "0 < FSIZE" "0 < TSIZE" "t = FastHash_new FSIZE TSIZE"
  shows "fh_unique h t" "fh_view h t = Map.empty" "fh_size t = 0" "fh_fsize t = FSIZE"
  using FastHash_new_ok(1,2) [OF assms, where h = h] FastHash_new_ok(3,4) [OF assms]
  by (auto simp: fh_unique_def fh_view_def)

lemma distinct_by_count: "(\<And>k. count (mset xs) k \<le> 1) \<Longrightarrow> distinct xs"
  unfolding distinct_count_atmost_1
proof
  fix a
  assume "\<And>k. count (mset xs) k \<le> 1"
  from this [of a] show "count (mset xs) a = (if a \<in> set xs then 1 else 0)"
    using count_mset_0_iff [of xs a] by (auto simp: le_Suc_eq)
qed

lemma unique_count:
  assumes "fh_unique h t"
  shows "finite (dom (fh_view h t)) \<and> fh_size t = card (dom (fh_view h t))"
proof -
  have inv: "fh_inv h t" and one: "length (fh_entries h t k) \<le> 1" for k using assms by (simp_all add: fh_unique_def)
  define items where "items = map (\<lambda>j. the (fst (FastHash_LookupByIndex j t))) [0 ..< fh_size t]"
  note e = LookupByIndex_enumerates [OF inv, folded items_def]
  have f: "length (filter (\<lambda>kv. fst kv = k) items) = length (fh_entries h t k)" for k
    using e [of k] by (metis mset_eq_length length_map)
  have keys: "k \<in> set (map fst items) \<longleftrightarrow> fh_entries h t k \<noteq> []" for k
  proof -
    have "k \<in> set (map fst items) \<longleftrightarrow> filter (\<lambda>kv. fst kv = k) items \<noteq> []" by (auto simp: filter_empty_conv)
    also have "\<dots> \<longleftrightarrow> fh_entries h t k \<noteq> []" using f [of k] by (metis length_0_conv)
    finally show ?thesis .
  qed
  have "count (mset (map fst items)) k = length (filter (\<lambda>kv. fst kv = k) items)" for k
    by (induction items) auto
  then have c: "count (mset (map fst items)) k \<le> 1" for k using f one by (metis dual_order.trans order.refl)
  then have "distinct (map fst items)" by (intro distinct_by_count)
  moreover have "set (map fst items) = dom (fh_view h t)" using keys fh_view_None [of h t] by (auto simp: dom_def)
  moreover have "length items = fh_size t" by (simp add: items_def)
  ultimately show ?thesis by (metis List.finite_set distinct_card length_map)
qed

lemma values_of_Nil: "values_of t k [] = []"
  by (simp add: values_of_def map_filter_simps)

text \<open>Assignment through the pointer keeps every chain and replaces the newest value.\<close>

lemma SetValue_ok:
  assumes inv: "fh_inv h t" and e: "fh_entries h t key = v # vs"
  shows "fh_inv h (FastHash_SetValue h key val t)"
    "fh_entries h (FastHash_SetValue h key val t) = (fh_entries h t)(key := val # vs)"
    "fh_size (FastHash_SetValue h key val t) = fh_size t" "fh_fsize (FastHash_SetValue h key val t) = fh_fsize t"
proof -
  from inv obtain C F where rep: "fh_rep h t C F" by (auto simp: fh_inv_def)
  let ?b = "h key mod fh_tsize t"
  from key_cases [OF rep, of key] e obtain xs i ys where c: "C ?b = xs @ i # ys"
    and m: "node_matches t key i" and no: "\<forall>j \<in> set xs. \<not> node_matches t key j" by (metis list.distinct(1))
  note b = fh_rep_bucket [OF rep, of key]
  have i: "i < fh_fsize t" "i \<in> set (C ?b)" using fh_rep_chain(3) [OF rep b, of i] c by (auto dest: keyedD)
  note sh = fh_rep_shape [OF rep]
  obtain u where u: "fh_nodes t ! i = Some (key, u)" using m by (auto simp: node_matches_def split: option.splits)
  have x: "FastHash_SetValue h key val t = t\<lparr>fh_nodes := (fh_nodes t)[i := Some (key, val)]\<rparr>"
    using Find_some [OF rep c m no] sh i(1) u by (simp add: FastHash_SetValue_def item_at_eq) (simp add: fh_shape_def)
  let ?t = "t\<lparr>fh_nodes := (fh_nodes t)[i := Some (key, val)]\<rparr>"
  have len: "length (fh_nodes t) = fh_fsize t" using sh by (simp add: fh_shape_def)
  have at: "fh_nodes ?t ! j = (if j = i then Some (key, val) else fh_nodes t ! j)" for j
    using len i(1) by (simp add: nth_list_update)
  have at': "(fh_nodes t)[i := Some (key, val)] ! j = (if j = i then Some (key, val) else fh_nodes t ! j)" for j
    using at [of j] by simp
  have live: "live ?t C = live t C" by (simp add: live_def)
  have keyed: "keyed h ?t b' j" if "keyed h t b' j" for b' j
    using that u unfolding keyed_def at by auto
  have "fh_index_ok ?t C" using rep by (simp add: fh_rep_def fh_index_ok_def live index_slot_def [abs_def])
  moreover have "fh_chains h ?t C F" using rep keyed by (simp add: fh_rep_def fh_chains_def live)
  moreover have "fh_shape ?t" using sh by (simp add: fh_shape_def)
  ultimately have rep': "fh_rep h ?t C F" by (simp add: fh_rep_def)
  show "fh_inv h (FastHash_SetValue h key val t)" unfolding x using rep' by (auto simp: fh_inv_def)
  have other: "values_of ?t k js = values_of t k js" if "i \<notin> set js \<or> k \<noteq> key" for k js
  proof (cases "i \<in> set js")
    case True
    then have "k \<noteq> key" using that by simp
    then show ?thesis using u by (induction js) (auto simp: values_of_Cons values_of_Nil at')
  qed (use at in \<open>intro values_of_cong, auto\<close>)
  have "distinct (C ?b)" using fh_rep_chain(2) [OF rep b] .
  then have d: "i \<notin> set xs" "i \<notin> set ys" using c by auto
  have none: "values_of t key xs = []" by (rule values_of_none [OF no])
  have vs: "values_of t key ys = vs"
    using e none u by (simp add: fh_entries_eq [OF rep] c values_of_append values_of_Cons)
  show "fh_entries h (FastHash_SetValue h key val t) = (fh_entries h t)(key := val # vs)"
  proof (rule ext)
    fix k
    show "fh_entries h (FastHash_SetValue h key val t) k = ((fh_entries h t)(key := val # vs)) k"
    proof (cases "k = key")
      case True
      have "i < length (fh_nodes t)" using len i(1) by simp
      then show ?thesis unfolding x True
        using other [of xs key] other [of ys key] d none vs
        by (simp add: fh_entries_eq [OF rep'] c values_of_append values_of_Cons)
    qed (simp add: x fh_entries_eq [OF rep'] fh_entries_eq [OF rep] other)
  qed
  show "fh_size (FastHash_SetValue h key val t) = fh_size t" "fh_fsize (FastHash_SetValue h key val t) = fh_fsize t" by (simp_all add: x)
qed

interpretation hashmap: unique_map "fh_unique h" "fh_view h" fh_size fh_fsize "FastHash_Insert h" "FastHash_Remove h" "FastHash_Lookup h"
    "FastHash_SetValue h" "FastHash_LookupByIndex 0" for h
proof
  fix t :: "('a, 'b) fasthash" and k v
  assume ok: "fh_unique h t"
  then have inv: "fh_inv h t" and one: "length (fh_entries h t k') \<le> 1" for k' by (simp_all add: fh_unique_def)
  note en = fh_unique_entries [OF ok]
  show "FastHash_Lookup h k t = fh_view h t k" by (simp add: fh_view_def Lookup_entries [OF inv])
  show "finite (dom (fh_view h t)) \<and> fh_size t = card (dom (fh_view h t))" by (rule unique_count [OF ok])
  show "FastHash_Insert h k v t = (-1, t)" if "fh_fsize t \<le> fh_size t" by (rule fasthash.insert_full [OF inv that])
  show "FastHash_Remove h k t = (-1, t)" if "fh_view h t k = None" using Remove_missing [OF inv] that by (simp add: fh_view_None)
  show "FastHash_LookupByIndex 0 t = (None, t)" if "fh_size t = 0" using that by (intro LookupByIndex_out_of_range) simp
  show "\<exists>t'. FastHash_Insert h k v t = (1, t') \<and> fh_unique h t' \<and> fh_view h t' = (fh_view h t)(k \<mapsto> v) \<and> fh_fsize t' = fh_fsize t"
    if "fh_view h t k = None" "fh_size t < fh_fsize t"
  proof -
    note room = that(2)
    obtain t' where i: "FastHash_Insert h k v t = (1, t')" "fh_inv h t'" "fh_entries h t' = (fh_entries h t)(k := v # fh_entries h t k)"
      "fh_fsize t' = fh_fsize t" using fasthash.insert_ok [OF inv room, of k v] by blast
    have e: "fh_entries h t k = []" using that(1) by (simp add: fh_view_None)
    have "fh_view h t' = (fh_view h t)(k \<mapsto> v)" unfolding fh_view_def i(3) by (auto simp: fun_eq_iff)
    moreover have "fh_unique h t'" using i(2,3) one e by (simp add: fh_unique_def)
    ultimately show ?thesis using i(1,4) by blast
  qed
  show "\<exists>t'. FastHash_Remove h k t = (1, t') \<and> fh_unique h t' \<and> fh_view h t' = (fh_view h t)(k := None) \<and> fh_fsize t' = fh_fsize t"
    if "fh_view h t k \<noteq> None"
  proof -
    have e: "fh_entries h t k \<noteq> []" using that by (simp add: fh_view_None)
    note r = Remove_ok [OF inv e refl]
    have tl: "tl (fh_entries h t k) = []" using one [of k] e by (cases "fh_entries h t k") auto
    have "fh_view h (snd (FastHash_Remove h k t)) = (fh_view h t)(k := None)"
      unfolding fh_view_def r(3) tl by (auto simp: fun_eq_iff)
    moreover have "fh_unique h (snd (FastHash_Remove h k t))" using r(2,3) one tl by (simp add: fh_unique_def)
    ultimately show ?thesis using r(1,5) by (metis prod.collapse)
  qed
  show "fh_unique h (FastHash_SetValue h k v t) \<and> fh_view h (FastHash_SetValue h k v t) = (fh_view h t)(k \<mapsto> v) \<and>
      fh_fsize (FastHash_SetValue h k v t) = fh_fsize t" if "fh_view h t k \<noteq> None"
  proof -
    note known = that
    obtain u where u: "fh_entries h t k = [u]" using known en [of k] by auto
    note s = SetValue_ok [OF inv u, of v]
    have "fh_view h (FastHash_SetValue h k v t) = (fh_view h t)(k \<mapsto> v)" unfolding fh_view_def s(2) by (auto simp: fun_eq_iff)
    moreover have "fh_unique h (FastHash_SetValue h k v t)" using s(1,2) one by (simp add: fh_unique_def)
    ultimately show ?thesis using s(4) by simp
  qed
  show "\<exists>k v t'. FastHash_LookupByIndex 0 t = (Some (k, v), t') \<and> fh_view h t k = Some v \<and> fh_unique h t' \<and>
      fh_view h t' = fh_view h t \<and> fh_fsize t' = fh_fsize t" if "fh_size t \<noteq> 0"
  proof -
    have "0 < fh_size t" using that by simp
    from LookupByIndex_ok [OF inv this] obtain k v t' where l: "FastHash_LookupByIndex 0 t = (Some (k, v), t')"
      "v \<in> set (fh_entries h t k)" "fh_inv h t'" "fh_entries h t' = fh_entries h t" by blast
    have "fh_fsize t' = fh_fsize t" using l(1)
      by (auto simp: FastHash_LookupByIndex_def FastHash_ReIndex_def Let_def split: if_splits)
    moreover have "fh_view h t k = Some v" using l(2) en [of k] by (auto split: option.splits)
    moreover have "fh_unique h t'" using l(3,4) one by (simp add: fh_unique_def)
    moreover have "fh_view h t' = fh_view h t" by (simp add: fh_view_def [abs_def] l(4))
    ultimately show ?thesis using l(1) by blast
  qed
qed

lemma InitTable_ok:
  assumes "0 < fsize"
  shows "fst (InitTable fsize tsize t) = 1" "fh_unique h (snd (InitTable fsize tsize t))"
    "fh_view h (snd (InitTable fsize tsize t)) = Map.empty" "fh_size (snd (InitTable fsize tsize t)) = 0"
    "fh_fsize (snd (InitTable fsize tsize t)) = fsize"
proof -
  let ?w = "if tsize = 0 then FastHash_GetHashTableWidth fsize else tsize"
  have w: "0 < ?w" using FindPrime_pos by (simp add: FastHash_GetHashTableWidth_def)
  have e: "InitTable fsize tsize t = (1, FastHash_new fsize ?w)" using assms by (simp add: InitTable_def)
  note n = unique_fresh [OF assms w refl]
  show "fst (InitTable fsize tsize t) = 1" "fh_unique h (snd (InitTable fsize tsize t))"
    "fh_view h (snd (InitTable fsize tsize t)) = Map.empty" "fh_size (snd (InitTable fsize tsize t)) = 0"
    "fh_fsize (snd (InitTable fsize tsize t)) = fsize"
    unfolding e fst_conv snd_conv by (rule refl n)+
qed

end
