(* ===== verification/Polling.thy ===== *)
theory Polling
  imports StunSocket UniqueMap HResult
begin

text \<open>
  \<open>src/networkutils/polling.h\<close>, \<open>polling.cpp\<close>: \<open>IPolling\<close> and its two implementations, \<open>CEpoll\<close> over
  the system's \<open>epoll\<close> and \<open>CPoll\<close> over \<open>poll\<close> with a vector of descriptors and a hash table of their
  positions.

  The record \<open>poll_os\<close> adds the calls of this file to \<open>os\<close>. Flag values of \<open>poll\<close> and \<open>epoll\<close> are Linux's.
  \<open>new\<close> throws rather than return NULL; \<open>Reindex\<close> is declared and never defined.
\<close>

section \<open>Flags\<close>

definition IPOLLING_READ :: u32 where "IPOLLING_READ = 1"
definition IPOLLING_WRITE :: u32 where "IPOLLING_WRITE = 2"
definition IPOLLING_EDGETRIGGER :: u32 where "IPOLLING_EDGETRIGGER = 4"
definition IPOLLING_RDHUP :: u32 where "IPOLLING_RDHUP = 8"
definition IPOLLING_HUP :: u32 where "IPOLLING_HUP = 16"
definition IPOLLING_PRI :: u32 where "IPOLLING_PRI = 32"
definition IPOLLING_ERROR :: u32 where "IPOLLING_ERROR = 64"

definition IPOLLING_TYPE_BEST :: u32 where "IPOLLING_TYPE_BEST = 1"
definition IPOLLING_TYPE_EPOLL :: u32 where "IPOLLING_TYPE_EPOLL = 2"
definition IPOLLING_TYPE_POLL :: u32 where "IPOLLING_TYPE_POLL = 4"

text \<open>\<open>if (eventflags & a) result |= b\<close>, one line after the other.\<close>

definition convert_flags :: "(u32 \<times> u32) list \<Rightarrow> u32 \<Rightarrow> u32" where
  "convert_flags table eventflags = fold (\<lambda>(a, b) result. if eventflags AND a \<noteq> 0 then result OR b else result) table 0"

definition epoll_flags :: "(u32 \<times> u32) list" where
  "epoll_flags =
     [(IPOLLING_READ, 0x001), (IPOLLING_WRITE, 0x004), (IPOLLING_EDGETRIGGER, 0x80000000), (IPOLLING_RDHUP, 0x2000),
      (IPOLLING_HUP, 0x010), (IPOLLING_PRI, 0x002), (IPOLLING_ERROR, 0x008)]"

definition CEpoll_ToNativeFlags :: "u32 \<Rightarrow> u32" where
  "CEpoll_ToNativeFlags eventflags = convert_flags epoll_flags eventflags"

definition CEpoll_FromNativeFlags :: "u32 \<Rightarrow> u32" where
  "CEpoll_FromNativeFlags eventflags = convert_flags (map (\<lambda>(a, b). (b, a)) epoll_flags) eventflags"

definition poll_flags :: "(u32 \<times> u32) list" where
  "poll_flags =
     [(IPOLLING_READ, 0x001), (IPOLLING_WRITE, 0x004), (IPOLLING_RDHUP, 0x2000), (IPOLLING_HUP, 0x010),
      (IPOLLING_PRI, 0x002), (IPOLLING_ERROR, 0x008)]"

definition CPoll_ToNativeFlags :: "u32 \<Rightarrow> u32" where
  "CPoll_ToNativeFlags eventflags = convert_flags poll_flags eventflags"

definition CPoll_FromNativeFlags :: "u32 \<Rightarrow> u32" where
  "CPoll_FromNativeFlags eventflags = convert_flags (map (\<lambda>(a, b). (b, a)) poll_flags) eventflags"

section \<open>The system calls\<close>

record PollEvent =
  pe_fd :: int
  pe_eventflags :: u32

definition PollEvent_zero :: PollEvent where
  "PollEvent_zero = \<lparr>pe_fd = 0, pe_eventflags = 0\<rparr>"

datatype epoll_op = EPOLL_CTL_ADD | EPOLL_CTL_DEL | EPOLL_CTL_MOD

record epoll_event =
  ee_fd :: int
  ee_events :: u32

record pollfd =
  pf_fd :: int
  pf_events :: u16
  pf_revents :: u16

record 'w poll_os = "'w os" +
  os_epoll_create :: "nat \<Rightarrow> 'w \<Rightarrow> int \<times> 'w"
  os_epoll_ctl :: "int \<Rightarrow> epoll_op \<Rightarrow> int \<Rightarrow> epoll_event \<Rightarrow> 'w \<Rightarrow> int \<times> 'w"
  os_epoll_wait :: "int \<Rightarrow> nat \<Rightarrow> int \<Rightarrow> 'w \<Rightarrow> int \<times> epoll_event list \<times> 'w"
  os_poll :: "pollfd list \<Rightarrow> int \<Rightarrow> 'w \<Rightarrow> int \<times> u16 list \<times> 'w"

section \<open>CEpoll\<close>

record epoll =
  ep_epollfd :: int
  ep_events :: "epoll_event list"
  ep_sizeEvents :: nat
  ep_pendingCount :: nat
  ep_currentEventIndex :: nat

definition CEpoll_new :: epoll where
  "CEpoll_new = \<lparr>ep_epollfd = -1, ep_events = [], ep_sizeEvents = 0, ep_pendingCount = 0, ep_currentEventIndex = 0\<rparr>"

definition CEpoll_Close :: "('w, 'x) poll_os_scheme \<Rightarrow> epoll \<Rightarrow> 'w \<Rightarrow> hresult \<times> epoll \<times> 'w" where
  "CEpoll_Close os p w =
     (let (p, w) = (if ep_epollfd p \<noteq> -1 then (p\<lparr>ep_epollfd := -1\<rparr>, os_close os (ep_epollfd p) w) else (p, w))
      in (S_OK, p\<lparr>ep_events := [], ep_sizeEvents := 0, ep_pendingCount := 0, ep_currentEventIndex := 0\<rparr>, w))"

text \<open>The result is \<open>S_OK\<close> even when \<open>epoll_create\<close> fails.\<close>

definition CEpoll_Initialize :: "('w, 'x) poll_os_scheme \<Rightarrow> nat \<Rightarrow> epoll \<Rightarrow> 'w \<Rightarrow> hresult \<times> epoll \<times> 'w" where
  "CEpoll_Initialize os maxSockets p w =
     (let (hr, p, w) = CEpoll_Close os p w;
          (fd, w) = os_epoll_create os maxSockets w;
          p = p\<lparr>ep_epollfd := fd\<rparr>;
          hr = (if fd = -1 then ERRNOHR (os_errno os w) else S_OK);
          p = (if FAILED hr then p
               else p\<lparr>ep_sizeEvents := maxSockets, ep_events := replicate maxSockets \<lparr>ee_fd = 0, ee_events = 0\<rparr>,
                      ep_pendingCount := 0, ep_currentEventIndex := 0\<rparr>);
          (hr', p, w) = (if FAILED hr then CEpoll_Close os p w else (S_OK, p, w))
      in (S_OK, p, w))"

definition epoll_control :: "('w, 'x) poll_os_scheme \<Rightarrow> epoll_op \<Rightarrow> int \<Rightarrow> epoll_event \<Rightarrow> epoll \<Rightarrow> 'w \<Rightarrow> hresult \<times> epoll \<times> 'w" where
  "epoll_control os op fd ev p w =
     (if fd = -1 then (E_INVALIDARG, p, w)
      else if ep_epollfd p = -1 then (E_UNEXPECTED, p, w)
      else
        (let (ret, w) = os_epoll_ctl os (ep_epollfd p) op fd ev w
         in (if ret = -1 then ERRNOHR (os_errno os w) else S_OK, p, w)))"

definition CEpoll_Add :: "('w, 'x) poll_os_scheme \<Rightarrow> int \<Rightarrow> u32 \<Rightarrow> epoll \<Rightarrow> 'w \<Rightarrow> hresult \<times> epoll \<times> 'w" where
  "CEpoll_Add os fd eventflags p w =
     epoll_control os EPOLL_CTL_ADD fd \<lparr>ee_fd = fd, ee_events = CEpoll_ToNativeFlags eventflags\<rparr> p w"

definition CEpoll_Remove :: "('w, 'x) poll_os_scheme \<Rightarrow> int \<Rightarrow> epoll \<Rightarrow> 'w \<Rightarrow> hresult \<times> epoll \<times> 'w" where
  "CEpoll_Remove os fd p w = epoll_control os EPOLL_CTL_DEL fd \<lparr>ee_fd = 0, ee_events = 0\<rparr> p w"

definition CEpoll_ChangeEventSet :: "('w, 'x) poll_os_scheme \<Rightarrow> int \<Rightarrow> u32 \<Rightarrow> epoll \<Rightarrow> 'w \<Rightarrow> hresult \<times> epoll \<times> 'w" where
  "CEpoll_ChangeEventSet os fd eventflags p w =
     epoll_control os EPOLL_CTL_MOD fd \<lparr>ee_fd = fd, ee_events = CEpoll_ToNativeFlags eventflags\<rparr> p w"

text \<open>The event out of the array: the end of \<open>WaitForNextEvent\<close>.\<close>

definition CEpoll_take :: "epoll \<Rightarrow> 'w \<Rightarrow> hresult \<times> PollEvent \<times> epoll \<times> 'w" where
  "CEpoll_take p w =
     (let ev = ep_events p ! ep_currentEventIndex p
      in (S_OK, \<lparr>pe_fd = ee_fd ev, pe_eventflags = CEpoll_FromNativeFlags (ee_events ev)\<rparr>,
          p\<lparr>ep_currentEventIndex := ep_currentEventIndex p + 1\<rparr>, w))"

definition CEpoll_WaitForNextEvent ::
  "('w, 'x) poll_os_scheme \<Rightarrow> PollEvent \<Rightarrow> int \<Rightarrow> epoll \<Rightarrow> 'w \<Rightarrow> hresult \<times> PollEvent \<times> epoll \<times> 'w" where
  "CEpoll_WaitForNextEvent os pPollEvent timeoutMilliseconds p w =
     (if ep_epollfd p = -1 then (E_UNEXPECTED, pPollEvent, p, w)
      else if ep_pendingCount p \<le> ep_currentEventIndex p
      then
        (let p = p\<lparr>ep_currentEventIndex := 0, ep_pendingCount := 0\<rparr>;
             (ret, evs, w) = os_epoll_wait os (ep_epollfd p) (ep_sizeEvents p) timeoutMilliseconds w;
             p = p\<lparr>ep_events := overwrite 0 evs (ep_events p)\<rparr>
         in if ret \<le> -1 then (ERRNOHR (os_errno os w), pPollEvent, p, w)
            else if ret = 0 then (S_FALSE, pPollEvent, p, w)
            else CEpoll_take (p\<lparr>ep_pendingCount := nat ret\<rparr>) w)
      else CEpoll_take p w)"

section \<open>CPoll\<close>

record cpoll =
  cp_fds :: "pollfd list"
  cp_rotation :: u32
  cp_unreadcount :: u32
  cp_fInitialized :: bool
  cp_hashtable :: "(int, nat) fasthash"

definition CPoll_new :: cpoll where
  "CPoll_new = \<lparr>cp_fds = [], cp_rotation = 0, cp_unreadcount = 0, cp_fInitialized = False, cp_hashtable = FastHashDynamic_new\<rparr>"

definition CPoll_Initialize :: "nat \<Rightarrow> cpoll \<Rightarrow> hresult \<times> cpoll" where
  "CPoll_Initialize maxSockets p =
     (S_OK, p\<lparr>cp_rotation := 0, cp_unreadcount := 0, cp_hashtable := snd (InitTable maxSockets 0 (cp_hashtable p)), cp_fInitialized := True\<rparr>)"

definition CPoll_Close :: "cpoll \<Rightarrow> hresult \<times> cpoll" where
  "CPoll_Close p = (S_OK, p\<lparr>cp_fds := [], cp_fInitialized := False\<rparr>)"

definition CPoll_Add :: "int \<Rightarrow> u32 \<Rightarrow> cpoll \<Rightarrow> hresult \<times> cpoll" where
  "CPoll_Add fd eventflags p =
     (let pos = length (cp_fds p)
      in if cp_fInitialized p = False then (E_FAIL, p)
         else if FastHash_Lookup FastHash_Hash_signed fd (cp_hashtable p) \<noteq> None then (E_UNEXPECTED, p)
         else
           (let pfd = \<lparr>pf_fd = fd, pf_events = ucast (CPoll_ToNativeFlags eventflags), pf_revents = 0\<rparr>
            in (S_OK, p\<lparr>cp_fds := cp_fds p @ [pfd],
                        cp_hashtable := snd (FastHash_Insert FastHash_Hash_signed fd pos (cp_hashtable p))\<rparr>)))"

text \<open>The part that \<open>Remove\<close> and \<open>ChangeEventSet\<close> share: the position of a descriptor, or the error.\<close>

definition CPoll_position :: "int \<Rightarrow> cpoll \<Rightarrow> hresult \<times> nat" where
  "CPoll_position fd p =
     (let size = length (cp_fds p)
      in if cp_fInitialized p = False then (E_FAIL, 0)
         else if size = 0 then (E_FAIL, 0)
         else
           (case FastHash_Lookup FastHash_Hash_signed fd (cp_hashtable p) of
              None \<Rightarrow> (E_FAIL, 0)
            | Some pos \<Rightarrow>
                if size \<le> pos then (E_FAIL, 0)
                else if pf_fd (cp_fds p ! pos) \<noteq> fd then (E_FAIL, 0)
                else (S_OK, pos)))"

definition CPoll_Remove :: "int \<Rightarrow> cpoll \<Rightarrow> hresult \<times> cpoll" where
  "CPoll_Remove fd p =
     (let size = length (cp_fds p); (hr, pos) = CPoll_position fd p
      in if FAILED hr then (hr, p)
         else
           (let p = (if pos \<noteq> size - 1
                     then (let last = cp_fds p ! (size - 1)
                           in p\<lparr>cp_fds := (cp_fds p)[pos := last],
                                cp_hashtable := FastHash_SetValue FastHash_Hash_signed (pf_fd last) pos (cp_hashtable p)\<rparr>)
                     else p)
            in (S_OK, p\<lparr>cp_hashtable := snd (FastHash_Remove FastHash_Hash_signed fd (cp_hashtable p)), cp_fds := butlast (cp_fds p)\<rparr>)))"

definition CPoll_ChangeEventSet :: "int \<Rightarrow> u32 \<Rightarrow> cpoll \<Rightarrow> hresult \<times> cpoll" where
  "CPoll_ChangeEventSet fd eventflags p =
     (let (hr, pos) = CPoll_position fd p
      in if FAILED hr then (hr, p)
         else (S_OK, p\<lparr>cp_fds := (cp_fds p)[pos := (cp_fds p ! pos)\<lparr>pf_events := ucast (CPoll_ToNativeFlags eventflags)\<rparr>]\<rparr>))"

text \<open>The loop of \<open>FindNextEvent\<close> over the positions, in order.\<close>

fun find_event :: "pollfd list \<Rightarrow> nat \<Rightarrow> nat list \<Rightarrow> nat option" where
  "find_event fds rotation [] = None"
| "find_event fds rotation (index # is) =
     (let slotindex = (index + rotation) mod length fds
      in if pf_revents (fds ! slotindex) \<noteq> 0 then Some slotindex else find_event fds rotation is)"

definition FindNextEvent :: "PollEvent \<Rightarrow> cpoll \<Rightarrow> bool \<times> PollEvent \<times> cpoll" where
  "FindNextEvent pEvent p =
     (let size = length (cp_fds p)
      in if cp_unreadcount p = 0 then (False, pEvent, p)
         else
           (let p = (if size \<le> unat (cp_rotation p) then p\<lparr>cp_rotation := 0\<rparr> else p)
            in case find_event (cp_fds p) (unat (cp_rotation p)) [0 ..< size] of
                 None \<Rightarrow> (False, pEvent, p)
               | Some slotindex \<Rightarrow>
                   (let pfd = cp_fds p ! slotindex
                    in (True, \<lparr>pe_fd = pf_fd pfd, pe_eventflags = CPoll_FromNativeFlags (scast (pf_revents pfd))\<rparr>,
                        p\<lparr>cp_fds := (cp_fds p)[slotindex := pfd\<lparr>pf_revents := 0\<rparr>], cp_rotation := cp_rotation p + 1,
                          cp_unreadcount := cp_unreadcount p - 1\<rparr>))))"

text \<open>The call of \<open>poll\<close> fills in \<open>revents\<close>.\<close>

definition set_revents :: "pollfd list \<Rightarrow> u16 list \<Rightarrow> pollfd list" where
  "set_revents fds evs = map (\<lambda>(pfd, ev). pfd\<lparr>pf_revents := ev\<rparr>) (zip fds evs)"

definition CPoll_WaitForNextEvent ::
  "('w, 'x) poll_os_scheme \<Rightarrow> PollEvent \<Rightarrow> int \<Rightarrow> cpoll \<Rightarrow> 'w \<Rightarrow> hresult \<times> PollEvent \<times> cpoll \<times> 'w" where
  "CPoll_WaitForNextEvent os pPollEvent timeoutMilliseconds p w =
     (if cp_fInitialized p = False then (E_FAIL, pPollEvent, p, w)
      else
        (let pPollEvent = pPollEvent\<lparr>pe_eventflags := 0\<rparr>
         in if length (cp_fds p) = 0 then (S_FALSE, pPollEvent, p, w)
            else
              (let (fFound, pPollEvent, p) = FindNextEvent pPollEvent p
               in if fFound then (S_OK, pPollEvent, p, w)
                  else
                    (let p = p\<lparr>cp_unreadcount := 0\<rparr>;
                         (ret, evs, w) = os_poll os (cp_fds p) timeoutMilliseconds w;
                         p = p\<lparr>cp_fds := set_revents (cp_fds p) evs\<rparr>
                     in if ret < 0 then (ERRNOHR (os_errno os w), pPollEvent, p, w)
                        else if ret = 0 then (S_FALSE, pPollEvent, p, w)
                        else
                          (let (fFound, pPollEvent, p) = FindNextEvent pPollEvent (p\<lparr>cp_unreadcount := of_int ret\<rparr>)
                           in (if fFound then S_OK else S_FALSE, pPollEvent, p, w))))))"

section \<open>IPolling\<close>

text \<open>An object of one of the two classes, and the virtual functions.\<close>

datatype IPolling = CEpollObject epoll | CPollObject cpoll

definition on_epoll :: "('a \<times> epoll \<times> 'w) \<Rightarrow> 'a \<times> IPolling \<times> 'w" where
  "on_epoll x = (case x of (a, p, w) \<Rightarrow> (a, CEpollObject p, w))"

definition on_cpoll :: "'w \<Rightarrow> ('a \<times> cpoll) \<Rightarrow> 'a \<times> IPolling \<times> 'w" where
  "on_cpoll w x = (case x of (a, p) \<Rightarrow> (a, CPollObject p, w))"

fun Polling_Close :: "('w, 'x) poll_os_scheme \<Rightarrow> IPolling \<Rightarrow> 'w \<Rightarrow> hresult \<times> IPolling \<times> 'w" where
  "Polling_Close os (CEpollObject p) w = on_epoll (CEpoll_Close os p w)"
| "Polling_Close os (CPollObject p) w = on_cpoll w (CPoll_Close p)"

fun Polling_Add :: "('w, 'x) poll_os_scheme \<Rightarrow> int \<Rightarrow> u32 \<Rightarrow> IPolling \<Rightarrow> 'w \<Rightarrow> hresult \<times> IPolling \<times> 'w" where
  "Polling_Add os fd eventflags (CEpollObject p) w = on_epoll (CEpoll_Add os fd eventflags p w)"
| "Polling_Add os fd eventflags (CPollObject p) w = on_cpoll w (CPoll_Add fd eventflags p)"

fun Polling_Remove :: "('w, 'x) poll_os_scheme \<Rightarrow> int \<Rightarrow> IPolling \<Rightarrow> 'w \<Rightarrow> hresult \<times> IPolling \<times> 'w" where
  "Polling_Remove os fd (CEpollObject p) w = on_epoll (CEpoll_Remove os fd p w)"
| "Polling_Remove os fd (CPollObject p) w = on_cpoll w (CPoll_Remove fd p)"

fun Polling_ChangeEventSet :: "('w, 'x) poll_os_scheme \<Rightarrow> int \<Rightarrow> u32 \<Rightarrow> IPolling \<Rightarrow> 'w \<Rightarrow> hresult \<times> IPolling \<times> 'w" where
  "Polling_ChangeEventSet os fd eventflags (CEpollObject p) w = on_epoll (CEpoll_ChangeEventSet os fd eventflags p w)"
| "Polling_ChangeEventSet os fd eventflags (CPollObject p) w = on_cpoll w (CPoll_ChangeEventSet fd eventflags p)"

fun Polling_WaitForNextEvent ::
  "('w, 'x) poll_os_scheme \<Rightarrow> PollEvent \<Rightarrow> int \<Rightarrow> IPolling \<Rightarrow> 'w \<Rightarrow> hresult \<times> PollEvent \<times> IPolling \<times> 'w" where
  "Polling_WaitForNextEvent os ev timeout (CEpollObject p) w =
     (case CEpoll_WaitForNextEvent os ev timeout p w of (hr, ev, p, w) \<Rightarrow> (hr, ev, CEpollObject p, w))"
| "Polling_WaitForNextEvent os ev timeout (CPollObject p) w =
     (case CPoll_WaitForNextEvent os ev timeout p w of (hr, ev, p, w) \<Rightarrow> (hr, ev, CPollObject p, w))"

text \<open>On Linux, where \<open>HAS_EPOLL\<close> is defined. Both \<open>Initialize\<close> functions succeed, so the factory returns the object.\<close>

definition CreatePollingInstance ::
  "('w, 'x) poll_os_scheme \<Rightarrow> u32 \<Rightarrow> nat \<Rightarrow> 'w \<Rightarrow> hresult \<times> IPolling option \<times> 'w" where
  "CreatePollingInstance os ptype maxSockets w =
     (let ptype = (if ptype = IPOLLING_TYPE_BEST then IPOLLING_TYPE_EPOLL else ptype)
      in if ptype = IPOLLING_TYPE_EPOLL
         then (let (hr, p, w) = CEpoll_Initialize os maxSockets CEpoll_new w
               in if FAILED hr then (hr, None, w) else (hr, Some (CEpollObject p), w))
         else if ptype = IPOLLING_TYPE_POLL
         then (let (hr, p) = CPoll_Initialize maxSockets CPoll_new
               in if FAILED hr then (hr, None, w) else (hr, Some (CPollObject p), w))
         else (E_FAIL, None, w))"

end
