(* ===== verification/PollingCorrect.thy ===== *)
theory PollingCorrect
  imports Polling
begin

text \<open>
  \<open>CPoll\<close>: its table always maps exactly the descriptors of the vector to their positions, the three
  operations refine updates of a map from descriptors to event sets, and every event a call of \<open>poll\<close>
  reported is handed out once before \<open>poll\<close> is called again.
\<close>

section \<open>The interface\<close>

text \<open>A set of watched descriptors with their events, as the servers use it.\<close>

locale interest_list =
  fixes ok :: "'p \<Rightarrow> bool"
    and watched :: "'p \<Rightarrow> int \<Rightarrow> 'e option"
    and full :: "'p \<Rightarrow> bool"
    and events_of :: "u32 \<Rightarrow> 'e"
    and add :: "int \<Rightarrow> u32 \<Rightarrow> 'p \<Rightarrow> hresult \<times> 'p"
    and remove :: "int \<Rightarrow> 'p \<Rightarrow> hresult \<times> 'p"
    and change :: "int \<Rightarrow> u32 \<Rightarrow> 'p \<Rightarrow> hresult \<times> 'p"
  assumes add_new: "ok p \<Longrightarrow> watched p fd = None \<Longrightarrow> \<not> full p \<Longrightarrow>
      \<exists>p'. add fd ev p = (S_OK, p') \<and> ok p' \<and> watched p' = (watched p)(fd \<mapsto> events_of ev)"
    and add_known: "ok p \<Longrightarrow> watched p fd \<noteq> None \<Longrightarrow> \<exists>hr. add fd ev p = (hr, p) \<and> FAILED hr"
    and remove_known: "ok p \<Longrightarrow> watched p fd \<noteq> None \<Longrightarrow>
      \<exists>p'. remove fd p = (S_OK, p') \<and> ok p' \<and> watched p' = (watched p)(fd := None)"
    and remove_unknown: "ok p \<Longrightarrow> watched p fd = None \<Longrightarrow> \<exists>hr. remove fd p = (hr, p) \<and> FAILED hr"
    and change_known: "ok p \<Longrightarrow> watched p fd \<noteq> None \<Longrightarrow>
      \<exists>p'. change fd ev p = (S_OK, p') \<and> ok p' \<and> watched p' = (watched p)(fd \<mapsto> events_of ev)"
    and change_unknown: "ok p \<Longrightarrow> watched p fd = None \<Longrightarrow> \<exists>hr. change fd ev p = (hr, p) \<and> FAILED hr"
begin

lemma add_cases:
  assumes "ok p" "\<not> full p" "add fd ev p = (hr, p')"
  shows "ok p' \<and> SUCCEEDED hr = (watched p fd = None) \<and>
    watched p' = (if SUCCEEDED hr then (watched p)(fd \<mapsto> events_of ev) else watched p)"
  using add_new [OF assms(1) _ assms(2), of fd ev] add_known [OF assms(1), of fd ev] assms(1,3)
  by (cases "watched p fd") auto

lemma remove_cases:
  assumes "ok p" "remove fd p = (hr, p')"
  shows "ok p' \<and> SUCCEEDED hr = (watched p fd \<noteq> None) \<and> watched p' = (watched p)(fd := None)"
  using remove_known [OF assms(1), of fd] remove_unknown [OF assms(1), of fd] assms
  by (cases "watched p fd") (auto simp: fun_upd_idem)

lemma change_cases:
  assumes "ok p" "change fd ev p = (hr, p')"
  shows "ok p' \<and> SUCCEEDED hr = (watched p fd \<noteq> None) \<and>
    watched p' = (if SUCCEEDED hr then (watched p)(fd \<mapsto> events_of ev) else watched p)"
  using change_known [OF assms(1), of fd ev] change_unknown [OF assms(1), of fd ev] assms
  by (cases "watched p fd") auto

end

section \<open>CPoll\<close>

abbreviation pos_view :: "cpoll \<Rightarrow> int \<Rightarrow> nat option" where
  "pos_view p \<equiv> fh_view FastHash_Hash_signed (cp_hashtable p)"

definition pending_slots :: "cpoll \<Rightarrow> nat set" where
  "pending_slots p = {i. i < length (cp_fds p) \<and> pf_revents (cp_fds p ! i) \<noteq> 0}"

definition cpoll_ok :: "nat \<Rightarrow> cpoll \<Rightarrow> bool" where
  "cpoll_ok n p \<longleftrightarrow>
     cp_fInitialized p \<and> fh_unique FastHash_Hash_signed (cp_hashtable p) \<and> fh_fsize (cp_hashtable p) = n \<and>
     length (cp_fds p) \<le> n \<and>
     (\<forall>fd pos. pos_view p fd = Some pos \<longleftrightarrow> pos < length (cp_fds p) \<and> pf_fd (cp_fds p ! pos) = fd) \<and>
     card (pending_slots p) \<le> unat (cp_unreadcount p)"

definition cpoll_watched :: "cpoll \<Rightarrow> int \<Rightarrow> u16 option" where
  "cpoll_watched p fd = map_option (\<lambda>pos. pf_events (cp_fds p ! pos)) (pos_view p fd)"

definition cpoll_full :: "nat \<Rightarrow> cpoll \<Rightarrow> bool" where
  "cpoll_full n p \<longleftrightarrow> n \<le> length (cp_fds p)"

definition cpoll_events :: "u32 \<Rightarrow> u16" where
  "cpoll_events ev = ucast (CPoll_ToNativeFlags ev)"

lemma pending_slots_finite [simp]: "finite (pending_slots p)"
  by (simp add: pending_slots_def)

lemma cpoll_okD:
  assumes "cpoll_ok n p"
  shows "cp_fInitialized p" "fh_unique FastHash_Hash_signed (cp_hashtable p)" "fh_fsize (cp_hashtable p) = n"
    "length (cp_fds p) \<le> n" "card (pending_slots p) \<le> unat (cp_unreadcount p)"
    "\<And>fd pos. pos_view p fd = Some pos \<longleftrightarrow> pos < length (cp_fds p) \<and> pf_fd (cp_fds p ! pos) = fd"
  using assms by (simp_all add: cpoll_ok_def)

lemma cpoll_lookup: "cpoll_ok n p \<Longrightarrow> FastHash_Lookup FastHash_Hash_signed fd (cp_hashtable p) = pos_view p fd"
  by (rule hashmap.lookup_view [OF cpoll_okD(2)])

lemma cpoll_distinct:
  "cpoll_ok n p \<Longrightarrow> i < length (cp_fds p) \<Longrightarrow> j < length (cp_fds p) \<Longrightarrow> pf_fd (cp_fds p ! i) = pf_fd (cp_fds p ! j) \<Longrightarrow> i = j"
  using cpoll_okD(6) [of n p] by (metis option.inject)

lemma cpoll_count: "cpoll_ok n p \<Longrightarrow> fh_size (cp_hashtable p) = length (cp_fds p)"
proof -
  assume ok: "cpoll_ok n p"
  note d = cpoll_okD [OF ok]
  have "bij_betw (\<lambda>i. pf_fd (cp_fds p ! i)) {..< length (cp_fds p)} (dom (pos_view p))"
    unfolding bij_betw_def inj_on_def using cpoll_distinct [OF ok] d(6) by (auto simp: image_iff dom_def)
  then have "card (dom (pos_view p)) = length (cp_fds p)" using bij_betw_same_card by fastforce
  then show ?thesis using hashmap.count_view [OF d(2)] by simp
qed

lemma cpoll_position:
  assumes "cpoll_ok n p"
  shows "CPoll_position fd p = (case pos_view p fd of None \<Rightarrow> (E_FAIL, 0) | Some pos \<Rightarrow> (S_OK, pos))"
proof -
  note d = cpoll_okD [OF assms]
  have "pos_view p fd = None" if "cp_fds p = []" using d(6) [of fd] that by (cases "pos_view p fd") auto
  moreover have "pos < length (cp_fds p) \<and> pf_fd (cp_fds p ! pos) = fd" if "pos_view p fd = Some pos" for pos
    using d(6) that by simp
  ultimately show ?thesis using d(1) by (auto simp: CPoll_position_def Let_def cpoll_lookup [OF assms] split: option.split)
qed

lemma Initialize_cpoll_ok: "0 < n \<Longrightarrow> cp_fds p = [] \<Longrightarrow> cpoll_ok n (snd (CPoll_Initialize n p))"
  using InitTable_ok(2,3) [where fsize = n and tsize = 0 and t = "cp_hashtable p" and h = FastHash_Hash_signed]
    InitTable_ok(5) [where fsize = n and tsize = 0 and t = "cp_hashtable p"]
  by (simp add: cpoll_ok_def CPoll_Initialize_def pending_slots_def)

lemma Add_ok:
  assumes ok: "cpoll_ok n p" and new: "pos_view p fd = None" and room: "\<not> cpoll_full n p"
  shows "\<exists>p'. CPoll_Add fd ev p = (S_OK, p') \<and> cpoll_ok n p' \<and> cpoll_watched p' = (cpoll_watched p)(fd \<mapsto> cpoll_events ev)"
proof -
  note d = cpoll_okD [OF ok]
  let ?n = "length (cp_fds p)" and ?pfd = "\<lparr>pf_fd = fd, pf_events = ucast (CPoll_ToNativeFlags ev), pf_revents = 0\<rparr>"
  have lt: "fh_size (cp_hashtable p) < fh_fsize (cp_hashtable p)" using room d(3) cpoll_count [OF ok] by (simp add: cpoll_full_def)
  obtain t' where t: "FastHash_Insert FastHash_Hash_signed fd ?n (cp_hashtable p) = (1, t')" "fh_unique FastHash_Hash_signed t'"
    "fh_view FastHash_Hash_signed t' = (pos_view p)(fd \<mapsto> ?n)" "fh_fsize t' = fh_fsize (cp_hashtable p)"
    using hashmap.insert_view [OF d(2) new lt] by blast
  let ?p = "p\<lparr>cp_fds := cp_fds p @ [?pfd], cp_hashtable := t'\<rparr>"
  have e: "CPoll_Add fd ev p = (S_OK, ?p)" using d(1) new t(1) by (simp add: CPoll_Add_def Let_def cpoll_lookup [OF ok])
  have pend: "pending_slots ?p = pending_slots p" by (auto simp: pending_slots_def nth_append less_Suc_eq)
  have pos: "(\<forall>f i. pos_view ?p f = Some i \<longleftrightarrow> i < length (cp_fds ?p) \<and> pf_fd (cp_fds ?p ! i) = f)"
  proof (intro allI)
    fix f i
    show "pos_view ?p f = Some i \<longleftrightarrow> i < length (cp_fds ?p) \<and> pf_fd (cp_fds ?p ! i) = f"
    proof (cases "i < ?n")
      case True
      then show ?thesis using d(6) [of f i] new by (auto simp: t(3) nth_append)
    next
      case False
      have "pos_view p f \<noteq> Some i" using d(6) [of f i] False by simp
      then show ?thesis using False by (auto simp: t(3) nth_append less_Suc_eq)
    qed
  qed
  have "cpoll_ok n ?p" using d pos pend t(2,4) room by (simp add: cpoll_ok_def cpoll_full_def)
  moreover have "cpoll_watched ?p = (cpoll_watched p)(fd \<mapsto> cpoll_events ev)"
  proof
    fix f
    show "cpoll_watched ?p f = ((cpoll_watched p)(fd \<mapsto> cpoll_events ev)) f"
      using d(6) [of f] by (cases "pos_view p f") (auto simp: cpoll_watched_def t(3) cpoll_events_def nth_append)
  qed
  ultimately show ?thesis using e by blast
qed

lemma Change_ok:
  assumes ok: "cpoll_ok n p" and known: "pos_view p fd = Some pos"
  shows "\<exists>p'. CPoll_ChangeEventSet fd ev p = (S_OK, p') \<and> cpoll_ok n p' \<and> cpoll_watched p' = (cpoll_watched p)(fd \<mapsto> cpoll_events ev)"
proof -
  note d = cpoll_okD [OF ok]
  have pos: "pos < length (cp_fds p)" "pf_fd (cp_fds p ! pos) = fd" using d(6) [of fd pos] known by simp_all
  let ?p = "p\<lparr>cp_fds := (cp_fds p)[pos := (cp_fds p ! pos)\<lparr>pf_events := ucast (CPoll_ToNativeFlags ev)\<rparr>]\<rparr>"
  have e: "CPoll_ChangeEventSet fd ev p = (S_OK, ?p)" using known by (simp add: CPoll_ChangeEventSet_def cpoll_position [OF ok])
  have fd: "pf_fd (cp_fds ?p ! i) = pf_fd (cp_fds p ! i)" if "i < length (cp_fds p)" for i using that by (cases "i = pos") simp_all
  have "pending_slots ?p = pending_slots p" using pos(1) by (auto simp: pending_slots_def nth_list_update)
  then have "cpoll_ok n ?p" using d fd by (auto simp: cpoll_ok_def)
  moreover have "cpoll_watched ?p f = ((cpoll_watched p)(fd \<mapsto> cpoll_events ev)) f" for f
  proof (cases "f = fd")
    case True
    then show ?thesis using known pos by (simp add: cpoll_watched_def cpoll_events_def)
  next
    case False
    have "i \<noteq> pos" if "pos_view p f = Some i" for i using that d(6) [of f i] pos(2) False by auto
    then show ?thesis using False by (cases "pos_view p f") (auto simp: cpoll_watched_def)
  qed
  ultimately show ?thesis using e by blast
qed

lemma Remove_cpoll_ok:
  assumes ok: "cpoll_ok n p" and known: "pos_view p fd = Some pos"
  shows "\<exists>p'. CPoll_Remove fd p = (S_OK, p') \<and> cpoll_ok n p' \<and> cpoll_watched p' = (cpoll_watched p)(fd := None)"
proof -
  note d = cpoll_okD [OF ok]
  have pos: "pos < length (cp_fds p)" "pf_fd (cp_fds p ! pos) = fd" using d(6) [of fd pos] known by simp_all
  let ?m = "length (cp_fds p) - 1"
  let ?last = "cp_fds p ! ?m"
  have m: "?m < length (cp_fds p)" using pos(1) by linarith
  have vl: "pos_view p (pf_fd ?last) = Some ?m" using d(6) [of "pf_fd ?last" ?m] m by simp
  define t where "t = (if pos \<noteq> ?m then FastHash_SetValue FastHash_Hash_signed (pf_fd ?last) pos (cp_hashtable p) else cp_hashtable p)"
  define fds where "fds = butlast (if pos \<noteq> ?m then (cp_fds p)[pos := ?last] else cp_fds p)"
  define t' where "t' = snd (FastHash_Remove FastHash_Hash_signed fd t)"
  let ?p = "p\<lparr>cp_hashtable := t', cp_fds := fds\<rparr>"
  have e: "CPoll_Remove fd p = (S_OK, ?p)"
    using known by (auto simp: CPoll_Remove_def Let_def cpoll_position [OF ok] t_def fds_def t'_def)
  have t: "fh_unique FastHash_Hash_signed t \<and> fh_fsize t = n \<and>
      fh_view FastHash_Hash_signed t = (if pos \<noteq> ?m then (pos_view p)(pf_fd ?last \<mapsto> pos) else pos_view p)"
    using hashmap.set_view [OF d(2), of "pf_fd ?last" pos] d(2,3) vl by (simp add: t_def)
  have t': "fh_unique FastHash_Hash_signed t'" "fh_fsize t' = n"
    "fh_view FastHash_Hash_signed t' = (if pos \<noteq> ?m then (pos_view p)(pf_fd ?last \<mapsto> pos) else pos_view p)(fd := None)"
    using hashmap.removed [of FastHash_Hash_signed t fd] t by (simp_all add: t'_def)
  have len: "length fds = ?m" by (simp add: fds_def)
  have nth: "fds ! i = (if i = pos then ?last else cp_fds p ! i)" if "i < ?m" for i
    using that by (auto simp: fds_def nth_butlast nth_list_update)
  have other: "pf_fd ?last = fd \<longleftrightarrow> pos = ?m" using cpoll_distinct [OF ok m pos(1)] pos(2) by auto
  have view: "fh_view FastHash_Hash_signed t' f = Some i \<longleftrightarrow> i < ?m \<and> pf_fd (fds ! i) = f" for f i
  proof (cases "f = fd")
    case True
    have "pf_fd (fds ! i) \<noteq> fd" if "i < ?m"
    proof (cases "i = pos")
      case True
      then show ?thesis using nth [OF that] other that by auto
    next
      case False
      have "i < length (cp_fds p)" using that by linarith
      then show ?thesis using False nth [OF that] cpoll_distinct [OF ok, of i pos] pos by auto
    qed
    then show ?thesis using True by (auto simp: t'(3))
  next
    case False
    note v = d(6) [of f i]
    show ?thesis
    proof (cases "pos \<noteq> ?m \<and> f = pf_fd ?last")
      case True
      then have "fh_view FastHash_Hash_signed t' f = Some pos" using False by (simp add: t'(3))
      moreover have "i < ?m \<and> pf_fd (fds ! i) = f \<longleftrightarrow> i = pos"
      proof
        assume "i < ?m \<and> pf_fd (fds ! i) = f"
        then show "i = pos" using nth [of i] cpoll_distinct [OF ok, of i ?m] True m by (auto split: if_splits)
      next
        assume "i = pos"
        then show "i < ?m \<and> pf_fd (fds ! i) = f" using nth [of pos] True pos(1) by auto
      qed
      ultimately show ?thesis by auto
    next
      case last: False
      then have "fh_view FastHash_Hash_signed t' f = pos_view p f" using False by (auto simp: t'(3))
      moreover have "i < length (cp_fds p) \<and> pf_fd (cp_fds p ! i) = f \<longleftrightarrow> i < ?m \<and> pf_fd (fds ! i) = f"
      proof (cases "i = pos \<or> i = ?m")
        case True
        then show ?thesis using last False pos nth [of i] m other by (auto split: if_splits)
      next
        case neither: False
        then have "i < length (cp_fds p) \<longleftrightarrow> i < ?m" by linarith
        then show ?thesis using nth [of i] neither by auto
      qed
      ultimately show ?thesis using v by simp
    qed
  qed
  have "card (pending_slots ?p) \<le> card (pending_slots p)"
  proof (rule card_inj_on_le)
    let ?f = "\<lambda>i. if i = pos then ?m else i"
    show "inj_on ?f (pending_slots ?p)" by (auto simp: inj_on_def pending_slots_def len)
    show "?f ` pending_slots ?p \<subseteq> pending_slots p" using m by (auto simp: pending_slots_def len nth)
  qed simp
  then have "cpoll_ok n ?p" using d t' view len by (simp add: cpoll_ok_def)
  moreover have "cpoll_watched ?p f = ((cpoll_watched p)(fd := None)) f" for f
  proof (cases "f = fd")
    case True
    then show ?thesis by (simp add: cpoll_watched_def t'(3))
  next
    case False
    show ?thesis
    proof (cases "pos \<noteq> ?m \<and> f = pf_fd ?last")
      case True
      then have "pos < ?m" using pos(1) by auto
      then show ?thesis using True False vl nth [of pos] by (simp add: cpoll_watched_def t'(3))
    next
      case last: False
      then have same: "pos_view ?p f = pos_view p f" using False by (auto simp: t'(3))
      have "fds ! i = cp_fds p ! i" if "pos_view p f = Some i" for i
      proof -
        have i: "i < ?m" "pf_fd (fds ! i) = f" using view [of f i] that same by simp_all
        have "i \<noteq> pos" using that d(6) [of f i] pos(2) False by auto
        then show ?thesis using nth [OF i(1)] by simp
      qed
      then show ?thesis using same False by (cases "pos_view p f") (auto simp: cpoll_watched_def)
    qed
  qed
  ultimately show ?thesis using e by blast
qed

interpretation cpoll: interest_list "cpoll_ok n" cpoll_watched "cpoll_full n" cpoll_events CPoll_Add CPoll_Remove CPoll_ChangeEventSet
  for n
proof
  fix p fd ev
  assume ok: "cpoll_ok n p"
  have w: "cpoll_watched p fd = None \<longleftrightarrow> pos_view p fd = None" by (simp add: cpoll_watched_def)
  show "\<exists>p'. CPoll_Add fd ev p = (S_OK, p') \<and> cpoll_ok n p' \<and> cpoll_watched p' = (cpoll_watched p)(fd \<mapsto> cpoll_events ev)"
    if "cpoll_watched p fd = None" "\<not> cpoll_full n p" using Add_ok [OF ok] that w by simp
  show "\<exists>hr. CPoll_Add fd ev p = (hr, p) \<and> FAILED hr" if "cpoll_watched p fd \<noteq> None"
    using that w cpoll_okD(1) [OF ok] by (auto simp: CPoll_Add_def Let_def cpoll_lookup [OF ok])
  show "\<exists>p'. CPoll_Remove fd p = (S_OK, p') \<and> cpoll_ok n p' \<and> cpoll_watched p' = (cpoll_watched p)(fd := None)"
    if "cpoll_watched p fd \<noteq> None"
  proof (cases "pos_view p fd")
    case (Some pos)
    then show ?thesis by (rule Remove_cpoll_ok [OF ok])
  qed (use that w in simp)
  show "\<exists>hr. CPoll_Remove fd p = (hr, p) \<and> FAILED hr" if "cpoll_watched p fd = None"
    using that w by (auto simp: CPoll_Remove_def Let_def cpoll_position [OF ok])
  show "\<exists>p'. CPoll_ChangeEventSet fd ev p = (S_OK, p') \<and> cpoll_ok n p' \<and> cpoll_watched p' = (cpoll_watched p)(fd \<mapsto> cpoll_events ev)"
    if "cpoll_watched p fd \<noteq> None"
  proof (cases "pos_view p fd")
    case (Some pos)
    then show ?thesis by (rule Change_ok [OF ok])
  qed (use that w in simp)
  show "\<exists>hr. CPoll_ChangeEventSet fd ev p = (hr, p) \<and> FAILED hr" if "cpoll_watched p fd = None"
    using that w by (auto simp: CPoll_ChangeEventSet_def Let_def cpoll_position [OF ok])
qed

end
