(* ===== verification/PollEvents.thy ===== *)
theory PollEvents
  imports PollingCorrect
begin

text \<open>
  What \<open>WaitForNextEvent\<close> of \<open>CPoll\<close> hands out: the events of one call of \<open>poll\<close>, each once, and the states
  an object can reach through all its operations.
\<close>

section \<open>Pending events\<close>

definition pending_events :: "cpoll \<Rightarrow> pollfd list" where
  "pending_events p = filter (\<lambda>x. pf_revents x \<noteq> 0) (cp_fds p)"

definition event_of :: "pollfd \<Rightarrow> PollEvent" where
  "event_of x = \<lparr>pe_fd = pf_fd x, pe_eventflags = CPoll_FromNativeFlags (scast (pf_revents x))\<rparr>"

lemma card_pending: "card (pending_slots p) = length (pending_events p)"
  by (simp add: pending_slots_def pending_events_def length_filter_conv_card)

lemma find_event_hit:
  "find_event fds r is = Some s \<Longrightarrow> fds \<noteq> [] \<Longrightarrow> s < length fds \<and> pf_revents (fds ! s) \<noteq> 0"
  by (induction "is") (auto simp: Let_def split: if_splits)

lemma find_event_miss:
  "find_event fds r is = None \<longleftrightarrow> (\<forall>i \<in> set is. pf_revents (fds ! ((i + r) mod length fds)) = 0)"
  by (induction "is") (auto simp: Let_def)

text \<open>The rotated walk visits every position.\<close>

lemma rotated_all:
  fixes n r j :: nat
  assumes "j < n" "r < n"
  shows "\<exists>i < n. (i + r) mod n = j"
proof (cases "r \<le> j")
  case True
  then show ?thesis using assms by (intro exI [of _ "j - r"]) simp
next
  case False
  then have "(j + n - r + r) mod n = j" "j + n - r < n" using assms by simp_all
  then show ?thesis by blast
qed

lemma filter_clear:
  "s < length xs \<Longrightarrow> pf_revents (xs ! s) \<noteq> 0 \<Longrightarrow>
   mset (filter (\<lambda>x. pf_revents x \<noteq> 0) xs) =
     add_mset (xs ! s) (mset (filter (\<lambda>x. pf_revents x \<noteq> 0) (xs[s := (xs ! s)\<lparr>pf_revents := 0\<rparr>])))"
proof (induction xs arbitrary: s)
  case (Cons x xs)
  then show ?case by (cases s) auto
qed simp

lemma FindNextEvent_some:
  assumes "pending_events p \<noteq> []" "cp_unreadcount p \<noteq> 0"
  shows "\<exists>s. s < length (cp_fds p) \<and> pf_revents (cp_fds p ! s) \<noteq> 0 \<and>
    (\<forall>ev. FindNextEvent ev p = (True, event_of (cp_fds p ! s),
      p\<lparr>cp_fds := (cp_fds p)[s := (cp_fds p ! s)\<lparr>pf_revents := 0\<rparr>],
        cp_rotation := (if length (cp_fds p) \<le> unat (cp_rotation p) then 0 else cp_rotation p) + 1,
        cp_unreadcount := cp_unreadcount p - 1\<rparr>))"
proof -
  let ?n = "length (cp_fds p)"
  let ?r = "if ?n \<le> unat (cp_rotation p) then 0 else cp_rotation p"
  let ?q = "if ?n \<le> unat (cp_rotation p) then p\<lparr>cp_rotation := 0\<rparr> else p"
  obtain x where "x \<in> set (cp_fds p)" "pf_revents x \<noteq> 0" using assms(1) by (auto simp: pending_events_def filter_empty_conv)
  then obtain j where j: "j < ?n" "pf_revents (cp_fds p ! j) \<noteq> 0" by (auto simp: in_set_conv_nth)
  have ne: "cp_fds p \<noteq> []" using j(1) by auto
  have r: "unat ?r < ?n" using j(1) ne by simp
  obtain i where "i < ?n" "(i + unat ?r) mod ?n = j" using rotated_all [OF j(1) r] by blast
  then have "find_event (cp_fds p) (unat ?r) [0 ..< ?n] \<noteq> None" using j(2) unfolding find_event_miss by auto
  then obtain s where s: "find_event (cp_fds p) (unat ?r) [0 ..< ?n] = Some s" by blast
  have q: "cp_fds ?q = cp_fds p" "cp_rotation ?q = ?r" "cp_unreadcount ?q = cp_unreadcount p" by simp_all
  have "FindNextEvent ev p = (True, event_of (cp_fds ?q ! s), ?q\<lparr>cp_fds := (cp_fds ?q)[s := (cp_fds ?q ! s)\<lparr>pf_revents := 0\<rparr>],
      cp_rotation := cp_rotation ?q + 1, cp_unreadcount := cp_unreadcount ?q - 1\<rparr>)" for ev
    unfolding FindNextEvent_def Let_def using assms(2) s by (simp only: q if_False option.case event_of_def)
  then show ?thesis using find_event_hit [OF s ne] by (intro exI [of _ s]) (auto split: if_splits)
qed

lemma FindNextEvent_none:
  assumes "pending_events p = []"
  shows "\<exists>r. FindNextEvent ev p = (False, ev, p\<lparr>cp_rotation := r\<rparr>)"
proof -
  let ?n = "length (cp_fds p)"
  have z: "pf_revents (cp_fds p ! i) = 0" if "i < ?n" for i
    using assms that by (auto simp: pending_events_def filter_empty_conv)
  have "(i + r) mod ?n < ?n" if "i < ?n" for i r using that by (intro mod_less_divisor) linarith
  then have miss: "find_event (cp_fds p) r [0 ..< ?n] = None" for r
    unfolding find_event_miss using z by simp
  have "FindNextEvent ev p = (False, ev, p\<lparr>cp_rotation := (if cp_unreadcount p = 0 \<or> \<not> ?n \<le> unat (cp_rotation p) then cp_rotation p else 0)\<rparr>)"
    by (simp add: FindNextEvent_def Let_def miss)
  then show ?thesis by blast
qed

section \<open>One call\<close>

lemma ok_after_event:
  assumes ok: "cpoll_ok n p" and s: "s < length (cp_fds p)" "pf_revents (cp_fds p ! s) \<noteq> 0" and u: "cp_unreadcount p \<noteq> 0"
    and p': "p' = p\<lparr>cp_fds := (cp_fds p)[s := (cp_fds p ! s)\<lparr>pf_revents := 0\<rparr>], cp_rotation := r, cp_unreadcount := cp_unreadcount p - 1\<rparr>"
  shows "cpoll_ok n p'" "cpoll_watched p' = cpoll_watched p"
    "mset (pending_events p) = add_mset (cp_fds p ! s) (mset (pending_events p'))"
proof -
  note d = cpoll_okD [OF ok]
  have fd: "pf_fd (cp_fds p' ! i) = pf_fd (cp_fds p ! i)" "pf_events (cp_fds p' ! i) = pf_events (cp_fds p ! i)" if "i < length (cp_fds p)" for i
    using that s(1) by (simp_all add: p' nth_list_update)
  show m: "mset (pending_events p) = add_mset (cp_fds p ! s) (mset (pending_events p'))"
    using filter_clear [OF s] by (simp add: pending_events_def p')
  then have "length (pending_events p) = Suc (length (pending_events p'))" by (metis size_add_mset size_mset)
  moreover have "unat (cp_unreadcount p - 1) = unat (cp_unreadcount p) - 1" using u by (simp add: unat_minus_one)
  ultimately have "card (pending_slots p') \<le> unat (cp_unreadcount p')" using d(5) by (simp add: card_pending p')
  then show "cpoll_ok n p'" using d fd by (auto simp: cpoll_ok_def p')
  show "cpoll_watched p' = cpoll_watched p"
  proof
    fix f
    show "cpoll_watched p' f = cpoll_watched p f"
    proof (cases "pos_view p f")
      case (Some i)
      then have "i < length (cp_fds p)" using d(6) [of f i] by simp
      then show ?thesis using Some fd(2) [of i] by (simp add: cpoll_watched_def) (simp add: p')
    qed (simp add: cpoll_watched_def p')
  qed
qed

lemma wait_delivers:
  assumes ok: "cpoll_ok n p" and pend: "pending_events p \<noteq> []"
  shows "\<exists>x p'. (\<forall>ev w. CPoll_WaitForNextEvent os ev t p w = (S_OK, event_of x, p', w)) \<and> cpoll_ok n p' \<and>
    cpoll_watched p' = cpoll_watched p \<and> mset (pending_events p) = add_mset x (mset (pending_events p'))"
proof -
  note d = cpoll_okD [OF ok]
  have u: "cp_unreadcount p \<noteq> 0" using d(5) pend by (auto simp: card_pending)
  from FindNextEvent_some [OF pend u] obtain s p' r where s: "s < length (cp_fds p)" "pf_revents (cp_fds p ! s) \<noteq> 0"
    and f: "\<And>ev. FindNextEvent ev p = (True, event_of (cp_fds p ! s), p')"
    and p': "p' = p\<lparr>cp_fds := (cp_fds p)[s := (cp_fds p ! s)\<lparr>pf_revents := 0\<rparr>], cp_rotation := r, cp_unreadcount := cp_unreadcount p - 1\<rparr>"
    by blast
  have "CPoll_WaitForNextEvent os ev t p w = (S_OK, event_of (cp_fds p ! s), p', w)" for ev w
    using d(1) s(1) by (auto simp: CPoll_WaitForNextEvent_def Let_def f)
  then show ?thesis using ok_after_event [OF ok s u p'] by blast
qed

text \<open>What the manual page of \<open>poll\<close> promises: one result for each descriptor, as many of them set as it returns.\<close>

definition poll_ok :: "('w, 'x) poll_os_scheme \<Rightarrow> bool" where
  "poll_ok os \<longleftrightarrow> (\<forall>fds t w. case os_poll os fds t w of (ret, evs, w') \<Rightarrow>
     length evs = length fds \<and> ret \<le> int (length fds) \<and>
     (if ret < 0 then evs = map pf_revents fds else ret = int (length (filter (\<lambda>ev. ev \<noteq> 0) evs))))"

lemma ok_revents:
  assumes ok: "cpoll_ok n p" and len: "length evs = length (cp_fds p)" and u: "length (filter (\<lambda>ev. ev \<noteq> 0) evs) \<le> unat u"
  shows "cpoll_ok n (p\<lparr>cp_fds := set_revents (cp_fds p) evs, cp_rotation := r, cp_unreadcount := u\<rparr>)"
    "cpoll_watched (p\<lparr>cp_fds := set_revents (cp_fds p) evs, cp_rotation := r, cp_unreadcount := u\<rparr>) = cpoll_watched p"
    "map pf_revents (set_revents (cp_fds p) evs) = evs"
proof -
  note d = cpoll_okD [OF ok]
  let ?p = "p\<lparr>cp_fds := set_revents (cp_fds p) evs, cp_rotation := r, cp_unreadcount := u\<rparr>"
  have l: "length (set_revents (cp_fds p) evs) = length (cp_fds p)" using len by (simp add: set_revents_def)
  have nth: "set_revents (cp_fds p) evs ! i = (cp_fds p ! i)\<lparr>pf_revents := evs ! i\<rparr>" if "i < length (cp_fds p)" for i
    using that len by (simp add: set_revents_def)
  show m: "map pf_revents (set_revents (cp_fds p) evs) = evs" using nth len l by (intro nth_equalityI) simp_all
  have "length (filter (\<lambda>x. pf_revents x \<noteq> 0) (set_revents (cp_fds p) evs)) = length (filter (\<lambda>ev. ev \<noteq> 0) evs)"
    by (subst m [symmetric]) (simp add: filter_map comp_def)
  then have "card (pending_slots ?p) \<le> unat u" using u by (simp add: card_pending pending_events_def)
  moreover have "\<forall>f i. pos_view p f = Some i \<longleftrightarrow> i < length (cp_fds p) \<and> pf_fd (set_revents (cp_fds p) evs ! i) = f"
    using d(6) nth by auto
  ultimately show "cpoll_ok n ?p" using d(1-4) l by (simp add: cpoll_ok_def)
  show "cpoll_watched ?p = cpoll_watched p"
  proof
    fix f
    show "cpoll_watched ?p f = cpoll_watched p f"
    proof (cases "pos_view p f")
      case (Some i)
      then have "i < length (cp_fds p)" using d(6) [of f i] by simp
      then show ?thesis using Some nth [of i] by (simp add: cpoll_watched_def)
    qed (simp add: cpoll_watched_def)
  qed
qed

lemma ERRNOHR_not_ok: "ERRNOHR e \<noteq> 0"
proof
  assume "ERRNOHR e = 0"
  with FAILED_ERRNOHR [of e] show False by (simp add: FAILED_def SUCCEEDED_def)
qed

lemma wait_cpoll_ok:
  assumes os: "poll_ok os" and ok: "cpoll_ok n p" and n: "n < 2 ^ 32"
    and c: "CPoll_WaitForNextEvent os ev t p w = (hr, ev', p', w')"
  shows "cpoll_ok n p' \<and> cpoll_watched p' = cpoll_watched p \<and> (hr = S_OK \<longrightarrow> cpoll_watched p (pe_fd ev') \<noteq> None)"
proof (cases "pending_events p = []")
  case False
  from wait_delivers [OF ok False, of os t] obtain x q where x: "\<And>ev w. CPoll_WaitForNextEvent os ev t p w = (S_OK, event_of x, q, w)"
    "cpoll_ok n q" "cpoll_watched q = cpoll_watched p" "mset (pending_events p) = add_mset x (mset (pending_events q))" by blast
  have "x \<in># mset (pending_events p)" by (simp add: x(4))
  then obtain i where "i < length (cp_fds p)" "cp_fds p ! i = x" by (auto simp: pending_events_def in_set_conv_nth)
  then have "pos_view p (pf_fd x) = Some i" using cpoll_okD(6) [OF ok] by auto
  moreover have "hr = S_OK" "ev' = event_of x" "p' = q" using c x(1) by simp_all
  ultimately show ?thesis using x(2,3) by (simp add: event_of_def cpoll_watched_def)
next
  case True
  note d = cpoll_okD [OF ok]
  let ?ev = "ev\<lparr>pe_eventflags := 0\<rparr>"
  obtain r where f: "FindNextEvent ?ev p = (False, ?ev, p\<lparr>cp_rotation := r\<rparr>)" using FindNextEvent_none [OF True] by blast
  show ?thesis
  proof (cases "length (cp_fds p) = 0")
    case True
    then show ?thesis using c d(1) ok by (simp add: CPoll_WaitForNextEvent_def S_FALSE_def S_OK_def)
  next
    case False
    obtain ret evs w1 where o: "os_poll os (cp_fds p) t w = (ret, evs, w1)" by (metis prod_cases3)
    have po: "length evs = length (cp_fds p)" "ret \<le> int (length (cp_fds p))"
      "ret < 0 \<Longrightarrow> evs = map pf_revents (cp_fds p)" "\<not> ret < 0 \<Longrightarrow> ret = int (length (filter (\<lambda>ev. ev \<noteq> 0) evs))"
      using os [unfolded poll_ok_def, THEN spec, THEN spec, THEN spec, of "cp_fds p" t w] o by (simp_all split: if_splits)
    have none: "filter (\<lambda>ev. ev \<noteq> 0) (map pf_revents (cp_fds p)) = []"
      using True by (simp add: pending_events_def filter_map comp_def)
    define q where "q = p\<lparr>cp_fds := set_revents (cp_fds p) evs, cp_rotation := r, cp_unreadcount := (if ret < 0 then 0 else of_int ret)\<rparr>"
    have small: "unat (of_int ret :: u32) = nat ret" if "0 \<le> ret"
    proof -
      from that obtain k where k: "ret = int k" by (rule nonneg_int_cases)
      then have "k \<le> n" using po(2) d(4) by simp
      then have "k < 2 ^ 32" using n by (rule le_less_trans)
      then show ?thesis by (simp add: k unat_of_nat)
    qed
    have "length (filter (\<lambda>ev. ev \<noteq> 0) evs) \<le> unat (if ret < 0 then 0 else of_int ret :: u32)"
      using po(3,4) none small by (cases "ret < 0") auto
    note q = ok_revents(1,2) [OF ok po(1) this, where r = r, folded q_def] ok_revents(3) [OF ok po(1) this]
    show ?thesis
    proof (cases "ret \<le> 0")
      case le: True
      then have "p' = q \<and> hr \<noteq> S_OK"
        using c False d(1) o ERRNOHR_not_ok [of "os_errno os w1"]
        by (auto simp: CPoll_WaitForNextEvent_def Let_def f q_def S_FALSE_def S_OK_def split: if_splits)
      then show ?thesis using q(1,2) by simp
    next
      case gt: False
      have pend: "pending_events q \<noteq> []"
      proof -
        have "filter (\<lambda>ev. ev \<noteq> 0) evs \<noteq> []" using po(4) gt by auto
        then have "filter (\<lambda>ev. ev \<noteq> 0) (map pf_revents (set_revents (cp_fds p) evs)) \<noteq> []" by (simp only: q(3) not_False_eq_True)
        then show ?thesis by (simp add: pending_events_def q_def filter_map comp_def)
      qed
      have u: "cp_unreadcount q \<noteq> 0" using cpoll_okD(5) [OF q(1)] pend by (auto simp: card_pending)
      from FindNextEvent_some [OF pend u] obtain s q' r' where s: "s < length (cp_fds q)" "pf_revents (cp_fds q ! s) \<noteq> 0"
        and fe: "\<And>ev. FindNextEvent ev q = (True, event_of (cp_fds q ! s), q')"
        and q': "q' = q\<lparr>cp_fds := (cp_fds q)[s := (cp_fds q ! s)\<lparr>pf_revents := 0\<rparr>], cp_rotation := r', cp_unreadcount := cp_unreadcount q - 1\<rparr>"
        by blast
      note oe = ok_after_event [OF q(1) s u q']
      have qe: "p\<lparr>cp_rotation := r, cp_fds := set_revents (cp_fds p) evs, cp_unreadcount := word_of_int ret\<rparr> = q" using gt by (simp add: q_def)
      have "p' = q'" "ev' = event_of (cp_fds q ! s)"
        using c False d(1) o gt by (simp_all add: CPoll_WaitForNextEvent_def Let_def f qe fe)
      moreover have "pos_view q (pf_fd (cp_fds q ! s)) = Some s" using cpoll_okD(6) [OF q(1)] s(1) by auto
      then have "cpoll_watched q (pf_fd (cp_fds q ! s)) \<noteq> None" by (simp add: cpoll_watched_def)
      ultimately show ?thesis using oe(1,2) q(2) by (simp add: event_of_def)
    qed
  qed
qed

section \<open>Many calls\<close>

fun next_events :: "('w, 'x) poll_os_scheme \<Rightarrow> int \<Rightarrow> nat \<Rightarrow> cpoll \<Rightarrow> 'w \<Rightarrow> (hresult \<times> PollEvent) list \<times> cpoll \<times> 'w" where
  "next_events os t 0 p w = ([], p, w)"
| "next_events os t (Suc k) p w =
     (let (hr, ev, p, w) = CPoll_WaitForNextEvent os PollEvent_zero t p w; (evs, p, w) = next_events os t k p w
      in ((hr, ev) # evs, p, w))"

lemma next_events_deliver:
  "cpoll_ok n p \<Longrightarrow> \<exists>evs p'. next_events os t (length (pending_events p)) p w = (map (Pair S_OK) evs, p', w) \<and>
     mset evs = mset (map event_of (pending_events p)) \<and> pending_events p' = [] \<and> cpoll_ok n p' \<and> cpoll_watched p' = cpoll_watched p"
proof (induction "length (pending_events p)" arbitrary: p)
  case 0
  then show ?case by (intro exI [of _ "[]"]) simp
next
  case (Suc k)
  then have ne: "pending_events p \<noteq> []" by auto
  from wait_delivers [OF Suc.prems ne, of os t] obtain x q where x: "\<And>ev w. CPoll_WaitForNextEvent os ev t p w = (S_OK, event_of x, q, w)"
    "cpoll_ok n q" "cpoll_watched q = cpoll_watched p" "mset (pending_events p) = add_mset x (mset (pending_events q))" by blast
  have k: "k = length (pending_events q)" using x(4) Suc.hyps(2) by (metis size_add_mset size_mset nat.inject)
  obtain evs p' where e: "next_events os t k q w = (map (Pair S_OK) evs, p', w)" "mset evs = mset (map event_of (pending_events q))"
    "pending_events p' = []" "cpoll_ok n p'" "cpoll_watched p' = cpoll_watched q" using Suc.hyps(1) [OF k x(2)] k by blast
  have "next_events os t (length (pending_events p)) p w = (map (Pair S_OK) (event_of x # evs), p', w)"
    using e(1) by (simp add: Suc.hyps(2) [symmetric] x(1))
  moreover have "mset (event_of x # evs) = mset (map event_of (pending_events p))" using e(2) x(4) by simp
  ultimately show ?case using e(3-5) x(3) by (intro exI [of _ "event_of x # evs"] exI [of _ p']) simp
qed

text \<open>
  The states of an object in use: after one \<open>Initialize\<close>, through the operations on its descriptors, never holding
  more than it was initialized for. \<open>Close\<close>, which clears the vector and leaves the hash table as it is, ends the use.
\<close>

inductive cpoll_used :: "('w, 'x) poll_os_scheme \<Rightarrow> nat \<Rightarrow> cpoll \<Rightarrow> bool" for os n where
  used_init: "cpoll_used os n (snd (CPoll_Initialize n CPoll_new))"
| used_add: "cpoll_used os n p \<Longrightarrow> length (cp_fds p) < n \<Longrightarrow> cpoll_used os n (snd (CPoll_Add fd ev p))"
| used_remove: "cpoll_used os n p \<Longrightarrow> cpoll_used os n (snd (CPoll_Remove fd p))"
| used_change: "cpoll_used os n p \<Longrightarrow> cpoll_used os n (snd (CPoll_ChangeEventSet fd ev p))"
| used_wait: "cpoll_used os n p \<Longrightarrow> CPoll_WaitForNextEvent os ev t p w = (hr, ev', p', w') \<Longrightarrow> cpoll_used os n p'"

lemma cpoll_used_ok:
  assumes "cpoll_used os n p" "poll_ok os" "0 < n" "n < 2 ^ 32"
  shows "cpoll_ok n p"
  using assms(1)
proof induction
  case used_init
  show ?case by (rule Initialize_cpoll_ok [OF assms(3)]) (simp add: CPoll_new_def)
next
  case (used_add p fd ev)
  then show ?case using cpoll.add_cases [of n p fd ev] by (metis cpoll_full_def not_le prod.collapse)
next
  case (used_remove p fd)
  then show ?case using cpoll.remove_cases [of n p fd] by (metis prod.collapse)
next
  case (used_change p fd ev)
  then show ?case using cpoll.change_cases [of n p fd ev] by (metis prod.collapse)
next
  case (used_wait p ev t w hr ev' p' w')
  then show ?case using wait_cpoll_ok [OF assms(2) _ assms(4)] by blast
qed

section \<open>Flags\<close>

lemma and_single_bit: "f AND 2 ^ k = of_bool (bit f k) * (2 ^ k :: u32)"
  by (rule bit_word_eqI) (auto simp: bit_simps)

lemma poll_flags_roundtrip:
  "CPoll_FromNativeFlags (CPoll_ToNativeFlags f) = f AND (IPOLLING_READ OR IPOLLING_WRITE OR IPOLLING_RDHUP OR IPOLLING_HUP OR IPOLLING_PRI OR IPOLLING_ERROR)"
proof -
  note b = and_single_bit [of f 0] and_single_bit [of f 1] and_single_bit [of f 3] and_single_bit [of f 4] and_single_bit [of f 5] and_single_bit [of f 6]
  have "f AND 0x7B = (f AND 1) OR (f AND 2) OR (f AND 8) OR (f AND 16) OR (f AND 32) OR (f AND 64)"
    by (simp flip: bit.conj_disj_distrib)
  then show ?thesis
    using b by (cases "bit f 0"; cases "bit f 1"; cases "bit f 3"; cases "bit f 4"; cases "bit f 5"; cases "bit f 6")
      (simp_all add: CPoll_FromNativeFlags_def CPoll_ToNativeFlags_def convert_flags_def poll_flags_def
        IPOLLING_READ_def IPOLLING_WRITE_def IPOLLING_RDHUP_def IPOLLING_HUP_def IPOLLING_PRI_def IPOLLING_ERROR_def)
qed

end
