(* ===== verification/PollTheorems.thy ===== *)
theory PollTheorems
  imports PollEvents
begin

text \<open>The properties of the polling object that is built on \<open>poll\<close> and of the hash table under it.\<close>

section \<open>A system for the examples\<close>

text \<open>Every watched descriptor is always readable.\<close>

definition demo_poll_os :: "unit poll_os" where
  "demo_poll_os =
     \<lparr>os_errno = (\<lambda>w. 22), os_socket = (\<lambda>fam ty w. (-1, w)), os_setsockopt = (\<lambda>fd level opt v w. (0, w)),
      os_bind = (\<lambda>fd a w. (0, w)), os_close = (\<lambda>fd w. w), os_getsockname = (\<lambda>fd w. None), os_getpeername = (\<lambda>fd w. None),
      os_getfl = (\<lambda>fd w. (0, w)), os_setfl = (\<lambda>fd fl w. (0, w)),
      os_recvmsg = (\<lambda>fd n flags w. (\<lparr>rm_ret = -1, rm_data = [], rm_name = CSocketAddress_default, rm_control = []\<rparr>, w)),
      os_sendto = (\<lambda>fd d a w. (-1, w)), os_select = (\<lambda>fds w. (0, fds, w)), os_pthread_create = (\<lambda>w. (0, w)),
      os_pthread_join = (\<lambda>w. w), os_epoll_create = (\<lambda>n w. (-1, w)), os_epoll_ctl = (\<lambda>ep op fd ev w. (-1, w)),
      os_epoll_wait = (\<lambda>ep n t w. (-1, [], w)), os_poll = (\<lambda>fds t w. (int (length fds), replicate (length fds) 1, w))\<rparr>"

lemma demo_poll_ok: "poll_ok demo_poll_os"
  by (simp add: poll_ok_def demo_poll_os_def)

lemma Add_fds:
  assumes "cpoll_ok n p" "fd \<notin> pf_fd ` set (cp_fds p)"
  shows "cp_fds (snd (CPoll_Add fd ev p)) = cp_fds p @ [\<lparr>pf_fd = fd, pf_events = cpoll_events ev, pf_revents = 0\<rparr>]"
proof -
  have "pos_view p fd = None" using cpoll_okD(6) [OF assms(1), of fd] assms(2) by (metis image_eqI not_None_eq nth_mem)
  then show ?thesis using cpoll_okD(1) [OF assms(1)] by (simp add: CPoll_Add_def Let_def cpoll_lookup [OF assms(1)] cpoll_events_def)
qed

definition demo_poll :: cpoll where
  "demo_poll = snd (CPoll_Add 9 IPOLLING_WRITE (snd (CPoll_Add 7 IPOLLING_READ (snd (CPoll_Initialize 3 CPoll_new)))))"

lemma demo_poll_used: "cpoll_used demo_poll_os 3 demo_poll"
  and demo_poll_fds: "cp_fds demo_poll = [\<lparr>pf_fd = 7, pf_events = 1, pf_revents = 0\<rparr>, \<lparr>pf_fd = 9, pf_events = 4, pf_revents = 0\<rparr>]"
proof -
  let ?p = "snd (CPoll_Initialize 3 CPoll_new)" and ?q = "snd (CPoll_Add 7 IPOLLING_READ (snd (CPoll_Initialize 3 CPoll_new)))"
  have ok: "cpoll_used demo_poll_os 3 p \<Longrightarrow> cpoll_ok 3 p" for p by (rule cpoll_used_ok [OF _ demo_poll_ok]) simp_all
  have p: "cpoll_used demo_poll_os 3 ?p" "cp_fds ?p = []" by (rule used_init) (simp add: CPoll_Initialize_def CPoll_new_def)
  have ev: "cpoll_events IPOLLING_READ = 1" "cpoll_events IPOLLING_WRITE = 4" by code_simp+
  have q: "cpoll_used demo_poll_os 3 ?q" "cp_fds ?q = [\<lparr>pf_fd = 7, pf_events = 1, pf_revents = 0\<rparr>]"
    using p used_add [OF p(1)] Add_fds [OF ok [OF p(1)], of 7 IPOLLING_READ] by (simp_all add: ev)
  show "cpoll_used demo_poll_os 3 demo_poll"
    "cp_fds demo_poll = [\<lparr>pf_fd = 7, pf_events = 1, pf_revents = 0\<rparr>, \<lparr>pf_fd = 9, pf_events = 4, pf_revents = 0\<rparr>]"
    unfolding demo_poll_def using q used_add [OF q(1)] Add_fds [OF ok [OF q(1)], of 9 IPOLLING_WRITE] by (simp_all add: ev)
qed

lemmas demo_poll_wf = cpoll_used_ok [OF demo_poll_used demo_poll_ok zero_less_numeral, simplified]

text \<open>After one call of \<open>poll\<close>, which reported both descriptors; the event of the first was handed out.\<close>

definition demo_polled :: cpoll where
  "demo_polled = fst (snd (snd (CPoll_WaitForNextEvent demo_poll_os PollEvent_zero (-1) demo_poll ())))"

lemma demo_polled_used: "cpoll_used demo_poll_os 3 demo_polled"
proof -
  obtain hr ev p w where c: "CPoll_WaitForNextEvent demo_poll_os PollEvent_zero (-1) demo_poll () = (hr, ev, p, w)" by (metis prod_cases4)
  then show ?thesis using used_wait [OF demo_poll_used c] by (simp add: demo_polled_def)
qed

lemma demo_polled_fds: "cp_fds demo_polled = [\<lparr>pf_fd = 7, pf_events = 1, pf_revents = 0\<rparr>, \<lparr>pf_fd = 9, pf_events = 4, pf_revents = 1\<rparr>]"
proof -
  have init: "cp_fInitialized demo_poll" by (rule cpoll_okD(1) [OF demo_poll_wf])
  have "cp_rotation (snd (CPoll_Add fd ev p)) = cp_rotation p \<and> cp_unreadcount (snd (CPoll_Add fd ev p)) = cp_unreadcount p" for fd ev p
    by (simp add: CPoll_Add_def Let_def)
  then have c: "cp_rotation demo_poll = 0" "cp_unreadcount demo_poll = 0"
    by (simp_all add: demo_poll_def CPoll_Initialize_def CPoll_new_def)
  show ?thesis
    by (simp add: demo_polled_def CPoll_WaitForNextEvent_def FindNextEvent_def Let_def init c demo_poll_fds demo_poll_os_def set_revents_def)
qed

section \<open>The polling object\<close>

text \<open>C28: The type invariant of a polling object over \<open>poll\<close> in use: in every state that \<open>Add\<close>, \<open>Remove\<close>, \<open>ChangeEventSet\<close>
  and \<open>WaitForNextEvent\<close> lead to after one \<open>Initialize\<close>, if it never holds more descriptors than it was initialized
  for, its hash table maps exactly the descriptors of its vector to
  their positions, no descriptor is in the vector twice, and the table has one entry for each element.\<close>

theorem poll_table_in_step:
  assumes "poll_ok os" "0 < n" "n < 2 ^ 32" "cpoll_used os n p"
  shows "(FastHash_Lookup FastHash_Hash_signed fd (cp_hashtable p) = Some pos \<longleftrightarrow> pos < length (cp_fds p) \<and> pf_fd (cp_fds p ! pos) = fd) \<and>
    distinct (map pf_fd (cp_fds p)) \<and> FastHash_Size (cp_hashtable p) = length (cp_fds p) \<and> length (cp_fds p) \<le> n"
proof -
  have ok: "cpoll_ok n p" by (rule cpoll_used_ok [OF assms(4,1-3)])
  have "distinct (map pf_fd (cp_fds p))" using cpoll_distinct [OF ok] by (auto simp: distinct_conv_nth)
  then show ?thesis using cpoll_okD(4,6) [OF ok] cpoll_count [OF ok] by (simp add: cpoll_lookup [OF ok] FastHash_Size_def)
qed

lemma poll_table_in_step_witness:
  "FastHash_Lookup FastHash_Hash_signed 9 (cp_hashtable demo_polled) = Some 1 \<and> distinct (map pf_fd (cp_fds demo_polled))"
  using poll_table_in_step [OF demo_poll_ok _ _ demo_polled_used, of 9 1] by (simp add: demo_polled_fds)

text \<open>C27: In every such state of an object in use the three operations implement a map from descriptors to event sets: \<open>Add\<close> succeeds
  exactly for a descriptor that is not watched, \<open>Remove\<close> and \<open>ChangeEventSet\<close> exactly for one that is, each changes
  the entry of that descriptor only, and an operation that fails changes nothing.\<close>

theorem poll_refines_interest_map:
  assumes "poll_ok os" "0 < n" "n < 2 ^ 32" "cpoll_used os n p"
  shows "(length (cp_fds p) < n \<longrightarrow> (case CPoll_Add fd ev p of (hr, p') \<Rightarrow>
      if cpoll_watched p fd = None then hr = S_OK \<and> cpoll_watched p' = (cpoll_watched p)(fd \<mapsto> cpoll_events ev)
      else FAILED hr \<and> p' = p)) \<and>
    (case CPoll_Remove fd p of (hr, p') \<Rightarrow>
      if cpoll_watched p fd = None then FAILED hr \<and> p' = p
      else hr = S_OK \<and> cpoll_watched p' = (cpoll_watched p)(fd := None)) \<and>
    (case CPoll_ChangeEventSet fd ev p of (hr, p') \<Rightarrow>
      if cpoll_watched p fd = None then FAILED hr \<and> p' = p
      else hr = S_OK \<and> cpoll_watched p' = (cpoll_watched p)(fd \<mapsto> cpoll_events ev))"
proof -
  have ok: "cpoll_ok n p" by (rule cpoll_used_ok [OF assms(4,1-3)])
  show ?thesis
  proof (cases "cpoll_watched p fd = None")
    case True
    have "\<not> cpoll_full n p" if "length (cp_fds p) < n" using that by (simp add: cpoll_full_def)
    then show ?thesis
      using True cpoll.add_new [OF ok True, of ev] cpoll.remove_unknown [OF ok True] cpoll.change_unknown [OF ok True, of ev] by auto
  next
    case False
    then show ?thesis
      using cpoll.add_known [OF ok False, of ev] cpoll.remove_known [OF ok False] cpoll.change_known [OF ok False, of ev] by auto
  qed
qed

lemma poll_refines_interest_map_witness:
  "\<exists>p'. CPoll_Remove 7 demo_polled = (S_OK, p') \<and> cpoll_watched p' = (cpoll_watched demo_polled)(7 := None)"
proof -
  have "pos_view demo_polled 7 = Some 0"
    using cpoll_okD(6) [OF cpoll_used_ok [OF demo_polled_used demo_poll_ok]] by (simp add: demo_polled_fds)
  then have "cpoll_watched demo_polled 7 \<noteq> None" by (simp add: cpoll_watched_def)
  then show ?thesis using poll_refines_interest_map [OF demo_poll_ok _ _ demo_polled_used, of 7 0]
    by (auto split: prod.splits)
qed

text \<open>C29: In every such state of an object in use the events that a call of \<open>poll\<close> reported and that were not handed out yet are handed
  out by the next calls of \<open>WaitForNextEvent\<close>, each exactly once and whatever the rotation, with no call of \<open>poll\<close>
  in between; then none is left and the descriptors are watched as before.\<close>

theorem poll_hands_out_each_event:
  assumes "poll_ok os" "0 < n" "n < 2 ^ 32" "cpoll_used os n p"
  shows "\<exists>evs p'. next_events os t (length (pending_events p)) p w = (map (Pair S_OK) evs, p', w) \<and>
    mset evs = mset (map event_of (pending_events p)) \<and> pending_events p' = [] \<and> cpoll_watched p' = cpoll_watched p"
proof -
  from next_events_deliver [OF cpoll_used_ok [OF assms(4,1-3)], of os t w] obtain evs p'
    where "next_events os t (length (pending_events p)) p w = (map (Pair S_OK) evs, p', w)"
      "mset evs = mset (map event_of (pending_events p))" "pending_events p' = []" "cpoll_watched p' = cpoll_watched p"
    by (elim exE conjE)
  then show ?thesis by (intro exI conjI)
qed

lemma poll_hands_out_each_event_witness:
  "\<exists>p'. next_events demo_poll_os (-1) 1 demo_polled () = ([(S_OK, \<lparr>pe_fd = 9, pe_eventflags = IPOLLING_READ\<rparr>)], p', ())"
proof -
  have p: "pending_events demo_polled = [\<lparr>pf_fd = 9, pf_events = 4, pf_revents = 1\<rparr>]" by (simp add: pending_events_def demo_polled_fds)
  have e: "event_of \<lparr>pf_fd = 9, pf_events = 4, pf_revents = 1\<rparr> = \<lparr>pe_fd = 9, pe_eventflags = IPOLLING_READ\<rparr>" by code_simp
  from poll_hands_out_each_event [OF demo_poll_ok _ _ demo_polled_used, of "-1" "()"] obtain evs p'
    where n: "next_events demo_poll_os (-1) 1 demo_polled () = (map (Pair S_OK) evs, p', ())" "mset evs = {#event_of \<lparr>pf_fd = 9, pf_events = 4, pf_revents = 1\<rparr>#}"
    by (auto simp: p)
  then show ?thesis by (auto simp: e)
qed

section \<open>The hash table\<close>

text \<open>\<open>FastHash_GetHashTableWidth\<close> returns the least prime number that is not below its argument, whenever an
  \<open>unsigned int\<close> can hold one: the search by odd numbers up to an integer square root skips none and takes no other.\<close>

theorem table_width_least_prime:
  assumes "is_prime p" "n \<le> p" "p < 2 ^ 32"
  shows "is_prime (FastHash_GetHashTableWidth n) \<and> n \<le> FastHash_GetHashTableWidth n \<and>
    (\<forall>q. is_prime q \<and> n \<le> q \<longrightarrow> FastHash_GetHashTableWidth n \<le> q)"
proof (cases "n \<le> 3")
  case True
  have "2 \<le> q" if "is_prime q" for q using that by (simp add: is_prime_def)
  then show ?thesis using True is_prime_2 is_prime_3 by (auto simp: FastHash_GetHashTableWidth_def FindPrime_def)
next
  case False
  let ?r = "if n mod 2 = 0 then (n + 1) mod 2 ^ 32 else n"
  have up: "n + 1 \<le> q" if "is_prime q" "n \<le> q" "even n" for q
  proof -
    have "odd q" using prime_odd [OF that(1)] that(2) False by linarith
    then have "q \<noteq> n" using that(3) by blast
    then show ?thesis using that(2) by linarith
  qed
  have "(n + 1) mod 2 ^ 32 = n + 1" if "even n"
    using up [OF assms(1,2) that] assms(3) by (intro mod_less) linarith
  then have r: "?r = (if even n then n + 1 else n)" by (simp add: even_iff_mod_2_eq_zero)
  have "odd ?r" "5 \<le> ?r" "?r \<le> p"
    unfolding r using False assms(2) up [OF assms(1,2)] by (auto, presburger)
  note np = next_prime_least [OF assms(1,3) this]
  have "FastHash_GetHashTableWidth n = next_prime ?r" using False by (simp add: FastHash_GetHashTableWidth_def FindPrime_def)
  then show ?thesis using np up unfolding r by (auto split: if_splits)
qed

lemma table_width_least_prime_witness: "FastHash_GetHashTableWidth 4 = 5"
proof -
  have "d = 1 \<or> d = 5" if "d dvd (5::nat)" for d
  proof -
    have "d \<le> 5" using that by (intro dvd_imp_le) simp_all
    then have "d = 0 \<or> d = 1 \<or> d = 2 \<or> d = 3 \<or> d = 4 \<or> d = 5" by linarith
    then show ?thesis using that by auto
  qed
  then have p: "is_prime 5" by (simp add: is_prime_def)
  note w = table_width_least_prime [OF p, of 4]
  have "\<not> is_prime 4" unfolding is_prime_def by (intro notI, elim conjE, drule spec [of _ 2]) simp
  then have "FastHash_GetHashTableWidth 4 \<noteq> 4" using w by auto
  then show ?thesis using w p by fastforce
qed

end
