(* ===== verification/StunConnection.thy ===== *)
theory StunConnection
  imports Polling MessageHandler
begin

text \<open>
  \<open>src/server/stunconnection.h\<close>, \<open>stunconnection.cpp\<close>: \<open>StunConnection\<close>, what the TCP server keeps for one
  client, and \<open>CConnectionPool\<close>, which hands them out and takes them back.

  The connections ever allocated are the list \<open>pl_conns\<close>, a pointer to one is its position and NULL is
  \<open>None\<close>, so the free list is threaded through the objects by \<open>cn_pNext\<close> as in the source. A deleted object
  stays in the list, its socket closed. \<open>new StunConnection()\<close> zeroes the members that have no constructor.
  The buffer of the reader is the one its stream is attached to. The record \<open>tcp_os\<close> adds the system calls of the
  TCP server.
\<close>

record 'w tcp_os = "'w poll_os" +
  os_time :: "'w \<Rightarrow> int"
  os_accept :: "int \<Rightarrow> 'w \<Rightarrow> int \<times> 'w"
  os_listen :: "int \<Rightarrow> int \<Rightarrow> 'w \<Rightarrow> int \<times> 'w"
  os_recv :: "int \<Rightarrow> nat \<Rightarrow> 'w \<Rightarrow> int \<times> bytes \<times> 'w"
  os_send :: "int \<Rightarrow> bytes \<Rightarrow> 'w \<Rightarrow> int \<times> 'w"
  os_shutdown :: "int \<Rightarrow> 'w \<Rightarrow> 'w"
  os_pipe :: "'w \<Rightarrow> int \<times> int \<times> int \<times> 'w"
  os_write :: "int \<Rightarrow> bytes \<Rightarrow> 'w \<Rightarrow> int \<times> 'w"

datatype StunConnectionState =
  ConnectionState_Idle | ConnectionState_Receiving | ConnectionState_Transmitting | ConnectionState_Closing

record connection =
  cn_timeStart :: int
  cn_state :: StunConnectionState
  cn_stunsocket :: stun_socket
  cn_reader :: reader
  cn_spReaderBuffer :: "cbuffer option"
  cn_spOutputBuffer :: "cbuffer option"
  cn_txCount :: nat
  cn_idHashTable :: int
  cn_pNext :: "nat option"

definition StunConnection_new :: connection where
  "StunConnection_new =
     \<lparr>cn_timeStart = 0, cn_state = ConnectionState_Idle, cn_stunsocket = CStunSocket_new, cn_reader = CStunMessageReader_new,
      cn_spReaderBuffer = None, cn_spOutputBuffer = None, cn_txCount = 0, cn_idHashTable = 0, cn_pNext = None\<rparr>"

record pool =
  pl_conns :: "connection list"
  pl_freelist :: "nat option"

definition CConnectionPool_new :: pool where
  "CConnectionPool_new = \<lparr>pl_conns = [], pl_freelist = None\<rparr>"

definition pool_update :: "nat \<Rightarrow> (connection \<Rightarrow> connection) \<Rightarrow> pool \<Rightarrow> pool" where
  "pool_update c f pl = pl\<lparr>pl_conns := (pl_conns pl)[c := f (pl_conns pl ! c)]\<rparr>"

text \<open>\<open>delete\<close> runs the destructor of the socket. The fuel is the number of objects.\<close>

fun pool_Reset_loop :: "('w, 'x) tcp_os_scheme \<Rightarrow> nat \<Rightarrow> pool \<Rightarrow> 'w \<Rightarrow> pool \<times> 'w" where
  "pool_Reset_loop os 0 pl w = (pl, w)"
| "pool_Reset_loop os (Suc fuel) pl w =
     (case pl_freelist pl of
        None \<Rightarrow> (pl, w)
      | Some c \<Rightarrow>
          (let conn = pl_conns pl ! c;
               pl = pl\<lparr>pl_freelist := cn_pNext conn\<rparr>;
               (sk, w) = CStunSocket_Close os (cn_stunsocket conn) w
           in pool_Reset_loop os fuel (pool_update c (cn_stunsocket_update (\<lambda>_. sk)) pl) w))"

definition pool_Reset :: "('w, 'x) tcp_os_scheme \<Rightarrow> pool \<Rightarrow> 'w \<Rightarrow> pool \<times> 'w" where
  "pool_Reset os pl w = pool_Reset_loop os (Suc (length (pl_conns pl))) pl w"

text \<open>One turn of the loop of \<open>Grow\<close>.\<close>

definition pool_add :: "pool \<Rightarrow> pool" where
  "pool_add pl =
     (let pConn = StunConnection_new
            \<lparr>cn_spOutputBuffer := Some (CBuffer_alloc MAX_STUN_MESSAGE_SIZE),
             cn_spReaderBuffer := Some (CBuffer_alloc MAX_STUN_MESSAGE_SIZE), cn_pNext := pl_freelist pl\<rparr>
      in pl\<lparr>pl_conns := pl_conns pl @ [pConn], pl_freelist := Some (length (pl_conns pl))\<rparr>)"

definition c_growrate :: nat where "c_growrate = 50"

definition pool_Grow :: "pool \<Rightarrow> hresult \<times> pool" where
  "pool_Grow pl = (S_OK, (pool_add ^^ c_growrate) pl)"

text \<open>What \<open>GetConnection\<close> does to the object it takes from the list.\<close>

definition prepare_connection :: "('w, 'x) tcp_os_scheme \<Rightarrow> int \<Rightarrow> SocketRole \<Rightarrow> connection \<Rightarrow> 'w \<Rightarrow> connection \<times> 'w" where
  "prepare_connection os sock role pConn w =
     (let pConn = pConn\<lparr>cn_pNext := None\<rparr>;
          r = Reader_AttachStream (cn_spReaderBuffer pConn) True (Reader_Reset (cn_reader pConn));
          pConn = pConn\<lparr>cn_reader := r, cn_spReaderBuffer := attached_buffer (rd_stream r), cn_state := ConnectionState_Receiving\<rparr>;
          (hr, sk, w) = CStunSocket_Attach os sock (cn_stunsocket pConn) w;
          sk = CStunSocket_SetRole role sk
      in (pConn\<lparr>cn_stunsocket := sk, cn_txCount := 0, cn_timeStart := os_time os w, cn_idHashTable := -1\<rparr>, w))"

definition GetConnection :: "('w, 'x) tcp_os_scheme \<Rightarrow> int \<Rightarrow> SocketRole \<Rightarrow> pool \<Rightarrow> 'w \<Rightarrow> nat option \<times> pool \<times> 'w" where
  "GetConnection os sock role pl w =
     (let pl = (if pl_freelist pl = None then snd (pool_Grow pl) else pl)
      in case pl_freelist pl of
           None \<Rightarrow> (None, pl, w)
         | Some c \<Rightarrow>
             (let pConn = pl_conns pl ! c;
                  pl = pl\<lparr>pl_freelist := cn_pNext pConn\<rparr>;
                  (pConn, w) = prepare_connection os sock role pConn w
              in (Some c, pool_update c (\<lambda>_. pConn) pl, w)))"

definition ReleaseConnection :: "nat \<Rightarrow> pool \<Rightarrow> pool" where
  "ReleaseConnection c pl = (pool_update c (cn_pNext_update (\<lambda>_. pl_freelist pl)) pl)\<lparr>pl_freelist := Some c\<rparr>"

end
