(* ===== verification/TcpThread.thy ===== *)
theory TcpThread
  imports StunConnection SocketThread "HOL-Library.Monad_Syntax"
begin

text \<open>
  \<open>src/server/tcpserver.h\<close>, \<open>tcpserver.cpp\<close>: \<open>CTCPStunThread\<close>, which accepts connections on up to four
  listening sockets, receives a request on each, sends the response and waits for the client to close.

  A connection is a position in the pool's list of objects. The two pointers to connection tables are
  \<open>table_ptr\<close>s. The loops over \<open>recv\<close>, \<open>send\<close> and the tables go on as long as the system lets them, so they are partial
  functions whose value is \<open>None\<close> when they do not return. A virtual call on the polling object
  before \<open>Init\<close> created it, which the code never makes, fails. Logging is left out; \<open>EWOULDBLOCK\<close> is \<open>EAGAIN\<close>,
  as on Linux.
\<close>

definition EAGAIN :: u32 where "EAGAIN = 11"

definition EPOLL_CLIENT_READ_EVENT_SET :: u32 where
  "EPOLL_CLIENT_READ_EVENT_SET = IPOLLING_EDGETRIGGER OR IPOLLING_READ OR IPOLLING_RDHUP"

definition EPOLL_CLIENT_WRITE_EVENT_SET :: u32 where
  "EPOLL_CLIENT_WRITE_EVENT_SET = IPOLLING_EDGETRIGGER OR IPOLLING_WRITE"

definition EPOLL_LISTEN_SOCKET_EVENT_SET :: u32 where
  "EPOLL_LISTEN_SOCKET_EVENT_SET = IPOLLING_READ"

definition EPOLL_PIPE_EVENT_SET :: u32 where
  "EPOLL_PIPE_EVENT_SET = IPOLLING_READ"

definition c_MaxNumberOfConnectionsDefault :: int where "c_MaxNumberOfConnectionsDefault = 1000"

definition c_sweepTimeoutSeconds :: int where "c_sweepTimeoutSeconds = 60"

datatype table_ptr = Table1 | Table2

record tcp_thread =
  tt_pipe0 :: int
  tt_pipe1 :: int
  tt_spPolling :: "IPolling option"
  tt_fListenSocketsOnEpoll :: bool
  tt_tsaListen :: TransportAddressSet
  tt_socketListenArray :: "stun_socket list"
  tt_socketTable :: "int list"
  tt_countSocks :: int
  tt_fNeedToExit :: bool
  tt_spAuth :: "IStunAuth option"
  tt_role :: SocketRole
  tt_tsa :: TransportAddressSet
  tt_maxConnections :: int
  tt_fThreadIsValid :: bool
  tt_connectionpool :: pool
  tt_hashConnections1 :: "(int, nat) fasthash"
  tt_hashConnections2 :: "(int, nat) fasthash"
  tt_pNewConnList :: table_ptr
  tt_pOldConnList :: table_ptr
  tt_timeLastSweep :: int

abbreviation conn :: "tcp_thread \<Rightarrow> nat \<Rightarrow> connection" where
  "conn t c \<equiv> pl_conns (tt_connectionpool t) ! c"

definition on_conn :: "nat \<Rightarrow> (connection \<Rightarrow> connection) \<Rightarrow> tcp_thread \<Rightarrow> tcp_thread" where
  "on_conn c f t = t\<lparr>tt_connectionpool := pool_update c f (tt_connectionpool t)\<rparr>"

fun conn_table :: "table_ptr \<Rightarrow> tcp_thread \<Rightarrow> (int, nat) fasthash" where
  "conn_table Table1 t = tt_hashConnections1 t"
| "conn_table Table2 t = tt_hashConnections2 t"

fun set_conn_table :: "table_ptr \<Rightarrow> (int, nat) fasthash \<Rightarrow> tcp_thread \<Rightarrow> tcp_thread" where
  "set_conn_table Table1 h t = t\<lparr>tt_hashConnections1 := h\<rparr>"
| "set_conn_table Table2 h t = t\<lparr>tt_hashConnections2 := h\<rparr>"

definition on_polling :: "(IPolling \<Rightarrow> 'w \<Rightarrow> hresult \<times> IPolling \<times> 'w) \<Rightarrow> tcp_thread \<Rightarrow> 'w \<Rightarrow> hresult \<times> tcp_thread \<times> 'w" where
  "on_polling f t w =
     (case tt_spPolling t of
        None \<Rightarrow> (E_UNEXPECTED, t, w)
      | Some p \<Rightarrow> (let (hr, p, w) = f p w in (hr, t\<lparr>tt_spPolling := Some p\<rparr>, w)))"

section \<open>Pipes and listening sockets\<close>

definition CreatePipes :: "('w, 'x) tcp_os_scheme \<Rightarrow> tcp_thread \<Rightarrow> 'w \<Rightarrow> hresult \<times> tcp_thread \<times> 'w" where
  "CreatePipes os t w =
     (let (ret, p0, p1, w) = os_pipe os w
      in if ret = -1 then (ERRNOHR (os_errno os w), t, w) else (S_OK, t\<lparr>tt_pipe0 := p0, tt_pipe1 := p1\<rparr>, w))"

definition ClosePipes :: "('w, 'x) tcp_os_scheme \<Rightarrow> tcp_thread \<Rightarrow> 'w \<Rightarrow> tcp_thread \<times> 'w" where
  "ClosePipes os t w =
     (let (t, w) = (if tt_pipe0 t \<noteq> -1 then (t\<lparr>tt_pipe0 := -1\<rparr>, os_close os (tt_pipe0 t) w) else (t, w))
      in if tt_pipe1 t \<noteq> -1 then (t\<lparr>tt_pipe1 := -1\<rparr>, os_close os (tt_pipe1 t) w) else (t, w))"

definition NotifyThreadViaPipe :: "('w, 'x) tcp_os_scheme \<Rightarrow> tcp_thread \<Rightarrow> 'w \<Rightarrow> hresult \<times> 'w" where
  "NotifyThreadViaPipe os t w =
     (let (ret, w) = os_write os (tt_pipe1 t) [0x78] w in (if 0 < ret then S_OK else S_FALSE, w))"

text \<open>The loop over the roles, which stops at the first failure.\<close>

fun watch_listen :: "('w, 'x) tcp_os_scheme \<Rightarrow> bool \<Rightarrow> nat list \<Rightarrow> tcp_thread \<Rightarrow> 'w \<Rightarrow> hresult \<times> tcp_thread \<times> 'w" where
  "watch_listen os fEnable [] t w = (S_OK, t, w)"
| "watch_listen os fEnable (role # roles) t w =
     (let sock = tt_socketTable t ! role
      in if sock = -1 then watch_listen os fEnable roles t w
         else
           (let (hr, t, w) =
                  (if fEnable then on_polling (Polling_Add os sock EPOLL_LISTEN_SOCKET_EVENT_SET) t w
                   else on_polling (Polling_Remove os sock) t w)
            in if FAILED hr then (hr, t, w) else watch_listen os fEnable roles t w))"

definition SetListenSocketsOnEpoll :: "('w, 'x) tcp_os_scheme \<Rightarrow> bool \<Rightarrow> tcp_thread \<Rightarrow> 'w \<Rightarrow> hresult \<times> tcp_thread \<times> 'w" where
  "SetListenSocketsOnEpoll os fEnable t w =
     (if fEnable \<noteq> tt_fListenSocketsOnEpoll t
      then (let (hr, t, w) = watch_listen os fEnable [0 ..< 4] t w
            in if FAILED hr then (hr, t, w) else (hr, t\<lparr>tt_fListenSocketsOnEpoll := fEnable\<rparr>, w))
      else (S_OK, t, w))"

fun create_listen :: "('w, 'x) tcp_os_scheme \<Rightarrow> nat list \<Rightarrow> tcp_thread \<Rightarrow> 'w \<Rightarrow> hresult \<times> tcp_thread \<times> 'w" where
  "create_listen os [] t w = (S_OK, t, w)"
| "create_listen os (r # rs) t w =
     (if ta_fValid (tt_tsaListen t ! r)
      then
        (let (hr, sk, w) = TCPInit os (ta_addr (tt_tsaListen t ! r)) (of_nat r) True (tt_socketListenArray t ! r) w;
             t = t\<lparr>tt_socketListenArray := (tt_socketListenArray t)[r := sk]\<rparr>
         in if FAILED hr then (hr, t, w)
            else
              (let t = t\<lparr>tt_socketTable := (tt_socketTable t)[r := CStunSocket_GetSocketHandle sk]\<rparr>;
                   (hr, w) = SetNonBlocking os True sk w
               in if FAILED hr then (hr, t, w)
                  else
                    (let (ret, w) = os_listen os (tt_socketTable t ! r) 128 w
                     in if ret = -1 then (ERRNOHR (os_errno os w), t, w)
                        else create_listen os rs (t\<lparr>tt_countSocks := tt_countSocks t + 1\<rparr>) w)))
      else create_listen os rs (t\<lparr>tt_socketTable := (tt_socketTable t)[r := -1]\<rparr>) w)"

definition CreateListenSockets :: "('w, 'x) tcp_os_scheme \<Rightarrow> tcp_thread \<Rightarrow> 'w \<Rightarrow> hresult \<times> tcp_thread \<times> 'w" where
  "CreateListenSockets os t w =
     (let (hr, t, w) = create_listen os [0 ..< 4] t w
      in if FAILED hr then (hr, t, w) else (hr, t\<lparr>tt_fListenSocketsOnEpoll := False\<rparr>, w))"

fun close_listen :: "('w, 'x) tcp_os_scheme \<Rightarrow> stun_socket list \<Rightarrow> 'w \<Rightarrow> stun_socket list \<times> 'w" where
  "close_listen os [] w = ([], w)"
| "close_listen os (sk # sks) w =
     (let (sk, w) = CStunSocket_Close os sk w; (sks, w) = close_listen os sks w in (sk # sks, w))"

definition CloseListenSockets :: "('w, 'x) tcp_os_scheme \<Rightarrow> tcp_thread \<Rightarrow> 'w \<Rightarrow> tcp_thread \<times> 'w" where
  "CloseListenSockets os t w =
     (let (sks, w) = close_listen os (tt_socketListenArray t) w
      in (t\<lparr>tt_socketListenArray := sks, tt_socketTable := replicate 4 (-1), tt_countSocks := 0\<rparr>, w))"

definition GetListenSocket :: "int \<Rightarrow> tcp_thread \<Rightarrow> stun_socket option" where
  "GetListenSocket sock t =
     (if sock \<noteq> -1
      then map_option (\<lambda>i. tt_socketListenArray t ! i) (find (\<lambda>i. tt_socketTable t ! i = sock) [0 ..< 4])
      else None)"

section \<open>Connections\<close>

definition CloseConnection :: "('w, 'x) tcp_os_scheme \<Rightarrow> nat option \<Rightarrow> tcp_thread \<Rightarrow> 'w \<Rightarrow> tcp_thread \<times> 'w" where
  "CloseConnection os pConn t w =
     (case pConn of
        None \<Rightarrow> (t, w)
      | Some c \<Rightarrow>
          (let sock = CStunSocket_GetSocketHandle (cn_stunsocket (conn t c));
               (hr, t, w) = on_polling (Polling_Remove os sock) t w;
               (sk, w) = CStunSocket_Close os (cn_stunsocket (conn t c)) w;
               t = on_conn c (cn_stunsocket_update (\<lambda>_. sk)) t;
               remove = (\<lambda>p. set_conn_table p (snd (FastHash_Remove FastHash_Hash_signed sock (conn_table p t))) t);
               t = (if cn_idHashTable (conn t c) = 1 then remove Table1
                    else if cn_idHashTable (conn t c) = 2 then remove Table2 else t)
           in (t\<lparr>tt_connectionpool := ReleaseConnection c (tt_connectionpool t)\<rparr>, w)))"

definition AcceptConnection ::
  "('w, 'x) tcp_os_scheme \<Rightarrow> stun_socket \<Rightarrow> tcp_thread \<Rightarrow> 'w \<Rightarrow> nat option \<times> tcp_thread \<times> 'w" where
  "AcceptConnection os pListenSocket t w =
     (let listensock = CStunSocket_GetSocketHandle pListenSocket;
          role = CStunSocket_GetRole pListenSocket;
          (clientsock, w) = os_accept os listensock w
      in if clientsock = -1 then (None, t, w)
         else
           (let (pConn, pl, w) = GetConnection os clientsock role (tt_connectionpool t) w;
                t = t\<lparr>tt_connectionpool := pl\<rparr>
            in case pConn of
                 None \<Rightarrow> (None, t, os_close os clientsock w)
               | Some c \<Rightarrow>
                   (let (hr, w) = SetNonBlocking os True (cn_stunsocket (conn t c)) w;
                        (hr, t, w) = (if FAILED hr then (hr, t, w)
                                      else on_polling (Polling_Add os clientsock EPOLL_CLIENT_READ_EVENT_SET) t w);
                        (hr, t) =
                          (if FAILED hr then (hr, t)
                           else
                             (let t = on_conn c (cn_idHashTable_update (\<lambda>_. if tt_pNewConnList t = Table1 then 1 else 2)) t;
                                  (insertresult, h) = FastHash_Insert FastHash_Hash_signed clientsock c (conn_table (tt_pNewConnList t) t);
                                  t = set_conn_table (tt_pNewConnList t) h t
                              in (if insertresult = -1 then E_FAIL else S_OK, t)))
                    in if FAILED hr then (let (t, w) = CloseConnection os (Some c) t w in (None, t, w))
                       else (Some c, t, w))))"

text \<open>Reading and dropping what the client still sends, until it closes.\<close>

partial_function (option) consume_loop ::
  "('w, 'x) tcp_os_scheme \<Rightarrow> nat \<Rightarrow> tcp_thread \<Rightarrow> 'w \<Rightarrow> (hresult \<times> tcp_thread \<times> 'w) option" where
  "consume_loop os c t w =
     (let (ret, data, w) = os_recv os (CStunSocket_GetSocketHandle (cn_stunsocket (conn t c))) MAX_STUN_MESSAGE_SIZE w
      in if ret < 0 \<and> os_errno os w = EAGAIN then Some (S_FALSE, t, w)
         else if ret \<le> 0 then (let (t, w) = CloseConnection os (Some c) t w in Some (S_OK, t, w))
         else consume_loop os c t w)"

definition ConsumeRemoteClose ::
  "('w, 'x) tcp_os_scheme \<Rightarrow> nat \<Rightarrow> tcp_thread \<Rightarrow> 'w \<Rightarrow> (hresult \<times> tcp_thread \<times> 'w) option" where
  "ConsumeRemoteClose os c t w = consume_loop os c t w"

definition output_bytes :: "connection \<Rightarrow> bytes" where
  "output_bytes cn = (let b = the (cn_spOutputBuffer cn) in take (cb_size b) (CBuffer_GetData b))"

text \<open>The last byte is sent: nothing more will be, and the connection reads again.\<close>

definition finish_write ::
  "('w, 'x) tcp_os_scheme \<Rightarrow> nat \<Rightarrow> int \<Rightarrow> tcp_thread \<Rightarrow> 'w \<Rightarrow> (hresult \<times> tcp_thread \<times> 'w) option" where
  "finish_write os c sock t w =
     (let t = on_conn c (cn_state_update (\<lambda>_. ConnectionState_Closing)) t;
          w = os_shutdown os sock w;
          (hr, t, w) = on_polling (Polling_ChangeEventSet os sock EPOLL_CLIENT_READ_EVENT_SET) t w
      in if FAILED hr then (let (t, w) = CloseConnection os (Some c) t w in Some (hr, t, w))
         else (case ConsumeRemoteClose os c t w of None \<Rightarrow> None | Some (hr', t, w) \<Rightarrow> Some (hr, t, w)))"

text \<open>The loop of \<open>WriteBytesForConnection\<close>; \<open>Cleanup\<close> closes the connection when it failed.\<close>

partial_function (option) write_loop ::
  "('w, 'x) tcp_os_scheme \<Rightarrow> nat \<Rightarrow> tcp_thread \<Rightarrow> 'w \<Rightarrow> (hresult \<times> tcp_thread \<times> 'w) option" where
  "write_loop os c t w =
     (let sock = CStunSocket_GetSocketHandle (cn_stunsocket (conn t c));
          pData = output_bytes (conn t c);
          (sent, w) = os_send os sock (drop (cn_txCount (conn t c)) pData) w
      in if sent = -1 \<and> os_errno os w = EAGAIN then Some (S_OK, t, w)
         else if sent = -1 then (let (t, w) = CloseConnection os (Some c) t w in Some (E_FAIL, t, w))
         else if sent = 0 then (let (t, w) = CloseConnection os (Some c) t w in Some (E_UNEXPECTED, t, w))
         else
           (let t = on_conn c (cn_txCount_update (\<lambda>n. n + nat sent)) t
            in if length pData \<le> cn_txCount (conn t c) then finish_write os c sock t w else write_loop os c t w))"

definition WriteBytesForConnection ::
  "('w, 'x) tcp_os_scheme \<Rightarrow> nat \<Rightarrow> tcp_thread \<Rightarrow> 'w \<Rightarrow> (hresult \<times> tcp_thread \<times> 'w) option" where
  "WriteBytesForConnection os c t w = write_loop os c t w"

text \<open>A complete request: what \<open>ReceiveBytesForConnection\<close> does before it tries to send.\<close>

definition tcp_message_in :: "connection \<Rightarrow> StunMessageIn" where
  "tcp_message_in cn =
     \<lparr>in_socketrole = CStunSocket_GetRole (cn_stunsocket cn), in_addrLocal = CStunSocket_GetLocalAddress (cn_stunsocket cn),
      in_addrRemote = CStunSocket_GetRemoteAddress (cn_stunsocket cn), in_pReader = Some (cn_reader cn),
      in_fConnectionOriented = True\<rparr>"

definition tcp_message_out :: "connection \<Rightarrow> StunMessageOut" where
  "tcp_message_out cn =
     \<lparr>out_socketrole = RolePP, out_addrDest = CSocketAddress_default, out_spBufferOut = cn_spOutputBuffer cn\<rparr>"

definition answer_request ::
  "(bytes \<Rightarrow> bytes \<Rightarrow> bytes) \<Rightarrow> (bytes \<Rightarrow> bytes) \<Rightarrow> nat \<Rightarrow> tcp_thread \<Rightarrow> hresult \<times> tcp_thread" where
  "answer_request hmac md5 c t =
     (let (hr, msgOut) = ProcessRequest hmac md5 (tcp_message_in (conn t c)) (tcp_message_out (conn t c)) (Some (tt_tsa t)) (tt_spAuth t);
          t = on_conn c (cn_spOutputBuffer_update (\<lambda>_. out_spBufferOut msgOut)) t
      in if FAILED hr then (hr, t) else (hr, on_conn c (cn_state_update (\<lambda>_. ConnectionState_Transmitting)) t))"

definition feed_connection :: "bytes \<Rightarrow> nat \<Rightarrow> connection \<Rightarrow> ReaderParseState \<times> connection" where
  "feed_connection data n cn =
     (let (st, r) = AddBytes (Some data) n (cn_reader cn)
      in (st, cn\<lparr>cn_reader := r, cn_spReaderBuffer := attached_buffer (rd_stream r)\<rparr>))"

text \<open>The answer is ready: the connection waits to write, and the thread tries at once.\<close>

definition start_write ::
  "(bytes \<Rightarrow> bytes \<Rightarrow> bytes) \<Rightarrow> (bytes \<Rightarrow> bytes) \<Rightarrow> ('w, 'x) tcp_os_scheme \<Rightarrow> nat \<Rightarrow> int \<Rightarrow> tcp_thread \<Rightarrow> 'w \<Rightarrow>
   (hresult \<times> tcp_thread \<times> 'w) option" where
  "start_write hmac md5 os c sock t w =
     (let fail = (\<lambda>hr t w. let (t, w) = CloseConnection os (Some c) t w in Some (hr, t, w));
          (hr, t) = answer_request hmac md5 c t
      in if FAILED hr then fail hr t w
         else
           (let (hr, t, w) = on_polling (Polling_ChangeEventSet os sock EPOLL_CLIENT_WRITE_EVENT_SET) t w
            in if FAILED hr then fail hr t w
               else (case WriteBytesForConnection os c t w of None \<Rightarrow> None | Some (hr', t, w) \<Rightarrow> Some (hr, t, w))))"

partial_function (option) receive_loop ::
  "(bytes \<Rightarrow> bytes \<Rightarrow> bytes) \<Rightarrow> (bytes \<Rightarrow> bytes) \<Rightarrow> ('w, 'x) tcp_os_scheme \<Rightarrow> nat \<Rightarrow> tcp_thread \<Rightarrow> 'w \<Rightarrow>
   (hresult \<times> tcp_thread \<times> 'w) option" where
  "receive_loop hmac md5 os c t w =
     (let sock = CStunSocket_GetSocketHandle (cn_stunsocket (conn t c));
          bytesneeded = unat (HowManyBytesNeeded (cn_reader (conn t c)));
          fail = (\<lambda>hr t w. let (t, w) = CloseConnection os (Some c) t w in Some (hr, t, w))
      in if bytesneeded = 0 then fail E_UNEXPECTED t w
         else
           (let (bytesread, data, w) = os_recv os sock bytesneeded w
            in if bytesread < 0 \<and> os_errno os w = EAGAIN then Some (S_OK, t, w)
               else if bytesread \<le> 0 then fail E_FAIL t w
               else
                 (let (readerstate, cn) = feed_connection data (nat bytesread) (conn t c);
                      t = on_conn c (\<lambda>_. cn) t
                  in if readerstate = ParseError then fail E_FAIL t w
                     else if readerstate = BodyValidated then start_write hmac md5 os c sock t w
                     else receive_loop hmac md5 os c t w)))"

definition ReceiveBytesForConnection ::
  "(bytes \<Rightarrow> bytes \<Rightarrow> bytes) \<Rightarrow> (bytes \<Rightarrow> bytes) \<Rightarrow> ('w, 'x) tcp_os_scheme \<Rightarrow> nat \<Rightarrow> tcp_thread \<Rightarrow> 'w \<Rightarrow>
   (hresult \<times> tcp_thread \<times> 'w) option" where
  "ReceiveBytesForConnection hmac md5 os c t w = receive_loop hmac md5 os c t w"

text \<open>The pointer found in one table or the other.\<close>

definition lookup_connection :: "int \<Rightarrow> tcp_thread \<Rightarrow> nat option" where
  "lookup_connection sock t =
     (case FastHash_Lookup FastHash_Hash_signed sock (conn_table (tt_pNewConnList t) t) of
        Some c \<Rightarrow> Some c
      | None \<Rightarrow> FastHash_Lookup FastHash_Hash_signed sock (conn_table (tt_pOldConnList t) t))"

definition ProcessConnectionEvent ::
  "(bytes \<Rightarrow> bytes \<Rightarrow> bytes) \<Rightarrow> (bytes \<Rightarrow> bytes) \<Rightarrow> ('w, 'x) tcp_os_scheme \<Rightarrow> int \<Rightarrow> u32 \<Rightarrow> tcp_thread \<Rightarrow> 'w \<Rightarrow>
   (tcp_thread \<times> 'w) option" where
  "ProcessConnectionEvent hmac md5 os sock eventflags t w =
     (case lookup_connection sock t of
        None \<Rightarrow> Some (t, w)
      | Some c \<Rightarrow>
          (case cn_state (conn t c) of
             ConnectionState_Receiving \<Rightarrow> map_option snd (ReceiveBytesForConnection hmac md5 os c t w)
           | ConnectionState_Transmitting \<Rightarrow> map_option snd (WriteBytesForConnection os c t w)
           | ConnectionState_Closing \<Rightarrow> map_option snd (ConsumeRemoteClose os c t w)
           | ConnectionState_Idle \<Rightarrow> Some (t, w)))"

section \<open>Closing idle connections\<close>

partial_function (option) CloseAllConnections ::
  "('w, 'x) tcp_os_scheme \<Rightarrow> table_ptr \<Rightarrow> tcp_thread \<Rightarrow> 'w \<Rightarrow> (tcp_thread \<times> 'w) option" where
  "CloseAllConnections os pConnMap t w =
     (let (pItem, h) = FastHash_LookupByIndex 0 (conn_table pConnMap t);
          t = set_conn_table pConnMap h t
      in case pItem of
           None \<Rightarrow> Some (t, w)
         | Some kv \<Rightarrow> (let (t, w) = CloseConnection os (Some (snd kv)) t w in CloseAllConnections os pConnMap t w))"

definition SweepDeadConnections :: "('w, 'x) tcp_os_scheme \<Rightarrow> tcp_thread \<Rightarrow> 'w \<Rightarrow> (tcp_thread \<times> 'w) option" where
  "SweepDeadConnections os t w =
     (let timeCurrent = os_time os w
      in if c_sweepTimeoutSeconds \<le> timeCurrent - tt_timeLastSweep t
         then
           do {
             (t, w) \<leftarrow> CloseAllConnections os (tt_pOldConnList t) t w;
             Some (t\<lparr>tt_timeLastSweep := os_time os w, tt_pOldConnList := tt_pNewConnList t, tt_pNewConnList := tt_pOldConnList t\<rparr>, w)
           }
         else Some (t, w))"

definition ThreadCleanup :: "('w, 'x) tcp_os_scheme \<Rightarrow> tcp_thread \<Rightarrow> 'w \<Rightarrow> (tcp_thread \<times> 'w) option" where
  "ThreadCleanup os t w =
     do {
       (t, w) \<leftarrow> CloseAllConnections os (tt_pOldConnList t) t w;
       CloseAllConnections os (tt_pNewConnList t) t w
     }"

definition GetTimeoutSeconds :: "tcp_thread \<Rightarrow> int" where
  "GetTimeoutSeconds t =
     (let connCount = FastHash_Size (conn_table (tt_pNewConnList t) t) + FastHash_Size (conn_table (tt_pOldConnList t) t)
      in if connCount = 0 then -1 else c_sweepTimeoutSeconds)"

definition IsConnectionCountAtMax :: "tcp_thread \<Rightarrow> bool" where
  "IsConnectionCountAtMax t \<longleftrightarrow>
     tt_maxConnections t \<le>
       int (FastHash_Size (conn_table (tt_pNewConnList t) t) + FastHash_Size (conn_table (tt_pOldConnList t) t))"

end
