(* ===== verification/TcpServer.thy ===== *)
theory TcpServer
  imports TcpThread StunServer
begin

text \<open>
  \<open>src/server/tcpserver.cpp\<close>, the rest: the loop of \<open>CTCPStunThread::Run\<close>, the initialization and the end of
  the thread, and \<open>CTCPServer\<close>, which owns one such thread or one for each address.

  \<open>Run\<close> is cut into its rounds; another thread may set \<open>_fNeedToExit\<close> between any two. The memory of the
  arguments that \<open>Initialize\<close> of \<open>CTCPServer\<close> passes to \<open>Init\<close> is filled by \<open>InitTSA\<close> for all four roles.
\<close>

section \<open>The loop\<close>

definition wait_event :: "('w, 'x) tcp_os_scheme \<Rightarrow> int \<Rightarrow> tcp_thread \<Rightarrow> 'w \<Rightarrow> hresult \<times> PollEvent \<times> tcp_thread \<times> 'w" where
  "wait_event os timeout t w =
     (case tt_spPolling t of
        None \<Rightarrow> (E_UNEXPECTED, PollEvent_zero, t, w)
      | Some p \<Rightarrow>
          (let (hr, ev, p, w) = Polling_WaitForNextEvent os PollEvent_zero timeout p w
           in (hr, ev, t\<lparr>tt_spPolling := Some p\<rparr>, w)))"

definition handle_event ::
  "(bytes \<Rightarrow> bytes \<Rightarrow> bytes) \<Rightarrow> (bytes \<Rightarrow> bytes) \<Rightarrow> ('w, 'x) tcp_os_scheme \<Rightarrow> PollEvent \<Rightarrow> tcp_thread \<Rightarrow> 'w \<Rightarrow>
   (tcp_thread \<times> 'w) option" where
  "handle_event hmac md5 os pollevent t w =
     (case GetListenSocket (pe_fd pollevent) t of
        Some sk \<Rightarrow>
          (let (pConn, t, w) = AcceptConnection os sk t w
           in case pConn of
                None \<Rightarrow> Some (t, w)
              | Some c \<Rightarrow> map_option snd (ReceiveBytesForConnection hmac md5 os c t w))
      | None \<Rightarrow> ProcessConnectionEvent hmac md5 os (pe_fd pollevent) (pe_eventflags pollevent) t w)"

text \<open>One round; \<open>False\<close> when the loop is left.\<close>

definition Run_round ::
  "(bytes \<Rightarrow> bytes \<Rightarrow> bytes) \<Rightarrow> (bytes \<Rightarrow> bytes) \<Rightarrow> ('w, 'x) tcp_os_scheme \<Rightarrow> tcp_thread \<Rightarrow> 'w \<Rightarrow> (bool \<times> tcp_thread \<times> 'w) option" where
  "Run_round hmac md5 os t w =
     (if tt_fNeedToExit t then Some (False, t, w)
      else
        (let timeout = GetTimeoutSeconds t;
             (hr, t, w) = SetListenSocketsOnEpoll os (\<not> IsConnectionCountAtMax t) t w;
             (hrPoll, pollevent, t, w) = wait_event os timeout t w
         in if tt_fNeedToExit t \<or> pe_fd pollevent = tt_pipe0 t then Some (False, t, w)
            else
              do {
                (t, w) \<leftarrow> (if hrPoll = S_OK then handle_event hmac md5 os pollevent t w else Some (t, w));
                (t, w) \<leftarrow> SweepDeadConnections os t w;
                Some (True, t, w)
              }))"

text \<open>The thread among others: its rounds, the exit flag set by \<open>Stop\<close>, and the end of \<open>Run\<close>.\<close>

datatype tcp_pc = InLoop | Left

inductive tcp_run ::
  "(bytes \<Rightarrow> bytes \<Rightarrow> bytes) \<Rightarrow> (bytes \<Rightarrow> bytes) \<Rightarrow> ('w, 'x) tcp_os_scheme \<Rightarrow> tcp_thread \<Rightarrow> 'w \<Rightarrow> tcp_pc \<times> tcp_thread \<times> 'w \<Rightarrow> bool"
  for hmac md5 os t0 w0 where
  tcp_start: "tcp_run hmac md5 os t0 w0 (InLoop, t0\<lparr>tt_timeLastSweep := os_time os w0\<rparr>, w0)"
| tcp_round: "tcp_run hmac md5 os t0 w0 (InLoop, t, w) \<Longrightarrow> Run_round hmac md5 os t w = Some (True, t', w') \<Longrightarrow>
    tcp_run hmac md5 os t0 w0 (InLoop, t', w')"
| tcp_leave: "tcp_run hmac md5 os t0 w0 (InLoop, t, w) \<Longrightarrow> Run_round hmac md5 os t w = Some (False, t1, w1) \<Longrightarrow>
    ThreadCleanup os t1 w1 = Some (t', w') \<Longrightarrow> tcp_run hmac md5 os t0 w0 (Left, t', w')"
| tcp_signal: "tcp_run hmac md5 os t0 w0 (pc, t, w) \<Longrightarrow> tcp_run hmac md5 os t0 w0 (pc, t\<lparr>tt_fNeedToExit := True\<rparr>, w)"

section \<open>The life of the thread\<close>

definition release_polling :: "('w, 'x) tcp_os_scheme \<Rightarrow> tcp_thread \<Rightarrow> 'w \<Rightarrow> tcp_thread \<times> 'w" where
  "release_polling os t w =
     (case tt_spPolling t of
        None \<Rightarrow> (t, w)
      | Some p \<Rightarrow> (let (hr, p, w) = Polling_Close os p w in (t\<lparr>tt_spPolling := None\<rparr>, w)))"

definition tcp_Reset :: "('w, 'x) tcp_os_scheme \<Rightarrow> tcp_thread \<Rightarrow> 'w \<Rightarrow> tcp_thread \<times> 'w" where
  "tcp_Reset os t w =
     (let (t, w) = release_polling os t w;
          (t, w) = CloseListenSockets os t w;
          (t, w) = ClosePipes os t w;
          (pl, w) = pool_Reset os (tt_connectionpool t) w
      in (t\<lparr>tt_fListenSocketsOnEpoll := False, tt_tsaListen := TransportAddressSet_zero, tt_fNeedToExit := False, tt_spAuth := None,
            tt_role := RolePP, tt_tsa := TransportAddressSet_zero, tt_maxConnections := c_MaxNumberOfConnectionsDefault,
            tt_fThreadIsValid := False, tt_connectionpool := pl, tt_hashConnections1 := ResetTable (tt_hashConnections1 t),
            tt_hashConnections2 := ResetTable (tt_hashConnections2 t), tt_pNewConnList := Table1, tt_pOldConnList := Table2,
            tt_timeLastSweep := os_time os w\<rparr>, w))"

text \<open>The members before the constructor's body, which ends with \<open>Reset\<close>.\<close>

definition tcp_members :: tcp_thread where
  "tcp_members =
     \<lparr>tt_pipe0 = -1, tt_pipe1 = -1, tt_spPolling = None, tt_fListenSocketsOnEpoll = False, tt_tsaListen = TransportAddressSet_zero,
      tt_socketListenArray = replicate 4 CStunSocket_new, tt_socketTable = replicate 4 0, tt_countSocks = 0, tt_fNeedToExit = False,
      tt_spAuth = None, tt_role = RolePP, tt_tsa = TransportAddressSet_zero, tt_maxConnections = 0, tt_fThreadIsValid = False,
      tt_connectionpool = CConnectionPool_new, tt_hashConnections1 = FastHashDynamic_new, tt_hashConnections2 = FastHashDynamic_new,
      tt_pNewConnList = Table1, tt_pOldConnList = Table2, tt_timeLastSweep = 0\<rparr>"

definition CTCPStunThread_new :: "('w, 'x) tcp_os_scheme \<Rightarrow> 'w \<Rightarrow> tcp_thread \<times> 'w" where
  "CTCPStunThread_new os w = tcp_Reset os tcp_members w"

definition valid_count :: "TransportAddressSet \<Rightarrow> nat" where
  "valid_count tsa = length (filter (\<lambda>i. ta_fValid (tsa ! i)) [0 ..< 4])"

text \<open>One \<open>Chk\<close> after another: the rest runs when the call before it succeeded.\<close>

definition then_chk :: "hresult \<times> 't \<times> 'w \<Rightarrow> ('t \<Rightarrow> 'w \<Rightarrow> hresult \<times> 't \<times> 'w) \<Rightarrow> hresult \<times> 't \<times> 'w" where
  "then_chk x rest = (case x of (hr, t, w) \<Rightarrow> if FAILED hr then (hr, t, w) else rest t w)"

definition create_polling :: "('w, 'x) tcp_os_scheme \<Rightarrow> tcp_thread \<Rightarrow> 'w \<Rightarrow> hresult \<times> tcp_thread \<times> 'w" where
  "create_polling os t w =
     (let (hr, p, w) = CreatePollingInstance os IPOLLING_TYPE_BEST (nat (tt_maxConnections t + 5)) w
      in (hr, t\<lparr>tt_spPolling := p\<rparr>, w))"

definition init_tables :: "tcp_thread \<Rightarrow> 'w \<Rightarrow> hresult \<times> tcp_thread \<times> 'w" where
  "init_tables t w =
     (let n = nat (tt_maxConnections t);
          (ret1, h1) = InitTable n 0 (tt_hashConnections1 t);
          (ret2, h2) = InitTable n 0 (tt_hashConnections2 t)
      in if ret1 = -1 then (E_FAIL, t, w)
         else if ret2 = -1 then (E_FAIL, t\<lparr>tt_hashConnections1 := h1\<rparr>, w)
         else (S_OK, t\<lparr>tt_hashConnections1 := h1, tt_hashConnections2 := h2, tt_pNewConnList := Table1, tt_pOldConnList := Table2,
                       tt_fNeedToExit := False\<rparr>, w))"

text \<open>\<open>Init\<close> up to \<open>Cleanup\<close>.\<close>

definition tcp_Init_steps ::
  "('w, 'x) tcp_os_scheme \<Rightarrow> TransportAddressSet \<Rightarrow> TransportAddressSet \<Rightarrow> IStunAuth option \<Rightarrow> int \<Rightarrow> tcp_thread \<Rightarrow> 'w \<Rightarrow>
   hresult \<times> tcp_thread \<times> 'w" where
  "tcp_Init_steps os tsaListen tsaHandler pAuth maxConnections t w =
     (if tt_pipe0 t \<noteq> -1 then (E_UNEXPECTED, t, w)
      else if tt_fThreadIsValid t then (E_UNEXPECTED, t, w)
      else
        (let t = t\<lparr>tt_maxConnections := (if 0 < maxConnections then maxConnections else c_MaxNumberOfConnectionsDefault)\<rparr>
         in if 100000 \<le> tt_maxConnections t then (E_INVALIDARG, t, w)
            else if valid_count tsaListen = 0 then (E_INVALIDARG, t, w)
            else if valid_count tsaHandler = 0 then (E_INVALIDARG, t, w)
            else
              then_chk (CreateListenSockets os (t\<lparr>tt_tsaListen := tsaListen, tt_tsa := tsaHandler, tt_spAuth := pAuth\<rparr>) w) (\<lambda>t w.
              then_chk (CreatePipes os t w) (\<lambda>t w.
              then_chk (create_polling os t w) (\<lambda>t w.
              then_chk (SetListenSocketsOnEpoll os True t w) (\<lambda>t w.
              then_chk (on_polling (Polling_Add os (tt_pipe0 t) EPOLL_PIPE_EVENT_SET) t w) init_tables))))))"

definition tcp_Init ::
  "('w, 'x) tcp_os_scheme \<Rightarrow> TransportAddressSet \<Rightarrow> TransportAddressSet \<Rightarrow> IStunAuth option \<Rightarrow> int \<Rightarrow> tcp_thread \<Rightarrow> 'w \<Rightarrow>
   hresult \<times> tcp_thread \<times> 'w" where
  "tcp_Init os tsaListen tsaHandler pAuth maxConnections t w =
     (let (hr, t, w) = tcp_Init_steps os tsaListen tsaHandler pAuth maxConnections t w
      in if FAILED hr then (let (t, w) = tcp_Reset os t w in (hr, t, w)) else (hr, t, w))"

definition tcp_Start :: "('w, 'x) tcp_os_scheme \<Rightarrow> tcp_thread \<Rightarrow> 'w \<Rightarrow> hresult \<times> tcp_thread \<times> 'w" where
  "tcp_Start os t w =
     (if tt_fThreadIsValid t then (E_FAIL, t, w)
      else if tt_pipe0 t = -1 then (E_UNEXPECTED, t, w)
      else
        (let t = t\<lparr>tt_fNeedToExit := False\<rparr>; (ret, w) = os_pthread_create os w
         in if ret \<noteq> 0 then (ERRNO_TO_HRESULT ret, t, w) else (S_OK, t\<lparr>tt_fThreadIsValid := True\<rparr>, w)))"

definition tcp_Stop :: "('w, 'x) tcp_os_scheme \<Rightarrow> tcp_thread \<Rightarrow> 'w \<Rightarrow> hresult \<times> tcp_thread \<times> 'w" where
  "tcp_Stop os t w =
     (let (t, w) =
            (if tt_fThreadIsValid t
             then (let t = t\<lparr>tt_fNeedToExit := True\<rparr>; (hr, w) = NotifyThreadViaPipe os t w
                   in (t\<lparr>tt_fThreadIsValid := False\<rparr>, os_pthread_join os w))
             else (t, w));
          (t, w) = tcp_Reset os t w
      in (S_OK, t, w))"

section \<open>CTCPServer\<close>

record tcp_server =
  ts_threads :: "tcp_thread option list"
  ts_spAuth :: "IStunAuth option"

definition CTCPServer_new :: tcp_server where
  "CTCPServer_new = \<lparr>ts_threads = replicate 4 None, ts_spAuth = None\<rparr>"

definition InitTSA :: "SocketRole \<Rightarrow> bool \<Rightarrow> simple_sockaddr \<Rightarrow> simple_sockaddr \<Rightarrow> TransportAddressSet \<Rightarrow> TransportAddressSet" where
  "InitTSA role fValid addrListen addrAdvertise tsa =
     (if fValid = False then tsa[unat role := \<lparr>ta_addr = CSocketAddress_default, ta_fValid = False\<rparr>]
      else tsa[unat role := \<lparr>ta_addr = (if CSocketAddress_IsIPAddressZero addrAdvertise then addrListen
                                        else CSocketAddress_SetPort (CSocketAddress_GetPort addrListen) addrAdvertise),
                             ta_fValid = True\<rparr>])"

definition config_tsa :: "server_config \<Rightarrow> simple_sockaddr \<Rightarrow> simple_sockaddr \<Rightarrow> TransportAddressSet" where
  "config_tsa config primary alternate =
     InitTSA RoleAA (cfg_fHasAA config) (cfg_addrAA config) alternate
       (InitTSA RoleAP (cfg_fHasAP config) (cfg_addrAP config) alternate
         (InitTSA RolePA (cfg_fHasPA config) (cfg_addrPA config) primary
           (InitTSA RolePP (cfg_fHasPP config) (cfg_addrPP config) primary TransportAddressSet_zero)))"

text \<open>The destructor of a thread is \<open>Stop\<close>.\<close>

fun delete_threads :: "('w, 'x) tcp_os_scheme \<Rightarrow> tcp_thread option list \<Rightarrow> 'w \<Rightarrow> 'w" where
  "delete_threads os [] w = w"
| "delete_threads os (None # ths) w = delete_threads os ths w"
| "delete_threads os (Some t # ths) w = (let (hr, t, w) = tcp_Stop os t w in delete_threads os ths w)"

definition tcpserver_Shutdown :: "('w, 'x) tcp_os_scheme \<Rightarrow> tcp_server \<Rightarrow> 'w \<Rightarrow> hresult \<times> tcp_server \<times> 'w" where
  "tcpserver_Shutdown os s w =
     (let w = delete_threads os (ts_threads s) w
      in (S_OK, s\<lparr>ts_threads := replicate 4 None, ts_spAuth := None\<rparr>, w))"

definition new_tcp_thread ::
  "('w, 'x) tcp_os_scheme \<Rightarrow> nat \<Rightarrow> TransportAddressSet \<Rightarrow> TransportAddressSet \<Rightarrow> u32 \<Rightarrow> tcp_server \<Rightarrow> 'w \<Rightarrow> hresult \<times> tcp_server \<times> 'w" where
  "new_tcp_thread os threadindex tsaListen tsaHandler nMaxConnections s w =
     (let (t, w) = CTCPStunThread_new os w;
          (hr, t, w) = tcp_Init os tsaListen tsaHandler (ts_spAuth s) (sint nMaxConnections) t w
      in (hr, s\<lparr>ts_threads := (ts_threads s)[threadindex := Some t]\<rparr>, w))"

definition only_role :: "nat \<Rightarrow> TransportAddressSet \<Rightarrow> TransportAddressSet" where
  "only_role threadindex tsaListenAll =
     map (\<lambda>temp. if temp \<noteq> threadindex then \<lparr>ta_addr = CSocketAddress_default, ta_fValid = False\<rparr> else tsaListenAll ! temp) [0 ..< 4]"

fun create_tcp_threads ::
  "('w, 'x) tcp_os_scheme \<Rightarrow> TransportAddressSet \<Rightarrow> TransportAddressSet \<Rightarrow> u32 \<Rightarrow> nat list \<Rightarrow> tcp_server \<Rightarrow> 'w \<Rightarrow> hresult \<times> tcp_server \<times> 'w" where
  "create_tcp_threads os tsaListenAll tsaHandler nMax [] s w = (S_OK, s, w)"
| "create_tcp_threads os tsaListenAll tsaHandler nMax (i # is) s w =
     (if ta_fValid (tsaHandler ! i)
      then (let (hr, s, w) = new_tcp_thread os i (only_role i tsaListenAll) tsaHandler nMax s w
            in if FAILED hr then (hr, s, w) else create_tcp_threads os tsaListenAll tsaHandler nMax is s w)
      else create_tcp_threads os tsaListenAll tsaHandler nMax is s w)"

definition tcpserver_Initialize :: "('w, 'x) tcp_os_scheme \<Rightarrow> server_config \<Rightarrow> tcp_server \<Rightarrow> 'w \<Rightarrow> hresult \<times> tcp_server \<times> 'w" where
  "tcpserver_Initialize os config s w =
     (let (hr, s, w) =
            (if ts_threads s ! 0 \<noteq> None then (E_UNEXPECTED, s, w)
             else
               (let tsaHandler = config_tsa config (cfg_addrPrimaryAdvertised config) (cfg_addrAlternateAdvertised config);
                    tsaListenAll = config_tsa config CSocketAddress_default CSocketAddress_default
                in if cfg_fMultiThreadedMode config = False
                   then new_tcp_thread os 0 tsaListenAll tsaHandler (cfg_nMaxConnections config) s w
                   else create_tcp_threads os tsaListenAll tsaHandler (cfg_nMaxConnections config) [0 ..< 4] s w))
      in if FAILED hr then (let (hr', s, w) = tcpserver_Shutdown os s w in (hr, s, w)) else (hr, s, w))"

fun start_tcp_threads :: "('w, 'x) tcp_os_scheme \<Rightarrow> tcp_thread option list \<Rightarrow> 'w \<Rightarrow> hresult \<times> tcp_thread option list \<times> 'w" where
  "start_tcp_threads os [] w = (S_OK, [], w)"
| "start_tcp_threads os (None # ths) w = (let (hr, ths, w) = start_tcp_threads os ths w in (hr, None # ths, w))"
| "start_tcp_threads os (Some t # ths) w =
     (let (hr, t, w) = tcp_Start os t w
      in if FAILED hr then (hr, Some t # ths, w)
         else (let (hr, ths, w) = start_tcp_threads os ths w in (hr, Some t # ths, w)))"

definition tcpserver_Start :: "('w, 'x) tcp_os_scheme \<Rightarrow> tcp_server \<Rightarrow> 'w \<Rightarrow> hresult \<times> tcp_server \<times> 'w" where
  "tcpserver_Start os s w = (let (hr, ths, w) = start_tcp_threads os (ts_threads s) w in (hr, s\<lparr>ts_threads := ths\<rparr>, w))"

definition tcpserver_Stop :: "('w, 'x) tcp_os_scheme \<Rightarrow> tcp_server \<Rightarrow> 'w \<Rightarrow> hresult \<times> tcp_server \<times> 'w" where
  "tcpserver_Stop os s w = (let (hr, s, w) = tcpserver_Shutdown os s w in (S_OK, s, w))"

end
