(* ===== verification/TcpPool.thy ===== *)
theory TcpPool
  imports TcpServer ServerSetup ReaderCorrect "HOL-Library.Sublist"
begin

text \<open>
  The state of a TCP thread between two calls: which connection objects are free and which are in use, what the
  two tables hold, and how far each connection in use has come. The system is seen through an observer that records
  the open descriptors, the watched ones with their event sets, and the bytes received and sent on each
  descriptor since it was opened.
\<close>

section \<open>The system\<close>

record sys_view =
  vw_open :: "int set"
  vw_watch :: "int \<Rightarrow> u32 option"
  vw_in :: "int \<Rightarrow> bytes"
  vw_out :: "int \<Rightarrow> bytes"

definition vw_closed :: "int \<Rightarrow> sys_view \<Rightarrow> sys_view" where
  "vw_closed fd v = v\<lparr>vw_open := vw_open v - {fd}, vw_watch := (vw_watch v)(fd := None)\<rparr>"

definition vw_opened :: "int \<Rightarrow> sys_view \<Rightarrow> sys_view" where
  "vw_opened fd v = v\<lparr>vw_open := insert fd (vw_open v), vw_watch := (vw_watch v)(fd := None),
     vw_in := (vw_in v)(fd := []), vw_out := (vw_out v)(fd := [])\<rparr>"

definition vw_received :: "int \<Rightarrow> bytes \<Rightarrow> sys_view \<Rightarrow> sys_view" where
  "vw_received fd data v = v\<lparr>vw_in := (vw_in v)(fd := vw_in v fd @ data)\<rparr>"

definition vw_sent :: "int \<Rightarrow> bytes \<Rightarrow> sys_view \<Rightarrow> sys_view" where
  "vw_sent fd data v = v\<lparr>vw_out := (vw_out v)(fd := vw_out v fd @ data)\<rparr>"

fun vw_control :: "epoll_op \<Rightarrow> int \<Rightarrow> u32 \<Rightarrow> sys_view \<Rightarrow> sys_view" where
  "vw_control EPOLL_CTL_DEL fd ev v = v\<lparr>vw_watch := (vw_watch v)(fd := None)\<rparr>"
| "vw_control op fd ev v = v\<lparr>vw_watch := (vw_watch v)(fd \<mapsto> ev)\<rparr>"

text \<open>What the manual pages of the calls a running thread makes promise.\<close>

definition tcp_calls_ok :: "('w, 'x) tcp_os_scheme \<Rightarrow> ('w \<Rightarrow> sys_view) \<Rightarrow> bool" where
  "tcp_calls_ok os view \<longleftrightarrow>
     (\<forall>fd w. view (os_close os fd w) = vw_closed fd (view w)) \<and>
     (\<forall>fd w s w'. os_accept os fd w = (s, w') \<longrightarrow>
        (s = -1 \<and> view w' = view w) \<or> (0 \<le> s \<and> s \<notin> vw_open (view w) \<and> view w' = vw_opened s (view w))) \<and>
     (\<forall>fd n w ret data w'. os_recv os fd n w = (ret, data, w') \<longrightarrow>
        ret \<le> int n \<and> (0 < ret \<longrightarrow> length data = nat ret) \<and> view w' = vw_received fd (if 0 < ret then data else []) (view w)) \<and>
     (\<forall>fd bs w ret w'. os_send os fd bs w = (ret, w') \<longrightarrow>
        -1 \<le> ret \<and> ret \<le> int (length bs) \<and> view w' = vw_sent fd (take (nat ret) bs) (view w)) \<and>
     (\<forall>ep op fd ev w ret w'. os_epoll_ctl os ep op fd ev w = (ret, w') \<longrightarrow>
        view w' = (if ret = -1 then view w else vw_control op fd (ee_events ev) (view w))) \<and>
     (\<forall>fd w. view (os_shutdown os fd w) = view w) \<and>
     (\<forall>fd w. view (snd (os_getfl os fd w)) = view w) \<and>
     (\<forall>fd fl w. view (snd (os_setfl os fd fl w)) = view w) \<and>
     (\<forall>ep n t w. view (snd (snd (os_epoll_wait os ep n t w))) = view w) \<and>
     (\<forall>fd w a. os_getsockname os fd w = Some a \<longrightarrow> wf_addr a) \<and> (\<forall>fd w a. os_getpeername os fd w = Some a \<longrightarrow> wf_addr a)"

lemma tcp_callsD:
  assumes "tcp_calls_ok os view"
  shows "view (os_close os fd w) = vw_closed fd (view w)"
    "os_accept os fd w = (s, w') \<Longrightarrow>
       (s = -1 \<and> view w' = view w) \<or> (0 \<le> s \<and> s \<notin> vw_open (view w) \<and> view w' = vw_opened s (view w))"
    "os_recv os fd n w = (ret, data, w') \<Longrightarrow>
       ret \<le> int n \<and> (0 < ret \<longrightarrow> length data = nat ret) \<and> view w' = vw_received fd (if 0 < ret then data else []) (view w)"
    "os_send os fd bs w = (ret, w') \<Longrightarrow> -1 \<le> ret \<and> ret \<le> int (length bs) \<and> view w' = vw_sent fd (take (nat ret) bs) (view w)"
    "os_epoll_ctl os ep op fd ev w = (ret, w') \<Longrightarrow> view w' = (if ret = -1 then view w else vw_control op fd (ee_events ev) (view w))"
    "view (os_shutdown os fd w) = view w" "view (snd (os_getfl os fd w)) = view w" "view (snd (os_setfl os fd fl w)) = view w"
    "view (snd (snd (os_epoll_wait os ep n tm w))) = view w"
    "os_getsockname os fd w = Some a \<Longrightarrow> wf_addr a" "os_getpeername os fd w = Some a \<Longrightarrow> wf_addr a"
proof -
  note r = assms [unfolded tcp_calls_ok_def]
  show "view (os_close os fd w) = vw_closed fd (view w)" using r [THEN conjunct1] by (elim allE)
  note r = r [THEN conjunct2]
  show "os_accept os fd w = (s, w') \<Longrightarrow>
       (s = -1 \<and> view w' = view w) \<or> (0 \<le> s \<and> s \<notin> vw_open (view w) \<and> view w' = vw_opened s (view w))"
    using r [THEN conjunct1] by (elim allE impE)
  note r = r [THEN conjunct2]
  show "os_recv os fd n w = (ret, data, w') \<Longrightarrow>
       ret \<le> int n \<and> (0 < ret \<longrightarrow> length data = nat ret) \<and> view w' = vw_received fd (if 0 < ret then data else []) (view w)"
    using r [THEN conjunct1] by (elim allE impE)
  note r = r [THEN conjunct2]
  show "os_send os fd bs w = (ret, w') \<Longrightarrow> -1 \<le> ret \<and> ret \<le> int (length bs) \<and> view w' = vw_sent fd (take (nat ret) bs) (view w)"
    using r [THEN conjunct1] by (elim allE impE)
  note r = r [THEN conjunct2]
  show "os_epoll_ctl os ep op fd ev w = (ret, w') \<Longrightarrow> view w' = (if ret = -1 then view w else vw_control op fd (ee_events ev) (view w))"
    using r [THEN conjunct1] by (elim allE impE)
  note r = r [THEN conjunct2]
  show "view (os_shutdown os fd w) = view w" using r [THEN conjunct1] by (elim allE)
  note r = r [THEN conjunct2]
  show "view (snd (os_getfl os fd w)) = view w" using r [THEN conjunct1] by (elim allE)
  note r = r [THEN conjunct2]
  show "view (snd (os_setfl os fd fl w)) = view w" using r [THEN conjunct1] by (elim allE)
  note r = r [THEN conjunct2]
  show "view (snd (snd (os_epoll_wait os ep n tm w))) = view w" using r [THEN conjunct1] by (elim allE)
  note r = r [THEN conjunct2]
  show "os_getsockname os fd w = Some a \<Longrightarrow> wf_addr a" using r [THEN conjunct1] by (elim allE impE)
  show "os_getpeername os fd w = Some a \<Longrightarrow> wf_addr a" using r [THEN conjunct2] by (elim allE impE)
qed


section \<open>The objects\<close>

text \<open>The free list is the chain of \<open>pNext\<close> from its head.\<close>

fun chain :: "connection list \<Rightarrow> nat option \<Rightarrow> nat list \<Rightarrow> bool" where
  "chain cns p [] \<longleftrightarrow> p = None"
| "chain cns p (c # F) \<longleftrightarrow> p = Some c \<and> c < length cns \<and> chain cns (cn_pNext (cns ! c)) F"

lemma chain_bound: "chain cns p F \<Longrightarrow> set F \<subseteq> {..< length cns}"
  by (induction cns p F rule: chain.induct) auto

lemma chain_update: "chain cns p F \<Longrightarrow> c \<notin> set F \<Longrightarrow> chain (cns[c := cn]) p F"
  by (induction cns p F rule: chain.induct) auto

lemma chain_append: "chain cns p F \<Longrightarrow> chain (cns @ xs) p F"
  by (induction cns p F rule: chain.induct) (auto simp: nth_append)

lemma chain_None: "chain cns None F \<Longrightarrow> F = []"
  by (cases F) auto

lemma chain_Some: "chain cns (Some c) F \<Longrightarrow> \<exists>F'. F = c # F' \<and> c < length cns \<and> chain cns (cn_pNext (cns ! c)) F'"
  by (cases F) auto

text \<open>Every object, free or in use, has its two buffers.\<close>

definition cell_ok :: "connection \<Rightarrow> bool" where
  "cell_ok cn \<longleftrightarrow>
     table_ok (cn_reader cn) \<and> (\<exists>b. cn_spReaderBuffer cn = Some b \<and> ready_buffer b) \<and>
     (\<exists>b. cn_spOutputBuffer cn = Some b \<and> wf_buffer b \<and> 800 \<le> cb_allocatedSize b)"

definition busy :: "nat list \<Rightarrow> tcp_thread \<Rightarrow> nat set" where
  "busy F t = {c. c < length (pl_conns (tt_connectionpool t)) \<and> c \<notin> set F}"

abbreviation sock_of :: "tcp_thread \<Rightarrow> nat \<Rightarrow> int" where
  "sock_of t c \<equiv> sk_sock (cn_stunsocket (conn t c))"

abbreviation conn_view :: "table_ptr \<Rightarrow> tcp_thread \<Rightarrow> int \<Rightarrow> nat option" where
  "conn_view p t \<equiv> fh_view FastHash_Hash_signed (conn_table p t)"

fun table_id :: "table_ptr \<Rightarrow> int" where
  "table_id Table1 = 1"
| "table_id Table2 = 2"

text \<open>The free list \<open>F\<close> and the two tables partition the objects; those in \<open>X\<close> are in use and in no table.\<close>

definition tcp_shape :: "nat list \<Rightarrow> nat set \<Rightarrow> tcp_thread \<Rightarrow> bool" where
  "tcp_shape F X t \<longleftrightarrow>
     chain (pl_conns (tt_connectionpool t)) (pl_freelist (tt_connectionpool t)) F \<and> distinct F \<and>
     (\<forall>c \<in> set F. sock_of t c = -1) \<and> (\<forall>c < length (pl_conns (tt_connectionpool t)). cell_ok (conn t c)) \<and>
     (\<forall>p. fh_unique FastHash_Hash_signed (conn_table p t)) \<and>
     (\<forall>p fd c. conn_view p t fd = Some c \<longleftrightarrow> c \<in> busy F t - X \<and> cn_idHashTable (conn t c) = table_id p \<and> sock_of t c = fd) \<and>
     (\<forall>c \<in> busy F t - X. cn_idHashTable (conn t c) = 1 \<or> cn_idHashTable (conn t c) = 2) \<and>
     inj_on (sock_of t) (busy F t) \<and> (\<forall>c \<in> busy F t. sock_of t c \<noteq> -1)"

lemma tcp_shapeD:
  assumes "tcp_shape F X t"
  shows "chain (pl_conns (tt_connectionpool t)) (pl_freelist (tt_connectionpool t)) F" "distinct F"
    "c \<in> set F \<Longrightarrow> sock_of t c = -1" "c < length (pl_conns (tt_connectionpool t)) \<Longrightarrow> cell_ok (conn t c)"
    "fh_unique FastHash_Hash_signed (conn_table p t)"
    "conn_view p t fd = Some c \<longleftrightarrow> c \<in> busy F t - X \<and> cn_idHashTable (conn t c) = table_id p \<and> sock_of t c = fd"
    "c \<in> busy F t - X \<Longrightarrow> cn_idHashTable (conn t c) = 1 \<or> cn_idHashTable (conn t c) = 2"
    "inj_on (sock_of t) (busy F t)" "c \<in> busy F t \<Longrightarrow> sock_of t c \<noteq> -1"
  using assms unfolding tcp_shape_def by blast+

section \<open>The progress of a connection\<close>

text \<open>
  What a thread is configured with: the providers, its addresses, the descriptors that are not connections, those
  of them that belong to the thread itself, and whether it was started.
\<close>

record tcp_env =
  en_hmac :: "bytes \<Rightarrow> bytes \<Rightarrow> bytes"
  en_md5 :: "bytes \<Rightarrow> bytes"
  en_auth :: "IStunAuth option"
  en_tsa :: TransportAddressSet
  en_keep :: "int set"
  en_own :: "int set"
  en_started :: bool

definition env_ok :: "tcp_env \<Rightarrow> bool" where
  "env_ok e \<longleftrightarrow> providers_ok (en_auth e) \<and> (\<forall>k d. length (en_hmac e k d) = 20) \<and> (\<forall>k. length (en_md5 e k) = 16) \<and> wf_set (en_tsa e)"

definition tcp_reply :: "tcp_env \<Rightarrow> StunMessageIn \<Rightarrow> bytes \<Rightarrow> bytes \<Rightarrow> bool" where
  "tcp_reply e m req data \<longleftrightarrow>
     (\<exists>role dest. udp_reply (en_hmac e) (en_md5 e) (en_auth e) (en_tsa e) m req = Some (role, data, dest))"

definition reading :: "bytes \<Rightarrow> connection \<Rightarrow> bool" where
  "reading text cn \<longleftrightarrow>
     reader_after True text (cn_reader cn) \<and> sound_attached (rd_stream (cn_reader cn)) \<and>
     (rd_state (cn_reader cn) = HeaderNotRead \<or> rd_state (cn_reader cn) = HeaderValidated)"

text \<open>
  A connection receives, then transmits, then waits for the client to close; \<open>fd\<close> is watched for what the state
  waits for. Nothing is sent before a whole request has come; then what was sent is what \<open>_txCount\<close> says of the reply.
\<close>

definition progress :: "tcp_env \<Rightarrow> sys_view \<Rightarrow> connection \<Rightarrow> bool" where
  "progress e v cn \<longleftrightarrow>
     (let fd = sk_sock (cn_stunsocket cn); reply = tcp_reply e (tcp_message_in cn) in
      IsValidSocketRole (sk_role (cn_stunsocket cn)) \<and> wf_addr (sk_addrlocal (cn_stunsocket cn)) \<and>
      wf_addr (sk_addrremote (cn_stunsocket cn)) \<and>
      (case cn_state cn of
         ConnectionState_Idle \<Rightarrow> False
       | ConnectionState_Receiving \<Rightarrow>
           vw_watch v fd = Some (CEpoll_ToNativeFlags EPOLL_CLIENT_READ_EVENT_SET) \<and> vw_out v fd = [] \<and>
           cn_txCount cn = 0 \<and> reading (vw_in v fd) cn
       | ConnectionState_Transmitting \<Rightarrow>
           vw_watch v fd = Some (CEpoll_ToNativeFlags EPOLL_CLIENT_WRITE_EVENT_SET) \<and>
           reply (vw_in v fd) (output_bytes cn) \<and> cn_txCount cn \<le> length (output_bytes cn) \<and>
           vw_out v fd = take (cn_txCount cn) (output_bytes cn)
       | ConnectionState_Closing \<Rightarrow>
           vw_watch v fd = Some (CEpoll_ToNativeFlags EPOLL_CLIENT_READ_EVENT_SET) \<and>
           (\<exists>req. prefix req (vw_in v fd) \<and> reply req (output_bytes cn)) \<and> vw_out v fd = output_bytes cn))"

text \<open>For every descriptor, still open or not: what was sent is the beginning of the reply to what had come.\<close>

definition honest :: "tcp_env \<Rightarrow> sys_view \<Rightarrow> int \<Rightarrow> bool" where
  "honest e v fd \<longleftrightarrow>
     vw_out v fd = [] \<or>
     (\<exists>m req data. in_fConnectionOriented m \<and> prefix req (vw_in v fd) \<and> tcp_reply e m req data \<and> prefix (vw_out v fd) data)"

lemma progress_honest: "progress e v cn \<Longrightarrow> honest e v (sk_sock (cn_stunsocket cn))"
proof -
  assume p: "progress e v cn"
  let ?fd = "sk_sock (cn_stunsocket cn)" and ?m = "tcp_message_in cn"
  have m: "in_fConnectionOriented ?m" by (simp add: tcp_message_in_def)
  have "\<exists>req data. prefix req (vw_in v ?fd) \<and> tcp_reply e ?m req data \<and> prefix (vw_out v ?fd) data" if "vw_out v ?fd \<noteq> []"
    using p that by (cases "cn_state cn") (auto simp: progress_def Let_def, metis prefix_order.refl take_is_prefix)
  then show ?thesis using m by (auto simp: honest_def)
qed

text \<open>The pipe, the listening sockets and the descriptor of the polling object.\<close>

definition polling_fds :: "IPolling option \<Rightarrow> int set" where
  "polling_fds p = (case p of Some (CEpollObject ep) \<Rightarrow> {ep_epollfd ep} | _ \<Rightarrow> {})"

definition thread_fds :: "tcp_thread \<Rightarrow> int set" where
  "thread_fds t = ({tt_pipe0 t, tt_pipe1 t} \<union> owned (tt_socketListenArray t) \<union> polling_fds (tt_spPolling t)) - {-1}"

definition tcp_config_ok :: "tcp_env \<Rightarrow> tcp_thread \<Rightarrow> bool" where
  "tcp_config_ok e t \<longleftrightarrow>
     tt_tsa t = en_tsa e \<and> tt_spAuth t = en_auth e \<and> tt_pNewConnList t \<noteq> tt_pOldConnList t \<and>
     (\<exists>p. tt_spPolling t = Some (CEpollObject p) \<and> ep_epollfd p \<noteq> -1) \<and> thread_fds t = en_own e \<and>
     tt_fThreadIsValid t = en_started e \<and>
     (\<forall>i < 4. tt_socketTable t ! i = -1 \<or> tt_socketTable t ! i \<in> en_keep e \<and> IsValidSocketRole (sk_role (tt_socketListenArray t ! i)))"

text \<open>The invariant. The connections in \<open>X\<close> are in no table, those in \<open>Y\<close> have made no progress to speak of.\<close>

definition tcp_ok :: "tcp_env \<Rightarrow> nat list \<Rightarrow> nat set \<Rightarrow> nat set \<Rightarrow> tcp_thread \<Rightarrow> sys_view \<Rightarrow> bool" where
  "tcp_ok e F X Y t v \<longleftrightarrow>
     tcp_shape F X t \<and> tcp_config_ok e t \<and>
     vw_open v = en_keep e \<union> sock_of t ` busy F t \<and> en_keep e \<inter> sock_of t ` busy F t = {} \<and>
     (\<forall>c \<in> busy F t - Y. progress e v (conn t c)) \<and> (\<forall>fd. honest e v fd)"

lemma tcp_okD:
  assumes "tcp_ok e F X Y t v"
  shows "tcp_shape F X t" "tcp_config_ok e t" "vw_open v = en_keep e \<union> sock_of t ` busy F t"
    "en_keep e \<inter> sock_of t ` busy F t = {}" "c \<in> busy F t \<Longrightarrow> c \<notin> Y \<Longrightarrow> progress e v (conn t c)" "honest e v fd"
  using assms unfolding tcp_ok_def by blast+

lemma tcp_ok_mono: "tcp_ok e F X Y t v \<Longrightarrow> Y \<subseteq> Y' \<Longrightarrow> tcp_ok e F X Y' t v"
  unfolding tcp_ok_def by blast

text \<open>The members that a step on one connection leaves alone.\<close>

definition config :: "tcp_thread \<Rightarrow> tcp_thread" where
  "config t = t\<lparr>tt_spPolling := None, tt_connectionpool := CConnectionPool_new, tt_hashConnections1 := FastHashDynamic_new,
     tt_hashConnections2 := FastHashDynamic_new\<rparr>"

lemma config_fields:
  assumes "config t' = config t"
  shows "tt_pNewConnList t' = tt_pNewConnList t" "tt_pOldConnList t' = tt_pOldConnList t" "tt_tsa t' = tt_tsa t"
    "tt_spAuth t' = tt_spAuth t" "tt_socketListenArray t' = tt_socketListenArray t" "tt_socketTable t' = tt_socketTable t"
    "tt_fNeedToExit t' = tt_fNeedToExit t" "tt_pipe0 t' = tt_pipe0 t" "tt_pipe1 t' = tt_pipe1 t"
    "tt_timeLastSweep t' = tt_timeLastSweep t" "tt_fThreadIsValid t' = tt_fThreadIsValid t"
proof -
  note a = arg_cong [OF assms]
  show "tt_pNewConnList t' = tt_pNewConnList t" using a [of tt_pNewConnList] by (simp add: config_def)
  show "tt_pOldConnList t' = tt_pOldConnList t" using a [of tt_pOldConnList] by (simp add: config_def)
  show "tt_tsa t' = tt_tsa t" using a [of tt_tsa] by (simp add: config_def)
  show "tt_spAuth t' = tt_spAuth t" using a [of tt_spAuth] by (simp add: config_def)
  show "tt_socketListenArray t' = tt_socketListenArray t" using a [of tt_socketListenArray] by (simp add: config_def)
  show "tt_socketTable t' = tt_socketTable t" using a [of tt_socketTable] by (simp add: config_def)
  show "tt_fNeedToExit t' = tt_fNeedToExit t" using a [of tt_fNeedToExit] by (simp add: config_def)
  show "tt_fThreadIsValid t' = tt_fThreadIsValid t" using a [of tt_fThreadIsValid] by (simp add: config_def)
  show "tt_pipe0 t' = tt_pipe0 t" using a [of tt_pipe0] by (simp add: config_def)
  show "tt_pipe1 t' = tt_pipe1 t" using a [of tt_pipe1] by (simp add: config_def)
  show "tt_timeLastSweep t' = tt_timeLastSweep t" using a [of tt_timeLastSweep] by (simp add: config_def)
qed

end
