(* ===== verification/TcpSteps.thy ===== *)
theory TcpSteps
  imports TcpPool
begin

text \<open>
  How the operations on one connection keep the invariant of a TCP thread: closing it, changing its event set, and
  updating the object while the system's view changes only at its descriptor.
\<close>

section \<open>Updating one object\<close>

lemma on_conn_simps [simp]:
  "length (pl_conns (tt_connectionpool (on_conn c f t))) = length (pl_conns (tt_connectionpool t))"
  "pl_freelist (tt_connectionpool (on_conn c f t)) = pl_freelist (tt_connectionpool t)"
  "conn_table p (on_conn c f t) = conn_table p t" "config (on_conn c f t) = config t"
  "tt_spPolling (on_conn c f t) = tt_spPolling t" "busy F (on_conn c f t) = busy F t"
  "tt_hashConnections1 (on_conn c f t) = tt_hashConnections1 t" "tt_hashConnections2 (on_conn c f t) = tt_hashConnections2 t"
  by (cases p; simp add: on_conn_def pool_update_def config_def busy_def)+

lemma conn_on_conn: "c < length (pl_conns (tt_connectionpool t)) \<Longrightarrow> conn (on_conn c f t) d = (if d = c then f (conn t c) else conn t d)"
  by (simp add: on_conn_def pool_update_def)

lemma busy_length: "c \<in> busy F t \<Longrightarrow> c < length (pl_conns (tt_connectionpool t))"
  by (simp add: busy_def)

lemma tcp_config_ok_config: "config t' = config t \<Longrightarrow> tt_spPolling t' = tt_spPolling t \<Longrightarrow> tcp_config_ok e t' = tcp_config_ok e t"
proof -
  assume c: "config t' = config t" "tt_spPolling t' = tt_spPolling t"
  show "tcp_config_ok e t' = tcp_config_ok e t" unfolding tcp_config_ok_def thread_fds_def config_fields [OF c(1)] c(2) by (rule refl)
qed

definition only_at :: "int \<Rightarrow> sys_view \<Rightarrow> sys_view \<Rightarrow> bool" where
  "only_at fd v v' \<longleftrightarrow>
     vw_open v' = vw_open v \<and> (\<forall>x. x \<noteq> fd \<longrightarrow> vw_watch v' x = vw_watch v x \<and> vw_in v' x = vw_in v x \<and> vw_out v' x = vw_out v x)"

lemma only_at_refl [simp]: "only_at fd v v"
  by (simp add: only_at_def)

lemma only_at_trans: "only_at fd v1 v2 \<Longrightarrow> only_at fd v2 v3 \<Longrightarrow> only_at fd v1 v3"
  by (simp add: only_at_def)

lemma only_at_steps [simp]:
  "only_at fd v (vw_received fd data v)" "only_at fd v (vw_sent fd data v)" "only_at fd v (vw_control op fd ev v)"
  by (simp_all add: only_at_def vw_received_def vw_sent_def) (cases op; simp)

lemma progress_cong:
  assumes "vw_watch v' (sk_sock (cn_stunsocket cn)) = vw_watch v (sk_sock (cn_stunsocket cn))"
    "vw_in v' (sk_sock (cn_stunsocket cn)) = vw_in v (sk_sock (cn_stunsocket cn))"
    "vw_out v' (sk_sock (cn_stunsocket cn)) = vw_out v (sk_sock (cn_stunsocket cn))"
  shows "progress e v' cn = progress e v cn"
  unfolding progress_def Let_def assms by (rule refl)

lemma honest_cong: "vw_in v' fd = vw_in v fd \<Longrightarrow> vw_out v' fd = vw_out v fd \<Longrightarrow> honest e v' fd = honest e v fd"
  by (simp add: honest_def)

lemma shape_on_conn:
  assumes s: "tcp_shape F X t" and c: "c \<in> busy F t"
    and cn: "cell_ok cn" "sk_sock (cn_stunsocket cn) = sock_of t c" "c \<in> X \<or> cn_idHashTable cn = cn_idHashTable (conn t c)"
  shows "tcp_shape F X (on_conn c (\<lambda>_. cn) t)"
proof -
  note d = tcp_shapeD [OF s]
  let ?t = "on_conn c (\<lambda>_. cn) t"
  have nth: "conn ?t d = (if d = c then cn else conn t d)" for d using conn_on_conn [OF busy_length [OF c]] by simp
  have sock: "sock_of ?t d = sock_of t d" for d using cn nth by simp
  have id: "cn_idHashTable (conn ?t d) = cn_idHashTable (conn t d)" if "d \<notin> X" for d using cn(3) nth that by auto
  have "c \<notin> set F" using c by (simp add: busy_def)
  then have "chain (pl_conns (tt_connectionpool ?t)) (pl_freelist (tt_connectionpool t)) F"
    using chain_update [OF d(1), of c cn] by (simp add: on_conn_def pool_update_def)
  moreover have "cell_ok (conn ?t d)" if "d < length (pl_conns (tt_connectionpool t))" for d using that d(4) cn(1) nth by simp
  moreover have "conn_view p t fd = Some x \<longleftrightarrow> x \<in> busy F t - X \<and> cn_idHashTable (conn ?t x) = table_id p \<and> sock_of t x = fd" for p fd x
    using d(6) [of p fd x] id [of x] by auto
  moreover have "cn_idHashTable (conn ?t x) = 1 \<or> cn_idHashTable (conn ?t x) = 2" if "x \<in> busy F t - X" for x
    using d(7) [OF that] id [of x] that by simp
  ultimately show ?thesis using s unfolding tcp_shape_def sock on_conn_simps by blast
qed

lemma ok_on_conn:
  assumes ok: "tcp_ok e F X Y t v" and c: "c \<in> busy F t"
    and cn: "cell_ok cn" "sk_sock (cn_stunsocket cn) = sock_of t c" "c \<in> X \<or> cn_idHashTable cn = cn_idHashTable (conn t c)"
    and v: "only_at (sock_of t c) v v'" and p: "c \<in> Y' \<or> progress e v' cn" and h: "honest e v' (sock_of t c)" and Y: "Y \<subseteq> insert c Y'"
  shows "tcp_ok e F X Y' (on_conn c (\<lambda>_. cn) t) v'"
proof -
  note d = tcp_okD [OF ok] and sh = tcp_shapeD [OF tcp_okD(1) [OF ok]]
  let ?t = "on_conn c (\<lambda>_. cn) t"
  have nth: "conn ?t d = (if d = c then cn else conn t d)" for d using conn_on_conn [OF busy_length [OF c]] by simp
  have sock: "sock_of ?t d = sock_of t d" for d using cn(2) nth by simp
  have "progress e v' (conn ?t d)" if "d \<in> busy F t" "d \<notin> Y'" for d
  proof (cases "d = c")
    case False
    then have "sock_of t d \<noteq> sock_of t c" using sh(8) that(1) c by (auto dest: inj_onD)
    then have "progress e v' (conn t d) = progress e v (conn t d)" using v by (intro progress_cong) (simp_all add: only_at_def)
    moreover have "d \<notin> Y" using that(2) False Y by blast
    ultimately show ?thesis using d(5) [OF that(1)] False by (simp add: nth)
  qed (use p that nth in auto)
  moreover have "honest e v' fd" for fd
    using h d(6) [of fd] v by (cases "fd = sock_of t c") (simp_all add: only_at_def honest_def)
  moreover have "vw_open v' = vw_open v" using v by (simp add: only_at_def)
  moreover have "tcp_config_ok e ?t" using d(2) tcp_config_ok_config [of ?t t e] by simp
  ultimately show ?thesis using shape_on_conn [OF d(1) c cn] d(3,4) unfolding tcp_ok_def on_conn_simps sock by blast
qed

text \<open>The same where the object does not change.\<close>

lemma ok_view:
  assumes ok: "tcp_ok e F X Y t v" and c: "c \<in> busy F t" and v: "only_at (sock_of t c) v v'"
    and p: "c \<in> Y' \<or> progress e v' (conn t c)" and h: "honest e v' (sock_of t c)" and Y: "Y \<subseteq> insert c Y'"
  shows "tcp_ok e F X Y' t v'"
proof -
  have "on_conn c (\<lambda>_. conn t c) t = t" by (simp add: on_conn_def pool_update_def)
  moreover have "cell_ok (conn t c)" using tcp_shapeD(4) [OF tcp_okD(1) [OF ok]] busy_length [OF c] by simp
  ultimately show ?thesis using ok_on_conn [OF ok c _ refl _ v p h Y] by simp
qed

section \<open>The polling object\<close>

lemma polling_control:
  assumes sys: "tcp_calls_ok os view" and cfg: "tcp_config_ok e t" and fd: "fd \<noteq> -1"
  shows "\<exists>hr w'. on_polling (Polling_Add os fd ev) t w = (hr, t, w') \<and>
      view w' = (if FAILED hr then view w else vw_control EPOLL_CTL_ADD fd (CEpoll_ToNativeFlags ev) (view w))"
    "\<exists>hr w'. on_polling (Polling_ChangeEventSet os fd ev) t w = (hr, t, w') \<and>
      view w' = (if FAILED hr then view w else vw_control EPOLL_CTL_MOD fd (CEpoll_ToNativeFlags ev) (view w))"
    "\<exists>hr w'. on_polling (Polling_Remove os fd) t w = (hr, t, w') \<and>
      view w' = (if FAILED hr then view w else vw_control EPOLL_CTL_DEL fd 0 (view w))"
proof -
  obtain p where p: "tt_spPolling t = Some (CEpollObject p)" "ep_epollfd p \<noteq> -1" using cfg by (auto simp: tcp_config_ok_def)
  have same: "t\<lparr>tt_spPolling := Some (CEpollObject p)\<rparr> = t" using p(1) by simp
  have c: "\<exists>hr w'. epoll_control os op fd x p w = (hr, p, w') \<and>
      view w' = (if FAILED hr then view w else vw_control op fd (ee_events x) (view w))" for op x
  proof -
    obtain ret w1 where r: "os_epoll_ctl os (ep_epollfd p) op fd x w = (ret, w1)" by fastforce
    show ?thesis using tcp_callsD(5) [OF sys r] fd p(2) by (simp add: epoll_control_def r)
  qed
  note l = on_polling_def p(1) CEpoll_Add_def CEpoll_ChangeEventSet_def CEpoll_Remove_def on_epoll_def
  show "\<exists>hr w'. on_polling (Polling_Add os fd ev) t w = (hr, t, w') \<and>
      view w' = (if FAILED hr then view w else vw_control EPOLL_CTL_ADD fd (CEpoll_ToNativeFlags ev) (view w))"
    using c [of EPOLL_CTL_ADD "\<lparr>ee_fd = fd, ee_events = CEpoll_ToNativeFlags ev\<rparr>"] by (auto simp: l same)
  show "\<exists>hr w'. on_polling (Polling_ChangeEventSet os fd ev) t w = (hr, t, w') \<and>
      view w' = (if FAILED hr then view w else vw_control EPOLL_CTL_MOD fd (CEpoll_ToNativeFlags ev) (view w))"
    using c [of EPOLL_CTL_MOD "\<lparr>ee_fd = fd, ee_events = CEpoll_ToNativeFlags ev\<rparr>"] by (auto simp: l same)
  show "\<exists>hr w'. on_polling (Polling_Remove os fd) t w = (hr, t, w') \<and>
      view w' = (if FAILED hr then view w else vw_control EPOLL_CTL_DEL fd 0 (view w))"
    using c [of EPOLL_CTL_DEL "\<lparr>ee_fd = 0, ee_events = 0\<rparr>"] by (auto simp: l same)
qed


section \<open>Closing a connection\<close>

lemma set_conn_table_simps [simp]:
  "conn_table q (set_conn_table p h t) = (if q = p then h else conn_table q t)"
  "tt_connectionpool (set_conn_table p h t) = tt_connectionpool t" "config (set_conn_table p h t) = config t"
  "tt_spPolling (set_conn_table p h t) = tt_spPolling t"
  "config (t\<lparr>tt_hashConnections1 := h1\<rparr>) = config t" "config (t\<lparr>tt_hashConnections2 := h2\<rparr>) = config t"
  by (cases p; cases q; simp add: config_def)+

lemma table_id_simps [simp]: "table_id p = table_id q \<longleftrightarrow> p = q" "table_id p = 1 \<longleftrightarrow> p = Table1" "table_id p = 2 \<longleftrightarrow> p = Table2"
  "1 = table_id p \<longleftrightarrow> p = Table1" "2 = table_id p \<longleftrightarrow> p = Table2"
  by (cases p; cases q; simp)+

text \<open>The object that \<open>CloseConnection\<close> puts on the free list.\<close>

definition released :: "nat option \<Rightarrow> connection \<Rightarrow> connection" where
  "released next cn = cn\<lparr>cn_stunsocket := CStunSocket_Reset (cn_stunsocket cn), cn_pNext := next\<rparr>"

lemma close_eq:
  assumes sys: "tcp_calls_ok os view" and cfg: "tcp_config_ok e t" and c: "c < length (pl_conns (tt_connectionpool t))" "sock_of t c \<noteq> -1"
    and cl: "CloseConnection os (Some c) t w = (t', w')"
  shows "pl_conns (tt_connectionpool t') = (pl_conns (tt_connectionpool t))[c := released (pl_freelist (tt_connectionpool t)) (conn t c)]"
    "pl_freelist (tt_connectionpool t') = Some c" "config t' = config t" "tt_spPolling t' = tt_spPolling t"
    "conn_table p t' = (if table_id p = cn_idHashTable (conn t c)
       then snd (FastHash_Remove FastHash_Hash_signed (sock_of t c) (conn_table p t)) else conn_table p t)"
    "view w' = vw_closed (sock_of t c) (view w)"
proof -
  let ?s = "sock_of t c"
  obtain hr w1 where rm: "on_polling (Polling_Remove os ?s) t w = (hr, t, w1)"
    and v1: "view w1 = (if FAILED hr then view w else vw_control EPOLL_CTL_DEL ?s 0 (view w))"
    using polling_control(3) [OF sys cfg c(2)] by blast
  have sk: "CStunSocket_Close os (cn_stunsocket (conn t c)) w1 = (CStunSocket_Reset (cn_stunsocket (conn t c)), os_close os ?s w1)"
    using c(2) by (simp add: CStunSocket_Close_def CStunSocket_Reset_def)
  let ?t1 = "on_conn c (cn_stunsocket_update (\<lambda>_. CStunSocket_Reset (cn_stunsocket (conn t c)))) t"
  let ?rm = "\<lambda>p. set_conn_table p (snd (FastHash_Remove FastHash_Hash_signed ?s (conn_table p t))) ?t1"
  let ?t2 = "if cn_idHashTable (conn t c) = 1 then ?rm Table1 else if cn_idHashTable (conn t c) = 2 then ?rm Table2 else ?t1"
  have id: "cn_idHashTable (conn ?t1 c) = cn_idHashTable (conn t c)" using conn_on_conn [OF c(1)] by simp
  have e: "t' = ?t2\<lparr>tt_connectionpool := ReleaseConnection c (tt_connectionpool ?t2)\<rparr>" "w' = os_close os ?s w1"
    using cl unfolding CloseConnection_def option.case Let_def CStunSocket_GetSocketHandle_def rm prod.case sk id on_conn_simps by simp_all
  have pool: "tt_connectionpool ?t2 = tt_connectionpool ?t1" by simp
  have cns: "pl_conns (tt_connectionpool ?t1) = (pl_conns (tt_connectionpool t))[c := (conn t c)\<lparr>cn_stunsocket := CStunSocket_Reset (cn_stunsocket (conn t c))\<rparr>]"
    by (simp add: on_conn_def pool_update_def)
  show "pl_conns (tt_connectionpool t') = (pl_conns (tt_connectionpool t))[c := released (pl_freelist (tt_connectionpool t)) (conn t c)]"
    "pl_freelist (tt_connectionpool t') = Some c"
    unfolding e pool using c(1) by (simp_all add: ReleaseConnection_def pool_update_def cns released_def)
  have "config ?t2 = config t" "tt_spPolling ?t2 = tt_spPolling t" by simp_all
  then show "config t' = config t" "tt_spPolling t' = tt_spPolling t" unfolding e by (simp_all add: config_def)
  have "conn_table p t' = conn_table p ?t2" unfolding e by (cases p) simp_all
  then show "conn_table p t' = (if table_id p = cn_idHashTable (conn t c)
       then snd (FastHash_Remove FastHash_Hash_signed ?s (conn_table p t)) else conn_table p t)"
    by (cases p) simp_all
  show "view w' = vw_closed ?s (view w)" unfolding e tcp_callsD(1) [OF sys] v1 by (simp add: vw_closed_def)
qed

lemma close_shape:
  assumes s: "tcp_shape F X t" and c: "c \<in> busy F t"
    and pl: "pl_conns (tt_connectionpool t') = (pl_conns (tt_connectionpool t))[c := released (pl_freelist (tt_connectionpool t)) (conn t c)]"
      "pl_freelist (tt_connectionpool t') = Some c"
    and tb: "\<And>p. conn_table p t' = (if table_id p = cn_idHashTable (conn t c)
       then snd (FastHash_Remove FastHash_Hash_signed (sock_of t c) (conn_table p t)) else conn_table p t)"
  shows "tcp_shape (c # F) (X - {c}) t'" "busy (c # F) t' = busy F t - {c}" "d \<noteq> c \<Longrightarrow> conn t' d = conn t d"
    "conn_view p t' = (if table_id p = cn_idHashTable (conn t c) then (conn_view p t)(sock_of t c := None) else conn_view p t)"
proof -
  note d = tcp_shapeD [OF s]
  have c': "c < length (pl_conns (tt_connectionpool t))" "c \<notin> set F" using c by (auto simp: busy_def)
  have nth: "conn t' d = (if d = c then released (pl_freelist (tt_connectionpool t)) (conn t c) else conn t d)" for d
    unfolding pl using c'(1) by simp
  show "d \<noteq> c \<Longrightarrow> conn t' d = conn t d" for d using nth by simp
  show b: "busy (c # F) t' = busy F t - {c}" unfolding busy_def pl by auto
  have view: "conn_view p t' = (if table_id p = cn_idHashTable (conn t c) then (conn_view p t)(sock_of t c := None) else conn_view p t)"
    and uniq: "fh_unique FastHash_Hash_signed (conn_table p t')" for p
    unfolding tb using hashmap.removed [OF d(5)] d(5) by simp_all
  show "conn_view p t' = (if table_id p = cn_idHashTable (conn t c) then (conn_view p t)(sock_of t c := None) else conn_view p t)"
    by (rule view)
  have iff: "conn_view p t' fd = Some x \<longleftrightarrow> x \<in> busy F t - {c} - (X - {c}) \<and> cn_idHashTable (conn t' x) = table_id p \<and> sock_of t' x = fd" for p fd x
  proof (cases "x = c")
    case True
    have "conn_view p t' fd \<noteq> Some c" using d(6) [of p fd c] by (auto simp: view)
    then show ?thesis using True by simp
  next
    case False
    have "conn_view p t' fd = Some x \<longleftrightarrow> conn_view p t fd = Some x"
      using d(6) [of p fd x] inj_onD [OF d(8), of x c] False c by (auto simp: view)
    then show ?thesis using d(6) [of p fd x] False by (simp add: nth)
  qed
  have cell: "cell_ok (conn t' x)" if "x < length (pl_conns (tt_connectionpool t))" for x
    using d(4) [OF that] d(4) [OF c'(1)] by (simp add: nth released_def cell_ok_def)
  have ch: "chain (pl_conns (tt_connectionpool t')) (pl_freelist (tt_connectionpool t')) (c # F)"
    using chain_update [OF d(1) c'(2)] c'(1) nth [of c] by (simp add: pl(2) released_def) (simp add: pl(1) released_def)
  have free: "sock_of t' x = -1" if "x \<in> set (c # F)" for x
    using that d(3) by (auto simp: nth released_def CStunSocket_Reset_def)
  have inj: "inj_on (sock_of t') (busy F t - {c})" using d(8) by (auto simp: inj_on_def nth)
  have rest: "cn_idHashTable (conn t' x) = cn_idHashTable (conn t x)" "sock_of t' x = sock_of t x" if "x \<in> busy F t - {c}" for x
    using that nth by simp_all
  have len: "length (pl_conns (tt_connectionpool t')) = length (pl_conns (tt_connectionpool t))" by (simp add: pl(1))
  have "distinct (c # F)" using d(2) c'(2) by simp
  moreover have "\<forall>x \<in> busy F t - {c} - (X - {c}). cn_idHashTable (conn t' x) = 1 \<or> cn_idHashTable (conn t' x) = 2"
    using d(7) rest(1) by auto
  moreover have "\<forall>x \<in> busy F t - {c}. sock_of t' x \<noteq> -1" using d(9) rest(2) by auto
  ultimately show "tcp_shape (c # F) (X - {c}) t'"
    unfolding tcp_shape_def b len using ch cell free uniq iff inj by (intro conjI ballI allI impI) blast+
qed


text \<open>
  What an operation on a connection does to the thread: the members of \<open>config\<close> and all other connections are as before,
  and the connection is either still in use or was closed.
\<close>

definition tcp_step :: "tcp_env \<Rightarrow> nat list \<Rightarrow> nat \<Rightarrow> tcp_thread \<Rightarrow> tcp_thread \<Rightarrow> sys_view \<Rightarrow> bool" where
  "tcp_step e F c t t' v' \<longleftrightarrow>
     config t' = config t \<and> (\<forall>d \<in> busy F t - {c}. conn t' d = conn t d) \<and>
     (tcp_ok e F {} {} t' v' \<and> busy F t' = busy F t \<and> sock_of t' c = sock_of t c \<and> cn_idHashTable (conn t' c) = cn_idHashTable (conn t c) \<or>
      tcp_ok e (c # F) {} {} t' v' \<and> busy (c # F) t' = busy F t - {c})"

lemma close_ok:
  assumes sys: "tcp_calls_ok os view" and ok: "tcp_ok e F X {c} t (view w)" and X: "X \<subseteq> {c}" and c: "c \<in> busy F t"
    and cl: "CloseConnection os (Some c) t w = (t', w')"
  shows "tcp_ok e (c # F) {} {} t' (view w')" "busy (c # F) t' = busy F t - {c}" "config t' = config t"
    "d \<noteq> c \<Longrightarrow> conn t' d = conn t d"
    "conn_view p t' = (if table_id p = cn_idHashTable (conn t c) then (conn_view p t)(sock_of t c := None) else conn_view p t)"
proof -
  note d = tcp_okD [OF ok]
  have c': "c < length (pl_conns (tt_connectionpool t))" "sock_of t c \<noteq> -1" using c tcp_shapeD(9) [OF d(1)] by (simp_all add: busy_def)
  note eq = close_eq [OF sys d(2) c' cl] and sh = close_shape [OF d(1) c]
  note cs = sh [OF eq(1,2,5)]
  show b: "busy (c # F) t' = busy F t - {c}" by (rule cs(2))
  show "config t' = config t" by (rule eq(3))
  show nth: "d \<noteq> c \<Longrightarrow> conn t' d = conn t d" for d by (erule cs(3))
  show "conn_view p t' = (if table_id p = cn_idHashTable (conn t c) then (conn_view p t)(sock_of t c := None) else conn_view p t)"
    by (rule cs(4))
  have same: "sock_of t' x = sock_of t x" "conn t' x = conn t x" if "x \<in> busy F t - {c}" for x using that nth by simp_all
  have other: "sock_of t x \<noteq> sock_of t c" if "x \<in> busy F t - {c}" for x
    using that c inj_onD [OF tcp_shapeD(8) [OF d(1)], of x c] by auto
  have img: "sock_of t' ` (busy F t - {c}) = sock_of t ` busy F t - {sock_of t c}"
    using same(1) other c by (auto simp: image_iff)
  have "sock_of t c \<notin> en_keep e" using d(4) c by blast
  then have "vw_open (view w') = en_keep e \<union> sock_of t' ` (busy F t - {c})"
    unfolding img eq(6) using d(3) by (auto simp: vw_closed_def)
  moreover have "en_keep e \<inter> sock_of t' ` (busy F t - {c}) = {}" unfolding img using d(4) by blast
  moreover have "progress e (view w') (conn t' x)" if x: "x \<in> busy F t - {c}" for x
  proof -
    have "progress e (view w') (conn t x) = progress e (view w) (conn t x)"
      unfolding eq(6) using other [OF x] by (intro progress_cong) (simp_all add: vw_closed_def)
    then show ?thesis using d(5) [of x] x same(2) [OF x] by simp
  qed
  moreover have "honest e (view w') fd" for fd using d(6) [of fd] unfolding eq(6) by (simp add: honest_def vw_closed_def)
  moreover have "tcp_shape (c # F) {} t'" using cs(1) X by (metis Diff_eq_empty_iff)
  moreover have "tcp_config_ok e t'" using d(2) tcp_config_ok_config [OF eq(3,4)] by simp
  ultimately show "tcp_ok e (c # F) {} {} t' (view w')" unfolding tcp_ok_def b by blast
qed

lemma closed_step:
  assumes "tcp_calls_ok os view" "tcp_ok e F {} {c} t (view w)" "c \<in> busy F t" "CloseConnection os (Some c) t w = (t', w')"
  shows "tcp_step e F c t t' (view w')"
  using close_ok [OF assms(1,2) _ assms(3,4)] unfolding tcp_step_def by blast

end
