(* ===== verification/TcpLoops.thy ===== *)
theory TcpLoops
  imports TcpSteps
begin

text \<open>
  The loops of a TCP thread over one connection: whenever one returns, every other connection is as it was, and this one
  has kept to its protocol or is closed. Then that they return.
\<close>

lemma on_conn_const: "on_conn c f t = on_conn c (\<lambda>_. f (conn t c)) t"
  by (simp add: on_conn_def pool_update_def)

lemma on_conn_twice: "c < length (pl_conns (tt_connectionpool t)) \<Longrightarrow> on_conn c f (on_conn c g t) = on_conn c (\<lambda>_. f (g (conn t c))) t"
  by (simp add: on_conn_def pool_update_def)

lemma cn_updates [simp]:
  "output_bytes (cn\<lparr>cn_txCount := n\<rparr>) = output_bytes cn" "output_bytes (cn\<lparr>cn_state := st\<rparr>) = output_bytes cn"
  "tcp_message_in (cn\<lparr>cn_txCount := n\<rparr>) = tcp_message_in cn" "tcp_message_in (cn\<lparr>cn_state := st\<rparr>) = tcp_message_in cn"
  "cell_ok (cn\<lparr>cn_txCount := n\<rparr>) = cell_ok cn" "cell_ok (cn\<lparr>cn_state := st\<rparr>) = cell_ok cn"
  by (simp_all add: output_bytes_def tcp_message_in_def cell_ok_def)

lemma txCount_update: "cn_txCount_update f cn = cn\<lparr>cn_txCount := f (cn_txCount cn)\<rparr>"
  by (cases cn) simp

lemma view_steps [simp]:
  "vw_received fd [] v = v" "vw_sent fd [] v = v"
  "vw_out (vw_received fd d v) = vw_out v" "vw_watch (vw_received fd d v) = vw_watch v" "vw_in (vw_received fd d v) fd = vw_in v fd @ d"
  "vw_in (vw_sent fd d v) = vw_in v" "vw_watch (vw_sent fd d v) = vw_watch v" "vw_out (vw_sent fd d v) fd = vw_out v fd @ d"
  "vw_in (vw_control op fd ev v) = vw_in v" "vw_out (vw_control op fd ev v) = vw_out v"
  by (simp_all add: vw_received_def vw_sent_def) (cases op; simp)+

lemma step_keep: "tcp_ok e F {} {} t v \<Longrightarrow> tcp_step e F c t t v"
  by (simp add: tcp_step_def)

lemma step_trans:
  assumes "config t1 = config t" "\<And>d. d \<in> busy F t - {c} \<Longrightarrow> conn t1 d = conn t d" "busy F t1 = busy F t" "sock_of t1 c = sock_of t c"
    "cn_idHashTable (conn t1 c) = cn_idHashTable (conn t c)" "tcp_step e F c t1 t' v"
  shows "tcp_step e F c t t' v"
  using assms unfolding tcp_step_def by simp

lemma step_on_conn:
  assumes "c \<in> busy F t" "sk_sock (cn_stunsocket cn) = sock_of t c" "cn_idHashTable cn = cn_idHashTable (conn t c)"
    "tcp_step e F c (on_conn c (\<lambda>_. cn) t) t' v"
  shows "tcp_step e F c t t' v"
  using assms conn_on_conn [OF busy_length [OF assms(1)]] by (intro step_trans [OF _ _ _ _ _ assms(4)]) auto

lemma prefix_received: "prefix req (vw_in v fd) \<Longrightarrow> prefix req (vw_in (vw_received fd' d v) fd)"
  by (auto simp: vw_received_def prefix_def)

lemma honest_received: "honest e v fd \<Longrightarrow> honest e (vw_received fd' d v) fd"
  unfolding honest_def view_steps using prefix_received by blast

section \<open>Consuming\<close>

lemma progress_closing:
  assumes "progress e v cn" "cn_state cn = ConnectionState_Closing"
  shows "progress e (vw_received (sk_sock (cn_stunsocket cn)) d v) cn"
proof -
  let ?fd = "sk_sock (cn_stunsocket cn)"
  obtain req where "prefix req (vw_in v ?fd)" "tcp_reply e (tcp_message_in cn) req (output_bytes cn)"
    using assms by (auto simp: progress_def Let_def)
  then have "\<exists>req. prefix req (vw_in (vw_received ?fd d v) ?fd) \<and> tcp_reply e (tcp_message_in cn) req (output_bytes cn)"
    using prefix_received by blast
  then show ?thesis using assms unfolding progress_def Let_def by simp
qed

lemmas consume_induct = consume_loop.raw_induct [rotated, consumes 1, case_names turn]

lemma consume_ok:
  "consume_loop os c t w = Some r \<Longrightarrow> tcp_calls_ok os view \<Longrightarrow> tcp_ok e F {} {} t (view w) \<Longrightarrow> c \<in> busy F t \<Longrightarrow>
   cn_state (conn t c) = ConnectionState_Closing \<Longrightarrow> tcp_step e F c t (fst (snd r)) (view (snd (snd r)))"
proof (induction rule: consume_induct)
  case (turn loop os c t w r)
  note sys = turn(3) and ok = turn(4) and c = turn(5) and st = turn(6)
  let ?s = "sock_of t c"
  obtain ret data w1 where rv: "os_recv os ?s MAX_STUN_MESSAGE_SIZE w = (ret, data, w1)" by (metis prod_cases3)
  have v1: "view w1 = vw_received ?s (if 0 < ret then data else []) (view w)" using tcp_callsD(3) [OF sys rv] by blast
  have ok1: "tcp_ok e F {} {} t (view w1)"
    unfolding v1 using tcp_okD(5) [OF ok c] tcp_okD(6) [OF ok] st
    by (intro ok_view [OF ok c]) (simp_all add: progress_closing honest_received)
  show ?case
  proof (cases "ret < 0 \<and> os_errno os w1 = EAGAIN")
    case True
    then show ?thesis using turn(2) ok1 by (auto simp: CStunSocket_GetSocketHandle_def rv step_keep)
  next
    case f1: False
    show ?thesis
    proof (cases "ret \<le> 0")
      case True
      obtain t2 w2 where cl: "CloseConnection os (Some c) t w1 = (t2, w2)" by fastforce
      then have "r = (S_OK, t2, w2)" using turn(2) f1 True by (auto simp: CStunSocket_GetSocketHandle_def rv)
      then show ?thesis using closed_step [OF sys tcp_ok_mono [OF ok1] c cl] by simp
    next
      case False
      then have "loop os c t w1 = Some r" using turn(2) f1 by (simp add: CStunSocket_GetSocketHandle_def rv)
      then show ?thesis by (rule turn(1) [OF _ sys ok1 c st])
    qed
  qed
qed


section \<open>Writing\<close>

lemma progress_sent:
  assumes p: "progress e v cn" and st: "cn_state cn = ConnectionState_Transmitting"
    and k: "k \<le> length (drop (cn_txCount cn) (output_bytes cn))"
  shows "progress e (vw_sent (sk_sock (cn_stunsocket cn)) (take k (drop (cn_txCount cn) (output_bytes cn))) v) (cn\<lparr>cn_txCount := cn_txCount cn + k\<rparr>)"
proof -
  have tx: "cn_txCount cn \<le> length (output_bytes cn)" using p st by (simp add: progress_def Let_def)
  then have "cn_txCount cn + k \<le> length (output_bytes cn)" using k by simp
  then show ?thesis using p st by (simp add: progress_def Let_def take_add)
qed

lemma progress_sent_all:
  assumes "progress e v cn" "cn_state cn = ConnectionState_Transmitting" "length (output_bytes cn) \<le> cn_txCount cn"
  shows "progress e (vw_control EPOLL_CTL_MOD (sk_sock (cn_stunsocket cn)) (CEpoll_ToNativeFlags EPOLL_CLIENT_READ_EVENT_SET) v)
    (cn\<lparr>cn_state := ConnectionState_Closing\<rparr>)"
  using assms by (auto simp: progress_def Let_def)

lemma finish_write_ok:
  assumes f: "finish_write os c (sock_of t c) t w = Some r" and sys: "tcp_calls_ok os view" and ok: "tcp_ok e F {} {} t (view w)" and c: "c \<in> busy F t"
    and st: "cn_state (conn t c) = ConnectionState_Transmitting" "length (output_bytes (conn t c)) \<le> cn_txCount (conn t c)"
  shows "tcp_step e F c t (fst (snd r)) (view (snd (snd r)))"
proof -
  let ?s = "sock_of t c" and ?cn = "(conn t c)\<lparr>cn_state := ConnectionState_Closing\<rparr>"
  let ?t = "on_conn c (\<lambda>_. ?cn) t"
  have "cell_ok (conn t c)" using tcp_shapeD(4) [OF tcp_okD(1) [OF ok]] busy_length [OF c] by simp
  then have ok1: "tcp_ok e F {} {c} ?t (view w)"
    by (intro ok_on_conn [OF ok c]) (simp_all add: tcp_okD(6) [OF ok])
  have s: "?s \<noteq> -1" using tcp_shapeD(9) [OF tcp_okD(1) [OF ok] c] .
  have nth: "conn ?t c = ?cn" using conn_on_conn [OF busy_length [OF c]] by simp
  have cb: "c \<in> busy F ?t" using c by simp
  obtain hr w2 where ch: "on_polling (Polling_ChangeEventSet os ?s EPOLL_CLIENT_READ_EVENT_SET) ?t (os_shutdown os ?s w) = (hr, ?t, w2)"
    and v2: "view w2 = (if FAILED hr then view w else vw_control EPOLL_CTL_MOD ?s (CEpoll_ToNativeFlags EPOLL_CLIENT_READ_EVENT_SET) (view w))"
    using polling_control(2) [OF sys tcp_okD(2) [OF ok1] s, of EPOLL_CLIENT_READ_EVENT_SET "os_shutdown os ?s w"] tcp_callsD(6) [OF sys] by auto
  have F: "finish_write os c ?s t w = (if FAILED hr then (let (t, w) = CloseConnection os (Some c) ?t w2 in Some (hr, t, w))
      else (case ConsumeRemoteClose os c ?t w2 of None \<Rightarrow> None | Some (hr', t, w) \<Rightarrow> Some (hr, t, w)))"
    unfolding finish_write_def Let_def on_conn_const [where f = "cn_state_update (\<lambda>_. ConnectionState_Closing)"] ch prod.case by (rule refl)
  have "tcp_step e F c ?t (fst (snd r)) (view (snd (snd r)))"
  proof (cases "FAILED hr")
    case True
    obtain t3 w3 where cl: "CloseConnection os (Some c) ?t w2 = (t3, w3)" by fastforce
    have "r = (hr, t3, w3)" using f True by (simp add: F cl)
    then show ?thesis using closed_step [OF sys _ cb cl] ok1 v2 True by simp
  next
    case False
    obtain hr' t3 w3 where cs: "consume_loop os c ?t w2 = Some (hr', t3, w3)" and r: "r = (hr, t3, w3)"
      using f False by (auto simp: F ConsumeRemoteClose_def split: option.splits)
    have sk: "sock_of ?t c = ?s" by (simp add: nth)
    have "progress e (view w2) (conn ?t c)" using progress_sent_all [OF tcp_okD(5) [OF ok c] st] False by (simp add: v2 nth)
    moreover have "honest e (view w2) ?s" using tcp_okD(6) [OF ok, of ?s] False by (simp add: v2 honest_def)
    ultimately have "tcp_ok e F {} {} ?t (view w2)"
      using False by (intro ok_view [OF ok1 cb]) (simp_all add: sk v2 del: vw_control.simps)
    from consume_ok [OF cs sys this cb] show ?thesis by (simp add: nth r)
  qed
  then show ?thesis by (intro step_on_conn [OF c]) simp_all
qed

lemmas write_induct = write_loop.raw_induct [rotated, consumes 1, case_names turn]

lemma write_ok:
  "write_loop os c t w = Some r \<Longrightarrow> tcp_calls_ok os view \<Longrightarrow> tcp_ok e F {} {} t (view w) \<Longrightarrow> c \<in> busy F t \<Longrightarrow>
   cn_state (conn t c) = ConnectionState_Transmitting \<Longrightarrow> tcp_step e F c t (fst (snd r)) (view (snd (snd r)))"
proof (induction rule: write_induct)
  case (turn loop os c t w r)
  note sys = turn(3) and ok = turn(4) and c = turn(5) and st = turn(6)
  let ?s = "sock_of t c" and ?data = "output_bytes (conn t c)" and ?tx = "cn_txCount (conn t c)"
  obtain sent w1 where sd: "os_send os ?s (drop ?tx ?data) w = (sent, w1)" by fastforce
  note v1 = tcp_callsD(4) [OF sys sd]
  have T: "(if sent = -1 \<and> os_errno os w1 = EAGAIN then Some (S_OK, t, w1)
      else if sent = -1 then (let (t, w) = CloseConnection os (Some c) t w1 in Some (E_FAIL, t, w))
      else if sent = 0 then (let (t, w) = CloseConnection os (Some c) t w1 in Some (E_UNEXPECTED, t, w))
      else (let t = on_conn c (cn_txCount_update (\<lambda>n. n + nat sent)) t
            in if length ?data \<le> cn_txCount (conn t c) then finish_write os c ?s t w1 else loop os c t w1)) = Some r"
    using turn(2) unfolding Let_def CStunSocket_GetSocketHandle_def sd prod.case .
  show ?case
  proof (cases "sent \<le> 0")
    case True
    then have "sent = -1 \<or> sent = 0" using v1 by linarith
    then have v: "view w1 = view w" using v1 by auto
    obtain t2 w2 where cl: "CloseConnection os (Some c) t w1 = (t2, w2)" by fastforce
    have "fst (snd r) = t \<and> snd (snd r) = w1 \<or> fst (snd r) = t2 \<and> snd (snd r) = w2"
      using T True \<open>sent = -1 \<or> sent = 0\<close> by (auto simp: cl split: if_splits)
    then show ?thesis
    proof
      assume "fst (snd r) = t \<and> snd (snd r) = w1"
      then show ?thesis using ok v by (simp add: step_keep)
    next
      assume "fst (snd r) = t2 \<and> snd (snd r) = w2"
      moreover have "tcp_ok e F {} {c} t (view w1)" using tcp_ok_mono [OF ok, of "{c}"] v by simp
      ultimately show ?thesis using closed_step [OF sys _ c cl] by simp
    qed
  next
    case False
    let ?cn = "(conn t c)\<lparr>cn_txCount := ?tx + nat sent\<rparr>"
    let ?t = "on_conn c (\<lambda>_. ?cn) t"
    have nth: "conn ?t c = ?cn" using conn_on_conn [OF busy_length [OF c]] by simp
    have t: "on_conn c (cn_txCount_update (\<lambda>n. n + nat sent)) t = ?t" by (subst on_conn_const, subst txCount_update) (rule refl)
    have cell: "cell_ok (conn t c)" using tcp_shapeD(4) [OF tcp_okD(1) [OF ok]] busy_length [OF c] by simp
    have k: "nat sent \<le> length (drop ?tx ?data)" using v1 False by (simp add: le_diff_conv2 nat_le_iff)
    have pr: "progress e (view w1) ?cn" using progress_sent [OF tcp_okD(5) [OF ok c] st k] v1 by simp
    have "honest e (view w1) ?s" using progress_honest [OF pr] by simp
    then have ok1: "tcp_ok e F {} {} ?t (view w1)" using cell pr v1 by (intro ok_on_conn [OF ok c]) simp_all
    have cb: "c \<in> busy F ?t" using c by simp
    have st1: "cn_state (conn ?t c) = ConnectionState_Transmitting" by (simp add: nth st)
    have "tcp_step e F c ?t (fst (snd r)) (view (snd (snd r)))"
    proof (cases "length ?data \<le> ?tx + nat sent")
      case True
      then have "finish_write os c (sock_of ?t c) ?t w1 = Some r" using T False by (simp add: t nth)
      from finish_write_ok [OF this sys ok1 cb st1] show ?thesis using True by (simp add: nth)
    next
      case more: False
      then have "loop os c ?t w1 = Some r" using T False by (simp add: t nth)
      from turn(1) [OF this sys ok1 cb st1] show ?thesis .
    qed
    then show ?thesis by (intro step_on_conn [OF c]) simp_all
  qed
qed


section \<open>Receiving\<close>

lemma reading_needed:
  assumes "reading text cn"
  shows "0 < unat (HowManyBytesNeeded (cn_reader cn))" "unat (HowManyBytesNeeded (cn_reader cn)) \<le> MAX_STUN_MESSAGE_SIZE"
    "length text + unat (HowManyBytesNeeded (cn_reader cn)) \<le> 820"
proof -
  have ra: "reader_after True text (cn_reader cn)" and st: "rd_state (cn_reader cn) = HeaderNotRead \<or> rd_state (cn_reader cn) = HeaderValidated"
    using assms by (simp_all add: reading_def)
  have "0 < unat (HowManyBytesNeeded (cn_reader cn)) \<and> unat (HowManyBytesNeeded (cn_reader cn)) \<le> 800 \<and>
      length text + unat (HowManyBytesNeeded (cn_reader cn)) \<le> 820"
    using st
  proof
    assume "rd_state (cn_reader cn) = HeaderNotRead"
    from needed_header [OF ra this] show ?thesis by simp
  next
    assume "rd_state (cn_reader cn) = HeaderValidated"
    from needed_body [OF ra this] show ?thesis unfolding header_ok_def by linarith
  qed
  then show "0 < unat (HowManyBytesNeeded (cn_reader cn))" "unat (HowManyBytesNeeded (cn_reader cn)) \<le> MAX_STUN_MESSAGE_SIZE"
    "length text + unat (HowManyBytesNeeded (cn_reader cn)) \<le> 820" by (simp_all add: MAX_STUN_MESSAGE_SIZE_def)
qed

text \<open>A connection whose object is as the last call of \<open>AddBytes\<close> left it.\<close>

definition fed_text :: "bytes \<Rightarrow> connection \<Rightarrow> bool" where
  "fed_text text cn \<longleftrightarrow> reader_after True text (cn_reader cn) \<and> sound_attached (rd_stream (cn_reader cn)) \<and> length text \<le> 820"

lemma fed_reading: "fed_text text cn \<Longrightarrow> spec_state True text = HeaderNotRead \<or> spec_state True text = HeaderValidated \<Longrightarrow> reading text cn"
  by (auto simp: fed_text_def reading_def dest: reader_after_state)

lemma feed_connection_ok:
  assumes r: "reading text cn" and cell: "cell_ok cn" and len: "length data \<le> unat (HowManyBytesNeeded (cn_reader cn))"
    and f: "feed_connection data (length data) cn = (st, cn')"
  shows "st = spec_state True (text @ data)" "fed_text (text @ data) cn'" "cell_ok cn'" "\<exists>rd b. cn' = cn\<lparr>cn_reader := rd, cn_spReaderBuffer := b\<rparr>"
proof -
  have ra: "reader_after True text (cn_reader cn)" and so: "sound_attached (rd_stream (cn_reader cn))"
    and st: "rd_state (cn_reader cn) = HeaderNotRead \<or> rd_state (cn_reader cn) = HeaderValidated" using r by (simp_all add: reading_def)
  have le: "length text + length data \<le> 820" using reading_needed(3) [OF r] len by linarith
  then have small: "length text + length data < size_range" by (simp add: size_range_def)
  obtain rd where ab: "AddBytes (Some data) (length data) (cn_reader cn) = (st, rd)"
    and cn': "cn' = cn\<lparr>cn_reader := rd, cn_spReaderBuffer := attached_buffer (rd_stream rd)\<rparr>"
    using f by (auto simp: feed_connection_def Let_def split: prod.splits)
  note ok = AddBytes_ok [OF ra small, unfolded ab]
  show "st = spec_state True (text @ data)" using ok(1) by simp
  show "\<exists>rd b. cn' = cn\<lparr>cn_reader := rd, cn_spReaderBuffer := b\<rparr>" using cn' by blast
  have "spec_state True text \<noteq> ParseError" using st reader_after_state [OF ra] by auto
  then have sh: "stream_holds text (cn_stream)" if "cn_stream = cn_reader cn" for cn_stream using reader_after_stream [OF ra] that by simp
  then have "wf_stream (rd_stream (cn_reader cn))" "CDataStream_GetSize (rd_stream (cn_reader cn)) = length text"
    using length_stream_bytes [of "rd_stream (cn_reader cn)"] by (auto simp: stream_holds_def)
  then have so': "sound_attached (rd_stream rd)" using AddBytes_sound [OF so, of "length data" data] small ab by simp
  then show "fed_text (text @ data) cn'" using ok(2) le by (simp add: fed_text_def cn')
  have "table_ok rd" using table_ok_AddBytes [of "cn_reader cn" "Some data" "length data"] cell ab by (simp add: cell_ok_def)
  then show "cell_ok cn'" using cell so' by (auto simp: cell_ok_def cn' sound_attached_def ready_buffer_def)
qed


text \<open>What the handler makes of a complete request, in the terms of the connection.\<close>

lemma answer_outcome:
  assumes e: "env_ok e" and f: "fed_text text cn" "spec_state True text = BodyValidated" and cell: "cell_ok cn"
    and a: "IsValidSocketRole (sk_role (cn_stunsocket cn))" "wf_addr (sk_addrlocal (cn_stunsocket cn))" "wf_addr (sk_addrremote (cn_stunsocket cn))"
    and p: "ProcessRequest (en_hmac e) (en_md5 e) (tcp_message_in cn) (tcp_message_out cn) (Some (en_tsa e)) (en_auth e) = (hr, mo)"
  shows "cell_ok (cn\<lparr>cn_spOutputBuffer := out_spBufferOut mo\<rparr>)"
    "\<not> FAILED hr \<Longrightarrow> tcp_reply e (tcp_message_in cn) text (output_bytes (cn\<lparr>cn_spOutputBuffer := out_spBufferOut mo\<rparr>))"
proof -
  have ra: "reader_after True text (cn_reader cn)" and small: "length text < size_range" using f(1) by (simp_all add: fed_text_def size_range_def)
  let ?m = "tcp_message_in cn"
  have m: "in_pReader ?m = Some (cn_reader cn)" "IsValidSocketRole (in_socketrole ?m)" "wf_set (en_tsa e)" "wf_addr (in_addrLocal ?m)"
    "wf_addr (in_addrRemote ?m)" using a e
    by (simp_all add: tcp_message_in_def env_ok_def CStunSocket_GetRole_def CStunSocket_GetLocalAddress_def CStunSocket_GetRemoteAddress_def)
  obtain ob where ob: "out_spBufferOut (tcp_message_out cn) = Some ob" "wf_buffer ob" "800 \<le> cb_allocatedSize ob"
    using cell by (auto simp: cell_ok_def tcp_message_out_def)
  have d: "providers_ok (en_auth e)" "\<forall>k d. length (en_hmac e k d) = 20" "\<forall>k. length (en_md5 e k) = 16" using e by (simp_all add: env_ok_def)
  from request_outcome [OF ra f(2) small m d ob p] obtain b where b: "out_spBufferOut mo = Some b" "wf_buffer b"
    "cb_allocatedSize b = cb_allocatedSize ob"
    "case udp_reply (en_hmac e) (en_md5 e) (en_auth e) (en_tsa e) ?m text of None \<Rightarrow> hr = E_FAIL
     | Some (role, data, dest) \<Rightarrow> hr = S_OK \<and> buffer_bytes b = data \<and> out_socketrole mo = role \<and> out_addrDest mo = dest" by blast
  show "cell_ok (cn\<lparr>cn_spOutputBuffer := out_spBufferOut mo\<rparr>)" using cell ob(3) b by (simp add: cell_ok_def)
  have out: "output_bytes (cn\<lparr>cn_spOutputBuffer := out_spBufferOut mo\<rparr>) = buffer_bytes b"
    by (simp add: output_bytes_def buffer_bytes_def b(1))
  show "\<not> FAILED hr \<Longrightarrow> tcp_reply e ?m text (output_bytes (cn\<lparr>cn_spOutputBuffer := out_spBufferOut mo\<rparr>))"
    using b(4) unfolding out tcp_reply_def by (auto split: option.splits)
qed

lemma start_write_ok:
  assumes run: "start_write (en_hmac e) (en_md5 e) os c (sock_of t c) t w = Some r" and sys: "tcp_calls_ok os view" and e: "env_ok e"
    and ok: "tcp_ok e F {} {c} t (view w)" and c: "c \<in> busy F t"
    and f: "fed_text (vw_in (view w) (sock_of t c)) (conn t c)" "spec_state True (vw_in (view w) (sock_of t c)) = BodyValidated"
    and a: "IsValidSocketRole (sk_role (cn_stunsocket (conn t c)))" "wf_addr (sk_addrlocal (cn_stunsocket (conn t c)))"
      "wf_addr (sk_addrremote (cn_stunsocket (conn t c)))"
    and z: "vw_out (view w) (sock_of t c) = []" "cn_txCount (conn t c) = 0"
  shows "tcp_step e F c t (fst (snd r)) (view (snd (snd r)))"
proof -
  let ?s = "sock_of t c" and ?cn = "conn t c"
  have cell: "cell_ok ?cn" using tcp_shapeD(4) [OF tcp_okD(1) [OF ok]] busy_length [OF c] by simp
  have cfg: "tt_tsa t = en_tsa e" "tt_spAuth t = en_auth e" using tcp_okD(2) [OF ok] by (simp_all add: tcp_config_ok_def)
  obtain hr mo where p: "ProcessRequest (en_hmac e) (en_md5 e) (tcp_message_in ?cn) (tcp_message_out ?cn) (Some (en_tsa e)) (en_auth e) = (hr, mo)"
    by fastforce
  note ao = answer_outcome [OF e f cell a p]
  define cn1 where "cn1 = (if FAILED hr then ?cn\<lparr>cn_spOutputBuffer := out_spBufferOut mo\<rparr>
    else ?cn\<lparr>cn_spOutputBuffer := out_spBufferOut mo, cn_state := ConnectionState_Transmitting\<rparr>)"
  let ?t = "on_conn c (\<lambda>_. cn1) t"
  have o: "cn_spOutputBuffer_update (\<lambda>_. b) x = x\<lparr>cn_spOutputBuffer := b\<rparr>" for b x by simp
  have an: "answer_request (en_hmac e) (en_md5 e) c t = (hr, ?t)"
    unfolding answer_request_def cfg p Let_def prod.case on_conn_twice [OF busy_length [OF c]]
    by (subst on_conn_const) (simp add: cn1_def)
  have ok1: "tcp_ok e F {} {c} ?t (view w)"
    using ao(1) by (intro ok_on_conn [OF ok c]) (simp_all add: cn1_def tcp_okD(6) [OF ok])
  have nth: "conn ?t c = cn1" using conn_on_conn [OF busy_length [OF c]] by simp
  have cb: "c \<in> busy F ?t" using c by simp
  have sk: "sock_of ?t c = ?s" unfolding nth by (simp add: cn1_def)
  have s: "?s \<noteq> -1" using tcp_shapeD(9) [OF tcp_okD(1) [OF ok] c] .
  have fail: "tcp_step e F c ?t t3 (view w3)" if "CloseConnection os (Some c) ?t x = (t3, w3)" "view x = view w" for x t3 w3
    using closed_step [OF sys _ cb that(1)] ok1 that(2) by simp
  have "tcp_step e F c ?t (fst (snd r)) (view (snd (snd r)))"
  proof (cases "FAILED hr")
    case True
    obtain t3 w3 where cl: "CloseConnection os (Some c) ?t w = (t3, w3)" by fastforce
    have "r = (hr, t3, w3)" using run True by (simp add: start_write_def an cl)
    then show ?thesis using fail [OF cl] by simp
  next
    case False
    obtain hr2 w2 where ch: "on_polling (Polling_ChangeEventSet os ?s EPOLL_CLIENT_WRITE_EVENT_SET) ?t w = (hr2, ?t, w2)"
      and v2: "view w2 = (if FAILED hr2 then view w else vw_control EPOLL_CTL_MOD ?s (CEpoll_ToNativeFlags EPOLL_CLIENT_WRITE_EVENT_SET) (view w))"
      using polling_control(2) [OF sys tcp_okD(2) [OF ok1] s] by blast
    show ?thesis
    proof (cases "FAILED hr2")
      case True
      obtain t3 w3 where cl: "CloseConnection os (Some c) ?t w2 = (t3, w3)" by fastforce
      have "r = (hr2, t3, w3)" using run False True by (simp add: start_write_def an ch cl)
      then show ?thesis using fail [OF cl] v2 True by simp
    next
      case f2: False
      obtain hr' t3 w3 where wr: "write_loop os c ?t w2 = Some (hr', t3, w3)" and r: "r = (hr2, t3, w3)"
        using run False f2 by (auto simp: start_write_def an ch WriteBytesForConnection_def split: option.splits)
      have st: "cn_state cn1 = ConnectionState_Transmitting" "cn_stunsocket cn1 = cn_stunsocket ?cn" "cn_txCount cn1 = 0"
        "tcp_message_in cn1 = tcp_message_in ?cn" "output_bytes cn1 = output_bytes (?cn\<lparr>cn_spOutputBuffer := out_spBufferOut mo\<rparr>)"
        using False z(2) by (simp_all add: cn1_def tcp_message_in_def output_bytes_def)
      have "progress e (view w2) cn1" unfolding progress_def Let_def st v2 using f2 a z(1) ao(2) [OF False] by simp
      moreover have "honest e (view w2) ?s" using z(1) f2 by (simp add: v2 honest_def)
      ultimately have "tcp_ok e F {} {} ?t (view w2)"
        using f2 by (intro ok_view [OF ok1 cb]) (simp_all add: nth st(2) v2 del: vw_control.simps)
      from write_ok [OF wr sys this cb] show ?thesis by (simp add: nth st r)
    qed
  qed
  then show ?thesis by (intro step_on_conn [OF c]) (simp_all add: cn1_def)
qed

lemmas receive_induct = receive_loop.raw_induct [rotated, consumes 1, case_names turn]

lemma receive_loop_ok:
  "receive_loop hmac md5 os c t w = Some r \<Longrightarrow> tcp_calls_ok os view \<Longrightarrow> env_ok e \<Longrightarrow> hmac = en_hmac e \<Longrightarrow> md5 = en_md5 e \<Longrightarrow>
   tcp_ok e F {} {} t (view w) \<Longrightarrow> c \<in> busy F t \<Longrightarrow> cn_state (conn t c) = ConnectionState_Receiving \<Longrightarrow>
   tcp_step e F c t (fst (snd r)) (view (snd (snd r)))"
proof (induction rule: receive_induct)
  case (turn loop hmac md5 os c t w r)
  note sys = turn(3) and e = turn(4) and ok = turn(7) and c = turn(8) and st = turn(9)
  let ?s = "sock_of t c" and ?cn = "conn t c" and ?need = "unat (HowManyBytesNeeded (cn_reader (conn t c)))"
  let ?fail = "\<lambda>hr t w. let (t, w) = CloseConnection os (Some c) t w in Some (hr, t, w)"
  have cell: "cell_ok ?cn" using tcp_shapeD(4) [OF tcp_okD(1) [OF ok]] busy_length [OF c] by simp
  have pr: "progress e (view w) ?cn" using tcp_okD(5) [OF ok c] by simp
  then have rd: "reading (vw_in (view w) ?s) ?cn" and out: "vw_out (view w) ?s = []" "cn_txCount ?cn = 0"
    using st by (simp_all add: progress_def Let_def)
  obtain ret data w1 where rv: "os_recv os ?s ?need w = (ret, data, w1)" by (metis prod_cases3)
  note v = tcp_callsD(3) [OF sys rv]
  have T: "(if ret < 0 \<and> os_errno os w1 = EAGAIN then Some (S_OK, t, w1)
      else if ret \<le> 0 then ?fail E_FAIL t w1
      else (let (readerstate, cn) = feed_connection data (nat ret) ?cn; t = on_conn c (\<lambda>_. cn) t
            in if readerstate = ParseError then ?fail E_FAIL t w1
               else if readerstate = BodyValidated then start_write (en_hmac e) (en_md5 e) os c ?s t w1
               else loop hmac md5 os c t w1)) = Some r"
    using turn(2) reading_needed(1) [OF rd] unfolding Let_def CStunSocket_GetSocketHandle_def turn(5,6) rv prod.case by simp
  show ?case
  proof (cases "ret \<le> 0")
    case True
    then have vw: "view w1 = view w" using v by simp
    obtain t2 w2 where cl: "CloseConnection os (Some c) t w1 = (t2, w2)" by fastforce
    have "tcp_ok e F {} {c} t (view w1)" using tcp_ok_mono [OF ok, of "{c}"] vw by simp
    note cs = closed_step [OF sys this c cl]
    have "fst (snd r) = t \<and> snd (snd r) = w1 \<or> fst (snd r) = t2 \<and> snd (snd r) = w2"
      using T True by (auto simp: cl split: if_splits)
    then show ?thesis using cs step_keep [OF ok, of c] vw by auto
  next
    case False
    have len: "nat ret = length data" "length data \<le> ?need" using v False by (simp_all add: nat_le_iff del: uint_nat)
    obtain state cn1 where fd: "feed_connection data (length data) ?cn = (state, cn1)" by fastforce
    note fo = feed_connection_ok [OF rd cell len(2) fd]
    obtain rd1 b1 where cn1: "cn1 = ?cn\<lparr>cn_reader := rd1, cn_spReaderBuffer := b1\<rparr>" using fo(4) by blast
    have f: "cn_stunsocket cn1 = cn_stunsocket ?cn" "cn_idHashTable cn1 = cn_idHashTable ?cn" "cn_state cn1 = cn_state ?cn" "cn_txCount cn1 = cn_txCount ?cn"
      by (simp_all add: cn1)
    let ?t = "on_conn c (\<lambda>_. cn1) t"
    have vw: "view w1 = vw_received ?s data (view w)" using v False by simp
    have nth: "conn ?t c = cn1" using conn_on_conn [OF busy_length [OF c]] by simp
    have cb: "c \<in> busy F ?t" using c by simp
    have h: "honest e (view w1) ?s" unfolding vw by (rule honest_received [OF tcp_okD(6) [OF ok]])
    have ok1: "tcp_ok e F {} {c} ?t (view w1)" using fo(3) h by (intro ok_on_conn [OF ok c]) (simp_all add: f vw)
    have "tcp_step e F c ?t (fst (snd r)) (view (snd (snd r)))"
    proof (cases "state = ParseError \<or> state = BodyValidated")
      case True
      then show ?thesis
      proof
        assume pe: "state = ParseError"
        obtain t2 w2 where cl: "CloseConnection os (Some c) ?t w1 = (t2, w2)" by fastforce
        have "r = (E_FAIL, t2, w2)" using T False pe by (simp add: len(1) fd cl)
        then show ?thesis using closed_step [OF sys ok1 cb cl] by simp
      next
        assume bv: "state = BodyValidated"
        have "start_write (en_hmac e) (en_md5 e) os c (sock_of ?t c) ?t w1 = Some r" using T False bv by (simp add: len(1) fd nth f)
        then show ?thesis
          using pr fo(1,2) bv out by (intro start_write_ok [OF _ sys e ok1 cb]) (simp_all add: nth f vw progress_def Let_def)
      qed
    next
      case more: False
      have "spec_state True (vw_in (view w) ?s @ data) = HeaderNotRead \<or> spec_state True (vw_in (view w) ?s @ data) = HeaderValidated"
        using more fo(1) by (cases state) simp_all
      note rd1 = fed_reading [OF fo(2) this]
      have "progress e (view w1) cn1" using pr rd1 st out unfolding progress_def Let_def by (simp add: f vw)
      then have ok2: "tcp_ok e F {} {} ?t (view w1)" using fo(3) h by (intro ok_on_conn [OF ok c]) (simp_all add: f vw)
      have "loop hmac md5 os c ?t w1 = Some r" using T False more by (simp add: len(1) fd)
      from turn(1) [OF this sys e turn(5,6) ok2 cb] show ?thesis by (simp add: nth f st)
    qed
    then show ?thesis by (intro step_on_conn [OF c]) (simp_all add: f)
  qed
qed

section \<open>The two tables of connections\<close>

text \<open>
  Connections come from the pool into a table and leave through it: \<open>AcceptConnection\<close>, \<open>CloseAllConnections\<close>,
  the sweep of the old table and the end of the thread.
\<close>

section \<open>Changes that the invariant does not see\<close>

lemma ok_same:
  assumes ok: "tcp_ok e F X Y t v" and t: "tt_connectionpool t' = tt_connectionpool t"
    "\<And>p. fh_unique FastHash_Hash_signed (conn_table p t') \<and> conn_view p t' = conn_view p t" and cfg: "tcp_config_ok e t'"
  shows "tcp_ok e F X Y t' v" "busy F t' = busy F t"
proof -
  show b: "busy F t' = busy F t" by (simp add: busy_def t(1))
  have v: "conn_view p t' = conn_view p t" "fh_unique FastHash_Hash_signed (conn_table p t')" for p using t(2) [of p] by simp_all
  have "tcp_shape F X t'" using tcp_okD(1) [OF ok] v(2) unfolding tcp_shape_def b t(1) v(1) by blast
  then show "tcp_ok e F X Y t' v" using ok cfg unfolding tcp_ok_def b t(1) by blast
qed

lemma ok_keep_watch:
  assumes ok: "tcp_ok e F X Y t v" and fd: "fd \<in> en_keep e"
  shows "tcp_ok e F X Y t (vw_control op fd ev v)"
proof -
  have w: "vw_watch (vw_control op fd ev v) s = vw_watch v s" if "s \<noteq> fd" for s using that by (cases op) simp_all
  have o: "vw_open (vw_control op fd ev v) = vw_open v" by (cases op) simp_all
  have "progress e (vw_control op fd ev v) (conn t c) = progress e v (conn t c)" if "c \<in> busy F t" for c
  proof -
    have "sock_of t c \<noteq> fd" using tcp_okD(4) [OF ok] fd that by blast
    then show ?thesis using w by (intro progress_cong) simp_all
  qed
  moreover have "honest e (vw_control op fd ev v) s = honest e v s" for s by (intro honest_cong) simp_all
  ultimately show ?thesis using ok unfolding tcp_ok_def o by auto
qed

section \<open>Closing a table\<close>

lemma conn_view_id: "tcp_shape F X t \<Longrightarrow> conn_view p t fd = Some c \<Longrightarrow> c \<in> busy F t - X \<and> cn_idHashTable (conn t c) = table_id p \<and> sock_of t c = fd"
  by (simp add: tcp_shapeD(6))

lemma busy_in_table:
  assumes "tcp_shape F X t" "c \<in> busy F t - X"
  shows "\<exists>p. cn_idHashTable (conn t c) = table_id p \<and> conn_view p t (sock_of t c) = Some c"
proof -
  obtain p where "cn_idHashTable (conn t c) = table_id p"
    using tcp_shapeD(7) [OF assms] by (metis table_id.simps)
  then show ?thesis using tcp_shapeD(6) [OF assms(1)] assms(2) by blast
qed

lemma close_all_ok:
  assumes sys: "tcp_calls_ok os view"
  shows "tcp_ok e F {} {} t (view w) \<Longrightarrow>
    \<exists>t' w' F'. CloseAllConnections os p t w = Some (t', w') \<and> tcp_ok e F' {} {} t' (view w') \<and> config t' = config t \<and>
      busy F' t' = {c \<in> busy F t. cn_idHashTable (conn t c) \<noteq> table_id p} \<and> (\<forall>c \<in> busy F' t'. conn t' c = conn t c)"
proof (induction "card (dom (conn_view p t))" arbitrary: F t w rule: less_induct)
  case less
  note ok = less.prems and sh = tcp_okD(1) [OF less.prems]
  note uq = tcp_shapeD(5) [OF sh]
  show ?case
  proof (cases "fh_size (conn_table p t) = 0")
    case True
    have "conn_view p t = Map.empty" using hashmap.count_zero [OF uq] True by blast
    then have none: "cn_idHashTable (conn t c) \<noteq> table_id p" if "c \<in> busy F t" for c
      using tcp_shapeD(6) [OF sh, of p "sock_of t c" c] that by simp
    have same: "set_conn_table p (conn_table p t) t = t" by (cases p) simp_all
    have "CloseAllConnections os p t w = Some (t, w)"
      by (subst CloseAllConnections.simps) (simp add: hashmap.first_none [OF uq True] same)
    then show ?thesis using ok none by blast
  next
    case False
    obtain fd c h where f: "FastHash_LookupByIndex 0 (conn_table p t) = (Some (fd, c), h)" "conn_view p t fd = Some c"
      "fh_unique FastHash_Hash_signed h" "fh_view FastHash_Hash_signed h = conn_view p t"
      using hashmap.first_some [OF uq False] by blast
    let ?t = "set_conn_table p h t"
    note cv = conn_view_id [OF sh f(2)]
    have tb: "fh_unique FastHash_Hash_signed (conn_table q ?t) \<and> conn_view q ?t = conn_view q t" for q
      using f(3,4) uq by simp
    have cfg: "tcp_config_ok e ?t" using tcp_okD(2) [OF ok] tcp_config_ok_config [of ?t t e] by simp
    have ok1: "tcp_ok e F {} {} ?t (view w)" and b1: "busy F ?t = busy F t"
      using ok_same [OF ok _ tb cfg] by simp_all
    obtain t2 w2 where cl: "CloseConnection os (Some c) ?t w = (t2, w2)" by fastforce
    have cb: "c \<in> busy F ?t" using cv b1 by simp
    note co = close_ok [OF sys tcp_ok_mono [OF ok1 empty_subsetI] empty_subsetI cb cl]
    have nth: "conn ?t d = conn t d" for d by simp
    have "dom (conn_view p t2) = dom (conn_view p t) - {fd}" using co(5) [of p] cv f(4) by simp
    moreover have "fd \<in> dom (conn_view p t)" "finite (dom (conn_view p t))" using f(2) hashmap.count_view [OF uq] by auto
    ultimately have "card (dom (conn_view p t2)) < card (dom (conn_view p t))" by (metis card_Diff1_less)
    from less.hyps [OF this, of "c # F" w2] co(1) obtain t' w' F' where r: "CloseAllConnections os p t2 w2 = Some (t', w')"
      "tcp_ok e F' {} {} t' (view w')" "config t' = config t2"
      "busy F' t' = {d \<in> busy (c # F) t2. cn_idHashTable (conn t2 d) \<noteq> table_id p}" "\<forall>d \<in> busy F' t'. conn t' d = conn t2 d" by auto
    have "CloseAllConnections os p t w = Some (t', w')"
      by (subst CloseAllConnections.simps) (simp add: f(1) cl r(1))
    moreover have b2: "busy F' t' = {d \<in> busy F t. cn_idHashTable (conn t d) \<noteq> table_id p}"
    proof -
      have eq: "d \<in> busy F t - {c} \<and> cn_idHashTable (conn t2 d) \<noteq> table_id p \<longleftrightarrow> d \<in> busy F t \<and> cn_idHashTable (conn t d) \<noteq> table_id p" for d
        using cv co(4) [of d] by (cases "d = c") simp_all
      show ?thesis unfolding r(4) co(2) b1 by (rule Collect_cong) (rule eq)
    qed
    moreover have "conn t' d = conn t d" if d: "d \<in> busy F' t'" for d
    proof -
      have "d \<noteq> c" using d cv unfolding b2 by auto
      then show ?thesis using r(5) d co(4) by simp
    qed
    moreover have "config t' = config t" using r(3) co(3) by simp
    ultimately show ?thesis using r(2) by blast
  qed
qed

lemma sweep_ok:
  assumes sys: "tcp_calls_ok os view" and ok: "tcp_ok e F {} {} t (view w)"
  shows "\<exists>t' w' F'. SweepDeadConnections os t w = Some (t', w') \<and> tcp_ok e F' {} {} t' (view w') \<and>
      tt_fNeedToExit t' = tt_fNeedToExit t \<and> tt_pipe0 t' = tt_pipe0 t \<and> (\<forall>c \<in> busy F' t'. conn t' c = conn t c) \<and>
      (if c_sweepTimeoutSeconds \<le> os_time os w - tt_timeLastSweep t
       then busy F' t' = {c \<in> busy F t. cn_idHashTable (conn t c) = table_id (tt_pNewConnList t)} \<and>
         tt_pOldConnList t' = tt_pNewConnList t \<and> tt_pNewConnList t' = tt_pOldConnList t \<and> tt_timeLastSweep t' = os_time os w'
       else t' = t \<and> w' = w \<and> F' = F)"
proof (cases "c_sweepTimeoutSeconds \<le> os_time os w - tt_timeLastSweep t")
  case True
  from close_all_ok [OF sys ok, of "tt_pOldConnList t"] obtain t1 w1 F' where c: "CloseAllConnections os (tt_pOldConnList t) t w = Some (t1, w1)"
    "tcp_ok e F' {} {} t1 (view w1)" "config t1 = config t"
    "busy F' t1 = {c \<in> busy F t. cn_idHashTable (conn t c) \<noteq> table_id (tt_pOldConnList t)}" "\<forall>c \<in> busy F' t1. conn t1 c = conn t c" by blast
  note cf = config_fields [OF c(3)]
  let ?t = "t1\<lparr>tt_timeLastSweep := os_time os w1, tt_pOldConnList := tt_pNewConnList t, tt_pNewConnList := tt_pOldConnList t\<rparr>"
  have neq: "tt_pNewConnList t \<noteq> tt_pOldConnList t" using tcp_okD(2) [OF ok] by (simp add: tcp_config_ok_def)
  have tb: "conn_table p ?t = conn_table p t1" for p by (cases p) simp_all
  have "tcp_config_ok e ?t" using tcp_okD(2) [OF c(2)] neq by (simp add: tcp_config_ok_def thread_fds_def cf(1,2))
  then have ok2: "tcp_ok e F' {} {} ?t (view w1)" and b2: "busy F' ?t = busy F' t1"
    using ok_same [OF c(2), of ?t] tcp_shapeD(5) [OF tcp_okD(1) [OF c(2)]] by (simp_all add: tb)
  have ids: "cn_idHashTable (conn t c) \<noteq> table_id (tt_pOldConnList t) \<longleftrightarrow> cn_idHashTable (conn t c) = table_id (tt_pNewConnList t)"
    if "c \<in> busy F t" for c
    using busy_in_table [OF tcp_okD(1) [OF ok], of c] that neq by (metis (full_types) Diff_empty table_id_simps(1) table_ptr.exhaust)
  have s: "SweepDeadConnections os t w = Some (?t, w1)" using True c(1) by (simp add: SweepDeadConnections_def Let_def cf(1,2))
  have bb: "busy F' ?t = {c \<in> busy F t. cn_idHashTable (conn t c) = table_id (tt_pNewConnList t)}"
    unfolding b2 c(4) using ids by blast
  have cn: "\<forall>c \<in> busy F' ?t. conn ?t c = conn t c" using c(5) unfolding b2 by simp
  show ?thesis
    by (rule exI [of _ ?t], rule exI [of _ w1], rule exI [of _ F']) (use True s ok2 bb cn cf in simp)
next
  case False
  then have "SweepDeadConnections os t w = Some (t, w)" by (simp add: SweepDeadConnections_def Let_def)
  then show ?thesis using False ok by auto
qed

lemma cleanup_ok:
  assumes sys: "tcp_calls_ok os view" and ok: "tcp_ok e F {} {} t (view w)"
  shows "\<exists>t' w' F'. ThreadCleanup os t w = Some (t', w') \<and> tcp_ok e F' {} {} t' (view w') \<and> busy F' t' = {} \<and> config t' = config t"
proof -
  from close_all_ok [OF sys ok, of "tt_pOldConnList t"] obtain t1 w1 F1 where c: "CloseAllConnections os (tt_pOldConnList t) t w = Some (t1, w1)"
    "tcp_ok e F1 {} {} t1 (view w1)" "config t1 = config t"
    "busy F1 t1 = {c \<in> busy F t. cn_idHashTable (conn t c) \<noteq> table_id (tt_pOldConnList t)}" "\<forall>c \<in> busy F1 t1. conn t1 c = conn t c" by blast
  from close_all_ok [OF sys c(2), of "tt_pNewConnList t1"] obtain t2 w2 F2 where d: "CloseAllConnections os (tt_pNewConnList t1) t1 w1 = Some (t2, w2)"
    "tcp_ok e F2 {} {} t2 (view w2)" "config t2 = config t1"
    "busy F2 t2 = {c \<in> busy F1 t1. cn_idHashTable (conn t1 c) \<noteq> table_id (tt_pNewConnList t1)}" by blast
  have neq: "tt_pNewConnList t \<noteq> tt_pOldConnList t" using tcp_okD(2) [OF ok] by (simp add: tcp_config_ok_def)
  have "busy F2 t2 = {}"
  proof (rule ccontr)
    assume "busy F2 t2 \<noteq> {}"
    then obtain x where x: "x \<in> busy F1 t1" "cn_idHashTable (conn t1 x) \<noteq> table_id (tt_pNewConnList t)" "x \<in> busy F t"
      "cn_idHashTable (conn t x) \<noteq> table_id (tt_pOldConnList t)" unfolding d(4) config_fields(1) [OF c(3)] c(4) by blast
    moreover have "conn t1 x = conn t x" using c(5) x(1) by blast
    ultimately show False using busy_in_table [OF tcp_okD(1) [OF ok], of x] neq by (metis (full_types) Diff_empty table_ptr.exhaust)
  qed
  moreover have "ThreadCleanup os t w = Some (t2, w2)"
    using c(1) d(1) config_fields(1) [OF c(3)] by (simp add: ThreadCleanup_def)
  ultimately show ?thesis using d(2,3) c(3) by auto
qed

end
