(* ===== verification/TcpAccept.thy ===== *)
theory TcpAccept
  imports TcpLoops
begin

text \<open>
  \<open>AcceptConnection\<close>: an object from the pool, which grows when it is empty, becomes a connection that has
  received nothing, is watched for reading and listed in the new table, or everything is as before.
\<close>

section \<open>The pool\<close>

lemma grow_ok:
  assumes ok: "tcp_ok e F X Y t v" and t': "t' = t\<lparr>tt_connectionpool := pool_add (tt_connectionpool t)\<rparr>"
  shows "tcp_ok e (length (pl_conns (tt_connectionpool t)) # F) X Y t' v"
    "busy (length (pl_conns (tt_connectionpool t)) # F) t' = busy F t" "c \<in> busy F t \<Longrightarrow> conn t' c = conn t c" "config t' = config t"
proof -
  note sh = tcp_shapeD [OF tcp_okD(1) [OF ok]]
  let ?n = "length (pl_conns (tt_connectionpool t))"
  define new where "new = StunConnection_new\<lparr>cn_spOutputBuffer := Some (CBuffer_alloc MAX_STUN_MESSAGE_SIZE),
    cn_spReaderBuffer := Some (CBuffer_alloc MAX_STUN_MESSAGE_SIZE), cn_pNext := pl_freelist (tt_connectionpool t)\<rparr>"
  have p: "pl_conns (tt_connectionpool t') = pl_conns (tt_connectionpool t) @ [new]" "pl_freelist (tt_connectionpool t') = Some ?n"
    by (simp_all add: t' pool_add_def Let_def new_def)
  have new: "cell_ok new" "sk_sock (cn_stunsocket new) = -1" "cn_pNext new = pl_freelist (tt_connectionpool t)"
    using new_table
    by (simp_all add: new_def cell_ok_def StunConnection_new_def ready_buffer_def wf_buffer_def MAX_STUN_MESSAGE_SIZE_def CStunSocket_new_def)
  have nth: "conn t' c = (if c = ?n then new else conn t c)" if "c < Suc ?n" for c using that by (simp add: p(1) nth_append)
  have bound: "c < ?n" if "c \<in> set F" for c using that chain_bound [OF sh(1)] by auto
  show b: "busy (?n # F) t' = busy F t" unfolding busy_def by (auto simp: p(1))
  show same: "conn t' c = conn t c" if "c \<in> busy F t" for c using that nth [of c] by (simp add: busy_def)
  show cfg: "config t' = config t" by (simp add: t' config_def)
  have tb: "conn_table q t' = conn_table q t" for q by (cases q) (simp_all add: t')
  have "chain (pl_conns (tt_connectionpool t')) (pl_freelist (tt_connectionpool t')) (?n # F)"
    using chain_append [OF sh(1), of "[new]"] nth [of ?n] by (simp add: p new(3))
  moreover have "distinct (?n # F)" using sh(2) bound by auto
  moreover have "sock_of t' c = -1" if "c \<in> set (?n # F)" for c using that nth [of c] bound [of c] sh(3) [of c] new(2) by auto
  moreover have "cell_ok (conn t' c)" if "c < length (pl_conns (tt_connectionpool t'))" for c
    using that nth [of c] sh(4) [of c] new(1) by (simp add: p(1) split: if_splits)
  moreover have "conn_view q t' fd = Some c \<longleftrightarrow> c \<in> busy F t - X \<and> cn_idHashTable (conn t' c) = table_id q \<and> sock_of t' c = fd" for q fd c
    unfolding tb using sh(6) [of q fd c] same [of c] by auto
  moreover have "inj_on (sock_of t') (busy F t)" using sh(8) same by (auto simp: inj_on_def)
  moreover have "cn_idHashTable (conn t' c) = 1 \<or> cn_idHashTable (conn t' c) = 2" if "c \<in> busy F t - X" for c
    using sh(7) [OF that] same [of c] that by simp
  moreover have "sock_of t' c \<noteq> -1" if "c \<in> busy F t" for c using sh(9) [OF that] same [OF that] by simp
  ultimately have shape: "tcp_shape (?n # F) X t'" unfolding tcp_shape_def b tb using sh(5) by blast
  have img: "sock_of t' ` busy F t = sock_of t ` busy F t" using same by (intro image_cong) simp_all
  have cok: "tcp_config_ok e t'" using tcp_okD(2) [OF ok] tcp_config_ok_config [OF cfg, of e] by (simp add: t')
  show "tcp_ok e (?n # F) X Y t' v" using ok shape cok same unfolding tcp_ok_def b img by auto
qed

lemma grow_many:
  assumes "tcp_ok e F X Y t v"
  shows "\<exists>F'. tcp_ok e F' X Y (t\<lparr>tt_connectionpool := (pool_add ^^ k) (tt_connectionpool t)\<rparr>) v \<and>
    busy F' (t\<lparr>tt_connectionpool := (pool_add ^^ k) (tt_connectionpool t)\<rparr>) = busy F t \<and> (0 < k \<longrightarrow> F' \<noteq> []) \<and>
    (\<forall>c \<in> busy F t. conn (t\<lparr>tt_connectionpool := (pool_add ^^ k) (tt_connectionpool t)\<rparr>) c = conn t c)"
proof (induction k)
  case 0
  show ?case using assms by (intro exI [of _ F]) simp
next
  case (Suc k)
  let ?t = "t\<lparr>tt_connectionpool := (pool_add ^^ k) (tt_connectionpool t)\<rparr>"
  from Suc obtain F' where f: "tcp_ok e F' X Y ?t v" "busy F' ?t = busy F t" "\<forall>c \<in> busy F t. conn ?t c = conn t c" by blast
  note g = grow_ok [OF f(1), of "t\<lparr>tt_connectionpool := (pool_add ^^ Suc k) (tt_connectionpool t)\<rparr>"]
  show ?case using g f(2,3) by (intro exI [of _ "length (pl_conns (tt_connectionpool ?t)) # F'"]) simp
qed

lemma take_ok:
  assumes ok: "tcp_ok e (c # F) {} {} t v" and cn: "cell_ok cn" "sk_sock (cn_stunsocket cn) = s" and s: "0 \<le> s" "s \<notin> vw_open v"
    and t': "t' = t\<lparr>tt_connectionpool := pool_update c (\<lambda>_. cn) ((tt_connectionpool t)\<lparr>pl_freelist := cn_pNext (conn t c)\<rparr>)\<rparr>"
  shows "tcp_ok e F {c} {c} t' (vw_opened s v)" "busy F t' = insert c (busy (c # F) t)" "c \<notin> busy (c # F) t"
    "conn t' c = cn" "d \<noteq> c \<Longrightarrow> conn t' d = conn t d" "config t' = config t"
proof -
  note sh = tcp_shapeD [OF tcp_okD(1) [OF ok]] and d = tcp_okD [OF ok]
  have c: "c < length (pl_conns (tt_connectionpool t))" using sh(1) by simp
  have p: "pl_conns (tt_connectionpool t') = (pl_conns (tt_connectionpool t))[c := cn]" "pl_freelist (tt_connectionpool t') = cn_pNext (conn t c)"
    by (simp_all add: t' pool_update_def)
  have nth: "conn t' x = (if x = c then cn else conn t x)" for x using c by (simp add: p(1))
  show "conn t' c = cn" using nth by simp
  show "conn t' x = conn t x" if "x \<noteq> c" for x using nth that by simp
  show nc: "c \<notin> busy (c # F) t" by (simp add: busy_def)
  let ?B = "busy (c # F) t"
  show b: "busy F t' = insert c ?B" using c sh(2) by (auto simp: busy_def p(1))
  show cfg: "config t' = config t" by (simp add: t' config_def)
  have tb: "conn_table q t' = conn_table q t" for q by (cases q) (simp_all add: t')
  have other: "x \<noteq> c" if "x \<in> ?B" for x using that by (auto simp: busy_def)
  have fresh: "sock_of t x \<noteq> s" if "x \<in> ?B" for x using s(2) that d(3) by blast
  have same: "sock_of t' x = sock_of t x" if "x \<in> ?B" for x using other [OF that] by (simp add: nth)
  have img_old: "sock_of t' ` ?B = sock_of t ` ?B" using same by (intro image_cong) simp_all
  have inj_old: "inj_on (sock_of t') ?B" using sh(8) same by (simp cong: inj_on_cong)
  have sock_new: "sock_of t' c = s" using nth cn(2) by simp
  have new: "s \<notin> sock_of t ` ?B" using fresh by blast
  have ch: "chain (pl_conns (tt_connectionpool t')) (pl_freelist (tt_connectionpool t')) F"
    unfolding p using chain_update [of "pl_conns (tt_connectionpool t)" _ F c cn] sh(1,2) by simp
  have "distinct F" using sh(2) by simp
  moreover have "sock_of t' x = -1" if "x \<in> set F" for x using that sh(2) sh(3) [of x] nth [of x] by auto
  moreover have "cell_ok (conn t' x)" if "x < length (pl_conns (tt_connectionpool t'))" for x
    using that sh(4) [of x] cn(1) nth [of x] by (cases "x = c") (simp_all add: p(1))
  moreover have "conn_view q t' fd = Some x \<longleftrightarrow> x \<in> insert c ?B - {c} \<and> cn_idHashTable (conn t' x) = table_id q \<and> sock_of t' x = fd" for q fd x
    unfolding tb using sh(6) [of q fd x] nth [of x] nc by (cases "x = c") simp_all
  moreover have "inj_on (sock_of t') (insert c ?B)" unfolding inj_on_insert using inj_old sock_new new img_old nc by simp
  moreover have "cn_idHashTable (conn t' x) = 1 \<or> cn_idHashTable (conn t' x) = 2" if "x \<in> insert c ?B - {c}" for x
    using sh(7) [of x] nth [of x] that by auto
  moreover have "sock_of t' x \<noteq> -1" if "x \<in> insert c ?B" for x using sh(9) [of x] nth [of x] that cn(2) s(1) by (auto split: if_splits)
  ultimately have shape: "tcp_shape F {c} t'" unfolding tcp_shape_def b tb using sh(5) ch by blast
  have img: "sock_of t' ` insert c ?B = insert s (sock_of t ` ?B)" using nth other cn(2) by (auto simp: image_iff)
  have cok: "tcp_config_ok e t'" using d(2) tcp_config_ok_config [OF cfg, of e] by (simp add: t')
  have "progress e (vw_opened s v) (conn t' x)" if x: "x \<in> insert c ?B - {c}" for x
  proof -
    have "progress e (vw_opened s v) (conn t x) = progress e v (conn t x)"
      using fresh [of x] x by (intro progress_cong) (simp_all add: vw_opened_def)
    then show ?thesis using d(5) [of x] x nth [of x] by simp
  qed
  moreover have "honest e (vw_opened s v) fd" for fd
    using d(6) [of fd] by (cases "fd = s") (simp_all add: honest_def vw_opened_def)
  moreover have "vw_open (vw_opened s v) = en_keep e \<union> sock_of t' ` insert c ?B" unfolding img using d(3) by (simp add: vw_opened_def)
  moreover have "en_keep e \<inter> sock_of t' ` insert c ?B = {}" unfolding img using d(3,4) s(2) by blast
  ultimately show "tcp_ok e F {c} {c} t' (vw_opened s v)" using shape cok unfolding tcp_ok_def b by blast
qed


lemma attach_restarted: "Reader_AttachStream (Some b) True (Reader_Reset r) = restarted b r"
  by (simp add: restarted_def Reader_AttachStream_def CDataStream_Attach_def Let_def CBuffer_SetSize_def)

lemma prepared:
  assumes sys: "tcp_calls_ok os view" and cn: "cell_ok cn" "sk_sock (cn_stunsocket cn) = -1" and s: "0 \<le> s"
    and p: "prepare_connection os s role cn w = (cn', w')"
  shows "w' = w" "cell_ok cn'" "sk_sock (cn_stunsocket cn') = s" "sk_role (cn_stunsocket cn') = role" "wf_addr (sk_addrlocal (cn_stunsocket cn'))"
    "wf_addr (sk_addrremote (cn_stunsocket cn'))" "cn_state cn' = ConnectionState_Receiving" "cn_txCount cn' = 0" "reading [] cn'"
proof -
  obtain b where b: "cn_spReaderBuffer cn = Some b" "ready_buffer b" using cn(1) by (auto simp: cell_ok_def)
  have tb: "table_ok (cn_reader cn)" using cn(1) by (simp add: cell_ok_def)
  note rs = restarted_ok [OF tb b(2)]
  let ?sk = "CStunSocket_UpdateAddresses os ((CStunSocket_Reset (cn_stunsocket cn))\<lparr>sk_sock := s\<rparr>) w"
  have at: "CStunSocket_Attach os s (cn_stunsocket cn) w = (S_OK, ?sk, w)"
    using cn(2) s by (simp add: CStunSocket_Attach_def CStunSocket_Close_def)
  have P: "w' = w" "cn' = cn\<lparr>cn_pNext := None, cn_reader := restarted b (cn_reader cn), cn_spReaderBuffer := attached_buffer (rd_stream (restarted b (cn_reader cn))),
      cn_state := ConnectionState_Receiving, cn_stunsocket := CStunSocket_SetRole role ?sk, cn_txCount := 0, cn_timeStart := os_time os w, cn_idHashTable := -1\<rparr>"
    using p b(1) by (auto simp: prepare_connection_def Let_def attach_restarted at)
  show "w' = w" "sk_sock (cn_stunsocket cn') = s" "sk_role (cn_stunsocket cn') = role" "cn_state cn' = ConnectionState_Receiving" "cn_txCount cn' = 0"
    by (simp_all add: P CStunSocket_SetRole_def)
  show "cell_ok cn'" using cn(1) rs(2,3) by (auto simp: P cell_ok_def sound_attached_def ready_buffer_def)
  show "reading [] cn'" using rs by (simp add: P reading_def)
  have z: "wf_addr (CSocketAddress_ip4 0 0)" by simp
  have "wf_addr (sk_addrlocal ?sk) \<and> wf_addr (sk_addrremote ?sk)"
    using tcp_callsD(10,11) [OF sys, of s w] z
    by (auto simp: CStunSocket_UpdateAddresses_def CStunSocket_Reset_def Let_def split: option.split)
  then show "wf_addr (sk_addrlocal (cn_stunsocket cn'))" "wf_addr (sk_addrremote (cn_stunsocket cn'))"
    by (simp_all add: P CStunSocket_SetRole_def)
qed

text \<open>A connection out of the pool: in use, in no table yet, and not watched.\<close>

definition new_connection :: "tcp_env \<Rightarrow> nat list \<Rightarrow> nat \<Rightarrow> int \<Rightarrow> tcp_thread \<Rightarrow> tcp_thread \<Rightarrow> sys_view \<Rightarrow> bool" where
  "new_connection e F c s t0 t v \<longleftrightarrow>
     tcp_ok e F {c} {c} t v \<and> c \<in> busy F t \<and> sock_of t c = s \<and> config t = config t0 \<and>
     IsValidSocketRole (sk_role (cn_stunsocket (conn t c))) \<and> wf_addr (sk_addrlocal (cn_stunsocket (conn t c))) \<and>
     wf_addr (sk_addrremote (cn_stunsocket (conn t c))) \<and> cn_state (conn t c) = ConnectionState_Receiving \<and> cn_txCount (conn t c) = 0 \<and>
     reading [] (conn t c) \<and> vw_in v s = [] \<and> vw_out v s = []"

lemma get_ok:
  assumes sys: "tcp_calls_ok os view" and ok: "tcp_ok e F {} {} t (view w)" and role: "IsValidSocketRole role"
    and s: "0 \<le> s" "s \<notin> vw_open (view w)" and w1: "view w1 = vw_opened s (view w)"
    and g: "GetConnection os s role (tt_connectionpool t) w1 = (pConn, pl, w')"
  shows "\<exists>c F'. pConn = Some c \<and> view w' = view w1 \<and> new_connection e F' c s t (t\<lparr>tt_connectionpool := pl\<rparr>) (view w1) \<and>
    busy F' (t\<lparr>tt_connectionpool := pl\<rparr>) = insert c (busy F t) \<and> c \<notin> busy F t \<and>
    (\<forall>d \<in> busy F t. conn (t\<lparr>tt_connectionpool := pl\<rparr>) d = conn t d)"
proof -
  let ?grown = "if pl_freelist (tt_connectionpool t) = None then snd (pool_Grow (tt_connectionpool t)) else tt_connectionpool t"
  let ?t1 = "t\<lparr>tt_connectionpool := ?grown\<rparr>"
  have "\<exists>F1. tcp_ok e F1 {} {} ?t1 (view w) \<and> busy F1 ?t1 = busy F t \<and> F1 \<noteq> [] \<and> (\<forall>d \<in> busy F t. conn ?t1 d = conn t d)"
  proof (cases "pl_freelist (tt_connectionpool t) = None")
    case True
    then show ?thesis using grow_many [OF ok, of c_growrate] by (simp add: pool_Grow_def c_growrate_def)
  next
    case False
    then have "F \<noteq> []" using tcp_shapeD(1) [OF tcp_okD(1) [OF ok]] by (cases F) auto
    then show ?thesis using False ok by auto
  qed
  then obtain c F1 where f: "tcp_ok e (c # F1) {} {} ?t1 (view w)" "busy (c # F1) ?t1 = busy F t" "\<forall>d \<in> busy F t. conn ?t1 d = conn t d"
    by (metis neq_Nil_conv)
  note sh = tcp_shapeD [OF tcp_okD(1) [OF f(1)]]
  have free: "pl_freelist ?grown = Some c" and c: "c < length (pl_conns ?grown)" using sh(1) by auto
  have cn: "cell_ok (pl_conns ?grown ! c)" "sk_sock (cn_stunsocket (pl_conns ?grown ! c)) = -1" using sh(4) [of c] sh(3) [of c] c by simp_all
  obtain cn' w2 where pr: "prepare_connection os s role (pl_conns ?grown ! c) w1 = (cn', w2)" by fastforce
  note pp = prepared [OF sys cn s(1) pr]
  have G: "pConn = Some c" "pl = pool_update c (\<lambda>_. cn') (?grown\<lparr>pl_freelist := cn_pNext (pl_conns ?grown ! c)\<rparr>)" "w' = w1"
    using g pr pp(1) unfolding GetConnection_def Let_def free option.case by simp_all
  have "t\<lparr>tt_connectionpool := pl\<rparr> = ?t1\<lparr>tt_connectionpool := pool_update c (\<lambda>_. cn') ((tt_connectionpool ?t1)\<lparr>pl_freelist := cn_pNext (conn ?t1 c)\<rparr>)\<rparr>"
    by (simp add: G(2))
  note tk = take_ok [OF f(1) pp(2,3) s this]
  have nc: "new_connection e F1 c s t (t\<lparr>tt_connectionpool := pl\<rparr>) (view w1)"
    unfolding new_connection_def tk(4) w1 using tk(1,2,6) pp(3-9) role by (simp add: config_def vw_opened_def)
  have other: "\<forall>d \<in> busy F t. conn (t\<lparr>tt_connectionpool := pl\<rparr>) d = conn t d"
  proof
    fix d assume d: "d \<in> busy F t"
    then have "d \<noteq> c" using tk(3) unfolding f(2) by blast
    then show "conn (t\<lparr>tt_connectionpool := pl\<rparr>) d = conn t d" using tk(5) [of d] f(3) d by simp
  qed
  show ?thesis using G(1,3) nc tk(2,3) other unfolding f(2) by (intro exI [of _ c] exI [of _ F1]) simp
qed


section \<open>AcceptConnection\<close>

text \<open>Listing the watched connection in the new table.\<close>

definition list_connection :: "nat \<Rightarrow> int \<Rightarrow> tcp_thread \<Rightarrow> hresult \<times> tcp_thread" where
  "list_connection c s t =
     (let t = on_conn c (cn_idHashTable_update (\<lambda>_. if tt_pNewConnList t = Table1 then 1 else 2)) t;
          (insertresult, h) = FastHash_Insert FastHash_Hash_signed s c (conn_table (tt_pNewConnList t) t);
          t = set_conn_table (tt_pNewConnList t) h t
      in if insertresult = -1 then (E_FAIL, t) else (S_OK, t))"

lemma list_ok:
  assumes ok: "tcp_ok e F {c} {c} t v" and c: "c \<in> busy F t" and l: "list_connection c (sock_of t c) t = (hr, t')"
    and pr: "progress e v (conn t c)"
  shows "busy F t' = busy F t" "config t' = config t" "d \<noteq> c \<Longrightarrow> conn t' d = conn t d" "cn_state (conn t' c) = cn_state (conn t c)"
    "if FAILED hr then tcp_ok e F {c} {c} t' v else tcp_ok e F {} {} t' v"
proof -
  let ?s = "sock_of t c" and ?p = "tt_pNewConnList t"
  let ?cn = "(conn t c)\<lparr>cn_idHashTable := table_id ?p\<rparr>"
  let ?t1 = "on_conn c (\<lambda>_. ?cn) t"
  have id: "(if ?p = Table1 then 1 else 2) = table_id ?p" by (cases ?p) simp_all
  have new: "tt_pNewConnList (on_conn c f t) = ?p" for f by (simp add: on_conn_def)
  have on: "on_conn c (cn_idHashTable_update (\<lambda>_. x)) t = on_conn c (\<lambda>_. (conn t c)\<lparr>cn_idHashTable := x\<rparr>) t" for x by (rule on_conn_const)
  obtain i h where ins: "FastHash_Insert FastHash_Hash_signed ?s c (conn_table ?p t) = (i, h)" by fastforce
  have L: "t' = set_conn_table ?p h ?t1" "hr = (if i = -1 then E_FAIL else S_OK)"
    using l unfolding list_connection_def Let_def id on new on_conn_simps ins prod.case by (auto split: if_splits)
  note sh = tcp_shapeD [OF tcp_okD(1) [OF ok]]
  have nth: "conn t' d = (if d = c then ?cn else conn t d)" for d using conn_on_conn [OF busy_length [OF c]] by (simp add: L(1))
  show "d \<noteq> c \<Longrightarrow> conn t' d = conn t d" for d using nth by simp
  show "cn_state (conn t' c) = cn_state (conn t c)" unfolding nth by simp
  show b: "busy F t' = busy F t" by (simp add: L(1) busy_def)
  show cfg: "config t' = config t" by (simp add: L(1))
  have "progress e v ?cn" using pr by (auto simp: progress_def Let_def tcp_message_in_def output_bytes_def reading_def split: StunConnectionState.splits)
  then have ok1: "tcp_ok e F {c} {} ?t1 v" using sh(4) [OF busy_length [OF c]] tcp_okD(6) [OF ok]
    by (intro ok_on_conn [OF ok c]) (simp_all add: cell_ok_def)
  note sh1 = tcp_shapeD [OF tcp_okD(1) [OF ok1]]
  have none: "conn_view ?p t ?s = None"
  proof (rule ccontr)
    assume "conn_view ?p t ?s \<noteq> None"
    then obtain d where "conn_view ?p t ?s = Some d" by blast
    then have "d \<in> busy F t - {c} \<and> sock_of t d = ?s" using sh(6) [of ?p ?s d] by simp
    then show False using inj_onD [OF sh(8), of d c] c by auto
  qed
  note in1 = hashmap.inserted [OF sh(5) none ins]
  show "if FAILED hr then tcp_ok e F {c} {c} t' v else tcp_ok e F {} {} t' v"
  proof (cases "i = -1")
    case True
    then have "h = conn_table ?p t" using in1 by (auto split: if_splits)
    then have "set_conn_table ?p h ?t1 = ?t1" by (cases ?p) simp_all
    then show ?thesis using tcp_ok_mono [OF ok1] True by (simp add: L)
  next
    case False
    then have h: "fh_unique FastHash_Hash_signed h" "fh_view FastHash_Hash_signed h = (conn_view ?p t)(?s \<mapsto> c)"
      using in1 by (auto split: if_splits)
    have view: "conn_view q t' = (if q = ?p then (conn_view q t)(?s \<mapsto> c) else conn_view q t)"
      and uniq: "fh_unique FastHash_Hash_signed (conn_table q t')" for q
      using h sh(5) by (auto simp: L(1))
    have sock: "sock_of t' d = sock_of t d" for d by (simp add: nth)
    have "conn_view q t' fd = Some d \<longleftrightarrow> d \<in> busy F t - {} \<and> cn_idHashTable (conn t' d) = table_id q \<and> sock_of t d = fd" for q fd d
    proof (cases "d = c")
      case True
      have "conn_view q t fd \<noteq> Some c" using sh(6) [of q fd c] by simp
      then show ?thesis using True c by (auto simp: view nth)
    next
      case other: False
      have "conn_view q t ?s \<noteq> Some d" using sh(6) [of q ?s d] inj_onD [OF sh(8), of d c] other c by auto
      then have "conn_view q t' fd = Some d \<longleftrightarrow> conn_view q t fd = Some d" using other none by (auto simp: view)
      then show ?thesis using sh(6) [of q fd d] other nth [of d] by simp
    qed
    moreover have "cn_idHashTable (conn t' d) = 1 \<or> cn_idHashTable (conn t' d) = 2" if "d \<in> busy F t - {}" for d
      using sh(7) [of d] that nth [of d] by (cases "d = c"; cases ?p) auto
    moreover have "chain (pl_conns (tt_connectionpool t')) (pl_freelist (tt_connectionpool t')) F" using sh1(1) by (simp add: L(1))
    moreover have "cell_ok (conn t' d)" if "d < length (pl_conns (tt_connectionpool t'))" for d using sh1(4) [of d] that by (simp add: L(1))
    ultimately have "tcp_shape F {} t'" unfolding tcp_shape_def b sock using sh(2,3,8,9) uniq by blast
    moreover have "tcp_config_ok e t'" using tcp_okD(2) [OF ok1] tcp_config_ok_config [of t' ?t1 e] by (simp add: L(1))
    moreover have "sock_of ?t1 d = sock_of t d" "conn ?t1 d = conn t' d" for d using nth conn_on_conn [OF busy_length [OF c]] by simp_all
    ultimately have "tcp_ok e F {} {} t' v" using ok1 unfolding tcp_ok_def b sock on_conn_simps by auto
    then show ?thesis using False by (simp add: L(2))
  qed
qed


lemma SetNonBlocking_view: "tcp_calls_ok os view \<Longrightarrow> SetNonBlocking os f sk w = (hr, w') \<Longrightarrow> view w' = view w"
proof -
  assume sys: "tcp_calls_ok os view" and s: "SetNonBlocking os f sk w = (hr, w')"
  have "view (snd (SetNonBlocking os f sk w)) = view w"
    by (simp add: SetNonBlocking_def Let_def split_beta tcp_callsD(7,8) [OF sys])
  then show "view w' = view w" by (simp add: s)
qed

lemma accept_ok:
  assumes sys: "tcp_calls_ok os view" and ok: "tcp_ok e F {} {} t (view w)" and role: "IsValidSocketRole (sk_role sk)"
    and a: "AcceptConnection os sk t w = (pConn, t', w')"
  shows "\<exists>F'. tcp_ok e F' {} {} t' (view w') \<and> config t' = config t \<and> (\<forall>d \<in> busy F t. conn t' d = conn t d) \<and>
    (case pConn of None \<Rightarrow> busy F' t' = busy F t
     | Some c \<Rightarrow> busy F' t' = insert c (busy F t) \<and> c \<notin> busy F t \<and> cn_state (conn t' c) = ConnectionState_Receiving)"
proof -
  obtain s w1 where ac: "os_accept os (sk_sock sk) w = (s, w1)" by fastforce
  note v = tcp_callsD(2) [OF sys ac]
  show ?thesis
  proof (cases "s = -1")
    case True
    then have "pConn = None" "t' = t" "view w' = view w"
      using a v by (auto simp: AcceptConnection_def CStunSocket_GetSocketHandle_def ac)
    then show ?thesis using ok by (intro exI [of _ F]) simp
  next
    case False
    then have s: "0 \<le> s" "s \<notin> vw_open (view w)" and v1: "view w1 = vw_opened s (view w)" using v by simp_all
    obtain pc pl w2 where g: "GetConnection os s (sk_role sk) (tt_connectionpool t) w1 = (pc, pl, w2)" by (metis prod_cases3)
    let ?t = "t\<lparr>tt_connectionpool := pl\<rparr>"
    from get_ok [OF sys ok role s v1 g] obtain c F' where pc: "pc = Some c" "view w2 = view w1"
      and nc: "new_connection e F' c s t ?t (view w1)" and b: "busy F' ?t = insert c (busy F t)" "c \<notin> busy F t"
      and oth: "\<forall>d \<in> busy F t. conn ?t d = conn t d" by blast
    note n = nc [unfolded new_connection_def]
    obtain hr1 w3 where nb: "SetNonBlocking os True (cn_stunsocket (conn ?t c)) w2 = (hr1, w3)" by fastforce
    have v3: "view w3 = view w1" using SetNonBlocking_view [OF sys nb] pc(2) by simp
    obtain hr2 w4 where pa: "(if FAILED hr1 then (hr1, ?t, w3) else on_polling (Polling_Add os s EPOLL_CLIENT_READ_EVENT_SET) ?t w3) = (hr2, ?t, w4)"
      and v4: "view w4 = (if FAILED hr2 then view w1 else vw_control EPOLL_CTL_ADD s (CEpoll_ToNativeFlags EPOLL_CLIENT_READ_EVENT_SET) (view w1))"
    proof (cases "FAILED hr1")
      case True
      then show ?thesis using that [of hr1 w3] v3 by simp
    next
      case f: False
      have "tcp_config_ok e ?t" "s \<noteq> -1" using n s(1) tcp_okD(2) by auto
      from polling_control(1) [OF sys this, of EPOLL_CLIENT_READ_EVENT_SET w3] show ?thesis using that f v3 by auto
    qed
    obtain hr3 t5 where ls: "(if FAILED hr2 then (hr2, ?t) else list_connection c s ?t) = (hr3, t5)" by fastforce
    have A: "(pConn, t', w') = (if FAILED hr3 then (let (t, w) = CloseConnection os (Some c) t5 w4 in (None, t, w)) else (Some c, t5, w4))"
      using a False nb pa ls
      by (simp add: AcceptConnection_def CStunSocket_GetSocketHandle_def CStunSocket_GetRole_def ac g pc(1) list_connection_def [symmetric])
        (simp add: list_connection_def Let_def split: prod.splits if_splits)
    have cb: "c \<in> busy F' ?t" and sc: "sock_of ?t c = s" and okc: "tcp_ok e F' {c} {c} ?t (view w1)" using n by simp_all
    have okc4: "tcp_ok e F' {c} {c} ?t (view w4)"
      using n by (intro ok_view [OF okc cb]) (simp_all add: v4 sc honest_def del: vw_control.simps)
    have fresh: "d \<noteq> c" if "d \<in> busy F t" for d using that b(2) by blast
    have fail: ?thesis if bt: "busy F' t5 = busy F' ?t" "config t5 = config ?t" "\<And>d. d \<noteq> c \<Longrightarrow> conn t5 d = conn ?t d" "FAILED hr3"
        "tcp_ok e F' {c} {c} t5 (view w4)"
    proof -
      obtain t6 w6 where cl: "CloseConnection os (Some c) t5 w4 = (t6, w6)" by fastforce
      have r: "pConn = None" "t' = t6" "w' = w6" using A that(4) by (simp_all add: cl)
      have cb5: "c \<in> busy F' t5" using cb bt(1) by simp
      note co = close_ok [OF sys that(5) subset_refl cb5 cl]
      have "config t6 = config t" using co(3) bt(2) n by simp
      moreover have "busy (c # F') t6 = busy F t" using co(2) bt(1) b by auto
      moreover have "conn t6 d = conn t d" if "d \<in> busy F t" for d using co(4) bt(3) fresh [OF that] oth that by simp
      ultimately show ?thesis using co(1) r by (intro exI [of _ "c # F'"]) simp
    qed
    show ?thesis
    proof (cases "FAILED hr2")
      case True
      then have "t5 = ?t" "hr3 = hr2" using ls by simp_all
      then show ?thesis using fail okc4 True by simp
    next
      case f2: False
      have pr: "progress e (view w4) (conn ?t c)" using n f2 unfolding progress_def Let_def sc v4 by simp
      have "list_connection c (sock_of ?t c) ?t = (hr3, t5)" using ls f2 sc by simp
      note lo = list_ok [OF okc4 cb this pr]
      show ?thesis
      proof (cases "FAILED hr3")
        case True
        then show ?thesis using fail lo by simp
      next
        case False
        then have r: "pConn = Some c" "t' = t5" "w' = w4" using A by simp_all
        have "cn_state (conn t5 c) = ConnectionState_Receiving" using lo(4) n by simp
        moreover have "\<forall>d \<in> busy F t. conn t5 d = conn t d" using lo(3) oth fresh by simp
        moreover have "config t5 = config t" using lo(2) n by simp
        ultimately show ?thesis using lo(1,5) b r False by (intro exI [of _ F']) simp
      qed
    qed
  qed
qed

end
