(* ===== verification/TcpRun.thy ===== *)
theory TcpRun
  imports TcpAccept
begin

text \<open>
  The loop of a TCP thread: every round keeps the invariant, so it holds in every state the thread can reach, and when
  the thread has left the loop no connection is in use.
\<close>

lemma listen_control:
  assumes sys: "tcp_calls_ok os view" and ok: "tcp_ok e F {} {} t (view w)" and i: "i < 4" "tt_socketTable t ! i \<noteq> -1"
  shows "\<exists>hr w'. on_polling (Polling_Add os (tt_socketTable t ! i) ev) t w = (hr, t, w') \<and> tcp_ok e F {} {} t (view w')"
    "\<exists>hr w'. on_polling (Polling_Remove os (tt_socketTable t ! i)) t w = (hr, t, w') \<and> tcp_ok e F {} {} t (view w')"
proof -
  have k: "tt_socketTable t ! i \<in> en_keep e" using tcp_okD(2) [OF ok] i unfolding tcp_config_ok_def by blast
  note pc = polling_control [OF sys tcp_okD(2) [OF ok] i(2), where w = w]
  show "\<exists>hr w'. on_polling (Polling_Add os (tt_socketTable t ! i) ev) t w = (hr, t, w') \<and> tcp_ok e F {} {} t (view w')"
    using pc(1) [of ev] ok_keep_watch [OF ok k] ok by (metis (no_types, lifting))
  show "\<exists>hr w'. on_polling (Polling_Remove os (tt_socketTable t ! i)) t w = (hr, t, w') \<and> tcp_ok e F {} {} t (view w')"
    using pc(3) ok_keep_watch [OF ok k] ok by (metis (no_types, lifting))
qed

lemma watch_listen_ok:
  assumes sys: "tcp_calls_ok os view"
  shows "tcp_ok e F {} {} t (view w) \<Longrightarrow> \<forall>i \<in> set roles. i < 4 \<Longrightarrow> watch_listen os en roles t w = (hr, t', w') \<Longrightarrow>
    t' = t \<and> tcp_ok e F {} {} t (view w')"
proof (induction roles arbitrary: w)
  case (Cons i roles)
  show ?case
  proof (cases "tt_socketTable t ! i = -1")
    case True
    then show ?thesis using Cons by simp
  next
    case False
    have i: "i < 4" using Cons.prems(2) by simp
    obtain hr1 w1 where c: "(if en then on_polling (Polling_Add os (tt_socketTable t ! i) EPOLL_LISTEN_SOCKET_EVENT_SET) t w
        else on_polling (Polling_Remove os (tt_socketTable t ! i)) t w) = (hr1, t, w1)" "tcp_ok e F {} {} t (view w1)"
      using listen_control(1) [OF sys Cons.prems(1) i False, of EPOLL_LISTEN_SOCKET_EVENT_SET] listen_control(2) [OF sys Cons.prems(1) i False]
      by (cases en) auto
    show ?thesis using Cons.IH [OF c(2)] Cons.prems(2,3) c False by (auto simp: Let_def split: if_splits)
  qed
qed simp

lemma conn_table_fields [simp]:
  "conn_table p (t\<lparr>tt_fListenSocketsOnEpoll := b\<rparr>) = conn_table p t" "conn_table p (t\<lparr>tt_spPolling := po\<rparr>) = conn_table p t"
  "conn_table p (t\<lparr>tt_timeLastSweep := n\<rparr>) = conn_table p t" "conn_table p (t\<lparr>tt_fNeedToExit := b\<rparr>) = conn_table p t"
  by (cases p; simp)+

lemma tcp_config_ok_fields [simp]:
  "tcp_config_ok e (t\<lparr>tt_fListenSocketsOnEpoll := b\<rparr>) = tcp_config_ok e t" "tcp_config_ok e (t\<lparr>tt_timeLastSweep := n\<rparr>) = tcp_config_ok e t"
  "tcp_config_ok e (t\<lparr>tt_fNeedToExit := b\<rparr>) = tcp_config_ok e t"
  by (simp_all add: tcp_config_ok_def thread_fds_def)

lemma ok_fields:
  assumes "tcp_ok e F {} {} t v"
  shows "tcp_ok e F {} {} (t\<lparr>tt_fListenSocketsOnEpoll := b\<rparr>) v" "tcp_ok e F {} {} (t\<lparr>tt_timeLastSweep := n\<rparr>) v"
    "tcp_ok e F {} {} (t\<lparr>tt_fNeedToExit := b\<rparr>) v"
  using ok_same(1) [OF assms] tcp_okD(2) [OF assms] tcp_shapeD(5) [OF tcp_okD(1) [OF assms]] by simp_all

lemma ok_started:
  assumes "tcp_ok e F {} {} t v"
  shows "tcp_ok (e\<lparr>en_started := b\<rparr>) F {} {} (t\<lparr>tt_fThreadIsValid := b\<rparr>) v"
proof -
  let ?t = "t\<lparr>tt_fThreadIsValid := b\<rparr>" and ?e = "e\<lparr>en_started := b\<rparr>"
  have p: "conn_table p ?t = conn_table p t" for p by (cases p) simp_all
  have s: "busy F ?t = busy F t" "conn ?t c = conn t c" for c by (simp_all add: busy_def)
  have c: "tcp_config_ok ?e ?t" using tcp_okD(2) [OF assms] by (simp add: tcp_config_ok_def thread_fds_def)
  have r: "tcp_reply ?e = tcp_reply e" by (simp add: fun_eq_iff tcp_reply_def)
  have q: "progress ?e v = progress e v" "honest ?e v = honest e v" unfolding fun_eq_iff progress_def honest_def r by (rule allI, rule refl)+
  show ?thesis using assms c unfolding tcp_ok_def tcp_shape_def p s q by simp blast
qed

lemma set_listen_ok:
  assumes sys: "tcp_calls_ok os view" and ok: "tcp_ok e F {} {} t (view w)" and s: "SetListenSocketsOnEpoll os en t w = (hr, t', w')"
  shows "tcp_ok e F {} {} t' (view w')"
proof -
  obtain hr1 t1 w1 where c: "watch_listen os en [0 ..< 4] t w = (hr1, t1, w1)" by (metis prod_cases3)
  have t1: "t1 = t" "tcp_ok e F {} {} t (view w1)" using watch_listen_ok [OF sys ok _ c] by simp_all
  have "SetListenSocketsOnEpoll os en t w = (if en \<noteq> tt_fListenSocketsOnEpoll t
      then (if FAILED hr1 then (hr1, t, w1) else (hr1, t\<lparr>tt_fListenSocketsOnEpoll := en\<rparr>, w1)) else (S_OK, t, w))"
    unfolding SetListenSocketsOnEpoll_def c prod.case Let_def t1(1) by (rule refl)
  then show ?thesis using s ok t1(2) ok_fields(1) [OF t1(2), of en] by (simp split: if_splits)
qed

lemma epoll_wait_ok:
  assumes sys: "tcp_calls_ok os view" and w: "CEpoll_WaitForNextEvent os ev tm p w = (hr, ev', p', w')"
  shows "ep_epollfd p' = ep_epollfd p" "view w' = view w"
proof -
  obtain ret evs w1 where o: "os_epoll_wait os (ep_epollfd p) (ep_sizeEvents p) tm w = (ret, evs, w1)" by (metis prod_cases3)
  have "view w1 = view w" using tcp_callsD(9) [OF sys, of "ep_epollfd p" "ep_sizeEvents p" tm w] o by simp
  then show "ep_epollfd p' = ep_epollfd p" "view w' = view w"
    using w o by (auto simp: CEpoll_WaitForNextEvent_def CEpoll_take_def Let_def split: if_splits)
qed

lemma wait_event_ok:
  assumes sys: "tcp_calls_ok os view" and ok: "tcp_ok e F {} {} t (view w)" and s: "wait_event os tm t w = (hr, ev, t', w')"
  shows "tcp_ok e F {} {} t' (view w')"
proof -
  obtain p where p: "tt_spPolling t = Some (CEpollObject p)" "ep_epollfd p \<noteq> -1" using tcp_okD(2) [OF ok] by (auto simp: tcp_config_ok_def)
  obtain hr1 ev1 p1 w1 where c: "CEpoll_WaitForNextEvent os PollEvent_zero tm p w = (hr1, ev1, p1, w1)" by (metis prod_cases4)
  note eo = epoll_wait_ok [OF sys c]
  have e: "t' = t\<lparr>tt_spPolling := Some (CEpollObject p1)\<rparr>" "w' = w1" using s p c by (simp_all add: wait_event_def)
  have "tcp_config_ok e t'" using tcp_okD(2) [OF ok] p eo(1) by (simp add: e tcp_config_ok_def thread_fds_def polling_fds_def)
  then show ?thesis using ok_same(1) [OF ok, of t'] tcp_shapeD(5) [OF tcp_okD(1) [OF ok]] eo(2) by (simp add: e)
qed

section \<open>Events\<close>

lemma step_running: "tcp_step e F c t t' v \<Longrightarrow> \<exists>F'. tcp_ok e F' {} {} t' v"
  by (auto simp: tcp_step_def)

lemma lookup_ok:
  assumes "tcp_ok e F {} {} t v"
  shows "lookup_connection s t = Some c \<longleftrightarrow> c \<in> busy F t \<and> sock_of t c = s"
proof -
  note sh = tcp_okD(1) [OF assms]
  have l: "lookup_connection s t = (case conn_view (tt_pNewConnList t) t s of Some c \<Rightarrow> Some c | None \<Rightarrow> conn_view (tt_pOldConnList t) t s)"
    using hashmap.lookup_view [OF tcp_shapeD(5) [OF sh]] by (auto simp: lookup_connection_def split: option.split)
  have neq: "tt_pNewConnList t \<noteq> tt_pOldConnList t" using tcp_okD(2) [OF assms] by (simp add: tcp_config_ok_def)
  show ?thesis
  proof
    assume "lookup_connection s t = Some c"
    then have "conn_view (tt_pNewConnList t) t s = Some c \<or> conn_view (tt_pOldConnList t) t s = Some c"
      unfolding l by (auto split: option.splits)
    then show "c \<in> busy F t \<and> sock_of t c = s" using conn_view_id [OF sh] by auto
  next
    assume c: "c \<in> busy F t \<and> sock_of t c = s"
    then obtain p where p: "conn_view p t s = Some c" using busy_in_table [OF sh, of c] by auto
    have "p = tt_pNewConnList t \<or> p = tt_pOldConnList t" using neq by (metis (full_types) table_ptr.exhaust)
    moreover have "d = c" if "conn_view (tt_pNewConnList t) t s = Some d" for d
      using conn_view_id [OF sh that] c inj_onD [OF tcp_shapeD(8) [OF sh], of d c] by simp
    ultimately show "lookup_connection s t = Some c" using p unfolding l by (auto split: option.splits)
  qed
qed

text \<open>An event is dropped, or it is a step of the connection it is for.\<close>

lemma event_step:
  assumes sys: "tcp_calls_ok os view" and e: "env_ok e" and ok: "tcp_ok e F {} {} t (view w)"
    and p: "ProcessConnectionEvent (en_hmac e) (en_md5 e) os s fl t w = Some (t', w')"
  shows "case lookup_connection s t of None \<Rightarrow> t' = t \<and> w' = w | Some c \<Rightarrow> tcp_step e F c t t' (view w')"
proof (cases "lookup_connection s t")
  case None
  then show ?thesis using p by (simp add: ProcessConnectionEvent_def)
next
  case (Some c)
  then have c: "c \<in> busy F t" using lookup_ok [OF ok] by blast
  have "tcp_step e F c t t' (view w')"
  proof (cases "cn_state (conn t c)")
    case ConnectionState_Idle
    then show ?thesis using p Some step_keep [OF ok] by (simp add: ProcessConnectionEvent_def)
  next
    case ConnectionState_Receiving
    then obtain hr where "receive_loop (en_hmac e) (en_md5 e) os c t w = Some (hr, t', w')"
      using p Some by (auto simp: ProcessConnectionEvent_def ReceiveBytesForConnection_def)
    from receive_loop_ok [OF this sys e refl refl ok c ConnectionState_Receiving] show ?thesis by simp
  next
    case ConnectionState_Transmitting
    then obtain hr where "write_loop os c t w = Some (hr, t', w')"
      using p Some by (auto simp: ProcessConnectionEvent_def WriteBytesForConnection_def)
    from write_ok [OF this sys ok c ConnectionState_Transmitting] show ?thesis by simp
  next
    case ConnectionState_Closing
    then obtain hr where "consume_loop os c t w = Some (hr, t', w')"
      using p Some by (auto simp: ProcessConnectionEvent_def ConsumeRemoteClose_def)
    from consume_ok [OF this sys ok c ConnectionState_Closing] show ?thesis by simp
  qed
  then show ?thesis using Some by simp
qed

lemma listen_role:
  assumes "tcp_config_ok e t" "GetListenSocket s t = Some sk"
  shows "IsValidSocketRole (sk_role sk)"
proof -
  obtain i where i: "s \<noteq> -1" "find (\<lambda>i. tt_socketTable t ! i = s) [0 ..< 4] = Some i" "sk = tt_socketListenArray t ! i"
    using assms(2) by (auto simp: GetListenSocket_def split: if_splits)
  then have "i < 4" "tt_socketTable t ! i = s" by (auto simp: find_Some_iff)
  then show ?thesis using assms(1) i(1,3) by (auto simp: tcp_config_ok_def)
qed

lemma handle_ok:
  assumes sys: "tcp_calls_ok os view" and e: "env_ok e" and ok: "tcp_ok e F {} {} t (view w)"
    and h: "handle_event (en_hmac e) (en_md5 e) os ev t w = Some (t', w')"
  shows "\<exists>F'. tcp_ok e F' {} {} t' (view w')"
proof (cases "GetListenSocket (pe_fd ev) t")
  case None
  then have "ProcessConnectionEvent (en_hmac e) (en_md5 e) os (pe_fd ev) (pe_eventflags ev) t w = Some (t', w')"
    using h by (simp add: handle_event_def)
  from event_step [OF sys e ok this] show ?thesis using ok by (auto split: option.splits dest: step_running)
next
  case (Some sk)
  obtain pc t1 w1 where a: "AcceptConnection os sk t w = (pc, t1, w1)" by (metis prod_cases3)
  from accept_ok [OF sys ok listen_role [OF tcp_okD(2) [OF ok] Some] a] obtain F1 where f: "tcp_ok e F1 {} {} t1 (view w1)"
    "case pc of None \<Rightarrow> True | Some c \<Rightarrow> c \<in> busy F1 t1 \<and> cn_state (conn t1 c) = ConnectionState_Receiving"
    by (auto split: option.splits)
  show ?thesis
  proof (cases pc)
    case None
    then show ?thesis using h Some a f(1) by (auto simp: handle_event_def)
  next
    case (Some c)
    then obtain hr where "receive_loop (en_hmac e) (en_md5 e) os c t1 w1 = Some (hr, t', w')"
      using h \<open>GetListenSocket (pe_fd ev) t = Some sk\<close> a by (auto simp: handle_event_def ReceiveBytesForConnection_def)
    from receive_loop_ok [OF this sys e refl refl f(1)] f(2) Some show ?thesis by (auto dest: step_running)
  qed
qed

section \<open>Rounds\<close>

lemma round_ok:
  assumes sys: "tcp_calls_ok os view" and e: "env_ok e" and ok: "tcp_ok e F {} {} t (view w)"
    and r: "Run_round (en_hmac e) (en_md5 e) os t w = Some (b, t', w')"
  shows "\<exists>F'. tcp_ok e F' {} {} t' (view w')"
proof (cases "tt_fNeedToExit t")
  case True
  then show ?thesis using r ok by (auto simp: Run_round_def)
next
  case False
  obtain hr t1 w1 where s: "SetListenSocketsOnEpoll os (\<not> IsConnectionCountAtMax t) t w = (hr, t1, w1)" by (metis prod_cases3)
  obtain hrp ev t2 w2 where we: "wait_event os (GetTimeoutSeconds t) t1 w1 = (hrp, ev, t2, w2)" by (metis prod_cases4)
  have ok2: "tcp_ok e F {} {} t2 (view w2)" by (rule wait_event_ok [OF sys set_listen_ok [OF sys ok s] we])
  have R: "Run_round (en_hmac e) (en_md5 e) os t w =
    (if tt_fNeedToExit t2 \<or> pe_fd ev = tt_pipe0 t2 then Some (False, t2, w2)
     else do { (t, w) \<leftarrow> (if hrp = S_OK then handle_event (en_hmac e) (en_md5 e) os ev t2 w2 else Some (t2, w2));
               (t, w) \<leftarrow> SweepDeadConnections os t w; Some (True, t, w) })"
    using False by (simp add: Run_round_def s we)
  show ?thesis
  proof (cases "tt_fNeedToExit t2 \<or> pe_fd ev = tt_pipe0 t2")
    case True
    then show ?thesis using r ok2 unfolding R by auto
  next
    case f2: False
    obtain t3 w3 where h: "(if hrp = S_OK then handle_event (en_hmac e) (en_md5 e) os ev t2 w2 else Some (t2, w2)) = Some (t3, w3)"
      and sw: "SweepDeadConnections os t3 w3 = Some (t', w')"
      using r f2 unfolding R by (auto simp: bind_eq_Some_conv)
    obtain F3 where "tcp_ok e F3 {} {} t3 (view w3)"
      using h handle_ok [OF sys e ok2] ok2 by (auto split: if_splits)
    from sweep_ok [OF sys this] sw show ?thesis by auto
  qed
qed

lemma tcp_run_ok:
  assumes "tcp_run (en_hmac e) (en_md5 e) os t0 w0 s" and sys: "tcp_calls_ok os view" and e: "env_ok e"
    and ok: "tcp_ok e F0 {} {} t0 (view w0)"
  shows "\<exists>F. tcp_ok e F {} {} (fst (snd s)) (view (snd (snd s))) \<and> (fst s = Left \<longrightarrow> busy F (fst (snd s)) = {})"
  using assms(1)
proof induction
  case tcp_start
  then show ?case using ok_fields(2) [OF ok] by auto
next
  case (tcp_round t w t' w')
  then obtain F where "tcp_ok e F {} {} t (view w)" by auto
  from round_ok [OF sys e this tcp_round(2)] show ?case by simp
next
  case (tcp_leave t w t1 w1 t' w')
  then obtain F where "tcp_ok e F {} {} t (view w)" by auto
  from round_ok [OF sys e this tcp_leave(2)] obtain F1 where "tcp_ok e F1 {} {} t1 (view w1)" by blast
  from cleanup_ok [OF sys this] tcp_leave(3) show ?case by auto
next
  case (tcp_signal pc t w)
  then obtain F where "tcp_ok e F {} {} t (view w)" "pc = Left \<longrightarrow> busy F t = {}" by auto
  then show ?case using ok_fields(3) [of e F t "view w" True] by (intro exI [of _ F]) (simp add: busy_def)
qed

section \<open>The loops return\<close>

text \<open>
  The loops return. \<open>send\<close> moves on through the reply and \<open>recv\<close> through the request, so two of the three loops end by
  themselves. The third drops what a client sends after its request and ends when the client has sent all:
  that is the hypothesis \<open>quiesces\<close>.
\<close>

definition read_off :: "('w, 'x) tcp_os_scheme \<Rightarrow> int \<Rightarrow> 'w \<Rightarrow> 'w" where
  "read_off os fd w = snd (snd (os_recv os fd MAX_STUN_MESSAGE_SIZE w))"

definition quiesces :: "('w, 'x) tcp_os_scheme \<Rightarrow> int \<Rightarrow> bool" where
  "quiesces os fd \<longleftrightarrow> (\<forall>w. \<exists>k. fst (os_recv os fd MAX_STUN_MESSAGE_SIZE ((read_off os fd ^^ k) w)) \<le> 0)"

lemma consume_returns:
  assumes "quiesces os (sock_of t c)"
  shows "\<exists>r. consume_loop os c t w = Some r"
proof -
  let ?s = "sock_of t c"
  have "\<exists>r. consume_loop os c t w = Some r" if "fst (os_recv os ?s MAX_STUN_MESSAGE_SIZE ((read_off os ?s ^^ k) w)) \<le> 0" for k w
    using that
  proof (induction k arbitrary: w)
    case 0
    then show ?case
      by (subst consume_loop.simps) (simp add: CStunSocket_GetSocketHandle_def Let_def case_prod_beta del: split_paired_Ex)
  next
    case (Suc k)
    obtain ret data w1 where rv: "os_recv os ?s MAX_STUN_MESSAGE_SIZE w = (ret, data, w1)" by (metis prod_cases3)
    have "(read_off os ?s ^^ k) w1 = (read_off os ?s ^^ Suc k) w" by (simp add: funpow_swap1 read_off_def rv)
    then obtain r where "consume_loop os c t w1 = Some r" using Suc by force
    then show ?case
      by (subst consume_loop.simps) (simp add: CStunSocket_GetSocketHandle_def Let_def case_prod_beta rv del: split_paired_Ex)
  qed
  then show ?thesis using assms unfolding quiesces_def by blast
qed

lemma polling_conn: "on_polling f t w = (hr, t', w') \<Longrightarrow> conn t' = conn t \<and> length (pl_conns (tt_connectionpool t')) = length (pl_conns (tt_connectionpool t))"
  by (auto simp: on_polling_def split: option.splits prod.splits)

lemma finish_returns:
  assumes "c < length (pl_conns (tt_connectionpool t))" "quiesces os (sock_of t c)"
  shows "\<exists>r. finish_write os c (sock_of t c) t w = Some r"
proof -
  let ?t = "on_conn c (cn_state_update (\<lambda>_. ConnectionState_Closing)) t"
  obtain hr t1 w1 where p: "on_polling (Polling_ChangeEventSet os (sock_of t c) EPOLL_CLIENT_READ_EVENT_SET) ?t (os_shutdown os (sock_of t c) w) = (hr, t1, w1)"
    by (metis prod_cases3)
  have "sock_of t1 c = sock_of t c" using polling_conn [OF p] conn_on_conn [OF assms(1)] by simp
  then obtain r where "consume_loop os c t1 w1 = Some r" using consume_returns [of os t1 c w1] assms(2) by auto
  then show ?thesis by (cases r) (simp add: finish_write_def p ConsumeRemoteClose_def Let_def case_prod_beta del: split_paired_Ex)
qed

lemma write_returns:
  assumes sys: "tcp_calls_ok os view"
  shows "c < length (pl_conns (tt_connectionpool t)) \<Longrightarrow> quiesces os (sock_of t c) \<Longrightarrow> \<exists>r. write_loop os c t w = Some r"
proof (induction "length (output_bytes (conn t c)) - cn_txCount (conn t c)" arbitrary: t w rule: less_induct)
  case less
  let ?s = "sock_of t c" and ?data = "output_bytes (conn t c)" and ?tx = "cn_txCount (conn t c)"
  obtain sent w1 where sd: "os_send os ?s (drop ?tx ?data) w = (sent, w1)" by fastforce
  let ?t = "on_conn c (cn_txCount_update (\<lambda>n. n + nat sent)) t"
  have nth: "conn ?t c = (conn t c)\<lparr>cn_txCount := ?tx + nat sent\<rparr>" 
    unfolding conn_on_conn [OF less.prems(1)] if_P [OF refl] by (rule txCount_update)
  have more: "\<exists>r. (if length ?data \<le> cn_txCount (conn ?t c) then finish_write os c ?s ?t w1 else write_loop os c ?t w1) = Some r" if "0 < sent"
  proof (cases "length ?data \<le> ?tx + nat sent")
    case True
    have "\<exists>r. finish_write os c (sock_of ?t c) ?t w1 = Some r" using less.prems by (intro finish_returns) (simp_all add: nth)
    then show ?thesis using True by (simp add: nth)
  next
    case False
    then have "length (output_bytes (conn ?t c)) - cn_txCount (conn ?t c) < length ?data - ?tx" using that by (simp add: nth)
    from less.hyps [OF this] less.prems False show ?thesis by (simp add: nth)
  qed
  have loop: "write_loop os c t w =
     (if sent = -1 \<and> os_errno os w1 = EAGAIN then Some (S_OK, t, w1)
      else if sent = -1 then Some (E_FAIL, CloseConnection os (Some c) t w1)
      else if sent = 0 then Some (E_UNEXPECTED, CloseConnection os (Some c) t w1)
      else if length ?data \<le> cn_txCount (conn ?t c) then finish_write os c ?s ?t w1 else write_loop os c ?t w1)"
    by (subst write_loop.simps) (simp only: CStunSocket_GetSocketHandle_def sd Let_def split_beta prod.collapse fst_conv snd_conv)
  have "sent = -1 \<or> sent = 0 \<or> 0 < sent" using tcp_callsD(4) [OF sys sd] by linarith
  then show ?case
  proof (elim disjE)
    assume "0 < sent"
    then show ?thesis using more by (simp only: loop) simp
  qed (simp_all only: loop, simp_all)
qed

lemma start_returns:
  assumes sys: "tcp_calls_ok os view" and c: "c < length (pl_conns (tt_connectionpool t))" "quiesces os (sock_of t c)"
  shows "\<exists>r. start_write hmac md5 os c s t w = Some r"
proof -
  obtain hr t1 where a: "answer_request hmac md5 c t = (hr, t1)" by fastforce
  have t1: "length (pl_conns (tt_connectionpool t1)) = length (pl_conns (tt_connectionpool t))" "sock_of t1 c = sock_of t c"
    using a conn_on_conn [OF c(1)] c(1) by (auto simp: answer_request_def Let_def conn_on_conn split: prod.splits if_splits)
  obtain hr2 t2 w2 where p: "on_polling (Polling_ChangeEventSet os s EPOLL_CLIENT_WRITE_EVENT_SET) t1 w = (hr2, t2, w2)" by (metis prod_cases3)
  have "sock_of t2 c = sock_of t c" "c < length (pl_conns (tt_connectionpool t2))" using polling_conn [OF p] t1 c(1) by simp_all
  then obtain r where "write_loop os c t2 w2 = Some r" using write_returns [OF sys, of c t2 w2] c(2) by auto
  then show ?thesis by (cases r) (simp add: start_write_def a p WriteBytesForConnection_def Let_def case_prod_beta del: split_paired_Ex)
qed

lemma receive_returns:
  assumes sys: "tcp_calls_ok os view"
  shows "c < length (pl_conns (tt_connectionpool t)) \<Longrightarrow> quiesces os (sock_of t c) \<Longrightarrow> cell_ok (conn t c) \<Longrightarrow> reading req (conn t c) \<Longrightarrow>
    \<exists>r. receive_loop hmac md5 os c t w = Some r"
proof (induction "820 - length req" arbitrary: req t w rule: less_induct)
  case less
  let ?s = "sock_of t c" and ?cn = "conn t c" and ?need = "unat (HowManyBytesNeeded (cn_reader (conn t c)))"
  obtain ret data w1 where rv: "os_recv os ?s ?need w = (ret, data, w1)" by (metis prod_cases3)
  note v = tcp_callsD(3) [OF sys rv] and need = reading_needed [OF less.prems(4)]
  obtain st cn1 where fd: "feed_connection data (nat ret) ?cn = (st, cn1)" by fastforce
  let ?t = "on_conn c (\<lambda>_. cn1) t"
  have more: "\<exists>r. (if st = BodyValidated then start_write hmac md5 os c ?s ?t w1 else receive_loop hmac md5 os c ?t w1) = Some r"
    if ret: "0 < ret" and st: "st \<noteq> ParseError"
  proof -
    have len: "nat ret = length data" "length data \<le> ?need" "0 < length data" using v ret by (simp_all add: nat_le_iff del: uint_nat)
    note fo = feed_connection_ok [OF less.prems(4,3) len(2) fd [unfolded len(1)]]
    have nth: "conn ?t c = cn1" using conn_on_conn [OF less.prems(1)] by simp
    have sk: "sock_of ?t c = ?s" using fo(4) nth by auto
    show ?thesis
    proof (cases "st = BodyValidated")
      case True
      then show ?thesis using start_returns [OF sys, of c ?t] less.prems(1,2) sk by simp
    next
      case False
      have "spec_state True (req @ data) = HeaderNotRead \<or> spec_state True (req @ data) = HeaderValidated"
        using False st fo(1) by (cases st) simp_all
      note rd = fed_reading [OF fo(2) this]
      have "820 - length (req @ data) < 820 - length req" using len(3) need(1,3) by (cases data) simp_all
      from less.hyps [OF this, of ?t w1] rd less.prems(1,2) fo(3) sk False show ?thesis by (simp add: nth)
    qed
  qed
  have loop: "receive_loop hmac md5 os c t w =
     (if ret < 0 \<and> os_errno os w1 = EAGAIN then Some (S_OK, t, w1)
      else if ret \<le> 0 then Some (E_FAIL, CloseConnection os (Some c) t w1)
      else if st = ParseError then Some (E_FAIL, CloseConnection os (Some c) ?t w1)
      else if st = BodyValidated then start_write hmac md5 os c ?s ?t w1 else receive_loop hmac md5 os c ?t w1)"
    using need(1) by (subst receive_loop.simps)
      (simp only: CStunSocket_GetSocketHandle_def rv fd Let_def prod.case split_beta prod.collapse fst_conv snd_conv less_not_refl2 if_False)
  show ?case
  proof (cases "0 < ret \<and> st \<noteq> ParseError")
    case True
    then show ?thesis using more by (simp only: loop) simp
  qed (simp only: loop, force)
qed

section \<open>A round\<close>

lemma event_returns:
  assumes sys: "tcp_calls_ok os view" and ok: "tcp_ok e F {} {} t (view w)" and q: "\<forall>fd. quiesces os fd"
  shows "\<exists>r. ProcessConnectionEvent hmac md5 os s fl t w = Some r"
proof (cases "lookup_connection s t")
  case None
  then show ?thesis by (simp add: ProcessConnectionEvent_def)
next
  case (Some c)
  then have c: "c \<in> busy F t" using lookup_ok [OF ok] by blast
  have cl: "c < length (pl_conns (tt_connectionpool t))" "cell_ok (conn t c)"
    using busy_length [OF c] tcp_shapeD(4) [OF tcp_okD(1) [OF ok]] by simp_all
  have pr: "progress e (view w) (conn t c)" using tcp_okD(5) [OF ok c] by simp
  show ?thesis
  proof (cases "cn_state (conn t c)")
    case ConnectionState_Receiving
    then have "reading (vw_in (view w) (sock_of t c)) (conn t c)" using pr by (simp add: progress_def Let_def)
    then obtain r where "receive_loop hmac md5 os c t w = Some r" using receive_returns [OF sys cl(1) q [rule_format] cl(2)] by blast
    then show ?thesis using Some ConnectionState_Receiving by (simp add: ProcessConnectionEvent_def ReceiveBytesForConnection_def)
  next
    case ConnectionState_Transmitting
    obtain r where "write_loop os c t w = Some r" using write_returns [OF sys cl(1) q [rule_format]] by blast
    then show ?thesis using Some ConnectionState_Transmitting by (simp add: ProcessConnectionEvent_def WriteBytesForConnection_def)
  next
    case ConnectionState_Closing
    obtain r where "consume_loop os c t w = Some r" using consume_returns [OF q [rule_format]] by blast
    then show ?thesis using Some ConnectionState_Closing by (simp add: ProcessConnectionEvent_def ConsumeRemoteClose_def)
  next
    case ConnectionState_Idle
    then show ?thesis using Some by (simp add: ProcessConnectionEvent_def)
  qed
qed

lemma handle_returns:
  assumes sys: "tcp_calls_ok os view" and ok: "tcp_ok e F {} {} t (view w)" and q: "\<forall>fd. quiesces os fd"
  shows "\<exists>r. handle_event hmac md5 os ev t w = Some r"
proof (cases "GetListenSocket (pe_fd ev) t")
  case None
  then show ?thesis using event_returns [OF sys ok q] by (simp add: handle_event_def)
next
  case (Some sk)
  obtain pc t1 w1 where a: "AcceptConnection os sk t w = (pc, t1, w1)" by (metis prod_cases3)
  show ?thesis
  proof (cases pc)
    case None
    then show ?thesis using Some a by (simp add: handle_event_def)
  next
    case (Some c)
    from accept_ok [OF sys ok listen_role [OF tcp_okD(2) [OF ok] \<open>GetListenSocket (pe_fd ev) t = Some sk\<close>] a] Some
    obtain F1 where f: "tcp_ok e F1 {} {} t1 (view w1)" "c \<in> busy F1 t1" "cn_state (conn t1 c) = ConnectionState_Receiving" by auto
    have "c < length (pl_conns (tt_connectionpool t1))" "cell_ok (conn t1 c)" "reading (vw_in (view w1) (sock_of t1 c)) (conn t1 c)"
      using busy_length [OF f(2)] tcp_shapeD(4) [OF tcp_okD(1) [OF f(1)]] tcp_okD(5) [OF f(1,2)] f(3) by (simp_all add: progress_def Let_def)
    then obtain r where "receive_loop hmac md5 os c t1 w1 = Some r" 
      using receive_returns [OF sys _ q [rule_format]] by blast
    then show ?thesis using Some \<open>GetListenSocket (pe_fd ev) t = Some sk\<close> a by (simp add: handle_event_def ReceiveBytesForConnection_def)
  qed
qed

lemma round_returns:
  assumes sys: "tcp_calls_ok os view" and e: "env_ok e" and ok: "tcp_ok e F {} {} t (view w)" and q: "\<forall>fd. quiesces os fd"
  shows "\<exists>r. Run_round (en_hmac e) (en_md5 e) os t w = Some r"
proof (cases "tt_fNeedToExit t")
  case True
  then have "Run_round (en_hmac e) (en_md5 e) os t w = Some (False, t, w)" by (simp add: Run_round_def)
  then show ?thesis by blast
next
  case False
  obtain hr t1 w1 where s: "SetListenSocketsOnEpoll os (\<not> IsConnectionCountAtMax t) t w = (hr, t1, w1)" by (metis prod_cases3)
  obtain hrp ev t2 w2 where we: "wait_event os (GetTimeoutSeconds t) t1 w1 = (hrp, ev, t2, w2)" by (metis prod_cases4)
  have ok2: "tcp_ok e F {} {} t2 (view w2)" by (rule wait_event_ok [OF sys set_listen_ok [OF sys ok s] we])
  obtain t3 w3 where h: "(if hrp = S_OK then handle_event (en_hmac e) (en_md5 e) os ev t2 w2 else Some (t2, w2)) = Some (t3, w3)"
    using handle_returns [OF sys ok2 q, of "en_hmac e" "en_md5 e" ev] by (cases "hrp = S_OK") auto
  then obtain F3 where "tcp_ok e F3 {} {} t3 (view w3)" using handle_ok [OF sys e ok2] ok2 by (auto split: if_splits)
  from sweep_ok [OF sys this] obtain t4 w4 where "SweepDeadConnections os t3 w3 = Some (t4, w4)" by blast
  then show ?thesis using False h by (auto simp: Run_round_def s we)
qed

end
