(* ===== verification/TcpSetup.thy ===== *)
theory TcpSetup
  imports TcpRun
begin

text \<open>
  The life of a TCP thread: \<open>Init\<close> opens its descriptors or leaves none open, a successful \<open>Init\<close> establishes the invariant
  of the running thread, and \<open>Reset\<close> closes exactly the thread's own descriptors.
\<close>

section \<open>The system\<close>

text \<open>What the calls of the setup do to the set of open descriptors.\<close>

definition opens_fresh :: "('w \<Rightarrow> int set) \<Rightarrow> int set \<Rightarrow> 'w \<Rightarrow> 'w \<Rightarrow> bool" where
  "opens_fresh opens new w w' \<longleftrightarrow> -1 \<notin> new \<and> new \<inter> opens w = {} \<and> opens w' = new \<union> opens w"

definition setup_calls_ok :: "('w, 'x) tcp_os_scheme \<Rightarrow> ('w \<Rightarrow> int set) \<Rightarrow> bool" where
  "setup_calls_ok os opens \<longleftrightarrow>
     fds_ok os opens \<and>
     (\<forall>fd n w. opens (snd (os_listen os fd n w)) = opens w) \<and>
     (\<forall>fd w. opens (snd (os_getfl os fd w)) = opens w) \<and> (\<forall>fd fl w. opens (snd (os_setfl os fd fl w)) = opens w) \<and>
     (\<forall>ep op fd ev w. opens (snd (os_epoll_ctl os ep op fd ev w)) = opens w) \<and>
     (\<forall>w r p0 p1 w'. os_pipe os w = (r, p0, p1, w') \<longrightarrow>
        (if r = -1 then opens w' = opens w else opens_fresh opens {p0, p1} w w')) \<and>
     (\<forall>n w fd w'. os_epoll_create os n w = (fd, w') \<longrightarrow>
        (if fd = -1 then opens w' = opens w else opens_fresh opens {fd} w w')) \<and>
     (\<forall>fd bs w. opens (snd (os_write os fd bs w)) = opens w)"

lemma setup_callsD:
  assumes "setup_calls_ok os opens"
  shows "fds_ok os opens" "opens (snd (os_listen os fd n w)) = opens w" "opens (snd (os_getfl os fd w)) = opens w"
    "opens (snd (os_setfl os fd fl w)) = opens w" "opens (snd (os_epoll_ctl os ep op fd ev w)) = opens w"
    "os_pipe os w = (r, p0, p1, w') \<Longrightarrow> if r = -1 then opens w' = opens w else opens_fresh opens {p0, p1} w w'"
    "os_epoll_create os m w = (fd', w') \<Longrightarrow> if fd' = -1 then opens w' = opens w else opens_fresh opens {fd'} w w'"
    "opens (snd (os_write os fd bs w)) = opens w"
proof -
  note r = assms [unfolded setup_calls_ok_def]
  show "fds_ok os opens" by (rule r [THEN conjunct1])
  note r = r [THEN conjunct2]
  show "opens (snd (os_listen os fd n w)) = opens w" using r [THEN conjunct1] by (elim allE)
  note r = r [THEN conjunct2]
  show "opens (snd (os_getfl os fd w)) = opens w" using r [THEN conjunct1] by (elim allE)
  note r = r [THEN conjunct2]
  show "opens (snd (os_setfl os fd fl w)) = opens w" using r [THEN conjunct1] by (elim allE)
  note r = r [THEN conjunct2]
  show "opens (snd (os_epoll_ctl os ep op fd ev w)) = opens w" using r [THEN conjunct1] by (elim allE)
  note r = r [THEN conjunct2]
  show "os_pipe os w = (r, p0, p1, w') \<Longrightarrow> if r = -1 then opens w' = opens w else opens_fresh opens {p0, p1} w w'"
    using r [THEN conjunct1] by (elim allE impE)
  note r = r [THEN conjunct2]
  show "os_epoll_create os m w = (fd', w') \<Longrightarrow> if fd' = -1 then opens w' = opens w else opens_fresh opens {fd'} w w'"
    using r [THEN conjunct1] by (elim allE impE)
  show "opens (snd (os_write os fd bs w)) = opens w" using r [THEN conjunct2] by (elim allE)
qed

section \<open>Closing everything\<close>

lemma close_listen_eq: "close_listen os sks w = close_sockets os sks w"
  by (induction sks arbitrary: w) (simp_all add: Let_def split: prod.split)

text \<open>The free objects of a pool have no descriptor.\<close>

definition idle_pool :: "pool \<Rightarrow> bool" where
  "idle_pool pl \<longleftrightarrow> (\<exists>F. chain (pl_conns pl) (pl_freelist pl) F \<and> distinct F \<and> (\<forall>c \<in> set F. sk_sock (cn_stunsocket (pl_conns pl ! c)) = -1))"

lemma chain_sockets: "chain cns p F \<Longrightarrow> length cns' = length cns \<Longrightarrow> (\<And>c. cn_pNext (cns' ! c) = cn_pNext (cns ! c)) \<Longrightarrow> chain cns' p F"
  by (induction cns p F rule: chain.induct) auto

lemma pool_Reset_world:
  assumes "idle_pool pl"
  shows "snd (pool_Reset os pl w) = w"
proof -
  have "snd (pool_Reset_loop os n pl w) = w"
    if "chain (pl_conns pl) (pl_freelist pl) F" "distinct F" "\<forall>c \<in> set F. sk_sock (cn_stunsocket (pl_conns pl ! c)) = -1" for n F pl
    using that
  proof (induction n arbitrary: pl F)
    case (Suc n)
    show ?case
    proof (cases "pl_freelist pl")
      case (Some c)
      then obtain F' where f: "F = c # F'" "c < length (pl_conns pl)" "chain (pl_conns pl) (cn_pNext (pl_conns pl ! c)) F'"
        using chain_Some Suc.prems(1) by metis
      have sk: "CStunSocket_Close os (cn_stunsocket (pl_conns pl ! c)) w = (CStunSocket_Reset (cn_stunsocket (pl_conns pl ! c)), w)"
        using Suc.prems(3) f(1) by (simp add: CStunSocket_Close_def)
      let ?pl = "pool_update c (cn_stunsocket_update (\<lambda>_. CStunSocket_Reset (cn_stunsocket (pl_conns pl ! c)))) (pl\<lparr>pl_freelist := cn_pNext (pl_conns pl ! c)\<rparr>)"
      have c: "chain (pl_conns ?pl) (pl_freelist ?pl) F'"
        using chain_update [OF f(3)] Suc.prems(2) by (simp add: pool_update_def f(1))
      have "\<forall>d \<in> set F'. sk_sock (cn_stunsocket (pl_conns ?pl ! d)) = -1"
      proof
        fix d assume "d \<in> set F'"
        then show "sk_sock (cn_stunsocket (pl_conns ?pl ! d)) = -1" using Suc.prems(2,3) f(1) by (cases "d = c") (simp_all add: pool_update_def)
      qed
      then have "snd (pool_Reset_loop os n ?pl w) = w" using Suc.IH [OF c] Suc.prems(2) f(1) by simp
      then show ?thesis using Some sk by (simp add: Let_def)
    qed simp
  qed simp
  then show ?thesis using assms unfolding idle_pool_def pool_Reset_def by blast
qed

lemma Reset_fds:
  assumes sys: "setup_calls_ok os opens" and pl: "idle_pool (tt_connectionpool t)" and r: "tcp_Reset os t w = (t', w')"
  shows "opens w' = opens w - thread_fds t"
proof -
  note cl = fds_okD(1) [OF setup_callsD(1) [OF sys]]
  obtain t1 w1 where a: "release_polling os t w = (t1, w1)" by fastforce
  have o1: "opens w1 = opens w - (polling_fds (tt_spPolling t) - {-1})" "t1 = t\<lparr>tt_spPolling := None\<rparr>"
  proof -
    have "opens w1 = opens w - (polling_fds (tt_spPolling t) - {-1}) \<and> t1 = t\<lparr>tt_spPolling := None\<rparr>"
    proof (cases "tt_spPolling t")
      case None
      then have "t\<lparr>tt_spPolling := None\<rparr> = t" by simp
      then show ?thesis using None a by (simp add: release_polling_def polling_fds_def)
    next
      case (Some p)
      then show ?thesis using a cl
        by (cases p) (auto simp: release_polling_def polling_fds_def CEpoll_Close_def CPoll_Close_def on_epoll_def on_cpoll_def Let_def split: if_splits)
    qed
    then show "opens w1 = opens w - (polling_fds (tt_spPolling t) - {-1})" "t1 = t\<lparr>tt_spPolling := None\<rparr>" by simp_all
  qed
  obtain sks w2 where b: "close_listen os (tt_socketListenArray t1) w1 = (sks, w2)" by fastforce
  have o2: "opens w2 = opens w1 - owned (tt_socketListenArray t)"
    using close_sockets_ok [OF setup_callsD(1) [OF sys], of "tt_socketListenArray t1" w1 sks w2] b o1(2) by (simp add: close_listen_eq)
  let ?t2 = "t1\<lparr>tt_socketListenArray := sks, tt_socketTable := replicate 4 (-1), tt_countSocks := 0\<rparr>"
  obtain t3 w3 where c: "ClosePipes os ?t2 w2 = (t3, w3)" by fastforce
  have o3: "opens w3 = opens w2 - ({tt_pipe0 t, tt_pipe1 t} - {-1})" "tt_connectionpool t3 = tt_connectionpool t"
    using c cl o1(2) by (auto simp: ClosePipes_def Let_def split: if_splits)
  obtain pl4 w4 where d: "pool_Reset os (tt_connectionpool t3) w3 = (pl4, w4)" by fastforce
  have o4: "w4 = w3" using pool_Reset_world [OF pl, of os w3] d o3(2) by simp
  have "w' = w4" using r a b c d by (simp add: tcp_Reset_def CloseListenSockets_def)
  then show ?thesis using o1(1) o2 o3(1) o4 by (auto simp: thread_fds_def owned_def CStunSocket_IsValid_def)
qed


section \<open>Opening\<close>

text \<open>Between the steps of \<open>Init\<close>: the thread owns some descriptors beside the \<open>B\<close> that were open before.\<close>

definition holds_own :: "('w \<Rightarrow> int set) \<Rightarrow> int set \<Rightarrow> tcp_thread \<Rightarrow> 'w \<Rightarrow> bool" where
  "holds_own opens B t w \<longleftrightarrow> opens w = B \<union> thread_fds t \<and> B \<inter> thread_fds t = {} \<and> length (tt_socketListenArray t) = 4 \<and> length (tt_socketTable t) = 4"

text \<open>What the steps before leave untouched.\<close>

definition setup_same :: "tcp_thread \<Rightarrow> tcp_thread \<Rightarrow> bool" where
  "setup_same t t' \<longleftrightarrow>
     tt_connectionpool t' = tt_connectionpool t \<and> tt_hashConnections1 t' = tt_hashConnections1 t \<and> tt_hashConnections2 t' = tt_hashConnections2 t \<and>
     tt_tsa t' = tt_tsa t \<and> tt_spAuth t' = tt_spAuth t \<and> tt_maxConnections t' = tt_maxConnections t \<and> tt_tsaListen t' = tt_tsaListen t"

lemma setup_same_trans: "setup_same t1 t2 \<Longrightarrow> setup_same t2 t3 \<Longrightarrow> setup_same t1 t3"
  by (simp add: setup_same_def)

text \<open>A listening socket is open in its role and listed, or the role is not used.\<close>

definition listens :: "tcp_thread \<Rightarrow> nat \<Rightarrow> bool" where
  "listens t r \<longleftrightarrow>
     (if ta_fValid (tt_tsaListen t ! r)
      then CStunSocket_IsValid (tt_socketListenArray t ! r) \<and> sk_role (tt_socketListenArray t ! r) = of_nat r \<and>
        tt_socketTable t ! r = sk_sock (tt_socketListenArray t ! r)
      else tt_socketTable t ! r = -1)"

lemma listens_fields [simp]:
  "listens (t\<lparr>tt_fListenSocketsOnEpoll := b\<rparr>) r = listens t r" "listens (t\<lparr>tt_spPolling := p\<rparr>) r = listens t r"
  "listens (t\<lparr>tt_pipe0 := i\<rparr>) r = listens t r" "listens (t\<lparr>tt_pipe1 := i\<rparr>) r = listens t r"
  by (simp_all add: listens_def)

lemma owned_nth: "r < length arr \<Longrightarrow> CStunSocket_IsValid (arr ! r) \<Longrightarrow> sk_sock (arr ! r) \<in> owned arr"
  by (auto simp: owned_def)

lemma create_listen_ok:
  assumes sys: "setup_calls_ok os opens"
  shows "holds_own opens B t w \<Longrightarrow> \<forall>r \<in> set rs. r < 4 \<and> \<not> CStunSocket_IsValid (tt_socketListenArray t ! r) \<Longrightarrow> distinct rs \<Longrightarrow>
    create_listen os rs t w = (hr, t', w') \<Longrightarrow>
    holds_own opens B t' w' \<and> setup_same t t' \<and> tt_spPolling t' = tt_spPolling t \<and> tt_pipe0 t' = tt_pipe0 t \<and> tt_pipe1 t' = tt_pipe1 t \<and>
    tt_fListenSocketsOnEpoll t' = tt_fListenSocketsOnEpoll t \<and>
    (SUCCEEDED hr \<longrightarrow> (\<forall>r \<in> set rs. listens t' r) \<and>
       (\<forall>r. r \<notin> set rs \<longrightarrow> tt_socketListenArray t' ! r = tt_socketListenArray t ! r \<and> tt_socketTable t' ! r = tt_socketTable t ! r))"
proof (induction rs arbitrary: t w)
  case Nil
  then show ?case by (simp add: setup_same_def)
next
  case (Cons r rs)
  have r: "r < 4" "\<not> CStunSocket_IsValid (tt_socketListenArray t ! r)" "r \<notin> set rs" "distinct rs" using Cons.prems(2,3) by simp_all
  have len: "length (tt_socketListenArray t) = 4" "length (tt_socketTable t) = 4" using Cons.prems(1) by (simp_all add: holds_own_def)
  show ?case
  proof (cases "ta_fValid (tt_tsaListen t ! r)")
    case False
    let ?t = "t\<lparr>tt_socketTable := (tt_socketTable t)[r := -1]\<rparr>"
    have h: "holds_own opens B ?t w" using Cons.prems(1) by (simp add: holds_own_def thread_fds_def)
    have "create_listen os rs ?t w = (hr, t', w')" using Cons.prems(4) False by simp
    from Cons.IH [OF h _ r(4) this] Cons.prems(2) r(3) len r(1) False show ?thesis
      by (auto simp: setup_same_def listens_def)
  next
    case True
    obtain hr1 sk w1 where ti: "TCPInit os (ta_addr (tt_tsaListen t ! r)) (of_nat r) True (tt_socketListenArray t ! r) w = (hr1, sk, w1)"
      by (metis prod_cases3)
    note io = InitCommon_ok [OF setup_callsD(1) [OF sys] r(2) ti [unfolded TCPInit_def]]
    let ?t1 = "t\<lparr>tt_socketListenArray := (tt_socketListenArray t)[r := sk]\<rparr>"
    note ow = owned_update [of r "tt_socketListenArray t" sk, OF _ r(2)]
    show ?thesis
    proof (cases "FAILED hr1")
      case f: True
      then have "sk = tt_socketListenArray t ! r" "opens w1 = opens w" using io by auto
      then have e: "?t1 = t" by simp
      have "(hr, t', w') = (hr1, t, w1)" using Cons.prems(4) True f by (simp add: ti e)
      then show ?thesis using Cons.prems(1) f \<open>opens w1 = opens w\<close> by (simp add: holds_own_def setup_same_def)
    next
      case f: False
      then have s: "CStunSocket_IsValid sk" "sk_role sk = of_nat r" "sk_sock sk \<notin> opens w" "opens w1 = insert (sk_sock sk) (opens w)"
        using io by auto
      let ?t2 = "?t1\<lparr>tt_socketTable := (tt_socketTable t)[r := sk_sock sk]\<rparr>"
      obtain hr2 w2 where nb: "SetNonBlocking os True sk w1 = (hr2, w2)" by fastforce
      have "opens (snd (SetNonBlocking os True sk w1)) = opens w1"
        by (simp add: SetNonBlocking_def Let_def split_beta setup_callsD(3,4) [OF sys])
      then have o2: "opens w2 = opens w1" by (simp add: nb)
      have "thread_fds ?t2 = insert (sk_sock sk) (thread_fds t)"
        using s(1) ow len r(1) by (auto simp: thread_fds_def CStunSocket_IsValid_def)
      moreover have "sk_sock sk \<notin> B \<union> thread_fds t" using Cons.prems(1) s(3) by (simp add: holds_own_def)
      ultimately have h2: "holds_own opens B ?t2 x" if "opens x = opens w1" for x
        using Cons.prems(1) s(3,4) that len by (auto simp: holds_own_def)
      obtain ret w3 where ln: "os_listen os (sk_sock sk) 128 w2 = (ret, w3)" by fastforce
      have o3: "opens w3 = opens w1" using setup_callsD(2) [OF sys, of "sk_sock sk" 128 w2] ln o2 by simp
      let ?t3 = "?t2\<lparr>tt_countSocks := tt_countSocks t + 1\<rparr>"
      have h3: "holds_own opens B ?t3 w3" using h2 [OF o3] by (simp add: holds_own_def thread_fds_def)
      have T: "(hr, t', w') = (if FAILED hr2 then (hr2, ?t2, w2) else if ret = -1 then (ERRNOHR (os_errno os w3), ?t2, w3) else create_listen os rs ?t3 w3)"
        using Cons.prems(4) True f len r(1) by (auto simp: ti CStunSocket_GetSocketHandle_def nb ln Let_def)
      show ?thesis
      proof (cases "FAILED hr2 \<or> ret = -1")
        case True
        then show ?thesis using T h2 o2 o3 by (auto simp: setup_same_def split: if_splits)
      next
        case False
        then have "create_listen os rs ?t3 w3 = (hr, t', w')" using T by simp
        moreover have "\<forall>q \<in> set rs. q < 4 \<and> \<not> CStunSocket_IsValid (tt_socketListenArray ?t3 ! q)"
        proof
          fix q assume "q \<in> set rs"
          then show "q < 4 \<and> \<not> CStunSocket_IsValid (tt_socketListenArray ?t3 ! q)" using Cons.prems(2) r(3) by (cases "q = r") simp_all
        qed
        ultimately have ih: "holds_own opens B t' w'" "setup_same ?t3 t'" "tt_spPolling t' = tt_spPolling t" "tt_pipe0 t' = tt_pipe0 t"
          "tt_pipe1 t' = tt_pipe1 t" "tt_fListenSocketsOnEpoll t' = tt_fListenSocketsOnEpoll t"
          "SUCCEEDED hr \<longrightarrow> (\<forall>r \<in> set rs. listens t' r) \<and>
             (\<forall>q. q \<notin> set rs \<longrightarrow> tt_socketListenArray t' ! q = tt_socketListenArray ?t3 ! q \<and> tt_socketTable t' ! q = tt_socketTable ?t3 ! q)"
          using Cons.IH [OF h3 _ r(4)] by simp_all
        have same: "setup_same t t'" using ih(2) by (simp add: setup_same_def)
        have "listens t' r" if "SUCCEEDED hr" using ih(2,7) that r(1,3) len s(1,2) True by (simp add: listens_def setup_same_def)
        then show ?thesis using ih same r(3) by auto
      qed
    qed
  qed
qed


section \<open>Init\<close>

lemma add_setup:
  assumes sys: "setup_calls_ok os opens" and p: "tt_spPolling t = Some (CEpollObject p)"
    and a: "on_polling (Polling_Add os fd ev) t w = (hr, t', w')"
  shows "t' = t" "opens w' = opens w" "SUCCEEDED hr \<Longrightarrow> ep_epollfd p \<noteq> -1"
proof -
  let ?x = "\<lparr>ee_fd = fd, ee_events = CEpoll_ToNativeFlags ev\<rparr>"
  obtain hr1 p1 w1 where c: "epoll_control os EPOLL_CTL_ADD fd ?x p w = (hr1, p1, w1)" by (metis prod_cases3)
  have e: "hr = hr1" "w' = w1" "t' = t\<lparr>tt_spPolling := Some (CEpollObject p1)\<rparr>"
    using a c by (simp_all add: on_polling_def p CEpoll_Add_def on_epoll_def)
  obtain ret w2 where o: "os_epoll_ctl os (ep_epollfd p) EPOLL_CTL_ADD fd ?x w = (ret, w2)" by fastforce
  have "opens w2 = opens w" using setup_callsD(5) [OF sys, of "ep_epollfd p" EPOLL_CTL_ADD fd ?x w] o by simp
  then have "p1 = p \<and> opens w1 = opens w \<and> (SUCCEEDED hr1 \<longrightarrow> ep_epollfd p \<noteq> -1)"
    using c o by (auto simp: epoll_control_def split: if_splits)
  moreover have "t\<lparr>tt_spPolling := Some (CEpollObject p)\<rparr> = t" using p by simp
  ultimately show "t' = t" "opens w' = opens w" "SUCCEEDED hr \<Longrightarrow> ep_epollfd p \<noteq> -1" by (simp_all add: e)
qed

lemma watch_setup:
  assumes sys: "setup_calls_ok os opens" and p: "tt_spPolling t = Some (CEpollObject p)"
  shows "watch_listen os True roles t w = (hr, t', w') \<Longrightarrow> t' = t \<and> opens w' = opens w \<and>
    (SUCCEEDED hr \<longrightarrow> (\<exists>r \<in> set roles. tt_socketTable t ! r \<noteq> -1) \<longrightarrow> ep_epollfd p \<noteq> -1)"
proof (induction roles arbitrary: w)
  case (Cons r roles)
  show ?case
  proof (cases "tt_socketTable t ! r = -1")
    case True
    then show ?thesis using Cons by simp
  next
    case False
    obtain hr1 t1 w1 where a: "on_polling (Polling_Add os (tt_socketTable t ! r) EPOLL_LISTEN_SOCKET_EVENT_SET) t w = (hr1, t1, w1)"
      by (metis prod_cases3)
    note as = add_setup [OF sys p a]
    show ?thesis using Cons.prems Cons.IH [of w1] a as False by (auto split: if_splits)
  qed
qed simp

text \<open>A thread that opened nothing yet, and one that \<open>Init\<close> is working on.\<close>

definition fresh_tcp_thread :: "tcp_thread \<Rightarrow> bool" where
  "fresh_tcp_thread t \<longleftrightarrow>
     tt_pipe0 t = -1 \<and> tt_pipe1 t = -1 \<and> tt_spPolling t = None \<and> length (tt_socketListenArray t) = 4 \<and> length (tt_socketTable t) = 4 \<and>
     (\<forall>r < 4. \<not> CStunSocket_IsValid (tt_socketListenArray t ! r)) \<and> tt_connectionpool t = CConnectionPool_new \<and>
     \<not> tt_fListenSocketsOnEpoll t \<and> \<not> tt_fThreadIsValid t"

definition staged ::
  "('w \<Rightarrow> int set) \<Rightarrow> int set \<Rightarrow> TransportAddressSet \<Rightarrow> TransportAddressSet \<Rightarrow> IStunAuth option \<Rightarrow> tcp_thread \<Rightarrow> 'w \<Rightarrow> bool" where
  "staged opens B tsaListen tsaHandler pAuth t w \<longleftrightarrow>
     holds_own opens B t w \<and> tt_connectionpool t = CConnectionPool_new \<and> tt_tsaListen t = tsaListen \<and> tt_tsa t = tsaHandler \<and>
     tt_spAuth t = pAuth \<and> 0 < tt_maxConnections t"

text \<open>What a successful \<open>Init\<close> leaves.\<close>

definition tcp_started :: "tcp_thread \<Rightarrow> bool" where
  "tcp_started t \<longleftrightarrow>
     (\<forall>r < 4. listens t r) \<and> (\<exists>p. tt_spPolling t = Some (CEpollObject p) \<and> ep_epollfd p \<noteq> -1) \<and>
     tt_pNewConnList t = Table1 \<and> tt_pOldConnList t = Table2 \<and> \<not> tt_fNeedToExit t \<and> tt_pipe0 t \<noteq> -1 \<and>
     (\<forall>p. fh_unique FastHash_Hash_signed (conn_table p t) \<and> conn_view p t = Map.empty \<and>
       fh_fsize (conn_table p t) = nat (tt_maxConnections t))"

lemma init_tables_ok:
  assumes m: "0 < tt_maxConnections t" and i: "init_tables t w = (hr, t', w')"
  shows "hr = S_OK" "w' = w" "thread_fds t' = thread_fds t" "tt_pNewConnList t' = Table1" "tt_pOldConnList t' = Table2" "\<not> tt_fNeedToExit t'"
    "fh_unique FastHash_Hash_signed (conn_table p t') \<and> conn_view p t' = Map.empty \<and> fh_fsize (conn_table p t') = nat (tt_maxConnections t')"
    "listens t' r = listens t r" "tt_spPolling t' = tt_spPolling t" "tt_pipe0 t' = tt_pipe0 t"
    "staged opens B L H au t w \<Longrightarrow> staged opens B L H au t' w'"
proof -
  let ?n = "nat (tt_maxConnections t)"
  have n: "0 < ?n" using m by simp
  obtain r1 h1 r2 h2 where h: "InitTable ?n 0 (tt_hashConnections1 t) = (r1, h1)" "InitTable ?n 0 (tt_hashConnections2 t) = (r2, h2)" by fastforce
  note o1 = InitTable_ok [OF n, where tsize = 0 and t = "tt_hashConnections1 t", unfolded h(1)]
    and o2 = InitTable_ok [OF n, where tsize = 0 and t = "tt_hashConnections2 t", unfolded h(2)]
  have e: "hr = S_OK" "w' = w" "t' = t\<lparr>tt_hashConnections1 := h1, tt_hashConnections2 := h2, tt_pNewConnList := Table1, tt_pOldConnList := Table2,
      tt_fNeedToExit := False\<rparr>"
    using i h o1(1) o2(1) by (simp_all add: init_tables_def)
  show "hr = S_OK" "w' = w" "thread_fds t' = thread_fds t" "tt_pNewConnList t' = Table1" "tt_pOldConnList t' = Table2" "\<not> tt_fNeedToExit t'"
    "listens t' r = listens t r" "tt_spPolling t' = tt_spPolling t" "tt_pipe0 t' = tt_pipe0 t"
    by (simp_all add: e thread_fds_def listens_def)
  show "fh_unique FastHash_Hash_signed (conn_table p t') \<and> conn_view p t' = Map.empty \<and> fh_fsize (conn_table p t') = nat (tt_maxConnections t')"
    using o1(2,3,5) o2(2,3,5) by (cases p) (simp_all add: e)
  show "staged opens B L H au t w \<Longrightarrow> staged opens B L H au t' w'" by (simp add: staged_def e holds_own_def thread_fds_def)
qed


lemma then_chkE:
  assumes "then_chk x rest = (hr, t, w)"
  obtains (failed) "x = (hr, t, w)" "FAILED hr"
    | (more) h1 t1 w1 where "x = (h1, t1, w1)" "SUCCEEDED h1" "rest t1 w1 = (hr, t, w)"
proof -
  obtain h1 t1 w1 where x: "x = (h1, t1, w1)" by (metis prod_cases3)
  show thesis using assms that x by (cases "FAILED h1") (simp_all add: then_chk_def)
qed

lemma polling_created:
  assumes sys: "setup_calls_ok os opens" and p: "tt_spPolling t = None" and c: "create_polling os t w = (hr, t', w')"
    and h: "holds_own opens B t w"
  shows "SUCCEEDED hr" "\<exists>p. tt_spPolling t' = Some (CEpollObject p) \<and> t' = t\<lparr>tt_spPolling := Some (CEpollObject p)\<rparr>" "holds_own opens B t' w'"
proof -
  let ?n = "nat (tt_maxConnections t + 5)"
  obtain fd w1 where o: "os_epoll_create os ?n w = (fd, w1)" by fastforce
  note oc = setup_callsD(7) [OF sys o]
  define p where "p = (if fd = -1 then CEpoll_new else \<lparr>ep_epollfd = fd, ep_events = replicate ?n \<lparr>ee_fd = 0, ee_events = 0\<rparr>,
    ep_sizeEvents = ?n, ep_pendingCount = 0, ep_currentEventIndex = 0\<rparr>)"
  have i: "CEpoll_Initialize os ?n CEpoll_new w = (S_OK, p, w1)"
    by (simp add: CEpoll_Initialize_def CEpoll_Close_def CEpoll_new_def o p_def)
  then have e: "hr = S_OK" "t' = t\<lparr>tt_spPolling := Some (CEpollObject p)\<rparr>" "w' = w1"
    using c by (simp_all add: create_polling_def CreatePollingInstance_def IPOLLING_TYPE_BEST_def)
  show "SUCCEEDED hr" "\<exists>p. tt_spPolling t' = Some (CEpollObject p) \<and> t' = t\<lparr>tt_spPolling := Some (CEpollObject p)\<rparr>" using e by auto
  have "thread_fds t' = (if fd = -1 then thread_fds t else insert fd (thread_fds t))"
    using \<open>tt_spPolling t = None\<close> by (auto simp: e thread_fds_def polling_fds_def p_def CEpoll_new_def)
  then show "holds_own opens B t' w'" using h oc by (auto simp: holds_own_def e opens_fresh_def split: if_splits)
qed

lemma pipes_created:
  assumes sys: "setup_calls_ok os opens" and p: "tt_pipe0 t = -1" "tt_pipe1 t = -1" and c: "CreatePipes os t w = (hr, t', w')"
    and h: "holds_own opens B t w"
  shows "SUCCEEDED hr \<Longrightarrow> tt_pipe0 t' \<noteq> -1" "\<exists>a b. t' = t\<lparr>tt_pipe0 := a, tt_pipe1 := b\<rparr>" "holds_own opens B t' w'"
proof -
  obtain r p0 p1 w1 where o: "os_pipe os w = (r, p0, p1, w1)" by (metis prod_cases4)
  note oc = setup_callsD(6) [OF sys o]
  have "(SUCCEEDED hr \<longrightarrow> tt_pipe0 t' \<noteq> -1) \<and> (\<exists>a b. t' = t\<lparr>tt_pipe0 := a, tt_pipe1 := b\<rparr>) \<and> holds_own opens B t' w'"
  proof (cases "r = -1")
    case True
    then have e: "t' = t" "w' = w1" "FAILED hr" using c by (auto simp: CreatePipes_def o)
    have "t = t\<lparr>tt_pipe0 := tt_pipe0 t, tt_pipe1 := tt_pipe1 t\<rparr>" by (cases t) simp
    then have "\<exists>a b. t = t\<lparr>tt_pipe0 := a, tt_pipe1 := b\<rparr>" by blast
    moreover have "holds_own opens B t w1" using h oc True by (simp add: holds_own_def)
    ultimately show ?thesis using e(3) unfolding e(1,2) by simp
  next
    case False
    then have e: "t' = t\<lparr>tt_pipe0 := p0, tt_pipe1 := p1\<rparr>" "w' = w1" using c by (auto simp: CreatePipes_def o)
    have "thread_fds t' = {p0, p1} \<union> thread_fds t" using p oc False by (auto simp: e thread_fds_def opens_fresh_def)
    then have "holds_own opens B t' w'" using h oc False by (auto simp: e holds_own_def opens_fresh_def)
    moreover have "tt_pipe0 t' \<noteq> -1" using oc False by (auto simp: e opens_fresh_def)
    ultimately show ?thesis using e(1) by blast
  qed
  then show "SUCCEEDED hr \<Longrightarrow> tt_pipe0 t' \<noteq> -1" "\<exists>a b. t' = t\<lparr>tt_pipe0 := a, tt_pipe1 := b\<rparr>" "holds_own opens B t' w'" by simp_all
qed


text \<open>From the polling object on.\<close>

lemma watched_steps:
  assumes sys: "setup_calls_ok os opens" and st: "staged opens B L H au t w" and ls: "\<forall>r < 4. listens t r"
    and fr: "tt_spPolling t = None" "\<not> tt_fListenSocketsOnEpoll t" "tt_pipe0 t \<noteq> -1" and some: "valid_count L \<noteq> 0"
    and i: "then_chk (create_polling os t w) (\<lambda>t w. then_chk (SetListenSocketsOnEpoll os True t w) (\<lambda>t w.
      then_chk (on_polling (Polling_Add os (tt_pipe0 t) EPOLL_PIPE_EVENT_SET) t w) init_tables)) = (hr, t', w')"
  shows "staged opens B L H au t' w' \<and> (SUCCEEDED hr \<longrightarrow> tcp_started t')"
proof -
  obtain h4 t4 w4 where q: "create_polling os t w = (h4, t4, w4)" by (metis prod_cases3)
  have h: "holds_own opens B t w" using st by (simp add: staged_def)
  note qo = polling_created [OF sys fr(1) q h]
  obtain ep where ep: "tt_spPolling t4 = Some (CEpollObject ep)" "t4 = t\<lparr>tt_spPolling := Some (CEpollObject ep)\<rparr>" using qo(2) by blast
  have st4: "staged opens B L H au t4 w4" using st qo(3) unfolding staged_def by (simp add: ep(2))
  have f4: "\<forall>r < 4. listens t4 r" "\<not> tt_fListenSocketsOnEpoll t4" "tt_pipe0 t4 \<noteq> -1" using ls fr(2,3) by (simp_all add: ep(2) listens_def)
  obtain h5 t5 w5 where s: "watch_listen os True [0 ..< 4] t4 w4 = (h5, t5, w5)" by (metis prod_cases3)
  note so = watch_setup [OF sys ep(1) s]
  let ?t5 = "t4\<lparr>tt_fListenSocketsOnEpoll := True\<rparr>"
  have S: "SetListenSocketsOnEpoll os True t4 w4 = (if FAILED h5 then (h5, t4, w5) else (h5, ?t5, w5))"
    using f4(2) so by (simp add: SetListenSocketsOnEpoll_def s)
  have st5: "staged opens B L H au t4 w5" "staged opens B L H au ?t5 w5" using st4 so by (simp_all add: staged_def holds_own_def thread_fds_def)
  have "then_chk (SetListenSocketsOnEpoll os True t4 w4) (\<lambda>t w.
      then_chk (on_polling (Polling_Add os (tt_pipe0 t) EPOLL_PIPE_EVENT_SET) t w) init_tables) = (hr, t', w')"
    using i qo(1) by (simp add: q then_chk_def)
  then show ?thesis
  proof (cases rule: then_chkE)
    case failed
    then show ?thesis using st5 S by (auto split: if_splits)
  next
    case (more x5 y5 z5)
    then have s5: "SUCCEEDED h5" "then_chk (on_polling (Polling_Add os (tt_pipe0 ?t5) EPOLL_PIPE_EVENT_SET) ?t5 w5) init_tables = (hr, t', w')"
      using S by (auto split: if_splits)
    obtain r where r: "r < 4" "ta_fValid (tt_tsaListen t4 ! r)"
      using some st4 by (auto simp: valid_count_def staged_def filter_empty_conv)
    then have "tt_socketTable t4 ! r \<noteq> -1" "r \<in> set [0 ..< 4]" using f4(1) by (auto simp: listens_def CStunSocket_IsValid_def)
    then have live: "ep_epollfd ep \<noteq> -1" using so s5(1) by blast
    obtain h6 t6 w6 where ad: "on_polling (Polling_Add os (tt_pipe0 ?t5) EPOLL_PIPE_EVENT_SET) ?t5 w5 = (h6, t6, w6)" by (metis prod_cases3)
    have ep5: "tt_spPolling ?t5 = Some (CEpollObject ep)" using ep(1) by simp
    note ao = add_setup [OF sys ep5 ad]
    have st6: "staged opens B L H au ?t5 w6" using st5(2) ao(2) by (simp add: staged_def holds_own_def)
    show ?thesis
      using s5(2)
    proof (cases rule: then_chkE)
      case failed
      then show ?thesis using st6 ad ao(1) by simp
    next
      case (more x6 y6 z6)
      then have it: "init_tables ?t5 w6 = (hr, t', w')" using ad ao(1) by simp
      have m: "0 < tt_maxConnections ?t5" using st6 by (simp add: staged_def)
      note io = init_tables_ok [OF m it]
      have "\<forall>r < 4. listens t' r" using io(8) f4(1) by (simp add: listens_def)
      then show ?thesis using io(11) [OF st6] io(4-7,9,10) ep5 live f4(3) by (simp add: tcp_started_def)
    qed
  qed
qed

lemma started_steps:
  assumes sys: "setup_calls_ok os opens" and st: "staged opens B L H au t w" and fr: "tt_pipe0 t = -1" "tt_pipe1 t = -1" "tt_spPolling t = None"
      "\<forall>r < 4. \<not> CStunSocket_IsValid (tt_socketListenArray t ! r)" and some: "valid_count L \<noteq> 0"
    and i: "then_chk (CreateListenSockets os t w) (\<lambda>t w. then_chk (CreatePipes os t w) (\<lambda>t w. then_chk (create_polling os t w) (\<lambda>t w.
      then_chk (SetListenSocketsOnEpoll os True t w) (\<lambda>t w.
      then_chk (on_polling (Polling_Add os (tt_pipe0 t) EPOLL_PIPE_EVENT_SET) t w) init_tables)))) = (hr, t', w')"
  shows "staged opens B L H au t' w' \<and> (SUCCEEDED hr \<longrightarrow> tcp_started t')"
proof -
  obtain hr1 t1 w1 where l: "create_listen os [0 ..< 4] t w = (hr1, t1, w1)" by (metis prod_cases3)
  have h: "holds_own opens B t w" using st by (simp add: staged_def)
  have lo: "holds_own opens B t1 w1" "setup_same t t1" "tt_spPolling t1 = None" "tt_pipe0 t1 = -1" "tt_pipe1 t1 = -1"
    "SUCCEEDED hr1 \<Longrightarrow> \<forall>r < 4. listens t1 r"
    using create_listen_ok [OF sys h _ _ l] fr by simp_all
  have st1: "staged opens B L H au t1 w1" using st lo(1,2) by (simp add: staged_def setup_same_def)
  let ?t2 = "t1\<lparr>tt_fListenSocketsOnEpoll := False\<rparr>"
  have C: "CreateListenSockets os t w = (if FAILED hr1 then (hr1, t1, w1) else (hr1, ?t2, w1))"
    by (simp add: CreateListenSockets_def l)
  show ?thesis
    using i
  proof (cases rule: then_chkE)
    case failed
    then show ?thesis using st1 C by (auto split: if_splits)
  next
    case (more h2 t2 w2)
    then have t2: "t2 = ?t2" "w2 = w1" "SUCCEEDED hr1" by (auto simp: C split: if_splits)
    note i2 = more(3) [unfolded t2(1,2)]
    have st2: "staged opens B L H au ?t2 w1" using st1 by (simp add: staged_def holds_own_def thread_fds_def)
    have ls2: "\<forall>r < 4. listens ?t2 r" using lo(6) [OF t2(3)] by simp
    have fr2: "tt_pipe0 ?t2 = -1" "tt_pipe1 ?t2 = -1" using lo(4,5) by simp_all
    obtain h3 t3 w3 where p: "CreatePipes os ?t2 w1 = (h3, t3, w3)" by (metis prod_cases3)
    have h2: "holds_own opens B ?t2 w1" using st2 by (simp add: staged_def)
    note po = pipes_created [OF sys fr2 p h2]
    obtain a b where ab: "t3 = ?t2\<lparr>tt_pipe0 := a, tt_pipe1 := b\<rparr>" using po(2) by blast
    have st3: "staged opens B L H au t3 w3" using st2 po(3) by (simp add: staged_def ab)
    show ?thesis
      using i2
    proof (cases rule: then_chkE)
      case failed
      then show ?thesis using st3 p by simp
    next
      case (more x3 y3 z3)
      then have p3: "SUCCEEDED h3" and i3: "then_chk (create_polling os t3 w3) (\<lambda>t w. then_chk (SetListenSocketsOnEpoll os True t w) (\<lambda>t w.
          then_chk (on_polling (Polling_Add os (tt_pipe0 t) EPOLL_PIPE_EVENT_SET) t w) init_tables)) = (hr, t', w')" using p by simp_all
      have "\<forall>r < 4. listens t3 r" "tt_spPolling t3 = None" "\<not> tt_fListenSocketsOnEpoll t3"
        using ls2 lo(3) by (simp_all add: ab)
      then show ?thesis by (rule watched_steps [OF sys st3 _ _ _ po(1) [OF p3] some i3])
    qed
  qed
qed

text \<open>\<open>Init\<close>: the thread owns what it opened, or nothing is open that was not before.\<close>

lemma Init_ok:
  assumes sys: "setup_calls_ok os opens" and fr: "fresh_tcp_thread t" and i: "tcp_Init os L H au n t w = (hr, t', w')"
  shows "FAILED hr \<Longrightarrow> opens w' = opens w" "SUCCEEDED hr \<Longrightarrow> staged opens (opens w) L H au t' w' \<and> tcp_started t'"
proof -
  note f = fr [unfolded fresh_tcp_thread_def]
  have own: "thread_fds t = {}" using f by (auto simp: thread_fds_def polling_fds_def owned_def in_set_conv_nth)
  let ?m = "if 0 < n then n else c_MaxNumberOfConnectionsDefault"
  let ?t = "t\<lparr>tt_maxConnections := ?m, tt_tsaListen := L, tt_tsa := H, tt_spAuth := au\<rparr>"
  obtain hr1 t1 w1 where s: "tcp_Init_steps os L H au n t w = (hr1, t1, w1)" by (metis prod_cases3)
  have "idle_pool (tt_connectionpool t1) \<and> opens w1 - thread_fds t1 = opens w \<and>
    (SUCCEEDED hr1 \<longrightarrow> staged opens (opens w) L H au t1 w1 \<and> tcp_started t1)"
  proof (cases "100000 \<le> ?m \<or> valid_count L = 0 \<or> valid_count H = 0")
    case True
    then have "w1 = w" "tt_connectionpool t1 = CConnectionPool_new" "thread_fds t1 = {}" "FAILED hr1"
      using s f own by (auto simp: tcp_Init_steps_def Let_def thread_fds_def split: if_splits)
    then show ?thesis by (simp add: idle_pool_def CConnectionPool_new_def exI [of _ "[]"])
  next
    case False
    have st: "staged opens (opens w) L H au ?t w"
    proof -
      have "thread_fds ?t = thread_fds t" by (simp add: thread_fds_def)
      then show ?thesis using f own by (simp add: staged_def holds_own_def c_MaxNumberOfConnectionsDefault_def)
    qed
    have fr1: "tt_pipe0 ?t = -1" "tt_pipe1 ?t = -1" "tt_spPolling ?t = None" "\<forall>r < 4. \<not> CStunSocket_IsValid (tt_socketListenArray ?t ! r)"
      using f by simp_all
    have "tcp_Init_steps os L H au n t w = then_chk (CreateListenSockets os ?t w) (\<lambda>t w. then_chk (CreatePipes os t w) (\<lambda>t w.
        then_chk (create_polling os t w) (\<lambda>t w. then_chk (SetListenSocketsOnEpoll os True t w) (\<lambda>t w.
        then_chk (on_polling (Polling_Add os (tt_pipe0 t) EPOLL_PIPE_EVENT_SET) t w) init_tables))))"
      using False f by (simp add: tcp_Init_steps_def Let_def)
    then have "staged opens (opens w) L H au t1 w1 \<and> (SUCCEEDED hr1 \<longrightarrow> tcp_started t1)"
      using started_steps [OF sys st fr1, of hr1 t1 w1] s False by simp
    then show ?thesis by (auto simp: staged_def holds_own_def idle_pool_def CConnectionPool_new_def intro: exI [of _ "[]"])
  qed
  note o = this
  show "FAILED hr \<Longrightarrow> opens w' = opens w"
    using i s o Reset_fds [OF sys, of t1] by (auto simp: tcp_Init_def split: prod.splits if_splits)
  show "SUCCEEDED hr \<Longrightarrow> staged opens (opens w) L H au t' w' \<and> tcp_started t'"
    using i s o by (auto simp: tcp_Init_def split: prod.splits if_splits)
qed


section \<open>From one end to the other\<close>

lemma new_fresh: "CTCPStunThread_new os w = (t, w') \<Longrightarrow> w' = w \<and> fresh_tcp_thread t"
proof -
  have c: "close_listen os (replicate n CStunSocket_new) w = (replicate n (CStunSocket_Reset CStunSocket_new), w)" for n
    by (induction n) (simp_all add: CStunSocket_Close_def CStunSocket_new_def)
  have p: "pool_Reset os CConnectionPool_new w = (CConnectionPool_new, w)"
    by (simp add: pool_Reset_def CConnectionPool_new_def)
  show "CTCPStunThread_new os w = (t, w') \<Longrightarrow> w' = w \<and> fresh_tcp_thread t"
    by (auto simp: CTCPStunThread_new_def tcp_Reset_def tcp_members_def release_polling_def CloseListenSockets_def ClosePipes_def c p fresh_tcp_thread_def)
qed

text \<open>The environment of a thread after \<open>Init\<close>, when the descriptors \<open>B\<close> were open before.\<close>

definition thread_env :: "(bytes \<Rightarrow> bytes \<Rightarrow> bytes) \<Rightarrow> (bytes \<Rightarrow> bytes) \<Rightarrow> int set \<Rightarrow> tcp_thread \<Rightarrow> tcp_env" where
  "thread_env hmac md5 B t =
     \<lparr>en_hmac = hmac, en_md5 = md5, en_auth = tt_spAuth t, en_tsa = tt_tsa t, en_keep = B \<union> thread_fds t, en_own = thread_fds t,
      en_started = tt_fThreadIsValid t\<rparr>"

lemma started_ok:
  assumes st: "staged (\<lambda>w. vw_open (view w)) B L H au t w" and s: "tcp_started t" and out: "\<forall>fd. vw_out (view w) fd = []"
  shows "tcp_ok (thread_env hmac md5 B t) [] {} {} t (view w)"
proof -
  let ?e = "thread_env hmac md5 B t"
  have pool: "tt_connectionpool t = CConnectionPool_new" and h: "holds_own (\<lambda>w. vw_open (view w)) B t w"
    using st by (simp_all add: staged_def)
  have busy: "busy F t = {}" for F by (simp add: busy_def pool CConnectionPool_new_def)
  have tb: "fh_unique FastHash_Hash_signed (conn_table p t)" "conn_view p t = Map.empty" for p using s by (simp_all add: tcp_started_def)
  have "tcp_shape [] {} t" unfolding tcp_shape_def busy tb(2) using tb(1) by (simp add: pool CConnectionPool_new_def)
  moreover have "tt_socketTable t ! i = -1 \<or> tt_socketTable t ! i \<in> en_keep ?e \<and> IsValidSocketRole (sk_role (tt_socketListenArray t ! i))" if i: "i < 4" for i
  proof (cases "ta_fValid (tt_tsaListen t ! i)")
    case True
    then have l: "CStunSocket_IsValid (tt_socketListenArray t ! i)" "sk_role (tt_socketListenArray t ! i) = of_nat i"
      "tt_socketTable t ! i = sk_sock (tt_socketListenArray t ! i)" using s i by (simp_all add: tcp_started_def listens_def)
    have "IsValidSocketRole (of_nat i)" using i by (auto simp: IsValidSocketRole_def word_le_nat_alt unat_of_nat)
    moreover have "tt_socketTable t ! i \<in> thread_fds t"
      using l(1,3) owned_nth [OF _ l(1)] h i by (auto simp: holds_own_def thread_fds_def CStunSocket_IsValid_def)
    ultimately show ?thesis by (simp add: thread_env_def l(2))
  next
    case False
    then show ?thesis using s i by (simp add: tcp_started_def listens_def)
  qed
  then have "tcp_config_ok ?e t" using s by (simp add: tcp_config_ok_def thread_env_def tcp_started_def)
  ultimately show ?thesis using h out by (simp add: tcp_ok_def busy holds_own_def thread_env_def honest_def)
qed

lemma ended_closes:
  assumes sys: "setup_calls_ok os (\<lambda>w. vw_open (view w))" and ok: "tcp_ok e F {} {} t (view w)" and b: "busy F t = {}"
    and s: "tcp_Stop os t w = (hr, t', w')"
  shows "vw_open (view w') = en_keep e - en_own e"
proof -
  have idle: "idle_pool (tt_connectionpool t)" using tcp_shapeD(1-3) [OF tcp_okD(1) [OF ok]] by (auto simp: idle_pool_def)
  obtain t1 w1 where a: "(if tt_fThreadIsValid t
      then (let t = t\<lparr>tt_fNeedToExit := True\<rparr>; (hr, w) = NotifyThreadViaPipe os t w in (t\<lparr>tt_fThreadIsValid := False\<rparr>, os_pthread_join os w))
      else (t, w)) = (t1, w1)" by fastforce
  have o: "vw_open (view w1) = vw_open (view w)" "tt_connectionpool t1 = tt_connectionpool t" "thread_fds t1 = thread_fds t"
    using a fds_okD(5) [OF setup_callsD(1) [OF sys]] setup_callsD(8) [OF sys]
    by (auto simp: NotifyThreadViaPipe_def split_beta Let_def thread_fds_def split: if_splits)
  obtain t2 w2 where r: "tcp_Reset os t1 w1 = (t2, w2)" by fastforce
  have "w' = w2" using s unfolding tcp_Stop_def a by (simp add: r)
  then show ?thesis
    using Reset_fds [OF sys _ r] idle o tcp_okD(2,3) [OF ok] b by (auto simp: tcp_config_ok_def)
qed

end
