(* ===== verification/TcpDemo.thy ===== *)
theory TcpDemo
  imports TcpSetup TcpRun
begin

text \<open>
  A system for the examples of the TCP server. Its state is a clock, which every wait for an event moves on by ten
  seconds, the next descriptor to open, and the observed state itself. Every client sends the same request
  after twenty seconds and then pauses; descriptor 3, which will be the listening socket, is always ready.
\<close>

type_synonym demo_tcp_world = "int \<times> int \<times> sys_view"

definition demo_unused :: "demo_tcp_world \<Rightarrow> bool" where
  "demo_unused w = (case w of (clock, n, v) \<Rightarrow> 0 \<le> n \<and> n \<notin> vw_open v)"

definition demo_open :: "demo_tcp_world \<Rightarrow> int \<times> demo_tcp_world" where
  "demo_open w = (case w of (clock, n, v) \<Rightarrow> if demo_unused w then (n, clock, n + 1, vw_opened n v) else (-1, w))"

definition demo_text :: bytes where
  "demo_text = message StunMsgTypeBinding StunMsgClassRequest demo_id []"

definition demo_tcp_recv :: "int \<Rightarrow> nat \<Rightarrow> demo_tcp_world \<Rightarrow> int \<times> bytes \<times> demo_tcp_world" where
  "demo_tcp_recv fd k w =
     (case w of (clock, n, v) \<Rightarrow>
        (let data = (if clock < 20 then [] else take k (drop (length (vw_in v fd)) demo_text))
         in if data = [] then (-1, [], w) else (int (length data), data, clock, n, vw_received fd data v)))"

definition demo_pipe :: "demo_tcp_world \<Rightarrow> int \<times> int \<times> int \<times> demo_tcp_world" where
  "demo_pipe w =
     (let (p0, w1) = demo_open w; (p1, w2) = demo_open w1 in if p0 = -1 \<or> p1 = -1 then (-1, 0, 0, w) else (0, p0, p1, w2))"

definition demo_tcp_os :: "demo_tcp_world tcp_os" where
  "demo_tcp_os =
     \<lparr>os_errno = (\<lambda>w. EAGAIN), os_socket = (\<lambda>fam ty. demo_open), os_setsockopt = (\<lambda>fd level opt v w. (0, w)),
      os_bind = (\<lambda>fd a w. (0, w)), os_close = (\<lambda>fd (clock, n, v). (clock, n, vw_closed fd v)),
      os_getsockname = (\<lambda>fd w. None), os_getpeername = (\<lambda>fd w. None), os_getfl = (\<lambda>fd w. (0, w)), os_setfl = (\<lambda>fd fl w. (0, w)),
      os_recvmsg = (\<lambda>fd n flags w. (\<lparr>rm_ret = -1, rm_data = [], rm_name = CSocketAddress_default, rm_control = []\<rparr>, w)), os_sendto = (\<lambda>fd d a w. (-1, w)), os_select = (\<lambda>fds w. (0, fds, w)),
      os_pthread_create = (\<lambda>w. (0, w)), os_pthread_join = (\<lambda>w. w), os_epoll_create = (\<lambda>k. demo_open),
      os_epoll_ctl = (\<lambda>ep op fd ev (clock, n, v). (0, clock, n, vw_control op fd (ee_events ev) v)),
      os_epoll_wait = (\<lambda>ep k t (clock, n, v). (1, [\<lparr>ee_fd = 3, ee_events = 1\<rparr>], clock + 10, n, v)),
      os_poll = (\<lambda>fds t w. (-1, map pf_revents fds, w)), os_time = fst, os_accept = (\<lambda>fd. demo_open),
      os_listen = (\<lambda>fd k w. (0, w)), os_recv = demo_tcp_recv,
      os_send = (\<lambda>fd bs (clock, n, v). (int (length bs), clock, n, vw_sent fd bs v)), os_shutdown = (\<lambda>fd w. w),
      os_pipe = demo_pipe, os_write = (\<lambda>fd bs w. (1, w))\<rparr>"

abbreviation demo_view :: "demo_tcp_world \<Rightarrow> sys_view" where
  "demo_view w \<equiv> snd (snd w)"

lemma demo_open_cases:
  "demo_open w = (s, w') \<Longrightarrow>
   (s = -1 \<and> w' = w) \<or> (0 \<le> s \<and> s \<notin> vw_open (demo_view w) \<and> demo_view w' = vw_opened s (demo_view w))"
  by (auto simp: demo_open_def demo_unused_def split: prod.splits if_splits)

lemma demo_recv_cases:
  "demo_tcp_recv fd k w = (ret, data, w') \<Longrightarrow>
   ret \<le> int k \<and> (0 < ret \<longrightarrow> length data = nat ret) \<and> demo_view w' = vw_received fd (if 0 < ret then data else []) (demo_view w)"
  by (auto simp: demo_tcp_recv_def Let_def vw_received_def split: prod.splits if_splits)

lemma demo_os_calls [simp]:
  "os_accept demo_tcp_os fd = demo_open" "os_recv demo_tcp_os = demo_tcp_recv" "os_socket demo_tcp_os fam ty = demo_open"
  "os_pipe demo_tcp_os = demo_pipe" "os_epoll_create demo_tcp_os k = demo_open"
  by (simp_all add: demo_tcp_os_def)

lemma demo_calls_ok: "tcp_calls_ok demo_tcp_os demo_view"
  unfolding tcp_calls_ok_def
proof (intro conjI allI impI)
  fix ep op fd ev w ret w'
  show "os_epoll_ctl demo_tcp_os ep op fd ev w = (ret, w') \<Longrightarrow>
     demo_view w' = (if ret = -1 then demo_view w else vw_control op fd (ee_events ev) (demo_view w))"
    by (auto simp: demo_tcp_os_def split: prod.splits)
next
  fix fd w s w'
  show "os_accept demo_tcp_os fd w = (s, w') \<Longrightarrow>
     (s = -1 \<and> demo_view w' = demo_view w) \<or> (0 \<le> s \<and> s \<notin> vw_open (demo_view w) \<and> demo_view w' = vw_opened s (demo_view w))"
    using demo_open_cases [of w s w'] by auto
next
  fix fd k w ret data w'
  assume "os_recv demo_tcp_os fd k w = (ret, data, w')"
  then have "demo_tcp_recv fd k w = (ret, data, w')" by simp
  note r = demo_recv_cases [OF this]
  show "ret \<le> int k" "0 < ret \<Longrightarrow> length data = nat ret" "demo_view w' = vw_received fd (if 0 < ret then data else []) (demo_view w)"
    using r by blast+
qed (auto simp: demo_tcp_os_def split: prod.splits)

lemma demo_setup_ok: "setup_calls_ok demo_tcp_os (\<lambda>w. vw_open (demo_view w))"
proof -
  have o: "vw_open (demo_view w') = insert s (vw_open (demo_view w))" "s \<notin> vw_open (demo_view w)"
    if "demo_open w = (s, w')" "s \<noteq> -1" for s w w'
    using demo_open_cases [OF that(1)] that(2) by (auto simp: vw_opened_def)
  have f: "fds_ok demo_tcp_os (\<lambda>w. vw_open (demo_view w))"
    unfolding fds_ok_def
  proof (intro conjI allI impI)
    fix fam ty w s w'
    show "os_socket demo_tcp_os fam ty w = (s, w') \<Longrightarrow>
       (s = -1 \<and> vw_open (demo_view w') = vw_open (demo_view w)) \<or>
       (0 \<le> s \<and> s \<notin> vw_open (demo_view w) \<and> vw_open (demo_view w') = insert s (vw_open (demo_view w)))"
      using demo_open_cases [of w s w'] by (auto simp: vw_opened_def)
  qed (auto simp: demo_tcp_os_def vw_closed_def split: prod.splits)
  have p: "if r = -1 then vw_open (demo_view w') = vw_open (demo_view w) else opens_fresh (\<lambda>w. vw_open (demo_view w)) {p0, p1} w w'"
    if "demo_pipe w = (r, p0, p1, w')" for r p0 p1 w w'
  proof -
    obtain a w1 b w2 where w: "demo_open w = (a, w1)" "demo_open w1 = (b, w2)" by (metis surj_pair)
    show ?thesis using that w o [OF w(1)] o [OF w(2)] by (auto simp: demo_pipe_def opens_fresh_def split: if_splits)
  qed
  have c: "vw_open (vw_control op fd ev v) = vw_open v" for op fd ev v by (cases op) simp_all
  show ?thesis
    unfolding setup_calls_ok_def
  proof (intro conjI allI impI)
    show "fds_ok demo_tcp_os (\<lambda>w. vw_open (demo_view w))" by (rule f)
  next
    fix w r p0 p1 w'
    show "os_pipe demo_tcp_os w = (r, p0, p1, w') \<Longrightarrow> if r = -1 then vw_open (demo_view w') = vw_open (demo_view w)
        else opens_fresh (\<lambda>w. vw_open (demo_view w)) {p0, p1} w w'" using p [of w r p0 p1 w'] by simp
  next
    fix k w fd w'
    show "os_epoll_create demo_tcp_os k w = (fd, w') \<Longrightarrow> if fd = -1 then vw_open (demo_view w') = vw_open (demo_view w)
        else opens_fresh (\<lambda>w. vw_open (demo_view w)) {fd} w w'" using demo_open_cases [of w fd w'] by (auto simp: opens_fresh_def vw_opened_def)
  qed (auto simp: demo_tcp_os_def c split: prod.splits)
qed

lemma demo_quiesces: "quiesces demo_tcp_os fd"
proof -
  have "\<exists>k. fst (os_recv demo_tcp_os fd MAX_STUN_MESSAGE_SIZE ((read_off demo_tcp_os fd ^^ k) w)) \<le> 0" for w
  proof (induction "length demo_text - length (vw_in (demo_view w) fd)" arbitrary: w rule: less_induct)
    case less
    let ?data = "if fst w < 20 then [] else take MAX_STUN_MESSAGE_SIZE (drop (length (vw_in (demo_view w) fd)) demo_text)"
    show ?case
    proof (cases "?data = []")
      case True
      then show ?thesis
        by (intro exI [of _ 0]) (cases w, auto simp: demo_tcp_recv_def Let_def)
    next
      case False
      then have "length (vw_in (demo_view (read_off demo_tcp_os fd w)) fd) = length (vw_in (demo_view w) fd) + length ?data"
        by (cases w) (simp add: read_off_def demo_tcp_recv_def Let_def vw_received_def)
      moreover have "0 < length ?data" "length (vw_in (demo_view w) fd) < length demo_text"
        using False by (auto split: if_splits)
      ultimately obtain k where "fst (os_recv demo_tcp_os fd MAX_STUN_MESSAGE_SIZE ((read_off demo_tcp_os fd ^^ k) (read_off demo_tcp_os fd w))) \<le> 0"
        using less [of "read_off demo_tcp_os fd w"] by (metis diff_less_mono2 less_add_same_cancel1)
      then show ?thesis by (intro exI [of _ "Suc k"]) (simp add: funpow_swap1)
    qed
  qed
  then show ?thesis by (simp add: quiesces_def)
qed

section \<open>A thread\<close>

definition demo_listen :: TransportAddressSet where
  "demo_listen = [\<lparr>ta_addr = CSocketAddress_ip4 1 3478, ta_fValid = True\<rparr>, \<lparr>ta_addr = CSocketAddress_default, ta_fValid = False\<rparr>,
     \<lparr>ta_addr = CSocketAddress_default, ta_fValid = False\<rparr>, \<lparr>ta_addr = CSocketAddress_default, ta_fValid = False\<rparr>]"

definition demo_world0 :: demo_tcp_world where
  "demo_world0 = (0, 3, \<lparr>vw_open = {0, 1, 2}, vw_watch = Map.empty, vw_in = (\<lambda>fd. []), vw_out = (\<lambda>fd. [])\<rparr>)"

definition demo_tcp_thread :: "hresult \<times> tcp_thread \<times> demo_tcp_world" where
  "demo_tcp_thread =
     (let (t, w) = CTCPStunThread_new demo_tcp_os demo_world0 in tcp_Init demo_tcp_os demo_listen demo_set None 1 t w)"

lemma demo_os_rest:
  "os_errno demo_tcp_os w = EAGAIN" "os_setsockopt demo_tcp_os fd level opt x w = (0, w)" "os_bind demo_tcp_os fd a w = (0, w)"
  "os_getsockname demo_tcp_os fd w = None" "os_getpeername demo_tcp_os fd w = None" "os_getfl demo_tcp_os fd w = (0, w)"
  "os_setfl demo_tcp_os fd fl w = (0, w)" "os_time demo_tcp_os w = fst w" "os_listen demo_tcp_os fd k w = (0, w)"
  "os_epoll_ctl demo_tcp_os ep op fd ev (clock, n, v) = (0, clock, n, vw_control op fd (ee_events ev) v)"
  "os_epoll_wait demo_tcp_os ep m tm (clock, n, v) = (1, [\<lparr>ee_fd = 3, ee_events = 1\<rparr>], clock + 10, n, v)"
  by (simp_all add: demo_tcp_os_def)

definition demo_socket :: "int \<Rightarrow> SocketRole \<Rightarrow> stun_socket" where
  "demo_socket fd role = \<lparr>sk_sock = fd, sk_addrlocal = CSocketAddress_ip4 0 0, sk_addrremote = CSocketAddress_ip4 0 0, sk_role = role\<rparr>"

text \<open>What \<open>Init\<close> leaves: descriptor 3 listens, 4 and 5 are the pipe, 6 is the polling object's.\<close>

definition demo_thread_with :: "bool \<Rightarrow> tcp_thread" where
  "demo_thread_with started =
     \<lparr>tt_pipe0 = 4, tt_pipe1 = 5,
      tt_spPolling = Some (CEpollObject \<lparr>ep_epollfd = 6, ep_events = replicate 6 \<lparr>ee_fd = 0, ee_events = 0\<rparr>, ep_sizeEvents = 6,
        ep_pendingCount = 0, ep_currentEventIndex = 0\<rparr>),
      tt_fListenSocketsOnEpoll = True, tt_tsaListen = demo_listen,
      tt_socketListenArray = [demo_socket 3 0, demo_socket (-1) RolePP, demo_socket (-1) RolePP, demo_socket (-1) RolePP],
      tt_socketTable = [3, -1, -1, -1], tt_countSocks = 1, tt_fNeedToExit = False, tt_spAuth = None, tt_role = RolePP, tt_tsa = demo_set,
      tt_maxConnections = 1, tt_fThreadIsValid = started, tt_connectionpool = CConnectionPool_new,
      tt_hashConnections1 = FastHash_new 1 2, tt_hashConnections2 = FastHash_new 1 2, tt_pNewConnList = Table1, tt_pOldConnList = Table2,
      tt_timeLastSweep = 0\<rparr>"

abbreviation demo_thread_up :: tcp_thread where
  "demo_thread_up \<equiv> demo_thread_with False"

lemmas demo_thread_up_def = demo_thread_with_def

definition demo_view_up :: sys_view where
  "demo_view_up = \<lparr>vw_open = {0, 1, 2, 3, 4, 5, 6},
     vw_watch = [3 \<mapsto> CEpoll_ToNativeFlags EPOLL_LISTEN_SOCKET_EVENT_SET, 4 \<mapsto> CEpoll_ToNativeFlags EPOLL_PIPE_EVENT_SET],
     vw_in = (\<lambda>fd. []), vw_out = (\<lambda>fd. [])\<rparr>"

lemma demo_family: "CSocketAddress_GetFamily (CSocketAddress_ip4 1 3478) \<noteq> AF_INET6"
  by code_simp

lemmas demo_steps = TCPInit_def InitCommon_def demo_open_def demo_unused_def vw_opened_def CStunSocket_SetRole_def
  CStunSocket_Attach_def CStunSocket_UpdateAddresses_def CStunSocket_GetSocketHandle_def SetNonBlocking_def CStunSocket_Close_def
  CStunSocket_Reset_def CStunSocket_new_def demo_os_rest demo_family

lemma demo_up: "demo_tcp_thread = (S_OK, demo_thread_up, 0, 7, demo_view_up)"
  by (simp add: CTCPStunThread_new_def tcp_Reset_def tcp_members_def release_polling_def CloseListenSockets_def ClosePipes_def
    pool_Reset_def CConnectionPool_new_def ResetTable_def tcp_Init_def demo_world0_def CreateListenSockets_def upt_rec Let_def demo_steps
    tcp_Init_steps_def c_MaxNumberOfConnectionsDefault_def valid_count_def demo_listen_def demo_set_def
    then_chk_def CreatePipes_def demo_pipe_def create_polling_def CreatePollingInstance_def IPOLLING_TYPE_BEST_def IPOLLING_TYPE_EPOLL_def
    CEpoll_Initialize_def CEpoll_Close_def CEpoll_new_def SetListenSocketsOnEpoll_def on_polling_def CEpoll_Add_def epoll_control_def
    on_epoll_def init_tables_def InitTable_def FastHash_GetHashTableWidth_def FindPrime_def IPOLLING_TYPE_POLL_def numeral_eq_Suc
    demo_tcp_thread_def demo_thread_up_def demo_view_up_def demo_socket_def)
    (auto simp: fun_eq_iff)


lemma demo_tcp_serving:
  "CTCPStunThread_new demo_tcp_os demo_world0 = (fst (CTCPStunThread_new demo_tcp_os demo_world0), demo_world0)"
  "tcp_Init demo_tcp_os demo_listen demo_set None 1 (fst (CTCPStunThread_new demo_tcp_os demo_world0)) demo_world0 =
     (S_OK, demo_thread_up, 0, 7, demo_view_up)"
proof -
  show new: "CTCPStunThread_new demo_tcp_os demo_world0 = (fst (CTCPStunThread_new demo_tcp_os demo_world0), demo_world0)"
    using new_fresh [of demo_tcp_os demo_world0] by (metis prod.collapse)
  show "tcp_Init demo_tcp_os demo_listen demo_set None 1 (fst (CTCPStunThread_new demo_tcp_os demo_world0)) demo_world0 =
     (S_OK, demo_thread_up, 0, 7, demo_view_up)"
    using demo_up unfolding demo_tcp_thread_def by (subst (asm) new) simp
qed

section \<open>A round of the thread\<close>

lemma grown_length: "length (pl_conns ((pool_add ^^ n) CConnectionPool_new)) = n"
  by (induction n) (simp_all add: pool_add_def CConnectionPool_new_def)

lemma demo_get: "\<exists>c pl. GetConnection demo_tcp_os 7 role CConnectionPool_new w = (Some c, pl, w)"
proof -
  let ?pl = "(pool_add ^^ 49) CConnectionPool_new"
  have n: "pl_freelist CConnectionPool_new = None" "snd (pool_Grow CConnectionPool_new) = pool_add ?pl"
    by (simp add: CConnectionPool_new_def) (simp add: pool_Grow_def c_growrate_def numeral_eq_Suc)
  have g: "pl_freelist (pool_add ?pl) = Some 49" "pl_conns (pool_add ?pl) ! 49 = StunConnection_new
     \<lparr>cn_spOutputBuffer := Some (CBuffer_alloc MAX_STUN_MESSAGE_SIZE), cn_spReaderBuffer := Some (CBuffer_alloc MAX_STUN_MESSAGE_SIZE),
      cn_pNext := pl_freelist ?pl\<rparr>"
    using grown_length [of 49] by (simp_all add: pool_add_def nth_append)
  show ?thesis
    unfolding GetConnection_def n if_P [OF refl] Let_def g option.case
    by (simp add: prepare_connection_def Let_def demo_steps StunConnection_new_def)
qed

text \<open>The state of the thread when the first event has come.\<close>

definition demo_thread_event :: "bool \<Rightarrow> tcp_thread" where
  "demo_thread_event b = (demo_thread_with b)\<lparr>tt_spPolling := Some (CEpollObject
     \<lparr>ep_epollfd = 6, ep_events = \<lparr>ee_fd = 3, ee_events = 1\<rparr> # replicate 5 \<lparr>ee_fd = 0, ee_events = 0\<rparr>, ep_sizeEvents = 6,
       ep_pendingCount = 1, ep_currentEventIndex = 1\<rparr>)\<rparr>"

lemma demo_wait: "wait_event demo_tcp_os (-1) (demo_thread_with b) (0, 7, demo_view_up) =
    (S_OK, \<lparr>pe_fd = 3, pe_eventflags = IPOLLING_READ\<rparr>, (demo_thread_event b), 10, 7, demo_view_up)"
proof -
  have f: "CEpoll_FromNativeFlags 1 = IPOLLING_READ" by code_simp
  show ?thesis
    by (simp add: wait_event_def demo_thread_up_def demo_thread_event_def CEpoll_WaitForNextEvent_def CEpoll_take_def Let_def demo_os_rest
        overwrite_def numeral_eq_Suc f)
qed

lemma demo_accept:
  "\<exists>c t' v'. AcceptConnection demo_tcp_os (demo_socket 3 0) (demo_thread_event b) (10, 7, demo_view_up) = (Some c, t', 10, 8, v') \<and>
     vw_open v' = insert 7 (vw_open demo_view_up)"
proof -
  let ?w = "(10, 8, vw_opened 7 demo_view_up)"
  have ac: "os_accept demo_tcp_os 3 (10, 7, demo_view_up) = (7, ?w)"
    by (simp add: demo_open_def demo_unused_def) (simp add: demo_view_up_def)
  obtain c pl where g: "GetConnection demo_tcp_os 7 0 CConnectionPool_new ?w = (Some c, pl, ?w)" using demo_get by blast
  let ?t = "(demo_thread_event b)\<lparr>tt_connectionpool := pl\<rparr>"
  have pool: "tt_connectionpool (demo_thread_event b) = CConnectionPool_new" by (simp add: demo_thread_event_def demo_thread_up_def)
  have nb: "SetNonBlocking demo_tcp_os True sk w = (S_OK, w)" for sk w by (simp add: SetNonBlocking_def demo_os_rest)
  let ?v = "vw_control EPOLL_CTL_ADD 7 (CEpoll_ToNativeFlags EPOLL_CLIENT_READ_EVENT_SET) (vw_opened 7 demo_view_up)"
  have add: "on_polling (Polling_Add demo_tcp_os 7 EPOLL_CLIENT_READ_EVENT_SET) ?t ?w = (S_OK, ?t, 10, 8, ?v)"
    by (simp add: on_polling_def demo_thread_event_def demo_thread_up_def CEpoll_Add_def epoll_control_def on_epoll_def demo_os_rest)
  have t: "tt_pNewConnList (demo_thread_event b) = Table1" "tt_hashConnections1 (demo_thread_event b) = FastHash_new 1 2"
    by (simp_all add: demo_thread_event_def demo_thread_up_def)
  obtain h where h: "FastHash_Insert FastHash_Hash_signed 7 c (FastHash_new 1 2) = (1, h)"
  proof -
    have e: "snd (InitTable 1 2 (FastHashDynamic_new :: (int, nat) fasthash)) = FastHash_new 1 2" by (simp add: InitTable_def)
    show ?thesis
      using that hashmap.insert_view [of FastHash_Hash_signed "FastHash_new 1 2" 7 c]
        InitTable_ok(2,3) [where fsize = 1 and tsize = 2 and t = "FastHashDynamic_new :: (int, nat) fasthash" and h = FastHash_Hash_signed, unfolded e]
        InitTable_ok(4,5) [where fsize = 1 and tsize = 2 and t = "FastHashDynamic_new :: (int, nat) fasthash", unfolded e]
      by auto
  qed
  have "AcceptConnection demo_tcp_os (demo_socket 3 0) (demo_thread_event b) (10, 7, demo_view_up) =
     (Some c, set_conn_table Table1 h (on_conn c (cn_idHashTable_update (\<lambda>_. 1)) ?t), 10, 8, ?v)"
    using ac g(1) add h by (simp add: AcceptConnection_def CStunSocket_GetSocketHandle_def CStunSocket_GetRole_def demo_socket_def pool nb t on_conn_def Let_def)
  then show ?thesis by (auto simp: vw_opened_def)
qed


section \<open>A reachable state with a connection\<close>

lemma demo_listens: "GetListenSocket 3 (demo_thread_event b) = Some (demo_socket 3 0)"
  by (simp add: GetListenSocket_def demo_thread_event_def demo_thread_up_def upt_rec)


lemma demo_env: "env_ok (thread_env demo_hmac demo_md5 (vw_open (demo_view demo_world0)) (demo_thread_with b))"
proof -
  have "wf_set demo_set" by (simp add: wf_set_def demo_set_def)
  then show ?thesis
    by (simp add: env_ok_def thread_env_def demo_thread_up_def providers_ok_def demo_hmac_def demo_md5_def min_def)
qed

lemma demo_tcp_first: "tcp_ok (thread_env demo_hmac demo_md5 (vw_open (demo_view demo_world0)) (demo_thread_with b)) [] {} {} (demo_thread_with b) demo_view_up"
proof -
  note i = Init_ok(2) [OF demo_setup_ok conjunct2 [OF new_fresh [OF demo_tcp_serving(1)]] demo_tcp_serving(2)]
  have out: "\<forall>fd. vw_out (demo_view (0, 7, demo_view_up)) fd = []" by (simp add: demo_view_up_def)
  have "tcp_ok (thread_env demo_hmac demo_md5 (vw_open (demo_view demo_world0)) demo_thread_up) [] {} {} demo_thread_up demo_view_up"
    using started_ok [where view = demo_view and w = "(0, 7, demo_view_up)", OF _ _ out] i by auto
  from ok_started [OF this, of b] show ?thesis by (simp add: thread_env_def demo_thread_with_def thread_fds_def)
qed

lemma demo_running:
  "\<exists>c t v. tcp_run demo_hmac demo_md5 demo_tcp_os (demo_thread_with b) (0, 7, demo_view_up) (InLoop, t, 10, 8, v) \<and>
     lookup_connection 7 t = Some c \<and> cn_state (conn t c) = ConnectionState_Receiving \<and> tt_timeLastSweep t = 0"
proof -
  let ?e = "thread_env demo_hmac demo_md5 (vw_open (demo_view demo_world0)) (demo_thread_with b)"
  let ?os = demo_tcp_os
  have ok1: "tcp_ok ?e [] {} {} (demo_thread_event b) (demo_view (10, 7, demo_view_up))"
    using wait_event_ok [OF demo_calls_ok _ demo_wait] demo_tcp_first by simp
  obtain c t v where a: "AcceptConnection ?os (demo_socket 3 0) (demo_thread_event b) (10, 7, demo_view_up) = (Some c, t, 10, 8, v)"
    "vw_open v = insert 7 (vw_open demo_view_up)" using demo_accept by blast
  have role: "IsValidSocketRole (sk_role (demo_socket 3 0))" by (simp add: demo_socket_def IsValidSocketRole_def)
  from accept_ok [OF demo_calls_ok ok1 role a(1)] obtain F where F: "tcp_ok ?e F {} {} t v" "config t = config (demo_thread_event b)"
    "c \<in> busy F t" "cn_state (conn t c) = ConnectionState_Receiving" by auto
  have "sock_of t c = 7"
  proof -
    have "sock_of t c \<in> insert 7 (vw_open demo_view_up)" using tcp_okD(3) [OF F(1)] F(3) a(2) by auto
    moreover have "sock_of t c \<notin> en_keep ?e" using tcp_okD(4) [OF F(1)] F(3) by blast
    moreover have "vw_open demo_view_up = en_keep ?e" using tcp_okD(3) [OF demo_tcp_first] by (simp add: busy_def demo_thread_up_def CConnectionPool_new_def)
    ultimately show ?thesis by blast
  qed
  then have l: "lookup_connection 7 t = Some c" using lookup_ok [OF F(1)] F(3) by simp
  have rd: "reading (vw_in v 7) (conn t c)" using tcp_okD(5) [OF F(1,3)] F(4) \<open>sock_of t c = 7\<close> by (simp add: progress_def Let_def)
  have rcv: "ReceiveBytesForConnection demo_hmac demo_md5 ?os c t (10, 8, v) = Some (S_OK, t, 10, 8, v)"
    using reading_needed(1) [OF rd] unfolding ReceiveBytesForConnection_def
    by (subst receive_loop.simps) (simp add: Let_def demo_tcp_recv_def demo_os_rest)
  have time: "tt_timeLastSweep t = 0" using config_fields(10) [OF F(2)] by (simp add: demo_thread_event_def demo_thread_up_def)
  have max: "\<not> IsConnectionCountAtMax (demo_thread_with b)" "GetTimeoutSeconds (demo_thread_with b) = -1"
    by (simp_all add: IsConnectionCountAtMax_def GetTimeoutSeconds_def demo_thread_up_def FastHash_Size_def FastHash_new_def FastHash_Init_def FastHash_Reset_def Let_def)
  have listen: "SetListenSocketsOnEpoll ?os True (demo_thread_with b) w = (S_OK, (demo_thread_with b), w)" for w
    by (simp add: SetListenSocketsOnEpoll_def demo_thread_up_def)
  have up: "\<not> tt_fNeedToExit (demo_thread_with b)" "\<not> tt_fNeedToExit (demo_thread_event b)" "tt_pipe0 (demo_thread_event b) = 4"
    by (simp_all add: demo_thread_event_def demo_thread_up_def)
  have round: "Run_round demo_hmac demo_md5 ?os (demo_thread_with b) (0, 7, demo_view_up) = Some (True, t, 10, 8, v)"
    by (simp add: Run_round_def max listen demo_wait up handle_event_def demo_listens a(1) rcv SweepDeadConnections_def demo_os_rest time
        c_sweepTimeoutSeconds_def Let_def)
  have "tcp_run demo_hmac demo_md5 ?os (demo_thread_with b) (0, 7, demo_view_up) (InLoop, (demo_thread_with b), 0, 7, demo_view_up)"
    using tcp_start [of demo_hmac demo_md5 ?os "demo_thread_with b" "(0, 7, demo_view_up)"] by (simp add: demo_os_rest demo_thread_up_def)
  from tcp_round [OF this round] show ?thesis using l F(4) time by blast
qed

end
