(* ===== verification/TcpTheorems.thy ===== *)
theory TcpTheorems
  imports TcpDemo
begin

text \<open>
  The properties of the TCP server's thread, from its constructor to the end: what its connections have received and
  sent, its tables and descriptors, the sweep of idle connections, and that its loops return.
\<close>

section \<open>A thread at work\<close>

text \<open>
  A new object was initialized, with system calls and providers that do what their documentation says. \<open>Start\<close>
  adds only \<open>_fThreadIsValid\<close>, which the thread itself does not read; the section on start and stop has it in the path.
\<close>

definition tcp_serves ::
  "(bytes \<Rightarrow> bytes \<Rightarrow> bytes) \<Rightarrow> (bytes \<Rightarrow> bytes) \<Rightarrow> ('w, 'x) tcp_os_scheme \<Rightarrow> ('w \<Rightarrow> sys_view) \<Rightarrow> TransportAddressSet \<Rightarrow>
   TransportAddressSet \<Rightarrow> IStunAuth option \<Rightarrow> int \<Rightarrow> 'w \<Rightarrow> tcp_thread \<Rightarrow> 'w \<Rightarrow> bool" where
  "tcp_serves hmac md5 os view listen tsa auth n w0 t w \<longleftrightarrow>
     tcp_calls_ok os view \<and> setup_calls_ok os (\<lambda>w. vw_open (view w)) \<and>
     providers_ok auth \<and> (\<forall>k d. length (hmac k d) = 20) \<and> (\<forall>k. length (md5 k) = 16) \<and> wf_set tsa \<and>
     (\<exists>t0 w1 hr. CTCPStunThread_new os w0 = (t0, w1) \<and> tcp_Init os listen tsa auth n t0 w1 = (hr, t, w) \<and> SUCCEEDED hr) \<and>
     (\<forall>fd. vw_out (view w) fd = [])"

lemma serves_started:
  assumes "tcp_serves hmac md5 os view listen tsa auth n w0 t w"
  shows "tcp_calls_ok os view" "setup_calls_ok os (\<lambda>w. vw_open (view w))"
    "env_ok (thread_env hmac md5 (vw_open (view w0)) t)" "tt_tsa t = tsa" "tt_spAuth t = auth"
    "tcp_ok (thread_env hmac md5 (vw_open (view w0)) t) [] {} {} t (view w)"
    "vw_open (view w0) \<inter> thread_fds t = {}"
proof -
  note s = assms [unfolded tcp_serves_def]
  show sys: "tcp_calls_ok os view" "setup_calls_ok os (\<lambda>w. vw_open (view w))" using s by simp_all
  obtain t0 w1 hr where c: "CTCPStunThread_new os w0 = (t0, w1)" "tcp_Init os listen tsa auth n t0 w1 = (hr, t, w)" "SUCCEEDED hr"
    using s by blast
  note fr = new_fresh [OF c(1)]
  have st: "staged (\<lambda>w. vw_open (view w)) (vw_open (view w0)) listen tsa auth t w" "tcp_started t"
    using Init_ok(2) [OF sys(2) conjunct2 [OF fr] c(2,3)] fr by simp_all
  show "tcp_ok (thread_env hmac md5 (vw_open (view w0)) t) [] {} {} t (view w)" using started_ok [OF st] s by blast
  show t: "tt_tsa t = tsa" "tt_spAuth t = auth" using st(1) by (simp_all add: staged_def)
  then show "env_ok (thread_env hmac md5 (vw_open (view w0)) t)" using s by (simp add: env_ok_def thread_env_def)
  show "vw_open (view w0) \<inter> thread_fds t = {}" using st(1) by (auto simp: staged_def holds_own_def)
qed

lemma running_ok:
  assumes "tcp_serves hmac md5 os view listen tsa auth n w0 t1 w1" "tcp_run hmac md5 os t1 w1 (pc, t, w)"
  shows "\<exists>F. tcp_ok (thread_env hmac md5 (vw_open (view w0)) t1) F {} {} t (view w) \<and> (pc = Left \<longrightarrow> busy F t = {})"
proof -
  let ?e = "thread_env hmac md5 (vw_open (view w0)) t1"
  note s = serves_started [OF assms(1)]
  have "tcp_run (en_hmac ?e) (en_md5 ?e) os t1 w1 (pc, t, w)" using assms(2) by (simp add: thread_env_def)
  from tcp_run_ok [OF this s(1,3,6)] show ?thesis by simp
qed

lemma demo_tcp_serves: "tcp_serves demo_hmac demo_md5 demo_tcp_os demo_view demo_listen demo_set None 1 demo_world0 demo_thread_up (0, 7, demo_view_up)"
proof -
  have "tcp_calls_ok demo_tcp_os demo_view \<and> setup_calls_ok demo_tcp_os (\<lambda>w. vw_open (demo_view w))" using demo_calls_ok demo_setup_ok by simp
  moreover have "providers_ok None \<and> (\<forall>k d. length (demo_hmac k d) = 20) \<and> (\<forall>k. length (demo_md5 k) = 16) \<and> wf_set demo_set"
    using demo_env by (simp add: env_ok_def thread_env_def) (simp add: demo_thread_up_def)
  moreover have "\<forall>fd. vw_out (demo_view (0, 7, demo_view_up)) fd = []" by (simp add: demo_view_up_def)
  moreover have "SUCCEEDED S_OK" by simp
  ultimately show ?thesis unfolding tcp_serves_def using demo_tcp_serving by blast
qed

section \<open>Connections\<close>

text \<open>C14: In every state that a TCP thread can reach, each connection is where its state says: while it receives, it
  is watched for reading, has sent nothing and asks for between 1 and 800 bytes; while it transmits, it is watched for writing,
  the bytes received are a whole request, and those sent are the first \<open>_txCount\<close> of the reply that the
  handler's specification gives for that request; when it closes, exactly that reply was sent.\<close>

theorem tcp_connection_progress:
  assumes "tcp_serves hmac md5 os view listen tsa auth n w0 t1 w1" "tcp_run hmac md5 os t1 w1 (pc, t, w)"
    "lookup_connection fd t = Some c"
  shows "sk_sock (cn_stunsocket (conn t c)) = fd \<and> fd \<in> vw_open (view w) \<and>
    (case cn_state (conn t c) of
       ConnectionState_Idle \<Rightarrow> False
     | ConnectionState_Receiving \<Rightarrow>
         vw_watch (view w) fd = Some (CEpoll_ToNativeFlags EPOLL_CLIENT_READ_EVENT_SET) \<and> vw_out (view w) fd = [] \<and>
         0 < unat (HowManyBytesNeeded (cn_reader (conn t c))) \<and> unat (HowManyBytesNeeded (cn_reader (conn t c))) \<le> MAX_STUN_MESSAGE_SIZE
     | ConnectionState_Transmitting \<Rightarrow>
         vw_watch (view w) fd = Some (CEpoll_ToNativeFlags EPOLL_CLIENT_WRITE_EVENT_SET) \<and>
         (\<exists>role data dest. udp_reply hmac md5 auth tsa (tcp_message_in (conn t c)) (vw_in (view w) fd) = Some (role, data, dest) \<and>
            vw_out (view w) fd = take (cn_txCount (conn t c)) data)
     | ConnectionState_Closing \<Rightarrow>
         vw_watch (view w) fd = Some (CEpoll_ToNativeFlags EPOLL_CLIENT_READ_EVENT_SET) \<and>
         (\<exists>req role dest. prefix req (vw_in (view w) fd) \<and>
            udp_reply hmac md5 auth tsa (tcp_message_in (conn t c)) req = Some (role, vw_out (view w) fd, dest)))"
proof -
  let ?e = "thread_env hmac md5 (vw_open (view w0)) t1"
  obtain F where F: "tcp_ok ?e F {} {} t (view w)" using running_ok [OF assms(1,2)] by blast
  have c: "c \<in> busy F t" "sock_of t c = fd" using lookup_ok [OF F] assms(3) by simp_all
  have "fd \<in> vw_open (view w)" using tcp_okD(3) [OF F] c by blast
  moreover have e: "tcp_reply ?e m req data \<longleftrightarrow> (\<exists>role dest. udp_reply hmac md5 auth tsa m req = Some (role, data, dest))" for m req data
    using serves_started(4,5) [OF assms(1)] by (simp add: tcp_reply_def thread_env_def)
  have p: "progress ?e (view w) (conn t c)" using tcp_okD(5) [OF F c(1)] by simp
  ultimately show ?thesis
    using c(2) reading_needed(1,2) [of "vw_in (view w) fd" "conn t c"]
    by (cases "cn_state (conn t c)") (auto simp: progress_def Let_def e)
qed

lemma tcp_connection_progress_witness:
  "\<exists>c t v. tcp_run demo_hmac demo_md5 demo_tcp_os demo_thread_up (0, 7, demo_view_up) (InLoop, t, 10, 8, v) \<and>
     lookup_connection 7 t = Some c \<and> vw_out v 7 = [] \<and> vw_watch v 7 = Some (CEpoll_ToNativeFlags EPOLL_CLIENT_READ_EVENT_SET)"
proof -
  obtain c t v where r: "tcp_run demo_hmac demo_md5 demo_tcp_os demo_thread_up (0, 7, demo_view_up) (InLoop, t, 10, 8, v)"
    "lookup_connection 7 t = Some c" "cn_state (conn t c) = ConnectionState_Receiving" using demo_running by blast
  show ?thesis using tcp_connection_progress [OF demo_tcp_serves r(1,2)] r by auto
qed

text \<open>C15: In every such state no descriptor leaks or is shared: the open descriptors are those that were open before the thread
  was made, the pipe, the listening sockets and the polling object's own, and one for each entry of the two tables; they are
  disjoint, and the sizes of the two tables add up to the number of connections.\<close>

theorem tcp_descriptors_accounted:
  assumes "tcp_serves hmac md5 os view listen tsa auth n w0 t1 w1" "tcp_run hmac md5 os t1 w1 (pc, t, w)"
  shows "vw_open (view w) = vw_open (view w0) \<union> thread_fds t \<union> {fd. lookup_connection fd t \<noteq> None} \<and>
    vw_open (view w0) \<inter> thread_fds t = {} \<and>
    (vw_open (view w0) \<union> thread_fds t) \<inter> {fd. lookup_connection fd t \<noteq> None} = {} \<and>
    FastHash_Size (tt_hashConnections1 t) + FastHash_Size (tt_hashConnections2 t) = card {fd. lookup_connection fd t \<noteq> None}"
proof -
  let ?e = "thread_env hmac md5 (vw_open (view w0)) t1"
  obtain F where F: "tcp_ok ?e F {} {} t (view w)" using running_ok [OF assms] by blast
  note sh = tcp_okD(1) [OF F]
  have own: "thread_fds t = thread_fds t1" using tcp_okD(2) [OF F] by (simp add: tcp_config_ok_def thread_env_def)
  have img: "{fd. lookup_connection fd t \<noteq> None} = sock_of t ` busy F t" using lookup_ok [OF F] by auto
  have dom: "dom (conn_view p t) = sock_of t ` {c \<in> busy F t. cn_idHashTable (conn t c) = table_id p}" for p
    using tcp_shapeD(6) [OF sh, of p] by (auto simp: dom_def)
  have fin: "finite (dom (conn_view p t))" for p unfolding dom by (simp add: busy_def)
  have un: "sock_of t ` busy F t = dom (conn_view Table1 t) \<union> dom (conn_view Table2 t)"
    unfolding dom using tcp_shapeD(7) [OF sh] by auto
  have "dom (conn_view Table1 t) \<inter> dom (conn_view Table2 t) = {}"
    unfolding dom using inj_onD [OF tcp_shapeD(8) [OF sh]] by fastforce
  then have "card (sock_of t ` busy F t) = card (dom (conn_view Table1 t)) + card (dom (conn_view Table2 t))"
    unfolding un by (rule card_Un_disjoint [OF fin fin])
  then have "FastHash_Size (tt_hashConnections1 t) + FastHash_Size (tt_hashConnections2 t) = card (sock_of t ` busy F t)"
    using hashmap.count_view [OF tcp_shapeD(5) [OF sh, of Table1]] hashmap.count_view [OF tcp_shapeD(5) [OF sh, of Table2]]
    by (simp add: FastHash_Size_def)
  moreover have "vw_open (view w) = vw_open (view w0) \<union> thread_fds t \<union> sock_of t ` busy F t"
    "(vw_open (view w0) \<union> thread_fds t) \<inter> sock_of t ` busy F t = {}"
    using tcp_okD(3,4) [OF F] by (simp_all add: own thread_env_def)
  ultimately show ?thesis unfolding img by (intro conjI) (use serves_started(7) [OF assms(1)] own in simp_all)
qed

lemma tcp_descriptors_accounted_witness:
  "\<exists>t v. tcp_run demo_hmac demo_md5 demo_tcp_os demo_thread_up (0, 7, demo_view_up) (InLoop, t, 10, 8, v) \<and>
     vw_open v = {0, 1, 2} \<union> thread_fds t \<union> {fd. lookup_connection fd t \<noteq> None} \<and> lookup_connection 7 t \<noteq> None"
proof -
  obtain c t v where r: "tcp_run demo_hmac demo_md5 demo_tcp_os demo_thread_up (0, 7, demo_view_up) (InLoop, t, 10, 8, v)"
    "lookup_connection 7 t = Some c" using demo_running by blast
  show ?thesis using tcp_descriptors_accounted [OF demo_tcp_serves r(1)] r by (intro exI [of _ t] exI [of _ v]) (simp add: demo_world0_def)
qed

section \<open>Start and stop\<close>

text \<open>A thread that holds nothing of its own and can be neither running nor started.\<close>

definition put_down :: "tcp_thread \<Rightarrow> bool" where
  "put_down t \<longleftrightarrow> \<not> tt_fThreadIsValid t \<and> tt_pipe0 t = -1 \<and> tt_pipe1 t = -1 \<and> tt_spPolling t = None"

lemma Reset_put_down: "tcp_Reset os t w = (t', w') \<Longrightarrow> put_down t'"
  by (auto simp: put_down_def tcp_Reset_def ClosePipes_def CloseListenSockets_def release_polling_def Let_def split_beta split: option.splits if_splits)

lemma Stop_put_down: "tcp_Stop os t w = (hr, t', w') \<Longrightarrow> put_down t'"
  unfolding tcp_Stop_def by (auto simp: Let_def split: if_splits prod.splits dest: Reset_put_down)

lemma put_down_start: "put_down t \<Longrightarrow> tcp_Start os t w = (E_UNEXPECTED, t, w)"
  by (simp add: put_down_def tcp_Start_def)

text \<open>\<open>Init\<close> leaves \<open>_fThreadIsValid\<close> as it is.\<close>

abbreviation started_kept :: "tcp_thread \<Rightarrow> hresult \<times> tcp_thread \<times> 'w \<Rightarrow> bool" where
  "started_kept t r \<equiv> tt_fThreadIsValid (fst (snd r)) = tt_fThreadIsValid t"

lemma kept_then: "started_kept t x \<Longrightarrow> (\<And>t' w'. tt_fThreadIsValid t' = tt_fThreadIsValid t \<Longrightarrow> started_kept t (rest t' w')) \<Longrightarrow> started_kept t (then_chk x rest)"
  by (cases x) (simp add: then_chk_def)

lemma kept_polling: "started_kept t (on_polling f t w)"
  by (simp add: on_polling_def Let_def split: option.split prod.split)

lemma kept_listen: "started_kept t (create_listen os rs t w)"
proof (induction rs arbitrary: t w)
  case (Cons r rs)
  then show ?case by (simp add: Let_def split: prod.split)
qed simp

lemma kept_watch: "started_kept t (watch_listen os en rs t w)"
proof (induction rs arbitrary: t w)
  case (Cons r rs)
  have "started_kept t (hr, t1, w1) \<Longrightarrow> started_kept t (if FAILED hr then (hr, t1, w1) else watch_listen os en rs t1 w1)" for hr t1 w1
    using Cons.IH [of t1 w1] by simp
  moreover have "started_kept t (if en then on_polling f t w else on_polling g t w)" for f g by (simp add: kept_polling)
  ultimately show ?case using Cons.IH [of t w] by (auto simp: Let_def split_beta)
qed simp

lemma Init_kept:
  assumes "\<not> tt_fThreadIsValid t0" "tcp_Init os listen tsa auth n t0 w = (hr, t, w')"
  shows "\<not> tt_fThreadIsValid t"
proof -
  have steps: "started_kept t (CreateListenSockets os t w)" "started_kept t (CreatePipes os t w)" "started_kept t (create_polling os t w)"
    "started_kept t (SetListenSocketsOnEpoll os en t w)" "started_kept t (init_tables t w)" for t w en
    using kept_listen [where t = t and os = os and rs = "[0 ..< 4]" and w = w] kept_watch [where t = t and os = os and en = en and rs = "[0 ..< 4]" and w = w]
    by (auto simp: CreateListenSockets_def CreatePipes_def create_polling_def SetListenSocketsOnEpoll_def init_tables_def Let_def split_beta)
  have chain: "started_kept t (then_chk (CreateListenSockets os t w) (\<lambda>t w. then_chk (CreatePipes os t w) (\<lambda>t w.
      then_chk (create_polling os t w) (\<lambda>t w. then_chk (SetListenSocketsOnEpoll os True t w) (\<lambda>t w.
      then_chk (on_polling (Polling_Add os (tt_pipe0 t) EPOLL_PIPE_EVENT_SET) t w) init_tables)))))" for t w
    by (intro kept_then) (simp_all add: steps kept_polling)
  have "started_kept t0 (tcp_Init_steps os listen tsa auth n t0 w)"
    by (simp add: tcp_Init_steps_def Let_def chain)
  then show ?thesis
    using assms by (auto simp: tcp_Init_def put_down_def Let_def split: if_splits prod.splits dest!: Reset_put_down)
qed

text \<open>What \<open>Start\<close> makes of a thread that \<open>Init\<close> prepared.\<close>

lemma start_ok:
  assumes s: "tcp_serves hmac md5 os view listen tsa auth n w0 t1 w2" and p: "\<And>w. view (snd (os_pthread_create os w)) = view w"
    and st: "tcp_Start os t1 w2 = (hr, t2, w3)"
  shows "tcp_ok (thread_env hmac md5 (vw_open (view w0)) t2) [] {} {} t2 (view w3)" "env_ok (thread_env hmac md5 (vw_open (view w0)) t2)"
    "vw_open (view w0) \<inter> thread_fds t2 = {}" "SUCCEEDED hr \<longleftrightarrow> fst (os_pthread_create os w2) = 0" "tt_fThreadIsValid t2 \<longleftrightarrow> SUCCEEDED hr"
    "busy F t1 = {}" "busy F t2 = {}"
proof -
  let ?e = "thread_env hmac md5 (vw_open (view w0))"
  obtain t0 w1 hr1 where i: "CTCPStunThread_new os w0 = (t0, w1)" "tcp_Init os listen tsa auth n t0 w1 = (hr1, t1, w2)" "SUCCEEDED hr1"
    using s by (auto simp: tcp_serves_def)
  have sys: "setup_calls_ok os (\<lambda>w. vw_open (view w))" using s by (simp add: tcp_serves_def)
  note fr = new_fresh [OF i(1)]
  have "\<not> tt_fThreadIsValid t1" by (rule Init_kept [OF _ i(2)]) (use fr in \<open>simp add: fresh_tcp_thread_def\<close>)
  moreover have "tt_pipe0 t1 \<noteq> -1" using Init_ok(2) [OF sys conjunct2 [OF fr] i(2,3)] by (simp add: tcp_started_def)
  ultimately obtain b where t2: "t2 = t1\<lparr>tt_fNeedToExit := False, tt_fThreadIsValid := b\<rparr>" "view w3 = view w2"
    "SUCCEEDED hr \<longleftrightarrow> fst (os_pthread_create os w2) = 0" "b \<longleftrightarrow> SUCCEEDED hr"
    using st p [of w2] by (cases "os_pthread_create os w2") (auto simp: tcp_Start_def Let_def split: if_splits)
  have "tt_connectionpool t1 = CConnectionPool_new" using Init_ok(2) [OF sys conjunct2 [OF fr] i(2,3)] by (simp add: staged_def)
  then show "busy F t1 = {}" "busy F t2 = {}" by (simp_all add: t2(1) busy_def CConnectionPool_new_def)
  have f: "thread_fds t2 = thread_fds t1" by (simp add: t2(1) thread_fds_def)
  have e: "?e t2 = (?e t1)\<lparr>en_started := b\<rparr>" by (simp add: thread_env_def f) (simp add: t2(1))
  show "tcp_ok (?e t2) [] {} {} t2 (view w3)"
    using ok_started [OF ok_fields(3) [OF serves_started(6) [OF s], of False], of b] unfolding e t2(2) by (simp add: t2(1))
  show "env_ok (?e t2)" using serves_started(3) [OF s] by (simp add: e env_ok_def)
  show "vw_open (view w0) \<inter> thread_fds t2 = {}" using serves_started(7) [OF s] by (simp add: f)
  show "SUCCEEDED hr \<longleftrightarrow> fst (os_pthread_create os w2) = 0" "tt_fThreadIsValid t2 \<longleftrightarrow> SUCCEEDED hr" using t2 by simp_all
qed

text \<open>The states of a thread that was started, and how it leaves its loop.\<close>

lemma started_run_ok:
  assumes "tcp_serves hmac md5 os view listen tsa auth n w0 t1 w2" "\<And>w. view (snd (os_pthread_create os w)) = view w"
    "tcp_Start os t1 w2 = (hr, t2, w3)" "tcp_run hmac md5 os t2 w3 (pc, t, w)"
  shows "\<exists>F. tcp_ok (thread_env hmac md5 (vw_open (view w0)) t2) F {} {} t (view w) \<and> (pc = Left \<longrightarrow> busy F t = {})"
    "tt_fThreadIsValid t = tt_fThreadIsValid t2"
proof -
  let ?e = "thread_env hmac md5 (vw_open (view w0)) t2"
  note st = start_ok [OF assms(1-3)]
  have "tcp_run (en_hmac ?e) (en_md5 ?e) os t2 w3 (pc, t, w)" using assms(4) by (simp add: thread_env_def)
  from tcp_run_ok [OF this serves_started(1) [OF assms(1)] st(2,1)]
  show F: "\<exists>F. tcp_ok ?e F {} {} t (view w) \<and> (pc = Left \<longrightarrow> busy F t = {})" by simp
  then obtain F where "tcp_config_ok ?e t" using tcp_okD(2) by blast
  then show "tt_fThreadIsValid t = tt_fThreadIsValid t2" by (simp add: tcp_config_ok_def thread_env_def)
qed

lemma signalled_leaves:
  assumes "tcp_calls_ok os view" "tcp_ok e F {} {} t (view w)" "tcp_run hmac md5 os t2 w3 (InLoop, t, w)"
  shows "\<exists>t4 w4. ThreadCleanup os (t\<lparr>tt_fNeedToExit := True\<rparr>) w = Some (t4, w4) \<and> tcp_run hmac md5 os t2 w3 (Left, t4, w4)"
proof -
  have r: "tcp_run hmac md5 os t2 w3 (InLoop, t\<lparr>tt_fNeedToExit := True\<rparr>, w)" using tcp_signal [OF assms(3)] .
  from cleanup_ok [OF assms(1) ok_fields(3) [OF assms(2), of True]]
  obtain t4 w4 where c: "ThreadCleanup os (t\<lparr>tt_fNeedToExit := True\<rparr>) w = Some (t4, w4)" by blast
  have "Run_round hmac md5 os (t\<lparr>tt_fNeedToExit := True\<rparr>) w = Some (False, t\<lparr>tt_fNeedToExit := True\<rparr>, w)" by (simp add: Run_round_def)
  from tcp_leave [OF r this c] c show ?thesis by blast
qed

lemma stop_closes:
  assumes sys: "setup_calls_ok os (\<lambda>w. vw_open (view w))" and ok: "tcp_ok (thread_env hmac md5 (vw_open (view w0)) t2) F {} {} t (view w)"
    and b: "busy F t = {}" "vw_open (view w0) \<inter> thread_fds t2 = {}" and s: "tcp_Stop os t w = (hr, t', w')"
  shows "vw_open (view w') = vw_open (view w0) \<and> put_down t' \<and> fst (tcp_Start os t' w') = E_UNEXPECTED"
  using ended_closes [OF sys ok b(1) s] b(2) Stop_put_down [OF s] put_down_start [OF Stop_put_down [OF s], of os w'] by (auto simp: thread_env_def)

text \<open>C16: Nothing stays open. An \<open>Init\<close> that fails, at whatever step, leaves open what was open before, and \<open>Start\<close>
  refuses the thread. Otherwise \<open>Start\<close> succeeds exactly when the system makes the thread, which counts as
  running until \<open>Stop\<close>. From every state of its loop, once \<open>Stop\<close> has set \<open>_fNeedToExit\<close>, the thread leaves at its
  next test and cleans up. And \<open>Stop\<close>, of a started thread that has left its loop in any way (signal,
  join, \<open>Reset\<close>), of one whose \<open>Start\<close> failed and of one never started, leaves open exactly the
  descriptors that were open before, and a thread that cannot be started again. The byte that \<open>Stop\<close>
  writes stands after the run here; it only ends a wait, and a wait of the run may end at any time.\<close>

theorem tcp_closes_everything:
  assumes "tcp_calls_ok os view" "setup_calls_ok os (\<lambda>w. vw_open (view w))" "\<And>w. view (snd (os_pthread_create os w)) = view w"
    "CTCPStunThread_new os w0 = (t0, w1)" "tcp_Init os listen tsa auth n t0 w1 = (hr, t1, w2)" "tcp_Start os t1 w2 = (hrs, t2, w3)"
  shows "(FAILED hr \<longrightarrow> vw_open (view w2) = vw_open (view w0) \<and> hrs = E_UNEXPECTED) \<and>
    (tcp_serves hmac md5 os view listen tsa auth n w0 t1 w2 \<longrightarrow>
       (SUCCEEDED hrs \<longleftrightarrow> fst (os_pthread_create os w2) = 0) \<and> (tt_fThreadIsValid t2 \<longleftrightarrow> SUCCEEDED hrs) \<and>
       (SUCCEEDED hrs \<and> tcp_run hmac md5 os t2 w3 (pc, t, w) \<longrightarrow> tt_fThreadIsValid t) \<and>
       (SUCCEEDED hrs \<and> tcp_run hmac md5 os t2 w3 (InLoop, t, w) \<longrightarrow>
          (\<exists>t4 w4. ThreadCleanup os (t\<lparr>tt_fNeedToExit := True\<rparr>) w = Some (t4, w4) \<and> tcp_run hmac md5 os t2 w3 (Left, t4, w4))) \<and>
       (SUCCEEDED hrs \<and> tcp_run hmac md5 os t2 w3 (Left, t, w) \<and> tcp_Stop os t w = (hr', t', w') \<or>
        FAILED hrs \<and> tcp_Stop os t2 w3 = (hr', t', w') \<or> tcp_Stop os t1 w2 = (hr', t', w') \<longrightarrow>
          vw_open (view w') = vw_open (view w0) \<and> put_down t' \<and> fst (tcp_Start os t' w') = E_UNEXPECTED))"
  (is "?init \<and> (?serves \<longrightarrow> ?create \<and> ?valid \<and> ?kept \<and> ?leaves \<and> ?closed)")
proof (intro conjI impI)
  note fr = new_fresh [OF assms(4)]
  show "vw_open (view w2) = vw_open (view w0)" if "FAILED hr" using Init_ok(1) [OF assms(2) conjunct2 [OF fr] assms(5)] fr that by blast
  show "hrs = E_UNEXPECTED" if "FAILED hr"
  proof -
    have "put_down t1" using that assms(5) by (auto simp: tcp_Init_def Let_def split: if_splits prod.splits dest: Reset_put_down)
    from put_down_start [OF this, of os w2] show ?thesis using assms(6) by simp
  qed
next
  let ?e = "thread_env hmac md5 (vw_open (view w0))"
  assume s: ?serves
  note st = start_ok [OF s assms(3,6)]
  show ?create ?valid using st(4,5) .
  note run = started_run_ok [OF s assms(3,6)]
  show "tt_fThreadIsValid t" if "SUCCEEDED hrs \<and> tcp_run hmac md5 os t2 w3 (pc, t, w)" using run(2) [of pc t w] st(5) that by simp
  show "\<exists>t4 w4. ThreadCleanup os (t\<lparr>tt_fNeedToExit := True\<rparr>) w = Some (t4, w4) \<and> tcp_run hmac md5 os t2 w3 (Left, t4, w4)"
    if "SUCCEEDED hrs \<and> tcp_run hmac md5 os t2 w3 (InLoop, t, w)"
    using run(1) [of InLoop t w] signalled_leaves [OF assms(1)] that by blast
  have closed: "vw_open (view w') = vw_open (view w0) \<and> put_down t' \<and> fst (tcp_Start os t' w') = E_UNEXPECTED"
    if "SUCCEEDED hrs \<and> tcp_run hmac md5 os t2 w3 (Left, t, w) \<and> tcp_Stop os t w = (hr', t', w') \<or>
        FAILED hrs \<and> tcp_Stop os t2 w3 = (hr', t', w') \<or> tcp_Stop os t1 w2 = (hr', t', w')"
    using that
  proof (elim disjE conjE)
    assume r: "tcp_run hmac md5 os t2 w3 (Left, t, w)" and stop: "tcp_Stop os t w = (hr', t', w')"
    from run(1) [OF r] obtain F where "tcp_ok (?e t2) F {} {} t (view w)" "busy F t = {}" by blast
    from stop_closes [OF assms(2) this st(3) stop] show ?thesis .
  next
    assume "tcp_Stop os t2 w3 = (hr', t', w')"
    from stop_closes [OF assms(2) st(1,7,3) this] show ?thesis .
  next
    assume "tcp_Stop os t1 w2 = (hr', t', w')"
    from stop_closes [OF assms(2) serves_started(6) [OF s] st(6) serves_started(7) [OF s] this] show ?thesis .
  qed
  show "vw_open (view w') = vw_open (view w0)" "put_down t'" "fst (tcp_Start os t' w') = E_UNEXPECTED"
    if "SUCCEEDED hrs \<and> tcp_run hmac md5 os t2 w3 (Left, t, w) \<and> tcp_Stop os t w = (hr', t', w') \<or>
        FAILED hrs \<and> tcp_Stop os t2 w3 = (hr', t', w') \<or> tcp_Stop os t1 w2 = (hr', t', w')"
    using closed [OF that] by simp_all
qed

text \<open>In the example, the thread is started, accepts a connection, and is stopped.\<close>

lemma tcp_closes_everything_witness:
  "\<exists>t2 t w t' w'. tcp_Start demo_tcp_os demo_thread_up (0, 7, demo_view_up) = (S_OK, t2, 0, 7, demo_view_up) \<and>
     tcp_run demo_hmac demo_md5 demo_tcp_os t2 (0, 7, demo_view_up) (Left, t, w) \<and> tt_fThreadIsValid t \<and>
     tcp_Stop demo_tcp_os t w = (S_OK, t', w') \<and> vw_open (demo_view w') = {0, 1, 2} \<and> \<not> tt_fThreadIsValid t'"
proof -
  let ?run = "tcp_run demo_hmac demo_md5 demo_tcp_os (demo_thread_with True) (0, 7, demo_view_up)"
  have start: "tcp_Start demo_tcp_os demo_thread_up (0, 7, demo_view_up) = (S_OK, demo_thread_with True, 0, 7, demo_view_up)"
    by (simp add: tcp_Start_def demo_thread_with_def demo_tcp_os_def)
  have p: "demo_view (snd (os_pthread_create demo_tcp_os w)) = demo_view w" for w by (simp add: demo_tcp_os_def)
  note c = tcp_closes_everything [where hmac = demo_hmac and ?md5.0 = demo_md5, OF demo_calls_ok demo_setup_ok p demo_tcp_serving start]
  obtain t v where r: "?run (InLoop, t, 10, 8, v)" using demo_running [of True] by blast
  then obtain t4 w4 where l: "?run (Left, t4, w4)" using c demo_tcp_serves by fastforce
  obtain t' w' where s: "tcp_Stop demo_tcp_os t4 w4 = (S_OK, t', w')" by (cases "tcp_Stop demo_tcp_os t4 w4") (simp add: tcp_Stop_def split_beta)
  have "tt_fThreadIsValid t4" "vw_open (demo_view w') = vw_open (demo_view demo_world0)" "put_down t'"
    using c [THEN conjunct2, THEN mp, OF demo_tcp_serves] l s by fastforce+
  then show ?thesis using start l s by (intro exI [of _ "demo_thread_with True"] exI [of _ t4] exI [of _ w4] exI [of _ t'] exI [of _ w'])
    (simp add: put_down_def demo_world0_def)
qed

section \<open>Events and the sweep\<close>

text \<open>Connections do not interfere: in every such state, whatever the event is that comes for a descriptor, the other
  connections are the same objects in the same state afterwards, and none appears or disappears.\<close>

theorem tcp_event_isolated:
  assumes "tcp_serves hmac md5 os view listen tsa auth n w0 t1 w1" "tcp_run hmac md5 os t1 w1 (pc, t, w)"
    "ProcessConnectionEvent hmac md5 os fd flags t w = Some (t', w')" "other \<noteq> fd"
  shows "lookup_connection other t' = lookup_connection other t \<and>
    (\<forall>c. lookup_connection other t = Some c \<longrightarrow> conn t' c = conn t c)"
proof -
  let ?e = "thread_env hmac md5 (vw_open (view w0)) t1"
  obtain F where F: "tcp_ok ?e F {} {} t (view w)" using running_ok [OF assms(1,2)] by blast
  have p: "ProcessConnectionEvent (en_hmac ?e) (en_md5 ?e) os fd flags t w = Some (t', w')"
    using assms(3) by (simp add: thread_env_def)
  note es = event_step [OF serves_started(1,3) [OF assms(1)] F p]
  show ?thesis
  proof (cases "lookup_connection fd t")
    case None
    then show ?thesis using es by simp
  next
    case (Some c)
    then have c: "c \<in> busy F t" "sock_of t c = fd" using lookup_ok [OF F] by simp_all
    have st: "tcp_step ?e F c t t' (view w')" using es Some by simp
    then obtain F' where F': "tcp_ok ?e F' {} {} t' (view w')" and b: "busy F' t' - {c} = busy F t - {c}" "c \<in> busy F' t' \<Longrightarrow> sock_of t' c = fd"
      using c(2) unfolding tcp_step_def by blast
    have same: "d \<in> busy F t - {c} \<Longrightarrow> conn t' d = conn t d" for d using st by (simp add: tcp_step_def)
    have "lookup_connection other t' = Some d \<longleftrightarrow> lookup_connection other t = Some d" for d
    proof (cases "d = c")
      case True
      then show ?thesis using lookup_ok [OF F', of other c] lookup_ok [OF F, of other c] b(2) c(2) assms(4) by blast
    next
      case False
      then have "d \<in> busy F' t' \<longleftrightarrow> d \<in> busy F t" using b(1) by blast
      then show ?thesis using lookup_ok [OF F', of other d] lookup_ok [OF F, of other d] same [of d] False by auto
    qed
    then have "lookup_connection other t' = lookup_connection other t" by (metis not_None_eq)
    moreover have "conn t' d = conn t d" if "lookup_connection other t = Some d" for d
      using same [of d] lookup_ok [OF F] that c(2) assms(4) by auto
    ultimately show ?thesis by blast
  qed
qed

lemma tcp_event_isolated_witness:
  "\<exists>c t v t' w'. lookup_connection 7 t = Some c \<and> ProcessConnectionEvent demo_hmac demo_md5 demo_tcp_os 7 IPOLLING_READ t (10, 8, v) = Some (t', w') \<and>
     lookup_connection 8 t' = lookup_connection 8 t"
proof -
  obtain c t v where r: "tcp_run demo_hmac demo_md5 demo_tcp_os demo_thread_up (0, 7, demo_view_up) (InLoop, t, 10, 8, v)"
    "lookup_connection 7 t = Some c" using demo_running by blast
  from running_ok [OF demo_tcp_serves r(1)] obtain F where
    "tcp_ok (thread_env demo_hmac demo_md5 (vw_open (demo_view demo_world0)) demo_thread_up) F {} {} t (demo_view (10, 8, v))" by blast
  from event_returns [OF demo_calls_ok this] demo_quiesces obtain t' w'
    where "ProcessConnectionEvent demo_hmac demo_md5 demo_tcp_os 7 IPOLLING_READ t (10, 8, v) = Some (t', w')" by (metis surj_pair)
  moreover from tcp_event_isolated [OF demo_tcp_serves r(1) this, of 8] have "lookup_connection 8 t' = lookup_connection 8 t" by simp
  ultimately show ?thesis using r(2) by blast
qed

lemma table_lookup:
  assumes "tcp_ok e F {} {} t v"
  shows "FastHash_Lookup FastHash_Hash_signed fd (conn_table p t) = Some c \<longleftrightarrow>
    c \<in> busy F t \<and> cn_idHashTable (conn t c) = table_id p \<and> sock_of t c = fd"
  using tcp_shapeD(6) [OF tcp_okD(1) [OF assms], of p fd c] hashmap.lookup_view [OF tcp_shapeD(5) [OF tcp_okD(1) [OF assms], of p]] by simp

lemma other_table:
  assumes "tcp_ok e F {} {} t v" "c \<in> busy F t"
  shows "cn_idHashTable (conn t c) \<noteq> table_id (tt_pNewConnList t) \<longleftrightarrow> cn_idHashTable (conn t c) = table_id (tt_pOldConnList t)"
proof -
  have "tt_pNewConnList t \<noteq> tt_pOldConnList t" using tcp_okD(2) [OF assms(1)] by (simp add: tcp_config_ok_def)
  then show ?thesis
    using busy_in_table [OF tcp_okD(1) [OF assms(1)], of c] assms(2) by (metis (full_types) Diff_empty table_id_simps(1) table_ptr.exhaust)
qed

lemma set_rest: "A - B = D \<Longrightarrow> K \<inter> A = {} \<Longrightarrow> B \<subseteq> A \<Longrightarrow> K \<union> B = K \<union> A - D"
  by blast

text \<open>C25: The sweep returns. Less than 60 seconds after the last one it does nothing; otherwise it closes exactly the
  descriptors of the connections in the old table, keeps the others as they are, and exchanges the two tables: the
  connections that were in the new table are in the old one afterwards.\<close>

theorem tcp_sweep:
  assumes "tcp_serves hmac md5 os view listen tsa auth n w0 t1 w1" "tcp_run hmac md5 os t1 w1 (pc, t, w)" "view w' = view w"
  shows "\<exists>t' w''. SweepDeadConnections os t w' = Some (t', w'') \<and>
    (if os_time os w' - tt_timeLastSweep t < c_sweepTimeoutSeconds then t' = t \<and> w'' = w'
     else vw_open (view w'') = vw_open (view w) - {fd. FastHash_Lookup FastHash_Hash_signed fd (conn_table (tt_pOldConnList t) t) \<noteq> None} \<and>
       (\<forall>fd. lookup_connection fd t' = FastHash_Lookup FastHash_Hash_signed fd (conn_table (tt_pNewConnList t) t)) \<and>
       (\<forall>fd c. lookup_connection fd t' = Some c \<longrightarrow> conn t' c = conn t c) \<and>
       tt_pOldConnList t' = tt_pNewConnList t \<and> tt_pNewConnList t' = tt_pOldConnList t \<and> tt_timeLastSweep t' = os_time os w'')"
proof -
  let ?e = "thread_env hmac md5 (vw_open (view w0)) t1"
  obtain F where F: "tcp_ok ?e F {} {} t (view w)" using running_ok [OF assms(1,2)] by blast
  then have ok: "tcp_ok ?e F {} {} t (view w')" by (simp add: assms(3))
  note sh = tcp_okD(1) [OF F]
  from sweep_ok [OF serves_started(1) [OF assms(1)] ok] obtain t' w'' F' where s: "SweepDeadConnections os t w' = Some (t', w'')"
    "tcp_ok ?e F' {} {} t' (view w'')" "\<forall>c \<in> busy F' t'. conn t' c = conn t c" and
    r: "if c_sweepTimeoutSeconds \<le> os_time os w' - tt_timeLastSweep t
       then busy F' t' = {c \<in> busy F t. cn_idHashTable (conn t c) = table_id (tt_pNewConnList t)} \<and>
         tt_pOldConnList t' = tt_pNewConnList t \<and> tt_pNewConnList t' = tt_pOldConnList t \<and> tt_timeLastSweep t' = os_time os w''
       else t' = t \<and> w'' = w' \<and> F' = F" by blast
  show ?thesis
  proof (cases "os_time os w' - tt_timeLastSweep t < c_sweepTimeoutSeconds")
    case True
    then show ?thesis using s(1) r by simp
  next
    case False
    then have b: "busy F' t' = {c \<in> busy F t. cn_idHashTable (conn t c) = table_id (tt_pNewConnList t)}"
      and tp: "tt_pOldConnList t' = tt_pNewConnList t" "tt_pNewConnList t' = tt_pOldConnList t" "tt_timeLastSweep t' = os_time os w''"
      using r by simp_all
    note look = table_lookup [OF F]
    have iff: "lookup_connection fd t' = Some c \<longleftrightarrow> FastHash_Lookup FastHash_Hash_signed fd (conn_table (tt_pNewConnList t) t) = Some c" for fd c
      unfolding look lookup_ok [OF s(2), of fd c] using s(3) b by auto
    then have new: "lookup_connection fd t' = FastHash_Lookup FastHash_Hash_signed fd (conn_table (tt_pNewConnList t) t)" for fd
      by (metis not_None_eq)
    have sub: "sock_of t' ` busy F' t' \<subseteq> sock_of t ` busy F t" using s(3) b by auto
    have "busy F t - busy F' t' = {c \<in> busy F t. cn_idHashTable (conn t c) = table_id (tt_pOldConnList t)}"
      unfolding b using other_table [OF F] by blast
    moreover have "sock_of t ` busy F t - sock_of t' ` busy F' t' = sock_of t ` (busy F t - busy F' t')"
      using inj_on_image_set_diff [OF tcp_shapeD(8) [OF sh], of "busy F t" "busy F' t'"] b s(3) by auto
    ultimately have diff: "sock_of t ` busy F t - sock_of t' ` busy F' t' =
        {fd. FastHash_Lookup FastHash_Hash_signed fd (conn_table (tt_pOldConnList t) t) \<noteq> None}"
      using look by (auto simp: image_iff)
    have "vw_open (view w'') = vw_open (view w) - {fd. FastHash_Lookup FastHash_Hash_signed fd (conn_table (tt_pOldConnList t) t) \<noteq> None}"
      unfolding tcp_okD(3) [OF F] tcp_okD(3) [OF s(2)] by (rule set_rest [OF diff tcp_okD(4) [OF F] sub])
    moreover have "conn t' c = conn t c" if "lookup_connection fd t' = Some c" for fd c
      using that lookup_ok [OF s(2), of fd c] s(3) by simp
    ultimately show ?thesis using s(1) False new tp by simp
  qed
qed

lemma tcp_sweep_witness:
  "\<exists>t v t' w'. lookup_connection 7 t \<noteq> None \<and> SweepDeadConnections demo_tcp_os t (100, 8, v) = Some (t', w') \<and>
     tt_pOldConnList t' = tt_pNewConnList t \<and> tt_timeLastSweep t' = fst w'"
proof -
  obtain c t v where r: "tcp_run demo_hmac demo_md5 demo_tcp_os demo_thread_up (0, 7, demo_view_up) (InLoop, t, 10, 8, v)"
    "lookup_connection 7 t = Some c" "tt_timeLastSweep t = 0" using demo_running by blast
  have due: "\<not> os_time demo_tcp_os (100, 8, v) - tt_timeLastSweep t < c_sweepTimeoutSeconds"
    by (simp add: r(3) demo_os_rest c_sweepTimeoutSeconds_def)
  from tcp_sweep [OF demo_tcp_serves r(1), of "(100, 8, v)"] due obtain t' w' where
    "SweepDeadConnections demo_tcp_os t (100, 8, v) = Some (t', w')" "tt_pOldConnList t' = tt_pNewConnList t"
    "tt_timeLastSweep t' = os_time demo_tcp_os w'" by auto
  then show ?thesis using r(2) demo_os_rest(8) by (metis option.distinct(1))
qed

text \<open>C26: No round of the thread's loop runs forever: in every state it can reach, if each client sends only finitely much before it
  pauses or closes, one round returns, with the loop left or the next round to come.\<close>

theorem tcp_round_returns:
  assumes "tcp_serves hmac md5 os view listen tsa auth n w0 t1 w1" "tcp_run hmac md5 os t1 w1 (pc, t, w)" "\<forall>fd. quiesces os fd"
  shows "\<exists>more t' w'. Run_round hmac md5 os t w = Some (more, t', w')"
proof -
  let ?e = "thread_env hmac md5 (vw_open (view w0)) t1"
  obtain F where F: "tcp_ok ?e F {} {} t (view w)" using running_ok [OF assms(1,2)] by blast
  from round_returns [OF serves_started(1,3) [OF assms(1)] F assms(3)] show ?thesis by (auto simp: thread_env_def)
qed

lemma tcp_round_returns_witness:
  "\<exists>t v more t' w'. lookup_connection 7 t \<noteq> None \<and> Run_round demo_hmac demo_md5 demo_tcp_os t (10, 8, v) = Some (more, t', w')"
proof -
  obtain c t v where r: "tcp_run demo_hmac demo_md5 demo_tcp_os demo_thread_up (0, 7, demo_view_up) (InLoop, t, 10, 8, v)"
    "lookup_connection 7 t = Some c" using demo_running by blast
  then show ?thesis using tcp_round_returns [OF demo_tcp_serves r(1)] demo_quiesces by blast
qed

end
