(* ===== verification/FileBuffer.thy ===== *)
theory FileBuffer
  imports SampleAuth
begin

text \<open>
  The files of the sharing demo (\<open>src/client/FileBlock.cpp\<close>, \<open>SharedFileBuffer.cpp\<close>, \<open>RegisterRequest.cpp\<close>,
  \<open>FetchP2pServerRequest.cpp\<close>, \<open>LocalSharedFileManage.cpp\<close>): a file read in blocks of at most 4096 bytes,
  a file written block by block, and the two requests to the application server.

  A \<open>FILE*\<close> is the path it was opened with, the bytes not yet read, the bytes written so far and the room
  left on the device: \<open>fread\<close> and \<open>fwrite\<close> transfer as much as there is and report how much. What the device
  holds under a path is a map; a file written appears in it when it is closed. Behaviour the language leaves
  undefined ends the model with a \<open>fault\<close>; an indeterminate member is \<open>None\<close>, indeterminate bytes are zero.
\<close>

datatype fault = NullPointer | OutOfBounds | Indeterminate | UseAfterFree | DoubleFree

definition BLOCK_MAX_LENGTH :: int where "BLOCK_MAX_LENGTH = 4096"

section \<open>FileBlock\<close>

record FileBlock =
  fb_mBuffer :: "bytes option"
  fb_mBufferSize :: "int option"
  fb_mIndex :: "int option"

definition FileBlock_init :: "bytes option \<Rightarrow> int \<Rightarrow> int \<Rightarrow> FileBlock" where
  "FileBlock_init buff len index =
     (if buff \<noteq> None \<and> len > 0 \<and> len \<le> BLOCK_MAX_LENGTH
      then \<lparr>fb_mBuffer = Some (take (nat len) (the buff)), fb_mBufferSize = Some len, fb_mIndex = Some index\<rparr>
      else \<lparr>fb_mBuffer = None, fb_mBufferSize = None, fb_mIndex = None\<rparr>)"

definition FileBlock_getData :: "FileBlock \<Rightarrow> bytes option" where
  "FileBlock_getData b = fb_mBuffer b"

definition FileBlock_getDataSize :: "FileBlock \<Rightarrow> int option" where
  "FileBlock_getDataSize b = fb_mBufferSize b"

definition FileBlock_getIndex :: "FileBlock \<Rightarrow> int option" where
  "FileBlock_getIndex b = fb_mIndex b"

definition FileBlock_addTryCountToUp :: "FileBlock \<Rightarrow> bool" where
  "FileBlock_addTryCountToUp b = False"

section \<open>SharedFileBuffer\<close>

record FILE =
  f_path :: bytes
  f_unread :: bytes
  f_written :: bytes
  f_room :: nat
  f_mode_w :: bool

record device =
  dev_files :: "bytes \<Rightarrow> bytes option"
  dev_writable :: "bytes \<Rightarrow> bool"
  dev_room :: nat

definition fopen_r :: "bytes \<Rightarrow> device \<Rightarrow> FILE option" where
  "fopen_r path d =
     (case dev_files d path of
        None \<Rightarrow> None
      | Some content \<Rightarrow> Some \<lparr>f_path = path, f_unread = content, f_written = [], f_room = 0, f_mode_w = False\<rparr>)"

definition fopen_w :: "bytes \<Rightarrow> device \<Rightarrow> FILE option \<times> device" where
  "fopen_w path d =
     (if dev_writable d path
      then (Some \<lparr>f_path = path, f_unread = [], f_written = [], f_room = dev_room d, f_mode_w = True\<rparr>,
            d\<lparr>dev_files := (dev_files d)(path := Some [])\<rparr>)
      else (None, d))"

definition fread :: "nat \<Rightarrow> FILE \<Rightarrow> bytes \<times> FILE" where
  "fread n f = (take n (f_unread f), f\<lparr>f_unread := drop n (f_unread f)\<rparr>)"

definition fwrite :: "bytes \<Rightarrow> FILE \<Rightarrow> nat \<times> FILE" where
  "fwrite bs f =
     (let n = min (length bs) (f_room f)
      in (n, f\<lparr>f_written := f_written f @ take n bs, f_room := f_room f - n\<rparr>))"

definition fclose :: "FILE \<Rightarrow> device \<Rightarrow> device" where
  "fclose f d =
     (if f_mode_w f then d\<lparr>dev_files := (dev_files d)(f_path f := Some (f_written f))\<rparr> else d)"

record SharedFileBuffer =
  sfb_mFiledescription :: "FILE option"
  sfb_mFileBlockList :: "FileBlock list"

text \<open>\<open>filePath\<close> has 255 bytes.\<close>

definition filePath_of :: "bytes \<Rightarrow> fault + bytes" where
  "filePath_of fileName =
     (if 0 \<notin> set fileName then Inl OutOfBounds
      else if 255 < strlen (ascii ''/data/'') + strlen fileName + 1 then Inl OutOfBounds
      else Inr (ascii ''/data/'' @ cstr fileName))"

definition SharedFileBuffer_reader :: "bytes \<Rightarrow> device \<Rightarrow> fault + SharedFileBuffer" where
  "SharedFileBuffer_reader fileName d =
     (case filePath_of fileName of
        Inl e \<Rightarrow> Inl e
      | Inr path \<Rightarrow> Inr \<lparr>sfb_mFiledescription = fopen_r path d, sfb_mFileBlockList = []\<rparr>)"

definition SharedFileBuffer_writer :: "bytes \<Rightarrow> device \<Rightarrow> fault + SharedFileBuffer \<times> device" where
  "SharedFileBuffer_writer fileName d =
     (case filePath_of fileName of
        Inl e \<Rightarrow> Inl e
      | Inr path \<Rightarrow>
          (let (f, d') = fopen_w path d in Inr (\<lparr>sfb_mFiledescription = f, sfb_mFileBlockList = []\<rparr>, d')))"

text \<open>The loop of \<open>loadFileToBuffer\<close>, entered with what the last \<open>fread\<close> returned.\<close>

function load_loop :: "bytes \<Rightarrow> int \<Rightarrow> FILE \<Rightarrow> FileBlock list \<Rightarrow> FILE \<times> FileBlock list" where
  "load_loop got index f blocks =
     (if length got > 0 then
        (let blocks = blocks @ [FileBlock_init (Some got) (int (length got)) index];
             (got', f') = fread (nat BLOCK_MAX_LENGTH) f
         in load_loop got' (index + 1) f' blocks)
      else (f, blocks))"
  by pat_completeness auto
termination
proof (relation "measure (\<lambda>(got, index, f, blocks). length got + length (f_unread f))", goal_cases)
  case (2 got index f blocks bs p got' f')
  have "length got' + length (f_unread f') = length (f_unread f)"
    using 2(3,4) by (auto simp: fread_def)
  then show ?case using 2(1) by simp
qed simp

text \<open>\<open>fread\<close> never returns -1, so the error branch after the loop is never taken.\<close>

definition loadFileToBuffer :: "SharedFileBuffer \<Rightarrow> bool \<times> SharedFileBuffer" where
  "loadFileToBuffer b =
     (case sfb_mFiledescription b of
        None \<Rightarrow> (False, b)
      | Some f \<Rightarrow>
          (let (got, f) = fread (nat BLOCK_MAX_LENGTH) f;
               (f, blocks) = load_loop got 0 f (sfb_mFileBlockList b)
           in (True, \<lparr>sfb_mFiledescription = Some f, sfb_mFileBlockList = blocks\<rparr>)))"

definition writeData :: "bytes \<Rightarrow> SharedFileBuffer \<Rightarrow> bool \<times> SharedFileBuffer" where
  "writeData pData b =
     (case sfb_mFiledescription b of
        None \<Rightarrow> (False, b)
      | Some f \<Rightarrow> (let (realsize, f) = fwrite pData f in (True, b\<lparr>sfb_mFiledescription := Some f\<rparr>)))"

definition SharedFileBuffer_destroy :: "SharedFileBuffer \<Rightarrow> device \<Rightarrow> device" where
  "SharedFileBuffer_destroy b d =
     (case sfb_mFiledescription b of None \<Rightarrow> d | Some f \<Rightarrow> fclose f d)"

definition getBlockSize :: "SharedFileBuffer \<Rightarrow> int" where
  "getBlockSize b = sint (of_nat (length (sfb_mFileBlockList b)) :: u32)"

definition getAt :: "int \<Rightarrow> SharedFileBuffer \<Rightarrow> fault + FileBlock" where
  "getAt i b =
     (if 0 \<le> i \<and> nat i < length (sfb_mFileBlockList b) then Inr (sfb_mFileBlockList b ! nat i) else Inl OutOfBounds)"

section \<open>Requests to the application server\<close>

text \<open>The C library's \<open>inet_pton\<close> for \<open>AF_INET\<close> is the parameter \<open>pton4\<close>: four bytes in network order, or \<open>None\<close>.\<close>

definition PROTO_HEAD_BYTE_SIZE :: int where "PROTO_HEAD_BYTE_SIZE = 4"
definition REGISTER_TO_SERVER :: u32 where "REGISTER_TO_SERVER = 1"
definition FETCH_P2PSERVER_LIST :: u32 where "FETCH_P2PSERVER_LIST = 2"
definition REQUEST_SERVER_TODO_CONNECT_P2P :: u32 where "REQUEST_SERVER_TODO_CONNECT_P2P = 3"
definition REGISTER_REQUEST_BODY_SIZE :: int where "REGISTER_REQUEST_BODY_SIZE = 6"
definition FETCH_P2P_SERVER_REQUEST_BODY_SIZE :: int where "FETCH_P2P_SERVER_REQUEST_BODY_SIZE = 0"

definition RegisterRequest_init :: "(bytes \<Rightarrow> bytes option) \<Rightarrow> bytes option \<Rightarrow> u16 \<Rightarrow> bytes option" where
  "RegisterRequest_init pton4 ip port =
     (if ip \<noteq> None \<and> port > 0
      then Some (mem32 REGISTER_TO_SERVER @
             (case pton4 (cstr (the ip)) of Some a \<Rightarrow> a | None \<Rightarrow> replicate 4 0) @ mem16 port)
      else None)"

definition RegisterRequest_getDataSize :: int where
  "RegisterRequest_getDataSize = REGISTER_REQUEST_BODY_SIZE + PROTO_HEAD_BYTE_SIZE"

definition FetchP2pServerRequest_init :: bytes where
  "FetchP2pServerRequest_init = mem32 FETCH_P2PSERVER_LIST"

definition FetchP2pServerRequest_getDataSize :: int where
  "FetchP2pServerRequest_getDataSize = FETCH_P2P_SERVER_REQUEST_BODY_SIZE + PROTO_HEAD_BYTE_SIZE"

section \<open>The list of shared files\<close>

definition FILE_NAME_MAXLENGTH :: nat where "FILE_NAME_MAXLENGTH = 100"
definition FILE_PATH_MAXLENGTH :: nat where "FILE_PATH_MAXLENGTH = 255"
definition SHARED_FILE_MAX_COUNT :: nat where "SHARED_FILE_MAX_COUNT = 7"

record LocalSharedFileManage =
  mLocalSharedFileName :: "bytes list"
  mLocalSharedFileCount :: nat
  mLocalSharedFilePath :: bytes

definition strncpy :: "bytes \<Rightarrow> bytes \<Rightarrow> nat \<Rightarrow> bytes" where
  "strncpy dst src n = overwrite 0 (take n (cstr src @ replicate n 0)) dst"

definition strncat :: "bytes \<Rightarrow> bytes \<Rightarrow> nat \<Rightarrow> bytes" where
  "strncat dst src n = overwrite (strlen dst) (take n (cstr src) @ [0]) dst"

definition addNewSharedFile :: "bytes \<Rightarrow> LocalSharedFileManage \<Rightarrow> fault + nat \<times> LocalSharedFileManage" where
  "addNewSharedFile fileName m =
     (if mLocalSharedFileCount m < SHARED_FILE_MAX_COUNT
      then if FILE_NAME_MAXLENGTH < strlen fileName + 1 then Inl OutOfBounds
           else
             (let i = mLocalSharedFileCount m;
                  m = m\<lparr>mLocalSharedFileName := (mLocalSharedFileName m)[i := strcpy (mLocalSharedFileName m ! i) fileName],
                        mLocalSharedFileCount := i + 1\<rparr>
              in Inr (mLocalSharedFileCount m, m))
      else Inr (0, m))"

text \<open>The constructor's \<open>memset\<close> of length zero does nothing.\<close>

definition LocalSharedFileManage_init :: "fault + LocalSharedFileManage" where
  "LocalSharedFileManage_init =
     (case addNewSharedFile (ascii ''log.txt'')
             \<lparr>mLocalSharedFileName = replicate SHARED_FILE_MAX_COUNT (replicate FILE_NAME_MAXLENGTH 0),
              mLocalSharedFileCount = 0,
              mLocalSharedFilePath = strcpy (replicate FILE_PATH_MAXLENGTH 0) (ascii ''/data/'')\<rparr> of
        Inl e \<Rightarrow> Inl e
      | Inr (r, m) \<Rightarrow> Inr m)"

definition getSharedFileCount :: "LocalSharedFileManage \<Rightarrow> nat" where
  "getSharedFileCount m = mLocalSharedFileCount m"

definition getSharedFileName :: "int \<Rightarrow> bytes \<Rightarrow> LocalSharedFileManage \<Rightarrow> fault + bool \<times> bytes" where
  "getSharedFileName index fileName m =
     (if 0 \<le> index \<and> index < int (mLocalSharedFileCount m)
      then if length fileName < FILE_PATH_MAXLENGTH then Inl OutOfBounds
           else
             (let fileName = strncpy fileName (mLocalSharedFilePath m) FILE_PATH_MAXLENGTH;
                  name = mLocalSharedFileName m ! nat index
              in if length fileName < strlen fileName + min (strlen name) FILE_PATH_MAXLENGTH + 1 then Inl OutOfBounds
                 else Inr (True, strncat fileName name FILE_PATH_MAXLENGTH))
      else Inr (False, fileName))"

section \<open>What loading a file gives\<close>

definition wf_block :: "nat \<Rightarrow> FileBlock \<Rightarrow> bool" where
  "wf_block i b \<longleftrightarrow>
     (\<exists>bs. b = \<lparr>fb_mBuffer = Some bs, fb_mBufferSize = Some (int (length bs)), fb_mIndex = Some (int i)\<rparr> \<and>
       0 < length bs \<and> length bs \<le> 4096)"

definition block_bytes :: "FileBlock \<Rightarrow> bytes" where
  "block_bytes b = the (fb_mBuffer b)"

definition wf_blocks :: "FileBlock list \<Rightarrow> bool" where
  "wf_blocks bl \<longleftrightarrow> (\<forall>i < length bl. wf_block i (bl ! i))"

lemma FileBlock_init_wf:
  "got \<noteq> [] \<Longrightarrow> length got \<le> 4096 \<Longrightarrow> wf_block i (FileBlock_init (Some got) (int (length got)) (int i))"
  "got \<noteq> [] \<Longrightarrow> length got \<le> 4096 \<Longrightarrow> block_bytes (FileBlock_init (Some got) (int (length got)) k) = got"
  by (auto simp: wf_block_def FileBlock_init_def BLOCK_MAX_LENGTH_def block_bytes_def)

lemma wf_blocks_snoc: "wf_blocks bl \<Longrightarrow> wf_block (length bl) b \<Longrightarrow> wf_blocks (bl @ [b])"
  by (auto simp: wf_blocks_def nth_append less_Suc_eq)

declare load_loop.simps [simp del]

lemma ceil_step: "0 < m \<Longrightarrow> Suc ((m - 4096 + 4095) div 4096) = (m + 4095) div (4096 :: nat)"
proof (cases "m \<le> 4096")
  case True
  moreover assume "0 < m"
  ultimately have "(m + 4095) div 4096 = 1" by (intro div_nat_eqI) auto
  then show ?thesis using True by simp
next
  case False
  then have "m + 4095 = (m - 4096 + 4095) + 4096" by simp
  then show ?thesis by (simp only: div_add_self2)
qed

lemma load_loop_blocks:
  assumes "wf_blocks bl" "f_unread f = drop 4096 rest"
  shows "\<exists>f' new. load_loop (take 4096 rest) (int (length bl)) f bl = (f', bl @ new) \<and> wf_blocks (bl @ new) \<and>
           concat (map block_bytes new) = rest \<and> length new = (length rest + 4095) div 4096"
  using assms
proof (induction "length rest" arbitrary: rest f bl rule: less_induct)
  case less
  show ?case
  proof (cases "rest = []")
    case True
    then show ?thesis using less.prems by (subst load_loop.simps) simp
  next
    case False
    let ?got = "take 4096 rest" and ?f = "f\<lparr>f_unread := drop 4096 (f_unread f)\<rparr>"
    let ?b = "FileBlock_init (Some ?got) (int (length ?got)) (int (length bl))"
    have got: "?got \<noteq> []" "length ?got \<le> 4096" using False by simp_all
    have step: "load_loop ?got (int (length bl)) f bl =
        load_loop (take 4096 (drop 4096 rest)) (int (length (bl @ [?b]))) ?f (bl @ [?b])"
      using False less.prems(2)
      by (subst load_loop.simps) (simp add: fread_def BLOCK_MAX_LENGTH_def add.commute)
    have "wf_blocks (bl @ [?b])" by (rule wf_blocks_snoc [OF less.prems(1) FileBlock_init_wf(1) [OF got]])
    then obtain f' new where
      ih: "load_loop (take 4096 (drop 4096 rest)) (int (length (bl @ [?b]))) ?f (bl @ [?b]) = (f', (bl @ [?b]) @ new)"
        "wf_blocks ((bl @ [?b]) @ new)" "concat (map block_bytes new) = drop 4096 rest"
        "length new = (length (drop 4096 rest) + 4095) div 4096"
      using less.hyps [of "drop 4096 rest" "bl @ [?b]" ?f] False less.prems(2) by auto
    have "Suc (length new) = (length rest + 4095) div 4096"
      using ceil_step [of "length rest"] False ih(4) by (simp only: length_drop length_greater_0_conv not_False_eq_True simp_thms)
    then show ?thesis
      using ih(1-3) step FileBlock_init_wf(2) [OF got, of "int (length bl)"]
      by (intro exI [of _ f'] exI [of _ "?b # new"]) simp
  qed
qed

lemma loadFileToBuffer_blocks:
  assumes "SharedFileBuffer_reader fileName d = Inr b"
  shows "\<exists>b'. loadFileToBuffer b = (sfb_mFiledescription b \<noteq> None, b') \<and> wf_blocks (sfb_mFileBlockList b') \<and>
           (case dev_files d (ascii ''/data/'' @ cstr fileName) of
              None \<Rightarrow> sfb_mFileBlockList b' = []
            | Some content \<Rightarrow> concat (map block_bytes (sfb_mFileBlockList b')) = content \<and>
                length (sfb_mFileBlockList b') = (length content + 4095) div 4096)"
proof -
  have b: "b = \<lparr>sfb_mFiledescription = fopen_r (ascii ''/data/'' @ cstr fileName) d, sfb_mFileBlockList = []\<rparr>"
    using assms by (auto simp: SharedFileBuffer_reader_def filePath_of_def split: if_splits)
  show ?thesis
  proof (cases "dev_files d (ascii ''/data/'' @ cstr fileName)")
    case None
    then show ?thesis by (simp add: b fopen_r_def loadFileToBuffer_def wf_blocks_def)
  next
    case (Some content)
    let ?f = "\<lparr>f_path = ascii ''/data/'' @ cstr fileName, f_unread = drop 4096 content, f_written = [], f_room = 0, f_mode_w = False\<rparr>"
    have "wf_blocks []" "f_unread ?f = drop 4096 content" by (simp_all add: wf_blocks_def)
    from load_loop_blocks [OF this] obtain f' new where
      "load_loop (take 4096 content) (int (length ([] :: FileBlock list))) ?f [] = (f', [] @ new)" "wf_blocks ([] @ new)"
      "concat (map block_bytes new) = content" "length new = (length content + 4095) div 4096"
      by (elim exE conjE)
    then show ?thesis
      using Some by (simp add: b fopen_r_def loadFileToBuffer_def fread_def BLOCK_MAX_LENGTH_def)
  qed
qed

end
