(* ===== verification/FilePeer.thy ===== *)
theory FilePeer
  imports FileBuffer SocketAddress
begin

text \<open>
  A peer of the file sharing demo: the receiving thread and the sending thread of \<open>src/client/clientmain.cpp\<close>
  (\<open>receiveThreadFunction\<close>, \<open>sendThreadFunction\<close>) and the datagrams they build. The peer's record holds the
  variables of \<open>receiveThreadFunction\<close>, the sending thread it has started and the device its files are on.
  One turn of the receive loop is \<open>receive_turn\<close>; it gives the peer afterwards and the datagrams sent, each with
  its destination, or the fault that ends the program. The counters are \<open>int\<close>s without the wrap-around at
  \<open>2 ^ 31\<close> blocks; values copied to and from a datagram have 32 bits.
\<close>

section \<open>Datagrams\<close>

text \<open>A \<open>char[10]\<close> a string is copied into; the bytes after its terminator are indeterminate and zero here.\<close>

definition head10 :: "bytes \<Rightarrow> bytes" where
  "head10 s = strcpy (replicate 10 0) (s @ [0])"

definition int_bytes :: "int \<Rightarrow> bytes" where
  "int_bytes i = mem32 (word_of_int i)"

definition bytes_int :: "bytes \<Rightarrow> int" where
  "bytes_int bs = sint (load32 bs)"

type_synonym datagram = "simple_sockaddr \<times> bytes"

definition sendSectorData :: "SharedFileBuffer \<Rightarrow> int \<Rightarrow> simple_sockaddr \<Rightarrow> fault + datagram" where
  "sendSectorData fileReadBuffer sendSectorPosition remoteaddr =
     (case getAt sendSectorPosition fileReadBuffer of
        Inl e \<Rightarrow> Inl e
      | Inr block \<Rightarrow>
          (case (FileBlock_getDataSize block, FileBlock_getIndex block, FileBlock_getData block) of
             (Some len, Some index, Some d) \<Rightarrow>
               if len < 0 \<or> BLOCK_MAX_LENGTH < len \<or> int (length d) < len then Inl OutOfBounds
               else Inr (remoteaddr,
                      head10 (ascii ''respond'') @ head10 (ascii ''data'') @ head10 (ascii ''sector'') @
                      int_bytes len @ int_bytes index @ take (nat len) d)
           | _ \<Rightarrow> Inl Indeterminate))"

definition sendSectorApk :: "int \<Rightarrow> simple_sockaddr \<Rightarrow> datagram" where
  "sendSectorApk index remoteaddr =
     (remoteaddr, head10 (ascii ''respond'') @ head10 (ascii ''apk'') @ head10 (ascii ''sector'') @ int_bytes index)"

text \<open>
  \<open>scanf\<close> stores the word \<open>typed\<close> at the prompt in 50 bytes; the function returns what \<open>localFileName\<close> is then.
\<close>

definition sendRequestFileInfo :: "bytes \<Rightarrow> bytes \<Rightarrow> simple_sockaddr \<Rightarrow> fault + bytes \<times> datagram" where
  "sendRequestFileInfo typed localFileName remoteaddr =
     (if 50 < length typed + 1 then Inl OutOfBounds
      else
        (let fileName = overwrite 0 (typed @ [0]) (replicate 50 0)
         in Inr (strcpy localFileName fileName,
              (remoteaddr,
               head10 (ascii ''request'') @ head10 (ascii ''data'') @ head10 (ascii ''fileName'') @ fileName))))"

definition sendRespondFileInfo :: "int \<Rightarrow> simple_sockaddr \<Rightarrow> datagram" where
  "sendRespondFileInfo n remoteaddr =
     (remoteaddr, head10 (ascii ''respond'') @ head10 (ascii ''data'') @ head10 (ascii ''fileDesc'') @ int_bytes n)"

definition sendReadyToP2pServerRequest :: "simple_sockaddr \<Rightarrow> datagram" where
  "sendReadyToP2pServerRequest p2pAddr =
     (p2pAddr\<lparr>sa_family := AF_INET\<rparr>,
      head10 (ascii ''request'') @ head10 (ascii ''status'') @ head10 (ascii ''ready''))"

section \<open>The state of a peer\<close>

datatype write_ptr = NullBuf | LiveBuf SharedFileBuffer | FreedBuf

datatype thread_pc = AtLoop | AtSend int | Returned

record send_thread =
  st_remoteaddr :: simple_sockaddr
  st_pc :: thread_pc

record peer =
  p_buff :: bytes
  p_fileReadBuff :: "SharedFileBuffer option"
  p_fileWriteBuff :: write_ptr
  p_fileBlockSize :: int
  p_currentfileBlockPosition :: int
  p_currentWritefileBlockPosition :: int
  p_localFileName :: bytes
  p_send_thread :: "send_thread option"
  p_mConnection :: bool
  p_dev :: device

definition peer_init :: "bytes \<Rightarrow> bytes \<Rightarrow> device \<Rightarrow> peer" where
  "peer_init buff localFileName d =
     \<lparr>p_buff = buff, p_fileReadBuff = None, p_fileWriteBuff = NullBuf, p_fileBlockSize = 0,
      p_currentfileBlockPosition = -1, p_currentWritefileBlockPosition = 0, p_localFileName = localFileName,
      p_send_thread = None, p_mConnection = False, p_dev = d\<rparr>"

section \<open>The sending thread\<close>

text \<open>
  The loop body in two steps: reading \<open>*pos\<close>, which the receiving thread moves, and sending the sector read.
\<close>

definition send_step :: "peer \<Rightarrow> fault + peer \<times> datagram list" where
  "send_step p =
     (case p_send_thread p of
        None \<Rightarrow> Inr (p, [])
      | Some t \<Rightarrow>
          (case (st_pc t, p_fileReadBuff p) of
             (Returned, _) \<Rightarrow> Inr (p, [])
           | (_, None) \<Rightarrow> Inl NullPointer
           | (AtLoop, Some b) \<Rightarrow>
               (let position = p_currentfileBlockPosition p
                in if position < getBlockSize b
                   then Inr (p\<lparr>p_send_thread := Some (t\<lparr>st_pc := AtSend position\<rparr>)\<rparr>, [])
                   else Inr (p\<lparr>p_send_thread := Some (t\<lparr>st_pc := Returned\<rparr>)\<rparr>, []))
           | (AtSend position, Some b) \<Rightarrow>
               (case sendSectorData b position (st_remoteaddr t) of
                  Inl e \<Rightarrow> Inl e
                | Inr d \<Rightarrow> Inr (p\<lparr>p_send_thread := Some (t\<lparr>st_pc := AtLoop\<rparr>)\<rparr>, [d]))))"

section \<open>The branches of the receive loop\<close>

text \<open>The answer \<open>respond status ready\<close>, built over the heads that were received.\<close>

definition ready_answer :: "peer \<Rightarrow> bytes" where
  "ready_answer p =
     strcpy (bslice 0 10 (p_buff p)) (ascii ''respond'' @ [0]) @
     strcpy (bslice 10 10 (p_buff p)) (ascii ''status'' @ [0]) @
     strcpy (bslice 20 10 (p_buff p)) (ascii ''ready'' @ [0])"

definition on_doConnect :: "peer \<Rightarrow> peer \<times> datagram list" where
  "on_doConnect p =
     (let port = load16 (bslice 34 2 (p_buff p));
          requestaddr = sockaddr_zero\<lparr>sa_family := AF_INET, sa_in4 := bslice 30 4 (p_buff p), sa_port := mem16 (htons port)\<rparr>
      in (p, [(requestaddr, ready_answer p)]))"

definition on_ready :: "bytes \<Rightarrow> simple_sockaddr \<Rightarrow> peer \<Rightarrow> fault + peer \<times> datagram list" where
  "on_ready typed remoteaddr p =
     (if p_mConnection p = False
      then (case sendRequestFileInfo typed (p_localFileName p) remoteaddr of
              Inl e \<Rightarrow> Inl e
            | Inr (name, d) \<Rightarrow> Inr (p\<lparr>p_mConnection := True, p_localFileName := name\<rparr>, [d]))
      else Inr (p, []))"

definition on_fileName :: "simple_sockaddr \<Rightarrow> peer \<Rightarrow> fault + peer \<times> datagram list" where
  "on_fileName remoteaddr p =
     (let fileName = bslice 30 50 (p_buff p)
      in case (case p_fileReadBuff p of
                 Some b \<Rightarrow> Inr b
               | None \<Rightarrow> map_sum id (\<lambda>b. snd (loadFileToBuffer b)) (SharedFileBuffer_reader fileName (p_dev p))) of
           Inl e \<Rightarrow> Inl e
         | Inr b \<Rightarrow>
             Inr (p\<lparr>p_fileReadBuff := Some b\<rparr>,
               if getBlockSize b > 0 then [sendRespondFileInfo (getBlockSize b) remoteaddr] else []))"

definition on_fileDesc :: "simple_sockaddr \<Rightarrow> peer \<Rightarrow> peer \<times> datagram list" where
  "on_fileDesc remoteaddr p =
     (p\<lparr>p_fileBlockSize := bytes_int (bslice 30 4 (p_buff p))\<rparr>,
      [(remoteaddr,
        strcpy (bslice 0 10 (p_buff p)) (ascii ''respond'' @ [0]) @
        strcpy (bslice 10 10 (p_buff p)) (ascii ''apk'' @ [0]) @
        strcpy (bslice 20 10 (p_buff p)) (ascii ''fileDesc'' @ [0]))])"

definition on_fileDesc_apk :: "simple_sockaddr \<Rightarrow> peer \<Rightarrow> fault + peer \<times> datagram list" where
  "on_fileDesc_apk remoteaddr p =
     (let bFirstRun = (p_currentfileBlockPosition p = -1);
          p = (if bFirstRun then p\<lparr>p_currentfileBlockPosition := 0\<rparr> else p)
      in if \<not> bFirstRun then Inr (p, [])
         else
           (case p_fileReadBuff p of
              None \<Rightarrow> Inl NullPointer
            | Some b \<Rightarrow>
                if getBlockSize b > 0 \<and> p_currentfileBlockPosition p < getBlockSize b
                then Inr (p\<lparr>p_send_thread :=
                       Some \<lparr>st_remoteaddr = CSocketAddress_from_in4 remoteaddr, st_pc = AtLoop\<rparr>\<rparr>, [])
                else Inr (p, [])))"

text \<open>A sector: the file is opened at the first one, written if it is the next one, and closed at the last one.\<close>

definition opened :: "peer \<Rightarrow> fault + peer" where
  "opened p =
     (case p_fileWriteBuff p of
        NullBuf \<Rightarrow>
          (case SharedFileBuffer_writer (p_localFileName p) (p_dev p) of
             Inl e \<Rightarrow> Inl e
           | Inr (b, d) \<Rightarrow> Inr (p\<lparr>p_fileWriteBuff := LiveBuf b, p_dev := d\<rparr>))
      | _ \<Rightarrow> Inr p)"

definition sector_written :: "int \<Rightarrow> bytes \<Rightarrow> peer \<Rightarrow> fault + peer" where
  "sector_written index d p =
     (if p_currentWritefileBlockPosition p = index
      then (case p_fileWriteBuff p of
              LiveBuf b \<Rightarrow>
                Inr (p\<lparr>p_fileWriteBuff := LiveBuf (snd (writeData d b)),
                      p_currentWritefileBlockPosition := p_currentWritefileBlockPosition p + 1\<rparr>)
            | _ \<Rightarrow> Inl UseAfterFree)
      else Inr p)"

definition last_closed :: "int \<Rightarrow> peer \<Rightarrow> fault + peer" where
  "last_closed index p =
     (if index = p_fileBlockSize p - 1
      then (case p_fileWriteBuff p of
              LiveBuf b \<Rightarrow> Inr (p\<lparr>p_fileWriteBuff := FreedBuf, p_dev := SharedFileBuffer_destroy b (p_dev p)\<rparr>)
            | _ \<Rightarrow> Inl DoubleFree)
      else Inr p)"

text \<open>
  A block. The code acknowledges it before it deletes the buffer of the last one; a delete that faults ends the
  process, and the acknowledgment that was sent before is no part of the result here.
\<close>

definition on_sector :: "simple_sockaddr \<Rightarrow> peer \<Rightarrow> fault + peer \<times> datagram list" where
  "on_sector remoteaddr p =
     (let len = bytes_int (bslice 30 4 (p_buff p));
          index = bytes_int (bslice 34 4 (p_buff p))
      in if len < 0 \<or> 8192 < 38 + len then Inl OutOfBounds
         else
           (let fileDataBuffer = bslice 38 (nat len) (p_buff p)
            in case opened p of
                 Inl e \<Rightarrow> Inl e
               | Inr p \<Rightarrow>
                   (case sector_written index fileDataBuffer p of
                      Inl e \<Rightarrow> Inl e
                    | Inr p \<Rightarrow>
                        (case last_closed index p of
                           Inl e \<Rightarrow> Inl e
                         | Inr p \<Rightarrow> Inr (p, [sendSectorApk index remoteaddr])))))"

definition on_sector_apk :: "peer \<Rightarrow> peer \<times> datagram list" where
  "on_sector_apk p =
     (let index = bytes_int (bslice 30 4 (p_buff p));
          currentIndex = p_currentfileBlockPosition p
      in (if currentIndex = index then p\<lparr>p_currentfileBlockPosition := p_currentfileBlockPosition p + 1\<rparr> else p, []))"

definition on_ready_request :: "simple_sockaddr \<Rightarrow> peer \<Rightarrow> peer \<times> datagram list" where
  "on_ready_request remoteaddr p = (p, [(remoteaddr, ready_answer p)])"

section \<open>One turn of the receive loop\<close>

text \<open>What \<open>strcmp\<close> of the three heads with the names decides: a head without a terminator equals none.\<close>

definition is_msg :: "bytes \<Rightarrow> bytes \<Rightarrow> bytes \<Rightarrow> bytes \<Rightarrow> bool" where
  "is_msg h1 h2 h3 buff \<longleftrightarrow>
     cstr (bslice 0 10 buff) = h1 \<and> cstr (bslice 10 10 buff) = h2 \<and> cstr (bslice 20 10 buff) = h3"

definition receive_turn :: "bytes \<Rightarrow> simple_sockaddr \<Rightarrow> bytes \<Rightarrow> peer \<Rightarrow> fault + peer \<times> datagram list" where
  "receive_turn typed remoteaddr packet p =
     (let ret = min 8192 (length packet);
          p = p\<lparr>p_buff := overwrite 0 (take 8192 packet) (p_buff p)\<rparr>;
          buff = p_buff p
      in if ret < 30 then Inr (p, [])
         else if is_msg (ascii ''request'') (ascii ''data'') (ascii ''doConnect'') buff then Inr (on_doConnect p)
         else if is_msg (ascii ''respond'') (ascii ''status'') (ascii ''ready'') buff then on_ready typed remoteaddr p
         else if is_msg (ascii ''request'') (ascii ''data'') (ascii ''fileName'') buff then on_fileName remoteaddr p
         else if is_msg (ascii ''respond'') (ascii ''data'') (ascii ''fileDesc'') buff then Inr (on_fileDesc remoteaddr p)
         else if is_msg (ascii ''respond'') (ascii ''apk'') (ascii ''fileDesc'') buff then on_fileDesc_apk remoteaddr p
         else if is_msg (ascii ''respond'') (ascii ''data'') (ascii ''sector'') buff then on_sector remoteaddr p
         else if is_msg (ascii ''respond'') (ascii ''apk'') (ascii ''sector'') buff then Inr (on_sector_apk p)
         else if is_msg (ascii ''request'') (ascii ''status'') (ascii ''ready'') buff then Inr (on_ready_request remoteaddr p)
         else Inr (p, []))"

end
