(* ===== verification/FileMsgs.thy ===== *)
theory FileMsgs
  imports FilePeer
begin

text \<open>
  What the datagrams of the file sharing demo are recognised as, and the receive loop as a case
  distinction on it: a datagram long enough for the fields a branch reads is read as it was sent, whatever
  earlier datagrams left in the buffer.
\<close>

datatype msg = MConnect | MReady | MName | MDesc | MDescApk | MSector | MSectorApk | MReadyReq | MOther

definition msg_of :: "bytes \<Rightarrow> msg" where
  "msg_of pk =
     (if length pk < 30 then MOther
      else if is_msg (ascii ''request'') (ascii ''data'') (ascii ''doConnect'') pk then MConnect
      else if is_msg (ascii ''respond'') (ascii ''status'') (ascii ''ready'') pk then MReady
      else if is_msg (ascii ''request'') (ascii ''data'') (ascii ''fileName'') pk then MName
      else if is_msg (ascii ''respond'') (ascii ''data'') (ascii ''fileDesc'') pk then MDesc
      else if is_msg (ascii ''respond'') (ascii ''apk'') (ascii ''fileDesc'') pk then MDescApk
      else if is_msg (ascii ''respond'') (ascii ''data'') (ascii ''sector'') pk then MSector
      else if is_msg (ascii ''respond'') (ascii ''apk'') (ascii ''sector'') pk then MSectorApk
      else if is_msg (ascii ''request'') (ascii ''status'') (ascii ''ready'') pk then MReadyReq
      else MOther)"

definition after_recv :: "bytes \<Rightarrow> peer \<Rightarrow> peer" where
  "after_recv pk p = p\<lparr>p_buff := overwrite 0 (take 8192 pk) (p_buff p)\<rparr>"

lemma received_fields [simp]:
  "p_fileReadBuff (after_recv pk p) = p_fileReadBuff p" "p_fileWriteBuff (after_recv pk p) = p_fileWriteBuff p"
  "p_fileBlockSize (after_recv pk p) = p_fileBlockSize p"
  "p_currentfileBlockPosition (after_recv pk p) = p_currentfileBlockPosition p"
  "p_currentWritefileBlockPosition (after_recv pk p) = p_currentWritefileBlockPosition p"
  "p_localFileName (after_recv pk p) = p_localFileName p" "p_send_thread (after_recv pk p) = p_send_thread p"
  "p_mConnection (after_recv pk p) = p_mConnection p" "p_dev (after_recv pk p) = p_dev p"
  by (simp_all add: after_recv_def)

lemma bslice_received:
  "off + n \<le> length pk \<Longrightarrow> off + n \<le> 8192 \<Longrightarrow> bslice off n (p_buff (after_recv pk p)) = bslice off n pk"
  by (simp add: after_recv_def overwrite_def bslice_append_left bslice_take)

lemma is_msg_received: "30 \<le> length pk \<Longrightarrow> is_msg a b c (p_buff (after_recv pk p)) = is_msg a b c pk"
  by (simp add: is_msg_def bslice_received)

lemma case_msg_if:
  "case_msg a b c d e f g h i (if P then x else y) =
     (if P then case_msg a b c d e f g h i x else case_msg a b c d e f g h i y)"
  by simp

lemma receive_turn_msg:
  "receive_turn typed a pk p =
     (case msg_of pk of
        MConnect \<Rightarrow> Inr (on_doConnect (after_recv pk p))
      | MReady \<Rightarrow> on_ready typed a (after_recv pk p)
      | MName \<Rightarrow> on_fileName a (after_recv pk p)
      | MDesc \<Rightarrow> Inr (on_fileDesc a (after_recv pk p))
      | MDescApk \<Rightarrow> on_fileDesc_apk a (after_recv pk p)
      | MSector \<Rightarrow> on_sector a (after_recv pk p)
      | MSectorApk \<Rightarrow> Inr (on_sector_apk (after_recv pk p))
      | MReadyReq \<Rightarrow> Inr (on_ready_request a (after_recv pk p))
      | MOther \<Rightarrow> Inr (after_recv pk p, []))"
proof (cases "length pk < 30")
  case True
  then show ?thesis by (simp add: receive_turn_def msg_of_def after_recv_def)
next
  case False
  then have "(length pk < 30) = False" "(min 8192 (length pk) < 30) = False" and long: "30 \<le> length pk" by simp_all
  then show ?thesis
    by (simp only: receive_turn_def Let_def after_recv_def [symmetric] is_msg_received [OF long] msg_of_def
        case_msg_if msg.case if_False split del: if_split)
qed

section \<open>The datagrams the program builds\<close>

lemma head10_eq: "length s \<le> 9 \<Longrightarrow> 0 \<notin> set s \<Longrightarrow> head10 s = s @ replicate (10 - length s) 0"
proof -
  assume s: "length s \<le> 9" "0 \<notin> set s"
  then have "cstr (s @ [0]) = s" by simp
  moreover have "drop (Suc (length s)) (replicate 10 0) = replicate (9 - length s) (0 :: u8)" by simp
  moreover have "replicate (10 - length s) (0 :: u8) = 0 # replicate (9 - length s) 0"
    using s by (simp add: Suc_diff_le flip: replicate_Suc)
  ultimately show ?thesis using s by (simp add: head10_def strcpy_def overwrite_def)
qed

lemma head10_facts:
  assumes "length s \<le> 9" "0 \<notin> set s"
  shows "length (head10 s) = 10" "cstr (head10 s) = s"
proof -
  show "length (head10 s) = 10" using assms by (simp add: head10_eq)
  have "replicate (10 - length s) (0 :: u8) = 0 # replicate (9 - length s) 0"
    using assms by (simp add: Suc_diff_le flip: replicate_Suc)
  then show "cstr (head10 s) = s" using assms by (simp add: head10_eq)
qed

lemma strcpy_head:
  assumes "length s \<le> 9" "0 \<notin> set s" "length h = 10"
  shows "length (strcpy h (s @ [0])) = 10" "cstr (strcpy h (s @ [0])) = s"
proof -
  have "strcpy h (s @ [0]) = s @ 0 # drop (Suc (length s)) h" using assms by (simp add: strcpy_def overwrite_def)
  then show "length (strcpy h (s @ [0])) = 10" "cstr (strcpy h (s @ [0])) = s" using assms by simp_all
qed

definition msg_words :: "string list" where
  "msg_words = [''request'', ''respond'', ''data'', ''status'', ''apk'', ''doConnect'', ''ready'', ''fileName'', ''fileDesc'', ''sector'']"

lemma msg_words_ascii: "w \<in> set msg_words \<Longrightarrow> length (ascii w) \<le> 9 \<and> 0 \<notin> set (ascii w)"
  by (auto simp: msg_words_def ascii_def)

lemmas head10_word = head10_facts [OF conjunct1 [OF msg_words_ascii] conjunct2 [OF msg_words_ascii]]

lemma is_msg_heads:
  assumes "length h1 = 10" "length h2 = 10" "length h3 = 10"
  shows "is_msg a b c (h1 @ h2 @ h3 @ rest) \<longleftrightarrow> cstr h1 = a \<and> cstr h2 = b \<and> cstr h3 = c"
  using assms by (simp add: is_msg_def bslice_def)

lemma msg_of_heads:
  assumes "length h1 = 10" "length h2 = 10" "length h3 = 10"
  shows "msg_of (h1 @ h2 @ h3 @ rest) =
     (if cstr h1 = ascii ''request'' \<and> cstr h2 = ascii ''data'' \<and> cstr h3 = ascii ''doConnect'' then MConnect
      else if cstr h1 = ascii ''respond'' \<and> cstr h2 = ascii ''status'' \<and> cstr h3 = ascii ''ready'' then MReady
      else if cstr h1 = ascii ''request'' \<and> cstr h2 = ascii ''data'' \<and> cstr h3 = ascii ''fileName'' then MName
      else if cstr h1 = ascii ''respond'' \<and> cstr h2 = ascii ''data'' \<and> cstr h3 = ascii ''fileDesc'' then MDesc
      else if cstr h1 = ascii ''respond'' \<and> cstr h2 = ascii ''apk'' \<and> cstr h3 = ascii ''fileDesc'' then MDescApk
      else if cstr h1 = ascii ''respond'' \<and> cstr h2 = ascii ''data'' \<and> cstr h3 = ascii ''sector'' then MSector
      else if cstr h1 = ascii ''respond'' \<and> cstr h2 = ascii ''apk'' \<and> cstr h3 = ascii ''sector'' then MSectorApk
      else if cstr h1 = ascii ''request'' \<and> cstr h2 = ascii ''status'' \<and> cstr h3 = ascii ''ready'' then MReadyReq
      else MOther)"
  using assms by (simp only: msg_of_def is_msg_heads [OF assms]) simp

lemma ascii_words [simp]:
  "ascii ''request'' \<noteq> ascii ''respond''" "ascii ''respond'' \<noteq> ascii ''request''"
  "ascii ''data'' \<noteq> ascii ''status''" "ascii ''status'' \<noteq> ascii ''data''"
  "ascii ''data'' \<noteq> ascii ''apk''" "ascii ''apk'' \<noteq> ascii ''data''"
  "ascii ''apk'' \<noteq> ascii ''status''" "ascii ''status'' \<noteq> ascii ''apk''"
  "ascii ''fileDesc'' \<noteq> ascii ''sector''" "ascii ''sector'' \<noteq> ascii ''fileDesc''"
  "ascii ''doConnect'' \<noteq> ascii ''fileName''" "ascii ''fileName'' \<noteq> ascii ''doConnect''"
  "ascii ''ready'' \<noteq> ascii ''fileName''" "ascii ''fileName'' \<noteq> ascii ''ready''"
  by (simp_all add: ascii_def)

lemmas word_heads = head10_word [of "''request''"] head10_word [of "''respond''"] head10_word [of "''data''"]
  head10_word [of "''status''"] head10_word [of "''apk''"] head10_word [of "''ready''"]
  head10_word [of "''fileName''"] head10_word [of "''fileDesc''"] head10_word [of "''sector''"]

lemma heads_built [simp]:
  "length (head10 (ascii ''request'')) = 10" "cstr (head10 (ascii ''request'')) = ascii ''request''"
  "length (head10 (ascii ''respond'')) = 10" "cstr (head10 (ascii ''respond'')) = ascii ''respond''"
  "length (head10 (ascii ''data'')) = 10" "cstr (head10 (ascii ''data'')) = ascii ''data''"
  "length (head10 (ascii ''status'')) = 10" "cstr (head10 (ascii ''status'')) = ascii ''status''"
  "length (head10 (ascii ''apk'')) = 10" "cstr (head10 (ascii ''apk'')) = ascii ''apk''"
  "length (head10 (ascii ''ready'')) = 10" "cstr (head10 (ascii ''ready'')) = ascii ''ready''"
  "length (head10 (ascii ''fileName'')) = 10" "cstr (head10 (ascii ''fileName'')) = ascii ''fileName''"
  "length (head10 (ascii ''fileDesc'')) = 10" "cstr (head10 (ascii ''fileDesc'')) = ascii ''fileDesc''"
  "length (head10 (ascii ''sector'')) = 10" "cstr (head10 (ascii ''sector'')) = ascii ''sector''"
  by (simp_all add: word_heads msg_words_def)

definition sector_packet :: "nat \<Rightarrow> bytes \<Rightarrow> bytes" where
  "sector_packet i d =
     head10 (ascii ''respond'') @ head10 (ascii ''data'') @ head10 (ascii ''sector'') @
     int_bytes (int (length d)) @ int_bytes (int i) @ d"

lemma bytes_int_bytes: "0 \<le> i \<Longrightarrow> i < 2 ^ 31 \<Longrightarrow> bytes_int (int_bytes i) = i"
  unfolding bytes_int_def int_bytes_def load32_mem32
  by (subst signed_of_int) (simp add: signed_take_bit_int_eq_self)

lemma length_int_bytes [simp]: "length (int_bytes i) = 4"
  by (simp add: int_bytes_def)

lemma sendSectorData_block:
  assumes "wf_blocks (sfb_mFileBlockList b)" "i < length (sfb_mFileBlockList b)"
  shows "sendSectorData b (int i) a = Inr (a, sector_packet i (block_bytes (sfb_mFileBlockList b ! i)))"
proof -
  obtain bs where "sfb_mFileBlockList b ! i =
      \<lparr>fb_mBuffer = Some bs, fb_mBufferSize = Some (int (length bs)), fb_mIndex = Some (int i)\<rparr>" "length bs \<le> 4096"
    using assms by (auto simp: wf_blocks_def wf_block_def)
  then show ?thesis
    using assms(2)
    by (simp add: sendSectorData_def getAt_def FileBlock_getDataSize_def FileBlock_getIndex_def FileBlock_getData_def
        block_bytes_def sector_packet_def BLOCK_MAX_LENGTH_def)
qed

lemma sector_packet_msg: "msg_of (sector_packet i d) = MSector"
  unfolding sector_packet_def by (subst msg_of_heads) simp_all

lemma sector_packet_fields:
  assumes "length d \<le> 4096" "int i < 2 ^ 31"
  shows "bytes_int (bslice 30 4 (p_buff (after_recv (sector_packet i d) p))) = int (length d)"
    "bytes_int (bslice 34 4 (p_buff (after_recv (sector_packet i d) p))) = int i"
    "bslice 38 (length d) (p_buff (after_recv (sector_packet i d) p)) = d"
proof -
  let ?pk = "sector_packet i d"
  have l: "length ?pk = 38 + length d" by (simp add: sector_packet_def)
  have "bslice 30 4 ?pk = int_bytes (int (length d))" "bslice 34 4 ?pk = int_bytes (int i)" "bslice 38 (length d) ?pk = d"
    by (simp_all add: sector_packet_def bslice_def)
  with assms l show "bytes_int (bslice 30 4 (p_buff (after_recv ?pk p))) = int (length d)"
    "bytes_int (bslice 34 4 (p_buff (after_recv ?pk p))) = int i"
    "bslice 38 (length d) (p_buff (after_recv ?pk p)) = d"
    by (simp_all add: bslice_received bytes_int_bytes)
qed

lemma head_packet_int:
  assumes "length h1 = 10" "length h2 = 10" "length h3 = 10" "0 \<le> i" "i < 2 ^ 31"
  shows "bytes_int (bslice 30 4 (p_buff (after_recv (h1 @ h2 @ h3 @ int_bytes i) p))) = i"
  using assms by (simp add: bslice_received bytes_int_bytes) (simp add: bslice_def bytes_int_bytes)

end
