(* ===== verification/FileTransfer.thy ===== *)
theory FileTransfer
  imports FileMsgs
begin

text \<open>
  Two peers of the file sharing demo over a network that loses, duplicates and reorders datagrams: what was
  once sent may be delivered any number of times, in any order, or never. Anyone else may send either peer
  datagrams, except the three that carry the transfer itself. The lemmas show what every step keeps: how far
  the two counters of a transfer are apart, which sectors are under way, and what the file written holds.
\<close>

section \<open>Two peers and a network\<close>

definition endpoint :: "simple_sockaddr \<Rightarrow> u16 \<times> bytes \<times> bytes" where
  "endpoint a = (sa_family a, sa_port a, sa_in4 a)"

record transfer =
  t_peer :: "bool \<Rightarrow> peer"
  t_net :: "(simple_sockaddr \<times> bool \<times> bytes) set"

text \<open>The datagrams peer \<open>q\<close> sends that reach a peer, with the address they come from.\<close>

definition route :: "(bool \<Rightarrow> simple_sockaddr) \<Rightarrow> bool \<Rightarrow> datagram list \<Rightarrow> (simple_sockaddr \<times> bool \<times> bytes) set" where
  "route addr q ds = {(addr q, q', pk) | q' pk a. (a, pk) \<in> set ds \<and> endpoint a = endpoint (addr q')}"

definition named_endpoint :: "bytes \<Rightarrow> u16 \<times> bytes \<times> bytes" where
  "named_endpoint pk = (AF_INET, mem16 (htons (load16 (bslice 34 2 pk))), bslice 30 4 pk)"

text \<open>
  A stranger's datagram: its sender is neither peer, it is not part of a transfer, and where it asks a peer to
  connect it names an address other than that peer's own.
\<close>

definition stranger :: "(bool \<Rightarrow> simple_sockaddr) \<Rightarrow> simple_sockaddr \<Rightarrow> bool \<Rightarrow> bytes \<Rightarrow> bool" where
  "stranger addr a q pk \<longleftrightarrow>
     (\<forall>p. endpoint a \<noteq> endpoint (addr p)) \<and> msg_of pk \<noteq> MDesc \<and> msg_of pk \<noteq> MSector \<and> msg_of pk \<noteq> MSectorApk \<and>
     (msg_of pk = MConnect \<longrightarrow> 36 \<le> length pk \<and> named_endpoint pk \<noteq> endpoint (addr q))"

definition set_peer :: "(bool \<Rightarrow> simple_sockaddr) \<Rightarrow> bool \<Rightarrow> peer \<times> datagram list \<Rightarrow> transfer \<Rightarrow> transfer" where
  "set_peer addr q r s = \<lparr>t_peer = (t_peer s)(q := fst r), t_net = t_net s \<union> route addr q (snd r)\<rparr>"

inductive transfer_step :: "(bool \<Rightarrow> simple_sockaddr) \<Rightarrow> (bool \<Rightarrow> bytes) \<Rightarrow> transfer \<Rightarrow> transfer \<Rightarrow> bool"
  for addr typed where
  deliver: "(a, q, pk) \<in> t_net s \<Longrightarrow> receive_turn (typed q) a pk (t_peer s q) = Inr r \<Longrightarrow>
     transfer_step addr typed s (set_peer addr q r s)"
| send: "send_step (t_peer s q) = Inr r \<Longrightarrow> transfer_step addr typed s (set_peer addr q r s)"
| ask: "transfer_step addr typed s (set_peer addr q (t_peer s q, [sendReadyToP2pServerRequest (addr (\<not> q))]) s)"
| other: "stranger addr a q pk \<Longrightarrow> transfer_step addr typed s (s\<lparr>t_net := insert (a, q, pk) (t_net s)\<rparr>)"

definition fresh_transfer :: "transfer \<Rightarrow> bool" where
  "fresh_transfer s \<longleftrightarrow> t_net s = {} \<and> (\<forall>q. \<exists>buff name d. t_peer s q = peer_init buff name d)"

section \<open>What holds of a transfer\<close>

definition blocks_of :: "peer \<Rightarrow> FileBlock list" where
  "blocks_of p = (case p_fileReadBuff p of None \<Rightarrow> [] | Some b \<Rightarrow> sfb_mFileBlockList b)"

definition file_content :: "FileBlock list \<Rightarrow> bytes" where
  "file_content bl = concat (map block_bytes bl)"

definition share_ok :: "simple_sockaddr \<Rightarrow> peer \<Rightarrow> peer \<Rightarrow> bool" where
  "share_ok af S F \<longleftrightarrow>
     wf_blocks (blocks_of S) \<and> -1 \<le> p_currentfileBlockPosition S \<and>
     (\<forall>t. p_send_thread S = Some t \<longrightarrow>
        0 \<le> p_currentfileBlockPosition S \<and> p_fileReadBuff S \<noteq> None \<and>
        (endpoint (st_remoteaddr t) = endpoint af \<longrightarrow> p_mConnection F) \<and>
        (\<forall>i. st_pc t = AtSend i \<longrightarrow> 0 \<le> i \<and> i \<le> p_currentfileBlockPosition S \<and> i < int (length (blocks_of S))))"

definition pace_ok :: "peer \<Rightarrow> peer \<Rightarrow> bool" where
  "pace_ok S F \<longleftrightarrow>
     0 \<le> p_currentWritefileBlockPosition F \<and>
     p_currentfileBlockPosition S \<le> p_currentWritefileBlockPosition F \<and>
     p_currentWritefileBlockPosition F \<le> p_currentfileBlockPosition S + 1 \<and>
     p_currentWritefileBlockPosition F \<le> int (length (blocks_of S)) \<and>
     (p_fileBlockSize F = 0 \<or> blocks_of S \<noteq> [] \<and> p_fileBlockSize F = int (length (blocks_of S)))"

definition local_path :: "peer \<Rightarrow> bytes" where
  "local_path F = ascii ''/data/'' @ cstr (p_localFileName F)"

definition written_file :: "FileBlock list \<Rightarrow> peer \<Rightarrow> FILE" where
  "written_file bl F =
     (let d = take (dev_room (p_dev F)) (file_content (take (nat (p_currentWritefileBlockPosition F)) bl))
      in \<lparr>f_path = local_path F, f_unread = [], f_written = d, f_room = dev_room (p_dev F) - length d, f_mode_w = True\<rparr>)"

definition file_ok :: "peer \<Rightarrow> peer \<Rightarrow> bool" where
  "file_ok S F \<longleftrightarrow>
     (case p_fileWriteBuff F of
        NullBuf \<Rightarrow> p_currentWritefileBlockPosition F = 0
      | LiveBuf b \<Rightarrow>
          p_mConnection F \<and>
          sfb_mFiledescription b =
            (if dev_writable (p_dev F) (local_path F) then Some (written_file (blocks_of S) F) else None)
      | FreedBuf \<Rightarrow>
          p_mConnection F \<and> blocks_of S \<noteq> [] \<and> p_currentWritefileBlockPosition F = int (length (blocks_of S)) \<and>
          p_fileBlockSize F = int (length (blocks_of S)) \<and>
          (dev_writable (p_dev F) (local_path F) \<longrightarrow>
             dev_files (p_dev F) (local_path F) = Some (take (dev_room (p_dev F)) (file_content (blocks_of S)))))"

text \<open>The datagrams that may be under way to the peer that fetches, and to the peer that shares.\<close>

definition desc_packet :: "int \<Rightarrow> bytes" where
  "desc_packet n = head10 (ascii ''respond'') @ head10 (ascii ''data'') @ head10 (ascii ''fileDesc'') @ int_bytes n"

definition apk_packet :: "int \<Rightarrow> bytes" where
  "apk_packet n = head10 (ascii ''respond'') @ head10 (ascii ''apk'') @ head10 (ascii ''sector'') @ int_bytes n"

definition to_fetcher_ok :: "peer \<Rightarrow> peer \<Rightarrow> bytes \<Rightarrow> bool" where
  "to_fetcher_ok S F pk \<longleftrightarrow>
     (msg_of pk = MSector \<longrightarrow> p_mConnection F \<and>
        (\<exists>i < length (blocks_of S). int i \<le> p_currentfileBlockPosition S \<and>
           pk = sector_packet i (block_bytes (blocks_of S ! i)))) \<and>
     (msg_of pk = MDesc \<longrightarrow> p_mConnection F \<and> blocks_of S \<noteq> [] \<and> pk = desc_packet (int (length (blocks_of S))))"

definition to_sharer_ok :: "simple_sockaddr \<Rightarrow> peer \<Rightarrow> simple_sockaddr \<Rightarrow> bytes \<Rightarrow> bool" where
  "to_sharer_ok af F a pk \<longleftrightarrow>
     (msg_of pk = MSectorApk \<longrightarrow> (\<exists>i. pk = apk_packet (int i) \<and> int i < p_currentWritefileBlockPosition F \<and> i < 2 ^ 31)) \<and>
     (msg_of pk = MName \<or> msg_of pk = MDescApk \<longrightarrow> endpoint a = endpoint af \<longrightarrow> p_mConnection F)"

definition evolves :: "peer \<Rightarrow> peer \<Rightarrow> peer \<Rightarrow> peer \<Rightarrow> bool" where
  "evolves S F S' F' \<longleftrightarrow>
     p_currentfileBlockPosition S \<le> p_currentfileBlockPosition S' \<and>
     (blocks_of S \<noteq> [] \<longrightarrow> blocks_of S' = blocks_of S) \<and>
     p_currentWritefileBlockPosition F \<le> p_currentWritefileBlockPosition F' \<and>
     (p_mConnection F \<longrightarrow> p_mConnection F')"

lemma to_fetcher_ok_evolves:
  assumes ok: "to_fetcher_ok S F pk" and ev: "evolves S F S' F'"
  shows "to_fetcher_ok S' F' pk"
proof -
  have m: "p_mConnection F \<Longrightarrow> p_mConnection F'" "p_currentfileBlockPosition S \<le> p_currentfileBlockPosition S'"
    and bl: "blocks_of S \<noteq> [] \<Longrightarrow> blocks_of S' = blocks_of S"
    using ev by (auto simp: evolves_def)
  show ?thesis
    unfolding to_fetcher_ok_def
  proof (intro conjI impI)
    assume "msg_of pk = MSector"
    then obtain i where "p_mConnection F" "i < length (blocks_of S)" "int i \<le> p_currentfileBlockPosition S"
      "pk = sector_packet i (block_bytes (blocks_of S ! i))"
      using ok unfolding to_fetcher_ok_def by blast
    moreover from this(2) bl have "blocks_of S' = blocks_of S" by fastforce
    ultimately show "p_mConnection F'" "\<exists>i < length (blocks_of S'). int i \<le> p_currentfileBlockPosition S' \<and>
        pk = sector_packet i (block_bytes (blocks_of S' ! i))"
      using m by (blast, intro exI [of _ i]) simp
  next
    assume "msg_of pk = MDesc"
    then have "p_mConnection F" "blocks_of S \<noteq> []" "pk = desc_packet (int (length (blocks_of S)))"
      using ok unfolding to_fetcher_ok_def by blast+
    then show "p_mConnection F'" "blocks_of S' \<noteq> []" "pk = desc_packet (int (length (blocks_of S')))"
      using m bl by simp_all
  qed
qed

lemma to_sharer_ok_evolves:
  assumes ok: "to_sharer_ok af F a pk" and ev: "evolves S F S' F'"
  shows "to_sharer_ok af F' a pk"
  unfolding to_sharer_ok_def
proof (intro conjI impI)
  assume "msg_of pk = MSectorApk"
  then obtain i where i: "pk = apk_packet (int i)" "int i < p_currentWritefileBlockPosition F" "i < 2 ^ 31"
    using ok unfolding to_sharer_ok_def by blast
  moreover have "p_currentWritefileBlockPosition F \<le> p_currentWritefileBlockPosition F'" using ev by (simp add: evolves_def)
  ultimately have "int i < p_currentWritefileBlockPosition F'" by linarith
  with i show "\<exists>i. pk = apk_packet (int i) \<and> int i < p_currentWritefileBlockPosition F' \<and> i < 2 ^ 31" by blast
next
  assume "msg_of pk = MName \<or> msg_of pk = MDescApk" "endpoint a = endpoint af"
  then show "p_mConnection F'" using ok ev unfolding to_sharer_ok_def evolves_def by blast
qed

lemma evolves_refl [simp]: "evolves S F S F"
  by (simp add: evolves_def)

section \<open>What the branches of the receive loop change\<close>

definition same_share :: "peer \<Rightarrow> peer \<Rightarrow> bool" where
  "same_share p p' \<longleftrightarrow>
     p_fileReadBuff p' = p_fileReadBuff p \<and> p_currentfileBlockPosition p' = p_currentfileBlockPosition p \<and>
     p_send_thread p' = p_send_thread p"

definition same_fetch :: "peer \<Rightarrow> peer \<Rightarrow> bool" where
  "same_fetch p p' \<longleftrightarrow>
     p_fileWriteBuff p' = p_fileWriteBuff p \<and> p_fileBlockSize p' = p_fileBlockSize p \<and>
     p_currentWritefileBlockPosition p' = p_currentWritefileBlockPosition p \<and>
     p_localFileName p' = p_localFileName p \<and> p_mConnection p' = p_mConnection p \<and> p_dev p' = p_dev p"

definition sends_only :: "msg set \<Rightarrow> datagram list \<Rightarrow> bool" where
  "sends_only ms ds \<longleftrightarrow> (\<forall>d \<in> set ds. msg_of (snd d) \<in> ms)"

lemma received_same [simp]: "same_share p (after_recv pk p)" "same_fetch p (after_recv pk p)"
  by (simp_all add: same_share_def same_fetch_def)

lemma msg_of_long: "msg_of pk \<noteq> MOther \<Longrightarrow> 30 \<le> length pk"
  by (auto simp: msg_of_def split: if_splits)

lemma received_heads:
  assumes "msg_of pk \<noteq> MOther" "w \<in> set msg_words" "off \<in> {0, 10, 20}"
  shows "length (strcpy (bslice off 10 (p_buff (after_recv pk p))) (ascii w @ [0])) = 10"
    "cstr (strcpy (bslice off 10 (p_buff (after_recv pk p))) (ascii w @ [0])) = ascii w"
proof -
  have "bslice off 10 (p_buff (after_recv pk p)) = bslice off 10 pk"
    by (rule bslice_received) (use msg_of_long [OF assms(1)] assms(3) in auto)
  then have "length (bslice off 10 (p_buff (after_recv pk p))) = 10"
    using msg_of_long [OF assms(1)] assms(3) by auto
  from strcpy_head [OF _ _ this, of "ascii w"] msg_words_ascii [OF assms(2)]
  show "length (strcpy (bslice off 10 (p_buff (after_recv pk p))) (ascii w @ [0])) = 10"
    "cstr (strcpy (bslice off 10 (p_buff (after_recv pk p))) (ascii w @ [0])) = ascii w" by blast+
qed

lemma msg_of_answer:
  assumes "msg_of pk \<noteq> MOther" "{a, b, c} \<subseteq> set msg_words"
  shows "msg_of (strcpy (bslice 0 10 (p_buff (after_recv pk p))) (ascii a @ [0]) @
       strcpy (bslice 10 10 (p_buff (after_recv pk p))) (ascii b @ [0]) @
       strcpy (bslice 20 10 (p_buff (after_recv pk p))) (ascii c @ [0])) =
     msg_of (head10 (ascii a) @ head10 (ascii b) @ head10 (ascii c))"
proof -
  have w: "a \<in> set msg_words" "b \<in> set msg_words" "c \<in> set msg_words" using assms(2) by auto
  note h = received_heads [OF assms(1), where p = p]
  show ?thesis
    using msg_of_heads [of "strcpy (bslice 0 10 (p_buff (after_recv pk p))) (ascii a @ [0])"
        "strcpy (bslice 10 10 (p_buff (after_recv pk p))) (ascii b @ [0])"
        "strcpy (bslice 20 10 (p_buff (after_recv pk p))) (ascii c @ [0])" "[]"]
      msg_of_heads [of "head10 (ascii a)" "head10 (ascii b)" "head10 (ascii c)" "[]"]
    by (simp only: append_Nil2 h w head10_word insert_iff simp_thms)
qed

lemma msg_of_ready_answer: "msg_of pk \<noteq> MOther \<Longrightarrow> msg_of (ready_answer (after_recv pk p)) = MReady"
  unfolding ready_answer_def
  by (subst msg_of_answer) (simp_all add: msg_words_def msg_of_heads [where rest = "[]", simplified])

lemma on_doConnect_result:
  "msg_of pk \<noteq> MOther \<Longrightarrow> on_doConnect (after_recv pk p) = (p', ds) \<Longrightarrow>
     same_share p p' \<and> same_fetch p p' \<and> sends_only {MReady} ds"
  by (auto simp: on_doConnect_def sends_only_def msg_of_ready_answer)

lemma on_ready_request_result:
  "msg_of pk \<noteq> MOther \<Longrightarrow> on_ready_request a (after_recv pk p) = (p', ds) \<Longrightarrow>
     same_share p p' \<and> same_fetch p p' \<and> sends_only {MReady} ds"
  by (auto simp: on_ready_request_def sends_only_def msg_of_ready_answer)

lemma on_ready_result:
  "on_ready typed a (after_recv pk p) = Inr (p', ds) \<Longrightarrow>
     same_share p p' \<and> p_mConnection p' \<and> (p_mConnection p \<longrightarrow> same_fetch p p') \<and>
     same_fetch p (p'\<lparr>p_localFileName := p_localFileName p, p_mConnection := p_mConnection p\<rparr>) \<and> sends_only {MName} ds"
  by (auto simp: on_ready_def sendRequestFileInfo_def Let_def same_share_def same_fetch_def sends_only_def msg_of_heads
      split: sum.splits if_splits)

lemma on_fileDesc_result:
  assumes "msg_of pk \<noteq> MOther" "on_fileDesc a (after_recv pk p) = (p', ds)"
  shows "same_share p p'" "same_fetch p (p'\<lparr>p_fileBlockSize := p_fileBlockSize p\<rparr>)"
    "p_fileBlockSize p' = bytes_int (bslice 30 4 (p_buff (after_recv pk p)))" "sends_only {MDescApk} ds"
proof -
  have "msg_of (head10 (ascii ''respond'') @ head10 (ascii ''apk'') @ head10 (ascii ''fileDesc'')) = MDescApk"
    by (simp add: msg_of_heads [where rest = "[]", simplified])
  with assms show "same_share p p'" "same_fetch p (p'\<lparr>p_fileBlockSize := p_fileBlockSize p\<rparr>)"
    "p_fileBlockSize p' = bytes_int (bslice 30 4 (p_buff (after_recv pk p)))" "sends_only {MDescApk} ds"
    by (auto simp: on_fileDesc_def same_share_def same_fetch_def sends_only_def msg_of_answer msg_words_def)
qed

lemma on_sector_apk_result:
  "on_sector_apk (after_recv pk p) = (p', ds) \<Longrightarrow>
     same_fetch p p' \<and> p_fileReadBuff p' = p_fileReadBuff p \<and> p_send_thread p' = p_send_thread p \<and> ds = [] \<and>
     p_currentfileBlockPosition p' =
       (if p_currentfileBlockPosition p = bytes_int (bslice 30 4 (p_buff (after_recv pk p)))
        then p_currentfileBlockPosition p + 1 else p_currentfileBlockPosition p)"
  by (auto simp: on_sector_apk_def Let_def same_fetch_def split: if_splits)

lemma on_fileDesc_apk_result:
  "on_fileDesc_apk a (after_recv pk p) = Inr (p', ds) \<Longrightarrow>
     same_fetch p p' \<and> p_fileReadBuff p' = p_fileReadBuff p \<and> ds = [] \<and>
     (same_share p p' \<or>
      p_currentfileBlockPosition p = -1 \<and> p_currentfileBlockPosition p' = 0 \<and>
      (p_send_thread p' = p_send_thread p \<or> p_fileReadBuff p \<noteq> None \<and>
       p_send_thread p' = Some \<lparr>st_remoteaddr = CSocketAddress_from_in4 a, st_pc = AtLoop\<rparr>))"
  by (auto simp: on_fileDesc_apk_def Let_def same_fetch_def same_share_def split: if_splits option.splits)

lemma on_fileName_result:
  "on_fileName a (after_recv pk p) = Inr (p', ds) \<Longrightarrow>
     same_fetch p p' \<and> p_currentfileBlockPosition p' = p_currentfileBlockPosition p \<and> p_send_thread p' = p_send_thread p \<and>
     (\<exists>b. p_fileReadBuff p' = Some b \<and>
        (p_fileReadBuff p = Some b \<or>
         p_fileReadBuff p = None \<and>
         (\<exists>r. SharedFileBuffer_reader (bslice 30 50 (p_buff (after_recv pk p))) (p_dev p) = Inr r \<and>
              b = snd (loadFileToBuffer r))) \<and>
        ds = (if getBlockSize b > 0 then [sendRespondFileInfo (getBlockSize b) a] else []))"
  by (cases "SharedFileBuffer_reader (bslice 30 50 (p_buff (after_recv pk p))) (p_dev p)"; cases "p_fileReadBuff p")
    (auto simp: on_fileName_def Let_def same_fetch_def)

section \<open>A sector received\<close>

lemma path_of_writer:
  "SharedFileBuffer_writer (p_localFileName F) (p_dev F) = Inr (b, d) \<Longrightarrow>
     (\<lparr>sfb_mFiledescription = fst (fopen_w (local_path F) (p_dev F)), sfb_mFileBlockList = []\<rparr>, snd (fopen_w (local_path F) (p_dev F))) = (b, d)"
  by (auto simp: SharedFileBuffer_writer_def filePath_of_def local_path_def split: if_splits prod.splits)

lemma sector_open_ok:
  assumes "file_ok S F" "p_fileWriteBuff F = NullBuf" "p_mConnection F"
    and "SharedFileBuffer_writer (p_localFileName F) (p_dev F) = Inr (b, d)"
  shows "file_ok S (F\<lparr>p_fileWriteBuff := LiveBuf b, p_dev := d\<rparr>)"
proof -
  have "b = \<lparr>sfb_mFiledescription = fst (fopen_w (local_path F) (p_dev F)), sfb_mFileBlockList = []\<rparr>"
    "d = snd (fopen_w (local_path F) (p_dev F))"
    using path_of_writer [OF assms(4)] by simp_all
  then show ?thesis
    using assms(1-3) by (auto simp: file_ok_def fopen_w_def written_file_def local_path_def file_content_def)
qed

lemma room_step:
  "take m xs @ take (min (length ys) (m - length (take m xs))) ys = take m (xs @ ys)"
  "m - (length (take m xs) + min (length ys) (m - length (take m xs))) = m - length (take m (xs @ ys))"
  by (auto simp: min_def)

lemma sector_write_ok:
  assumes "file_ok S F" "p_fileWriteBuff F = LiveBuf b" "p_currentWritefileBlockPosition F = int i" "i < length (blocks_of S)"
  shows "file_ok S (F\<lparr>p_fileWriteBuff := LiveBuf (snd (writeData (block_bytes (blocks_of S ! i)) b)),
           p_currentWritefileBlockPosition := p_currentWritefileBlockPosition F + 1\<rparr>)"
proof -
  let ?m = "dev_room (p_dev F)" and ?d = "block_bytes (blocks_of S ! i)" and ?done = "file_content (take i (blocks_of S))"
  have next': "file_content (take (Suc i) (blocks_of S)) = ?done @ ?d"
    using assms(4) by (simp add: file_content_def take_Suc_conv_app_nth)
  have n: "nat (int i + 1) = Suc i" by simp
  show ?thesis
    using assms(1-3) unfolding file_ok_def
    by (auto simp: writeData_def fwrite_def written_file_def local_path_def Let_def n next' room_step
        simp del: take_append length_take)
qed

lemma sector_close_ok:
  assumes "file_ok S F" "p_fileWriteBuff F = LiveBuf b" "p_currentWritefileBlockPosition F = int (length (blocks_of S))"
    and "blocks_of S \<noteq> []" "p_fileBlockSize F = int (length (blocks_of S))"
  shows "file_ok S (F\<lparr>p_fileWriteBuff := FreedBuf, p_dev := SharedFileBuffer_destroy b (p_dev F)\<rparr>)"
  using assms unfolding file_ok_def
  by (auto simp: SharedFileBuffer_destroy_def fclose_def written_file_def local_path_def Let_def)

lemma on_sector_stages:
  assumes "on_sector a p = Inr (p', ds)"
    and "bytes_int (bslice 30 4 (p_buff p)) = int n" "bytes_int (bslice 34 4 (p_buff p)) = index" "bslice 38 n (p_buff p) = d"
  shows "\<exists>p1 p2. opened p = Inr p1 \<and> sector_written index d p1 = Inr p2 \<and> last_closed index p2 = Inr p' \<and>
           ds = [sendSectorApk index a]"
  using assms by (auto simp: on_sector_def split: if_splits sum.splits)

lemma opened_same: "opened p = Inr p' \<Longrightarrow> same_share p p'"
  by (cases "p_fileWriteBuff p"; cases "SharedFileBuffer_writer (p_localFileName p) (p_dev p)")
    (auto simp: opened_def same_share_def)

lemma sector_written_same: "sector_written index d p = Inr p' \<Longrightarrow> same_share p p'"
  by (cases "p_fileWriteBuff p") (auto simp: sector_written_def same_share_def split: if_splits)

lemma last_closed_same: "last_closed index p = Inr p' \<Longrightarrow> same_share p p'"
  by (cases "p_fileWriteBuff p") (auto simp: last_closed_def same_share_def split: if_splits)

lemma same_share_trans: "same_share p q \<Longrightarrow> same_share q r \<Longrightarrow> same_share p r"
  by (simp add: same_share_def)

lemma on_sector_same_share:
  assumes "on_sector a p = Inr (p', ds)"
  shows "same_share p p' \<and> ds = [sendSectorApk (bytes_int (bslice 34 4 (p_buff p))) a]"
proof -
  let ?len = "bytes_int (bslice 30 4 (p_buff p))"
  have "0 \<le> ?len" using assms by (auto simp: on_sector_def Let_def split: if_splits)
  then have "?len = int (nat ?len)" by simp
  from on_sector_stages [OF assms this refl refl] obtain p1 p2 where
    "opened p = Inr p1" "sector_written (bytes_int (bslice 34 4 (p_buff p))) (bslice 38 (nat ?len) (p_buff p)) p1 = Inr p2"
    "last_closed (bytes_int (bslice 34 4 (p_buff p))) p2 = Inr p'" "ds = [sendSectorApk (bytes_int (bslice 34 4 (p_buff p))) a]"
    by (elim exE conjE)
  then show ?thesis by (blast intro: same_share_trans opened_same sector_written_same last_closed_same)
qed

section \<open>What a turn of the sharing peer keeps\<close>

definition dir_ok :: "simple_sockaddr \<Rightarrow> peer \<Rightarrow> peer \<Rightarrow> bool" where
  "dir_ok af S F \<longleftrightarrow> share_ok af S F \<and> pace_ok S F \<and> file_ok S F"

definition to_fetcher :: "simple_sockaddr \<Rightarrow> peer \<Rightarrow> peer \<Rightarrow> datagram list \<Rightarrow> bool" where
  "to_fetcher af S F ds \<longleftrightarrow> (\<forall>(b, pk) \<in> set ds. endpoint b = endpoint af \<longrightarrow> to_fetcher_ok S F pk)"

lemma blocks_of_same: "same_share S S' \<Longrightarrow> blocks_of S' = blocks_of S"
  by (simp add: blocks_of_def same_share_def)

lemma local_path_same: "same_fetch F F' \<Longrightarrow> local_path F' = local_path F"
  by (simp add: local_path_def same_fetch_def)

lemma file_ok_same:
  assumes "blocks_of S' = blocks_of S" "same_fetch F F'"
  shows "file_ok S' F' = file_ok S F"
  using assms local_path_same [OF assms(2)]
  by (cases "p_fileWriteBuff F") (simp_all add: file_ok_def written_file_def same_fetch_def)

lemma same_fetch_refl [simp]: "same_fetch F F"
  by (simp add: same_fetch_def)

lemma dir_ok_same_share:
  assumes "same_share S S'" "dir_ok af S F"
  shows "dir_ok af S' F \<and> evolves S F S' F"
  using assms blocks_of_same [OF assms(1)] file_ok_same [OF blocks_of_same [OF assms(1)] same_fetch_refl]
  by (simp add: dir_ok_def share_ok_def pace_ok_def evolves_def same_share_def)

lemma dir_ok_same_fetch:
  assumes "same_fetch F F'" "dir_ok af S F"
  shows "dir_ok af S F' \<and> evolves S F S F'"
  using assms file_ok_same [OF refl assms(1), of S]
  by (simp add: dir_ok_def share_ok_def pace_ok_def evolves_def same_fetch_def)

lemma to_fetcher_quiet: "sends_only ms ds \<Longrightarrow> MSector \<notin> ms \<Longrightarrow> MDesc \<notin> ms \<Longrightarrow> to_fetcher af S F ds"
  by (auto simp: sends_only_def to_fetcher_def to_fetcher_ok_def)

lemma getBlockSize_small: "length (sfb_mFileBlockList b) < 2 ^ 31 \<Longrightarrow> getBlockSize b = int (length (sfb_mFileBlockList b))"
  by (simp add: getBlockSize_def signed_of_nat signed_take_bit_int_eq_self)

lemma desc_packet_msg: "msg_of (desc_packet n) = MDesc"
  by (simp add: desc_packet_def msg_of_heads)

lemma apk_packet_msg: "msg_of (apk_packet n) = MSectorApk"
  by (simp add: apk_packet_def msg_of_heads)

lemma loaded_blocks:
  assumes "SharedFileBuffer_reader name d = Inr r"
  shows "wf_blocks (sfb_mFileBlockList (snd (loadFileToBuffer r)))"
  using loadFileToBuffer_blocks [OF assms] by auto

lemma sharer_loads:
  assumes ok: "dir_ok af S F" and none: "p_fileReadBuff S = None" and some: "p_fileReadBuff S' = Some b"
    and wf: "wf_blocks (sfb_mFileBlockList b)"
    and same: "p_currentfileBlockPosition S' = p_currentfileBlockPosition S" "p_send_thread S' = p_send_thread S"
  shows "dir_ok af S' F \<and> evolves S F S' F"
proof -
  have e: "blocks_of S = []" "blocks_of S' = sfb_mFileBlockList b" using none some by (simp_all add: blocks_of_def)
  have r0: "p_currentWritefileBlockPosition F = 0" using ok e by (simp add: dir_ok_def pace_ok_def)
  have "p_send_thread S = None" using ok none by (auto simp: dir_ok_def share_ok_def)
  moreover have "p_fileWriteBuff F \<noteq> FreedBuf" using ok e by (auto simp: dir_ok_def file_ok_def)
  ultimately show ?thesis
    using ok e r0 wf same
    by (auto simp: dir_ok_def share_ok_def pace_ok_def file_ok_def evolves_def written_file_def file_content_def
        split: write_ptr.splits)
qed

lemma sharer_answers_name:
  assumes ok: "dir_ok af S F" and pk: "to_sharer_ok af F a pk" "msg_of pk = MName"
    and small: "length (blocks_of S') < 2 ^ 31" and r: "on_fileName a (after_recv pk S) = Inr (S', ds)"
  shows "dir_ok af S' F \<and> evolves S F S' F \<and> to_fetcher af S' F ds"
proof -
  obtain b where b: "p_fileReadBuff S' = Some b"
    "p_fileReadBuff S = Some b \<or> p_fileReadBuff S = None \<and> wf_blocks (sfb_mFileBlockList b)"
    "ds = (if getBlockSize b > 0 then [sendRespondFileInfo (getBlockSize b) a] else [])"
    and same: "p_currentfileBlockPosition S' = p_currentfileBlockPosition S" "p_send_thread S' = p_send_thread S"
    using on_fileName_result [OF r] loaded_blocks by blast
  have "dir_ok af S' F \<and> evolves S F S' F"
  proof (cases "p_fileReadBuff S")
    case None
    then show ?thesis using sharer_loads [OF ok None b(1) _ same] b(2) by auto
  next
    case (Some b')
    then have "same_share S S'" using b same by (simp add: same_share_def)
    then show ?thesis by (rule dir_ok_same_share [OF _ ok])
  qed
  moreover have "to_fetcher af S' F ds"
  proof -
    have bl: "blocks_of S' = sfb_mFileBlockList b" using b(1) by (simp add: blocks_of_def)
    have n: "getBlockSize b = int (length (blocks_of S'))" using getBlockSize_small small bl by simp
    have "p_mConnection F" if "endpoint a = endpoint af" using pk that by (simp add: to_sharer_ok_def)
    then show ?thesis
      by (auto simp: b(3) n to_fetcher_def to_fetcher_ok_def sendRespondFileInfo_def desc_packet_msg [unfolded desc_packet_def]
          desc_packet_def)
  qed
  ultimately show ?thesis by blast
qed

lemma sharer_starts:
  assumes ok: "dir_ok af S F" and pk: "to_sharer_ok af F a pk" "msg_of pk = MDescApk"
    and r: "on_fileDesc_apk a (after_recv pk S) = Inr (S', ds)"
  shows "dir_ok af S' F \<and> evolves S F S' F \<and> to_fetcher af S' F ds"
proof -
  note result = on_fileDesc_apk_result [OF r]
  have conn: "p_mConnection F" if "endpoint (CSocketAddress_from_in4 a) = endpoint af"
    using pk that by (simp add: to_sharer_ok_def endpoint_def CSocketAddress_from_in4_def sockaddr_zero_def)
  have bl: "blocks_of S' = blocks_of S" using result by (simp add: blocks_of_def)
  have "dir_ok af S' F \<and> evolves S F S' F"
  proof (cases "same_share S S'")
    case True
    then show ?thesis by (rule dir_ok_same_share [OF _ ok])
  next
    case False
    with ok bl result conn file_ok_same [OF bl same_fetch_refl] show ?thesis
      by (auto simp: dir_ok_def share_ok_def pace_ok_def evolves_def)
  qed
  then show ?thesis using result by (simp add: to_fetcher_def)
qed

lemma apk_index: "i < 2 ^ 31 \<Longrightarrow> bytes_int (bslice 30 4 (p_buff (after_recv (apk_packet (int i)) p))) = int i"
  unfolding apk_packet_def by (rule head_packet_int) simp_all

lemma sharer_advances:
  assumes ok: "dir_ok af S F" and pk: "to_sharer_ok af F a pk" "msg_of pk = MSectorApk"
    and r: "on_sector_apk (after_recv pk S) = (S', ds)"
  shows "dir_ok af S' F \<and> evolves S F S' F \<and> to_fetcher af S' F ds"
proof -
  obtain i where i: "pk = apk_packet (int i)" "int i < p_currentWritefileBlockPosition F" "i < 2 ^ 31"
    using pk unfolding to_sharer_ok_def by blast
  note result = on_sector_apk_result [OF r, unfolded i(1) apk_index [OF i(3)]]
  have bl: "blocks_of S' = blocks_of S" using result by (simp add: blocks_of_def)
  with ok result i(2) file_ok_same [OF bl same_fetch_refl] show ?thesis
    by (auto simp: dir_ok_def share_ok_def pace_ok_def evolves_def to_fetcher_def split: if_splits)
qed

lemma sharer_turn:
  assumes ok: "dir_ok af S F" and pk: "to_sharer_ok af F a pk" and small: "length (blocks_of S') < 2 ^ 31"
    and r: "receive_turn typed a pk S = Inr (S', ds)"
  shows "dir_ok af S' F \<and> evolves S F S' F \<and> to_fetcher af S' F ds"
proof -
  note r' = r [unfolded receive_turn_msg]
  show ?thesis
  proof (cases "msg_of pk")
    case MConnect
    then have "same_share S S' \<and> sends_only {MReady} ds" using r' on_doConnect_result [of pk S S' ds] by simp
    then show ?thesis using dir_ok_same_share [OF _ ok] to_fetcher_quiet [of "{MReady}"] by blast
  next
    case MReady
    then have "same_share S S' \<and> sends_only {MName} ds" using r' on_ready_result [of typed a pk S S' ds] by simp
    then show ?thesis using dir_ok_same_share [OF _ ok] to_fetcher_quiet [of "{MName}"] by blast
  next
    case MName
    then show ?thesis using r' sharer_answers_name [OF ok pk MName small, of ds] by simp
  next
    case MDesc
    then have "same_share S S' \<and> sends_only {MDescApk} ds" using r' on_fileDesc_result [of pk a S S' ds] by simp
    then show ?thesis using dir_ok_same_share [OF _ ok] to_fetcher_quiet [of "{MDescApk}"] by blast
  next
    case MDescApk
    then show ?thesis using r' sharer_starts [OF ok pk MDescApk, of S' ds] by simp
  next
    case MSector
    then have "same_share (after_recv pk S) S' \<and> sends_only {MSectorApk} ds"
      using r' on_sector_same_share [of a "after_recv pk S" S' ds]
      by (auto simp: sends_only_def sendSectorApk_def apk_packet_msg [unfolded apk_packet_def])
    then show ?thesis
      using dir_ok_same_share [OF same_share_trans [OF received_same(1)] ok] to_fetcher_quiet [of "{MSectorApk}"] by blast
  next
    case MSectorApk
    then show ?thesis using r' sharer_advances [OF ok pk MSectorApk, of S' ds] by simp
  next
    case MReadyReq
    then have "same_share S S' \<and> sends_only {MReady} ds" using r' on_ready_request_result [of pk a S S' ds] by simp
    then show ?thesis using dir_ok_same_share [OF _ ok] to_fetcher_quiet [of "{MReady}"] by blast
  next
    case MOther
    then show ?thesis using r' dir_ok_same_share [OF received_same(1) ok, of pk] by (auto simp: to_fetcher_def)
  qed
qed

section \<open>What a turn of the fetching peer keeps\<close>

definition to_sharer :: "simple_sockaddr \<Rightarrow> peer \<Rightarrow> datagram list \<Rightarrow> bool" where
  "to_sharer af F ds \<longleftrightarrow> (\<forall>(b, pk) \<in> set ds. to_sharer_ok af F af pk)"

lemma to_sharer_quiet:
  "sends_only ms ds \<Longrightarrow> MSectorApk \<notin> ms \<Longrightarrow> p_mConnection F \<or> MName \<notin> ms \<and> MDescApk \<notin> ms \<Longrightarrow> to_sharer af F ds"
  by (auto simp: sends_only_def to_sharer_def to_sharer_ok_def)

lemma fetcher_asks:
  assumes ok: "dir_ok af S F" and r: "on_ready typed a (after_recv pk F) = Inr (F', ds)"
  shows "dir_ok af S F' \<and> evolves S F S F' \<and> to_sharer af F' ds"
proof -
  note result = on_ready_result [OF r]
  then have quiet: "to_sharer af F' ds" by (blast intro: to_sharer_quiet [of "{MName}"])
  show ?thesis
  proof (cases "p_mConnection F")
    case True
    then show ?thesis using result dir_ok_same_fetch [OF _ ok] quiet by blast
  next
    case False
    then have "p_fileWriteBuff F = NullBuf" using ok by (auto simp: dir_ok_def file_ok_def split: write_ptr.splits)
    with ok result quiet show ?thesis
      by (auto simp: dir_ok_def share_ok_def pace_ok_def file_ok_def evolves_def same_fetch_def)
  qed
qed

lemma fetcher_learns_size:
  assumes ok: "dir_ok af S F" and pk: "to_fetcher_ok S F pk" "msg_of pk = MDesc" and small: "length (blocks_of S) < 2 ^ 31"
    and r: "on_fileDesc a (after_recv pk F) = (F', ds)"
  shows "dir_ok af S F' \<and> evolves S F S F' \<and> to_sharer af F' ds"
proof -
  let ?n = "int (length (blocks_of S))"
  have pk': "p_mConnection F" "blocks_of S \<noteq> []" "pk = desc_packet ?n" using pk by (auto simp: to_fetcher_ok_def)
  have n: "bytes_int (bslice 30 4 (p_buff (after_recv pk F))) = ?n"
    unfolding pk'(3) desc_packet_def by (rule head_packet_int) (use small in simp_all)
  have "msg_of pk \<noteq> MOther" using pk(2) by simp
  note result = on_fileDesc_result [OF this r]
  let ?F = "F'\<lparr>p_fileBlockSize := p_fileBlockSize F\<rparr>"
  have "dir_ok af S ?F \<and> evolves S F S ?F" by (rule dir_ok_same_fetch [OF result(2) ok])
  then have "dir_ok af S F' \<and> evolves S F S F'"
    using result(3) n pk'(2)
    by (simp add: dir_ok_def share_ok_def pace_ok_def evolves_def)
      (auto simp: file_ok_def written_file_def local_path_def split: write_ptr.splits)
  moreover have "to_sharer af F' ds"
    by (rule to_sharer_quiet [OF result(4)]) (use result(2) pk'(1) in \<open>simp_all add: same_fetch_def\<close>)
  ultimately show ?thesis by blast
qed

lemma sector_stages_ok:
  assumes ok: "pace_ok S F" "file_ok S F" "p_mConnection F"
    and i: "i < length (blocks_of S)" "int i \<le> p_currentfileBlockPosition S"
    and st: "opened F = Inr F1" "sector_written (int i) (block_bytes (blocks_of S ! i)) F1 = Inr F2"
      "last_closed (int i) F2 = Inr F'"
  shows "pace_ok S F' \<and> file_ok S F' \<and> p_mConnection F' \<and> int i < p_currentWritefileBlockPosition F' \<and>
           p_currentWritefileBlockPosition F \<le> p_currentWritefileBlockPosition F'"
proof -
  have le: "int i \<le> p_currentWritefileBlockPosition F" using ok(1) i(2) by (simp add: pace_ok_def)
  have 1: "file_ok S F1" "pace_ok S F1" "p_mConnection F1"
    "p_currentWritefileBlockPosition F1 = p_currentWritefileBlockPosition F"
    using st(1) ok sector_open_ok [OF ok(2) _ ok(3)]
    by (auto simp: opened_def pace_ok_def split: write_ptr.splits sum.splits)
  have 2: "file_ok S F2 \<and> pace_ok S F2 \<and> p_mConnection F2 \<and> int i < p_currentWritefileBlockPosition F2 \<and>
      p_currentWritefileBlockPosition F \<le> p_currentWritefileBlockPosition F2"
  proof (cases "p_currentWritefileBlockPosition F1 = int i")
    case True
    then obtain b where b: "p_fileWriteBuff F1 = LiveBuf b"
      "F2 = F1\<lparr>p_fileWriteBuff := LiveBuf (snd (writeData (block_bytes (blocks_of S ! i)) b)),
           p_currentWritefileBlockPosition := p_currentWritefileBlockPosition F1 + 1\<rparr>"
      using st(2) by (auto simp: sector_written_def split: write_ptr.splits)
    from sector_write_ok [OF 1(1) b(1) True i(1)] show ?thesis
      using 1 i True by (auto simp: b(2) pace_ok_def)
  next
    case False
    then show ?thesis using st(2) 1 le by (auto simp: sector_written_def)
  qed
  show ?thesis
  proof (cases "int i = p_fileBlockSize F2 - 1")
    case True
    then obtain b where b: "p_fileWriteBuff F2 = LiveBuf b"
      "F' = F2\<lparr>p_fileWriteBuff := FreedBuf, p_dev := SharedFileBuffer_destroy b (p_dev F2)\<rparr>"
      using st(3) by (auto simp: last_closed_def split: write_ptr.splits)
    have "p_currentWritefileBlockPosition F2 = int (length (blocks_of S))" "blocks_of S \<noteq> []"
      "p_fileBlockSize F2 = int (length (blocks_of S))"
      using 2 True by (auto simp: pace_ok_def)
    from sector_close_ok [OF _ b(1) this] 2 show ?thesis by (auto simp: b(2) pace_ok_def)
  next
    case False
    then show ?thesis using st(3) 2 by (auto simp: last_closed_def)
  qed
qed

lemma fetcher_gets_sector:
  assumes ok: "dir_ok af S F" and pk: "to_fetcher_ok S F pk" "msg_of pk = MSector" and small: "length (blocks_of S) < 2 ^ 31"
    and r: "on_sector a (after_recv pk F) = Inr (F', ds)"
  shows "dir_ok af S F' \<and> evolves S F S F' \<and> to_sharer af F' ds"
proof -
  obtain i where i: "p_mConnection F" "i < length (blocks_of S)" "int i \<le> p_currentfileBlockPosition S"
    "pk = sector_packet i (block_bytes (blocks_of S ! i))"
    using pk unfolding to_fetcher_ok_def by blast
  have "wf_blocks (blocks_of S)" using ok by (simp add: dir_ok_def share_ok_def)
  then have len: "length (block_bytes (blocks_of S ! i)) \<le> 4096"
    using i(2) by (auto simp: wf_blocks_def wf_block_def block_bytes_def)
  have i31: "i < 2 ^ 31" using i(2) small by simp
  let ?F = "after_recv pk F"
  have F: "pace_ok S ?F" "file_ok S ?F" "p_mConnection ?F"
    using dir_ok_same_fetch [OF received_same(2) ok, of pk] i(1) by (simp_all add: dir_ok_def)
  have "int i < 2 ^ 31" using i31 by simp
  note fields = sector_packet_fields [OF len this, folded i(4), of F]
  from on_sector_stages [OF r fields] obtain p1 p2 where
    st: "opened ?F = Inr p1" "sector_written (int i) (block_bytes (blocks_of S ! i)) p1 = Inr p2" "last_closed (int i) p2 = Inr F'"
      and ds: "ds = [sendSectorApk (int i) a]"
    by (elim exE conjE)
  from sector_stages_ok [OF F i(2,3) st]
  have new: "pace_ok S F'" "file_ok S F'" "p_mConnection F'" "int i < p_currentWritefileBlockPosition F'"
    "p_currentWritefileBlockPosition F \<le> p_currentWritefileBlockPosition F'" by simp_all
  have "to_sharer_ok af F' af (apk_packet (int i))"
    using new(3,4) i31 by (auto simp: to_sharer_ok_def apk_packet_msg)
  then have "to_sharer af F' ds" by (simp add: ds to_sharer_def sendSectorApk_def flip: apk_packet_def)
  moreover have "share_ok af S F'" using ok new(3) by (simp add: dir_ok_def share_ok_def)
  ultimately show ?thesis using new by (simp add: dir_ok_def evolves_def)
qed

lemma sendRespond_msg: "msg_of (snd (sendRespondFileInfo n a)) = MDesc"
  by (simp add: sendRespondFileInfo_def msg_of_heads)

lemma fetcher_turn:
  assumes ok: "dir_ok af S F" and pk: "to_fetcher_ok S F pk" and small: "length (blocks_of S) < 2 ^ 31"
    and r: "receive_turn typed a pk F = Inr (F', ds)"
  shows "dir_ok af S F' \<and> evolves S F S F' \<and> to_sharer af F' ds"
proof -
  note r' = r [unfolded receive_turn_msg]
  have quiet: ?thesis if "same_fetch F F'" "ds = [] \<or> sends_only {MReady, MDesc} ds"
    using dir_ok_same_fetch [OF that(1) ok] that(2) to_sharer_quiet [of "{MReady, MDesc}" ds F' af]
    by (auto simp: to_sharer_def)
  show ?thesis
  proof (cases "msg_of pk")
    case MConnect
    then show ?thesis using r' on_doConnect_result [of pk F F' ds] by (intro quiet) (auto simp: sends_only_def)
  next
    case MReady
    then show ?thesis using r' fetcher_asks [OF ok, of typed a pk F' ds] by simp
  next
    case MName
    then show ?thesis using r' on_fileName_result [of a pk F F' ds]
      by (intro quiet) (auto simp: sends_only_def sendRespond_msg)
  next
    case MDesc
    then show ?thesis using r' fetcher_learns_size [OF ok pk MDesc small, of a F' ds] by simp
  next
    case MDescApk
    then show ?thesis using r' on_fileDesc_apk_result [of a pk F F' ds] by (intro quiet) auto
  next
    case MSector
    then show ?thesis using r' fetcher_gets_sector [OF ok pk MSector small, of a F' ds] by simp
  next
    case MSectorApk
    then show ?thesis using r' on_sector_apk_result [of pk F F' ds] by (intro quiet) auto
  next
    case MReadyReq
    then show ?thesis using r' on_ready_request_result [of pk a F F' ds] by (intro quiet) (auto simp: sends_only_def)
  next
    case MOther
    then show ?thesis using r' by (intro quiet) auto
  qed
qed

section \<open>The sending thread\<close>

lemma send_step_same_fetch: "send_step p = Inr (p', ds) \<Longrightarrow> same_fetch p p'"
  by (cases "p_send_thread p"; cases "p_fileReadBuff p"; cases "st_pc (the (p_send_thread p))")
    (auto simp: send_step_def Let_def same_fetch_def split: if_splits sum.splits)

lemma send_step_sends: "send_step p = Inr (p', ds) \<Longrightarrow> sends_only {MSector} ds"
proof -
  have "msg_of (snd d) = MSector" if "sendSectorData b i a = Inr d" for b i a d
    using that by (auto simp: sendSectorData_def msg_of_heads split: sum.splits option.splits if_splits)
  then show "send_step p = Inr (p', ds) \<Longrightarrow> sends_only {MSector} ds"
    by (cases "p_send_thread p"; cases "p_fileReadBuff p"; cases "st_pc (the (p_send_thread p))")
      (auto simp: send_step_def Let_def sends_only_def split: if_splits sum.splits)
qed

lemma blocks_of_thread [simp]: "blocks_of (S\<lparr>p_send_thread := x\<rparr>) = blocks_of S"
  by (simp add: blocks_of_def)

lemma sharer_sends:
  assumes ok: "dir_ok af S F" and small: "length (blocks_of S) < 2 ^ 31" and r: "send_step S = Inr (S', ds)"
  shows "dir_ok af S' F \<and> evolves S F S' F \<and> to_fetcher af S' F ds"
proof (cases "p_send_thread S")
  case None
  then show ?thesis using r ok by (auto simp: send_step_def to_fetcher_def)
next
  case (Some t)
  obtain b where b: "p_fileReadBuff S = Some b" and pos: "0 \<le> p_currentfileBlockPosition S"
    and conn: "endpoint (st_remoteaddr t) = endpoint af \<Longrightarrow> p_mConnection F"
    and at: "\<And>i. st_pc t = AtSend i \<Longrightarrow> 0 \<le> i \<and> i \<le> p_currentfileBlockPosition S \<and> i < int (length (blocks_of S))"
    and wf: "wf_blocks (blocks_of S)"
    using ok Some by (auto simp: dir_ok_def share_ok_def)
  have bl: "blocks_of S = sfb_mFileBlockList b" using b by (simp add: blocks_of_def)
  have n: "getBlockSize b = int (length (blocks_of S))" using getBlockSize_small small bl by simp
  have upd: "dir_ok af (S\<lparr>p_send_thread := Some (t\<lparr>st_pc := pc\<rparr>)\<rparr>) F \<and> evolves S F (S\<lparr>p_send_thread := Some (t\<lparr>st_pc := pc\<rparr>)\<rparr>) F"
    if "\<And>i. pc = AtSend i \<Longrightarrow> i = p_currentfileBlockPosition S \<and> i < int (length (blocks_of S))" for pc
  proof -
    show ?thesis
      using ok that b pos conn wf file_ok_same [OF blocks_of_thread same_fetch_refl]
      by (auto simp: dir_ok_def share_ok_def pace_ok_def evolves_def)
  qed
  show ?thesis
  proof (cases "st_pc t")
    case AtLoop
    then show ?thesis
      using r upd [of "AtSend (p_currentfileBlockPosition S)"] upd [of Returned]
      by (auto simp: send_step_def Let_def Some b n to_fetcher_def split: if_splits)
  next
    case (AtSend i)
    from at [OF this] obtain k where k: "i = int k" "k < length (blocks_of S)" "int k \<le> p_currentfileBlockPosition S"
      by (metis nonneg_int_cases of_nat_less_iff)
    have "sendSectorData b i (st_remoteaddr t) = Inr (st_remoteaddr t, sector_packet k (block_bytes (blocks_of S ! k)))"
      unfolding k(1) bl by (rule sendSectorData_block) (use wf k(2) bl in simp_all)
    with r have S': "S' = S\<lparr>p_send_thread := Some (t\<lparr>st_pc := AtLoop\<rparr>)\<rparr>"
      and ds: "ds = [(st_remoteaddr t, sector_packet k (block_bytes (blocks_of S ! k)))]"
      by (simp_all add: send_step_def Some b AtSend)
    have "to_fetcher_ok S F (sector_packet k (block_bytes (blocks_of S ! k)))" if "endpoint (st_remoteaddr t) = endpoint af"
      using k conn [OF that] by (auto simp: to_fetcher_ok_def sector_packet_msg)
    then have "to_fetcher af S' F ds" using upd [of AtLoop] to_fetcher_ok_evolves
      by (auto simp: ds S' to_fetcher_def)
    then show ?thesis using upd [of AtLoop] by (simp add: S')
  next
    case Returned
    then show ?thesis using r ok by (auto simp: send_step_def Some b to_fetcher_def)
  qed
qed

section \<open>Where datagrams go\<close>

lemma doConnect_dest:
  assumes "msg_of pk = MConnect" "36 \<le> length pk" "(b, pk') \<in> set (snd (on_doConnect (after_recv pk p)))"
  shows "endpoint b = named_endpoint pk"
  using assms by (simp add: on_doConnect_def bslice_received endpoint_def named_endpoint_def sockaddr_zero_def)

lemma turn_dests:
  assumes "receive_turn typed a pk p = Inr (p', ds)" "(b, pk') \<in> set ds"
  shows "b = a \<or> msg_of pk = MConnect \<and> (36 \<le> length pk \<longrightarrow> endpoint b = named_endpoint pk)"
proof (cases "msg_of pk = MConnect")
  case True
  then show ?thesis using assms doConnect_dest [of pk b pk' p] by (auto simp: receive_turn_msg)
next
  case False
  then show ?thesis
    using assms on_sector_same_share [of a "after_recv pk p" p' ds] on_fileName_result [of a pk p p' ds]
    by (auto simp: receive_turn_msg on_ready_def sendRequestFileInfo_def Let_def on_fileDesc_def on_fileDesc_apk_def
        on_sector_apk_def on_ready_request_def sendSectorApk_def sendRespondFileInfo_def
        split: msg.splits if_splits sum.splits option.splits)
qed

lemma turn_thread:
  assumes "receive_turn typed a pk p = Inr (p', ds)" "p_send_thread p' = Some t"
  shows "p_send_thread p = Some t \<or> endpoint (st_remoteaddr t) = endpoint a"
proof -
  note r = assms(1) [unfolded receive_turn_msg]
  have "same_share p p' \<or> p_send_thread p' = p_send_thread p \<or>
      p_send_thread p' = Some \<lparr>st_remoteaddr = CSocketAddress_from_in4 a, st_pc = AtLoop\<rparr>"
    using r on_doConnect_result [of pk p p' ds] on_ready_result [of typed a pk p p' ds] on_fileName_result [of a pk p p' ds]
      on_fileDesc_result(1) [of pk a p p' ds] on_fileDesc_apk_result [of a pk p p' ds]
      same_share_trans [OF received_same(1) conjunct1 [OF on_sector_same_share [of a "after_recv pk p" p' ds]]]
      on_sector_apk_result [of pk p p' ds] on_ready_request_result [of pk a p p' ds]
    by (cases "msg_of pk") auto
  then show ?thesis
    using assms(2) by (auto simp: same_share_def endpoint_def CSocketAddress_from_in4_def sockaddr_zero_def)
qed

lemma send_step_thread:
  assumes "send_step p = Inr (p', ds)"
  shows "\<forall>t'. p_send_thread p' = Some t' \<longrightarrow> (\<exists>t. p_send_thread p = Some t \<and> st_remoteaddr t' = st_remoteaddr t)"
    "\<forall>(b, pk) \<in> set ds. \<exists>t. p_send_thread p = Some t \<and> b = st_remoteaddr t"
proof -
  have "fst d = a" if "sendSectorData b i a = Inr d" for b i a d
    using that by (auto simp: sendSectorData_def split: sum.splits option.splits if_splits)
  then show "\<forall>t'. p_send_thread p' = Some t' \<longrightarrow> (\<exists>t. p_send_thread p = Some t \<and> st_remoteaddr t' = st_remoteaddr t)"
    "\<forall>(b, pk) \<in> set ds. \<exists>t. p_send_thread p = Some t \<and> b = st_remoteaddr t"
    using assms
    by (cases "p_send_thread p"; cases "p_fileReadBuff p"; cases "st_pc (the (p_send_thread p))";
        fastforce simp: send_step_def Let_def split: if_splits sum.splits)+
qed

end
