(* ===== verification/FileSharing.thy ===== *)
theory FileSharing
  imports FileTransfer
begin

text \<open>
  The invariant of two peers that share files with each other (\<open>FileTransfer\<close>), kept by every step of the
  transfer, and the properties of the demo that rest on it.
\<close>

lemma turn_no_connect:
  assumes "receive_turn typed a pk p = Inr (p', ds)" "(b, pk') \<in> set ds"
  shows "msg_of pk' \<noteq> MConnect"
proof -
  note r = assms(1) [unfolded receive_turn_msg]
  have "ds = [] \<or> (\<exists>ms. sends_only ms ds \<and> MConnect \<notin> ms)"
  proof (cases "msg_of pk")
    case MConnect
    then show ?thesis using r on_doConnect_result [of pk p p' ds] by (intro disjI2 exI [of _ "{MReady}"]) auto
  next
    case MReady
    then show ?thesis using r on_ready_result [of typed a pk p p' ds] by (intro disjI2 exI [of _ "{MName}"]) auto
  next
    case MName
    then show ?thesis using r on_fileName_result [of a pk p p' ds]
      by (intro disjI2 exI [of _ "{MDesc}"]) (auto simp: sends_only_def sendRespond_msg)
  next
    case MDesc
    then show ?thesis using r on_fileDesc_result [of pk a p p' ds] by (intro disjI2 exI [of _ "{MDescApk}"]) auto
  next
    case MSector
    then show ?thesis using r on_sector_same_share [of a "after_recv pk p" p' ds]
      by (intro disjI2 exI [of _ "{MSectorApk}"])
        (auto simp: sends_only_def sendSectorApk_def apk_packet_msg [unfolded apk_packet_def])
  next
    case MReadyReq
    then show ?thesis using r on_ready_request_result [of pk a p p' ds] by (intro disjI2 exI [of _ "{MReady}"]) auto
  qed (use r on_fileDesc_apk_result [of a pk p p' ds] on_sector_apk_result [of pk p p' ds] in auto)
  then show ?thesis using assms(2) by (auto simp: sends_only_def)
qed

section \<open>The invariant\<close>

definition small_files :: "transfer \<Rightarrow> bool" where
  "small_files s \<longleftrightarrow> (\<forall>q. length (blocks_of (t_peer s q)) < 2 ^ 31)"

definition distinct_peers :: "(bool \<Rightarrow> simple_sockaddr) \<Rightarrow> bool" where
  "distinct_peers addr \<longleftrightarrow> endpoint (addr True) \<noteq> endpoint (addr False)"

definition net_ok :: "(bool \<Rightarrow> simple_sockaddr) \<Rightarrow> transfer \<Rightarrow> bool" where
  "net_ok addr s \<longleftrightarrow>
     (\<forall>(a, q, pk) \<in> t_net s.
        to_fetcher_ok (t_peer s (\<not> q)) (t_peer s q) pk \<and>
        to_sharer_ok (addr (\<not> q)) (t_peer s (\<not> q)) a pk \<and>
        endpoint a \<noteq> endpoint (addr q) \<and>
        (msg_of pk = MConnect \<longrightarrow> 36 \<le> length pk \<and> named_endpoint pk \<noteq> endpoint (addr q)))"

definition threads_ok :: "(bool \<Rightarrow> simple_sockaddr) \<Rightarrow> transfer \<Rightarrow> bool" where
  "threads_ok addr s \<longleftrightarrow>
     (\<forall>q t. p_send_thread (t_peer s q) = Some t \<longrightarrow> endpoint (st_remoteaddr t) \<noteq> endpoint (addr q))"

definition transfer_ok :: "(bool \<Rightarrow> simple_sockaddr) \<Rightarrow> transfer \<Rightarrow> bool" where
  "transfer_ok addr s \<longleftrightarrow>
     (\<forall>d. dir_ok (addr (\<not> d)) (t_peer s d) (t_peer s (\<not> d))) \<and> net_ok addr s \<and> threads_ok addr s"

lemma all_bool: "(\<forall>d. P d) \<longleftrightarrow> P q \<and> P (\<not> q)"
  by (cases q) (auto simp: all_bool_eq)

lemma distinct_peers_neq: "distinct_peers addr \<Longrightarrow> endpoint (addr q) \<noteq> endpoint (addr (\<not> q))"
  by (cases q) (auto simp: distinct_peers_def)

lemma set_peer_ok:
  assumes ok: "transfer_ok addr s" and dist: "distinct_peers addr"
    and share: "dir_ok (addr (\<not> q)) p (t_peer s (\<not> q))" "evolves (t_peer s q) (t_peer s (\<not> q)) p (t_peer s (\<not> q))"
      "to_fetcher (addr (\<not> q)) p (t_peer s (\<not> q)) ds"
    and fetch: "dir_ok (addr q) (t_peer s (\<not> q)) p" "evolves (t_peer s (\<not> q)) (t_peer s q) (t_peer s (\<not> q)) p"
      "to_sharer (addr q) p ds"
    and dests: "\<And>b pk. (b, pk) \<in> set ds \<Longrightarrow> endpoint b \<noteq> endpoint (addr q) \<and> msg_of pk \<noteq> MConnect"
    and thread: "\<And>t. p_send_thread p = Some t \<Longrightarrow> endpoint (st_remoteaddr t) \<noteq> endpoint (addr q)"
  shows "transfer_ok addr (set_peer addr q (p, ds) s)"
proof -
  let ?s = "set_peer addr q (p, ds) s"
  have peers: "t_peer ?s q = p" "t_peer ?s (\<not> q) = t_peer s (\<not> q)" by (simp_all add: set_peer_def)
  have "\<forall>d. dir_ok (addr (\<not> d)) (t_peer ?s d) (t_peer ?s (\<not> d))"
    by (subst all_bool [of _ q]) (use share(1) fetch(1) peers in simp)
  moreover have "threads_ok addr ?s"
    unfolding threads_ok_def
    by (subst all_bool [of _ q]) (use thread ok peers in \<open>auto simp: transfer_ok_def threads_ok_def\<close>)
  moreover have "net_ok addr ?s"
  proof -
    have old: "to_fetcher_ok (t_peer ?s (\<not> q')) (t_peer ?s q') pk \<and> to_sharer_ok (addr (\<not> q')) (t_peer ?s (\<not> q')) a pk"
      if "(a, q', pk) \<in> t_net s" for a q' pk
    proof -
      have o: "to_fetcher_ok (t_peer s (\<not> q')) (t_peer s q') pk" "to_sharer_ok (addr (\<not> q')) (t_peer s (\<not> q')) a pk"
        using ok that by (auto simp: transfer_ok_def net_ok_def)
      show ?thesis
      proof (cases "q' = q")
        case True
        then show ?thesis
          using to_fetcher_ok_evolves [OF o(1)] fetch(2) o(2) peers by auto
      next
        case False
        then have "q' = (\<not> q)" by blast
        then show ?thesis
          using to_fetcher_ok_evolves [OF o(1)] to_sharer_ok_evolves [OF o(2)] share(2) fetch(2) peers by auto
      qed
    qed
    have new: "a = addr q \<and> q' = (\<not> q) \<and> to_fetcher_ok p (t_peer s q') pk \<and> to_sharer_ok (addr q) p a pk \<and> msg_of pk \<noteq> MConnect"
      if route: "(a, q', pk) \<in> route addr q ds" for a q' pk
    proof -
      obtain b where b: "a = addr q" "(b, pk) \<in> set ds" "endpoint b = endpoint (addr q')"
        using route by (auto simp: route_def)
      have "q' \<noteq> q"
      proof
        assume "q' = q"
        then show False using dests [OF b(2)] b(3) by simp
      qed
      then have "q' = (\<not> q)" by blast
      with b share(3) fetch(3) dests [OF b(2)] show ?thesis by (auto simp: to_fetcher_def to_sharer_def)
    qed
    show ?thesis
      unfolding net_ok_def
    proof (rule ballI, clarify)
      fix a q' pk
      assume "(a, q', pk) \<in> t_net ?s"
      then consider "(a, q', pk) \<in> t_net s" | "(a, q', pk) \<in> route addr q ds" by (auto simp: set_peer_def)
      then show "to_fetcher_ok (t_peer ?s (\<not> q')) (t_peer ?s q') pk \<and>
         to_sharer_ok (addr (\<not> q')) (t_peer ?s (\<not> q')) a pk \<and> endpoint a \<noteq> endpoint (addr q') \<and>
         (msg_of pk = MConnect \<longrightarrow> 36 \<le> length pk \<and> named_endpoint pk \<noteq> endpoint (addr q'))"
      proof cases
        case 1
        then have "endpoint a \<noteq> endpoint (addr q')"
          "msg_of pk = MConnect \<longrightarrow> 36 \<le> length pk \<and> named_endpoint pk \<noteq> endpoint (addr q')"
          using ok by (auto simp: transfer_ok_def net_ok_def)
        with old [OF 1] show ?thesis by blast
      next
        case 2
        from new [OF this] show ?thesis using distinct_peers_neq [OF dist, of q] peers by auto
      qed
    qed
  qed
  ultimately show ?thesis by (simp add: transfer_ok_def)
qed

lemma turn_blocks:
  assumes "receive_turn typed a pk p = Inr (p', ds)" "blocks_of p \<noteq> []"
  shows "blocks_of p' = blocks_of p"
proof -
  note r = assms(1) [unfolded receive_turn_msg]
  have "p_fileReadBuff p' = p_fileReadBuff p"
    using r assms(2) on_doConnect_result [of pk p p' ds] on_ready_result [of typed a pk p p' ds]
      on_fileName_result [of a pk p p' ds] on_fileDesc_result(1) [of pk a p p' ds] on_fileDesc_apk_result [of a pk p p' ds]
      same_share_trans [OF received_same(1) conjunct1 [OF on_sector_same_share [of a "after_recv pk p" p' ds]]]
      on_sector_apk_result [of pk p p' ds] on_ready_request_result [of pk a p p' ds]
    by (cases "msg_of pk") (auto simp: same_share_def blocks_of_def)
  then show ?thesis by (simp add: blocks_of_def)
qed

lemma send_step_blocks: "send_step p = Inr (p', ds) \<Longrightarrow> blocks_of p' = blocks_of p"
  by (cases "p_send_thread p"; cases "p_fileReadBuff p"; cases "st_pc (the (p_send_thread p))")
    (auto simp: send_step_def Let_def blocks_of_def split: if_splits sum.splits)

lemma small_before:
  assumes "small_files (set_peer addr q (p, ds) s)" "blocks_of (t_peer s q) \<noteq> [] \<Longrightarrow> blocks_of p = blocks_of (t_peer s q)"
  shows "small_files s"
  unfolding small_files_def
proof
  fix r
  show "length (blocks_of (t_peer s r)) < 2 ^ 31"
    using assms by (cases "r = q"; cases "blocks_of (t_peer s q) = []")
      (auto simp: small_files_def set_peer_def dest: spec [of _ r])
qed

lemma small_peer: "small_files (set_peer addr q (p, ds) s) \<Longrightarrow> length (blocks_of p) < 2 ^ 31"
  "small_files s \<Longrightarrow> length (blocks_of (t_peer s q)) < 2 ^ 31"
  by (auto simp: small_files_def set_peer_def dest: spec [of _ q])

section \<open>Every step keeps the invariant\<close>

lemma fresh_ok: "fresh_transfer s \<Longrightarrow> transfer_ok addr s"
proof -
  assume f: "fresh_transfer s"
  have "dir_ok af (t_peer s d) (t_peer s e)" for af d e
  proof -
    obtain b1 n1 d1 b2 n2 d2 where "t_peer s d = peer_init b1 n1 d1" "t_peer s e = peer_init b2 n2 d2"
      using f unfolding fresh_transfer_def by meson
    then show ?thesis
      by (simp add: dir_ok_def share_ok_def pace_ok_def file_ok_def peer_init_def blocks_of_def wf_blocks_def)
  qed
  moreover have "p_send_thread (t_peer s q) = None" for q
    using f unfolding fresh_transfer_def by (metis peer.select_convs(8) peer_init_def)
  ultimately show "transfer_ok addr s"
    using f by (simp add: transfer_ok_def net_ok_def threads_ok_def fresh_transfer_def)
qed

lemma transfer_ok_parts:
  assumes "transfer_ok addr s"
  shows "dir_ok (addr (\<not> d)) (t_peer s d) (t_peer s (\<not> d))" "dir_ok (addr q) (t_peer s (\<not> q)) (t_peer s q)"
    "p_send_thread (t_peer s q) = Some t \<Longrightarrow> endpoint (st_remoteaddr t) \<noteq> endpoint (addr q)"
    "(a, q, pk) \<in> t_net s \<Longrightarrow> to_fetcher_ok (t_peer s (\<not> q)) (t_peer s q) pk"
    "(a, q, pk) \<in> t_net s \<Longrightarrow> to_sharer_ok (addr (\<not> q)) (t_peer s (\<not> q)) a pk"
    "(a, q, pk) \<in> t_net s \<Longrightarrow> endpoint a \<noteq> endpoint (addr q)"
    "(a, q, pk) \<in> t_net s \<Longrightarrow> msg_of pk = MConnect \<Longrightarrow> 36 \<le> length pk \<and> named_endpoint pk \<noteq> endpoint (addr q)"
  using assms spec [of "\<lambda>d. dir_ok (addr (\<not> d)) (t_peer s d) (t_peer s (\<not> d))" "\<not> q"]
  by (auto simp: transfer_ok_def net_ok_def threads_ok_def)

lemma deliver_ok:
  assumes ok: "transfer_ok addr s" and dist: "distinct_peers addr" and "in": "(a, q, pk) \<in> t_net s"
    and r: "receive_turn (typed q) a pk (t_peer s q) = Inr (p, ds)" and small: "small_files (set_peer addr q (p, ds) s)"
  shows "transfer_ok addr (set_peer addr q (p, ds) s)"
proof -
  note o = transfer_ok_parts [OF ok]
  have small': "length (blocks_of (t_peer s (\<not> q))) < 2 ^ 31"
    using small by (auto simp: small_files_def set_peer_def dest: spec [of _ "\<not> q"])
  note S = sharer_turn [OF o(1) o(5) [OF "in"] small_peer(1) [OF small] r]
  note F = fetcher_turn [OF o(2) o(4) [OF "in"] small' r]
  show ?thesis
  proof (rule set_peer_ok [OF ok dist])
    fix b pk'
    assume d: "(b, pk') \<in> set ds"
    then show "endpoint b \<noteq> endpoint (addr q) \<and> msg_of pk' \<noteq> MConnect"
      using turn_dests [OF r d] turn_no_connect [OF r d] o(6,7) [OF "in"] by metis
  next
    fix t
    assume "p_send_thread p = Some t"
    from turn_thread [OF r this] show "endpoint (st_remoteaddr t) \<noteq> endpoint (addr q)"
      using o(3) o(6) [OF "in"] by metis
  qed (use S F in blast)+
qed

lemma sharing_send_ok:
  assumes ok: "transfer_ok addr s" and dist: "distinct_peers addr"
    and r: "send_step (t_peer s q) = Inr (p, ds)" and small: "small_files (set_peer addr q (p, ds) s)"
  shows "transfer_ok addr (set_peer addr q (p, ds) s)"
proof -
  note o = transfer_ok_parts [OF ok]
  have "small_files s" by (rule small_before [OF small send_step_blocks [OF r]])
  note S = sharer_sends [OF o(1) small_peer(2) [OF this] r]
  note F = dir_ok_same_fetch [OF send_step_same_fetch [OF r] o(2)]
  note sends = send_step_sends [OF r]
  show ?thesis
  proof (rule set_peer_ok [OF ok dist])
    show "to_sharer (addr q) p ds" by (rule to_sharer_quiet [OF sends]) simp_all
  next
    fix b pk'
    assume "(b, pk') \<in> set ds"
    then show "endpoint b \<noteq> endpoint (addr q) \<and> msg_of pk' \<noteq> MConnect"
      using send_step_thread(2) [OF r] sends o(3) by (fastforce simp: sends_only_def)
  next
    fix t
    assume "p_send_thread p = Some t"
    then show "endpoint (st_remoteaddr t) \<noteq> endpoint (addr q)" using send_step_thread(1) [OF r] o(3) by metis
  qed (use S F in blast)+
qed

lemma ask_ok:
  assumes ok: "transfer_ok addr s" and dist: "distinct_peers addr"
    and family: "sa_family (addr (\<not> q)) = AF_INET"
  shows "transfer_ok addr (set_peer addr q (t_peer s q, [sendReadyToP2pServerRequest (addr (\<not> q))]) s)"
proof -
  note o = transfer_ok_parts [OF ok]
  have m: "msg_of (snd (sendReadyToP2pServerRequest (addr (\<not> q)))) = MReadyReq"
    by (simp add: sendReadyToP2pServerRequest_def msg_of_heads [where rest = "[]", simplified])
  have quiet: "sends_only {MReadyReq} [sendReadyToP2pServerRequest (addr (\<not> q))]" by (simp add: sends_only_def m)
  show ?thesis
  proof (rule set_peer_ok [OF ok dist o(1) evolves_refl _ o(2) evolves_refl])
    show "to_fetcher (addr (\<not> q)) (t_peer s q) (t_peer s (\<not> q)) [sendReadyToP2pServerRequest (addr (\<not> q))]"
      by (rule to_fetcher_quiet [OF quiet]) simp_all
    show "to_sharer (addr q) (t_peer s q) [sendReadyToP2pServerRequest (addr (\<not> q))]"
      by (rule to_sharer_quiet [OF quiet]) simp_all
    fix b pk'
    assume "(b, pk') \<in> set [sendReadyToP2pServerRequest (addr (\<not> q))]"
    then have "endpoint b = endpoint (addr (\<not> q))" "msg_of pk' = MReadyReq"
      using m family by (auto simp: sendReadyToP2pServerRequest_def endpoint_def)
    then show "endpoint b \<noteq> endpoint (addr q) \<and> msg_of pk' \<noteq> MConnect"
      using distinct_peers_neq [OF dist, of q] by simp
  qed (rule o(3))
qed

lemma other_ok:
  assumes ok: "transfer_ok addr s" and st: "stranger addr a q pk"
  shows "transfer_ok addr (s\<lparr>t_net := insert (a, q, pk) (t_net s)\<rparr>)"
proof -
  have "to_fetcher_ok S F pk \<and> to_sharer_ok (addr (\<not> q)) F' a pk" for S F F'
    using st by (auto simp: stranger_def to_fetcher_ok_def to_sharer_ok_def)
  with ok st show ?thesis by (auto simp: transfer_ok_def net_ok_def threads_ok_def stranger_def)
qed

lemma transfer_step_ok:
  assumes st: "transfer_step addr typed s s'" and ok: "transfer_ok addr s" and dist: "distinct_peers addr"
    and family: "\<And>q. sa_family (addr q) = AF_INET" and small: "small_files s'"
  shows "transfer_ok addr s'"
  using st
proof cases
  case (deliver a q pk r)
  then show ?thesis using deliver_ok [OF ok dist, of a q pk typed "fst r" "snd r"] small by simp
next
  case (send q r)
  then show ?thesis using sharing_send_ok [OF ok dist, of q "fst r" "snd r"] small by simp
next
  case (ask q)
  then show ?thesis using ask_ok [OF ok dist family] by simp
next
  case (other a q pk)
  then show ?thesis using other_ok [OF ok] by simp
qed

lemma step_small_before:
  assumes "transfer_step addr typed s s'" "small_files s'"
  shows "small_files s"
  using assms(1)
proof cases
  case (deliver a q pk r)
  then show ?thesis using small_before [of addr q "fst r" "snd r" s] turn_blocks [of "typed q" a pk _ "fst r" "snd r"] assms(2)
    by simp
next
  case (send q r)
  then show ?thesis using small_before [of addr q "fst r" "snd r" s] send_step_blocks [of _ "fst r" "snd r"] assms(2) by simp
next
  case (ask q)
  then show ?thesis using small_before [of addr q "t_peer s q"] assms(2) by simp
next
  case (other a q pk)
  then show ?thesis using assms(2) by (simp add: small_files_def)
qed

lemma transfer_invariant:
  assumes "(transfer_step addr typed)\<^sup>*\<^sup>* s0 s" "fresh_transfer s0" "distinct_peers addr"
    and "\<And>q. sa_family (addr q) = AF_INET"
  shows "small_files s \<Longrightarrow> transfer_ok addr s"
  using assms(1)
proof (induction rule: rtranclp_induct)
  case base
  then show ?case using fresh_ok assms(2) by blast
next
  case (step s s')
  from step_small_before [OF step(2) step(4)] step(3) have "transfer_ok addr s" by blast
  from transfer_step_ok [OF step(2) this assms(3,4) step(4)] show ?case .
qed

end
