(* ===== verification/ShareTheorems.thy ===== *)
theory ShareTheorems
  imports FileSharing
begin

text \<open>
  The properties of the file sharing demo: what the receiving peer has written at any moment, that a transfer
  over a network that delivers runs to its end, and what a second copy of the last sector does to it.
\<close>

section \<open>A run that delivers everything\<close>

lemma set_peer_fields [simp]:
  "t_peer (set_peer addr q r s) q = fst r" "p \<noteq> q \<Longrightarrow> t_peer (set_peer addr q r s) p = t_peer s p"
  "t_net (set_peer addr q r s) = t_net s \<union> route addr q (snd r)"
  by (simp_all add: set_peer_def)

lemma route_in: "(a, pk) \<in> set ds \<Longrightarrow> endpoint a = endpoint (addr q') \<Longrightarrow> (addr q, q', pk) \<in> route addr q ds"
  by (auto simp: route_def)

text \<open>Before the sector \<open>k\<close>: the sending thread is at its loop, both counters are \<open>k\<close>, the file is not closed.\<close>

definition at_sector :: "(bool \<Rightarrow> simple_sockaddr) \<Rightarrow> bool \<Rightarrow> nat \<Rightarrow> transfer \<Rightarrow> bool" where
  "at_sector addr q k s \<longleftrightarrow>
     (let S = t_peer s (\<not> q); F = t_peer s q
      in p_currentfileBlockPosition S = int k \<and> p_fileReadBuff S \<noteq> None \<and>
         (\<exists>t. p_send_thread S = Some t \<and> st_pc t = AtLoop \<and> endpoint (st_remoteaddr t) = endpoint (addr q)) \<and>
         p_currentWritefileBlockPosition F = int k \<and> p_fileBlockSize F = int (length (blocks_of S)) \<and>
         filePath_of (p_localFileName F) = Inr (local_path F) \<and>
         (p_fileWriteBuff F = FreedBuf \<longleftrightarrow> k = length (blocks_of S)))"

definition same_device :: "peer \<Rightarrow> peer \<Rightarrow> bool" where
  "same_device p p' \<longleftrightarrow>
     p_localFileName p' = p_localFileName p \<and> dev_room (p_dev p') = dev_room (p_dev p) \<and>
     dev_writable (p_dev p') = dev_writable (p_dev p)"

lemma opened_succeeds:
  assumes "filePath_of (p_localFileName p) = Inr path" "p_fileWriteBuff p \<noteq> FreedBuf"
  shows "\<exists>p' b. opened p = Inr p' \<and> p_fileWriteBuff p' = LiveBuf b \<and> same_device p p' \<and>
           p_fileBlockSize p' = p_fileBlockSize p \<and>
           p_currentWritefileBlockPosition p' = p_currentWritefileBlockPosition p"
  using assms
  by (cases "p_fileWriteBuff p")
    (auto simp: opened_def SharedFileBuffer_writer_def fopen_w_def same_device_def)

lemma on_sector_succeeds:
  assumes fields: "bytes_int (bslice 30 4 (p_buff p)) = int n" "bytes_int (bslice 34 4 (p_buff p)) = int k" "n \<le> 8154"
    and path: "filePath_of (p_localFileName p) = Inr path" and buf: "p_fileWriteBuff p \<noteq> FreedBuf"
    and k: "p_currentWritefileBlockPosition p = int k"
  shows "\<exists>p'. on_sector a p = Inr (p', [sendSectorApk (int k) a]) \<and> same_device p p' \<and>
           p_fileBlockSize p' = p_fileBlockSize p \<and> p_currentWritefileBlockPosition p' = int (Suc k) \<and>
           (p_fileWriteBuff p' = FreedBuf \<longleftrightarrow> int k = p_fileBlockSize p - 1)"
proof -
  obtain p1 b where 1: "opened p = Inr p1" "p_fileWriteBuff p1 = LiveBuf b" "same_device p p1"
    "p_fileBlockSize p1 = p_fileBlockSize p" "p_currentWritefileBlockPosition p1 = int k"
    using opened_succeeds [OF path buf] k by auto
  let ?d = "bslice 38 n (p_buff p)"
  let ?p2 = "p1\<lparr>p_fileWriteBuff := LiveBuf (snd (writeData ?d b)), p_currentWritefileBlockPosition := int k + 1\<rparr>"
  have 2: "sector_written (int k) ?d p1 = Inr ?p2" by (simp add: sector_written_def 1)
  have "on_sector a p = (case last_closed (int k) ?p2 of Inl e \<Rightarrow> Inl e | Inr p' \<Rightarrow> Inr (p', [sendSectorApk (int k) a]))"
    using fields by (simp add: on_sector_def Let_def 1(1) 2)
  then show ?thesis using 1
    by (auto simp: last_closed_def SharedFileBuffer_destroy_def fclose_def same_device_def split: option.splits)
qed

lemma two_sends:
  assumes ok: "dir_ok af S F" and small: "length (blocks_of S) < 2 ^ 31"
    and t: "p_send_thread S = Some t" "st_pc t = AtLoop"
    and k: "p_currentfileBlockPosition S = int k" "k < length (blocks_of S)"
  shows "\<exists>S1. send_step S = Inr (S1, []) \<and>
           send_step S1 = Inr (S, [(st_remoteaddr t, sector_packet k (block_bytes (blocks_of S ! k)))])"
proof -
  obtain b where b: "p_fileReadBuff S = Some b" and wf: "wf_blocks (blocks_of S)"
    using ok t by (auto simp: dir_ok_def share_ok_def)
  have bl: "blocks_of S = sfb_mFileBlockList b" using b by (simp add: blocks_of_def)
  have n: "getBlockSize b = int (length (blocks_of S))" using getBlockSize_small small bl by simp
  have "sendSectorData b (int k) (st_remoteaddr t) = Inr (st_remoteaddr t, sector_packet k (block_bytes (blocks_of S ! k)))"
    unfolding bl by (rule sendSectorData_block) (use wf k(2) bl in simp_all)
  then show ?thesis
    using t k b n by (intro exI [of _ "S\<lparr>p_send_thread := Some (t\<lparr>st_pc := AtSend (int k)\<rparr>)\<rparr>"]) (simp add: send_step_def Let_def)
qed

lemma deliver_step:
  assumes "(a, q, pk) \<in> t_net s" "receive_turn (typed q) a pk (t_peer s q) = Inr (p, ds)"
  shows "transfer_step addr typed s (set_peer addr q (p, ds) s)"
  using transfer_step.deliver [where addr = addr and typed = typed and s = s and r = "(p, ds)"] assms by blast

lemma blocks_of_update [simp]:
  "blocks_of (p\<lparr>p_currentfileBlockPosition := i\<rparr>) = blocks_of p" "blocks_of (after_recv pk p) = blocks_of p"
  by (simp_all add: blocks_of_def)

text \<open>The sending thread's two steps put the sector on the network.\<close>

lemma round_sends:
  assumes ok: "transfer_ok addr s" and small: "small_files s" and at: "at_sector addr q k s"
    and k: "k < length (blocks_of (t_peer s (\<not> q)))"
  shows "\<exists>s'. (transfer_step addr typed)\<^sup>*\<^sup>* s s' \<and> t_peer s' = t_peer s \<and>
           (addr (\<not> q), q, sector_packet k (block_bytes (blocks_of (t_peer s (\<not> q)) ! k))) \<in> t_net s'"
proof -
  let ?S = "t_peer s (\<not> q)"
  obtain t where t: "p_send_thread ?S = Some t" "st_pc t = AtLoop" "endpoint (st_remoteaddr t) = endpoint (addr q)"
    "p_currentfileBlockPosition ?S = int k"
    using at by (auto simp: at_sector_def Let_def)
  obtain S1 where S1: "send_step ?S = Inr (S1, [])"
    "send_step S1 = Inr (?S, [(st_remoteaddr t, sector_packet k (block_bytes (blocks_of ?S ! k)))])"
    using two_sends [OF transfer_ok_parts(1) [OF ok] small_peer(2) [OF small] t(1,2,4) k] by blast
  let ?s1 = "set_peer addr (\<not> q) (S1, []) s"
  let ?s2 = "set_peer addr (\<not> q) (?S, [(st_remoteaddr t, sector_packet k (block_bytes (blocks_of ?S ! k)))]) ?s1"
  have "transfer_step addr typed s ?s1" by (rule transfer_step.send [OF S1(1)])
  moreover have "transfer_step addr typed ?s1 ?s2" by (rule transfer_step.send) (simp add: S1(2))
  ultimately have "(transfer_step addr typed)\<^sup>*\<^sup>* s ?s2" by (blast intro: rtranclp.intros)
  moreover have "t_peer ?s2 = t_peer s" by (simp add: set_peer_def)
  moreover have "(addr (\<not> q), q, sector_packet k (block_bytes (blocks_of ?S ! k))) \<in> t_net ?s2"
    using t(3) by (auto simp: route_def)
  ultimately show ?thesis by blast
qed

lemma round_received:
  assumes ok: "transfer_ok addr s" and small: "small_files s" and at: "at_sector addr q k s"
    and k: "k < length (blocks_of (t_peer s (\<not> q)))"
  shows "\<exists>F'. receive_turn typed a (sector_packet k (block_bytes (blocks_of (t_peer s (\<not> q)) ! k))) (t_peer s q) =
             Inr (F', [(a, apk_packet (int k))]) \<and> same_device (t_peer s q) F' \<and>
           p_fileBlockSize F' = p_fileBlockSize (t_peer s q) \<and> p_currentWritefileBlockPosition F' = int (Suc k) \<and>
           (p_fileWriteBuff F' = FreedBuf \<longleftrightarrow> Suc k = length (blocks_of (t_peer s (\<not> q))))"
proof -
  let ?S = "t_peer s (\<not> q)" and ?d = "block_bytes (blocks_of (t_peer s (\<not> q)) ! k)"
  have "wf_blocks (blocks_of ?S)" using transfer_ok_parts(1) [OF ok, of "\<not> q"] by (simp add: dir_ok_def share_ok_def)
  then have len: "length ?d \<le> 4096" using k by (auto simp: wf_blocks_def wf_block_def block_bytes_def)
  have k31: "int k < 2 ^ 31" using k small_peer(2) [OF small, of "\<not> q"] by simp
  let ?F = "after_recv (sector_packet k ?d) (t_peer s q)"
  note fields = sector_packet_fields [OF len k31, of "t_peer s q"]
  have F: "filePath_of (p_localFileName ?F) = Inr (local_path (t_peer s q))" "p_fileWriteBuff ?F \<noteq> FreedBuf"
    "p_currentWritefileBlockPosition ?F = int k" "p_fileBlockSize ?F = int (length (blocks_of ?S))"
    using at k by (auto simp: at_sector_def Let_def)
  have "length ?d \<le> 8154" using len by simp
  from on_sector_succeeds [OF fields(1,2) this F(1-3), of a]
  show ?thesis using F(4) by (auto simp: receive_turn_msg sector_packet_msg sendSectorApk_def apk_packet_def same_device_def)
qed

lemma apk_received:
  assumes "p_currentfileBlockPosition S = int k" "k < 2 ^ 31"
  shows "receive_turn typed a (apk_packet (int k)) S =
           Inr ((after_recv (apk_packet (int k)) S)\<lparr>p_currentfileBlockPosition := int (Suc k)\<rparr>, [])"
  using assms by (simp add: receive_turn_msg apk_packet_msg on_sector_apk_def Let_def apk_index)

lemma local_path_device: "same_device p p' \<Longrightarrow> local_path p' = local_path p"
  by (simp add: same_device_def local_path_def)

lemma one_round:
  assumes ok: "transfer_ok addr s" and small: "small_files s" and at: "at_sector addr q k s"
    and k: "k < length (blocks_of (t_peer s (\<not> q)))"
  shows "\<exists>s'. (transfer_step addr typed)\<^sup>*\<^sup>* s s' \<and> at_sector addr q (Suc k) s' \<and>
           blocks_of (t_peer s' (\<not> q)) = blocks_of (t_peer s (\<not> q)) \<and> small_files s' \<and> same_device (t_peer s q) (t_peer s' q) \<and>
           (addr (\<not> q), q, sector_packet k (block_bytes (blocks_of (t_peer s (\<not> q)) ! k))) \<in> t_net s'"
proof -
  let ?S = "t_peer s (\<not> q)" and ?F = "t_peer s q"
  let ?pk = "sector_packet k (block_bytes (blocks_of ?S ! k))"
  obtain s2 where s2: "(transfer_step addr typed)\<^sup>*\<^sup>* s s2" "t_peer s2 = t_peer s" "(addr (\<not> q), q, ?pk) \<in> t_net s2"
    using round_sends [OF assms] by blast
  obtain F' where F': "receive_turn (typed q) (addr (\<not> q)) ?pk ?F = Inr (F', [(addr (\<not> q), apk_packet (int k))])"
    "same_device ?F F'" "p_fileBlockSize F' = p_fileBlockSize ?F" "p_currentWritefileBlockPosition F' = int (Suc k)"
    "p_fileWriteBuff F' = FreedBuf \<longleftrightarrow> Suc k = length (blocks_of ?S)"
    using round_received [OF assms] by blast
  let ?s3 = "set_peer addr q (F', [(addr (\<not> q), apk_packet (int k))]) s2"
  have 3: "transfer_step addr typed s2 ?s3" by (rule deliver_step [where typed = typed, OF s2(3)]) (simp add: s2(2) F'(1))
  have peers3: "t_peer ?s3 (\<not> q) = ?S" "t_peer ?s3 q = F'" by (simp_all add: s2(2))
  have pos: "p_currentfileBlockPosition ?S = int k" "k < 2 ^ 31"
    using at k small_peer(2) [OF small, of "\<not> q"] by (auto simp: at_sector_def Let_def)
  let ?S' = "(after_recv (apk_packet (int k)) ?S)\<lparr>p_currentfileBlockPosition := int (Suc k)\<rparr>"
  let ?s4 = "set_peer addr (\<not> q) (?S', []) ?s3"
  have "(addr q, \<not> q, apk_packet (int k)) \<in> t_net ?s3" by (auto simp: route_def)
  then have 4: "transfer_step addr typed ?s3 ?s4"
    by (rule deliver_step) (unfold peers3, rule apk_received [OF pos])
  have peers4: "t_peer ?s4 (\<not> q) = ?S'" "t_peer ?s4 q = F'"
    using peers3 by (simp_all add: set_peer_def)
  have bl: "blocks_of ?S' = blocks_of ?S" by simp
  have small4: "small_files ?s4"
    unfolding small_files_def
  proof (subst all_bool [of _ q], intro conjI)
    have "blocks_of F' = blocks_of ?F \<or> blocks_of ?F = []" using turn_blocks [OF F'(1)] by blast
    have "msg_of ?pk = MSector" by (rule sector_packet_msg)
    then have "same_share (after_recv ?pk ?F) F'"
      using F'(1) on_sector_same_share [of "addr (\<not> q)" "after_recv ?pk ?F" F'] by (simp add: receive_turn_msg)
    then have "blocks_of F' = blocks_of ?F" by (simp add: blocks_of_def same_share_def)
    then show "length (blocks_of (t_peer ?s4 q)) < 2 ^ 31" using small_peer(2) [OF small, of q] peers4 by simp
    show "length (blocks_of (t_peer ?s4 (\<not> q))) < 2 ^ 31" using small_peer(2) [OF small, of "\<not> q"] peers4 bl by simp
  qed
  have "at_sector addr q (Suc k) ?s4"
    using at F'(2-5) local_path_device [OF F'(2)]
    by (simp add: at_sector_def Let_def peers4 bl same_device_def)
  moreover have "(transfer_step addr typed)\<^sup>*\<^sup>* s ?s4" using s2(1) 3 4 by (meson rtranclp.rtrancl_into_rtrancl)
  moreover have "(addr (\<not> q), q, ?pk) \<in> t_net ?s4" using s2(3) by simp
  ultimately show ?thesis using small4 F'(2) peers4 bl by (intro exI [of _ ?s4]) simp
qed

lemma all_rounds:
  assumes "transfer_ok addr s" "small_files s" "distinct_peers addr" "\<And>p. sa_family (addr p) = AF_INET"
    and "at_sector addr q k s" "k + n \<le> length (blocks_of (t_peer s (\<not> q)))"
  shows "\<exists>s'. (transfer_step addr typed)\<^sup>*\<^sup>* s s' \<and> at_sector addr q (k + n) s' \<and>
           blocks_of (t_peer s' (\<not> q)) = blocks_of (t_peer s (\<not> q)) \<and> transfer_ok addr s' \<and> small_files s' \<and>
           same_device (t_peer s q) (t_peer s' q)"
  using assms(1,2,5,6)
proof (induction n arbitrary: k s)
  case 0
  then show ?case by (intro exI [of _ s]) (simp add: same_device_def)
next
  case (Suc n)
  have k: "k < length (blocks_of (t_peer s (\<not> q)))" using Suc.prems(4) by simp
  obtain s1 where s1: "(transfer_step addr typed)\<^sup>*\<^sup>* s s1" "at_sector addr q (Suc k) s1"
    "blocks_of (t_peer s1 (\<not> q)) = blocks_of (t_peer s (\<not> q))" "small_files s1" "same_device (t_peer s q) (t_peer s1 q)"
    using one_round [OF Suc.prems(1-3) k] by blast
  have ok1: "transfer_ok addr s1"
    using s1(1,4)
  proof (induction rule: rtranclp_induct)
    case (step s2 s3)
    then show ?case using transfer_step_ok [OF step(2) _ assms(3,4)] step_small_before [OF step(2)] by blast
  qed (rule Suc.prems(1))
  from Suc.IH [OF ok1 s1(4,2)] s1(3) Suc.prems(4) obtain s' where
    "(transfer_step addr typed)\<^sup>*\<^sup>* s1 s'" "at_sector addr q (Suc k + n) s'"
    "blocks_of (t_peer s' (\<not> q)) = blocks_of (t_peer s (\<not> q))" "transfer_ok addr s'" "small_files s'"
    "same_device (t_peer s1 q) (t_peer s' q)"
    by auto
  with s1 show ?case by (intro exI [of _ s']) (auto simp: same_device_def)
qed

section \<open>The handshake\<close>

definition name_packet :: "bytes \<Rightarrow> bytes" where
  "name_packet name = head10 (ascii ''request'') @ head10 (ascii ''data'') @ head10 (ascii ''fileName'') @
     overwrite 0 (name @ [0]) (replicate 50 0)"

lemma name_packet_msg: "msg_of (name_packet name) = MName"
  by (simp add: name_packet_def msg_of_heads)

lemma path_of_name:
  assumes "cstr fileName = name" "0 \<in> set fileName" "length name \<le> 49"
  shows "filePath_of fileName = Inr (ascii ''/data/'' @ name)"
proof -
  have "strlen (ascii ''/data/'') = 6" by (simp add: ascii_def)
  then show ?thesis using assms by (simp add: filePath_of_def strlen_cstr [of fileName])
qed

lemma typed_name:
  assumes "0 \<notin> set name" "length name \<le> 49"
  shows "cstr (overwrite 0 (name @ [0]) (replicate 50 0)) = name"
    "length (overwrite 0 (name @ [0]) (replicate 50 (0 :: u8))) = 50"
    "0 \<in> set (overwrite 0 (name @ [0]) (replicate 50 (0 :: u8)))"
  using assms by (simp_all add: overwrite_def)

lemma turn_ready_request:
  "msg_of pk = MReadyReq \<Longrightarrow> receive_turn ty a pk p = Inr (after_recv pk p, [(a, ready_answer (after_recv pk p))])"
  by (simp add: receive_turn_msg on_ready_request_def)

lemma turn_ready:
  assumes "msg_of pk = MReady" "\<not> p_mConnection p" "0 \<notin> set name" "length name \<le> 49"
  shows "\<exists>p'. receive_turn name a pk p = Inr (p', [(a, name_packet name)]) \<and>
           filePath_of (p_localFileName p') = Inr (local_path p') \<and> local_path p' = ascii ''/data/'' @ name \<and>
           p_fileWriteBuff p' = p_fileWriteBuff p \<and> p_dev p' = p_dev p \<and>
           p_currentWritefileBlockPosition p' = p_currentWritefileBlockPosition p \<and> blocks_of p' = blocks_of p"
proof -
  let ?f = "overwrite 0 (name @ [0]) (replicate 50 0)"
  let ?p' = "(after_recv pk p)\<lparr>p_mConnection := True, p_localFileName := strcpy (p_localFileName p) ?f\<rparr>"
  note n = typed_name [OF assms(3,4)]
  have l: "strcpy (p_localFileName p) ?f = name @ 0 # drop (Suc (length name)) (p_localFileName p)"
    by (simp add: strcpy_def n(1)) (simp add: overwrite_def)
  then have c: "cstr (strcpy (p_localFileName p) ?f) = name" using assms(3) by simp
  have z: "0 \<in> set (strcpy (p_localFileName p) ?f)" unfolding l by simp
  have "receive_turn name a pk p = Inr (?p', [(a, name_packet name)])"
    using assms by (simp add: receive_turn_msg on_ready_def sendRequestFileInfo_def Let_def name_packet_def)
  then show ?thesis using c z path_of_name [OF c z assms(4)] by (simp add: local_path_def blocks_of_def)
qed

lemma name_packet_name:
  assumes "0 \<notin> set name" "length name \<le> 49"
  shows "bslice 30 50 (p_buff (after_recv (name_packet name) p)) = overwrite 0 (name @ [0]) (replicate 50 0)"
proof -
  have l: "length (name_packet name) = 80" using typed_name(2) [OF assms] by (simp add: name_packet_def)
  have "bslice 30 50 (name_packet name) = overwrite 0 (name @ [0]) (replicate 50 0)"
    using typed_name(2) [OF assms] by (simp add: name_packet_def bslice_def)
  then show ?thesis using bslice_received [of 30 50 "name_packet name" p] l by simp
qed

lemma turn_name:
  assumes name: "0 \<notin> set name" "length name \<le> 49" and none: "p_fileReadBuff p = None"
    and dev: "dev_files (p_dev p) (ascii ''/data/'' @ name) = Some c" "c \<noteq> []" "length c \<le> 2 ^ 40"
  shows "\<exists>p'. receive_turn ty a (name_packet name) p = Inr (p', [(a, desc_packet (int (length (blocks_of p'))))]) \<and>
           p_fileReadBuff p' \<noteq> None \<and> file_content (blocks_of p') = c \<and> blocks_of p' \<noteq> [] \<and> length (blocks_of p') < 2 ^ 31 \<and>
           p_currentfileBlockPosition p' = p_currentfileBlockPosition p"
proof -
  let ?f = "overwrite 0 (name @ [0]) (replicate 50 0)"
  note n = typed_name [OF name]
  obtain r where r: "SharedFileBuffer_reader ?f (p_dev p) = Inr r"
    using path_of_name [OF n(1,3) name(2)] by (simp add: SharedFileBuffer_reader_def)
  let ?b = "snd (loadFileToBuffer r)"
  from loadFileToBuffer_blocks [OF r] dev(1) n(1)
  have b: "file_content (sfb_mFileBlockList ?b) = c" "length (sfb_mFileBlockList ?b) = (length c + 4095) div 4096"
    by (auto simp: file_content_def)
  have nonempty: "sfb_mFileBlockList ?b \<noteq> []" using b(1) dev(2) by (auto simp: file_content_def)
  have "(length c + 4095) div 4096 \<le> (2 ^ 40 + 4095) div 4096" using dev(3) by (intro div_le_mono) simp
  then have small: "length (sfb_mFileBlockList ?b) < 2 ^ 31" using b(2) by simp
  let ?p' = "(after_recv (name_packet name) p)\<lparr>p_fileReadBuff := Some ?b\<rparr>"
  have "receive_turn ty a (name_packet name) p = Inr (?p', [(a, desc_packet (getBlockSize ?b))])"
    using none r nonempty getBlockSize_small [OF small]
    by (simp add: receive_turn_msg name_packet_msg on_fileName_def Let_def name_packet_name [OF name] sendRespondFileInfo_def
        desc_packet_def)
  then show ?thesis using b nonempty small getBlockSize_small [OF small] by (intro exI [of _ ?p']) (simp add: blocks_of_def)
qed

lemma turn_desc:
  assumes "n < 2 ^ 31"
  shows "\<exists>d. receive_turn ty a (desc_packet (int n)) p =
           Inr ((after_recv (desc_packet (int n)) p)\<lparr>p_fileBlockSize := int n\<rparr>, [(a, d)]) \<and> msg_of d = MDescApk"
proof -
  have "bytes_int (bslice 30 4 (p_buff (after_recv (desc_packet (int n)) p))) = int n"
    unfolding desc_packet_def by (rule head_packet_int) (use assms in simp_all)
  then show ?thesis
    using on_fileDesc_result(4) [of "desc_packet (int n)" a p, unfolded desc_packet_msg, OF _ prod.collapse [symmetric]]
    by (simp add: receive_turn_msg desc_packet_msg on_fileDesc_def sends_only_def)
qed

lemma turn_desc_apk:
  assumes "msg_of pk = MDescApk" "p_currentfileBlockPosition p = -1" "p_fileReadBuff p \<noteq> None" "blocks_of p \<noteq> []"
    and "length (blocks_of p) < 2 ^ 31"
  shows "\<exists>p' t. receive_turn ty a pk p = Inr (p', []) \<and> p_fileReadBuff p' = p_fileReadBuff p \<and>
           p_currentfileBlockPosition p' = 0 \<and> p_send_thread p' = Some t \<and> st_pc t = AtLoop \<and>
           endpoint (st_remoteaddr t) = endpoint a"
proof -
  obtain b where b: "p_fileReadBuff p = Some b" using assms(3) by blast
  then have bl: "blocks_of p = sfb_mFileBlockList b" by (simp add: blocks_of_def)
  have "0 < getBlockSize b" using assms(4,5) getBlockSize_small [of b] bl by simp
  then show ?thesis
    using assms(1,2) b
    by (simp add: receive_turn_msg on_fileDesc_apk_def Let_def endpoint_def CSocketAddress_from_in4_def sockaddr_zero_def)
qed

lemma deliver_one:
  assumes "(a, q, pk) \<in> t_net s" "receive_turn (typed q) a pk (t_peer s q) = Inr (p, ds)"
  shows "transfer_step addr typed s (set_peer addr q (p, ds) s)"
    "t_peer (set_peer addr q (p, ds) s) = (t_peer s)(q := p)"
    "\<forall>(b, pk') \<in> set ds. \<forall>q'. endpoint b = endpoint (addr q') \<longrightarrow> (addr q, q', pk') \<in> t_net (set_peer addr q (p, ds) s)"
  using deliver_step [where addr = addr and typed = typed and s = s and q = q and p = p and ds = ds] assms
  by (blast, simp add: set_peer_def, auto simp: route_def)

text \<open>The request for the file is under way; the sharing peer has not started.\<close>

definition file_asked :: "(bool \<Rightarrow> simple_sockaddr) \<Rightarrow> bytes \<Rightarrow> bool \<Rightarrow> transfer \<Rightarrow> bool" where
  "file_asked addr name q s \<longleftrightarrow>
     (let S = t_peer s (\<not> q); F = t_peer s q
      in (addr q, \<not> q, name_packet name) \<in> t_net s \<and>
         p_fileReadBuff S = None \<and> p_currentfileBlockPosition S = -1 \<and>
         filePath_of (p_localFileName F) = Inr (local_path F) \<and> local_path F = ascii ''/data/'' @ name \<and>
         p_fileWriteBuff F = NullBuf \<and> p_currentWritefileBlockPosition F = 0 \<and> blocks_of F = [])"

lemma greeting:
  assumes fresh: "fresh_transfer s0" and family: "\<And>p. sa_family (addr p) = AF_INET"
    and name: "0 \<notin> set (typed q)" "length (typed q) \<le> 49"
  shows "\<exists>s. (transfer_step addr typed)\<^sup>*\<^sup>* s0 s \<and> file_asked addr (typed q) q s \<and> (\<forall>p. p_dev (t_peer s p) = p_dev (t_peer s0 p))"
proof -
  let ?S0 = "t_peer s0 (\<not> q)" and ?F0 = "t_peer s0 q"
  have init: "\<exists>buff nm d. t_peer s0 p = peer_init buff nm d" for p using fresh by (simp add: fresh_transfer_def)
  have S0: "p_fileReadBuff ?S0 = None" "p_currentfileBlockPosition ?S0 = -1"
    and F0: "\<not> p_mConnection ?F0" "p_fileWriteBuff ?F0 = NullBuf" "p_currentWritefileBlockPosition ?F0 = 0" "blocks_of ?F0 = []"
    using init [of "\<not> q"] init [of q] by (auto simp: peer_init_def blocks_of_def)
  let ?rr = "snd (sendReadyToP2pServerRequest (addr (\<not> q)))"
  let ?s1 = "set_peer addr q (?F0, [sendReadyToP2pServerRequest (addr (\<not> q))]) s0"
  have rr: "msg_of ?rr = MReadyReq" "endpoint (fst (sendReadyToP2pServerRequest (addr (\<not> q)))) = endpoint (addr (\<not> q))"
    using family by (simp_all add: sendReadyToP2pServerRequest_def msg_of_heads [where rest = "[]", simplified] endpoint_def)
  have step1: "transfer_step addr typed s0 ?s1" by (rule transfer_step.ask)
  have peers1: "t_peer ?s1 = t_peer s0" by (simp add: set_peer_def)
  have in1: "(addr q, \<not> q, ?rr) \<in> t_net ?s1"
    using rr(2) by (auto simp: route_def sendReadyToP2pServerRequest_def)
  have 2: "receive_turn (typed (\<not> q)) (addr q) ?rr (t_peer ?s1 (\<not> q)) =
      Inr (after_recv ?rr ?S0, [(addr q, ready_answer (after_recv ?rr ?S0))])"
    unfolding peers1 by (rule turn_ready_request [OF rr(1)])
  note d2 = deliver_one [where addr = addr and typed = typed, OF in1 2]
  let ?s2 = "set_peer addr (\<not> q) (after_recv ?rr ?S0, [(addr q, ready_answer (after_recv ?rr ?S0))]) ?s1"
  have in2: "(addr (\<not> q), q, ready_answer (after_recv ?rr ?S0)) \<in> t_net ?s2" using d2(3) by auto
  have peers2: "t_peer ?s2 q = ?F0" "t_peer ?s2 (\<not> q) = after_recv ?rr ?S0" by (simp_all add: d2(2) peers1)
  have "msg_of ?rr \<noteq> MOther" using rr(1) by simp
  from turn_ready [OF msg_of_ready_answer [OF this] F0(1) name, of "addr (\<not> q)" ?S0] obtain F1 where
    3: "receive_turn (typed q) (addr (\<not> q)) (ready_answer (after_recv ?rr ?S0)) (t_peer ?s2 q) = Inr (F1, [(addr (\<not> q), name_packet (typed q))])"
    and F1: "filePath_of (p_localFileName F1) = Inr (local_path F1)" "local_path F1 = ascii ''/data/'' @ typed q"
      "p_fileWriteBuff F1 = NullBuf" "p_dev F1 = p_dev ?F0" "p_currentWritefileBlockPosition F1 = 0" "blocks_of F1 = []"
    by (auto simp: peers2 F0)
  note d3 = deliver_one [where addr = addr and typed = typed, OF in2 3]
  let ?s3 = "set_peer addr q (F1, [(addr (\<not> q), name_packet (typed q))]) ?s2"
  have in3: "(addr q, \<not> q, name_packet (typed q)) \<in> t_net ?s3" using d3(3) by auto
  have peers3: "t_peer ?s3 q = F1" "t_peer ?s3 (\<not> q) = after_recv ?rr ?S0" by (simp_all add: d3(2) peers2)
  have "file_asked addr (typed q) q ?s3" using F1 S0 in3 by (simp only: file_asked_def Let_def peers3 received_fields simp_thms)
  moreover have "\<forall>p. p_dev (t_peer ?s3 p) = p_dev (t_peer s0 p)"
    by (subst all_bool [of _ q]) (simp only: peers3 received_fields F1(4) simp_thms)
  moreover have "(transfer_step addr typed)\<^sup>*\<^sup>* s0 ?s3"
    using step1 d2(1) d3(1) by (meson converse_rtranclp_into_rtranclp rtranclp.rtrancl_refl)
  ultimately show ?thesis by blast
qed

lemma sharing_starts:
  assumes pending: "file_asked addr (typed q) q s" and name: "0 \<notin> set (typed q)" "length (typed q) \<le> 49"
    and dev: "dev_files (p_dev (t_peer s (\<not> q))) (ascii ''/data/'' @ typed q) = Some c" "c \<noteq> []" "length c \<le> 2 ^ 40"
  shows "\<exists>s'. (transfer_step addr typed)\<^sup>*\<^sup>* s s' \<and> at_sector addr q 0 s' \<and> small_files s' \<and>
           file_content (blocks_of (t_peer s' (\<not> q))) = c \<and> local_path (t_peer s' q) = ascii ''/data/'' @ typed q \<and>
           p_dev (t_peer s' q) = p_dev (t_peer s q)"
proof -
  let ?S = "t_peer s (\<not> q)" and ?F = "t_peer s q"
  have in3: "(addr q, \<not> q, name_packet (typed q)) \<in> t_net s"
    and S: "p_fileReadBuff ?S = None" "p_currentfileBlockPosition ?S = -1"
    and F: "filePath_of (p_localFileName ?F) = Inr (local_path ?F)" "local_path ?F = ascii ''/data/'' @ typed q"
      "p_fileWriteBuff ?F = NullBuf" "p_currentWritefileBlockPosition ?F = 0" "blocks_of ?F = []"
    using pending by (simp_all add: file_asked_def Let_def)
  obtain S1 where
    4: "receive_turn (typed (\<not> q)) (addr q) (name_packet (typed q)) ?S = Inr (S1, [(addr q, desc_packet (int (length (blocks_of S1))))])"
    and S1: "p_fileReadBuff S1 \<noteq> None" "file_content (blocks_of S1) = c" "blocks_of S1 \<noteq> []" "length (blocks_of S1) < 2 ^ 31"
      "p_currentfileBlockPosition S1 = -1"
    using turn_name [OF name S(1) dev, of "typed (\<not> q)" "addr q"] S(2) by auto
  note d4 = deliver_one [where addr = addr and typed = typed, OF in3 4]
  let ?s4 = "set_peer addr (\<not> q) (S1, [(addr q, desc_packet (int (length (blocks_of S1))))]) s"
  have in4: "(addr (\<not> q), q, desc_packet (int (length (blocks_of S1)))) \<in> t_net ?s4" using d4(3) by auto
  have peers4: "t_peer ?s4 q = ?F" "t_peer ?s4 (\<not> q) = S1" by (simp_all add: d4(2))
  let ?F2 = "(after_recv (desc_packet (int (length (blocks_of S1)))) ?F)\<lparr>p_fileBlockSize := int (length (blocks_of S1))\<rparr>"
  obtain d where
    5: "receive_turn (typed q) (addr (\<not> q)) (desc_packet (int (length (blocks_of S1)))) (t_peer ?s4 q) = Inr (?F2, [(addr (\<not> q), d)])"
    and d: "msg_of d = MDescApk"
    using turn_desc [OF S1(4)] unfolding peers4 by blast
  note d5 = deliver_one [where addr = addr and typed = typed, OF in4 5]
  let ?s5 = "set_peer addr q (?F2, [(addr (\<not> q), d)]) ?s4"
  have in5: "(addr q, \<not> q, d) \<in> t_net ?s5" using d5(3) by auto
  have peers5: "t_peer ?s5 q = ?F2" "t_peer ?s5 (\<not> q) = S1" by (simp_all add: d5(2) peers4)
  obtain S2 t where
    6: "receive_turn (typed (\<not> q)) (addr q) d (t_peer ?s5 (\<not> q)) = Inr (S2, [])"
    and S2: "p_fileReadBuff S2 = p_fileReadBuff S1" "p_currentfileBlockPosition S2 = 0" "p_send_thread S2 = Some t"
      "st_pc t = AtLoop" "endpoint (st_remoteaddr t) = endpoint (addr q)"
    using turn_desc_apk [OF d S1(5,1,3,4)] unfolding peers5 by blast
  note d6 = deliver_one [where addr = addr and typed = typed, OF in5 6]
  let ?s6 = "set_peer addr (\<not> q) (S2, []) ?s5"
  have peers6: "t_peer ?s6 q = ?F2" "t_peer ?s6 (\<not> q) = S2" by (simp_all add: d6(2) peers5)
  have bl: "blocks_of S2 = blocks_of S1" "blocks_of ?F2 = []" using S2(1) F(5) by (simp_all add: blocks_of_def)
  have "at_sector addr q 0 ?s6" using S1 S2 F bl by (simp add: at_sector_def Let_def peers6 local_path_def)
  moreover have "small_files ?s6"
    unfolding small_files_def by (subst all_bool [of _ q]) (use bl S1(4) peers6 in simp)
  moreover have "(transfer_step addr typed)\<^sup>*\<^sup>* s ?s6"
    using d4(1) d5(1) d6(1) by (meson converse_rtranclp_into_rtranclp rtranclp.rtrancl_refl)
  ultimately show ?thesis
    using S1(2) F(2) bl by (intro exI [of _ ?s6]) (simp add: peers6 local_path_def)
qed

section \<open>A transfer between two peers\<close>

definition demo_addr :: "bool \<Rightarrow> simple_sockaddr" where
  "demo_addr q = CSocketAddress_ip4 (if q then 0x0a000001 else 0x0a000002) 5000"

definition demo_name :: "bool \<Rightarrow> bytes" where
  "demo_name q = ascii ''log.txt''"

definition demo_share :: transfer where
  "demo_share =
     \<lparr>t_peer = (\<lambda>q. peer_init (replicate 8192 0) (replicate 255 0)
        \<lparr>dev_files = (if q then [ascii ''/data/log.txt'' \<mapsto> [1, 2, 3]] else Map.empty), dev_writable = (\<lambda>_. True), dev_room = 1000\<rparr>),
      t_net = {}\<rparr>"

lemma demo_share_facts:
  "fresh_transfer demo_share" "distinct_peers demo_addr" "\<And>q. sa_family (demo_addr q) = AF_INET"
  "0 \<notin> set (demo_name q)" "length (demo_name q) \<le> 49"
  "dev_files (p_dev (t_peer demo_share (\<not> False))) (ascii ''/data/'' @ demo_name False) = Some [1, 2, 3]"
  "[1, 2, 3] \<noteq> ([] :: bytes)" "length [1, 2, 3 :: u8] \<le> 2 ^ 40"
  "dev_writable (p_dev (t_peer demo_share False)) (ascii ''/data/'' @ demo_name False)"
  "length [1, 2, 3 :: u8] \<le> dev_room (p_dev (t_peer demo_share False))"
proof -
  have "ascii ''/data/'' @ demo_name False = ascii ''/data/log.txt''" by (simp add: demo_name_def ascii_def)
  then show "dev_files (p_dev (t_peer demo_share (\<not> False))) (ascii ''/data/'' @ demo_name False) = Some [1, 2, 3]"
    by (simp add: demo_share_def peer_init_def)
  have "endpoint (demo_addr True) = (AF_INET, mem16 (htons 5000), mem32 (htonl 0x0a000001))"
    "endpoint (demo_addr False) = (AF_INET, mem16 (htons 5000), mem32 (htonl 0x0a000002))"
    by (simp_all add: demo_addr_def endpoint_def CSocketAddress_ip4_def CSocketAddress_from_in4_def sockaddr_zero_def)
  moreover have "mem32 (htonl 0x0a000001) \<noteq> mem32 (htonl 0x0a000002)"
    by (simp add: mem32_htonl be32_def)
  ultimately show "distinct_peers demo_addr" by (simp add: distinct_peers_def)
qed (auto simp: demo_share_def fresh_transfer_def demo_name_def ascii_def peer_init_def demo_addr_def
    CSocketAddress_ip4_def CSocketAddress_from_in4_def sockaddr_zero_def)

section \<open>The properties\<close>

text \<open>
  C17: Whatever the network loses, duplicates or reorders, and whatever strangers send, as long as no one else
  takes part in the transfer: the two counters are never more than one sector apart, the open file of the
  fetching peer holds the first sectors of the shared file in order, and a closed one holds all of it, both as far
  as the path can be written and the device has room.
\<close>

theorem shared_file_safe:
  assumes "(transfer_step addr typed)\<^sup>*\<^sup>* s0 s" "fresh_transfer s0" "distinct_peers addr" "\<And>p. sa_family (addr p) = AF_INET"
    and "small_files s"
  shows "let S = t_peer s (\<not> q); F = t_peer s q; d = file_content (blocks_of S); room = dev_room (p_dev F)
         in p_currentfileBlockPosition S \<le> p_currentWritefileBlockPosition F \<and>
            p_currentWritefileBlockPosition F \<le> p_currentfileBlockPosition S + 1 \<and>
            (case p_fileWriteBuff F of
               NullBuf \<Rightarrow> p_currentWritefileBlockPosition F = 0
             | LiveBuf b \<Rightarrow>
                 dev_writable (p_dev F) (local_path F) \<longrightarrow>
                 map_option f_written (sfb_mFiledescription b) =
                   Some (take room (file_content (take (nat (p_currentWritefileBlockPosition F)) (blocks_of S))))
             | FreedBuf \<Rightarrow>
                 dev_writable (p_dev F) (local_path F) \<longrightarrow> dev_files (p_dev F) (local_path F) = Some (take room d))"
proof -
  have "transfer_ok addr s" by (rule transfer_invariant [OF assms(1-4) assms(5)])
  from transfer_ok_parts(2) [OF this, of q] show ?thesis
    by (auto simp: Let_def dir_ok_def pace_ok_def file_ok_def written_file_def split: write_ptr.splits)
qed

lemma sector_faults:
  assumes ok: "transfer_ok addr s" and small: "small_files s" and closed: "p_fileWriteBuff (t_peer s q) = FreedBuf"
    and last: "Suc i = length (blocks_of (t_peer s (\<not> q)))" "length d \<le> 4096"
  shows "receive_turn (typed q) a (sector_packet i d) (t_peer s q) = Inl DoubleFree"
proof -
  from transfer_ok_parts(2) [OF ok, of q] closed last(1)
  have F: "p_currentWritefileBlockPosition (t_peer s q) = int (Suc i)" "p_fileBlockSize (t_peer s q) = int (Suc i)"
    by (simp_all add: dir_ok_def file_ok_def)
  have "int i < 2 ^ 31" using last(1) small_peer(2) [OF small, of "\<not> q"] by simp
  note fields = sector_packet_fields [OF last(2) this, of "t_peer s q"]
  show ?thesis
    using F closed last(2) fields
    by (simp add: receive_turn_msg sector_packet_msg on_sector_def Let_def opened_def sector_written_def last_closed_def)
qed

text \<open>The whole run: afterwards the file is closed, and its last sector is still on the network.\<close>

lemma transfer_runs:
  assumes "fresh_transfer s0" "distinct_peers addr" "\<And>p. sa_family (addr p) = AF_INET"
    and "0 \<notin> set (typed q)" "length (typed q) \<le> 49"
    and "dev_files (p_dev (t_peer s0 (\<not> q))) (ascii ''/data/'' @ typed q) = Some c" "c \<noteq> []" "length c \<le> 2 ^ 40"
    and "dev_writable (p_dev (t_peer s0 q)) (ascii ''/data/'' @ typed q)" "length c \<le> dev_room (p_dev (t_peer s0 q))"
  shows "\<exists>s a pk. (transfer_step addr typed)\<^sup>*\<^sup>* s0 s \<and> p_fileWriteBuff (t_peer s q) = FreedBuf \<and>
           dev_files (p_dev (t_peer s q)) (ascii ''/data/'' @ typed q) = Some c \<and>
           (a, q, pk) \<in> t_net s \<and> receive_turn (typed q) a pk (t_peer s q) = Inl DoubleFree \<and> small_files s"
proof -
  obtain s1 where s1: "(transfer_step addr typed)\<^sup>*\<^sup>* s0 s1" "file_asked addr (typed q) q s1"
    "\<forall>p. p_dev (t_peer s1 p) = p_dev (t_peer s0 p)"
    using greeting [where typed = typed and addr = addr and q = q, OF assms(1,3-5)] by blast
  obtain s2 where s2: "(transfer_step addr typed)\<^sup>*\<^sup>* s1 s2" "at_sector addr q 0 s2" "small_files s2"
    "file_content (blocks_of (t_peer s2 (\<not> q))) = c" "local_path (t_peer s2 q) = ascii ''/data/'' @ typed q"
    "p_dev (t_peer s2 q) = p_dev (t_peer s0 q)"
    using sharing_starts [where typed = typed and addr = addr and q = q, OF s1(2) assms(4,5)] assms(6-8) s1(3) by auto
  let ?bl = "blocks_of (t_peer s2 (\<not> q))"
  obtain n where n: "length ?bl = Suc n" using s2(4) assms(7) by (cases ?bl) (auto simp: file_content_def)
  have reach: "(transfer_step addr typed)\<^sup>*\<^sup>* s0 s2" using s1(1) s2(1) by (rule rtranclp_trans)
  have ok: "transfer_ok addr s2" by (rule transfer_invariant [OF reach assms(1-3) s2(3)])
  obtain s3 where s3: "(transfer_step addr typed)\<^sup>*\<^sup>* s2 s3" "at_sector addr q n s3"
    "blocks_of (t_peer s3 (\<not> q)) = ?bl" "transfer_ok addr s3" "small_files s3" "same_device (t_peer s2 q) (t_peer s3 q)"
    using all_rounds [where k = 0 and n = n and typed = typed, OF ok s2(3) assms(2,3) s2(2)] n by auto
  then obtain s4 where s4: "(transfer_step addr typed)\<^sup>*\<^sup>* s3 s4" "at_sector addr q (Suc n) s4"
    "blocks_of (t_peer s4 (\<not> q)) = ?bl" "small_files s4" "same_device (t_peer s3 q) (t_peer s4 q)"
    "(addr (\<not> q), q, sector_packet n (block_bytes (?bl ! n))) \<in> t_net s4"
    using one_round [where typed = typed, OF s3(4,5,2)] n by auto
  have reach4: "(transfer_step addr typed)\<^sup>*\<^sup>* s0 s4" using reach s3(1) s4(1) by (meson rtranclp_trans)
  have ok4: "transfer_ok addr s4" by (rule transfer_invariant [OF reach4 assms(1-3) s4(4)])
  have closed: "p_fileWriteBuff (t_peer s4 q) = FreedBuf" using s4(2,3) n by (simp add: at_sector_def Let_def)
  have "local_path (t_peer s4 q) = ascii ''/data/'' @ typed q"
    using s2(5) local_path_device [OF s3(6)] local_path_device [OF s4(5)] by simp
  then have "dev_files (p_dev (t_peer s4 q)) (ascii ''/data/'' @ typed q) = Some c"
    using transfer_ok_parts(2) [OF ok4, of q] closed s2(4,6) s4(3,5) s3(6) assms(9,10)
    by (simp add: dir_ok_def file_ok_def same_device_def)
  moreover have "length (block_bytes (?bl ! n)) \<le> 4096"
    using transfer_ok_parts(1) [OF ok, of "\<not> q"] n
    by (auto simp: dir_ok_def share_ok_def wf_blocks_def wf_block_def block_bytes_def)
  then have "receive_turn (typed q) (addr (\<not> q)) (sector_packet n (block_bytes (?bl ! n))) (t_peer s4 q) = Inl DoubleFree"
    by (rule sector_faults [where typed = typed, OF ok4 s4(4) closed, rotated]) (simp add: s4(3) n)
  ultimately show ?thesis using reach4 closed s4(4,6) by blast
qed

lemma shared_file_safe_witness:
  "\<exists>s. (transfer_step demo_addr demo_name)\<^sup>*\<^sup>* demo_share s \<and> p_fileWriteBuff (t_peer s False) = FreedBuf \<and>
     (dev_writable (p_dev (t_peer s False)) (local_path (t_peer s False)) \<longrightarrow>
        dev_files (p_dev (t_peer s False)) (local_path (t_peer s False)) =
        Some (take (dev_room (p_dev (t_peer s False))) (file_content (blocks_of (t_peer s (\<not> False))))))"
proof -
  obtain s where s: "(transfer_step demo_addr demo_name)\<^sup>*\<^sup>* demo_share s" "p_fileWriteBuff (t_peer s False) = FreedBuf"
    "small_files s"
    using transfer_runs [where addr = demo_addr and typed = demo_name and q = False, OF demo_share_facts] by blast
  from shared_file_safe [OF s(1) demo_share_facts(1-3) s(3), of False] s(1,2) show ?thesis
    by (intro exI [of _ s]) (simp add: Let_def)
qed

text \<open>
  C18: A transfer can be completed: of a file that is not empty and has at most 2 to the 40th bytes, whose name has
  at most 49 bytes and no NUL, into a path that can be written on a device with room for it. From every fresh start
  there is a run of the two peers, one in which the network delivers what it must, after which the
  fetching peer has closed a file with exactly the content of the file asked for. Other runs need not get there, since
  the network may lose everything. An empty file is outside the claim.
\<close>

theorem transfer_completes:
  assumes "fresh_transfer s0" "distinct_peers addr" "\<And>p. sa_family (addr p) = AF_INET"
    and "0 \<notin> set (typed q)" "length (typed q) \<le> 49"
    and "dev_files (p_dev (t_peer s0 (\<not> q))) (ascii ''/data/'' @ typed q) = Some c" "c \<noteq> []" "length c \<le> 2 ^ 40"
    and "dev_writable (p_dev (t_peer s0 q)) (ascii ''/data/'' @ typed q)" "length c \<le> dev_room (p_dev (t_peer s0 q))"
  shows "\<exists>s. (transfer_step addr typed)\<^sup>*\<^sup>* s0 s \<and> p_fileWriteBuff (t_peer s q) = FreedBuf \<and>
           dev_files (p_dev (t_peer s q)) (ascii ''/data/'' @ typed q) = Some c"
  using transfer_runs [where addr = addr and typed = typed and q = q, OF assms] by blast

lemma transfer_completes_witness:
  "\<exists>s. (transfer_step demo_addr demo_name)\<^sup>*\<^sup>* demo_share s \<and> p_fileWriteBuff (t_peer s False) = FreedBuf \<and>
     dev_files (p_dev (t_peer s False)) (ascii ''/data/'' @ demo_name False) = Some [1, 2, 3]"
  by (rule transfer_completes [where addr = demo_addr and typed = demo_name and q = False, OF demo_share_facts])

text \<open>
  C30: A second copy of the last sector ends the fetching program: in the state such a run ends in, a sector
  still under way leads to a second \<open>delete\<close> of the buffer when it arrives.
\<close>

theorem last_sector_twice:
  assumes "fresh_transfer s0" "distinct_peers addr" "\<And>p. sa_family (addr p) = AF_INET"
    and "0 \<notin> set (typed q)" "length (typed q) \<le> 49"
    and "dev_files (p_dev (t_peer s0 (\<not> q))) (ascii ''/data/'' @ typed q) = Some c" "c \<noteq> []" "length c \<le> 2 ^ 40"
    and "dev_writable (p_dev (t_peer s0 q)) (ascii ''/data/'' @ typed q)" "length c \<le> dev_room (p_dev (t_peer s0 q))"
  shows "\<exists>s a pk. (transfer_step addr typed)\<^sup>*\<^sup>* s0 s \<and> (a, q, pk) \<in> t_net s \<and>
           receive_turn (typed q) a pk (t_peer s q) = Inl DoubleFree"
  using transfer_runs [where addr = addr and typed = typed and q = q, OF assms] by blast

lemma last_sector_twice_witness:
  "\<exists>s a pk. (transfer_step demo_addr demo_name)\<^sup>*\<^sup>* demo_share s \<and> (a, False, pk) \<in> t_net s \<and>
     receive_turn (demo_name False) a pk (t_peer s False) = Inl DoubleFree"
  by (rule last_sector_twice [where addr = demo_addr and typed = demo_name and q = False, OF demo_share_facts])

end
