(* ===== verification/StringHelper.thy ===== *)
theory StringHelper
  imports SampleAuth ByteOrder
begin

text \<open>
  \<open>src/common/stringhelper.cpp\<close>, the checksum of \<open>datacheck.cpp\<close> and the command line parser of
  \<open>cmdlineparser.*\<close>, each in a section of its own. A \<open>std::string\<close> is a list of bytes, a \<open>const char*\<close> an optional one
  that ends before its terminator. The tests of a \<open>char\<close> here do not depend on whether it is signed.
  \<open>atoi\<close> is that of a C library whose \<open>long\<close> has 32 bits: it stops at the bounds of \<open>int\<close>.
\<close>

definition ISWHITESPACE :: "u8 \<Rightarrow> bool" where
  "ISWHITESPACE ch \<longleftrightarrow> (9 \<le> ch \<and> ch \<le> 0xd) \<or> ch = 0x20"

definition String_IsNullOrEmpty :: "bytes option \<Rightarrow> bool" where
  "String_IsNullOrEmpty psz \<longleftrightarrow> (case psz of None \<Rightarrow> True | Some s \<Rightarrow> cstr s = [])"

text \<open>The loop appends to a second string.\<close>

fun lower_loop :: "bytes \<Rightarrow> bytes \<Rightarrow> bytes" where
  "lower_loop str2 [] = str2"
| "lower_loop str2 (ch # s) = lower_loop (str2 @ [if 0x41 \<le> ch \<and> ch \<le> 0x5a then ch + (0x61 - 0x41) else ch]) s"

definition ToLower :: "bytes \<Rightarrow> bytes" where
  "ToLower str = (if length str = 0 then str else lower_loop [] str)"

text \<open>The loop of \<open>Trim\<close> over the characters from \<open>index\<close> on; \<open>start\<close> and \<open>end\<close> are -1 before the first hit.\<close>

fun trim_loop :: "int \<Rightarrow> bytes \<Rightarrow> int \<times> int \<Rightarrow> int \<times> int" where
  "trim_loop index [] se = se"
| "trim_loop index (ch # s) (start, end') =
     trim_loop (index + 1) s
       (if ISWHITESPACE ch then (start, end') else if start = -1 then (index, index) else (start, index))"

definition Trim :: "bytes \<Rightarrow> bytes" where
  "Trim str =
     (let (start, end') = trim_loop 0 str (-1, -1)
      in if start \<noteq> -1 then take (nat (end' - start + 1)) (drop (nat start) str) else str)"

definition atoi_int :: "bytes \<Rightarrow> int" where
  "atoi_int s = max (- (2 ^ 31)) (min (2 ^ 31 - 1) (atoi (cstr s)))"

text \<open>The result and what \<open>*pnResult\<close> is afterwards; \<open>None\<close> is a null pointer.\<close>

definition ValidateNumberString :: "bytes option \<Rightarrow> int \<Rightarrow> int \<Rightarrow> int option \<Rightarrow> int \<times> int option" where
  "ValidateNumberString psz nMinValue nMaxValue pnResult =
     (if String_IsNullOrEmpty psz \<or> pnResult = None then (-1, pnResult)
      else
        (let nVal = atoi_int (the psz)
         in if nVal < nMinValue then (-1, pnResult)
            else if nMaxValue < nVal then (-1, pnResult)
            else (0, Some nVal)))"

section \<open>What they compute\<close>

lemma lower_loop_map: "lower_loop acc s = acc @ map (\<lambda>ch. if 0x41 \<le> ch \<and> ch \<le> 0x5a then ch + 0x20 else ch) s"
  by (induction s arbitrary: acc) simp_all

lemma ToLower_map: "ToLower s = map (\<lambda>ch. if 0x41 \<le> ch \<and> ch \<le> 0x5a then ch + 0x20 else ch) s"
  by (simp add: ToLower_def lower_loop_map)

lemma ToLower_twice: "ToLower (ToLower s) = ToLower s"
proof -
  have "\<not> (0x41 \<le> ch + 0x20 \<and> ch + 0x20 \<le> (0x5a :: u8))" if "0x41 \<le> ch" "ch \<le> 0x5a" for ch :: u8
    using that by unat_arith
  then show ?thesis by (auto simp: ToLower_map)
qed

lemma trim_loop_found:
  "start \<noteq> -1 \<Longrightarrow> 0 \<le> k \<Longrightarrow> trim_loop (int k') s (start, e) =
     (start, if list_all ISWHITESPACE s then e else int k' + int (length s) - 1 - int (length (takeWhile ISWHITESPACE (rev s))))"
proof (induction s arbitrary: k' e)
  case (Cons ch s)
  show ?case using Cons.IH [OF Cons.prems, of "Suc k'"] Cons.prems
    by (auto simp: takeWhile_append takeWhile_eq_all_conv add.commute list_all_iff)
qed simp

lemma trim_loop_search:
  "0 \<le> k \<Longrightarrow> trim_loop k s (-1, -1) =
     (if list_all ISWHITESPACE s then (-1, -1)
      else (k + int (length (takeWhile ISWHITESPACE s)),
            k + int (length s) - 1 - int (length (takeWhile ISWHITESPACE (rev s)))))"
proof (induction s arbitrary: k)
  case (Cons ch s)
  show ?case
  proof (cases "ISWHITESPACE ch")
    case True
    then show ?thesis using Cons.IH [of "k + 1"] Cons.prems
      by (auto simp: takeWhile_append list_all_iff)
  next
    case False
    have k: "k + 1 = int (Suc (nat k))" using Cons.prems by simp
    have "trim_loop (int (Suc (nat k))) s (k, k) =
        (k, if list_all ISWHITESPACE s then k
            else int (Suc (nat k)) + int (length s) - 1 - int (length (takeWhile ISWHITESPACE (rev s))))"
      by (rule trim_loop_found) (use Cons.prems in simp_all)
    then show ?thesis using False Cons.prems
      by (auto simp: k takeWhile_append list_all_iff)
  qed
qed simp

text \<open>White space is cut off at both ends; a string of nothing else stays as it is.\<close>

lemma Trim_both_ends:
  "Trim s = (if list_all ISWHITESPACE s then s
     else rev (dropWhile ISWHITESPACE (rev (dropWhile ISWHITESPACE s))))"
proof (cases "list_all ISWHITESPACE s")
  case True
  then show ?thesis by (simp add: Trim_def trim_loop_search)
next
  case False
  let ?a = "takeWhile ISWHITESPACE s" and ?t = "dropWhile ISWHITESPACE s"
  have s: "s = ?a @ ?t" by simp
  have "\<exists>x \<in> set ?t. \<not> ISWHITESPACE x"
    using False set_dropWhileD [of _ ISWHITESPACE s] by (metis hd_dropWhile hd_in_set dropWhile_eq_Nil_conv list_all_iff)
  then have e: "takeWhile ISWHITESPACE (rev s) = takeWhile ISWHITESPACE (rev ?t)"
    by (subst s, subst rev_append) (auto simp: takeWhile_append)
  let ?b = "takeWhile ISWHITESPACE (rev ?t)"
  have lb: "length ?b \<le> length ?t" using length_takeWhile_le [of ISWHITESPACE "rev ?t"] by simp
  have "length s = length ?a + length ?t" by (metis s length_append)
  then have n: "nat (int (length s) + (- int (length ?b) - int (length ?a))) = length ?t - length ?b" using lb by simp
  have "Trim s = take (length ?t - length ?b) (drop (length ?a) s)"
    using False by (simp add: Trim_def trim_loop_search e n)
  also have "drop (length ?a) s = ?t" by (simp add: dropWhile_eq_drop)
  also have "take (length ?t - length ?b) ?t = rev (dropWhile ISWHITESPACE (rev ?t))"
    by (simp add: dropWhile_eq_drop [of _ "rev ?t"] rev_drop)
  finally show ?thesis using False by simp
qed

lemma ValidateNumberString_ok:
  "ValidateNumberString psz lo hi (Some n0) = (r, Some n) \<Longrightarrow> 0 \<le> r \<Longrightarrow> lo \<le> n \<and> n \<le> hi"
  by (auto simp: ValidateNumberString_def Let_def split: if_splits)

section \<open>The command line\<close>

text \<open>
  \<open>src/common/cmdlineparser.cpp\<close>: \<open>CCmdLineParser\<close>. A pointer to the string that receives an argument is the
  function that stores a string there, in a structure of any type. The C library's \<open>getopt_long_only\<close> is a
  parameter: for the options, the arguments and the index to start at it gives the results of the successive
  calls before the one that returns -1, the value of \<open>optind\<close> after it, and the order the arguments are in then.
\<close>

record 's OptionDetail =
  od_strName :: bytes
  od_has_arg :: int
  od_pStrResult :: "bytes \<Rightarrow> 's \<Rightarrow> 's"

record 's CCmdLineParser =
  cl_listOptionDetails :: "'s OptionDetail list"
  cl_namelessArgs :: "(bytes \<Rightarrow> 's \<Rightarrow> 's) list"

record getopt_result =
  go_ret :: int
  go_index :: nat
  go_optarg :: "bytes option"

type_synonym getopt = "(bytes \<times> int) list \<Rightarrow> bytes list \<Rightarrow> nat \<Rightarrow> getopt_result list \<times> nat \<times> bytes list"

definition CCmdLineParser_new :: "'s CCmdLineParser" where
  "CCmdLineParser_new = \<lparr>cl_listOptionDetails = [], cl_namelessArgs = []\<rparr>"

definition GenerateOptions :: "'s CCmdLineParser \<Rightarrow> (bytes \<times> int) list" where
  "GenerateOptions c = map (\<lambda>d. (od_strName d, od_has_arg d)) (cl_listOptionDetails c)"

definition AddOption ::
  "bytes option \<Rightarrow> int \<Rightarrow> (bytes \<Rightarrow> 's \<Rightarrow> 's) option \<Rightarrow> 's CCmdLineParser \<Rightarrow> hresult \<times> 's CCmdLineParser" where
  "AddOption pszName has_arg pStrResult c =
     (if pszName = None then (E_INVALIDARG, c)
      else if has_arg < 0 then (E_INVALIDARG, c)
      else if has_arg > 2 then (E_INVALIDARG, c)
      else
        (case pStrResult of
           None \<Rightarrow> (E_INVALIDARG, c)
         | Some assign \<Rightarrow>
             (S_OK, c\<lparr>cl_listOptionDetails := cl_listOptionDetails c @
                [\<lparr>od_strName = the pszName, od_has_arg = has_arg, od_pStrResult = assign\<rparr>]\<rparr>)))"

definition AddNonOption :: "(bytes \<Rightarrow> 's \<Rightarrow> 's) \<Rightarrow> 's CCmdLineParser \<Rightarrow> hresult \<times> 's CCmdLineParser" where
  "AddNonOption pStrResult c = (S_OK, c\<lparr>cl_namelessArgs := cl_namelessArgs c @ [pStrResult]\<rparr>)"

text \<open>The loop over the options: the error flag and the strings stored.\<close>

fun option_loop :: "'s OptionDetail list \<Rightarrow> getopt_result list \<Rightarrow> bool \<Rightarrow> 's \<Rightarrow> bool \<times> 's" where
  "option_loop details [] err s = (err, s)"
| "option_loop details (r # rs) err s =
     (if go_ret r < 0 then (err, s)
      else if go_ret r = 0x3f \<or> go_ret r = 0x3a then option_loop details rs True s
      else
        (let d = details ! go_index r
         in option_loop details rs err
              (if od_has_arg d \<noteq> 0 \<and> go_optarg r \<noteq> None then od_pStrResult d (the (go_optarg r)) s
               else od_pStrResult d (ascii ''1'') s)))"

text \<open>The loop over the arguments that are not options.\<close>

fun nameless_loop :: "(bytes \<Rightarrow> 's \<Rightarrow> 's) list \<Rightarrow> bytes list \<Rightarrow> 's \<Rightarrow> 's" where
  "nameless_loop args [] s = s"
| "nameless_loop args (a # argv) s =
     (if a = ascii ''--'' then nameless_loop args argv s
      else (case args of [] \<Rightarrow> s | assign # args \<Rightarrow> nameless_loop args argv (assign a s)))"

definition ParseCommandLine ::
  "getopt \<Rightarrow> bytes list \<Rightarrow> nat \<Rightarrow> 's CCmdLineParser \<Rightarrow> 's \<Rightarrow> hresult \<times> bool \<times> 's" where
  "ParseCommandLine getopt argv startindex c s =
     (let (results, optind, argv) = getopt (GenerateOptions c) argv startindex;
          (err, s) = option_loop (cl_listOptionDetails c) results False s;
          s = nameless_loop (cl_namelessArgs c) (drop optind argv) s
      in (S_OK, err, s))"

section \<open>Checksums\<close>

text \<open>
  \<open>src/common/datacheck.cpp\<close>: the checksums of the sharing demo, sums of 16-bit and of 8-bit units whose
  carries are folded back in. The machine is little-endian and \<open>unsigned long\<close> has 32 bits, so the sum is taken
  modulo \<open>2 ^ 32\<close>; \<open>pData\<close> is the array from the pointer on and \<open>size\<close> the bytes of it to be checked.
\<close>

fun sum16_loop :: "u32 \<Rightarrow> bytes \<Rightarrow> u32" where
  "sum16_loop cksum (b0 # b1 # bs) = sum16_loop (cksum + ucast (load16 [b0, b1])) bs"
| "sum16_loop cksum [b] = cksum + ucast b"
| "sum16_loop cksum [] = cksum"

lemma fold_less: "0 < q \<Longrightarrow> q * 2 ^ n + r = c \<Longrightarrow> 0 < n \<Longrightarrow> q + r < (c :: nat)"
proof -
  assume a: "0 < q" "q * 2 ^ n + r = c" "0 < n"
  then have "q * 2 \<le> q * 2 ^ n" by (cases n) simp_all
  with a show "q + r < c" by linarith
qed

lemma fold16_smaller: "drop_bit 16 c > (0 :: u32) \<Longrightarrow> drop_bit 16 c + (c AND 0xffff) < c"
proof -
  assume h: "drop_bit 16 c > 0"
  have m: "c AND 0xffff = take_bit 16 c" by (simp add: take_bit_eq_mask mask_eq_decr_exp)
  have hi: "unat (drop_bit 16 c) = unat c div 2 ^ 16" by (rule trans [OF unat_drop_bit_eq drop_bit_eq_div])
  have lo: "unat (take_bit 16 c) = unat c mod 2 ^ 16" by (rule trans [OF unsigned_take_bit_eq take_bit_eq_mod])
  have u: "unat c div 2 ^ 16 < 2 ^ 16" using unsigned_less [of c, where 'a = nat] by simp
  have "unat (drop_bit 16 c + take_bit 16 c) = unat c div 2 ^ 16 + unat c mod 2 ^ 16"
    using u by (subst unat_add_lem [THEN iffD1]) (simp_all add: hi lo)
  moreover have "0 < unat c div 2 ^ 16" using h hi by (metis unat_0 word_less_nat_alt)
  then have "unat c div 2 ^ 16 + unat c mod 2 ^ 16 < unat c"
    by (rule fold_less [OF _ div_mult_mod_eq]) simp
  ultimately show ?thesis unfolding m by (simp add: word_less_nat_alt)
qed

function fold16_loop :: "u32 \<Rightarrow> u32" where
  "fold16_loop cksum = (if drop_bit 16 cksum > 0 then fold16_loop (drop_bit 16 cksum + (cksum AND 0xffff)) else cksum)"
  by pat_completeness auto
termination
  by (relation "measure unat") (use fold16_smaller in \<open>simp_all add: word_less_nat_alt\<close>)

declare fold16_loop.simps [simp del]

definition dataCheck16 :: "bytes \<Rightarrow> int \<Rightarrow> u16" where
  "dataCheck16 pData size' = ucast (NOT (fold16_loop (sum16_loop 0 (take (nat size') pData))))"

fun sum8_loop :: "u32 \<Rightarrow> bytes \<Rightarrow> u32" where
  "sum8_loop cksum (b # bs) = sum8_loop (cksum + ucast b) bs"
| "sum8_loop cksum [] = cksum"

lemma fold8_smaller: "drop_bit 8 c > (0 :: u32) \<Longrightarrow> drop_bit 8 c + (c AND 0xff) < c"
proof -
  assume h: "drop_bit 8 c > 0"
  have m: "c AND 0xff = take_bit 8 c" by (simp add: take_bit_eq_mask mask_eq_decr_exp)
  have hi: "unat (drop_bit 8 c) = unat c div 2 ^ 8" by (rule trans [OF unat_drop_bit_eq drop_bit_eq_div])
  have lo: "unat (take_bit 8 c) = unat c mod 2 ^ 8" by (rule trans [OF unsigned_take_bit_eq take_bit_eq_mod])
  have u: "unat c div 2 ^ 8 < 2 ^ 24" using unsigned_less [of c, where 'a = nat] by simp
  have "unat c mod 2 ^ 8 < 2 ^ 8" by simp
  then have "unat (drop_bit 8 c + take_bit 8 c) = unat c div 2 ^ 8 + unat c mod 2 ^ 8"
    using u by (subst unat_add_lem [THEN iffD1]) (simp_all add: hi lo)
  moreover have "0 < unat c div 2 ^ 8" using h hi by (metis unat_0 word_less_nat_alt)
  then have "unat c div 2 ^ 8 + unat c mod 2 ^ 8 < unat c"
    by (rule fold_less [OF _ div_mult_mod_eq]) simp
  ultimately show ?thesis unfolding m by (simp add: word_less_nat_alt)
qed

function fold8_loop :: "u32 \<Rightarrow> u32" where
  "fold8_loop cksum = (if drop_bit 8 cksum > 0 then fold8_loop (drop_bit 8 cksum + (cksum AND 0xff)) else cksum)"
  by pat_completeness auto
termination
  by (relation "measure unat") (use fold8_smaller in \<open>simp_all add: word_less_nat_alt\<close>)

declare fold8_loop.simps [simp del]

definition dataCheck8 :: "bytes \<Rightarrow> int \<Rightarrow> u8" where
  "dataCheck8 pData size' = ucast (ucast (NOT (fold8_loop (sum8_loop 0 (take (nat size') pData)))) :: u16)"

section \<open>Data followed by its checksum sums to all ones\<close>

text \<open>The value of the data as 16-bit units.\<close>

fun sum16 :: "bytes \<Rightarrow> nat" where
  "sum16 (b0 # b1 # bs) = unat (load16 [b0, b1]) + sum16 bs"
| "sum16 [b] = unat b"
| "sum16 [] = 0"

lemma unat_widened: "unat (ucast (w :: u16) :: u32) = unat w" "unat (ucast (b :: u8) :: u32) = unat b"
  using unsigned_less [of w, where 'a = nat] unsigned_less [of b, where 'a = nat]
  by (simp_all add: unsigned_ucast_eq take_bit_nat_eq_self)

lemma sum16_loop_value: "unat c + sum16 bs < 2 ^ 32 \<Longrightarrow> unat (sum16_loop c bs) = unat c + sum16 bs"
proof (induction c bs rule: sum16_loop.induct)
  case (1 c b0 b1 bs)
  have "unat (c + ucast (load16 [b0, b1])) = unat c + unat (load16 [b0, b1])"
    using 1(2) by (subst unat_add_lem [THEN iffD1]) (simp_all add: unat_widened)
  then show ?case using 1 by simp
next
  case (2 c b)
  then show ?case by (simp, subst unat_add_lem [THEN iffD1]) (simp_all add: unat_widened)
qed simp

text \<open>Folding keeps the value modulo \<open>0xffff\<close>, and a value that was not zero stays so.\<close>

lemma fold16_loop_value:
  "unat (fold16_loop c) < 2 ^ 16 \<and> unat (fold16_loop c) mod 0xffff = unat c mod 0xffff \<and> (fold16_loop c = 0 \<longleftrightarrow> c = 0)"
proof (induction c rule: fold16_loop.induct)
  case (1 c)
  show ?case
  proof (cases "drop_bit 16 c > 0")
    case False
    then have "unat c div 2 ^ 16 = 0"
      by (metis drop_bit_eq_div unat_0 unat_drop_bit_eq word_gt_0)
    then have "unat c < 2 ^ 16" by (simp add: div_eq_0_iff)
    then show ?thesis using False by (simp add: fold16_loop.simps [of c])
  next
    case True
    have m: "c AND 0xffff = take_bit 16 c" by (simp add: take_bit_eq_mask mask_eq_decr_exp)
    have hi: "unat (drop_bit 16 c) = unat c div 2 ^ 16" by (rule trans [OF unat_drop_bit_eq drop_bit_eq_div])
    have lo: "unat (take_bit 16 c) = unat c mod 2 ^ 16" by (rule trans [OF unsigned_take_bit_eq take_bit_eq_mod])
    have "unat c div 2 ^ 16 < 2 ^ 16" using unsigned_less [of c, where 'a = nat] by simp
    then have s: "unat (drop_bit 16 c + (c AND 0xffff)) = unat c div 2 ^ 16 + unat c mod 2 ^ 16"
      unfolding m by (subst unat_add_lem [THEN iffD1]) (simp_all add: hi lo)
    have "unat c = (unat c div 2 ^ 16) * 0xffff + (unat c div 2 ^ 16 + unat c mod 2 ^ 16)"
      using div_mult_mod_eq [of "unat c" "2 ^ 16"] by simp
    then have "unat c mod 0xffff = (unat c div 2 ^ 16 + unat c mod 2 ^ 16) mod 0xffff"
      by (metis mod_mult_self3)
    moreover have "c \<noteq> 0" using True by auto
    moreover have "drop_bit 16 c + (c AND 0xffff) \<noteq> 0"
    proof
      assume "drop_bit 16 c + (c AND 0xffff) = 0"
      then have "unat c div 2 ^ 16 + unat c mod 2 ^ 16 = 0" using s by simp
      then have "unat (drop_bit 16 c) = 0" using hi by simp
      then show False using True by (simp add: unat_eq_zero)
    qed
    ultimately show ?thesis using 1 True s by (simp add: fold16_loop.simps [of c])
  qed
qed

lemma sum16_bound: "sum16 bs \<le> 65535 * ((length bs + 1) div 2)"
proof (induction bs rule: sum16.induct)
  case (1 b0 b1 bs)
  have "unat (load16 [b0, b1]) \<le> 65535" using unsigned_less [of "load16 [b0, b1]", where 'a = nat] by simp
  with 1 show ?case by simp
next
  case (2 b)
  then show ?case using unsigned_less [of b, where 'a = nat] by simp
qed simp

lemma sum16_append: "even (length bs) \<Longrightarrow> sum16 (bs @ cs) = sum16 bs + sum16 cs"
  by (induction bs rule: sum16.induct) simp_all

lemma low_half: "unat c < 2 ^ 16 \<Longrightarrow> unat (ucast (NOT c) :: u16) = 65535 - unat (c :: u32)"
proof -
  assume h: "unat c < 2 ^ 16"
  then have u: "unat (ucast c :: u16) = unat c" by (simp add: unsigned_ucast_eq take_bit_nat_eq_self)
  have "(ucast (NOT c) :: u16) = NOT (ucast c)" by (rule bit_word_eqI) (simp add: bit_simps)
  also have "\<dots> = - 1 - ucast c" by (simp add: not_eq_complement)
  finally have "unat (ucast (NOT c) :: u16) = unat (- 1 - ucast c :: u16)" by simp
  also have "\<dots> = unat (- 1 :: u16) - unat (ucast c :: u16)" by (rule unat_sub) simp
  also have "unat (- 1 :: u16) = 65535" by (simp add: unsigned_minus_1_eq_mask mask_eq_exp_minus_1)
  finally show ?thesis using u by simp
qed

lemma fold16_of_multiple:
  assumes "unat c mod 65535 = 0" "c \<noteq> 0"
  shows "(ucast (NOT (fold16_loop c)) :: u16) = 0"
proof -
  have v: "unat (fold16_loop c) < 2 ^ 16" "unat (fold16_loop c) mod 65535 = 0" "unat (fold16_loop c) \<noteq> 0"
    using fold16_loop_value [of c] assms by (simp_all add: unat_eq_zero)
  then obtain k where k: "unat (fold16_loop c) = 65535 * k" by (metis dvdE mod_eq_0_iff_dvd)
  then have "k = 1" using v by (cases k) auto
  then have "unat (ucast (NOT (fold16_loop c)) :: u16) = 0" using low_half [OF v(1)] k by simp
  then show ?thesis by (simp add: unat_eq_zero)
qed

lemma dataCheck16_verifies:
  assumes "even (length d)" "length d \<le> 131070"
  shows "dataCheck16 (d @ mem16 (dataCheck16 d (int (length d)))) (int (length d + 2)) = 0"
proof -
  let ?c = "dataCheck16 d (int (length d))" and ?S = "sum16 d"
  have "?S \<le> 65535 * ((length d + 1) div 2)" by (rule sum16_bound)
  also have "\<dots> \<le> 65535 * 65535" using assms(2) by (intro mult_le_mono) auto
  finally have S: "?S \<le> 65535 * 65535" .
  have s1: "unat (sum16_loop 0 d) = ?S" using sum16_loop_value [of 0 d] S by simp
  let ?f = "unat (fold16_loop (sum16_loop 0 d))"
  have f: "?f < 2 ^ 16" "?f mod 65535 = ?S mod 65535" "?f = 0 \<longleftrightarrow> ?S = 0"
    using fold16_loop_value [of "sum16_loop 0 d"] s1 by (simp_all add: unat_eq_zero flip: unat_eq_zero [of "sum16_loop 0 d"])
  have c: "unat ?c = 65535 - ?f" using low_half [OF f(1)] by (simp add: dataCheck16_def)
  have "length (mem16 ?c) = 2" by simp
  then obtain x y where xy: "mem16 ?c = [x, y]" using length_eq_2E by blast
  have "sum16 (mem16 ?c) = unat (load16 (mem16 ?c))" unfolding xy by simp
  then have tot: "sum16 (d @ mem16 ?c) = ?S + (65535 - ?f)" using sum16_append [OF assms(1)] c by simp
  then have s2: "unat (sum16_loop 0 (d @ mem16 ?c)) = ?S + (65535 - ?f)"
    using sum16_loop_value [of 0 "d @ mem16 ?c"] S by simp
  have "(?S + (65535 - ?f)) mod 65535 = (?f + (65535 - ?f)) mod 65535" using f(2) by (metis mod_add_left_eq)
  then have m: "(?S + (65535 - ?f)) mod 65535 = 0" using f(1) by simp
  have "?S + (65535 - ?f) \<noteq> 0" using f(3) by auto
  then have "sum16_loop 0 (d @ mem16 ?c) \<noteq> 0" using s2 by (metis unat_eq_zero)
  from fold16_of_multiple [OF _ this] m s2
  have "(ucast (NOT (fold16_loop (sum16_loop 0 (d @ mem16 ?c)))) :: u16) = 0" by simp
  then show ?thesis by (simp add: dataCheck16_def [of "d @ mem16 ?c"])
qed

end
