(* ===== verification/Adapters.thy ===== *)
theory Adapters
  imports StringHelper SampleAuth SocketAddress
begin

text \<open>
  \<open>src/networkutils/adapters.cpp\<close>, \<open>resolvehostname.cpp\<close>: choosing the address of a network adapter and
  resolving a host name. The system is the parameter \<open>nw\<close>: \<open>getifaddrs\<close> lists the adapters or fails with an
  error number, \<open>getaddrinfo\<close> returns its code and the first address found, each call with the state of the
  system it leaves; \<open>inet_pton\<close> of a family and a text returns its code and the address bytes.
\<close>

section \<open>Addresses as text\<close>

text \<open>
  The textual form of an address (\<open>ToString\<close>, \<open>ToStringBuffer\<close>, \<open>OnlyIpToStringBuffer\<close> of
  \<open>src/stuncore/socketaddress.cpp\<close>). The C library's \<open>inet_ntop\<close> is the parameter \<open>ntop\<close>: the text of the
  address bytes of a family, without its terminator, or \<open>None\<close> with the error number \<open>errno\<close>.
  A call returns its result and what it leaves in the caller's buffer.
\<close>

definition INET_ADDRSTRLEN :: nat where "INET_ADDRSTRLEN = 16"
definition INET6_ADDRSTRLEN :: nat where "INET6_ADDRSTRLEN = 46"
definition portLength :: nat where "portLength = 6"

type_synonym ntop = "u16 \<Rightarrow> bytes \<Rightarrow> bytes option"

definition OnlyIpToStringBuffer :: "ntop \<Rightarrow> u32 \<Rightarrow> nat \<Rightarrow> simple_sockaddr \<Rightarrow> bytes \<Rightarrow> hresult \<times> bytes" where
  "OnlyIpToStringBuffer ntop errno len a buf =
     (if len \<le> 0 then (E_INVALIDARG, buf)
      else
        (let buf = overwrite 0 [0] buf;
             family = CSocketAddress_GetFamily a
         in if family \<noteq> AF_INET \<and> family \<noteq> AF_INET6 then (E_FAIL, buf)
            else if family = AF_INET \<and> len < INET_ADDRSTRLEN + portLength then (E_INVALIDARG, buf)
            else if family = AF_INET6 \<and> len < INET6_ADDRSTRLEN + portLength then (E_INVALIDARG, buf)
            else
              (case ntop family (if family = AF_INET then sa_in4 a else sa_in6 a) of
                 None \<Rightarrow> (ERRNOHR errno, buf)
               | Some s \<Rightarrow> (S_OK, strcpy buf (s @ [0])))))"

definition ToStringBuffer :: "ntop \<Rightarrow> u32 \<Rightarrow> nat \<Rightarrow> simple_sockaddr \<Rightarrow> bytes \<Rightarrow> hresult \<times> bytes" where
  "ToStringBuffer ntop errno len a buf =
     (if len \<le> 0 then (E_INVALIDARG, buf)
      else
        (let buf = overwrite 0 [0] buf;
             family = CSocketAddress_GetFamily a
         in if family \<noteq> AF_INET \<and> family \<noteq> AF_INET6 then (E_FAIL, buf)
            else if family = AF_INET \<and> len < INET_ADDRSTRLEN + portLength then (E_INVALIDARG, buf)
            else if family = AF_INET6 \<and> len < INET6_ADDRSTRLEN + portLength then (E_INVALIDARG, buf)
            else
              (case ntop family (if family = AF_INET then sa_in4 a else sa_in6 a) of
                 None \<Rightarrow> (ERRNOHR errno, buf)
               | Some s \<Rightarrow>
                   (let buf = strcpy buf (s @ [0]);
                        szPort = 58 # decimal (unat (CSocketAddress_GetPort a))
                    in (S_OK, overwrite (strlen buf) (szPort @ [0]) buf)))))"

text \<open>\<open>ToString\<close> copies what the buffer of \<open>INET6_ADDRSTRLEN + 6\<close> bytes then holds, whatever the result was.\<close>

definition ToString :: "ntop \<Rightarrow> u32 \<Rightarrow> simple_sockaddr \<Rightarrow> bytes" where
  "ToString ntop errno a =
     cstr (snd (ToStringBuffer ntop errno (INET6_ADDRSTRLEN + 6) a (replicate (INET6_ADDRSTRLEN + 6) 0)))"

section \<open>The text fits and is the address, a colon and the port\<close>

text \<open>What POSIX says of \<open>inet_ntop\<close>: the text of an address has no zero byte and fits the constants.\<close>

definition ntop_fits :: "ntop \<Rightarrow> bool" where
  "ntop_fits ntop \<longleftrightarrow>
     (\<forall>bs s. ntop AF_INET bs = Some s \<longrightarrow> 0 \<notin> set s \<and> length s < INET_ADDRSTRLEN) \<and>
     (\<forall>bs s. ntop AF_INET6 bs = Some s \<longrightarrow> 0 \<notin> set s \<and> length s < INET6_ADDRSTRLEN)"

lemma ntop_fitsD:
  "ntop_fits ntop \<Longrightarrow> ntop AF_INET bs = Some s \<Longrightarrow> 0 \<notin> set s \<and> length s < INET_ADDRSTRLEN"
  "ntop_fits ntop \<Longrightarrow> ntop AF_INET6 bs = Some s \<Longrightarrow> 0 \<notin> set s \<and> length s < INET6_ADDRSTRLEN"
  by (auto simp: ntop_fits_def)

lemma length_port: "length (decimal (unat (p :: u16))) \<le> 5"
  by (rule decimal_length) (use unsigned_less [of p, where 'a = nat] in simp_all)

text \<open>A string copied into the front of a buffer it fits is what the buffer then holds.\<close>

lemma strcpy_whole:
  assumes "0 \<notin> set s" "length s < length buf"
  shows "strcpy buf (s @ [0]) = s @ 0 # drop (Suc (length s)) buf"
  using assms by (simp add: strcpy_def overwrite_def)

lemma overwrite_first: "buf \<noteq> [] \<Longrightarrow> length (overwrite 0 [c] buf) = length buf"
  by (cases buf) (simp_all add: overwrite_def)

lemma ToStringBuffer_text:
  assumes fits: "ntop_fits ntop"
    and fam: "sa_family a = AF_INET \<or> sa_family a = AF_INET6"
    and s: "ntop (sa_family a) (if sa_family a = AF_INET then sa_in4 a else sa_in6 a) = Some s"
    and len: "length buf = len" "INET6_ADDRSTRLEN + portLength \<le> len"
  shows "\<exists>buf'. ToStringBuffer ntop errno len a buf = (S_OK, buf') \<and> length buf' = len \<and>
           cstr buf' = s @ 0x3a # decimal (unat (CSocketAddress_GetPort a))"
proof -
  let ?port = "0x3a # decimal (unat (CSocketAddress_GetPort a))"
  let ?b = "overwrite 0 [0] buf"
  have s0: "0 \<notin> set s" and ls: "length s < INET6_ADDRSTRLEN"
    using fam s ntop_fitsD [OF fits] by (fastforce simp: INET_ADDRSTRLEN_def INET6_ADDRSTRLEN_def)+
  have lp: "length ?port \<le> portLength" using length_port [of "CSocketAddress_GetPort a"] by (simp add: portLength_def)
  have lb: "length ?b = len" by (rule trans [OF overwrite_first]) (use len in \<open>auto simp: portLength_def\<close>)
  have b1: "strcpy ?b (s @ [0]) = s @ 0 # drop (Suc (length s)) ?b"
    by (rule strcpy_whole) (use s0 ls lb len in auto)
  have n: "strlen (s @ 0 # drop (Suc (length s)) ?b) = length s"
    by (subst strlen_cstr) (simp add: s0)
  let ?buf' = "overwrite (length s) (?port @ [0]) (s @ 0 # drop (Suc (length s)) ?b)"
  have "ToStringBuffer ntop errno len a buf = (S_OK, ?buf')"
    using fam s len
    by (auto simp: ToStringBuffer_def CSocketAddress_GetFamily_def Let_def b1 n
        INET_ADDRSTRLEN_def INET6_ADDRSTRLEN_def portLength_def)
  moreover have "length ?buf' = len" using lb lp ls len by (simp add: portLength_def)
  moreover have "cstr ?buf' = s @ ?port"
  proof -
    have "?buf' = (s @ ?port) @ 0 # drop (length ?port) (drop (Suc (length s)) ?b)"
      by (simp add: overwrite_def)
    then show ?thesis using s0 decimal_no(1) by (simp del: append_assoc)
  qed
  ultimately show ?thesis by blast
qed

lemma ToString_text:
  assumes "ntop_fits ntop" "sa_family a = AF_INET \<or> sa_family a = AF_INET6"
    and "ntop (sa_family a) (if sa_family a = AF_INET then sa_in4 a else sa_in6 a) = Some s"
  shows "ToString ntop errno a = s @ 0x3a # decimal (unat (CSocketAddress_GetPort a))"
  using ToStringBuffer_text [OF assms, of "replicate (INET6_ADDRSTRLEN + 6) 0" "INET6_ADDRSTRLEN + 6" errno]
  by (auto simp: ToString_def portLength_def)

record ifaddrs =
  ifa_name :: "bytes option"
  ifa_flags :: u32
  ifa_addr :: "simple_sockaddr option"

record 'w netdb =
  nd_getifaddrs :: "'w \<Rightarrow> (u32 + ifaddrs list) \<times> 'w"
  nd_getaddrinfo :: "bytes \<Rightarrow> u16 \<Rightarrow> bool \<Rightarrow> 'w \<Rightarrow> (int \<times> simple_sockaddr option) \<times> 'w"
  nd_pton :: "u16 \<Rightarrow> bytes \<Rightarrow> int \<times> bytes"
  nd_ntop :: ntop
  nd_errno :: "'w \<Rightarrow> u32"

definition IFF_UP :: u32 where "IFF_UP = 1"
definition IFF_LOOPBACK :: u32 where "IFF_LOOPBACK = 8"

definition default_adapter :: "u16 \<Rightarrow> ifaddrs \<Rightarrow> bool" where
  "default_adapter family a \<longleftrightarrow>
     ifa_addr a \<noteq> None \<and> sa_family (the (ifa_addr a)) = family \<and> ifa_flags a AND IFF_UP \<noteq> 0 \<and>
     \<not> (ifa_flags a AND IFF_LOOPBACK \<noteq> 0)"

fun GetDefaultAdapters :: "u16 \<Rightarrow> ifaddrs list \<Rightarrow> ifaddrs option \<Rightarrow> ifaddrs option \<times> ifaddrs option" where
  "GetDefaultAdapters family [] primary = (primary, None)"
| "GetDefaultAdapters family (pAdapter # pList) primary =
     (if default_adapter family pAdapter
      then (if primary = None then GetDefaultAdapters family pList (Some pAdapter) else (primary, Some pAdapter))
      else GetDefaultAdapters family pList primary)"

definition HasAtLeastTwoAdapters :: "('w, 'x) netdb_scheme \<Rightarrow> u16 \<Rightarrow> 'w \<Rightarrow> bool \<times> 'w" where
  "HasAtLeastTwoAdapters nd family w =
     (case nd_getifaddrs nd w of
        (Inl errno, w) \<Rightarrow> (False, w)
      | (Inr pList, w) \<Rightarrow>
          (let (pAdapter1, pAdapter2) = GetDefaultAdapters family pList None
           in (pAdapter1 \<noteq> None \<and> pAdapter2 \<noteq> None, w)))"

definition GetBestAddressForSocketBind ::
  "('w, 'x) netdb_scheme \<Rightarrow> bool \<Rightarrow> u16 \<Rightarrow> u16 \<Rightarrow> simple_sockaddr \<Rightarrow> 'w \<Rightarrow> hresult \<times> simple_sockaddr \<times> 'w" where
  "GetBestAddressForSocketBind nd fPrimary family port addr w =
     (case nd_getifaddrs nd w of
        (Inl errno, w) \<Rightarrow> (ERRNOHR errno, addr, w)
      | (Inr pList, w) \<Rightarrow>
          (let (pAdapter1, pAdapter2) = GetDefaultAdapters family pList None
           in case (if fPrimary then pAdapter1 else pAdapter2) of
                None \<Rightarrow> (E_FAIL, addr, w)
              | Some pAdapter \<Rightarrow>
                  (case ifa_addr pAdapter of
                     None \<Rightarrow> (E_UNEXPECTED, addr, w)
                   | Some a \<Rightarrow> (S_OK, CSocketAddress_SetPort port (CSocketAddress_CommonConstructor a), w))))"

text \<open>The first adapter of a family with the name; the first whose address has the bytes.\<close>

definition named_adapter :: "u16 \<Rightarrow> bytes \<Rightarrow> ifaddrs \<Rightarrow> bool" where
  "named_adapter family name a \<longleftrightarrow>
     ifa_addr a \<noteq> None \<and> ifa_name a \<noteq> None \<and> family = sa_family (the (ifa_addr a)) \<and> cstr (the (ifa_name a)) = cstr name"

definition adapter_with_ip :: "u16 \<Rightarrow> bytes \<Rightarrow> ifaddrs \<Rightarrow> bool" where
  "adapter_with_ip family addrbytes a \<longleftrightarrow>
     ifa_addr a \<noteq> None \<and> family = sa_family (the (ifa_addr a)) \<and>
     (if family = AF_INET then sa_in4 (the (ifa_addr a)) = take 4 addrbytes else sa_in6 (the (ifa_addr a)) = take 16 addrbytes)"

definition GetSocketAddressForAdapter ::
  "('w, 'x) netdb_scheme \<Rightarrow> u16 \<Rightarrow> bytes \<Rightarrow> u16 \<Rightarrow> simple_sockaddr \<Rightarrow> 'w \<Rightarrow> hresult \<times> simple_sockaddr \<times> 'w" where
  "GetSocketAddressForAdapter nd family pszAdapterName port addr w =
     (if cstr pszAdapterName = [] then (E_INVALIDARG, addr, w)
      else
        (case nd_getifaddrs nd w of
           (Inl errno, w) \<Rightarrow> (ERRNOHR errno, addr, w)
         | (Inr pList, w) \<Rightarrow>
             (let pAdapterFound = find (named_adapter family pszAdapterName) pList;
                  pAdapterFound =
                    (if pAdapterFound = None \<and> (family = AF_INET \<or> family = AF_INET6)
                     then (let (ret, addrbytes) = nd_pton nd family (cstr pszAdapterName)
                           in if ret = 1 then find (adapter_with_ip family addrbytes) pList else None)
                     else pAdapterFound)
              in case pAdapterFound of
                   None \<Rightarrow> (E_FAIL, addr, w)
                 | Some a \<Rightarrow> (S_OK, CSocketAddress_SetPort port (CSocketAddress_CommonConstructor (the (ifa_addr a))), w))))"

definition ResolveHostName ::
  "('w, 'x) netdb_scheme \<Rightarrow> bytes \<Rightarrow> u16 \<Rightarrow> bool \<Rightarrow> simple_sockaddr \<Rightarrow> 'w \<Rightarrow> hresult \<times> simple_sockaddr \<times> 'w" where
  "ResolveHostName nd pszHostName family fNumericOnly addr w =
     (let strHostName = Trim (cstr pszHostName)
      in if length strHostName = 0 then (E_INVALIDARG, addr, w)
         else
           (case nd_getaddrinfo nd strHostName family fNumericOnly w of
              ((ret, result), w) \<Rightarrow>
                if ret \<noteq> 0 then (ERRNO_TO_HRESULT (word_of_int ret), addr, w)
                else
                  (case result of
                     None \<Rightarrow> (E_FAIL, addr, w)
                   | Some a \<Rightarrow> (S_OK, CSocketAddress_CommonConstructor a, w))))"

definition NumericIPToAddress :: "('w, 'x) netdb_scheme \<Rightarrow> u16 \<Rightarrow> bytes \<Rightarrow> simple_sockaddr \<Rightarrow> hresult \<times> simple_sockaddr" where
  "NumericIPToAddress nd family pszIP addr =
     (if family \<noteq> AF_INET \<and> family \<noteq> AF_INET6 then (E_INVALIDARG, addr)
      else if family = AF_INET
      then (let (ret, bs) = nd_pton nd family (cstr pszIP)
            in if ret = 0 then (E_FAIL, addr)
               else (S_OK, CSocketAddress_from_in4
                       (sockaddr_zero\<lparr>sa_family := family, sa_in4 := (if ret = 1 then bs else replicate 4 0)\<rparr>)))
      else (let (ret, bs) = nd_pton nd family (cstr pszIP)
            in if ret = 0 then (E_FAIL, addr)
               else (S_OK, CSocketAddress_from_in6
                       (sockaddr_zero\<lparr>sa_family := family, sa_in6 := (if ret = 1 then bs else replicate 16 0)\<rparr>))))"

section \<open>What the adapters give\<close>

text \<open>
  What the system promises: adapters and hosts of a family have addresses of that family's form, and
  \<open>inet_pton\<close> gives as many bytes as the family's addresses have.
\<close>

definition netdb_ok :: "('w, 'x) netdb_scheme \<Rightarrow> bool" where
  "netdb_ok nd \<longleftrightarrow>
     (\<forall>w l w' a s. nd_getifaddrs nd w = (Inr l, w') \<longrightarrow> a \<in> set l \<longrightarrow> ifa_addr a = Some s \<longrightarrow>
        length (sa_port s) = 2 \<and> length (sa_in4 s) = 4 \<and> length (sa_in6 s) = 16 \<and> length (sa_scope s) = 4) \<and>
     (\<forall>h f b w s w'. nd_getaddrinfo nd h f b w = ((0, Some s), w') \<longrightarrow> f \<in> {AF_INET, AF_INET6} \<longrightarrow>
        wf_addr s \<and> sa_family s = f) \<and>
     (\<forall>t r. nd_pton nd AF_INET t = (1, r) \<longrightarrow> length r = 4) \<and>
     (\<forall>t r. nd_pton nd AF_INET6 t = (1, r) \<longrightarrow> length r = 16)"

lemma netdb_okD:
  assumes "netdb_ok nd"
  shows "nd_getifaddrs nd w = (Inr l, w') \<Longrightarrow> a \<in> set l \<Longrightarrow> ifa_addr a = Some s \<Longrightarrow> sa_family s \<in> {AF_INET, AF_INET6} \<Longrightarrow> wf_addr s"
    "nd_getaddrinfo nd h f b w = ((0, Some s), w') \<Longrightarrow> f \<in> {AF_INET, AF_INET6} \<Longrightarrow> wf_addr s \<and> sa_family s = f"
    "nd_pton nd AF_INET t = (1, r) \<Longrightarrow> length r = 4" "nd_pton nd AF_INET6 t = (1, r) \<Longrightarrow> length r = 16"
  using assms unfolding netdb_ok_def wf_addr_def by blast+

lemma wf_common_address: "wf_addr a \<Longrightarrow> wf_addr (CSocketAddress_CommonConstructor a)"
  by (auto simp: wf_addr_def CSocketAddress_CommonConstructor_def CSocketAddress_from_in4_def CSocketAddress_from_in6_def
      sockaddr_zero_def)

lemma family_CommonConstructor [simp]: "sa_family (CSocketAddress_CommonConstructor a) = sa_family a"
  by (auto simp: CSocketAddress_CommonConstructor_def CSocketAddress_from_in4_def CSocketAddress_from_in6_def)

lemma SetPort_facts [simp]:
  "sa_in4 (CSocketAddress_SetPort p a) = sa_in4 a"
  "sa_in6 (CSocketAddress_SetPort p a) = sa_in6 a"
  by (simp_all add: CSocketAddress_SetPort_def)

lemma GetDefaultAdapters_default:
  assumes "GetDefaultAdapters family l p = (a1, a2)"
  shows "(a1 = p \<or> (\<exists>a \<in> set l. a1 = Some a \<and> default_adapter family a)) \<and> (\<forall>a. a2 = Some a \<longrightarrow> a \<in> set l \<and> default_adapter family a)"
  using assms
proof (induction l arbitrary: p)
  case (Cons x l)
  show ?case
  proof (cases "default_adapter family x")
    case False
    then have "GetDefaultAdapters family l p = (a1, a2)" using Cons.prems by simp
    from Cons.IH [OF this] show ?thesis by auto
  next
    case True
    show ?thesis
    proof (cases p)
      case None
      then have "GetDefaultAdapters family l (Some x) = (a1, a2)" using Cons.prems True by simp
      from Cons.IH [OF this] True show ?thesis by auto
    next
      case (Some y)
      then show ?thesis using Cons.prems True by auto
    qed
  qed
qed simp

lemma find_found: "find P l = Some x \<Longrightarrow> x \<in> set l \<and> P x"
  by (induction l) (auto split: if_splits)

lemma GetBestAddress_ok:
  assumes "netdb_ok nd" "GetBestAddressForSocketBind nd fp family port addr w = (hr, a, w')" "SUCCEEDED hr"
    and "family \<in> {AF_INET, AF_INET6}"
  shows "wf_addr a \<and> sa_family a = family"
proof -
  obtain l w1 where g: "nd_getifaddrs nd w = (Inr l, w1)"
    using assms(2,3) by (cases "nd_getifaddrs nd w"; cases "fst (nd_getifaddrs nd w)") (auto simp: GetBestAddressForSocketBind_def)
  obtain a1 a2 where d: "GetDefaultAdapters family l None = (a1, a2)" by fastforce
  define c where "c = (if fp then a1 else a2)"
  have r: "GetBestAddressForSocketBind nd fp family port addr w =
      (case c of None \<Rightarrow> (E_FAIL, addr, w1)
       | Some x \<Rightarrow> (case ifa_addr x of None \<Rightarrow> (E_UNEXPECTED, addr, w1)
           | Some s \<Rightarrow> (S_OK, CSocketAddress_SetPort port (CSocketAddress_CommonConstructor s), w1)))"
    unfolding GetBestAddressForSocketBind_def c_def Let_def g d prod.case sum.case by (rule refl)
  obtain x where c: "c = Some x" using assms(2,3) unfolding r by (cases c) simp_all
  obtain s where s: "ifa_addr x = Some s" using assms(2,3) unfolding r c by (cases "ifa_addr x") simp_all
  have x: "(if fp then a1 else a2) = Some x" "ifa_addr x = Some s"
    "a = CSocketAddress_SetPort port (CSocketAddress_CommonConstructor s)"
    using assms(2) s c unfolding r by (simp_all add: c_def)
  have "x \<in> set l \<and> default_adapter family x" using GetDefaultAdapters_default [OF d] x(1) by (auto split: if_splits)
  then have "wf_addr s" "sa_family s = family"
    using netdb_okD(1) [OF assms(1) g _ x(2)] assms(4) x(2) by (auto simp: default_adapter_def)
  then show ?thesis by (simp add: x(3) wf_addr_SetPort wf_common_address)
qed

lemma GetSocketAddressForAdapter_ok:
  assumes "netdb_ok nd" "GetSocketAddressForAdapter nd family name port addr w = (hr, a, w')" "SUCCEEDED hr"
    and "family \<in> {AF_INET, AF_INET6}"
  shows "wf_addr a \<and> sa_family a = family"
proof -
  obtain l w1 where g: "nd_getifaddrs nd w = (Inr l, w1)"
    using assms(2,3)
    by (cases "nd_getifaddrs nd w"; cases "fst (nd_getifaddrs nd w)"; cases "cstr name = []") (auto simp: GetSocketAddressForAdapter_def)
  define found where "found = (if find (named_adapter family name) l = None \<and> (family = AF_INET \<or> family = AF_INET6)
      then (let (ret, addrbytes) = nd_pton nd family (cstr name) in if ret = 1 then find (adapter_with_ip family addrbytes) l else None)
      else find (named_adapter family name) l)"
  have r: "GetSocketAddressForAdapter nd family name port addr w =
      (if cstr name = [] then (E_INVALIDARG, addr, w)
       else case found of None \<Rightarrow> (E_FAIL, addr, w1)
         | Some a \<Rightarrow> (S_OK, CSocketAddress_SetPort port (CSocketAddress_CommonConstructor (the (ifa_addr a))), w1))"
    unfolding GetSocketAddressForAdapter_def found_def Let_def g prod.case sum.case by (rule refl)
  then obtain x where x: "found = Some x" "a = CSocketAddress_SetPort port (CSocketAddress_CommonConstructor (the (ifa_addr x)))"
    using assms(2,3) by (cases found) (simp_all split: if_splits)
  obtain ret bs where p: "nd_pton nd family (cstr name) = (ret, bs)" by fastforce
  have "(\<exists>P. find P l = Some x \<and> (P = named_adapter family name \<or> P = adapter_with_ip family bs))"
    using x(1) by (simp add: found_def p split: if_splits) blast+
  then have "x \<in> set l \<and> ifa_addr x \<noteq> None \<and> sa_family (the (ifa_addr x)) = family"
    using find_found [of _ l x] by (metis named_adapter_def adapter_with_ip_def)
  then have "\<exists>x s. x \<in> set l \<and> ifa_addr x = Some s \<and> sa_family s = family \<and>
      a = CSocketAddress_SetPort port (CSocketAddress_CommonConstructor s)"
    using x(2) by auto
  then obtain x s where x: "x \<in> set l" "ifa_addr x = Some s" "sa_family s = family"
    "a = CSocketAddress_SetPort port (CSocketAddress_CommonConstructor s)" by blast
  then have "wf_addr s" using netdb_okD(1) [OF assms(1) g x(1,2)] assms(4) by simp
  then show ?thesis by (simp add: x(3,4) wf_addr_SetPort wf_common_address)
qed

lemma GetSocketAddressForAdapter_port:
  assumes "GetSocketAddressForAdapter nd family name port addr w = (hr, a, w')" "SUCCEEDED hr"
  shows "CSocketAddress_GetPort a = port"
proof -
  have "\<exists>s. a = CSocketAddress_SetPort port s"
    using assms
    by (cases "nd_getifaddrs nd w"; cases "fst (nd_getifaddrs nd w)"; cases "cstr name = []")
      (auto simp: GetSocketAddressForAdapter_def Let_def simp del: find.simps split: option.splits)
  then show ?thesis by auto
qed

lemma NumericIPToAddress_ok:
  assumes "netdb_ok nd" "NumericIPToAddress nd family ip addr = (hr, a)" "SUCCEEDED hr"
  shows "wf_addr a \<and> sa_family a = family"
  using assms(2,3) netdb_okD(3,4) [OF assms(1)]
  by (auto simp: NumericIPToAddress_def wf_addr_def CSocketAddress_from_in4_def CSocketAddress_from_in6_def sockaddr_zero_def
      split: if_splits prod.splits)

end
