(* ===== verification/PrettyPrint.thy ===== *)
theory PrettyPrint
  imports SampleAuth
begin

text \<open>
  \<open>src/common/prettyprint.cpp\<close> and \<open>getconsolewidth.cpp\<close>: the usage texts, wrapped to the width of the
  console. A C string is the list of its characters before the terminator, a null pointer is \<open>None\<close>; what is
  printed is a list of lines, each of which the code ends with a newline.
\<close>

section \<open>Words and paragraphs\<close>

definition IsWhitespace :: "u8 \<Rightarrow> bool" where
  "IsWhitespace ch \<longleftrightarrow> ch = 0x20 \<or> ch = 9 \<or> ch = 0xb \<or> ch = 0xd \<or> ch = 0xa"

function split_words :: "bytes list \<Rightarrow> bytes \<Rightarrow> bytes list" where
  "split_words listWords s =
     (if s = [] then listWords
      else
        (let s = dropWhile IsWhitespace s
         in if s = [] then listWords
            else split_words (listWords @ [takeWhile (\<lambda>ch. \<not> IsWhitespace ch) s]) (dropWhile (\<lambda>ch. \<not> IsWhitespace ch) s)))"
  by pat_completeness auto
termination
proof (relation "measure (\<lambda>(ws, s). length s)", goal_cases)
  case (2 ws s t)
  then have "\<not> IsWhitespace (hd t)" "t \<noteq> []" using hd_dropWhile [of IsWhitespace s] by simp_all
  then obtain c r where "t = c # r" "\<not> IsWhitespace c" by (cases t) auto
  then have "length (dropWhile (\<lambda>ch. \<not> IsWhitespace ch) t) < length t"
    using length_dropWhile_le [of "\<lambda>ch. \<not> IsWhitespace ch" r] by (simp add: less_Suc_eq_le)
  also have "length t \<le> length s" using 2 length_dropWhile_le [of IsWhitespace s] by simp
  finally show ?case by simp
qed simp

declare split_words.simps [simp del]

definition SplitParagraphIntoWords :: "bytes option \<Rightarrow> bytes list" where
  "SplitParagraphIntoWords pszLine = (case pszLine of None \<Rightarrow> [] | Some s \<Rightarrow> split_words [] s)"

definition line_end :: "u8 \<Rightarrow> bool" where
  "line_end ch \<longleftrightarrow> ch = 0xd \<or> ch = 0xa"

text \<open>What is left after the end of a paragraph.\<close>

definition skip_line_end :: "bytes \<Rightarrow> bytes" where
  "skip_line_end s =
     (case s of
        [] \<Rightarrow> []
      | ch # t \<Rightarrow>
          if ch = 0xd then (case t of [] \<Rightarrow> [] | ch' # t' \<Rightarrow> if ch' = 0xa then t' else t)
          else if ch = 0xa then t else s)"

function split_paragraphs :: "bytes list \<Rightarrow> bytes \<Rightarrow> bytes list" where
  "split_paragraphs listParagraphs s =
     (if s = [] then listParagraphs
      else split_paragraphs (listParagraphs @ [takeWhile (\<lambda>ch. \<not> line_end ch) s])
             (skip_line_end (dropWhile (\<lambda>ch. \<not> line_end ch) s)))"
  by pat_completeness auto
termination
proof (relation "measure (\<lambda>(ps, s). length s)", goal_cases)
  case (2 ps s)
  let ?t = "dropWhile (\<lambda>ch. \<not> line_end ch) s"
  show ?case
  proof (cases "?t")
    case Nil
    have "skip_line_end ?t = []" unfolding Nil by (simp add: skip_line_end_def)
    then show ?thesis using 2 by simp
  next
    case (Cons ch t)
    then have "line_end ch" using hd_dropWhile [of "\<lambda>ch. \<not> line_end ch" s] by (metis list.discI list.sel(1))
    then have "length (skip_line_end ?t) < length ?t" unfolding Cons
      by (auto simp: skip_line_end_def line_end_def split: list.splits)
    then show ?thesis using length_dropWhile_le [of "\<lambda>ch. \<not> line_end ch" s] by simp
  qed
qed simp

declare split_paragraphs.simps [simp del]

definition SplitInputIntoParagraphs :: "bytes option \<Rightarrow> bytes list" where
  "SplitInputIntoParagraphs pszInput = (case pszInput of None \<Rightarrow> [] | Some s \<Rightarrow> split_paragraphs [] s)"

section \<open>Printing\<close>

text \<open>The loop over the words: the lines printed so far, the current one, and whether a new one starts.\<close>

function layout_loop :: "nat \<Rightarrow> bytes \<Rightarrow> bytes list \<Rightarrow> bytes \<Rightarrow> bool \<Rightarrow> bytes list \<Rightarrow> bytes list \<times> bytes" where
  "layout_loop width strIndent printed strLine fLineStart [] = (printed, strLine)"
| "layout_loop width strIndent printed strLine fLineStart (word # words) =
     (if fLineStart then layout_loop width strIndent printed (strIndent @ word) False words
      else
        (let newsize = length strLine + 1 + length word
         in if newsize \<le> width then layout_loop width strIndent printed (strLine @ [0x20] @ word) False words
            else layout_loop width strIndent (printed @ [strLine]) strLine True (word # words)))"
  by pat_completeness auto
termination
  by (relation "measure (\<lambda>(w, i, p, l, start, words). 2 * length words + (if start then 0 else 1))") auto

definition PrintParagraph :: "bytes option \<Rightarrow> nat \<Rightarrow> bytes list" where
  "PrintParagraph psz width =
     (if width \<le> 0 then []
      else
        (case psz of
           None \<Rightarrow> []
         | Some s \<Rightarrow>
             (let indent = length (takeWhile IsWhitespace s);
                  listWords = SplitParagraphIntoWords psz;
                  indent = (if indent \<ge> width then width - 1 else indent);
                  (printed, strLine) = layout_loop width (replicate indent 0x20) [] [] True listWords
              in printed @ (if length strLine > 0 \<or> length listWords = 0 then [strLine] else []))))"

definition PrettyPrint :: "bytes option \<Rightarrow> nat \<Rightarrow> bytes list" where
  "PrettyPrint pszInput width =
     concat (map (\<lambda>p. PrintParagraph (Some p) width) (SplitInputIntoParagraphs pszInput))"

text \<open>\<open>GetConsoleWidth\<close>: what \<open>ioctl\<close> returns and the columns it stores.\<close>

definition DEFAULT_CONSOLE_WIDTH :: nat where "DEFAULT_CONSOLE_WIDTH = 80"

definition GetConsoleWidth :: "int \<times> u16 \<Rightarrow> nat" where
  "GetConsoleWidth io = (case io of (ret, ws_col) \<Rightarrow> if ret \<noteq> -1 \<and> ws_col > 0 then unat ws_col else DEFAULT_CONSOLE_WIDTH)"

section \<open>The log\<close>

text \<open>\<open>src/common/logger.*\<close>: a line is printed when its level does not exceed the level that is set; \<open>line\<close> is what
  \<open>vprintf\<close> makes of the format and its arguments.\<close>

definition LL_ALWAYS :: u32 where "LL_ALWAYS = 0"
definition LL_DEBUG :: u32 where "LL_DEBUG = 1"
definition LL_VERBOSE :: u32 where "LL_VERBOSE = 2"
definition LL_VERBOSE_EXTREME :: u32 where "LL_VERBOSE_EXTREME = 3"

record log_state =
  s_loglevel :: u32
  log_printed :: bytes

definition log_init :: log_state where
  "log_init = \<lparr>s_loglevel = LL_ALWAYS, log_printed = []\<rparr>"

definition VPrintMsg :: "bytes \<Rightarrow> log_state \<Rightarrow> log_state" where
  "VPrintMsg line lg = lg\<lparr>log_printed := log_printed lg @ line @ [0x0A]\<rparr>"

definition GetLogLevel :: "log_state \<Rightarrow> u32" where
  "GetLogLevel lg = s_loglevel lg"

definition SetLogLevel :: "u32 \<Rightarrow> log_state \<Rightarrow> log_state" where
  "SetLogLevel level lg = lg\<lparr>s_loglevel := level\<rparr>"

definition LogMsg :: "u32 \<Rightarrow> bytes \<Rightarrow> log_state \<Rightarrow> log_state" where
  "LogMsg level line lg = (if level \<le> s_loglevel lg then VPrintMsg line lg else lg)"

lemma log_filtered:
  "log_printed (fold (\<lambda>(level, line). LogMsg level line) ms lg) =
     log_printed lg @ concat [line @ [0x0A]. (level, line) \<leftarrow> ms, level \<le> s_loglevel lg]"
proof (induction ms arbitrary: lg)
  case (Cons m ms)
  have "s_loglevel (LogMsg (fst m) (snd m) lg) = s_loglevel lg" by (simp add: LogMsg_def VPrintMsg_def)
  then show ?case using Cons [of "LogMsg (fst m) (snd m) lg"] by (simp add: case_prod_beta LogMsg_def VPrintMsg_def)
qed simp

section \<open>The layout\<close>

text \<open>A line of words: the indentation and the words with single spaces between them.\<close>

fun spaced :: "bytes list \<Rightarrow> bytes" where
  "spaced [] = []"
| "spaced [w] = w"
| "spaced (w # ws) = w @ 0x20 # spaced ws"

lemma spaced_snoc: "ws \<noteq> [] \<Longrightarrow> spaced (ws @ [w]) = spaced ws @ 0x20 # w"
  by (induction ws rule: spaced.induct) auto

definition good_line :: "nat \<Rightarrow> bytes \<Rightarrow> bytes list \<Rightarrow> bool" where
  "good_line width strIndent ws \<longleftrightarrow> ws \<noteq> [] \<and> (length (strIndent @ spaced ws) \<le> width \<or> length ws = 1)"

lemma layout_loop_groups:
  assumes "\<not> fLineStart \<Longrightarrow> g \<noteq> [] \<and> strLine = strIndent @ spaced g \<and> good_line width strIndent g"
    and "fLineStart \<Longrightarrow> g = []" "fLineStart \<Longrightarrow> words \<noteq> []"
  shows "\<exists>gs last. layout_loop width strIndent printed strLine fLineStart words =
             (printed @ map (\<lambda>g. strIndent @ spaced g) gs, strIndent @ spaced last) \<and>
           concat gs @ last = g @ words \<and> (\<forall>h \<in> set (gs @ [last]). good_line width strIndent h)"
  using assms
proof (induction width strIndent printed strLine fLineStart words arbitrary: g rule: layout_loop.induct)
  case (1 width strIndent printed strLine fLineStart)
  then show ?case by (intro exI [of _ "[]"] exI [of _ g]) auto
next
  case (2 width strIndent printed strLine fLineStart word words)
  show ?case
  proof (cases fLineStart)
    case True
    then show ?thesis using 2(1) [OF True, of "[word]"] 2(5)
      by (auto simp: good_line_def)
  next
    case start: False
    note g = 2(4) [OF start]
    show ?thesis
    proof (cases "length strLine + 1 + length word \<le> width")
      case True
      have "strLine @ [0x20] @ word = strIndent @ spaced (g @ [word])" using g by (simp add: spaced_snoc)
      moreover have "good_line width strIndent (g @ [word])" using g True by (simp add: good_line_def spaced_snoc)
      ultimately show ?thesis using 2(2) [OF start refl True, of "g @ [word]"] start True by auto
    next
      case False
      obtain gs last where
        "layout_loop width strIndent (printed @ [strLine]) strLine True (word # words) =
           ((printed @ [strLine]) @ map (\<lambda>g. strIndent @ spaced g) gs, strIndent @ spaced last)"
        "concat gs @ last = [] @ word # words" "\<forall>h \<in> set (gs @ [last]). good_line width strIndent h"
        using 2(3) [OF start refl False, of "[]"] by auto
      with start False g show ?thesis by (intro exI [of _ "g # gs"] exI [of _ last]) simp
    qed
  qed
qed

lemma split_words_words:
  "(\<forall>w \<in> set ws. w \<noteq> [] \<and> (\<forall>ch \<in> set w. \<not> IsWhitespace ch)) \<Longrightarrow>
   \<forall>w \<in> set (split_words ws s). w \<noteq> [] \<and> (\<forall>ch \<in> set w. \<not> IsWhitespace ch)"
proof (induction ws s rule: split_words.induct)
  case (1 ws s)
  let ?t = "dropWhile IsWhitespace s"
  note ws0 = 1(2)
  show ?case
  proof (cases "s = [] \<or> ?t = []")
    case True
    then show ?thesis using 1(2) by (subst split_words.simps) (auto simp: Let_def)
  next
    case False
    then have "\<not> IsWhitespace (hd ?t)" using hd_dropWhile [of IsWhitespace s] by simp
    then have w: "takeWhile (\<lambda>ch. \<not> IsWhitespace ch) ?t \<noteq> []" using False by (cases ?t) auto
    have ws: "\<forall>w \<in> set (ws @ [takeWhile (\<lambda>ch. \<not> IsWhitespace ch) ?t]). w \<noteq> [] \<and> (\<forall>ch \<in> set w. \<not> IsWhitespace ch)"
    proof
      fix v
      assume "v \<in> set (ws @ [takeWhile (\<lambda>ch. \<not> IsWhitespace ch) ?t])"
      then consider "v \<in> set ws" | "v = takeWhile (\<lambda>ch. \<not> IsWhitespace ch) ?t" by (simp only: set_append list.set) blast
      then show "v \<noteq> [] \<and> (\<forall>ch \<in> set v. \<not> IsWhitespace ch)"
      proof cases
        case 1
        then show ?thesis using ws0 by blast
      next
        case 2
        have "\<not> IsWhitespace ch" if "ch \<in> set v" for ch
          using that unfolding 2 by (rule conjunct2 [OF set_takeWhileD])
        moreover have "v \<noteq> []" unfolding 2 by (rule w)
        ultimately show ?thesis by blast
      qed
    qed
    have e: "split_words ws s =
        split_words (ws @ [takeWhile (\<lambda>ch. \<not> IsWhitespace ch) ?t]) (dropWhile (\<lambda>ch. \<not> IsWhitespace ch) ?t)"
      using False by (subst split_words.simps) (simp only: Let_def if_False simp_thms de_Morgan_disj)
    show ?thesis unfolding e by (rule 1(1) [OF _ refl _ ws]) (use False in blast)+
  qed
qed

lemma PrintParagraph_layout:
  assumes "0 < width" and words: "SplitParagraphIntoWords (Some s) \<noteq> []"
  shows "\<exists>k groups. k < width \<and> k \<le> length (takeWhile IsWhitespace s) \<and>
           PrintParagraph (Some s) width = map (\<lambda>g. replicate k 0x20 @ spaced g) groups \<and>
           concat groups = SplitParagraphIntoWords (Some s) \<and>
           (\<forall>g \<in> set groups. good_line width (replicate k 0x20) g)"
proof -
  let ?ws = "SplitParagraphIntoWords (Some s)" and ?n = "length (takeWhile IsWhitespace s)"
  define k where "k = (if width \<le> ?n then width - 1 else ?n)"
  have k: "k < width" "k \<le> ?n" using assms(1) by (auto simp: k_def)
  obtain gs last where loop: "layout_loop width (replicate k 0x20) [] [] True ?ws =
      ([] @ map (\<lambda>g. replicate k 0x20 @ spaced g) gs, replicate k 0x20 @ spaced last)"
    "concat gs @ last = [] @ ?ws" "\<forall>h \<in> set (gs @ [last]). good_line width (replicate k 0x20) h"
    using layout_loop_groups [of True "[]" "[]" "replicate k 0x20" width ?ws "[]"] words by auto
  have "last \<noteq> []" using loop(3) by (simp add: good_line_def)
  moreover have "w \<noteq> []" if "w \<in> set last" for w
  proof -
    have "set last \<subseteq> set ?ws" unfolding loop(2) [simplified, symmetric] by auto
    then have "w \<in> set ?ws" using that by blast
    then show ?thesis using split_words_words [of "[]" s] by (simp add: SplitParagraphIntoWords_def)
  qed
  ultimately have "spaced last \<noteq> []" by (cases last rule: spaced.cases) auto
  then have "PrintParagraph (Some s) width = map (\<lambda>g. replicate k 0x20 @ spaced g) (gs @ [last])"
    using assms(1) loop(1) by (simp add: PrintParagraph_def Let_def k_def)
  then show ?thesis using k loop(2,3) by (intro exI [of _ k] exI [of _ "gs @ [last]"]) simp
qed

end
