(* ===== verification/ServerMain.thy ===== *)
theory ServerMain
  imports Adapters StringHelper PrettyPrint ServerSetup TcpServer
begin

text \<open>
  \<open>src/server/main.cpp\<close>: the server program, from the command line to the running server. The usage texts are
  files the build generates and a parameter; what is logged is not modelled.
\<close>

section \<open>Arguments\<close>

record StartupArgs =
  sa_strMode :: bytes
  sa_strPrimaryInterface :: bytes
  sa_strAltInterface :: bytes
  sa_strPrimaryPort :: bytes
  sa_strAltPort :: bytes
  sa_strPrimaryAdvertised :: bytes
  sa_strAlternateAdvertised :: bytes
  sa_strFamily :: bytes
  sa_strProtocol :: bytes
  sa_strHelp :: bytes
  sa_strVerbosity :: bytes
  sa_strMaxConnections :: bytes

definition StartupArgs_new :: StartupArgs where
  "StartupArgs_new =
     \<lparr>sa_strMode = [], sa_strPrimaryInterface = [], sa_strAltInterface = [], sa_strPrimaryPort = [], sa_strAltPort = [],
      sa_strPrimaryAdvertised = [], sa_strAlternateAdvertised = [], sa_strFamily = [], sa_strProtocol = [], sa_strHelp = [],
      sa_strVerbosity = [], sa_strMaxConnections = []\<rparr>"

definition no_argument :: int where "no_argument = 0"
definition required_argument :: int where "required_argument = 1"

text \<open>The calls of \<open>AddOption\<close>, one after the other.\<close>

definition add_option :: "string \<Rightarrow> int \<Rightarrow> (bytes \<Rightarrow> 's \<Rightarrow> 's) \<Rightarrow> 's CCmdLineParser \<Rightarrow> 's CCmdLineParser" where
  "add_option name has_arg assign c = snd (AddOption (Some (ascii name)) has_arg (Some assign) c)"

definition server_options :: "StartupArgs CCmdLineParser" where
  "server_options =
     add_option ''verbosity'' required_argument (\<lambda>v. sa_strVerbosity_update (\<lambda>_. v))
     (add_option ''help'' no_argument (\<lambda>v. sa_strHelp_update (\<lambda>_. v))
     (add_option ''maxconn'' required_argument (\<lambda>v. sa_strMaxConnections_update (\<lambda>_. v))
     (add_option ''protocol'' required_argument (\<lambda>v. sa_strProtocol_update (\<lambda>_. v))
     (add_option ''family'' required_argument (\<lambda>v. sa_strFamily_update (\<lambda>_. v))
     (add_option ''altport'' required_argument (\<lambda>v. sa_strAltPort_update (\<lambda>_. v))
     (add_option ''primaryport'' required_argument (\<lambda>v. sa_strPrimaryPort_update (\<lambda>_. v))
     (add_option ''altadvertised'' required_argument (\<lambda>v. sa_strAlternateAdvertised_update (\<lambda>_. v))
     (add_option ''primaryadvertised'' required_argument (\<lambda>v. sa_strPrimaryAdvertised_update (\<lambda>_. v))
     (add_option ''altinterface'' required_argument (\<lambda>v. sa_strAltInterface_update (\<lambda>_. v))
     (add_option ''primaryinterface'' required_argument (\<lambda>v. sa_strPrimaryInterface_update (\<lambda>_. v))
     (add_option ''mode'' required_argument (\<lambda>v. sa_strMode_update (\<lambda>_. v)) CCmdLineParser_new)))))))))))"

definition ParseCommandLineArgs :: "getopt \<Rightarrow> bytes list \<Rightarrow> nat \<Rightarrow> StartupArgs \<Rightarrow> hresult \<times> StartupArgs" where
  "ParseCommandLineArgs getopt argv startindex args =
     (let (hr, fError, args) = ParseCommandLine getopt argv startindex server_options args
      in (if fError then E_INVALIDARG else S_OK, args))"

section \<open>The configuration\<close>

text \<open>
  With no name an adapter is chosen, and the name becomes the text of its address without the port.
\<close>

definition strip_port :: "bytes \<Rightarrow> bytes" where
  "strip_port s = (if 0x3a \<in> set s then rev (tl (dropWhile (\<lambda>c. c \<noteq> 0x3a) (rev s))) else s)"

definition ResolveAdapterName ::
  "('w, 'x) netdb_scheme \<Rightarrow> bool \<Rightarrow> u16 \<Rightarrow> bytes \<Rightarrow> u16 \<Rightarrow> simple_sockaddr \<Rightarrow> 'w \<Rightarrow> hresult \<times> bytes \<times> simple_sockaddr \<times> 'w" where
  "ResolveAdapterName nd fPrimary family strAdapterName port addr w =
     (if length strAdapterName = 0
      then (let (hr, addr, w) = GetBestAddressForSocketBind nd fPrimary family port addr w
            in if SUCCEEDED hr then (hr, strip_port (ToString (nd_ntop nd) (nd_errno nd w) addr), addr, w)
               else (hr, strAdapterName, addr, w))
      else (let (hr, addr, w) = GetSocketAddressForAdapter nd family strAdapterName port addr w
            in (hr, strAdapterName, addr, w)))"

datatype ServerMode = Basic | Full

definition trimmed_args :: "StartupArgs \<Rightarrow> StartupArgs" where
  "trimmed_args args =
     args\<lparr>sa_strMode := Trim (ToLower (sa_strMode args)),
          sa_strPrimaryInterface := Trim (sa_strPrimaryInterface args),
          sa_strAltInterface := Trim (sa_strAltInterface args),
          sa_strPrimaryPort := Trim (sa_strPrimaryPort args),
          sa_strAltPort := Trim (sa_strAltPort args),
          sa_strFamily := Trim (sa_strFamily args),
          sa_strProtocol := Trim (ToLower (sa_strProtocol args)),
          sa_strPrimaryAdvertised := Trim (sa_strPrimaryAdvertised args),
          sa_strAlternateAdvertised := Trim (sa_strAlternateAdvertised args)\<rparr>"

definition parse_mode :: "bytes \<Rightarrow> hresult + ServerMode" where
  "parse_mode strMode =
     (if length strMode > 0
      then if strMode = ascii ''basic'' then Inr Basic
           else if strMode = ascii ''full'' then Inr Full
           else Inl E_INVALIDARG
      else Inr Basic)"

definition parse_family :: "bytes \<Rightarrow> hresult + u16" where
  "parse_family strFamily =
     (if length strFamily > 0
      then if strFamily = ascii ''4'' then Inr AF_INET
           else if strFamily = ascii ''6'' then Inr AF_INET6
           else Inl E_INVALIDARG
      else Inr AF_INET)"

text \<open>\<open>config.fTCP\<close> as it was, or as the argument says.\<close>

definition parse_protocol :: "bytes \<Rightarrow> bool \<Rightarrow> hresult + bool" where
  "parse_protocol strProtocol fTCP =
     (if length strProtocol > 0
      then if strProtocol \<noteq> ascii ''udp'' \<and> strProtocol \<noteq> ascii ''tcp'' then Inl E_INVALIDARG
           else Inr (strProtocol = ascii ''tcp'')
      else Inr fTCP)"

text \<open>A number of \<open>ValidateNumberString\<close>, whose -1 becomes the \<open>HRESULT\<close>.\<close>

definition parse_number :: "bytes \<Rightarrow> int \<Rightarrow> int \<Rightarrow> int \<Rightarrow> hresult + int" where
  "parse_number s lo hi n =
     (case ValidateNumberString (Some s) lo hi (Some n) of
        (r, n) \<Rightarrow> if FAILED (word_of_int r) then Inl (word_of_int r) else Inr (the n))"

definition parse_maxconn :: "bytes \<Rightarrow> bool \<Rightarrow> u32 \<Rightarrow> hresult + u32" where
  "parse_maxconn strMaxConnections fTCP nMax =
     (if length strMaxConnections > 0
      then if fTCP = False then Inr 0
           else map_sum id word_of_int (parse_number strMaxConnections 1 100000 0)
      else Inr nMax)"

definition parse_port :: "bytes \<Rightarrow> int \<Rightarrow> hresult + int" where
  "parse_port strPort def = (if length strPort > 0 then parse_number strPort 1 0xffff def else Inr def)"

text \<open>The address to listen on in basic mode.\<close>

definition basic_address ::
  "('w, 'x) netdb_scheme \<Rightarrow> u16 \<Rightarrow> bytes \<Rightarrow> u16 \<Rightarrow> server_config \<Rightarrow> 'w \<Rightarrow> hresult \<times> server_config \<times> 'w" where
  "basic_address nd family strPrimaryInterface port config w =
     (if length strPrimaryInterface = 0
      then if family = AF_INET
           then (S_OK, config\<lparr>cfg_addrPP := CSocketAddress_ip4 0 port, cfg_fHasPP := True\<rparr>, w)
           else if family = AF_INET6
           then (S_OK, config\<lparr>cfg_addrPP := CSocketAddress_SetPort port
                   (CSocketAddress_from_in6 (sockaddr_zero\<lparr>sa_family := AF_INET6\<rparr>)), cfg_fHasPP := True\<rparr>, w)
           else (S_OK, config, w)
      else
        (let (hr, addr, w) = GetSocketAddressForAdapter nd family strPrimaryInterface port CSocketAddress_default w
         in if FAILED hr then (hr, config, w)
            else (hr, config\<lparr>cfg_addrPP := addr, cfg_fHasPP := True\<rparr>, w)))"

definition full_addresses ::
  "('w, 'x) netdb_scheme \<Rightarrow> u16 \<Rightarrow> bool \<Rightarrow> StartupArgs \<Rightarrow> u16 \<Rightarrow> u16 \<Rightarrow> server_config \<Rightarrow> 'w \<Rightarrow> hresult \<times> server_config \<times> 'w" where
  "full_addresses nd family fHasAtLeastTwoAdapters args portPrimary portAlternate config w =
     (if fHasAtLeastTwoAdapters = False then (E_UNEXPECTED, config, w)
      else
        (let (hr, name, addrPrimary, w) = ResolveAdapterName nd True family (sa_strPrimaryInterface args) 0 CSocketAddress_default w
         in if FAILED hr then (hr, config, w)
            else
              (let (hr, name, addrAlternate, w) = ResolveAdapterName nd False family (sa_strAltInterface args) 0 CSocketAddress_default w
               in if FAILED hr then (hr, config, w)
                  else if CSocketAddress_IsSameIP addrPrimary addrAlternate then (E_INVALIDARG, config, w)
                  else (hr, config\<lparr>cfg_addrPP := CSocketAddress_SetPort portPrimary addrPrimary, cfg_fHasPP := True,
                                  cfg_addrPA := CSocketAddress_SetPort portAlternate addrPrimary, cfg_fHasPA := True,
                                  cfg_addrAP := CSocketAddress_SetPort portPrimary addrAlternate, cfg_fHasAP := True,
                                  cfg_addrAA := CSocketAddress_SetPort portAlternate addrAlternate, cfg_fHasAA := True\<rparr>, w))))"

text \<open>The advertised addresses are those of the arguments as given, before \<open>trimmed_args\<close>.\<close>

definition advertise_addresses ::
  "('w, 'x) netdb_scheme \<Rightarrow> u16 \<Rightarrow> ServerMode \<Rightarrow> StartupArgs \<Rightarrow> server_config \<Rightarrow> hresult \<times> server_config" where
  "advertise_addresses nd family mode argsIn config =
     (let (hr, config) =
            (if \<not> String_IsNullOrEmpty (Some (sa_strPrimaryAdvertised argsIn))
             then (let (hr, a) = NumericIPToAddress nd family (sa_strPrimaryAdvertised argsIn) (cfg_addrPrimaryAdvertised config)
                   in (hr, config\<lparr>cfg_addrPrimaryAdvertised := a\<rparr>))
             else (S_OK, config))
      in if FAILED hr then (hr, config)
         else if \<not> String_IsNullOrEmpty (Some (sa_strAlternateAdvertised argsIn))
         then if mode \<noteq> Full \<and> cfg_fHasAA config then (E_INVALIDARG, config)
              else (let (hr, a) = NumericIPToAddress nd family (sa_strAlternateAdvertised argsIn) (cfg_addrAlternateAdvertised config)
                    in (hr, config\<lparr>cfg_addrAlternateAdvertised := a\<rparr>))
         else (S_OK, config))"

definition BuildServerConfigurationFromArgs ::
  "('w, 'x) netdb_scheme \<Rightarrow> StartupArgs \<Rightarrow> server_config \<Rightarrow> 'w \<Rightarrow> hresult \<times> server_config \<times> 'w" where
  "BuildServerConfigurationFromArgs nd argsIn configOut w =
     (let config = CStunServerConfig_new; args = trimmed_args argsIn
      in case parse_mode (sa_strMode args) of
           Inl e \<Rightarrow> (e, configOut, w)
         | Inr mode \<Rightarrow>
     (case parse_family (sa_strFamily args) of
        Inl e \<Rightarrow> (e, configOut, w)
      | Inr family \<Rightarrow>
     (case parse_protocol (sa_strProtocol args) (cfg_fTCP config) of
        Inl e \<Rightarrow> (e, configOut, w)
      | Inr fTCP \<Rightarrow>
     (case parse_maxconn (sa_strMaxConnections args) fTCP (cfg_nMaxConnections config) of
        Inl e \<Rightarrow> (e, configOut, w)
      | Inr nMaxConnections \<Rightarrow>
     (case parse_port (sa_strPrimaryPort args) (uint DEFAULT_STUN_PORT) of
        Inl e \<Rightarrow> (e, configOut, w)
      | Inr nPrimaryPort \<Rightarrow>
     (case parse_port (sa_strAltPort args) (uint DEFAULT_STUN_PORT + 1) of
        Inl e \<Rightarrow> (e, configOut, w)
      | Inr nAltPort \<Rightarrow>
          (let config = config\<lparr>cfg_fTCP := fTCP, cfg_nMaxConnections := nMaxConnections\<rparr>
           in if nPrimaryPort = nAltPort then (E_INVALIDARG, configOut, w)
              else
                (let (fTwo, w) = HasAtLeastTwoAdapters nd family w;
                     (hr, config, w) =
                       (if mode = Basic
                        then basic_address nd family (sa_strPrimaryInterface args) (word_of_int nPrimaryPort) config w
                        else full_addresses nd family fTwo args (word_of_int nPrimaryPort) (word_of_int nAltPort) config w)
                 in if FAILED hr then (hr, configOut, w)
                    else
                      (let (hr, config) = advertise_addresses nd family mode argsIn config
                       in if FAILED hr then (hr, configOut, w) else (S_OK, config, w))))))))))"

section \<open>The program\<close>

text \<open>The lines printed, for a console of the width \<open>columns\<close>.\<close>

definition PrintUsage :: "bytes \<Rightarrow> nat \<Rightarrow> bytes list" where
  "PrintUsage psz columns = (let width = (if columns > 2 then columns - 2 else columns) in PrettyPrint (Some psz) width)"

text \<open>\<open>CreateInstance\<close> destroys an object whose initialization fails.\<close>

definition StartUDP :: "('w, 'x) os_scheme \<Rightarrow> server_config \<Rightarrow> 'w \<Rightarrow> hresult \<times> stun_server option \<times> 'w" where
  "StartUDP os config w =
     (let (hr, sv, w) = server_Initialize os config CStunServer_new w
      in if FAILED hr then (let (hr', sv, w) = server_Shutdown os sv w in (hr, None, w))
         else
           (let (hr, sv, w) = server_Start os sv w
            in if FAILED hr then (hr, Some sv, w) else (S_OK, Some sv, w)))"

definition StartTCP :: "('w, 'x) tcp_os_scheme \<Rightarrow> server_config \<Rightarrow> 'w \<Rightarrow> hresult \<times> tcp_server option \<times> 'w" where
  "StartTCP os config w =
     (let (hr, sv, w) = tcpserver_Initialize os config CTCPServer_new w
      in if FAILED hr then (let (hr', sv, w) = tcpserver_Stop os sv w in (hr, None, w))
         else
           (let (hr, sv, w) = tcpserver_Start os sv w
            in if FAILED hr then (hr, Some sv, w) else (S_OK, Some sv, w)))"

text \<open>What \<open>main\<close> does with the configuration up to the wait for a signal.\<close>

definition server_started ::
  "('w, 'x) tcp_os_scheme \<Rightarrow> server_config \<Rightarrow> 'w \<Rightarrow> hresult \<times> stun_server option \<times> tcp_server option \<times> 'w" where
  "server_started os config w =
     (if cfg_fTCP config = False
      then (let (hr, sv, w) = StartUDP os config w in (hr, sv, None, w))
      else (let (hr, ts, w) = StartTCP os config w in (hr, None, ts, w)))"

text \<open>At the end the reference counted pointers go; \<open>stop\<close> says whether \<open>main\<close> stops the server first.\<close>

definition server_gone ::
  "('w, 'x) tcp_os_scheme \<Rightarrow> bool \<Rightarrow> stun_server option \<Rightarrow> tcp_server option \<Rightarrow> 'w \<Rightarrow> 'w" where
  "server_gone os stop sv ts w =
     (let w = (case sv of
                 None \<Rightarrow> w
               | Some s \<Rightarrow>
                   (let (s, w) = (if stop then (let (hr, s, w) = server_Stop os s w in (s, w)) else (s, w));
                        (hr, s, w) = server_Shutdown os s w
                    in w))
      in (case ts of
            None \<Rightarrow> w
          | Some t \<Rightarrow>
              (let (t, w) = (if stop then (let (hr, t, w) = tcpserver_Stop os t w in (t, w)) else (t, w));
                   (hr, t, w) = tcpserver_Stop os t w
               in w)))"

text \<open>
  \<open>main\<close>: the exit code, the lines printed and the system afterwards. \<open>await\<close> is what happens until the
  signal to exit arrives.
\<close>

definition server_main ::
  "getopt \<Rightarrow> ('w, 'y) netdb_scheme \<Rightarrow> ('w, 'x) tcp_os_scheme \<Rightarrow> bytes \<Rightarrow> bytes \<Rightarrow> nat \<Rightarrow>
   (stun_server option \<Rightarrow> tcp_server option \<Rightarrow> 'w \<Rightarrow> stun_server option \<times> tcp_server option \<times> 'w) \<Rightarrow>
   bytes list \<Rightarrow> 'w \<Rightarrow> int \<times> bytes list \<times> 'w" where
  "server_main getopt nd os usage_lite usage columns await argv w =
     (let (hr, args) = ParseCommandLineArgs getopt argv 1 StartupArgs_new
      in if FAILED hr then (-1, PrintUsage usage_lite columns, w)
         else if length (sa_strHelp args) > 0 then (-2, PrintUsage usage columns, w)
         else
           (let (hr, config, w) = BuildServerConfigurationFromArgs nd args CStunServerConfig_new w
            in if FAILED hr then (-3, PrintUsage usage_lite columns, w)
               else
                 (let (hr, sv, ts, w) = server_started os config w
                  in if FAILED hr then (if cfg_fTCP config = False then -4 else -5, [], server_gone os False sv ts w)
                     else
                       (let (sv, ts, w) = await sv ts w
                        in (0, [], server_gone os True sv ts w)))))"

section \<open>A configuration that is built is one the server can use\<close>

lemma parse_number_range:
  "parse_number s lo hi n = Inr m \<Longrightarrow> lo \<le> m \<and> m \<le> hi"
  by (auto simp: parse_number_def ValidateNumberString_def Let_def SUCCEEDED_def split: if_splits prod.splits)

lemma parse_port_range:
  "parse_port s def = Inr n \<Longrightarrow> 1 \<le> def \<Longrightarrow> def \<le> 65535 \<Longrightarrow> 1 \<le> n \<and> n \<le> 65535"
  by (auto simp: parse_port_def dest: parse_number_range split: if_splits)

definition usable_config :: "u16 \<Rightarrow> ServerMode \<Rightarrow> server_config \<Rightarrow> bool" where
  "usable_config family mode c \<longleftrightarrow>
     config_ok c \<and> cfg_fHasPP c \<and> sa_family (cfg_addrPP c) = family \<and> CSocketAddress_GetPort (cfg_addrPP c) \<noteq> 0 \<and>
     (cfg_fHasPA c \<longleftrightarrow> mode = Full) \<and> (cfg_fHasAP c \<longleftrightarrow> mode = Full) \<and> (cfg_fHasAA c \<longleftrightarrow> mode = Full) \<and>
     (mode = Full \<longrightarrow>
        (\<forall>a \<in> {cfg_addrPA c, cfg_addrAP c, cfg_addrAA c}. sa_family a = family) \<and>
        CSocketAddress_IsSameIP (cfg_addrPA c) (cfg_addrPP c) \<and> CSocketAddress_IsSameIP (cfg_addrAA c) (cfg_addrAP c) \<and>
        \<not> CSocketAddress_IsSameIP (cfg_addrPP c) (cfg_addrAP c) \<and>
        CSocketAddress_GetPort (cfg_addrAP c) = CSocketAddress_GetPort (cfg_addrPP c) \<and>
        CSocketAddress_GetPort (cfg_addrAA c) = CSocketAddress_GetPort (cfg_addrPA c) \<and>
        CSocketAddress_GetPort (cfg_addrPA c) \<noteq> CSocketAddress_GetPort (cfg_addrPP c) \<and>
        CSocketAddress_GetPort (cfg_addrPA c) \<noteq> 0)"

lemma same_ip_ports: "wf_addr a \<Longrightarrow> CSocketAddress_IsSameIP (CSocketAddress_SetPort p a) (CSocketAddress_SetPort q a)"
  by (auto simp: CSocketAddress_IsSameIP_def CSocketAddress_SetPort_def wf_addr_def)

lemma same_ip_ports_other:
  assumes "wf_addr a" "wf_addr b"
  shows "CSocketAddress_IsSameIP (CSocketAddress_SetPort p a) (CSocketAddress_SetPort q b) = CSocketAddress_IsSameIP a b"
  using assms by (auto simp: CSocketAddress_IsSameIP_def CSocketAddress_SetPort_def wf_addr_def)

definition plain_config :: "server_config \<Rightarrow> bool" where
  "plain_config c \<longleftrightarrow> config_ok c \<and> \<not> cfg_fHasPA c \<and> \<not> cfg_fHasAP c \<and> \<not> cfg_fHasAA c"

lemma basic_address_ok:
  assumes nd: "netdb_ok nd" and fam: "family \<in> {AF_INET, AF_INET6}" and p: "port \<noteq> 0" and c: "plain_config config"
    and r: "basic_address nd family name port config w = (hr, c', w')" and hr: "SUCCEEDED hr"
  shows "usable_config family Basic c'"
proof (cases "length name = 0")
  case True
  show ?thesis
  proof (cases "family = AF_INET")
    case 4: True
    then have "c' = config\<lparr>cfg_addrPP := CSocketAddress_ip4 0 port, cfg_fHasPP := True\<rparr>" using r True by (simp add: basic_address_def)
    moreover have "CSocketAddress_GetPort (CSocketAddress_ip4 0 port) = port" "sa_family (CSocketAddress_ip4 0 port) = AF_INET"
      by (simp_all add: CSocketAddress_GetPort_def CSocketAddress_GetPort_NBO_def CSocketAddress_ip4_def
          CSocketAddress_from_in4_def load16_be16)
    ultimately show ?thesis using c p 4 by (simp add: usable_config_def plain_config_def config_ok_def)
  next
    case False
    let ?a = "CSocketAddress_SetPort port (CSocketAddress_from_in6 (sockaddr_zero\<lparr>sa_family := AF_INET6\<rparr>))"
    have "c' = config\<lparr>cfg_addrPP := ?a, cfg_fHasPP := True\<rparr>" using r True False fam by (simp add: basic_address_def)
    moreover have "wf_addr ?a"
      by (rule wf_addr_SetPort) (simp add: wf_addr_def CSocketAddress_from_in6_def sockaddr_zero_def)
    ultimately show ?thesis using c p False fam
      by (simp add: usable_config_def plain_config_def config_ok_def CSocketAddress_from_in6_def)
  qed
next
  case False
  obtain hr1 a w1 where g: "GetSocketAddressForAdapter nd family name port CSocketAddress_default w = (hr1, a, w1)"
    by (metis prod_cases3)
  have s: "SUCCEEDED hr1" using r hr False by (simp add: basic_address_def g split: if_splits)
  then have c': "c' = config\<lparr>cfg_addrPP := a, cfg_fHasPP := True\<rparr>" using r False by (simp add: basic_address_def g)
  have "wf_addr a \<and> sa_family a = family" by (rule GetSocketAddressForAdapter_ok [OF nd g s fam])
  moreover have "CSocketAddress_GetPort a = port" by (rule GetSocketAddressForAdapter_port [OF g s])
  ultimately show ?thesis using c p by (simp add: c' usable_config_def plain_config_def config_ok_def)
qed

lemma ResolveAdapterName_ok:
  assumes "netdb_ok nd" "ResolveAdapterName nd fp family name port addr w = (hr, name', a, w')" "SUCCEEDED hr"
    and "family \<in> {AF_INET, AF_INET6}"
  shows "wf_addr a \<and> sa_family a = family"
proof (cases "length name = 0")
  case True
  obtain hr1 a1 w1 where g: "GetBestAddressForSocketBind nd fp family port addr w = (hr1, a1, w1)" by (metis prod_cases3)
  have "hr1 = hr \<and> a1 = a" using assms(2) True by (auto simp: ResolveAdapterName_def g split: if_splits)
  then show ?thesis using GetBestAddress_ok [OF assms(1) g _ assms(4)] assms(3) by simp
next
  case False
  obtain hr1 a1 w1 where g: "GetSocketAddressForAdapter nd family name port addr w = (hr1, a1, w1)" by (metis prod_cases3)
  have "hr1 = hr \<and> a1 = a" using assms(2) False by (simp add: ResolveAdapterName_def g)
  then show ?thesis using GetSocketAddressForAdapter_ok [OF assms(1) g _ assms(4)] assms(3) by simp
qed

lemma full_addresses_ok:
  assumes nd: "netdb_ok nd" and fam: "family \<in> {AF_INET, AF_INET6}" and p: "pp \<noteq> 0" "pa \<noteq> 0" "pp \<noteq> pa" and c: "plain_config config"
    and r: "full_addresses nd family two args pp pa config w = (hr, c', w')" and hr: "SUCCEEDED hr"
  shows "usable_config family Full c'"
proof -
  have two: "two" using r hr by (auto simp: full_addresses_def split: if_splits)
  obtain hr1 n1 a1 w1 where g1: "ResolveAdapterName nd True family (sa_strPrimaryInterface args) 0 CSocketAddress_default w = (hr1, n1, a1, w1)"
    by (metis prod_cases4)
  obtain hr2 n2 a2 w2 where g2: "ResolveAdapterName nd False family (sa_strAltInterface args) 0 CSocketAddress_default w1 = (hr2, n2, a2, w2)"
    by (metis prod_cases4)
  have s1: "SUCCEEDED hr1" using r hr two by (simp add: full_addresses_def g1 split: if_splits)
  have s2: "SUCCEEDED hr2" using r hr two s1 by (simp add: full_addresses_def g1 g2 split: if_splits)
  have d: "\<not> CSocketAddress_IsSameIP a1 a2" using r hr two s1 s2 by (simp add: full_addresses_def g1 g2 split: if_splits)
  have c': "c' = config\<lparr>cfg_addrPP := CSocketAddress_SetPort pp a1, cfg_fHasPP := True, cfg_addrPA := CSocketAddress_SetPort pa a1,
      cfg_fHasPA := True, cfg_addrAP := CSocketAddress_SetPort pp a2, cfg_fHasAP := True,
      cfg_addrAA := CSocketAddress_SetPort pa a2, cfg_fHasAA := True\<rparr>"
    using r two s1 s2 d by (simp add: full_addresses_def g1 g2)
  have a: "wf_addr a1 \<and> sa_family a1 = family" "wf_addr a2 \<and> sa_family a2 = family"
    by (rule ResolveAdapterName_ok [OF nd g1 s1 fam], rule ResolveAdapterName_ok [OF nd g2 s2 fam])
  show ?thesis
    using c p a d same_ip_ports_other [of a1 a2 pp pp]
    by (simp add: c' usable_config_def plain_config_def config_ok_def same_ip_ports)
qed

lemma advertise_ok:
  assumes nd: "netdb_ok nd" and c: "usable_config family mode config"
    and r: "advertise_addresses nd family mode args config = (hr, c')" and hr: "SUCCEEDED hr"
  shows "usable_config family mode c'"
proof -
  have upd: "usable_config family mode (c\<lparr>cfg_addrPrimaryAdvertised := a\<rparr>)" "usable_config family mode (c\<lparr>cfg_addrAlternateAdvertised := a\<rparr>)"
    if "usable_config family mode c" "wf_addr a" for c a
    using that by (simp_all add: usable_config_def config_ok_def)
  obtain h1 a1 where n1: "NumericIPToAddress nd family (sa_strPrimaryAdvertised args) (cfg_addrPrimaryAdvertised config) = (h1, a1)"
    by fastforce
  define c1 where "c1 = (if \<not> String_IsNullOrEmpty (Some (sa_strPrimaryAdvertised args)) then config\<lparr>cfg_addrPrimaryAdvertised := a1\<rparr> else config)"
  obtain h2 a2 where n2: "NumericIPToAddress nd family (sa_strAlternateAdvertised args) (cfg_addrAlternateAdvertised c1) = (h2, a2)"
    by fastforce
  have s1: "String_IsNullOrEmpty (Some (sa_strPrimaryAdvertised args)) \<or> SUCCEEDED h1"
    using r hr by (auto simp: advertise_addresses_def n1 split: if_splits)
  have u1: "usable_config family mode c1"
    using c s1 upd(1) NumericIPToAddress_ok [OF nd n1] by (auto simp: c1_def)
  have r': "advertise_addresses nd family mode args config =
      (if \<not> String_IsNullOrEmpty (Some (sa_strAlternateAdvertised args))
       then if mode \<noteq> Full \<and> cfg_fHasAA c1 then (E_INVALIDARG, c1) else (h2, c1\<lparr>cfg_addrAlternateAdvertised := a2\<rparr>)
       else (S_OK, c1))"
    using s1 n2 by (auto simp: advertise_addresses_def n1 c1_def)
  show ?thesis
    using r hr u1 upd(2) [OF u1] NumericIPToAddress_ok [OF nd n2] unfolding r' by (auto split: if_splits)
qed

lemma port_word:
  "1 \<le> n \<Longrightarrow> n \<le> 65535 \<Longrightarrow> (word_of_int n :: u16) \<noteq> 0"
  "1 \<le> n \<Longrightarrow> n \<le> 65535 \<Longrightarrow> 1 \<le> m \<Longrightarrow> m \<le> 65535 \<Longrightarrow> n \<noteq> m \<Longrightarrow> (word_of_int n :: u16) \<noteq> word_of_int m"
proof -
  have u: "uint (word_of_int k :: u16) = k" if "1 \<le> k" "k \<le> 65535" for k
    using that by (simp add: unsigned_of_int take_bit_int_eq_self)
  show "1 \<le> n \<Longrightarrow> n \<le> 65535 \<Longrightarrow> (word_of_int n :: u16) \<noteq> 0" using u [of n] by force
  show "1 \<le> n \<Longrightarrow> n \<le> 65535 \<Longrightarrow> 1 \<le> m \<Longrightarrow> m \<le> 65535 \<Longrightarrow> n \<noteq> m \<Longrightarrow> (word_of_int n :: u16) \<noteq> word_of_int m"
    using u [of n] u [of m] by metis
qed

lemma parse_family_values: "parse_family s = Inr f \<Longrightarrow> f \<in> {AF_INET, AF_INET6}"
  by (auto simp: parse_family_def split: if_splits)

lemma plain_new: "plain_config (CStunServerConfig_new\<lparr>cfg_fTCP := b, cfg_nMaxConnections := n\<rparr>)"
  by (simp add: plain_config_def config_ok_def CStunServerConfig_new_def)

lemma config_stages:
  assumes r: "BuildServerConfigurationFromArgs nd args configOut w = (hr, c, w')" and hr: "SUCCEEDED hr"
  shows "\<exists>mode family fTCP nMax pp ap two w1 hr1 c1 w2 hr2.
           parse_mode (sa_strMode (trimmed_args args)) = Inr mode \<and> parse_family (sa_strFamily (trimmed_args args)) = Inr family \<and>
           parse_port (sa_strPrimaryPort (trimmed_args args)) 3478 = Inr pp \<and>
           parse_port (sa_strAltPort (trimmed_args args)) 3479 = Inr ap \<and> pp \<noteq> ap \<and>
           (if mode = Basic
            then basic_address nd family (sa_strPrimaryInterface (trimmed_args args)) (word_of_int pp)
                   (CStunServerConfig_new\<lparr>cfg_fTCP := fTCP, cfg_nMaxConnections := nMax\<rparr>) w1
            else full_addresses nd family two (trimmed_args args) (word_of_int pp) (word_of_int ap)
                   (CStunServerConfig_new\<lparr>cfg_fTCP := fTCP, cfg_nMaxConnections := nMax\<rparr>) w1) = (hr1, c1, w2) \<and>
           SUCCEEDED hr1 \<and> advertise_addresses nd family mode args c1 = (hr2, c) \<and> SUCCEEDED hr2"
proof -
  let ?a = "trimmed_args args"
  note B = r [unfolded BuildServerConfigurationFromArgs_def Let_def]
  have d: "uint DEFAULT_STUN_PORT + 1 = 3479" "uint DEFAULT_STUN_PORT = 3478" by (simp_all add: DEFAULT_STUN_PORT_def)
  obtain mode where 1: "parse_mode (sa_strMode ?a) = Inr mode"
    using B hr by (cases "parse_mode (sa_strMode ?a)") (auto simp: parse_mode_def split: if_splits)
  note B = B [unfolded 1 sum.case]
  obtain family where 2: "parse_family (sa_strFamily ?a) = Inr family"
    using B hr by (cases "parse_family (sa_strFamily ?a)") (auto simp: parse_family_def split: if_splits)
  note B = B [unfolded 2 sum.case]
  obtain fTCP where 3: "parse_protocol (sa_strProtocol ?a) (cfg_fTCP CStunServerConfig_new) = Inr fTCP"
    using B hr by (cases "parse_protocol (sa_strProtocol ?a) (cfg_fTCP CStunServerConfig_new)")
      (auto simp: parse_protocol_def split: if_splits)
  note B = B [unfolded 3 sum.case]
  have bad: "\<not> SUCCEEDED e" if "parse_number s lo hi n = Inl e" for s lo hi n e
    using that by (auto simp: parse_number_def split: prod.splits if_splits)
  obtain nMax where 4: "parse_maxconn (sa_strMaxConnections ?a) fTCP (cfg_nMaxConnections CStunServerConfig_new) = Inr nMax"
    using B hr bad by (cases "parse_maxconn (sa_strMaxConnections ?a) fTCP (cfg_nMaxConnections CStunServerConfig_new)";
        cases "parse_number (sa_strMaxConnections ?a) 1 100000 0") (auto simp: parse_maxconn_def split: if_splits)
  note B = B [unfolded 4 sum.case, unfolded d(1), unfolded d(2)]
  obtain pp where 5: "parse_port (sa_strPrimaryPort ?a) 3478 = Inr pp"
    using B hr bad by (cases "parse_port (sa_strPrimaryPort ?a) 3478") (auto simp: parse_port_def split: if_splits)
  note B = B [unfolded 5 sum.case]
  obtain ap where 6: "parse_port (sa_strAltPort ?a) 3479 = Inr ap"
    using B hr bad by (cases "parse_port (sa_strAltPort ?a) 3479") (auto simp: parse_port_def split: if_splits)
  let ?c = "CStunServerConfig_new\<lparr>cfg_fTCP := fTCP, cfg_nMaxConnections := nMax\<rparr>"
  obtain two w1 where 7: "HasAtLeastTwoAdapters nd family w = (two, w1)" by fastforce
  obtain hr1 c1 w2 where 8: "(if mode = Basic
            then basic_address nd family (sa_strPrimaryInterface ?a) (word_of_int pp) ?c w1
            else full_addresses nd family two ?a (word_of_int pp) (word_of_int ap) ?c w1) = (hr1, c1, w2)"
    by (metis prod_cases3)
  obtain hr2 c2 where 9: "advertise_addresses nd family mode args c1 = (hr2, c2)" by fastforce
  have e: "(hr, c, w') = (if pp = ap then (E_INVALIDARG, configOut, w) else if FAILED hr1 then (hr1, configOut, w2)
      else if FAILED hr2 then (hr2, configOut, w2) else (S_OK, c2, w2))"
    using B [unfolded 6 sum.case 7 prod.case 8 9] by (rule sym)
  then have "pp \<noteq> ap \<and> SUCCEEDED hr1 \<and> SUCCEEDED hr2 \<and> c = c2" using hr by (auto split: if_splits)
  with 1 2 5 6 8 9 show ?thesis by blast
qed

lemma config_usable:
  assumes "netdb_ok nd" "BuildServerConfigurationFromArgs nd args configOut w = (hr, c, w')" "SUCCEEDED hr"
  shows "\<exists>mode family. parse_mode (Trim (ToLower (sa_strMode args))) = Inr mode \<and>
           parse_family (Trim (sa_strFamily args)) = Inr family \<and> usable_config family mode c"
proof -
  obtain mode family fTCP nMax pp ap two w1 hr1 c1 w2 hr2 where
    p: "parse_mode (sa_strMode (trimmed_args args)) = Inr mode" "parse_family (sa_strFamily (trimmed_args args)) = Inr family"
      "parse_port (sa_strPrimaryPort (trimmed_args args)) 3478 = Inr pp" "parse_port (sa_strAltPort (trimmed_args args)) 3479 = Inr ap" "pp \<noteq> ap"
    and a: "(if mode = Basic
            then basic_address nd family (sa_strPrimaryInterface (trimmed_args args)) (word_of_int pp)
                   (CStunServerConfig_new\<lparr>cfg_fTCP := fTCP, cfg_nMaxConnections := nMax\<rparr>) w1
            else full_addresses nd family two (trimmed_args args) (word_of_int pp) (word_of_int ap)
                   (CStunServerConfig_new\<lparr>cfg_fTCP := fTCP, cfg_nMaxConnections := nMax\<rparr>) w1) = (hr1, c1, w2)"
      "SUCCEEDED hr1" "advertise_addresses nd family mode args c1 = (hr2, c)" "SUCCEEDED hr2"
    using config_stages [OF assms(2,3)] by (elim exE conjE)
  note fam = parse_family_values [OF p(2)]
  have "1 \<le> pp \<and> pp \<le> 65535" "1 \<le> ap \<and> ap \<le> 65535" using parse_port_range [OF p(3)] parse_port_range [OF p(4)] by simp_all
  then have ports: "(word_of_int pp :: u16) \<noteq> 0" "(word_of_int ap :: u16) \<noteq> 0" "(word_of_int pp :: u16) \<noteq> word_of_int ap"
    using port_word [of pp] port_word [of ap] port_word(2) [of pp ap] p(5) by blast+
  have "usable_config family mode c1"
  proof (cases mode)
    case Basic
    then show ?thesis using basic_address_ok [OF assms(1) fam ports(1) plain_new _ a(2)] a(1) by simp
  next
    case Full
    then show ?thesis using full_addresses_ok [OF assms(1) fam ports plain_new _ a(2)] a(1) by simp
  qed
  then have "usable_config family mode c" by (rule advertise_ok [OF assms(1) _ a(3,4)])
  then show ?thesis using p(1,2) by (simp add: trimmed_args_def)
qed

end
