(* ===== verification/ClientMain.thy ===== *)
theory ClientMain
  imports Adapters PrettyPrint FilePeer StunClientLogic StunConnection
begin

text \<open>
  \<open>src/client/clientmain.cpp\<close>: the client program, from its command line to the results of the tests and the
  requests to the application server that lead to the file sharing of \<open>FilePeer\<close>. The usage texts are files
  the build generates and a parameter. The record \<open>client_os\<close> adds the calls of the client: the time of day, the
  random source with the stack it is used on, \<open>connect\<close> and \<open>recvfrom\<close>.
\<close>

record 'w client_os = "'w tcp_os" +
  co_gettimeofday :: "'w \<Rightarrow> int \<times> int"
  co_random :: "'w \<Rightarrow> (nat \<Rightarrow> u8) \<times> bytes \<times> 'w"
  co_connect :: "int \<Rightarrow> simple_sockaddr \<Rightarrow> 'w \<Rightarrow> int \<times> 'w"
  co_recvfrom :: "int \<Rightarrow> nat \<Rightarrow> 'w \<Rightarrow> int \<times> bytes \<times> simple_sockaddr \<times> 'w"

section \<open>The configuration\<close>

record ClientCmdLineArgs =
  ca_strRemoteServer :: bytes
  ca_strRemotePort :: bytes
  ca_strLocalAddr :: bytes
  ca_strLocalPort :: bytes
  ca_strMode :: bytes
  ca_strFamily :: bytes
  ca_strProtocol :: bytes
  ca_strVerbosity :: bytes
  ca_strHelp :: bytes

record ClientSocketConfig =
  cs_family :: u16
  cs_socktype :: int
  cs_addrLocal :: simple_sockaddr

definition client_family :: "bytes \<Rightarrow> hresult + u16" where
  "client_family strFamily =
     (if String_IsNullOrEmpty (Some strFamily) = False
      then (let optvalue = atoi_int strFamily
            in if optvalue = 4 then Inr AF_INET else if optvalue = 6 then Inr AF_INET6 else Inl E_INVALIDARG)
      else Inr AF_INET)"

text \<open>Whether the protocol is TCP.\<close>

definition client_protocol :: "bytes \<Rightarrow> hresult + bool" where
  "client_protocol strProtocol =
     (if String_IsNullOrEmpty (Some strProtocol) = False
      then if strProtocol \<noteq> ascii ''udp'' \<and> strProtocol \<noteq> ascii ''tcp'' then Inl E_INVALIDARG
           else Inr (strProtocol = ascii ''tcp'')
      else Inr False)"

definition client_port :: "bytes \<Rightarrow> u16 \<Rightarrow> hresult + u16" where
  "client_port strPort def =
     (if String_IsNullOrEmpty (Some strPort) = False
      then (let (ret, nPort) = ValidateNumberString (Some strPort) 1 0xffff (Some 0)
            in if ret < 0 then Inl E_INVALIDARG else Inr (word_of_int (the nPort)))
      else Inr def)"

definition client_local_address ::
  "('w, 'x) netdb_scheme \<Rightarrow> u16 \<Rightarrow> bytes \<Rightarrow> u16 \<Rightarrow> simple_sockaddr \<Rightarrow> 'w \<Rightarrow> hresult \<times> simple_sockaddr \<times> 'w" where
  "client_local_address nd family strLocalAddr localport addr w =
     (if String_IsNullOrEmpty (Some strLocalAddr) = False
      then GetSocketAddressForAdapter nd family strLocalAddr localport addr w
      else if family = AF_INET6
      then (S_OK, CSocketAddress_SetPort localport (CSocketAddress_from_in6 (sockaddr_zero\<lparr>sa_family := AF_INET6\<rparr>)), w)
      else (S_OK, CSocketAddress_ip4 0 localport, w))"

text \<open>An unknown mode is only logged.\<close>

definition client_mode :: "bytes \<Rightarrow> bool \<Rightarrow> StunClientLogicConfig \<Rightarrow> StunClientLogicConfig" where
  "client_mode strMode fTCP config =
     (if String_IsNullOrEmpty (Some strMode) = False
      then if strMode = ascii ''basic'' then config
           else if strMode = ascii ''full'' then config\<lparr>fBehaviorTest := True, fFilteringTest := (fTCP = False)\<rparr>
           else config
      else config)"

definition CreateConfigFromCommandLine ::
  "('w, 'x) netdb_scheme \<Rightarrow> ClientCmdLineArgs \<Rightarrow> StunClientLogicConfig \<Rightarrow> ClientSocketConfig \<Rightarrow> 'w \<Rightarrow>
   hresult \<times> StunClientLogicConfig \<times> ClientSocketConfig \<times> 'w" where
  "CreateConfigFromCommandLine nd args config socketconfig w =
     (let config = config\<lparr>fBehaviorTest := False, fFilteringTest := False, fTimeoutIsInstant := False, timeoutSeconds := 0,
                          uMaxAttempts := 0\<rparr>;
          socketconfig = \<lparr>cs_family = AF_INET, cs_socktype = SOCK_DGRAM, cs_addrLocal = CSocketAddress_ip4 0 0\<rparr>
      in case client_family (ca_strFamily args) of
           Inl e \<Rightarrow> (e, config, socketconfig, w)
         | Inr family \<Rightarrow>
     (let socketconfig = socketconfig\<lparr>cs_family := family\<rparr>
      in case client_protocol (ToLower (ca_strProtocol args)) of
           Inl e \<Rightarrow> (e, config, socketconfig, w)
         | Inr fTCP \<Rightarrow>
     (let socketconfig = (if fTCP then socketconfig\<lparr>cs_socktype := SOCK_STREAM\<rparr> else socketconfig);
          config = (if fTCP then config\<lparr>uMaxAttempts := 1\<rparr> else config)
      in case client_port (ca_strRemotePort args) DEFAULT_STUN_PORT of
           Inl e \<Rightarrow> (e, config, socketconfig, w)
         | Inr remoteport \<Rightarrow>
     (if String_IsNullOrEmpty (Some (ca_strRemoteServer args)) then (E_INVALIDARG, config, socketconfig, w)
      else
     (let (hr, addr, w) = ResolveHostName nd (ca_strRemoteServer args) family False (addrServer config) w;
          config = config\<lparr>addrServer := addr\<rparr>
      in if FAILED hr then (hr, config, socketconfig, w)
         else
     (let config = config\<lparr>addrServer := CSocketAddress_SetPort remoteport (addrServer config)\<rparr>
      in case client_port (ca_strLocalPort args) 0 of
           Inl e \<Rightarrow> (e, config, socketconfig, w)
         | Inr localport \<Rightarrow>
     (let (hr, addr, w) = client_local_address nd family (ca_strLocalAddr args) localport (cs_addrLocal socketconfig) w;
          socketconfig = socketconfig\<lparr>cs_addrLocal := addr\<rparr>
      in if FAILED hr then (hr, config, socketconfig, w)
         else (hr, client_mode (ToLower (ca_strMode args)) fTCP config, socketconfig, w))))))))"

section \<open>The results\<close>

definition NatBehaviorToString :: "NatBehavior \<Rightarrow> bytes" where
  "NatBehaviorToString b =
     (case b of
        UnknownBehavior \<Rightarrow> ascii ''Unknown Behavior''
      | DirectMapping \<Rightarrow> ascii ''Direct Mapping''
      | EndpointIndependentMapping \<Rightarrow> ascii ''Endpoint Independent Mapping''
      | AddressDependentMapping \<Rightarrow> ascii ''Address Dependent Mapping''
      | AddressAndPortDependentMapping \<Rightarrow> ascii ''Address and Port Dependent Mapping'')"

definition NatFilteringToString :: "NatFiltering \<Rightarrow> bytes" where
  "NatFilteringToString f =
     (case f of
        UnknownFiltering \<Rightarrow> ascii ''Unknown Behavior''
      | DirectConnectionFiltering \<Rightarrow> ascii ''Direct Mapping''
      | EndpointIndependentFiltering \<Rightarrow> ascii ''Endpoint Independent Filtering''
      | AddressDependentFiltering \<Rightarrow> ascii ''Address Dependent Filtering''
      | AddressAndPortDependentFiltering \<Rightarrow> ascii ''Address and Port Dependent Filtering'')"

text \<open>The lines logged at the level \<open>LL_ALWAYS\<close>.\<close>

definition test_line :: "string \<Rightarrow> bool \<Rightarrow> bytes" where
  "test_line name success = ascii name @ ascii '' test: '' @ (if success then ascii ''success'' else ascii ''fail'')"

definition DumpResults :: "ntop \<Rightarrow> u32 \<Rightarrow> StunClientLogicConfig \<Rightarrow> StunClientResults \<Rightarrow> bytes list" where
  "DumpResults ntop errno config results =
     (let szBuffer = (\<lambda>a. cstr (snd (ToStringBuffer ntop errno 100 a (replicate 100 0))))
      in [test_line ''Binding'' (fBindingTestSuccess results)] @
         (if fBindingTestSuccess results
          then [ascii ''Local address: '' @ szBuffer (addrLocal results), ascii ''Mapped address: '' @ szBuffer (addrMapped results)]
          else []) @
         (if fBehaviorTest config
          then [test_line ''Behavior'' (fBehaviorTestSuccess results)] @
            (if fBehaviorTestSuccess results then [ascii ''Nat behavior: '' @ NatBehaviorToString (behavior results)] else [])
          else []) @
         (if fFilteringTest config
          then [test_line ''Filtering'' (fFilteringTestSuccess results)] @
            (if fFilteringTestSuccess results then [ascii ''Nat filtering: '' @ NatFilteringToString (filtering results)] else [])
          else []))"

definition GetMillisecondCounter :: "('w, 'x) client_os_scheme \<Rightarrow> 'w \<Rightarrow> u32" where
  "GetMillisecondCounter os w =
     (case co_gettimeofday os w of (tv_sec, tv_usec) \<Rightarrow>
        (let milliseconds = word_of_int (tv_sec * 1000 + tv_usec div 1000) :: 64 word
         in ucast (milliseconds AND 0xffffffff)))"

section \<open>A configuration that is built is one the client's logic accepts\<close>

lemma ResolveHostName_ok:
  assumes "netdb_ok nd" "ResolveHostName nd host family numeric addr w = (hr, a, w')" "SUCCEEDED hr" "family \<in> {AF_INET, AF_INET6}"
  shows "wf_addr a \<and> sa_family a = family"
proof -
  obtain ret result w1 where g: "nd_getaddrinfo nd (Trim (cstr host)) family numeric w = ((ret, result), w1)" by (metis surj_pair)
  have c: "Trim (cstr host) \<noteq> []" using assms(2,3) by (auto simp: ResolveHostName_def)
  have r: "ResolveHostName nd host family numeric addr w =
      (if ret \<noteq> 0 then (ERRNO_TO_HRESULT (word_of_int ret), addr, w1)
       else case result of None \<Rightarrow> (E_FAIL, addr, w1) | Some a \<Rightarrow> (S_OK, CSocketAddress_CommonConstructor a, w1))"
    using c by (simp add: ResolveHostName_def Let_def g)
  have "ret = 0" using assms(2,3) unfolding r by (auto split: if_splits)
  moreover obtain x where "result = Some x" "a = CSocketAddress_CommonConstructor x"
    using assms(2,3) \<open>ret = 0\<close> unfolding r by (cases result) auto
  ultimately show ?thesis using netdb_okD(2) [OF assms(1), of _ family numeric w x w1] g assms(4) by (simp add: wf_common_address)
qed

lemma client_port_ok: "client_port s d = Inr p \<Longrightarrow> p = d \<or> p \<noteq> 0"
proof -
  assume a: "client_port s d = Inr p"
  have nz: "(word_of_int n :: u16) \<noteq> 0" if "1 \<le> n" "n \<le> 65535" for n
    using that by (simp add: word_of_int_eq_0_iff zdvd_not_zless)
  show ?thesis using a nz
    by (auto simp: client_port_def ValidateNumberString_def Let_def split: if_splits)
qed

lemma client_local_address_ok:
  assumes "netdb_ok nd" "client_local_address nd family name port addr w = (hr, a, w')" "SUCCEEDED hr" "family \<in> {AF_INET, AF_INET6}"
  shows "wf_addr a \<and> sa_family a = family \<and> CSocketAddress_GetPort a = port"
proof (cases "String_IsNullOrEmpty (Some name)")
  case False
  then have g: "GetSocketAddressForAdapter nd family name port addr w = (hr, a, w')" using assms(2) by (simp add: client_local_address_def)
  show ?thesis using GetSocketAddressForAdapter_ok [OF assms(1) g assms(3,4)] GetSocketAddressForAdapter_port [OF g assms(3)] by simp
next
  case True
  show ?thesis
  proof (cases "family = AF_INET6")
    case 6: True
    then have "a = CSocketAddress_SetPort port (CSocketAddress_from_in6 (sockaddr_zero\<lparr>sa_family := AF_INET6\<rparr>))"
      using True assms(2) by (simp add: client_local_address_def)
    moreover have "wf_addr (CSocketAddress_from_in6 (sockaddr_zero\<lparr>sa_family := AF_INET6\<rparr>))"
      by (simp add: wf_addr_def CSocketAddress_from_in6_def sockaddr_zero_def)
    ultimately show ?thesis using 6 by (simp add: CSocketAddress_from_in6_def)
  next
    case False
    then have "a = CSocketAddress_ip4 0 port" using True assms(2) by (simp add: client_local_address_def)
    moreover have "CSocketAddress_GetPort (CSocketAddress_ip4 0 port) = port" "sa_family (CSocketAddress_ip4 0 port) = AF_INET"
      by (simp_all add: CSocketAddress_GetPort_def CSocketAddress_GetPort_NBO_def CSocketAddress_ip4_def CSocketAddress_from_in4_def load16_be16)
    ultimately show ?thesis using False assms(4) by simp
  qed
qed

lemma client_parse_errors:
  "client_family s = Inl e \<Longrightarrow> e = E_INVALIDARG" "client_protocol s = Inl e \<Longrightarrow> e = E_INVALIDARG"
  "client_port s d = Inl e \<Longrightarrow> e = E_INVALIDARG"
  by (auto simp: client_family_def client_protocol_def client_port_def Let_def split: if_splits prod.splits)

text \<open>What the client can rely on in its configuration.\<close>

definition client_usable :: "u16 \<Rightarrow> bool \<Rightarrow> StunClientLogicConfig \<Rightarrow> ClientSocketConfig \<Rightarrow> bool" where
  "client_usable family fTCP c sc \<longleftrightarrow>
     family \<in> {AF_INET, AF_INET6} \<and> cs_family sc = family \<and> (cs_socktype sc = SOCK_STREAM \<longleftrightarrow> fTCP) \<and>
     wf_addr (addrServer c) \<and> sa_family (addrServer c) = family \<and> CSocketAddress_GetPort (addrServer c) \<noteq> 0 \<and>
     wf_addr (cs_addrLocal sc) \<and> sa_family (cs_addrLocal sc) = family \<and>
     \<not> fTimeoutIsInstant c \<and> timeoutSeconds c = 0 \<and> uMaxAttempts c = (if fTCP then 1 else 0) \<and>
     (fFilteringTest c \<longleftrightarrow> fBehaviorTest c \<and> \<not> fTCP)"

lemma client_mode_usable:
  "client_usable family fTCP c sc \<Longrightarrow> \<not> fBehaviorTest c \<Longrightarrow> client_usable family fTCP (client_mode m fTCP c) sc"
  by (simp add: client_usable_def client_mode_def)

lemma client_config_usable:
  assumes nd: "netdb_ok nd" and r: "CreateConfigFromCommandLine nd args c0 sc0 w = (hr, c, sc, w')" and hr: "SUCCEEDED hr"
  shows "\<exists>family fTCP. client_family (ca_strFamily args) = Inr family \<and> client_protocol (ToLower (ca_strProtocol args)) = Inr fTCP \<and>
           client_usable family fTCP c sc"
proof -
  let ?c = "c0\<lparr>fBehaviorTest := False, fFilteringTest := False, fTimeoutIsInstant := False, timeoutSeconds := 0, uMaxAttempts := 0\<rparr>"
  note def = r [unfolded CreateConfigFromCommandLine_def Let_def]
  obtain family where fam: "client_family (ca_strFamily args) = Inr family"
    using def hr by (cases "client_family (ca_strFamily args)") (auto dest: client_parse_errors)
  obtain fTCP where tcp: "client_protocol (ToLower (ca_strProtocol args)) = Inr fTCP"
    using def hr by (cases "client_protocol (ToLower (ca_strProtocol args))") (auto simp: fam dest: client_parse_errors)
  obtain rp where rp: "client_port (ca_strRemotePort args) DEFAULT_STUN_PORT = Inr rp"
    using def hr by (cases "client_port (ca_strRemotePort args) DEFAULT_STUN_PORT") (auto simp: fam tcp dest: client_parse_errors)
  have srv: "\<not> String_IsNullOrEmpty (Some (ca_strRemoteServer args))" using def hr by (auto simp: fam tcp rp)
  define c1 where "c1 = (if fTCP then ?c\<lparr>uMaxAttempts := 1\<rparr> else ?c)"
  obtain h1 a1 w1 where res: "ResolveHostName nd (ca_strRemoteServer args) family False (addrServer c1) w = (h1, a1, w1)" by (metis prod_cases3)
  have h1: "SUCCEEDED h1" using def hr by (auto simp: fam tcp rp srv res [unfolded c1_def] split: if_splits)
  obtain lp where lp: "client_port (ca_strLocalPort args) 0 = Inr lp"
    using def hr h1
    by (cases "client_port (ca_strLocalPort args) 0") (auto simp: fam tcp rp srv res [unfolded c1_def] split: if_splits dest: client_parse_errors)
  obtain h2 a2 w2 where loc: "client_local_address nd family (ca_strLocalAddr args) lp (CSocketAddress_ip4 0 0) w1 = (h2, a2, w2)" by (metis prod_cases3)
  let ?c2 = "c1\<lparr>addrServer := CSocketAddress_SetPort rp a1\<rparr>"
  let ?sc = "\<lparr>cs_family = family, cs_socktype = (if fTCP then SOCK_STREAM else SOCK_DGRAM), cs_addrLocal = a2\<rparr>"
  have h2: "SUCCEEDED h2 \<and> c = client_mode (ToLower (ca_strMode args)) fTCP ?c2 \<and> sc = ?sc"
    using def hr h1 by (auto simp: fam tcp rp srv res [unfolded c1_def] lp loc c1_def split: if_splits)
  have f: "family \<in> {AF_INET, AF_INET6}" using fam by (auto simp: client_family_def Let_def split: if_splits)
  have "wf_addr a1 \<and> sa_family a1 = family" by (rule ResolveHostName_ok [OF nd res h1 f])
  moreover have "rp \<noteq> 0" using client_port_ok [OF rp] by (auto simp: DEFAULT_STUN_PORT_def)
  moreover have "wf_addr a2 \<and> sa_family a2 = family" using client_local_address_ok [OF nd loc _ f] h2 by simp
  ultimately have "client_usable family fTCP ?c2 ?sc" "\<not> fBehaviorTest ?c2"
    using f by (auto simp: client_usable_def c1_def SOCK_STREAM_def SOCK_DGRAM_def)
  then show ?thesis using client_mode_usable h2 fam tcp by blast
qed

end
