(* ===== verification/ClientLoops.thy ===== *)
theory ClientLoops
  imports ClientMain ServerMain
begin

text \<open>
  The rest of \<open>src/client/clientmain.cpp\<close>: the loops that run the client's tests over a UDP socket and over TCP
  connections, the requests to the application server, and \<open>main\<close>. One turn of a loop is a definition; the
  loop itself, which ends only when its turns say so, is a partial function into \<open>option\<close>, as is the loop over
  \<open>send\<close>, where a call may transfer nothing. The loop over \<open>recv\<close> is total: each call that does not end it
  transfers a byte of those that remain. Only what is logged at the level \<open>LL_ALWAYS\<close> as results is kept of the output.
\<close>

datatype turn = Again | Break | Fail hresult

section \<open>UDP\<close>

record udp_client =
  uc_clientlogic :: CStunClientLogic
  uc_spMsg :: cbuffer
  uc_addrDest :: simple_sockaddr
  uc_addrRemote :: simple_sockaddr
  uc_addrLocal :: simple_sockaddr

definition udp_client_new :: "CStunClientLogic \<Rightarrow> udp_client" where
  "udp_client_new lg =
     \<lparr>uc_clientlogic = lg, uc_spMsg = CBuffer_alloc MAX_STUN_MESSAGE_SIZE, uc_addrDest = CSocketAddress_default,
      uc_addrRemote = CSocketAddress_default, uc_addrLocal = CSocketAddress_default\<rparr>"

text \<open>Waiting for a response, at most for the time-out, and handing it to the logic.\<close>

definition udp_wait :: "('w, 'x) client_os_scheme \<Rightarrow> int \<Rightarrow> udp_client \<Rightarrow> 'w \<Rightarrow> udp_client \<times> 'w" where
  "udp_wait os sock s w =
     (let spMsg = snd (CBuffer_SetSize 0 (uc_spMsg s));
          s = s\<lparr>uc_spMsg := spMsg\<rparr>;
          (ret, ready, w) = os_select os {sock} w
      in if 0 < ret
         then
           (let (ret, data, addrRemote, local, w) =
                  recvfromex os sock (cb_allocatedSize spMsg) MSG_DONTWAIT (uc_addrRemote s) (uc_addrLocal s) w;
                spMsg = spMsg\<lparr>cb_data := map_option (overwrite 0 data) (cb_data spMsg)\<rparr>;
                s = s\<lparr>uc_spMsg := spMsg, uc_addrRemote := addrRemote, uc_addrLocal := local\<rparr>
            in if 0 < ret
               then
                 (let spMsg = snd (CBuffer_SetSize (nat ret) spMsg)
                  in (s\<lparr>uc_spMsg := spMsg,
                        uc_clientlogic := snd (Logic_ProcessResponse spMsg addrRemote local (uc_clientlogic s))\<rparr>, w))
               else (s, w))
         else (s, w))"

text \<open>Asking the logic for a message: its result, and the client with the message and its destination.\<close>

definition udp_ask :: "('w, 'x) client_os_scheme \<Rightarrow> udp_client \<Rightarrow> 'w \<Rightarrow> hresult \<times> udp_client \<times> 'w" where
  "udp_ask os s w =
     (let spMsg = snd (CBuffer_SetSize 0 (uc_spMsg s));
          (rand, stack, w) = co_random os w;
          (hrRet, spMsg, addrDest, lg) =
            GetNextMessage rand stack spMsg (Some (uc_addrDest s)) (GetMillisecondCounter os w) (uc_clientlogic s)
      in (hrRet, s\<lparr>uc_spMsg := spMsg, uc_addrDest := the addrDest, uc_clientlogic := lg\<rparr>, w))"

definition udp_turn :: "('w, 'x) client_os_scheme \<Rightarrow> int \<Rightarrow> udp_client \<Rightarrow> 'w \<Rightarrow> turn \<times> udp_client \<times> 'w" where
  "udp_turn os sock s w =
     (let (hrRet, s, w) = udp_ask os s w
      in if SUCCEEDED hrRet
         then
           (let (ret, w) = os_sendto os sock (take (cb_size (uc_spMsg s)) (CBuffer_GetData (uc_spMsg s))) (uc_addrDest s) w;
                (s, w) = udp_wait os sock s w
            in (Again, s, w))
         else if hrRet = E_STUNCLIENT_STILL_WAITING then (let (s, w) = udp_wait os sock s w in (Again, s, w))
         else if hrRet = E_STUNCLIENT_RESULTS_READY then (Break, s, w)
         else (Fail hrRet, s, w))"

partial_function (option) udp_loop ::
  "('w, 'x) client_os_scheme \<Rightarrow> int \<Rightarrow> udp_client \<Rightarrow> 'w \<Rightarrow> (turn \<times> udp_client \<times> 'w) option" where
  "udp_loop os sock s w =
     (case udp_turn os sock s w of
        (t, s', w') \<Rightarrow> if t = Again then udp_loop os sock s' w' else Some (t, s', w'))"

section \<open>TCP\<close>

record tcp_client =
  tc_stunsocket :: stun_socket
  tc_clientlogic :: CStunClientLogic
  tc_spMsg :: cbuffer
  tc_spMsgReader :: cbuffer
  tc_reader :: reader
  tc_addrDest :: simple_sockaddr

definition tcp_client_new :: "CStunClientLogic \<Rightarrow> tcp_client" where
  "tcp_client_new lg =
     \<lparr>tc_stunsocket = CStunSocket_new, tc_clientlogic = lg, tc_spMsg = CBuffer_alloc 1500, tc_spMsgReader = CBuffer_alloc 1500,
      tc_reader = CStunMessageReader_new, tc_addrDest = CSocketAddress_default\<rparr>"

partial_function (option) client_send_loop ::
  "('w, 'x) client_os_scheme \<Rightarrow> int \<Rightarrow> bytes \<Rightarrow> nat \<Rightarrow> 'w \<Rightarrow> (hresult \<times> 'w) option" where
  "client_send_loop os sock pData bytes_sent w =
     (if bytes_sent < length pData
      then
        (let (ret, w) = os_send os sock (drop bytes_sent pData) w
         in if ret < 0 then Some (ERRNOHR (os_errno os w), w)
            else client_send_loop os sock pData (bytes_sent + nat ret) w)
      else Some (S_OK, w))"

text \<open>Consuming the response: the bytes go into \<open>spMsg\<close> and through a reader that says how many are needed.\<close>

function client_recv_loop ::
  "('w, 'x) client_os_scheme \<Rightarrow> int \<Rightarrow> nat \<Rightarrow> nat \<Rightarrow> reader \<Rightarrow> cbuffer \<Rightarrow> 'w \<Rightarrow> hresult \<times> reader \<times> cbuffer \<times> 'w" where
  "client_recv_loop os sock remaining bytes_recv r spMsg w =
     (if 0 < remaining
      then
        (let readsize = unat (HowManyBytesNeeded r)
         in if readsize = 0 then (S_OK, r, spMsg, w)
            else if remaining < readsize then (S_OK, r, spMsg, w)
            else
              (let (ret, data, w) = os_recv os sock readsize w
               in if ret = 0 then (S_OK, r, spMsg, w)
                  else if ret < 0 then (ERRNOHR (os_errno os w), r, spMsg, w)
                  else
                    (let spMsg = spMsg\<lparr>cb_data := map_option (overwrite bytes_recv data) (cb_data spMsg)\<rparr>;
                         r = snd (AddBytes (Some data) (nat ret) r);
                         bytes_recv = bytes_recv + nat ret;
                         spMsg = snd (CBuffer_SetSize bytes_recv spMsg)
                     in client_recv_loop os sock (remaining - nat ret) bytes_recv r spMsg w)))
      else (S_OK, r, spMsg, w))"
  by pat_completeness auto
termination
  by (relation "measure (\<lambda>(os, sock, remaining, bytes_recv, r, spMsg, w). remaining)") auto

declare client_recv_loop.simps [simp del]

text \<open>The exchange on the open connection; \<open>None\<close> when the sending does not end.\<close>

definition tcp_exchange ::
  "('w, 'x) client_os_scheme \<Rightarrow> int \<Rightarrow> tcp_client \<Rightarrow> 'w \<Rightarrow> (hresult \<times> tcp_client \<times> 'w) option" where
  "tcp_exchange os sock s w =
     (let (ret, w) = co_connect os sock (tc_addrDest s) w
      in if ret = -1 then Some (ERRNOHR (os_errno os w), s, w)
         else
           (case client_send_loop os sock (take (cb_size (tc_spMsg s)) (CBuffer_GetData (tc_spMsg s))) 0 w of
              None \<Rightarrow> None
            | Some (hr, w) \<Rightarrow>
                if FAILED hr then Some (hr, s, w)
                else
                  (let r = Reader_AttachStream (Some (tc_spMsgReader s)) True (Reader_Reset (tc_reader s));
                       (hr, r, spMsg, w) = client_recv_loop os sock (cb_allocatedSize (tc_spMsg s)) 0 r (tc_spMsg s) w
                   in Some (hr, s\<lparr>tc_reader := r, tc_spMsgReader := the (attached_buffer (rd_stream r)), tc_spMsg := spMsg\<rparr>, w))))"

text \<open>A new socket for the turn, and asking the logic for a message.\<close>

definition tcp_open :: "('w, 'x) client_os_scheme \<Rightarrow> simple_sockaddr \<Rightarrow> tcp_client \<Rightarrow> 'w \<Rightarrow> hresult \<times> tcp_client \<times> 'w" where
  "tcp_open os local s w =
     (let (sk, w) = CStunSocket_Close os (tc_stunsocket s) w;
          (hr, sk, w) = TCPInit os local RolePP True sk w
      in (hr, s\<lparr>tc_stunsocket := sk\<rparr>, w))"

definition tcp_ask :: "('w, 'x) client_os_scheme \<Rightarrow> tcp_client \<Rightarrow> 'w \<Rightarrow> hresult \<times> tcp_client \<times> 'w" where
  "tcp_ask os s w =
     (let (rand, stack, w) = co_random os w;
          (hrRet, spMsg, addrDest, lg) =
            GetNextMessage rand stack (tc_spMsg s) (Some (tc_addrDest s)) (GetMillisecondCounter os w) (tc_clientlogic s)
      in (hrRet, s\<lparr>tc_spMsg := spMsg, tc_addrDest := the addrDest, tc_clientlogic := lg\<rparr>, w))"

text \<open>What came back goes to the logic, with the local address of the connection.\<close>

definition tcp_respond :: "('w, 'x) client_os_scheme \<Rightarrow> tcp_client \<Rightarrow> 'w \<Rightarrow> tcp_client" where
  "tcp_respond os s w =
     (let sk = CStunSocket_UpdateAddresses os (tc_stunsocket s) w;
          (hr, lg) = Logic_ProcessResponse (tc_spMsg s) (tc_addrDest s) (CStunSocket_GetLocalAddress sk) (tc_clientlogic s)
      in s\<lparr>tc_stunsocket := sk, tc_clientlogic := lg\<rparr>)"

definition tcp_turn ::
  "('w, 'x) client_os_scheme \<Rightarrow> simple_sockaddr \<Rightarrow> tcp_client \<Rightarrow> 'w \<Rightarrow> (turn \<times> tcp_client \<times> 'w) option" where
  "tcp_turn os local s w =
     (let (hr, s, w) = tcp_open os local s w
      in if FAILED hr then Some (Fail hr, s, w)
         else
           (let (hrRet, s, w) = tcp_ask os s w
            in if hrRet = E_STUNCLIENT_RESULTS_READY then Some (Break, s, w)
               else if FAILED hrRet then Some (Fail hrRet, s, w)
               else
                 (case tcp_exchange os (CStunSocket_GetSocketHandle (tc_stunsocket s)) s w of
                    None \<Rightarrow> None
                  | Some (hr, s, w) \<Rightarrow>
                      if FAILED hr then Some (Fail hr, s, w) else Some (Again, tcp_respond os s w, w))))"

partial_function (option) tcp_loop ::
  "('w, 'x) client_os_scheme \<Rightarrow> simple_sockaddr \<Rightarrow> tcp_client \<Rightarrow> 'w \<Rightarrow> (turn \<times> tcp_client \<times> 'w) option" where
  "tcp_loop os local s w =
     (case tcp_turn os local s w of
        None \<Rightarrow> None
      | Some (t, s', w') \<Rightarrow> if t = Again then tcp_loop os local s' w' else Some (t, s', w'))"

section \<open>The application server\<close>

text \<open>
  The application server listens one port above the STUN server. The calls of \<open>sendto\<close> here pass the 16 bytes of an
  IPv4 address. Bytes of a buffer that were not received are zero.
\<close>

definition app_address :: "simple_sockaddr \<Rightarrow> simple_sockaddr" where
  "app_address addrDest =
     (let port = uint (ntohs (load16 (sa_port addrDest))) + 1
      in CSocketAddress_from_in4 (addrDest\<lparr>sa_port := mem16 (htons (word_of_int port))\<rparr>))"

definition registerToServerRequest ::
  "('w, 'y) netdb_scheme \<Rightarrow> ('w, 'x) client_os_scheme \<Rightarrow> StunClientResults \<Rightarrow> simple_sockaddr \<Rightarrow> int \<Rightarrow> 'w \<Rightarrow> 'w" where
  "registerToServerRequest nd os results addrDest sock w =
     (let appAddr = app_address addrDest;
          szBuffer = snd (OnlyIpToStringBuffer (nd_ntop nd) (nd_errno nd w) 100 (addrMapped results) (replicate 100 0));
          pton4 = (\<lambda>ip. let (ret, bs) = nd_pton nd AF_INET ip in if ret = 1 then Some bs else None)
      in case RegisterRequest_init pton4 (Some szBuffer) (CSocketAddress_GetPort (addrMapped results)) of
           None \<Rightarrow> w
         | Some mData \<Rightarrow> snd (os_sendto os sock (take (nat RegisterRequest_getDataSize) mData) appAddr w))"

definition fetchP2pServerRequest :: "('w, 'x) client_os_scheme \<Rightarrow> simple_sockaddr \<Rightarrow> int \<Rightarrow> 'w \<Rightarrow> 'w" where
  "fetchP2pServerRequest os addrDest sock w =
     snd (os_sendto os sock (take (nat FetchP2pServerRequest_getDataSize) FetchP2pServerRequest_init) (app_address addrDest) w)"

text \<open>The request sends 30 bytes of an array of ten; \<open>beyond\<close> is what follows it on the stack.\<close>

definition sendToServerToDoConnectRequest ::
  "('w, 'x) client_os_scheme \<Rightarrow> bytes \<Rightarrow> simple_sockaddr \<Rightarrow> simple_sockaddr \<Rightarrow> int \<Rightarrow> 'w \<Rightarrow> 'w" where
  "sendToServerToDoConnectRequest os beyond appAddr p2pAddr sock w =
     (let buff = mem32 REQUEST_SERVER_TODO_CONNECT_P2P @ sa_in4 p2pAddr @ mem16 (ntohs (load16 (sa_port p2pAddr)))
      in snd (os_sendto os sock (take 30 (buff @ beyond)) (CSocketAddress_from_in4 appAddr) w))"

text \<open>The entries of a list of peers: the address and the port in host order.\<close>

definition p2p_entry :: "bytes \<Rightarrow> nat \<Rightarrow> simple_sockaddr" where
  "p2p_entry buff i =
     sockaddr_zero\<lparr>sa_family := AF_INET, sa_in4 := bslice (34 + i * 6) 4 buff,
                   sa_port := mem16 (htons (load16 (bslice (34 + i * 6 + 4) 2 buff)))\<rparr>"

definition read_p2p_list :: "bytes \<Rightarrow> simple_sockaddr list \<Rightarrow> fault + simple_sockaddr list" where
  "read_p2p_list data p2pServer =
     (let ret = min 8192 (length data);
          buff = overwrite 0 (take 8192 data) (replicate 8192 0)
      in if 30 \<le> ret \<and> is_msg (ascii ''respond'') (ascii ''data'') (ascii ''p2pList'') buff \<and> 4 \<le> ret - 30
         then
           (let len = bytes_int (bslice 30 4 buff)
            in if 0 < len
               then if 8192 < 34 + len * 6 then Inl OutOfBounds
                    else Inr (p2pServer @ map (p2p_entry buff) [0 ..< nat len])
               else Inr p2pServer)
         else Inr p2pServer)"

text \<open>Up to ten attempts; \<open>attempts\<close> is how many are left.\<close>

fun doFetchP2pServer ::
  "('w, 'x) client_os_scheme \<Rightarrow> simple_sockaddr \<Rightarrow> int \<Rightarrow> nat \<Rightarrow> simple_sockaddr list \<Rightarrow> 'w \<Rightarrow>
   fault + simple_sockaddr list \<times> 'w" where
  "doFetchP2pServer os addrDest sock 0 p2pServer w = Inr (p2pServer, w)"
| "doFetchP2pServer os addrDest sock (Suc attempts) p2pServer w =
     (let w = fetchP2pServerRequest os addrDest sock w;
          (ret, ready, w) = os_select os {sock} w;
          (got, w) =
            (if 0 < ret
             then (let (ret, data, remoteaddr, w) = co_recvfrom os sock 8192 w
                   in (if 0 < ret then read_p2p_list (take (nat ret) data) p2pServer else Inr p2pServer, w))
             else (Inr p2pServer, w))
      in case got of
           Inl e \<Rightarrow> Inl e
         | Inr p2pServer \<Rightarrow>
             if length p2pServer = 0 then doFetchP2pServer os addrDest sock attempts p2pServer w else Inr (p2pServer, w))"

text \<open>
  After the tests: the requests, and the peer's address if there is one, whose reception thread then runs on
  the socket until the program is told to exit (\<open>await\<close>).
\<close>

definition share_files ::
  "('w, 'y) netdb_scheme \<Rightarrow> ('w, 'x) client_os_scheme \<Rightarrow> bytes \<Rightarrow> (int \<Rightarrow> 'w \<Rightarrow> 'w) \<Rightarrow> StunClientResults \<Rightarrow> simple_sockaddr \<Rightarrow> int \<Rightarrow> 'w \<Rightarrow>
   fault + 'w" where
  "share_files nd os beyond await results addrDest sock w =
     (let w = registerToServerRequest nd os results addrDest sock w
      in case doFetchP2pServer os addrDest sock 10 [] w of
           Inl e \<Rightarrow> Inl e
         | Inr (p2pServer, w) \<Rightarrow>
             (case p2pServer of
                [] \<Rightarrow> Inr w
              | p2pServerAddr # rest \<Rightarrow>
                  (let (addr, ready) = sendReadyToP2pServerRequest p2pServerAddr;
                       (ret, w) = os_sendto os sock ready addr w;
                       w = sendToServerToDoConnectRequest os beyond (app_address addrDest) addr sock w
                   in Inr (await sock w))))"

section \<open>The loops\<close>

text \<open>
  The result, the lines logged and the system afterwards, the socket closed by its destructor. \<open>None\<close> when the
  loop does not end. The logic starts in memory as it was.
\<close>

definition UdpClientLoop ::
  "('w, 'y) netdb_scheme \<Rightarrow> ('w, 'x) client_os_scheme \<Rightarrow> StunClientLogicConfig \<Rightarrow> bool \<Rightarrow> bytes \<Rightarrow> (int \<Rightarrow> 'w \<Rightarrow> 'w) \<Rightarrow>
   StunClientLogicConfig \<Rightarrow> ClientSocketConfig \<Rightarrow> 'w \<Rightarrow> (fault + hresult \<times> bytes list \<times> 'w) option" where
  "UdpClientLoop nd os memory precheck beyond await config socketconfig w =
     (let (hr, lg) = CStunClientLogic_Initialize config (CStunClientLogic_new memory precheck)
      in if FAILED hr then Some (Inr (hr, [], w))
         else
           (let (hr, sk, w) = UDPInit os (cs_addrLocal socketconfig) RolePP CStunSocket_new w
            in if FAILED hr then Some (Inr (hr, [], snd (CStunSocket_Close os sk w)))
               else
                 (let (hrPkt, w) = EnablePktInfoOption os True sk w;
                      sock = CStunSocket_GetSocketHandle sk
                  in case udp_loop os sock (udp_client_new lg) w of
                       None \<Rightarrow> None
                     | Some (t, s, w) \<Rightarrow>
                         (case t of
                            Fail hr \<Rightarrow> Some (Inr (hr, [], snd (CStunSocket_Close os sk w)))
                          | _ \<Rightarrow>
                              (let results = the (snd (GetResults (Some StunClientResults_Init) (uc_clientlogic s)));
                                   lines = DumpResults (nd_ntop nd) (nd_errno nd w) config results
                               in Some (case share_files nd os beyond await results (uc_addrDest s) sock w of
                                          Inl e \<Rightarrow> Inl e
                                        | Inr w \<Rightarrow> Inr (hr, lines, snd (CStunSocket_Close os sk w))))))))"

definition TcpClientLoop ::
  "('w, 'y) netdb_scheme \<Rightarrow> ('w, 'x) client_os_scheme \<Rightarrow> StunClientLogicConfig \<Rightarrow> bool \<Rightarrow> StunClientLogicConfig \<Rightarrow>
   ClientSocketConfig \<Rightarrow> 'w \<Rightarrow> (bytes list \<times> 'w) option" where
  "TcpClientLoop nd os memory precheck config socketconfig w =
     (let (hr, lg) = CStunClientLogic_Initialize config (CStunClientLogic_new memory precheck)
      in if FAILED hr then Some ([], w)
         else
           (case tcp_loop os (cs_addrLocal socketconfig) (tcp_client_new lg) w of
              None \<Rightarrow> None
            | Some (t, s, w) \<Rightarrow>
                (let w = snd (CStunSocket_Close os (tc_stunsocket s) w)
                 in case t of
                      Fail hr \<Rightarrow> Some ([], w)
                    | _ \<Rightarrow>
                        (let results = the (snd (GetResults (Some StunClientResults_Init) (tc_clientlogic s)))
                         in Some (DumpResults (nd_ntop nd) (nd_errno nd w) config results, w)))))"

section \<open>The program\<close>

definition ClientCmdLineArgs_new :: ClientCmdLineArgs where
  "ClientCmdLineArgs_new =
     \<lparr>ca_strRemoteServer = [], ca_strRemotePort = [], ca_strLocalAddr = [], ca_strLocalPort = [], ca_strMode = [],
      ca_strFamily = [], ca_strProtocol = [], ca_strVerbosity = [], ca_strHelp = []\<rparr>"

text \<open>The calls of \<open>AddNonOption\<close> and of \<open>AddOption\<close>, one after the other.\<close>

definition client_options :: "ClientCmdLineArgs CCmdLineParser" where
  "client_options =
     (let nonoptions =
            snd (AddNonOption (\<lambda>v. ca_strRemotePort_update (\<lambda>_. v))
              (snd (AddNonOption (\<lambda>v. ca_strRemoteServer_update (\<lambda>_. v)) CCmdLineParser_new)))
      in add_option ''help'' no_argument (\<lambda>v. ca_strHelp_update (\<lambda>_. v))
         (add_option ''verbosity'' required_argument (\<lambda>v. ca_strVerbosity_update (\<lambda>_. v))
         (add_option ''protocol'' required_argument (\<lambda>v. ca_strProtocol_update (\<lambda>_. v))
         (add_option ''family'' required_argument (\<lambda>v. ca_strFamily_update (\<lambda>_. v))
         (add_option ''mode'' required_argument (\<lambda>v. ca_strMode_update (\<lambda>_. v))
         (add_option ''localport'' required_argument (\<lambda>v. ca_strLocalPort_update (\<lambda>_. v))
         (add_option ''localaddr'' required_argument (\<lambda>v. ca_strLocalAddr_update (\<lambda>_. v)) nonoptions)))))))"

definition client_PrintUsage :: "bytes \<Rightarrow> nat \<Rightarrow> bytes list" where
  "client_PrintUsage psz columns = (let width = (if columns > 2 then columns - 2 else columns) in PrettyPrint (Some psz) width)"

text \<open>
  \<open>main\<close>: the exit code, the lines printed or logged and the system afterwards. What the loops return is ignored.
  \<open>memory\<close>, \<open>socketmemory\<close>, \<open>precheck\<close> and \<open>beyond\<close> are memory that nothing initializes.
\<close>

definition client_main ::
  "getopt \<Rightarrow> ('w, 'y) netdb_scheme \<Rightarrow> ('w, 'x) client_os_scheme \<Rightarrow> bytes \<Rightarrow> bytes \<Rightarrow> nat \<Rightarrow> StunClientLogicConfig \<Rightarrow>
   ClientSocketConfig \<Rightarrow> bool \<Rightarrow> bytes \<Rightarrow> (int \<Rightarrow> 'w \<Rightarrow> 'w) \<Rightarrow> bytes list \<Rightarrow> 'w \<Rightarrow> (fault + int \<times> bytes list \<times> 'w) option" where
  "client_main getopt nd os usage_lite usage columns memory socketmemory precheck beyond await argv w =
     (if length argv \<le> 1 then Some (Inr (-1, client_PrintUsage usage_lite columns, w))
      else
        (let (hr, fError, args) = ParseCommandLine getopt argv 1 client_options ClientCmdLineArgs_new
         in if length (ca_strHelp args) > 0 then Some (Inr (-2, client_PrintUsage usage columns, w))
            else if fError then Some (Inr (-3, client_PrintUsage usage_lite columns, w))
            else
              (let (hr, config, socketconfig, w) =
                     CreateConfigFromCommandLine nd args (memory\<lparr>addrServer := CSocketAddress_default\<rparr>) socketmemory w
               in if FAILED hr then Some (Inr (-4, client_PrintUsage usage_lite columns, w))
                  else if cs_socktype socketconfig = SOCK_STREAM
                  then map_option (\<lambda>(lines, w). Inr (0, lines, w)) (TcpClientLoop nd os memory precheck config socketconfig w)
                  else map_option (map_sum id (\<lambda>(hr, lines, w). (0, lines, w)))
                         (UdpClientLoop nd os memory precheck beyond await config socketconfig w))))"

end
