(* ===== verification/ClientReturns.thy ===== *)
theory ClientReturns
  imports ClientLoops ClientRun ThreadCorrect
begin

text \<open>
  The UDP loop of the client program returns. The logic tells it to wait while a time-out runs; each such turn
  either receives a datagram, of which only finitely many come, or lets the time of a \<open>select\<close> pass, so the wait that
  is left gets shorter; every other turn sends one of the messages of the budget or ends the loop.
\<close>

section \<open>Surroundings\<close>

text \<open>
  What the system promises: \<open>ms\<close> is its time in milliseconds, which no call turns back; a \<open>select\<close> that times out
  has let \<open>d\<close> milliseconds pass, and is late by at most a minute; \<open>arriving\<close> bounds how often the socket can still
  become readable.
\<close>

definition client_calls_ok :: "('w, 'x) client_os_scheme \<Rightarrow> ('w \<Rightarrow> nat) \<Rightarrow> ('w \<Rightarrow> nat) \<Rightarrow> nat \<Rightarrow> bool" where
  "client_calls_ok os arriving ms d \<longleftrightarrow>
     os_ok os \<and> (\<forall>w. GetMillisecondCounter os w = of_nat (ms w)) \<and>
     (\<forall>w rand stack w'. co_random os w = (rand, stack, w') \<longrightarrow>
        length stack = 16 \<and> arriving w' \<le> arriving w \<and> ms w \<le> ms w' \<and> ms w' \<le> ms w + 1000) \<and>
     (\<forall>fd bs a w ret w'. os_sendto os fd bs a w = (ret, w') \<longrightarrow> arriving w' \<le> arriving w) \<and>
     (\<forall>fd n fl w m w'. os_recvmsg os fd n fl w = (m, w') \<longrightarrow> arriving w' \<le> arriving w) \<and>
     (\<forall>fds w ret r w'. os_select os fds w = (ret, r, w') \<longrightarrow> 0 < ret \<longrightarrow> arriving w' < arriving w) \<and>
     (\<forall>fds w ret r w'. os_select os fds w = (ret, r, w') \<longrightarrow> \<not> 0 < ret \<longrightarrow>
        arriving w' \<le> arriving w \<and> ms w + d \<le> ms w' \<and> ms w' \<le> ms w + d + 60000)"

lemma client_callsD:
  assumes "client_calls_ok os arriving ms d"
  shows "os_ok os" "GetMillisecondCounter os w = of_nat (ms w)"
    "co_random os w = (rand, stack, w') \<Longrightarrow> length stack = 16 \<and> arriving w' \<le> arriving w \<and> ms w \<le> ms w' \<and> ms w' \<le> ms w + 1000"
    "os_sendto os fd bs a w = (ret, w') \<Longrightarrow> arriving w' \<le> arriving w"
    "os_recvmsg os fd n fl w = (m, w') \<Longrightarrow> arriving w' \<le> arriving w"
    "os_select os fds w = (ret, r, w') \<Longrightarrow> 0 < ret \<Longrightarrow> arriving w' < arriving w"
    "os_select os fds w = (ret, r, w') \<Longrightarrow> \<not> 0 < ret \<Longrightarrow>
       arriving w' \<le> arriving w \<and> ms w + d \<le> ms w' \<and> ms w' \<le> ms w + d + 60000"
  by (insert assms [unfolded client_calls_ok_def], (elim conjE, assumption | simp | blast)+)

definition udp_client_ok :: "StunClientLogicConfig \<Rightarrow> nat \<Rightarrow> udp_client \<Rightarrow> bool" where
  "udp_client_ok config n s \<longleftrightarrow>
     client_run config n (uc_clientlogic s) \<and> wf_buffer (uc_spMsg s) \<and> cb_allocatedSize (uc_spMsg s) = MAX_STUN_MESSAGE_SIZE \<and>
     wf_addr (uc_addrRemote s) \<and> wf_addr (uc_addrLocal s)"

section \<open>One turn\<close>

text \<open>A client that is told to wait has not sent anything since, and keeps the time of its last message.\<close>

lemma waiting_keeps_time:
  assumes "client_core lg" "wf_buffer buf" "800 \<le> cb_allocatedSize buf" "length stack = 16"
    and "GetNextMessage rand stack buf (Some d) now lg = (E_STUNCLIENT_STILL_WAITING, buf', d', lg')"
  shows "lg_timeLastMessageSent lg' = lg_timeLastMessageSent lg"
proof -
  have "fst x \<noteq> E_STUNCLIENT_STILL_WAITING \<or> lg_timeLastMessageSent (snd (snd (snd x))) = lg_timeLastMessageSent lg"
    if "x = GetNextMessage_loop rand stack now buf d lg" for x
    unfolding that
  proof (rule GetNextMessage_rule [where P = "\<lambda>l. lg_timeLastMessageSent l = lg_timeLastMessageSent lg"])
    fix l l'
    assume "lg_timeLastMessageSent l = lg_timeLastMessageSent lg" "GetNextMessage_round rand stack now buf d l = Inl l'"
    then show "lg_timeLastMessageSent l' = lg_timeLastMessageSent lg"
      by (auto simp: GetNextMessage_round_def Let_def next_test_def split: if_splits)
  next
    fix l x
    assume "lg_timeLastMessageSent l = lg_timeLastMessageSent lg" "GetNextMessage_round rand stack now buf d l = Inr x"
    then show "fst x \<noteq> E_STUNCLIENT_STILL_WAITING \<or> lg_timeLastMessageSent (snd (snd (snd x))) = lg_timeLastMessageSent lg"
      using stun_client_codes(2) by (auto simp: GetNextMessage_round_def Let_def send_message_def split: if_splits prod.splits)
  qed simp
  then show ?thesis
    using assms by (auto simp: GetNextMessage_def client_core_def MAX_STUN_MESSAGE_SIZE_def split: prod.splits)
qed

lemma udp_ask_ok:
  assumes calls: "client_calls_ok os arriving ms d" and ok: "udp_client_ok config n s" and r: "udp_ask os s w = (hr, s', w')"
  shows "hr \<in> {S_OK, E_STUNCLIENT_STILL_WAITING, E_STUNCLIENT_RESULTS_READY}"
    "udp_client_ok config (if hr = S_OK then n + 1 else n) s'"
    "arriving w' \<le> arriving w" "ms w \<le> ms w'" "ms w' \<le> ms w + 1000"
    "messages_left (uc_clientlogic s') + (if hr = S_OK then 1 else 0) \<le> messages_left (uc_clientlogic s)"
    "hr = E_STUNCLIENT_STILL_WAITING \<Longrightarrow> waiting (of_nat (ms w')) (uc_clientlogic s') \<and>
       lg_timeLastMessageSent (uc_clientlogic s') = lg_timeLastMessageSent (uc_clientlogic s)"
    "hr = E_STUNCLIENT_RESULTS_READY \<Longrightarrow> \<not> running (uc_clientlogic s')"
proof -
  obtain rand stack w1 where rnd: "co_random os w = (rand, stack, w1)" by (metis prod_cases3)
  note q = client_callsD(3) [OF calls rnd]
  let ?b = "snd (CBuffer_SetSize 0 (uc_spMsg s))" and ?lg = "uc_clientlogic s"
  have b: "wf_buffer ?b" "800 \<le> cb_allocatedSize ?b" "cb_allocatedSize ?b = MAX_STUN_MESSAGE_SIZE"
    using ok by (auto simp: udp_client_ok_def wf_buffer_def MAX_STUN_MESSAGE_SIZE_def)
  have run: "client_run config n ?lg" using ok by (simp add: udp_client_ok_def)
  have now: "GetMillisecondCounter os w1 = of_nat (ms w1)" by (rule client_callsD(2) [OF calls])
  obtain h buf' d' lg' where g: "GetNextMessage rand stack ?b (Some (uc_addrDest s)) (of_nat (ms w1)) ?lg = (h, buf', Some d', lg')"
    "asked (of_nat (ms w1)) ?b (uc_addrDest s) (lg_config ?lg) (messages_left ?lg) (h, buf', d', lg')"
    by (rule ask_outcome [OF run_core(1) [OF run] b(1,2)]) (use q in auto)
  have e: "hr = h" "s' = s\<lparr>uc_spMsg := buf', uc_addrDest := d', uc_clientlogic := lg'\<rparr>" "w' = w1"
    using r by (simp_all add: udp_ask_def rnd now g(1) del: CBuffer_SetSize_snd)
  show "hr \<in> {S_OK, E_STUNCLIENT_STILL_WAITING, E_STUNCLIENT_RESULTS_READY}"
    "messages_left (uc_clientlogic s') + (if hr = S_OK then 1 else 0) \<le> messages_left ?lg"
    "hr = E_STUNCLIENT_RESULTS_READY \<Longrightarrow> \<not> running (uc_clientlogic s')"
    using g(2) stun_client_codes(1-3) by (auto simp: asked_def e)
  show "arriving w' \<le> arriving w" "ms w \<le> ms w'" "ms w' \<le> ms w + 1000" using q by (simp_all add: e)
  show "hr = E_STUNCLIENT_STILL_WAITING \<Longrightarrow> waiting (of_nat (ms w')) (uc_clientlogic s') \<and>
       lg_timeLastMessageSent (uc_clientlogic s') = lg_timeLastMessageSent ?lg"
    using g(2) stun_client_codes(1-3) waiting_keeps_time [OF run_core(1) [OF run] b(1,2)] g(1) q by (auto simp: asked_def e)
  have "wf_buffer buf' \<and> cb_allocatedSize buf' = MAX_STUN_MESSAGE_SIZE"
    using g(2) b by (auto simp: asked_def message_sent_def Let_def)
  moreover have "client_run config (if h = S_OK then n + 1 else n) lg'" by (rule run_ask [OF run b(1) _ g(1)]) (use q in simp)
  ultimately show "udp_client_ok config (if hr = S_OK then n + 1 else n) s'" using ok by (simp add: udp_client_ok_def e)
qed

lemma response_keeps:
  "messages_left (snd (Logic_ProcessResponse m remote local lg)) = messages_left lg"
  "lg_timeLastMessageSent (snd (Logic_ProcessResponse m remote local lg)) = lg_timeLastMessageSent lg"
  by (simp_all add: Logic_ProcessResponse_def messages_left_def)

lemma udp_wait_ok:
  assumes calls: "client_calls_ok os arriving ms d" and ok: "udp_client_ok config n s" and r: "udp_wait os sock s w = (s', w')"
  shows "udp_client_ok config n s'" "messages_left (uc_clientlogic s') = messages_left (uc_clientlogic s)"
    "lg_timeLastMessageSent (uc_clientlogic s') = lg_timeLastMessageSent (uc_clientlogic s)"
    "arriving w' < arriving w \<or> arriving w' \<le> arriving w \<and> ms w + d \<le> ms w' \<and> ms w' \<le> ms w + d + 60000"
proof -
  let ?m = "snd (CBuffer_SetSize 0 (uc_spMsg s))"
  obtain ret ready w1 where sel: "os_select os {sock} w = (ret, ready, w1)" by (metis prod_cases3)
  have m: "wf_buffer ?m" "cb_allocatedSize ?m = MAX_STUN_MESSAGE_SIZE" using ok by (auto simp: udp_client_ok_def wf_buffer_def)
  then obtain dat where dat: "cb_data ?m = Some dat" "length dat = MAX_STUN_MESSAGE_SIZE" by (auto simp: wf_buffer_def)
  have "udp_client_ok config n s' \<and> messages_left (uc_clientlogic s') = messages_left (uc_clientlogic s) \<and>
      lg_timeLastMessageSent (uc_clientlogic s') = lg_timeLastMessageSent (uc_clientlogic s) \<and>
      (arriving w' < arriving w \<or> arriving w' \<le> arriving w \<and> ms w + d \<le> ms w' \<and> ms w' \<le> ms w + d + 60000)"
  proof (cases "0 < ret")
    case False
    then have "s' = s\<lparr>uc_spMsg := ?m\<rparr>" "w' = w1" using r by (simp_all add: udp_wait_def sel)
    then show ?thesis using client_callsD(7) [OF calls sel False] ok m by (simp add: udp_client_ok_def)
  next
    case True
    obtain ret2 data src dst w2 where rx: "recvfromex os sock (cb_allocatedSize ?m) MSG_DONTWAIT (uc_addrRemote s) (uc_addrLocal s) w1 = (ret2, data, src, dst, w2)"
      by (metis prod_cases5)
    have wf: "wf_addr (uc_addrRemote s)" "wf_addr (uc_addrLocal s)" using ok by (simp_all add: udp_client_ok_def)
    note got = recvfromex_ok [OF client_callsD(1) [OF calls] wf rx]
    obtain mm w3 where rm: "os_recvmsg os sock (cb_allocatedSize ?m) MSG_DONTWAIT w1 = (mm, w3)" by fastforce
    have w2: "w2 = w3" using rx rm by (auto simp: recvfromex_def Let_def split: if_splits)
    have "arriving w2 < arriving w" using client_callsD(5) [OF calls rm] client_callsD(6) [OF calls sel True] by (simp add: w2)
    define m2 where "m2 = ?m\<lparr>cb_data := Some (overwrite 0 data dat)\<rparr>"
    have "length data \<le> length dat" using got(1,4,5) m(2) dat(2) by (cases "0 < ret2") auto
    then have m2: "wf_buffer m2" "cb_allocatedSize m2 = MAX_STUN_MESSAGE_SIZE" "wf_buffer (m2\<lparr>cb_size := nat ret2\<rparr>)"
      using m dat got(1) by (auto simp: m2_def wf_buffer_def)
    define s2 where "s2 = s\<lparr>uc_spMsg := m2, uc_addrRemote := src, uc_addrLocal := dst\<rparr>"
    let ?m3 = "m2\<lparr>cb_size := nat ret2\<rparr>"
    have s': "(s', w') = (if 0 < ret2
        then (s2\<lparr>uc_spMsg := ?m3, uc_clientlogic := snd (Logic_ProcessResponse ?m3 src dst (uc_clientlogic s))\<rparr>, w2) else (s2, w2))"
      using r True dat(1) rx by (auto simp: udp_wait_def sel m2_def s2_def Let_def split: if_splits)
    have run: "client_run config n (snd (Logic_ProcessResponse ?m3 src dst (uc_clientlogic s)))"
      by (rule run_receive [of config n "uc_clientlogic s", OF _ surjective_pairing]) (use ok in \<open>simp add: udp_client_ok_def\<close>)
    show ?thesis using s' run m2 got(2,3) ok \<open>arriving w2 < arriving w\<close>
      by (auto simp: udp_client_ok_def s2_def response_keeps split: if_splits)
  qed
  then show "udp_client_ok config n s'" "messages_left (uc_clientlogic s') = messages_left (uc_clientlogic s)"
    "lg_timeLastMessageSent (uc_clientlogic s') = lg_timeLastMessageSent (uc_clientlogic s)"
    "arriving w' < arriving w \<or> arriving w' \<le> arriving w \<and> ms w + d \<le> ms w' \<and> ms w' \<le> ms w + d + 60000" by blast+
qed

section \<open>The loop\<close>

text \<open>The wait that is left when the next call of the logic is told to wait.\<close>

definition wait_left :: "('w, 'x) client_os_scheme \<Rightarrow> ('w \<Rightarrow> nat) \<Rightarrow> nat \<Rightarrow> udp_client \<Rightarrow> 'w \<Rightarrow> nat" where
  "wait_left os ms T s w =
     (case udp_ask os s w of (hr, s', w') \<Rightarrow>
        if hr = E_STUNCLIENT_STILL_WAITING
        then 1000 * T - unat ((of_nat (ms w') :: u32) - lg_timeLastMessageSent (uc_clientlogic s')) else 0)"

definition turns_left ::
  "('w, 'x) client_os_scheme \<Rightarrow> ('w \<Rightarrow> nat) \<Rightarrow> ('w \<Rightarrow> nat) \<Rightarrow> nat \<Rightarrow> udp_client \<Rightarrow> 'w \<Rightarrow> nat" where
  "turns_left os arriving ms T s w =
     (1000 * T + 1) * (messages_left (uc_clientlogic s) + arriving w) + wait_left os ms T s w"

lemma turns_less:
  assumes "wait_left os ms T s' w' \<le> 1000 * T"
    and "messages_left (uc_clientlogic s') + arriving w' < messages_left (uc_clientlogic s) + arriving w"
  shows "turns_left os arriving ms T s' w' < turns_left os arriving ms T s w"
proof -
  have "(1000 * T + 1) * Suc (messages_left (uc_clientlogic s') + arriving w')
      \<le> (1000 * T + 1) * (messages_left (uc_clientlogic s) + arriving w)"
    using assms(2) by (intro mult_le_mono2) simp
  then show ?thesis using assms(1) by (simp add: turns_left_def)
qed

lemma wait_left_le: "wait_left os ms T s w \<le> 1000 * T"
  by (simp add: wait_left_def split: prod.split)

lemma unat_later:
  assumes "unat ((of_nat a :: u32) - l) < 1000 * T" "a + d \<le> b" "b \<le> a + d + 61000" "1000 * T + d + 61000 < 2 ^ 32"
  shows "unat ((of_nat b :: u32) - l) = unat ((of_nat a :: u32) - l) + (b - a)"
proof -
  define x where "x = (of_nat a :: u32) - l"
  define y where "y = (of_nat (b - a) :: u32)"
  have e: "(of_nat b :: u32) - l = x + y" using assms(2) by (simp add: x_def y_def of_nat_diff)
  have y: "unat y = b - a" using assms(3,4) by (simp add: y_def unat_of_nat)
  have "unat x + unat y < 2 ^ 32" using assms(1,3,4) by (simp add: y flip: x_def)
  then have "unat (x + y) = unat x + unat y" by (simp add: unat_word_ariths)
  then show ?thesis by (simp only: e y flip: x_def)
qed

lemma waiting_time:
  assumes "waiting now lg" "unat (timeoutSeconds (lg_config lg)) = T"
  shows "unat (now - lg_timeLastMessageSent lg) < 1000 * T"
proof -
  have "unat ((now - lg_timeLastMessageSent lg) div 1000) < T" using assms by (simp add: waiting_def word_less_nat_alt)
  then show ?thesis by (simp add: unat_div div_less_iff_less_mult)
qed

lemma wait_shorter:
  assumes calls: "client_calls_ok os arriving ms d" and d: "0 < d" "1000 * T + d + 61000 < 2 ^ 32"
    and ok: "udp_client_ok config n s" and T: "unat (timeoutSeconds (effective_config config)) = T"
    and wt: "unat ((of_nat t0 :: u32) - lg_timeLastMessageSent (uc_clientlogic s)) < 1000 * T"
    and t: "t0 + d \<le> ms w" "ms w \<le> t0 + d + 60000"
  shows "wait_left os ms T s w < 1000 * T - unat ((of_nat t0 :: u32) - lg_timeLastMessageSent (uc_clientlogic s))"
proof -
  obtain hr s' w' where a: "udp_ask os s w = (hr, s', w')" by (metis prod_cases3)
  note ask = udp_ask_ok [OF calls ok a]
  show ?thesis
  proof (cases "hr = E_STUNCLIENT_STILL_WAITING")
    case False
    then show ?thesis using wt by (simp add: wait_left_def a)
  next
    case True
    let ?l = "lg_timeLastMessageSent (uc_clientlogic s)"
    have "unat ((of_nat (ms w') :: u32) - ?l) = unat ((of_nat t0 :: u32) - ?l) + (ms w' - t0)"
      by (rule unat_later [OF wt _ _ d(2)]) (use t ask(4,5) in simp_all)
    then show ?thesis using True ask(7) wt t ask(4) d(1) by (simp add: wait_left_def a)
  qed
qed

lemma udp_turn_ok:
  assumes calls: "client_calls_ok os arriving ms d" and d: "0 < d" "1000 * T + d + 61000 < 2 ^ 32"
    and ok: "udp_client_ok config n s" and T: "unat (timeoutSeconds (effective_config config)) = T"
    and r: "udp_turn os sock s w = (t, s', w')"
  shows "\<exists>n'. udp_client_ok config n' s' \<and>
     (t = Again \<and> turns_left os arriving ms T s' w' < turns_left os arriving ms T s w \<or> t = Break \<and> \<not> running (uc_clientlogic s'))"
proof -
  obtain hr s1 w1 where a: "udp_ask os s w = (hr, s1, w1)" by (metis prod_cases3)
  note ask = udp_ask_ok [OF calls ok a]
  consider "hr = S_OK" | "hr = E_STUNCLIENT_STILL_WAITING" | "hr = E_STUNCLIENT_RESULTS_READY" using ask(1) by blast
  then show ?thesis
  proof cases
    case 1
    obtain ret w2 where snd: "os_sendto os sock (take (cb_size (uc_spMsg s1)) (CBuffer_GetData (uc_spMsg s1))) (uc_addrDest s1) w1 = (ret, w2)"
      by fastforce
    obtain s3 w3 where wt: "udp_wait os sock s1 w2 = (s3, w3)" by fastforce
    have e: "t = Again" "s' = s3" "w' = w3" using r 1 snd wt by (simp_all add: udp_turn_def a S_OK_def SUCCEEDED_def)
    have ok1: "udp_client_ok config (n + 1) s1" using ask(2) 1 by simp
    note wait = udp_wait_ok [OF calls ok1 wt]
    have "messages_left (uc_clientlogic s3) + arriving w3 < messages_left (uc_clientlogic s) + arriving w"
      using wait(2,4) ask(3,6) client_callsD(4) [OF calls snd] 1 by auto
    then show ?thesis using turns_less [OF wait_left_le] wait(1) by (auto simp: e)
  next
    case 2
    obtain s3 w3 where wt: "udp_wait os sock s1 w1 = (s3, w3)" by fastforce
    have e: "t = Again" "s' = s3" "w' = w3"
      using r 2 wt stun_client_codes(1-3) by (simp_all add: udp_turn_def a E_STUNCLIENT_STILL_WAITING_def SUCCEEDED_def)
    have ok1: "udp_client_ok config n s1" using ask(2) 2 stun_client_codes(2) by simp
    note wait = udp_wait_ok [OF calls ok1 wt]
    have left: "messages_left (uc_clientlogic s3) \<le> messages_left (uc_clientlogic s)" using wait(2) ask(6) by simp
    have "lg_config (uc_clientlogic s1) = effective_config config" using ok1 run_core(2) by (auto simp: udp_client_ok_def)
    then have tm: "unat (timeoutSeconds (lg_config (uc_clientlogic s1))) = T" using T by simp
    have x: "unat ((of_nat (ms w1) :: u32) - lg_timeLastMessageSent (uc_clientlogic s1)) < 1000 * T"
      by (rule waiting_time [OF _ tm]) (use ask(7) 2 in simp)
    have "turns_left os arriving ms T s3 w3 < turns_left os arriving ms T s w"
    proof (cases "arriving w3 < arriving w1")
      case True
      then show ?thesis using turns_less [OF wait_left_le] left ask(3) by (metis add_le_less_mono less_le_trans)
    next
      case False
      then have q: "arriving w3 \<le> arriving w1" "ms w1 + d \<le> ms w3" "ms w3 \<le> ms w1 + d + 60000" using wait(4) by auto
      have "wait_left os ms T s3 w3 < wait_left os ms T s w"
        using wait_shorter [OF calls d wait(1) T _ q(2,3)] x wait(3) 2 by (simp add: wait_left_def [of os ms T s w] a)
      moreover have "(1000 * T + 1) * (messages_left (uc_clientlogic s3) + arriving w3)
          \<le> (1000 * T + 1) * (messages_left (uc_clientlogic s) + arriving w)"
        using left q(1) ask(3) by (intro mult_le_mono2) simp
      ultimately show ?thesis by (simp add: turns_left_def)
    qed
    then show ?thesis using wait(1) by (auto simp: e)
  next
    case 3
    then have "t = Break" "s' = s1"
      using r stun_client_codes(3) by (simp_all add: udp_turn_def a E_STUNCLIENT_RESULTS_READY_def E_STUNCLIENT_STILL_WAITING_def SUCCEEDED_def)
    then show ?thesis using ask(2,8) 3 by blast
  qed
qed

lemma udp_loop_returns:
  assumes "client_calls_ok os arriving ms d" "0 < d" "1000 * T + d + 61000 < 2 ^ 32"
    and "unat (timeoutSeconds (effective_config config)) = T" "udp_client_ok config n s"
  shows "\<exists>n' s' w'. udp_loop os sock s w = Some (Break, s', w') \<and> udp_client_ok config n' s' \<and> \<not> running (uc_clientlogic s')"
  using assms(5)
proof (induction "turns_left os arriving ms T s w" arbitrary: n s w rule: less_induct)
  case less
  obtain t s' w' where t: "udp_turn os sock s w = (t, s', w')" by (metis prod_cases3)
  obtain n' where n': "udp_client_ok config n' s'"
    "t = Again \<and> turns_left os arriving ms T s' w' < turns_left os arriving ms T s w \<or> t = Break \<and> \<not> running (uc_clientlogic s')"
    using udp_turn_ok [OF assms(1-3) less.prems assms(4) t] by blast
  show ?case
  proof (cases "t = Again")
    case True
    then show ?thesis using less.hyps [OF _ n'(1), of w'] n'(2) by (simp add: udp_loop.simps [of os sock s w] t)
  next
    case False
    then show ?thesis using n' by (auto simp: udp_loop.simps [of os sock s w] t)
  qed
qed

section \<open>A TCP client that is cut off\<close>

lemma sent_counts:
  assumes "client_core lg" "GetNextMessage_loop rand stack now buf d lg = (S_OK, buf', d', lg')"
  shows "lg_sendCount lg' \<noteq> 0"
proof -
  have "fst x = S_OK \<longrightarrow> lg_sendCount (snd (snd (snd x))) \<noteq> 0" if "x = GetNextMessage_loop rand stack now buf d lg" for x
    unfolding that
  proof (rule GetNextMessage_rule [where P = client_core])
    fix l x
    assume l: "client_core l" and x: "GetNextMessage_round rand stack now buf d l = Inr x"
    show "fst x = S_OK \<longrightarrow> lg_sendCount (snd (snd (snd x))) \<noteq> 0"
    proof
      assume ok: "fst x = S_OK"
      let ?e = "early_check l"
      have e: "running l" "\<not> uMaxAttempts (lg_config ?e) \<le> lg_sendCount ?e" "x = send_message rand stack now buf d ?e"
        using x ok stun_client_codes by (auto simp: GetNextMessage_round_def running_def Let_def split: if_splits)
      have "lg_sendCount (snd (snd (snd x))) = lg_sendCount ?e + 1"
        unfolding e(3) by (rule send_count) (use ok e(3) in simp)
      moreover have "unat (lg_sendCount ?e + 1) = unat (lg_sendCount ?e) + 1"
      proof -
        have "unat (lg_sendCount ?e) < unat (uMaxAttempts (lg_config ?e))" using e(2) by (simp add: word_le_nat_alt)
        moreover have "unat (uMaxAttempts (lg_config ?e)) < 2 ^ 32" using unsigned_less [of "uMaxAttempts (lg_config ?e)", where 'a = nat] by simp
        ultimately show ?thesis by (simp add: unat_word_ariths)
      qed
      then have "lg_sendCount ?e + 1 \<noteq> 0" by (metis Suc_eq_plus1 nat.distinct(1) unat_0)
      ultimately show "lg_sendCount (snd (snd (snd x))) \<noteq> 0" by simp
    qed
  qed (use assms(1) round_again(1) in blast)+
  then show ?thesis using assms(2) by simp
qed

lemma still_waiting:
  assumes "client_core lg" "pending lg" "waiting now lg" "MAX_STUN_MESSAGE_SIZE \<le> cb_allocatedSize buf"
  shows "GetNextMessage rand stack buf (Some d) now lg = (E_STUNCLIENT_STILL_WAITING, buf, Some d, lg)"
proof -
  have "early_check lg = lg" using assms(2) by (simp add: early_check_def pending_def)
  then have "GetNextMessage_round rand stack now buf d lg = Inr (E_STUNCLIENT_STILL_WAITING, buf, d, lg)"
    using assms(2,3) by (simp add: GetNextMessage_round_def Let_def pending_def running_def)
  then show ?thesis using assms(1,4) MAX_STUN_MESSAGE_SIZE_def
    by (simp add: GetNextMessage_def client_core_def GetNextMessage_loop.simps [of rand stack now buf d lg])
qed

lemma pending_after_response:
  assumes run: "client_run config n lg" and p: "pending lg" and r: "Logic_ProcessResponse buf remote local lg = (hr, lg')"
    and c: "\<not> ct_fCompleted (current_test lg')"
  shows "pending lg'" "client_core lg'" "lg_timeLastMessageSent lg' = lg_timeLastMessageSent lg" "lg_sendCount lg' = lg_sendCount lg"
    "lg_config lg' = lg_config lg"
proof -
  have f: "running lg'" "lg_fPreCheckRunOnTest lg'" "lg_timeLastMessageSent lg' = lg_timeLastMessageSent lg" "lg_sendCount lg' = lg_sendCount lg"
    "lg_config lg' = lg_config lg"
    using p r by (auto simp: Logic_ProcessResponse_def pending_def running_def split: if_splits)
  have "client_ok lg'" using run_ok [OF run_receive [OF run r]] by simp
  then have core: "client_core lg'" and st: "settled lg'" by (simp_all add: client_ok_def)
  have "pending lg'" if "lg_stage lg' = 0"
  proof -
    have "ct_stage (current_test lg') = 0" using that f(1) by (simp add: lg_stage_def)
    then have "ct_class (current_test lg') = CBasicBindingTest" by (cases "current_test lg'" rule: ct_stage_cases) simp_all
    then show ?thesis using f c by (simp add: pending_def test_over_def ready_defs)
  qed
  then show "pending lg'" using st f(1) c by (auto simp: settled_def lg_over_def)
  show "client_core lg'" by (rule core)
  show "lg_timeLastMessageSent lg' = lg_timeLastMessageSent lg" "lg_sendCount lg' = lg_sendCount lg" "lg_config lg' = lg_config lg"
    using f by simp_all
qed

text \<open>The state in which a turn asks the logic, its socket open again.\<close>

definition tcp_asking :: "('w, 'x) client_os_scheme \<Rightarrow> simple_sockaddr \<Rightarrow> tcp_client \<Rightarrow> 'w \<Rightarrow> hresult \<times> 'w" where
  "tcp_asking os local s w =
     (let (hr, s, w) = tcp_open os local s w; (hrRet, s, w) = tcp_ask os s w in (hr, w))"

lemma client_recv_loop_alloc:
  "client_recv_loop os sock remaining k r m w = (hr, r', m', w') \<Longrightarrow> cb_allocatedSize m' = cb_allocatedSize m"
proof (induction os sock remaining k r m w arbitrary: rule: client_recv_loop.induct)
  case (1 os sock remaining k r m w)
  show ?case
    using 1 by (subst (asm) (2) client_recv_loop.simps) (auto simp: Let_def split: if_splits prod.splits)
qed

text \<open>A turn that goes round again has sent a message; the logic then waits for what the server says.\<close>

lemma tcp_turn_again:
  assumes run: "client_run config n (tc_clientlogic s)" and buf: "wf_buffer (tc_spMsg s)"
    and rnd: "\<And>w. length (fst (snd (co_random os w))) = 16"
    and t: "tcp_turn os local s w = Some (Again, s1, w1)" and c: "\<not> ct_fCompleted (current_test (tc_clientlogic s1))"
  shows "pending (tc_clientlogic s1)" "client_core (tc_clientlogic s1)" "lg_sendCount (tc_clientlogic s1) \<noteq> 0"
    "lg_config (tc_clientlogic s1) = effective_config config" "MAX_STUN_MESSAGE_SIZE \<le> cb_allocatedSize (tc_spMsg s1)"
proof -
  obtain hi s0 w2 where op: "tcp_open os local s w = (hi, s0, w2)" by (metis prod_cases3)
  have s0: "tc_spMsg s0 = tc_spMsg s" "tc_addrDest s0 = tc_addrDest s" "tc_clientlogic s0 = tc_clientlogic s"
    using op by (auto simp: tcp_open_def Let_def split: prod.splits)
  obtain rand stack w3 where rd: "co_random os w2 = (rand, stack, w3)" by (metis prod_cases3)
  obtain h buf' d' lg where g: "GetNextMessage rand stack (tc_spMsg s) (Some (tc_addrDest s)) (GetMillisecondCounter os w3) (tc_clientlogic s) = (h, buf', d', lg)"
    by (metis prod_cases4)
  define sa where "sa = s0\<lparr>tc_spMsg := buf', tc_addrDest := the d', tc_clientlogic := lg\<rparr>"
  have ask: "tcp_ask os s0 w2 = (h, sa, w3)" by (simp add: tcp_ask_def rd s0 g sa_def)
  have ok: "h \<noteq> E_STUNCLIENT_RESULTS_READY" "SUCCEEDED h" using t by (auto simp: tcp_turn_def op ask split: if_splits)
  obtain hx s2 w4 where ex: "tcp_exchange os (CStunSocket_GetSocketHandle (tc_stunsocket sa)) sa w3 = Some (hx, s2, w4)"
    "s1 = tcp_respond os s2 w4"
    using t ok by (auto simp: tcp_turn_def op ask split: if_splits option.splits)
  have core: "client_core (tc_clientlogic s)" by (rule run_core(1) [OF run])
  have st: "length stack = 16" using rnd [of w2] rd by simp
  have hS: "h = S_OK"
  proof -
    from core buf st show ?thesis
    proof (cases rule: GetNextMessage_cases [where rand = rand and pDest = "Some (tc_addrDest s)" and now = "GetMillisecondCounter os w3"])
      case refused
      then show ?thesis using g ok by auto
    next
      case (asked d0 hr b2 d2 l2)
      then show ?thesis using g ok by (auto simp: asked_def E_STUNCLIENT_STILL_WAITING_def SUCCEEDED_def)
    qed
  qed
  obtain d1 where a: "d' = Some d1" "asked (GetMillisecondCounter os w3) (tc_spMsg s) (tc_addrDest s) (lg_config (tc_clientlogic s))
      (messages_left (tc_clientlogic s)) (S_OK, buf', d1, lg)" "800 \<le> cb_allocatedSize (tc_spMsg s)"
    "GetNextMessage_loop rand stack (GetMillisecondCounter os w3) (tc_spMsg s) (tc_addrDest s) (tc_clientlogic s) = (S_OK, buf', d1, lg)"
    by (rule sent_asked [OF core buf st g [unfolded hS]])
  have p: "pending lg" "cb_allocatedSize buf' = cb_allocatedSize (tc_spMsg s)"
    using a(2) stun_client_codes(1,2) by (auto simp: asked_def message_sent_def Let_def)
  have n: "lg_sendCount lg \<noteq> 0" by (rule sent_counts [OF core a(4)])
  have run1: "client_run config (n + 1) lg" using run_ask [OF run buf st g] hS by simp
  have s2: "tc_clientlogic s2 = lg \<and> cb_allocatedSize (tc_spMsg s2) = cb_allocatedSize buf'"
    using ex(1) by (auto simp: sa_def tcp_exchange_def Let_def dest: client_recv_loop_alloc split: if_splits prod.splits option.splits)
  let ?local = "CStunSocket_GetLocalAddress (CStunSocket_UpdateAddresses os (tc_stunsocket s2) w4)"
  obtain hr lg' where pr: "Logic_ProcessResponse (tc_spMsg s2) (tc_addrDest s2) ?local lg = (hr, lg')" by fastforce
  have s1: "tc_clientlogic s1 = lg'" "tc_spMsg s1 = tc_spMsg s2" using ex(2) s2 pr by (simp_all add: tcp_respond_def)
  note after = pending_after_response [OF run1 p(1) pr]
  show "pending (tc_clientlogic s1)" "client_core (tc_clientlogic s1)" "lg_sendCount (tc_clientlogic s1) \<noteq> 0"
    "lg_config (tc_clientlogic s1) = effective_config config" "MAX_STUN_MESSAGE_SIZE \<le> cb_allocatedSize (tc_spMsg s1)"
    using after c n run_core(2) [OF run1] s2 p(2) a(3) by (simp_all add: s1 MAX_STUN_MESSAGE_SIZE_def)
qed

lemma tcp_gives_up:
  assumes run: "client_run config n (tc_clientlogic s)" and buf: "wf_buffer (tc_spMsg s)"
    and conf: "\<not> fTimeoutIsInstant config" "timeoutSeconds config = 0"
    and rnd: "\<And>w. length (fst (snd (co_random os w))) = 16"
    and t: "tcp_turn os local s w = Some (Again, s1, w1)" and c: "\<not> ct_fCompleted (current_test (tc_clientlogic s1))"
    and ask: "tcp_asking os local s1 w1 = (hi, w2)" "SUCCEEDED hi"
    and soon: "(GetMillisecondCounter os w2 - lg_timeLastMessageSent (tc_clientlogic s1)) div 1000 < 3"
  shows "\<exists>s2. tcp_loop os local s w = Some (Fail E_STUNCLIENT_STILL_WAITING, s2, w2)"
proof -
  note a = tcp_turn_again [OF run buf rnd t c]
  obtain s3 v where op: "tcp_open os local s1 w1 = (hi, s3, v)" using ask(1) by (auto simp: tcp_asking_def Let_def split: prod.splits)
  have s3: "tc_spMsg s3 = tc_spMsg s1" "tc_addrDest s3 = tc_addrDest s1" "tc_clientlogic s3 = tc_clientlogic s1"
    using op by (auto simp: tcp_open_def Let_def split: prod.splits)
  obtain rand stack v1 where rd: "co_random os v = (rand, stack, v1)" by (metis prod_cases3)
  have "v1 = w2" using ask(1) by (simp add: tcp_asking_def op tcp_ask_def rd Let_def split: prod.splits)
  have "timeoutSeconds (effective_config config) = 3" using conf by (simp add: effective_config_def)
  then have "waiting (GetMillisecondCounter os w2) (tc_clientlogic s1)" using soon a(3,4) by (simp add: waiting_def)
  then have g: "GetNextMessage rand stack (tc_spMsg s1) (Some (tc_addrDest s1)) (GetMillisecondCounter os w2) (tc_clientlogic s1) =
      (E_STUNCLIENT_STILL_WAITING, tc_spMsg s1, Some (tc_addrDest s1), tc_clientlogic s1)"
    by (rule still_waiting [OF a(2,1) _ a(5)])
  have f: "\<not> SUCCEEDED E_STUNCLIENT_STILL_WAITING" by (simp add: E_STUNCLIENT_STILL_WAITING_def SUCCEEDED_def)
  have "\<exists>s2. tcp_turn os local s1 w1 = Some (Fail E_STUNCLIENT_STILL_WAITING, s2, w2)"
    using ask(2) stun_client_codes(3) f by (simp add: tcp_turn_def op tcp_ask_def rd \<open>v1 = w2\<close> s3 g)
  then show ?thesis by (auto simp: tcp_loop.simps [of os local s w] t tcp_loop.simps [of os local s1 w1])
qed

end
