(* ===== verification/MainTheorems.thy ===== *)
theory MainTheorems
  imports ServerMain UdpTheorems ClientReturns ClientTheorems
begin

text \<open>
  The properties of the two programs: the configurations they build from their command lines, the usage text, and how
  the client's loops end.
\<close>

section \<open>From the arguments to the server\<close>

text \<open>
  C19: A configuration built from the command line is one the server can use: the addresses are well formed and of the
  family asked for, the ports are not zero; in full mode all four sockets are configured, two addresses by two
  different ports, in basic mode only the primary one. A server initialized with it has exactly these sockets.
\<close>

theorem configured_server:
  assumes "netdb_ok nd" "fds_ok os opens"
    and "BuildServerConfigurationFromArgs nd args configOut w = (hr, c, w1)" "SUCCEEDED hr"
    and "server_Initialize os c CStunServer_new w1 = (hr', sv, w2)" "SUCCEEDED hr'"
  shows "\<exists>mode family tsa. parse_mode (Trim (ToLower (sa_strMode args))) = Inr mode \<and>
           parse_family (Trim (sa_strFamily args)) = Inr family \<and> usable_config family mode c \<and>
           initialized c tsa sv \<and> open_positions (sv_arrSockets sv) = (if mode = Full then [0, 1, 2, 3] else [0])"
proof -
  obtain mode family where m: "parse_mode (Trim (ToLower (sa_strMode args))) = Inr mode"
    "parse_family (Trim (sa_strFamily args)) = Inr family" "usable_config family mode c"
    using config_usable [OF assms(1,3,4)] by blast
  have "length (sv_arrSockets CStunServer_new) = 4" by (simp add: CStunServer_new_def)
  moreover have "config_ok c" using m(3) by (simp add: usable_config_def)
  ultimately obtain tsa where i: "initialized c tsa sv" using server_Initialize_ok(1) [OF assms(2) _ _ assms(5,6)] by blast
  then have "open_positions (sv_arrSockets sv) = config_positions c" by (simp add: initialized_def)
  moreover have "config_positions c = (if mode = Full then [0, 1, 2, 3] else [0])"
    using m(3) by (simp add: config_positions_def usable_config_def)
  ultimately show ?thesis using m i by metis
qed

definition demo_adapter :: "string \<Rightarrow> u32 \<Rightarrow> ifaddrs" where
  "demo_adapter name ip = \<lparr>ifa_name = Some (ascii name), ifa_flags = 1, ifa_addr = Some (CSocketAddress_ip4 ip 0)\<rparr>"

definition demo_netdb :: "'w netdb" where
  "demo_netdb =
     \<lparr>nd_getifaddrs = (\<lambda>w. (Inr [demo_adapter ''wlan0'' 1, demo_adapter ''eth0'' 2], w)),
      nd_getaddrinfo = (\<lambda>host family numeric w. ((-2, None), w)),
      nd_pton = (\<lambda>family s. (0, [])),
      nd_ntop = (\<lambda>family bs. Some (ascii ''10.0.0.1'')),
      nd_errno = (\<lambda>w. 0)\<rparr>"

definition demo_args :: StartupArgs where
  "demo_args = StartupArgs_new\<lparr>sa_strMode := ascii ''FULL'', sa_strAltInterface := ascii ''eth0'', sa_strAltPort := ascii ''5000''\<rparr>"

lemma demo_netdb_ok: "netdb_ok demo_netdb"
  by (auto simp: netdb_ok_def demo_netdb_def demo_adapter_def CSocketAddress_ip4_def CSocketAddress_from_in4_def sockaddr_zero_def)

lemma demo_build:
  "case BuildServerConfigurationFromArgs demo_netdb demo_args CStunServerConfig_new (3, {}, []) of
     (hr, c, w) \<Rightarrow> hr = S_OK \<and> fst (server_Initialize demo_os c CStunServer_new w) = S_OK"
  by code_simp

lemma configured_server_witness:
  "\<exists>c sv w w' tsa. BuildServerConfigurationFromArgs demo_netdb demo_args CStunServerConfig_new (3, {}, []) = (S_OK, c, w) \<and>
     server_Initialize demo_os c CStunServer_new w = (S_OK, sv, w') \<and> usable_config AF_INET Full c \<and> initialized c tsa sv"
proof -
  obtain c w where b: "BuildServerConfigurationFromArgs demo_netdb demo_args CStunServerConfig_new (3, {}, []) = (S_OK, c, w)"
    and i: "fst (server_Initialize demo_os c CStunServer_new w) = S_OK"
    using demo_build by (auto split: prod.splits)
  obtain sv w' where s: "server_Initialize demo_os c CStunServer_new w = (S_OK, sv, w')" using i by (metis prod_cases3 fst_conv)
  have "parse_mode (Trim (ToLower (sa_strMode demo_args))) = Inr Full" "parse_family (Trim (sa_strFamily demo_args)) = Inr AF_INET"
    by code_simp+
  with configured_server [OF demo_netdb_ok demo_os_ok(2) b _ s] obtain tsa where "usable_config AF_INET Full c" "initialized c tsa sv"
    by auto
  with b s show ?thesis by blast
qed

section \<open>The usage text\<close>

text \<open>
  C32: A paragraph is printed as lines that hold its words, all of them and in order: each line is the paragraph's
  indentation, cut to the console, and one or more words with single spaces between them, and is longer than the
  console only when it holds a single word.
\<close>

theorem usage_wrapped:
  assumes "0 < width" "SplitParagraphIntoWords (Some s) \<noteq> []"
  shows "\<exists>k groups. k < width \<and> k \<le> length (takeWhile IsWhitespace s) \<and>
           PrintParagraph (Some s) width = map (\<lambda>g. replicate k 0x20 @ spaced g) groups \<and>
           concat groups = SplitParagraphIntoWords (Some s) \<and>
           (\<forall>g \<in> set groups. g \<noteq> [] \<and> (length (replicate k 0x20 @ spaced g) \<le> width \<or> length g = 1))"
  using PrintParagraph_layout [OF assms] unfolding good_line_def .

lemma usage_wrapped_witness:
  "\<exists>k groups. k < 10 \<and> k \<le> length (takeWhile IsWhitespace (ascii ''  one two three'')) \<and>
     PrintParagraph (Some (ascii ''  one two three'')) 10 = map (\<lambda>g. replicate k 0x20 @ spaced g) groups \<and>
     concat groups = SplitParagraphIntoWords (Some (ascii ''  one two three'')) \<and>
     (\<forall>g \<in> set groups. g \<noteq> [] \<and> (length (replicate k 0x20 @ spaced g) \<le> 10 \<or> length g = 1))"
proof -
  have "SplitParagraphIntoWords (Some (ascii ''  one two three'')) \<noteq> []" by code_simp
  then show ?thesis by (intro usage_wrapped) simp
qed

section \<open>The client program\<close>

text \<open>
  C21: A configuration the client builds from its command line is one it can run with: a well-formed server address
  of the family asked for with a port that is not zero, a local address of the same family, over TCP a single
  attempt per test and no filtering test, otherwise the defaults; the client's logic accepts it unless the
  server's address is zero.
\<close>

theorem client_configured:
  assumes "netdb_ok nd" "CreateConfigFromCommandLine nd args c0 sc0 w = (hr, c, sc, w')" "SUCCEEDED hr"
  shows "\<exists>family fTCP. client_family (ca_strFamily args) = Inr family \<and> client_protocol (ToLower (ca_strProtocol args)) = Inr fTCP \<and>
           client_usable family fTCP c sc \<and>
           (CSocketAddress_IsIPAddressZero (addrServer c) \<or>
            (\<exists>lg. CStunClientLogic_Initialize c (CStunClientLogic_new old precheck) = (S_OK, lg)))"
proof -
  obtain family fTCP where u: "client_family (ca_strFamily args) = Inr family"
    "client_protocol (ToLower (ca_strProtocol args)) = Inr fTCP" "client_usable family fTCP c sc"
    using client_config_usable [OF assms] by blast
  then have "CSocketAddress_GetPort (addrServer c) \<noteq> 0" by (simp add: client_usable_def)
  then have "CSocketAddress_IsIPAddressZero (addrServer c) \<or>
      (\<exists>lg. CStunClientLogic_Initialize c (CStunClientLogic_new old precheck) = (S_OK, lg))"
    by (simp add: CStunClientLogic_Initialize_def CStunClientLogic_new_def Let_def)
  with u show ?thesis by blast
qed

definition demo_host :: "'w netdb" where
  "demo_host =
     \<lparr>nd_getifaddrs = (\<lambda>w. (Inr [], w)),
      nd_getaddrinfo = (\<lambda>host family numeric w. ((0, if family = AF_INET then Some (CSocketAddress_ip4 9 0) else
         Some (CSocketAddress_from_in6 (sockaddr_zero\<lparr>sa_family := family\<rparr>))), w)),
      nd_pton = (\<lambda>family s. (0, [])), nd_ntop = (\<lambda>family bs. None), nd_errno = (\<lambda>w. 0)\<rparr>"

definition demo_client_args :: ClientCmdLineArgs where
  "demo_client_args = ClientCmdLineArgs_new\<lparr>ca_strRemoteServer := ascii ''stun.example.org'', ca_strProtocol := ascii ''TCP'',
     ca_strMode := ascii ''full''\<rparr>"

definition demo_memory :: StunClientLogicConfig where
  "demo_memory = \<lparr>addrServer = CSocketAddress_default, fTimeoutIsInstant = True, timeoutSeconds = 7, uMaxAttempts = 7,
     fBehaviorTest = True, fFilteringTest = True\<rparr>"

definition demo_socket_memory :: ClientSocketConfig where
  "demo_socket_memory = \<lparr>cs_family = 0, cs_socktype = 0, cs_addrLocal = CSocketAddress_default\<rparr>"

lemma demo_host_ok: "netdb_ok demo_host"
  by (auto simp: netdb_ok_def demo_host_def wf_addr_def CSocketAddress_ip4_def CSocketAddress_from_in4_def CSocketAddress_from_in6_def sockaddr_zero_def)

lemma client_configured_witness:
  "\<exists>c sc. CreateConfigFromCommandLine demo_host demo_client_args demo_memory demo_socket_memory () = (S_OK, c, sc, ()) \<and>
     client_usable AF_INET True c sc"
proof -
  have "fst (CreateConfigFromCommandLine demo_host demo_client_args demo_memory demo_socket_memory ()) = S_OK"
    "client_family (ca_strFamily demo_client_args) = Inr AF_INET" "client_protocol (ToLower (ca_strProtocol demo_client_args)) = Inr True"
    by code_simp+
  then obtain c sc where b: "CreateConfigFromCommandLine demo_host demo_client_args demo_memory demo_socket_memory () = (S_OK, c, sc, ())"
    by (cases "CreateConfigFromCommandLine demo_host demo_client_args demo_memory demo_socket_memory ()") auto
  with client_configured [OF demo_host_ok b, of demo_memory False] show ?thesis
    using \<open>client_family (ca_strFamily demo_client_args) = Inr AF_INET\<close> \<open>client_protocol (ToLower (ca_strProtocol demo_client_args)) = Inr True\<close>
    by auto
qed

text \<open>
  C20: The UDP client ends: if no call turns the clock back, a \<open>select\<close> that times out has taken its time, and the
  socket becomes readable only finitely often, its loop returns with the results ready, whatever the
  datagrams hold; it has sent no more than the message budget, and the results are consistent: each class
  is the one that the flags and addresses recorded beside it give, and a test without success has none.
\<close>

theorem udp_client_returns:
  assumes "CStunClientLogic_Initialize config (CStunClientLogic_new old precheck) = (S_OK, lg)"
    and "client_calls_ok os arriving ms d" "0 < d" "1000 * unat (timeoutSeconds (effective_config config)) + d + 61000 < 2 ^ 32"
  shows "(\<exists>s w' n. udp_loop os sock (udp_client_new lg) w = Some (Break, s, w') \<and> client_run config n (uc_clientlogic s) \<and>
            n \<le> message_budget config \<and> \<not> running (uc_clientlogic s) \<and>
            classified (effective_config config) (lg_results (uc_clientlogic s))) \<and>
         UdpClientLoop nd os old precheck beyond await config socketconfig w \<noteq> None"
proof -
  have "udp_client_ok config 0 (udp_client_new lg)"
    using run_start [OF assms(1)] wf_CBuffer_alloc [of MAX_STUN_MESSAGE_SIZE] by (simp add: udp_client_ok_def udp_client_new_def)
  note returns = udp_loop_returns [OF assms(2-4) refl this]
  obtain n s w' where r: "udp_loop os sock (udp_client_new lg) w = Some (Break, s, w')" "udp_client_ok config n s"
    "\<not> running (uc_clientlogic s)"
    using returns by blast
  then have run: "client_run config n (uc_clientlogic s)" by (simp add: udp_client_ok_def)
  have "n \<le> message_budget config" "classified (effective_config config) (lg_results (uc_clientlogic s))"
    using run_ok [OF run] by (auto simp: client_ok_def client_core_def)
  moreover have "udp_loop os k (udp_client_new lg) v \<noteq> None" for k v using returns [of k v] by auto
  then have "UdpClientLoop nd os old precheck beyond await config socketconfig w \<noteq> None"
    by (auto simp: UdpClientLoop_def assms(1) Let_def split: prod.splits option.splits if_splits turn.splits) (metis option.distinct(1))
  ultimately show ?thesis using r run by blast
qed

text \<open>
  A system whose state is its time in milliseconds. Nothing is ever received on its UDP sockets; on its TCP
  connections one byte comes at an even time, which makes it odd, and then the end of the stream.
\<close>

definition demo_client_os :: "nat client_os" where
  "demo_client_os =
     \<lparr>os_errno = (\<lambda>w. 11), os_socket = (\<lambda>fam ty w. (3, w)), os_setsockopt = (\<lambda>fd l o' v w. (0, w)), os_bind = (\<lambda>fd a w. (0, w)),
      os_close = (\<lambda>fd w. w), os_getsockname = (\<lambda>fd w. None), os_getpeername = (\<lambda>fd w. None), os_getfl = (\<lambda>fd w. (0, w)),
      os_setfl = (\<lambda>fd fl w. (0, w)),
      os_recvmsg = (\<lambda>fd n fl w. (\<lparr>rm_ret = -1, rm_data = [], rm_name = sockaddr_zero, rm_control = []\<rparr>, w)),
      os_sendto = (\<lambda>fd bs a w. (int (length bs), w)), os_select = (\<lambda>fds w. (0, {}, w + 500)),
      os_pthread_create = (\<lambda>w. (0, w)), os_pthread_join = (\<lambda>w. w),
      os_epoll_create = (\<lambda>n w. (-1, w)), os_epoll_ctl = (\<lambda>ep op fd ev w. (-1, w)), os_epoll_wait = (\<lambda>ep n t w. (-1, [], w)),
      os_poll = (\<lambda>fds t w. (-1, [], w)), os_time = (\<lambda>w. 0), os_accept = (\<lambda>fd w. (-1, w)), os_listen = (\<lambda>fd n w. (-1, w)),
      os_recv = (\<lambda>fd n w. if even w then (1, [0], w + 1) else (0, [], w)), os_send = (\<lambda>fd bs w. (int (length bs), w)),
      os_shutdown = (\<lambda>fd w. w), os_pipe = (\<lambda>w. (-1, 0, 0, w)), os_write = (\<lambda>fd bs w. (-1, w)),
      co_gettimeofday = (\<lambda>w. (int w div 1000, (int w mod 1000) * 1000)), co_random = (\<lambda>w. ((\<lambda>_. 0), replicate 16 0, w)),
      co_connect = (\<lambda>fd a w. (0, w)), co_recvfrom = (\<lambda>fd n w. (-1, [], sockaddr_zero, w))\<rparr>"

lemma demo_client_os_calls [simp]:
  "os_recvmsg demo_client_os fd n fl w = (\<lparr>rm_ret = -1, rm_data = [], rm_name = sockaddr_zero, rm_control = []\<rparr>, w)"
  "os_sendto demo_client_os fd bs a w = (int (length bs), w)" "os_select demo_client_os fds w = (0, {}, w + 500)"
  "os_recv demo_client_os fd n w = (if even w then (1, [0], w + 1) else (0, [], w))" "os_send demo_client_os fd bs w = (int (length bs), w)"
  "co_random demo_client_os w = ((\<lambda>_. 0), replicate 16 0, w)" "co_connect demo_client_os fd a w = (0, w)"
  "os_socket demo_client_os fam ty w = (3, w)" "os_bind demo_client_os fd a w = (0, w)" "os_close demo_client_os fd w = w"
  "os_setsockopt demo_client_os fd l k v w = (0, w)" "os_getsockname demo_client_os fd w = None" "os_getpeername demo_client_os fd w = None"
  by (simp_all add: demo_client_os_def)

lemma demo_clock [simp]: "GetMillisecondCounter demo_client_os w = of_nat w"
proof -
  have "int w div 1000 * 1000 + (int w mod 1000 * 1000) div 1000 = int w" by simp
  moreover have "ucast ((of_nat w :: 64 word) AND 0xffffffff) = (of_nat w :: u32)"
  proof -
    have m: "(0xffffffff :: nat) = mask 32" "(0xffffffff :: int) = mask 32" by (simp_all add: mask_eq_exp_minus_1)
    have "bit (0xffffffff :: nat) n \<longleftrightarrow> n < 32" "bit (0xffffffff :: int) n \<longleftrightarrow> n < 32" for n
      unfolding m by (simp_all only: bit_mask_iff) simp_all
    then show ?thesis by (intro bit_word_eqI) (simp add: bit_simps)
  qed
  moreover have "co_gettimeofday demo_client_os w = (int w div 1000, (int w mod 1000) * 1000)" by (simp add: demo_client_os_def)
  ultimately show ?thesis unfolding GetMillisecondCounter_def by (simp only: prod.case Let_def of_int_of_nat_eq)
qed

lemma demo_client_calls: "client_calls_ok demo_client_os (\<lambda>_. 0) (\<lambda>w. w) 500"
  by (simp add: client_calls_ok_def os_ok_def recv_ok_def)

definition demo_udp_config :: StunClientLogicConfig where
  "demo_udp_config = demo_memory\<lparr>addrServer := CSocketAddress_ip4 9 3478, fTimeoutIsInstant := False, timeoutSeconds := 0, uMaxAttempts := 0\<rparr>"

lemma demo_udp_init:
  "\<exists>lg. CStunClientLogic_Initialize demo_udp_config (CStunClientLogic_new demo_memory False) = (S_OK, lg)"
proof -
  have "\<not> CSocketAddress_IsIPAddressZero (addrServer demo_udp_config)" "CSocketAddress_GetPort (addrServer demo_udp_config) \<noteq> 0"
    by code_simp+
  then show ?thesis by (simp add: CStunClientLogic_Initialize_def CStunClientLogic_new_def Let_def)
qed

lemma udp_client_returns_witness:
  "\<exists>s w' n lg. udp_loop demo_client_os 3 (udp_client_new lg) 0 = Some (Break, s, w') \<and> n \<le> (10 :: nat) \<and>
     client_run demo_udp_config n (uc_clientlogic s)"
proof -
  obtain lg where i: "CStunClientLogic_Initialize demo_udp_config (CStunClientLogic_new demo_memory False) = (S_OK, lg)"
    using demo_udp_init by blast
  have "message_budget demo_udp_config = 10"
    by (simp add: message_budget_def fresh_tests_def effective_config_def demo_udp_config_def demo_memory_def)
  then show ?thesis
    using udp_client_returns [OF i demo_client_calls, of 3 0 demo_host "[]" "\<lambda>s w. w" demo_socket_memory]
    by (auto simp: effective_config_def demo_udp_config_def)
qed

text \<open>
  C31: A TCP client that is cut off gives up: when a response does not complete the test, which a server that closes
  early brings about, and the next turn comes within three seconds, the logic tells the client to wait, which
  the loop takes for an error. It ends without results, although the comment there says that this never happens.
\<close>

theorem tcp_client_gives_up:
  assumes "client_run config n (tc_clientlogic s)" "wf_buffer (tc_spMsg s)"
    and "\<not> fTimeoutIsInstant config" "timeoutSeconds config = 0" "\<And>w. length (fst (snd (co_random os w))) = 16"
    and "tcp_turn os local s w = Some (Again, s1, w1)" "\<not> ct_fCompleted (current_test (tc_clientlogic s1))"
    and "tcp_asking os local s1 w1 = (hr, w2)" "SUCCEEDED hr"
    and "(GetMillisecondCounter os w2 - lg_timeLastMessageSent (tc_clientlogic s1)) div 1000 < 3"
  shows "\<exists>s2. tcp_loop os local s w = Some (Fail E_STUNCLIENT_STILL_WAITING, s2, w2)"
  by (rule tcp_gives_up [OF assms])

lemma demo_close: "\<exists>sk'. CStunSocket_Close demo_client_os sk w = (sk', w) \<and> sk_sock sk' = -1"
  by (cases "sk_sock sk = -1") (simp_all add: CStunSocket_Close_def CStunSocket_Reset_def)

lemma demo_open: "\<exists>sk. tcp_open demo_client_os (CSocketAddress_ip4 0 0) s w = (S_OK, s\<lparr>tc_stunsocket := sk\<rparr>, w)"
proof -
  have f: "CSocketAddress_GetFamily (CSocketAddress_ip4 0 0) \<noteq> AF_INET6" by code_simp
  obtain sk1 where c: "CStunSocket_Close demo_client_os (tc_stunsocket s) w = (sk1, w)" using demo_close by blast
  obtain sk2 where "CStunSocket_Attach demo_client_os 3 sk1 w = (S_OK, sk2, w)"
    using demo_close [of sk1 w] by (cases "sk_sock sk1 = 3") (auto simp: CStunSocket_Attach_def Let_def)
  then show ?thesis using f c by (auto simp: tcp_open_def TCPInit_def InitCommon_def)
qed

lemma demo_cut_off:
  assumes "wf_buffer m" "1 \<le> cb_allocatedSize m" "20 \<le> k"
  shows "\<exists>r'. client_recv_loop demo_client_os sock k 0 (Reader_AttachStream (Some b) True (Reader_Reset r)) m 0 =
    (S_OK, r', m\<lparr>cb_data := map_option (overwrite 0 [0]) (cb_data m), cb_size := 1\<rparr>, 1)"
proof -
  let ?r = "Reader_AttachStream (Some b) True (Reader_Reset r)"
  have n: "unat (HowManyBytesNeeded ?r) = 20"
    by (simp add: HowManyBytesNeeded_def Reader_AttachStream_def Reader_Reset_def Reader_GetStream_def CDataStream_Attach_def Let_def
        CDataStream_GetSize_def stun_consts CDataStream_Reset_def)
  define r2 where "r2 = snd (AddBytes (Some [0]) 1 ?r)"
  define m2 where "m2 = m\<lparr>cb_data := map_option (overwrite 0 [0]) (cb_data m), cb_size := 1\<rparr>"
  have "client_recv_loop demo_client_os sock k 0 ?r m 0 = client_recv_loop demo_client_os sock (k - 1) 1 r2 m2 1"
    using assms(3) n by (simp add: client_recv_loop.simps [of _ _ k] r2_def m2_def)
  moreover have "client_recv_loop demo_client_os sock (k - 1) 1 r2 m2 1 = (S_OK, r2, m2, 1)"
    by (subst client_recv_loop.simps) (simp add: Let_def)
  ultimately show ?thesis by (auto simp: m2_def)
qed

lemma demo_sends:
  "client_send_loop demo_client_os sock bs 0 w = Some (S_OK, w)"
proof (cases "bs = []")
  case True
  then show ?thesis by (simp add: client_send_loop.simps)
next
  case False
  have "client_send_loop demo_client_os sock bs (length bs) w = Some (S_OK, w)" by (simp add: client_send_loop.simps)
  then show ?thesis using False by (subst client_send_loop.simps) simp
qed

lemma tcp_client_gives_up_witness:
  "\<exists>lg s2. CStunClientLogic_Initialize demo_udp_config (CStunClientLogic_new demo_memory False) = (S_OK, lg) \<and>
     tcp_loop demo_client_os (CSocketAddress_ip4 0 0) (tcp_client_new lg) 0 = Some (Fail E_STUNCLIENT_STILL_WAITING, s2, 1)"
proof -
  obtain lg where i: "CStunClientLogic_Initialize demo_udp_config (CStunClientLogic_new demo_memory False) = (S_OK, lg)"
    using demo_udp_init by blast
  let ?s = "tcp_client_new lg" and ?a = "CSocketAddress_ip4 0 0"
  have buf: "wf_buffer (tc_spMsg ?s)" "cb_allocatedSize (tc_spMsg ?s) = 1500"
    using wf_CBuffer_alloc [of 1500] by (simp_all add: tcp_client_new_def)
  obtain sk where op: "tcp_open demo_client_os ?a ?s 0 = (S_OK, ?s\<lparr>tc_stunsocket := sk\<rparr>, 0)" using demo_open by blast
  obtain m d lg1 where g: "GetNextMessage (\<lambda>_. 0) (replicate 16 0) (tc_spMsg ?s) (Some (tc_addrDest ?s)) 0 lg = (S_OK, m, Some d, lg1)"
    "lg_nTestIndex lg1 = 0"
    using first_message [OF i buf(1), of "replicate 16 0" "\<lambda>_. 0" "tc_addrDest ?s" 0] buf(2) by auto
  have core: "client_core lg" and run: "client_run demo_udp_config 0 lg" using core_start(1) [OF i] run_start [OF i] by simp_all
  have run1: "client_run demo_udp_config 1 lg1" using run_ask [OF run buf(1) _ g(1)] by simp
  obtain d1 where a: "asked 0 (tc_spMsg ?s) (tc_addrDest ?s) (lg_config lg) (messages_left lg) (S_OK, m, d1, lg1)"
    by (rule sent_asked [OF core buf(1) _ g(1)]) simp_all
  have p: "pending lg1" "wf_buffer m" "cb_allocatedSize m = 1500" "lg_timeLastMessageSent lg1 = 0"
    using a buf(2) stun_client_codes(1,2) by (auto simp: asked_def message_sent_def Let_def)
  define sa where "sa = ?s\<lparr>tc_stunsocket := sk, tc_spMsg := m, tc_addrDest := d, tc_clientlogic := lg1\<rparr>"
  have lg: "tc_clientlogic ?s = lg" by (simp add: tcp_client_new_def)
  have ask: "tcp_ask demo_client_os (?s\<lparr>tc_stunsocket := sk\<rparr>) 0 = (S_OK, sa, 0)"
    using g(1) by (simp add: tcp_ask_def sa_def lg)
  define m2 where "m2 = m\<lparr>cb_data := map_option (overwrite 0 [0]) (cb_data m), cb_size := 1\<rparr>"
  have m2: "wf_buffer m2" "cb_allocatedSize m2 < size_range" "buffer_bytes m2 = [0]"
    using p(2,3) by (auto simp: m2_def wf_buffer_def size_range_def buffer_bytes_def CBuffer_GetData_def overwrite_def)
  obtain r' where "client_recv_loop demo_client_os (CStunSocket_GetSocketHandle sk) 1500 0
      (Reader_AttachStream (Some (tc_spMsgReader ?s)) True (Reader_Reset (tc_reader ?s))) m 0 = (S_OK, r', m2, 1)"
    using demo_cut_off [OF p(2), of 1500 "CStunSocket_GetSocketHandle sk" "tc_spMsgReader ?s" "tc_reader ?s"] p(3)
    unfolding m2_def by auto
  then obtain s2 where s2: "tcp_exchange demo_client_os (CStunSocket_GetSocketHandle (tc_stunsocket sa)) sa 0 = Some (S_OK, s2, 1)"
    "tc_clientlogic s2 = lg1" "tc_spMsg s2 = m2"
    using p(3) by (simp add: tcp_exchange_def demo_sends sa_def)
  define s1 where "s1 = tcp_respond demo_client_os s2 1"
  have "Reader_GetState (received True [[0]]) \<noteq> BodyValidated"
    using reader_after_state [OF received_after [of "[[0]]" True]] by (simp add: Reader_GetState_def spec_state_def size_range_def)
  then have "snd (Logic_ProcessResponse m2 x y lg1) = lg1" for x y using stray_message_ignored [OF run1 m2(1,2)] m2(3) by simp
  then have s1: "tc_clientlogic s1 = lg1" by (simp add: s1_def tcp_respond_def s2 Let_def split: prod.splits) (metis snd_conv)
  have "\<not> SUCCEEDED E_STUNCLIENT_RESULTS_READY" by (simp add: E_STUNCLIENT_RESULTS_READY_def SUCCEEDED_def)
  then have t: "tcp_turn demo_client_os ?a ?s 0 = Some (Again, s1, 1)"
    using stun_client_codes(1) by (auto simp: tcp_turn_def op ask s2 s1_def)
  obtain sk' where op': "tcp_open demo_client_os ?a s1 1 = (S_OK, s1\<lparr>tc_stunsocket := sk'\<rparr>, 1)" using demo_open by blast
  have asking: "tcp_asking demo_client_os ?a s1 1 = (S_OK, 1)"
    unfolding tcp_asking_def op' Let_def prod.case by (simp add: tcp_ask_def Let_def split: prod.split)
  have run': "client_run demo_udp_config 0 (tc_clientlogic ?s)" unfolding lg by (rule run)
  have nc: "\<not> ct_fCompleted (current_test (tc_clientlogic s1))" using p(1) by (simp add: s1 pending_def test_over_def)
  have "\<exists>s2. tcp_loop demo_client_os ?a ?s 0 = Some (Fail E_STUNCLIENT_STILL_WAITING, s2, 1)"
    by (rule tcp_client_gives_up [OF run' buf(1) _ _ _ t nc asking]) (simp_all add: s1 p(4) demo_udp_config_def)
  then show ?thesis using i by blast
qed

end
