(* ===== verification/Spec2Isabelle.thy ===== *)
theory Spec2Isabelle
  imports ContainerTheorems CodecTheorems HandlerTheorems ClientTheorems UdpTheorems PollTheorems TcpTheorems
    ShareTheorems MainTheorems
begin

text \<open>
  \<^bold>\<open>A model of the STUNTMAN library and its programs: STUN messages, server, client, file sharing.\<close>

  \<^bold>\<open>The program.\<close> \<open>src/stuncore\<close> is a library for the STUN protocol (RFC 5389, RFC 5780 and the older
  RFC 3489): \<open>CStunMessageBuilder\<close> writes messages into a growing byte stream, \<open>CStunMessageReader\<close>
  parses them incrementally, \<open>CStunRequestHandler\<close> answers a parsed request on behalf of a server
  with four sockets, and \<open>CStunClientLogic\<close> runs a client's binding, behaviour and filtering tests.
  The builder and the reader stand on \<open>CDataStream\<close> over \<open>CBuffer\<close> and on \<open>CSocketAddress\<close>; the reader
  keeps its attributes in a \<open>FastHash\<close> of \<open>src/common\<close>; the fingerprint is the CRC-32 of
  \<open>src/boost/crc.hpp\<close>; the handler asks an \<open>IStunAuth\<close>, of which \<open>src/server/sampleauthprovider.cpp\<close>
  has two. \<open>src/server\<close> serves the handler on UDP sockets (\<open>CStunServer\<close>) and on TCP connections
  (\<open>CTCPServer\<close>), the latter over the event loops of \<open>src/networkutils/polling.cpp\<close>. A request goes from the client's builder
  to the server's reader, through the handler into the server's builder, and back to the client's reader.
  \<open>src/server/main.cpp\<close> configures and runs the server from its command line. \<open>src/client/clientmain.cpp\<close> does so for the
  client and, once the mapped address is known, registers with an application server one port above the STUN
  server, asks it for peers, and shares files with one of them: the peer that has the file cuts it into blocks and
  sends one block until it is acknowledged, the other writes the blocks in order.

  \<^bold>\<open>Theories of the model\<close>, in the order in which they call each other. A C++ object is a record with
  the object's members as fields, a method a definition that returns the new record, an output
  parameter a component of the result.
  \<^item> \<open>Prelude\<close>: words, bytes, \<open>size_t\<close> arithmetic, C strings, slices of byte lists.
  \<^item> \<open>HResult\<close> (\<open>common/hresult.h\<close>, \<open>chkmacros.h\<close>): status codes; the \<open>Chk\<close> macros as command lists with
    early return.
  \<^item> \<open>RefCount\<close> (\<open>common/refcountobject.*\<close>, \<open>atomichelpers.cpp\<close>, \<open>objectfactory.h\<close>): counted objects and their pointers, each
    operation as the list of its atomic actions, in threads that interleave; the invariant of the counts is there too.
  \<^item> \<open>ByteOrder\<close>: the network byte order functions and the memory image of integers.
  \<^item> \<open>FastHash\<close> (\<open>common/fasthash.h\<close>): the hash table with its free list, chains and index.
  \<^item> \<open>Crc32\<close> (\<open>boost/crc.hpp\<close>): \<open>crc_basic\<close> and \<open>crc_optimal\<close> with its table, for \<open>crc_32_type\<close>.
  \<^item> \<open>Buffer\<close>, \<open>DataStream\<close> (\<open>stuncore/buffer.*\<close>, \<open>datastream.*\<close>): buffers and streams.
  \<^item> \<open>StunTypes\<close> (with the socket roles), \<open>SocketAddress\<close>, \<open>StunUtils\<close>, \<open>StunAuth\<close>: the headers and sources of these names.
  \<^item> \<open>StunBuilder\<close>, \<open>StunReader\<close> (\<open>stuncore/stunbuilder.*\<close>, \<open>stunreader.*\<close>): all operations.
  \<^item> \<open>MessageHandler\<close> (\<open>stuncore/messagehandler.*\<close>): \<open>ProcessRequest\<close> with all it calls.
  \<^item> \<open>SampleAuth\<close> (\<open>server/sampleauthprovider.cpp\<close>): both providers, with nonces.
  \<^item> \<open>StunClientTests\<close>, \<open>StunClientLogic\<close> (\<open>stuncore/stunclienttests.*\<close>, \<open>stunclientlogic.*\<close>): the three test
    classes with their virtual dispatch, and the state machine that runs them.
  \<^item> \<open>StunSocket\<close> (\<open>networkutils/stunsocket.*\<close>, \<open>recvfromex.cpp\<close>): the owner of a socket and the reception of a
    datagram, over the record \<open>os\<close> of the system calls the code makes.
  \<^item> \<open>SocketThread\<close>, \<open>StunServer\<close> (\<open>server/stunsocketthread.*\<close>, \<open>server.*\<close>): the UDP server and its threads, whose
    loop is a step function inside a step relation in which other threads and the system act.
  \<^item> \<open>FastHashDynamic\<close> (\<open>common/fasthash.cpp\<close>): tables of a prime width chosen at run time.
  \<^item> \<open>Polling\<close> (\<open>networkutils/polling.*\<close>): \<open>CEpoll\<close>, \<open>CPoll\<close> and the virtual functions of \<open>IPolling\<close>.
  \<^item> \<open>StunConnection\<close>, \<open>TcpThread\<close>, \<open>TcpServer\<close> (\<open>server/stunconnection.*\<close>, \<open>tcpserver.*\<close>): the pool of
    connections, the thread that accepts, reads, answers and closes them, its rounds, and the server.
  \<^item> \<open>StringHelper\<close> (\<open>common/stringhelper.cpp\<close>, \<open>cmdlineparser.*\<close>, \<open>datacheck.cpp\<close>), \<open>PrettyPrint\<close> (\<open>common/prettyprint.cpp\<close>,
    \<open>getconsolewidth.cpp\<close>, \<open>logger.*\<close>): strings, command line, checksums, usage texts wrapped to the console, the log.
  \<^item> \<open>Adapters\<close> (\<open>networkutils/adapters.cpp\<close>, \<open>resolvehostname.cpp\<close>, the text form of \<open>stuncore/socketaddress.cpp\<close>): adapters,
    host names and addresses as text, over the record \<open>netdb\<close> of the library calls they make.
  \<^item> \<open>ServerMain\<close> (\<open>server/main.cpp\<close>): arguments, configuration, start and end of the server.
  \<^item> \<open>FileBuffer\<close> (the classes of \<open>src/client\<close>), \<open>FilePeer\<close> (\<open>clientmain.cpp\<close>: \<open>receiveThreadFunction\<close>, \<open>sendThreadFunction\<close>):
    files in blocks, and a peer of the file sharing, one definition per branch of its receive loop.
  \<^item> \<open>ClientMain\<close>, \<open>ClientLoops\<close> (the rest of \<open>clientmain.cpp\<close>): the client's configuration, its UDP and TCP loops, the
    requests to the application server, \<open>main\<close>.

  \<^bold>\<open>Theories of proofs.\<close>
  \<^item> \<open>FastHashCorrect\<close> has the contract of a table with duplicate keys as a locale; it, \<open>FastHashOps\<close>
    and \<open>FastHashRemove\<close> give the representation invariant of \<open>FastHash\<close>, show that every operation keeps
    it, and interpret the locale on it.
  \<^item> \<open>Buffer\<close> ends with the contract of an append-only writer as a locale, interpreted on streams (\<open>DataStream\<close>)
    and on builders (\<open>BuilderCorrect\<close>), where each writer of the builder gets the bytes it appends;
    \<open>BuilderSeal\<close> treats what is patched in later (length, fingerprint, integrity).
  \<^item> \<open>ReaderCorrect\<close> states what a reader makes of a text as a function of the text (\<open>spec_state\<close>,
    \<open>spec_reader\<close>) and shows that \<open>AddBytes\<close> computes it for every segmentation; it orders the
    parse states, with the \<open>linorder\<close> instance, and shows that bytes only move forward in it.
  \<^item> \<open>RoundTrip\<close> defines the wire image \<open>message t c tid as\<close> and shows that a reader of it has the header
    and the attributes; \<open>MessageAccess\<close> does the same for each getter, \<open>MessageBuild\<close> for each way of writing a
    message, \<open>MessageVerify\<close> for the integrity and fingerprint checks and for whole messages.
  \<^item> \<open>HandlerBuild\<close>, \<open>HandlerAuth\<close>, \<open>HandlerCorrect\<close> refine the handler to a decision: \<open>reply_to\<close> computes the
    reply as a value from the request, the addresses and the provider's answer, and \<open>ProcessRequest\<close>
    produces its bytes. The provider's contract is the locale \<open>auth_provider\<close> of \<open>StunAuth\<close>, interpreted on
    both providers. \<open>ServerReply\<close> reads such replies back.
  \<^item> \<open>ClientContract\<close> is the contract of a client test as a locale, interpreted on the three classes and on
    the virtual dispatch; \<open>ClientSession\<close> has the invariant of the
    results, which ties each class to the flags beside it; \<open>ClientRun\<close> the runs of a client as an inductive relation with the
    invariant of its states, and what joins client and server; \<open>ClientTrace\<close> the runs with the history of the messages, and
    the results as a function of that history, by the classes of RFC 5780; \<open>ClientReturns\<close> shows that the loop of the UDP client ends and that of the TCP client gives up.
  \<^item> \<open>ReaderReuse\<close> shows that a reset reader is as good as a new one; \<open>ThreadCorrect\<close> has the invariant of a
    socket thread in every reachable state and what one datagram makes it send, and the order in which
    it serves its sockets, \<open>ServerSetup\<close> the descriptors, sockets and threads of the server.
  \<^item> \<open>UniqueMap\<close> is the contract of a table used as a map, interpreted on \<open>FastHash\<close>; \<open>PollingCorrect\<close> that of a set of
    watched descriptors, interpreted on \<open>CPoll\<close>; \<open>PollEvents\<close> follows the events of a call of \<open>poll\<close>.
  \<^item> \<open>TcpPool\<close> has the invariant of a TCP thread: objects, tables, descriptors, and what each connection has
    received and sent, seen through an observer of the system; \<open>TcpSteps\<close>, \<open>TcpLoops\<close>, \<open>TcpAccept\<close>
    and \<open>TcpRun\<close> show that closing, reading and writing, sweeping, accepting and whole rounds keep it and that the loops
    return, \<open>TcpSetup\<close> that \<open>Init\<close> establishes it and \<open>Stop\<close> ends it; \<open>TcpDemo\<close> is a system for examples.
  \<^item> \<open>FileTransfer\<close> is two peers, strangers and a network that loses, duplicates and reorders datagrams as an
    inductive step relation; \<open>FileSharing\<close> proves its invariant.
  \<^item> \<open>ContainerTheorems\<close>, \<open>CodecTheorems\<close>, \<open>HandlerTheorems\<close>, \<open>ClientTheorems\<close>, \<open>UdpTheorems\<close>, \<open>PollTheorems\<close>,
    \<open>TcpTheorems\<close>, \<open>ShareTheorems\<close> and \<open>MainTheorems\<close> hold the properties, each after a text with its number, and their examples.

  \<^bold>\<open>What the properties say.\<close> The hash table refines a multimap; the table-driven CRC is the bitwise one. The reader's state is a function of the text received, independent of how it is
  cut, and keeps every attribute inside the text; every message, attribute, fingerprint and integrity check that the builder writes is read
  and validated by the reader. The handler produces the decided reply inside the caller's buffer,
  refuses what it must, serves nobody whose credentials do not check, signs what it must, and
  answers change requests from the right socket; a client reads the reply. The client's loop ends,
  sends a bounded number of messages, finishes, and its results are what the messages sent and heard say, by the classes of RFC 5780 where the connection
  is not direct; with the server it learns the address from
  which its request came. The UDP server opens exactly the configured sockets or none, answers every
  datagram as a new reader and the decision would, in any state its threads reach, and starves no
  socket. In every state a TCP thread can reach, each connection has sent a prefix of the decided reply
  and nothing before a whole request, the open descriptors are exactly those accounted for,
  the sweep closes the old ones, and a round returns; after a failed start and after every stop nothing stays open. The polling object
  refines a map and hands out every event once. A server configured from its command line can be used, and the UDP server
  started with it has exactly the sockets configured; a client's configuration is one its logic accepts, and the UDP client's loop
  returns. Two peers may share files whatever the network does: a file being received is a prefix of the shared one as far as the
  device has room, closed only when whole, and every file that is not empty can be transferred completely. Usage texts fit the console and keep their words. Counted pointers
  used as in the programs never reach a deleted object and leave none behind, however the threads interleave.

  Some properties state defects of the code: the long-term provider never
  lets anybody in, a direct connection never gets its filtering class, the TCP client whose server closes the connection
  early does not see it and gives up with an error, the last block of a file delivered twice makes the receiver delete its
  buffer twice. Smaller facts
  (streams read back what was written, the reader never moves back, a fresh nonce is refused, a retransmission repeats
  the message, an event touches no other connection, addresses and error codes are read back, the width of a table is the
  least prime) stand beside them as theorems.

  \<^bold>\<open>Conventions and bounds.\<close> \<open>ASSERT\<close> is empty, as in a release build. \<open>size_t\<close> has 32 bits
  (\<open>size_range\<close>), as on the Android targets of the build files, and wraps where the code adds
  sizes; theorems about streams ask for room below that bound. Reference-counted buffers are values;
  where another owner's view matters, the stream keeps the buffer it left behind (\<open>attached_buffer\<close>).
  Memory that C++ leaves indeterminate is zero, or an argument where it can be observed (the stack of
  \<open>AddRandomTransactionId\<close>, the members the client's constructor does not set). Loops are total functions
  with measures; only the walk along a hash chain (\<open>find_loop\<close>) and the reindexing take fuel, the number of
  items of the table, which a well-formed chain cannot exceed, so that the walk returns, and the reset of the pool the number of its
  objects. The TCP thread's loops over \<open>recv\<close>, \<open>send\<close> and the tables are partial functions into \<open>option\<close>, shown to return.

  \<^bold>\<open>Parameters.\<close> HMAC-SHA1 and MD5 (OpenSSL) are arguments of the definitions that use them; theorems
  assume at most that they give 20 and 16 bytes, and the examples use concrete functions. The clock
  and the random source are arguments too. The system calls are the fields of a record, over an
  arbitrary state of the system; what their manual pages promise is \<open>os_ok\<close>, \<open>fds_ok\<close>, \<open>poll_ok\<close>, \<open>tcp_calls_ok\<close>,
  \<open>setup_calls_ok\<close> and \<open>client_calls_ok\<close>; the calls that list adapters, resolve names and convert addresses are the fields of
  \<open>netdb\<close>, with \<open>netdb_ok\<close>; \<open>getopt_long\<close> and the addresses \<open>new\<close> returns are arguments. An authentication provider is any function within the
  contract of \<open>auth_provider\<close>.

  \<^bold>\<open>Not modelled.\<close> The calls of the log in the components and their \<open>Dump\<close> and \<open>printf\<close> lines, which are output only;
  signal masks and the wait for a signal, which are the argument \<open>await\<close>; the texts of the usage, which the build
  generates, and \<open>src/resources\<close>. In the components other than \<open>RefCount\<close> a counted object is a value and its owner's field
  holds it. Of Boost only the CRC is modelled, for the type the fingerprint uses: the rest are \<open>shared_ptr\<close>, which holds
  the buffers that are values here, and headers that these two include.
\<close>

end
